(* ===== verification/Prelude.thy ===== *)
theory Prelude
  imports Main "HOL-Library.AList"
begin

section \<open>Shared vocabulary of the model\<close>

text \<open>
  What every component theory needs and no component owns: the exceptions the
  source raises, Python's insertion-ordered dictionaries (as lists of keys and as
  association lists), the standard library's \<open>bisect\<close>, decimal numerals, and
  the collections of rewrite rules that carry the component proofs.
\<close>

named_theorems order_simps \<open>derived state of one order after each mutation\<close>
named_theorems book_simps \<open>contents of a book side after each operation\<close>
named_theorems frame_simps \<open>what an operation leaves alone\<close>

subsection \<open>Exceptions\<close>

text \<open>
  Every exception of the modelled modules is a constructor; an operation that may
  raise returns \<open>exn + 'a\<close>, with \<open>Inl\<close> for the exception.
\<close>

datatype exn =
    ValueError
  | OverflowError
  | RuntimeError
  | TypeError
  | KeyError
  | IndexError
  | AttributeError
  | DuplicateClOrdID
  | ReferenceDataError
  | InvalidOperation
  | DecimalOverflow
  | PriceError
  | StructError

text \<open>Sequencing: the first exception is the result.\<close>

definition bind_exn :: "exn + 'a \<Rightarrow> ('a \<Rightarrow> exn + 'b) \<Rightarrow> exn + 'b" where
  "bind_exn m f = (case m of Inl e \<Rightarrow> Inl e | Inr x \<Rightarrow> f x)"

lemma bind_exn_simps [simp]:
  "bind_exn (Inl e) f = Inl e"
  "bind_exn (Inr x) f = f x"
  by (simp_all add: bind_exn_def)

lemma bind_exn_Inr: "bind_exn m f = Inr y \<longleftrightarrow> (\<exists>x. m = Inr x \<and> f x = Inr y)"
  by (cases m) simp_all

lemma bind_exn_Inl: "bind_exn m f = Inl e \<longleftrightarrow> m = Inl e \<or> (\<exists>x. m = Inr x \<and> f x = Inl e)"
  by (cases m) simp_all

text \<open>Python's truth of an optional string: absent and empty are both false.\<close>

definition truthy :: "string option \<Rightarrow> bool" where
  "truthy s = (case s of None \<Rightarrow> False | Some t \<Rightarrow> t \<noteq> [])"

lemma truthy_simps [simp]:
  "truthy None = False"
  "truthy (Some t) = (t \<noteq> [])"
  by (simp_all add: truthy_def)

subsection \<open>Ordered dictionaries\<close>

text \<open>
  \<open>OrderedDict\<close> keyed by an order's identifier, holding the order itself: the model
  keeps the keys in insertion order, and the store of orders gives the values.
  Assigning to a present key keeps its place; a new key goes to the end.
\<close>

definition od_insert :: "'a \<Rightarrow> 'a list \<Rightarrow> 'a list" where
  "od_insert x xs = (if x \<in> set xs then xs else xs @ [x])"

definition od_remove :: "'a \<Rightarrow> 'a list \<Rightarrow> 'a list" where
  "od_remove x xs = filter (\<lambda>y. y \<noteq> x) xs"

lemma set_od_insert [simp]: "set (od_insert x xs) = insert x (set xs)"
  by (auto simp: od_insert_def)

lemma set_od_remove [simp]: "set (od_remove x xs) = set xs - {x}"
  by (auto simp: od_remove_def)

lemma distinct_od_insert [simp]: "distinct (od_insert x xs) = distinct xs"
  by (auto simp: od_insert_def)

lemma distinct_od_remove [simp]: "distinct xs \<Longrightarrow> distinct (od_remove x xs)"
  by (simp add: od_remove_def)

lemma od_remove_id [simp]: "x \<notin> set xs \<Longrightarrow> od_remove x xs = xs"
  by (induction xs) (auto simp: od_remove_def)

lemma od_insert_new [simp]: "x \<notin> set xs \<Longrightarrow> od_insert x xs = xs @ [x]"
  by (simp add: od_insert_def)

lemma od_remove_Nil [simp]: "od_remove x [] = []"
  by (simp add: od_remove_def)

lemma od_remove_Cons_eq [simp]: "od_remove x (x # xs) = od_remove x xs"
  by (simp add: od_remove_def)

lemma od_remove_append [simp]: "od_remove x (xs @ ys) = od_remove x xs @ od_remove x ys"
  by (simp add: od_remove_def)

lemma od_remove_eq_Nil: "od_remove x xs = [] \<longleftrightarrow> set xs \<subseteq> {x}"
  by (auto simp: od_remove_def filter_empty_conv)

lemma length_od_remove_le: "length (od_remove x xs) \<le> length xs"
  by (simp add: od_remove_def)

subsection \<open>Insertion-ordered association lists\<close>

text \<open>
  A Python \<open>dict\<close> that is iterated keeps its keys in insertion order:
  \<open>AList.update\<close> rewrites a present key in place and appends a new one, and
  \<open>AList.delete\<close> drops the key, as the language does.
\<close>

lemma keys_update: "fst ` set (AList.update k v ps) = insert k (fst ` set ps)"
  by (simp add: dom_update[simplified dom_map_of_conv_image_fst] del: dom_map_of_conv_image_fst)

lemma keys_delete: "fst ` set (AList.delete k ps) = fst ` set ps - {k}"
  by (auto simp: AList.delete_eq)

lemma map_of_in_set: "map_of ps k = Some v \<Longrightarrow> (k, v) \<in> set ps"
  by (rule map_of_SomeD)

lemma distinct_keys_delete:
  "distinct (map fst ps) \<Longrightarrow> distinct (map fst (AList.delete k ps))"
  by (rule distinct_delete)

lemma update_fresh: "k \<notin> fst ` set ps \<Longrightarrow> AList.update k v ps = ps @ [(k, v)]"
  by (induction ps) auto

lemma map_of_update_eq: "map_of (AList.update k v ps) = (map_of ps)(k \<mapsto> v)"
  by (rule AList.update_conv')

lemma map_of_delete_eq: "map_of (AList.delete k ps) = (map_of ps)(k := None)"
  by (rule AList.delete_conv')

subsection \<open>The standard library's bisection\<close>

text \<open>
  \<open>bisect.bisect_left\<close> and \<open>bisect.bisect_right\<close> as CPython runs them, on a list
  and a half-open index range, and what they compute on a sorted list.
\<close>

function bisect_left_loop :: "'a::linorder list \<Rightarrow> 'a \<Rightarrow> nat \<Rightarrow> nat \<Rightarrow> nat" where
  "bisect_left_loop a x lo hi =
     (if lo < hi
      then (let mid = (lo + hi) div 2
            in if a ! mid < x then bisect_left_loop a x (Suc mid) hi
               else bisect_left_loop a x lo mid)
      else lo)"
  by pat_completeness auto
termination
  by (relation "measure (\<lambda>(a, x, lo, hi). hi - lo)") auto

function bisect_right_loop :: "'a::linorder list \<Rightarrow> 'a \<Rightarrow> nat \<Rightarrow> nat \<Rightarrow> nat" where
  "bisect_right_loop a x lo hi =
     (if lo < hi
      then (let mid = (lo + hi) div 2
            in if x < a ! mid then bisect_right_loop a x lo mid
               else bisect_right_loop a x (Suc mid) hi)
      else lo)"
  by pat_completeness auto
termination
  by (relation "measure (\<lambda>(a, x, lo, hi). hi - lo)") auto

declare bisect_left_loop.simps [simp del]
declare bisect_right_loop.simps [simp del]

definition bisect_left :: "'a::linorder list \<Rightarrow> 'a \<Rightarrow> nat" where
  "bisect_left a x = bisect_left_loop a x 0 (length a)"

definition bisect_right :: "'a::linorder list \<Rightarrow> 'a \<Rightarrow> nat" where
  "bisect_right a x = bisect_right_loop a x 0 (length a)"

lemma bisect_left_loop_spec:
  "sorted a \<Longrightarrow> lo \<le> hi \<Longrightarrow> hi \<le> length a \<Longrightarrow>
   (\<forall>i < lo. a ! i < x) \<Longrightarrow> (\<forall>i. hi \<le> i \<longrightarrow> i < length a \<longrightarrow> x \<le> a ! i) \<Longrightarrow>
   bisect_left_loop a x lo hi \<le> length a \<and>
   (\<forall>i < bisect_left_loop a x lo hi. a ! i < x) \<and>
   (\<forall>i. bisect_left_loop a x lo hi \<le> i \<longrightarrow> i < length a \<longrightarrow> x \<le> a ! i)"
proof (induction a x lo hi rule: bisect_left_loop.induct)
  case (1 a x lo hi)
  show ?case
  proof (cases "lo < hi")
    case False
    then have "bisect_left_loop a x lo hi = lo" by (subst bisect_left_loop.simps) simp
    with False "1.prems" show ?thesis by auto
  next
    case True
    let ?mid = "(lo + hi) div 2"
    have mid: "lo \<le> ?mid" "?mid < hi" using True by auto
    show ?thesis
    proof (cases "a ! ?mid < x")
      case True
      have "\<forall>i < Suc ?mid. a ! i < x"
      proof (intro allI impI)
        fix i assume "i < Suc ?mid"
        then have "a ! i \<le> a ! ?mid"
          using \<open>sorted a\<close> mid \<open>hi \<le> length a\<close> by (intro sorted_nth_mono) auto
        with True show "a ! i < x" by simp
      qed
      with "1.IH"(1) [OF \<open>lo < hi\<close> refl True] "1.prems" mid
      show ?thesis using True \<open>lo < hi\<close>
        by (simp add: bisect_left_loop.simps [of a x lo hi] Let_def)
    next
      case False
      have "\<forall>i. ?mid \<le> i \<longrightarrow> i < length a \<longrightarrow> x \<le> a ! i"
      proof (intro allI impI)
        fix i assume "?mid \<le> i" and "i < length a"
        then have "a ! ?mid \<le> a ! i"
          using \<open>sorted a\<close> by (intro sorted_nth_mono) auto
        with False show "x \<le> a ! i" by simp
      qed
      with "1.IH"(2) [OF \<open>lo < hi\<close> refl False] "1.prems" mid
      show ?thesis using False \<open>lo < hi\<close>
        by (simp add: bisect_left_loop.simps [of a x lo hi] Let_def)
    qed
  qed
qed

lemma bisect_right_loop_spec:
  "sorted a \<Longrightarrow> lo \<le> hi \<Longrightarrow> hi \<le> length a \<Longrightarrow>
   (\<forall>i < lo. a ! i \<le> x) \<Longrightarrow> (\<forall>i. hi \<le> i \<longrightarrow> i < length a \<longrightarrow> x < a ! i) \<Longrightarrow>
   bisect_right_loop a x lo hi \<le> length a \<and>
   (\<forall>i < bisect_right_loop a x lo hi. a ! i \<le> x) \<and>
   (\<forall>i. bisect_right_loop a x lo hi \<le> i \<longrightarrow> i < length a \<longrightarrow> x < a ! i)"
proof (induction a x lo hi rule: bisect_right_loop.induct)
  case (1 a x lo hi)
  show ?case
  proof (cases "lo < hi")
    case False
    then have "bisect_right_loop a x lo hi = lo" by (subst bisect_right_loop.simps) simp
    with False "1.prems" show ?thesis by auto
  next
    case True
    let ?mid = "(lo + hi) div 2"
    have mid: "lo \<le> ?mid" "?mid < hi" using True by auto
    show ?thesis
    proof (cases "x < a ! ?mid")
      case False
      have "\<forall>i < Suc ?mid. a ! i \<le> x"
      proof (intro allI impI)
        fix i assume "i < Suc ?mid"
        then have "a ! i \<le> a ! ?mid"
          using \<open>sorted a\<close> mid \<open>hi \<le> length a\<close> by (intro sorted_nth_mono) auto
        with False show "a ! i \<le> x" by simp
      qed
      with "1.IH"(2) [OF \<open>lo < hi\<close> refl False] "1.prems" mid
      show ?thesis using False \<open>lo < hi\<close>
        by (simp add: bisect_right_loop.simps [of a x lo hi] Let_def)
    next
      case True
      have "\<forall>i. ?mid \<le> i \<longrightarrow> i < length a \<longrightarrow> x < a ! i"
      proof (intro allI impI)
        fix i assume "?mid \<le> i" and "i < length a"
        then have "a ! ?mid \<le> a ! i"
          using \<open>sorted a\<close> by (intro sorted_nth_mono) auto
        with True show "x < a ! i" by simp
      qed
      with "1.IH"(1) [OF \<open>lo < hi\<close> refl True] "1.prems" mid
      show ?thesis using True \<open>lo < hi\<close>
        by (simp add: bisect_right_loop.simps [of a x lo hi] Let_def)
    qed
  qed
qed

lemma split_point_filter:
  "r \<le> length a \<Longrightarrow> \<forall>i < r. P (a ! i) \<Longrightarrow> \<forall>i. r \<le> i \<longrightarrow> i < length a \<longrightarrow> \<not> P (a ! i) \<Longrightarrow>
   take r a = filter P a \<and> drop r a = filter (\<lambda>y. \<not> P y) a"
proof -
  assume r: "r \<le> length a" and lo: "\<forall>i < r. P (a ! i)"
    and hi: "\<forall>i. r \<le> i \<longrightarrow> i < length a \<longrightarrow> \<not> P (a ! i)"
  have a: "\<forall>x \<in> set (take r a). P x"
    using r lo by (auto simp: in_set_conv_nth)
  have b: "\<forall>x \<in> set (drop r a). \<not> P x"
    using r hi by (auto simp: in_set_conv_nth)
  have "filter P a = filter P (take r a) @ filter P (drop r a)"
    by (metis append_take_drop_id filter_append)
  moreover have "filter (\<lambda>y. \<not> P y) a
      = filter (\<lambda>y. \<not> P y) (take r a) @ filter (\<lambda>y. \<not> P y) (drop r a)"
    by (metis append_take_drop_id filter_append)
  ultimately show ?thesis
    using a b by (simp add: filter_id_conv filter_empty_conv)
qed

lemma bisect_left_split:
  assumes "sorted a"
  shows "take (bisect_left a x) a = filter (\<lambda>y. y < x) a"
    and "drop (bisect_left a x) a = filter (\<lambda>y. \<not> y < x) a"
proof -
  have "bisect_left a x \<le> length a \<and> (\<forall>i < bisect_left a x. a ! i < x) \<and>
      (\<forall>i. bisect_left a x \<le> i \<longrightarrow> i < length a \<longrightarrow> x \<le> a ! i)"
    unfolding bisect_left_def by (rule bisect_left_loop_spec) (use assms in auto)
  then have "take (bisect_left a x) a = filter (\<lambda>y. y < x) a \<and>
      drop (bisect_left a x) a = filter (\<lambda>y. \<not> y < x) a"
    by (intro split_point_filter) (auto simp: not_less)
  then show "take (bisect_left a x) a = filter (\<lambda>y. y < x) a"
    and "drop (bisect_left a x) a = filter (\<lambda>y. \<not> y < x) a" by simp_all
qed

lemma bisect_right_split:
  assumes "sorted a"
  shows "take (bisect_right a x) a = filter (\<lambda>y. y \<le> x) a"
    and "drop (bisect_right a x) a = filter (\<lambda>y. \<not> y \<le> x) a"
proof -
  have "bisect_right a x \<le> length a \<and> (\<forall>i < bisect_right a x. a ! i \<le> x) \<and>
      (\<forall>i. bisect_right a x \<le> i \<longrightarrow> i < length a \<longrightarrow> x < a ! i)"
    unfolding bisect_right_def by (rule bisect_right_loop_spec) (use assms in auto)
  then have "take (bisect_right a x) a = filter (\<lambda>y. y \<le> x) a \<and>
      drop (bisect_right a x) a = filter (\<lambda>y. \<not> y \<le> x) a"
    by (intro split_point_filter) (auto simp: not_le)
  then show "take (bisect_right a x) a = filter (\<lambda>y. y \<le> x) a"
    and "drop (bisect_right a x) a = filter (\<lambda>y. \<not> y \<le> x) a" by simp_all
qed

lemma bisect_right_le_length:
  assumes "sorted a"
  shows "bisect_right a x \<le> length a"
  unfolding bisect_right_def
  using bisect_right_loop_spec [of a 0 "length a" x] assms by simp

lemma bisect_left_le_length:
  assumes "sorted a"
  shows "bisect_left a x \<le> length a"
  unfolding bisect_left_def
  using bisect_left_loop_spec [of a 0 "length a" x] assms by simp

text \<open>\<open>bisect.insort\<close>: insert to the right of the equal elements.\<close>

definition insort_right :: "'a::linorder \<Rightarrow> 'a list \<Rightarrow> 'a list" where
  "insort_right x a = (let i = bisect_right a x in take i a @ [x] @ drop i a)"

lemma insort_right_sorted_eq:
  assumes "sorted a"
  shows "insort_right x a = filter (\<lambda>y. y \<le> x) a @ [x] @ filter (\<lambda>y. \<not> y \<le> x) a"
  using assms by (simp add: insort_right_def Let_def bisect_right_split)

lemma set_insort_right: "set (insort_right x a) = insert x (set a)"
proof -
  have "set a = set (take (bisect_right a x) a) \<union> set (drop (bisect_right a x) a)"
    by (metis append_take_drop_id set_append)
  then show ?thesis by (auto simp: insort_right_def Let_def)
qed

lemma strict_sorted_insort_right:
  assumes "sorted_wrt (<) a" and "x \<notin> set a"
  shows "sorted_wrt (<) (insort_right x a)"
proof -
  from assms(1) have s: "sorted a" by (simp add: strict_sorted_iff)
  from assms show ?thesis
    by (auto simp: insort_right_sorted_eq [OF s] sorted_wrt_append sorted_wrt_filter not_le
        order_le_less dest: less_trans)
qed

subsection \<open>Decimal numerals\<close>

text \<open>\<open>str\<close> of a non-negative integer, and the value its digits denote.\<close>

fun digit_char :: "nat \<Rightarrow> char" where
  "digit_char d = char_of (48 + d)"

fun string_of_nat :: "nat \<Rightarrow> string" where
  "string_of_nat n =
     (if n < 10 then [digit_char n] else string_of_nat (n div 10) @ [digit_char (n mod 10)])"

declare string_of_nat.simps [simp del]

definition string_of_int :: "int \<Rightarrow> string" where
  "string_of_int i =
     (if i < 0 then CHR ''-'' # string_of_nat (nat (- i)) else string_of_nat (nat i))"

definition digit_val :: "char \<Rightarrow> nat" where
  "digit_val c = of_char c - 48"

definition is_digit :: "char \<Rightarrow> bool" where
  "is_digit c \<longleftrightarrow> 48 \<le> (of_char c :: nat) \<and> (of_char c :: nat) \<le> 57"

definition nat_of_digits :: "string \<Rightarrow> nat" where
  "nat_of_digits s = foldl (\<lambda>n c. 10 * n + digit_val c) 0 s"

text \<open>\<open>'%0*d' % (width, n)\<close>: pad with zeros on the left.\<close>

definition zero_pad :: "nat \<Rightarrow> nat \<Rightarrow> string" where
  "zero_pad width n =
     (let s = string_of_nat n in replicate (width - length s) (CHR ''0'') @ s)"

lemma digit_val_digit_char [simp]: "d < 10 \<Longrightarrow> digit_val (digit_char d) = d"
  by (simp add: digit_val_def)

lemma is_digit_digit_char [simp]: "d < 10 \<Longrightarrow> is_digit (digit_char d)"
  by (simp add: is_digit_def)

declare digit_char.simps [simp del]

lemma nat_of_digits_snoc [simp]: "nat_of_digits (s @ [c]) = 10 * nat_of_digits s + digit_val c"
  by (simp add: nat_of_digits_def)

lemma nat_of_digits_Nil [simp]: "nat_of_digits [] = 0"
  by (simp add: nat_of_digits_def)

lemma nat_of_digits_single [simp]: "nat_of_digits [c] = digit_val c"
  by (simp add: nat_of_digits_def)

lemma nat_of_digits_string_of_nat [simp]: "nat_of_digits (string_of_nat n) = n"
proof (induction n rule: string_of_nat.induct)
  case (1 n)
  show ?case
  proof (cases "n < 10")
    case True
    then show ?thesis by (simp add: string_of_nat.simps [of n])
  next
    case False
    with "1.IH" show ?thesis by (simp add: string_of_nat.simps [of n])
  qed
qed

lemma string_of_nat_digits: "c \<in> set (string_of_nat n) \<Longrightarrow> is_digit c"
proof (induction n arbitrary: c rule: string_of_nat.induct)
  case (1 n)
  then show ?case
    by (cases "n < 10") (auto simp: string_of_nat.simps [of n])
qed

lemma string_of_nat_nonempty [simp]: "string_of_nat n \<noteq> []"
  by (subst string_of_nat.simps) simp

lemma string_of_nat_inject [simp]: "string_of_nat m = string_of_nat n \<longleftrightarrow> m = n"
  by (metis nat_of_digits_string_of_nat)

lemma nat_of_digits_leading_zero [simp]: "nat_of_digits (replicate k (CHR ''0'') @ s) = nat_of_digits s"
  by (induction k) (simp_all add: nat_of_digits_def digit_val_def)

lemma nat_of_digits_zero_pad [simp]: "nat_of_digits (zero_pad w n) = n"
  by (simp add: zero_pad_def Let_def)

lemma zero_pad_inject [simp]: "zero_pad w m = zero_pad w n \<longleftrightarrow> m = n"
  by (metis nat_of_digits_zero_pad)

lemma length_zero_pad: "length (zero_pad w n) = max w (length (string_of_nat n))"
  by (simp add: zero_pad_def Let_def)

lemma length_string_of_nat_le: "0 < k \<Longrightarrow> n < 10 ^ k \<Longrightarrow> length (string_of_nat n) \<le> k"
proof (induction n arbitrary: k rule: string_of_nat.induct)
  case (1 n)
  show ?case
  proof (cases "n < 10")
    case True
    with "1.prems" show ?thesis by (simp add: string_of_nat.simps [of n])
  next
    case False
    obtain j where k: "k = Suc j" using "1.prems"(1) by (cases k) auto
    with False "1.prems" have j: "0 < j" by (cases j) auto
    from "1.prems"(2) k have "n div 10 < 10 ^ j" by (simp add: less_mult_imp_div_less mult.commute)
    with "1.IH" [OF False j] have "length (string_of_nat (n div 10)) \<le> j" .
    with False k show ?thesis by (simp add: string_of_nat.simps [of n])
  qed
qed

lemma string_of_nat_lt: "n < 10 ^ length (string_of_nat n)"
proof (induction n rule: string_of_nat.induct)
  case (1 n)
  show ?case
  proof (cases "n < 10")
    case True
    then show ?thesis by (simp add: string_of_nat.simps [of n])
  next
    case False
    with "1.IH" have "n div 10 < 10 ^ length (string_of_nat (n div 10))" by simp
    then have "n < 10 * 10 ^ length (string_of_nat (n div 10))" by simp
    with False show ?thesis by (simp add: string_of_nat.simps [of n])
  qed
qed

lemma string_of_int_inject [simp]: "string_of_int i = string_of_int j \<longleftrightarrow> i = j"
proof
  assume eq: "string_of_int i = string_of_int j"
  have nd: "hd (string_of_nat n) \<noteq> CHR ''-''" for n
    using string_of_nat_digits [of "hd (string_of_nat n)" n] by (auto simp: is_digit_def)
  show "i = j"
    using eq nd by (auto simp: string_of_int_def split: if_splits)
      (metis list.sel(1))+
qed simp

subsection \<open>Text\<close>

text \<open>
  A \<open>string\<close> is a list of \<open>char\<close>, the code points 0 to 255. \<open>str.strip\<close> removes
  the white space among them; \<open>str.upper\<close> is given for ASCII letters, the only ones
  the modelled names are made of.
\<close>

definition is_space :: "char \<Rightarrow> bool" where
  "is_space c = (let n = (of_char c :: nat)
     in (9 \<le> n \<and> n \<le> 13) \<or> (28 \<le> n \<and> n \<le> 32) \<or> n = 133 \<or> n = 160)"

definition strip :: "string \<Rightarrow> string" where
  "strip s = rev (dropWhile is_space (rev (dropWhile is_space s)))"

definition upper_char :: "char \<Rightarrow> char" where
  "upper_char c = (let n = (of_char c :: nat) in if 97 \<le> n \<and> n \<le> 122 then char_of (n - 32) else c)"

definition upper :: "string \<Rightarrow> string" where
  "upper s = map upper_char s"

lemma strip_id:
  assumes "s = [] \<or> \<not> is_space (hd s) \<and> \<not> is_space (last s)"
  shows "strip s = s"
proof -
  have d: "dropWhile is_space t = t" if "t = [] \<or> \<not> is_space (hd t)" for t
    using that by (cases t) auto
  have "dropWhile is_space s = s" and "dropWhile is_space (rev s) = rev s"
    using assms by (intro d; cases "s = []"; simp add: hd_rev)+
  then show ?thesis by (simp add: strip_def)
qed

lemma is_digit_not_space: "is_digit c \<Longrightarrow> \<not> is_space c"
  by (auto simp: is_digit_def is_space_def Let_def)

subsection \<open>Optional values\<close>

text \<open>\<open>a if a is not None else b\<close>.\<close>

definition or_else :: "'a option \<Rightarrow> 'a option \<Rightarrow> 'a option" where
  "or_else a b = (case a of None \<Rightarrow> b | Some x \<Rightarrow> Some x)"

lemma or_else_simps [simp]:
  "or_else None b = b"
  "or_else (Some x) b = Some x"
  by (simp_all add: or_else_def)

text \<open>\<open>'%s' % x\<close> of an optional string.\<close>

definition show_opt :: "string option \<Rightarrow> string" where
  "show_opt s = (case s of None \<Rightarrow> ''None'' | Some t \<Rightarrow> t)"

section \<open>The contract of an encoder and its decoder\<close>

text \<open>
  Prices, field values, messages and frames are all written by one routine and read
  back by another, either of which may raise. What a caller relies on is the same for
  all of them, so it is one locale: what was written reads back, hence two values never
  share an encoding, and a batch of them round-trips when each does.
\<close>

fun map_exn :: "('a \<Rightarrow> exn + 'b) \<Rightarrow> 'a list \<Rightarrow> exn + 'b list" where
  "map_exn f [] = Inr []"
| "map_exn f (x # xs) =
     (case f x of Inl e \<Rightarrow> Inl e
      | Inr y \<Rightarrow> (case map_exn f xs of Inl e \<Rightarrow> Inl e | Inr ys \<Rightarrow> Inr (y # ys)))"

lemma map_exn_Cons_Inr:
  "map_exn f (x # xs) = Inr zs \<longleftrightarrow>
    (\<exists>y ys. f x = Inr y \<and> map_exn f xs = Inr ys \<and> zs = y # ys)"
  by (auto split: sum.splits)

lemma map_exn_length: "map_exn f xs = Inr ys \<Longrightarrow> length ys = length xs"
  by (induction xs arbitrary: ys) (auto split: sum.splits)

locale round_trip_codec =
  fixes put :: "'a \<Rightarrow> exn + 'b"
    and get :: "'b \<Rightarrow> exn + 'a"
  assumes get_put: "put a = Inr b \<Longrightarrow> get b = Inr a"
begin

lemma put_inject: "put a = Inr c \<Longrightarrow> put b = Inr c \<Longrightarrow> a = b"
  by (metis get_put sum.inject(2))

lemma get_put_all: "map_exn put xs = Inr ys \<Longrightarrow> map_exn get ys = Inr xs"
proof (induction xs arbitrary: ys)
  case Nil
  then show ?case by simp
next
  case (Cons x xs)
  then obtain y zs where "put x = Inr y" "map_exn put xs = Inr zs" "ys = y # zs"
    unfolding map_exn_Cons_Inr by blast
  with Cons.IH get_put show ?case by simp
qed

lemma put_all_inject: "map_exn put xs = Inr zs \<Longrightarrow> map_exn put ys = Inr zs \<Longrightarrow> xs = ys"
  by (metis get_put_all sum.inject(2))

end

end
