(* ===== verification/Enums.thy ===== *)
theory Enums
  imports Prelude
begin

section \<open>Domain enumerations (\<open>core/enums.py\<close>)\<close>

text \<open>
  The classes of string constants become datatypes with the source's constants as
  constructors. Where two classes use the same constant, the constructors of the
  reject, cancel and cancel-reject reasons carry a prefix (\<open>RR_\<close>, \<open>CR_\<close>,
  \<open>CX_\<close>), and \<open>StpMode.NONE\<close> is \<open>STP_NONE\<close>. The frozen sets of a class are HOL sets.
  \<open>NO_SIDE\<close> is the \<open>None\<close> a gateway passes for an order that names no side: nothing in the
  core refuses it, and a test for \<open>BUY\<close> takes it for an offer.
\<close>

datatype side = BUY | SELL | SELL_SHORT | SELL_SHORT_EXEMPT | NO_SIDE

definition selling :: "side set" where
  "selling = {SELL, SELL_SHORT, SELL_SHORT_EXEMPT}"

definition side_is_buy :: "side \<Rightarrow> bool" where
  "side_is_buy s \<longleftrightarrow> s = BUY"

definition side_opposite :: "side \<Rightarrow> side" where
  "side_opposite s = (if s = BUY then SELL else BUY)"

lemma not_buy_selling: "s \<noteq> NO_SIDE \<Longrightarrow> s \<in> selling \<longleftrightarrow> \<not> side_is_buy s"
  by (cases s) (auto simp: selling_def side_is_buy_def)

fun show_side :: "side \<Rightarrow> string" where
  "show_side BUY = ''BUY''"
| "show_side SELL = ''SELL''"
| "show_side SELL_SHORT = ''SELL_SHORT''"
| "show_side SELL_SHORT_EXEMPT = ''SELL_SHORT_EXEMPT''"
| "show_side NO_SIDE = ''None''"

datatype order_type = LIMIT | MARKET

fun show_order_type :: "order_type option \<Rightarrow> string" where
  "show_order_type None = ''None''"
| "show_order_type (Some LIMIT) = ''LIMIT''"
| "show_order_type (Some MARKET) = ''MARKET''"

datatype time_in_force = DAY | IOC | FOK

definition immediate_tif :: "time_in_force set" where
  "immediate_tif = {IOC, FOK}"

fun show_tif :: "time_in_force \<Rightarrow> string" where
  "show_tif DAY = ''DAY''"
| "show_tif IOC = ''IOC''"
| "show_tif FOK = ''FOK''"

datatype order_status =
    PENDING_NEW | NEW | PARTIALLY_FILLED | FILLED | CANCELLED | REPLACED
  | PENDING_CANCEL | PENDING_REPLACE | REJECTED | EXPIRED

definition live_statuses :: "order_status set" where
  "live_statuses = {NEW, PARTIALLY_FILLED, PENDING_CANCEL, PENDING_REPLACE}"

definition terminal_statuses :: "order_status set" where
  "terminal_statuses = {FILLED, CANCELLED, REPLACED, REJECTED, EXPIRED}"

lemma live_not_terminal: "s \<in> live_statuses \<Longrightarrow> s \<notin> terminal_statuses"
  by (auto simp: live_statuses_def terminal_statuses_def)

fun show_status :: "order_status \<Rightarrow> string" where
  "show_status PENDING_NEW = ''PENDING_NEW''"
| "show_status NEW = ''NEW''"
| "show_status PARTIALLY_FILLED = ''PARTIALLY_FILLED''"
| "show_status FILLED = ''FILLED''"
| "show_status CANCELLED = ''CANCELLED''"
| "show_status REPLACED = ''REPLACED''"
| "show_status PENDING_CANCEL = ''PENDING_CANCEL''"
| "show_status PENDING_REPLACE = ''PENDING_REPLACE''"
| "show_status REJECTED = ''REJECTED''"
| "show_status EXPIRED = ''EXPIRED''"

datatype exec_inst = POST_ONLY | IGNORE_NOTIONAL_CHECK | IGNORE_PRICE_CHECK

datatype capacity = AGENCY | PRINCIPAL

datatype liquidity = ADDED | REMOVED

datatype stp_mode = STP_NONE | CANCEL_NEWEST | CANCEL_OLDEST | DECREMENT

datatype trading_state =
    PRE_OPEN | OPENING_AUCTION | OPEN | LUNCH_BREAK | CLOSING_AUCTION | CLOSED | HALTED

text \<open>\<open>TradingState.ORDER\<close>: the phases in the order a trading day runs them.\<close>

definition trading_state_order :: "trading_state list" where
  "trading_state_order =
     [PRE_OPEN, OPENING_AUCTION, OPEN, LUNCH_BREAK, CLOSING_AUCTION, CLOSED, HALTED]"

definition continuous_states :: "trading_state set" where
  "continuous_states = {OPEN}"

definition accumulating_states :: "trading_state set" where
  "accumulating_states = {PRE_OPEN, OPENING_AUCTION, CLOSING_AUCTION}"

definition no_entry_states :: "trading_state set" where
  "no_entry_states = {CLOSED, HALTED, LUNCH_BREAK}"

text \<open>Every phase is in exactly one of the three classes.\<close>

lemma trading_state_partition:
  "s \<in> continuous_states \<union> accumulating_states \<union> no_entry_states"
  "continuous_states \<inter> accumulating_states = {}"
  "continuous_states \<inter> no_entry_states = {}"
  "accumulating_states \<inter> no_entry_states = {}"
  by (cases s) (auto simp: continuous_states_def accumulating_states_def no_entry_states_def)

fun show_state :: "trading_state \<Rightarrow> string" where
  "show_state PRE_OPEN = ''PRE_OPEN''"
| "show_state OPENING_AUCTION = ''OPENING_AUCTION''"
| "show_state OPEN = ''OPEN''"
| "show_state LUNCH_BREAK = ''LUNCH_BREAK''"
| "show_state CLOSING_AUCTION = ''CLOSING_AUCTION''"
| "show_state CLOSED = ''CLOSED''"
| "show_state HALTED = ''HALTED''"

lemma show_state_inject [simp]: "show_state s = show_state t \<longleftrightarrow> s = t"
  by (cases s; cases t) simp_all

text \<open>The phases ordered as \<open>trading_state_order\<close> lists them.\<close>

fun day_rank :: "trading_state \<Rightarrow> nat" where
  "day_rank PRE_OPEN = 0"
| "day_rank OPENING_AUCTION = 1"
| "day_rank OPEN = 2"
| "day_rank LUNCH_BREAK = 3"
| "day_rank CLOSING_AUCTION = 4"
| "day_rank CLOSED = 5"
| "day_rank HALTED = 6"

lemma day_rank_inject [simp]: "day_rank s = day_rank t \<longleftrightarrow> s = t"
  by (cases s; cases t) simp_all

instantiation trading_state :: linorder
begin

definition less_eq_trading_state :: "trading_state \<Rightarrow> trading_state \<Rightarrow> bool" where
  "less_eq_trading_state s t \<longleftrightarrow> day_rank s \<le> day_rank t"

definition less_trading_state :: "trading_state \<Rightarrow> trading_state \<Rightarrow> bool" where
  "less_trading_state s t \<longleftrightarrow> day_rank s < day_rank t"

instance
  by standard (auto simp: less_eq_trading_state_def less_trading_state_def antisym)

end

lemma trading_state_order_sorted: "sorted_wrt (<) trading_state_order"
  by (simp add: trading_state_order_def less_trading_state_def)

lemma trading_state_order_complete: "s \<in> set trading_state_order"
  by (cases s) (simp_all add: trading_state_order_def)

datatype reject_reason =
    RR_UNKNOWN_SYMBOL | RR_MARKET_CLOSED | RR_EXCEEDS_QUANTITY_LIMIT
  | RR_EXCEEDS_VALUE_LIMIT | RR_DUPLICATE_ORDER | RR_UNSUPPORTED_CHARACTERISTIC
  | RR_INVALID_QUANTITY | RR_INVALID_PRICE | RR_PRICE_OUTSIDE_BAND | RR_TICK_SIZE
  | RR_POST_ONLY_WOULD_CROSS | RR_UNKNOWN_MPID | RR_OTHER

datatype cancel_reject_reason =
    CX_TOO_LATE_TO_CANCEL | CX_UNKNOWN_ORDER | CX_ALREADY_PENDING | CX_DUPLICATE_CLORDID
  | CX_PRICE_OUTSIDE_BAND | CX_MISMATCHED_FIELD | CX_OTHER

datatype cancel_reason =
    CR_USER_REQUEST | CR_IOC_REMAINDER | CR_MARKET_REMAINDER | CR_FOK_UNFILLED
  | CR_MIN_QTY_UNMET | CR_SELF_TRADE_PREVENTION | CR_MARKET_CLOSED
  | CR_CANCEL_ON_DISCONNECT | CR_ADMINISTRATIVE | CR_MASS_CANCEL | CR_REPLACED

definition unsolicited_reasons :: "cancel_reason set" where
  "unsolicited_reasons = {CR_SELF_TRADE_PREVENTION, CR_MARKET_CLOSED,
     CR_CANCEL_ON_DISCONNECT, CR_ADMINISTRATIVE, CR_MASS_CANCEL}"

end
