(* ===== verification/Ids.thy ===== *)
theory Ids
  imports Prelude "HOL-Library.List_Lexorder" "HOL-Library.Char_ord"
begin

section \<open>Identifier generation (\<open>core/ids.py\<close>)\<close>

text \<open>
  A generator is its configuration and the number its counter yields next. The
  interface the engine relies on -- an identifier is never issued twice -- is the
  locale \<open>id_source\<close>, interpreted on both generators of the module.
\<close>

record idgen =
  ig_prefix :: string
  ig_date :: string
  ig_width :: nat
  ig_counter :: nat
  ig_max_length :: nat

definition make_idgen :: "string \<Rightarrow> string \<Rightarrow> nat \<Rightarrow> nat \<Rightarrow> exn + idgen" where
  "make_idgen prefix date width max_len =
     (if length prefix + length date + width > max_len then Inl ValueError
      else Inr \<lparr>ig_prefix = prefix, ig_date = date, ig_width = width, ig_counter = 1,
                ig_max_length = max_len\<rparr>)"

definition render_id :: "idgen \<Rightarrow> nat \<Rightarrow> string" where
  "render_id g n = ig_prefix g @ ig_date g @ zero_pad (ig_width g) n"

text \<open>
  \<open>IdGenerator.next\<close>. An exhausted generator raises; the model then has no
  resulting state, because the exception abandons the operation that asked.
\<close>

definition next_id :: "idgen \<Rightarrow> exn + string \<times> idgen" where
  "next_id g =
     (let identifier = render_id g (ig_counter g)
      in if length identifier > ig_max_length g then Inl OverflowError
         else Inr (identifier, g\<lparr>ig_counter := Suc (ig_counter g)\<rparr>))"

definition peek_id :: "idgen \<Rightarrow> nat" where
  "peek_id g = ig_counter g"

definition next_seq :: "nat \<Rightarrow> exn + nat \<times> nat" where
  "next_seq n = Inr (n, Suc n)"

subsection \<open>The interface: identifiers are never reused\<close>

fun issue :: "('g \<Rightarrow> exn + 'i \<times> 'g) \<Rightarrow> nat \<Rightarrow> 'g \<Rightarrow> exn + 'i list \<times> 'g" where
  "issue nxt 0 g = Inr ([], g)"
| "issue nxt (Suc n) g =
     (case nxt g of Inl e \<Rightarrow> Inl e
      | Inr (i, g') \<Rightarrow>
         (case issue nxt n g' of Inl e \<Rightarrow> Inl e | Inr (is, g'') \<Rightarrow> Inr (i # is, g'')))"

locale id_source =
  fixes nxt :: "'g \<Rightarrow> exn + 'i \<times> 'g"
    and rank :: "'g \<Rightarrow> nat"
    and conf :: "'g \<Rightarrow> 'c"
    and number :: "'c \<Rightarrow> 'i \<Rightarrow> nat"
  assumes rank_nxt: "nxt g = Inr (i, g') \<Longrightarrow> rank g' = Suc (rank g)"
    and conf_nxt: "nxt g = Inr (i, g') \<Longrightarrow> conf g' = conf g"
    and number_nxt: "nxt g = Inr (i, g') \<Longrightarrow> number (conf g) i = rank g"
begin

lemma issue_rank: "issue nxt n g = Inr (is, g') \<Longrightarrow> rank g' = rank g + n \<and> conf g' = conf g"
  by (induction n arbitrary: g "is" g')
    (force split: sum.splits prod.splits dest: rank_nxt conf_nxt)+

lemma issue_numbers:
  "issue nxt n g = Inr (is, g') \<Longrightarrow> map (number (conf g)) is = [rank g ..< rank g + n]"
proof (induction n arbitrary: g "is" g')
  case 0
  then show ?case by simp
next
  case (Suc n)
  from Suc.prems obtain i g1 is1 where
      n1: "nxt g = Inr (i, g1)" and i1: "issue nxt n g1 = Inr (is1, g')" and eq: "is = i # is1"
    by (auto split: sum.splits prod.splits)
  from Suc.IH [OF i1] have "map (number (conf g)) is1 = [Suc (rank g) ..< Suc (rank g) + n]"
    using rank_nxt [OF n1] conf_nxt [OF n1] by simp
  with number_nxt [OF n1] show ?case by (simp add: eq upt_conv_Cons)
qed

lemma issue_distinct: "issue nxt n g = Inr (is, g') \<Longrightarrow> distinct is"
  by (metis issue_numbers distinct_upt distinct_map)

lemma next_id_not_issued:
  assumes "issue nxt n g = Inr (is, g')" and "nxt g' = Inr (i, g'')"
  shows "i \<notin> set is"
proof
  assume "i \<in> set is"
  then have "number (conf g) i \<in> set (map (number (conf g)) is)" by simp
  then have "number (conf g) i < rank g + n"
    by (simp only: issue_numbers [OF assms(1)] set_upt) auto
  with issue_rank [OF assms(1)] number_nxt [OF assms(2)] show False by simp
qed

end

type_synonym id_format = "string \<times> string \<times> nat \<times> nat"

definition id_conf :: "idgen \<Rightarrow> id_format" where
  "id_conf g = (ig_prefix g, ig_date g, ig_width g, ig_max_length g)"

definition id_number :: "id_format \<Rightarrow> string \<Rightarrow> nat" where
  "id_number c i = (case c of (p, d, w, m) \<Rightarrow> nat_of_digits (drop (length p + length d) i))"

lemma next_id_Inr:
  "next_id g = Inr (i, g') \<longleftrightarrow>
     i = render_id g (ig_counter g) \<and> length i \<le> ig_max_length g \<and>
     g' = g\<lparr>ig_counter := Suc (ig_counter g)\<rparr>"
  by (auto simp: next_id_def Let_def)

lemma id_number_render [simp]: "id_number (id_conf g) (render_id g n) = n"
  by (simp add: id_number_def id_conf_def render_id_def)

interpretation ids: id_source next_id ig_counter id_conf id_number
  by unfold_locales (auto simp: next_id_Inr, simp_all add: id_conf_def)

interpretation seqs: id_source next_seq "\<lambda>n. n" "\<lambda>_. ()" "\<lambda>_ i. i"
  by unfold_locales (auto simp: next_seq_def)

subsection \<open>When a generator raises, and the order of its identifiers\<close>

lemma make_idgen_ok:
  "make_idgen p d w m = Inr g \<Longrightarrow> length p + length d + w \<le> m \<and> ig_counter g = 1
     \<and> id_conf g = (p, d, w, m)"
  by (auto simp: make_idgen_def id_conf_def split: if_splits)

text \<open>A generator its constructor accepted issues at least \<open>10 ^ width - 1\<close> identifiers.\<close>

lemma next_id_available:
  assumes "length (ig_prefix g) + length (ig_date g) + ig_width g \<le> ig_max_length g"
    and "0 < ig_width g" and "ig_counter g < 10 ^ ig_width g"
  shows "\<exists>i. next_id g = Inr (i, g\<lparr>ig_counter := Suc (ig_counter g)\<rparr>)"
  using assms length_string_of_nat_le [of "ig_width g" "ig_counter g"]
  by (auto simp: next_id_def Let_def render_id_def length_zero_pad)

lemma digit_char_less: "a < 10 \<Longrightarrow> b < 10 \<Longrightarrow> digit_char a < digit_char b \<longleftrightarrow> a < b"
  by (simp add: less_char_def digit_char.simps)

lemma nat_of_digits_Cons: "nat_of_digits (c # s) = digit_val c * 10 ^ length s + nat_of_digits s"
proof (induction s rule: rev_induct)
  case Nil
  then show ?case by simp
next
  case (snoc x s)
  have "nat_of_digits (c # s @ [x]) = 10 * nat_of_digits (c # s) + digit_val x"
    using nat_of_digits_snoc [of "c # s" x] by simp
  with snoc show ?case by (simp add: algebra_simps)
qed

lemma is_digit_less:
  "is_digit a \<Longrightarrow> is_digit b \<Longrightarrow> a < b \<longleftrightarrow> digit_val a < digit_val b"
  by (auto simp: is_digit_def digit_val_def less_char_def)

lemma is_digit_val_inject:
  "is_digit a \<Longrightarrow> is_digit b \<Longrightarrow> digit_val a = digit_val b \<longleftrightarrow> a = b"
  by (auto simp: is_digit_def digit_val_def) (metis add_diff_inverse_nat not_less of_char_eq_iff)

lemma nat_of_digits_bound: "\<forall>c \<in> set s. is_digit c \<Longrightarrow> nat_of_digits s < 10 ^ length s"
proof (induction s)
  case Nil
  then show ?case by (simp add: nat_of_digits_def)
next
  case (Cons c s)
  then have "digit_val c \<le> 9" and IH: "nat_of_digits s < 10 ^ length s"
    by (auto simp: is_digit_def digit_val_def)
  then have "digit_val c * 10 ^ length s \<le> 9 * 10 ^ length s" by simp
  with IH have "digit_val c * 10 ^ length s + nat_of_digits s < 10 * 10 ^ length s" by linarith
  then show ?case by (simp add: nat_of_digits_Cons)
qed

text \<open>On digit strings of one length, the textual order is the numeric one.\<close>

lemma digits_less_lex:
  "length s = length t \<Longrightarrow> \<forall>c \<in> set s. is_digit c \<Longrightarrow> \<forall>c \<in> set t. is_digit c \<Longrightarrow>
   nat_of_digits s < nat_of_digits t \<Longrightarrow> s < t"
proof (induction s t rule: list_induct2)
  case Nil
  then show ?case by simp
next
  case (Cons a s b t)
  have bs: "nat_of_digits s < 10 ^ length s" "nat_of_digits t < 10 ^ length t"
    using Cons.prems by (auto intro: nat_of_digits_bound)
  have dig: "is_digit a" "is_digit b" using Cons.prems by auto
  from Cons.prems(3) Cons.hyps bs
  have le: "digit_val a \<le> digit_val b"
  proof (rule_tac ccontr)
    assume "\<not> digit_val a \<le> digit_val b"
    then have "Suc (digit_val b) * 10 ^ length s \<le> digit_val a * 10 ^ length s"
      by (intro mult_right_mono) auto
    with Cons.prems(3) Cons.hyps bs show False by (simp add: nat_of_digits_Cons)
  qed
  show ?case
  proof (cases "digit_val a = digit_val b")
    case True
    with dig have "a = b" by (simp add: is_digit_val_inject)
    moreover from True Cons.prems Cons.hyps have "s < t"
      by (intro Cons.IH) (auto simp: nat_of_digits_Cons)
    ultimately show ?thesis by simp
  next
    case False
    with le dig have "a < b" by (simp add: is_digit_less)
    then show ?thesis by simp
  qed
qed

lemma zero_pad_digits: "\<forall>c \<in> set (zero_pad w n). is_digit c"
  by (auto simp: zero_pad_def Let_def is_digit_def dest: string_of_nat_digits)

lemma zero_pad_less:
  assumes "m < n" and "0 < w" and "n < 10 ^ w"
  shows "zero_pad w m < zero_pad w n"
proof (rule digits_less_lex)
  show "length (zero_pad w m) = length (zero_pad w n)"
    using assms length_string_of_nat_le [of w m] length_string_of_nat_le [of w n]
    by (simp add: length_zero_pad max_absorb1)
qed (use assms in \<open>simp_all add: zero_pad_digits\<close>)

lemma append_less_same: "s < t \<Longrightarrow> (p :: string) @ s < p @ t"
  by (induction p) auto

lemma render_id_less:
  assumes "m < n" and "0 < ig_width g" and "n < 10 ^ ig_width g"
  shows "render_id g m < render_id g n"
  using zero_pad_less [OF assms] by (simp add: render_id_def append_less_same)

text \<open>A run of the generator renders the counter's values one after the other.\<close>

lemma issue_renders:
  "issue next_id n g = Inr (is, g') \<Longrightarrow> is = map (render_id g) [ig_counter g ..< ig_counter g + n]"
proof (induction n arbitrary: g "is")
  case 0
  then show ?case by simp
next
  case (Suc n)
  from Suc.prems obtain i g1 is1 where
      n1: "next_id g = Inr (i, g1)" and i1: "issue next_id n g1 = Inr (is1, g')" and eq: "is = i # is1"
    by (auto split: sum.splits prod.splits)
  from n1 have i: "i = render_id g (ig_counter g)" and g1: "g1 = g\<lparr>ig_counter := Suc (ig_counter g)\<rparr>"
    by (simp_all add: next_id_Inr)
  have "render_id g1 = render_id g" by (simp add: fun_eq_iff render_id_def g1)
  with Suc.IH [OF i1] show ?case
    by (simp add: eq i g1 upt_conv_Cons [of "ig_counter g"] del: upt_Suc)
qed

end
