(* ===== verification/Orders.thy ===== *)
theory Orders
  imports Enums Ids
begin

section \<open>Orders and the ClOrdID chain (\<open>core/orders.py\<close>)\<close>

text \<open>
  Python's \<open>Order\<close> objects are mutable and shared: the book, the registry and every
  event hold references to the same object. The model keeps that aliasing explicit in
  a store \<open>heap\<close> from references to orders. An order's reference is its \<open>order_id\<close>,
  which never changes and which the identifier generator never issues twice; the
  books, the registry and the events hold references and read through the store.
\<close>

type_synonym oid = string
type_synonym session_key = "string list"
type_synonym timestamp = nat

record order =
  o_cl_ord_id :: "string option"
  o_orig_cl_ord_id :: "string option"
  o_session_key :: session_key
  o_market :: "string option"
  o_symbol :: string
  o_side :: side
  o_order_type :: "order_type option"
  o_time_in_force :: time_in_force
  o_price :: "int option"
  o_quantity :: int
  o_min_qty :: int
  o_exec_inst :: "exec_inst set"
  o_capacity :: "capacity option"
  o_account :: "string option"
  o_mpid :: "string option"
  o_cash_margin :: "string option"
  o_margin_type :: "string option"
  o_stp_id :: "string option"
  o_stp_instruction :: "stp_mode option"
  o_cum_qty :: int
  o_notional_units :: int
  o_status :: order_status
  o_sequence :: nat
  o_created_at :: "timestamp option"
  o_updated_at :: "timestamp option"
  o_chain :: "string option list"

type_synonym heap = "oid \<Rightarrow> order"

subsection \<open>Derived state\<close>

definition leaves_qty :: "order \<Rightarrow> int" where
  "leaves_qty x =
     (if o_status x \<in> terminal_statuses then 0 else max 0 (o_quantity x - o_cum_qty x))"

definition is_buy :: "order \<Rightarrow> bool" where
  "is_buy x \<longleftrightarrow> side_is_buy (o_side x)"

definition is_live :: "order \<Rightarrow> bool" where
  "is_live x \<longleftrightarrow> o_status x \<in> live_statuses \<and> leaves_qty x > 0"

definition is_filled :: "order \<Rightarrow> bool" where
  "is_filled x \<longleftrightarrow> o_cum_qty x \<ge> o_quantity x"

definition is_immediate :: "order \<Rightarrow> bool" where
  "is_immediate x \<longleftrightarrow> o_time_in_force x \<in> immediate_tif"

definition average_price_units :: "order \<Rightarrow> int" where
  "average_price_units x =
     (if o_cum_qty x = 0 then 0 else o_notional_units x div o_cum_qty x)"

subsection \<open>Mutation\<close>

definition apply_fill :: "int \<Rightarrow> int \<Rightarrow> timestamp option \<Rightarrow> order \<Rightarrow> exn + order" where
  "apply_fill quantity price_units now x =
     (if quantity \<le> 0 then Inl ValueError
      else if quantity > leaves_qty x then Inl ValueError
      else (let y = x\<lparr>o_cum_qty := o_cum_qty x + quantity,
                      o_notional_units := o_notional_units x + price_units * quantity\<rparr>
            in Inr (y\<lparr>o_status := (if is_filled y then FILLED else PARTIALLY_FILLED),
                      o_updated_at := or_else now (o_updated_at y)\<rparr>)))"

definition reduce_quantity :: "int \<Rightarrow> timestamp option \<Rightarrow> order \<Rightarrow> order" where
  "reduce_quantity by_qty now x =
     (let y = x\<lparr>o_quantity := max (o_cum_qty x) (o_quantity x - by_qty),
                o_updated_at := or_else now (o_updated_at x)\<rparr>
      in if leaves_qty y = 0 \<and> o_status y \<notin> terminal_statuses
         then y\<lparr>o_status := (if o_cum_qty y \<noteq> 0 then FILLED else CANCELLED)\<rparr>
         else y)"

definition cancel_order_obj :: "timestamp option \<Rightarrow> order \<Rightarrow> order" where
  "cancel_order_obj now x =
     (if o_status x \<notin> terminal_statuses
      then x\<lparr>o_status := CANCELLED, o_updated_at := or_else now (o_updated_at x)\<rparr>
      else x)"

definition rename_order_obj :: "string option \<Rightarrow> timestamp option \<Rightarrow> order \<Rightarrow> order" where
  "rename_order_obj c now x =
     x\<lparr>o_orig_cl_ord_id := o_cl_ord_id x, o_cl_ord_id := c, o_chain := o_chain x @ [c],
       o_updated_at := or_else now (o_updated_at x)\<rparr>"

lemma leaves_qty_nonneg [simp]: "0 \<le> leaves_qty x"
  by (simp add: leaves_qty_def)

lemma leaves_qty_bound: "0 < leaves_qty x \<Longrightarrow> leaves_qty x = o_quantity x - o_cum_qty x"
  by (auto simp: leaves_qty_def split: if_splits)

lemma leaves_qty_open: "0 < leaves_qty x \<Longrightarrow> o_status x \<notin> terminal_statuses"
  by (auto simp: leaves_qty_def)

lemma status_sets [simp]:
  "FILLED \<in> terminal_statuses" "CANCELLED \<in> terminal_statuses" "REJECTED \<in> terminal_statuses"
  "EXPIRED \<in> terminal_statuses" "REPLACED \<in> terminal_statuses"
  "NEW \<notin> terminal_statuses" "PARTIALLY_FILLED \<notin> terminal_statuses"
  "PENDING_NEW \<notin> terminal_statuses" "PENDING_CANCEL \<notin> terminal_statuses"
  "PENDING_REPLACE \<notin> terminal_statuses"
  "NEW \<in> live_statuses" "PARTIALLY_FILLED \<in> live_statuses"
  by (simp_all add: terminal_statuses_def live_statuses_def)

text \<open>An order that is not terminal and not pending entry is live.\<close>

lemma open_status_live: "s \<notin> terminal_statuses \<Longrightarrow> s \<noteq> PENDING_NEW \<Longrightarrow> s \<in> live_statuses"
  by (cases s) (simp_all add: terminal_statuses_def live_statuses_def)

subsection \<open>What each mutation does to one order\<close>

lemma apply_fill_Inr:
  "apply_fill q p now x = Inr y \<Longrightarrow>
     0 < q \<and> q \<le> leaves_qty x \<and> leaves_qty y = leaves_qty x - q \<and>
     o_cum_qty y = o_cum_qty x + q \<and> o_notional_units y = o_notional_units x + p * q \<and>
     o_quantity y = o_quantity x \<and>
     o_status y = (if leaves_qty x = q then FILLED else PARTIALLY_FILLED)"
  by (auto simp: apply_fill_def Let_def is_filled_def leaves_qty_def split: if_splits)

lemma apply_fill_defined:
  "0 < q \<Longrightarrow> q \<le> leaves_qty x \<Longrightarrow> \<exists>y. apply_fill q p now x = Inr y"
  by (auto simp: apply_fill_def Let_def)

lemma apply_fill_frame [frame_simps]:
  assumes "apply_fill q p now x = Inr y"
  shows "o_price y = o_price x" "o_side y = o_side x" "o_symbol y = o_symbol x"
    "o_market y = o_market x" "o_session_key y = o_session_key x"
    "o_cl_ord_id y = o_cl_ord_id x" "o_chain y = o_chain x" "o_mpid y = o_mpid x"
    "o_stp_id y = o_stp_id x" "o_stp_instruction y = o_stp_instruction x"
    "o_order_type y = o_order_type x" "o_time_in_force y = o_time_in_force x"
    "o_sequence y = o_sequence x" "o_min_qty y = o_min_qty x" "o_exec_inst y = o_exec_inst x"
    "is_buy y = is_buy x"
  using assms by (auto simp: apply_fill_def Let_def is_buy_def split: if_splits)

lemma reduce_quantity_leaves [order_simps]:
  "0 < leaves_qty x \<Longrightarrow> 0 \<le> b \<Longrightarrow> leaves_qty (reduce_quantity b now x) = max 0 (leaves_qty x - b)"
  by (auto simp: reduce_quantity_def Let_def leaves_qty_def split: if_splits)

lemma reduce_quantity_frame [frame_simps]:
  "o_price (reduce_quantity b now x) = o_price x" "o_side (reduce_quantity b now x) = o_side x"
  "o_symbol (reduce_quantity b now x) = o_symbol x" "o_market (reduce_quantity b now x) = o_market x"
  "o_session_key (reduce_quantity b now x) = o_session_key x"
  "o_cl_ord_id (reduce_quantity b now x) = o_cl_ord_id x"
  "o_chain (reduce_quantity b now x) = o_chain x" "o_mpid (reduce_quantity b now x) = o_mpid x"
  "o_stp_id (reduce_quantity b now x) = o_stp_id x"
  "o_stp_instruction (reduce_quantity b now x) = o_stp_instruction x"
  "o_order_type (reduce_quantity b now x) = o_order_type x"
  "o_time_in_force (reduce_quantity b now x) = o_time_in_force x"
  "o_sequence (reduce_quantity b now x) = o_sequence x"
  "o_cum_qty (reduce_quantity b now x) = o_cum_qty x"
  "o_notional_units (reduce_quantity b now x) = o_notional_units x"
  "is_buy (reduce_quantity b now x) = is_buy x"
  by (simp_all add: reduce_quantity_def Let_def is_buy_def)

lemma cancel_order_leaves [simp]: "leaves_qty (cancel_order_obj now x) = 0"
  by (simp add: cancel_order_obj_def leaves_qty_def)

lemma cancel_order_terminal [simp]: "o_status (cancel_order_obj now x) \<in> terminal_statuses"
  by (simp add: cancel_order_obj_def)

lemma cancel_order_frame [frame_simps]:
  "o_price (cancel_order_obj now x) = o_price x" "o_side (cancel_order_obj now x) = o_side x"
  "o_symbol (cancel_order_obj now x) = o_symbol x" "o_market (cancel_order_obj now x) = o_market x"
  "o_session_key (cancel_order_obj now x) = o_session_key x"
  "o_cl_ord_id (cancel_order_obj now x) = o_cl_ord_id x"
  "o_chain (cancel_order_obj now x) = o_chain x" "o_mpid (cancel_order_obj now x) = o_mpid x"
  "o_stp_id (cancel_order_obj now x) = o_stp_id x"
  "o_stp_instruction (cancel_order_obj now x) = o_stp_instruction x"
  "o_order_type (cancel_order_obj now x) = o_order_type x"
  "o_time_in_force (cancel_order_obj now x) = o_time_in_force x"
  "o_sequence (cancel_order_obj now x) = o_sequence x"
  "o_cum_qty (cancel_order_obj now x) = o_cum_qty x"
  "o_quantity (cancel_order_obj now x) = o_quantity x"
  "o_notional_units (cancel_order_obj now x) = o_notional_units x"
  "is_buy (cancel_order_obj now x) = is_buy x"
  by (simp_all add: cancel_order_obj_def is_buy_def)

lemma rename_order_frame [frame_simps]:
  "o_price (rename_order_obj c now x) = o_price x" "o_side (rename_order_obj c now x) = o_side x"
  "o_symbol (rename_order_obj c now x) = o_symbol x" "o_market (rename_order_obj c now x) = o_market x"
  "o_session_key (rename_order_obj c now x) = o_session_key x"
  "o_status (rename_order_obj c now x) = o_status x"
  "o_cum_qty (rename_order_obj c now x) = o_cum_qty x"
  "o_quantity (rename_order_obj c now x) = o_quantity x"
  "leaves_qty (rename_order_obj c now x) = leaves_qty x"
  "is_buy (rename_order_obj c now x) = is_buy x"
  "is_live (rename_order_obj c now x) = is_live x"
  by (simp_all add: rename_order_obj_def is_buy_def leaves_qty_def is_live_def)

subsection \<open>The accounting invariant of one order\<close>

text \<open>
  The executed quantity never exceeds the order's, and the status agrees with the
  totals. Every mutation keeps it.
\<close>

definition order_wf :: "order \<Rightarrow> bool" where
  "order_wf x \<longleftrightarrow>
     0 \<le> o_cum_qty x \<and> o_cum_qty x \<le> o_quantity x \<and>
     (o_status x = FILLED \<longrightarrow> o_cum_qty x = o_quantity x \<and> 0 < o_cum_qty x) \<and>
     (o_status x = PARTIALLY_FILLED \<longrightarrow> 0 < o_cum_qty x \<and> o_cum_qty x < o_quantity x)"

lemma order_wf_apply_fill: "order_wf x \<Longrightarrow> apply_fill q p now x = Inr y \<Longrightarrow> order_wf y"
  by (auto simp: order_wf_def apply_fill_def Let_def is_filled_def leaves_qty_def
      split: if_splits)

lemma order_wf_cancel: "order_wf x \<Longrightarrow> order_wf (cancel_order_obj now x)"
  by (auto simp: order_wf_def cancel_order_obj_def)

lemma order_wf_reduce: "order_wf x \<Longrightarrow> 0 \<le> b \<Longrightarrow> order_wf (reduce_quantity b now x)"
  by (auto simp: order_wf_def reduce_quantity_def Let_def leaves_qty_def split: if_splits)

lemma order_wf_rename: "order_wf x \<Longrightarrow> order_wf (rename_order_obj c now x)"
  by (auto simp: order_wf_def rename_order_obj_def)

lemmas order_wf_intros = order_wf_apply_fill order_wf_cancel order_wf_reduce order_wf_rename

subsection \<open>A sequence of fills\<close>

fun apply_fills :: "(int \<times> int) list \<Rightarrow> timestamp option \<Rightarrow> order \<Rightarrow> exn + order" where
  "apply_fills [] now x = Inr x"
| "apply_fills ((q, p) # fs) now x =
     (case apply_fill q p now x of Inl e \<Rightarrow> Inl e | Inr y \<Rightarrow> apply_fills fs now y)"

lemma apply_fills_totals:
  "apply_fills fs now x = Inr y \<Longrightarrow>
     o_cum_qty y = o_cum_qty x + sum_list (map fst fs) \<and>
     o_notional_units y = o_notional_units x + sum_list (map (\<lambda>(q, p). p * q) fs) \<and>
     (\<forall>(q, p) \<in> set fs. 0 < q)"
proof (induction fs arbitrary: x)
  case Nil
  then show ?case by simp
next
  case (Cons f fs)
  obtain q p where f: "f = (q, p)" by (cases f)
  from Cons.prems f obtain z where z: "apply_fill q p now x = Inr z"
    and zs: "apply_fills fs now z = Inr y" by (auto split: sum.splits)
  from Cons.IH [OF zs] apply_fill_Inr [OF z] show ?case by (auto simp: f)
qed

lemma sum_list_price_bounds:
  fixes fs :: "(int \<times> int) list"
  assumes "\<forall>(q, p) \<in> set fs. 0 < q \<and> lo \<le> p \<and> p \<le> hi"
  shows "lo * sum_list (map fst fs) \<le> sum_list (map (\<lambda>(q, p). p * q) fs)"
    and "sum_list (map (\<lambda>(q, p). p * q) fs) \<le> hi * sum_list (map fst fs)"
  using assms by (induction fs) (auto simp: distrib_left intro!: add_mono mult_right_mono)

lemma div_bounds:
  fixes n :: int
  assumes "0 < d" and "lo * d \<le> n" and "n \<le> hi * d"
  shows "lo \<le> n div d \<and> n div d \<le> hi"
proof
  show "lo \<le> n div d" using assms by (metis zdiv_mono1 nonzero_mult_div_cancel_right less_irrefl)
  show "n div d \<le> hi" using assms by (metis zdiv_mono1 nonzero_mult_div_cancel_right less_irrefl)
qed

subsection \<open>The registry\<close>

text \<open>
  \<open>reg_order_ids\<close> is \<open>_by_order_id\<close> in insertion order (its values are the orders the
  keys name); \<open>reg_cl_ord_ids\<close> is \<open>_by_cl_ord_id\<close>, which is never iterated.
\<close>

record registry =
  reg_order_ids :: "oid list"
  reg_cl_ord_ids :: "session_key \<times> string \<rightharpoonup> oid"

definition empty_registry :: registry where
  "empty_registry = \<lparr>reg_order_ids = [], reg_cl_ord_ids = Map.empty\<rparr>"

definition is_duplicate :: "registry \<Rightarrow> session_key \<Rightarrow> string option \<Rightarrow> bool" where
  "is_duplicate r sk c =
     (case c of None \<Rightarrow> False | Some i \<Rightarrow> reg_cl_ord_ids r (sk, i) \<noteq> None)"

text \<open>
  \<open>add\<close> files the order under its OrderID before it looks at the ClOrdID, so the
  exception leaves that entry behind; the pair returns both.
\<close>

definition registry_add :: "heap \<Rightarrow> oid \<Rightarrow> registry \<Rightarrow> registry \<times> exn option" where
  "registry_add h x r =
     (let r1 = r\<lparr>reg_order_ids := od_insert x (reg_order_ids r)\<rparr>
      in case o_cl_ord_id (h x) of None \<Rightarrow> (r1, None)
         | Some c \<Rightarrow>
             (if reg_cl_ord_ids r1 (o_session_key (h x), c) \<noteq> None
              then (r1, Some DuplicateClOrdID)
              else (r1\<lparr>reg_cl_ord_ids := (reg_cl_ord_ids r1)((o_session_key (h x), c) \<mapsto> x)\<rparr>,
                    None)))"

definition registry_rename ::
    "oid \<Rightarrow> string option \<Rightarrow> heap \<times> registry \<Rightarrow> exn + heap \<times> registry" where
  "registry_rename x c hr =
     (case hr of (h, r) \<Rightarrow>
        (case c of None \<Rightarrow> Inr (h, r)
         | Some i \<Rightarrow>
             (if reg_cl_ord_ids r (o_session_key (h x), i) \<noteq> None then Inl DuplicateClOrdID
              else Inr (h(x := rename_order_obj (Some i) None (h x)),
                        r\<lparr>reg_cl_ord_ids :=
                            (reg_cl_ord_ids r)((o_session_key (h x), i) \<mapsto> x)\<rparr>))))"

definition registry_by_order_id :: "registry \<Rightarrow> oid \<Rightarrow> oid option" where
  "registry_by_order_id r x = (if x \<in> set (reg_order_ids r) then Some x else None)"

definition registry_by_cl_ord_id :: "registry \<Rightarrow> session_key \<Rightarrow> string \<Rightarrow> oid option" where
  "registry_by_cl_ord_id r sk c = reg_cl_ord_ids r (sk, c)"

definition registry_resolve :: "heap \<Rightarrow> registry \<Rightarrow> session_key \<Rightarrow> string \<Rightarrow> oid option" where
  "registry_resolve h r sk orig =
     (case reg_cl_ord_ids r (sk, orig) of None \<Rightarrow> None
      | Some x \<Rightarrow> (if o_cl_ord_id (h x) \<noteq> Some orig then None else Some x))"

definition registry_live :: "heap \<Rightarrow> registry \<Rightarrow> oid list" where
  "registry_live h r = filter (\<lambda>x. is_live (h x)) (reg_order_ids r)"

definition registry_for_session :: "heap \<Rightarrow> registry \<Rightarrow> session_key \<Rightarrow> bool \<Rightarrow> oid list" where
  "registry_for_session h r sk live_only =
     filter (\<lambda>x. o_session_key (h x) = sk \<and> (is_live (h x) \<or> \<not> live_only)) (reg_order_ids r)"

text \<open>
  Every index entry leads to a registered order of that session which has carried the
  identifier, every registered order's current identifier is indexed, and the last
  link of a chain is the current identifier.
\<close>

definition registry_ok :: "heap \<Rightarrow> registry \<Rightarrow> bool" where
  "registry_ok h r \<longleftrightarrow>
     distinct (reg_order_ids r) \<and>
     (\<forall>sk c x. reg_cl_ord_ids r (sk, c) = Some x \<longrightarrow>
        x \<in> set (reg_order_ids r) \<and> o_session_key (h x) = sk \<and> Some c \<in> set (o_chain (h x))) \<and>
     (\<forall>x \<in> set (reg_order_ids r). \<forall>c. o_cl_ord_id (h x) = Some c \<longrightarrow>
        reg_cl_ord_ids r (o_session_key (h x), c) = Some x)"

lemma registry_ok_empty: "registry_ok h empty_registry"
  by (simp add: registry_ok_def empty_registry_def)

lemma registry_okI:
  assumes "distinct (reg_order_ids r)"
    and "\<And>sk c x. reg_cl_ord_ids r (sk, c) = Some x \<Longrightarrow>
        x \<in> set (reg_order_ids r) \<and> o_session_key (h x) = sk \<and> Some c \<in> set (o_chain (h x))"
    and "\<And>x c. x \<in> set (reg_order_ids r) \<Longrightarrow> o_cl_ord_id (h x) = Some c \<Longrightarrow>
        reg_cl_ord_ids r (o_session_key (h x), c) = Some x"
  shows "registry_ok h r"
  using assms by (auto simp: registry_ok_def)

lemma registry_okD:
  assumes "registry_ok h r"
  shows "distinct (reg_order_ids r)"
    and "reg_cl_ord_ids r (sk, c) = Some x \<Longrightarrow>
        x \<in> set (reg_order_ids r) \<and> o_session_key (h x) = sk \<and> Some c \<in> set (o_chain (h x))"
    and "x \<in> set (reg_order_ids r) \<Longrightarrow> o_cl_ord_id (h x) = Some c \<Longrightarrow>
        reg_cl_ord_ids r (o_session_key (h x), c) = Some x"
  using assms by (auto simp: registry_ok_def)

lemma registry_ok_cong:
  assumes eq: "\<And>x. x \<in> set (reg_order_ids r) \<Longrightarrow>
      o_session_key (h' x) = o_session_key (h x) \<and> o_chain (h' x) = o_chain (h x) \<and>
      o_cl_ord_id (h' x) = o_cl_ord_id (h x)"
    and ok: "registry_ok h r"
  shows "registry_ok h' r"
proof (rule registry_okI)
  show "distinct (reg_order_ids r)" by (rule registry_okD(1) [OF ok])
next
  fix sk c x assume "reg_cl_ord_ids r (sk, c) = Some x"
  from registry_okD(2) [OF ok this] eq [of x]
  show "x \<in> set (reg_order_ids r) \<and> o_session_key (h' x) = sk \<and> Some c \<in> set (o_chain (h' x))"
    by simp
next
  fix x c assume "x \<in> set (reg_order_ids r)" and "o_cl_ord_id (h' x) = Some c"
  with eq [of x] registry_okD(3) [OF ok, of x c]
  show "reg_cl_ord_ids r (o_session_key (h' x), c) = Some x" by simp
qed

lemma registry_ok_add:
  assumes ok: "registry_ok h r" and new: "x \<notin> set (reg_order_ids r)"
    and chain: "o_chain (h x) = [o_cl_ord_id (h x)]" and add: "registry_add h x r = (r', None)"
  shows "registry_ok h r'"
proof (cases "o_cl_ord_id (h x)")
  case None
  with add new have "r' = r\<lparr>reg_order_ids := reg_order_ids r @ [x]\<rparr>"
    by (simp add: registry_add_def)
  with None ok new show ?thesis by (auto simp: registry_ok_def)
next
  case (Some c)
  with add new have fresh: "reg_cl_ord_ids r (o_session_key (h x), c) = None"
    and r': "r' = r\<lparr>reg_order_ids := reg_order_ids r @ [x],
        reg_cl_ord_ids := (reg_cl_ord_ids r)((o_session_key (h x), c) \<mapsto> x)\<rparr>"
    by (auto simp: registry_add_def Let_def split: if_splits)
  show ?thesis
  proof (rule registry_okI)
    show "distinct (reg_order_ids r')" using registry_okD(1) [OF ok] new r' by simp
  next
    fix sk i y assume "reg_cl_ord_ids r' (sk, i) = Some y"
    with registry_okD(2) [OF ok, of sk i y] chain Some
    show "y \<in> set (reg_order_ids r') \<and> o_session_key (h y) = sk \<and> Some i \<in> set (o_chain (h y))"
      by (auto simp: r' split: if_splits)
  next
    fix y i assume "y \<in> set (reg_order_ids r')" and "o_cl_ord_id (h y) = Some i"
    with registry_okD(3) [OF ok, of y i] fresh Some
    show "reg_cl_ord_ids r' (o_session_key (h y), i) = Some y"
      by (auto simp: r')
  qed
qed

lemma registry_rename_Inr:
  assumes "registry_rename x c (h, r) = Inr (h', r')"
  shows "c = None \<and> h' = h \<and> r' = r \<or>
    (\<exists>i. c = Some i \<and> reg_cl_ord_ids r (o_session_key (h x), i) = None \<and>
       h' = h(x := rename_order_obj (Some i) None (h x)) \<and>
       r' = r\<lparr>reg_cl_ord_ids := (reg_cl_ord_ids r)((o_session_key (h x), i) \<mapsto> x)\<rparr>)"
  using assms by (auto simp: registry_rename_def split: option.splits if_splits)

lemma registry_ok_rename:
  assumes ok: "registry_ok h r" and x: "x \<in> set (reg_order_ids r)"
    and ren: "registry_rename x c (h, r) = Inr (h', r')"
  shows "registry_ok h' r'"
proof (cases c)
  case None
  with ren ok show ?thesis by (simp add: registry_rename_def)
next
  case (Some i)
  with registry_rename_Inr [OF ren] have
    fresh: "reg_cl_ord_ids r (o_session_key (h x), i) = None" and
    h': "h' = h(x := rename_order_obj (Some i) None (h x))" and
    r': "r' = r\<lparr>reg_cl_ord_ids := (reg_cl_ord_ids r)((o_session_key (h x), i) \<mapsto> x)\<rparr>"
    by auto
  from ok x fresh show ?thesis
    unfolding registry_ok_def h' r'
    by (auto simp: rename_order_obj_def split: if_splits)
qed

end
