(* ===== verification/Book.thy ===== *)
theory Book
  imports Orders
begin

section \<open>The limit order book (\<open>core/book.py\<close>)\<close>

text \<open>
  A side keeps its prices in an ascending list maintained by bisection, a dictionary
  from price to the level's orders in arrival order, and a queue of priceless orders.
  Levels hold references; every quantity is read through the store. The section ends
  with the side's contract, the locale \<open>price_time_queue\<close>: what a client may rely on
  is the priority queue of references that \<open>orders_in_priority\<close> yields.
\<close>

record book_side =
  bs_is_buy :: bool
  bs_prices :: "int list"
  bs_levels :: "(int \<times> oid list) list"
  bs_at_market :: "oid list"

definition empty_side :: "bool \<Rightarrow> book_side" where
  "empty_side b = \<lparr>bs_is_buy = b, bs_prices = [], bs_levels = [], bs_at_market = []\<rparr>"

subsection \<open>Mutation\<close>

definition side_add :: "heap \<Rightarrow> oid \<Rightarrow> book_side \<Rightarrow> book_side" where
  "side_add h x s =
     (case o_price (h x) of
        None \<Rightarrow> s\<lparr>bs_at_market := od_insert x (bs_at_market s)\<rparr>
      | Some p \<Rightarrow>
          (case map_of (bs_levels s) p of
             None \<Rightarrow> s\<lparr>bs_levels := AList.update p [x] (bs_levels s),
                       bs_prices := insort_right p (bs_prices s)\<rparr>
           | Some l \<Rightarrow> s\<lparr>bs_levels := AList.update p (od_insert x l) (bs_levels s)\<rparr>))"

definition drop_price :: "int \<Rightarrow> int list \<Rightarrow> int list" where
  "drop_price p ps =
     (let i = bisect_left ps p
      in if i < length ps \<and> ps ! i = p then take i ps @ drop (Suc i) ps else ps)"

definition side_remove :: "heap \<Rightarrow> oid \<Rightarrow> book_side \<Rightarrow> bool \<times> book_side" where
  "side_remove h x s =
     (case o_price (h x) of
        None \<Rightarrow> (x \<in> set (bs_at_market s), s\<lparr>bs_at_market := od_remove x (bs_at_market s)\<rparr>)
      | Some p \<Rightarrow>
          (case map_of (bs_levels s) p of
             None \<Rightarrow> (False, s)
           | Some l \<Rightarrow>
               (if x \<notin> set l then (False, s)
                else (let l' = od_remove x l
                      in if l' = []
                         then (True, s\<lparr>bs_levels := AList.delete p (bs_levels s),
                                       bs_prices := drop_price p (bs_prices s)\<rparr>)
                         else (True, s\<lparr>bs_levels := AList.update p l' (bs_levels s)\<rparr>)))))"

definition side_clear :: "book_side \<Rightarrow> book_side" where
  "side_clear s = s\<lparr>bs_prices := [], bs_levels := [], bs_at_market := []\<rparr>"

subsection \<open>Inspection\<close>

definition at_market_quantity :: "heap \<Rightarrow> book_side \<Rightarrow> int" where
  "at_market_quantity h s = sum_list (map (\<lambda>x. leaves_qty (h x)) (bs_at_market s))"

definition best_price :: "book_side \<Rightarrow> int option" where
  "best_price s =
     (if bs_prices s = [] then None
      else Some (if bs_is_buy s then last (bs_prices s) else hd (bs_prices s)))"

definition best_level :: "book_side \<Rightarrow> oid list option" where
  "best_level s = (case best_price s of None \<Rightarrow> None | Some p \<Rightarrow> map_of (bs_levels s) p)"

definition prices_in_priority :: "book_side \<Rightarrow> int list" where
  "prices_in_priority s = (if bs_is_buy s then rev (bs_prices s) else bs_prices s)"

definition level_at :: "book_side \<Rightarrow> int \<Rightarrow> oid list" where
  "level_at s p = (case map_of (bs_levels s) p of None \<Rightarrow> [] | Some l \<Rightarrow> l)"

definition orders_in_priority :: "book_side \<Rightarrow> oid list" where
  "orders_in_priority s = concat (map (level_at s) (prices_in_priority s))"

definition quantity_at :: "heap \<Rightarrow> book_side \<Rightarrow> int \<Rightarrow> int" where
  "quantity_at h s p = sum_list (map (\<lambda>x. leaves_qty (h x)) (level_at s p))"

definition orders_at :: "book_side \<Rightarrow> int \<Rightarrow> nat" where
  "orders_at s p = length (level_at s p)"

definition quantity_above :: "heap \<Rightarrow> book_side \<Rightarrow> int \<Rightarrow> int" where
  "quantity_above h s p =
     sum_list (map (quantity_at h s) (drop (bisect_right (bs_prices s) p) (bs_prices s)))"

definition quantity_below :: "heap \<Rightarrow> book_side \<Rightarrow> int \<Rightarrow> int" where
  "quantity_below h s p =
     sum_list (map (quantity_at h s) (take (bisect_left (bs_prices s) p) (bs_prices s)))"

record depth_row =
  dr_price :: int
  dr_quantity :: int
  dr_orders :: nat

text \<open>The ladder loop: empty levels are skipped, and it stops once enough rows are out.\<close>

fun depth_loop :: "heap \<Rightarrow> book_side \<Rightarrow> nat \<Rightarrow> nat \<Rightarrow> int list \<Rightarrow> depth_row list" where
  "depth_loop h s limit done_rows [] = []"
| "depth_loop h s limit done_rows (p # ps) =
     (let q = quantity_at h s p
      in if q \<le> 0 then depth_loop h s limit done_rows ps
         else \<lparr>dr_price = p, dr_quantity = q, dr_orders = orders_at s p\<rparr> #
              (if Suc done_rows \<ge> limit then []
               else depth_loop h s limit (Suc done_rows) ps))"

definition side_depth :: "heap \<Rightarrow> book_side \<Rightarrow> nat \<Rightarrow> depth_row list" where
  "side_depth h s limit = depth_loop h s limit 0 (prices_in_priority s)"

definition side_crosses :: "book_side \<Rightarrow> int \<Rightarrow> bool" where
  "side_crosses s p =
     (case best_price s of None \<Rightarrow> False
      | Some b \<Rightarrow> (if bs_is_buy s then b \<ge> p else b \<le> p))"

definition side_orders :: "book_side \<Rightarrow> oid list" where
  "side_orders s = bs_at_market s @ concat (map snd (bs_levels s))"

definition total_quantity :: "heap \<Rightarrow> book_side \<Rightarrow> int" where
  "total_quantity h s = sum_list (map (\<lambda>x. leaves_qty (h x)) (side_orders s))"

definition side_len :: "book_side \<Rightarrow> nat" where
  "side_len s = length (bs_at_market s) + sum_list (map (\<lambda>pl. length (snd pl)) (bs_levels s))"

definition side_bool :: "book_side \<Rightarrow> bool" where
  "side_bool s \<longleftrightarrow> bs_prices s \<noteq> [] \<or> bs_at_market s \<noteq> []"

subsection \<open>The two sides\<close>

record order_book =
  ob_symbol :: string
  ob_market :: "string option"
  ob_bids :: book_side
  ob_asks :: book_side

definition empty_book :: "string \<Rightarrow> string option \<Rightarrow> order_book" where
  "empty_book sy mkt = \<lparr>ob_symbol = sy, ob_market = mkt,
     ob_bids = empty_side True, ob_asks = empty_side False\<rparr>"

definition book_side_of :: "order_book \<Rightarrow> side \<Rightarrow> book_side" where
  "book_side_of b sd = (if side_is_buy sd then ob_bids b else ob_asks b)"

definition book_opposite :: "order_book \<Rightarrow> side \<Rightarrow> book_side" where
  "book_opposite b sd = (if side_is_buy sd then ob_asks b else ob_bids b)"

definition book_spread :: "order_book \<Rightarrow> int option" where
  "book_spread b =
     (case (best_price (ob_bids b), best_price (ob_asks b)) of
        (Some bid, Some ask) \<Rightarrow> Some (ask - bid) | _ \<Rightarrow> None)"

definition book_is_crossed :: "order_book \<Rightarrow> bool" where
  "book_is_crossed b =
     (case (best_price (ob_bids b), best_price (ob_asks b)) of
        (Some bid, Some ask) \<Rightarrow> bid \<ge> ask | _ \<Rightarrow> False)"

definition book_add :: "heap \<Rightarrow> oid \<Rightarrow> order_book \<Rightarrow> order_book" where
  "book_add h x b =
     (if is_buy (h x) then b\<lparr>ob_bids := side_add h x (ob_bids b)\<rparr>
      else b\<lparr>ob_asks := side_add h x (ob_asks b)\<rparr>)"

definition book_remove :: "heap \<Rightarrow> oid \<Rightarrow> order_book \<Rightarrow> bool \<times> order_book" where
  "book_remove h x b =
     (if is_buy (h x)
      then (case side_remove h x (ob_bids b) of (f, s) \<Rightarrow> (f, b\<lparr>ob_bids := s\<rparr>))
      else (case side_remove h x (ob_asks b) of (f, s) \<Rightarrow> (f, b\<lparr>ob_asks := s\<rparr>)))"

definition book_clear :: "order_book \<Rightarrow> order_book" where
  "book_clear b = b\<lparr>ob_bids := side_clear (ob_bids b), ob_asks := side_clear (ob_asks b)\<rparr>"

definition book_orders :: "order_book \<Rightarrow> oid list" where
  "book_orders b = side_orders (ob_bids b) @ side_orders (ob_asks b)"

definition book_len :: "order_book \<Rightarrow> nat" where
  "book_len b = side_len (ob_bids b) + side_len (ob_asks b)"

subsection \<open>The representation invariant\<close>

definition level_ok :: "heap \<Rightarrow> bool \<Rightarrow> int \<Rightarrow> oid list \<Rightarrow> bool" where
  "level_ok h b p l \<longleftrightarrow> l \<noteq> [] \<and> distinct l \<and>
     (\<forall>x \<in> set l. o_price (h x) = Some p \<and> is_buy (h x) = b)"

definition side_ok :: "heap \<Rightarrow> book_side \<Rightarrow> bool" where
  "side_ok h s \<longleftrightarrow>
     sorted_wrt (<) (bs_prices s) \<and>
     distinct (map fst (bs_levels s)) \<and>
     set (bs_prices s) = fst ` set (bs_levels s) \<and>
     (\<forall>(p, l) \<in> set (bs_levels s). level_ok h (bs_is_buy s) p l) \<and>
     distinct (bs_at_market s) \<and>
     (\<forall>x \<in> set (bs_at_market s). o_price (h x) = None \<and> is_buy (h x) = bs_is_buy s)"

definition book_ok :: "heap \<Rightarrow> order_book \<Rightarrow> bool" where
  "book_ok h b \<longleftrightarrow> bs_is_buy (ob_bids b) \<and> \<not> bs_is_buy (ob_asks b) \<and>
     side_ok h (ob_bids b) \<and> side_ok h (ob_asks b)"

lemma side_ok_empty [simp]: "side_ok h (empty_side b)"
  by (simp add: side_ok_def empty_side_def)

lemma book_ok_empty [simp]: "book_ok h (empty_book sy mkt)"
  by (simp add: book_ok_def empty_book_def) (simp add: empty_side_def)

lemma side_okD:
  assumes "side_ok h s"
  shows "sorted_wrt (<) (bs_prices s)" "sorted (bs_prices s)" "distinct (bs_prices s)"
    "distinct (map fst (bs_levels s))" "set (bs_prices s) = fst ` set (bs_levels s)"
    "distinct (bs_at_market s)"
  using assms by (auto simp: side_ok_def strict_sorted_iff)

lemma side_ok_level:
  assumes "side_ok h s" and "map_of (bs_levels s) p = Some l"
  shows "level_ok h (bs_is_buy s) p l"
  using assms map_of_in_set [OF assms(2)] by (auto simp: side_ok_def)

lemma side_ok_at_market:
  "side_ok h s \<Longrightarrow> x \<in> set (bs_at_market s) \<Longrightarrow> o_price (h x) = None \<and> is_buy (h x) = bs_is_buy s"
  by (auto simp: side_ok_def)

lemma level_at_mem:
  "x \<in> set (level_at s p) \<Longrightarrow> map_of (bs_levels s) p = Some (level_at s p)"
  by (cases "map_of (bs_levels s) p") (simp_all add: level_at_def)

lemma level_at_ok:
  assumes "side_ok h s" and "x \<in> set (level_at s p)"
  shows "o_price (h x) = Some p" and "is_buy (h x) = bs_is_buy s"
  using side_ok_level [OF assms(1) level_at_mem [OF assms(2)]] assms(2)
  by (simp_all add: level_ok_def)

lemma distinct_level_at: "side_ok h s \<Longrightarrow> distinct (level_at s p)"
  using side_ok_level [of h s p]
  by (auto simp: level_at_def level_ok_def split: option.splits)

lemma level_at_nonempty:
  assumes "side_ok h s"
  shows "level_at s p \<noteq> [] \<longleftrightarrow> p \<in> set (bs_prices s)"
proof -
  have "p \<in> set (bs_prices s) \<longleftrightarrow> map_of (bs_levels s) p \<noteq> None"
    using side_okD(5) [OF assms] by (simp add: map_of_eq_None_iff)
  then show ?thesis
    using side_ok_level [OF assms, of p]
    by (auto simp: level_at_def level_ok_def split: option.splits)
qed

lemma level_at_no_price [simp]:
  "side_ok h s \<Longrightarrow> p \<notin> set (bs_prices s) \<Longrightarrow> level_at s p = []"
  using level_at_nonempty by blast

lemma map_of_levels_Some:
  "side_ok h s \<Longrightarrow> map_of (bs_levels s) p = (if p \<in> set (bs_prices s) then Some (level_at s p) else None)"
  using level_at_nonempty [of h s p] side_okD(5) [of h s]
  by (auto simp: level_at_def map_of_eq_None_iff split: option.splits)

lemma side_ok_cong:
  assumes "\<And>x. x \<in> set (side_orders s) \<Longrightarrow>
      o_price (h' x) = o_price (h x) \<and> is_buy (h' x) = is_buy (h x)"
    and "side_ok h s"
  shows "side_ok h' s"
proof -
  have "level_ok h' (bs_is_buy s) p l" if pl: "(p, l) \<in> set (bs_levels s)" for p l
  proof -
    have "level_ok h (bs_is_buy s) p l" using assms(2) pl by (auto simp: side_ok_def)
    moreover have "x \<in> set (side_orders s)" if "x \<in> set l" for x
      using pl that by (force simp: side_orders_def)
    ultimately show ?thesis using assms(1) by (auto simp: level_ok_def)
  qed
  moreover have "o_price (h' x) = None \<and> is_buy (h' x) = bs_is_buy s"
    if "x \<in> set (bs_at_market s)" for x
    using assms that by (auto simp: side_ok_def side_orders_def)
  ultimately show ?thesis using assms(2) by (auto simp: side_ok_def)
qed

lemma level_at_pair:
  assumes "side_ok h s" and "(p, l) \<in> set (bs_levels s)"
  shows "level_at s p = l"
  using map_of_is_SomeI [OF side_okD(4) [OF assms(1)] assms(2)] by (simp add: level_at_def)

lemma set_side_orders:
  assumes "side_ok h s"
  shows "set (side_orders s) = set (bs_at_market s) \<union> (\<Union>p \<in> set (bs_prices s). set (level_at s p))"
proof -
  have "(\<Union>pl \<in> set (bs_levels s). set (snd pl)) = (\<Union>pl \<in> set (bs_levels s). set (level_at s (fst pl)))"
    using level_at_pair [OF assms] by (intro SUP_cong) auto
  also have "\<dots> = (\<Union>p \<in> set (bs_prices s). set (level_at s p))"
    unfolding side_okD(5) [OF assms] by simp
  finally show ?thesis by (simp add: side_orders_def)
qed

lemma set_prices_in_priority [simp]: "set (prices_in_priority s) = set (bs_prices s)"
  by (simp add: prices_in_priority_def)

lemma set_orders_in_priority:
  "set (orders_in_priority s) = (\<Union>p \<in> set (bs_prices s). set (level_at s p))"
  by (simp add: orders_in_priority_def)

lemma orders_in_priority_subset:
  "side_ok h s \<Longrightarrow> set (orders_in_priority s) \<subseteq> set (side_orders s)"
  by (simp add: set_side_orders set_orders_in_priority)

lemma side_orders_split:
  "side_ok h s \<Longrightarrow> set (side_orders s) = set (bs_at_market s) \<union> set (orders_in_priority s)"
  by (simp add: set_side_orders set_orders_in_priority)

lemma in_side_level:
  assumes "side_ok h s" and "o_price (h x) = Some p"
  shows "x \<in> set (side_orders s) \<longleftrightarrow> x \<in> set (level_at s p)"
proof -
  have "x \<notin> set (bs_at_market s)" using assms side_ok_at_market by fastforce
  moreover have "x \<in> set (level_at s q) \<Longrightarrow> q = p" for q
    using assms level_at_ok(1) by fastforce
  moreover have "x \<in> set (level_at s p) \<Longrightarrow> p \<in> set (bs_prices s)"
    using level_at_nonempty [OF assms(1), of p] by fastforce
  ultimately show ?thesis unfolding set_side_orders [OF assms(1)] by blast
qed

lemma in_side_at_market:
  assumes "side_ok h s" and "o_price (h x) = None"
  shows "x \<in> set (side_orders s) \<longleftrightarrow> x \<in> set (bs_at_market s)"
proof -
  have "x \<notin> set (level_at s p)" for p using assms level_at_ok(1) by fastforce
  then show ?thesis by (auto simp: set_side_orders [OF assms(1)])
qed

lemma side_ok_is_buy:
  assumes "side_ok h s" and "x \<in> set (side_orders s)"
  shows "is_buy (h x) = bs_is_buy s"
  using assms by (auto simp: set_side_orders dest: level_at_ok(2) side_ok_at_market)

subsection \<open>What add and remove do to the levels\<close>

lemma drop_price_eq:
  assumes "sorted_wrt (<) ps"
  shows "drop_price p ps = filter (\<lambda>q. q \<noteq> p) ps"
proof -
  have so: "sorted ps" and di: "distinct ps" using assms by (simp_all add: strict_sorted_iff)
  let ?i = "bisect_left ps p"
  have tk: "take ?i ps = filter (\<lambda>q. q < p) ps" and dr: "drop ?i ps = filter (\<lambda>q. \<not> q < p) ps"
    by (rule bisect_left_split [OF so])+
  have split: "filter (\<lambda>q. q \<noteq> p) ps
      = filter (\<lambda>q. q \<noteq> p) (take ?i ps) @ filter (\<lambda>q. q \<noteq> p) (drop ?i ps)"
    by (metis append_take_drop_id filter_append)
  have t: "filter (\<lambda>q. q \<noteq> p) (take ?i ps) = take ?i ps"
    unfolding tk by (auto simp: filter_id_conv simp del: filter_filter)
  show ?thesis
  proof (cases "?i < length ps \<and> ps ! ?i = p")
    case True
    then have d: "drop ?i ps = p # drop (Suc ?i) ps" by (metis Cons_nth_drop_Suc)
    have "distinct (drop ?i ps)" using di by (rule distinct_drop)
    with d have "p \<notin> set (drop (Suc ?i) ps)" by simp
    then have "filter (\<lambda>q. q \<noteq> p) (drop ?i ps) = drop (Suc ?i) ps"
      unfolding d by (auto simp: filter_id_conv)
    with True split t show ?thesis by (simp add: drop_price_def Let_def)
  next
    case False
    have "p \<notin> set (drop ?i ps)"
    proof
      assume p: "p \<in> set (drop ?i ps)"
      then have lt: "?i < length ps" by (metis drop_all empty_iff list.set(1) not_less)
      then have d: "drop ?i ps = ps ! ?i # drop (Suc ?i) ps" by (simp add: Cons_nth_drop_Suc)
      have "sorted (drop ?i ps)" using so by (rule sorted_wrt_drop)
      with d p have "ps ! ?i \<le> p" by auto
      moreover have "\<not> ps ! ?i < p" using dr d by (metis list.set_intros(1) mem_Collect_eq set_filter)
      ultimately show False using False lt by simp
    qed
    then have "filter (\<lambda>q. q \<noteq> p) (drop ?i ps) = drop ?i ps" by (auto simp: filter_id_conv)
    with False split t show ?thesis by (auto simp: drop_price_def Let_def)
  qed
qed

lemma side_add_is_buy [simp]: "bs_is_buy (side_add h x s) = bs_is_buy s"
  by (simp add: side_add_def split: option.splits)

lemma side_remove_is_buy [simp]: "bs_is_buy (snd (side_remove h x s)) = bs_is_buy s"
  by (simp add: side_remove_def Let_def split: option.splits)

lemma side_add_at_market:
  "bs_at_market (side_add h x s) =
     (if o_price (h x) = None then od_insert x (bs_at_market s) else bs_at_market s)"
  by (simp add: side_add_def split: option.splits)

lemma side_remove_at_market:
  "bs_at_market (snd (side_remove h x s)) =
     (if o_price (h x) = None then od_remove x (bs_at_market s) else bs_at_market s)"
  by (simp add: side_remove_def Let_def split: option.splits)

lemma level_at_side_add [book_simps]:
  "level_at (side_add h x s) q =
     (if o_price (h x) = Some q then od_insert x (level_at s q) else level_at s q)"
  by (auto simp: side_add_def level_at_def map_of_update_eq split: option.splits)

lemma level_at_side_remove [book_simps]:
  "level_at (snd (side_remove h x s)) q =
     (if o_price (h x) = Some q then od_remove x (level_at s q) else level_at s q)"
  by (auto simp: side_remove_def level_at_def Let_def map_of_update_eq map_of_delete_eq
      split: option.splits)

lemma side_okI:
  assumes "sorted_wrt (<) (bs_prices s)" and "distinct (map fst (bs_levels s))"
    and "set (bs_prices s) = fst ` set (bs_levels s)"
    and "\<And>p l. map_of (bs_levels s) p = Some l \<Longrightarrow> level_ok h (bs_is_buy s) p l"
    and "distinct (bs_at_market s)"
    and "\<And>x. x \<in> set (bs_at_market s) \<Longrightarrow> o_price (h x) = None \<and> is_buy (h x) = bs_is_buy s"
  shows "side_ok h s"
  using assms by (auto simp: side_ok_def dest: map_of_is_SomeI)

lemma side_ok_add:
  assumes ok: "side_ok h s" and side: "is_buy (h x) = bs_is_buy s"
  shows "side_ok h (side_add h x s)"
proof (cases "o_price (h x)")
  case None
  with ok side show ?thesis by (auto simp: side_ok_def side_add_def)
next
  case (Some p)
  note pr = this
  show ?thesis
  proof (cases "map_of (bs_levels s) p")
    case None
    then have new: "p \<notin> fst ` set (bs_levels s)" by (simp add: map_of_eq_None_iff)
    with ok pr side None show ?thesis
      by (auto simp: side_ok_def side_add_def update_fresh set_insort_right level_ok_def
          intro: strict_sorted_insort_right)
  next
    case (Some l)
    have "level_ok h (bs_is_buy s) p (od_insert x l)"
      using side_ok_level [OF ok Some] pr side by (auto simp: level_ok_def od_insert_def)
    moreover have "p \<in> fst ` set (bs_levels s)" using Some by (force dest: map_of_in_set)
    moreover have "side_add h x s = s\<lparr>bs_levels := AList.update p (od_insert x l) (bs_levels s)\<rparr>"
      using pr Some by (simp add: side_add_def)
    ultimately show ?thesis
      using side_okD [OF ok] side_ok_level [OF ok] side_ok_at_market [OF ok]
      by (intro side_okI) (auto simp: keys_update distinct_update map_of_update_eq insert_absorb
          split: if_splits)
  qed
qed

lemma side_ok_remove:
  assumes ok: "side_ok h s"
  shows "side_ok h (snd (side_remove h x s))"
proof (cases "o_price (h x)")
  case None
  with ok show ?thesis by (auto simp: side_ok_def side_remove_def)
next
  case (Some p)
  note pr = this
  show ?thesis
  proof (cases "\<exists>l. map_of (bs_levels s) p = Some l \<and> x \<in> set l")
    case False
    with pr ok show ?thesis by (auto simp: side_remove_def split: option.splits)
  next
    case True
    then obtain l where l: "map_of (bs_levels s) p = Some l" and x: "x \<in> set l" by auto
    have lok: "level_ok h (bs_is_buy s) p l" by (rule side_ok_level [OF ok l])
    have key: "p \<in> fst ` set (bs_levels s)" using l by (force dest: map_of_in_set)
    show ?thesis
    proof (cases "od_remove x l = []")
      case True
      then have "snd (side_remove h x s) = s\<lparr>bs_levels := AList.delete p (bs_levels s),
          bs_prices := filter (\<lambda>q. q \<noteq> p) (bs_prices s)\<rparr>"
        using pr l x by (simp add: side_remove_def drop_price_eq [OF side_okD(1) [OF ok]])
      then show ?thesis
        using side_okD [OF ok] side_ok_level [OF ok] side_ok_at_market [OF ok]
        by (intro side_okI) (auto simp: keys_delete distinct_delete map_of_delete_eq
            sorted_wrt_filter split: if_splits)
    next
      case False
      then have "snd (side_remove h x s)
          = s\<lparr>bs_levels := AList.update p (od_remove x l) (bs_levels s)\<rparr>"
        using pr l x by (simp add: side_remove_def Let_def)
      moreover have "level_ok h (bs_is_buy s) p (od_remove x l)"
        using lok False by (auto simp: level_ok_def)
      ultimately show ?thesis
        using side_okD [OF ok] side_ok_level [OF ok] side_ok_at_market [OF ok] key
        by (intro side_okI) (auto simp: keys_update distinct_update map_of_update_eq insert_absorb
            split: if_splits)
    qed
  qed
qed

lemma bs_prices_add:
  assumes "side_ok h s" and "o_price (h x) = Some p"
  shows "set (bs_prices (side_add h x s)) = insert p (set (bs_prices s))"
  using assms map_of_levels_Some [OF assms(1), of p]
  by (auto simp: side_add_def set_insort_right split: option.splits if_splits)

lemma bs_prices_unpriced [simp]:
  "o_price (h x) = None \<Longrightarrow> bs_prices (side_add h x s) = bs_prices s"
  "o_price (h x) = None \<Longrightarrow> bs_levels (side_add h x s) = bs_levels s"
  "o_price (h x) = None \<Longrightarrow> bs_prices (snd (side_remove h x s)) = bs_prices s"
  "o_price (h x) = None \<Longrightarrow> bs_levels (snd (side_remove h x s)) = bs_levels s"
  by (simp_all add: side_add_def side_remove_def)

lemma bs_prices_remove:
  assumes "side_ok h s" and "o_price (h x) = Some p"
  shows "bs_prices (snd (side_remove h x s))
    = (if level_at s p \<noteq> [] \<and> od_remove x (level_at s p) = []
       then filter (\<lambda>q. q \<noteq> p) (bs_prices s) else bs_prices s)"
  using assms map_of_levels_Some [OF assms(1), of p] level_at_nonempty [OF assms(1), of p]
  by (auto simp: side_remove_def Let_def drop_price_eq side_okD(1) split: option.splits if_splits)

lemma level_at_unpriced:
  "o_price (h x) = None \<Longrightarrow> level_at (side_add h x s) = level_at s"
  "o_price (h x) = None \<Longrightarrow> level_at (snd (side_remove h x s)) = level_at s"
  by (auto simp: level_at_def [abs_def])

subsection \<open>The priority queue of a side\<close>

text \<open>\<open>ahead b p q\<close>: on the buying (\<open>b\<close>) or selling side, \<open>p\<close> is served before \<open>q\<close>.\<close>

definition ahead :: "bool \<Rightarrow> int \<Rightarrow> int \<Rightarrow> bool" where
  "ahead b p q = (if b then q < p else p < q)"

lemma ahead_irrefl [simp]: "\<not> ahead b p p"
  by (simp add: ahead_def)

lemma ahead_trans: "ahead b p q \<Longrightarrow> ahead b q r \<Longrightarrow> ahead b p r"
  by (auto simp: ahead_def split: if_splits)

lemma ahead_cases: "ahead b p q \<or> p = q \<or> ahead b q p"
  by (auto simp: ahead_def)

lemma ahead_asym: "ahead b p q \<Longrightarrow> \<not> ahead b q p"
  by (auto simp: ahead_def split: if_splits)

lemma priority_sorted:
  "side_ok h s \<Longrightarrow> sorted_wrt (ahead (bs_is_buy s)) (prices_in_priority s)"
  by (auto simp: prices_in_priority_def ahead_def [abs_def] sorted_wrt_rev dest: side_okD(1))

lemma ahead_split:
  "sorted_wrt (ahead b) ps \<Longrightarrow>
   ps = filter (\<lambda>q. ahead b q p) ps @ filter (\<lambda>q. q = p) ps @ filter (\<lambda>q. ahead b p q) ps"
proof (induction ps)
  case Nil
  then show ?case by simp
next
  case (Cons a ps)
  consider "ahead b a p" | "a = p" | "ahead b p a" using ahead_cases by blast
  then show ?case
  proof cases
    case 1
    with Cons show ?thesis by (auto dest: ahead_asym)
  next
    case 2
    with Cons.prems have "\<forall>q \<in> set ps. ahead b p q" by simp
    then have "filter (\<lambda>q. ahead b q p) ps = [] \<and> filter (\<lambda>q. q = p) ps = []
        \<and> filter (\<lambda>q. ahead b p q) ps = ps"
      by (auto simp: filter_empty_conv filter_id_conv dest: ahead_asym)
    with 2 show ?thesis by simp
  next
    case 3
    with Cons.prems have "\<forall>q \<in> set (a # ps). ahead b p q" by (auto intro: ahead_trans)
    then have "filter (\<lambda>q. ahead b q p) (a # ps) = [] \<and> filter (\<lambda>q. q = p) (a # ps) = []
        \<and> filter (\<lambda>q. ahead b p q) (a # ps) = a # ps"
      by (auto simp: filter_empty_conv filter_id_conv dest: ahead_asym)
    then show ?thesis by simp
  qed
qed

text \<open>The part of the queue served before, and after, price \<open>p\<close>.\<close>

definition queue_ahead :: "book_side \<Rightarrow> int \<Rightarrow> oid list" where
  "queue_ahead s p = concat (map (level_at s)
     (filter (\<lambda>q. ahead (bs_is_buy s) q p) (prices_in_priority s)))"

definition queue_behind :: "book_side \<Rightarrow> int \<Rightarrow> oid list" where
  "queue_behind s p = concat (map (level_at s)
     (filter (\<lambda>q. ahead (bs_is_buy s) p q) (prices_in_priority s)))"

lemma filter_eq_distinct: "distinct ps \<Longrightarrow> filter (\<lambda>q. q = p) ps = (if p \<in> set ps then [p] else [])"
  by (induction ps) auto

lemma distinct_prices_in_priority: "side_ok h s \<Longrightarrow> distinct (prices_in_priority s)"
  by (simp add: prices_in_priority_def side_okD(3))

lemma queue_split:
  assumes "side_ok h s"
  shows "orders_in_priority s = queue_ahead s p @ level_at s p @ queue_behind s p"
proof -
  let ?ps = "prices_in_priority s" and ?b = "bs_is_buy s"
  have ps: "?ps = filter (\<lambda>q. ahead ?b q p) ?ps @ filter (\<lambda>q. q = p) ?ps @ filter (\<lambda>q. ahead ?b p q) ?ps"
    by (rule ahead_split [OF priority_sorted [OF assms]])
  have "concat (map (level_at s) (filter (\<lambda>q. q = p) ?ps)) = level_at s p"
    using level_at_no_price [OF assms, of p]
    by (simp add: filter_eq_distinct [OF distinct_prices_in_priority [OF assms]])
  then show ?thesis
    unfolding orders_in_priority_def queue_ahead_def queue_behind_def
    by (subst ps) simp
qed

lemma filter_insort_right: "\<not> P p \<Longrightarrow> filter P (insort_right p a) = filter P a"
  by (simp add: insort_right_def Let_def) (metis append_take_drop_id filter_append)

lemma filter_prices_add:
  assumes "o_price (h x) = Some p" and "\<not> P p"
  shows "filter P (prices_in_priority (side_add h x s)) = filter P (prices_in_priority s)"
  using assms
  by (auto simp: prices_in_priority_def side_add_def filter_insort_right rev_filter [symmetric]
      split: option.splits)

lemma filter_prices_remove:
  assumes "side_ok h s" and "o_price (h x) = Some p" and "\<not> P p"
  shows "filter P (prices_in_priority (snd (side_remove h x s))) = filter P (prices_in_priority s)"
proof -
  have "filter P (filter (\<lambda>q. q \<noteq> p) ps) = filter P ps" for ps
    using assms(3) by (induction ps) auto
  then show ?thesis
    by (auto simp: prices_in_priority_def bs_prices_remove [OF assms(1,2)] rev_filter [symmetric])
qed

lemma queue_parts_add:
  assumes "o_price (h x) = Some p"
  shows "queue_ahead (side_add h x s) p = queue_ahead s p"
    and "queue_behind (side_add h x s) p = queue_behind s p"
  unfolding queue_ahead_def queue_behind_def side_add_is_buy
  by (auto simp: filter_prices_add [of h x p, OF assms] level_at_side_add assms
      intro!: arg_cong [where f = concat] map_cong)

lemma queue_parts_remove:
  assumes "side_ok h s" and "o_price (h x) = Some p"
  shows "queue_ahead (snd (side_remove h x s)) p = queue_ahead s p"
    and "queue_behind (snd (side_remove h x s)) p = queue_behind s p"
  unfolding queue_ahead_def queue_behind_def side_remove_is_buy
  by (auto simp: filter_prices_remove [OF assms] level_at_side_remove assms
      intro!: arg_cong [where f = concat] map_cong)

lemma queue_add:
  assumes ok: "side_ok h s" and side: "is_buy (h x) = bs_is_buy s" and p: "o_price (h x) = Some p"
  shows "orders_in_priority (side_add h x s)
    = queue_ahead s p @ od_insert x (level_at s p) @ queue_behind s p"
  using queue_split [OF side_ok_add [OF ok side], of p]
  by (simp add: queue_parts_add [of h x p, OF p] level_at_side_add p)

lemma queue_price:
  assumes "side_ok h s"
  shows "x \<in> set (queue_ahead s p) \<Longrightarrow> \<exists>q. o_price (h x) = Some q \<and> ahead (bs_is_buy s) q p"
    and "x \<in> set (queue_behind s p) \<Longrightarrow> \<exists>q. o_price (h x) = Some q \<and> ahead (bs_is_buy s) p q"
  using level_at_ok(1) [OF assms] by (auto simp: queue_ahead_def queue_behind_def)

lemma not_in_queue_parts:
  assumes "side_ok h s" and "o_price (h x) = Some p"
  shows "x \<notin> set (queue_ahead s p)" and "x \<notin> set (queue_behind s p)"
  using queue_price [OF assms(1)] assms(2) by fastforce+

lemma queue_remove:
  assumes ok: "side_ok h s"
  shows "orders_in_priority (snd (side_remove h x s)) = od_remove x (orders_in_priority s)"
proof (cases "o_price (h x)")
  case None
  have "x \<notin> set (orders_in_priority s)"
    using level_at_ok(1) [OF ok] None by (fastforce simp: set_orders_in_priority)
  moreover have "orders_in_priority (snd (side_remove h x s)) = orders_in_priority s"
    using None by (simp add: orders_in_priority_def prices_in_priority_def level_at_unpriced)
  ultimately show ?thesis by simp
next
  case (Some p)
  have "orders_in_priority (snd (side_remove h x s))
      = queue_ahead s p @ od_remove x (level_at s p) @ queue_behind s p"
    using queue_split [OF side_ok_remove [OF ok], of x p]
    by (simp add: queue_parts_remove [OF ok Some] level_at_side_remove Some)
  also have "\<dots> = od_remove x (orders_in_priority s)"
    using not_in_queue_parts [OF ok Some] by (simp add: queue_split [OF ok, of p])
  finally show ?thesis .
qed

lemma queue_unpriced:
  "o_price (h x) = None \<Longrightarrow> orders_in_priority (side_add h x s) = orders_in_priority s"
  by (simp add: orders_in_priority_def prices_in_priority_def level_at_unpriced)

lemma distinct_concat_levels:
  "side_ok h s \<Longrightarrow> distinct ps \<Longrightarrow> distinct (concat (map (level_at s) ps))"
proof (induction ps)
  case Nil
  then show ?case by simp
next
  case (Cons p ps)
  have "set (level_at s p) \<inter> set (concat (map (level_at s) ps)) = {}"
  proof (rule ccontr)
    assume "\<not> ?thesis"
    then obtain x q where "x \<in> set (level_at s p)" "q \<in> set ps" "x \<in> set (level_at s q)" by auto
    moreover from this level_at_ok(1) [OF Cons.prems(1), of x p]
      level_at_ok(1) [OF Cons.prems(1), of x q] have "p = q" by simp
    ultimately show False using Cons.prems(2) by simp
  qed
  then show ?case using Cons distinct_level_at [OF Cons.prems(1), of p] by auto
qed

lemma distinct_queue: "side_ok h s \<Longrightarrow> distinct (orders_in_priority s)"
  unfolding orders_in_priority_def
  by (intro distinct_concat_levels distinct_prices_in_priority)

text \<open>The price of a priced order, for orders known to have one.\<close>

definition price_of :: "heap \<Rightarrow> oid \<Rightarrow> int" where
  "price_of h x = (case o_price (h x) of None \<Rightarrow> 0 | Some p \<Rightarrow> p)"

lemma queue_priced:
  "side_ok h s \<Longrightarrow> x \<in> set (orders_in_priority s) \<Longrightarrow> o_price (h x) = Some (price_of h x)"
  using level_at_ok(1) by (fastforce simp: set_orders_in_priority price_of_def)

lemma level_at_price_of:
  "side_ok h s \<Longrightarrow> x \<in> set (level_at s p) \<Longrightarrow> price_of h x = p"
  by (simp add: price_of_def level_at_ok(1))

lemma concat_levels_sorted:
  assumes ok: "side_ok h s"
  shows "sorted_wrt (ahead b) ps \<Longrightarrow>
    sorted_wrt (\<lambda>x y. \<not> ahead b (price_of h y) (price_of h x)) (concat (map (level_at s) ps))"
proof (induction ps)
  case Nil
  then show ?case by simp
next
  case (Cons p ps)
  have "sorted_wrt (\<lambda>x y. \<not> ahead b (price_of h y) (price_of h x)) (level_at s p)"
    by (rule sorted_wrt_mono_rel [OF _ sorted_wrt_true]) (simp add: level_at_price_of [OF ok])
  with Cons show ?case
    by (auto simp: sorted_wrt_append level_at_price_of [OF ok] dest: ahead_asym)
qed

lemma queue_sorted:
  "side_ok h s \<Longrightarrow> sorted_wrt (\<lambda>x y. \<not> ahead (bs_is_buy s) (price_of h y) (price_of h x))
     (orders_in_priority s)"
  unfolding orders_in_priority_def by (intro concat_levels_sorted priority_sorted)

subsection \<open>The best price and the head of the queue\<close>

lemma best_price_priority:
  "best_price s = (case prices_in_priority s of [] \<Rightarrow> None | p # _ \<Rightarrow> Some p)"
proof (cases "bs_prices s" rule: rev_cases)
  case Nil
  then show ?thesis by (simp add: best_price_def prices_in_priority_def)
next
  case (snoc ps p)
  then show ?thesis
    by (cases ps) (simp_all add: best_price_def prices_in_priority_def)
qed

lemma best_price_queue:
  assumes "side_ok h s"
  shows "best_price s = (case orders_in_priority s of [] \<Rightarrow> None | x # _ \<Rightarrow> o_price (h x))"
proof (cases "prices_in_priority s")
  case Nil
  then show ?thesis by (simp add: best_price_priority orders_in_priority_def)
next
  case (Cons p ps)
  then have "p \<in> set (bs_prices s)" by (metis list.set_intros(1) set_prices_in_priority)
  then obtain x xs where "level_at s p = x # xs"
    using level_at_nonempty [OF assms, of p] by (cases "level_at s p") auto
  then show ?thesis
    using level_at_ok(1) [OF assms, of x p] Cons
    by (simp add: best_price_priority orders_in_priority_def)
qed

lemma best_price_None:
  "side_ok h s \<Longrightarrow> best_price s = None \<longleftrightarrow> orders_in_priority s = []"
  using queue_priced [of h s]
  by (auto simp: best_price_queue split: list.splits)

lemma best_level_queue:
  assumes "side_ok h s"
  shows "best_level s =
    (case best_price s of None \<Rightarrow> None | Some p \<Rightarrow> Some (level_at s p))"
proof (cases "best_price s")
  case None
  then show ?thesis by (simp add: best_level_def)
next
  case (Some p)
  then obtain ps where "prices_in_priority s = p # ps"
    by (auto simp: best_price_priority split: list.splits)
  then have "p \<in> set (bs_prices s)" by (metis list.set_intros(1) set_prices_in_priority)
  then show ?thesis
    using map_of_levels_Some [OF assms, of p] Some by (simp add: best_level_def)
qed

lemma queue_head_level:
  assumes "side_ok h s" and "best_price s = Some p"
  obtains x xs ys where "level_at s p = x # xs" and "orders_in_priority s = (x # xs) @ ys"
    and "o_price (h x) = Some p"
proof -
  from assms(2) obtain ps where ps: "prices_in_priority s = p # ps"
    by (auto simp: best_price_priority split: list.splits)
  then have "p \<in> set (bs_prices s)" by (metis list.set_intros(1) set_prices_in_priority)
  then obtain x xs where l: "level_at s p = x # xs"
    using level_at_nonempty [OF assms(1), of p] by (cases "level_at s p") auto
  have "orders_in_priority s = (x # xs) @ concat (map (level_at s) ps)"
    by (simp add: orders_in_priority_def ps l)
  with l level_at_ok(1) [OF assms(1), of x p] show ?thesis by (intro that) simp_all
qed

text \<open>Nothing in the queue is better than the best price.\<close>

lemma best_price_is_best:
  assumes "side_ok h s" and "best_price s = Some b" and "x \<in> set (orders_in_priority s)"
  shows "\<not> ahead (bs_is_buy s) (price_of h x) b"
proof -
  from assms(1,2) obtain y ys zs where q: "orders_in_priority s = (y # ys) @ zs"
    and y: "o_price (h y) = Some b" by (rule queue_head_level)
  from queue_sorted [OF assms(1)] q assms(3) y show ?thesis by (auto simp: price_of_def)
qed

subsection \<open>Aggregated quantities\<close>

lemma sum_concat_levels:
  assumes ok: "side_ok h s"
  shows "sum_list (map f (filter (\<lambda>x. P (price_of h x)) (concat (map (level_at s) ps))))
    = sum_list (map (\<lambda>p. sum_list (map f (level_at s p))) (filter P ps))"
proof (induction ps)
  case Nil
  then show ?case by simp
next
  case (Cons p ps)
  have "filter (\<lambda>x. P (price_of h x)) (level_at s p) = (if P p then level_at s p else [])"
    by (auto simp: filter_id_conv filter_empty_conv level_at_price_of [OF ok])
  with Cons show ?case by simp
qed

lemma sum_list_rev_int: "sum_list (rev (xs :: int list)) = sum_list xs"
  by (induction xs) simp_all

lemma sum_priority:
  fixes g :: "int \<Rightarrow> int"
  shows "sum_list (map g (filter P (prices_in_priority s))) = sum_list (map g (filter P (bs_prices s)))"
  by (simp add: prices_in_priority_def rev_filter [symmetric] rev_map [symmetric] sum_list_rev_int)

lemma queue_sum_filter:
  assumes "side_ok h s"
  shows "sum_list (map (\<lambda>x. leaves_qty (h x)) (filter (\<lambda>x. P (price_of h x)) (orders_in_priority s)))
    = sum_list (map (quantity_at h s) (filter P (bs_prices s)))"
proof -
  have q: "quantity_at h s = (\<lambda>p. sum_list (map (\<lambda>x. leaves_qty (h x)) (level_at s p)))"
    by (simp add: quantity_at_def [abs_def])
  show ?thesis
    unfolding orders_in_priority_def q
    by (simp add: sum_concat_levels [OF assms] sum_priority)
qed

lemma quantity_above_eq:
  assumes "side_ok h s"
  shows "quantity_above h s p =
    sum_list (map (\<lambda>x. leaves_qty (h x)) (filter (\<lambda>x. p < price_of h x) (orders_in_priority s)))"
  using queue_sum_filter [OF assms, of "\<lambda>q. p < q"]
  by (simp add: quantity_above_def bisect_right_split [OF side_okD(2) [OF assms]] not_le)

lemma quantity_below_eq:
  assumes "side_ok h s"
  shows "quantity_below h s p =
    sum_list (map (\<lambda>x. leaves_qty (h x)) (filter (\<lambda>x. price_of h x < p) (orders_in_priority s)))"
  using queue_sum_filter [OF assms, of "\<lambda>q. q < p"]
  by (simp add: quantity_below_def bisect_left_split [OF side_okD(2) [OF assms]])

lemma quantity_at_eq:
  assumes "side_ok h s"
  shows "quantity_at h s p =
    sum_list (map (\<lambda>x. leaves_qty (h x)) (filter (\<lambda>x. price_of h x = p) (orders_in_priority s)))"
proof -
  have "sum_list (map (quantity_at h s) (filter (\<lambda>q. q = p) (bs_prices s))) = quantity_at h s p"
    using level_at_no_price [OF assms, of p]
    by (auto simp: filter_eq_distinct [OF side_okD(3) [OF assms]] quantity_at_def)
  with queue_sum_filter [OF assms, of "\<lambda>q. q = p"] show ?thesis by simp
qed

lemma distinct_side_orders:
  assumes ok: "side_ok h s"
  shows "distinct (side_orders s)"
proof -
  have eq: "map (level_at s) (map fst (bs_levels s)) = map snd (bs_levels s)"
    using level_at_pair [OF ok] by auto
  have "distinct (concat (map snd (bs_levels s)))"
    using distinct_concat_levels [OF ok side_okD(4) [OF ok]] unfolding eq .
  moreover have "set (bs_at_market s) \<inter> set (concat (map snd (bs_levels s))) = {}"
  proof -
    have "x \<notin> set (concat (map snd (bs_levels s)))" if "x \<in> set (bs_at_market s)" for x
    proof
      assume "x \<in> set (concat (map snd (bs_levels s)))"
      then obtain p l where "(p, l) \<in> set (bs_levels s)" "x \<in> set l" by auto
      with level_at_pair [OF ok] have "x \<in> set (level_at s p)" by fastforce
      with side_ok_at_market [OF ok that] level_at_ok(1) [OF ok] show False by fastforce
    qed
    then show ?thesis by blast
  qed
  ultimately show ?thesis using side_okD(6) [OF ok] by (simp add: side_orders_def)
qed

lemma sum_list_distinct_set_eq:
  assumes "distinct xs" and "distinct ys" and "set xs = set ys"
  shows "sum_list (map (f :: 'a \<Rightarrow> int) xs) = sum_list (map f ys)"
  using assms by (simp add: sum_list_distinct_conv_sum_set)

lemma total_quantity_eq:
  assumes ok: "side_ok h s"
  shows "total_quantity h s =
    at_market_quantity h s + sum_list (map (\<lambda>x. leaves_qty (h x)) (orders_in_priority s))"
proof -
  have "set (bs_at_market s) \<inter> set (orders_in_priority s) = {}"
    using queue_priced [OF ok] side_ok_at_market [OF ok] by fastforce
  then have "sum_list (map (\<lambda>x. leaves_qty (h x)) (side_orders s))
      = sum_list (map (\<lambda>x. leaves_qty (h x)) (bs_at_market s @ orders_in_priority s))"
    using distinct_side_orders [OF ok] side_okD(6) [OF ok] distinct_queue [OF ok]
    by (intro sum_list_distinct_set_eq) (simp_all add: side_orders_split [OF ok])
  then show ?thesis by (simp add: total_quantity_def at_market_quantity_def)
qed

lemma sum_three_way:
  fixes f :: "'a \<Rightarrow> int" and k :: "'a \<Rightarrow> int"
  shows "sum_list (map f xs) = sum_list (map f (filter (\<lambda>x. k x < p) xs))
    + sum_list (map f (filter (\<lambda>x. k x = p) xs)) + sum_list (map f (filter (\<lambda>x. p < k x) xs))"
  by (induction xs) auto

subsection \<open>The aggregated ladder\<close>

definition depth_rows :: "heap \<Rightarrow> book_side \<Rightarrow> int list \<Rightarrow> depth_row list" where
  "depth_rows h s ps = map (\<lambda>p. \<lparr>dr_price = p, dr_quantity = quantity_at h s p,
     dr_orders = orders_at s p\<rparr>) (filter (\<lambda>p. 0 < quantity_at h s p) ps)"

lemma depth_loop_eq:
  "depth_loop h s limit d ps = take (max 1 (limit - d)) (depth_rows h s ps)"
proof (induction ps arbitrary: d)
  case Nil
  then show ?case by (simp add: depth_rows_def)
next
  case (Cons p ps)
  then show ?case
    by (auto simp: Let_def depth_rows_def take_Cons' max_def)
qed

end
