(* ===== verification/Book_Queue.thy ===== *)
theory Book_Queue
  imports Book
begin

section \<open>The contract of a book side, and the two-sided book\<close>

text \<open>
  \<open>price_time_queue\<close> is what the matching engine and the auction rely on: a side is a
  queue of references sorted by price, first come first served within a price; adding
  puts an order behind everything not worse, removing takes it out and moves nobody.
  The consequences are proved once in the locale and obtained for \<open>BookSide\<close> by
  interpretation.
\<close>

locale price_time_queue =
  fixes add :: "heap \<Rightarrow> oid \<Rightarrow> 's \<Rightarrow> 's"
    and remove :: "heap \<Rightarrow> oid \<Rightarrow> 's \<Rightarrow> bool \<times> 's"
    and queue :: "'s \<Rightarrow> oid list"
    and buys :: "'s \<Rightarrow> bool"
    and ok :: "heap \<Rightarrow> 's \<Rightarrow> bool"
  assumes ok_add: "ok h s \<Longrightarrow> is_buy (h x) = buys s \<Longrightarrow> ok h (add h x s)"
    and ok_remove: "ok h s \<Longrightarrow> ok h (snd (remove h x s))"
    and buys_add: "buys (add h x s) = buys s"
    and buys_remove: "buys (snd (remove h x s)) = buys s"
    and queue_add: "ok h s \<Longrightarrow> is_buy (h x) = buys s \<Longrightarrow> o_price (h x) = Some p \<Longrightarrow>
      x \<notin> set (queue s) \<Longrightarrow>
      queue (add h x s) = filter (\<lambda>y. \<not> ahead (buys s) p (price_of h y)) (queue s) @ [x] @
        filter (\<lambda>y. ahead (buys s) p (price_of h y)) (queue s)"
    and queue_remove: "ok h s \<Longrightarrow> queue (snd (remove h x s)) = od_remove x (queue s)"
    and queue_sorted: "ok h s \<Longrightarrow>
      sorted_wrt (\<lambda>x y. \<not> ahead (buys s) (price_of h y) (price_of h x)) (queue s)"
    and queue_distinct: "ok h s \<Longrightarrow> distinct (queue s)"
begin

text \<open>In a sorted queue, what is not worse than a price comes before what is worse.\<close>

lemma queue_partition:
  assumes "ok h s"
  shows "queue s = filter (\<lambda>y. \<not> ahead (buys s) p (price_of h y)) (queue s) @
    filter (\<lambda>y. ahead (buys s) p (price_of h y)) (queue s)"
proof -
  have "sorted_wrt (\<lambda>x y. \<not> ahead b (price_of h y) (price_of h x)) xs \<Longrightarrow>
      xs = filter (\<lambda>y. \<not> ahead b p (price_of h y)) xs @ filter (\<lambda>y. ahead b p (price_of h y)) xs"
    for b and xs :: "oid list"
  proof (induction xs)
    case Nil
    then show ?case by simp
  next
    case (Cons a xs)
    show ?case
    proof (cases "ahead b p (price_of h a)")
      case False
      with Cons show ?thesis by simp
    next
      case True
      with Cons.prems have "\<forall>y \<in> set xs. ahead b p (price_of h y)"
        using ahead_cases ahead_trans by fastforce
      then have "filter (\<lambda>y. \<not> ahead b p (price_of h y)) xs = []"
        and "filter (\<lambda>y. ahead b p (price_of h y)) xs = xs"
        by (auto simp: filter_empty_conv filter_id_conv)
      with True show ?thesis by simp
    qed
  qed
  from this [OF queue_sorted [OF assms]] show ?thesis .
qed

text \<open>Everybody already queued keeps the place they had.\<close>

lemma add_keeps_others:
  assumes "ok h s" and "is_buy (h x) = buys s" and "o_price (h x) = Some p" and "x \<notin> set (queue s)"
  shows "od_remove x (queue (add h x s)) = queue s"
  using queue_add [OF assms] queue_partition [OF assms(1), of p] assms(4) by simp

lemma set_queue_add:
  assumes "ok h s" and "is_buy (h x) = buys s" and "o_price (h x) = Some p" and "x \<notin> set (queue s)"
  shows "set (queue (add h x s)) = insert x (set (queue s))"
  by (auto simp: queue_add [OF assms])

text \<open>First come first served: an order waits behind every queued order of its price.\<close>

lemma add_behind_equals:
  assumes "ok h s" and "is_buy (h x) = buys s" and "o_price (h x) = Some p" and "x \<notin> set (queue s)"
    and "y \<in> set (queue s)" and "price_of h y = p"
  shows "\<exists>us vs ws. queue (add h x s) = us @ y # vs @ x # ws"
proof -
  have "y \<in> set (filter (\<lambda>y. \<not> ahead (buys s) p (price_of h y)) (queue s))"
    using assms(5,6) by simp
  then obtain us vs where "filter (\<lambda>y. \<not> ahead (buys s) p (price_of h y)) (queue s) = us @ y # vs"
    by (metis split_list)
  then show ?thesis using queue_add [OF assms(1-4)] by force
qed

text \<open>Leaving and coming back at the same price costs the order its place.\<close>

lemma readd_goes_to_back:
  assumes "ok h s" and "is_buy (h x) = buys s" and "o_price (h x) = Some p"
  shows "queue (add h x (snd (remove h x s))) =
    filter (\<lambda>y. \<not> ahead (buys s) p (price_of h y)) (od_remove x (queue s)) @ [x] @
    filter (\<lambda>y. ahead (buys s) p (price_of h y)) (od_remove x (queue s))"
  using queue_add [of h "snd (remove h x s)" x p] ok_remove [OF assms(1), of x] assms
  by (simp add: queue_remove buys_remove)

end

lemma side_queue_add:
  assumes ok: "side_ok h s" and side: "is_buy (h x) = bs_is_buy s" and p: "o_price (h x) = Some p"
    and new: "x \<notin> set (orders_in_priority s)"
  shows "orders_in_priority (side_add h x s)
    = filter (\<lambda>y. \<not> ahead (bs_is_buy s) p (price_of h y)) (orders_in_priority s) @ [x] @
      filter (\<lambda>y. ahead (bs_is_buy s) p (price_of h y)) (orders_in_priority s)"
proof -
  have split: "orders_in_priority s = queue_ahead s p @ level_at s p @ queue_behind s p"
    by (rule queue_split [OF ok])
  have a: "y \<in> set (queue_ahead s p) \<Longrightarrow> \<not> ahead (bs_is_buy s) p (price_of h y)"
    and b: "y \<in> set (queue_behind s p) \<Longrightarrow> ahead (bs_is_buy s) p (price_of h y)"
    and l: "y \<in> set (level_at s p) \<Longrightarrow> \<not> ahead (bs_is_buy s) p (price_of h y)" for y
    using queue_price [OF ok, of y p] by (auto simp: price_of_def level_at_ok(1) [OF ok] dest: ahead_asym)
  have "filter (\<lambda>y. \<not> ahead (bs_is_buy s) p (price_of h y)) (queue_ahead s p) = queue_ahead s p"
    "filter (\<lambda>y. \<not> ahead (bs_is_buy s) p (price_of h y)) (level_at s p) = level_at s p"
    "filter (\<lambda>y. \<not> ahead (bs_is_buy s) p (price_of h y)) (queue_behind s p) = []"
    "filter (\<lambda>y. ahead (bs_is_buy s) p (price_of h y)) (queue_ahead s p) = []"
    "filter (\<lambda>y. ahead (bs_is_buy s) p (price_of h y)) (level_at s p) = []"
    "filter (\<lambda>y. ahead (bs_is_buy s) p (price_of h y)) (queue_behind s p) = queue_behind s p"
    using a b l by (auto simp: filter_id_conv filter_empty_conv)
  moreover have "x \<notin> set (level_at s p)" using new split by simp
  ultimately show ?thesis
    unfolding queue_add [OF ok side p] by (simp add: split)
qed

interpretation side_queue: price_time_queue side_add side_remove orders_in_priority bs_is_buy side_ok
proof (unfold_locales, goal_cases)
  case (1 h s x)
  then show ?case by (rule side_ok_add)
next
  case (2 h s x)
  then show ?case by (rule side_ok_remove)
next
  case (5 h s x p)
  then show ?case by (rule side_queue_add)
next
  case (6 h s x)
  then show ?case by (rule queue_remove)
next
  case (7 h s)
  then show ?case by (rule queue_sorted)
next
  case (8 h s)
  then show ?case by (rule distinct_queue)
qed simp_all

subsection \<open>Membership after an operation\<close>

lemma side_orders_add:
  assumes ok: "side_ok h s" and side: "is_buy (h x) = bs_is_buy s"
  shows "set (side_orders (side_add h x s)) = insert x (set (side_orders s))"
proof (cases "o_price (h x)")
  case None
  then show ?thesis
    by (auto simp: side_orders_split [OF ok] side_orders_split [OF side_ok_add [OF ok side]]
        side_add_at_market queue_unpriced)
next
  case (Some p)
  have "set (orders_in_priority (side_add h x s)) = insert x (set (orders_in_priority s))"
    using queue_split [OF ok, of p] by (auto simp: queue_add [OF ok side Some])
  with Some show ?thesis
    by (auto simp: side_orders_split [OF ok] side_orders_split [OF side_ok_add [OF ok side]]
        side_add_at_market)
qed

lemma side_orders_remove:
  assumes ok: "side_ok h s"
  shows "set (side_orders (snd (side_remove h x s))) = set (side_orders s) - {x}"
proof (cases "o_price (h x)")
  case None
  have "x \<notin> set (orders_in_priority s)" using queue_priced [OF ok, of x] None by fastforce
  with None show ?thesis
    by (auto simp: side_orders_split [OF ok] side_orders_split [OF side_ok_remove [OF ok]]
        side_remove_at_market queue_remove [OF ok])
next
  case (Some p)
  have "x \<notin> set (bs_at_market s)" using side_ok_at_market [OF ok, of x] Some by fastforce
  with Some show ?thesis
    by (auto simp: side_orders_split [OF ok] side_orders_split [OF side_ok_remove [OF ok]]
        side_remove_at_market queue_remove [OF ok])
qed

lemma side_remove_reports:
  assumes ok: "side_ok h s"
  shows "fst (side_remove h x s) \<longleftrightarrow> x \<in> set (side_orders s)"
proof (cases "o_price (h x)")
  case None
  then show ?thesis using in_side_at_market [OF ok None] by (simp add: side_remove_def)
next
  case (Some p)
  then show ?thesis
    using in_side_level [OF ok Some]
    by (auto simp: side_remove_def level_at_def Let_def split: option.splits)
qed

lemma side_remove_absent:
  assumes ok: "side_ok h s" and "x \<notin> set (side_orders s)"
  shows "side_remove h x s = (False, s)"
proof (cases "o_price (h x)")
  case None
  then show ?thesis using in_side_at_market [OF ok None] assms(2) by (simp add: side_remove_def)
next
  case (Some p)
  then show ?thesis
    using in_side_level [OF ok Some] assms(2)
    by (auto simp: side_remove_def level_at_def split: option.splits)
qed

subsection \<open>The two-sided book\<close>

text \<open>The side an order belongs to, as \<open>OrderBook.side\<close> and \<open>OrderBook.opposite\<close> pick it.\<close>

lemma book_side_of_bids [simp]: "side_is_buy sd \<Longrightarrow> book_side_of b sd = ob_bids b"
  by (simp add: book_side_of_def)

lemma book_opposite_buy:
  "is_buy x \<Longrightarrow> book_opposite b (o_side x) = ob_asks b"
  "\<not> is_buy x \<Longrightarrow> book_opposite b (o_side x) = ob_bids b"
  "is_buy x \<Longrightarrow> book_side_of b (o_side x) = ob_bids b"
  "\<not> is_buy x \<Longrightarrow> book_side_of b (o_side x) = ob_asks b"
  by (simp_all add: book_opposite_def book_side_of_def is_buy_def)

lemma book_okD:
  assumes "book_ok h b"
  shows "bs_is_buy (ob_bids b)" "\<not> bs_is_buy (ob_asks b)" "side_ok h (ob_bids b)"
    "side_ok h (ob_asks b)"
  using assms by (simp_all add: book_ok_def)

lemma book_ok_opposite: "book_ok h b \<Longrightarrow> side_ok h (book_opposite b sd)"
  by (simp add: book_opposite_def book_ok_def)

lemma book_ok_side_of: "book_ok h b \<Longrightarrow> side_ok h (book_side_of b sd)"
  by (simp add: book_side_of_def book_ok_def)

lemma bs_is_buy_opposite: "book_ok h b \<Longrightarrow> bs_is_buy (book_opposite b sd) = (\<not> side_is_buy sd)"
  by (simp add: book_opposite_def book_ok_def)

lemma bs_is_buy_side_of: "book_ok h b \<Longrightarrow> bs_is_buy (book_side_of b sd) = side_is_buy sd"
  by (simp add: book_side_of_def book_ok_def)

lemma book_ok_add: "book_ok h b \<Longrightarrow> book_ok h (book_add h x b)"
  by (auto simp: book_ok_def book_add_def intro: side_ok_add)

lemma book_remove_eq:
  "book_remove h x b =
     (if is_buy (h x)
      then (fst (side_remove h x (ob_bids b)), b\<lparr>ob_bids := snd (side_remove h x (ob_bids b))\<rparr>)
      else (fst (side_remove h x (ob_asks b)), b\<lparr>ob_asks := snd (side_remove h x (ob_asks b))\<rparr>))"
  by (simp add: book_remove_def split: prod.splits)

lemma book_ok_remove: "book_ok h b \<Longrightarrow> book_ok h (snd (book_remove h x b))"
  by (simp add: book_ok_def book_remove_eq side_ok_remove)

lemma book_ok_cong:
  "(\<And>x. x \<in> set (book_orders b) \<Longrightarrow> o_price (h' x) = o_price (h x) \<and> is_buy (h' x) = is_buy (h x))
   \<Longrightarrow> book_ok h b \<Longrightarrow> book_ok h' b"
  using side_ok_cong [of "ob_bids b" h' h] side_ok_cong [of "ob_asks b" h' h]
  by (auto simp: book_ok_def book_orders_def)

lemma book_orders_add:
  "book_ok h b \<Longrightarrow> set (book_orders (book_add h x b)) = insert x (set (book_orders b))"
  by (auto simp: book_orders_def book_add_def book_ok_def side_orders_add)

lemma book_orders_remove:
  assumes "book_ok h b"
  shows "set (book_orders (snd (book_remove h x b))) = set (book_orders b) - {x}"
proof -
  note ok = book_okD [OF assms]
  have other: "is_buy (h x) \<Longrightarrow> x \<notin> set (side_orders (ob_asks b))"
    "\<not> is_buy (h x) \<Longrightarrow> x \<notin> set (side_orders (ob_bids b))"
    using side_ok_is_buy [OF ok(3), of x] side_ok_is_buy [OF ok(4), of x] ok(1,2) by auto
  show ?thesis
  proof (cases "is_buy (h x)")
    case True
    with other(1) show ?thesis
      by (simp add: book_orders_def book_remove_eq side_orders_remove [OF ok(3)] Un_Diff)
  next
    case False
    with other(2) show ?thesis
      by (simp add: book_orders_def book_remove_eq side_orders_remove [OF ok(4)] Un_Diff)
  qed
qed

lemma book_add_frame [frame_simps]:
  "ob_symbol (book_add h x b) = ob_symbol b" "ob_market (book_add h x b) = ob_market b"
  "is_buy (h x) \<Longrightarrow> ob_asks (book_add h x b) = ob_asks b"
  "\<not> is_buy (h x) \<Longrightarrow> ob_bids (book_add h x b) = ob_bids b"
  by (simp_all add: book_add_def)

lemma book_remove_frame [frame_simps]:
  "ob_symbol (snd (book_remove h x b)) = ob_symbol b"
  "ob_market (snd (book_remove h x b)) = ob_market b"
  "is_buy (h x) \<Longrightarrow> ob_asks (snd (book_remove h x b)) = ob_asks b"
  "\<not> is_buy (h x) \<Longrightarrow> ob_bids (snd (book_remove h x b)) = ob_bids b"
  by (simp_all add: book_remove_eq)

lemma book_remove_sides:
  "is_buy (h x) \<Longrightarrow> ob_bids (snd (book_remove h x b)) = snd (side_remove h x (ob_bids b))"
  "\<not> is_buy (h x) \<Longrightarrow> ob_asks (snd (book_remove h x b)) = snd (side_remove h x (ob_asks b))"
  by (simp_all add: book_remove_eq)

end
