(* ===== verification/Events.thy ===== *)
theory Events
  imports Orders
begin

section \<open>Events the core emits (\<open>core/events.py\<close>)\<close>

text \<open>
  One constructor per event class. An event that holds the order itself holds its
  reference here; the totals an event snapshots when it is built are fields of the
  event, read from the store by the building functions below.
\<close>

record fill_event =
  fe_order :: oid
  fe_quantity :: int
  fe_price :: int
  fe_trade_id :: string
  fe_liquidity :: liquidity
  fe_counterparty_order_id :: oid
  fe_counterparty_mpid :: "string option"
  fe_cum_qty :: int
  fe_leaves_qty :: int
  fe_notional_units :: int
  fe_order_qty :: int

record trade_event =
  te_symbol :: string
  te_market :: "string option"
  te_price :: int
  te_quantity :: int
  te_trade_id :: string
  te_buy_order_id :: oid
  te_sell_order_id :: oid
  te_aggressor_side :: "side option"
  te_timestamp :: "timestamp option"

datatype event =
    OrderAccepted oid int int int
  | OrderRejected oid reject_reason string
  | OrderFilled fill_event
  | OrderCancelled oid cancel_reason string
  | OrderDecremented oid int cancel_reason
  | OrderReplaced oid "string option" bool
  | CancelRejected "string option" "string option" cancel_reject_reason string "oid option" bool
  | TradeExecuted trade_event
  | TradingStateChanged string "string option" trading_state trading_state

definition order_accepted :: "heap \<Rightarrow> oid \<Rightarrow> event" where
  "order_accepted h x =
     OrderAccepted x (o_cum_qty (h x)) (leaves_qty (h x)) (o_quantity (h x))"

definition order_filled ::
    "heap \<Rightarrow> oid \<Rightarrow> int \<Rightarrow> int \<Rightarrow> string \<Rightarrow> liquidity \<Rightarrow> oid \<Rightarrow> string option \<Rightarrow> event" where
  "order_filled h x q p tid liq cp cp_mpid = OrderFilled
     \<lparr>fe_order = x, fe_quantity = q, fe_price = p, fe_trade_id = tid, fe_liquidity = liq,
      fe_counterparty_order_id = cp, fe_counterparty_mpid = cp_mpid,
      fe_cum_qty = o_cum_qty (h x), fe_leaves_qty = leaves_qty (h x),
      fe_notional_units = o_notional_units (h x), fe_order_qty = o_quantity (h x)\<rparr>"

definition fill_is_complete :: "fill_event \<Rightarrow> bool" where
  "fill_is_complete f \<longleftrightarrow> fe_leaves_qty f = 0"

definition state_change_scope :: "string option \<Rightarrow> string" where
  "state_change_scope sy = (if truthy sy then ''instrument'' else ''market'')"

fun is_accepted :: "event \<Rightarrow> bool" where
  "is_accepted (OrderAccepted _ _ _ _) = True"
| "is_accepted _ = False"

subsection \<open>Reading a batch of events\<close>

text \<open>The executions of a batch, and the fills of one side of them.\<close>

fun trade_of :: "event \<Rightarrow> trade_event list" where
  "trade_of (TradeExecuted t) = [t]"
| "trade_of _ = []"

definition trades_of :: "event list \<Rightarrow> trade_event list" where
  "trades_of evs = concat (map trade_of evs)"

fun fill_of :: "event \<Rightarrow> fill_event list" where
  "fill_of (OrderFilled f) = [f]"
| "fill_of _ = []"

definition fills_of :: "event list \<Rightarrow> fill_event list" where
  "fills_of evs = concat (map fill_of evs)"

definition fills_for :: "oid \<Rightarrow> event list \<Rightarrow> fill_event list" where
  "fills_for x evs = filter (\<lambda>f. fe_order f = x) (fills_of evs)"

lemma trades_of_simps [simp]:
  "trades_of [] = []"
  "trades_of (e # evs) = trade_of e @ trades_of evs"
  "trades_of (evs @ evs') = trades_of evs @ trades_of evs'"
  by (simp_all add: trades_of_def)

lemma fills_of_simps [simp]:
  "fills_of [] = []"
  "fills_of (e # evs) = fill_of e @ fills_of evs"
  "fills_of (evs @ evs') = fills_of evs @ fills_of evs'"
  by (simp_all add: fills_of_def)

lemma fill_of_order_filled [simp]:
  "fill_of (order_filled h x q p tid liq cp m) = [
     \<lparr>fe_order = x, fe_quantity = q, fe_price = p, fe_trade_id = tid, fe_liquidity = liq,
      fe_counterparty_order_id = cp, fe_counterparty_mpid = m,
      fe_cum_qty = o_cum_qty (h x), fe_leaves_qty = leaves_qty (h x),
      fe_notional_units = o_notional_units (h x), fe_order_qty = o_quantity (h x)\<rparr>]"
  "trade_of (order_filled h x q p tid liq cp m) = []"
  by (simp_all add: order_filled_def)

lemma order_accepted_simps [simp]:
  "trade_of (order_accepted h x) = []" "fill_of (order_accepted h x) = []"
  "is_accepted (order_accepted h x)"
  by (simp_all add: order_accepted_def)

end
