(* ===== verification/Matching.thy ===== *)
theory Matching
  imports Book_Queue Events
begin

section \<open>Continuous matching (\<open>core/matching.py\<close>)\<close>

text \<open>
  The engine holds its two settings and the reading of its clock; the state an entry
  mutates is the store of orders, the one book passed in, and the trade identifiers.
  Every method is one definition; an exception anywhere in an entry is its result.
\<close>

record matching_engine =
  me_stp_mode :: stp_mode
  me_ack_on_entry :: bool
  me_now :: "timestamp option"

record mstate =
  ms_heap :: heap
  ms_book :: order_book
  ms_trade_ids :: idgen

abbreviation set_order :: "oid \<Rightarrow> order \<Rightarrow> mstate \<Rightarrow> mstate" where
  "set_order x y s \<equiv> s\<lparr>ms_heap := (ms_heap s)(x := y)\<rparr>"

subsection \<open>Pre-checks\<close>

definition prices_cross :: "order \<Rightarrow> int \<Rightarrow> bool" where
  "prices_cross y resting_price =
     (case o_price y of None \<Rightarrow> True
      | Some p \<Rightarrow> (if is_buy y then resting_price \<le> p else resting_price \<ge> p))"

definition would_cross :: "order_book \<Rightarrow> order \<Rightarrow> bool" where
  "would_cross b y =
     (case o_price y of None \<Rightarrow> side_bool (book_opposite b (o_side y))
      | Some p \<Rightarrow> side_crosses (book_opposite b (o_side y)) p)"

definition is_self_trade :: "matching_engine \<Rightarrow> order \<Rightarrow> order \<Rightarrow> bool" where
  "is_self_trade me y resting =
     (if truthy (o_stp_id y) \<and> truthy (o_stp_id resting) then o_stp_id y = o_stp_id resting
      else if me_stp_mode me = STP_NONE then False
      else if \<not> truthy (o_mpid y) \<or> \<not> truthy (o_mpid resting) then False
      else o_mpid y = o_mpid resting)"

definition stp_mode_for :: "matching_engine \<Rightarrow> order \<Rightarrow> stp_mode" where
  "stp_mode_for me y =
     (case o_stp_instruction y of
        Some m \<Rightarrow> (if truthy (o_stp_id y) then m else me_stp_mode me)
      | None \<Rightarrow> me_stp_mode me)"

text \<open>The accumulation loop of \<open>_executable\<close>, with its two ways out.\<close>

fun executable_loop ::
    "matching_engine \<Rightarrow> heap \<Rightarrow> order \<Rightarrow> int \<Rightarrow> oid list \<Rightarrow> int" where
  "executable_loop me h y available [] = available"
| "executable_loop me h y available (r # rs) =
     (if \<not> prices_cross y (price_of h r) then available
      else if is_self_trade me y (h r) then executable_loop me h y available rs
      else (let available' = available + leaves_qty (h r)
            in if available' \<ge> o_quantity y then available'
               else executable_loop me h y available' rs))"

definition executable :: "matching_engine \<Rightarrow> heap \<Rightarrow> order_book \<Rightarrow> order \<Rightarrow> int" where
  "executable me h b y =
     executable_loop me h y 0 (orders_in_priority (book_opposite b (o_side y)))"

definition precheck :: "matching_engine \<Rightarrow> oid \<Rightarrow> mstate \<Rightarrow> (mstate \<times> event list) option" where
  "precheck me x s =
     (let y = ms_heap s x; cancelled = set_order x (cancel_order_obj (me_now me) y) s
      in if o_time_in_force y = FOK
         then (if executable me (ms_heap s) (ms_book s) y < o_quantity y
               then Some (cancelled, [OrderCancelled x CR_FOK_UNFILLED
                            ''fill-or-kill could not be filled in full''])
               else None)
         else if o_time_in_force y = IOC \<and> o_min_qty y \<noteq> 0
         then (if executable me (ms_heap s) (ms_book s) y < o_min_qty y
               then Some (cancelled, [OrderCancelled x CR_MIN_QTY_UNMET
                            ''less than MinQty was executable''])
               else None)
         else None)"

subsection \<open>One pairing\<close>

definition best_match :: "oid \<Rightarrow> mstate \<Rightarrow> oid option" where
  "best_match x s =
     (let opposite = book_opposite (ms_book s) (o_side (ms_heap s x))
      in case best_price opposite of None \<Rightarrow> None
         | Some p \<Rightarrow>
             (if \<not> prices_cross (ms_heap s x) p then None
              else (case best_level opposite of None \<Rightarrow> None
                    | Some l \<Rightarrow> find (\<lambda>r. leaves_qty (ms_heap s r) > 0) l)))"

text \<open>
  \<open>_execute\<close>: the trade prints at the resting order's price. A resting order without
  a price would make Python multiply by \<open>None\<close>.
\<close>

definition execute_match :: "matching_engine \<Rightarrow> oid \<Rightarrow> oid \<Rightarrow> mstate \<Rightarrow> exn + mstate \<times> event list" where
  "execute_match me x r s =
     (let h = ms_heap s; q = min (leaves_qty (h x)) (leaves_qty (h r))
      in case next_id (ms_trade_ids s) of Inl e \<Rightarrow> Inl e
      | Inr (tid, ids') \<Rightarrow>
       (case o_price (h r) of None \<Rightarrow> Inl TypeError
        | Some p \<Rightarrow>
         (case apply_fill q p (me_now me) (h x) of Inl e \<Rightarrow> Inl e
          | Inr x' \<Rightarrow> (let h1 = h(x := x') in
           (case apply_fill q p (me_now me) (h1 r) of Inl e \<Rightarrow> Inl e
            | Inr r' \<Rightarrow>
             (let h2 = h1(r := r');
                  b2 = (if leaves_qty (h2 r) = 0 then snd (book_remove h2 r (ms_book s))
                        else ms_book s);
                  buy = (if is_buy (h2 x) then x else r);
                  sell = (if is_buy (h2 x) then r else x)
              in Inr (\<lparr>ms_heap = h2, ms_book = b2, ms_trade_ids = ids'\<rparr>,
                   [order_filled h2 r q p tid ADDED x (o_mpid (h2 x)),
                    order_filled h2 x q p tid REMOVED r (o_mpid (h2 r)),
                    TradeExecuted \<lparr>te_symbol = o_symbol (h2 x), te_market = o_market (h2 x),
                      te_price = p, te_quantity = q, te_trade_id = tid,
                      te_buy_order_id = buy, te_sell_order_id = sell,
                      te_aggressor_side = Some (if is_buy (h2 x) then BUY else SELL),
                      te_timestamp = me_now me\<rparr>])))))))"

subsection \<open>Self-trade prevention\<close>

abbreviation stp_text :: string where
  "stp_text \<equiv> ''cancelled to prevent a self-trade''"

text \<open>The third component is True when matching must stop.\<close>

definition apply_decrement ::
    "matching_engine \<Rightarrow> oid \<Rightarrow> oid \<Rightarrow> mstate \<Rightarrow> mstate \<times> event list \<times> bool" where
  "apply_decrement me x r s =
     (let h = ms_heap s; now = me_now me; b = ms_book s;
          incoming_qty = leaves_qty (h x); resting_qty = leaves_qty (h r)
      in if incoming_qty = resting_qty
         then (let h1 = h(r := cancel_order_obj now (h r));
                   h2 = h1(x := cancel_order_obj now (h1 x))
               in (s\<lparr>ms_heap := h2, ms_book := snd (book_remove h r b)\<rparr>,
                   [OrderCancelled r CR_SELF_TRADE_PREVENTION stp_text,
                    OrderCancelled x CR_SELF_TRADE_PREVENTION stp_text], True))
         else if resting_qty < incoming_qty
         then (let h1 = h(r := cancel_order_obj now (h r));
                   h2 = h1(x := reduce_quantity resting_qty now (h1 x))
               in (s\<lparr>ms_heap := h2, ms_book := snd (book_remove h r b)\<rparr>,
                   [OrderCancelled r CR_SELF_TRADE_PREVENTION stp_text,
                    OrderDecremented x resting_qty CR_SELF_TRADE_PREVENTION],
                   leaves_qty (h2 x) = 0))
         else (let h1 = h(r := reduce_quantity incoming_qty now (h r));
                   b1 = (if leaves_qty (h1 r) = 0 then snd (book_remove h1 r b) else b);
                   h2 = h1(x := cancel_order_obj now (h1 x))
               in (s\<lparr>ms_heap := h2, ms_book := b1\<rparr>,
                   [OrderDecremented r incoming_qty CR_SELF_TRADE_PREVENTION,
                    OrderCancelled x CR_SELF_TRADE_PREVENTION stp_text], True)))"

text \<open>
  \<open>_apply_stp\<close>. A mode that is none of the three is logged and treated as
  \<open>CANCEL_NEWEST\<close>; of the modelled modes that is \<open>STP_NONE\<close>, which an order-borne key
  without an instruction reaches on a market whose own mode is \<open>STP_NONE\<close>.
\<close>

definition apply_stp ::
    "matching_engine \<Rightarrow> oid \<Rightarrow> oid \<Rightarrow> mstate \<Rightarrow> mstate \<times> event list \<times> bool" where
  "apply_stp me x r s =
     (let h = ms_heap s; now = me_now me; m = stp_mode_for me (h x);
          newest = (set_order x (cancel_order_obj now (h x)) s,
                    [OrderCancelled x CR_SELF_TRADE_PREVENTION stp_text], True)
      in case m of
           CANCEL_NEWEST \<Rightarrow> newest
         | CANCEL_OLDEST \<Rightarrow>
             (s\<lparr>ms_heap := h(r := cancel_order_obj now (h r)),
                ms_book := snd (book_remove h r (ms_book s))\<rparr>,
              [OrderCancelled r CR_SELF_TRADE_PREVENTION stp_text], False)
         | DECREMENT \<Rightarrow> apply_decrement me x r s
         | STP_NONE \<Rightarrow> newest)"

subsection \<open>The matching loop\<close>

definition match_step ::
    "matching_engine \<Rightarrow> oid \<Rightarrow> oid \<Rightarrow> mstate \<Rightarrow> exn + mstate \<times> event list \<times> bool" where
  "match_step me x r s =
     (if is_self_trade me (ms_heap s x) (ms_heap s r) then Inr (apply_stp me x r s)
      else (case execute_match me x r s of Inl e \<Rightarrow> Inl e
            | Inr (s', evs) \<Rightarrow> Inr (s', evs, False)))"

definition prepend_events :: "event list \<Rightarrow> exn + 's \<times> event list \<Rightarrow> exn + 's \<times> event list" where
  "prepend_events evs res =
     (case res of Inl e \<Rightarrow> Inl e | Inr (s, evs') \<Rightarrow> Inr (s, evs @ evs'))"

text \<open>Each pairing either shrinks the incoming order or kills a resting one.\<close>

definition live_opposite :: "oid \<Rightarrow> mstate \<Rightarrow> oid set" where
  "live_opposite x s =
     {r \<in> set (concat (map snd (bs_levels (book_opposite (ms_book s) (o_side (ms_heap s x)))))).
        leaves_qty (ms_heap s r) > 0}"

definition match_measure :: "oid \<Rightarrow> mstate \<Rightarrow> nat" where
  "match_measure x s = nat (leaves_qty (ms_heap s x)) + card (live_opposite x s)"

lemma set_update_level:
  assumes "map_of ps p = Some l" and "set l' \<subseteq> set l"
  shows "set (concat (map snd (AList.update p l' ps))) \<subseteq> set (concat (map snd ps))"
  using assms by (induction ps) (auto split: if_splits)

lemma levels_remove_subset:
  "set (concat (map snd (bs_levels (snd (side_remove h x s))))) \<subseteq> set (concat (map snd (bs_levels s)))"
proof (cases "o_price (h x)")
  case None
  then show ?thesis by simp
next
  case (Some p)
  note pr = this
  show ?thesis
  proof (cases "map_of (bs_levels s) p")
    case None
    with pr show ?thesis by (simp add: side_remove_def)
  next
    case (Some l)
    have "set (concat (map snd (AList.update p (od_remove x l) (bs_levels s))))
        \<subseteq> set (concat (map snd (bs_levels s)))"
      using Some by (rule set_update_level) auto
    moreover have "set (concat (map snd (AList.delete p (bs_levels s))))
        \<subseteq> set (concat (map snd (bs_levels s)))"
      by (auto simp: AList.delete_eq)
    ultimately show ?thesis using pr Some by (simp add: side_remove_def Let_def)
  qed
qed

lemma book_remove_opposite_levels:
  "set (concat (map snd (bs_levels (book_opposite (snd (book_remove h r b)) sd))))
     \<subseteq> set (concat (map snd (bs_levels (book_opposite b sd))))"
  using levels_remove_subset [of h r "ob_bids b"] levels_remove_subset [of h r "ob_asks b"]
  by (simp add: book_remove_eq book_opposite_def)

lemma best_match_live:
  assumes "best_match x s = Some r"
  shows "r \<in> live_opposite x s"
proof -
  from assms obtain p l where
      "map_of (bs_levels (book_opposite (ms_book s) (o_side (ms_heap s x)))) p = Some l"
      and f: "find (\<lambda>r. leaves_qty (ms_heap s r) > 0) l = Some r"
    by (auto simp: best_match_def best_level_def Let_def split: option.splits if_splits)
  then have "(p, l) \<in> set (bs_levels (book_opposite (ms_book s) (o_side (ms_heap s x))))"
    by (simp add: map_of_in_set)
  with f show ?thesis by (force simp: live_opposite_def find_Some_iff)
qed

text \<open>
  What one pairing does to the state: it touches the two orders only, leaves their
  identity and prices alone, and takes the resting order off the book exactly when
  nothing of it remains.
\<close>

definition same_terms :: "order \<Rightarrow> order \<Rightarrow> bool" where
  "same_terms y z \<longleftrightarrow> o_price y = o_price z \<and> o_side y = o_side z \<and> o_symbol y = o_symbol z \<and>
     o_market y = o_market z \<and> o_session_key y = o_session_key z \<and>
     o_cl_ord_id y = o_cl_ord_id z \<and> o_chain y = o_chain z \<and> o_mpid y = o_mpid z \<and>
     o_stp_id y = o_stp_id z \<and> o_stp_instruction y = o_stp_instruction z \<and>
     o_order_type y = o_order_type z \<and> o_time_in_force y = o_time_in_force z \<and>
     o_sequence y = o_sequence z"

lemma same_terms_refl [simp]: "same_terms y y"
  by (simp add: same_terms_def)

lemma same_terms_trans: "same_terms x y \<Longrightarrow> same_terms y z \<Longrightarrow> same_terms x z"
  by (simp add: same_terms_def)

lemma cancel_order_idem [simp]: "cancel_order_obj now (cancel_order_obj now y) = cancel_order_obj now y"
  by (simp add: cancel_order_obj_def)

lemma same_terms_mutations [simp]:
  "same_terms (cancel_order_obj now y) y"
  "same_terms (reduce_quantity q now y) y"
  by (simp_all add: same_terms_def frame_simps)

lemma same_terms_fill: "apply_fill q p now y = Inr z \<Longrightarrow> same_terms z y"
  by (simp add: same_terms_def apply_fill_frame)

lemma same_terms_is_buy: "same_terms y z \<Longrightarrow> is_buy y = is_buy z"
  by (simp add: same_terms_def is_buy_def)

lemma reduce_quantity_le [simp]: "0 \<le> q \<Longrightarrow> leaves_qty (reduce_quantity q now y) \<le> leaves_qty y"
  by (auto simp: reduce_quantity_def Let_def leaves_qty_def)

definition heap_shrinks :: "oid \<Rightarrow> oid \<Rightarrow> heap \<Rightarrow> heap \<Rightarrow> bool" where
  "heap_shrinks x r h h' \<longleftrightarrow>
     (\<forall>y. same_terms (h' y) (h y) \<and> leaves_qty (h' y) \<le> leaves_qty (h y)) \<and>
     (\<forall>y. y \<noteq> x \<longrightarrow> y \<noteq> r \<longrightarrow> h' y = h y)"

lemma execute_match_Inr:
  assumes "execute_match me x r s = Inr (s', evs)"
  obtains q tid ids' p x' r' where
    "q = min (leaves_qty (ms_heap s x)) (leaves_qty (ms_heap s r))"
    "next_id (ms_trade_ids s) = Inr (tid, ids')"
    "o_price (ms_heap s r) = Some p"
    "apply_fill q p (me_now me) (ms_heap s x) = Inr x'"
    "apply_fill q p (me_now me) (((ms_heap s)(x := x')) r) = Inr r'"
    "ms_heap s' = (ms_heap s)(x := x', r := r')"
    "ms_book s' = (if leaves_qty r' = 0
       then snd (book_remove (ms_heap s') r (ms_book s)) else ms_book s)"
    "ms_trade_ids s' = ids'"
    "evs = [order_filled (ms_heap s') r q p tid ADDED x (o_mpid (ms_heap s' x)),
            order_filled (ms_heap s') x q p tid REMOVED r (o_mpid (ms_heap s' r)),
            TradeExecuted \<lparr>te_symbol = o_symbol (ms_heap s' x), te_market = o_market (ms_heap s' x),
              te_price = p, te_quantity = q, te_trade_id = tid,
              te_buy_order_id = (if is_buy (ms_heap s' x) then x else r),
              te_sell_order_id = (if is_buy (ms_heap s' x) then r else x),
              te_aggressor_side = Some (if is_buy (ms_heap s' x) then BUY else SELL),
              te_timestamp = me_now me\<rparr>]"
  using assms
  by (auto simp: execute_match_def Let_def split: sum.splits option.splits prod.splits if_splits)

lemma execute_shrinks:
  assumes "execute_match me x r s = Inr (s', evs)"
  shows "heap_shrinks x r (ms_heap s) (ms_heap s')"
    and "leaves_qty (ms_heap s' x) < leaves_qty (ms_heap s x)"
proof -
  from assms obtain q p x' r' where
      fx: "apply_fill q p (me_now me) (ms_heap s x) = Inr x'" and
      fr: "apply_fill q p (me_now me) (((ms_heap s)(x := x')) r) = Inr r'" and
      h': "ms_heap s' = (ms_heap s)(x := x', r := r')"
    by (rule execute_match_Inr)
  note ex = apply_fill_Inr [OF fx] and er = apply_fill_Inr [OF fr]
  note tx = same_terms_fill [OF fx] and tr = same_terms_fill [OF fr]
  show "leaves_qty (ms_heap s' x) < leaves_qty (ms_heap s x)"
    using ex er by (auto simp: h')
  show "heap_shrinks x r (ms_heap s) (ms_heap s')"
  proof (cases "x = r")
    case True
    with ex er tx tr show ?thesis
      by (auto simp: heap_shrinks_def h' intro: same_terms_trans)
  next
    case False
    with ex er tx tr show ?thesis by (auto simp: heap_shrinks_def h')
  qed
qed

lemma stp_shrinks:
  assumes "apply_stp me x r s = (s', evs, stop)"
  shows "heap_shrinks x r (ms_heap s) (ms_heap s')"
    and "\<not> stop \<Longrightarrow> leaves_qty (ms_heap s' r) = 0 \<or> x = r \<and> leaves_qty (ms_heap s' x) = 0"
  using assms
  by (auto simp: apply_stp_def apply_decrement_def Let_def heap_shrinks_def
      split: stp_mode.splits if_splits)

lemma match_step_shrinks:
  assumes "match_step me x r s = Inr (s', evs, stop)"
  shows "heap_shrinks x r (ms_heap s) (ms_heap s')"
    and "\<not> stop \<Longrightarrow> leaves_qty (ms_heap s' x) < leaves_qty (ms_heap s x) \<or> leaves_qty (ms_heap s' r) = 0"
  using assms stp_shrinks [of me x r s] execute_shrinks [of me x r s]
  by (fastforce simp: match_step_def split: if_splits sum.splits)+

lemma match_step_book:
  assumes "match_step me x r s = Inr (s', evs, stop)"
  shows "ms_book s' = ms_book s \<or> (\<exists>h. ms_book s' = snd (book_remove h r (ms_book s)))"
  using assms
  by (auto simp: match_step_def apply_stp_def apply_decrement_def Let_def
      elim!: execute_match_Inr split: if_splits sum.splits stp_mode.splits)

lemma match_step_decreases:
  assumes step: "match_step me x r s = Inr (s', evs, False)"
    and best: "best_match x s = Some r"
  shows "match_measure x s' < match_measure x s"
proof -
  let ?h = "ms_heap s" and ?h' = "ms_heap s'"
  have sh: "heap_shrinks x r ?h ?h'" by (rule match_step_shrinks(1) [OF step])
  then have side: "o_side (?h' x) = o_side (?h x)" by (simp add: heap_shrinks_def same_terms_def)
  have sub: "set (concat (map snd (bs_levels (book_opposite (ms_book s') sd))))
      \<subseteq> set (concat (map snd (bs_levels (book_opposite (ms_book s) sd))))" for sd
    using match_step_book [OF step]
  proof
    assume "ms_book s' = ms_book s"
    then show ?thesis by simp
  next
    assume "\<exists>h. ms_book s' = snd (book_remove h r (ms_book s))"
    then obtain h where "ms_book s' = snd (book_remove h r (ms_book s))" ..
    then show ?thesis by (simp only: book_remove_opposite_levels)
  qed
  have le: "leaves_qty (?h' y) \<le> leaves_qty (?h y)" for y using sh by (simp add: heap_shrinks_def)
  have live: "live_opposite x s' \<subseteq> live_opposite x s"
    using sub [of "o_side (?h x)"] le unfolding live_opposite_def side
    by (auto intro: less_le_trans)
  have fin: "finite (live_opposite x s)" by (simp add: live_opposite_def)
  have card: "card (live_opposite x s') \<le> card (live_opposite x s)"
    using card_mono [OF fin live] .
  from match_step_shrinks(2) [OF step]
  consider "leaves_qty (?h' x) < leaves_qty (?h x)" | "leaves_qty (?h' r) = 0" by auto
  then show ?thesis
  proof cases
    case 1
    with card show ?thesis
      by (simp add: match_measure_def) (metis add_less_le_mono leaves_qty_nonneg nat_mono_iff order_le_less_trans)
  next
    case 2
    then have "r \<notin> live_opposite x s'" by (simp add: live_opposite_def)
    with live best_match_live [OF best] have "live_opposite x s' \<subset> live_opposite x s" by auto
    then have "card (live_opposite x s') < card (live_opposite x s)"
      by (rule psubset_card_mono [OF fin])
    with le [of x] show ?thesis by (simp add: match_measure_def nat_mono add_le_less_mono)
  qed
qed

function match_loop :: "matching_engine \<Rightarrow> oid \<Rightarrow> mstate \<Rightarrow> exn + mstate \<times> event list" where
  "match_loop me x s =
     (if leaves_qty (ms_heap s x) > 0
      then (case best_match x s of None \<Rightarrow> Inr (s, [])
            | Some r \<Rightarrow>
                (case match_step me x r s of
                   Inl e \<Rightarrow> Inl e
                 | Inr (s', evs, stop) \<Rightarrow>
                     (if stop then Inr (s', evs)
                      else prepend_events evs (match_loop me x s'))))
      else Inr (s, []))"
  by pat_completeness auto
termination
  by (relation "measure (\<lambda>(me, x, s). match_measure x s)") (auto intro: match_step_decreases)

declare match_loop.simps [simp del]

subsection \<open>Entering an order\<close>

text \<open>\<open>_acknowledge\<close>: with \<open>ack_on_entry\<close> every accepted order is reported before it trades.\<close>

definition acknowledge :: "matching_engine \<Rightarrow> oid \<Rightarrow> mstate \<Rightarrow> mstate \<times> event list \<times> bool" where
  "acknowledge me x s =
     (if \<not> me_ack_on_entry me then (s, [], False)
      else (let s' = set_order x ((ms_heap s x)\<lparr>o_status := NEW\<rparr>) s
            in (s', [order_accepted (ms_heap s') x], True)))"

definition rest_order :: "oid \<Rightarrow> bool \<Rightarrow> mstate \<Rightarrow> mstate \<times> event list" where
  "rest_order x acknowledged s =
     (let already_traded = o_cum_qty (ms_heap s x) > 0;
          s1 = set_order x ((ms_heap s x)\<lparr>o_status :=
                 (if already_traded then PARTIALLY_FILLED else NEW)\<rparr>) s;
          s2 = s1\<lparr>ms_book := book_add (ms_heap s1) x (ms_book s1)\<rparr>
      in (s2, if \<not> already_traded \<and> \<not> acknowledged then [order_accepted (ms_heap s2) x] else []))"

text \<open>What happens to whatever the loop left of the order.\<close>

definition settle_remainder ::
    "matching_engine \<Rightarrow> oid \<Rightarrow> bool \<Rightarrow> mstate \<Rightarrow> mstate \<times> event list" where
  "settle_remainder me x acknowledged s =
     (let y = ms_heap s x; cancelled = set_order x (cancel_order_obj (me_now me) y) s
      in if leaves_qty y > 0
         then (if o_order_type y = Some MARKET
               then (cancelled, [OrderCancelled x CR_MARKET_REMAINDER
                                   ''market order remainder expired''])
               else if is_immediate y
               then (cancelled, [OrderCancelled x CR_IOC_REMAINDER
                                   ''unfilled remainder cancelled''])
               else rest_order x acknowledged s)
         else if o_status y \<notin> terminal_statuses
         then (set_order x (y\<lparr>o_status := FILLED\<rparr>) s, [])
         else (s, []))"

definition submit_order ::
    "matching_engine \<Rightarrow> bool \<Rightarrow> oid \<Rightarrow> mstate \<Rightarrow> exn + mstate \<times> event list" where
  "submit_order me allow_matching x s =
     (if POST_ONLY \<in> o_exec_inst (ms_heap s x) \<and> would_cross (ms_book s) (ms_heap s x)
      then Inr (set_order x ((ms_heap s x)\<lparr>o_status := REJECTED\<rparr>) s,
                [OrderRejected x RR_POST_ONLY_WOULD_CROSS
                   ''post-only order would remove liquidity''])
      else (case acknowledge me x s of (s1, acks, acknowledged) \<Rightarrow>
        (if \<not> allow_matching
         then (case rest_order x acknowledged s1 of (s2, evs) \<Rightarrow> Inr (s2, acks @ evs))
         else (case precheck me x s1 of
                 Some (s2, evs) \<Rightarrow> Inr (s2, acks @ evs)
               | None \<Rightarrow>
                   (case match_loop me x s1 of
                      Inl e \<Rightarrow> Inl e
                    | Inr (s2, evs) \<Rightarrow>
                        (case settle_remainder me x acknowledged s2 of (s3, evs') \<Rightarrow>
                           Inr (s3, acks @ evs @ evs')))))))"

subsection \<open>Cancel and amend\<close>

definition cancel_resting ::
    "matching_engine \<Rightarrow> oid \<Rightarrow> cancel_reason \<Rightarrow> string \<Rightarrow> mstate \<Rightarrow> mstate \<times> event list" where
  "cancel_resting me x reason txt s =
     (let b = snd (book_remove (ms_heap s) x (ms_book s))
      in (s\<lparr>ms_book := b, ms_heap := (ms_heap s)(x := cancel_order_obj (me_now me) (ms_heap s x))\<rparr>,
          [OrderCancelled x reason txt]))"

definition side_add_all :: "heap \<Rightarrow> oid list \<Rightarrow> book_side \<Rightarrow> book_side" where
  "side_add_all h xs sd = foldl (\<lambda>sd x. side_add h x sd) sd xs"

definition side_remove_all :: "heap \<Rightarrow> oid list \<Rightarrow> book_side \<Rightarrow> book_side" where
  "side_remove_all h xs sd = foldl (\<lambda>sd x. snd (side_remove h x sd)) sd xs"

text \<open>
  \<open>_reinsert_keeping_priority\<close>: take the level apart and put it back in arrival order.
  \<open>sorted\<close> with a key is stable, as \<open>sort_key\<close> is.
\<close>

definition reinsert_keeping_priority :: "heap \<Rightarrow> oid \<Rightarrow> book_side \<Rightarrow> book_side" where
  "reinsert_keeping_priority h x sd =
     (let level_orders = filter (\<lambda>y. o_price (h y) = o_price (h x)) (side_orders sd);
          restored = sort_key (\<lambda>y. o_sequence (h y)) (level_orders @ [x])
      in side_add_all h restored (side_remove_all h level_orders sd))"

definition set_side_of :: "order \<Rightarrow> book_side \<Rightarrow> order_book \<Rightarrow> order_book" where
  "set_side_of y sd b = (if is_buy y then b\<lparr>ob_bids := sd\<rparr> else b\<lparr>ob_asks := sd\<rparr>)"

text \<open>\<open>amend\<close>: the boolean says whether time priority was kept.\<close>

definition amend_resting ::
    "matching_engine \<Rightarrow> oid \<Rightarrow> int option \<Rightarrow> int option \<Rightarrow> mstate \<Rightarrow> mstate \<times> bool" where
  "amend_resting me x new_quantity new_price s =
     (let y = ms_heap s x;
          p = or_else new_price (o_price y);
          q = (case new_quantity of None \<Rightarrow> o_quantity y | Some n \<Rightarrow> n);
          loses_priority = (p \<noteq> o_price y \<or> q > o_quantity y)
      in case book_remove (ms_heap s) x (ms_book s) of (was_resting, b1) \<Rightarrow>
        (let y' = y\<lparr>o_price := p, o_quantity := q, o_updated_at := me_now me\<rparr>;
             h' = (ms_heap s)(x := y');
             b2 = (if leaves_qty y' > 0
                   then (if was_resting \<and> \<not> loses_priority
                         then set_side_of y' (reinsert_keeping_priority h' x
                                (book_side_of b1 (o_side y'))) b1
                         else if was_resting \<or> o_status y' \<in> live_statuses
                         then book_add h' x b1
                         else b1)
                   else b1)
         in (s\<lparr>ms_heap := h', ms_book := b2\<rparr>, \<not> loses_priority)))"

end
