(* ===== verification/Matching_Facts.thy ===== *)
theory Matching_Facts
  imports Matching
begin

section \<open>Correctness of continuous matching\<close>

text \<open>
  The invariant of the loop, what one pairing does to the two queues, and from these:
  the loop leaves nothing that still crosses, every execution is at the resting order's
  price and inside the incoming order's limit, reported fills account for every change
  of an executed quantity, and entry returns unless the trade identifiers run out.
\<close>

lemma in_set_tl: "y \<in> set (tl xs) \<Longrightarrow> y \<in> set xs"
  by (cases xs) simp_all

subsection \<open>The invariant\<close>

definition book_live :: "heap \<Rightarrow> order_book \<Rightarrow> bool" where
  "book_live h b \<longleftrightarrow> (\<forall>r \<in> set (book_orders b). 0 < leaves_qty (h r))"

definition book_inv :: "mstate \<Rightarrow> bool" where
  "book_inv s \<longleftrightarrow> book_ok (ms_heap s) (ms_book s) \<and> book_live (ms_heap s) (ms_book s)"

definition match_inv :: "oid \<Rightarrow> mstate \<Rightarrow> bool" where
  "match_inv x s \<longleftrightarrow> book_inv s \<and> x \<notin> set (book_orders (ms_book s))"

abbreviation opposite_of :: "oid \<Rightarrow> mstate \<Rightarrow> book_side" where
  "opposite_of x s \<equiv> book_opposite (ms_book s) (o_side (ms_heap s x))"

abbreviation own_side_of :: "oid \<Rightarrow> mstate \<Rightarrow> book_side" where
  "own_side_of x s \<equiv> book_side_of (ms_book s) (o_side (ms_heap s x))"

lemma match_invD:
  assumes "match_inv x s"
  shows "book_ok (ms_heap s) (ms_book s)" "book_live (ms_heap s) (ms_book s)"
    "x \<notin> set (book_orders (ms_book s))" "side_ok (ms_heap s) (opposite_of x s)"
    "side_ok (ms_heap s) (own_side_of x s)"
  using assms by (auto simp: match_inv_def book_inv_def intro: book_ok_opposite book_ok_side_of)

lemma opposite_subset: "set (side_orders (book_opposite b sd)) \<subseteq> set (book_orders b)"
  by (auto simp: book_opposite_def book_orders_def)

lemma opposite_queue_live:
  assumes "match_inv x s" and "r \<in> set (orders_in_priority (opposite_of x s))"
  shows "r \<in> set (book_orders (ms_book s))" "0 < leaves_qty (ms_heap s r)" "r \<noteq> x"
    "is_buy (ms_heap s r) = (\<not> is_buy (ms_heap s x))"
proof -
  note inv = match_invD [OF assms(1)]
  from assms(2) orders_in_priority_subset [OF inv(4)]
  have side: "r \<in> set (side_orders (opposite_of x s))" by blast
  then show "r \<in> set (book_orders (ms_book s))" using opposite_subset by blast
  then show "0 < leaves_qty (ms_heap s r)" and "r \<noteq> x"
    using inv(2,3) by (auto simp: book_live_def)
  from side_ok_is_buy [OF inv(4) side] bs_is_buy_opposite [OF inv(1)]
  show "is_buy (ms_heap s r) = (\<not> is_buy (ms_heap s x))" by (simp add: is_buy_def)
qed

text \<open>Under the invariant the best match is the head of the opposite queue, if it crosses.\<close>

lemma best_match_head:
  assumes inv: "match_inv x s"
  shows "best_match x s = (case orders_in_priority (opposite_of x s) of [] \<Rightarrow> None
    | r # _ \<Rightarrow> (if prices_cross (ms_heap s x) (price_of (ms_heap s) r) then Some r else None))"
proof -
  note ok = match_invD(4) [OF inv]
  show ?thesis
  proof (cases "best_price (opposite_of x s)")
    case None
    then show ?thesis using best_price_None [OF ok] by (simp add: best_match_def)
  next
    case (Some p)
    from queue_head_level [OF ok Some] obtain r rs ys where
        l: "level_at (opposite_of x s) p = r # rs" and
        q: "orders_in_priority (opposite_of x s) = (r # rs) @ ys" and
        pr: "o_price (ms_heap s r) = Some p" .
    have "0 < leaves_qty (ms_heap s r)" using opposite_queue_live(2) [OF inv, of r] q by simp
    then show ?thesis
      using Some l q pr best_level_queue [OF ok]
      by (simp add: best_match_def price_of_def)
  qed
qed

lemma best_match_SomeD:
  assumes "match_inv x s" and "best_match x s = Some r"
  shows "\<exists>rs. orders_in_priority (opposite_of x s) = r # rs"
    and "prices_cross (ms_heap s x) (price_of (ms_heap s) r)"
    and "r \<in> set (book_orders (ms_book s))" and "r \<noteq> x" and "0 < leaves_qty (ms_heap s r)"
    and "is_buy (ms_heap s r) = (\<not> is_buy (ms_heap s x))"
    and "o_price (ms_heap s r) = Some (price_of (ms_heap s) r)"
proof -
  show q: "\<exists>rs. orders_in_priority (opposite_of x s) = r # rs"
    and "prices_cross (ms_heap s x) (price_of (ms_heap s) r)"
    using assms(2) unfolding best_match_head [OF assms(1)]
    by (auto split: list.splits if_splits)
  from q have r: "r \<in> set (orders_in_priority (opposite_of x s))" by auto
  show "r \<in> set (book_orders (ms_book s))" "r \<noteq> x" "0 < leaves_qty (ms_heap s r)"
    "is_buy (ms_heap s r) = (\<not> is_buy (ms_heap s x))"
    using opposite_queue_live [OF assms(1) r] by simp_all
  show "o_price (ms_heap s r) = Some (price_of (ms_heap s) r)"
    by (rule queue_priced [OF match_invD(4) [OF assms(1)] r])
qed

subsection \<open>One pairing\<close>

text \<open>
  \<open>paired x r s s'\<close>: the two orders of the pairing only shrink, everybody else is
  untouched, and the resting order has left the book exactly when nothing of it is open.
\<close>

definition paired :: "oid \<Rightarrow> oid \<Rightarrow> mstate \<Rightarrow> mstate \<Rightarrow> bool" where
  "paired x r s s' \<longleftrightarrow> heap_shrinks x r (ms_heap s) (ms_heap s') \<and>
     (if leaves_qty (ms_heap s' r) = 0
      then ms_book s' = snd (book_remove (ms_heap s) r (ms_book s))
      else ms_book s' = ms_book s)"

lemma book_remove_cong:
  assumes "same_terms (h' r) (h r)"
  shows "book_remove h' r b = book_remove h r b"
proof -
  have "side_remove h' r sd = side_remove h r sd" for sd
    using assms by (simp add: side_remove_def same_terms_def)
  then show ?thesis using same_terms_is_buy [OF assms] by (simp add: book_remove_eq)
qed

lemma execute_paired:
  assumes "execute_match me x r s = Inr (s', evs)" and "x \<noteq> r"
  shows "paired x r s s'"
proof -
  note sh = execute_shrinks(1) [OF assms(1)]
  from assms(1) obtain r' x' where h: "ms_heap s' = (ms_heap s)(x := x', r := r')" and
      b: "ms_book s' = (if leaves_qty r' = 0
       then snd (book_remove (ms_heap s') r (ms_book s)) else ms_book s)"
    by (rule execute_match_Inr)
  have "same_terms (ms_heap s' r) (ms_heap s r)" using sh by (simp add: heap_shrinks_def)
  from book_remove_cong [where h' = "ms_heap s'" and h = "ms_heap s", OF this] b h sh
  show ?thesis by (simp add: paired_def)
qed

lemma stp_paired:
  assumes stp: "apply_stp me x r s = (s', evs, stop)" and ne: "x \<noteq> r"
    and live: "0 < leaves_qty (ms_heap s x)" "0 < leaves_qty (ms_heap s r)"
  shows "paired x r s s'"
proof -
  have "if leaves_qty (ms_heap s' r) = 0
      then ms_book s' = snd (book_remove (ms_heap s) r (ms_book s)) else ms_book s' = ms_book s"
    using stp ne live
    by (auto simp: apply_stp_def apply_decrement_def Let_def reduce_quantity_leaves
        split: stp_mode.splits if_splits)
  with stp_shrinks(1) [OF stp] show ?thesis by (simp add: paired_def)
qed

lemma match_step_paired:
  assumes "match_step me x r s = Inr (s', evs, stop)" and "x \<noteq> r"
    and "0 < leaves_qty (ms_heap s x)" "0 < leaves_qty (ms_heap s r)"
  shows "paired x r s s'"
  using assms stp_paired [of me x r s] execute_paired [of me x r s]
  by (auto simp: match_step_def split: if_splits sum.splits)

lemma match_step_stop:
  assumes "match_step me x r s = Inr (s', evs, True)" and "x \<noteq> r"
  shows "leaves_qty (ms_heap s' x) = 0"
  using assms
  by (auto simp: match_step_def apply_stp_def apply_decrement_def Let_def
      split: if_splits sum.splits stp_mode.splits)

lemma paired_same_terms: "paired x r s s' \<Longrightarrow> same_terms (ms_heap s' y) (ms_heap s y)"
  by (simp add: paired_def heap_shrinks_def)

lemma paired_other: "paired x r s s' \<Longrightarrow> y \<noteq> x \<Longrightarrow> y \<noteq> r \<Longrightarrow> ms_heap s' y = ms_heap s y"
  by (simp add: paired_def heap_shrinks_def)

lemma same_terms_price: "same_terms y z \<Longrightarrow> o_price y = o_price z \<and> o_side y = o_side z"
  by (simp add: same_terms_def)

lemma prices_cross_cong:
  assumes "same_terms y z"
  shows "prices_cross y p = prices_cross z p"
  using same_terms_is_buy [OF assms] same_terms_price [OF assms]
  by (simp add: prices_cross_def split: option.splits)

lemma is_self_trade_cong:
  "same_terms y y' \<Longrightarrow> same_terms z z' \<Longrightarrow> is_self_trade me y z = is_self_trade me y' z'"
  by (simp add: is_self_trade_def same_terms_def)

lemma paired_price_of: "paired x r s s' \<Longrightarrow> price_of (ms_heap s') y = price_of (ms_heap s) y"
  using paired_same_terms [of x r s s' y] by (simp add: price_of_def same_terms_def)

lemma paired_book_ok:
  assumes "paired x r s s'" and "book_ok (ms_heap s) (ms_book s)"
  shows "book_ok (ms_heap s') (ms_book s')"
proof -
  have "book_ok (ms_heap s) (ms_book s')"
    using assms by (auto simp: paired_def intro: book_ok_remove split: if_splits)
  then show ?thesis
    by (rule book_ok_cong [rotated])
      (use paired_same_terms [OF assms(1)] in \<open>auto simp: same_terms_def is_buy_def\<close>)
qed

lemma paired_inv:
  assumes inv: "match_inv x s" and r: "r \<in> set (book_orders (ms_book s))" and p: "paired x r s s'"
  shows "match_inv x s'"
proof -
  note d = match_invD [OF inv]
  have ok: "book_ok (ms_heap s') (ms_book s')" by (rule paired_book_ok [OF p d(1)])
  have orders: "set (book_orders (ms_book s')) =
      (if leaves_qty (ms_heap s' r) = 0 then set (book_orders (ms_book s)) - {r}
       else set (book_orders (ms_book s)))"
    using p book_orders_remove [OF d(1), of r] by (simp add: paired_def)
  have "0 < leaves_qty (ms_heap s' y)" if "y \<in> set (book_orders (ms_book s'))" for y
  proof (cases "y = r")
    case True
    with that orders leaves_qty_nonneg [of "ms_heap s' r"] show ?thesis
      by (auto simp: less_le split: if_splits)
  next
    case False
    with that orders have "y \<in> set (book_orders (ms_book s))" by (auto split: if_splits)
    with d(2,3) have "y \<noteq> x" "0 < leaves_qty (ms_heap s y)" by (auto simp: book_live_def)
    with False paired_other [OF p] show ?thesis by simp
  qed
  with ok orders d(3) show ?thesis
    by (auto simp: match_inv_def book_inv_def book_live_def split: if_splits)
qed

text \<open>The two queues after a pairing.\<close>

lemma paired_queues:
  assumes inv: "match_inv x s" and best: "best_match x s = Some r" and p: "paired x r s s'"
  shows "own_side_of x s' = own_side_of x s"
    and "orders_in_priority (opposite_of x s') =
      (if leaves_qty (ms_heap s' r) = 0 then tl (orders_in_priority (opposite_of x s))
       else orders_in_priority (opposite_of x s))"
proof -
  note b = best_match_SomeD [OF inv best]
  have side: "o_side (ms_heap s' x) = o_side (ms_heap s x)"
    using paired_same_terms [OF p, of x] by (simp add: same_terms_def)
  have opp: "side_is_buy (o_side (ms_heap s r)) = (\<not> side_is_buy (o_side (ms_heap s x)))"
    using b(6) by (simp add: is_buy_def)
  have rem: "book_side_of (snd (book_remove (ms_heap s) r (ms_book s))) (o_side (ms_heap s x))
        = own_side_of x s"
    "book_opposite (snd (book_remove (ms_heap s) r (ms_book s))) (o_side (ms_heap s x))
        = snd (side_remove (ms_heap s) r (opposite_of x s))"
    using opp by (auto simp: book_remove_eq book_side_of_def book_opposite_def is_buy_def)
  show "own_side_of x s' = own_side_of x s"
    using p rem(1) side by (auto simp: paired_def split: if_splits)
  from b(1) obtain rs where q: "orders_in_priority (opposite_of x s) = r # rs" by blast
  have "r \<notin> set rs" using distinct_queue [OF match_invD(4) [OF inv]] q by simp
  then have "orders_in_priority (snd (side_remove (ms_heap s) r (opposite_of x s))) = rs"
    using queue_remove [OF match_invD(4) [OF inv], of r] q by simp
  then show "orders_in_priority (opposite_of x s') =
      (if leaves_qty (ms_heap s' r) = 0 then tl (orders_in_priority (opposite_of x s))
       else orders_in_priority (opposite_of x s))"
    using p rem(2) side q by (simp add: paired_def)
qed

subsection \<open>Induction over the loop\<close>

text \<open>
  Every fact about the loop is an induction on its recursion: \<open>match_loop_induct\<close> gives
  the three ways it can go on, with the invariant and the pairing already established.
\<close>

lemma match_loop_unfold_stop:
  "leaves_qty (ms_heap s x) \<le> 0 \<or> best_match x s = None \<Longrightarrow> match_loop me x s = Inr (s, [])"
  by (subst match_loop.simps) auto

lemma match_loop_unfold_step:
  "0 < leaves_qty (ms_heap s x) \<Longrightarrow> best_match x s = Some r \<Longrightarrow>
   match_loop me x s =
     (case match_step me x r s of Inl e \<Rightarrow> Inl e
      | Inr (s', evs, stop) \<Rightarrow>
          if stop then Inr (s', evs) else prepend_events evs (match_loop me x s'))"
  by (subst match_loop.simps) simp

lemma prepend_events_Inr:
  "prepend_events evs res = Inr (s, evs') \<longleftrightarrow> (\<exists>evs''. res = Inr (s, evs'') \<and> evs' = evs @ evs'')"
  by (auto simp: prepend_events_def split: sum.splits)

lemma match_loop_induct [consumes 2, case_names fin stop step]:
  assumes run: "match_loop me x s = Inr (s', evs)" and inv: "match_inv x s"
    and fin: "\<And>s. match_inv x s \<Longrightarrow> leaves_qty (ms_heap s x) = 0 \<or> best_match x s = None \<Longrightarrow> P s s []"
    and stop: "\<And>s r s' evs. match_inv x s \<Longrightarrow> 0 < leaves_qty (ms_heap s x) \<Longrightarrow>
      best_match x s = Some r \<Longrightarrow> match_step me x r s = Inr (s', evs, True) \<Longrightarrow>
      paired x r s s' \<Longrightarrow> match_inv x s' \<Longrightarrow> P s s' evs"
    and step: "\<And>s r s1 evs1 s' evs. match_inv x s \<Longrightarrow> 0 < leaves_qty (ms_heap s x) \<Longrightarrow>
      best_match x s = Some r \<Longrightarrow> match_step me x r s = Inr (s1, evs1, False) \<Longrightarrow>
      paired x r s s1 \<Longrightarrow> match_inv x s1 \<Longrightarrow> match_loop me x s1 = Inr (s', evs) \<Longrightarrow>
      P s1 s' evs \<Longrightarrow> P s s' (evs1 @ evs)"
  shows "P s s' evs"
  using run inv
proof (induction "match_measure x s" arbitrary: s evs rule: less_induct)
  case less
  show ?case
  proof (cases "leaves_qty (ms_heap s x) \<le> 0 \<or> best_match x s = None")
    case True
    with less.prems(1) match_loop_unfold_stop [OF True, of me] have "s' = s" "evs = []" by auto
    moreover have "leaves_qty (ms_heap s x) = 0 \<or> best_match x s = None"
      using True leaves_qty_nonneg [of "ms_heap s x"] by linarith
    ultimately show ?thesis using fin less.prems(2) by simp
  next
    case False
    then obtain r where lv: "0 < leaves_qty (ms_heap s x)" and best: "best_match x s = Some r"
      by auto
    note b = best_match_SomeD [OF less.prems(2) best]
    from less.prems(1) match_loop_unfold_step [OF lv best, of me]
    obtain s1 evs1 st where ms: "match_step me x r s = Inr (s1, evs1, st)"
      by (cases "match_step me x r s") auto
    have p: "paired x r s s1" using match_step_paired [OF ms] b(4,5) lv by simp
    have inv1: "match_inv x s1" by (rule paired_inv [OF less.prems(2) b(3) p])
    show ?thesis
    proof (cases st)
      case True
      with less.prems(1) ms match_loop_unfold_step [OF lv best, of me]
      have "s' = s1" "evs = evs1" by auto
      with stop [OF less.prems(2) lv best _ p inv1] ms True show ?thesis by simp
    next
      case False
      with less.prems(1) ms match_loop_unfold_step [OF lv best, of me]
      obtain evs2 where rest: "match_loop me x s1 = Inr (s', evs2)" and e: "evs = evs1 @ evs2"
        by (auto simp: prepend_events_Inr)
      have ms': "match_step me x r s = Inr (s1, evs1, False)" using ms False by simp
      have "P s1 s' evs2"
        by (rule less.hyps [OF match_step_decreases [OF ms' best] rest inv1])
      with step [OF less.prems(2) lv best ms' p inv1 rest] e show ?thesis by simp
    qed
  qed
qed

subsection \<open>What the loop keeps\<close>

lemma match_loop_inv:
  assumes "match_loop me x s = Inr (s', evs)" and "match_inv x s"
  shows "match_inv x s'"
  using assms by (induction rule: match_loop_induct) auto

lemma match_loop_terms:
  assumes "match_loop me x s = Inr (s', evs)" and "match_inv x s"
  shows "same_terms (ms_heap s' y) (ms_heap s y)"
  using assms
  by (induction rule: match_loop_induct) (auto intro: same_terms_trans paired_same_terms)

lemma match_loop_price_of:
  assumes "match_loop me x s = Inr (s', evs)" and "match_inv x s"
  shows "price_of (ms_heap s') y = price_of (ms_heap s) y"
  using match_loop_terms [OF assms, of y] by (simp add: price_of_def same_terms_def)

lemma match_loop_own_side:
  assumes "match_loop me x s = Inr (s', evs)" and "match_inv x s"
  shows "own_side_of x s' = own_side_of x s"
  using assms by (induction rule: match_loop_induct) (simp_all add: paired_queues(1))

text \<open>The opposite queue is only ever consumed from the front.\<close>

lemma match_loop_queue:
  assumes "match_loop me x s = Inr (s', evs)" and "match_inv x s"
  shows "\<exists>n. orders_in_priority (opposite_of x s') = drop n (orders_in_priority (opposite_of x s))"
  using assms
proof (induction rule: match_loop_induct)
  case (fin s)
  have "orders_in_priority (opposite_of x s) = drop 0 (orders_in_priority (opposite_of x s))" by simp
  then show ?case by blast
next
  case (stop s r s' evs)
  have "orders_in_priority (opposite_of x s') = drop (if leaves_qty (ms_heap s' r) = 0 then 1 else 0)
      (orders_in_priority (opposite_of x s))"
    by (simp add: paired_queues(2) [OF stop(1,3,5)] drop_Suc)
  then show ?case by blast
next
  case (step s r s1 evs1 s' evs)
  from step(8) obtain n where
      n: "orders_in_priority (opposite_of x s') = drop n (orders_in_priority (opposite_of x s1))" by blast
  have "orders_in_priority (opposite_of x s1) = drop (if leaves_qty (ms_heap s1 r) = 0 then 1 else 0)
      (orders_in_priority (opposite_of x s))"
    by (simp add: paired_queues(2) [OF step(1,3,5)] drop_Suc)
  with n have "orders_in_priority (opposite_of x s')
      = drop (n + (if leaves_qty (ms_heap s1 r) = 0 then 1 else 0)) (orders_in_priority (opposite_of x s))"
    by simp
  then show ?case by blast
qed

lemma match_loop_queue_subset:
  assumes "match_loop me x s = Inr (s', evs)" and "match_inv x s"
  shows "set (orders_in_priority (opposite_of x s')) \<subseteq> set (orders_in_priority (opposite_of x s))"
  using match_loop_queue [OF assms] set_drop_subset by metis

text \<open>When the loop ends, the order is finished or nothing it can reach is left.\<close>

lemma match_loop_exhausted:
  assumes "match_loop me x s = Inr (s', evs)" and "match_inv x s"
  shows "leaves_qty (ms_heap s' x) = 0 \<or> best_match x s' = None"
  using assms by (induction rule: match_loop_induct) (auto dest: match_step_stop best_match_SomeD)

lemma match_loop_frame:
  assumes "match_loop me x s = Inr (s', evs)" and "match_inv x s"
    and "y \<noteq> x" and "y \<notin> set (orders_in_priority (opposite_of x s))"
  shows "ms_heap s' y = ms_heap s y"
  using assms
proof (induction rule: match_loop_induct)
  case (fin s)
  show ?case by simp
next
  case (stop s r s' evs)
  with best_match_SomeD(1) [OF stop(1,3)] show ?case by (auto intro: paired_other)
next
  case (step s r s1 evs1 s' evs)
  from best_match_SomeD(1) [OF step(1,3)] step(10) have "y \<noteq> r" by auto
  moreover have "y \<notin> set (orders_in_priority (opposite_of x s1))"
    using paired_queues(2) [OF step(1,3,5)] step(10)
    by (auto split: if_splits dest: in_set_tl)
  ultimately show ?case using step paired_other [OF step(5)] by simp
qed

subsection \<open>Executions\<close>

lemma stp_no_fills:
  assumes "apply_stp me x r s = (s', evs, stop)"
  shows "trades_of evs = []" and "fills_of evs = []"
    and "o_cum_qty (ms_heap s' y) = o_cum_qty (ms_heap s y)"
    and "o_notional_units (ms_heap s' y) = o_notional_units (ms_heap s y)"
    and "ms_trade_ids s' = ms_trade_ids s"
  using assms
  by (auto simp: apply_stp_def apply_decrement_def Let_def frame_simps
      split: stp_mode.splits if_splits)

text \<open>The one trade of an execution, and the two fills that report it.\<close>

lemma execute_events:
  assumes "execute_match me x r s = Inr (s', evs)" and ne: "x \<noteq> r"
  shows "\<exists>t f g. trades_of evs = [t] \<and> fills_of evs = [f, g] \<and>
     te_price t = price_of (ms_heap s) r \<and> o_price (ms_heap s r) = Some (te_price t) \<and>
     te_quantity t = min (leaves_qty (ms_heap s x)) (leaves_qty (ms_heap s r)) \<and> 0 < te_quantity t \<and>
     fe_order f = r \<and> fe_quantity f = te_quantity t \<and> fe_price f = te_price t \<and>
     fe_order g = x \<and> fe_quantity g = te_quantity t \<and> fe_price g = te_price t \<and>
     fe_trade_id f = te_trade_id t \<and> fe_trade_id g = te_trade_id t \<and>
     fe_liquidity f = ADDED \<and> fe_liquidity g = REMOVED"
    and "o_cum_qty (ms_heap s' y) = o_cum_qty (ms_heap s y) +
       sum_list (map fe_quantity (fills_for y evs))"
    and "o_notional_units (ms_heap s' y) = o_notional_units (ms_heap s y) +
       sum_list (map (\<lambda>f. fe_price f * fe_quantity f) (fills_for y evs))"
    and "leaves_qty (ms_heap s' x) = leaves_qty (ms_heap s x)
       - min (leaves_qty (ms_heap s x)) (leaves_qty (ms_heap s r))"
    and "leaves_qty (ms_heap s' r) = leaves_qty (ms_heap s r)
       - min (leaves_qty (ms_heap s x)) (leaves_qty (ms_heap s r))"
proof -
  from assms(1) obtain q tid ids' p x' r' where
    q: "q = min (leaves_qty (ms_heap s x)) (leaves_qty (ms_heap s r))" and
    p: "o_price (ms_heap s r) = Some p" and
    fx: "apply_fill q p (me_now me) (ms_heap s x) = Inr x'" and
    fr: "apply_fill q p (me_now me) (((ms_heap s)(x := x')) r) = Inr r'" and
    h: "ms_heap s' = (ms_heap s)(x := x', r := r')" and
    evs: "evs = [order_filled (ms_heap s') r q p tid ADDED x (o_mpid (ms_heap s' x)),
            order_filled (ms_heap s') x q p tid REMOVED r (o_mpid (ms_heap s' r)),
            TradeExecuted \<lparr>te_symbol = o_symbol (ms_heap s' x), te_market = o_market (ms_heap s' x),
              te_price = p, te_quantity = q, te_trade_id = tid,
              te_buy_order_id = (if is_buy (ms_heap s' x) then x else r),
              te_sell_order_id = (if is_buy (ms_heap s' x) then r else x),
              te_aggressor_side = Some (if is_buy (ms_heap s' x) then BUY else SELL),
              te_timestamp = me_now me\<rparr>]"
    by (rule execute_match_Inr)
  note ex = apply_fill_Inr [OF fx]
  have fr': "apply_fill q p (me_now me) (ms_heap s r) = Inr r'" using fr ne by simp
  note er = apply_fill_Inr [OF fr']
  show "\<exists>t f g. trades_of evs = [t] \<and> fills_of evs = [f, g] \<and>
     te_price t = price_of (ms_heap s) r \<and> o_price (ms_heap s r) = Some (te_price t) \<and>
     te_quantity t = min (leaves_qty (ms_heap s x)) (leaves_qty (ms_heap s r)) \<and> 0 < te_quantity t \<and>
     fe_order f = r \<and> fe_quantity f = te_quantity t \<and> fe_price f = te_price t \<and>
     fe_order g = x \<and> fe_quantity g = te_quantity t \<and> fe_price g = te_price t \<and>
     fe_trade_id f = te_trade_id t \<and> fe_trade_id g = te_trade_id t \<and>
     fe_liquidity f = ADDED \<and> fe_liquidity g = REMOVED"
    using p q ex by (simp add: evs price_of_def)
  show "o_cum_qty (ms_heap s' y) = o_cum_qty (ms_heap s y) +
       sum_list (map fe_quantity (fills_for y evs))"
    using ex er ne by (auto simp: evs h fills_for_def)
  show "o_notional_units (ms_heap s' y) = o_notional_units (ms_heap s y) +
       sum_list (map (\<lambda>f. fe_price f * fe_quantity f) (fills_for y evs))"
    using ex er ne by (auto simp: evs h fills_for_def)
  show "leaves_qty (ms_heap s' x) = leaves_qty (ms_heap s x)
       - min (leaves_qty (ms_heap s x)) (leaves_qty (ms_heap s r))"
    and "leaves_qty (ms_heap s' r) = leaves_qty (ms_heap s r)
       - min (leaves_qty (ms_heap s x)) (leaves_qty (ms_heap s r))"
    using ex er ne by (simp_all add: h q)
qed

lemma fills_for_simps [simp]:
  "fills_for y [] = []"
  "fills_for y (evs @ evs') = fills_for y evs @ fills_for y evs'"
  by (simp_all add: fills_for_def)

lemma match_step_accounting:
  assumes "match_step me x r s = Inr (s', evs, stop)" and "x \<noteq> r"
  shows "o_cum_qty (ms_heap s' y) = o_cum_qty (ms_heap s y) +
       sum_list (map fe_quantity (fills_for y evs))"
    and "o_notional_units (ms_heap s' y) = o_notional_units (ms_heap s y) +
       sum_list (map (\<lambda>f. fe_price f * fe_quantity f) (fills_for y evs))"
  using assms stp_no_fills [of me x r s] execute_events(2,3) [of me x r s]
  by (auto simp: match_step_def fills_for_def split: if_splits sum.splits)

lemma match_step_trades:
  assumes "match_step me x r s = Inr (s', evs, stop)" and "x \<noteq> r" and "t \<in> set (trades_of evs)"
  shows "te_price t = price_of (ms_heap s) r \<and> 0 < te_quantity t"
proof (cases "is_self_trade me (ms_heap s x) (ms_heap s r)")
  case True
  with assms stp_no_fills(1) [of me x r s s' evs stop] show ?thesis by (simp add: match_step_def)
next
  case False
  with assms(1) have "execute_match me x r s = Inr (s', evs)"
    by (auto simp: match_step_def split: sum.splits)
  from execute_events(1) [OF this assms(2)] assms(3) show ?thesis by auto
qed

text \<open>Executed quantities are exactly what the fills of the batch report.\<close>

lemma match_loop_accounting:
  assumes "match_loop me x s = Inr (s', evs)" and "match_inv x s"
  shows "o_cum_qty (ms_heap s' y) = o_cum_qty (ms_heap s y) +
       sum_list (map fe_quantity (fills_for y evs)) \<and>
     o_notional_units (ms_heap s' y) = o_notional_units (ms_heap s y) +
       sum_list (map (\<lambda>f. fe_price f * fe_quantity f) (fills_for y evs))"
  using assms
proof (induction rule: match_loop_induct)
  case (fin s)
  show ?case by simp
next
  case (stop s r s' evs)
  have "x \<noteq> r" using best_match_SomeD(4) [OF stop(1,3)] by simp
  from match_step_accounting [OF stop(4) this] show ?case by simp
next
  case (step s r s1 evs1 s' evs)
  have "x \<noteq> r" using best_match_SomeD(4) [OF step(1,3)] by simp
  from match_step_accounting [OF step(4) this] step(8) show ?case by simp
qed

text \<open>Price improvement goes to the aggressor: the resting price, inside the limit.\<close>

lemma match_loop_trade_prices:
  assumes "match_loop me x s = Inr (s', evs)" and "match_inv x s" and "t \<in> set (trades_of evs)"
  shows "\<exists>r \<in> set (orders_in_priority (opposite_of x s)).
     te_price t = price_of (ms_heap s) r \<and> prices_cross (ms_heap s x) (te_price t) \<and> 0 < te_quantity t"
  using assms
proof (induction rule: match_loop_induct)
  case (fin s)
  then show ?case by simp
next
  case (stop s r s' evs)
  note b = best_match_SomeD [OF stop(1,3)]
  from match_step_trades [OF stop(4)] b(4) stop.prems have "te_price t = price_of (ms_heap s) r \<and> 0 < te_quantity t"
    by simp
  with b(1,2) show ?case by auto
next
  case (step s r s1 evs1 s' evs)
  note b = best_match_SomeD [OF step(1,3)]
  from step.prems consider "t \<in> set (trades_of evs1)" | "t \<in> set (trades_of evs)" by auto
  then show ?case
  proof cases
    case 1
    with match_step_trades [OF step(4)] b(4) have "te_price t = price_of (ms_heap s) r \<and> 0 < te_quantity t"
      by simp
    with b(1,2) show ?thesis by auto
  next
    case 2
    with step(8) obtain q where q: "q \<in> set (orders_in_priority (opposite_of x s1))"
      "te_price t = price_of (ms_heap s1) q" "prices_cross (ms_heap s1 x) (te_price t)" "0 < te_quantity t"
      by blast
    have "q \<in> set (orders_in_priority (opposite_of x s))"
      using q(1) paired_queues(2) [OF step(1,3,5)] by (auto split: if_splits dest: in_set_tl)
    moreover have "prices_cross (ms_heap s x) (te_price t)"
      using q(3) prices_cross_cong [OF paired_same_terms [OF step(5), of x]] by simp
    ultimately show ?thesis using q(2,4) paired_price_of [OF step(5)] by auto
  qed
qed

end
