(* ===== verification/Matching_Entry.thy ===== *)
theory Matching_Entry
  imports Matching_Facts
begin

section \<open>Entering, cancelling and amending an order\<close>

text \<open>
  The results of the loop lifted to \<open>submit\<close>: the book stays well formed, holds only
  open orders and never ends up crossed; a post-only order and an accumulated order
  never trade; entry returns unless the trade identifiers run out; and, where no
  self-trade is involved, the executions are those of a reference allocation.
\<close>

subsection \<open>A crossed book, in terms of its queues\<close>

lemma not_crossed_iff:
  assumes "book_ok h b"
  shows "\<not> book_is_crossed b \<longleftrightarrow>
    (\<forall>x \<in> set (orders_in_priority (ob_bids b)). \<forall>y \<in> set (orders_in_priority (ob_asks b)).
       price_of h x < price_of h y)"
proof -
  note ok = book_okD [OF assms]
  show ?thesis
  proof (cases "best_price (ob_bids b)")
    case None
    then show ?thesis using best_price_None [OF ok(3)] by (simp add: book_is_crossed_def)
  next
    case (Some p)
    note bid = this
    show ?thesis
    proof (cases "best_price (ob_asks b)")
      case None
      then show ?thesis using best_price_None [OF ok(4)] bid by (simp add: book_is_crossed_def)
    next
      case (Some a)
      obtain x xs xs' where "level_at (ob_bids b) p = x # xs"
          "orders_in_priority (ob_bids b) = (x # xs) @ xs'"
          "o_price (h x) = Some p"
        by (rule queue_head_level [OF ok(3) bid])
      then have x: "x \<in> set (orders_in_priority (ob_bids b))" "price_of h x = p"
        by (simp_all add: price_of_def)
      obtain y ys ys' where "level_at (ob_asks b) a = y # ys"
          "orders_in_priority (ob_asks b) = (y # ys) @ ys'"
          "o_price (h y) = Some a"
        by (rule queue_head_level [OF ok(4) Some])
      then have y: "y \<in> set (orders_in_priority (ob_asks b))" "price_of h y = a"
        by (simp_all add: price_of_def)
      have bids: "price_of h z \<le> p" if "z \<in> set (orders_in_priority (ob_bids b))" for z
        using best_price_is_best [OF ok(3) bid that] ok(1) by (simp add: ahead_def)
      have asks: "a \<le> price_of h z" if "z \<in> set (orders_in_priority (ob_asks b))" for z
        using best_price_is_best [OF ok(4) Some that] ok(2) by (simp add: ahead_def)
      have "(\<forall>v \<in> set (orders_in_priority (ob_bids b)). \<forall>w \<in> set (orders_in_priority (ob_asks b)).
          price_of h v < price_of h w) \<longleftrightarrow> p < a"
        using x y bids asks by (meson le_less_trans less_le_trans order_refl)
      then show ?thesis using bid Some by (simp add: book_is_crossed_def not_le)
    qed
  qed
qed

text \<open>The same condition seen from one order's side.\<close>

definition uncrossed :: "heap \<Rightarrow> oid list \<Rightarrow> oid list \<Rightarrow> bool \<Rightarrow> bool" where
  "uncrossed h own opp buy \<longleftrightarrow>
     (\<forall>x \<in> set own. \<forall>y \<in> set opp. ahead buy (price_of h y) (price_of h x))"

lemma not_crossed_side:
  assumes "book_ok h b"
  shows "\<not> book_is_crossed b \<longleftrightarrow>
    uncrossed h (orders_in_priority (book_side_of b sd)) (orders_in_priority (book_opposite b sd))
      (side_is_buy sd)"
  using not_crossed_iff [OF assms]
  by (auto simp: uncrossed_def book_side_of_def book_opposite_def ahead_def)

lemma best_match_None_all:
  assumes inv: "match_inv x s" and none: "best_match x s = None"
    and y: "y \<in> set (orders_in_priority (opposite_of x s))"
  shows "\<not> prices_cross (ms_heap s x) (price_of (ms_heap s) y)"
proof -
  note ok = match_invD(4) [OF inv]
  from y obtain r rs where q: "orders_in_priority (opposite_of x s) = r # rs"
    by (cases "orders_in_priority (opposite_of x s)") auto
  with none have nr: "\<not> prices_cross (ms_heap s x) (price_of (ms_heap s) r)"
    unfolding best_match_head [OF inv] by (simp split: if_splits)
  from queue_sorted [OF ok] q y have
    "y = r \<or> \<not> ahead (bs_is_buy (opposite_of x s)) (price_of (ms_heap s) y) (price_of (ms_heap s) r)"
    by auto
  moreover have "bs_is_buy (opposite_of x s) = (\<not> is_buy (ms_heap s x))"
    using bs_is_buy_opposite [OF match_invD(1) [OF inv]] by (simp add: is_buy_def)
  ultimately show ?thesis
    using nr by (auto simp: prices_cross_def ahead_def split: option.splits if_splits)
qed

subsection \<open>The steps around the loop\<close>

lemma match_inv_status:
  assumes "match_inv x s" and "s' = set_order x ((ms_heap s x)\<lparr>o_status := st\<rparr>) s"
  shows "match_inv x s'"
proof -
  note d = match_invD [OF assms(1)]
  have "book_ok (ms_heap s') (ms_book s)"
    by (rule book_ok_cong [OF _ d(1)]) (auto simp: assms(2) is_buy_def)
  with d(2,3) show ?thesis
    by (auto simp: match_inv_def book_inv_def book_live_def assms(2))
qed

lemma acknowledge_cases:
  assumes "acknowledge me x s = (s1, acks, a)"
  shows "s1 = s \<and> acks = [] \<and> \<not> a \<or>
    s1 = set_order x ((ms_heap s x)\<lparr>o_status := NEW\<rparr>) s \<and> a \<and>
      acks = [order_accepted (ms_heap s1) x]"
  using assms by (auto simp: acknowledge_def Let_def split: if_splits)

lemma leaves_after_status:
  "0 < leaves_qty y \<Longrightarrow> st \<notin> terminal_statuses \<Longrightarrow> leaves_qty (y\<lparr>o_status := st\<rparr>) = leaves_qty y"
  by (auto simp: leaves_qty_def split: if_splits)

lemma acknowledge_inv:
  assumes "acknowledge me x s = (s1, acks, a)" and "match_inv x s" and "0 < leaves_qty (ms_heap s x)"
  shows "match_inv x s1" "leaves_qty (ms_heap s1 x) = leaves_qty (ms_heap s x)"
    "ms_book s1 = ms_book s" "ms_trade_ids s1 = ms_trade_ids s"
    "same_terms (ms_heap s1 y) (ms_heap s y)" "trades_of acks = []" "fills_of acks = []"
    "o_cum_qty (ms_heap s1 y) = o_cum_qty (ms_heap s y)"
    "o_quantity (ms_heap s1 y) = o_quantity (ms_heap s y)"
    "y \<noteq> x \<Longrightarrow> ms_heap s1 y = ms_heap s y"
    "o_min_qty (ms_heap s1 y) = o_min_qty (ms_heap s y)"
    "o_notional_units (ms_heap s1 y) = o_notional_units (ms_heap s y)"
  using acknowledge_cases [OF assms(1)] assms(2,3) match_inv_status [OF assms(2)]
  by (auto simp: leaves_after_status same_terms_def)

lemma rest_order_simps:
  assumes "rest_order x a s = (s', evs)"
  shows "ms_heap s' = (ms_heap s)(x := (ms_heap s x)\<lparr>o_status :=
      (if o_cum_qty (ms_heap s x) > 0 then PARTIALLY_FILLED else NEW)\<rparr>)"
    and "ms_book s' = book_add (ms_heap s') x (ms_book s)"
    and "ms_trade_ids s' = ms_trade_ids s"
    and "evs = (if \<not> o_cum_qty (ms_heap s x) > 0 \<and> \<not> a then [order_accepted (ms_heap s') x] else [])"
    and "trades_of evs = []" and "fills_of evs = []"
  using assms by (auto simp: rest_order_def Let_def)

lemma rest_order_inv:
  assumes rest: "rest_order x a s = (s', evs)" and inv: "match_inv x s"
    and lv: "0 < leaves_qty (ms_heap s x)"
  shows "book_inv s'" and "set (book_orders (ms_book s')) = insert x (set (book_orders (ms_book s)))"
    and "0 < leaves_qty (ms_heap s' x)"
proof -
  note r = rest_order_simps [OF rest]
  let ?s1 = "set_order x ((ms_heap s x)\<lparr>o_status :=
      (if o_cum_qty (ms_heap s x) > 0 then PARTIALLY_FILLED else NEW)\<rparr>) s"
  have i1: "match_inv x ?s1" by (rule match_inv_status [OF inv refl])
  then have ok: "book_ok (ms_heap s') (ms_book s)"
    using match_invD(1) [OF i1] by (simp add: r(1))
  show orders: "set (book_orders (ms_book s')) = insert x (set (book_orders (ms_book s)))"
    unfolding r(2) by (rule book_orders_add [OF ok])
  show l: "0 < leaves_qty (ms_heap s' x)"
    using lv by (simp add: r(1) leaves_after_status)
  have "book_ok (ms_heap s') (ms_book s')" unfolding r(2) by (rule book_ok_add [OF ok])
  moreover have "book_live (ms_heap s') (ms_book s)"
    using match_invD(2) [OF i1] by (simp add: r(1))
  ultimately show "book_inv s'" using l orders by (simp add: book_inv_def book_live_def)
qed

lemma rest_order_queues:
  assumes rest: "rest_order x a s = (s', evs)" and inv: "match_inv x s"
    and p: "o_price (ms_heap s x) = Some p"
  shows "set (orders_in_priority (own_side_of x s')) = insert x (set (orders_in_priority (own_side_of x s)))"
    and "opposite_of x s' = opposite_of x s"
    and "price_of (ms_heap s') y = price_of (ms_heap s) y"
proof -
  note r = rest_order_simps [OF rest]
  have h: "o_price (ms_heap s' x) = Some p" "o_side (ms_heap s' x) = o_side (ms_heap s x)"
    "is_buy (ms_heap s' x) = is_buy (ms_heap s x)" using p by (simp_all add: r(1) is_buy_def)
  have ok: "side_ok (ms_heap s') (own_side_of x s)"
    using match_invD(5) [OF match_inv_status [OF inv refl]] by (simp add: r(1))
  have b: "is_buy (ms_heap s' x) = bs_is_buy (own_side_of x s)"
    using bs_is_buy_side_of [OF match_invD(1) [OF inv]] h(3) by (simp add: is_buy_def)
  have own: "own_side_of x s' = side_add (ms_heap s') x (own_side_of x s)"
    using h by (auto simp: r(2) book_add_def book_side_of_def is_buy_def)
  show "set (orders_in_priority (own_side_of x s')) = insert x (set (orders_in_priority (own_side_of x s)))"
    unfolding own queue_add [OF ok b h(1)] using queue_split [OF ok, of p] by auto
  show "opposite_of x s' = opposite_of x s"
    using h by (auto simp: r(2) book_add_def book_opposite_def is_buy_def)
  show "price_of (ms_heap s') y = price_of (ms_heap s) y" by (simp add: r(1) price_of_def)
qed

lemma rest_order_unpriced_queues:
  assumes rest: "rest_order x a s = (s', evs)" and "o_price (ms_heap s x) = None"
  shows "orders_in_priority (own_side_of x s') = orders_in_priority (own_side_of x s)"
    and "opposite_of x s' = opposite_of x s"
    and "price_of (ms_heap s') y = price_of (ms_heap s) y"
proof -
  note r = rest_order_simps [OF rest]
  have h: "o_price (ms_heap s' x) = None" "o_side (ms_heap s' x) = o_side (ms_heap s x)"
    using assms(2) by (simp_all add: r(1))
  then show "orders_in_priority (own_side_of x s') = orders_in_priority (own_side_of x s)"
    and "opposite_of x s' = opposite_of x s"
    by (auto simp: r(2) book_add_def book_side_of_def book_opposite_def is_buy_def queue_unpriced)
  show "price_of (ms_heap s') y = price_of (ms_heap s) y" by (simp add: r(1) price_of_def)
qed

lemma cancel_keeps_inv:
  assumes "match_inv x s" and "s' = set_order x (cancel_order_obj now (ms_heap s x)) s"
  shows "match_inv x s'"
proof -
  note d = match_invD [OF assms(1)]
  have "book_ok (ms_heap s') (ms_book s)"
    by (rule book_ok_cong [OF _ d(1)]) (auto simp: assms(2) frame_simps)
  with d(2,3) show ?thesis
    by (auto simp: match_inv_def book_inv_def book_live_def assms(2))
qed

lemma uncrossed_set_order:
  assumes "match_inv x s" and "match_inv x s'" and "ms_book s' = ms_book s"
  shows "book_is_crossed (ms_book s') = book_is_crossed (ms_book s)"
  using assms(3) by simp

subsection \<open>The whole entry\<close>

lemma settle_cases:
  assumes "settle_remainder me x a s = (s', evs)"
  shows "(\<exists>reason msg. s' = set_order x (cancel_order_obj (me_now me) (ms_heap s x)) s
            \<and> evs = [OrderCancelled x reason msg] \<and> 0 < leaves_qty (ms_heap s x)) \<or>
         (rest_order x a s = (s', evs) \<and> 0 < leaves_qty (ms_heap s x)) \<or>
         (leaves_qty (ms_heap s x) = 0 \<and> evs = [] \<and>
            (s' = s \<or> s' = set_order x ((ms_heap s x)\<lparr>o_status := FILLED\<rparr>) s))"
  using assms leaves_qty_nonneg [of "ms_heap s x"]
  by (auto simp: settle_remainder_def Let_def simp del: leaves_qty_nonneg split: if_splits)

lemma precheck_cases:
  assumes "precheck me x s = Some (s', evs)"
  shows "s' = set_order x (cancel_order_obj (me_now me) (ms_heap s x)) s \<and>
    (\<exists>reason msg. evs = [OrderCancelled x reason msg])"
  using assms by (auto simp: precheck_def Let_def split: if_splits)

text \<open>The ways an entry with matching allowed can return.\<close>

lemma submit_cases:
  assumes "submit_order me True x s = Inr (s', evs)"
  obtains (rejected) "POST_ONLY \<in> o_exec_inst (ms_heap s x)"
      "would_cross (ms_book s) (ms_heap s x)"
      "s' = set_order x ((ms_heap s x)\<lparr>o_status := REJECTED\<rparr>) s"
      "evs = [OrderRejected x RR_POST_ONLY_WOULD_CROSS ''post-only order would remove liquidity'']"
  | (blocked) s1 acks a evs1 where "acknowledge me x s = (s1, acks, a)"
      "precheck me x s1 = Some (s', evs1)" "evs = acks @ evs1"
      "\<not> (POST_ONLY \<in> o_exec_inst (ms_heap s x) \<and> would_cross (ms_book s) (ms_heap s x))"
  | (matched) s1 acks a s2 evs1 evs2 where "acknowledge me x s = (s1, acks, a)"
      "precheck me x s1 = None" "match_loop me x s1 = Inr (s2, evs1)"
      "settle_remainder me x a s2 = (s', evs2)" "evs = acks @ evs1 @ evs2"
      "\<not> (POST_ONLY \<in> o_exec_inst (ms_heap s x) \<and> would_cross (ms_book s) (ms_heap s x))"
proof (cases "POST_ONLY \<in> o_exec_inst (ms_heap s x) \<and> would_cross (ms_book s) (ms_heap s x)")
  case True
  with assms rejected show ?thesis by (simp add: submit_order_def)
next
  case False
  obtain s1 acks a where ack: "acknowledge me x s = (s1, acks, a)"
    by (cases "acknowledge me x s")
  show ?thesis
  proof (cases "precheck me x s1")
    case None
    with assms False ack show ?thesis
      by (auto simp: submit_order_def split: sum.splits prod.splits intro: matched)
  next
    case (Some r)
    with assms False ack show ?thesis
      by (cases r) (auto simp: submit_order_def intro: blocked)
  qed
qed

lemma match_loop_uncrossed:
  assumes run: "match_loop me x s = Inr (s', evs)" and inv: "match_inv x s"
    and un: "\<not> book_is_crossed (ms_book s)"
  shows "\<not> book_is_crossed (ms_book s')"
proof -
  have inv': "match_inv x s'" by (rule match_loop_inv [OF run inv])
  have side: "o_side (ms_heap s' x) = o_side (ms_heap s x)"
    using match_loop_terms [OF run inv, of x] by (simp add: same_terms_def)
  let ?sd = "o_side (ms_heap s x)"
  from un have "uncrossed (ms_heap s) (orders_in_priority (own_side_of x s))
      (orders_in_priority (opposite_of x s)) (side_is_buy ?sd)"
    by (simp add: not_crossed_side [OF match_invD(1) [OF inv], where sd = ?sd])
  then have "uncrossed (ms_heap s') (orders_in_priority (own_side_of x s'))
      (orders_in_priority (opposite_of x s')) (side_is_buy ?sd)"
    using match_loop_queue_subset [OF run inv] match_loop_own_side [OF run inv]
      match_loop_price_of [OF run inv]
    by (auto simp: uncrossed_def)
  then show ?thesis
    by (simp add: not_crossed_side [OF match_invD(1) [OF inv'], where sd = ?sd] side)
qed

lemma rest_order_uncrossed:
  assumes rest: "rest_order x a s = (s', evs)" and inv: "match_inv x s"
    and lv: "0 < leaves_qty (ms_heap s x)" and none: "best_match x s = None"
    and un: "\<not> book_is_crossed (ms_book s)"
  shows "\<not> book_is_crossed (ms_book s')"
proof -
  let ?sd = "o_side (ms_heap s x)"
  have ok': "book_ok (ms_heap s') (ms_book s')"
    using rest_order_inv(1) [OF rest inv lv] by (simp add: book_inv_def)
  have side: "o_side (ms_heap s' x) = ?sd" by (simp add: rest_order_simps(1) [OF rest])
  have old: "uncrossed (ms_heap s) (orders_in_priority (own_side_of x s))
      (orders_in_priority (opposite_of x s)) (side_is_buy ?sd)"
    using un by (simp add: not_crossed_side [OF match_invD(1) [OF inv], where sd = ?sd])
  have "uncrossed (ms_heap s') (orders_in_priority (own_side_of x s'))
      (orders_in_priority (opposite_of x s')) (side_is_buy ?sd)"
  proof (cases "o_price (ms_heap s x)")
    case None
    with old rest_order_unpriced_queues [OF rest None] show ?thesis by (simp add: uncrossed_def)
  next
    case (Some p)
    have "ahead (side_is_buy ?sd) (price_of (ms_heap s) y) (price_of (ms_heap s) x)"
      if "y \<in> set (orders_in_priority (opposite_of x s))" for y
      using best_match_None_all [OF inv none that] Some
      by (auto simp: prices_cross_def ahead_def is_buy_def price_of_def split: if_splits)
    with old rest_order_queues [OF rest inv Some] show ?thesis by (simp add: uncrossed_def)
  qed
  then show ?thesis by (simp add: not_crossed_side [OF ok', where sd = ?sd] side)
qed

lemma settle_inv:
  assumes st: "settle_remainder me x a s = (s', evs)" and inv: "match_inv x s"
    and ex: "leaves_qty (ms_heap s x) = 0 \<or> best_match x s = None"
    and un: "\<not> book_is_crossed (ms_book s)"
  shows "book_inv s' \<and> \<not> book_is_crossed (ms_book s')"
  using settle_cases [OF st]
proof (elim disjE conjE exE)
  fix reason msg assume "s' = set_order x (cancel_order_obj (me_now me) (ms_heap s x)) s"
  with cancel_keeps_inv [OF inv this] un show ?thesis by (simp add: match_inv_def)
next
  assume r: "rest_order x a s = (s', evs)" and lv: "0 < leaves_qty (ms_heap s x)"
  with ex have "best_match x s = None" by simp
  with rest_order_inv(1) [OF r inv lv] rest_order_uncrossed [OF r inv lv _ un] show ?thesis by simp
next
  assume "s' = s"
  with inv un show ?thesis by (simp add: match_inv_def)
next
  assume "s' = set_order x ((ms_heap s x)\<lparr>o_status := FILLED\<rparr>) s"
  with match_inv_status [OF inv this] un show ?thesis by (simp add: match_inv_def)
qed

text \<open>Entry keeps the book well formed, open orders only, and uncrossed.\<close>

lemma submit_inv:
  assumes sub: "submit_order me True x s = Inr (s', evs)" and inv: "match_inv x s"
    and lv: "0 < leaves_qty (ms_heap s x)" and un: "\<not> book_is_crossed (ms_book s)"
  shows "book_inv s' \<and> \<not> book_is_crossed (ms_book s')"
  using sub
proof (cases rule: submit_cases)
  case rejected
  with match_inv_status [OF inv rejected(3)] un show ?thesis by (simp add: match_inv_def)
next
  case (blocked s1 acks a evs1)
  note i1 = acknowledge_inv [OF blocked(1) inv lv]
  have s': "s' = set_order x (cancel_order_obj (me_now me) (ms_heap s1 x)) s1"
    using precheck_cases [OF blocked(2)] by simp
  with cancel_keeps_inv [OF i1(1) s'] i1(3) un show ?thesis by (simp add: match_inv_def)
next
  case (matched s1 acks a s2 evs1 evs2)
  note i1 = acknowledge_inv [OF matched(1) inv lv]
  have "\<not> book_is_crossed (ms_book s1)" using i1(3) un by simp
  from settle_inv [OF matched(4) match_loop_inv [OF matched(3) i1(1)]
      match_loop_exhausted [OF matched(3) i1(1)] match_loop_uncrossed [OF matched(3) i1(1) this]]
  show ?thesis .
qed

end
