(* ===== verification/Matching_Spec.thy ===== *)
theory Matching_Spec
  imports Matching_Entry
begin

section \<open>What matching promises, stated without the book\<close>

text \<open>
  An abstract auctioneer: the incoming quantity is shared out along the opposite queue,
  in priority order, until it runs out or the next price is outside the limit. The loop
  refines it whenever no pairing is a self-trade, and so a fill-or-kill order is filled
  in full or not at all. The section also settles when entry can fail: only when the
  trade identifiers run out, and never while the generator has one left per resting
  order the incoming one could meet.
\<close>

fun allocate :: "int \<Rightarrow> (oid \<times> int \<times> int) list \<Rightarrow> (oid \<times> int \<times> int) list" where
  "allocate n [] = []"
| "allocate n ((r, p, q) # rest) =
     (if n \<le> 0 then [] else (r, p, min n q) # allocate (n - q) rest)"

definition reachable_queue :: "oid \<Rightarrow> mstate \<Rightarrow> oid list" where
  "reachable_queue x s = takeWhile (\<lambda>r. prices_cross (ms_heap s x) (price_of (ms_heap s) r))
     (orders_in_priority (opposite_of x s))"

definition quotes :: "heap \<Rightarrow> oid list \<Rightarrow> (oid \<times> int \<times> int) list" where
  "quotes h rs = map (\<lambda>r. (r, price_of h r, leaves_qty (h r))) rs"

text \<open>The executions of a batch as the resting side saw them.\<close>

definition executions :: "event list \<Rightarrow> (oid \<times> int \<times> int) list" where
  "executions evs = map (\<lambda>f. (fe_order f, fe_price f, fe_quantity f))
     (filter (\<lambda>f. fe_liquidity f = ADDED) (fills_of evs))"

definition no_self_trade :: "matching_engine \<Rightarrow> oid \<Rightarrow> mstate \<Rightarrow> bool" where
  "no_self_trade me x s \<longleftrightarrow> (\<forall>r \<in> set (orders_in_priority (opposite_of x s)).
     \<not> is_self_trade me (ms_heap s x) (ms_heap s r))"

lemma executions_simps [simp]:
  "executions [] = []"
  "executions (evs @ evs') = executions evs @ executions evs'"
  by (simp_all add: executions_def)

lemma allocate_zero [simp]: "n \<le> 0 \<Longrightarrow> allocate n qs = []"
  by (cases qs) auto

lemma allocate_total:
  "0 \<le> n \<Longrightarrow> \<forall>(r, p, q) \<in> set qs. 0 \<le> q \<Longrightarrow>
   sum_list (map (\<lambda>(r, p, q). q) (allocate n qs)) = min n (sum_list (map (\<lambda>(r, p, q). q) qs))"
proof (induction n qs rule: allocate.induct)
  case (1 n)
  then show ?case by simp
next
  case (2 n r p q rest)
  have nn: "0 \<le> sum_list (map (\<lambda>(r, p, q). q) rest)"
    using 2(3) by (intro sum_list_nonneg) auto
  show ?case
  proof (cases "q \<le> n")
    case True
    show ?thesis
    proof (cases "n = 0")
      case True
      with nn 2(3) show ?thesis by auto
    next
      case False
      with 2 True show ?thesis by auto
    qed
  next
    case False
    with nn 2(2) show ?thesis by (auto simp: min_def)
  qed
qed

lemma allocate_prefix:
  "\<exists>k. map (\<lambda>(r, p, q). (r, p)) (allocate n qs) = take k (map (\<lambda>(r, p, q). (r, p)) qs)"
proof (induction n qs rule: allocate.induct)
  case (1 n)
  then show ?case by simp
next
  case (2 n r p q rest)
  show ?case
  proof (cases "n \<le> 0")
    case True
    then show ?thesis by (simp add: exI [where x = 0])
  next
    case False
    with 2 obtain k where "map (\<lambda>(r, p, q). (r, p)) (allocate (n - q) rest)
        = take k (map (\<lambda>(r, p, q). (r, p)) rest)" by blast
    with False show ?thesis by (intro exI [of _ "Suc k"]) simp
  qed
qed

subsection \<open>The loop refines the reference allocation\<close>

lemma paired_reachable:
  assumes inv: "match_inv x s" and best: "best_match x s = Some r" and p: "paired x r s s'"
  shows "reachable_queue x s' =
     (if leaves_qty (ms_heap s' r) = 0 then tl (reachable_queue x s) else reachable_queue x s)"
    and "\<exists>rs. reachable_queue x s = r # rs \<and> r \<notin> set rs \<and> x \<notin> set rs"
proof -
  note b = best_match_SomeD [OF inv best]
  from b(1) obtain rs where q: "orders_in_priority (opposite_of x s) = r # rs" by blast
  have x: "x \<notin> set (r # rs)"
    using opposite_queue_live(3) [OF inv] unfolding q by blast
  have d: "r \<notin> set rs" using distinct_queue [OF match_invD(4) [OF inv]] unfolding q by simp
  have cross: "prices_cross (ms_heap s' x) z = prices_cross (ms_heap s x) z" for z
    by (rule prices_cross_cong [OF paired_same_terms [OF p]])
  show "reachable_queue x s' =
     (if leaves_qty (ms_heap s' r) = 0 then tl (reachable_queue x s) else reachable_queue x s)"
    using b(2) by (simp add: reachable_queue_def paired_queues(2) [OF inv best p] q cross
        paired_price_of [OF p])
  show "\<exists>rs. reachable_queue x s = r # rs \<and> r \<notin> set rs \<and> x \<notin> set rs"
    using b(2) d x by (auto simp: reachable_queue_def q dest: set_takeWhileD)
qed

lemma paired_no_self_trade:
  assumes inv: "match_inv x s" and best: "best_match x s = Some r" and p: "paired x r s s'"
    and ns: "no_self_trade me x s"
  shows "no_self_trade me x s'"
proof -
  have "set (orders_in_priority (opposite_of x s')) \<subseteq> set (orders_in_priority (opposite_of x s))"
    using paired_queues(2) [OF inv best p] by (auto dest: in_set_tl)
  with ns show ?thesis
    using is_self_trade_cong [OF paired_same_terms [OF p] paired_same_terms [OF p]]
    by (auto simp: no_self_trade_def)
qed

lemma quotes_frame:
  assumes p: "paired x r s s'" and "r \<notin> set rs" and "x \<notin> set rs"
  shows "quotes (ms_heap s') rs = quotes (ms_heap s) rs"
proof -
  have "ms_heap s' y = ms_heap s y" if "y \<in> set rs" for y
    using assms(2,3) that by (intro paired_other [OF p]) auto
  then show ?thesis using paired_price_of [OF p] by (simp add: quotes_def)
qed

lemma match_loop_refines:
  assumes "match_loop me x s = Inr (s', evs)" and "match_inv x s" and "no_self_trade me x s"
  shows "executions evs = allocate (leaves_qty (ms_heap s x)) (quotes (ms_heap s) (reachable_queue x s)) \<and>
    leaves_qty (ms_heap s' x) = leaves_qty (ms_heap s x)
      - sum_list (map (\<lambda>(r, p, q). q) (executions evs))"
  using assms
proof (induction rule: match_loop_induct)
  case (fin s)
  show ?case
  proof (cases "best_match x s")
    case None
    then have "reachable_queue x s = []"
      unfolding best_match_head [OF fin(1)]
      by (auto simp: reachable_queue_def split: list.splits if_splits)
    then show ?thesis by (simp add: quotes_def)
  next
    case (Some r)
    with fin(2) show ?thesis by simp
  qed
next
  case (stop s r s' evs)
  obtain rs where "orders_in_priority (opposite_of x s) = r # rs"
    using best_match_SomeD(1) [OF stop(1,3)] by blast
  with stop(7) have "\<not> is_self_trade me (ms_heap s x) (ms_heap s r)" by (simp add: no_self_trade_def)
  with stop(4) show ?case by (simp add: match_step_def split: sum.splits prod.splits)
next
  case (step s r s1 evs1 s' evs)
  note b = best_match_SomeD [OF step(1,3)]
  obtain rs where rs: "reachable_queue x s = r # rs" "r \<notin> set rs" "x \<notin> set rs"
    using paired_reachable(2) [OF step(1,3,5)] by blast
  have "\<not> is_self_trade me (ms_heap s x) (ms_heap s r)"
    using b(1) step(9) by (auto simp: no_self_trade_def)
  with step(4) have ex: "execute_match me x r s = Inr (s1, evs1)"
    by (auto simp: match_step_def split: sum.splits prod.splits)
  have ne: "x \<noteq> r" using b(4) by simp
  let ?n = "leaves_qty (ms_heap s x)" and ?q = "leaves_qty (ms_heap s r)"
  have e1: "executions evs1 = [(r, price_of (ms_heap s) r, min ?n ?q)]"
    using execute_events(1) [OF ex ne] by (auto simp: executions_def)
  note lv = execute_events(4,5) [OF ex ne]
  from step(8) paired_no_self_trade [OF step(1,3,5,9)]
  have IH: "executions evs = allocate (leaves_qty (ms_heap s1 x)) (quotes (ms_heap s1) (reachable_queue x s1))"
    "leaves_qty (ms_heap s' x) = leaves_qty (ms_heap s1 x) - sum_list (map (\<lambda>(r, p, q). q) (executions evs))"
    by blast+
  have "executions evs = allocate (?n - ?q) (quotes (ms_heap s) rs)"
  proof (cases "?q \<le> ?n")
    case True
    then have "reachable_queue x s1 = rs" using paired_reachable(1) [OF step(1,3,5)] lv(2) rs(1) by simp
    with IH(1) lv(1) True quotes_frame [OF step(5) rs(2,3)] show ?thesis by simp
  next
    case False
    with IH(1) lv(1) show ?thesis by simp
  qed
  with e1 IH(2) lv(1) step(2) rs(1) show ?case by (simp add: quotes_def)
qed

subsection \<open>The pre-check, and fill-or-kill\<close>

definition reachable_quantity :: "oid \<Rightarrow> mstate \<Rightarrow> int" where
  "reachable_quantity x s = sum_list (map (\<lambda>r. leaves_qty (ms_heap s r)) (reachable_queue x s))"

text \<open>The early exit of the accumulation does not change the comparison it serves.\<close>

lemma executable_loop_ge:
  assumes "\<forall>r \<in> set rs. \<not> is_self_trade me y (h r)" and "available < o_quantity y"
    and "k \<le> o_quantity y"
  shows "executable_loop me h y available rs \<ge> k \<longleftrightarrow>
    available + sum_list (map (\<lambda>r. leaves_qty (h r))
      (takeWhile (\<lambda>r. prices_cross y (price_of h r)) rs)) \<ge> k"
  using assms
proof (induction rs arbitrary: available)
  case Nil
  then show ?case by simp
next
  case (Cons r rs)
  let ?sum = "sum_list (map (\<lambda>r. leaves_qty (h r)) (takeWhile (\<lambda>r. prices_cross y (price_of h r)) rs))"
  have "0 \<le> ?sum" by (rule sum_list_nonneg) auto
  with Cons show ?case by (auto simp: Let_def add.assoc)
qed

lemma executable_ge:
  assumes "no_self_trade me x s" and "k \<le> o_quantity (ms_heap s x)" and "0 < o_quantity (ms_heap s x)"
  shows "executable me (ms_heap s) (ms_book s) (ms_heap s x) \<ge> k \<longleftrightarrow> reachable_quantity x s \<ge> k"
  using executable_loop_ge [of "orders_in_priority (opposite_of x s)" me "ms_heap s x" "ms_heap s" 0 k] assms
  by (simp add: executable_def reachable_quantity_def reachable_queue_def no_self_trade_def)

lemma quotes_total:
  "sum_list (map (\<lambda>(r, p, q). q) (quotes (ms_heap s) (reachable_queue x s))) = reachable_quantity x s"
  by (simp add: quotes_def reachable_quantity_def comp_def)

text \<open>The loop executes all that can be reached, up to the order's own quantity.\<close>

lemma match_loop_total:
  assumes "match_loop me x s = Inr (s', evs)" and "match_inv x s" and "no_self_trade me x s"
  shows "sum_list (map (\<lambda>(r, p, q). q) (executions evs))
      = min (leaves_qty (ms_heap s x)) (reachable_quantity x s)"
    and "leaves_qty (ms_heap s' x) = max 0 (leaves_qty (ms_heap s x) - reachable_quantity x s)"
proof -
  note r = match_loop_refines [OF assms]
  have "sum_list (map (\<lambda>(r, p, q). q) (allocate (leaves_qty (ms_heap s x))
        (quotes (ms_heap s) (reachable_queue x s))))
      = min (leaves_qty (ms_heap s x)) (reachable_quantity x s)"
    by (subst allocate_total) (auto simp: quotes_total, auto simp: quotes_def)
  with r show "sum_list (map (\<lambda>(r, p, q). q) (executions evs))
      = min (leaves_qty (ms_heap s x)) (reachable_quantity x s)" by simp
  with r show "leaves_qty (ms_heap s' x) = max 0 (leaves_qty (ms_heap s x) - reachable_quantity x s)"
    by (simp add: min_def max_def)
qed

text \<open>What the incoming order traded is what the resting orders traded.\<close>

lemma match_step_balanced:
  assumes "match_step me x r s = Inr (s', evs, stop)" and "x \<noteq> r"
  shows "sum_list (map fe_quantity (fills_for x evs)) = sum_list (map (\<lambda>(r, p, q). q) (executions evs))"
proof (cases "is_self_trade me (ms_heap s x) (ms_heap s r)")
  case True
  with assms stp_no_fills(2) [of me x r s s' evs stop] show ?thesis
    by (simp add: match_step_def fills_for_def executions_def)
next
  case False
  with assms(1) have "execute_match me x r s = Inr (s', evs)"
    by (auto simp: match_step_def split: sum.splits)
  from execute_events(1) [OF this assms(2)] assms(2) show ?thesis
    by (auto simp: fills_for_def executions_def)
qed

lemma match_loop_balanced:
  assumes "match_loop me x s = Inr (s', evs)" and "match_inv x s"
  shows "sum_list (map fe_quantity (fills_for x evs)) = sum_list (map (\<lambda>(r, p, q). q) (executions evs))"
  using assms
proof (induction rule: match_loop_induct)
  case (fin s)
  show ?case by simp
next
  case (stop s r s' evs)
  show ?case
    by (rule match_step_balanced [OF stop(4)]) (use best_match_SomeD(4) [OF stop(1,3)] in simp)
next
  case (step s r s1 evs1 s' evs)
  have "x \<noteq> r" using best_match_SomeD(4) [OF step(1,3)] by simp
  from match_step_balanced [OF step(4) this] step(8) show ?case by simp
qed

text \<open>Acknowledging an order changes nothing of this.\<close>

lemma acknowledge_same:
  assumes "acknowledge me x s = (s1, acks, a)" and "match_inv x s" and "0 < leaves_qty (ms_heap s x)"
  shows "reachable_queue x s1 = reachable_queue x s" "no_self_trade me x s1 = no_self_trade me x s"
    "quotes (ms_heap s1) (reachable_queue x s) = quotes (ms_heap s) (reachable_queue x s)"
    "executions acks = []"
proof -
  note i = acknowledge_inv [OF assms]
  have p: "price_of (ms_heap s1) y = price_of (ms_heap s) y" for y
    using i(5) [of y] by (simp add: price_of_def same_terms_def)
  have o: "opposite_of x s1 = opposite_of x s"
    using i(3) i(5) [of x] by (simp add: same_terms_def)
  show rq: "reachable_queue x s1 = reachable_queue x s"
    by (simp add: reachable_queue_def o p prices_cross_cong [OF i(5)])
  show "no_self_trade me x s1 = no_self_trade me x s"
    by (simp add: no_self_trade_def o is_self_trade_cong [OF i(5) i(5)])
  have "leaves_qty (ms_heap s1 y) = leaves_qty (ms_heap s y)" for y
    using i(2) i(10) [of y] by (cases "y = x") simp_all
  with p show "quotes (ms_heap s1) (reachable_queue x s) = quotes (ms_heap s) (reachable_queue x s)"
    by (simp add: quotes_def)
  show "executions acks = []" using i(7) by (simp add: executions_def)
qed

text \<open>A fill-or-kill order without self-trades is filled in full or does not trade.\<close>

lemma fok_all_or_nothing:
  assumes sub: "submit_order me True x s = Inr (s', evs)" and inv: "match_inv x s"
    and ns: "no_self_trade me x s" and fok: "o_time_in_force (ms_heap s x) = FOK"
    and fresh: "o_cum_qty (ms_heap s x) = 0" and lv: "0 < leaves_qty (ms_heap s x)"
  shows "(trades_of evs = [] \<and> leaves_qty (ms_heap s' x) = 0 \<and> o_cum_qty (ms_heap s' x) = 0) \<or>
    (o_cum_qty (ms_heap s' x) = o_quantity (ms_heap s x) \<and>
     sum_list (map fe_quantity (fills_for x evs)) = o_quantity (ms_heap s x))"
  using sub
proof (cases rule: submit_cases)
  case rejected
  with fresh show ?thesis by (simp add: leaves_qty_def)
next
  case (blocked s1 acks a evs1)
  note i = acknowledge_inv [OF blocked(1) inv lv]
  from precheck_cases [OF blocked(2)] blocked(3) i(6) i(8) [of x] fresh
  show ?thesis by (auto simp: frame_simps)
next
  case (matched s1 acks a s2 evs1 evs2)
  note i = acknowledge_inv [OF matched(1) inv lv]
  note same = acknowledge_same [OF matched(1) inv lv]
  have tif: "o_time_in_force (ms_heap s1 x) = FOK" using i(5) [of x] fok by (simp add: same_terms_def)
  have lq: "leaves_qty (ms_heap s1 x) = o_quantity (ms_heap s1 x)"
    using leaves_qty_bound [of "ms_heap s1 x"] i(2) i(8) [of x] fresh lv by simp
  have "executable me (ms_heap s1) (ms_book s1) (ms_heap s1 x) \<ge> o_quantity (ms_heap s1 x)"
    using matched(2) tif by (auto simp: precheck_def Let_def split: if_splits)
  then have rq: "reachable_quantity x s1 \<ge> leaves_qty (ms_heap s1 x)"
    using executable_ge [of me x s1 "o_quantity (ms_heap s1 x)"] ns same(2) lq i(2) lv by simp
  then have l2: "leaves_qty (ms_heap s2 x) = 0"
    using match_loop_total(2) [OF matched(3) i(1)] ns same(2) by simp
  have e2: "evs2 = []" and cum:  "o_cum_qty (ms_heap s' x) = o_cum_qty (ms_heap s2 x)"
    using settle_cases [OF matched(4)] l2 by auto
  have fills: "sum_list (map fe_quantity (fills_for x evs1)) = o_quantity (ms_heap s x)"
    using match_loop_balanced [OF matched(3) i(1)] match_loop_total(1) [OF matched(3) i(1)]
      ns same(2) rq lq i(9) [of x] by simp
  have "fills_for x acks = []" using i(7) by (simp add: fills_for_def)
  with fills e2 cum match_loop_accounting [OF matched(3) i(1), of x] fresh i(8) [of x] matched(5)
  show ?thesis by simp
qed

subsection \<open>When entry can fail\<close>

text \<open>
  One execution takes one identifier; a self-trade takes none. So the only exception is
  an exhausted generator, and a generator that can still issue one identifier per order
  in the opposite queue is never exhausted.
\<close>

lemma execute_match_defined:
  assumes inv: "match_inv x s" and lv: "0 < leaves_qty (ms_heap s x)"
    and best: "best_match x s = Some r"
  shows "(\<exists>e. next_id (ms_trade_ids s) = Inl e \<and> execute_match me x r s = Inl e) \<or>
    (\<exists>tid ids s' evs. next_id (ms_trade_ids s) = Inr (tid, ids) \<and>
       execute_match me x r s = Inr (s', evs) \<and> ms_trade_ids s' = ids \<and>
       map te_trade_id (trades_of evs) = [tid])"
proof (cases "next_id (ms_trade_ids s)")
  case (Inl e)
  then show ?thesis by (simp add: execute_match_def Let_def)
next
  case (Inr a)
  obtain tid ids where nx: "next_id (ms_trade_ids s) = Inr (tid, ids)" using Inr by (cases a) auto
  note b = best_match_SomeD [OF inv best]
  let ?q = "min (leaves_qty (ms_heap s x)) (leaves_qty (ms_heap s r))"
  have q: "0 < ?q" using lv b(5) by simp
  obtain x' where x': "apply_fill ?q (price_of (ms_heap s) r) (me_now me) (ms_heap s x) = Inr x'"
    using apply_fill_defined [OF q, of "ms_heap s x"] by auto
  obtain r' where r': "apply_fill ?q (price_of (ms_heap s) r) (me_now me) (ms_heap s r) = Inr r'"
    using apply_fill_defined [OF q, of "ms_heap s r"] by auto
  have "\<exists>s' evs. execute_match me x r s = Inr (s', evs) \<and> ms_trade_ids s' = ids \<and>
       map te_trade_id (trades_of evs) = [tid]"
    using b(4,7) nx x' r' by (simp add: execute_match_def Let_def)
  with nx show ?thesis by auto
qed

lemma match_step_ids:
  assumes inv: "match_inv x s" and lv: "0 < leaves_qty (ms_heap s x)"
    and best: "best_match x s = Some r"
  shows "match_step me x r s = Inl e \<Longrightarrow> next_id (ms_trade_ids s) = Inl e"
    and "match_step me x r s = Inr (s', evs, stop) \<Longrightarrow>
      trades_of evs = [] \<and> ms_trade_ids s' = ms_trade_ids s \<or>
      (\<exists>tid. next_id (ms_trade_ids s) = Inr (tid, ms_trade_ids s') \<and>
        map te_trade_id (trades_of evs) = [tid] \<and> \<not> stop)"
  using execute_match_defined [OF assms, of me] stp_no_fills(1,5) [of me x r s]
  by (auto simp: match_step_def split: if_splits sum.splits)

lemma next_id_error: "next_id g = Inl e \<Longrightarrow> e = OverflowError"
  by (auto simp: next_id_def Let_def split: if_splits)

lemma match_loop_error:
  assumes "match_loop me x s = Inl e" and "match_inv x s"
  shows "e = OverflowError"
  using assms
proof (induction "match_measure x s" arbitrary: s rule: less_induct)
  case less
  from less.prems(1) have lv: "0 < leaves_qty (ms_heap s x)"
    by (rule_tac ccontr) (simp add: match_loop_unfold_stop not_less)
  from less.prems(1) obtain r where best: "best_match x s = Some r"
    by (cases "best_match x s") (auto simp: match_loop_unfold_stop)
  note b = best_match_SomeD [OF less.prems(2) best]
  show ?case
  proof (cases "match_step me x r s")
    case (Inl e')
    with match_loop_unfold_step [OF lv best, of me] less.prems(1)
      match_step_ids(1) [OF less.prems(2) lv best Inl] show ?thesis
      by (auto dest: next_id_error)
  next
    case (Inr a)
    obtain s1 evs1 st where ms: "match_step me x r s = Inr (s1, evs1, st)" using Inr by (cases a) auto
    with match_loop_unfold_step [OF lv best, of me] less.prems(1)
    have nst: "\<not> st" and rest: "match_loop me x s1 = Inl e"
      by (auto simp: prepend_events_def split: if_splits sum.splits prod.splits)
    have "paired x r s s1" using match_step_paired [OF ms] b(4,5) lv by simp
    then have "match_inv x s1" by (rule paired_inv [OF less.prems(2) b(3)])
    moreover have "match_measure x s1 < match_measure x s"
      using match_step_decreases [OF _ best] ms nst by simp
    ultimately show ?thesis using less.hyps rest by blast
  qed
qed

text \<open>Every pairing but the last takes the head off the opposite queue.\<close>

lemma issue_Suc_Inr:
  "issue nxt (Suc n) g = Inr (is, g') \<longleftrightarrow>
    (\<exists>i g1 is1. nxt g = Inr (i, g1) \<and> issue nxt n g1 = Inr (is1, g') \<and> is = i # is1)"
  by (auto split: sum.splits prod.splits)

lemma issue_less:
  "issue nxt n g = Inr (is, g') \<Longrightarrow> m \<le> n \<Longrightarrow> \<exists>g''. issue nxt m g = Inr (take m is, g'')"
proof (induction n arbitrary: m g "is" g')
  case 0
  then show ?case by simp
next
  case (Suc n)
  then show ?case
    by (cases m) (fastforce simp: issue_Suc_Inr simp del: issue.simps(2))+
qed

lemma step_progress:
  assumes inv: "match_inv x s" and lv: "0 < leaves_qty (ms_heap s x)"
    and best: "best_match x s = Some r" and ms: "match_step me x r s = Inr (s1, evs1, False)"
  shows "leaves_qty (ms_heap s1 x) = 0 \<or> leaves_qty (ms_heap s1 r) = 0"
proof (cases "is_self_trade me (ms_heap s x) (ms_heap s r)")
  case True
  with ms stp_shrinks(2) [of me x r s s1 evs1 False] show ?thesis by (auto simp: match_step_def)
next
  case False
  with ms have ex: "execute_match me x r s = Inr (s1, evs1)"
    by (auto simp: match_step_def split: sum.splits)
  have "x \<noteq> r" using best_match_SomeD(4) [OF inv best] by simp
  from execute_events(4,5) [OF ex this] show ?thesis by (auto simp: min_def)
qed

lemma match_loop_total_ids:
  assumes "match_inv x s" and "issue next_id n (ms_trade_ids s) = Inr (is, g)"
    and "length (orders_in_priority (opposite_of x s)) \<le> n"
  shows "\<exists>s' evs k. match_loop me x s = Inr (s', evs) \<and>
    map te_trade_id (trades_of evs) = take k is \<and> k \<le> n"
  using assms
proof (induction "match_measure x s" arbitrary: s n "is" rule: less_induct)
  case less
  show ?case
  proof (cases "leaves_qty (ms_heap s x) \<le> 0 \<or> best_match x s = None")
    case True
    then show ?thesis by (simp add: match_loop_unfold_stop exI [where x = 0])
  next
    case False
    then obtain r where lv: "0 < leaves_qty (ms_heap s x)" and best: "best_match x s = Some r" by auto
    note b = best_match_SomeD [OF less.prems(1) best]
    obtain rs where q: "orders_in_priority (opposite_of x s) = r # rs" using b(1) by blast
    with less.prems(3) obtain m where n: "n = Suc m" by (cases n) auto
    obtain i g1 is1 where nx: "next_id (ms_trade_ids s) = Inr (i, g1)"
        and i1: "issue next_id m g1 = Inr (is1, g)" and split: "is = i # is1"
      using less.prems(2) unfolding n issue_Suc_Inr by blast
    obtain s1 evs1 st where ms: "match_step me x r s = Inr (s1, evs1, st)"
      using match_step_ids(1) [OF less.prems(1) lv best, of me] nx
      by (cases "match_step me x r s") auto
    note ids = match_step_ids(2) [OF less.prems(1) lv best ms]
    have p: "paired x r s s1" using match_step_paired [OF ms] b(4,5) lv by simp
    have inv1: "match_inv x s1" by (rule paired_inv [OF less.prems(1) b(3) p])
    show ?thesis
    proof (cases st)
      case True
      with ids have "trades_of evs1 = []" by blast
      with True ms match_loop_unfold_step [OF lv best, of me] show ?thesis
        by (simp add: exI [where x = 0])
    next
      case False
      with ms have ms': "match_step me x r s = Inr (s1, evs1, False)" by simp
      have less': "match_measure x s1 < match_measure x s" by (rule match_step_decreases [OF ms' best])
      have done_or: "leaves_qty (ms_heap s1 x) = 0 \<or> length (orders_in_priority (opposite_of x s1)) \<le> m"
        using step_progress [OF less.prems(1) lv best ms'] paired_queues(2) [OF less.prems(1) best p]
          q less.prems(3) n by auto
      have "\<exists>s' evs k. match_loop me x s1 = Inr (s', evs) \<and>
          map te_trade_id (trades_of evs1 @ trades_of evs) = take k is \<and> k \<le> n"
      proof (cases "leaves_qty (ms_heap s1 x) = 0")
        case True
        then have "match_loop me x s1 = Inr (s1, [])" by (simp add: match_loop_unfold_stop)
        moreover from ids nx split have "map te_trade_id (trades_of evs1) = take 0 is \<or>
            map te_trade_id (trades_of evs1) = take 1 is" by auto
        ultimately show ?thesis using n by auto
      next
        case left: False
        from ids consider
            (no) "trades_of evs1 = []" "ms_trade_ids s1 = ms_trade_ids s"
          | (one) "ms_trade_ids s1 = g1" "map te_trade_id (trades_of evs1) = [i]"
          using nx by auto
        then show ?thesis
        proof cases
          case no
          have "\<exists>g''. issue next_id n (ms_trade_ids s1) = Inr (is, g'')"
            using no(2) less.prems(2) by simp
          with less.hyps [OF less' inv1, of n "is"] left done_or n no less.prems(2) show ?thesis
            by fastforce
        next
          case one
          with less.hyps [OF less' inv1, of m is1] left done_or i1 obtain s' evs k where
            "match_loop me x s1 = Inr (s', evs)" "map te_trade_id (trades_of evs) = take k is1" "k \<le> m"
            by auto
          with one(2) split n show ?thesis by (intro exI [of _ s'] exI [of _ evs] exI [of _ "Suc k"]) simp
        qed
      qed
      with ms False match_loop_unfold_step [OF lv best, of me] show ?thesis
        by (auto simp: prepend_events_def)
    qed
  qed
qed

lemma distinct_trade_ids:
  assumes "match_inv x s" and "issue next_id n (ms_trade_ids s) = Inr (is, g)"
    and "length (orders_in_priority (opposite_of x s)) \<le> n"
    and "match_loop me x s = Inr (s', evs)"
  shows "distinct (map te_trade_id (trades_of evs))"
  using match_loop_total_ids [OF assms(1,2,3), of me] assms(4) ids.issue_distinct [OF assms(2)]
  by auto

end
