(* ===== verification/Prices.thy ===== *)
theory Prices
  imports Prelude
begin

section \<open>Exact price arithmetic (\<open>core/prices.py\<close>)\<close>

text \<open>
  A price is an integer number of increments; text is converted at the boundary through
  Python's \<open>Decimal\<close>, whose default context rounds every product and quotient to 28
  significant digits, half to even, and raises on overflow of the exponent range. Both
  are written out, because they decide which prices survive the boundary. An exponent
  beyond 10 to the 18, which the C implementation refuses outright, is not modelled.
\<close>

record price_codec =
  pc_decimals :: nat

definition pc_scale :: "price_codec \<Rightarrow> int" where
  "pc_scale c = 10 ^ pc_decimals c"

subsection \<open>Finite decimals\<close>

text \<open>A sign, a coefficient and an exponent: \<open>(-1) ^ sign * coefficient * 10 ^ exponent\<close>.\<close>

record decimal =
  dec_neg :: bool
  dec_coeff :: nat
  dec_exp :: int

definition digits_of :: "nat \<Rightarrow> nat" where
  "digits_of n = length (string_of_nat n)"

definition half_even_div :: "nat \<Rightarrow> nat \<Rightarrow> nat" where
  "half_even_div n d =
     (let q = n div d; r = n mod d
      in if 2 * r < d then q else if 2 * r > d then q + 1 else if even q then q else q + 1)"

definition context_prec :: nat where "context_prec = 28"
definition context_emax :: int where "context_emax = 999999"
definition context_emin :: int where "context_emin = - 999999"
definition context_etiny :: int where "context_etiny = context_emin - int context_prec + 1"
definition context_etop :: int where "context_etop = context_emax - int context_prec + 1"

text \<open>Rounding a result to the context (\<open>Decimal._fix\<close>).\<close>

definition decimal_fix :: "decimal \<Rightarrow> exn + decimal" where
  "decimal_fix x =
     (if dec_coeff x = 0
      then Inr (x\<lparr>dec_exp := min (max (dec_exp x) context_etiny) context_emax\<rparr>)
      else (let low = int (digits_of (dec_coeff x)) + dec_exp x - int context_prec
            in if low > context_etop then Inl DecimalOverflow
               else (let low' = max low context_etiny
                     in if dec_exp x \<ge> low' then Inr x
                        else (let c = half_even_div (dec_coeff x) (10 ^ nat (low' - dec_exp x));
                                  carried = digits_of c > context_prec;
                                  c' = (if carried then c div 10 else c);
                                  e' = (if carried then low' + 1 else low')
                              in if e' > context_etop then Inl DecimalOverflow
                                 else Inr (x\<lparr>dec_coeff := c', dec_exp := e'\<rparr>)))))"

definition decimal_is_integral :: "decimal \<Rightarrow> bool" where
  "decimal_is_integral x \<longleftrightarrow> dec_exp x \<ge> 0 \<or> dec_coeff x mod (10 ^ nat (- dec_exp x)) = 0"

definition decimal_to_int :: "decimal \<Rightarrow> int" where
  "decimal_to_int x =
     (let m = (if dec_exp x \<ge> 0 then dec_coeff x * 10 ^ nat (dec_exp x)
               else dec_coeff x div 10 ^ nat (- dec_exp x))
      in if dec_neg x then - int m else int m)"

subsection \<open>Reading decimal text\<close>

text \<open>
  \<open>Decimal(text)\<close> for the finite numerals: an optional sign, digits with an optional
  point, an optional exponent; white space around and underscores inside are dropped.
  Infinities and NaNs, which the caller refuses exactly as it refuses other text, are
  \<open>None\<close> here with everything else that is no finite numeral.
\<close>

definition take_sign :: "string \<Rightarrow> bool \<times> string" where
  "take_sign s = (case s of [] \<Rightarrow> (False, [])
     | c # cs \<Rightarrow> (if c = CHR ''-'' then (True, cs)
                  else if c = CHR ''+'' then (False, cs) else (False, s)))"

definition read_exponent :: "string \<Rightarrow> int option" where
  "read_exponent s = (case s of [] \<Rightarrow> Some 0
     | c # cs \<Rightarrow>
        (if c \<noteq> CHR ''e'' \<and> c \<noteq> CHR ''E'' then None
         else (case take_sign cs of (neg, ds) \<Rightarrow>
           (if ds = [] \<or> \<not> (\<forall>d \<in> set ds. is_digit d) then None
            else Some (if neg then - int (nat_of_digits ds) else int (nat_of_digits ds))))))"

definition decimal_of_text :: "string \<Rightarrow> decimal option" where
  "decimal_of_text s =
     (case take_sign (filter (\<lambda>c. c \<noteq> CHR ''_'') (strip s)) of (neg, body) \<Rightarrow>
       (let ip = takeWhile is_digit body; rest = dropWhile is_digit body;
            point = (case rest of [] \<Rightarrow> False | c # _ \<Rightarrow> c = CHR ''.'');
            fp = (if point then takeWhile is_digit (tl rest) else []);
            tail = (if point then dropWhile is_digit (tl rest) else rest)
        in if ip = [] \<and> fp = [] then None
           else (case read_exponent tail of None \<Rightarrow> None
                 | Some e \<Rightarrow> Some \<lparr>dec_neg = neg, dec_coeff = nat_of_digits (ip @ fp),
                                dec_exp = e - int (length fp)\<rparr>)))"

text \<open>\<open>PriceCodec.parse\<close>, with the product's rounding where the code has it.\<close>

definition parse_price :: "price_codec \<Rightarrow> string \<Rightarrow> exn + int" where
  "parse_price c text =
     (case decimal_of_text text of None \<Rightarrow> Inl PriceError
      | Some v \<Rightarrow>
         (case decimal_fix (v\<lparr>dec_coeff := dec_coeff v * 10 ^ pc_decimals c\<rparr>) of
            Inl e \<Rightarrow> Inl e
          | Inr scaled \<Rightarrow>
              (if \<not> decimal_is_integral scaled then Inl PriceError
               else Inr (decimal_to_int scaled))))"

subsection \<open>Writing a price\<close>

definition fixed_point :: "nat \<Rightarrow> nat \<Rightarrow> string" where
  "fixed_point d n =
     (if d = 0 then string_of_nat n
      else string_of_nat (n div 10 ^ d) @ CHR ''.'' # zero_pad d (n mod 10 ^ d))"

text \<open>
  \<open>PriceCodec.format\<close>. Division by a power of ten is exact up to 28 digits; above that,
  \<open>quantize\<close> needs more digits than the context allows and raises.
\<close>

definition format_price :: "price_codec \<Rightarrow> int \<Rightarrow> exn + string" where
  "format_price c units =
     (if \<bar>units\<bar> \<ge> 10 ^ context_prec then Inl InvalidOperation
      else Inr ((if units < 0 then ''-'' else []) @ fixed_point (pc_decimals c) (nat \<bar>units\<bar>)))"

text \<open>
  The text of a price inside a message: every price that reaches one has been parsed,
  so it is below the bound and \<open>format\<close> does not raise; above it the text is empty.
\<close>

definition format_text :: "price_codec \<Rightarrow> int \<Rightarrow> string" where
  "format_text c units = (case format_price c units of Inl _ \<Rightarrow> [] | Inr t \<Rightarrow> t)"

subsection \<open>Derived values\<close>

definition notional :: "price_codec \<Rightarrow> int \<Rightarrow> int \<Rightarrow> int" where
  "notional c units quantity = (units * quantity + pc_scale c - 1) div pc_scale c"

definition is_multiple_of :: "int \<Rightarrow> int \<Rightarrow> bool" where
  "is_multiple_of units tick = (if tick = 0 then True else units mod tick = 0)"

lemma pc_scale_pos [simp]: "0 < pc_scale c"
  by (simp add: pc_scale_def)

text \<open>The order value is rounded up to whole currency units, never down.\<close>

lemma notional_ceiling:
  "notional c p q * pc_scale c \<ge> p * q \<and> (notional c p q - 1) * pc_scale c < p * q"
proof -
  let ?s = "pc_scale c" and ?n = "p * q + pc_scale c - 1"
  have eq: "notional c p q * ?s = ?n - ?n mod ?s"
    by (simp add: notional_def minus_mod_eq_div_mult)
  moreover have "0 \<le> ?n mod ?s" "?n mod ?s < ?s" by simp_all
  ultimately show ?thesis by (simp only: left_diff_distrib) linarith
qed

subsection \<open>The round trip\<close>

lemma nat_of_digits_append:
  "nat_of_digits (s @ t) = nat_of_digits s * 10 ^ length t + nat_of_digits t"
proof (induction t rule: rev_induct)
  case Nil
  then show ?case by simp
next
  case (snoc c t)
  have "nat_of_digits (s @ t @ [c]) = 10 * nat_of_digits (s @ t) + digit_val c"
    using nat_of_digits_snoc [of "s @ t" c] by simp
  with snoc show ?case by simp
qed

lemma digits_of_bound: "0 < k \<Longrightarrow> n < 10 ^ k \<Longrightarrow> digits_of n \<le> k"
  by (simp add: digits_of_def length_string_of_nat_le)

lemma digits_of_Suc: "0 < n \<Longrightarrow> digits_of (n * 10) = Suc (digits_of n)"
  by (simp add: digits_of_def string_of_nat.simps [of "n * 10"])

lemma digits_of_shift: "0 < n \<Longrightarrow> digits_of (n * 10 ^ k) = digits_of n + k"
proof (induction k)
  case 0
  then show ?case by simp
next
  case (Suc k)
  then have "digits_of (n * 10 ^ k * 10) = Suc (digits_of (n * 10 ^ k))"
    by (intro digits_of_Suc) simp
  with Suc show ?case by (simp add: ac_simps)
qed

lemma half_even_div_exact: "0 < d \<Longrightarrow> half_even_div (n * d) d = n"
  by (simp add: half_even_div_def Let_def)

lemma digits_takeWhile:
  assumes "\<forall>c \<in> set s. is_digit c" and "t = [] \<or> \<not> is_digit (hd t)"
  shows "takeWhile is_digit (s @ t) = s" and "dropWhile is_digit (s @ t) = t"
  using assms by (cases t; simp add: takeWhile_append dropWhile_append)+

lemma string_of_nat_all_digits: "\<forall>c \<in> set (string_of_nat n). is_digit c"
  using string_of_nat_digits by blast

lemma zero_pad_all_digits: "\<forall>c \<in> set (zero_pad w n). is_digit c"
  by (auto simp: zero_pad_def Let_def is_digit_def dest: string_of_nat_digits)

lemma fixed_point_body:
  "\<exists>b rest. fixed_point d n = b # rest \<and> is_digit b"
  "\<exists>rest b. fixed_point d n = rest @ [b] \<and> is_digit b"
  "\<forall>c \<in> set (fixed_point d n). is_digit c \<or> c = CHR ''.''"
proof -
  obtain b rest where "string_of_nat (if d = 0 then n else n div 10 ^ d) = b # rest"
    by (cases "string_of_nat (if d = 0 then n else n div 10 ^ d)") auto
  moreover from this have "is_digit b" by (metis list.set_intros(1) string_of_nat_digits)
  ultimately show "\<exists>b rest. fixed_point d n = b # rest \<and> is_digit b"
    by (auto simp: fixed_point_def split: if_splits)
  let ?t = "if d = 0 then string_of_nat n else zero_pad d (n mod 10 ^ d)"
  have "?t \<noteq> []" by (auto simp: zero_pad_def Let_def)
  then obtain r l where t: "?t = r @ [l]" by (cases ?t rule: rev_cases) auto
  have "\<forall>c \<in> set ?t. is_digit c" by (simp add: string_of_nat_all_digits zero_pad_all_digits)
  with t have "is_digit l" by (metis in_set_conv_decomp)
  with t show "\<exists>rest b. fixed_point d n = rest @ [b] \<and> is_digit b"
    by (auto simp: fixed_point_def split: if_splits)
  show "\<forall>c \<in> set (fixed_point d n). is_digit c \<or> c = CHR ''.''"
    using string_of_nat_all_digits zero_pad_all_digits by (auto simp: fixed_point_def)
qed

lemma not_space_or_sign: "\<not> is_space (CHR ''-'')" "\<not> is_digit (CHR ''.'')" "\<not> is_digit (CHR ''-'')"
  "\<not> is_digit (CHR ''_'')" "\<not> is_digit (CHR ''+'')"
  by (simp_all add: is_space_def is_digit_def)

lemma decimal_of_formatted:
  "decimal_of_text ((if neg then ''-'' else []) @ fixed_point d n) =
     Some \<lparr>dec_neg = neg, dec_coeff = n, dec_exp = - int d\<rparr>"
proof -
  let ?f = "fixed_point d n" and ?s = "(if neg then ''-'' else []) @ fixed_point d n"
  obtain b r l bs where b: "?f = b # bs" "is_digit b" and l: "?f = r @ [l]" "is_digit l"
    using fixed_point_body(1,2) by blast
  have "hd ?s = (if neg then CHR ''-'' else b)" using b(1) by simp
  moreover have "last ?s = l" using l(1) by simp
  ultimately have strip: "strip ?s = ?s"
    using b(2) l(2) by (intro strip_id) (auto simp: is_digit_not_space not_space_or_sign)
  have filt: "filter (\<lambda>c. c \<noteq> CHR ''_'') ?s = ?s"
    using fixed_point_body(3) [of d n] by (intro filter_True) (auto simp: not_space_or_sign)
  have sign: "take_sign ?s = (neg, ?f)"
    using b by (auto simp: take_sign_def not_space_or_sign)
  have "decimal_of_text ?s = (let ip = takeWhile is_digit ?f; rest = dropWhile is_digit ?f;
            point = (case rest of [] \<Rightarrow> False | c # _ \<Rightarrow> c = CHR ''.'');
            fp = (if point then takeWhile is_digit (tl rest) else []);
            tail = (if point then dropWhile is_digit (tl rest) else rest)
        in if ip = [] \<and> fp = [] then None
           else (case read_exponent tail of None \<Rightarrow> None
                 | Some e \<Rightarrow> Some \<lparr>dec_neg = neg, dec_coeff = nat_of_digits (ip @ fp),
                                dec_exp = e - int (length fp)\<rparr>))"
    unfolding decimal_of_text_def strip filt sign by simp
  also have "\<dots> = Some \<lparr>dec_neg = neg, dec_coeff = n, dec_exp = - int d\<rparr>"
  proof (cases "d = 0")
    case True
    then have f: "?f = string_of_nat n @ []" by (simp add: fixed_point_def)
    have "takeWhile is_digit ?f = string_of_nat n" "dropWhile is_digit ?f = []"
      unfolding f by (rule digits_takeWhile; simp add: string_of_nat_all_digits)+
    with True show ?thesis
      by (simp add: read_exponent_def Let_def del: dropWhile_eq_Nil_conv takeWhile_eq_all_conv)
  next
    case False
    let ?i = "string_of_nat (n div 10 ^ d)" and ?p = "zero_pad d (n mod 10 ^ d)"
    have f: "?f = ?i @ CHR ''.'' # ?p" using False by (simp add: fixed_point_def)
    have t: "takeWhile is_digit ?f = ?i" "dropWhile is_digit ?f = CHR ''.'' # ?p"
      unfolding f by (rule digits_takeWhile; simp add: string_of_nat_all_digits not_space_or_sign)+
    have p: "takeWhile is_digit ?p = ?p" "dropWhile is_digit ?p = []"
      using zero_pad_all_digits by (simp_all add: takeWhile_eq_all_conv)
    have len: "length ?p = d"
      using length_string_of_nat_le [of d "n mod 10 ^ d"] False
      by (simp add: length_zero_pad max_absorb1)
    have "nat_of_digits (?i @ ?p) = n"
      by (simp add: nat_of_digits_append len div_mult_mod_eq del: string_of_nat.simps)
    with t p len show ?thesis
      by (simp add: read_exponent_def Let_def del: dropWhile_eq_Nil_conv takeWhile_eq_all_conv)
  qed
  finally show ?thesis .
qed

text \<open>A product by the scale that fits 28 digits loses nothing, whatever the exponent.\<close>

lemma decimal_fix_exact:
  assumes n: "n < 10 ^ context_prec"
  shows "\<exists>y. decimal_fix \<lparr>dec_neg = neg, dec_coeff = n * 10 ^ d, dec_exp = - int d\<rparr> = Inr y \<and>
    decimal_is_integral y \<and> decimal_to_int y = (if neg then - int n else int n)"
proof (cases "n = 0")
  case True
  then show ?thesis by (simp add: decimal_fix_def decimal_is_integral_def decimal_to_int_def)
next
  case False
  let ?low = "int (digits_of n) - int context_prec"
  let ?low' = "max ?low context_etiny"
  have low: "?low \<le> 0" using digits_of_bound [OF _ n] by (simp add: context_prec_def)
  then have neg': "?low' \<le> 0"
    by (simp add: context_etiny_def context_emin_def context_prec_def)
  have etop: "0 \<le> context_etop" "?low \<le> context_etop" "?low' \<le> context_etop"
    using low neg' by (simp_all add: context_etop_def context_emax_def context_prec_def)
  have dig: "int (digits_of (n * 10 ^ d)) + - int d - int context_prec = ?low"
    using False by (simp add: digits_of_shift)
  show ?thesis
  proof (cases "- int d \<ge> ?low'")
    case True
    with False etop dig show ?thesis
      by (simp add: decimal_fix_def Let_def decimal_is_integral_def decimal_to_int_def)
  next
    case small: False
    define k where "k = nat (- ?low')"
    have k: "?low' = - int k" using neg' by (simp add: k_def)
    with small have kd: "k \<le> d" by simp
    have split: "n * 10 ^ d = n * 10 ^ k * 10 ^ (d - k)"
      using kd by (simp add: power_add [symmetric])
    have c: "half_even_div (n * 10 ^ d) (10 ^ nat (?low' - - int d)) = n * 10 ^ k"
      using kd by (simp add: k split half_even_div_exact nat_diff_distrib)
    have "int (digits_of (n * 10 ^ k)) \<le> int context_prec"
      using False k by (simp add: digits_of_shift)
    with False small etop dig c k show ?thesis
      by (simp add: decimal_fix_def Let_def decimal_is_integral_def decimal_to_int_def)
  qed
qed

lemma parse_format:
  assumes "format_price c u = Inr t"
  shows "parse_price c t = Inr u"
proof -
  let ?n = "nat \<bar>u\<bar>"
  from assms have b: "\<bar>u\<bar> < 10 ^ context_prec"
      and t: "t = (if u < 0 then ''-'' else []) @ fixed_point (pc_decimals c) ?n"
    by (auto simp: format_price_def split: if_splits)
  from b have n: "?n < 10 ^ context_prec" by (simp add: nat_less_iff)
  from decimal_fix_exact [OF n, of "u < 0" "pc_decimals c"] show ?thesis
    by (auto simp: parse_price_def t decimal_of_formatted)
qed

interpretation prices: round_trip_codec "format_price c" "parse_price c" for c
  by unfold_locales (rule parse_format)

text \<open>Formatting is defined on every price below ten to the 28 and on no other.\<close>

lemma format_defined: "(\<exists>t. format_price c u = Inr t) \<longleftrightarrow> \<bar>u\<bar> < 10 ^ context_prec"
  by (auto simp: format_price_def)

lemma format_text_inject:
  assumes "\<bar>u\<bar> < 10 ^ context_prec" and "\<bar>v\<bar> < 10 ^ context_prec"
    and "format_text c u = format_text c v"
  shows "u = v"
proof -
  from assms obtain s where "format_price c u = Inr s" "format_price c v = Inr s"
    using format_defined [of c u] format_defined [of c v] by (auto simp: format_text_def)
  then show ?thesis by (rule prices.put_inject)
qed

end
