(* ===== verification/Instruments.thy ===== *)
theory Instruments
  imports Prices
begin

section \<open>Instruments and their reference data (\<open>core/instrument.py\<close>)\<close>

text \<open>
  Price bands and tick sizes are threshold ladders looked up by bisection. The theory
  models both tables, the instrument with its derived limits, the listing order of
  symbols, and the loaders from the rows the \<open>csv\<close> module delivers; reading the file
  itself is input and output and is not modelled.
\<close>

subsection \<open>The price band table\<close>

record band_table =
  bt_bounds :: "int list"
  bt_bands :: "int list"
  bt_name :: string

definition make_band_table :: "(int \<times> int) list \<Rightarrow> string \<Rightarrow> exn + band_table" where
  "make_band_table rows name =
     (let ordered = sort_key fst rows
      in if ordered = [] then Inl ReferenceDataError
         else if hd (map fst ordered) \<noteq> 0 then Inl ReferenceDataError
         else Inr \<lparr>bt_bounds = map fst ordered, bt_bands = map snd ordered, bt_name = name\<rparr>)"

text \<open>\<open>bisect_right - 1\<close>, and the first row for a price below the whole table.\<close>

definition threshold_index :: "int list \<Rightarrow> int \<Rightarrow> nat" where
  "threshold_index bounds p = (let i = bisect_right bounds p in if i = 0 then 0 else i - 1)"

definition band_for :: "band_table \<Rightarrow> int \<Rightarrow> int" where
  "band_for t base = bt_bands t ! threshold_index (bt_bounds t) base"

definition limits_for :: "band_table \<Rightarrow> int \<Rightarrow> int \<times> int" where
  "limits_for t base = (let band = band_for t base in (max 1 (base - band), base + band))"

subsection \<open>Other price ranges\<close>

text \<open>
  An instrument takes anything with the interface of the table. Two venues of the exchange
  give a percentage of the base price (\<open>CircuitFilter\<close>), one a multiple of it
  (\<open>NineTimesRule\<close>).
\<close>

datatype price_range = Ladder band_table | CircuitFilter int | NineTimesRule int

definition circuit_limits :: "int \<Rightarrow> int \<Rightarrow> int \<times> int" where
  "circuit_limits percent base =
     (let band = base * percent div 100 in (max 1 (base - band), base + band))"

definition nine_times_limits :: "int \<Rightarrow> int \<Rightarrow> int \<times> int" where
  "nine_times_limits multiple base = (base div multiple + 1, base * multiple - 1)"

fun range_limits :: "price_range \<Rightarrow> int \<Rightarrow> int \<times> int" where
  "range_limits (Ladder t) base = limits_for t base"
| "range_limits (CircuitFilter percent) base = circuit_limits percent base"
| "range_limits (NineTimesRule multiple) base = nine_times_limits multiple base"

subsection \<open>The tick table\<close>

type_synonym tick_row = "(string option \<times> int) list"

record tick_table =
  tt_bounds :: "int list"
  tt_ticks :: "tick_row list"
  tt_name :: string

definition make_tick_table :: "(int \<times> tick_row) list \<Rightarrow> string \<Rightarrow> exn + tick_table" where
  "make_tick_table rows name =
     (let ordered = sort_key fst rows
      in if ordered = [] then Inl ReferenceDataError
         else Inr \<lparr>tt_bounds = map fst ordered, tt_ticks = map snd ordered, tt_name = name\<rparr>)"

definition tick_for :: "tick_table \<Rightarrow> int \<Rightarrow> string option \<Rightarrow> exn + int" where
  "tick_for t price tier =
     (let row = tt_ticks t ! threshold_index (tt_bounds t) price
      in case map_of row tier of
           Some tick \<Rightarrow> Inr tick
         | None \<Rightarrow> (case map_of row None of Some tick \<Rightarrow> Inr tick | None \<Rightarrow> Inl ReferenceDataError))"

subsection \<open>Instruments\<close>

record instrument =
  in_symbol :: string
  in_name :: string
  in_lot_size :: int
  in_shares_outstanding :: int
  in_base_price :: "int option"
  in_tier :: "string option"
  in_band_table :: "price_range option"
  in_tick_table :: "tick_table option"
  in_band_override :: "(int \<times> int) option"
  in_tradable :: bool
  in_signed_price :: bool

definition make_instrument ::
    "string \<Rightarrow> string \<Rightarrow> int \<Rightarrow> int \<Rightarrow> int option \<Rightarrow> string option \<Rightarrow> price_range option \<Rightarrow>
     tick_table option \<Rightarrow> bool \<Rightarrow> bool \<Rightarrow> instrument" where
  "make_instrument sy name lot shares base tier bands ticks tradable signed =
     \<lparr>in_symbol = sy, in_name = name, in_lot_size = (if lot = 0 then 1 else lot),
      in_shares_outstanding = shares, in_base_price = base, in_tier = tier,
      in_band_table = bands, in_tick_table = ticks, in_band_override = None,
      in_tradable = tradable, in_signed_price = signed\<rparr>"

definition price_limits :: "instrument \<Rightarrow> (int \<times> int) option" where
  "price_limits i =
     (case in_band_override i of
        Some l \<Rightarrow> Some l
      | None \<Rightarrow>
          (case (in_base_price i, in_band_table i) of
             (Some base, Some t) \<Rightarrow> Some (range_limits t base)
           | _ \<Rightarrow> None))"

definition is_within_band :: "instrument \<Rightarrow> int \<Rightarrow> bool" where
  "is_within_band i price =
     (case price_limits i of None \<Rightarrow> True | Some (low, high) \<Rightarrow> low \<le> price \<and> price \<le> high)"

definition tick_size :: "instrument \<Rightarrow> int \<Rightarrow> exn + int option" where
  "tick_size i price =
     (case in_tick_table i of None \<Rightarrow> Inr None
      | Some t \<Rightarrow> bind_exn (tick_for t price (in_tier i)) (\<lambda>tick. Inr (Some tick)))"

definition tick_divides :: "int option \<Rightarrow> int \<Rightarrow> bool" where
  "tick_divides tick price =
     (case tick of None \<Rightarrow> True | Some t \<Rightarrow> (if t = 0 then True else price mod t = 0))"

definition is_on_tick :: "instrument \<Rightarrow> int \<Rightarrow> exn + bool" where
  "is_on_tick i price = bind_exn (tick_size i price) (\<lambda>tick. Inr (tick_divides tick price))"

definition is_round_lot :: "instrument \<Rightarrow> int \<Rightarrow> bool" where
  "is_round_lot i quantity \<longleftrightarrow> quantity mod in_lot_size i = 0"

definition instrument_max_quantity :: "instrument \<Rightarrow> int option" where
  "instrument_max_quantity i =
     (if in_shares_outstanding i = 0 then None else Some (in_shares_outstanding i div 20))"

subsection \<open>The listing order of symbols\<close>

text \<open>
  \<open>str.isdigit\<close> also accepts the three superscript digits, which \<open>int\<close> refuses: for a
  symbol made of digits and at least one of them \<open>symbol_key\<close> raises.
\<close>

definition is_py_digit :: "char \<Rightarrow> bool" where
  "is_py_digit c \<longleftrightarrow> is_digit c \<or> (of_char c :: nat) \<in> {178, 179, 185}"

definition symbol_key :: "string \<Rightarrow> exn + nat \<times> nat \<times> string" where
  "symbol_key sy =
     (if sy \<noteq> [] \<and> (\<forall>c \<in> set sy. is_py_digit c)
      then (if \<forall>c \<in> set sy. is_digit c then Inr (0, nat_of_digits sy, []) else Inl ValueError)
      else Inr (1, 0, sy))"

subsection \<open>Loading reference data\<close>

text \<open>\<open>_uncommented\<close>: what of a file the reader sees.\<close>

definition uncommented :: "string list \<Rightarrow> string list" where
  "uncommented ls = filter (\<lambda>l. strip l \<noteq> [] \<and> hd (strip l) \<noteq> CHR ''#'') ls"

text \<open>\<open>int(text)\<close> on the text of an integer; a single underscore may separate digits.\<close>

fun underscores_ok :: "bool \<Rightarrow> string \<Rightarrow> bool" where
  "underscores_ok after_digit [] = after_digit"
| "underscores_ok after_digit (c # cs) =
     (if c = CHR ''_'' then after_digit \<and> underscores_ok False cs
      else is_digit c \<and> underscores_ok True cs)"

definition int_of_text :: "string \<Rightarrow> exn + int" where
  "int_of_text t =
     (case take_sign (strip t) of (neg, ds) \<Rightarrow>
       (if \<not> underscores_ok False ds then Inl ValueError
        else (let n = int (nat_of_digits (filter (\<lambda>c. c \<noteq> CHR ''_'') ds))
              in Inr (if neg then - n else n))))"

text \<open>
  A row of the file as \<open>csv.DictReader\<close> delivers it: a column is absent, or present
  without a value (a row shorter than the header), or has a value.
\<close>

type_synonym csv_row = "(string \<times> string option) list"

definition cell :: "csv_row \<Rightarrow> string \<Rightarrow> string option" where
  "cell r c = (case map_of r c of None \<Rightarrow> None | Some v \<Rightarrow> v)"

text \<open>\<open>record.get(column, "").strip()\<close>, which raises on a column without a value.\<close>

definition stripped_cell :: "csv_row \<Rightarrow> string \<Rightarrow> exn + string" where
  "stripped_cell r c =
     (case map_of r c of None \<Rightarrow> Inr [] | Some None \<Rightarrow> Inl AttributeError | Some (Some v) \<Rightarrow> Inr (strip v))"

definition parse_cell :: "price_codec \<Rightarrow> csv_row \<Rightarrow> string \<Rightarrow> exn + int" where
  "parse_cell c r col = parse_price c (show_opt (cell r col))"

definition int_or :: "string option \<Rightarrow> int \<Rightarrow> int" where
  "int_or value dflt =
     (case value of None \<Rightarrow> dflt
      | Some t \<Rightarrow> (case int_of_text t of Inl _ \<Rightarrow> dflt | Inr n \<Rightarrow> n))"

definition lower_char :: "char \<Rightarrow> char" where
  "lower_char c = (let n = (of_char c :: nat) in if 65 \<le> n \<and> n \<le> 90 then char_of (n + 32) else c)"

definition bool_or :: "string option \<Rightarrow> bool \<Rightarrow> bool" where
  "bool_or value dflt =
     (let t = (case value of None \<Rightarrow> [] | Some v \<Rightarrow> map lower_char (strip v))
      in if t \<in> {''y'', ''yes'', ''true'', ''1''} then True
         else if t \<in> {''n'', ''no'', ''false'', ''0''} then False
         else dflt)"

definition load_band_rows :: "price_codec \<Rightarrow> csv_row list \<Rightarrow> string \<Rightarrow> exn + band_table" where
  "load_band_rows c rows name =
     bind_exn (map_exn (\<lambda>r. bind_exn (parse_cell c r ''lower_bound'') (\<lambda>lb.
         bind_exn (parse_cell c r ''band'') (\<lambda>b. Inr (lb, b)))) rows)
       (\<lambda>parsed. make_band_table parsed name)"

text \<open>\<open>grouped.setdefault(bound, {})[tier] = tick\<close>, over an insertion-ordered dictionary.\<close>

definition group_tick :: "int \<Rightarrow> string option \<Rightarrow> int \<Rightarrow> (int \<times> tick_row) list \<Rightarrow> (int \<times> tick_row) list" where
  "group_tick bound tier tick g =
     AList.update bound (AList.update tier tick (case map_of g bound of None \<Rightarrow> [] | Some row \<Rightarrow> row)) g"

definition tier_of_cell :: "string option \<Rightarrow> string option" where
  "tier_of_cell v =
     (let t = strip (case v of None \<Rightarrow> [] | Some t \<Rightarrow> t) in if t = [] then None else Some t)"

fun load_tick_loop :: "price_codec \<Rightarrow> csv_row list \<Rightarrow> (int \<times> tick_row) list \<Rightarrow> exn + (int \<times> tick_row) list" where
  "load_tick_loop c [] g = Inr g"
| "load_tick_loop c (r # rs) g =
     bind_exn (parse_cell c r ''lower_bound'') (\<lambda>bound.
       bind_exn (parse_cell c r ''tick'') (\<lambda>tick.
         load_tick_loop c rs (group_tick bound (tier_of_cell (cell r ''tier'')) tick g)))"

definition load_tick_rows :: "price_codec \<Rightarrow> csv_row list \<Rightarrow> string \<Rightarrow> exn + tick_table" where
  "load_tick_rows c rows name =
     bind_exn (load_tick_loop c rows []) (\<lambda>g. make_tick_table (sort_key fst g) name)"

fun load_instrument_rows ::
    "price_codec \<Rightarrow> price_range option \<Rightarrow> tick_table option \<Rightarrow> csv_row list \<Rightarrow>
     (string \<times> instrument) list \<Rightarrow> exn + (string \<times> instrument) list" where
  "load_instrument_rows c bands ticks [] acc = Inr acc"
| "load_instrument_rows c bands ticks (r # rs) acc =
     bind_exn (stripped_cell r ''symbol'') (\<lambda>sy.
       if sy = [] then load_instrument_rows c bands ticks rs acc
       else bind_exn (stripped_cell r ''base_price'') (\<lambda>base_text.
         bind_exn (stripped_cell r ''name'') (\<lambda>name.
         bind_exn (if base_text = [] then Inr None
                   else bind_exn (parse_price c base_text) (\<lambda>p. Inr (Some p))) (\<lambda>base.
         bind_exn (stripped_cell r ''tier'') (\<lambda>tier.
           load_instrument_rows c bands ticks rs
             (AList.update sy
               (make_instrument sy name (int_or (cell r ''lot_size'') 100)
                  (int_or (cell r ''shares_outstanding'') 0) base
                  (if tier = [] then None else Some tier) bands ticks
                  (bool_or (cell r ''tradable'') True) False) acc))))))"

subsection \<open>The ladder lookup finds the greatest bound not above the price\<close>

lemma threshold_index_spec:
  assumes "sorted bounds" and "bounds \<noteq> []"
  shows "threshold_index bounds p < length bounds"
    and "bounds ! 0 \<le> p \<Longrightarrow> bounds ! threshold_index bounds p \<le> p"
    and "threshold_index bounds p < j \<Longrightarrow> j < length bounds \<Longrightarrow> p < bounds ! j"
proof -
  let ?i = "bisect_right bounds p"
  have split: "take ?i bounds = filter (\<lambda>x. x \<le> p) bounds" "drop ?i bounds = filter (\<lambda>x. \<not> x \<le> p) bounds"
    using bisect_right_split [OF assms(1), of p] by simp_all
  have le: "?i \<le> length bounds" by (rule bisect_right_le_length [OF assms(1)])
  then show idx: "threshold_index bounds p < length bounds"
    using assms(2) by (auto simp: threshold_index_def Let_def)
  have upto: "bounds ! k \<le> p" if "k < ?i" for k
  proof -
    have "take ?i bounds ! k \<in> set (take ?i bounds)" using that le by (intro nth_mem) simp
    then have "bounds ! k \<in> set (take ?i bounds)" using that by (simp only: nth_take)
    then show ?thesis by (simp only: split(1)) simp
  qed
  have after: "p < bounds ! k" if "?i \<le> k" "k < length bounds" for k
  proof -
    have "drop ?i bounds ! (k - ?i) \<in> set (drop ?i bounds)" using that by (intro nth_mem) simp
    moreover have "drop ?i bounds ! (k - ?i) = bounds ! k" using that by (simp add: nth_drop)
    ultimately have "bounds ! k \<in> set (drop ?i bounds)" by simp
    then show ?thesis by (simp only: split(2)) simp
  qed
  show "bounds ! threshold_index bounds p \<le> p" if "bounds ! 0 \<le> p"
  proof (cases "?i = 0")
    case True
    then show ?thesis using that by (simp add: threshold_index_def)
  next
    case False
    then show ?thesis using upto [of "?i - 1"] by (simp add: threshold_index_def Let_def)
  qed
  show "p < bounds ! j" if "threshold_index bounds p < j" "j < length bounds"
    using after [of j] that by (auto simp: threshold_index_def Let_def split: if_splits)
qed

definition band_table_ok :: "band_table \<Rightarrow> bool" where
  "band_table_ok t \<longleftrightarrow> sorted (bt_bounds t) \<and> bt_bounds t \<noteq> [] \<and> hd (bt_bounds t) = 0 \<and>
     length (bt_bands t) = length (bt_bounds t)"

lemma make_band_table_ok:
  assumes "make_band_table rows name = Inr t"
  shows "band_table_ok t"
    and "set (zip (bt_bounds t) (bt_bands t)) = set rows"
proof -
  have s: "sorted (map fst (sort_key fst rows))" by simp
  with assms show "band_table_ok t"
    by (auto simp: make_band_table_def band_table_ok_def Let_def split: if_splits)
  have "zip (map fst xs) (map snd xs) = xs" for xs :: "(int \<times> int) list"
    by (induction xs) simp_all
  with assms show "set (zip (bt_bounds t) (bt_bands t)) = set rows"
    by (auto simp: make_band_table_def Let_def split: if_splits)
qed

text \<open>The band of a price is that of a row of the table whose bound is the greatest not above it.\<close>

lemma band_for_spec:
  assumes ok: "band_table_ok t" and p: "0 \<le> p"
  shows "\<exists>b. (b, band_for t p) \<in> set (zip (bt_bounds t) (bt_bands t)) \<and> b \<le> p \<and>
    (\<forall>b' \<in> set (bt_bounds t). b' \<le> p \<longrightarrow> b' \<le> b)"
proof -
  from ok have s: "sorted (bt_bounds t)" "bt_bounds t \<noteq> []" "bt_bounds t ! 0 = 0"
      "length (bt_bands t) = length (bt_bounds t)"
    by (auto simp: band_table_ok_def hd_conv_nth)
  let ?i = "threshold_index (bt_bounds t) p"
  note ti = threshold_index_spec [OF s(1,2), of p]
  have "(bt_bounds t ! ?i, band_for t p) \<in> set (zip (bt_bounds t) (bt_bands t))"
    using ti(1) s(4) by (auto simp: band_for_def in_set_zip)
  moreover have "b' \<le> bt_bounds t ! ?i" if m: "b' \<in> set (bt_bounds t)" "b' \<le> p" for b'
  proof -
    obtain j where j: "j < length (bt_bounds t)" "bt_bounds t ! j = b'"
      using m(1) unfolding in_set_conv_nth by blast
    have "j \<le> ?i" by (rule ccontr) (use ti(3) [of j] j m(2) in simp)
    then show ?thesis using sorted_nth_mono [OF s(1) _ ti(1), of j] j(2) by simp
  qed
  moreover have "bt_bounds t ! ?i \<le> p" using ti(2) s(3) p by simp
  ultimately show ?thesis by blast
qed

text \<open>A price inside its band, and the lower limit is a price.\<close>

lemma limits_for_bounds:
  "limits_for t base = (low, high) \<Longrightarrow> 1 \<le> low \<and> high - base = band_for t base \<and>
     (base - band_for t base \<ge> 1 \<longrightarrow> base - low = band_for t base)"
  by (auto simp: limits_for_def Let_def)

text \<open>Numeric symbols sort as numbers and before every other symbol.\<close>

lemma symbol_key_number:
  "symbol_key (string_of_nat n) = Inr (0, n, [])"
  using string_of_nat_all_digits [of n] by (auto simp: symbol_key_def is_py_digit_def)

end
