(* ===== verification/Phases.thy ===== *)
theory Phases
  imports Events Prelude
begin

section \<open>The market phase state machine (\<open>core/trading_state.py\<close>)\<close>

text \<open>
  A market has a phase and an instrument may override it. Transitions are commands whose
  argument is text; the text is upper-cased and must name a phase. Overrides are a
  dictionary, whose order decides the order of the events that clearing all of them emits.
\<close>

record state_machine =
  sm_market :: string
  sm_state :: trading_state
  sm_overrides :: "(string \<times> trading_state) list"

definition new_state_machine :: "string \<Rightarrow> trading_state \<Rightarrow> state_machine" where
  "new_state_machine mkt initial = \<lparr>sm_market = mkt, sm_state = initial, sm_overrides = []\<rparr>"

subsection \<open>Queries\<close>

definition state_for :: "state_machine \<Rightarrow> string \<Rightarrow> trading_state" where
  "state_for m sy = (case map_of (sm_overrides m) sy of None \<Rightarrow> sm_state m | Some st \<Rightarrow> st)"

definition has_override :: "state_machine \<Rightarrow> string \<Rightarrow> bool" where
  "has_override m sy \<longleftrightarrow> map_of (sm_overrides m) sy \<noteq> None"

definition allows_entry :: "state_machine \<Rightarrow> string \<Rightarrow> bool" where
  "allows_entry m sy \<longleftrightarrow> state_for m sy \<notin> no_entry_states"

definition allows_matching :: "state_machine \<Rightarrow> string \<Rightarrow> bool" where
  "allows_matching m sy \<longleftrightarrow> state_for m sy \<in> continuous_states"

definition is_accumulating :: "state_machine \<Rightarrow> string \<Rightarrow> bool" where
  "is_accumulating m sy \<longleftrightarrow> state_for m sy \<in> accumulating_states"

subsection \<open>Transitions\<close>

definition validate_state :: "string \<Rightarrow> exn + trading_state" where
  "validate_state t =
     (case find (\<lambda>st. show_state st = upper t) trading_state_order of
        None \<Rightarrow> Inl ValueError | Some st \<Rightarrow> Inr st)"

definition set_market_state :: "string \<Rightarrow> state_machine \<Rightarrow> exn + state_machine \<times> event list" where
  "set_market_state t m =
     bind_exn (validate_state t) (\<lambda>st.
       if sm_state m = st then Inr (m, [])
       else Inr (m\<lparr>sm_state := st\<rparr>, [TradingStateChanged (sm_market m) None (sm_state m) st]))"

definition set_instrument_state ::
    "string \<Rightarrow> string \<Rightarrow> state_machine \<Rightarrow> exn + state_machine \<times> event list" where
  "set_instrument_state sy t m =
     bind_exn (validate_state t) (\<lambda>st.
       let previous = state_for m sy
       in if previous = st \<and> has_override m sy then Inr (m, [])
          else Inr (m\<lparr>sm_overrides := AList.update sy st (sm_overrides m)\<rparr>,
                    [TradingStateChanged (sm_market m) (Some sy) previous st]))"

definition clear_instrument_state :: "string \<Rightarrow> state_machine \<Rightarrow> state_machine \<times> event list" where
  "clear_instrument_state sy m =
     (case map_of (sm_overrides m) sy of None \<Rightarrow> (m, [])
      | Some previous \<Rightarrow>
          (m\<lparr>sm_overrides := AList.delete sy (sm_overrides m)\<rparr>,
           if previous = sm_state m then []
           else [TradingStateChanged (sm_market m) (Some sy) previous (sm_state m)]))"

fun clear_overrides :: "string list \<Rightarrow> state_machine \<Rightarrow> state_machine \<times> event list" where
  "clear_overrides [] m = (m, [])"
| "clear_overrides (sy # sys) m =
     (case clear_instrument_state sy m of (m1, evs) \<Rightarrow>
       (case clear_overrides sys m1 of (m2, evs') \<Rightarrow> (m2, evs @ evs')))"

definition clear_all_overrides :: "state_machine \<Rightarrow> state_machine \<times> event list" where
  "clear_all_overrides m = clear_overrides (map fst (sm_overrides m)) m"

subsection \<open>Naming a phase\<close>

lemma upper_char_idem [simp]: "upper_char (upper_char c) = upper_char c"
  by (auto simp: upper_char_def Let_def)

lemma upper_idem [simp]: "upper (upper t) = upper t"
  by (simp add: upper_def)

lemma upper_show_state: "upper (show_state st) = show_state st"
  by (cases st) (simp_all add: upper_def upper_char_def)

lemma validate_state_show [simp]: "validate_state (show_state st) = Inr st"
  by (simp only: validate_state_def upper_show_state show_state_inject)
    (cases st; simp add: trading_state_order_def)

lemma validate_state_Inr: "validate_state t = Inr st \<longleftrightarrow> upper t = show_state st"
proof
  assume "validate_state t = Inr st"
  then show "upper t = show_state st"
    by (auto simp: validate_state_def find_Some_iff split: option.splits)
next
  assume a: "upper t = show_state st"
  then have "validate_state t = validate_state (show_state st)"
    by (simp add: validate_state_def upper_show_state)
  then show "validate_state t = Inr st" by simp
qed

text \<open>A phase is written by its name and read back by \<open>_validate\<close>.\<close>

interpretation phase_names: round_trip_codec "\<lambda>st. Inr (show_state st)" validate_state
  by unfold_locales auto

subsection \<open>The effective phase after each transition\<close>

text \<open>Exactly one of entering-and-matching, accumulating and refusing holds.\<close>

lemma phase_trichotomy:
  "allows_matching m sy \<or> is_accumulating m sy \<or> \<not> allows_entry m sy"
  "allows_matching m sy \<Longrightarrow> allows_entry m sy \<and> \<not> is_accumulating m sy"
  "is_accumulating m sy \<Longrightarrow> allows_entry m sy"
  using trading_state_partition(1) [of "state_for m sy"] trading_state_partition(2-4)
  by (auto simp: allows_matching_def is_accumulating_def allows_entry_def)

lemma state_for_set_instrument:
  assumes "set_instrument_state sy t m = Inr (m', evs)"
  shows "upper t = show_state (state_for m' sy)" and "has_override m' sy"
    and "sy' \<noteq> sy \<Longrightarrow> state_for m' sy' = state_for m sy'" and "sm_state m' = sm_state m"
    and "evs = [] \<longleftrightarrow> has_override m sy \<and> state_for m sy = state_for m' sy"
    and "evs = [] \<Longrightarrow> m' = m"
    and "e \<in> set evs \<Longrightarrow> e = TradingStateChanged (sm_market m) (Some sy) (state_for m sy) (state_for m' sy)"
  using assms
  by (auto simp: set_instrument_state_def bind_exn_Inr validate_state_Inr Let_def state_for_def
      has_override_def map_of_update_eq split: if_splits option.splits)

lemma state_for_set_market:
  assumes "set_market_state t m = Inr (m', evs)"
  shows "upper t = show_state (sm_state m')" and "sm_overrides m' = sm_overrides m"
    and "state_for m' sy = (if has_override m sy then state_for m sy else sm_state m')"
    and "evs = (if sm_state m' = sm_state m then []
      else [TradingStateChanged (sm_market m) None (sm_state m) (sm_state m')])"
  using assms
  by (auto simp: set_market_state_def bind_exn_Inr validate_state_Inr state_for_def has_override_def
      split: if_splits option.splits)

lemma state_for_clear:
  assumes "clear_instrument_state sy m = (m', evs)"
  shows "state_for m' sy = sm_state m" and "\<not> has_override m' sy"
    and "sy' \<noteq> sy \<Longrightarrow> state_for m' sy' = state_for m sy'"
    and "sm_state m' = sm_state m" and "sm_market m' = sm_market m"
    and "evs = (if state_for m sy = sm_state m then []
      else [TradingStateChanged (sm_market m) (Some sy) (state_for m sy) (sm_state m)])"
  using assms
  by (auto simp: clear_instrument_state_def state_for_def has_override_def map_of_delete_eq
      split: option.splits if_splits)

lemma clear_overrides_result:
  "clear_overrides sys m = (m', evs) \<Longrightarrow>
     sm_state m' = sm_state m \<and> sm_market m' = sm_market m \<and>
     (\<forall>sy. state_for m' sy = (if sy \<in> set sys then sm_state m else state_for m sy))"
proof (induction sys arbitrary: m m' evs)
  case Nil
  then show ?case by simp
next
  case (Cons sy sys)
  obtain m1 e1 where 1: "clear_instrument_state sy m = (m1, e1)" by fastforce
  obtain m2 e2 where 2: "clear_overrides sys m1 = (m2, e2)" by fastforce
  from Cons.prems 1 2 have "m' = m2" by simp
  with Cons.IH [OF 2] state_for_clear [OF 1] show ?case by auto
qed

text \<open>Once every override is cleared, the whole market is in one phase.\<close>

lemma clear_all_result:
  assumes "clear_all_overrides m = (m', evs)"
  shows "state_for m' sy = sm_state m"
proof -
  have "state_for m' sy = (if sy \<in> set (map fst (sm_overrides m)) then sm_state m else state_for m sy)"
    using clear_overrides_result [OF assms [unfolded clear_all_overrides_def]] by blast
  moreover have "state_for m sy = sm_state m" if "sy \<notin> set (map fst (sm_overrides m))"
    using that by (simp add: state_for_def map_of_eq_None_iff [THEN iffD2])
  ultimately show ?thesis by auto
qed

end
