(* ===== verification/Validation.thy ===== *)
theory Validation
  imports Instruments Phases Book_Queue
begin

section \<open>Order validation (\<open>core/validation.py\<close>)\<close>

text \<open>
  The checks run in a fixed order and the first failure is the answer. Each check
  returns a rejection or nothing; the texts carry prices, and writing a price may raise,
  so every check that writes one returns \<open>exn + rejection option\<close>. The theorems say what
  a clean bill means, check by check, and that each reason is given only when it is true.
\<close>

record rejection =
  rj_reason :: reject_reason
  rj_text :: string

definition reject :: "reject_reason \<Rightarrow> string \<Rightarrow> exn + rejection option" where
  "reject r t = Inr (Some \<lparr>rj_reason = r, rj_text = t\<rparr>)"

record validation_limits =
  vl_max_order_value :: "int option"
  vl_max_quantity :: "int option"
  vl_require_round_lot :: bool
  vl_require_tick :: bool
  vl_enforce_price_band :: bool
  vl_allowed_order_types :: "order_type set"
  vl_allowed_time_in_force :: "time_in_force set"
  vl_min_qty_requires_ioc :: bool
  vl_max_quotation_spreads :: "int option"
  vl_max_aggression_spreads :: "int option"

text \<open>The constructor's defaults for the two sets: an empty argument means the default.\<close>

definition make_limits ::
    "int option \<Rightarrow> int option \<Rightarrow> bool \<Rightarrow> bool \<Rightarrow> bool \<Rightarrow> order_type set \<Rightarrow> time_in_force set \<Rightarrow> bool \<Rightarrow>
     int option \<Rightarrow> int option \<Rightarrow> validation_limits" where
  "make_limits value quantity lot tick band types tifs ioc quotation aggression =
     \<lparr>vl_max_order_value = value, vl_max_quantity = quantity, vl_require_round_lot = lot,
      vl_require_tick = tick, vl_enforce_price_band = band,
      vl_allowed_order_types = (if types = {} then {LIMIT} else types),
      vl_allowed_time_in_force = (if tifs = {} then {DAY, IOC, FOK} else tifs),
      vl_min_qty_requires_ioc = ioc, vl_max_quotation_spreads = quotation,
      vl_max_aggression_spreads = aggression\<rparr>"

record validator =
  va_codec :: price_codec
  va_limits :: validation_limits

text \<open>The truth of an optional number: absent and zero are both false.\<close>

definition truthy_int :: "int option \<Rightarrow> bool" where
  "truthy_int n = (case n of None \<Rightarrow> False | Some k \<Rightarrow> k \<noteq> 0)"

text \<open>The next check runs only when this one found nothing.\<close>

definition and_then :: "exn + rejection option \<Rightarrow> (unit \<Rightarrow> exn + rejection option) \<Rightarrow> exn + rejection option" where
  "and_then check following =
     bind_exn check (\<lambda>failure. case failure of None \<Rightarrow> following () | Some r \<Rightarrow> Inr (Some r))"

lemma and_then_clean [simp]: "and_then c f = Inr None \<longleftrightarrow> c = Inr None \<and> f () = Inr None"
  by (cases c) (auto simp: and_then_def split: option.splits)

lemma and_then_reject:
  "and_then c f = Inr (Some r) \<longleftrightarrow> c = Inr (Some r) \<or> c = Inr None \<and> f () = Inr (Some r)"
  by (cases c) (auto simp: and_then_def split: option.splits)

lemma reject_simps [simp]:
  "reject r t \<noteq> Inr None"
  "reject r t \<noteq> Inl e"
  "reject r t = Inr (Some j) \<longleftrightarrow> j = \<lparr>rj_reason = r, rj_text = t\<rparr>"
  by (auto simp: reject_def)

subsection \<open>The checks\<close>

definition check_characteristics :: "validation_limits \<Rightarrow> order \<Rightarrow> exn + rejection option" where
  "check_characteristics l y =
     (if (case o_order_type y of None \<Rightarrow> True | Some t \<Rightarrow> t \<notin> vl_allowed_order_types l)
      then reject RR_UNSUPPORTED_CHARACTERISTIC
             (''order type '' @ show_order_type (o_order_type y) @ '' is not supported'')
      else if o_time_in_force y \<notin> vl_allowed_time_in_force l
      then reject RR_UNSUPPORTED_CHARACTERISTIC
             (''time in force '' @ show_tif (o_time_in_force y) @ '' is not supported'')
      else if o_min_qty y \<noteq> 0 \<and> vl_min_qty_requires_ioc l \<and> o_time_in_force y \<noteq> IOC
      then reject RR_UNSUPPORTED_CHARACTERISTIC ''MinQty is only valid with an IOC order''
      else if o_min_qty y \<noteq> 0 \<and> o_min_qty y > o_quantity y
      then reject RR_INVALID_QUANTITY
             (''MinQty '' @ string_of_int (o_min_qty y) @ '' exceeds the order quantity '' @
              string_of_int (o_quantity y))
      else if POST_ONLY \<in> o_exec_inst y \<and> o_time_in_force y \<in> immediate_tif
      then reject RR_UNSUPPORTED_CHARACTERISTIC
             (''a post-only order cannot be '' @ show_tif (o_time_in_force y))
      else Inr None)"

definition check_quantity :: "validation_limits \<Rightarrow> instrument \<Rightarrow> int \<Rightarrow> exn + rejection option" where
  "check_quantity l i q =
     (if q \<le> 0 then reject RR_INVALID_QUANTITY ''quantity must be positive''
      else if vl_require_round_lot l \<and> \<not> is_round_lot i q
      then reject RR_INVALID_QUANTITY
             (''quantity '' @ string_of_int q @ '' is not a multiple of the lot size '' @
              string_of_int (in_lot_size i))
      else if (case instrument_max_quantity i of None \<Rightarrow> False | Some m \<Rightarrow> m \<noteq> 0 \<and> q > m)
      then reject RR_EXCEEDS_QUANTITY_LIMIT
             (''quantity '' @ string_of_int q @ '' exceeds '' @
              (case instrument_max_quantity i of None \<Rightarrow> [] | Some m \<Rightarrow> string_of_int m) @
              '', being 5% of shares outstanding'')
      else if (case vl_max_quantity l of None \<Rightarrow> False | Some m \<Rightarrow> m \<noteq> 0 \<and> q > m)
      then reject RR_EXCEEDS_QUANTITY_LIMIT
             (''quantity '' @ string_of_int q @ '' exceeds the venue limit of '' @
              (case vl_max_quantity l of None \<Rightarrow> [] | Some m \<Rightarrow> string_of_int m))
      else Inr None)"

definition check_tick ::
    "price_codec \<Rightarrow> validation_limits \<Rightarrow> instrument \<Rightarrow> int \<Rightarrow> exn + rejection option" where
  "check_tick c l i p =
     (if \<not> vl_require_tick l then Inr None
      else bind_exn (tick_size i p) (\<lambda>tick.
        if tick_divides tick p then Inr None
        else bind_exn (format_price c p) (\<lambda>pt.
          bind_exn (format_price c (case tick of None \<Rightarrow> 0 | Some t \<Rightarrow> t)) (\<lambda>tt.
            reject RR_TICK_SIZE
              (''price '' @ pt @ '' is not a multiple of the tick size '' @ tt)))))"

definition check_band ::
    "price_codec \<Rightarrow> validation_limits \<Rightarrow> order \<Rightarrow> instrument \<Rightarrow> int \<Rightarrow> exn + rejection option" where
  "check_band c l y i p =
     (if vl_enforce_price_band l \<and> IGNORE_PRICE_CHECK \<notin> o_exec_inst y \<and> \<not> is_within_band i p
      then (case price_limits i of None \<Rightarrow> Inl TypeError
            | Some (low, high) \<Rightarrow>
                bind_exn (format_price c p) (\<lambda>pt.
                  bind_exn (format_price c low) (\<lambda>lt.
                    bind_exn (format_price c high) (\<lambda>ht.
                      reject RR_PRICE_OUTSIDE_BAND
                        (''price '' @ pt @ '' is outside the permitted range '' @ lt @
                         '' to '' @ ht)))))
      else Inr None)"

definition check_price ::
    "price_codec \<Rightarrow> validation_limits \<Rightarrow> order \<Rightarrow> instrument \<Rightarrow> int \<Rightarrow> exn + rejection option" where
  "check_price c l y i p =
     (if p \<le> 0 \<and> \<not> in_signed_price i then reject RR_INVALID_PRICE ''price must be positive''
      else and_then (check_tick c l i p) (\<lambda>_. check_band c l y i p))"

definition check_value :: "validator \<Rightarrow> order \<Rightarrow> int \<Rightarrow> int \<Rightarrow> exn + rejection option" where
  "check_value v y p q =
     (case vl_max_order_value (va_limits v) of
        None \<Rightarrow> Inr None
      | Some m \<Rightarrow>
          (if m \<noteq> 0 \<and> IGNORE_NOTIONAL_CHECK \<notin> o_exec_inst y \<and> notional (va_codec v) p q > m
           then reject RR_EXCEEDS_VALUE_LIMIT
                  (''order value '' @ string_of_int (notional (va_codec v) p q) @
                   '' exceeds the limit of '' @ string_of_int m)
           else Inr None))"

definition check_size_and_price ::
    "validator \<Rightarrow> order \<Rightarrow> instrument \<Rightarrow> int option \<Rightarrow> int option \<Rightarrow> exn + rejection option" where
  "check_size_and_price v y i new_quantity new_price =
     (let q = (case new_quantity of None \<Rightarrow> o_quantity y | Some n \<Rightarrow> n);
          price = or_else new_price (o_price y)
      in and_then (check_quantity (va_limits v) i q) (\<lambda>_.
           if o_order_type y = Some LIMIT \<and> price = None
           then reject RR_INVALID_PRICE ''a limit order requires a price''
           else (case price of None \<Rightarrow> Inr None
                 | Some p \<Rightarrow>
                     and_then (check_price (va_codec v) (va_limits v) y i p)
                       (\<lambda>_. check_value v y p q))))"

definition quotation_text ::
    "price_codec \<Rightarrow> int \<Rightarrow> int \<Rightarrow> string \<Rightarrow> string \<Rightarrow> int \<Rightarrow> exn + rejection option" where
  "quotation_text c p spreads how which best =
     bind_exn (format_price c p) (\<lambda>pt. bind_exn (format_price c best) (\<lambda>bt.
       reject RR_PRICE_OUTSIDE_BAND
         (''price '' @ pt @ '' is more than '' @ string_of_int spreads @ '' spreads '' @ how @
          '' the best '' @ which @ '' of '' @ bt)))"

text \<open>The two bounds: behind the order's own best, and through the opposite best.\<close>

definition check_behind ::
    "price_codec \<Rightarrow> order \<Rightarrow> int option \<Rightarrow> int option \<Rightarrow> int \<Rightarrow> int \<Rightarrow> exn + rejection option" where
  "check_behind c y spreads same p tick =
     (case (spreads, same) of
        (Some n, Some best) \<Rightarrow>
          (if (if is_buy y then best - p else p - best) > n * tick
           then quotation_text c p n ''away from'' (if is_buy y then ''bid'' else ''ask'') best
           else Inr None)
      | _ \<Rightarrow> Inr None)"

definition check_through ::
    "price_codec \<Rightarrow> order \<Rightarrow> int option \<Rightarrow> int option \<Rightarrow> int \<Rightarrow> int \<Rightarrow> exn + rejection option" where
  "check_through c y spreads opposite p tick =
     (case (spreads, opposite) of
        (Some n, Some best) \<Rightarrow>
          (if (if is_buy y then p - best else best - p) > n * tick
           then quotation_text c p n ''through'' (if is_buy y then ''ask'' else ''bid'') best
           else Inr None)
      | _ \<Rightarrow> Inr None)"

definition check_quotation ::
    "validator \<Rightarrow> order \<Rightarrow> instrument \<Rightarrow> int option \<Rightarrow> order_book option \<Rightarrow> state_machine option \<Rightarrow>
     exn + rejection option" where
  "check_quotation v y i price book m =
     (let l = va_limits v
      in if vl_max_quotation_spreads l = None \<and> vl_max_aggression_spreads l = None then Inr None
         else (case (price, book) of
            (Some p, Some b) \<Rightarrow>
              (if (case m of None \<Rightarrow> False | Some sm \<Rightarrow> \<not> allows_matching sm (o_symbol y))
               then Inr None
               else bind_exn (tick_size i p) (\<lambda>tick.
                 if \<not> truthy_int tick then Inr None
                 else (let t = (case tick of None \<Rightarrow> 0 | Some t \<Rightarrow> t)
                       in and_then
                         (check_behind (va_codec v) y (vl_max_quotation_spreads l)
                            (best_price (book_side_of b (o_side y))) p t)
                         (\<lambda>_. check_through (va_codec v) y (vl_max_aggression_spreads l)
                            (best_price (book_opposite b (o_side y))) p t))))
          | _ \<Rightarrow> Inr None))"

subsection \<open>New orders and amendments\<close>

definition check_tradable ::
    "order \<Rightarrow> instrument option \<Rightarrow> state_machine option \<Rightarrow> exn + rejection option" where
  "check_tradable y inst m =
     (if (case inst of None \<Rightarrow> True | Some i \<Rightarrow> \<not> in_tradable i)
      then reject RR_UNKNOWN_SYMBOL
             (''unknown or untradable symbol '' @ [CHR 0x27] @ o_symbol y @ [CHR 0x27])
      else (case m of None \<Rightarrow> Inr None
            | Some sm \<Rightarrow>
                (if \<not> allows_entry sm (o_symbol y)
                 then reject RR_MARKET_CLOSED
                        (''market is '' @ show_state (state_for sm (o_symbol y)))
                 else Inr None)))"

definition validate_new ::
    "validator \<Rightarrow> order \<Rightarrow> instrument option \<Rightarrow> state_machine option \<Rightarrow> order_book option \<Rightarrow>
     exn + rejection option" where
  "validate_new v y inst m book =
     and_then (check_tradable y inst m) (\<lambda>_.
       case inst of None \<Rightarrow> Inl AttributeError
       | Some i \<Rightarrow>
           and_then (check_characteristics (va_limits v) y) (\<lambda>_.
             and_then (check_size_and_price v y i (Some (o_quantity y)) (o_price y)) (\<lambda>_.
               check_quotation v y i (o_price y) book m)))"

definition validate_amend ::
    "validator \<Rightarrow> order \<Rightarrow> instrument option \<Rightarrow> state_machine option \<Rightarrow> int option \<Rightarrow> int option \<Rightarrow>
     exn + rejection option" where
  "validate_amend v y inst m new_quantity new_price =
     and_then (check_tradable y inst m) (\<lambda>_.
       case inst of None \<Rightarrow> Inl AttributeError
       | Some i \<Rightarrow>
           (if (case new_quantity of None \<Rightarrow> False | Some q \<Rightarrow> q \<le> o_cum_qty y)
            then reject RR_INVALID_QUANTITY
                   (''new quantity '' @
                    (case new_quantity of None \<Rightarrow> [] | Some q \<Rightarrow> string_of_int q) @
                    '' is not above the executed quantity '' @ string_of_int (o_cum_qty y))
            else check_size_and_price v y i new_quantity new_price))"

subsection \<open>What a clean bill means\<close>

text \<open>The venue's restrictions, stated without an order of checks.\<close>

definition size_acceptable :: "validation_limits \<Rightarrow> instrument \<Rightarrow> int \<Rightarrow> bool" where
  "size_acceptable l i q \<longleftrightarrow> 0 < q \<and> (vl_require_round_lot l \<longrightarrow> is_round_lot i q) \<and>
     (\<forall>m. instrument_max_quantity i = Some m \<longrightarrow> m \<noteq> 0 \<longrightarrow> q \<le> m) \<and>
     (\<forall>m. vl_max_quantity l = Some m \<longrightarrow> m \<noteq> 0 \<longrightarrow> q \<le> m)"

definition price_acceptable :: "validation_limits \<Rightarrow> order \<Rightarrow> instrument \<Rightarrow> int \<Rightarrow> bool" where
  "price_acceptable l y i p \<longleftrightarrow> (0 < p \<or> in_signed_price i) \<and>
     (vl_require_tick l \<longrightarrow> is_on_tick i p = Inr True) \<and>
     (vl_enforce_price_band l \<longrightarrow> IGNORE_PRICE_CHECK \<notin> o_exec_inst y \<longrightarrow> is_within_band i p)"

definition value_acceptable :: "validator \<Rightarrow> order \<Rightarrow> int \<Rightarrow> int \<Rightarrow> bool" where
  "value_acceptable v y p q \<longleftrightarrow> IGNORE_NOTIONAL_CHECK \<in> o_exec_inst y \<or>
     (\<forall>m. vl_max_order_value (va_limits v) = Some m \<longrightarrow> m \<noteq> 0 \<longrightarrow> notional (va_codec v) p q \<le> m)"

definition terms_acceptable :: "validator \<Rightarrow> order \<Rightarrow> instrument \<Rightarrow> int \<Rightarrow> int option \<Rightarrow> bool" where
  "terms_acceptable v y i q price \<longleftrightarrow> size_acceptable (va_limits v) i q \<and>
     (o_order_type y = Some LIMIT \<longrightarrow> price \<noteq> None) \<and>
     (\<forall>p. price = Some p \<longrightarrow> price_acceptable (va_limits v) y i p \<and> value_acceptable v y p q)"

definition characteristics_acceptable :: "validation_limits \<Rightarrow> order \<Rightarrow> bool" where
  "characteristics_acceptable l y \<longleftrightarrow>
     (\<exists>t. o_order_type y = Some t \<and> t \<in> vl_allowed_order_types l) \<and>
     o_time_in_force y \<in> vl_allowed_time_in_force l \<and>
     (o_min_qty y \<noteq> 0 \<longrightarrow> o_min_qty y \<le> o_quantity y \<and>
        (vl_min_qty_requires_ioc l \<longrightarrow> o_time_in_force y = IOC)) \<and>
     \<not> (POST_ONLY \<in> o_exec_inst y \<and> is_immediate y)"

lemma check_characteristics_clean:
  "check_characteristics l y = Inr None \<longleftrightarrow> characteristics_acceptable l y"
  by (auto simp: check_characteristics_def characteristics_acceptable_def is_immediate_def
      split: option.splits if_splits)

lemma check_quantity_clean: "check_quantity l i q = Inr None \<longleftrightarrow> size_acceptable l i q"
  by (auto simp: check_quantity_def size_acceptable_def split: option.splits if_splits)

lemma check_tick_clean:
  "check_tick c l i p = Inr None \<longleftrightarrow> (vl_require_tick l \<longrightarrow> is_on_tick i p = Inr True)"
  by (cases "tick_size i p") (auto simp: check_tick_def is_on_tick_def bind_exn_Inr)

lemma check_band_clean:
  "check_band c l y i p = Inr None \<longleftrightarrow>
    (vl_enforce_price_band l \<longrightarrow> IGNORE_PRICE_CHECK \<notin> o_exec_inst y \<longrightarrow> is_within_band i p)"
  by (auto simp: check_band_def bind_exn_Inr split: option.splits)

lemma check_price_clean: "check_price c l y i p = Inr None \<longleftrightarrow> price_acceptable l y i p"
  by (auto simp: check_price_def price_acceptable_def check_tick_clean check_band_clean)

lemma check_value_clean: "check_value v y p q = Inr None \<longleftrightarrow> value_acceptable v y p q"
  by (auto simp: check_value_def value_acceptable_def split: option.splits)

lemma check_size_and_price_clean:
  "check_size_and_price v y i nq np = Inr None \<longleftrightarrow>
    terms_acceptable v y i (case nq of None \<Rightarrow> o_quantity y | Some n \<Rightarrow> n) (or_else np (o_price y))"
  by (cases "or_else np (o_price y)")
    (auto simp: check_size_and_price_def terms_acceptable_def Let_def
      check_quantity_clean check_price_clean check_value_clean)

lemma check_tradable_clean:
  "check_tradable y inst m = Inr None \<longleftrightarrow>
    (\<exists>i. inst = Some i \<and> in_tradable i) \<and> (\<forall>sm. m = Some sm \<longrightarrow> allows_entry sm (o_symbol y))"
  by (auto simp: check_tradable_def split: option.splits)

lemma validate_new_clean:
  "validate_new v y inst m book = Inr None \<longleftrightarrow>
    (\<exists>i. inst = Some i \<and> in_tradable i \<and> characteristics_acceptable (va_limits v) y \<and>
       terms_acceptable v y i (o_quantity y) (o_price y) \<and>
       check_quotation v y i (o_price y) book m = Inr None) \<and>
    (\<forall>sm. m = Some sm \<longrightarrow> allows_entry sm (o_symbol y))"
  by (auto simp: validate_new_def check_tradable_clean check_characteristics_clean
      check_size_and_price_clean or_else_def split: option.splits)

lemma validate_amend_clean:
  "validate_amend v y inst m nq np = Inr None \<longleftrightarrow>
    (\<exists>i. inst = Some i \<and> in_tradable i \<and> (\<forall>q. nq = Some q \<longrightarrow> o_cum_qty y < q) \<and>
       terms_acceptable v y i (case nq of None \<Rightarrow> o_quantity y | Some n \<Rightarrow> n) (or_else np (o_price y))) \<and>
    (\<forall>sm. m = Some sm \<longrightarrow> allows_entry sm (o_symbol y))"
  by (auto simp: validate_amend_def check_tradable_clean check_size_and_price_clean
      split: option.splits if_splits)

subsection \<open>The quotation rule\<close>

text \<open>How far behind its own side's best, and how far through the other's, a price is.\<close>

lemma quotation_text_not_clean: "quotation_text c p n how which best \<noteq> Inr None"
  by (auto simp: quotation_text_def bind_exn_Inr)

lemma check_behind_clean:
  "check_behind c y (Some n) (Some best) p t = Inr None \<longleftrightarrow>
    (if is_buy y then best - p else p - best) \<le> n * t"
  by (simp add: check_behind_def quotation_text_not_clean not_less)

lemma check_through_clean:
  "check_through c y (Some n) (Some best) p t = Inr None \<longleftrightarrow>
    (if is_buy y then p - best else best - p) \<le> n * t"
  by (simp add: check_through_def quotation_text_not_clean not_less)

lemma check_quotation_clean:
  assumes "check_quotation v y i (Some p) (Some b) m = Inr None"
    and "\<forall>sm. m = Some sm \<longrightarrow> allows_matching sm (o_symbol y)"
    and "tick_size i p = Inr (Some t)" and "t \<noteq> 0"
  shows "vl_max_quotation_spreads (va_limits v) = Some n \<Longrightarrow>
      best_price (book_side_of b (o_side y)) = Some best \<Longrightarrow>
      (if is_buy y then best - p else p - best) \<le> n * t"
    and "vl_max_aggression_spreads (va_limits v) = Some n \<Longrightarrow>
      best_price (book_opposite b (o_side y)) = Some best \<Longrightarrow>
      (if is_buy y then p - best else best - p) \<le> n * t"
proof -
  have "\<not> (case m of None \<Rightarrow> False | Some sm \<Rightarrow> \<not> allows_matching sm (o_symbol y))"
    using assms(2) by (simp split: option.splits)
  with assms have "vl_max_quotation_spreads (va_limits v) = None \<and> vl_max_aggression_spreads (va_limits v) = None \<or>
    check_behind (va_codec v) y (vl_max_quotation_spreads (va_limits v))
      (best_price (book_side_of b (o_side y))) p t = Inr None \<and>
    check_through (va_codec v) y (vl_max_aggression_spreads (va_limits v))
      (best_price (book_opposite b (o_side y))) p t = Inr None"
    by (simp add: check_quotation_def truthy_int_def Let_def split: if_splits)
  then show "vl_max_quotation_spreads (va_limits v) = Some n \<Longrightarrow>
      best_price (book_side_of b (o_side y)) = Some best \<Longrightarrow>
      (if is_buy y then best - p else p - best) \<le> n * t"
    and "vl_max_aggression_spreads (va_limits v) = Some n \<Longrightarrow>
      best_price (book_opposite b (o_side y)) = Some best \<Longrightarrow>
      (if is_buy y then p - best else best - p) \<le> n * t"
    by (auto simp: check_behind_clean check_through_clean simp del: if_split)
qed

subsection \<open>When validation raises\<close>

lemma format_price_error: "format_price c p = Inl e \<Longrightarrow> e = InvalidOperation"
  by (auto simp: format_price_def split: if_splits)

lemma tick_size_error: "tick_size i p = Inl e \<Longrightarrow> e = ReferenceDataError"
  by (auto simp: tick_size_def tick_for_def bind_exn_Inl Let_def split: option.splits)

lemma and_then_error: "and_then c f = Inl e \<Longrightarrow> c = Inl e \<or> c = Inr None \<and> f () = Inl e"
  by (cases c) (auto simp: and_then_def split: option.splits)

definition reference_error :: "exn \<Rightarrow> bool" where
  "reference_error e \<longleftrightarrow> e = InvalidOperation \<or> e = ReferenceDataError"

lemma check_tick_error: "check_tick c l i p = Inl e \<Longrightarrow> reference_error e"
  by (auto simp: check_tick_def reference_error_def bind_exn_Inl
      dest: format_price_error tick_size_error split: if_splits)

lemma check_band_error: "check_band c l y i p = Inl e \<Longrightarrow> reference_error e"
  by (auto simp: check_band_def reference_error_def bind_exn_Inl is_within_band_def
      dest: format_price_error split: if_splits option.splits)

lemma check_price_error: "check_price c l y i p = Inl e \<Longrightarrow> reference_error e"
  by (auto simp: check_price_def dest!: and_then_error dest: check_tick_error check_band_error
      split: if_splits)

lemma check_no_error:
  "check_quantity l i q \<noteq> Inl e" "check_value v y p q \<noteq> Inl e"
  "check_characteristics l y \<noteq> Inl e" "check_tradable y inst m \<noteq> Inl e"
  by (simp_all add: check_quantity_def check_value_def check_characteristics_def check_tradable_def
      split: option.split)

lemma check_size_and_price_error:
  "check_size_and_price v y i nq np = Inl e \<Longrightarrow> reference_error e"
  by (cases "or_else np (o_price y)")
    (auto simp: check_size_and_price_def Let_def check_no_error dest!: and_then_error
      dest: check_price_error split: if_splits)

lemma quotation_text_error: "quotation_text c p n how which best = Inl e \<Longrightarrow> reference_error e"
  by (auto simp: quotation_text_def bind_exn_Inl reference_error_def dest: format_price_error)

lemma check_behind_error: "check_behind c y n best p t = Inl e \<Longrightarrow> reference_error e"
  by (auto simp: check_behind_def dest: quotation_text_error split: option.splits if_splits)

lemma check_through_error: "check_through c y n best p t = Inl e \<Longrightarrow> reference_error e"
  by (auto simp: check_through_def dest: quotation_text_error split: option.splits if_splits)

lemma check_quotation_error:
  assumes "check_quotation v y i p b m = Inl e"
  shows "reference_error e"
proof (cases "p = None \<or> b = None")
  case True
  with assms show ?thesis by (auto simp: check_quotation_def Let_def split: if_splits option.splits)
next
  case False
  then obtain p' b' where pb: "p = Some p'" "b = Some b'" by auto
  show ?thesis
  proof (cases "tick_size i p'")
    case (Inl e')
    with assms pb tick_size_error [OF Inl] show ?thesis
      by (simp add: check_quotation_def Let_def reference_error_def split: if_splits)
  next
    case (Inr tick)
    with assms pb show ?thesis
      by (auto simp: check_quotation_def Let_def dest!: and_then_error
          dest: check_behind_error check_through_error split: if_splits)
  qed
qed

lemma validate_new_error:
  assumes "validate_new v y inst m b = Inl e"
  shows "reference_error e"
proof (cases inst)
  case None
  with assms show ?thesis by (auto simp: validate_new_def check_tradable_def and_then_def reject_def)
next
  case (Some i)
  with assms show ?thesis
    by (auto simp: validate_new_def check_no_error dest!: and_then_error
        dest: check_size_and_price_error check_quotation_error)
qed

lemma validate_amend_error:
  assumes "validate_amend v y inst m nq np = Inl e"
  shows "reference_error e"
proof (cases inst)
  case None
  with assms show ?thesis by (auto simp: validate_amend_def check_tradable_def and_then_def reject_def)
next
  case (Some i)
  with assms show ?thesis
    by (auto simp: validate_amend_def check_no_error dest!: and_then_error
        dest: check_size_and_price_error split: if_splits)
qed

end
