(* ===== verification/Auction.thy ===== *)
theory Auction
  imports Matching_Facts
begin

section \<open>The call auction (\<open>core/auction.py\<close>)\<close>

text \<open>
  An accumulated book is executed at one price: the one at which most can trade, chosen
  among equals by a chain of tie-breaks each venue configures. This theory holds the
  whole module and what the price determination promises: the volume reported is the
  most that could trade at any price at all, and each rule of the standard chain only
  ever narrows the field to prices that are best by its own measure.
\<close>

text \<open>A tie-break rule; a name the module does not know makes \<open>_apply\<close> raise.\<close>

datatype auction_rule =
    MAX_VOLUME | LOWEST_IMBALANCE | SURPLUS_DIRECTION | CLOSEST_TO_REFERENCE | HIGHER_PRICE
  | UNKNOWN_RULE string

fun show_rule :: "auction_rule \<Rightarrow> string" where
  "show_rule MAX_VOLUME = ''maximum volume''"
| "show_rule LOWEST_IMBALANCE = ''lowest imbalance''"
| "show_rule SURPLUS_DIRECTION = ''surplus direction''"
| "show_rule CLOSEST_TO_REFERENCE = ''closest to the reference price''"
| "show_rule HIGHER_PRICE = ''higher price''"
| "show_rule (UNKNOWN_RULE s) = s"

definition standard_rules :: "auction_rule list" where
  "standard_rules =
     [MAX_VOLUME, LOWEST_IMBALANCE, SURPLUS_DIRECTION, CLOSEST_TO_REFERENCE, HIGHER_PRICE]"

record auction_result =
  ar_price :: "int option"
  ar_volume :: int
  ar_imbalance :: int
  ar_surplus_side :: "side option"
  ar_candidates :: "int list"
  ar_reason :: string

definition result_crossed :: "auction_result \<Rightarrow> bool" where
  "result_crossed r \<longleftrightarrow> ar_price r \<noteq> None \<and> ar_volume r > 0"

definition no_price :: "int list \<Rightarrow> string \<Rightarrow> auction_result" where
  "no_price cands reason = \<lparr>ar_price = None, ar_volume = 0, ar_imbalance = 0,
     ar_surplus_side = None, ar_candidates = cands, ar_reason = reason\<rparr>"

subsection \<open>Demand and supply\<close>

definition candidate_prices :: "order_book \<Rightarrow> int list" where
  "candidate_prices b = sorted_list_of_set
     (set (prices_in_priority (ob_bids b) @ prices_in_priority (ob_asks b)))"

definition demand_at :: "heap \<Rightarrow> order_book \<Rightarrow> int \<Rightarrow> int \<Rightarrow> int \<Rightarrow> int \<times> int" where
  "demand_at h b price buy_market sell_market =
     (let demand = buy_market + quantity_above h (ob_bids b) (price - 1);
          supply = sell_market + quantity_below h (ob_asks b) (price + 1)
      in (min demand supply, demand - supply))"

definition price_sign :: "int \<Rightarrow> int" where
  "price_sign v = (if v > 0 then 1 else 0) - (if v < 0 then 1 else 0)"

text \<open>A row of the profile: price, matchable quantity, signed imbalance.\<close>

type_synonym profile_row = "int \<times> int \<times> int"

subsection \<open>The tie-breaks\<close>

text \<open>\<open>max(rows, key=f)\<close> and \<open>min(rows, key=f)\<close>: the first row attaining the extreme.\<close>

fun first_max :: "('a \<Rightarrow> int) \<Rightarrow> 'a \<Rightarrow> 'a list \<Rightarrow> 'a" where
  "first_max f best [] = best"
| "first_max f best (x # xs) = first_max f (if f x > f best then x else best) xs"

definition max_row :: "profile_row list \<Rightarrow> profile_row list" where
  "max_row rows = (case rows of [] \<Rightarrow> [] | r # rs \<Rightarrow> [first_max fst r rs])"

definition min_row :: "profile_row list \<Rightarrow> profile_row list" where
  "min_row rows = (case rows of [] \<Rightarrow> [] | r # rs \<Rightarrow> [first_max (\<lambda>row. - fst row) r rs])"

fun apply_rule ::
    "auction_rule \<Rightarrow> profile_row list \<Rightarrow> int option \<Rightarrow> exn + profile_row list \<times> string option" where
  "apply_rule MAX_VOLUME rows reference =
     (let best = Max (set (map (\<lambda>(p, v, i). v) rows))
      in Inr (filter (\<lambda>(p, v, i). v = best) rows, Some (show_rule MAX_VOLUME)))"
| "apply_rule LOWEST_IMBALANCE rows reference =
     (let least = Min (set (map (\<lambda>(p, v, i). \<bar>i\<bar>) rows));
          narrowed = filter (\<lambda>(p, v, i). \<bar>i\<bar> = least) rows
      in Inr (narrowed, if length narrowed < length rows
                        then Some (show_rule LOWEST_IMBALANCE) else None))"
| "apply_rule SURPLUS_DIRECTION rows reference =
     (let signs = set (map (\<lambda>(p, v, i). price_sign i) rows)
      in if signs = {1} then Inr (max_row rows, Some ''buy surplus, highest price'')
         else if signs = {-1} then Inr (min_row rows, Some ''sell surplus, lowest price'')
         else Inr (rows, None))"
| "apply_rule CLOSEST_TO_REFERENCE rows reference =
     (case reference of None \<Rightarrow> Inr (rows, None)
      | Some ref \<Rightarrow>
         (let nearest = Min (set (map (\<lambda>(p, v, i). \<bar>p - ref\<bar>) rows));
              narrowed = filter (\<lambda>(p, v, i). \<bar>p - ref\<bar> = nearest) rows
          in Inr (narrowed, if length narrowed < length rows
                            then Some (show_rule CLOSEST_TO_REFERENCE) else None)))"
| "apply_rule HIGHER_PRICE rows reference =
     Inr (max_row rows, Some (if reference \<noteq> None then ''higher of two equidistant prices''
                              else ''highest price''))"
| "apply_rule (UNKNOWN_RULE s) rows reference = Inl ValueError"

fun apply_rules ::
    "auction_rule list \<Rightarrow> profile_row list \<Rightarrow> int option \<Rightarrow> string \<Rightarrow> exn + profile_row list \<times> string" where
  "apply_rules [] rows reference reason = Inr (rows, reason)"
| "apply_rules (r # rs) rows reference reason =
     (if length rows \<le> 1 then Inr (rows, reason)
      else (case apply_rule r rows reference of Inl e \<Rightarrow> Inl e
            | Inr (rows', applied) \<Rightarrow>
                apply_rules rs rows' reference (case applied of None \<Rightarrow> reason | Some a \<Rightarrow> a)))"

definition uncross :: "heap \<Rightarrow> order_book \<Rightarrow> int option \<Rightarrow> auction_rule list \<Rightarrow> exn + auction_result" where
  "uncross h b reference rules =
     (case (best_price (ob_bids b), best_price (ob_asks b)) of
        (Some bid, Some ask) \<Rightarrow>
          (if bid < ask then Inr (no_price [] ''book does not cross'')
           else (let bm = at_market_quantity h (ob_bids b); sm = at_market_quantity h (ob_asks b);
                     cands = candidate_prices b;
                     profiles = map (\<lambda>p. (p, demand_at h b p bm sm)) cands;
                     tradable = filter (\<lambda>(p, v, i). v > 0) profiles
                 in if tradable = [] then Inr (no_price cands ''nothing would trade'')
                    else (case apply_rules rules tradable reference [] of
                            Inl e \<Rightarrow> Inl e
                          | Inr (survivors, reason) \<Rightarrow>
                             (case hd survivors of (p, v, i) \<Rightarrow>
                               Inr \<lparr>ar_price = Some p, ar_volume = v, ar_imbalance = \<bar>i\<bar>,
                                    ar_surplus_side = (if i > 0 then Some BUY
                                                       else if i < 0 then Some SELL else None),
                                    ar_candidates = cands,
                                    ar_reason = (if reason = [] then show_rule MAX_VOLUME
                                                 else reason)\<rparr>))))
      | _ \<Rightarrow> Inr (no_price [] ''book does not cross''))"

subsection \<open>Every rule narrows, and never to nothing\<close>

lemma first_max_in: "first_max f b xs \<in> set (b # xs)"
proof (induction xs arbitrary: b)
  case Nil
  then show ?case by simp
next
  case (Cons x xs)
  from Cons.IH [of b] Cons.IH [of x] show ?case by auto
qed

lemma first_max_ge: "y \<in> set (b # xs) \<Longrightarrow> f y \<le> f (first_max f b xs)"
proof (induction xs arbitrary: b y)
  case Nil
  then show ?case by simp
next
  case (Cons x xs)
  let ?m = "if f x > f b then x else b"
  have m: "f b \<le> f ?m" "f x \<le> f ?m" by auto
  have top: "f ?m \<le> f (first_max f ?m xs)" by (rule Cons.IH) simp
  show ?case
  proof (cases "y \<in> set xs")
    case True
    then have "f y \<le> f (first_max f ?m xs)" by (intro Cons.IH) simp
    then show ?thesis by simp
  next
    case False
    with Cons.prems m have "f y \<le> f ?m" by auto
    with top show ?thesis by simp
  qed
qed

lemma max_row_spec:
  assumes "rows \<noteq> []"
  obtains r where "max_row rows = [r]" "r \<in> set rows" "\<forall>q \<in> set rows. fst q \<le> fst r"
proof -
  obtain a as where rows: "rows = a # as" using assms by (cases rows) auto
  show ?thesis
    by (rule that [of "first_max fst a as"])
      (use first_max_in [of fst a as] first_max_ge [of _ a as fst] in \<open>auto simp: max_row_def rows\<close>)
qed

lemma min_row_spec:
  assumes "rows \<noteq> []"
  obtains r where "min_row rows = [r]" "r \<in> set rows" "\<forall>q \<in> set rows. fst r \<le> fst q"
proof -
  obtain a as where rows: "rows = a # as" using assms by (cases rows) auto
  show ?thesis
    by (rule that [of "first_max (\<lambda>row. - fst row) a as"])
      (use first_max_in [of "\<lambda>row. - fst row" a as] first_max_ge [of _ a as "\<lambda>row. - fst row"]
        in \<open>auto simp: min_row_def rows\<close>)
qed

lemma filter_extreme:
  fixes f :: "'a \<Rightarrow> int"
  assumes "rows \<noteq> []"
  shows "filter (\<lambda>r. f r = Max (set (map f rows))) rows \<noteq> []"
    and "filter (\<lambda>r. f r = Min (set (map f rows))) rows \<noteq> []"
proof -
  have "Max (set (map f rows)) \<in> set (map f rows)" "Min (set (map f rows)) \<in> set (map f rows)"
    using assms by (simp_all del: set_map)
  then show "filter (\<lambda>r. f r = Max (set (map f rows))) rows \<noteq> []"
    and "filter (\<lambda>r. f r = Min (set (map f rows))) rows \<noteq> []"
    by (auto simp: filter_empty_conv)
qed

lemma apply_rule_narrows:
  assumes "apply_rule r rows reference = Inr (rows', a)" and "rows \<noteq> []"
  shows "rows' \<noteq> [] \<and> set rows' \<subseteq> set rows"
proof (cases r)
  case MAX_VOLUME
  with assms filter_extreme(1) [OF assms(2), of "\<lambda>(p, v, i). v"] show ?thesis
    by (auto simp: Let_def split_def)
next
  case LOWEST_IMBALANCE
  with assms filter_extreme(2) [OF assms(2), of "\<lambda>(p, v, i). \<bar>i\<bar>"] show ?thesis
    by (auto simp: Let_def split_def)
next
  case SURPLUS_DIRECTION
  with assms show ?thesis
    by (auto simp: Let_def split: if_splits
        intro: max_row_spec [OF assms(2)] min_row_spec [OF assms(2)])
next
  case CLOSEST_TO_REFERENCE
  show ?thesis
  proof (cases reference)
    case None
    with assms CLOSEST_TO_REFERENCE show ?thesis by auto
  next
    case (Some ref)
    with assms CLOSEST_TO_REFERENCE filter_extreme(2) [OF assms(2), of "\<lambda>(p, v, i). \<bar>p - ref\<bar>"]
    show ?thesis by (auto simp: Let_def split_def)
  qed
next
  case HIGHER_PRICE
  with assms show ?thesis by (auto intro: max_row_spec [OF assms(2)])
next
  case (UNKNOWN_RULE s)
  with assms show ?thesis by simp
qed

lemma apply_rules_narrows:
  "apply_rules rules rows reference reason = Inr (rows', reason') \<Longrightarrow> rows \<noteq> [] \<Longrightarrow>
   rows' \<noteq> [] \<and> set rows' \<subseteq> set rows"
proof (induction rules arbitrary: rows reason)
  case Nil
  then show ?case by simp
next
  case (Cons r rules)
  show ?case
  proof (cases "length rows \<le> 1")
    case True
    with Cons.prems show ?thesis by simp
  next
    case False
    with Cons.prems obtain rows1 a where one: "apply_rule r rows reference = Inr (rows1, a)"
      and rest: "apply_rules rules rows1 reference (case a of None \<Rightarrow> reason | Some x \<Rightarrow> x)
        = Inr (rows', reason')"
      by (auto split: sum.splits prod.splits)
    from apply_rule_narrows [OF one Cons.prems(2)] have "rows1 \<noteq> []" "set rows1 \<subseteq> set rows" by auto
    with Cons.IH [OF rest] show ?thesis by auto
  qed
qed

text \<open>With maximum volume first, whatever survives trades the most of all rows.\<close>

lemma apply_rules_max_volume:
  assumes "apply_rules (MAX_VOLUME # rules) rows reference reason = Inr (rows', reason')"
    and "rows \<noteq> []" and "(p, v, i) \<in> set rows'" and "(p', v', i') \<in> set rows"
  shows "v' \<le> v"
proof (cases "length rows \<le> 1")
  case True
  with assms have "rows' = rows" by simp
  moreover obtain r where "rows = [r]" using True assms(2) by (cases rows) auto
  ultimately show ?thesis using assms(3,4) by auto
next
  case False
  let ?best = "Max (set (map (\<lambda>(p, v, i). v) rows))"
  have nonempty: "filter (\<lambda>(p, v, i). v = ?best) rows \<noteq> []"
    using filter_extreme(1) [OF assms(2), of "\<lambda>(p, v, i). v"] by (simp add: split_def)
  from False assms(1) have "apply_rules rules (filter (\<lambda>(p, v, i). v = ?best) rows) reference
      (show_rule MAX_VOLUME) = Inr (rows', reason')"
    by (simp add: Let_def)
  from apply_rules_narrows [OF this nonempty] assms(3) have "v = ?best" by auto
  moreover have "v' \<in> set (map (\<lambda>(p, v, i). v) rows)" using assms(4) by force
  ultimately show ?thesis by (simp del: set_map)
qed

text \<open>The chain raises only for a rule it does not know.\<close>

definition known_rule :: "auction_rule \<Rightarrow> bool" where
  "known_rule r = (case r of UNKNOWN_RULE _ \<Rightarrow> False | _ \<Rightarrow> True)"

lemma apply_rule_known: "known_rule r \<Longrightarrow> \<exists>x. apply_rule r rows reference = Inr x"
  by (cases r) (auto simp: known_rule_def Let_def split: option.splits)

lemma apply_rules_known:
  "\<forall>r \<in> set rules. known_rule r \<Longrightarrow> \<exists>x. apply_rules rules rows reference reason = Inr x"
proof (induction rules arbitrary: rows reason)
  case Nil
  then show ?case by simp
next
  case (Cons r rules)
  obtain rows1 a where "apply_rule r rows reference = Inr (rows1, a)"
    using apply_rule_known [of r rows reference] Cons.prems by auto
  with Cons show ?case by auto
qed

lemma uncross_known:
  "\<forall>r \<in> set rules. known_rule r \<Longrightarrow> \<exists>x. uncross h b reference rules = Inr x"
  using apply_rules_known [of rules "filter (\<lambda>(p, v, i). v > 0) (map (\<lambda>p. (p, demand_at h b p
      (at_market_quantity h (ob_bids b)) (at_market_quantity h (ob_asks b)))) (candidate_prices b))" reference "[]"]
  by (auto simp: uncross_def Let_def split: option.splits prod.splits)

subsection \<open>Maximum volume, over every price there is\<close>

definition demand_of :: "heap \<Rightarrow> order_book \<Rightarrow> int \<Rightarrow> int" where
  "demand_of h b p = at_market_quantity h (ob_bids b) + quantity_above h (ob_bids b) (p - 1)"

definition supply_of :: "heap \<Rightarrow> order_book \<Rightarrow> int \<Rightarrow> int" where
  "supply_of h b p = at_market_quantity h (ob_asks b) + quantity_below h (ob_asks b) (p + 1)"

definition matchable :: "heap \<Rightarrow> order_book \<Rightarrow> int \<Rightarrow> int" where
  "matchable h b p = min (demand_of h b p) (supply_of h b p)"

lemma demand_at_eq:
  "demand_at h b p (at_market_quantity h (ob_bids b)) (at_market_quantity h (ob_asks b))
    = (matchable h b p, demand_of h b p - supply_of h b p)"
  by (simp add: demand_at_def matchable_def demand_of_def supply_of_def Let_def)

lemma sum_filter_mono:
  fixes f :: "'a \<Rightarrow> int"
  assumes "\<And>x. x \<in> set xs \<Longrightarrow> P x \<Longrightarrow> Q x" and "\<And>x. 0 \<le> f x"
  shows "sum_list (map f (filter P xs)) \<le> sum_list (map f (filter Q xs))"
  using assms by (induction xs) (auto intro: add_mono add_increasing)

lemma demand_mono:
  assumes "side_ok h (ob_bids b)"
    and "\<And>x. x \<in> set (bs_prices (ob_bids b)) \<Longrightarrow> p \<le> x \<Longrightarrow> q \<le> x"
  shows "demand_of h b p \<le> demand_of h b q"
proof -
  have "price_of h x \<in> set (bs_prices (ob_bids b))" if "x \<in> set (orders_in_priority (ob_bids b))" for x
    using that level_at_price_of [OF assms(1)] by (auto simp: set_orders_in_priority)
  then have "q - 1 < price_of h x" if "x \<in> set (orders_in_priority (ob_bids b))"
      "p - 1 < price_of h x" for x
    using assms(2) [of "price_of h x"] that by fastforce
  then show ?thesis
    unfolding demand_of_def quantity_above_eq [OF assms(1)]
    by (intro add_mono sum_filter_mono) auto
qed

lemma supply_mono:
  assumes "side_ok h (ob_asks b)"
    and "\<And>x. x \<in> set (bs_prices (ob_asks b)) \<Longrightarrow> x \<le> p \<Longrightarrow> x \<le> q"
  shows "supply_of h b p \<le> supply_of h b q"
proof -
  have "price_of h x \<in> set (bs_prices (ob_asks b))" if "x \<in> set (orders_in_priority (ob_asks b))" for x
    using that level_at_price_of [OF assms(1)] by (auto simp: set_orders_in_priority)
  then have "price_of h x < q + 1" if "x \<in> set (orders_in_priority (ob_asks b))"
      "price_of h x < p + 1" for x
    using assms(2) [of "price_of h x"] that by fastforce
  then show ?thesis
    unfolding supply_of_def quantity_below_eq [OF assms(1)]
    by (intro add_mono sum_filter_mono) auto
qed

lemma set_candidate_prices [simp]:
  "set (candidate_prices b) = set (bs_prices (ob_bids b)) \<union> set (bs_prices (ob_asks b))"
  by (simp add: candidate_prices_def)

text \<open>
  Any price can be moved to one that some order names without losing volume: up to the
  next named price, or, above all of them, down to the highest.
\<close>

lemma candidate_dominates:
  assumes ok: "book_ok h b" and ne: "candidate_prices b \<noteq> []"
  shows "\<exists>c \<in> set (candidate_prices b). matchable h b p \<le> matchable h b c"
proof -
  note sd = book_okD(3,4) [OF ok]
  let ?C = "set (candidate_prices b)"
  have C: "set (bs_prices (ob_bids b)) \<subseteq> ?C" "set (bs_prices (ob_asks b)) \<subseteq> ?C" by auto
  show ?thesis
  proof (cases "\<exists>c \<in> ?C. p \<le> c")
    case True
    define c where "c = Min {c \<in> ?C. p \<le> c}"
    have fin: "finite {c \<in> ?C. p \<le> c}" and some: "{c \<in> ?C. p \<le> c} \<noteq> {}" using True by auto
    from Min_in [OF fin some] have c: "c \<in> ?C" "p \<le> c" by (auto simp: c_def)
    have least: "c \<le> x" if "x \<in> ?C" "p \<le> x" for x
      unfolding c_def using fin that by (intro Min_le) auto
    have "demand_of h b p \<le> demand_of h b c"
      by (rule demand_mono [OF sd(1)]) (use least C(1) in blast)
    moreover have "supply_of h b p \<le> supply_of h b c"
      by (rule supply_mono [OF sd(2)]) (use c(2) in auto)
    ultimately show ?thesis using c(1) by (auto simp: matchable_def intro!: bexI [of _ c])
  next
    case False
    define c where "c = Max ?C"
    have fin: "finite ?C" and some: "?C \<noteq> {}" using ne by (simp_all only: finite_set set_empty not_False_eq_True)
    have c: "c \<in> ?C" unfolding c_def by (rule Max_in [OF fin some])
    have greatest: "x \<le> c" if "x \<in> ?C" for x unfolding c_def by (rule Max_ge [OF fin that])
    have "demand_of h b p \<le> demand_of h b c"
      by (rule demand_mono [OF sd(1)]) (use False C(1) in blast)
    moreover have "supply_of h b p \<le> supply_of h b c"
      by (rule supply_mono [OF sd(2)]) (use greatest C(2) in blast)
    ultimately show ?thesis using c by (auto simp: matchable_def intro!: bexI [of _ c])
  qed
qed

text \<open>What \<open>uncross\<close> reports when it finds a price.\<close>

lemma uncross_priced:
  assumes un: "uncross h b reference (MAX_VOLUME # rules) = Inr res" and p: "ar_price res = Some p"
  shows "p \<in> set (candidate_prices b) \<and> ar_volume res = matchable h b p \<and> 0 < ar_volume res \<and>
    ar_imbalance res = \<bar>demand_of h b p - supply_of h b p\<bar> \<and>
    (\<forall>q \<in> set (candidate_prices b). matchable h b q \<le> ar_volume res)"
proof -
  let ?rows = "map (\<lambda>p. (p, matchable h b p, demand_of h b p - supply_of h b p)) (candidate_prices b)"
  let ?trad = "filter (\<lambda>(p, v, i). v > 0) ?rows"
  obtain bid ask where best: "best_price (ob_bids b) = Some bid" "best_price (ob_asks b) = Some ask"
      "\<not> bid < ask"
    using un p by (auto simp: uncross_def no_price_def split: option.splits if_splits)
  have trad: "?trad \<noteq> []"
    using un p best by (auto simp: uncross_def no_price_def demand_at_eq Let_def split: if_splits)
  obtain survivors reason where ap: "apply_rules (MAX_VOLUME # rules) ?trad reference [] = Inr (survivors, reason)"
      and res: "res = (case hd survivors of (p, v, i) \<Rightarrow>
         \<lparr>ar_price = Some p, ar_volume = v, ar_imbalance = \<bar>i\<bar>,
          ar_surplus_side = (if i > 0 then Some BUY else if i < 0 then Some SELL else None),
          ar_candidates = candidate_prices b,
          ar_reason = (if reason = [] then show_rule MAX_VOLUME else reason)\<rparr>)"
    using un best trad
    by (simp add: uncross_def demand_at_eq Let_def del: apply_rules.simps
        split: sum.splits prod.splits)
  obtain v i where hd: "hd survivors = (p, v, i)" using p res by (cases "hd survivors") auto
  have ns: "survivors \<noteq> []" "set survivors \<subseteq> set ?trad"
    using apply_rules_narrows [OF ap trad] by simp_all
  then have mem: "(p, v, i) \<in> set survivors" using hd by (metis list.set_sel(1))
  with ns(2) have row: "(p, v, i) \<in> set ?trad" by blast
  have "matchable h b q \<le> v" if "q \<in> set (candidate_prices b)" for q
  proof (cases "matchable h b q > 0")
    case True
    then have "(q, matchable h b q, demand_of h b q - supply_of h b q) \<in> set ?trad"
      using that by auto
    then show ?thesis by (rule apply_rules_max_volume [OF ap trad mem])
  next
    case False
    with row show ?thesis by auto
  qed
  with row hd res show ?thesis by auto
qed

lemma uncross_maximal:
  assumes "book_ok h b" and "uncross h b reference (MAX_VOLUME # rules) = Inr res"
    and "ar_price res = Some p"
  shows "matchable h b q \<le> ar_volume res"
proof -
  note u = uncross_priced [OF assms(2,3)]
  then have "candidate_prices b \<noteq> []" by (metis empty_iff empty_set)
  from candidate_dominates [OF assms(1) this, of q] u show ?thesis by fastforce
qed

end
