(* ===== verification/Auction_Exec.thy ===== *)
theory Auction_Exec
  imports Auction Matching_Entry
begin

section \<open>Executing the auction (\<open>core/auction.py\<close>, \<open>execute\<close>)\<close>

text \<open>
  Everything that can trade at the auction price does: the executable orders of the two
  sides, in auction priority, are paired off until one side is exhausted. The executed
  volume is the lesser of the two totals, each side is consumed from the front, and when
  the price was the one \<open>uncross\<close> found, the book left behind is no longer crossed.
\<close>

fun executable_priced :: "heap \<Rightarrow> bool \<Rightarrow> int \<Rightarrow> oid list \<Rightarrow> oid list" where
  "executable_priced h buys price [] = []"
| "executable_priced h buys price (r # rs) =
     (if leaves_qty (h r) \<le> 0 then executable_priced h buys price rs
      else if buys \<and> price_of h r < price then []
      else if \<not> buys \<and> price_of h r > price then []
      else r # executable_priced h buys price rs)"

definition executable_side :: "heap \<Rightarrow> book_side \<Rightarrow> int \<Rightarrow> oid list" where
  "executable_side h s price =
     filter (\<lambda>x. leaves_qty (h x) > 0) (bs_at_market s) @
     executable_priced h (bs_is_buy s) price (orders_in_priority s)"

definition remove_if_done :: "heap \<Rightarrow> oid \<Rightarrow> order_book \<Rightarrow> order_book" where
  "remove_if_done h x b = (if leaves_qty (h x) = 0 then snd (book_remove h x b) else b)"

definition execute_pair ::
    "oid \<Rightarrow> oid \<Rightarrow> int \<Rightarrow> timestamp option \<Rightarrow> mstate \<Rightarrow> exn + mstate \<times> event list" where
  "execute_pair buyer seller price now s =
     (let h = ms_heap s; q = min (leaves_qty (h buyer)) (leaves_qty (h seller))
      in case next_id (ms_trade_ids s) of Inl e \<Rightarrow> Inl e
      | Inr (tid, ids') \<Rightarrow>
       (case apply_fill q price now (h buyer) of Inl e \<Rightarrow> Inl e
        | Inr b' \<Rightarrow> (let h1 = h(buyer := b') in
         (case apply_fill q price now (h1 seller) of Inl e \<Rightarrow> Inl e
          | Inr s' \<Rightarrow>
           (let h2 = h1(seller := s')
            in Inr (\<lparr>ms_heap = h2,
                     ms_book = remove_if_done h2 seller (remove_if_done h2 buyer (ms_book s)),
                     ms_trade_ids = ids'\<rparr>,
                 [order_filled h2 buyer q price tid ADDED seller (o_mpid (h2 seller)),
                  order_filled h2 seller q price tid ADDED buyer (o_mpid (h2 buyer)),
                  TradeExecuted \<lparr>te_symbol = o_symbol (h2 buyer), te_market = o_market (h2 buyer),
                    te_price = price, te_quantity = q, te_trade_id = tid,
                    te_buy_order_id = buyer, te_sell_order_id = seller,
                    te_aggressor_side = None, te_timestamp = now\<rparr>]))))))"

lemma execute_pair_Inr:
  assumes "execute_pair b a price now s = Inr (s', evs)"
  obtains q tid b' a' where
    "q = min (leaves_qty (ms_heap s b)) (leaves_qty (ms_heap s a))"
    "next_id (ms_trade_ids s) = Inr (tid, ms_trade_ids s')"
    "apply_fill q price now (ms_heap s b) = Inr b'"
    "apply_fill q price now (((ms_heap s)(b := b')) a) = Inr a'"
    "ms_heap s' = (ms_heap s)(b := b', a := a')"
    "ms_book s' = remove_if_done (ms_heap s') a (remove_if_done (ms_heap s') b (ms_book s))"
    "evs = [order_filled (ms_heap s') b q price tid ADDED a (o_mpid (ms_heap s' a)),
            order_filled (ms_heap s') a q price tid ADDED b (o_mpid (ms_heap s' b)),
            TradeExecuted \<lparr>te_symbol = o_symbol (ms_heap s' b), te_market = o_market (ms_heap s' b),
              te_price = price, te_quantity = q, te_trade_id = tid,
              te_buy_order_id = b, te_sell_order_id = a,
              te_aggressor_side = None, te_timestamp = now\<rparr>]"
  using assms by (auto simp: execute_pair_def Let_def split: sum.splits prod.splits)

lemma execute_pair_decreases:
  assumes "execute_pair b a price now s = Inr (s', evs)"
  shows "leaves_qty (ms_heap s' b) < leaves_qty (ms_heap s b)"
proof -
  from assms obtain q b' a' where
    f: "apply_fill q price now (ms_heap s b) = Inr b'"
       "apply_fill q price now (((ms_heap s)(b := b')) a) = Inr a'"
       "ms_heap s' = (ms_heap s)(b := b', a := a')"
    by (rule execute_pair_Inr)
  from apply_fill_Inr [OF f(1)] apply_fill_Inr [OF f(2)] show ?thesis
    by (cases "b = a") (auto simp: f(3))
qed

text \<open>
  The two nested loops: buyers in order, each against the sellers from where the last
  one stopped. A fill leaves the buyer smaller, a step past an order shortens a list.
\<close>

function execute_loop ::
    "oid list \<Rightarrow> oid list \<Rightarrow> int \<Rightarrow> timestamp option \<Rightarrow> mstate \<Rightarrow> exn + mstate \<times> event list" where
  "execute_loop [] sellers price now s = Inr (s, [])"
| "execute_loop (b # bs) [] price now s = Inr (s, [])"
| "execute_loop (b # bs) (a # as) price now s =
     (if leaves_qty (ms_heap s b) \<le> 0 then execute_loop bs (a # as) price now s
      else if leaves_qty (ms_heap s a) = 0 then execute_loop (b # bs) as price now s
      else (case execute_pair b a price now s of
              Inl e \<Rightarrow> Inl e
            | Inr (s', evs) \<Rightarrow>
                prepend_events evs
                  (if leaves_qty (ms_heap s' a) = 0 then execute_loop (b # bs) as price now s'
                   else execute_loop (b # bs) (a # as) price now s')))"
  by pat_completeness auto
termination
  by (relation "measures [\<lambda>(bs, as, p, n, s). length bs + length as,
       \<lambda>(bs, as, p, n, s). nat (leaves_qty (ms_heap s (hd bs)))]")
    (auto dest!: execute_pair_decreases)

declare execute_loop.simps(3) [simp del]

definition execute_auction ::
    "int option \<Rightarrow> timestamp option \<Rightarrow> mstate \<Rightarrow> exn + mstate \<times> event list" where
  "execute_auction price now s =
     (case price of None \<Rightarrow> Inr (s, [])
      | Some p \<Rightarrow>
         (let buyers = executable_side (ms_heap s) (ob_bids (ms_book s)) p;
              sellers = executable_side (ms_heap s) (ob_asks (ms_book s)) p
          in if buyers = [] \<or> sellers = [] then Inr (s, [])
             else execute_loop buyers sellers p now s))"

subsection \<open>Pairing off, on quantities alone\<close>

text \<open>What is left of a queue after \<open>v\<close> units were served from its front.\<close>

fun served :: "int \<Rightarrow> int list \<Rightarrow> int list" where
  "served v [] = []"
| "served v (q # qs) = (q - min q v) # served (v - min q v) qs"

lemma served_zero [simp]: "\<forall>q \<in> set qs. 0 \<le> q \<Longrightarrow> served 0 qs = qs"
  by (induction qs) auto

lemma served_step:
  "0 \<le> v \<Longrightarrow> v \<le> q \<Longrightarrow> 0 \<le> w \<Longrightarrow> served (v + w) (q # qs) = served w ((q - v) # qs)"
  by (auto simp: min_def algebra_simps)

text \<open>An order not fully served stands behind more than \<open>v\<close> units, its own included.\<close>

lemma served_left:
  assumes "0 \<le> v" and "\<forall>q \<in> set qs. 0 \<le> q" and "i < length qs" and "0 < served v qs ! i"
  shows "v < sum_list (take (Suc i) qs)"
  using assms
proof (induction qs arbitrary: v i)
  case Nil
  then show ?case by simp
next
  case (Cons q qs)
  show ?case
  proof (cases i)
    case 0
    with Cons.prems show ?thesis by (auto simp: min_def split: if_splits)
  next
    case (Suc j)
    with Cons.prems Cons.IH [of "v - min q v" j] have "v - min q v < sum_list (take (Suc j) qs)"
      by (auto simp: min_def split: if_splits)
    with Suc show ?thesis by (auto simp: min_def split: if_splits)
  qed
qed

lemma length_served [simp]: "length (served v qs) = length qs"
  by (induction qs arbitrary: v) auto

subsection \<open>One pairing\<close>

lemma remove_if_done_ok: "book_ok h b \<Longrightarrow> book_ok h (remove_if_done h x b)"
  by (simp add: remove_if_done_def book_ok_remove)

lemma remove_if_done_orders:
  "book_ok h b \<Longrightarrow> set (book_orders (remove_if_done h x b)) =
     set (book_orders b) - {y. y = x \<and> leaves_qty (h x) = 0}"
  by (auto simp: remove_if_done_def book_orders_remove)

lemma execute_pair_spec:
  assumes ex: "execute_pair b a price now s = Inr (s', evs)" and ne: "b \<noteq> a"
  defines "q \<equiv> min (leaves_qty (ms_heap s b)) (leaves_qty (ms_heap s a))"
  shows "heap_shrinks b a (ms_heap s) (ms_heap s')" and "0 < q"
    and "leaves_qty (ms_heap s' b) = leaves_qty (ms_heap s b) - q"
    and "leaves_qty (ms_heap s' a) = leaves_qty (ms_heap s a) - q"
    and "\<exists>t. trades_of evs = [t] \<and> te_price t = price \<and> te_quantity t = q \<and>
      te_buy_order_id t = b \<and> te_sell_order_id t = a \<and>
      next_id (ms_trade_ids s) = Inr (te_trade_id t, ms_trade_ids s')"
    and "book_inv s \<Longrightarrow> book_inv s' \<and> set (book_orders (ms_book s')) =
      {y \<in> set (book_orders (ms_book s)). 0 < leaves_qty (ms_heap s' y)}"
proof -
  from ex obtain tid b' a' where
    tid: "next_id (ms_trade_ids s) = Inr (tid, ms_trade_ids s')" and
    fb: "apply_fill q price now (ms_heap s b) = Inr b'" and
    fa: "apply_fill q price now (((ms_heap s)(b := b')) a) = Inr a'" and
    h: "ms_heap s' = (ms_heap s)(b := b', a := a')" and
    bk: "ms_book s' = remove_if_done (ms_heap s') a (remove_if_done (ms_heap s') b (ms_book s))" and
    evs: "evs = [order_filled (ms_heap s') b q price tid ADDED a (o_mpid (ms_heap s' a)),
            order_filled (ms_heap s') a q price tid ADDED b (o_mpid (ms_heap s' b)),
            TradeExecuted \<lparr>te_symbol = o_symbol (ms_heap s' b), te_market = o_market (ms_heap s' b),
              te_price = price, te_quantity = q, te_trade_id = tid,
              te_buy_order_id = b, te_sell_order_id = a,
              te_aggressor_side = None, te_timestamp = now\<rparr>]"
    unfolding q_def by (rule execute_pair_Inr) blast
  have fa': "apply_fill q price now (ms_heap s a) = Inr a'" using fa ne by simp
  note eb = apply_fill_Inr [OF fb] and ea = apply_fill_Inr [OF fa']
  show sh: "heap_shrinks b a (ms_heap s) (ms_heap s')"
    using eb ea same_terms_fill [OF fb] same_terms_fill [OF fa'] ne
    by (auto simp: heap_shrinks_def h)
  show "0 < q" using eb by simp
  show "leaves_qty (ms_heap s' b) = leaves_qty (ms_heap s b) - q" using eb ne by (simp add: h)
  show "leaves_qty (ms_heap s' a) = leaves_qty (ms_heap s a) - q" using ea by (simp add: h)
  show "\<exists>t. trades_of evs = [t] \<and> te_price t = price \<and> te_quantity t = q \<and>
      te_buy_order_id t = b \<and> te_sell_order_id t = a \<and>
      next_id (ms_trade_ids s) = Inr (te_trade_id t, ms_trade_ids s')"
    using tid by (simp add: evs)
  assume inv: "book_inv s"
  then have "book_ok (ms_heap s) (ms_book s)" by (simp add: book_inv_def)
  then have ok: "book_ok (ms_heap s') (ms_book s)"
    by (rule book_ok_cong [rotated])
      (use sh in \<open>auto simp: heap_shrinks_def same_terms_def is_buy_def\<close>)
  have orders: "set (book_orders (ms_book s')) =
      set (book_orders (ms_book s)) - {y. (y = a \<or> y = b) \<and> leaves_qty (ms_heap s' y) = 0}"
    unfolding bk using remove_if_done_orders [OF remove_if_done_ok [OF ok, of b], of a]
      remove_if_done_orders [OF ok, of b] by auto
  have "0 < leaves_qty (ms_heap s' y) \<longleftrightarrow> \<not> ((y = a \<or> y = b) \<and> leaves_qty (ms_heap s' y) = 0)"
    if "y \<in> set (book_orders (ms_book s))" for y
  proof (cases "y = a \<or> y = b")
    case True
    with leaves_qty_nonneg [of "ms_heap s' y"] show ?thesis by linarith
  next
    case False
    then have "ms_heap s' y = ms_heap s y" using sh by (simp add: heap_shrinks_def)
    with inv that False show ?thesis by (simp add: book_inv_def book_live_def)
  qed
  then have eq: "set (book_orders (ms_book s')) =
      {y \<in> set (book_orders (ms_book s)). 0 < leaves_qty (ms_heap s' y)}"
    unfolding orders by auto
  have "book_ok (ms_heap s') (ms_book s')"
    unfolding bk by (intro remove_if_done_ok ok)
  with eq show "book_inv s' \<and> set (book_orders (ms_book s')) =
      {y \<in> set (book_orders (ms_book s)). 0 < leaves_qty (ms_heap s' y)}"
    by (simp add: book_inv_def book_live_def)
qed

subsection \<open>The whole execution\<close>

abbreviation leaves_of :: "mstate \<Rightarrow> oid \<Rightarrow> int" where
  "leaves_of s x \<equiv> leaves_qty (ms_heap s x)"

definition executed_at :: "int \<Rightarrow> oid set \<Rightarrow> oid set \<Rightarrow> event list \<Rightarrow> bool" where
  "executed_at price bs as evs \<longleftrightarrow> (\<forall>t \<in> set (trades_of evs).
     te_price t = price \<and> 0 < te_quantity t \<and> te_buy_order_id t \<in> bs \<and> te_sell_order_id t \<in> as)"

definition loop_result :: "oid list \<Rightarrow> oid list \<Rightarrow> int \<Rightarrow> mstate \<Rightarrow> mstate \<Rightarrow> event list \<Rightarrow> bool" where
  "loop_result bs as price s s' evs \<longleftrightarrow>
     (let v = min (sum_list (map (leaves_of s) bs)) (sum_list (map (leaves_of s) as))
      in map (leaves_of s') bs = served v (map (leaves_of s) bs) \<and>
         map (leaves_of s') as = served v (map (leaves_of s) as) \<and>
         sum_list (map te_quantity (trades_of evs)) = v) \<and>
     (\<forall>y. y \<notin> set bs \<longrightarrow> y \<notin> set as \<longrightarrow> ms_heap s' y = ms_heap s y) \<and>
     (\<forall>y. same_terms (ms_heap s' y) (ms_heap s y) \<and> leaves_of s' y \<le> leaves_of s y) \<and>
     executed_at price (set bs) (set as) evs \<and>
     (book_inv s \<longrightarrow> book_inv s' \<and> set (book_orders (ms_book s')) =
        {y \<in> set (book_orders (ms_book s)). 0 < leaves_of s' y})"

lemma loop_resultD:
  assumes "loop_result bs as price s s' evs"
  shows "map (leaves_of s') bs =
      served (min (sum_list (map (leaves_of s) bs)) (sum_list (map (leaves_of s) as))) (map (leaves_of s) bs)"
    "map (leaves_of s') as =
      served (min (sum_list (map (leaves_of s) bs)) (sum_list (map (leaves_of s) as))) (map (leaves_of s) as)"
    "sum_list (map te_quantity (trades_of evs)) =
      min (sum_list (map (leaves_of s) bs)) (sum_list (map (leaves_of s) as))"
    "y \<notin> set bs \<Longrightarrow> y \<notin> set as \<Longrightarrow> ms_heap s' y = ms_heap s y"
    "same_terms (ms_heap s' y) (ms_heap s y)" "leaves_of s' y \<le> leaves_of s y"
    "executed_at price (set bs) (set as) evs"
    "book_inv s \<Longrightarrow> book_inv s' \<and> set (book_orders (ms_book s')) =
        {y \<in> set (book_orders (ms_book s)). 0 < leaves_of s' y}"
  using assms by (simp_all add: loop_result_def Let_def)

lemma sum_leaves_nonneg [simp]: "0 \<le> sum_list (map (leaves_of s) xs)"
  by (rule sum_list_nonneg) auto

lemma book_inv_orders: "book_inv s \<Longrightarrow> set (book_orders (ms_book s)) =
    {y \<in> set (book_orders (ms_book s)). 0 < leaves_of s y}"
  by (auto simp: book_inv_def book_live_def)

lemma loop_result_idle:
  assumes "sum_list (map (leaves_of s) bs) = 0 \<or> sum_list (map (leaves_of s) as) = 0"
  shows "loop_result bs as price s s []"
proof -
  have "min (sum_list (map (leaves_of s) bs)) (sum_list (map (leaves_of s) as)) = 0"
    using assms sum_leaves_nonneg [of s bs] sum_leaves_nonneg [of s as] by linarith
  with book_inv_orders [of s] show ?thesis
    by (auto simp: loop_result_def Let_def executed_at_def)
qed

text \<open>Passing over an order nothing of which is left.\<close>

lemma loop_result_skip:
  "leaves_of s b = 0 \<Longrightarrow> loop_result bs as price s s' evs \<Longrightarrow> b \<notin> set bs \<Longrightarrow> b \<notin> set as \<Longrightarrow>
     loop_result (b # bs) as price s s' evs"
  "leaves_of s a = 0 \<Longrightarrow> loop_result bs as price s s' evs \<Longrightarrow> a \<notin> set bs \<Longrightarrow> a \<notin> set as \<Longrightarrow>
     loop_result bs (a # as) price s s' evs"
  by (auto simp: loop_result_def Let_def executed_at_def min_def)

lemma executed_at_mono:
  "executed_at price bs as evs \<Longrightarrow> bs \<subseteq> bs' \<Longrightarrow> as \<subseteq> as' \<Longrightarrow> executed_at price bs' as' evs"
  by (auto simp: executed_at_def)

lemma executed_at_append:
  "executed_at price bs as (evs @ evs') \<longleftrightarrow> executed_at price bs as evs \<and> executed_at price bs as evs'"
  by (auto simp: executed_at_def)

lemma served_head:
  assumes "0 \<le> q" and "q \<le> x" and "0 \<le> w"
  shows "served (q + w) (x # xs) = served w ((x - q) # xs)"
  using assms by (intro served_step) auto

text \<open>Putting one pairing in front of what follows it.\<close>

lemma loop_result_pair:
  assumes ex: "execute_pair b a price now s = Inr (s1, evs1)"
    and d: "distinct (b # bs)" "distinct (a # as)" "set (b # bs) \<inter> set (a # as) = {}"
    and rest: "loop_result (b # bs) (a # as) price s1 s' evs"
  shows "loop_result (b # bs) (a # as) price s s' (evs1 @ evs)"
proof -
  have ne: "b \<noteq> a" using d by auto
  let ?q = "min (leaves_of s b) (leaves_of s a)"
  note p = execute_pair_spec [OF ex ne]
  note r = loop_resultD [OF rest]
  have same: "leaves_of s1 y = leaves_of s y" if "y \<noteq> b" "y \<noteq> a" for y
    using p(1) that by (simp add: heap_shrinks_def)
  have mb: "map (leaves_of s1) bs = map (leaves_of s) bs"
    and ma: "map (leaves_of s1) as = map (leaves_of s) as"
    using d by (auto intro!: map_cong same)
  let ?w = "min (sum_list (map (leaves_of s1) (b # bs))) (sum_list (map (leaves_of s1) (a # as)))"
  let ?v = "min (sum_list (map (leaves_of s) (b # bs))) (sum_list (map (leaves_of s) (a # as)))"
  have w: "0 \<le> ?w" by (metis min_def sum_leaves_nonneg)
  have v: "?v = ?q + ?w" by (simp only: list.map sum_list.Cons mb ma p(3,4))
  have "map (leaves_of s') (b # bs) = served ?v (map (leaves_of s) (b # bs))"
    unfolding v using r(1) mb p(2,3) w by (simp only: list.map) (simp only: served_head)
  moreover have "map (leaves_of s') (a # as) = served ?v (map (leaves_of s) (a # as))"
    unfolding v using r(2) ma p(2,4) w by (simp only: list.map) (simp only: served_head)
  moreover have "sum_list (map te_quantity (trades_of (evs1 @ evs))) = ?v"
    unfolding v using p(5) r(3) by auto
  moreover have "ms_heap s' y = ms_heap s y" if "y \<notin> set (b # bs)" "y \<notin> set (a # as)" for y
    using r(4) [OF that] p(1) that by (simp add: heap_shrinks_def)
  moreover have "same_terms (ms_heap s' y) (ms_heap s y)" "leaves_of s' y \<le> leaves_of s y" for y
    using r(5,6) [of y] p(1) by (auto simp: heap_shrinks_def intro: same_terms_trans order_trans)
  moreover have "executed_at price (set (b # bs)) (set (a # as)) (evs1 @ evs)"
    using p(2,5) r(7) by (auto simp: executed_at_append executed_at_def)
  moreover have "book_inv s' \<and> set (book_orders (ms_book s')) =
      {y \<in> set (book_orders (ms_book s)). 0 < leaves_of s' y}" if "book_inv s"
    using p(6) [OF that] r(8) r(6) by (auto intro: less_le_trans)
  ultimately show ?thesis unfolding loop_result_def Let_def by blast
qed

text \<open>A pairing that finished the seller, and what is left runs without it.\<close>

lemma loop_result_pair_done:
  assumes ex: "execute_pair b a price now s = Inr (s1, evs1)"
    and d: "distinct (b # bs)" "distinct (a # as)" "set (b # bs) \<inter> set (a # as) = {}"
    and z: "leaves_of s1 a = 0" and rest: "loop_result (b # bs) as price s1 s' evs"
  shows "loop_result (b # bs) (a # as) price s s' (evs1 @ evs)"
proof (rule loop_result_pair [OF ex d])
  show "loop_result (b # bs) (a # as) price s1 s' evs"
    by (rule loop_result_skip(2) [OF z rest]) (use d in auto)
qed

lemma execute_loop_result:
  "execute_loop bs as price now s = Inr (s', evs) \<Longrightarrow> distinct bs \<Longrightarrow> distinct as \<Longrightarrow>
   set bs \<inter> set as = {} \<Longrightarrow> loop_result bs as price s s' evs"
proof (induction bs as price now s arbitrary: s' evs rule: execute_loop.induct)
  case (1 sellers price now s)
  then show ?case by (auto intro: loop_result_idle)
next
  case (2 b bs price now s)
  then show ?case by (auto intro: loop_result_idle)
next
  case (3 b bs a as price now s)
  note prems = "3.prems" and unfold = execute_loop.simps(3) [of b bs a as price now s]
  consider (buyer) "leaves_of s b \<le> 0" | (seller) "\<not> leaves_of s b \<le> 0" "leaves_of s a = 0"
    | (pair) "\<not> leaves_of s b \<le> 0" "leaves_of s a \<noteq> 0" by blast
  then show ?case
  proof cases
    case buyer
    then have z: "leaves_of s b = 0" using leaves_qty_nonneg [of "ms_heap s b"] by linarith
    have "loop_result bs (a # as) price s s' evs"
      using "3.IH"(1) [OF buyer] prems buyer by (auto simp: unfold)
    then show ?thesis by (rule loop_result_skip(1) [OF z]) (use prems in auto)
  next
    case seller
    have "loop_result (b # bs) as price s s' evs"
      using "3.IH"(2) [OF seller] prems seller by (auto simp: unfold)
    then show ?thesis by (rule loop_result_skip(2) [OF seller(2)]) (use prems in auto)
  next
    case pair
    from prems(1) pair obtain s1 evs1 evs2 where
        ex: "execute_pair b a price now s = Inr (s1, evs1)" and e: "evs = evs1 @ evs2" and
        rest: "(if leaves_of s1 a = 0 then execute_loop (b # bs) as price now s1
          else execute_loop (b # bs) (a # as) price now s1) = Inr (s', evs2)"
      unfolding unfold
      by (cases "execute_pair b a price now s") (auto simp: prepend_events_Inr split: if_splits)
    show ?thesis
    proof (cases "leaves_of s1 a = 0")
      case True
      have "loop_result (b # bs) as price s1 s' evs2"
        using "3.IH"(3) [OF pair ex refl True] rest True prems by auto
      then show ?thesis
        unfolding e using loop_result_pair_done [OF ex _ _ _ True] prems by blast
    next
      case False
      have "loop_result (b # bs) (a # as) price s1 s' evs2"
        using "3.IH"(4) [OF pair ex refl False] rest False prems by auto
      then show ?thesis
        unfolding e using loop_result_pair [OF ex] prems by blast
    qed
  qed
qed

subsection \<open>Who is executable\<close>

lemma executable_priced_filter:
  assumes "\<forall>r \<in> set rs. 0 < leaves_qty (h r)"
    and "sorted_wrt (\<lambda>x y. \<not> ahead b (price_of h y) (price_of h x)) rs"
  shows "executable_priced h b p rs = filter (\<lambda>r. \<not> ahead b p (price_of h r)) rs"
  using assms
proof (induction rs)
  case Nil
  then show ?case by simp
next
  case (Cons r rs)
  show ?case
  proof (cases "ahead b p (price_of h r)")
    case True
    with Cons.prems(2) have "\<forall>y \<in> set rs. ahead b p (price_of h y)"
      by (auto simp: ahead_def split: if_splits)
    with True Cons.prems(1) show ?thesis
      by (auto simp: ahead_def filter_empty_conv split: if_splits)
  next
    case False
    with Cons show ?thesis by (auto simp: ahead_def)
  qed
qed

lemma book_inv_sides:
  assumes "book_inv s"
  shows "side_ok (ms_heap s) (ob_bids (ms_book s))" "side_ok (ms_heap s) (ob_asks (ms_book s))"
    "bs_is_buy (ob_bids (ms_book s))" "\<not> bs_is_buy (ob_asks (ms_book s))"
    "x \<in> set (side_orders (ob_bids (ms_book s))) \<Longrightarrow> 0 < leaves_of s x \<and> is_buy (ms_heap s x)"
    "x \<in> set (side_orders (ob_asks (ms_book s))) \<Longrightarrow> 0 < leaves_of s x \<and> \<not> is_buy (ms_heap s x)"
  using assms side_ok_is_buy [of "ms_heap s" "ob_bids (ms_book s)" x]
    side_ok_is_buy [of "ms_heap s" "ob_asks (ms_book s)" x]
  by (auto simp: book_inv_def book_ok_def book_live_def book_orders_def)

definition served_at :: "heap \<Rightarrow> book_side \<Rightarrow> int \<Rightarrow> oid list" where
  "served_at h s p = bs_at_market s @
     filter (\<lambda>r. \<not> ahead (bs_is_buy s) p (price_of h r)) (orders_in_priority s)"

definition full_queue :: "book_side \<Rightarrow> oid list" where
  "full_queue s = bs_at_market s @ orders_in_priority s"

lemma executable_side_eq:
  assumes ok: "side_ok h s" and live: "\<forall>x \<in> set (side_orders s). 0 < leaves_qty (h x)"
  shows "executable_side h s p = served_at h s p"
proof -
  have "\<forall>x \<in> set (bs_at_market s). 0 < leaves_qty (h x)"
    and "\<forall>x \<in> set (orders_in_priority s). 0 < leaves_qty (h x)"
    using live side_orders_split [OF ok] by auto
  with queue_sorted [OF ok] show ?thesis
    by (simp add: executable_side_def served_at_def executable_priced_filter)
qed

text \<open>The executable orders are a prefix of the side's full queue.\<close>

lemma served_at_prefix:
  assumes "side_ok h s"
  shows "\<exists>rest. full_queue s = served_at h s p @ rest"
  using side_queue.queue_partition [OF assms, of p] by (auto simp: full_queue_def served_at_def)

lemma full_queue_facts:
  assumes ok: "side_ok h s"
  shows "distinct (full_queue s)" "set (full_queue s) = set (side_orders s)"
proof -
  have "set (bs_at_market s) \<inter> set (orders_in_priority s) = {}"
    using queue_priced [OF ok] side_ok_at_market [OF ok] by fastforce
  then show "distinct (full_queue s)"
    using side_okD(6) [OF ok] distinct_queue [OF ok] by (simp add: full_queue_def)
  show "set (full_queue s) = set (side_orders s)"
    using side_orders_split [OF ok] by (simp add: full_queue_def)
qed

lemma served_at_facts:
  assumes "side_ok h s"
  shows "distinct (served_at h s p)" "set (served_at h s p) \<subseteq> set (side_orders s)"
proof -
  obtain rest where q: "full_queue s = served_at h s p @ rest"
    using served_at_prefix [OF assms, of p] by blast
  show "distinct (served_at h s p)" "set (served_at h s p) \<subseteq> set (side_orders s)"
    using full_queue_facts [OF assms, unfolded q] by auto
qed

lemma served_at_total:
  assumes "book_ok h b"
  shows "sum_list (map (\<lambda>x. leaves_qty (h x)) (served_at h (ob_bids b) p)) = demand_of h b p"
    and "sum_list (map (\<lambda>x. leaves_qty (h x)) (served_at h (ob_asks b) p)) = supply_of h b p"
proof -
  note ok = book_okD [OF assms]
  have "(\<lambda>r. \<not> ahead True p (price_of h r)) = (\<lambda>r. p - 1 < price_of h r)"
    and "(\<lambda>r. \<not> ahead False p (price_of h r)) = (\<lambda>r. price_of h r < p + 1)"
    by (auto simp: ahead_def fun_eq_iff)
  then show "sum_list (map (\<lambda>x. leaves_qty (h x)) (served_at h (ob_bids b) p)) = demand_of h b p"
    and "sum_list (map (\<lambda>x. leaves_qty (h x)) (served_at h (ob_asks b) p)) = supply_of h b p"
    using ok by (simp_all add: served_at_def demand_of_def supply_of_def at_market_quantity_def
        quantity_above_eq quantity_below_eq)
qed

text \<open>The result of the whole execution, over the two executable queues.\<close>

lemma execute_auction_result:
  assumes ex: "execute_auction (Some p) now s = Inr (s', evs)" and inv: "book_inv s"
  shows "loop_result (served_at (ms_heap s) (ob_bids (ms_book s)) p)
    (served_at (ms_heap s) (ob_asks (ms_book s)) p) p s s' evs"
proof -
  note sd = book_inv_sides [OF inv]
  let ?B = "served_at (ms_heap s) (ob_bids (ms_book s)) p"
  let ?A = "served_at (ms_heap s) (ob_asks (ms_book s)) p"
  have eq: "executable_side (ms_heap s) (ob_bids (ms_book s)) p = ?B"
    "executable_side (ms_heap s) (ob_asks (ms_book s)) p = ?A"
    using sd by (auto intro!: executable_side_eq)
  have dis: "set ?B \<inter> set ?A = {}"
    using served_at_facts(2) [OF sd(1), of p] served_at_facts(2) [OF sd(2), of p] sd(5,6) by blast
  show ?thesis
  proof (cases "?B = [] \<or> ?A = []")
    case True
    with ex have "s' = s" "evs = []" by (auto simp: execute_auction_def eq)
    with True show ?thesis by (auto intro: loop_result_idle)
  next
    case False
    with ex have "execute_loop ?B ?A p now s = Inr (s', evs)"
      by (auto simp: execute_auction_def eq)
    then show ?thesis
      by (rule execute_loop_result) (use served_at_facts(1) [OF sd(1)] served_at_facts(1) [OF sd(2)] dis in auto)
  qed
qed

lemma auction_volume:
  assumes ex: "execute_auction (Some p) now s = Inr (s', evs)" and inv: "book_inv s"
  shows "sum_list (map te_quantity (trades_of evs)) = matchable (ms_heap s) (ms_book s) p"
  using loop_resultD(3) [OF execute_auction_result [OF assms]] inv
  by (simp add: matchable_def served_at_total book_inv_def)

subsection \<open>The book the auction leaves\<close>

lemma in_orders_in_priority:
  assumes "book_ok h b"
  shows "x \<in> set (orders_in_priority (ob_bids b)) \<longleftrightarrow>
      x \<in> set (book_orders b) \<and> is_buy (h x) \<and> o_price (h x) \<noteq> None"
    and "x \<in> set (orders_in_priority (ob_asks b)) \<longleftrightarrow>
      x \<in> set (book_orders b) \<and> \<not> is_buy (h x) \<and> o_price (h x) \<noteq> None"
proof -
  note ok = book_okD [OF assms]
  have "x \<in> set (orders_in_priority s) \<longleftrightarrow> x \<in> set (side_orders s) \<and> o_price (h x) \<noteq> None"
    if "side_ok h s" for s
    using side_orders_split [OF that] queue_priced [OF that, of x] side_ok_at_market [OF that, of x]
    by auto
  then show "x \<in> set (orders_in_priority (ob_bids b)) \<longleftrightarrow>
      x \<in> set (book_orders b) \<and> is_buy (h x) \<and> o_price (h x) \<noteq> None"
    and "x \<in> set (orders_in_priority (ob_asks b)) \<longleftrightarrow>
      x \<in> set (book_orders b) \<and> \<not> is_buy (h x) \<and> o_price (h x) \<noteq> None"
    using ok side_ok_is_buy [OF ok(3), of x] side_ok_is_buy [OF ok(4), of x]
    by (auto simp: book_orders_def)
qed

text \<open>
  An order the auction leaves open stands behind more than the executed volume, its own
  quantity included.
\<close>

lemma left_open_behind:
  fixes lv lv' :: "oid \<Rightarrow> int"
  assumes q: "full = pre @ rest" and v: "0 \<le> v" "v \<le> sum_list (map lv pre)"
    and sv: "map lv' pre = served v (map lv pre)" and nn: "\<forall>y. 0 \<le> lv y"
    and x: "x \<in> set full" "0 < lv' x" "x \<notin> set pre \<Longrightarrow> 0 < lv x"
  shows "\<exists>us ws. full = us @ x # ws \<and> v < sum_list (map lv (us @ [x]))"
proof (cases "x \<in> set pre")
  case True
  then obtain i where i: "i < length pre" "pre ! i = x" by (auto simp: in_set_conv_nth)
  have "served v (map lv pre) ! i = lv' x" using i sv [symmetric] by simp
  then have "v < sum_list (take (Suc i) (map lv pre))"
    using served_left [OF v(1), of "map lv pre" i] nn x(2) i(1) by auto
  moreover have "pre = take i pre @ x # drop (Suc i) pre" using i id_take_nth_drop by blast
  moreover have "take (Suc i) pre = take i pre @ [x]" using i by (simp add: take_Suc_conv_app_nth)
  ultimately show ?thesis unfolding q
    by (intro exI [of _ "take i pre"] exI [of _ "drop (Suc i) pre @ rest"]) (simp add: take_map)
next
  case False
  then obtain us ws where r: "rest = us @ x # ws" using x(1) q by (auto dest: split_list)
  have "0 \<le> sum_list (map lv us)" using nn by (intro sum_list_nonneg) auto
  then have "v < sum_list (map lv ((pre @ us) @ [x]))" using v(2) x(3) False by simp
  then show ?thesis unfolding q r by (intro exI [of _ "pre @ us"] exI [of _ ws]) simp
qed

text \<open>All that stands up to a priced order is served at that order's price.\<close>

lemma prefix_served:
  assumes ok: "side_ok h s" and q: "full_queue s = us @ x # ws"
    and x: "x \<in> set (orders_in_priority s)" and c: "\<not> ahead (bs_is_buy s) c (price_of h x)"
  shows "sum_list (map (\<lambda>y. leaves_qty (h y)) (us @ [x]))
    \<le> sum_list (map (\<lambda>y. leaves_qty (h y)) (served_at h s c))"
proof -
  have xm: "x \<notin> set (bs_at_market s)" using full_queue_facts(1) [OF ok] x by (auto simp: full_queue_def)
  obtain vs where us: "us = bs_at_market s @ vs" and pr: "orders_in_priority s = vs @ x # ws"
  proof -
    from q obtain u where "bs_at_market s = us @ u \<and> u @ orders_in_priority s = x # ws \<or>
        bs_at_market s @ u = us \<and> orders_in_priority s = u @ x # ws"
      unfolding full_queue_def append_eq_append_conv2 by blast
    then show ?thesis
    proof
      assume a: "bs_at_market s = us @ u \<and> u @ orders_in_priority s = x # ws"
      with xm have "u = []" by (cases u) auto
      with a show ?thesis by (intro that [of "[]"]) simp_all
    next
      assume "bs_at_market s @ u = us \<and> orders_in_priority s = u @ x # ws"
      then show ?thesis by (intro that [of u]) simp_all
    qed
  qed
  have "\<not> ahead (bs_is_buy s) c (price_of h y)" if "y \<in> set vs" for y
    using queue_sorted [OF ok] c that unfolding pr
    by (auto simp: sorted_wrt_append ahead_def split: if_splits)
  then have "filter (\<lambda>r. \<not> ahead (bs_is_buy s) c (price_of h r)) (vs @ [x]) = vs @ [x]"
    using c by (simp add: filter_id_conv)
  moreover have "0 \<le> sum_list (map (\<lambda>y. leaves_qty (h y))
      (filter (\<lambda>r. \<not> ahead (bs_is_buy s) c (price_of h r)) ws))"
    by (rule sum_list_nonneg) auto
  ultimately show ?thesis unfolding us served_at_def pr using c by simp
qed

lemma auction_leaves_uncrossed:
  assumes ex: "execute_auction (Some p) now s = Inr (s', evs)" and inv: "book_inv s"
    and best: "\<And>c. matchable (ms_heap s) (ms_book s) c \<le> matchable (ms_heap s) (ms_book s) p"
  shows "\<not> book_is_crossed (ms_book s')"
proof -
  let ?h = "ms_heap s" and ?b = "ms_book s"
  let ?B = "served_at ?h (ob_bids ?b) p" and ?A = "served_at ?h (ob_asks ?b) p"
  note r = loop_resultD [OF execute_auction_result [OF ex inv]] and sd = book_inv_sides [OF inv]
  have ok: "book_ok ?h ?b" and inv': "book_inv s'" using inv r(8) by (auto simp: book_inv_def)
  then have ok': "book_ok (ms_heap s') (ms_book s')" by (simp add: book_inv_def)
  have v: "min (sum_list (map (leaves_of s) ?B)) (sum_list (map (leaves_of s) ?A)) = matchable ?h ?b p"
    using served_at_total [OF ok] by (simp add: matchable_def)
  let ?v = "matchable ?h ?b p"
  have v0: "0 \<le> ?v" "?v \<le> sum_list (map (leaves_of s) ?B)" "?v \<le> sum_list (map (leaves_of s) ?A)"
    unfolding v [symmetric] using sum_leaves_nonneg [of s ?B] sum_leaves_nonneg [of s ?A] by linarith+
  have price: "price_of (ms_heap s') y = price_of ?h y" for y
    using r(5) [of y] by (simp add: price_of_def same_terms_def)
  have old: "y \<in> set (orders_in_priority (ob_bids ?b)) \<and> 0 < leaves_of s' y"
    if "y \<in> set (orders_in_priority (ob_bids (ms_book s')))" for y
    using that in_orders_in_priority(1) [OF ok', of y] in_orders_in_priority(1) [OF ok, of y]
      r(8) [OF inv] r(5) [of y] by (auto simp: same_terms_def is_buy_def)
  have old': "y \<in> set (orders_in_priority (ob_asks ?b)) \<and> 0 < leaves_of s' y"
    if "y \<in> set (orders_in_priority (ob_asks (ms_book s')))" for y
    using that in_orders_in_priority(2) [OF ok', of y] in_orders_in_priority(2) [OF ok, of y]
      r(8) [OF inv] r(5) [of y] by (auto simp: same_terms_def is_buy_def)
  have pos: "0 < leaves_of s y" if "0 < leaves_of s' y" for y using r(6) [of y] that by linarith
  have "price_of ?h x < price_of ?h y"
    if x: "x \<in> set (orders_in_priority (ob_bids (ms_book s')))"
    and y: "y \<in> set (orders_in_priority (ob_asks (ms_book s')))" for x y
  proof (rule ccontr)
    assume le: "\<not> ?thesis"
    let ?c = "price_of ?h x"
    obtain rb where fb: "full_queue (ob_bids ?b) = ?B @ rb" using served_at_prefix [OF sd(1)] by blast
    obtain ra where fa: "full_queue (ob_asks ?b) = ?A @ ra" using served_at_prefix [OF sd(2)] by blast
    obtain us ws where u: "full_queue (ob_bids ?b) = us @ x # ws"
        "?v < sum_list (map (leaves_of s) (us @ [x]))"
      using left_open_behind [OF fb v0(1,2) r(1) [unfolded v], of x] old [OF x] pos
      by (auto simp: full_queue_def)
    obtain us' ws' where u': "full_queue (ob_asks ?b) = us' @ y # ws'"
        "?v < sum_list (map (leaves_of s) (us' @ [y]))"
      using left_open_behind [OF fa v0(1,3) r(2) [unfolded v], of y] old' [OF y] pos
      by (auto simp: full_queue_def)
    have "sum_list (map (leaves_of s) (us @ [x])) \<le> demand_of ?h ?b ?c"
      using prefix_served [OF sd(1) u(1), of ?c] old [OF x] served_at_total(1) [OF ok] by simp
    moreover have "sum_list (map (leaves_of s) (us' @ [y])) \<le> supply_of ?h ?b ?c"
      using prefix_served [OF sd(2) u'(1), of ?c] old' [OF y] served_at_total(2) [OF ok] le sd(4)
      by (simp add: ahead_def)
    ultimately have "?v < matchable ?h ?b ?c" using u(2) u'(2) by (simp add: matchable_def)
    with best [of ?c] show False by simp
  qed
  then show ?thesis unfolding not_crossed_iff [OF ok'] by (simp add: price)
qed

end
