(* ===== verification/Market_Data.thy ===== *)
theory Market_Data
  imports Instruments Book_Queue Events
begin

section \<open>Market data (\<open>core/marketdata.py\<close>)\<close>

text \<open>
  Session statistics, the trade tape, the best bid and offer, depth and the tick-aligned
  board of one market. The service shares the market's books: its own dictionary holds
  references to them, so the model keeps the registered symbols and reads a book through
  the market's collection. What it hands to the publisher is the trace \<open>md_published\<close>;
  a publisher that fails is caught by the code and changes nothing.
\<close>

subsection \<open>Session statistics\<close>

record statistics =
  st_symbol :: string
  st_market :: "string option"
  st_open :: "int option"
  st_high :: "int option"
  st_low :: "int option"
  st_last :: "int option"
  st_last_quantity :: "int option"
  st_last_time :: "timestamp option"
  st_volume :: int
  st_turnover :: int
  st_trades :: nat

definition empty_statistics :: "string \<Rightarrow> string option \<Rightarrow> statistics" where
  "empty_statistics sy mkt = \<lparr>st_symbol = sy, st_market = mkt, st_open = None, st_high = None,
     st_low = None, st_last = None, st_last_quantity = None, st_last_time = None,
     st_volume = 0, st_turnover = 0, st_trades = 0\<rparr>"

definition record_statistics :: "int \<Rightarrow> int \<Rightarrow> timestamp option \<Rightarrow> statistics \<Rightarrow> statistics" where
  "record_statistics price quantity now st =
     st\<lparr>st_open := (case st_open st of None \<Rightarrow> Some price | Some p \<Rightarrow> Some p),
        st_high := (case st_high st of None \<Rightarrow> Some price
                    | Some p \<Rightarrow> Some (if price > p then price else p)),
        st_low := (case st_low st of None \<Rightarrow> Some price
                   | Some p \<Rightarrow> Some (if price < p then price else p)),
        st_last := Some price, st_last_quantity := Some quantity, st_last_time := now,
        st_volume := st_volume st + quantity,
        st_turnover := st_turnover st + price * quantity,
        st_trades := Suc (st_trades st)\<rparr>"

definition reset_one :: "statistics \<Rightarrow> statistics" where
  "reset_one st = empty_statistics (st_symbol st) (st_market st)"

definition vwap_units :: "statistics \<Rightarrow> int option" where
  "vwap_units st = (if st_volume st = 0 then None else Some (st_turnover st div st_volume st))"

fun record_all :: "(int \<times> int) list \<Rightarrow> timestamp option \<Rightarrow> statistics \<Rightarrow> statistics" where
  "record_all [] now st = st"
| "record_all ((p, q) # ts) now st = record_all ts now (record_statistics p q now st)"

text \<open>The statistics of a session are those of its list of trades.\<close>

definition stats_of :: "(int \<times> int) list \<Rightarrow> statistics \<Rightarrow> bool" where
  "stats_of ts st \<longleftrightarrow>
     st_open st = (case ts of [] \<Rightarrow> None | t # _ \<Rightarrow> Some (fst t)) \<and>
     st_last st = (if ts = [] then None else Some (fst (last ts))) \<and>
     st_high st = (if ts = [] then None else Some (Max (fst ` set ts))) \<and>
     st_low st = (if ts = [] then None else Some (Min (fst ` set ts))) \<and>
     st_volume st = sum_list (map snd ts) \<and>
     st_turnover st = sum_list (map (\<lambda>(p, q). p * q) ts) \<and>
     st_trades st = length ts"

lemma stats_of_empty: "stats_of [] (empty_statistics sy mkt)"
  by (simp add: stats_of_def empty_statistics_def)

lemma stats_of_record:
  assumes "stats_of ts st"
  shows "stats_of (ts @ [(p, q)]) (record_statistics p q now st)"
proof (cases "ts = []")
  case True
  with assms show ?thesis by (simp add: stats_of_def record_statistics_def)
next
  case False
  obtain u us where ts: "ts = u # us" using False by (cases ts) auto
  define hi where "hi = Max (fst ` set ts)"
  define lo where "lo = Min (fst ` set ts)"
  have ext: "Max (fst ` set (ts @ [(p, q)])) = max p hi" "Min (fst ` set (ts @ [(p, q)])) = min p lo"
    using False by (simp_all add: hi_def lo_def)
  have "st_high st = Some hi" "st_low st = Some lo" "st_open st = Some (fst u)"
    and sums: "st_volume st = sum_list (map snd ts)" "st_turnover st = sum_list (map (\<lambda>(p, q). p * q) ts)"
      "st_trades st = length ts"
    using assms False unfolding stats_of_def hi_def [symmetric] lo_def [symmetric] by (simp_all add: ts)
  then have "st_high (record_statistics p q now st) = Some (max p hi)"
    and "st_low (record_statistics p q now st) = Some (min p lo)"
    and "st_open (record_statistics p q now st) = Some (fst u)"
    by (simp_all add: record_statistics_def max_def min_def)
  with sums show ?thesis
    unfolding stats_of_def ext by (simp add: record_statistics_def ts)
qed

lemma stats_of_record_all:
  "stats_of ts st \<Longrightarrow> stats_of (ts @ us) (record_all us now st)"
proof (induction us arbitrary: ts st)
  case Nil
  then show ?case by simp
next
  case (Cons u us)
  obtain p q where u: "u = (p, q)" by (cases u)
  from Cons.IH [OF stats_of_record [OF Cons.prems, of p q now]] show ?case by (simp add: u)
qed

text \<open>The volume-weighted average lies between the day's low and high.\<close>

lemma vwap_bounds:
  assumes st: "stats_of ts st" and pos: "\<forall>(p, q) \<in> set ts. 0 < q"
    and v: "vwap_units st = Some w"
  shows "\<exists>lo hi. st_low st = Some lo \<and> st_high st = Some hi \<and> lo \<le> w \<and> w \<le> hi"
proof -
  have vol: "st_volume st = sum_list (map snd ts)" and turn: "st_turnover st = sum_list (map (\<lambda>(p, q). p * q) ts)"
    using st by (simp_all add: stats_of_def)
  from v have nz: "st_volume st \<noteq> 0" and w: "w = st_turnover st div st_volume st"
    by (auto simp: vwap_units_def split: if_splits)
  with vol have ne: "ts \<noteq> []" by auto
  let ?lo = "Min (fst ` set ts)" and ?hi = "Max (fst ` set ts)"
  let ?fs = "map (\<lambda>(p, q). (q, p)) ts"
  have eq: "map fst ?fs = map snd ts" "map (\<lambda>(q, p). p * q) ?fs = map (\<lambda>(p, q). p * q) ts"
    by auto
  have b: "\<forall>(q, p) \<in> set ?fs. 0 < q \<and> ?lo \<le> p \<and> p \<le> ?hi"
    using pos by (auto intro!: Min_le Max_ge image_eqI)
  have "0 \<le> sum_list (map snd ts)" using pos by (intro sum_list_nonneg) auto
  with nz vol have vpos: "0 < st_volume st" by simp
  have "?lo \<le> w \<and> w \<le> ?hi" unfolding w
    by (rule div_bounds [OF vpos])
      (use sum_list_price_bounds [OF b] in \<open>simp_all only: eq vol turn\<close>)
  with st ne show ?thesis by (auto simp: stats_of_def)
qed

subsection \<open>The service\<close>

record tape_row =
  tr_trade_id :: string
  tr_price :: string
  tr_quantity :: int
  tr_aggressor :: "side option"
  tr_time :: "timestamp option"

record bbo_view =
  bv_symbol :: string
  bv_bid :: "string option"
  bv_bid_qty :: int
  bv_ask :: "string option"
  bv_ask_qty :: int
  bv_spread :: "string option"

datatype publication = TradePublished string tape_row | BookPublished string bbo_view

record market_data =
  md_market :: string
  md_codec :: price_codec
  md_tape_length :: nat
  md_publisher :: bool
  md_symbols :: "string list"
  md_statistics :: "(string \<times> statistics) list"
  md_tapes :: "(string \<times> tape_row list) list"
  md_published :: "publication list"

definition new_market_data :: "string \<Rightarrow> price_codec \<Rightarrow> nat \<Rightarrow> bool \<Rightarrow> market_data" where
  "new_market_data mkt c n pub = \<lparr>md_market = mkt, md_codec = c, md_tape_length = n,
     md_publisher = pub, md_symbols = [], md_statistics = [], md_tapes = [], md_published = []\<rparr>"

text \<open>\<open>dict.setdefault\<close>.\<close>

definition set_default :: "'k \<Rightarrow> 'v \<Rightarrow> ('k \<times> 'v) list \<Rightarrow> ('k \<times> 'v) list" where
  "set_default k v d = (case map_of d k of None \<Rightarrow> AList.update k v d | Some _ \<Rightarrow> d)"

definition md_register :: "string \<Rightarrow> market_data \<Rightarrow> market_data" where
  "md_register sy d =
     d\<lparr>md_symbols := od_insert sy (md_symbols d),
       md_statistics := set_default sy (empty_statistics sy (Some (md_market d))) (md_statistics d),
       md_tapes := set_default sy [] (md_tapes d)\<rparr>"

definition md_unregister :: "string \<Rightarrow> market_data \<Rightarrow> market_data" where
  "md_unregister sy d =
     d\<lparr>md_symbols := od_remove sy (md_symbols d),
       md_statistics := AList.delete sy (md_statistics d),
       md_tapes := AList.delete sy (md_tapes d)\<rparr>"

text \<open>A bounded \<open>deque\<close> drops from the front.\<close>

definition tape_append :: "nat \<Rightarrow> 'a \<Rightarrow> 'a list \<Rightarrow> 'a list" where
  "tape_append n x xs = (let ys = xs @ [x] in drop (length ys - n) ys)"

definition publish :: "publication \<Rightarrow> market_data \<Rightarrow> market_data" where
  "publish p d = (if md_publisher d then d\<lparr>md_published := md_published d @ [p]\<rparr> else d)"

text \<open>A time of zero is written as no time.\<close>

definition shown_time :: "timestamp option \<Rightarrow> timestamp option" where
  "shown_time t = (case t of None \<Rightarrow> None | Some n \<Rightarrow> (if n = 0 then None else Some n))"

definition md_ensure :: "string \<Rightarrow> market_data \<Rightarrow> market_data" where
  "md_ensure sy d =
     (case map_of (md_statistics d) sy of Some _ \<Rightarrow> d
      | None \<Rightarrow> d\<lparr>md_statistics :=
                   AList.update sy (empty_statistics sy (Some (md_market d))) (md_statistics d),
                 md_tapes := AList.update sy [] (md_tapes d)\<rparr>)"

definition md_record_trade :: "trade_event \<Rightarrow> market_data \<Rightarrow> exn + market_data" where
  "md_record_trade t d =
     (let sy = te_symbol t; d1 = md_ensure sy d
      in case (map_of (md_statistics d1) sy, map_of (md_tapes d1) sy) of
           (Some st, Some tape) \<Rightarrow>
             bind_exn (format_price (md_codec d1) (te_price t)) (\<lambda>pt.
               let row = \<lparr>tr_trade_id = te_trade_id t, tr_price = pt, tr_quantity = te_quantity t,
                          tr_aggressor = te_aggressor_side t, tr_time = shown_time (te_timestamp t)\<rparr>;
                   tape' = tape_append (md_tape_length d1) row tape
               in if tape' = [] then Inl IndexError
                  else Inr (publish (TradePublished sy (last tape'))
                    (d1\<lparr>md_statistics := AList.update sy
                           (record_statistics (te_price t) (te_quantity t) (te_timestamp t) st)
                           (md_statistics d1),
                        md_tapes := AList.update sy tape' (md_tapes d1)\<rparr>)))
         | _ \<Rightarrow> Inl KeyError)"

fun reset_statistics_loop :: "string list \<Rightarrow> market_data \<Rightarrow> market_data" where
  "reset_statistics_loop [] d = d"
| "reset_statistics_loop (sy # sys) d = reset_statistics_loop sys
     (d\<lparr>md_statistics := (case map_of (md_statistics d) sy of None \<Rightarrow> md_statistics d
          | Some st \<Rightarrow> AList.update sy (reset_one st) (md_statistics d)),
        md_tapes := (case map_of (md_tapes d) sy of None \<Rightarrow> md_tapes d
          | Some _ \<Rightarrow> AList.update sy [] (md_tapes d))\<rparr>)"

definition md_reset_statistics :: "string option \<Rightarrow> market_data \<Rightarrow> market_data" where
  "md_reset_statistics sy d =
     reset_statistics_loop (if truthy sy then [show_opt sy] else map fst (md_statistics d)) d"

subsection \<open>Views\<close>

type_synonym books = "(string \<times> order_book) list"

definition format_opt :: "price_codec \<Rightarrow> int option \<Rightarrow> exn + string option" where
  "format_opt c p = (case p of None \<Rightarrow> Inr None
     | Some u \<Rightarrow> bind_exn (format_price c u) (\<lambda>t. Inr (Some t)))"

definition md_book :: "market_data \<Rightarrow> books \<Rightarrow> string \<Rightarrow> order_book option" where
  "md_book d bs sy = (if sy \<in> set (md_symbols d) then map_of bs sy else None)"

definition size_at_best :: "heap \<Rightarrow> book_side \<Rightarrow> int" where
  "size_at_best h s = (case best_price s of None \<Rightarrow> 0 | Some p \<Rightarrow> quantity_at h s p)"

definition md_bbo :: "heap \<Rightarrow> books \<Rightarrow> string \<Rightarrow> market_data \<Rightarrow> exn + bbo_view option" where
  "md_bbo h bs sy d =
     (case md_book d bs sy of None \<Rightarrow> Inr None
      | Some b \<Rightarrow>
          bind_exn (format_opt (md_codec d) (best_price (ob_bids b))) (\<lambda>bid.
          bind_exn (format_opt (md_codec d) (best_price (ob_asks b))) (\<lambda>ask.
          bind_exn (format_opt (md_codec d) (book_spread b)) (\<lambda>spread.
            Inr (Some \<lparr>bv_symbol = sy, bv_bid = bid, bv_bid_qty = size_at_best h (ob_bids b),
                       bv_ask = ask, bv_ask_qty = size_at_best h (ob_asks b),
                       bv_spread = spread\<rparr>)))))"

text \<open>The top of book is built before the publisher is called, so writing it may raise.\<close>

definition md_notify :: "heap \<Rightarrow> books \<Rightarrow> string \<Rightarrow> market_data \<Rightarrow> exn + market_data" where
  "md_notify h bs sy d =
     bind_exn (md_bbo h bs sy d) (\<lambda>view. case view of None \<Rightarrow> Inr d
       | Some v \<Rightarrow> Inr (publish (BookPublished sy v) d))"

definition depth_view :: "price_codec \<Rightarrow> depth_row list \<Rightarrow> exn + (string \<times> int \<times> nat) list" where
  "depth_view c rows =
     map_exn (\<lambda>r. bind_exn (format_price c (dr_price r)) (\<lambda>t. Inr (t, dr_quantity r, dr_orders r))) rows"

definition md_depth ::
    "heap \<Rightarrow> books \<Rightarrow> string \<Rightarrow> nat \<Rightarrow> market_data \<Rightarrow>
     exn + ((string \<times> int \<times> nat) list \<times> (string \<times> int \<times> nat) list) option" where
  "md_depth h bs sy levels d =
     (case md_book d bs sy of None \<Rightarrow> Inr None
      | Some b \<Rightarrow>
          bind_exn (depth_view (md_codec d) (side_depth h (ob_bids b) levels)) (\<lambda>bids.
          bind_exn (depth_view (md_codec d) (side_depth h (ob_asks b) levels)) (\<lambda>asks.
            Inr (Some (bids, asks)))))"

definition md_trades :: "string \<Rightarrow> nat \<Rightarrow> market_data \<Rightarrow> tape_row list option" where
  "md_trades sy limit d =
     (case map_of (md_tapes d) sy of None \<Rightarrow> None
      | Some tape \<Rightarrow> Some (if limit = 0 then tape else drop (length tape - limit) tape))"

subsection \<open>The tick-aligned board\<close>

definition tick_at :: "instrument option \<Rightarrow> int option \<Rightarrow> exn + int" where
  "tick_at inst price =
     (case (inst, price) of
        (Some i, Some p) \<Rightarrow>
          bind_exn (tick_size i p) (\<lambda>tick. Inr (case tick of None \<Rightarrow> 1 | Some t \<Rightarrow> if t = 0 then 1 else t))
      | _ \<Rightarrow> Inr 1)"

fun walk_above :: "instrument option \<Rightarrow> int option \<Rightarrow> nat \<Rightarrow> int \<Rightarrow> exn + int list" where
  "walk_above inst high 0 price = Inr []"
| "walk_above inst high (Suc n) price =
     bind_exn (tick_at inst (Some price)) (\<lambda>step.
       let p = price + step
       in if (case high of None \<Rightarrow> False | Some hi \<Rightarrow> p > hi) then Inr []
          else bind_exn (walk_above inst high n p) (\<lambda>rest. Inr (p # rest)))"

fun walk_below :: "instrument option \<Rightarrow> int option \<Rightarrow> nat \<Rightarrow> int \<Rightarrow> exn + int list" where
  "walk_below inst low 0 price = Inr []"
| "walk_below inst low (Suc n) price =
     bind_exn (tick_at inst (Some (max 1 (price - 1)))) (\<lambda>step.
       let p = price - step
       in if p < 1 \<or> (case low of None \<Rightarrow> False | Some lo \<Rightarrow> p < lo) then Inr []
          else bind_exn (walk_below inst low n p) (\<lambda>rest. Inr (p # rest)))"

definition walk_board ::
    "int option \<Rightarrow> instrument option \<Rightarrow> nat \<Rightarrow> (int \<times> int) option \<Rightarrow> exn + int list" where
  "walk_board anchor inst rows limits =
     (case anchor of None \<Rightarrow> Inr []
      | Some a \<Rightarrow>
         (let low = map_option fst limits; high = map_option snd limits;
              within = (case low of None \<Rightarrow> True | Some lo \<Rightarrow> a \<ge> lo) \<and>
                       (case high of None \<Rightarrow> True | Some hi \<Rightarrow> a \<le> hi)
          in bind_exn (walk_above inst high rows a) (\<lambda>above.
             bind_exn (walk_below inst low rows a) (\<lambda>below.
               Inr (rev above @ (if within then [a] else []) @ below)))))"

definition md_anchor :: "order_book \<Rightarrow> instrument option \<Rightarrow> int option \<Rightarrow> market_data \<Rightarrow> int option" where
  "md_anchor b inst center d =
     (case center of Some c \<Rightarrow> Some c
      | None \<Rightarrow>
         (case (best_price (ob_bids b), best_price (ob_asks b)) of
            (Some bid, Some ask) \<Rightarrow> Some ((bid + ask) div 2)
          | (Some bid, None) \<Rightarrow> Some bid
          | (None, Some ask) \<Rightarrow> Some ask
          | (None, None) \<Rightarrow>
             (case map_of (md_statistics d) (ob_symbol b) of
                Some st \<Rightarrow> (case st_last st of Some p \<Rightarrow> Some p
                           | None \<Rightarrow> (case inst of None \<Rightarrow> None | Some i \<Rightarrow> in_base_price i))
              | None \<Rightarrow> (case inst of None \<Rightarrow> None | Some i \<Rightarrow> in_base_price i))))"

record board_row =
  br_price :: string
  br_bid_qty :: int
  br_bid_orders :: nat
  br_ask_qty :: int
  br_ask_orders :: nat

record board =
  bd_anchor :: "string option"
  bd_tick :: "string option"
  bd_last :: "string option"
  bd_limits :: "(string \<times> string) option"
  bd_rows :: "board_row list"
  bd_bid_at_auction :: int
  bd_ask_at_auction :: int
  bd_over :: int
  bd_under :: int

definition snapped_anchor :: "instrument option \<Rightarrow> int option \<Rightarrow> exn + int option" where
  "snapped_anchor inst anchor =
     (case anchor of None \<Rightarrow> Inr None
      | Some a \<Rightarrow> bind_exn (tick_at inst (Some a)) (\<lambda>t. Inr (Some (a - a mod t))))"

definition board_rows :: "heap \<Rightarrow> price_codec \<Rightarrow> order_book \<Rightarrow> int list \<Rightarrow> exn + board_row list" where
  "board_rows h c b prices =
     map_exn (\<lambda>p. bind_exn (format_price c p) (\<lambda>t. Inr
       \<lparr>br_price = t, br_bid_qty = quantity_at h (ob_bids b) p, br_bid_orders = orders_at (ob_bids b) p,
        br_ask_qty = quantity_at h (ob_asks b) p, br_ask_orders = orders_at (ob_asks b) p\<rparr>)) prices"

definition md_ladder ::
    "heap \<Rightarrow> books \<Rightarrow> string \<Rightarrow> instrument option \<Rightarrow> nat \<Rightarrow> int option \<Rightarrow> market_data \<Rightarrow> exn + board option" where
  "md_ladder h bs sy inst rows center d =
     (case md_book d bs sy of None \<Rightarrow> Inr None
      | Some b \<Rightarrow>
         (let c = md_codec d; limits = (case inst of None \<Rightarrow> None | Some i \<Rightarrow> price_limits i)
          in bind_exn (snapped_anchor inst (md_anchor b inst center d)) (\<lambda>anchor.
             bind_exn (walk_board anchor inst rows limits) (\<lambda>prices.
             bind_exn (format_opt c anchor) (\<lambda>anchor_t.
             bind_exn (case anchor of None \<Rightarrow> Inr None
                       | Some a \<Rightarrow> bind_exn (tick_at inst (Some a)) (\<lambda>t. format_opt c (Some t))) (\<lambda>tick_t.
             bind_exn (format_opt c (case map_of (md_statistics d) sy of None \<Rightarrow> None
                                     | Some st \<Rightarrow> st_last st)) (\<lambda>last_t.
             bind_exn (case limits of None \<Rightarrow> Inr None
                       | Some (lo, hi) \<Rightarrow> bind_exn (format_price c lo) (\<lambda>l.
                           bind_exn (format_price c hi) (\<lambda>u. Inr (Some (l, u))))) (\<lambda>limits_t.
             bind_exn (board_rows h c b prices) (\<lambda>rs.
               Inr (Some \<lparr>bd_anchor = anchor_t, bd_tick = tick_t, bd_last = last_t,
                 bd_limits = limits_t, bd_rows = rs,
                 bd_bid_at_auction = at_market_quantity h (ob_bids b),
                 bd_ask_at_auction = at_market_quantity h (ob_asks b),
                 bd_over = (if prices = [] then 0 else quantity_above h (ob_asks b) (hd prices)),
                 bd_under = (if prices = [] then 0 else quantity_below h (ob_bids b) (last prices))\<rparr>))))))))))"

subsection \<open>The board is one row per tick, highest first\<close>

definition ticks_positive :: "instrument option \<Rightarrow> bool" where
  "ticks_positive inst \<longleftrightarrow> (\<forall>p t. tick_at inst (Some p) = Inr t \<longrightarrow> 0 < t)"

lemma walk_above_Suc:
  "walk_above inst high (Suc n) price = Inr ps \<longleftrightarrow>
    (\<exists>t. tick_at inst (Some price) = Inr t \<and>
      ((\<exists>hi. high = Some hi \<and> price + t > hi) \<and> ps = [] \<or>
       (\<forall>hi. high = Some hi \<longrightarrow> price + t \<le> hi) \<and>
         (\<exists>rest. walk_above inst high n (price + t) = Inr rest \<and> ps = (price + t) # rest)))"
  by (cases high) (auto simp: bind_exn_Inr Let_def)

lemma walk_above_sorted:
  "walk_above inst high n price = Inr ps \<Longrightarrow> ticks_positive inst \<Longrightarrow>
     sorted_wrt (<) (price # ps) \<and> length ps \<le> n \<and> (\<forall>p \<in> set ps. \<forall>hi. high = Some hi \<longrightarrow> p \<le> hi)"
proof (induction n arbitrary: price ps)
  case 0
  then show ?case by simp
next
  case (Suc n)
  from Suc.prems(1) obtain t where t: "tick_at inst (Some price) = Inr t" and
    c: "ps = [] \<or> (\<forall>hi. high = Some hi \<longrightarrow> price + t \<le> hi) \<and>
         (\<exists>rest. walk_above inst high n (price + t) = Inr rest \<and> ps = (price + t) # rest)"
    unfolding walk_above_Suc by blast
  from t Suc.prems(2) have pos: "0 < t" by (auto simp: ticks_positive_def)
  from c show ?case
  proof
    assume "(\<forall>hi. high = Some hi \<longrightarrow> price + t \<le> hi) \<and>
         (\<exists>rest. walk_above inst high n (price + t) = Inr rest \<and> ps = (price + t) # rest)"
    then obtain rest where r: "walk_above inst high n (price + t) = Inr rest" "ps = (price + t) # rest"
        "\<forall>hi. high = Some hi \<longrightarrow> price + t \<le> hi" by blast
    from Suc.IH [OF r(1) Suc.prems(2)] pos r(2,3) show ?thesis by fastforce
  qed simp
qed

lemma walk_below_Suc:
  "walk_below inst low (Suc n) price = Inr ps \<longleftrightarrow>
    (\<exists>t. tick_at inst (Some (max 1 (price - 1))) = Inr t \<and>
      ((price - t < 1 \<or> (\<exists>lo. low = Some lo \<and> price - t < lo)) \<and> ps = [] \<or>
       (1 \<le> price - t \<and> (\<forall>lo. low = Some lo \<longrightarrow> lo \<le> price - t)) \<and>
         (\<exists>rest. walk_below inst low n (price - t) = Inr rest \<and> ps = (price - t) # rest)))"
  by (cases low) (auto simp: bind_exn_Inr Let_def)

lemma walk_below_sorted:
  "walk_below inst low n price = Inr ps \<Longrightarrow> ticks_positive inst \<Longrightarrow>
     sorted_wrt (>) (price # ps) \<and> length ps \<le> n \<and>
     (\<forall>p \<in> set ps. 1 \<le> p \<and> (\<forall>lo. low = Some lo \<longrightarrow> lo \<le> p))"
proof (induction n arbitrary: price ps)
  case 0
  then show ?case by simp
next
  case (Suc n)
  from Suc.prems(1) obtain t where t: "tick_at inst (Some (max 1 (price - 1))) = Inr t" and
    c: "ps = [] \<or> (1 \<le> price - t \<and> (\<forall>lo. low = Some lo \<longrightarrow> lo \<le> price - t)) \<and>
         (\<exists>rest. walk_below inst low n (price - t) = Inr rest \<and> ps = (price - t) # rest)"
    unfolding walk_below_Suc by blast
  from t Suc.prems(2) have pos: "0 < t" by (auto simp: ticks_positive_def)
  from c show ?case
  proof
    assume "(1 \<le> price - t \<and> (\<forall>lo. low = Some lo \<longrightarrow> lo \<le> price - t)) \<and>
         (\<exists>rest. walk_below inst low n (price - t) = Inr rest \<and> ps = (price - t) # rest)"
    then obtain rest where r: "walk_below inst low n (price - t) = Inr rest" "ps = (price - t) # rest"
        "1 \<le> price - t" "\<forall>lo. low = Some lo \<longrightarrow> lo \<le> price - t" by blast
    from Suc.IH [OF r(1) Suc.prems(2)] pos r(2-4) show ?thesis by fastforce
  qed simp
qed

lemma walk_board_sorted:
  assumes w: "walk_board (Some a) inst rows limits = Inr ps" and t: "ticks_positive inst"
  shows "sorted_wrt (>) ps \<and> length ps \<le> 2 * rows + 1 \<and>
    (\<forall>p \<in> set ps. \<forall>lo hi. limits = Some (lo, hi) \<longrightarrow>
       (p \<le> a \<longrightarrow> lo \<le> p) \<and> (a \<le> p \<longrightarrow> p \<le> hi)) \<and>
    (\<forall>p \<in> set ps. p < a \<longrightarrow> 1 \<le> p)"
proof -
  from w obtain above below where
    ab: "walk_above inst (map_option snd limits) rows a = Inr above" and
    be: "walk_below inst (map_option fst limits) rows a = Inr below" and
    ps: "ps = rev above @ (if (case map_option fst limits of None \<Rightarrow> True | Some lo \<Rightarrow> a \<ge> lo) \<and>
              (case map_option snd limits of None \<Rightarrow> True | Some hi \<Rightarrow> a \<le> hi) then [a] else []) @ below"
    by (auto simp: walk_board_def Let_def bind_exn_Inr)
  have A: "sorted_wrt (<) (a # above)" "length above \<le> rows"
      "\<forall>p \<in> set above. \<forall>hi. map_option snd limits = Some hi \<longrightarrow> p \<le> hi"
    using walk_above_sorted [OF ab t] by blast+
  have B: "sorted_wrt (>) (a # below)" "length below \<le> rows"
      "\<forall>p \<in> set below. 1 \<le> p \<and> (\<forall>lo. map_option fst limits = Some lo \<longrightarrow> lo \<le> p)"
    using walk_below_sorted [OF be t] by blast+
  have "sorted_wrt (>) ps"
    using A(1) B(1) by (auto simp: ps sorted_wrt_append sorted_wrt_rev intro: less_trans)
  moreover have "length ps \<le> 2 * rows + 1" using A(2) B(2) by (simp add: ps)
  moreover have "(p \<le> a \<longrightarrow> lo \<le> p) \<and> (a \<le> p \<longrightarrow> p \<le> hi)"
    if "p \<in> set ps" "limits = Some (lo, hi)" for p lo hi
    using that A(1,3) B(1,3) by (auto simp: ps split: if_splits)
  moreover have "1 \<le> p" if "p \<in> set ps" "p < a" for p
    using that A(1) B(3) by (auto simp: ps split: if_splits)
  ultimately show ?thesis by blast
qed

text \<open>Every row above the anchor is one tick above the row it stands on.\<close>

fun rising_by_tick :: "instrument option \<Rightarrow> int \<Rightarrow> int list \<Rightarrow> bool" where
  "rising_by_tick inst p [] = True"
| "rising_by_tick inst p (q # qs) = (tick_at inst (Some p) = Inr (q - p) \<and> rising_by_tick inst q qs)"

lemma walk_above_ticks: "walk_above inst high n p = Inr ps \<Longrightarrow> rising_by_tick inst p ps"
proof (induction n arbitrary: p ps)
  case 0
  then show ?case by simp
next
  case (Suc n)
  from Suc.prems show ?case unfolding walk_above_Suc by (auto intro: Suc.IH)
qed

subsection \<open>The service's bookkeeping\<close>

text \<open>Statistics and tapes are kept for the same symbols, and every tape is bounded.\<close>

definition md_ok :: "market_data \<Rightarrow> bool" where
  "md_ok d \<longleftrightarrow> 0 < md_tape_length d \<and>
     set (md_symbols d) \<subseteq> fst ` set (md_statistics d) \<and>
     fst ` set (md_statistics d) = fst ` set (md_tapes d) \<and>
     distinct (map fst (md_tapes d)) \<and>
     (\<forall>(sy, tape) \<in> set (md_tapes d). length tape \<le> md_tape_length d)"

lemma md_ok_new: "0 < n \<Longrightarrow> md_ok (new_market_data mkt c n pub)"
  by (simp add: md_ok_def new_market_data_def)

lemma distinct_keys_update: "distinct (map fst d) \<Longrightarrow> distinct (map fst (AList.update k v d))"
  by (rule distinct_update)

lemma in_update: "(k', v') \<in> set (AList.update k v d) \<Longrightarrow> (k', v') = (k, v) \<or> (k', v') \<in> set d"
  by (induction d) (auto split: if_splits)

lemma set_default_facts:
  "fst ` set (set_default k v d) = insert k (fst ` set d)"
  "distinct (map fst d) \<Longrightarrow> distinct (map fst (set_default k v d))"
  "(k', v') \<in> set (set_default k v d) \<Longrightarrow> (k', v') = (k, v) \<or> (k', v') \<in> set d"
  using weak_map_of_SomeI [of k _ d]
  by (auto simp: set_default_def keys_update distinct_keys_update map_of_eq_None_iff
      dest: in_update map_of_SomeD split: option.splits) (metis fst_conv image_eqI map_of_SomeD)

lemma md_ok_register: "md_ok d \<Longrightarrow> md_ok (md_register sy d)"
  by (auto simp: md_ok_def md_register_def set_default_facts(1,2) dest!: set_default_facts(3))

lemma in_delete: "e \<in> set (AList.delete k d) \<Longrightarrow> e \<in> set d"
  by (simp add: AList.delete_eq)

lemma md_ok_unregister:
  assumes "md_ok d"
  shows "md_ok (md_unregister sy d)"
  using assms distinct_keys_delete [of "md_tapes d" sy]
  by (auto simp: md_ok_def md_unregister_def keys_delete dest!: in_delete)

lemma md_publish_simps [simp]:
  "md_ok (publish p d) = md_ok d" "md_symbols (publish p d) = md_symbols d"
  "md_statistics (publish p d) = md_statistics d" "md_tapes (publish p d) = md_tapes d"
  "md_market (publish p d) = md_market d" "md_codec (publish p d) = md_codec d"
  "md_tape_length (publish p d) = md_tape_length d"
  by (simp_all add: publish_def md_ok_def)

lemma length_tape_append: "length (tape_append n x xs) \<le> n"
  by (simp add: tape_append_def Let_def)

lemma tape_append_last: "0 < n \<Longrightarrow> tape_append n x xs \<noteq> [] \<and> last (tape_append n x xs) = x"
  by (simp add: tape_append_def Let_def last_drop)

lemma md_ok_update:
  assumes "md_ok d" and "length tape \<le> md_tape_length d"
  shows "md_ok (d\<lparr>md_statistics := AList.update sy st (md_statistics d),
                   md_tapes := AList.update sy tape (md_tapes d)\<rparr>)"
proof -
  have "\<forall>(sy', tape') \<in> set (AList.update sy tape (md_tapes d)). length tape' \<le> md_tape_length d"
    using assms by (auto simp: md_ok_def dest!: in_update)
  moreover have "set (md_symbols d) \<subseteq> insert sy (fst ` set (md_statistics d))"
    and "insert sy (fst ` set (md_statistics d)) = insert sy (fst ` set (md_tapes d))"
    using assms(1) by (auto simp only: md_ok_def)
  ultimately show ?thesis
    using assms(1) distinct_keys_update [of "md_tapes d" sy tape]
    by (simp add: md_ok_def keys_update)
qed

lemma md_ensure_facts:
  assumes "md_ok d"
  shows "md_ok (md_ensure sy d)" "md_symbols (md_ensure sy d) = md_symbols d"
    "md_codec (md_ensure sy d) = md_codec d" "md_ensure sy (md_ensure sy d) = md_ensure sy d"
    "\<exists>st. map_of (md_statistics (md_ensure sy d)) sy = Some st"
  using assms md_ok_update [OF assms, of "[]" sy]
  by (auto simp: md_ensure_def map_of_update_eq split: option.splits)

text \<open>A trade whose price can be written is always recorded; nothing else can go wrong.\<close>

lemma md_record_trade_known:
  assumes ok: "md_ok d" and p: "\<bar>te_price t\<bar> < 10 ^ context_prec"
    and st: "map_of (md_statistics d) (te_symbol t) = Some st"
  shows "\<exists>d'. md_record_trade t d = Inr d' \<and> md_ok d' \<and> md_symbols d' = md_symbols d \<and>
    md_codec d' = md_codec d \<and> map_of (md_statistics d') (te_symbol t) =
      Some (record_statistics (te_price t) (te_quantity t) (te_timestamp t) st)"
proof -
  obtain pt where pt: "format_price (md_codec d) (te_price t) = Inr pt"
    using format_defined p by blast
  have "te_symbol t \<in> fst ` set (md_statistics d)" using map_of_in_set [OF st] by (metis fst_conv image_eqI)
  then have "te_symbol t \<in> fst ` set (md_tapes d)" using ok by (simp add: md_ok_def)
  then obtain tape where tape: "map_of (md_tapes d) (te_symbol t) = Some tape"
    using map_of_eq_None_iff [of "md_tapes d" "te_symbol t"]
    by (cases "map_of (md_tapes d) (te_symbol t)") simp_all
  let ?row = "\<lparr>tr_trade_id = te_trade_id t, tr_price = pt, tr_quantity = te_quantity t,
                          tr_aggressor = te_aggressor_side t, tr_time = shown_time (te_timestamp t)\<rparr>"
  let ?tape = "tape_append (md_tape_length d) ?row tape"
  have ta: "?tape \<noteq> []"
    using tape_append_last [of "md_tape_length d" ?row tape] ok by (simp add: md_ok_def)
  have "md_record_trade t d = Inr (publish (TradePublished (te_symbol t) (last ?tape))
      (d\<lparr>md_statistics := AList.update (te_symbol t)
           (record_statistics (te_price t) (te_quantity t) (te_timestamp t) st) (md_statistics d),
         md_tapes := AList.update (te_symbol t) ?tape (md_tapes d)\<rparr>))"
    using ta by (simp add: md_record_trade_def Let_def md_ensure_def st tape pt)
  moreover have "md_ok (d\<lparr>md_statistics := AList.update (te_symbol t)
           (record_statistics (te_price t) (te_quantity t) (te_timestamp t) st) (md_statistics d),
         md_tapes := AList.update (te_symbol t) ?tape (md_tapes d)\<rparr>)"
    by (rule md_ok_update [OF ok length_tape_append])
  ultimately show ?thesis by (simp add: map_of_update_eq)
qed

lemma md_record_trade_defined:
  assumes ok: "md_ok d" and p: "\<bar>te_price t\<bar> < 10 ^ context_prec"
  shows "\<exists>d'. md_record_trade t d = Inr d' \<and> md_ok d' \<and>
    md_symbols d' = md_symbols d \<and> md_codec d' = md_codec d"
proof -
  let ?d = "md_ensure (te_symbol t) d"
  note e = md_ensure_facts [OF ok, of "te_symbol t"]
  obtain st where "map_of (md_statistics ?d) (te_symbol t) = Some st" using e(5) by blast
  from md_record_trade_known [OF e(1) p this] obtain d' where
    "md_record_trade t ?d = Inr d'" "md_ok d'" "md_symbols d' = md_symbols ?d" "md_codec d' = md_codec ?d"
    by blast
  moreover have "md_record_trade t ?d = md_record_trade t d"
    by (simp only: md_record_trade_def Let_def e(4))
  ultimately show ?thesis using e(2,3) by simp
qed

end
