(* ===== verification/Market.thy ===== *)
theory Market
  imports Validation Auction_Exec Market_Data Matching_Spec
begin

section \<open>A market (\<open>core/market.py\<close>)\<close>

text \<open>
  One book per instrument, one phase machine, one matching engine, one market data
  service. The store of orders and the trade identifiers are shared by every market of a
  venue, so an operation takes and returns them beside the market itself.
\<close>

record market =
  mk_name :: string
  mk_codec :: price_codec
  mk_rules :: "auction_rule list"
  mk_state :: state_machine
  mk_matching :: matching_engine
  mk_data :: market_data
  mk_books :: books

record mworld =
  mw_heap :: heap
  mw_ids :: idgen
  mw_market :: market

definition new_market ::
    "string \<Rightarrow> price_codec \<Rightarrow> stp_mode \<Rightarrow> trading_state \<Rightarrow> bool \<Rightarrow> nat \<Rightarrow> bool \<Rightarrow>
     auction_rule list \<Rightarrow> timestamp option \<Rightarrow> market" where
  "new_market name c stp initial pub tape ack rules now =
     \<lparr>mk_name = name, mk_codec = c, mk_rules = (if rules = [] then standard_rules else rules),
      mk_state = new_state_machine name initial,
      mk_matching = \<lparr>me_stp_mode = stp, me_ack_on_entry = ack, me_now = now\<rparr>,
      mk_data = new_market_data name c (if tape = 0 then 500 else tape) pub, mk_books = []\<rparr>"

abbreviation set_market :: "market \<Rightarrow> mworld \<Rightarrow> mworld" where
  "set_market m w \<equiv> w\<lparr>mw_market := m\<rparr>"

subsection \<open>Books\<close>

text \<open>\<open>book(symbol)\<close> creates and registers a book that is not there.\<close>

definition ensure_book :: "string \<Rightarrow> market \<Rightarrow> market" where
  "ensure_book sy m =
     (case map_of (mk_books m) sy of Some _ \<Rightarrow> m
      | None \<Rightarrow> m\<lparr>mk_books := AList.update sy (empty_book sy (Some (mk_name m))) (mk_books m),
                  mk_data := md_register sy (mk_data m)\<rparr>)"

definition book_of :: "string \<Rightarrow> market \<Rightarrow> order_book" where
  "book_of sy m = (case map_of (mk_books m) sy of Some b \<Rightarrow> b
     | None \<Rightarrow> empty_book sy (Some (mk_name m)))"

definition remove_market_book :: "string \<Rightarrow> market \<Rightarrow> market \<times> bool" where
  "remove_market_book sy m =
     (case map_of (mk_books m) sy of None \<Rightarrow> (m, False)
      | Some _ \<Rightarrow> (m\<lparr>mk_books := AList.delete sy (mk_books m),
                      mk_data := md_unregister sy (mk_data m)\<rparr>, True))"

text \<open>The matching state of one instrument, and writing it back.\<close>

definition slice :: "string \<Rightarrow> mworld \<Rightarrow> mstate" where
  "slice sy w = \<lparr>ms_heap = mw_heap w, ms_book = book_of sy (mw_market w), ms_trade_ids = mw_ids w\<rparr>"

definition put_slice :: "string \<Rightarrow> mstate \<Rightarrow> mworld \<Rightarrow> mworld" where
  "put_slice sy s w = w\<lparr>mw_heap := ms_heap s, mw_ids := ms_trade_ids s,
     mw_market := (mw_market w)\<lparr>mk_books := AList.update sy (ms_book s) (mk_books (mw_market w))\<rparr>\<rparr>"

subsection \<open>Market data\<close>

fun record_trades :: "event list \<Rightarrow> market_data \<Rightarrow> exn + market_data" where
  "record_trades [] d = Inr d"
| "record_trades (e # evs) d =
     (case e of TradeExecuted t \<Rightarrow> bind_exn (md_record_trade t d) (record_trades evs)
      | _ \<Rightarrow> record_trades evs d)"

definition notify :: "string \<Rightarrow> mworld \<Rightarrow> exn + mworld" where
  "notify sy w =
     bind_exn (md_notify (mw_heap w) (mk_books (mw_market w)) sy (mk_data (mw_market w)))
       (\<lambda>d. Inr (set_market ((mw_market w)\<lparr>mk_data := d\<rparr>) w))"

definition absorb :: "event list \<Rightarrow> string \<Rightarrow> bool \<Rightarrow> mworld \<Rightarrow> exn + mworld" where
  "absorb evs sy changed w =
     bind_exn (record_trades evs (mk_data (mw_market w))) (\<lambda>d.
       let w1 = set_market ((mw_market w)\<lparr>mk_data := d\<rparr>) w
       in if evs \<noteq> [] \<or> changed then notify sy w1 else Inr w1)"

subsection \<open>Order flow\<close>

definition market_submit :: "oid \<Rightarrow> mworld \<Rightarrow> exn + mworld \<times> event list" where
  "market_submit x w =
     (let sy = o_symbol (mw_heap w x); m = mw_market w
      in if \<not> allows_entry (mk_state m) sy
         then Inr (w\<lparr>mw_heap := (mw_heap w)(x := (mw_heap w x)\<lparr>o_status := REJECTED\<rparr>)\<rparr>,
                   [OrderRejected x RR_MARKET_CLOSED
                      (''market is '' @ show_state (state_for (mk_state m) sy))])
         else (let w1 = set_market (ensure_book sy m) w
               in bind_exn (submit_order (mk_matching m) (allows_matching (mk_state m) sy) x (slice sy w1))
                    (\<lambda>(s, evs). bind_exn (absorb evs sy False (put_slice sy s w1))
                       (\<lambda>w2. Inr (w2, evs)))))"

definition market_cancel ::
    "oid \<Rightarrow> cancel_reason \<Rightarrow> string \<Rightarrow> mworld \<Rightarrow> exn + mworld \<times> event list" where
  "market_cancel x reason text w =
     (let sy = o_symbol (mw_heap w x); w1 = set_market (ensure_book sy (mw_market w)) w
      in case cancel_resting (mk_matching (mw_market w)) x reason text (slice sy w1) of (s, evs) \<Rightarrow>
           bind_exn (absorb evs sy False (put_slice sy s w1)) (\<lambda>w2. Inr (w2, evs)))"

definition market_amend ::
    "oid \<Rightarrow> int option \<Rightarrow> int option \<Rightarrow> mworld \<Rightarrow> exn + mworld \<times> bool \<times> event list" where
  "market_amend x new_quantity new_price w =
     (let sy = o_symbol (mw_heap w x); m = mw_market w; w1 = set_market (ensure_book sy m) w
      in case amend_resting (mk_matching m) x new_quantity new_price (slice sy w1) of (s, kept) \<Rightarrow>
           bind_exn
             (if allows_matching (mk_state m) sy \<and> leaves_qty (ms_heap s x) > 0
              then bind_exn (submit_order (mk_matching m) True x
                       (s\<lparr>ms_book := snd (book_remove (ms_heap s) x (ms_book s))\<rparr>))
                     (\<lambda>(s', evs). Inr (s', filter (\<lambda>e. \<not> is_accepted e) evs))
              else Inr (s, []))
             (\<lambda>(s', evs). bind_exn (absorb evs sy True (put_slice sy s' w1))
                (\<lambda>w2. Inr (w2, kept, evs))))"

subsection \<open>Auctions\<close>

fun cancel_each ::
    "matching_engine \<Rightarrow> oid list \<Rightarrow> cancel_reason \<Rightarrow> string \<Rightarrow> mstate \<Rightarrow> mstate \<times> event list" where
  "cancel_each me [] reason text s = (s, [])"
| "cancel_each me (x # xs) reason text s =
     (case cancel_resting me x reason text s of (s1, evs) \<Rightarrow>
       (case cancel_each me xs reason text s1 of (s2, evs') \<Rightarrow> (s2, evs @ evs')))"

text \<open>Each side's queue is copied when its turn comes.\<close>

definition expire_at_auction :: "matching_engine \<Rightarrow> mstate \<Rightarrow> mstate \<times> event list" where
  "expire_at_auction me s =
     (let text = ''at-auction order not filled in the auction''
      in case cancel_each me (bs_at_market (ob_bids (ms_book s))) CR_MARKET_REMAINDER text s of (s1, evs) \<Rightarrow>
        (case cancel_each me (bs_at_market (ob_asks (ms_book s1))) CR_MARKET_REMAINDER text s1 of
           (s2, evs') \<Rightarrow> (s2, evs @ evs')))"

definition market_uncross ::
    "string \<Rightarrow> int option \<Rightarrow> mworld \<Rightarrow> exn + mworld \<times> auction_result \<times> event list" where
  "market_uncross sy reference w =
     (let m = mw_market w; w1 = set_market (ensure_book sy m) w; s = slice sy w1
      in bind_exn (uncross (ms_heap s) (ms_book s) reference (mk_rules m)) (\<lambda>result.
           let price = (if result_crossed result then ar_price result else reference)
           in bind_exn (execute_auction price (me_now (mk_matching m)) s) (\<lambda>(s1, evs).
                case expire_at_auction (mk_matching m) s1 of (s2, evs') \<Rightarrow>
                  bind_exn (absorb (evs @ evs') sy False (put_slice sy s2 w1)) (\<lambda>w2.
                    bind_exn (format_opt (mk_codec m) price) (\<lambda>_.
                      Inr (w2, result, evs @ evs'))))))"

fun uncross_each ::
    "string list \<Rightarrow> (string \<Rightarrow> int option) \<Rightarrow> mworld \<Rightarrow>
     exn + mworld \<times> (string \<times> auction_result) list \<times> event list" where
  "uncross_each [] prices w = Inr (w, [], [])"
| "uncross_each (sy # sys) prices w =
     bind_exn (market_uncross sy (prices sy) w) (\<lambda>(w1, r, evs).
       bind_exn (uncross_each sys prices w1) (\<lambda>(w2, rs, evs').
         Inr (w2, (sy, r) # rs, evs @ evs')))"

definition market_symbols :: "market \<Rightarrow> string list" where
  "market_symbols m = sorted_list_of_set (set (map fst (mk_books m)))"

definition uncross_all ::
    "(string \<Rightarrow> int option) \<Rightarrow> mworld \<Rightarrow> exn + mworld \<times> (string \<times> auction_result) list \<times> event list" where
  "uncross_all prices w = uncross_each (market_symbols (mw_market w)) prices w"

subsection \<open>Cancelling in bulk\<close>

definition cancel_book ::
    "(order \<Rightarrow> bool) \<Rightarrow> cancel_reason \<Rightarrow> string \<Rightarrow> string \<Rightarrow> mworld \<Rightarrow> exn + mworld \<times> event list" where
  "cancel_book pred reason text sy w =
     (let s = slice sy w
      in case cancel_each (mk_matching (mw_market w))
                (filter (\<lambda>x. pred (ms_heap s x)) (book_orders (ms_book s))) reason text s of (s', evs) \<Rightarrow>
           bind_exn (notify sy (put_slice sy s' w)) (\<lambda>w'. Inr (w', evs)))"

fun cancel_books ::
    "(order \<Rightarrow> bool) \<Rightarrow> cancel_reason \<Rightarrow> string \<Rightarrow> string list \<Rightarrow> mworld \<Rightarrow> exn + mworld \<times> event list" where
  "cancel_books pred reason text [] w = Inr (w, [])"
| "cancel_books pred reason text (sy # sys) w =
     bind_exn (cancel_book pred reason text sy w) (\<lambda>(w1, evs).
       bind_exn (cancel_books pred reason text sys w1) (\<lambda>(w2, evs'). Inr (w2, evs @ evs')))"

definition market_cancel_all ::
    "(order \<Rightarrow> bool) \<Rightarrow> cancel_reason \<Rightarrow> string \<Rightarrow> mworld \<Rightarrow> exn + mworld \<times> event list" where
  "market_cancel_all pred reason text w =
     cancel_books pred reason text (map fst (mk_books (mw_market w))) w"

subsection \<open>Trading state\<close>

definition expire_orders :: "string option \<Rightarrow> mworld \<Rightarrow> exn + mworld \<times> event list" where
  "expire_orders sy w =
     market_cancel_all (\<lambda>y. case sy of None \<Rightarrow> True | Some s \<Rightarrow> o_symbol y = s) CR_MARKET_CLOSED
       (''market is '' @ show_state (state_for (mk_state (mw_market w))
          (case sy of None \<Rightarrow> [] | Some s \<Rightarrow> s))) w"

text \<open>
  \<open>set_state\<close>. The transition upper-cases its argument; the test that decides whether
  resting orders expire reads the argument as it was given.
\<close>

definition names_no_entry :: "string \<Rightarrow> bool" where
  "names_no_entry t \<longleftrightarrow> t \<in> show_state ` no_entry_states"

definition market_set_state :: "string \<Rightarrow> string option \<Rightarrow> mworld \<Rightarrow> exn + mworld \<times> event list" where
  "market_set_state t sy w =
     (let m = mw_market w
      in bind_exn (if truthy sy then set_instrument_state (show_opt sy) t (mk_state m)
                   else set_market_state t (mk_state m)) (\<lambda>(sm, evs).
           let w1 = set_market (m\<lparr>mk_state := sm\<rparr>) w
           in if evs \<noteq> [] \<and> names_no_entry t
              then bind_exn (expire_orders sy w1) (\<lambda>(w2, evs'). Inr (w2, evs @ evs'))
              else Inr (w1, evs)))"

definition market_clear_instrument_state :: "string \<Rightarrow> mworld \<Rightarrow> mworld \<times> event list" where
  "market_clear_instrument_state sy w =
     (case clear_instrument_state sy (mk_state (mw_market w)) of (sm, evs) \<Rightarrow>
       (set_market ((mw_market w)\<lparr>mk_state := sm\<rparr>) w, evs))"

end
