(* ===== verification/Matching_Ops.thy ===== *)
theory Matching_Ops
  imports Matching_Entry Auction_Exec
begin

section \<open>What a matching operation can touch\<close>

text \<open>
  Entry, amendment, cancellation and the auction each change one book and the orders in
  it: \<open>confined x s s'\<close> says so, with \<open>x\<close> the order the operation is about. The relation
  composes, so each operation's lemma follows the shape of the operation; together with
  the book invariant it is what a market needs to keep its other books untouched.
\<close>

definition identity_of :: "order \<Rightarrow> string \<times> session_key \<times> side \<times> string option \<times> string option" where
  "identity_of y = (o_symbol y, o_session_key y, o_side y, o_market y, o_cl_ord_id y)"

definition confined :: "oid \<Rightarrow> mstate \<Rightarrow> mstate \<Rightarrow> bool" where
  "confined x s s' \<longleftrightarrow>
     (\<forall>y. identity_of (ms_heap s' y) = identity_of (ms_heap s y) \<and>
          o_chain (ms_heap s' y) = o_chain (ms_heap s y)) \<and>
     (\<forall>y. y \<noteq> x \<longrightarrow> y \<notin> set (book_orders (ms_book s)) \<longrightarrow> ms_heap s' y = ms_heap s y) \<and>
     set (book_orders (ms_book s')) \<subseteq> insert x (set (book_orders (ms_book s))) \<and>
     ob_symbol (ms_book s') = ob_symbol (ms_book s)"

lemma confinedD:
  assumes "confined x s s'"
  shows "identity_of (ms_heap s' y) = identity_of (ms_heap s y)"
    "o_symbol (ms_heap s' y) = o_symbol (ms_heap s y)"
    "o_chain (ms_heap s' y) = o_chain (ms_heap s y)"
    "y \<noteq> x \<Longrightarrow> y \<notin> set (book_orders (ms_book s)) \<Longrightarrow> ms_heap s' y = ms_heap s y"
    "set (book_orders (ms_book s')) \<subseteq> insert x (set (book_orders (ms_book s)))"
    "ob_symbol (ms_book s') = ob_symbol (ms_book s)"
  using assms by (auto simp: confined_def identity_of_def)

lemma confined_refl [simp]: "confined x s s"
  by (auto simp: confined_def)

lemma confined_trans: "confined x s s1 \<Longrightarrow> confined x s1 s2 \<Longrightarrow> confined x s s2"
proof -
  assume a: "confined x s s1" and b: "confined x s1 s2"
  have "ms_heap s2 y = ms_heap s y" if "y \<noteq> x" "y \<notin> set (book_orders (ms_book s))" for y
    using confinedD(4) [OF a that] confinedD(4) [OF b that(1)] confinedD(5) [OF a] that by auto
  moreover have "set (book_orders (ms_book s2)) \<subseteq> insert x (set (book_orders (ms_book s)))"
    using confinedD(5) [OF a] confinedD(5) [OF b] by auto
  ultimately show ?thesis
    using confinedD(1,3,6) [OF a] confinedD(1,3,6) [OF b] by (simp add: confined_def)
qed

lemma confined_set_order:
  assumes "identity_of y = identity_of (ms_heap s x)" and "o_chain y = o_chain (ms_heap s x)"
    and "set (book_orders b) \<subseteq> insert x (set (book_orders (ms_book s)))"
    and "ob_symbol b = ob_symbol (ms_book s)"
  shows "confined x s (s\<lparr>ms_heap := (ms_heap s)(x := y), ms_book := b\<rparr>)"
    and "confined x s (s\<lparr>ms_book := b, ms_heap := (ms_heap s)(x := y)\<rparr>)"
    and "b = ms_book s \<Longrightarrow> confined x s (set_order x y s)"
  using assms by (auto simp: confined_def)

lemma identity_simps [simp]:
  "identity_of (y\<lparr>o_status := st\<rparr>) = identity_of y"
  "identity_of (cancel_order_obj now y) = identity_of y"
  "identity_of (y\<lparr>o_price := p, o_quantity := q, o_updated_at := u\<rparr>) = identity_of y"
  by (simp_all add: identity_of_def frame_simps)

lemma same_terms_identity: "same_terms y z \<Longrightarrow> identity_of y = identity_of z \<and> o_chain y = o_chain z"
  by (simp add: same_terms_def identity_of_def)

subsection \<open>Entry\<close>

lemma paired_confined:
  assumes "match_inv x s" and "r \<in> set (book_orders (ms_book s))" and "paired x r s s'"
  shows "confined x s s'"
proof -
  have "set (book_orders (ms_book s')) \<subseteq> set (book_orders (ms_book s))"
    using assms(3) book_orders_remove [OF match_invD(1) [OF assms(1)], of r]
    by (auto simp: paired_def split: if_splits)
  moreover have "ob_symbol (ms_book s') = ob_symbol (ms_book s)"
    using assms(3) by (auto simp: paired_def frame_simps split: if_splits)
  ultimately show ?thesis
    using assms(2,3) same_terms_identity paired_same_terms [OF assms(3)] paired_other [OF assms(3)]
    unfolding confined_def by blast
qed

lemma match_loop_confined:
  assumes "match_loop me x s = Inr (s', evs)" and "match_inv x s"
  shows "confined x s s'"
  using assms
proof (induction rule: match_loop_induct)
  case (fin s)
  show ?case by simp
next
  case (stop s r s' evs)
  show ?case by (rule paired_confined [OF stop(1) best_match_SomeD(3) [OF stop(1,3)] stop(5)])
next
  case (step s r s1 evs1 s' evs)
  show ?case
    by (rule confined_trans [OF paired_confined [OF step(1) best_match_SomeD(3) [OF step(1,3)] step(5)] step(8)])
qed

lemma acknowledge_confined:
  assumes "acknowledge me x s = (s1, acks, a)"
  shows "confined x s s1"
  using acknowledge_cases [OF assms]
  by (auto intro!: confined_set_order(3) [where b = "ms_book s"])

lemma rest_order_confined:
  assumes "rest_order x a s = (s', evs)" and "match_inv x s"
  shows "confined x s s'"
proof -
  note r = rest_order_simps [OF assms(1)]
  have ok: "book_ok (ms_heap s') (ms_book s)"
    using match_invD(1) [OF match_inv_status [OF assms(2) refl]] by (simp add: r(1))
  have "set (book_orders (ms_book s')) = insert x (set (book_orders (ms_book s)))"
    unfolding r(2) by (rule book_orders_add [OF ok])
  moreover have "ob_symbol (ms_book s') = ob_symbol (ms_book s)" by (simp add: r(2) frame_simps)
  ultimately show ?thesis by (auto simp: confined_def r(1))
qed

lemma settle_confined:
  assumes "settle_remainder me x a s = (s', evs)" and "match_inv x s"
  shows "confined x s s'"
  using settle_cases [OF assms(1)] rest_order_confined [OF _ assms(2)]
  by (auto simp: frame_simps intro!: confined_set_order(3) [where b = "ms_book s"])

lemma precheck_confined: "precheck me x s = Some (s', evs) \<Longrightarrow> confined x s s'"
  using precheck_cases [of me x s s' evs]
  by (auto simp: frame_simps intro!: confined_set_order(3) [where b = "ms_book s"])

lemma submit_rest_cases:
  assumes "submit_order me False x s = Inr (s', evs)"
  obtains (rejected) "s' = set_order x ((ms_heap s x)\<lparr>o_status := REJECTED\<rparr>) s"
      "evs = [OrderRejected x RR_POST_ONLY_WOULD_CROSS ''post-only order would remove liquidity'']"
  | (rested) s1 acks a evs1 where "acknowledge me x s = (s1, acks, a)"
      "rest_order x a s1 = (s', evs1)" "evs = acks @ evs1"
  using assms
  by (auto simp: submit_order_def split: if_splits prod.splits)

lemma submit_confined:
  assumes sub: "submit_order me allow x s = Inr (s', evs)" and inv: "match_inv x s"
    and lv: "0 < leaves_qty (ms_heap s x)"
  shows "confined x s s'"
proof (cases allow)
  case True
  from sub have "submit_order me True x s = Inr (s', evs)" by (simp add: True)
  then show ?thesis
  proof (cases rule: submit_cases)
    case rejected
    then show ?thesis by (auto intro!: confined_set_order(3) [where b = "ms_book s"])
  next
    case (blocked s1 acks a evs1)
    then show ?thesis
      using confined_trans acknowledge_confined precheck_confined by blast
  next
    case (matched s1 acks a s2 evs1 evs2)
    note i1 = acknowledge_inv(1) [OF matched(1) inv lv]
    note i2 = match_loop_inv [OF matched(3) i1]
    show ?thesis
      using confined_trans [OF acknowledge_confined [OF matched(1)]
        confined_trans [OF match_loop_confined [OF matched(3) i1] settle_confined [OF matched(4) i2]]] .
  qed
next
  case False
  from sub have "submit_order me False x s = Inr (s', evs)" by (simp add: False)
  then show ?thesis
  proof (cases rule: submit_rest_cases)
    case rejected
    then show ?thesis by (auto intro!: confined_set_order(3) [where b = "ms_book s"])
  next
    case (rested s1 acks a evs1)
    note i1 = acknowledge_inv(1) [OF rested(1) inv lv]
    show ?thesis
      using confined_trans [OF acknowledge_confined [OF rested(1)] rest_order_confined [OF rested(2) i1]] .
  qed
qed

text \<open>Entry keeps the book invariant, with matching or without.\<close>

lemma settle_book_inv:
  assumes st: "settle_remainder me x a s = (s', evs)" and inv: "match_inv x s"
  shows "book_inv s'"
  using settle_cases [OF st]
proof (elim disjE conjE exE)
  fix reason msg assume "s' = set_order x (cancel_order_obj (me_now me) (ms_heap s x)) s"
  with cancel_keeps_inv [OF inv this] show ?thesis by (simp add: match_inv_def)
next
  assume r: "rest_order x a s = (s', evs)" and lv: "0 < leaves_qty (ms_heap s x)"
  from rest_order_inv(1) [OF r inv lv] show ?thesis .
next
  assume "s' = s"
  with inv show ?thesis by (simp add: match_inv_def)
next
  assume "s' = set_order x ((ms_heap s x)\<lparr>o_status := FILLED\<rparr>) s"
  with match_inv_status [OF inv this] show ?thesis by (simp add: match_inv_def)
qed

lemma submit_book_inv:
  assumes sub: "submit_order me allow x s = Inr (s', evs)" and inv: "match_inv x s"
    and lv: "0 < leaves_qty (ms_heap s x)"
  shows "book_inv s'"
proof (cases allow)
  case True
  from sub have "submit_order me True x s = Inr (s', evs)" by (simp add: True)
  then show ?thesis
  proof (cases rule: submit_cases)
    case rejected
    with match_inv_status [OF inv rejected(3)] show ?thesis by (simp add: match_inv_def)
  next
    case (blocked s1 acks a evs1)
    note i1 = acknowledge_inv [OF blocked(1) inv lv]
    have "s' = set_order x (cancel_order_obj (me_now me) (ms_heap s1 x)) s1"
      using precheck_cases [OF blocked(2)] by simp
    from cancel_keeps_inv [OF i1(1) this] show ?thesis by (simp add: match_inv_def)
  next
    case (matched s1 acks a s2 evs1 evs2)
    note i1 = acknowledge_inv [OF matched(1) inv lv]
    show ?thesis by (rule settle_book_inv [OF matched(4) match_loop_inv [OF matched(3) i1(1)]])
  qed
next
  case False
  from sub have "submit_order me False x s = Inr (s', evs)" by (simp add: False)
  then show ?thesis
  proof (cases rule: submit_rest_cases)
    case rejected
    with match_inv_status [OF inv rejected(1)] show ?thesis by (simp add: match_inv_def)
  next
    case (rested s1 acks a evs1)
    note i1 = acknowledge_inv [OF rested(1) inv lv]
    show ?thesis by (rule rest_order_inv(1) [OF rested(2) i1(1)]) (use i1(2) lv in simp)
  qed
qed

text \<open>While the phase only accumulates, nothing executes.\<close>

lemma submit_accumulating_no_trades:
  assumes "submit_order me False x s = Inr (s', evs)"
  shows "trades_of evs = [] \<and> fills_of evs = []"
  using assms
proof (cases rule: submit_rest_cases)
  case rejected
  then show ?thesis by simp
next
  case (rested s1 acks a evs1)
  then show ?thesis using acknowledge_cases [OF rested(1)] rest_order_simps(5,6) [OF rested(2)] by auto
qed

text \<open>A post-only order never takes liquidity.\<close>

lemma would_cross_best_match:
  assumes inv: "match_inv x s" and no: "\<not> would_cross (ms_book s) (ms_heap s x)"
  shows "best_match x s = None"
proof (cases "orders_in_priority (opposite_of x s)")
  case Nil
  then show ?thesis by (simp add: best_match_head [OF inv])
next
  case (Cons r rs)
  note ok = match_invD(4) [OF inv]
  obtain p where bp: "best_price (opposite_of x s) = Some p"
    using best_price_None [OF ok] Cons by (cases "best_price (opposite_of x s)") auto
  have "o_price (ms_heap s r) = Some p" using best_price_queue [OF ok] bp Cons by simp
  then have pr: "price_of (ms_heap s) r = p" by (simp add: price_of_def)
  have b: "bs_is_buy (opposite_of x s) = (\<not> is_buy (ms_heap s x))"
    using bs_is_buy_opposite [OF match_invD(1) [OF inv]] by (simp add: is_buy_def)
  have "\<not> prices_cross (ms_heap s x) p"
  proof (cases "o_price (ms_heap s x)")
    case None
    have "bs_prices (opposite_of x s) \<noteq> []" using bp by (auto simp: best_price_def split: if_splits)
    with no None show ?thesis by (simp add: would_cross_def side_bool_def)
  next
    case (Some q)
    with no bp b show ?thesis
      by (auto simp: would_cross_def side_crosses_def prices_cross_def split: if_splits)
  qed
  with Cons pr show ?thesis by (simp add: best_match_head [OF inv])
qed

lemma post_only_no_trades:
  assumes sub: "submit_order me allow x s = Inr (s', evs)" and inv: "match_inv x s"
    and lv: "0 < leaves_qty (ms_heap s x)" and po: "POST_ONLY \<in> o_exec_inst (ms_heap s x)"
  shows "trades_of evs = []"
proof (cases allow)
  case False
  with sub submit_accumulating_no_trades [of me x s s' evs] show ?thesis by simp
next
  case True
  from sub have "submit_order me True x s = Inr (s', evs)" by (simp add: True)
  then show ?thesis
  proof (cases rule: submit_cases)
    case rejected
    then show ?thesis by simp
  next
    case (blocked s1 acks a evs1)
    with acknowledge_inv(6) [OF blocked(1) inv lv] precheck_cases [OF blocked(2)] show ?thesis by auto
  next
    case (matched s1 acks a s2 evs1 evs2)
    note i1 = acknowledge_inv [OF matched(1) inv lv]
    from matched(6) po have "best_match x s = None" by (intro would_cross_best_match [OF inv]) auto
    then have "best_match x s1 = None"
      unfolding best_match_head [OF inv] best_match_head [OF i1(1)]
      using i1(3) i1(5) [of x] prices_cross_cong [OF i1(5), of x] i1(5)
      by (auto simp: same_terms_def price_of_def split: list.splits if_splits)
    then have "match_loop me x s1 = Inr (s1, [])" by (simp add: match_loop_unfold_stop)
    with matched(3) have "evs1 = []" by simp
    moreover have "trades_of evs2 = []"
      using settle_cases [OF matched(4)] rest_order_simps(5) by auto
    ultimately show ?thesis using matched(5) i1(6) by simp
  qed
qed

subsection \<open>Cancelling a resting order\<close>

lemma cancel_resting_result:
  assumes "cancel_resting me x reason msg s = (s', evs)" and "book_inv s"
  shows "book_inv s'" and "set (book_orders (ms_book s')) = set (book_orders (ms_book s)) - {x}"
    and "confined x s s'" and "evs = [OrderCancelled x reason msg]"
    and "ms_heap s' = (ms_heap s)(x := cancel_order_obj (me_now me) (ms_heap s x))"
    and "ms_trade_ids s' = ms_trade_ids s"
proof -
  have s': "ms_book s' = snd (book_remove (ms_heap s) x (ms_book s))"
      "ms_heap s' = (ms_heap s)(x := cancel_order_obj (me_now me) (ms_heap s x))"
      "ms_trade_ids s' = ms_trade_ids s" "evs = [OrderCancelled x reason msg]"
    using assms(1) by (auto simp: cancel_resting_def Let_def)
  then show "evs = [OrderCancelled x reason msg]"
    "ms_heap s' = (ms_heap s)(x := cancel_order_obj (me_now me) (ms_heap s x))"
    "ms_trade_ids s' = ms_trade_ids s" by simp_all
  have ok: "book_ok (ms_heap s) (ms_book s)" using assms(2) by (simp add: book_inv_def)
  show orders: "set (book_orders (ms_book s')) = set (book_orders (ms_book s)) - {x}"
    unfolding s' by (rule book_orders_remove [OF ok])
  have "book_ok (ms_heap s') (ms_book s')"
    by (rule book_ok_cong [OF _ book_ok_remove [OF ok, of x, folded s'(1)]])
      (use s' orders in \<open>auto simp: frame_simps\<close>)
  moreover have "book_live (ms_heap s') (ms_book s')"
    using assms(2) orders by (auto simp: book_inv_def book_live_def s'(2))
  ultimately show "book_inv s'" by (simp add: book_inv_def)
  show "confined x s s'" using orders s' by (auto simp: confined_def frame_simps)
qed

subsection \<open>Amending a resting order\<close>

lemma side_add_all_facts:
  assumes "side_ok h sd" and "\<forall>x \<in> set xs. is_buy (h x) = bs_is_buy sd"
  shows "side_ok h (side_add_all h xs sd) \<and> bs_is_buy (side_add_all h xs sd) = bs_is_buy sd \<and>
    set (side_orders (side_add_all h xs sd)) = set xs \<union> set (side_orders sd)"
  using assms
proof (induction xs arbitrary: sd)
  case Nil
  then show ?case by (simp add: side_add_all_def)
next
  case (Cons x xs)
  have "side_ok h (side_add h x sd)" by (rule side_ok_add) (use Cons.prems in simp_all)
  with Cons.IH [of "side_add h x sd"] Cons.prems side_orders_add [of h sd x] show ?case
    by (auto simp: side_add_all_def)
qed

lemma side_remove_all_facts:
  assumes "side_ok h sd"
  shows "side_ok h (side_remove_all h xs sd) \<and> bs_is_buy (side_remove_all h xs sd) = bs_is_buy sd \<and>
    set (side_orders (side_remove_all h xs sd)) = set (side_orders sd) - set xs"
  using assms
proof (induction xs arbitrary: sd)
  case Nil
  then show ?case by (simp add: side_remove_all_def)
next
  case (Cons x xs)
  with Cons.IH [OF side_ok_remove [OF Cons.prems, of x]] side_orders_remove [OF Cons.prems, of x]
  show ?case by (auto simp: side_remove_all_def)
qed

text \<open>Rebuilding a level changes the order of its queue and nothing else.\<close>

lemma reinsert_facts:
  assumes ok: "side_ok h sd" and b: "is_buy (h x) = bs_is_buy sd"
  shows "side_ok h (reinsert_keeping_priority h x sd)"
    and "bs_is_buy (reinsert_keeping_priority h x sd) = bs_is_buy sd"
    and "set (side_orders (reinsert_keeping_priority h x sd)) = insert x (set (side_orders sd))"
proof -
  let ?l = "filter (\<lambda>y. o_price (h y) = o_price (h x)) (side_orders sd)"
  note r = side_remove_all_facts [OF ok, of ?l]
  have "\<forall>y \<in> set (sort_key (\<lambda>y. o_sequence (h y)) (?l @ [x])). is_buy (h y) = bs_is_buy (side_remove_all h ?l sd)"
    using r b side_ok_is_buy [OF ok] by auto
  from side_add_all_facts [OF _ this] r
  show "side_ok h (reinsert_keeping_priority h x sd)"
    and "bs_is_buy (reinsert_keeping_priority h x sd) = bs_is_buy sd"
    and "set (side_orders (reinsert_keeping_priority h x sd)) = insert x (set (side_orders sd))"
    by (auto simp: reinsert_keeping_priority_def Let_def)
qed

lemma set_side_of_facts:
  assumes ok: "book_ok h b" and sd: "side_ok h sd" "bs_is_buy sd = is_buy y"
    and orders: "set (side_orders sd) = insert x (set (side_orders (book_side_of b (o_side y))))"
  shows "book_ok h (set_side_of y sd b)"
    and "set (book_orders (set_side_of y sd b)) = insert x (set (book_orders b))"
    and "ob_symbol (set_side_of y sd b) = ob_symbol b"
  using assms book_okD [OF ok]
  by (auto simp: set_side_of_def book_ok_def book_orders_def book_side_of_def is_buy_def)

lemma amend_result:
  assumes am: "amend_resting me x nq np s = (s', kept)" and inv: "book_inv s"
  shows "book_inv s'" and "confined x s s'" and "ms_trade_ids s' = ms_trade_ids s"
    and "ms_heap s' = (ms_heap s)(x := (ms_heap s x)\<lparr>o_price := or_else np (o_price (ms_heap s x)),
      o_quantity := (case nq of None \<Rightarrow> o_quantity (ms_heap s x) | Some n \<Rightarrow> n), o_updated_at := me_now me\<rparr>)"
    and "x \<in> set (book_orders (ms_book s)) \<Longrightarrow>
      x \<in> set (book_orders (ms_book s')) \<longleftrightarrow> 0 < leaves_qty (ms_heap s' x)"
proof -
  let ?h = "ms_heap s" and ?b = "ms_book s"
  define Y where "Y = (?h x)\<lparr>o_price := or_else np (o_price (?h x)),
      o_quantity := (case nq of None \<Rightarrow> o_quantity (?h x) | Some n \<Rightarrow> n), o_updated_at := me_now me\<rparr>"
  have idY: "identity_of Y = identity_of (?h x) \<and> o_chain Y = o_chain (?h x)" by (simp add: Y_def)
  define H where "H = ?h(x := Y)"
  have HY: "H x = Y" "\<And>y. y \<noteq> x \<Longrightarrow> H y = ?h y" by (simp_all add: H_def)
  obtain was b1 where rem: "book_remove ?h x ?b = (was, b1)" by (cases "book_remove ?h x ?b")
  then have b1: "b1 = snd (book_remove ?h x ?b)" by simp
  have ok: "book_ok ?h ?b" using inv by (simp add: book_inv_def)
  have o1: "set (book_orders b1) = set (book_orders ?b) - {x}"
    unfolding b1 by (rule book_orders_remove [OF ok])
  have ok1: "book_ok H b1"
    by (rule book_ok_cong [OF _ book_ok_remove [OF ok, of x, folded b1]]) (use o1 in \<open>auto simp: HY\<close>)
  have side1: "side_ok H (book_side_of b1 (o_side Y))"
      "is_buy (H x) = bs_is_buy (book_side_of b1 (o_side Y))"
    using book_ok_side_of [OF ok1] bs_is_buy_side_of [OF ok1] by (simp_all add: is_buy_def HY)
  note re = reinsert_facts [OF side1]
  define sd where "sd = reinsert_keeping_priority H x (book_side_of b1 (o_side Y))"
  have "bs_is_buy sd = is_buy (H x)"
    unfolding sd_def by (rule trans [OF re(2) side1(2) [symmetric]])
  then have "bs_is_buy sd = is_buy Y" by (simp add: HY)
  note ss = set_side_of_facts [OF ok1 re(1) [folded sd_def] this re(3) [folded sd_def]]
  let ?keep = "was \<and> or_else np (o_price (?h x)) = o_price (?h x) \<and>
      \<not> o_quantity (?h x) < (case nq of None \<Rightarrow> o_quantity (?h x) | Some n \<Rightarrow> n)"
  have s': "s' = s\<lparr>ms_heap := H, ms_book :=
      (if leaves_qty Y > 0 then if ?keep then set_side_of Y sd b1
         else if was \<or> o_status Y \<in> live_statuses then book_add H x b1 else b1 else b1)\<rparr>"
    unfolding fst_conv [of s' kept, folded am, symmetric]
    by (simp add: amend_resting_def Let_def rem sd_def Y_def H_def)
  have heap: "ms_heap s' = H" and ids: "ms_trade_ids s' = ms_trade_ids s" by (simp_all add: s')
  have sym1: "ob_symbol b1 = ob_symbol ?b" by (simp add: b1 frame_simps)
  have book: "book_ok H (ms_book s') \<and> ob_symbol (ms_book s') = ob_symbol ?b \<and>
      (set (book_orders (ms_book s')) = insert x (set (book_orders b1)) \<and> 0 < leaves_qty Y \<or>
       set (book_orders (ms_book s')) = set (book_orders b1) \<and> \<not> (0 < leaves_qty Y \<and> was))"
    using ok1 sym1 ss book_ok_add [OF ok1, of x] book_orders_add [OF ok1, of x] book_add_frame(1) [of H x b1]
    by (simp add: s')
  show "ms_trade_ids s' = ms_trade_ids s" by (rule ids)
  show "ms_heap s' = H" by (simp add: heap Y_def H_def)
  show "confined x s s'"
    using book o1 by (auto simp: confined_def heap idY H_def)
  have "book_live H (ms_book s')"
    using book o1 inv by (auto simp: book_live_def book_inv_def H_def)
  with book show "book_inv s'" by (simp add: book_inv_def heap)
  show "x \<in> set (book_orders (ms_book s')) \<longleftrightarrow> 0 < leaves_qty (ms_heap s' x)"
    if "x \<in> set (book_orders ?b)"
  proof -
    have "was"
      using that rem side_remove_reports [OF book_okD(3) [OF ok], of x]
        side_remove_reports [OF book_okD(4) [OF ok], of x]
        side_ok_is_buy [OF book_okD(3) [OF ok], of x] side_ok_is_buy [OF book_okD(4) [OF ok], of x]
        book_okD(1,2) [OF ok]
      by (auto simp: book_remove_eq book_orders_def split: if_splits)
    with book o1 show ?thesis by (auto simp: heap HY)
  qed
qed

end
