(* ===== verification/Market_Facts.thy ===== *)
theory Market_Facts
  imports Market Matching_Ops
begin

section \<open>The invariant of a market\<close>

text \<open>
  Every book of a market is well formed and live, carries its own key, and holds orders
  for that symbol only; no symbol has two books. \<open>put_slice_inv\<close> is the one lemma the
  operations need: a matching operation that is \<open>confined\<close> to its book and keeps
  \<open>book_inv\<close> keeps the invariant of the market.
\<close>

definition book_at_inv :: "heap \<Rightarrow> string \<times> order_book \<Rightarrow> bool" where
  "book_at_inv h e \<longleftrightarrow> book_ok h (snd e) \<and> book_live h (snd e) \<and> ob_symbol (snd e) = fst e \<and>
     (\<forall>x \<in> set (book_orders (snd e)). o_symbol (h x) = fst e)"

definition market_inv :: "mworld \<Rightarrow> bool" where
  "market_inv w \<longleftrightarrow> distinct (map fst (mk_books (mw_market w))) \<and>
     (\<forall>e \<in> set (mk_books (mw_market w)). book_at_inv (mw_heap w) e)"

definition resting :: "mworld \<Rightarrow> oid set" where
  "resting w = (\<Union>e \<in> set (mk_books (mw_market w)). set (book_orders (snd e)))"

text \<open>What an operation on one instrument leaves alone.\<close>

definition only_touches :: "string \<Rightarrow> mworld \<Rightarrow> mworld \<Rightarrow> bool" where
  "only_touches sy w w' \<longleftrightarrow>
     (\<forall>sy'. sy' \<noteq> sy \<longrightarrow> map_of (mk_books (mw_market w')) sy' = map_of (mk_books (mw_market w)) sy') \<and>
     (\<forall>y. o_symbol (mw_heap w y) \<noteq> sy \<longrightarrow> mw_heap w' y = mw_heap w y) \<and>
     (\<forall>y. identity_of (mw_heap w' y) = identity_of (mw_heap w y)) \<and>
     mk_state (mw_market w') = mk_state (mw_market w) \<and>
     mk_matching (mw_market w') = mk_matching (mw_market w) \<and>
     mk_rules (mw_market w') = mk_rules (mw_market w)"

text \<open>The same change seen from the orders: only \<open>x\<close> and what was resting can change.\<close>

definition market_frame :: "oid \<Rightarrow> mworld \<Rightarrow> mworld \<Rightarrow> bool" where
  "market_frame x w w' \<longleftrightarrow>
     (\<forall>y. y \<noteq> x \<longrightarrow> y \<notin> resting w \<longrightarrow> mw_heap w' y = mw_heap w y) \<and>
     (\<forall>y. identity_of (mw_heap w' y) = identity_of (mw_heap w y) \<and>
          o_chain (mw_heap w' y) = o_chain (mw_heap w y)) \<and>
     resting w' \<subseteq> insert x (resting w)"

lemma market_frameD:
  assumes "market_frame x w w'"
  shows "y \<noteq> x \<Longrightarrow> y \<notin> resting w \<Longrightarrow> mw_heap w' y = mw_heap w y"
    "identity_of (mw_heap w' y) = identity_of (mw_heap w y)" "o_chain (mw_heap w' y) = o_chain (mw_heap w y)"
    "resting w' \<subseteq> insert x (resting w)"
  using assms by (auto simp: market_frame_def)

lemma market_frame_refl [simp]: "market_frame x w w"
  by (auto simp: market_frame_def)

lemma market_frame_trans:
  assumes "market_frame x w w1" and "market_frame x w1 w2"
  shows "market_frame x w w2"
proof -
  note a = market_frameD [OF assms(1)] and b = market_frameD [OF assms(2)]
  have "mw_heap w2 y = mw_heap w y" if "y \<noteq> x" "y \<notin> resting w" for y
    using a(1) [OF that] b(1) [OF that(1)] a(4) that by auto
  with a b show ?thesis unfolding market_frame_def by auto
qed

lemma identity_symbol: "identity_of y = identity_of z \<Longrightarrow> o_symbol y = o_symbol z"
  by (simp add: identity_of_def)

lemma only_touches_refl [simp]: "only_touches sy w w"
  by (simp add: only_touches_def)

lemma only_touches_trans: "only_touches sy w w1 \<Longrightarrow> only_touches sy w1 w2 \<Longrightarrow> only_touches sy w w2"
  unfolding only_touches_def by (metis identity_symbol)

lemma book_at_inv_empty: "book_at_inv h (sy, empty_book sy mkt)"
  by (simp add: book_at_inv_def book_ok_def book_live_def book_orders_def empty_book_def side_orders_def
      empty_side_def side_ok_def)

lemma book_of_inv: "market_inv w \<Longrightarrow> book_at_inv (mw_heap w) (sy, book_of sy (mw_market w))"
  using book_at_inv_empty
  by (auto simp: market_inv_def book_of_def split: option.splits dest: map_of_SomeD)

lemma slice_simps [simp]:
  "ms_heap (slice sy w) = mw_heap w" "ms_book (slice sy w) = book_of sy (mw_market w)"
  "ms_trade_ids (slice sy w) = mw_ids w"
  by (simp_all add: slice_def)

lemma slice_inv:
  assumes "market_inv w"
  shows "book_inv (slice sy w)"
    and "x \<in> set (book_orders (book_of sy (mw_market w))) \<Longrightarrow> o_symbol (mw_heap w x) = sy"
  using book_of_inv [OF assms, of sy] by (auto simp: book_at_inv_def book_inv_def)

lemma ensure_book_facts:
  shows "book_of sy' (ensure_book sy m) = book_of sy' m"
    and "mk_state (ensure_book sy m) = mk_state m" and "mk_matching (ensure_book sy m) = mk_matching m"
    and "mk_rules (ensure_book sy m) = mk_rules m" and "mk_codec (ensure_book sy m) = mk_codec m"
    and "mk_name (ensure_book sy m) = mk_name m"
    and "fst ` set (mk_books (ensure_book sy m)) = insert sy (fst ` set (mk_books m))"
    and "sy' \<noteq> sy \<Longrightarrow> map_of (mk_books (ensure_book sy m)) sy' = map_of (mk_books m) sy'"
  by (auto simp: ensure_book_def book_of_def map_of_update_eq keys_update split: option.splits
      dest: map_of_in_set) (metis fst_conv image_eqI map_of_SomeD)

lemma ensure_book_inv:
  assumes "market_inv w"
  shows "market_inv (set_market (ensure_book sy (mw_market w)) w)"
  using assms book_at_inv_empty
  by (auto simp: market_inv_def ensure_book_def distinct_update dest!: in_update split: option.splits)

lemma set_update_new: "map_of d k = None \<Longrightarrow> set (AList.update k v d) = insert (k, v) (set d)"
  by (induction d) (auto split: if_splits)

lemma resting_ensure: "resting (set_market (ensure_book sy (mw_market w)) w) = resting w"
proof (cases "map_of (mk_books (mw_market w)) sy")
  case None
  then show ?thesis
    by (simp add: resting_def ensure_book_def set_update_new book_orders_def side_orders_def empty_book_def empty_side_def)
qed (simp add: resting_def ensure_book_def)

lemma slice_ensure [simp]: "slice sy (set_market (ensure_book sy' (mw_market w)) w) = slice sy w"
  by (simp add: slice_def ensure_book_facts)

lemma put_slice_simps [simp]:
  "mw_heap (put_slice sy s w) = ms_heap s" "mw_ids (put_slice sy s w) = ms_trade_ids s"
  "mk_state (mw_market (put_slice sy s w)) = mk_state (mw_market w)"
  "mk_matching (mw_market (put_slice sy s w)) = mk_matching (mw_market w)"
  "mk_rules (mw_market (put_slice sy s w)) = mk_rules (mw_market w)"
  "mk_codec (mw_market (put_slice sy s w)) = mk_codec (mw_market w)"
  "slice sy (put_slice sy s w) = s"
  "map_of (mk_books (mw_market (put_slice sy s w))) sy' =
     (if sy' = sy then Some (ms_book s) else map_of (mk_books (mw_market w)) sy')"
  by (simp_all add: put_slice_def slice_def book_of_def map_of_update_eq)

lemma book_of_put [simp]:
  "book_of sy' (mw_market (put_slice sy s w)) = (if sy' = sy then ms_book s else book_of sy' (mw_market w))"
  by (simp add: book_of_def put_slice_def map_of_update_eq split: option.split)

lemma in_update_distinct:
  assumes "distinct (map fst d)" and "(k', v') \<in> set (AList.update k v d)"
  shows "(k', v') = (k, v) \<or> (k', v') \<in> set d \<and> k' \<noteq> k"
proof -
  have "map_of (AList.update k v d) k' = Some v'"
    using assms by (simp add: distinct_update)
  then show ?thesis by (auto simp: map_of_update_eq dest: map_of_SomeD split: if_splits)
qed

text \<open>An operation about no order in particular is confined for each of them.\<close>

lemma confined_all:
  assumes "\<forall>z. confined z s s'"
  shows "y \<notin> set (book_orders (ms_book s)) \<Longrightarrow> ms_heap s' y = ms_heap s y"
    and "set (book_orders (ms_book s')) \<subseteq> set (book_orders (ms_book s))"
proof -
  have c: "confined (CHR ''x'' # y) s s'" "confined y s s'" for y using assms by simp_all
  show "ms_heap s' y = ms_heap s y" if "y \<notin> set (book_orders (ms_book s))"
    by (rule confinedD(4) [OF c(1) [of y]]) (use that in auto)
  show "set (book_orders (ms_book s')) \<subseteq> set (book_orders (ms_book s))"
  proof
    fix y assume "y \<in> set (book_orders (ms_book s'))"
    with confinedD(5) [OF c(1) [of y]] show "y \<in> set (book_orders (ms_book s))" by auto
  qed
qed

lemma put_slice_inv:
  assumes inv: "market_inv w" and conf: "confined x (slice sy w) s'" and bi: "book_inv s'"
    and x: "o_symbol (mw_heap w x) = sy \<or> (\<forall>z. confined z (slice sy w) s')"
  shows "market_inv (put_slice sy s' w)" and "only_touches sy w (put_slice sy s' w)"
proof -
  note c = confinedD [OF conf, simplified] and sl = slice_inv [OF inv, where sy = sy] book_of_inv [OF inv, of sy]
  have same: "ms_heap s' y = mw_heap w y" if "o_symbol (mw_heap w y) \<noteq> sy" for y
    using c(4) [of y] sl(2) [of y] that x confined_all(1) [of "slice sy w" s' y] by auto
  have "book_at_inv (ms_heap s') (sy, ms_book s')"
    using bi c(2,5,6) sl(2,3) x confined_all(2) [of "slice sy w" s']
    by (auto simp: book_at_inv_def book_inv_def)
  moreover have "book_at_inv (ms_heap s') (sy', b)"
    if e: "(sy', b) \<in> set (mk_books (mw_market w))" and ne: "sy' \<noteq> sy" for sy' b
  proof -
    have old: "book_at_inv (mw_heap w) (sy', b)" using inv e by (auto simp: market_inv_def)
    then have eq: "ms_heap s' y = mw_heap w y" if "y \<in> set (book_orders b)" for y
      using same [of y] that ne by (auto simp: book_at_inv_def)
    have "book_ok (ms_heap s') b"
      by (rule book_ok_cong [of b _ "mw_heap w"]) (use old eq in \<open>auto simp: book_at_inv_def\<close>)
    with old eq show ?thesis by (auto simp: book_at_inv_def book_live_def)
  qed
  ultimately show "market_inv (put_slice sy s' w)"
    using inv in_update_distinct [of "mk_books (mw_market w)" _ _ sy "ms_book s'"]
    by (auto simp: market_inv_def put_slice_def distinct_update)
  show "only_touches sy w (put_slice sy s' w)"
    using same c(1) by (simp add: only_touches_def)
qed

lemma not_resting: "x \<notin> resting w \<Longrightarrow> x \<notin> set (book_orders (book_of sy (mw_market w)))"
  by (force simp: resting_def book_of_def book_orders_def side_orders_def empty_book_def empty_side_def
      split: option.splits dest: map_of_SomeD)

lemma put_slice_frame:
  assumes conf: "confined x (slice sy w) s'"
  shows "market_frame x w (put_slice sy s' w)"
proof -
  note c = confinedD [OF conf, simplified]
  have "mw_heap (put_slice sy s' w) y = mw_heap w y" if "y \<noteq> x" "y \<notin> resting w" for y
    using c(4) [OF that(1) not_resting [OF that(2)]] by simp
  moreover have "resting (put_slice sy s' w) \<subseteq> insert x (resting w)"
  proof
    fix y assume "y \<in> resting (put_slice sy s' w)"
    then obtain k b where e: "(k, b) \<in> set (AList.update sy (ms_book s') (mk_books (mw_market w)))"
        "y \<in> set (book_orders b)"
      by (auto simp: resting_def put_slice_def)
    show "y \<in> insert x (resting w)"
    proof (cases "(k, b) = (sy, ms_book s')")
      case True
      with e(2) c(5) not_resting [of y w sy] show ?thesis by auto
    next
      case False
      with in_update [OF e(1)] have "(k, b) \<in> set (mk_books (mw_market w))" by blast
      with e(2) have "y \<in> resting w" unfolding resting_def by (intro UN_I [of "(k, b)"]) simp_all
      then show ?thesis by blast
    qed
  qed
  ultimately show ?thesis using c(1,3) by (simp add: market_frame_def)
qed

subsection \<open>Market data never touches orders\<close>

definition data_only :: "mworld \<Rightarrow> mworld \<Rightarrow> bool" where
  "data_only w w' \<longleftrightarrow> (\<exists>d. w' = set_market ((mw_market w)\<lparr>mk_data := d\<rparr>) w)"

lemma notify_data_only: "notify sy w = Inr w' \<Longrightarrow> data_only w w'"
  by (auto simp: notify_def bind_exn_Inr data_only_def)

lemma absorb_data_only:
  assumes "absorb evs sy changed w = Inr w'"
  shows "data_only w w'"
proof -
  obtain d where d: "record_trades evs (mk_data (mw_market w)) = Inr d"
    using assms by (cases "record_trades evs (mk_data (mw_market w))") (simp_all add: absorb_def)
  show ?thesis
  proof (cases "evs \<noteq> [] \<or> changed")
    case True
    with assms d have "notify sy (set_market ((mw_market w)\<lparr>mk_data := d\<rparr>) w) = Inr w'"
      by (simp add: absorb_def)
    from notify_data_only [OF this] show ?thesis by (auto simp: data_only_def)
  next
    case False
    with assms d show ?thesis by (auto simp: absorb_def data_only_def)
  qed
qed

lemma data_only_facts:
  assumes "data_only w w'"
  shows "mw_heap w' = mw_heap w" "mw_ids w' = mw_ids w" "mk_books (mw_market w') = mk_books (mw_market w)"
    "book_of sy (mw_market w') = book_of sy (mw_market w)"
    "market_inv w' = market_inv w" "resting w' = resting w" "only_touches sy0 w0 w' = only_touches sy0 w0 w"
    "slice sy w' = slice sy w"
  using assms
  by (auto simp: data_only_def market_inv_def resting_def only_touches_def book_of_def slice_def
      split: option.split)

lemma data_only_frame: "data_only w w' \<Longrightarrow> market_frame x w0 w' = market_frame x w0 w"
  using data_only_facts(1,6) [of w w'] by (simp add: market_frame_def)

lemma only_touches_ensure [simp]: "only_touches sy w0 (set_market (ensure_book sy (mw_market w)) w) = only_touches sy w0 w"
  by (simp add: only_touches_def ensure_book_facts)

text \<open>The shape every operation on one instrument has: a confined change, then market data.\<close>

lemma put_and_absorb:
  assumes inv: "market_inv w" and conf: "confined x (slice sy w) s'" and bi: "book_inv s'"
    and x: "o_symbol (mw_heap w x) = sy \<or> (\<forall>z. confined z (slice sy w) s')"
    and ab: "absorb evs sy changed (put_slice sy s' (set_market (ensure_book sy (mw_market w)) w)) = Inr w'"
  shows "market_inv w'" and "only_touches sy w w'" and "slice sy w' = s'" and "market_frame x w w'"
proof -
  let ?w1 = "set_market (ensure_book sy (mw_market w)) w"
  have c1: "confined x (slice sy ?w1) s'" using conf by simp
  note p = put_slice_inv [OF ensure_book_inv [OF inv] c1 bi]
  note d = data_only_facts [OF absorb_data_only [OF ab]]
  show "market_inv w'" "slice sy w' = s'" using p x by (simp_all add: d)
  show "only_touches sy w w'"
    using only_touches_trans [of sy w ?w1] p(2) x by (simp add: d)
  have "market_frame x w ?w1" unfolding market_frame_def resting_ensure by auto
  from market_frame_trans [OF this put_slice_frame [OF c1]] show "market_frame x w w'"
    by (simp add: data_only_frame [OF absorb_data_only [OF ab]])
qed

subsection \<open>Order flow\<close>

lemma market_submit_refused:
  assumes "\<not> allows_entry (mk_state (mw_market w)) (o_symbol (mw_heap w x))"
  shows "market_submit x w = Inr (w\<lparr>mw_heap := (mw_heap w)(x := (mw_heap w x)\<lparr>o_status := REJECTED\<rparr>)\<rparr>,
    [OrderRejected x RR_MARKET_CLOSED (''market is '' @
       show_state (state_for (mk_state (mw_market w)) (o_symbol (mw_heap w x))))])"
  using assms by (simp add: market_submit_def Let_def)

lemma market_submit_cases:
  assumes "market_submit x w = Inr (w', evs)"
  obtains (refused) "\<not> allows_entry (mk_state (mw_market w)) (o_symbol (mw_heap w x))"
      "w' = w\<lparr>mw_heap := (mw_heap w)(x := (mw_heap w x)\<lparr>o_status := REJECTED\<rparr>)\<rparr>" "trades_of evs = []"
  | (entered) s' where "allows_entry (mk_state (mw_market w)) (o_symbol (mw_heap w x))"
      "submit_order (mk_matching (mw_market w))
        (allows_matching (mk_state (mw_market w)) (o_symbol (mw_heap w x))) x
        (slice (o_symbol (mw_heap w x)) w) = Inr (s', evs)"
      "absorb evs (o_symbol (mw_heap w x)) False (put_slice (o_symbol (mw_heap w x)) s'
        (set_market (ensure_book (o_symbol (mw_heap w x)) (mw_market w)) w)) = Inr w'"
proof (cases "allows_entry (mk_state (mw_market w)) (o_symbol (mw_heap w x))")
  case False
  with assms show ?thesis by (intro refused) (auto simp: market_submit_refused)
next
  case True
  with assms show ?thesis
    by (auto simp: market_submit_def Let_def bind_exn_Inr intro: entered)
qed

lemma market_submit_slice_inv:
  assumes "market_inv w" and "x \<notin> resting w"
  shows "match_inv x (slice sy w)"
  using slice_inv(1) [OF assms(1), of sy] not_resting [OF assms(2), of sy] by (simp add: match_inv_def)

lemma market_submit_inv:
  assumes sub: "market_submit x w = Inr (w', evs)" and inv: "market_inv w" and new: "x \<notin> resting w"
    and lv: "0 < leaves_qty (mw_heap w x)"
  shows "market_inv w' \<and> only_touches (o_symbol (mw_heap w x)) w w' \<and> market_frame x w w'"
  using sub
proof (cases rule: market_submit_cases)
  case refused
  let ?sy = "o_symbol (mw_heap w x)"
  have e: "book_at_inv (mw_heap w') e" if "e \<in> set (mk_books (mw_market w))" for e
  proof -
    have old: "book_at_inv (mw_heap w) e" using inv that by (simp add: market_inv_def)
    have eq: "mw_heap w' y = mw_heap w y" if "y \<in> set (book_orders (snd e))" for y
      using that new \<open>e \<in> _\<close> by (auto simp: resting_def refused(2))
    have "book_ok (mw_heap w') (snd e)"
      by (rule book_ok_cong [of _ _ "mw_heap w"]) (use old eq in \<open>auto simp: book_at_inv_def\<close>)
    with old eq show ?thesis by (auto simp: book_at_inv_def book_live_def)
  qed
  with inv have "market_inv w'" by (simp add: market_inv_def refused(2))
  moreover have "only_touches ?sy w w'" by (simp add: only_touches_def refused(2) identity_of_def)
  moreover have "market_frame x w w'"
    by (auto simp: market_frame_def refused(2) identity_of_def resting_def)
  ultimately show ?thesis by simp
next
  case (entered s')
  note m = market_submit_slice_inv [OF inv new, of "o_symbol (mw_heap w x)"]
  have "confined x (slice (o_symbol (mw_heap w x)) w) s'"
    by (rule submit_confined [OF entered(2) m]) (simp add: lv)
  moreover have "book_inv s'" by (rule submit_book_inv [OF entered(2) m]) (simp add: lv)
  ultimately show ?thesis using put_and_absorb [OF inv _ _ disjI1 [OF refl] entered(3)] by blast
qed

lemma market_cancel_inv:
  assumes cn: "market_cancel x reason text w = Inr (w', evs)" and inv: "market_inv w"
  shows "market_inv w' \<and> only_touches (o_symbol (mw_heap w x)) w w' \<and> market_frame x w w' \<and>
    evs = [OrderCancelled x reason text] \<and>
    set (book_orders (book_of (o_symbol (mw_heap w x)) (mw_market w'))) =
      set (book_orders (book_of (o_symbol (mw_heap w x)) (mw_market w))) - {x}"
proof -
  let ?sy = "o_symbol (mw_heap w x)"
  obtain s' evs' where c: "cancel_resting (mk_matching (mw_market w)) x reason text (slice ?sy w) = (s', evs')"
    by fastforce
  with cn have ab: "absorb evs ?sy False (put_slice ?sy s' (set_market (ensure_book ?sy (mw_market w)) w)) = Inr w'"
      and evs: "evs = evs'"
    by (auto simp: market_cancel_def Let_def bind_exn_Inr)
  note r = cancel_resting_result [OF c slice_inv(1) [OF inv]]
  note p = put_and_absorb [OF inv r(3,1) disjI1 [OF refl] ab]
  have "ms_book s' = book_of ?sy (mw_market w')" using p(3) by (auto simp: slice_def)
  with p(1,2,4) r(2,4) evs show ?thesis by simp
qed

lemma remove_match_inv:
  assumes "book_inv s"
  shows "match_inv x (s\<lparr>ms_book := snd (book_remove (ms_heap s) x (ms_book s))\<rparr>)"
    and "confined x s (s\<lparr>ms_book := snd (book_remove (ms_heap s) x (ms_book s))\<rparr>)"
  using assms book_ok_remove [of "ms_heap s" "ms_book s" x] book_orders_remove [of "ms_heap s" "ms_book s" x]
  by (auto simp: match_inv_def book_inv_def book_live_def confined_def frame_simps)

lemma market_amend_cases:
  assumes "market_amend x nq np w = Inr (w', kept, evs)"
  obtains s s' evs' where "amend_resting (mk_matching (mw_market w)) x nq np (slice (o_symbol (mw_heap w x)) w) = (s, kept)"
    "absorb evs (o_symbol (mw_heap w x)) True (put_slice (o_symbol (mw_heap w x)) s'
        (set_market (ensure_book (o_symbol (mw_heap w x)) (mw_market w)) w)) = Inr w'"
    "if allows_matching (mk_state (mw_market w)) (o_symbol (mw_heap w x)) \<and> 0 < leaves_qty (ms_heap s x)
     then submit_order (mk_matching (mw_market w)) True x
            (s\<lparr>ms_book := snd (book_remove (ms_heap s) x (ms_book s))\<rparr>) = Inr (s', evs') \<and>
          evs = filter (\<lambda>e. \<not> is_accepted e) evs'
     else s' = s \<and> evs = []"
proof -
  obtain s k where am: "amend_resting (mk_matching (mw_market w)) x nq np (slice (o_symbol (mw_heap w x)) w) = (s, k)"
    by fastforce
  with assms that show ?thesis
    by (auto simp: market_amend_def Let_def bind_exn_Inr split: if_splits)
qed

lemma market_amend_inv:
  assumes am: "market_amend x nq np w = Inr (w', kept, evs)" and inv: "market_inv w"
  shows "market_inv w' \<and> only_touches (o_symbol (mw_heap w x)) w w' \<and> market_frame x w w'"
  using am
proof (rule market_amend_cases)
  let ?sy = "o_symbol (mw_heap w x)"
  fix s s' evs'
  assume a: "amend_resting (mk_matching (mw_market w)) x nq np (slice ?sy w) = (s, kept)"
    and ab: "absorb evs ?sy True (put_slice ?sy s' (set_market (ensure_book ?sy (mw_market w)) w)) = Inr w'"
    and re: "if allows_matching (mk_state (mw_market w)) ?sy \<and> 0 < leaves_qty (ms_heap s x)
     then submit_order (mk_matching (mw_market w)) True x
            (s\<lparr>ms_book := snd (book_remove (ms_heap s) x (ms_book s))\<rparr>) = Inr (s', evs') \<and>
          evs = filter (\<lambda>e. \<not> is_accepted e) evs'
     else s' = s \<and> evs = []"
  note r = amend_result [OF a slice_inv(1) [OF inv]] and m = remove_match_inv
  have "confined x (slice ?sy w) s' \<and> book_inv s'"
  proof (cases "allows_matching (mk_state (mw_market w)) ?sy \<and> 0 < leaves_qty (ms_heap s x)")
    case True
    with re have sub: "submit_order (mk_matching (mw_market w)) True x
            (s\<lparr>ms_book := snd (book_remove (ms_heap s) x (ms_book s))\<rparr>) = Inr (s', evs')" by simp
    show ?thesis
      using confined_trans [OF r(2) confined_trans [OF m(2) [OF r(1)] submit_confined [OF sub m(1) [OF r(1)]]]]
        submit_book_inv [OF sub m(1) [OF r(1)]] True by simp
  next
    case False
    with re r show ?thesis by simp
  qed
  with put_and_absorb [OF inv _ _ disjI1 [OF refl] ab] show ?thesis by blast
qed

subsection \<open>The call auction\<close>

lemma execute_pair_symbol: "execute_pair b a p now s = Inr (s', evs) \<Longrightarrow> ob_symbol (ms_book s') = ob_symbol (ms_book s)"
  by (erule execute_pair_Inr) (simp add: remove_if_done_def frame_simps)

lemma execute_loop_symbol:
  "execute_loop bs as p now s = Inr (s', evs) \<Longrightarrow> ob_symbol (ms_book s') = ob_symbol (ms_book s)"
proof (induction bs as p now s arbitrary: s' evs rule: execute_loop.induct)
  case (3 b bs a as price now s)
  show ?case
  proof (cases "leaves_qty (ms_heap s b) \<le> 0 \<or> leaves_qty (ms_heap s a) = 0")
    case True
    with "3.prems" "3.IH"(1,2) show ?thesis by (auto simp: execute_loop.simps(3) split: if_splits)
  next
    case False
    then obtain s1 e1 where ex: "execute_pair b a price now s = Inr (s1, e1)"
      using "3.prems" by (auto simp: execute_loop.simps(3) split: sum.splits)
    from False ex "3.prems" have "prepend_events e1
        (if leaves_qty (ms_heap s1 a) = 0 then execute_loop (b # bs) as price now s1
         else execute_loop (b # bs) (a # as) price now s1) = Inr (s', evs)"
      by (simp add: execute_loop.simps(3))
    then obtain evs2 where "(if leaves_qty (ms_heap s1 a) = 0 then execute_loop (b # bs) as price now s1
         else execute_loop (b # bs) (a # as) price now s1) = Inr (s', evs2)"
      by (auto simp: prepend_events_def split: sum.splits)
    then have "ob_symbol (ms_book s') = ob_symbol (ms_book s1)"
      using "3.IH"(3,4) [of "(s1, e1)" s1 e1] False ex by (auto split: if_splits)
    with execute_pair_symbol [OF ex] show ?thesis by simp
  qed
qed simp_all

lemma execute_auction_confined:
  assumes ex: "execute_auction price now s = Inr (s', evs)" and inv: "book_inv s"
  shows "confined x s s' \<and> book_inv s'"
proof (cases price)
  case None
  with assms show ?thesis by (simp add: execute_auction_def)
next
  case (Some p)
  note r = loop_resultD [OF execute_auction_result [OF ex [unfolded Some] inv]]
  have sub: "set (served_at (ms_heap s) (ob_bids (ms_book s)) p) \<subseteq> set (book_orders (ms_book s))"
    "set (served_at (ms_heap s) (ob_asks (ms_book s)) p) \<subseteq> set (book_orders (ms_book s))"
    using served_at_facts(2) [OF book_inv_sides(1) [OF inv]] served_at_facts(2) [OF book_inv_sides(2) [OF inv]]
    by (auto simp: book_orders_def)
  have "ob_symbol (ms_book s') = ob_symbol (ms_book s)"
    using ex Some execute_loop_symbol by (auto simp: execute_auction_def Let_def split: if_splits)
  moreover have "ms_heap s' y = ms_heap s y" if "y \<notin> set (book_orders (ms_book s))" for y
    by (rule r(4)) (use that sub in auto)
  ultimately show ?thesis using r(8) [OF inv] same_terms_identity [OF r(5)]
    unfolding confined_def by auto
qed

lemma cancel_each_result:
  "cancel_each me xs reason text s = (s', evs) \<Longrightarrow> book_inv s \<Longrightarrow>
   book_inv s' \<and> set (book_orders (ms_book s')) = set (book_orders (ms_book s)) - set xs \<and>
   ob_symbol (ms_book s') = ob_symbol (ms_book s) \<and> ms_trade_ids s' = ms_trade_ids s \<and>
   evs = map (\<lambda>x. OrderCancelled x reason text) xs \<and>
   (\<forall>y. identity_of (ms_heap s' y) = identity_of (ms_heap s y) \<and> o_chain (ms_heap s' y) = o_chain (ms_heap s y) \<and>
     o_price (ms_heap s' y) = o_price (ms_heap s y)) \<and>
   (\<forall>y. y \<notin> set xs \<longrightarrow> ms_heap s' y = ms_heap s y)"
proof (induction xs arbitrary: s s' evs)
  case Nil
  then show ?case by simp
next
  case (Cons z zs)
  obtain s1 e1 where 1: "cancel_resting me z reason text s = (s1, e1)" by fastforce
  obtain s2 e2 where 2: "cancel_each me zs reason text s1 = (s2, e2)" by fastforce
  from Cons.prems(1) 1 2 have s': "s' = s2" "evs = e1 @ e2" by simp_all
  note r = cancel_resting_result [OF 1 Cons.prems(2)] and ih = Cons.IH [OF 2 r(1)]
  have "o_price (ms_heap s1 y) = o_price (ms_heap s y) \<and> (y \<noteq> z \<longrightarrow> ms_heap s1 y = ms_heap s y)" for y
    by (simp add: r(5) frame_simps)
  with ih r(2,4,6) confinedD(1,3,6) [OF r(3)] show ?case unfolding s' by auto
qed

lemma cancel_each_confined:
  assumes "cancel_each me xs reason text s = (s', evs)" and "book_inv s"
    and "set xs \<subseteq> set (book_orders (ms_book s))"
  shows "confined x s s'"
  using cancel_each_result [OF assms(1,2)] assms(3) unfolding confined_def by blast

end
