(* ===== verification/Market_Phases.thy ===== *)
theory Market_Phases
  imports Market_Facts
begin

section \<open>What the call auction leaves behind\<close>

text \<open>
  The uncross is followed by the cancellation of what is left at market. Afterwards no
  order without a price rests, and the priced orders do not cross: with an auction price
  because it maximises the volume, without one because the book did not cross before.
\<close>

lemma sum_list_pos:
  fixes f :: "'a \<Rightarrow> int"
  shows "x \<in> set xs \<Longrightarrow> 0 < f x \<Longrightarrow> (\<And>y. 0 \<le> f y) \<Longrightarrow> 0 < sum_list (map f xs)"
proof (induction xs)
  case (Cons a xs)
  have "0 \<le> sum_list (map f xs)" by (rule sum_list_nonneg) (use Cons.prems(3) in auto)
  with Cons Cons.prems(3) [of a] show ?case by (auto simp: add_pos_nonneg add_nonneg_pos)
qed simp

lemma crossed_matchable:
  assumes ok: "book_ok h b" and live: "book_live h b" and cr: "book_is_crossed b"
  shows "\<exists>p \<in> set (candidate_prices b). 0 < matchable h b p"
proof -
  note sd = book_okD(3,4) [OF ok]
  from cr obtain x y where x: "x \<in> set (orders_in_priority (ob_bids b))"
    and y: "y \<in> set (orders_in_priority (ob_asks b))" and le: "price_of h y \<le> price_of h x"
    using not_crossed_iff [OF ok] by (auto simp: not_less)
  have lv: "0 < leaves_qty (h x)" "0 < leaves_qty (h y)"
    using live x y in_orders_in_priority [OF ok] by (auto simp: book_live_def)
  have nn: "0 \<le> at_market_quantity h s" for s
    unfolding at_market_quantity_def by (rule sum_list_nonneg) auto
  have "0 < demand_of h b (price_of h y)"
    unfolding demand_of_def quantity_above_eq [OF sd(1)]
    by (rule add_nonneg_pos [OF nn sum_list_pos [of x]]) (use x le lv in auto)
  moreover have "0 < supply_of h b (price_of h y)"
    unfolding supply_of_def quantity_below_eq [OF sd(2)]
    by (rule add_nonneg_pos [OF nn sum_list_pos [of y]]) (use y lv in auto)
  moreover have "price_of h y \<in> set (candidate_prices b)"
    using y level_at_price_of [OF sd(2)] by (auto simp: set_orders_in_priority)
  ultimately show ?thesis by (auto simp: matchable_def)
qed

lemma uncross_no_price:
  assumes ok: "book_ok h b" and live: "book_live h b"
    and un: "uncross h b reference rules = Inr res" and none: "\<not> result_crossed res"
  shows "\<not> book_is_crossed b"
proof
  assume cr: "book_is_crossed b"
  let ?rows = "map (\<lambda>p. (p, matchable h b p, demand_of h b p - supply_of h b p)) (candidate_prices b)"
  let ?trad = "filter (\<lambda>(p, v, i). v > 0) ?rows"
  obtain p where p: "p \<in> set (candidate_prices b)" "0 < matchable h b p"
    using crossed_matchable [OF ok live cr] by blast
  then have "(p, matchable h b p, demand_of h b p - supply_of h b p) \<in> set ?trad" by auto
  then have trad: "?trad \<noteq> []" by fastforce
  from cr obtain bid ask where best: "best_price (ob_bids b) = Some bid" "best_price (ob_asks b) = Some ask"
      "\<not> bid < ask"
    by (auto simp: book_is_crossed_def split: option.splits)
  have un': "(case apply_rules rules ?trad reference [] of Inl e \<Rightarrow> Inl e
      | Inr (survivors, reason) \<Rightarrow> (case hd survivors of (p, v, i) \<Rightarrow>
          Inr \<lparr>ar_price = Some p, ar_volume = v, ar_imbalance = \<bar>i\<bar>,
            ar_surplus_side = (if i > 0 then Some BUY else if i < 0 then Some SELL else None),
            ar_candidates = candidate_prices b,
            ar_reason = (if reason = [] then show_rule MAX_VOLUME else reason)\<rparr>)) = Inr res"
    unfolding un [symmetric] using best trad by (simp add: uncross_def demand_at_eq Let_def)
  then obtain survivors reason where ap: "apply_rules rules ?trad reference [] = Inr (survivors, reason)"
    by (cases "apply_rules rules ?trad reference []") auto
  note nar = apply_rules_narrows [OF ap trad]
  obtain p' v i where hd: "hd survivors = (p', v, i)" by (cases "hd survivors")
  have "hd survivors \<in> set ?trad" using nar hd_in_set [of survivors] by blast
  then have mem: "(p', v, i) \<in> set ?trad" by (simp only: hd)
  from un' have "\<lparr>ar_price = Some p', ar_volume = v, ar_imbalance = \<bar>i\<bar>,
            ar_surplus_side = (if i > 0 then Some BUY else if i < 0 then Some SELL else None),
            ar_candidates = candidate_prices b,
            ar_reason = (if reason = [] then show_rule MAX_VOLUME else reason)\<rparr> = res"
    by (simp only: ap hd sum.case prod.case sum.inject)
  then have "ar_price res = Some p'" "ar_volume res = v" by auto
  with mem none show False by (auto simp: result_crossed_def)
qed

text \<open>Orders leaving never cross a book that did not cross.\<close>

lemma fewer_orders_uncrossed:
  assumes ok: "book_ok h b" and ok': "book_ok h' b'" and no: "\<not> book_is_crossed b"
    and sub: "set (book_orders b') \<subseteq> set (book_orders b)"
    and same: "\<And>y. y \<in> set (book_orders b') \<Longrightarrow> is_buy (h' y) = is_buy (h y) \<and> o_price (h' y) = o_price (h y)"
  shows "\<not> book_is_crossed b'"
proof -
  have "price_of h' x < price_of h' y"
    if "x \<in> set (orders_in_priority (ob_bids b'))" "y \<in> set (orders_in_priority (ob_asks b'))" for x y
  proof -
    have x: "x \<in> set (orders_in_priority (ob_bids b))" "price_of h' x = price_of h x"
      using that(1) in_orders_in_priority(1) [OF ok', of x] in_orders_in_priority(1) [OF ok, of x] sub same [of x]
      by (auto simp: price_of_def)
    have y: "y \<in> set (orders_in_priority (ob_asks b))" "price_of h' y = price_of h y"
      using that(2) in_orders_in_priority(2) [OF ok', of y] in_orders_in_priority(2) [OF ok, of y] sub same [of y]
      by (auto simp: price_of_def)
    from no not_crossed_iff [OF ok] x y show ?thesis by auto
  qed
  then show ?thesis using not_crossed_iff [OF ok'] by blast
qed

lemma at_market_iff:
  assumes "book_ok h b"
  shows "x \<in> set (bs_at_market (ob_bids b)) \<longleftrightarrow> x \<in> set (book_orders b) \<and> is_buy (h x) \<and> o_price (h x) = None"
    and "x \<in> set (bs_at_market (ob_asks b)) \<longleftrightarrow> x \<in> set (book_orders b) \<and> \<not> is_buy (h x) \<and> o_price (h x) = None"
proof -
  note ok = book_okD [OF assms]
  have "x \<in> set (bs_at_market s) \<longleftrightarrow> x \<in> set (side_orders s) \<and> o_price (h x) = None" if "side_ok h s" for s
    using side_orders_split [OF that] queue_priced [OF that, of x] side_ok_at_market [OF that, of x] by auto
  then show "x \<in> set (bs_at_market (ob_bids b)) \<longleftrightarrow> x \<in> set (book_orders b) \<and> is_buy (h x) \<and> o_price (h x) = None"
    and "x \<in> set (bs_at_market (ob_asks b)) \<longleftrightarrow> x \<in> set (book_orders b) \<and> \<not> is_buy (h x) \<and> o_price (h x) = None"
    using ok side_ok_is_buy [OF ok(3), of x] side_ok_is_buy [OF ok(4), of x]
    by (auto simp: book_orders_def)
qed

lemma expire_at_auction_result:
  assumes ex: "expire_at_auction me s = (s', evs)" and inv: "book_inv s"
  shows "book_inv s' \<and> confined x s s' \<and> bs_at_market (ob_bids (ms_book s')) = [] \<and>
    bs_at_market (ob_asks (ms_book s')) = [] \<and> set (book_orders (ms_book s')) \<subseteq> set (book_orders (ms_book s)) \<and>
    (\<forall>y. o_price (ms_heap s' y) = o_price (ms_heap s y)) \<and> trades_of evs = []"
proof -
  let ?t = "''at-auction order not filled in the auction''"
  obtain s1 e1 where 1: "cancel_each me (bs_at_market (ob_bids (ms_book s))) CR_MARKET_REMAINDER ?t s = (s1, e1)"
    by fastforce
  obtain s2 e2 where 2: "cancel_each me (bs_at_market (ob_asks (ms_book s1))) CR_MARKET_REMAINDER ?t s1 = (s2, e2)"
    by fastforce
  from ex 1 2 have s': "s' = s2" "evs = e1 @ e2" by (auto simp: expire_at_auction_def Let_def)
  note r1 = cancel_each_result [OF 1 inv]
  then have inv1: "book_inv s1" by blast
  note r2 = cancel_each_result [OF 2 inv1]
  then have inv2: "book_inv s2" by blast
  have sub: "set (bs_at_market (ob_bids b)) \<subseteq> set (book_orders b)" "set (bs_at_market (ob_asks b)) \<subseteq> set (book_orders b)" for b
    by (auto simp: book_orders_def side_orders_def)
  have buy: "is_buy (ms_heap s2 y) = is_buy (ms_heap s y)" "is_buy (ms_heap s1 y) = is_buy (ms_heap s y)" for y
    using r1 r2 by (auto simp: identity_of_def is_buy_def)
  have ok: "book_ok (ms_heap s) (ms_book s)" "book_ok (ms_heap s1) (ms_book s1)" "book_ok (ms_heap s2) (ms_book s2)"
    using inv inv1 inv2 by (simp_all add: book_inv_def)
  have "y \<notin> set (bs_at_market (ob_bids (ms_book s2)))" "y \<notin> set (bs_at_market (ob_asks (ms_book s2)))" for y
    using at_market_iff [OF ok(1), of y] at_market_iff [OF ok(2), of y] at_market_iff [OF ok(3), of y]
      buy [of y] r1 r2 by auto
  then have "bs_at_market (ob_bids (ms_book s2)) = []" "bs_at_market (ob_asks (ms_book s2)) = []"
    by (metis equals0I set_empty)+
  moreover have "confined x s s2"
    by (rule confined_trans [OF cancel_each_confined [OF 1 inv sub(1)] cancel_each_confined [OF 2 inv1 sub(2)]])
  moreover have "trades_of (map (\<lambda>x. OrderCancelled x r t) zs) = []" for r t zs
    by (induction zs) auto
  ultimately show ?thesis using r1 r2 s' by auto
qed

lemma market_uncross_cases:
  assumes "market_uncross sy reference w = Inr (w', res, evs)"
  obtains s1 e1 s2 e2 where
      "uncross (mw_heap w) (book_of sy (mw_market w)) reference (mk_rules (mw_market w)) = Inr res"
    "execute_auction (if result_crossed res then ar_price res else reference)
       (me_now (mk_matching (mw_market w))) (slice sy w) = Inr (s1, e1)"
    "expire_at_auction (mk_matching (mw_market w)) s1 = (s2, e2)"
    "absorb (e1 @ e2) sy False (put_slice sy s2 (set_market (ensure_book sy (mw_market w)) w)) = Inr w'"
    "evs = e1 @ e2"
proof -
  let ?p = "\<lambda>r. if result_crossed r then ar_price r else reference"
  obtain r where 1: "uncross (mw_heap w) (book_of sy (mw_market w)) reference (mk_rules (mw_market w)) = Inr r"
    using assms by (auto simp: market_uncross_def Let_def bind_exn_Inr ensure_book_facts)
  obtain s1 e1 where 2: "execute_auction (?p r) (me_now (mk_matching (mw_market w))) (slice sy w) = Inr (s1, e1)"
    using assms 1 by (auto simp: market_uncross_def Let_def bind_exn_Inr ensure_book_facts)
  obtain s2 e2 where 3: "expire_at_auction (mk_matching (mw_market w)) s1 = (s2, e2)" by fastforce
  from assms 1 2 3 have "r = res" "evs = e1 @ e2"
      "absorb (e1 @ e2) sy False (put_slice sy s2 (set_market (ensure_book sy (mw_market w)) w)) = Inr w'"
    by (auto simp: market_uncross_def Let_def bind_exn_Inr ensure_book_facts)
  with 1 2 3 that show ?thesis by blast
qed

lemma market_uncross_inv:
  assumes un: "market_uncross sy reference w = Inr (w', res, evs)" and inv: "market_inv w"
  shows "market_inv w' \<and> only_touches sy w w'"
    and "bs_at_market (ob_bids (book_of sy (mw_market w'))) = []"
    and "bs_at_market (ob_asks (book_of sy (mw_market w'))) = []"
    and "mk_rules (mw_market w) = MAX_VOLUME # rules \<Longrightarrow> \<not> book_is_crossed (book_of sy (mw_market w'))"
    and "market_frame z w w'"
proof -
  let ?s = "slice sy w" and ?w1 = "set_market (ensure_book sy (mw_market w)) w"
  let ?p = "if result_crossed res then ar_price res else reference"
  obtain s1 e1 s2 e2 where
      r: "uncross (mw_heap w) (book_of sy (mw_market w)) reference (mk_rules (mw_market w)) = Inr res"
    and ex: "execute_auction ?p (me_now (mk_matching (mw_market w))) ?s = Inr (s1, e1)"
    and ea: "expire_at_auction (mk_matching (mw_market w)) s1 = (s2, e2)"
    and ab: "absorb (e1 @ e2) sy False (put_slice sy s2 ?w1) = Inr w'"
    and evs: "evs = e1 @ e2"
    using un by (rule market_uncross_cases)
  note bi = slice_inv(1) [OF inv, of sy]
  note e = execute_auction_confined [OF ex bi]
  then have inv1: "book_inv s1" by blast
  note x = expire_at_auction_result [OF ea inv1]
  have conf: "\<forall>z. confined z ?s s2"
    using confined_trans [of _ ?s s1 s2] e x by blast
  have "book_inv s2" using x by blast
  note p = put_and_absorb [OF inv spec [OF conf] this disjI2 [OF conf] ab]
  then show "market_inv w' \<and> only_touches sy w w'" by blast
  show "market_frame z w w'"
    using put_and_absorb(4) [OF inv spec [OF conf] \<open>book_inv s2\<close> disjI2 [OF conf] ab] .
  have b': "book_of sy (mw_market w') = ms_book s2" using p(3) by (auto simp: slice_def)
  with x show "bs_at_market (ob_bids (book_of sy (mw_market w'))) = []"
    and "bs_at_market (ob_asks (book_of sy (mw_market w'))) = []" by simp_all
  assume mv: "mk_rules (mw_market w) = MAX_VOLUME # rules"
  have ok: "book_ok (mw_heap w) (book_of sy (mw_market w))" "book_live (mw_heap w) (book_of sy (mw_market w))"
    "book_ok (ms_heap s1) (ms_book s1)" "book_ok (ms_heap s2) (ms_book s2)"
    using bi inv1 \<open>book_inv s2\<close> by (simp_all add: book_inv_def)
  have same: "is_buy (ms_heap s2 y) = is_buy (ms_heap s1 y)" for y
    using confinedD(1) [of y s1 s2 y] x by (auto simp: identity_of_def is_buy_def)
  have "\<not> book_is_crossed (ms_book s1)"
  proof (cases "result_crossed res")
    case True
    then obtain q where q: "ar_price res = Some q" by (auto simp: result_crossed_def)
    with True ex have ex': "execute_auction (Some q) (me_now (mk_matching (mw_market w))) ?s = Inr (s1, e1)" by simp
    have un': "uncross (mw_heap w) (book_of sy (mw_market w)) reference (MAX_VOLUME # rules) = Inr res"
      using r mv by simp
    have "matchable (mw_heap w) (book_of sy (mw_market w)) c \<le> matchable (mw_heap w) (book_of sy (mw_market w)) q" for c
      using uncross_maximal [OF ok(1) un' q, of c] uncross_priced [OF un' q] by simp
    then show ?thesis using auction_leaves_uncrossed [OF ex' bi] by simp
  next
    case False
    note no = uncross_no_price [OF ok(1,2) r False]
    show ?thesis
    proof (cases reference)
      case None
      with False ex have "s1 = ?s" by (simp add: execute_auction_def)
      with no show ?thesis by simp
    next
      case (Some q)
      with False ex have "execute_auction (Some q) (me_now (mk_matching (mw_market w))) ?s = Inr (s1, e1)" by simp
      note l = loop_resultD [OF execute_auction_result [OF this bi]]
      show ?thesis
        by (rule fewer_orders_uncrossed [OF ok(1,3) no])
          (use l(8) [OF bi] l(5) in \<open>auto simp: same_terms_def is_buy_def\<close>)
    qed
  qed
  then have "\<not> book_is_crossed (ms_book s2)"
    by (rule fewer_orders_uncrossed [OF ok(3,4)]) (use x same in auto)
  then show "\<not> book_is_crossed (book_of sy (mw_market w'))" by (simp add: b')
qed

section \<open>Cancelling in bulk, and closing\<close>

text \<open>
  \<open>cleared\<close> is what a bulk cancellation does to the books it visits: exactly the orders
  the predicate picks leave, and no other order changes.
\<close>

definition cleared :: "(order \<Rightarrow> bool) \<Rightarrow> string set \<Rightarrow> mworld \<Rightarrow> mworld \<Rightarrow> bool" where
  "cleared pred sys w w' \<longleftrightarrow>
     (\<forall>sy. set (book_orders (book_of sy (mw_market w'))) =
        {x \<in> set (book_orders (book_of sy (mw_market w))). \<not> (sy \<in> sys \<and> pred (mw_heap w x))}) \<and>
     (\<forall>x. mw_heap w' x = mw_heap w x \<or> o_symbol (mw_heap w x) \<in> sys \<and> pred (mw_heap w x)) \<and>
     (\<forall>y. identity_of (mw_heap w' y) = identity_of (mw_heap w y)) \<and>
     fst ` set (mk_books (mw_market w')) = fst ` set (mk_books (mw_market w)) \<and>
     mk_state (mw_market w') = mk_state (mw_market w) \<and>
     mk_matching (mw_market w') = mk_matching (mw_market w)"

lemma clearedD:
  assumes "cleared pred sys w w'"
  shows "set (book_orders (book_of sy (mw_market w'))) =
        {x \<in> set (book_orders (book_of sy (mw_market w))). \<not> (sy \<in> sys \<and> pred (mw_heap w x))}"
    "mw_heap w' x = mw_heap w x \<or> o_symbol (mw_heap w x) \<in> sys \<and> pred (mw_heap w x)"
    "identity_of (mw_heap w' y) = identity_of (mw_heap w y)" "o_symbol (mw_heap w' y) = o_symbol (mw_heap w y)"
    "fst ` set (mk_books (mw_market w')) = fst ` set (mk_books (mw_market w))"
    "mk_state (mw_market w') = mk_state (mw_market w)"
    "mk_matching (mw_market w') = mk_matching (mw_market w)"
proof -
  have i: "\<forall>y. identity_of (mw_heap w' y) = identity_of (mw_heap w y)" using assms by (simp add: cleared_def)
  then show "identity_of (mw_heap w' y) = identity_of (mw_heap w y)" by blast
  from i show "o_symbol (mw_heap w' y) = o_symbol (mw_heap w y)" by (intro identity_symbol) blast
qed (use assms in \<open>simp_all add: cleared_def\<close>)

lemma cancel_book_cleared:
  assumes cb: "cancel_book pred reason text sy w = Inr (w', evs)" and inv: "market_inv w"
    and key: "sy \<in> fst ` set (mk_books (mw_market w))"
  shows "market_inv w' \<and> cleared pred {sy} w w'"
proof -
  let ?s = "slice sy w" and ?me = "mk_matching (mw_market w)"
  let ?xs = "filter (\<lambda>x. pred (mw_heap w x)) (book_orders (book_of sy (mw_market w)))"
  obtain s' e where c: "cancel_each ?me ?xs reason text ?s = (s', e)" by fastforce
  with cb have nt: "notify sy (put_slice sy s' w) = Inr w'"
    by (auto simp: cancel_book_def Let_def bind_exn_Inr)
  note bi = slice_inv(1) [OF inv, of sy] and r = cancel_each_result [OF c slice_inv(1) [OF inv]]
  then have bi': "book_inv s'" by blast
  have conf: "\<forall>z. confined z ?s s'" using cancel_each_confined [OF c bi] by auto
  note p = put_slice_inv(1) [OF inv spec [OF conf] bi' disjI2 [OF conf]]
  note d = data_only_facts [OF notify_data_only [OF nt]]
  have "mk_state (mw_market w') = mk_state (mw_market w)" "mk_matching (mw_market w') = mk_matching (mw_market w)"
    using notify_data_only [OF nt] by (auto simp: data_only_def)
  moreover have "fst ` set (mk_books (mw_market w')) = fst ` set (mk_books (mw_market w))"
    using key by (auto simp: d put_slice_def keys_update)
  moreover have "set (book_orders (book_of sy' (mw_market w'))) =
      {x \<in> set (book_orders (book_of sy' (mw_market w))). \<not> (sy' \<in> {sy} \<and> pred (mw_heap w x))}" for sy'
    using r by (auto simp: d)
  moreover have "mw_heap w' x = mw_heap w x \<or> o_symbol (mw_heap w x) \<in> {sy} \<and> pred (mw_heap w x)" for x
    using r slice_inv(2) [OF inv, of x sy] by (auto simp: d)
  moreover have "identity_of (mw_heap w' y) = identity_of (mw_heap w y)" for y
    using r by (simp add: d)
  ultimately show ?thesis
    using p unfolding cleared_def by (simp add: d)
qed

lemma cleared_trans:
  assumes 1: "cleared pred {sy} w w1" and 2: "cleared pred sys w1 w2" and inv: "market_inv w" "market_inv w1"
    and sy: "sy \<notin> sys"
  shows "cleared pred (insert sy sys) w w2"
proof -
  note c1 = clearedD [OF 1] and c2 = clearedD [OF 2]
  have same: "pred (mw_heap w1 x) = pred (mw_heap w x)" if "o_symbol (mw_heap w x) \<noteq> sy" for x
    using c1(2) [of x] that by auto
  have "pred (mw_heap w1 x) = pred (mw_heap w x)" if "x \<in> set (book_orders (book_of sy' (mw_market w1)))" "sy' \<noteq> sy" for x sy'
    using same [of x] slice_inv(2) [OF inv(2) that(1)] c1(4) [of x] that by simp
  then have orders: "set (book_orders (book_of sy' (mw_market w2))) =
        {x \<in> set (book_orders (book_of sy' (mw_market w))). \<not> (sy' \<in> insert sy sys \<and> pred (mw_heap w x))}" for sy'
    using c1(1) [of sy'] c2(1) [of sy'] sy by auto
  have "mw_heap w2 x = mw_heap w x \<or> o_symbol (mw_heap w x) \<in> insert sy sys \<and> pred (mw_heap w x)" for x
    using c1(2) [of x] c2(2) [of x] c1(4) [of x] same [of x] sy
    by (cases "o_symbol (mw_heap w x) = sy") auto
  with orders c1(3,5-7) c2(3,5-7) show ?thesis unfolding cleared_def by simp
qed

lemma cleared_none: "cleared pred {} w w"
  by (simp add: cleared_def)

lemma cancel_books_cleared:
  "cancel_books pred reason text sys w = Inr (w', evs) \<Longrightarrow> market_inv w \<Longrightarrow> distinct sys \<Longrightarrow>
   set sys \<subseteq> fst ` set (mk_books (mw_market w)) \<Longrightarrow> market_inv w' \<and> cleared pred (set sys) w w'"
proof (induction sys arbitrary: w evs)
  case Nil
  then show ?case by (simp add: cleared_none)
next
  case (Cons sy sys)
  then obtain w1 e1 e2 where 1: "cancel_book pred reason text sy w = Inr (w1, e1)"
      and 2: "cancel_books pred reason text sys w1 = Inr (w', e2)"
    by (auto simp: bind_exn_Inr)
  have "sy \<in> fst ` set (mk_books (mw_market w))" using Cons.prems(4) by simp
  note c = cancel_book_cleared [OF 1 Cons.prems(2) this]
  have "set sys \<subseteq> fst ` set (mk_books (mw_market w1))"
    using c Cons.prems(4) by (auto simp: cleared_def)
  with Cons.IH [OF 2] c Cons.prems(3) have "market_inv w' \<and> cleared pred (set sys) w1 w'" by simp
  with cleared_trans [of pred sy w w1 "set sys" w'] c Cons.prems(2,3) show ?case by simp
qed

lemma market_cancel_all_cleared:
  assumes "market_cancel_all pred reason text w = Inr (w', evs)" and "market_inv w"
  shows "market_inv w' \<and> cleared pred (set (map fst (mk_books (mw_market w)))) w w'"
  by (rule cancel_books_cleared [OF assms(1) [unfolded market_cancel_all_def] assms(2)])
    (use assms(2) in \<open>simp_all add: market_inv_def\<close>)

lemma cancel_book_frame:
  assumes cb: "cancel_book pred reason text sy w = Inr (w', evs)" and inv: "market_inv w"
  shows "market_inv w' \<and> market_frame z w w'"
proof -
  let ?s = "slice sy w" and ?me = "mk_matching (mw_market w)"
  let ?xs = "filter (\<lambda>x. pred (mw_heap w x)) (book_orders (book_of sy (mw_market w)))"
  obtain s' e where c: "cancel_each ?me ?xs reason text ?s = (s', e)" by fastforce
  with cb have nt: "notify sy (put_slice sy s' w) = Inr w'"
    by (auto simp: cancel_book_def Let_def bind_exn_Inr)
  note bi = slice_inv(1) [OF inv, of sy]
  have bi': "book_inv s'" using cancel_each_result [OF c bi] by blast
  have conf: "\<forall>z. confined z ?s s'" using cancel_each_confined [OF c bi] by auto
  from put_slice_inv(1) [OF inv spec [OF conf] bi' disjI2 [OF conf]] put_slice_frame [OF spec [OF conf], of z]
  show ?thesis
    by (simp add: data_only_facts [OF notify_data_only [OF nt]] data_only_frame [OF notify_data_only [OF nt]])
qed

lemma market_cancel_all_frame:
  assumes "market_cancel_all pred reason text w = Inr (w', evs)" and "market_inv w"
  shows "market_inv w' \<and> market_frame z w w'"
proof -
  have "cancel_books pred reason text sys w = Inr (w', evs) \<Longrightarrow> market_inv w \<Longrightarrow>
      market_inv w' \<and> market_frame z w w'" for sys w evs
  proof (induction sys arbitrary: w evs)
    case (Cons sy sys)
    then obtain w1 e1 e2 where 1: "cancel_book pred reason text sy w = Inr (w1, e1)"
        and 2: "cancel_books pred reason text sys w1 = Inr (w', e2)"
      by (auto simp: bind_exn_Inr)
    from cancel_book_frame [OF 1 Cons.prems(2), of z] Cons.IH [OF 2] market_frame_trans show ?case by blast
  qed simp
  with assms show ?thesis unfolding market_cancel_all_def by blast
qed

text \<open>In terms of the resting orders: exactly those the predicate picks are gone.\<close>

lemma resting_book_of:
  assumes "market_inv w"
  shows "x \<in> resting w \<longleftrightarrow> (\<exists>sy \<in> fst ` set (mk_books (mw_market w)). x \<in> set (book_orders (book_of sy (mw_market w))))"
proof -
  have "book_of sy (mw_market w) = b" if "(sy, b) \<in> set (mk_books (mw_market w))" for sy b
    using map_of_is_SomeI [OF _ that] assms by (simp add: book_of_def market_inv_def)
  then show ?thesis by (force simp: resting_def)
qed

lemma cleared_resting:
  assumes "cleared pred (fst ` set (mk_books (mw_market w))) w w'" and "market_inv w" "market_inv w'"
  shows "resting w' = {x \<in> resting w. \<not> pred (mw_heap w x)}"
proof -
  have "set (book_orders (book_of sy (mw_market w'))) =
      {x \<in> set (book_orders (book_of sy (mw_market w))). \<not> pred (mw_heap w x)}"
    if "sy \<in> fst ` set (mk_books (mw_market w))" for sy
    using assms(1) that unfolding cleared_def by simp
  moreover have "fst ` set (mk_books (mw_market w')) = fst ` set (mk_books (mw_market w))"
    using assms(1) unfolding cleared_def by blast
  ultimately show ?thesis
    by (intro set_eqI) (simp add: resting_book_of [OF assms(2)] resting_book_of [OF assms(3)])
qed

lemma market_cancel_all_resting:
  assumes "market_cancel_all pred reason text w = Inr (w', evs)" and "market_inv w"
  shows "resting w' = {x \<in> resting w. \<not> pred (mw_heap w x)}"
  using market_cancel_all_cleared [OF assms] cleared_resting [of pred w w'] assms(2) by simp

subsection \<open>Phase changes\<close>

lemma market_set_state_cases:
  assumes "market_set_state t sy w = Inr (w', evs)"
  obtains sm evs1 where
    "(if truthy sy then set_instrument_state (show_opt sy) t (mk_state (mw_market w))
      else set_market_state t (mk_state (mw_market w))) = Inr (sm, evs1)"
    "if evs1 \<noteq> [] \<and> names_no_entry t
     then \<exists>evs2. expire_orders sy (set_market ((mw_market w)\<lparr>mk_state := sm\<rparr>) w) = Inr (w', evs2) \<and> evs = evs1 @ evs2
     else w' = set_market ((mw_market w)\<lparr>mk_state := sm\<rparr>) w \<and> evs = evs1"
proof -
  obtain sm evs1 where 1: "(if truthy sy then set_instrument_state (show_opt sy) t (mk_state (mw_market w))
      else set_market_state t (mk_state (mw_market w))) = Inr (sm, evs1)"
    using assms by (auto simp: market_set_state_def Let_def bind_exn_Inr)
  with assms that [OF 1] show ?thesis
    by (auto simp: market_set_state_def Let_def bind_exn_Inr split: if_splits)
qed

lemma state_inv: "market_inv (set_market ((mw_market w)\<lparr>mk_state := sm\<rparr>) w) = market_inv w"
  "resting (set_market ((mw_market w)\<lparr>mk_state := sm\<rparr>) w) = resting w"
  by (simp_all add: market_inv_def resting_def)

lemma expire_orders_result:
  assumes ex: "expire_orders sy w = Inr (w', evs)" and inv: "market_inv w"
  shows "market_inv w' \<and> mk_state (mw_market w') = mk_state (mw_market w) \<and>
    resting w' = {x \<in> resting w. \<not> (case sy of None \<Rightarrow> True | Some s \<Rightarrow> o_symbol (mw_heap w x) = s)}"
  using market_cancel_all_cleared [OF ex [unfolded expire_orders_def] inv]
    market_cancel_all_resting [OF ex [unfolded expire_orders_def] inv]
  by (simp add: cleared_def)

lemma market_set_state_inv:
  assumes "market_set_state t sy w = Inr (w', evs)" and "market_inv w"
  shows "market_inv w' \<and> resting w' \<subseteq> resting w"
  using assms(1)
proof (rule market_set_state_cases)
  fix sm evs1
  let ?w = "set_market ((mw_market w)\<lparr>mk_state := sm\<rparr>) w"
  assume "if evs1 \<noteq> [] \<and> names_no_entry t
     then \<exists>evs2. expire_orders sy ?w = Inr (w', evs2) \<and> evs = evs1 @ evs2
     else w' = ?w \<and> evs = evs1"
  then show ?thesis
    using expire_orders_result [of sy ?w w'] assms(2) state_inv [where w = w and sm = sm] by (auto split: if_splits)
qed

text \<open>
  A phase that refuses entry, given by its own name: when the change is one, no order the
  change applies to is left resting.
\<close>

lemma names_no_entry_iff: "names_no_entry (show_state st) \<longleftrightarrow> st \<in> no_entry_states"
  by (auto simp: names_no_entry_def)

lemma close_market_expires:
  assumes ss: "market_set_state (show_state st) None w = Inr (w', evs)" and inv: "market_inv w"
    and st: "st \<in> no_entry_states" and ch: "sm_state (mk_state (mw_market w)) \<noteq> st"
  shows "resting w' = {}" and "sm_state (mk_state (mw_market w')) = st"
proof -
  from ss obtain sm evs1 where
      sm: "set_market_state (show_state st) (mk_state (mw_market w)) = Inr (sm, evs1)"
    and r: "if evs1 \<noteq> [] \<and> names_no_entry (show_state st)
     then \<exists>evs2. expire_orders None (set_market ((mw_market w)\<lparr>mk_state := sm\<rparr>) w) = Inr (w', evs2) \<and> evs = evs1 @ evs2
     else w' = set_market ((mw_market w)\<lparr>mk_state := sm\<rparr>) w \<and> evs = evs1"
    by (rule market_set_state_cases) (auto simp: truthy_def)
  note s = state_for_set_market [OF sm]
  have "sm_state sm = st" using s(1) by (simp add: upper_show_state show_state_inject)
  with s(4) ch have "evs1 \<noteq> []" by simp
  with r st obtain evs2 where
    ex: "expire_orders None (set_market ((mw_market w)\<lparr>mk_state := sm\<rparr>) w) = Inr (w', evs2)"
    by (auto simp: names_no_entry_iff)
  from expire_orders_result [OF ex] inv \<open>sm_state sm = st\<close>
  show "resting w' = {}" "sm_state (mk_state (mw_market w')) = st" by (auto simp: state_inv)
qed

lemma halt_instrument_expires:
  assumes ss: "market_set_state (show_state st) (Some sy) w = Inr (w', evs)" and inv: "market_inv w"
    and st: "st \<in> no_entry_states" and sy: "sy \<noteq> []"
    and ch: "state_for (mk_state (mw_market w)) sy \<noteq> st"
  shows "resting w' = {x \<in> resting w. o_symbol (mw_heap w x) \<noteq> sy}"
    and "state_for (mk_state (mw_market w')) sy = st"
proof -
  from ss obtain sm evs1 where
      sm: "set_instrument_state sy (show_state st) (mk_state (mw_market w)) = Inr (sm, evs1)"
    and r: "if evs1 \<noteq> [] \<and> names_no_entry (show_state st)
     then \<exists>evs2. expire_orders (Some sy) (set_market ((mw_market w)\<lparr>mk_state := sm\<rparr>) w) = Inr (w', evs2) \<and> evs = evs1 @ evs2
     else w' = set_market ((mw_market w)\<lparr>mk_state := sm\<rparr>) w \<and> evs = evs1"
    by (rule market_set_state_cases) (use sy in \<open>auto simp: truthy_def show_opt_def\<close>)
  note s = state_for_set_instrument [OF sm]
  have new: "state_for sm sy = st" using s(1) by (simp add: upper_show_state show_state_inject)
  with s(5) ch have "evs1 \<noteq> []" by simp
  with r st obtain evs2 where
    ex: "expire_orders (Some sy) (set_market ((mw_market w)\<lparr>mk_state := sm\<rparr>) w) = Inr (w', evs2)"
    by (auto simp: names_no_entry_iff)
  from expire_orders_result [OF ex] inv new
  show "resting w' = {x \<in> resting w. o_symbol (mw_heap w x) \<noteq> sy}"
    "state_for (mk_state (mw_market w')) sy = st" by (auto simp: state_inv)
qed

section \<open>A market over time\<close>

text \<open>
  \<open>market_step\<close> is everything that can happen to one market between two calls: an order
  object comes into being, an operation of \<open>Market\<close> is called, the clock moves, the
  self-trade mode is set. The environment's side of the contract is in the guards: a new
  object does not replace a resting one, and what is submitted is not resting and has
  quantity left. The invariant holds in every reachable state by rule induction.
\<close>

inductive market_step :: "mworld \<Rightarrow> mworld \<Rightarrow> bool" where
  create: "x \<notin> resting w \<Longrightarrow> market_step w (w\<lparr>mw_heap := (mw_heap w)(x := y)\<rparr>)"
| submit: "market_submit x w = Inr (w', evs) \<Longrightarrow> x \<notin> resting w \<Longrightarrow> 0 < leaves_qty (mw_heap w x)
    \<Longrightarrow> market_step w w'"
| cancel: "market_cancel x reason t w = Inr (w', evs) \<Longrightarrow> market_step w w'"
| amend: "market_amend x nq np w = Inr (w', kept, evs) \<Longrightarrow> market_step w w'"
| auction: "market_uncross sy reference w = Inr (w', res, evs) \<Longrightarrow> market_step w w'"
| bulk: "market_cancel_all pred reason t w = Inr (w', evs) \<Longrightarrow> market_step w w'"
| phase: "market_set_state t sy w = Inr (w', evs) \<Longrightarrow> market_step w w'"
| clear: "market_clear_instrument_state sy w = (w', evs) \<Longrightarrow> market_step w w'"
| config: "market_step w (set_market ((mw_market w)\<lparr>mk_matching := me\<rparr>) w)"

abbreviation market_reaches :: "mworld \<Rightarrow> mworld \<Rightarrow> bool" where
  "market_reaches \<equiv> market_step\<^sup>*\<^sup>*"

inductive_cases market_step_cases: "market_step w w'"

lemma create_inv:
  assumes inv: "market_inv w" and new: "x \<notin> resting w"
  shows "market_inv (w\<lparr>mw_heap := (mw_heap w)(x := y)\<rparr>)"
proof -
  have "book_at_inv ((mw_heap w)(x := y)) e" if e: "e \<in> set (mk_books (mw_market w))" for e
  proof -
    have old: "book_at_inv (mw_heap w) e" using inv e by (simp add: market_inv_def)
    have eq: "((mw_heap w)(x := y)) z = mw_heap w z" if "z \<in> set (book_orders (snd e))" for z
      using that new e by (auto simp: resting_def)
    have "book_ok ((mw_heap w)(x := y)) (snd e)"
      by (rule book_ok_cong [of _ _ "mw_heap w"]) (use old eq in \<open>auto simp: book_at_inv_def\<close>)
    with old eq show ?thesis by (auto simp: book_at_inv_def book_live_def)
  qed
  with inv show ?thesis by (simp add: market_inv_def)
qed

lemma market_step_inv:
  assumes "market_step w w'" and "market_inv w"
  shows "market_inv w'"
  using assms
proof (induction rule: market_step.induct)
  case (create x w y)
  then show ?case by (rule create_inv [rotated])
next
  case (submit x w w' evs)
  then show ?case using market_submit_inv by blast
next
  case (cancel x reason t w w' evs)
  then show ?case using market_cancel_inv by blast
next
  case (amend x nq np w w' kept evs)
  then show ?case using market_amend_inv by blast
next
  case (auction sy reference w w' res evs)
  then show ?case using market_uncross_inv(1) by blast
next
  case (bulk pred reason t w w' evs)
  then show ?case using market_cancel_all_cleared by blast
next
  case (phase t sy w w' evs)
  then show ?case using market_set_state_inv by blast
next
  case (clear sy w w' evs)
  then show ?case
    by (auto simp: market_clear_instrument_state_def state_inv split: prod.splits)
next
  case (config w me)
  then show ?case by (simp add: market_inv_def)
qed

lemma market_reaches_inv:
  assumes "market_reaches w w'" and "market_inv w"
  shows "market_inv w'"
  using assms by (induction rule: rtranclp_induct) (auto intro: market_step_inv)

lemma new_market_inv:
  "mk_books (mw_market w) = [] \<Longrightarrow> market_inv w \<and> resting w = {}"
  by (simp add: market_inv_def resting_def)

text \<open>What the invariant means for one book, in the terms of its queue.\<close>

lemma market_inv_queue:
  assumes inv: "market_inv w" and bk: "map_of (mk_books (mw_market w)) sy = Some b"
    and sd: "sd = ob_bids b \<or> sd = ob_asks b"
  shows "sorted_wrt (\<lambda>x y. \<not> ahead (bs_is_buy sd) (price_of (mw_heap w) y) (price_of (mw_heap w) x))
           (orders_in_priority sd)"
    and "distinct (orders_in_priority sd)"
    and "x \<in> set (orders_in_priority sd) \<Longrightarrow>
      0 < leaves_qty (mw_heap w x) \<and> o_symbol (mw_heap w x) = sy \<and> is_buy (mw_heap w x) = bs_is_buy sd"
proof -
  have b: "book_at_inv (mw_heap w) (sy, b)"
    using inv map_of_SomeD [OF bk] by (auto simp: market_inv_def)
  then have ok: "book_ok (mw_heap w) b" and sok: "side_ok (mw_heap w) sd"
    using sd book_okD(3,4) by (auto simp: book_at_inv_def)
  show "sorted_wrt (\<lambda>x y. \<not> ahead (bs_is_buy sd) (price_of (mw_heap w) y) (price_of (mw_heap w) x))
           (orders_in_priority sd)"
    and "distinct (orders_in_priority sd)"
    using side_queue.queue_sorted [OF sok] side_queue.queue_distinct [OF sok] by simp_all
  assume x: "x \<in> set (orders_in_priority sd)"
  then have "x \<in> set (side_orders sd)" using side_orders_split [OF sok] by auto
  with b sd side_ok_is_buy [OF sok this]
  show "0 < leaves_qty (mw_heap w x) \<and> o_symbol (mw_heap w x) = sy \<and> is_buy (mw_heap w x) = bs_is_buy sd"
    by (auto simp: book_at_inv_def book_live_def book_orders_def)
qed

end
