(* ===== verification/Market_Samples.thy ===== *)
theory Market_Samples
  imports Matching_Spec Market_Phases
begin

section \<open>A small market\<close>

text \<open>
  Concrete orders, a store and a book, on which the witnesses of the properties are
  evaluated: two offers at 102 and 103, a bid at 100, and an incoming order \<open>x\<close>.
\<close>

definition plain_order :: "string \<Rightarrow> side \<Rightarrow> int option \<Rightarrow> int \<Rightarrow> string \<Rightarrow> nat \<Rightarrow> order" where
  "plain_order c sd p q m n =
     \<lparr>o_cl_ord_id = Some c, o_orig_cl_ord_id = None, o_session_key = [''S1''],
      o_market = Some ''J'', o_symbol = ''7203'', o_side = sd, o_order_type = Some LIMIT,
      o_time_in_force = DAY, o_price = p, o_quantity = q, o_min_qty = 0, o_exec_inst = {},
      o_capacity = None, o_account = None, o_mpid = Some m, o_cash_margin = None,
      o_margin_type = None, o_stp_id = None, o_stp_instruction = None, o_cum_qty = 0,
      o_notional_units = 0, o_status = NEW, o_sequence = n, o_created_at = None,
      o_updated_at = None, o_chain = [Some c]\<rparr>"

definition sample_heap :: heap where
  "sample_heap = (\<lambda>_. plain_order ''?'' BUY (Some 1) 1 ''?'' 0)
     (''b1'' := plain_order ''c1'' BUY (Some 100) 4 ''M1'' 1,
      ''a1'' := plain_order ''c2'' SELL (Some 102) 5 ''M2'' 2,
      ''a2'' := plain_order ''c3'' SELL (Some 103) 9 ''M3'' 3,
      ''x'' := (plain_order ''c4'' BUY (Some 103) 8 ''M4'' 4)\<lparr>o_status := PENDING_NEW\<rparr>)"

definition sample_ids :: idgen where
  "sample_ids = \<lparr>ig_prefix = ''T'', ig_date = ''0101'', ig_width = 4, ig_counter = 1,
     ig_max_length = 20\<rparr>"

definition sample_book :: order_book where
  "sample_book = \<lparr>ob_symbol = ''7203'', ob_market = Some ''J'',
     ob_bids = \<lparr>bs_is_buy = True, bs_prices = [100], bs_levels = [(100, [''b1''])], bs_at_market = []\<rparr>,
     ob_asks = \<lparr>bs_is_buy = False, bs_prices = [102, 103],
                bs_levels = [(102, [''a1'']), (103, [''a2''])], bs_at_market = []\<rparr>\<rparr>"

definition sample_state :: mstate where
  "sample_state = \<lparr>ms_heap = sample_heap, ms_book = sample_book, ms_trade_ids = sample_ids\<rparr>"

definition sample_engine :: matching_engine where
  "sample_engine = \<lparr>me_stp_mode = CANCEL_NEWEST, me_ack_on_entry = False, me_now = Some 7\<rparr>"

definition entering :: "(order \<Rightarrow> order) \<Rightarrow> mstate" where
  "entering f = set_order ''x'' (f (sample_heap ''x'')) sample_state"

lemma sample_book_built:
  "sample_book = book_add sample_heap ''a2'' (book_add sample_heap ''a1''
     (book_add sample_heap ''b1'' (empty_book ''7203'' (Some ''J''))))"
  by code_simp

lemmas sample_defs = entering_def sample_state_def sample_book_def sample_heap_def plain_order_def

lemma entering_simps [simp]:
  "ms_book (entering f) = sample_book"
  "ms_trade_ids (entering f) = sample_ids"
  "ms_heap (entering f) ''x'' = f (sample_heap ''x'')"
  by (simp_all add: entering_def sample_state_def)

lemma entering_inv: "match_inv ''x'' (entering f)"
  by (simp add: sample_defs match_inv_def book_inv_def book_ok_def side_ok_def level_ok_def
      is_buy_def book_live_def book_orders_def side_orders_def leaves_qty_def terminal_statuses_def
      side_is_buy_def selling_def)

lemma sample_not_crossed: "\<not> book_is_crossed sample_book"
  by (simp add: sample_book_def book_is_crossed_def best_price_def)

section \<open>A small market with its phases and market data\<close>

text \<open>
  The same book inside a market that is open, with one decimal place; the order
  \<open>x\<close> of the same store is ready to enter. The witnesses about whole markets run on it.
\<close>

definition sample_market :: market where
  "sample_market = (new_market ''J'' \<lparr>pc_decimals = 1\<rparr> CANCEL_NEWEST OPEN True 5 False [] (Some 7))
     \<lparr>mk_books := [(''7203'', sample_book)],
      mk_data := md_register ''7203'' (new_market_data ''J'' \<lparr>pc_decimals = 1\<rparr> 5 True)\<rparr>"

definition sample_world :: mworld where
  "sample_world = \<lparr>mw_heap = sample_heap, mw_ids = sample_ids, mw_market = sample_market\<rparr>"

text \<open>The same market in an auction phase, and \<open>x\<close> on the selling side.\<close>

definition auction_world :: mworld where
  "auction_world = set_market ((mw_market sample_world)\<lparr>mk_state := new_state_machine ''J'' OPENING_AUCTION\<rparr>) sample_world"

definition joining_heap :: heap where
  "joining_heap = sample_heap(''x'' := plain_order ''c4'' SELL (Some 102) 8 ''M4'' 4)"

lemma sample_world_simps [simp]:
  "mw_heap sample_world = sample_heap" "mw_ids sample_world = sample_ids"
  "mk_books (mw_market sample_world) = [(''7203'', sample_book)]"
  "mk_state (mw_market sample_world) = new_state_machine ''J'' OPEN"
  "mk_rules (mw_market sample_world) = standard_rules"
  by (simp_all add: sample_world_def sample_market_def new_market_def)

lemma sample_world_inv: "market_inv sample_world"
  by (simp add: market_inv_def book_at_inv_def sample_defs book_ok_def side_ok_def level_ok_def
      is_buy_def book_live_def book_orders_def side_orders_def leaves_qty_def terminal_statuses_def
      side_is_buy_def selling_def)

lemma sample_resting: "resting sample_world = {''b1'', ''a1'', ''a2''}"
  by (simp add: resting_def sample_book_def book_orders_def side_orders_def)

text \<open>The auction market with \<open>x\<close> resting at 103, crossing both offers.\<close>

definition call_book :: order_book where
  "call_book = book_add sample_heap ''x'' sample_book"

definition call_state :: mstate where
  "call_state = \<lparr>ms_heap = sample_heap, ms_book = call_book, ms_trade_ids = sample_ids\<rparr>"

definition call_world :: mworld where
  "call_world = set_market ((mw_market auction_world)\<lparr>mk_books := [(''7203'', call_book)]\<rparr>) auction_world"

lemma call_book_eq:
  "call_book = sample_book\<lparr>ob_bids := \<lparr>bs_is_buy = True, bs_prices = [100, 103],
     bs_levels = [(100, [''b1'']), (103, [''x''])], bs_at_market = []\<rparr>\<rparr>"
  by code_simp

lemma call_world_inv: "market_inv call_world"
  by (simp add: market_inv_def call_world_def auction_world_def call_book_eq book_at_inv_def sample_defs
      book_ok_def side_ok_def level_ok_def is_buy_def book_live_def book_orders_def side_orders_def
      leaves_qty_def terminal_statuses_def side_is_buy_def selling_def)

lemma call_state_inv: "book_inv call_state"
  using call_world_inv
  by (simp add: market_inv_def call_world_def auction_world_def book_at_inv_def book_inv_def call_state_def)

text \<open>Two bids at one price, \<open>b1\<close> first; and three offers, the middle one of \<open>x\<close>'s own firm.\<close>

definition level_world :: mworld where
  "level_world = (let h = sample_heap(''x'' := plain_order ''c4'' BUY (Some 100) 8 ''M4'' 4)
     in sample_world\<lparr>mw_heap := h,
          mw_market := sample_market\<lparr>mk_books := [(''7203'', book_add h ''x'' sample_book)]\<rparr>\<rparr>)"

definition own_offer_state :: mstate where
  "own_offer_state = (let h = sample_heap(''x'' := (sample_heap ''x'')\<lparr>o_time_in_force := FOK, o_price := Some 104\<rparr>,
        ''a2'' := plain_order ''c3'' SELL (Some 103) 9 ''M4'' 3,
        ''a3'' := plain_order ''c5'' SELL (Some 104) 9 ''M5'' 5)
     in sample_state\<lparr>ms_heap := h, ms_book := book_add h ''a3'' sample_book\<rparr>)"

text \<open>A tradable instrument with a tick of one unit, and limits that allow a quote 5 ticks off.\<close>

definition sample_instrument :: instrument where
  "sample_instrument = (make_instrument ''7203'' ''T'' 1 0 (Some 100) None None
     (Some \<lparr>tt_bounds = [0], tt_ticks = [[(None, 1)]], tt_name = ''F''\<rparr>) True False)"

definition coarse_instrument :: instrument where
  "coarse_instrument = sample_instrument\<lparr>in_tick_table :=
     Some \<lparr>tt_bounds = [0], tt_ticks = [[(None, 3)]], tt_name = ''F''\<rparr>\<rparr>"

definition sample_validator :: validator where
  "sample_validator = \<lparr>va_codec = \<lparr>pc_decimals = 1\<rparr>,
     va_limits = make_limits None None False True False {} {} False (Some 5) (Some 5)\<rparr>"

end
