(* ===== verification/Behaviour.thy ===== *)
theory Behaviour
  imports Orders
begin

section \<open>Injected behaviour (\<open>core/behaviour.py\<close>)\<close>

text \<open>
  Rules that force rejections, delays or lost reports. \<open>count\<close> 0 stands for no limit;
  \<open>take\<close> consumes one application of the first rule that matches and then drops every
  rule that is used up. Rule numbers come from a counter of the store.
\<close>

datatype behaviour_action = FORCE_REJECT | FORCE_DELAY | FORCE_DROP

definition action_named :: "string \<Rightarrow> behaviour_action option" where
  "action_named s = (if s = ''reject'' then Some FORCE_REJECT
     else if s = ''delay'' then Some FORCE_DELAY else if s = ''drop'' then Some FORCE_DROP else None)"

record rule =
  ru_id :: nat
  ru_action :: behaviour_action
  ru_count :: int
  ru_applied :: int
  ru_session_key :: "session_key option"
  ru_symbol :: "string option"
  ru_market :: "string option"
  ru_reason :: "reject_reason option"
  ru_text :: string
  ru_delay_ms :: int

record behaviour_store =
  bh_rules :: "rule list"
  bh_next :: nat

definition empty_behaviour :: behaviour_store where
  "empty_behaviour = \<lparr>bh_rules = [], bh_next = 1\<rparr>"

definition rule_exhausted :: "rule \<Rightarrow> bool" where
  "rule_exhausted r \<longleftrightarrow> ru_count r \<noteq> 0 \<and> ru_applied r \<ge> ru_count r"

definition rule_remaining :: "rule \<Rightarrow> int option" where
  "rule_remaining r = (if ru_count r = 0 then None else Some (max 0 (ru_count r - ru_applied r)))"

definition rule_matches :: "rule \<Rightarrow> order \<Rightarrow> bool" where
  "rule_matches r y \<longleftrightarrow> \<not> rule_exhausted r \<and>
     (case ru_session_key r of None \<Rightarrow> True | Some k \<Rightarrow> o_session_key y = k) \<and>
     (case ru_symbol r of None \<Rightarrow> True | Some s \<Rightarrow> o_symbol y = s) \<and>
     (case ru_market r of None \<Rightarrow> True | Some m \<Rightarrow> o_market y = Some m)"

definition fire :: "rule \<Rightarrow> rule" where
  "fire r = r\<lparr>ru_applied := ru_applied r + 1\<rparr>"

text \<open>The action is checked before a number is drawn.\<close>

definition add_rule ::
    "string \<Rightarrow> int \<Rightarrow> session_key option \<Rightarrow> string option \<Rightarrow> string option \<Rightarrow> reject_reason option \<Rightarrow>
     string \<Rightarrow> int \<Rightarrow> behaviour_store \<Rightarrow> exn + rule \<times> behaviour_store" where
  "add_rule action count sk sy mkt reason text delay b =
     (case action_named action of None \<Rightarrow> Inl ValueError
      | Some a \<Rightarrow>
         (let r = \<lparr>ru_id = bh_next b, ru_action = a, ru_count = count, ru_applied = 0,
                   ru_session_key = sk, ru_symbol = sy, ru_market = mkt, ru_reason = reason,
                   ru_text = text, ru_delay_ms = delay\<rparr>
          in Inr (r, b\<lparr>bh_rules := bh_rules b @ [r], bh_next := Suc (bh_next b)\<rparr>)))"

fun drop_rule :: "nat \<Rightarrow> rule list \<Rightarrow> rule list" where
  "drop_rule i [] = []"
| "drop_rule i (r # rs) = (if ru_id r = i then rs else r # drop_rule i rs)"

definition remove_rule :: "nat \<Rightarrow> behaviour_store \<Rightarrow> bool \<times> behaviour_store" where
  "remove_rule i b = ((\<exists>r \<in> set (bh_rules b). ru_id r = i), b\<lparr>bh_rules := drop_rule i (bh_rules b)\<rparr>)"

definition clear_rules :: "behaviour_store \<Rightarrow> nat \<times> behaviour_store" where
  "clear_rules b = (length (bh_rules b), b\<lparr>bh_rules := []\<rparr>)"

definition behaviour_active :: "behaviour_store \<Rightarrow> bool" where
  "behaviour_active b \<longleftrightarrow> (\<exists>r \<in> set (bh_rules b). \<not> rule_exhausted r)"

definition find_rule :: "behaviour_action \<Rightarrow> order \<Rightarrow> behaviour_store \<Rightarrow> rule option" where
  "find_rule a y b = find (\<lambda>r. ru_action r = a \<and> rule_matches r y) (bh_rules b)"

fun fire_first :: "behaviour_action \<Rightarrow> order \<Rightarrow> rule list \<Rightarrow> rule option \<times> rule list" where
  "fire_first a y [] = (None, [])"
| "fire_first a y (r # rs) =
     (if ru_action r = a \<and> rule_matches r y then (Some (fire r), fire r # rs)
      else (case fire_first a y rs of (res, rs') \<Rightarrow> (res, r # rs')))"

definition reap :: "rule list \<Rightarrow> rule list" where
  "reap rs = filter (\<lambda>r. \<not> rule_exhausted r) rs"

definition take_rule :: "behaviour_action \<Rightarrow> order \<Rightarrow> behaviour_store \<Rightarrow> rule option \<times> behaviour_store" where
  "take_rule a y b =
     (case fire_first a y (bh_rules b) of
        (None, rs) \<Rightarrow> (None, b)
      | (Some r, rs) \<Rightarrow> (Some r, b\<lparr>bh_rules := reap rs\<rparr>))"

subsection \<open>A rule fires as often as it was asked to\<close>

text \<open>No stored rule is used up, and no rule has fired more often than it may.\<close>

definition behaviour_ok :: "behaviour_store \<Rightarrow> bool" where
  "behaviour_ok b \<longleftrightarrow> (\<forall>r \<in> set (bh_rules b). 0 \<le> ru_applied r \<and> \<not> rule_exhausted r \<and> ru_id r < bh_next b) \<and>
     distinct (map ru_id (bh_rules b))"

lemma behaviour_ok_empty: "behaviour_ok empty_behaviour"
  by (simp add: behaviour_ok_def empty_behaviour_def)

lemma add_rule_ok:
  assumes "add_rule action count sk sy mkt reason txt delay b = Inr (r, b')" and "behaviour_ok b" and "0 \<le> count"
  shows "behaviour_ok b' \<and> bh_rules b' = bh_rules b @ [r]"
  using assms by (force simp: add_rule_def Let_def behaviour_ok_def rule_exhausted_def split: option.splits)

lemma fire_simps [simp]: "ru_id (fire r) = ru_id r" "ru_action (fire r) = ru_action r"
  "ru_applied (fire r) = ru_applied r + 1" "ru_count (fire r) = ru_count r"
  by (simp_all add: fire_def)

lemma fire_first_ids: "fire_first a y rs = (res, rs') \<Longrightarrow> map ru_id rs' = map ru_id rs"
  by (induction rs arbitrary: res rs') (auto split: if_splits prod.splits)

lemma fire_first_set:
  "fire_first a y rs = (res, rs') \<Longrightarrow> r' \<in> set rs' \<Longrightarrow> r' \<in> set rs \<or> (\<exists>r \<in> set rs. r' = fire r)"
  by (induction rs arbitrary: res rs') (auto split: if_splits prod.splits)

lemma take_rule_ok:
  assumes tk: "take_rule a y b = (res, b')" and ok: "behaviour_ok b"
  shows "behaviour_ok b'"
proof -
  obtain f rs where ff: "fire_first a y (bh_rules b) = (f, rs)" by fastforce
  show ?thesis
  proof (cases f)
    case None
    with tk ff ok show ?thesis by (simp add: take_rule_def)
  next
    case (Some r)
    with tk ff have b': "b' = b\<lparr>bh_rules := reap rs\<rparr>" by (simp add: take_rule_def)
    have "distinct (map ru_id (reap rs))"
      using ok fire_first_ids [OF ff] unfolding reap_def behaviour_ok_def by (simp add: distinct_map_filter)
    moreover have "0 \<le> ru_applied q \<and> ru_id q < bh_next b" if "q \<in> set rs" for q
      using fire_first_set [OF ff that] ok by (auto simp: behaviour_ok_def)
    ultimately show ?thesis by (auto simp: behaviour_ok_def b' reap_def)
  qed
qed

text \<open>The results of one attempt after the other.\<close>

fun take_all :: "behaviour_action \<Rightarrow> order list \<Rightarrow> behaviour_store \<Rightarrow> bool list" where
  "take_all a [] b = []"
| "take_all a (y # ys) b =
     (case take_rule a y b of (res, b') \<Rightarrow> (res \<noteq> None) # take_all a ys b')"

definition unconditional :: "rule \<Rightarrow> bool" where
  "unconditional r \<longleftrightarrow> ru_session_key r = None \<and> ru_symbol r = None \<and> ru_market r = None"

lemma take_all_none: "bh_rules b = [] \<Longrightarrow> take_all a ys b = map (\<lambda>_. False) ys"
  by (induction ys) (simp_all add: take_rule_def)

lemma take_all_single:
  assumes "unconditional r" and "ru_action r = a" and "ru_count r = ru_applied r + int (Suc n)" and "0 \<le> ru_applied r"
  shows "take_all a ys (b\<lparr>bh_rules := [r]\<rparr>) = map (\<lambda>i. i \<le> n) [0 ..< length ys]"
  using assms
proof (induction ys arbitrary: r n b)
  case Nil
  then show ?case by simp
next
  case (Cons y ys)
  then have m: "rule_matches r y" by (simp add: rule_matches_def unconditional_def rule_exhausted_def)
  have up: "[0 ..< Suc (length ys)] = 0 # map Suc [0 ..< length ys]"
    by (simp add: map_Suc_upt upt_conv_Cons del: upt_Suc)
  show ?case
  proof (cases n)
    case 0
    with Cons.prems have ex: "rule_exhausted (fire r)" by (simp add: rule_exhausted_def)
    have "take_rule a y (b\<lparr>bh_rules := [r]\<rparr>) = (Some (fire r), b\<lparr>bh_rules := []\<rparr>)"
      using m Cons.prems(2) ex by (simp add: take_rule_def reap_def)
    then show ?thesis by (simp add: take_all_none up 0 o_def map_replicate_const del: upt_Suc)
  next
    case (Suc k)
    with Cons.prems have ex: "\<not> rule_exhausted (fire r)" by (simp add: rule_exhausted_def)
    have "take_rule a y (b\<lparr>bh_rules := [r]\<rparr>) = (Some (fire r), b\<lparr>bh_rules := [fire r]\<rparr>)"
      using m Cons.prems(2) ex by (simp add: take_rule_def reap_def)
    moreover have "take_all a ys (b\<lparr>bh_rules := [fire r]\<rparr>) = map (\<lambda>i. i \<le> k) [0 ..< length ys]"
      by (rule Cons.IH) (use Cons.prems Suc in \<open>auto simp: unconditional_def fire_def\<close>)
    ultimately show ?thesis by (simp add: up Suc o_def del: upt_Suc)
  qed
qed

end
