(* ===== verification/Engine.thy ===== *)
theory Engine
  imports Market_Phases Behaviour
begin

section \<open>The venue engine (\<open>core/engine.py\<close>, \<open>core/commands.py\<close>)\<close>

text \<open>
  Requests are records with the fields of the request classes. The engine's fixed parts
  (instruments, validator, clock reading) are one record, what its operations change is
  another: the store of orders, the identifier and sequence generators, the registry, the
  behaviour rules and the markets. A market operation runs on the view of one market and
  is written back.
\<close>

record new_order_request =
  nr_session_key :: session_key
  nr_market :: "string option"
  nr_cl_ord_id :: "string option"
  nr_symbol :: string
  nr_side :: side
  nr_quantity :: int
  nr_price :: "int option"
  nr_order_type :: "order_type option"
  nr_time_in_force :: time_in_force
  nr_min_qty :: int
  nr_exec_inst :: "exec_inst list"
  nr_capacity :: "capacity option"
  nr_account :: "string option"
  nr_mpid :: "string option"
  nr_cash_margin :: "string option"
  nr_margin_type :: "string option"
  nr_stp_id :: "string option"
  nr_stp_instruction :: "stp_mode option"

record cancel_request =
  cr_session_key :: session_key
  cr_cl_ord_id :: "string option"
  cr_orig_cl_ord_id :: "string option"
  cr_symbol :: "string option"
  cr_side :: "side option"
  cr_quantity :: "int option"
  cr_order_id :: "oid option"

record replace_request = cancel_request +
  rr_price :: "int option"
  rr_time_in_force :: "time_in_force option"
  rr_min_qty :: "int option"
  rr_exec_inst :: "exec_inst list"

record engine =
  en_instruments :: "(string \<times> instrument) list"
  en_validator :: validator
  en_now :: "timestamp option"

record eworld =
  ew_heap :: heap
  ew_trade_ids :: idgen
  ew_order_ids :: idgen
  ew_sequences :: nat
  ew_registry :: registry
  ew_behaviour :: behaviour_store
  ew_markets :: "(string \<times> market) list"

subsection \<open>Lookup, and the view of one market\<close>

definition engine_market :: "eworld \<Rightarrow> string option \<Rightarrow> market option" where
  "engine_market ew name = (case name of None \<Rightarrow> None | Some n \<Rightarrow> map_of (ew_markets ew) n)"

definition engine_instrument :: "engine \<Rightarrow> string \<Rightarrow> instrument option" where
  "engine_instrument en sy = map_of (en_instruments en) sy"

definition market_view :: "eworld \<Rightarrow> market \<Rightarrow> mworld" where
  "market_view ew m = \<lparr>mw_heap = ew_heap ew, mw_ids = ew_trade_ids ew, mw_market = m\<rparr>"

definition put_market :: "string \<Rightarrow> mworld \<Rightarrow> eworld \<Rightarrow> eworld" where
  "put_market name w ew = ew\<lparr>ew_heap := mw_heap w, ew_trade_ids := mw_ids w,
     ew_markets := AList.update name (mw_market w) (ew_markets ew)\<rparr>"

definition set_order_ew :: "oid \<Rightarrow> order \<Rightarrow> eworld \<Rightarrow> eworld" where
  "set_order_ew x y ew = ew\<lparr>ew_heap := (ew_heap ew)(x := y)\<rparr>"

subsection \<open>New orders\<close>

definition order_of_request :: "new_order_request \<Rightarrow> nat \<Rightarrow> timestamp option \<Rightarrow> order" where
  "order_of_request rq n now =
     \<lparr>o_cl_ord_id = nr_cl_ord_id rq, o_orig_cl_ord_id = None, o_session_key = nr_session_key rq,
      o_market = nr_market rq, o_symbol = nr_symbol rq, o_side = nr_side rq,
      o_order_type = nr_order_type rq, o_time_in_force = nr_time_in_force rq,
      o_price = nr_price rq, o_quantity = nr_quantity rq, o_min_qty = nr_min_qty rq,
      o_exec_inst = set (nr_exec_inst rq), o_capacity = nr_capacity rq,
      o_account = nr_account rq, o_mpid = nr_mpid rq, o_cash_margin = nr_cash_margin rq,
      o_margin_type = nr_margin_type rq, o_stp_id = nr_stp_id rq,
      o_stp_instruction = nr_stp_instruction rq, o_cum_qty = 0, o_notional_units = 0,
      o_status = NEW, o_sequence = n, o_created_at = now, o_updated_at = now,
      o_chain = [nr_cl_ord_id rq]\<rparr>"

definition build_order :: "engine \<Rightarrow> new_order_request \<Rightarrow> eworld \<Rightarrow> exn + oid \<times> eworld" where
  "build_order en rq ew =
     bind_exn (next_id (ew_order_ids ew)) (\<lambda>(x, g).
     bind_exn (next_seq (ew_sequences ew)) (\<lambda>(n, n').
       Inr (x, ew\<lparr>ew_heap := (ew_heap ew)(x := order_of_request rq n (en_now en)),
                  ew_order_ids := g, ew_sequences := n'\<rparr>)))"

definition reject_new :: "oid \<Rightarrow> reject_reason \<Rightarrow> string \<Rightarrow> eworld \<Rightarrow> exn + eworld \<times> event list" where
  "reject_new x reason text ew =
     Inr (set_order_ew x ((ew_heap ew x)\<lparr>o_status := REJECTED\<rparr>) ew, [OrderRejected x reason text])"

definition used_text :: "string option \<Rightarrow> string" where
  "used_text c = ''ClOrdID '' @ [CHR 0x27] @ show_opt c @ [CHR 0x27] @ '' has already been used''"

definition new_order :: "engine \<Rightarrow> new_order_request \<Rightarrow> eworld \<Rightarrow> exn + eworld \<times> event list" where
  "new_order en rq ew0 =
     bind_exn (build_order en rq ew0) (\<lambda>(x, ew).
       if is_duplicate (ew_registry ew) (nr_session_key rq) (nr_cl_ord_id rq)
       then reject_new x RR_DUPLICATE_ORDER (used_text (nr_cl_ord_id rq)) ew
       else (case engine_market ew (nr_market rq) of
         None \<Rightarrow> reject_new x RR_OTHER
             (''unknown market '' @ [CHR 0x27] @ show_opt (nr_market rq) @ [CHR 0x27]) ew
       | Some m \<Rightarrow>
          (case take_rule FORCE_REJECT (ew_heap ew x) (ew_behaviour ew) of
            (Some r, b) \<Rightarrow>
              reject_new x (case ru_reason r of None \<Rightarrow> RR_OTHER | Some reason \<Rightarrow> reason)
                (if ru_text r = [] then ''rejected by injected behaviour'' else ru_text r)
                (ew\<lparr>ew_behaviour := b\<rparr>)
          | (None, b) \<Rightarrow>
             (let m1 = ensure_book (nr_symbol rq) m;
                  ew1 = put_market (show_opt (nr_market rq)) (market_view ew m1) ew
              in bind_exn (validate_new (en_validator en) (ew_heap ew x)
                     (engine_instrument en (nr_symbol rq)) (Some (mk_state m1))
                     (Some (book_of (nr_symbol rq) m1)))
                   (\<lambda>rejection. case rejection of
                      Some rj \<Rightarrow> reject_new x (rj_reason rj) (rj_text rj) ew1
                    | None \<Rightarrow>
                       (case registry_add (ew_heap ew1) x (ew_registry ew1) of
                         (r', Some e) \<Rightarrow>
                           reject_new x RR_DUPLICATE_ORDER (used_text (nr_cl_ord_id rq))
                             (ew1\<lparr>ew_registry := r'\<rparr>)
                       | (r', None) \<Rightarrow>
                           (let ew2 = ew1\<lparr>ew_registry := r'\<rparr>
                            in bind_exn (market_submit x (market_view ew2 m1)) (\<lambda>(w, evs).
                                 Inr (put_market (show_opt (nr_market rq)) w ew2, evs)))))))))"

subsection \<open>Naming an order\<close>

text \<open>\<open>_named_order\<close> and \<open>_resolve\<close>: an order, or the rejection to report.\<close>

definition named_order :: "'a cancel_request_scheme \<Rightarrow> eworld \<Rightarrow> string + oid" where
  "named_order rq ew =
     (case cr_orig_cl_ord_id rq of
        Some c \<Rightarrow>
          (case registry_resolve (ew_heap ew) (ew_registry ew) (cr_session_key rq) c of
             None \<Rightarrow> Inl (''no live order with ClOrdID '' @ [CHR 0x27] @ c @ [CHR 0x27])
           | Some x \<Rightarrow> Inr x)
      | None \<Rightarrow>
          (case cr_order_id rq of
             None \<Rightarrow> Inl ''the request names no order''
           | Some i \<Rightarrow>
              (case registry_by_order_id (ew_registry ew) i of
                 None \<Rightarrow> Inl (''no live order with OrderID '' @ [CHR 0x27] @ i @ [CHR 0x27])
               | Some x \<Rightarrow>
                  (if o_session_key (ew_heap ew x) \<noteq> cr_session_key rq
                   then Inl (''no live order with OrderID '' @ [CHR 0x27] @ i @ [CHR 0x27])
                   else Inr x))))"

definition resolve_order :: "'a cancel_request_scheme \<Rightarrow> bool \<Rightarrow> eworld \<Rightarrow> event + oid" where
  "resolve_order rq is_replace ew =
     (let refuse = (\<lambda>reason text order.
            Inl (CancelRejected (cr_cl_ord_id rq) (cr_orig_cl_ord_id rq) reason text order is_replace))
      in if is_duplicate (ew_registry ew) (cr_session_key rq) (cr_cl_ord_id rq)
         then refuse CX_DUPLICATE_CLORDID (used_text (cr_cl_ord_id rq)) None
         else (case named_order rq ew of
           Inl missing \<Rightarrow> refuse CX_UNKNOWN_ORDER missing None
         | Inr x \<Rightarrow>
            (let y = ew_heap ew x
             in if \<not> is_live y
                then refuse CX_TOO_LATE_TO_CANCEL (''order is '' @ show_status (o_status y)) (Some x)
                else if cr_side rq \<noteq> None \<and> cr_side rq \<noteq> Some (o_side y)
                then refuse CX_MISMATCHED_FIELD ''Side does not match the original order'' (Some x)
                else if cr_symbol rq \<noteq> None \<and> cr_symbol rq \<noteq> Some (o_symbol y)
                then refuse CX_MISMATCHED_FIELD ''Symbol does not match the original order'' (Some x)
                else Inr x)))"

definition rename_in :: "oid \<Rightarrow> string option \<Rightarrow> eworld \<Rightarrow> exn + eworld" where
  "rename_in x c ew =
     bind_exn (registry_rename x c (ew_heap ew, ew_registry ew)) (\<lambda>(h, r).
       Inr (ew\<lparr>ew_heap := h, ew_registry := r\<rparr>))"

subsection \<open>Cancel and replace\<close>

definition cancel_order :: "cancel_request \<Rightarrow> eworld \<Rightarrow> exn + eworld \<times> event list" where
  "cancel_order rq ew =
     (case resolve_order rq False ew of
        Inl rejection \<Rightarrow> Inr (ew, [rejection])
      | Inr x \<Rightarrow>
         (case engine_market ew (o_market (ew_heap ew x)) of
            None \<Rightarrow> Inr (ew, [CancelRejected (cr_cl_ord_id rq) (cr_orig_cl_ord_id rq) CX_OTHER
              (''unknown market '' @ [CHR 0x27] @ show_opt (o_market (ew_heap ew x)) @ [CHR 0x27]) (Some x) False])
          | Some m \<Rightarrow>
             bind_exn (rename_in x (cr_cl_ord_id rq) ew) (\<lambda>ew1.
             bind_exn (market_cancel x CR_USER_REQUEST ''cancelled at client request'' (market_view ew1 m))
               (\<lambda>(w, evs). Inr (put_market (show_opt (o_market (ew_heap ew x))) w ew1, evs)))))"

definition cancel_reason_for :: "reject_reason \<Rightarrow> cancel_reject_reason" where
  "cancel_reason_for r = (if r = RR_PRICE_OUTSIDE_BAND then CX_PRICE_OUTSIDE_BAND else CX_OTHER)"

definition replace_fields :: "'a replace_request_scheme \<Rightarrow> order \<Rightarrow> order" where
  "replace_fields rq y =
     y\<lparr>o_time_in_force := (case rr_time_in_force rq of None \<Rightarrow> o_time_in_force y | Some t \<Rightarrow> t),
       o_min_qty := (case rr_min_qty rq of None \<Rightarrow> o_min_qty y | Some q \<Rightarrow> q),
       o_exec_inst := (if rr_exec_inst rq = [] then o_exec_inst y else set (rr_exec_inst rq))\<rparr>"

definition replace_order :: "engine \<Rightarrow> replace_request \<Rightarrow> eworld \<Rightarrow> exn + eworld \<times> event list" where
  "replace_order en rq ew =
     (case resolve_order rq True ew of
        Inl rejection \<Rightarrow> Inr (ew, [rejection])
      | Inr x \<Rightarrow>
         (let y = ew_heap ew x; m = engine_market ew (o_market y);
              quantity = (case cr_quantity rq of None \<Rightarrow> o_quantity y | Some q \<Rightarrow> q);
              price = or_else (rr_price rq) (o_price y)
          in bind_exn (validate_amend (en_validator en) y (engine_instrument en (o_symbol y))
                 (map_option mk_state m) (Some quantity) price)
               (\<lambda>validation. case validation of
                  Some rj \<Rightarrow> Inr (ew, [CancelRejected (cr_cl_ord_id rq) (cr_orig_cl_ord_id rq)
                     (cancel_reason_for (rj_reason rj)) (rj_text rj) (Some x) True])
                | None \<Rightarrow>
                   bind_exn (rename_in x (cr_cl_ord_id rq) ew) (\<lambda>ew1.
                     let ew2 = set_order_ew x (replace_fields rq (ew_heap ew1 x)) ew1
                     in case m of None \<Rightarrow> Inl AttributeError
                        | Some mk \<Rightarrow>
                           bind_exn (market_amend x (Some quantity) price (market_view ew2 mk))
                             (\<lambda>(w, kept, evs). Inr (put_market (show_opt (o_market y)) w ew2,
                                OrderReplaced x (o_cl_ord_id y) kept # evs))))))"

subsection \<open>Bulk operations and queries\<close>

fun cancel_in_markets ::
    "(order \<Rightarrow> bool) \<Rightarrow> cancel_reason \<Rightarrow> string \<Rightarrow> string list \<Rightarrow> eworld \<Rightarrow> exn + eworld \<times> event list" where
  "cancel_in_markets pred reason text [] ew = Inr (ew, [])"
| "cancel_in_markets pred reason text (nm # nms) ew =
     (case map_of (ew_markets ew) nm of
        None \<Rightarrow> cancel_in_markets pred reason text nms ew
      | Some m \<Rightarrow>
          bind_exn (market_cancel_all pred reason text (market_view ew m)) (\<lambda>(w, evs).
          bind_exn (cancel_in_markets pred reason text nms (put_market nm w ew)) (\<lambda>(ew', evs').
            Inr (ew', evs @ evs'))))"

definition cancel_session_orders ::
    "session_key \<Rightarrow> cancel_reason \<Rightarrow> string \<Rightarrow> eworld \<Rightarrow> exn + eworld \<times> event list" where
  "cancel_session_orders sk reason text ew =
     cancel_in_markets (\<lambda>y. o_session_key y = sk) reason text (map fst (ew_markets ew)) ew"

definition cancel_symbol_orders ::
    "string option \<Rightarrow> string \<Rightarrow> cancel_reason \<Rightarrow> string \<Rightarrow> eworld \<Rightarrow> exn + eworld \<times> event list" where
  "cancel_symbol_orders name sy reason text ew =
     (case engine_market ew name of None \<Rightarrow> Inr (ew, [])
      | Some m \<Rightarrow>
          bind_exn (market_cancel_all (\<lambda>y. o_symbol y = sy) reason text (market_view ew m)) (\<lambda>(w, evs).
            Inr (put_market (show_opt name) w ew, evs)))"

definition engine_orders ::
    "session_key option \<Rightarrow> string option \<Rightarrow> string option \<Rightarrow> bool \<Rightarrow> eworld \<Rightarrow> oid list" where
  "engine_orders sk sy mkt live_only ew =
     filter (\<lambda>x. (case sk of None \<Rightarrow> True | Some k \<Rightarrow> o_session_key (ew_heap ew x) = k) \<and>
                 (case sy of None \<Rightarrow> True | Some s \<Rightarrow> o_symbol (ew_heap ew x) = s) \<and>
                 (case mkt of None \<Rightarrow> True | Some n \<Rightarrow> o_market (ew_heap ew x) = Some n))
       (if live_only then registry_live (ew_heap ew) (ew_registry ew)
        else reg_order_ids (ew_registry ew))"

end
