(* ===== verification/Engine_Facts.thy ===== *)
theory Engine_Facts
  imports Engine
begin

section \<open>The invariant of the venue\<close>

text \<open>
  Every market is sound, whatever rests in a market is a registered order of that market,
  the registry is sound, and every registered identifier was issued earlier. The lemmas
  follow the code: a new object, a change of its client identifier, and an operation on
  the view of one market, each keeping the invariant.
\<close>

definition rests_in :: "market \<Rightarrow> oid set" where
  "rests_in m = (\<Union>e \<in> set (mk_books m). set (book_orders (snd e)))"

lemma resting_eq: "resting w = rests_in (mw_market w)"
  by (simp add: resting_def rests_in_def)

definition market_entry_ok :: "heap \<Rightarrow> idgen \<Rightarrow> registry \<Rightarrow> string \<times> market \<Rightarrow> bool" where
  "market_entry_ok h ids r e \<longleftrightarrow>
     market_inv \<lparr>mw_heap = h, mw_ids = ids, mw_market = snd e\<rparr> \<and>
     (\<forall>x \<in> rests_in (snd e).
        x \<in> set (reg_order_ids r) \<and> o_market (h x) = Some (fst e))"

definition engine_inv :: "eworld \<Rightarrow> bool" where
  "engine_inv ew \<longleftrightarrow>
     registry_ok (ew_heap ew) (ew_registry ew) \<and>
     distinct (map fst (ew_markets ew)) \<and>
     (\<forall>e \<in> set (ew_markets ew). market_entry_ok (ew_heap ew) (ew_trade_ids ew) (ew_registry ew) e) \<and>
     (\<forall>x \<in> set (reg_order_ids (ew_registry ew)).
        \<exists>n < ig_counter (ew_order_ids ew). x = render_id (ew_order_ids ew) n)"

definition all_resting :: "eworld \<Rightarrow> oid set" where
  "all_resting ew = (\<Union>e \<in> set (ew_markets ew). rests_in (snd e))"

text \<open>The market invariant reads only what the books are sorted by and what is left of an order.\<close>

definition same_for_book :: "order \<Rightarrow> order \<Rightarrow> bool" where
  "same_for_book y z \<longleftrightarrow> o_price y = o_price z \<and> o_side y = o_side z \<and> o_symbol y = o_symbol z \<and>
     leaves_qty y = leaves_qty z"

lemma same_for_book_refl [simp]: "same_for_book y y"
  by (simp add: same_for_book_def)

lemma market_inv_cong:
  assumes inv: "market_inv w" and m: "mw_market w' = mw_market w"
    and eq: "\<And>x. x \<in> resting w \<Longrightarrow> same_for_book (mw_heap w' x) (mw_heap w x)"
  shows "market_inv w'"
proof -
  have "book_at_inv (mw_heap w') e" if e: "e \<in> set (mk_books (mw_market w))" for e
  proof -
    have old: "book_at_inv (mw_heap w) e" using inv e by (simp add: market_inv_def)
    have s: "same_for_book (mw_heap w' x) (mw_heap w x)" if "x \<in> set (book_orders (snd e))" for x
      using that e by (intro eq) (auto simp: resting_def)
    have "book_ok (mw_heap w') (snd e)"
      by (rule book_ok_cong [of _ _ "mw_heap w"])
        (use old s in \<open>auto simp: book_at_inv_def same_for_book_def is_buy_def\<close>)
    with old s show ?thesis by (auto simp: book_at_inv_def book_live_def same_for_book_def)
  qed
  with inv m show ?thesis by (simp add: market_inv_def)
qed

lemma market_entry_ok_cong:
  assumes ok: "market_entry_ok h ids r e" and reg: "set (reg_order_ids r) \<subseteq> set (reg_order_ids r')"
    and eq: "\<And>x. x \<in> rests_in (snd e) \<Longrightarrow>
       same_for_book (h' x) (h x) \<and> o_market (h' x) = o_market (h x)"
  shows "market_entry_ok h' ids' r' e"
proof -
  let ?v = "\<lparr>mw_heap = h, mw_ids = ids, mw_market = snd e\<rparr>" and ?v' = "\<lparr>mw_heap = h', mw_ids = ids', mw_market = snd e\<rparr>"
  have "market_inv ?v'"
    by (rule market_inv_cong [of ?v]) (use ok eq in \<open>auto simp: market_entry_ok_def resting_eq\<close>)
  with ok eq reg show ?thesis by (auto simp: market_entry_ok_def)
qed

lemma engine_invD:
  assumes "engine_inv ew"
  shows "registry_ok (ew_heap ew) (ew_registry ew)" and "distinct (map fst (ew_markets ew))"
    and "map_of (ew_markets ew) nm = Some m \<Longrightarrow> market_inv (market_view ew m)"
    and "map_of (ew_markets ew) nm = Some m \<Longrightarrow> x \<in> rests_in m \<Longrightarrow>
       x \<in> set (reg_order_ids (ew_registry ew)) \<and> o_market (ew_heap ew x) = Some nm"
    and "x \<in> set (reg_order_ids (ew_registry ew)) \<Longrightarrow>
       \<exists>n < ig_counter (ew_order_ids ew). x = render_id (ew_order_ids ew) n"
    and "e \<in> set (ew_markets ew) \<Longrightarrow> market_entry_ok (ew_heap ew) (ew_trade_ids ew) (ew_registry ew) e"
proof -
  show a: "e \<in> set (ew_markets ew) \<Longrightarrow> market_entry_ok (ew_heap ew) (ew_trade_ids ew) (ew_registry ew) e" for e
    using assms by (auto simp: engine_inv_def)
  show "map_of (ew_markets ew) nm = Some m \<Longrightarrow> market_inv (market_view ew m)"
    using a [OF map_of_SomeD] by (auto simp: market_entry_ok_def market_view_def)
  show "map_of (ew_markets ew) nm = Some m \<Longrightarrow> x \<in> rests_in m \<Longrightarrow>
       x \<in> set (reg_order_ids (ew_registry ew)) \<and> o_market (ew_heap ew x) = Some nm"
    using a [OF map_of_SomeD, of nm m] by (auto simp: market_entry_ok_def market_view_def)
qed (use assms in \<open>auto simp: engine_inv_def\<close>)

lemma engine_inv_change:
  assumes inv: "engine_inv ew" and mk: "ew_markets ew' = ew_markets ew"
    and reg: "registry_ok (ew_heap ew') (ew_registry ew')"
    and sub: "set (reg_order_ids (ew_registry ew)) \<subseteq> set (reg_order_ids (ew_registry ew'))"
    and eq: "\<And>x. x \<in> set (reg_order_ids (ew_registry ew)) \<Longrightarrow>
        same_for_book (ew_heap ew' x) (ew_heap ew x) \<and> o_market (ew_heap ew' x) = o_market (ew_heap ew x)"
    and ids: "\<And>x. x \<in> set (reg_order_ids (ew_registry ew')) \<Longrightarrow>
       \<exists>n < ig_counter (ew_order_ids ew'). x = render_id (ew_order_ids ew') n"
  shows "engine_inv ew'"
proof -
  have "market_entry_ok (ew_heap ew') (ew_trade_ids ew') (ew_registry ew') e" if "e \<in> set (ew_markets ew)" for e
    by (rule market_entry_ok_cong [OF engine_invD(6) [OF inv that] sub])
      (use engine_invD(6) [OF inv that] eq in \<open>auto simp: market_entry_ok_def\<close>)
  with inv mk reg ids show ?thesis by (simp add: engine_inv_def)
qed

subsection \<open>An operation on the view of one market\<close>

lemma put_market_simps [simp]:
  "ew_heap (put_market nm w ew) = mw_heap w" "ew_trade_ids (put_market nm w ew) = mw_ids w"
  "ew_registry (put_market nm w ew) = ew_registry ew" "ew_order_ids (put_market nm w ew) = ew_order_ids ew"
  "ew_behaviour (put_market nm w ew) = ew_behaviour ew" "ew_sequences (put_market nm w ew) = ew_sequences ew"
  "map_of (ew_markets (put_market nm w ew)) nm' =
     (if nm' = nm then Some (mw_market w) else map_of (ew_markets ew) nm')"
  by (simp_all add: put_market_def map_of_update_eq)

lemma market_view_simps [simp]:
  "mw_heap (market_view ew m) = ew_heap ew" "mw_ids (market_view ew m) = ew_trade_ids ew"
  "mw_market (market_view ew m) = m"
  by (simp_all add: market_view_def)

text \<open>What a frame says when there is one order in play, or none in particular.\<close>

lemma frame_all:
  assumes "\<forall>z. market_frame z w w'"
  shows "y \<notin> resting w \<Longrightarrow> mw_heap w' y = mw_heap w y" and "resting w' \<subseteq> resting w"
proof -
  have f: "market_frame (CHR ''x'' # y) w w'" "market_frame y w w'" for y using assms by simp_all
  show "mw_heap w' y = mw_heap w y" if "y \<notin> resting w"
    by (rule market_frameD(1) [OF f(1) [of y]]) (use that in auto)
  show "resting w' \<subseteq> resting w"
  proof
    fix y assume "y \<in> resting w'"
    with market_frameD(4) [OF f(1) [of y]] show "y \<in> resting w" by auto
  qed
qed

lemma put_market_inv:
  assumes inv: "engine_inv ew" and m: "map_of (ew_markets ew) nm = Some m"
    and fr: "market_frame x (market_view ew m) w'" and mi: "market_inv w'"
    and x: "x \<in> set (reg_order_ids (ew_registry ew)) \<and> o_market (ew_heap ew x) = Some nm
        \<or> (\<forall>z. market_frame z (market_view ew m) w')"
  shows "engine_inv (put_market nm w' ew)"
    and "o_market (ew_heap ew y) \<noteq> Some nm \<Longrightarrow> mw_heap w' y = ew_heap ew y"
    and "y \<notin> set (reg_order_ids (ew_registry ew)) \<Longrightarrow> mw_heap w' y = ew_heap ew y"
proof -
  let ?v = "market_view ew m" and ?ew = "put_market nm w' ew" and ?r = "ew_registry ew"
  note d = market_frameD [OF fr]
  have here: "y \<in> set (reg_order_ids ?r) \<and> o_market (ew_heap ew y) = Some nm"
    if "mw_heap w' y \<noteq> ew_heap ew y \<or> y \<in> rests_in (mw_market w')" for y
  proof (cases "y \<in> rests_in m")
    case True
    then show ?thesis by (rule engine_invD(4) [OF inv m])
  next
    case False
    then show ?thesis using that d(1) [of y] d(4) x frame_all [of ?v w'] by (auto simp: resting_eq)
  qed
  show "mw_heap w' y = ew_heap ew y" if "o_market (ew_heap ew y) \<noteq> Some nm" using here [of y] that by auto
  show "mw_heap w' y = ew_heap ew y" if "y \<notin> set (reg_order_ids ?r)" using here [of y] that by auto
  have idm: "o_market (mw_heap w' y) = o_market (ew_heap ew y)" "o_session_key (mw_heap w' y) = o_session_key (ew_heap ew y)"
    "o_cl_ord_id (mw_heap w' y) = o_cl_ord_id (ew_heap ew y)" for y
    using d(2) [of y] by (simp_all add: identity_of_def)
  have "registry_ok (mw_heap w') ?r"
    by (rule registry_ok_cong [OF _ engine_invD(1) [OF inv]]) (use idm d(3) in simp)
  moreover have "market_entry_ok (mw_heap w') (mw_ids w') ?r e" if "e \<in> set (ew_markets ?ew)" for e
  proof (cases "fst e = nm")
    case True
    have "map_of (ew_markets ?ew) (fst e) = Some (snd e)"
      by (rule map_of_is_SomeI) (use that inv in \<open>auto simp: put_market_def engine_inv_def distinct_update\<close>)
    with True have se: "snd e = mw_market w'" by simp
    have "market_inv \<lparr>mw_heap = mw_heap w', mw_ids = mw_ids w', mw_market = mw_market w'\<rparr>"
      using mi by (cases w') simp
    with here idm True se show ?thesis by (auto simp: market_entry_ok_def)
  next
    case False
    then have e: "e \<in> set (ew_markets ew)"
      using that by (cases e) (auto simp: put_market_def dest: in_update)
    note ok = engine_invD(6) [OF inv e]
    have "mw_heap w' y = ew_heap ew y"
      if "y \<in> rests_in (snd e)" for y
      using here [of y] ok that False by (auto simp: market_entry_ok_def)
    then show ?thesis by (intro market_entry_ok_cong [OF ok]) simp_all
  qed
  ultimately show "engine_inv ?ew"
    using inv by (simp add: engine_inv_def) (simp add: put_market_def distinct_update)
qed

subsection \<open>Creating, registering and renaming an order\<close>

lemma render_id_counter [simp]: "render_id (g\<lparr>ig_counter := n\<rparr>) = render_id g"
  by (simp add: fun_eq_iff render_id_def)

lemma render_id_inject: "render_id g m = render_id g n \<longleftrightarrow> m = n"
  by (metis id_number_render)

lemma build_order_Inr:
  assumes "build_order en rq ew = Inr (x, ew')"
  shows "x = render_id (ew_order_ids ew) (ig_counter (ew_order_ids ew))"
    and "ew' = ew\<lparr>ew_heap := (ew_heap ew)(x := order_of_request rq (ew_sequences ew) (en_now en)),
       ew_order_ids := (ew_order_ids ew)\<lparr>ig_counter := Suc (ig_counter (ew_order_ids ew))\<rparr>,
       ew_sequences := Suc (ew_sequences ew)\<rparr>"
  using assms by (auto simp: build_order_def bind_exn_Inr next_id_Inr next_seq_def)

lemma fresh_id_not_registered:
  "engine_inv ew \<Longrightarrow> render_id (ew_order_ids ew) (ig_counter (ew_order_ids ew)) \<notin> set (reg_order_ids (ew_registry ew))"
  using engine_invD(5) [of ew] by (force simp: render_id_inject)

lemma registry_ok_update:
  assumes "registry_ok h r"
    and "x \<notin> set (reg_order_ids r) \<or> identity_of y = identity_of (h x) \<and> o_chain y = o_chain (h x)"
  shows "registry_ok (h(x := y)) r"
  by (rule registry_ok_cong [OF _ assms(1)]) (use assms(2) in \<open>auto simp: identity_of_def\<close>)

lemma build_order_inv:
  assumes inv: "engine_inv ew" and b: "build_order en rq ew = Inr (x, ew')"
  shows "engine_inv ew'" and "x \<notin> set (reg_order_ids (ew_registry ew))"
    and "ew_registry ew' = ew_registry ew" and "ew_markets ew' = ew_markets ew" and "ew_behaviour ew' = ew_behaviour ew"
    and "ew_heap ew' = (ew_heap ew)(x := order_of_request rq (ew_sequences ew) (en_now en))"
    and "\<exists>n < ig_counter (ew_order_ids ew'). x = render_id (ew_order_ids ew') n"
proof -
  note e = build_order_Inr [OF b]
  show new: "x \<notin> set (reg_order_ids (ew_registry ew))" using fresh_id_not_registered [OF inv] e(1) by simp
  show "ew_registry ew' = ew_registry ew" "ew_markets ew' = ew_markets ew" "ew_behaviour ew' = ew_behaviour ew"
    "ew_heap ew' = (ew_heap ew)(x := order_of_request rq (ew_sequences ew) (en_now en))"
    by (simp_all add: e(2))
  show "\<exists>n < ig_counter (ew_order_ids ew'). x = render_id (ew_order_ids ew') n"
    by (rule exI [of _ "ig_counter (ew_order_ids ew)"]) (simp add: e)
  show "engine_inv ew'"
  proof (rule engine_inv_change [OF inv])
    show "registry_ok (ew_heap ew') (ew_registry ew')"
      using registry_ok_update [OF engine_invD(1) [OF inv]] new by (simp add: e(2))
    show "same_for_book (ew_heap ew' y) (ew_heap ew y) \<and> o_market (ew_heap ew' y) = o_market (ew_heap ew y)"
      if "y \<in> set (reg_order_ids (ew_registry ew))" for y using that new by (auto simp: e(2))
    show "\<exists>n < ig_counter (ew_order_ids ew'). y = render_id (ew_order_ids ew') n"
      if "y \<in> set (reg_order_ids (ew_registry ew'))" for y
      using engine_invD(5) [OF inv, of y] that by (auto simp: e(2) less_Suc_eq)
  qed (simp_all add: e(2))
qed

text \<open>A change of an order that is not registered.\<close>

lemma set_unregistered_inv:
  assumes inv: "engine_inv ew" and new: "x \<notin> set (reg_order_ids (ew_registry ew))"
  shows "engine_inv (set_order_ew x y ew)"
proof (rule engine_inv_change [OF inv])
  show "registry_ok (ew_heap (set_order_ew x y ew)) (ew_registry (set_order_ew x y ew))"
    using registry_ok_update [OF engine_invD(1) [OF inv]] new by (simp add: set_order_ew_def)
qed (use engine_invD(5) [OF inv] new in \<open>auto simp: set_order_ew_def\<close>)

text \<open>A change of a registered order that its book does not notice.\<close>

lemma set_unnoticed_inv:
  assumes inv: "engine_inv ew" and same: "same_for_book y (ew_heap ew x)"
    and idn: "identity_of y = identity_of (ew_heap ew x)" "o_chain y = o_chain (ew_heap ew x)"
  shows "engine_inv (set_order_ew x y ew)"
proof (rule engine_inv_change [OF inv])
  show "registry_ok (ew_heap (set_order_ew x y ew)) (ew_registry (set_order_ew x y ew))"
    using registry_ok_update [OF engine_invD(1) [OF inv]] idn by (simp add: set_order_ew_def)
qed (use engine_invD(5) [OF inv] same idn in \<open>auto simp: set_order_ew_def identity_of_def\<close>)

lemma registry_add_set:
  "registry_add h x r = (r', e) \<Longrightarrow> set (reg_order_ids r') = insert x (set (reg_order_ids r))"
  by (auto simp: registry_add_def Let_def split: option.splits if_splits)

lemma add_inv:
  assumes inv: "engine_inv ew" and add: "registry_add (ew_heap ew) x (ew_registry ew) = (r', None)"
    and new: "x \<notin> set (reg_order_ids (ew_registry ew))"
    and chain: "o_chain (ew_heap ew x) = [o_cl_ord_id (ew_heap ew x)]"
    and issued: "\<exists>n < ig_counter (ew_order_ids ew). x = render_id (ew_order_ids ew) n"
  shows "engine_inv (ew\<lparr>ew_registry := r'\<rparr>)"
proof (rule engine_inv_change [OF inv])
  show "registry_ok (ew_heap (ew\<lparr>ew_registry := r'\<rparr>)) (ew_registry (ew\<lparr>ew_registry := r'\<rparr>))"
    using registry_ok_add [OF engine_invD(1) [OF inv] new chain add] by simp
qed (use registry_add_set [OF add] engine_invD(5) [OF inv] issued in auto)

lemma rename_in_Inr:
  assumes "rename_in x c ew = Inr ew'"
  shows "ew_markets ew' = ew_markets ew" "ew_trade_ids ew' = ew_trade_ids ew" "ew_order_ids ew' = ew_order_ids ew"
    "reg_order_ids (ew_registry ew') = reg_order_ids (ew_registry ew)"
    "y \<noteq> x \<Longrightarrow> ew_heap ew' y = ew_heap ew y"
    "same_for_book (ew_heap ew' y) (ew_heap ew y)" "o_market (ew_heap ew' y) = o_market (ew_heap ew y)"
    "o_session_key (ew_heap ew' y) = o_session_key (ew_heap ew y)"
    "o_symbol (ew_heap ew' y) = o_symbol (ew_heap ew y)" "is_live (ew_heap ew' y) = is_live (ew_heap ew y)"
  using assms
  by (auto simp: rename_in_def bind_exn_Inr same_for_book_def frame_simps dest!: registry_rename_Inr split: if_splits)

lemma rename_in_inv:
  assumes inv: "engine_inv ew" and rn: "rename_in x c ew = Inr ew'" and x: "x \<in> set (reg_order_ids (ew_registry ew))"
  shows "engine_inv ew'"
proof (rule engine_inv_change [OF inv])
  show "registry_ok (ew_heap ew') (ew_registry ew')"
    using rn registry_ok_rename [OF engine_invD(1) [OF inv] x] by (auto simp: rename_in_def bind_exn_Inr)
qed (use rename_in_Inr [OF rn] engine_invD(5) [OF inv] in auto)

subsection \<open>Every request keeps the invariant\<close>

text \<open>The ways \<open>new_order\<close> can go: refused before anything is entered, or submitted.\<close>

lemma registry_add_fresh:
  "\<not> is_duplicate r (o_session_key (h x)) (o_cl_ord_id (h x)) \<Longrightarrow> snd (registry_add h x r) = None"
  by (auto simp: is_duplicate_def registry_add_def Let_def split: option.splits)

lemma new_order_cases:
  assumes no: "new_order en rq ew0 = Inr (ew', evs)"
  obtains (refused) x ew ew1 y reason t where "build_order en rq ew0 = Inr (x, ew)" "ew' = set_order_ew x y ew1"
      "evs = [OrderRejected x reason t]" "y = (ew_heap ew1 x)\<lparr>o_status := REJECTED\<rparr>"
      "ew1 = ew \<or> (\<exists>b. ew1 = ew\<lparr>ew_behaviour := b\<rparr>) \<or>
       (\<exists>m. engine_market ew (nr_market rq) = Some m \<and>
          ew1 = put_market (show_opt (nr_market rq)) (market_view ew (ensure_book (nr_symbol rq) m)) ew)"
  | (entered) x ew m r' w where "build_order en rq ew0 = Inr (x, ew)"
      "\<not> is_duplicate (ew_registry ew) (nr_session_key rq) (nr_cl_ord_id rq)"
      "engine_market ew (nr_market rq) = Some m"
      "fst (take_rule FORCE_REJECT (ew_heap ew x) (ew_behaviour ew)) = None"
      "validate_new (en_validator en) (ew_heap ew x) (engine_instrument en (nr_symbol rq))
         (Some (mk_state m)) (Some (book_of (nr_symbol rq) m)) = Inr None"
      "registry_add (ew_heap ew) x (ew_registry ew) = (r', None)"
      "market_submit x (market_view ew (ensure_book (nr_symbol rq) m)) = Inr (w, evs)"
      "ew' = put_market (show_opt (nr_market rq)) w
         ((put_market (show_opt (nr_market rq)) (market_view ew (ensure_book (nr_symbol rq) m)) ew)\<lparr>ew_registry := r'\<rparr>)"
proof -
  obtain x ew where b: "build_order en rq ew0 = Inr (x, ew)"
    using no by (cases "build_order en rq ew0") (auto simp: new_order_def)
  let ?rej = "\<lambda>ew1. \<exists>reason t. ew' = set_order_ew x ((ew_heap ew1 x)\<lparr>o_status := REJECTED\<rparr>) ew1 \<and>
     evs = [OrderRejected x reason t]"
  let ?ew1 = "\<lambda>m. put_market (show_opt (nr_market rq)) (market_view ew (ensure_book (nr_symbol rq) m)) ew"
  show thesis
  proof (cases "is_duplicate (ew_registry ew) (nr_session_key rq) (nr_cl_ord_id rq) \<or> engine_market ew (nr_market rq) = None")
    case True
    with no b have "?rej ew" by (auto simp: new_order_def reject_new_def split: if_splits)
    then show thesis using refused [OF b] by blast
  next
    case False
    then obtain m where m: "engine_market ew (nr_market rq) = Some m" by auto
    note nd = False [THEN de_Morgan_disj [THEN iffD1], THEN conjunct1]
    show thesis
    proof (cases "take_rule FORCE_REJECT (ew_heap ew x) (ew_behaviour ew)")
      case (Pair f b')
      show thesis
      proof (cases f)
        case (Some rule)
        with no b nd m Pair have "?rej (ew\<lparr>ew_behaviour := b'\<rparr>)" by (auto simp: new_order_def reject_new_def)
        then show thesis using refused [OF b] by blast
      next
        case None
        let ?v = "validate_new (en_validator en) (ew_heap ew x) (engine_instrument en (nr_symbol rq))
           (Some (mk_state m)) (Some (book_of (nr_symbol rq) m))"
        obtain rej where v: "?v = Inr rej"
          using no b nd m Pair None by (cases ?v) (simp_all add: new_order_def Let_def ensure_book_facts)
        show thesis
        proof (cases rej)
          case (Some rj)
          with no b nd m Pair None v have "?rej (?ew1 m)"
            by (auto simp: new_order_def reject_new_def Let_def ensure_book_facts)
          then show thesis using refused [OF b] m by blast
        next
          case clean: None
          have "ew_heap ew x = order_of_request rq (ew_sequences ew0) (en_now en)"
            using build_order_Inr [OF b] by simp
          then have "snd (registry_add (ew_heap ew) x (ew_registry ew)) = None"
            using nd by (intro registry_add_fresh) (simp add: order_of_request_def)
          then obtain r' where add: "registry_add (ew_heap ew) x (ew_registry ew) = (r', None)"
            by (metis prod.collapse)
          have "market_view ((?ew1 m)\<lparr>ew_registry := r'\<rparr>) (ensure_book (nr_symbol rq) m) =
              market_view ew (ensure_book (nr_symbol rq) m)"
            by (simp add: market_view_def put_market_def)
          with no b nd m Pair None v clean add
          have "\<exists>w. market_submit x (market_view ew (ensure_book (nr_symbol rq) m)) = Inr (w, evs) \<and>
              ew' = put_market (show_opt (nr_market rq)) w ((?ew1 m)\<lparr>ew_registry := r'\<rparr>)"
            by (auto simp: new_order_def Let_def ensure_book_facts bind_exn_Inr)
          with b nd m Pair None v clean add show thesis by (auto intro: entered)
        qed
      qed
    qed
  qed
qed

lemma engine_market_Some:
  "engine_market ew name = Some m \<longleftrightarrow> (\<exists>nm. name = Some nm \<and> map_of (ew_markets ew) nm = Some m)"
  by (simp add: engine_market_def split: option.split)

lemma show_opt_Some [simp]: "show_opt (Some s) = s"
  by (simp add: show_opt_def)

lemma ensure_view_inv:
  assumes inv: "engine_inv ew" and m: "map_of (ew_markets ew) nm = Some m"
  shows "engine_inv (put_market nm (market_view ew (ensure_book sy m)) ew)"
    and "market_inv (market_view ew (ensure_book sy m))" and "rests_in (ensure_book sy m) = rests_in m"
proof -
  have e: "set_market (ensure_book sy (mw_market (market_view ew m))) (market_view ew m) = market_view ew (ensure_book sy m)"
    by (simp add: market_view_def)
  show mi: "market_inv (market_view ew (ensure_book sy m))"
    using ensure_book_inv [OF engine_invD(3) [OF inv m], of sy] unfolding e .
  show r: "rests_in (ensure_book sy m) = rests_in m"
    using resting_ensure [of sy "market_view ew m"] unfolding e by (simp add: resting_eq)
  show "engine_inv (put_market nm (market_view ew (ensure_book sy m)) ew)"
    by (rule put_market_inv(1) [OF inv m _ mi, of undefined]) (auto simp: market_frame_def resting_eq r)
qed

lemma submitted_leaves:
  "validate_new v y inst m book = Inr None \<Longrightarrow> o_status y = NEW \<Longrightarrow> o_cum_qty y = 0 \<Longrightarrow> 0 < leaves_qty y"
  by (auto simp: validate_new_clean terms_acceptable_def size_acceptable_def leaves_qty_def terminal_statuses_def)

lemma engine_inv_behaviour [simp]: "engine_inv (ew\<lparr>ew_behaviour := b\<rparr>) = engine_inv ew"
  by (simp add: engine_inv_def)

lemma new_order_inv:
  assumes no: "new_order en rq ew0 = Inr (ew', evs)" and inv: "engine_inv ew0"
  shows "engine_inv ew'"
  using no
proof (cases rule: new_order_cases)
  case (refused x ew ew1 y reason t)
  note b = build_order_inv [OF inv refused(1)]
  have "engine_inv ew1 \<and> ew_registry ew1 = ew_registry ew"
    using refused(5) b(1) ensure_view_inv(1) [OF b(1)]
    by (elim disjE exE) (simp_all add: engine_market_Some, elim exE conjE, simp)
  then show ?thesis using refused(2) set_unregistered_inv b(2,3) by simp
next
  case (entered x ew m r' w)
  note b = build_order_inv [OF inv entered(1)]
  obtain nm where nm: "nr_market rq = Some nm" "map_of (ew_markets ew) nm = Some m"
    using entered(3) by (auto simp: engine_market_Some)
  let ?m1 = "ensure_book (nr_symbol rq) m" and ?ew1 = "put_market nm (market_view ew (ensure_book (nr_symbol rq) m)) ew"
  let ?ew2 = "?ew1\<lparr>ew_registry := r'\<rparr>"
  note v = ensure_view_inv [OF b(1) nm(2), of "nr_symbol rq"]
  have inv2: "engine_inv ?ew2"
    by (rule add_inv [OF v(1), of x]) (use entered(6) b(2,3,6,7) in \<open>simp_all add: order_of_request_def\<close>)
  have x: "x \<in> set (reg_order_ids (ew_registry ?ew2)) \<and> o_market (ew_heap ?ew2 x) = Some nm"
    using registry_add_set [OF entered(6)] b(6) nm(1) by (simp add: order_of_request_def)
  have fresh: "x \<notin> resting (market_view ew ?m1)"
    using engine_invD(4) [OF b(1) nm(2), of x] b(2,3) v(3) by (auto simp: resting_eq)
  have lv: "0 < leaves_qty (ew_heap ew x)"
    by (rule submitted_leaves [OF entered(5)]) (simp_all add: b(6) order_of_request_def)
  note s = market_submit_inv [OF entered(7) v(2) fresh] 
  have view: "market_view ?ew2 ?m1 = market_view ew ?m1" by (simp add: market_view_def put_market_def)
  have "engine_inv (put_market nm w ?ew2)"
    by (rule put_market_inv(1) [OF inv2, of nm ?m1 x, unfolded view]) (use s lv x in auto)
  with entered(8) nm(1) show ?thesis by simp
qed

subsection \<open>Cancel and replace\<close>

text \<open>What a request resolves to is registered, live, and the session's own.\<close>

lemma named_order_facts:
  assumes "named_order rq ew = Inr x" and "registry_ok (ew_heap ew) (ew_registry ew)"
  shows "x \<in> set (reg_order_ids (ew_registry ew)) \<and> o_session_key (ew_heap ew x) = cr_session_key rq \<and>
     (\<forall>c. cr_orig_cl_ord_id rq = Some c \<longrightarrow> o_cl_ord_id (ew_heap ew x) = Some c)"
  using assms(1) registry_okD(2) [OF assms(2)]
  by (auto simp: named_order_def registry_resolve_def registry_by_order_id_def split: option.splits if_splits)

lemma resolve_order_facts:
  assumes "resolve_order rq r ew = Inr x" and "registry_ok (ew_heap ew) (ew_registry ew)"
  shows "x \<in> set (reg_order_ids (ew_registry ew))" "o_session_key (ew_heap ew x) = cr_session_key rq"
    "is_live (ew_heap ew x)" "\<not> is_duplicate (ew_registry ew) (cr_session_key rq) (cr_cl_ord_id rq)"
    "cr_orig_cl_ord_id rq = Some c \<Longrightarrow> o_cl_ord_id (ew_heap ew x) = Some c"
proof -
  have n: "named_order rq ew = Inr x" "is_live (ew_heap ew x)"
    "\<not> is_duplicate (ew_registry ew) (cr_session_key rq) (cr_cl_ord_id rq)"
    using assms(1) by (auto simp: resolve_order_def Let_def split: if_splits sum.splits)
  with named_order_facts [OF n(1) assms(2)]
  show "x \<in> set (reg_order_ids (ew_registry ew))" "o_session_key (ew_heap ew x) = cr_session_key rq"
    "is_live (ew_heap ew x)" "\<not> is_duplicate (ew_registry ew) (cr_session_key rq) (cr_cl_ord_id rq)"
    "cr_orig_cl_ord_id rq = Some c \<Longrightarrow> o_cl_ord_id (ew_heap ew x) = Some c" by auto
qed

text \<open>Cancelling an order is confined to that order.\<close>

lemma cancel_resting_heap:
  "cancel_resting me x reason t s = (s', evs) \<Longrightarrow> y \<noteq> x \<Longrightarrow> ms_heap s' y = ms_heap s y"
  by (auto simp: cancel_resting_def Let_def split: prod.splits if_splits)

lemma market_cancel_heap:
  assumes "market_cancel x reason t w = Inr (w', evs)" and "y \<noteq> x"
  shows "mw_heap w' y = mw_heap w y"
  using assms cancel_resting_heap [of "mk_matching (mw_market w)" x reason t]
  by (auto simp: market_cancel_def Let_def bind_exn_Inr data_only_facts(1) [OF absorb_data_only]
      split: prod.splits)

lemma market_cancel_keeps:
  assumes cn: "market_cancel x reason t w = Inr (w', evs)" and inv: "market_inv w"
    and y: "y \<in> rests_in (mw_market w)" "y \<noteq> x"
  shows "y \<in> rests_in (mw_market w')"
proof -
  note c = market_cancel_inv [OF cn inv]
  obtain sy where sy: "y \<in> set (book_orders (book_of sy (mw_market w)))"
    using y resting_book_of [OF inv, of y] by (auto simp: resting_eq)
  have "y \<in> set (book_orders (book_of sy (mw_market w')))"
  proof (cases "sy = o_symbol (mw_heap w x)")
    case True
    then show ?thesis using c sy y(2) by auto
  next
    case False
    then have "map_of (mk_books (mw_market w')) sy = map_of (mk_books (mw_market w)) sy"
      using c by (simp add: only_touches_def)
    with sy show ?thesis
      by (simp add: book_of_def book_orders_def side_orders_def empty_book_def empty_side_def split: option.splits)
  qed
  then show ?thesis using not_resting [of y w' sy] by (auto simp: resting_eq)
qed

lemma cancel_order_cases:
  assumes "cancel_order rq ew = Inr (ew', evs)"
  obtains (refused) "ew' = ew" "evs \<noteq> []" "\<forall>e \<in> set evs. \<exists>c d r t y. e = CancelRejected c d r t y False"
  | (performed) x nm m ew1 w where "resolve_order rq False ew = Inr x" "o_market (ew_heap ew x) = Some nm"
      "map_of (ew_markets ew) nm = Some m" "rename_in x (cr_cl_ord_id rq) ew = Inr ew1"
      "market_cancel x CR_USER_REQUEST ''cancelled at client request'' (market_view ew1 m) = Inr (w, evs)"
      "ew' = put_market nm w ew1"
proof (cases "resolve_order rq False ew")
  case (Inl e)
  then show thesis using assms
    by (intro refused) (auto simp: cancel_order_def resolve_order_def Let_def split: if_splits sum.splits)
next
  case (Inr x)
  show thesis
  proof (cases "engine_market ew (o_market (ew_heap ew x))")
    case None
    with Inr assms show thesis by (intro refused) (auto simp: cancel_order_def)
  next
    case (Some m)
    with Inr assms show thesis
      by (auto simp: cancel_order_def bind_exn_Inr engine_market_Some intro!: performed)
  qed
qed

lemma renamed_market_inv:
  assumes inv: "engine_inv ew" and rn: "rename_in x c ew = Inr ew1" and x: "x \<in> set (reg_order_ids (ew_registry ew))"
    and m: "map_of (ew_markets ew) nm = Some m" "o_market (ew_heap ew x) = Some nm"
  shows "engine_inv ew1" "map_of (ew_markets ew1) nm = Some m" "market_inv (market_view ew1 m)"
    "x \<in> set (reg_order_ids (ew_registry ew1)) \<and> o_market (ew_heap ew1 x) = Some nm"
proof -
  note r = rename_in_Inr [OF rn]
  show i: "engine_inv ew1" by (rule rename_in_inv [OF inv rn x])
  show m1: "map_of (ew_markets ew1) nm = Some m" using m r by simp
  show "market_inv (market_view ew1 m)" by (rule engine_invD(3) [OF i m1])
  show "x \<in> set (reg_order_ids (ew_registry ew1)) \<and> o_market (ew_heap ew1 x) = Some nm" using x m r by simp
qed

lemma cancel_order_inv:
  assumes cn: "cancel_order rq ew = Inr (ew', evs)" and inv: "engine_inv ew"
  shows "engine_inv ew'"
    and "o_session_key (ew_heap ew y) \<noteq> cr_session_key rq \<Longrightarrow> ew_heap ew' y = ew_heap ew y"
proof -
  show "engine_inv ew'" using cn
  proof (cases rule: cancel_order_cases)
    case (performed x nm m ew1 w)
    note f = resolve_order_facts [OF performed(1) engine_invD(1) [OF inv]]
    note r = renamed_market_inv [OF inv performed(4) f(1) performed(3,2)]
    have "market_inv w \<and> market_frame x (market_view ew1 m) w"
      using market_cancel_inv [OF performed(5) r(3)] by blast
    then show ?thesis using put_market_inv(1) [OF r(1,2)] r(4) performed(6) by blast
  qed (use inv in simp)
  assume other: "o_session_key (ew_heap ew y) \<noteq> cr_session_key rq"
  show "ew_heap ew' y = ew_heap ew y" using cn
  proof (cases rule: cancel_order_cases)
    case (performed x nm m ew1 w)
    note f = resolve_order_facts [OF performed(1) engine_invD(1) [OF inv]]
    then have "y \<noteq> x" using other by auto
    then show ?thesis
      using market_cancel_heap [OF performed(5)] rename_in_Inr(5) [OF performed(4)] performed(6) by simp
  qed simp
qed

lemma replace_fields_frame:
  "same_for_book (replace_fields rq y) y" "identity_of (replace_fields rq y) = identity_of y"
  "o_chain (replace_fields rq y) = o_chain y"
  by (simp_all add: replace_fields_def same_for_book_def identity_of_def leaves_qty_def)

lemma replace_order_cases:
  assumes "replace_order en rq ew = Inr (ew', evs)"
  obtains (refused) "ew' = ew" "\<forall>e \<in> set evs. \<exists>c d r t y. e = CancelRejected c d r t y True"
  | (performed) x nm m ew1 w kept evs' q p where "resolve_order rq True ew = Inr x" "o_market (ew_heap ew x) = Some nm"
      "map_of (ew_markets ew) nm = Some m"
      "q = (case cr_quantity rq of None \<Rightarrow> o_quantity (ew_heap ew x) | Some q \<Rightarrow> q)"
      "p = or_else (rr_price rq) (o_price (ew_heap ew x))"
      "validate_amend (en_validator en) (ew_heap ew x) (engine_instrument en (o_symbol (ew_heap ew x)))
         (Some (mk_state m)) (Some q) p = Inr None"
      "rename_in x (cr_cl_ord_id rq) ew = Inr ew1"
      "market_amend x (Some q) p (market_view (set_order_ew x (replace_fields rq (ew_heap ew1 x)) ew1) m) = Inr (w, kept, evs')"
      "ew' = put_market nm w (set_order_ew x (replace_fields rq (ew_heap ew1 x)) ew1)"
      "evs = OrderReplaced x (o_cl_ord_id (ew_heap ew x)) kept # evs'"
proof (cases "resolve_order rq True ew")
  case (Inl e)
  then show thesis using assms
    by (intro refused) (auto simp: replace_order_def resolve_order_def Let_def split: if_splits sum.splits)
next
  case (Inr x)
  let ?y = "ew_heap ew x"
  let ?q = "case cr_quantity rq of None \<Rightarrow> o_quantity ?y | Some q \<Rightarrow> q" and ?p = "or_else (rr_price rq) (o_price ?y)"
  let ?mo = "engine_market ew (o_market ?y)"
  let ?v = "validate_amend (en_validator en) ?y (engine_instrument en (o_symbol ?y)) (map_option mk_state ?mo) (Some ?q) ?p"
  obtain rej where v: "?v = Inr rej" using Inr assms by (cases ?v) (simp_all add: replace_order_def Let_def)
  show thesis
  proof (cases rej)
    case (Some rj)
    with Inr v assms show thesis by (intro refused) (auto simp: replace_order_def Let_def)
  next
    case None
    then obtain m where m: "?mo = Some m"
      using Inr v assms by (cases ?mo) (auto simp: replace_order_def Let_def bind_exn_Inr)
    then obtain nm where nm: "o_market ?y = Some nm" "map_of (ew_markets ew) nm = Some m"
      by (auto simp: engine_market_Some)
    with Inr None v m assms show thesis
      by (auto simp: replace_order_def Let_def bind_exn_Inr intro!: performed [OF Inr nm refl refl])
  qed
qed

lemma replace_order_inv:
  assumes rp: "replace_order en rq ew = Inr (ew', evs)" and inv: "engine_inv ew"
  shows "engine_inv ew'"
  using rp
proof (cases rule: replace_order_cases)
  case (performed x nm m ew1 w kept evs' q p)
  note f = resolve_order_facts [OF performed(1) engine_invD(1) [OF inv]]
  note r = renamed_market_inv [OF inv performed(7) f(1) performed(3,2)]
  let ?ew2 = "set_order_ew x (replace_fields rq (ew_heap ew1 x)) ew1"
  have i2: "engine_inv ?ew2" by (rule set_unnoticed_inv [OF r(1)]) (simp_all add: replace_fields_frame)
  have m2: "map_of (ew_markets ?ew2) nm = Some m" using r(2) by (simp add: set_order_ew_def)
  have x2: "x \<in> set (reg_order_ids (ew_registry ?ew2)) \<and> o_market (ew_heap ?ew2 x) = Some nm"
    using r(4) by (simp add: set_order_ew_def replace_fields_def)
  have "market_inv w \<and> market_frame x (market_view ?ew2 m) w"
    using market_amend_inv [OF performed(8) engine_invD(3) [OF i2 m2]] by blast
  then show ?thesis using put_market_inv(1) [OF i2 m2] x2 performed(9) by blast
qed (use inv in simp)

end
