(* ===== verification/Engine_Steps.thy ===== *)
theory Engine_Steps
  imports Engine_Facts
begin

section \<open>The venue over time\<close>

subsection \<open>Operations over several markets\<close>

lemma put_view_inv:
  assumes "engine_inv ew" "map_of (ew_markets ew) nm = Some m" "market_inv w" "\<And>z. market_frame z (market_view ew m) w"
  shows "engine_inv (put_market nm w ew)"
  by (rule put_market_inv(1) [OF assms(1,2) assms(4) [of undefined] assms(3)]) (simp add: assms(4))

lemma phase_frame:
  assumes "market_set_state t sy w = Inr (w', evs)" and inv: "market_inv w"
  shows "market_frame z w w'"
  using assms(1)
proof (rule market_set_state_cases)
  fix sm evs1
  let ?w = "set_market ((mw_market w)\<lparr>mk_state := sm\<rparr>) w"
  assume r: "if evs1 \<noteq> [] \<and> names_no_entry t
     then \<exists>evs2. expire_orders sy ?w = Inr (w', evs2) \<and> evs = evs1 @ evs2
     else w' = ?w \<and> evs = evs1"
  have 0: "market_frame z w ?w" by (auto simp: market_frame_def resting_def)
  show ?thesis
  proof (cases "evs1 \<noteq> [] \<and> names_no_entry t")
    case True
    with r obtain evs2 where "expire_orders sy ?w = Inr (w', evs2)" by auto
    then have "market_frame z ?w w'"
      using market_cancel_all_frame inv state_inv(1) [where w = w and sm = sm] unfolding expire_orders_def by blast
    with 0 show ?thesis by (rule market_frame_trans)
  qed (use r 0 in auto)
qed

lemma rests_in_put:
  assumes "distinct (map fst (ew_markets ew))" and "map_of (ew_markets ew) nm = Some m"
  shows "x \<in> all_resting (put_market nm w ew) \<longleftrightarrow>
     x \<in> rests_in (mw_market w) \<or> (\<exists>nm' m'. nm' \<noteq> nm \<and> map_of (ew_markets ew) nm' = Some m' \<and> x \<in> rests_in m')"
proof -
  have d: "distinct (map fst (ew_markets (put_market nm w ew)))"
    using assms(1) by (simp add: put_market_def distinct_update)
  have "x \<in> all_resting (put_market nm w ew) \<longleftrightarrow>
      (\<exists>nm' m'. map_of (ew_markets (put_market nm w ew)) nm' = Some m' \<and> x \<in> rests_in m')"
    using d by (force simp: all_resting_def map_of_eq_Some_iff simp del: put_market_simps)
  then show ?thesis by auto
qed

lemma all_resting_map_of:
  assumes "distinct (map fst (ew_markets ew))"
  shows "x \<in> all_resting ew \<longleftrightarrow> (\<exists>nm m. map_of (ew_markets ew) nm = Some m \<and> x \<in> rests_in m)"
  using assms by (force simp: all_resting_def map_of_eq_Some_iff)

text \<open>
  A bulk cancellation walks the markets; it takes from each what the predicate picks and
  touches no order that does not rest.
\<close>

definition picks_identity :: "(order \<Rightarrow> bool) \<Rightarrow> bool" where
  "picks_identity pred \<longleftrightarrow> (\<forall>y z. identity_of y = identity_of z \<longrightarrow> pred y = pred z)"

lemma cancel_in_markets_result:
  "cancel_in_markets pred reason t nms ew = Inr (ew', evs) \<Longrightarrow> engine_inv ew \<Longrightarrow> picks_identity pred \<Longrightarrow>
   distinct nms \<Longrightarrow> set nms \<subseteq> fst ` set (ew_markets ew) \<Longrightarrow>
   engine_inv ew' \<and> (\<forall>y. identity_of (ew_heap ew' y) = identity_of (ew_heap ew y)) \<and>
   ew_registry ew' = ew_registry ew \<and>
   (\<forall>nm m. map_of (ew_markets ew) nm = Some m \<longrightarrow> (\<exists>m'. map_of (ew_markets ew') nm = Some m' \<and>
      rests_in m' = {x \<in> rests_in m. \<not> (nm \<in> set nms \<and> pred (ew_heap ew x))})) \<and>
   fst ` set (ew_markets ew') = fst ` set (ew_markets ew)"
proof (induction nms arbitrary: ew evs)
  case Nil
  then show ?case by simp
next
  case (Cons nm nms)
  have "nm \<in> fst ` set (ew_markets ew)" using Cons.prems(5) by simp
  then obtain m where m: "map_of (ew_markets ew) nm = Some m"
    by (cases "map_of (ew_markets ew) nm") (simp_all add: map_of_eq_None_iff)
  with Cons.prems(1) obtain w e1 e2 where
      c: "market_cancel_all pred reason t (market_view ew m) = Inr (w, e1)"
    and r: "cancel_in_markets pred reason t nms (put_market nm w ew) = Inr (ew', e2)"
    by (auto simp: bind_exn_Inr)
  note mi = engine_invD(3) [OF Cons.prems(2) m]
  have fr: "market_inv w \<and> market_frame z (market_view ew m) w" for z by (rule market_cancel_all_frame [OF c mi])
  let ?e = "put_market nm w ew"
  have i1: "engine_inv ?e" by (rule put_view_inv [OF Cons.prems(2) m fr [THEN conjunct1] fr [THEN conjunct2]])
  have idn: "identity_of (ew_heap ?e y) = identity_of (ew_heap ew y)" for y
    using market_frameD(2) [OF fr [THEN conjunct2]] by simp
  have keys: "fst ` set (ew_markets ?e) = fst ` set (ew_markets ew)"
    using map_of_SomeD [OF m] by (force simp: put_market_def keys_update)
  have res: "rests_in (mw_market w) = {x \<in> rests_in m. \<not> pred (ew_heap ew x)}"
    using market_cancel_all_resting [OF c mi] by (simp add: resting_eq)
  have sub: "distinct nms" "set nms \<subseteq> fst ` set (ew_markets ?e)" using Cons.prems(4,5) keys by auto
  have ih': "engine_inv ew' \<and> (\<forall>y. identity_of (ew_heap ew' y) = identity_of (ew_heap ?e y)) \<and>
     ew_registry ew' = ew_registry ?e \<and>
     (\<forall>k m0. map_of (ew_markets ?e) k = Some m0 \<longrightarrow> (\<exists>m'. map_of (ew_markets ew') k = Some m' \<and>
        rests_in m' = {x \<in> rests_in m0. \<not> (k \<in> set nms \<and> pred (ew_heap ?e x))})) \<and>
     fst ` set (ew_markets ew') = fst ` set (ew_markets ?e)"
    by (rule Cons.IH [OF r i1 Cons.prems(3) sub])
  have pr: "pred (ew_heap ?e x) = pred (ew_heap ew x)" for x
    using Cons.prems(3) idn [of x] unfolding picks_identity_def by blast
  have mk: "\<exists>m'. map_of (ew_markets ew') k = Some m' \<and>
      rests_in m' = {x \<in> rests_in m0. \<not> (k \<in> set (nm # nms) \<and> pred (ew_heap ew x))}"
    if k: "map_of (ew_markets ew) k = Some m0" for k m0
  proof (cases "k = nm")
    case True
    have "map_of (ew_markets ?e) k = Some (mw_market w)" using True by simp
    with ih' obtain m' where "map_of (ew_markets ew') k = Some m'"
        "rests_in m' = {x \<in> rests_in (mw_market w). \<not> (k \<in> set nms \<and> pred (ew_heap ?e x))}" by blast
    then show ?thesis using True k m res pr by auto
  next
    case False
    with k have "map_of (ew_markets ?e) k = Some m0" by simp
    with ih' obtain m' where "map_of (ew_markets ew') k = Some m'"
        "rests_in m' = {x \<in> rests_in m0. \<not> (k \<in> set nms \<and> pred (ew_heap ?e x))}" by blast
    with False pr show ?thesis by auto
  qed
  have "engine_inv ew'" "ew_registry ew' = ew_registry ew" "fst ` set (ew_markets ew') = fst ` set (ew_markets ew)"
    "identity_of (ew_heap ew' y) = identity_of (ew_heap ew y)" for y
    using ih' idn [of y] keys by simp_all
  with mk show ?case by simp
qed

lemma session_predicate: "picks_identity (\<lambda>y. o_session_key y = sk)"
  by (auto simp: picks_identity_def identity_of_def)

lemma cancel_session_result:
  assumes cs: "cancel_session_orders sk reason t ew = Inr (ew', evs)" and inv: "engine_inv ew"
  shows "engine_inv ew'" and "all_resting ew' = {x \<in> all_resting ew. o_session_key (ew_heap ew x) \<noteq> sk}"
    and "ew_registry ew' = ew_registry ew"
proof -
  note d = engine_invD(2) [OF inv]
  have r: "engine_inv ew' \<and> (\<forall>y. identity_of (ew_heap ew' y) = identity_of (ew_heap ew y)) \<and>
   ew_registry ew' = ew_registry ew \<and>
   (\<forall>nm m. map_of (ew_markets ew) nm = Some m \<longrightarrow> (\<exists>m'. map_of (ew_markets ew') nm = Some m' \<and>
      rests_in m' = {x \<in> rests_in m. \<not> (nm \<in> set (map fst (ew_markets ew)) \<and> o_session_key (ew_heap ew x) = sk)})) \<and>
   fst ` set (ew_markets ew') = fst ` set (ew_markets ew)"
    by (rule cancel_in_markets_result [OF cs [unfolded cancel_session_orders_def] inv session_predicate d]) simp
  show i: "engine_inv ew'" and "ew_registry ew' = ew_registry ew" using r by blast+
  note d' = engine_invD(2) [OF i]
  have rk: "\<exists>m'. map_of (ew_markets ew') nm = Some m' \<and>
      rests_in m' = {x \<in> rests_in m. o_session_key (ew_heap ew x) \<noteq> sk}" if m: "map_of (ew_markets ew) nm = Some m" for nm m
  proof -
    have "nm \<in> set (map fst (ew_markets ew))" using map_of_SomeD [OF m] by force
    moreover from r m obtain m' where "map_of (ew_markets ew') nm = Some m'"
        "rests_in m' = {x \<in> rests_in m. \<not> (nm \<in> set (map fst (ew_markets ew)) \<and> o_session_key (ew_heap ew x) = sk)}"
      by blast
    ultimately show ?thesis by auto
  qed
  have prev: "\<exists>m. map_of (ew_markets ew) nm = Some m" if "map_of (ew_markets ew') nm = Some m'" for nm m'
    using that r by (metis map_of_eq_None_iff not_None_eq)
  show "all_resting ew' = {x \<in> all_resting ew. o_session_key (ew_heap ew x) \<noteq> sk}"
  proof (intro set_eqI)
    fix x
    show "x \<in> all_resting ew' \<longleftrightarrow> x \<in> {x \<in> all_resting ew. o_session_key (ew_heap ew x) \<noteq> sk}"
    proof
      assume "x \<in> all_resting ew'"
      then obtain nm m' where m': "map_of (ew_markets ew') nm = Some m'" "x \<in> rests_in m'"
        using all_resting_map_of [OF d'] by auto
      with prev obtain m where m: "map_of (ew_markets ew) nm = Some m" by blast
      with rk [OF m] m' have "x \<in> rests_in m \<and> o_session_key (ew_heap ew x) \<noteq> sk" by auto
      with m show "x \<in> {x \<in> all_resting ew. o_session_key (ew_heap ew x) \<noteq> sk}"
        using all_resting_map_of [OF d] by auto
    next
      assume "x \<in> {x \<in> all_resting ew. o_session_key (ew_heap ew x) \<noteq> sk}"
      then obtain nm m where m: "map_of (ew_markets ew) nm = Some m" "x \<in> rests_in m"
          "o_session_key (ew_heap ew x) \<noteq> sk" using all_resting_map_of [OF d] by auto
      with rk [OF m(1)] obtain m' where "map_of (ew_markets ew') nm = Some m'" "x \<in> rests_in m'" by auto
      then show "x \<in> all_resting ew'" using all_resting_map_of [OF d'] by auto
    qed
  qed
qed

subsection \<open>Everything that can happen to the venue\<close>

text \<open>
  The requests a session sends, the cancellation of a session's orders, and the operator's
  operations on one market (a phase change, an auction, a bulk cancellation).
\<close>

inductive engine_step :: "engine \<Rightarrow> eworld \<Rightarrow> eworld \<Rightarrow> bool" for en where
  new: "new_order en rq ew = Inr (ew', evs) \<Longrightarrow> engine_step en ew ew'"
| cancel: "cancel_order cq ew = Inr (ew', evs) \<Longrightarrow> engine_step en ew ew'"
| replace: "replace_order en rr ew = Inr (ew', evs) \<Longrightarrow> engine_step en ew ew'"
| session: "cancel_session_orders sk reason t ew = Inr (ew', evs) \<Longrightarrow> engine_step en ew ew'"
| symbol: "cancel_symbol_orders name sy reason t ew = Inr (ew', evs) \<Longrightarrow> engine_step en ew ew'"
| phase: "map_of (ew_markets ew) nm = Some m \<Longrightarrow> market_set_state t sy0 (market_view ew m) = Inr (w, evs) \<Longrightarrow>
    engine_step en ew (put_market nm w ew)"
| auction: "map_of (ew_markets ew) nm = Some m \<Longrightarrow> market_uncross sy reference (market_view ew m) = Inr (w, res, evs) \<Longrightarrow>
    engine_step en ew (put_market nm w ew)"
| bulk: "map_of (ew_markets ew) nm = Some m \<Longrightarrow> market_cancel_all pred reason t (market_view ew m) = Inr (w, evs) \<Longrightarrow>
    engine_step en ew (put_market nm w ew)"
| rules: "engine_step en ew (ew\<lparr>ew_behaviour := b\<rparr>)"

abbreviation engine_reaches :: "engine \<Rightarrow> eworld \<Rightarrow> eworld \<Rightarrow> bool" where
  "engine_reaches en \<equiv> (engine_step en)\<^sup>*\<^sup>*"

lemma cancel_symbol_cases:
  assumes "cancel_symbol_orders name sy reason t ew = Inr (ew', evs)"
  obtains "ew' = ew" | nm m w where "map_of (ew_markets ew) nm = Some m"
    "market_cancel_all (\<lambda>y. o_symbol y = sy) reason t (market_view ew m) = Inr (w, evs)" "ew' = put_market nm w ew"
proof (cases "engine_market ew name")
  case None
  with assms that(1) show thesis by (simp add: cancel_symbol_orders_def)
next
  case (Some m)
  with assms that(2) show thesis by (auto simp: cancel_symbol_orders_def engine_market_Some bind_exn_Inr)
qed

lemma engine_step_inv:
  assumes "engine_step en ew ew'" and "engine_inv ew"
  shows "engine_inv ew'"
  using assms
proof (induction rule: engine_step.induct)
  case (symbol name sy reason t ew ew' evs)
  from symbol.hyps show ?case
  proof (cases rule: cancel_symbol_cases)
    case (2 nm m w)
    note fr = market_cancel_all_frame [OF 2(2) engine_invD(3) [OF symbol.prems 2(1)]]
    show ?thesis unfolding 2(3)
      by (rule put_view_inv [OF symbol.prems 2(1) fr [THEN conjunct1] fr [THEN conjunct2]])
  qed (use symbol.prems in simp)
next
  case (phase ew nm m t sy0 w evs)
  note mi = engine_invD(3) [OF phase.prems phase.hyps(1)]
  show ?case
    by (rule put_view_inv [OF phase.prems phase.hyps(1) market_set_state_inv [OF phase.hyps(2) mi, THEN conjunct1]
          phase_frame [OF phase.hyps(2) mi]])
next
  case (auction ew nm m sy reference w res evs)
  note mi = engine_invD(3) [OF auction.prems auction.hyps(1)]
  show ?case
    by (rule put_view_inv [OF auction.prems auction.hyps(1) market_uncross_inv(1) [OF auction.hyps(2) mi, THEN conjunct1]
          market_uncross_inv(5) [OF auction.hyps(2) mi]])
next
  case (bulk ew nm m pred reason t w evs)
  note mi = engine_invD(3) [OF bulk.prems bulk.hyps(1)]
  note fr = market_cancel_all_frame [OF bulk.hyps(2) mi]
  show ?case by (rule put_view_inv [OF bulk.prems bulk.hyps(1) fr [THEN conjunct1] fr [THEN conjunct2]])
qed (simp_all add: new_order_inv cancel_order_inv(1) replace_order_inv cancel_session_result(1))

lemma engine_reaches_inv:
  assumes "engine_reaches en ew ew'" and "engine_inv ew"
  shows "engine_inv ew'"
  using assms by (induction rule: rtranclp_induct) (auto intro: engine_step_inv)

subsection \<open>The index of client identifiers only grows\<close>

definition index_grows :: "registry \<Rightarrow> registry \<Rightarrow> bool" where
  "index_grows r r' \<longleftrightarrow> reg_cl_ord_ids r \<subseteq>\<^sub>m reg_cl_ord_ids r'"

lemma index_grows_refl [simp]: "index_grows r r"
  by (simp add: index_grows_def)

lemma index_grows_trans: "index_grows r1 r2 \<Longrightarrow> index_grows r2 r3 \<Longrightarrow> index_grows r1 r3"
  unfolding index_grows_def by (rule map_le_trans)

lemma index_grows_duplicate: "index_grows r r' \<Longrightarrow> is_duplicate r sk c \<Longrightarrow> is_duplicate r' sk c"
  by (auto simp: index_grows_def is_duplicate_def map_le_def dom_def split: option.splits)

lemma registry_add_grows: "registry_add h x r = (r', e) \<Longrightarrow> index_grows r r'"
  by (auto simp: registry_add_def Let_def index_grows_def map_le_def split: option.splits if_splits)

lemma rename_grows: "rename_in x c ew = Inr ew' \<Longrightarrow> index_grows (ew_registry ew) (ew_registry ew')"
  by (auto simp: rename_in_def bind_exn_Inr index_grows_def map_le_def dest!: registry_rename_Inr)

lemma build_order_registry: "build_order en rq ew = Inr (x, ew') \<Longrightarrow> ew_registry ew' = ew_registry ew"
  using build_order_Inr(2) by fastforce

lemma set_order_registry [simp]: "ew_registry (set_order_ew x y ew) = ew_registry ew"
  by (simp add: set_order_ew_def)

lemma engine_step_grows:
  assumes "engine_step en ew ew'" and "engine_inv ew"
  shows "index_grows (ew_registry ew) (ew_registry ew')"
  using assms
proof (induction rule: engine_step.induct)
  case (new rq ew ew' evs)
  from new.hyps show ?case
    by (cases rule: new_order_cases) (auto dest!: build_order_registry registry_add_grows)
next
  case (cancel cq ew ew' evs)
  from cancel.hyps show ?case by (cases rule: cancel_order_cases) (auto dest: rename_grows)
next
  case (replace rr ew ew' evs)
  from replace.hyps show ?case by (cases rule: replace_order_cases) (auto dest: rename_grows)
next
  case (session sk reason t ew ew' evs)
  then show ?case using cancel_session_result(3) by fastforce
next
  case (symbol name sy reason t ew ew' evs)
  from symbol.hyps show ?case by (elim cancel_symbol_cases) auto
qed simp_all

lemma engine_reaches_grows:
  assumes "engine_reaches en ew ew'" and "engine_inv ew"
  shows "index_grows (ew_registry ew) (ew_registry ew')"
  using assms
proof (induction rule: rtranclp_induct)
  case (step ew1 ew2)
  then show ?case using engine_step_grows engine_reaches_inv index_grows_trans by blast
qed simp

end
