(* ===== verification/Venue_Claims.thy ===== *)
theory Venue_Claims
  imports Engine_Steps Market_Samples
begin

section \<open>Properties of the venue engine\<close>

subsection \<open>A venue with one open market and no orders\<close>

definition sample_venue :: engine where
  "sample_venue = \<lparr>en_instruments = [(''7203'', sample_instrument)], en_validator = sample_validator, en_now = Some 7\<rparr>"

definition quiet_venue :: eworld where
  "quiet_venue = \<lparr>ew_heap = sample_heap, ew_trade_ids = sample_ids,
     ew_order_ids = sample_ids\<lparr>ig_prefix := ''O''\<rparr>, ew_sequences = 1, ew_registry = empty_registry,
     ew_behaviour = empty_behaviour,
     ew_markets = [(''J'', new_market ''J'' \<lparr>pc_decimals = 1\<rparr> CANCEL_NEWEST OPEN True 5 False [] (Some 7))]\<rparr>"

definition plain_request :: "session_key \<Rightarrow> string \<Rightarrow> side \<Rightarrow> int \<Rightarrow> int \<Rightarrow> new_order_request" where
  "plain_request sk c sd q p =
     \<lparr>nr_session_key = sk, nr_market = Some ''J'', nr_cl_ord_id = Some c, nr_symbol = ''7203'',
      nr_side = sd, nr_quantity = q, nr_price = Some p, nr_order_type = Some LIMIT,
      nr_time_in_force = DAY, nr_min_qty = 0, nr_exec_inst = [], nr_capacity = None,
      nr_account = None, nr_mpid = None, nr_cash_margin = None, nr_margin_type = None,
      nr_stp_id = None, nr_stp_instruction = None\<rparr>"


lemma empty_engine_inv:
  assumes "distinct (map fst (ew_markets ew))" and "\<forall>e \<in> set (ew_markets ew). mk_books (snd e) = []"
    and "ew_registry ew = empty_registry"
  shows "engine_inv ew"
proof -
  have "registry_ok (ew_heap ew) (ew_registry ew)" "reg_order_ids (ew_registry ew) = []"
    using assms(3) registry_ok_empty by (simp, simp add: empty_registry_def)
  with assms(1,2) show ?thesis by (simp add: engine_inv_def market_entry_ok_def market_inv_def rests_in_def)
qed

lemma quiet_venue_start:
  "distinct (map fst (ew_markets quiet_venue))" "\<forall>e \<in> set (ew_markets quiet_venue). mk_books (snd e) = []"
  "ew_registry quiet_venue = empty_registry"
  by (simp_all add: quiet_venue_def new_market_def)

lemma quiet_venue_inv: "engine_inv quiet_venue"
  by (rule empty_engine_inv) (rule quiet_venue_start)+

text \<open>Two sessions enter a bid each.\<close>

definition two_bids :: "exn + eworld \<times> event list" where
  "two_bids = bind_exn (new_order sample_venue (plain_request [''S1''] ''c1'' BUY 100 100) quiet_venue) (\<lambda>(ew, _).
     new_order sample_venue (plain_request [''S2''] ''c1'' BUY 100 100) ew)"

lemma one_bid_entered:
  obtains ew evs where "new_order sample_venue (plain_request [''S1''] ''c1'' BUY 100 100) quiet_venue = Inr (ew, evs)"
    "evs = [OrderAccepted ''O01010001'' 0 100 100]"
proof -
  have "(case new_order sample_venue (plain_request [''S1''] ''c1'' BUY 100 100) quiet_venue of Inl _ \<Rightarrow> False
     | Inr (ew, evs) \<Rightarrow> evs = [OrderAccepted ''O01010001'' 0 100 100])" by code_simp
  with that show thesis by (auto split: sum.splits)
qed

lemma two_bids_entered:
  obtains ew evs where "two_bids = Inr (ew, evs)" "engine_reaches sample_venue quiet_venue ew"
proof -
  have "(case two_bids of Inl _ \<Rightarrow> False | Inr _ \<Rightarrow> True)" by code_simp
  then obtain ew evs where r: "two_bids = Inr (ew, evs)" by (auto split: sum.splits)
  then obtain ew1 e1 where
      "new_order sample_venue (plain_request [''S1''] ''c1'' BUY 100 100) quiet_venue = Inr (ew1, e1)"
      "new_order sample_venue (plain_request [''S2''] ''c1'' BUY 100 100) ew1 = Inr (ew, evs)"
    by (auto simp: two_bids_def bind_exn_Inr)
  then have "engine_reaches sample_venue quiet_venue ew"
    by (meson engine_step.new rtranclp.rtrancl_refl rtranclp.rtrancl_into_rtrancl)
  with r show thesis by (rule that)
qed

lemma two_bids_rest:
  assumes "two_bids = Inr (ew, evs)"
  shows "''O01010001'' \<in> all_resting ew" "''O01010002'' \<in> all_resting ew"
    "o_session_key (ew_heap ew ''O01010001'') = [''S1'']" "o_session_key (ew_heap ew ''O01010002'') = [''S2'']"
proof -
  have "(case two_bids of Inl _ \<Rightarrow> False | Inr (ew, evs) \<Rightarrow>
      map (\<lambda>m. concat (map (\<lambda>b. book_orders (snd b)) (mk_books (snd m)))) (ew_markets ew) = [[''O01010001'', ''O01010002'']] \<and>
      o_session_key (ew_heap ew ''O01010001'') = [''S1''] \<and> o_session_key (ew_heap ew ''O01010002'') = [''S2''])"
    by code_simp
  note q = this [unfolded assms sum.case prod.case]
  then have m: "map (\<lambda>m. concat (map (\<lambda>b. book_orders (snd b)) (mk_books (snd m)))) (ew_markets ew) =
      [[''O01010001'', ''O01010002'']]"
    and k: "o_session_key (ew_heap ew ''O01010001'') = [''S1'']" "o_session_key (ew_heap ew ''O01010002'') = [''S2'']"
    by blast+
  then obtain e where e: "ew_markets ew = [e]" "concat (map (\<lambda>b. book_orders (snd b)) (mk_books (snd e))) = [''O01010001'', ''O01010002'']"
    by auto
  have "rests_in (snd e) = set (concat (map (\<lambda>b. book_orders (snd b)) (mk_books (snd e))))"
    by (simp add: rests_in_def)
  with e show "''O01010001'' \<in> all_resting ew" "''O01010002'' \<in> all_resting ew"
    by (simp_all add: all_resting_def)
  show "o_session_key (ew_heap ew ''O01010001'') = [''S1'']" "o_session_key (ew_heap ew ''O01010002'') = [''S2'']"
    by (rule k)+
qed

subsection \<open>The properties\<close>

text \<open>
  C18: From a venue with empty books and an empty registry on, whatever sessions and the
  operator do: every market is sound, an order that rests is a registered order of the
  market it rests in, and the index of client identifiers leads a session only to its own
  orders that have carried the identifier.
\<close>

theorem every_reachable_venue_is_sound:
  assumes "engine_reaches en ew ew'" and "distinct (map fst (ew_markets ew))"
    and "\<forall>e \<in> set (ew_markets ew). mk_books (snd e) = []" and "ew_registry ew = empty_registry"
  shows "(\<forall>nm m. map_of (ew_markets ew') nm = Some m \<longrightarrow> market_inv (market_view ew' m) \<and>
       (\<forall>x \<in> rests_in m. x \<in> set (reg_order_ids (ew_registry ew')) \<and> o_market (ew_heap ew' x) = Some nm)) \<and>
     (\<forall>sk c x. registry_by_cl_ord_id (ew_registry ew') sk c = Some x \<longrightarrow>
        o_session_key (ew_heap ew' x) = sk \<and> Some c \<in> set (o_chain (ew_heap ew' x)))"
proof -
  have i: "engine_inv ew'" by (rule engine_reaches_inv [OF assms(1) empty_engine_inv [OF assms(2-4)]])
  show ?thesis
    using engine_invD(3,4) [OF i] registry_okD(2) [OF engine_invD(1) [OF i]]
    by (auto simp: registry_by_cl_ord_id_def)
qed

theorem every_reachable_venue_is_sound_witness:
  "\<exists>ew. engine_reaches sample_venue quiet_venue ew \<and> ''O01010002'' \<in> all_resting ew \<and>
     (\<forall>nm m. map_of (ew_markets ew) nm = Some m \<longrightarrow> market_inv (market_view ew m))"
proof -
  obtain ew evs where r: "two_bids = Inr (ew, evs)" "engine_reaches sample_venue quiet_venue ew"
    by (rule two_bids_entered)
  from every_reachable_venue_is_sound [OF r(2) quiet_venue_start] two_bids_rest(2) [OF r(1)] r(2) show ?thesis by blast
qed



text \<open>
  C20: Once an order has been taken with a client identifier, whatever happens later, the
  session's next order with that identifier is refused as a duplicate: it is not
  registered, nothing else changes, and no market sees it.
\<close>

theorem used_client_id_is_refused_forever:
  assumes first: "new_order en rq ew = Inr (ew1, evs)" "\<forall>x r t. evs \<noteq> [OrderRejected x r t]"
    and inv: "engine_inv ew" and c: "nr_cl_ord_id rq = Some c"
    and later: "engine_reaches en ew1 ew2"
    and again: "nr_session_key rq2 = nr_session_key rq" "nr_cl_ord_id rq2 = Some c"
      "new_order en rq2 ew2 = Inr (ew3, evs2)"
  shows "\<exists>x. evs2 = [OrderRejected x RR_DUPLICATE_ORDER (used_text (Some c))] \<and>
     x \<notin> set (reg_order_ids (ew_registry ew2)) \<and> ew_registry ew3 = ew_registry ew2 \<and>
     ew_markets ew3 = ew_markets ew2 \<and> ew_behaviour ew3 = ew_behaviour ew2 \<and>
     (\<forall>y. y \<noteq> x \<longrightarrow> ew_heap ew3 y = ew_heap ew2 y)"
proof -
  have i1: "engine_inv ew1" by (rule new_order_inv [OF first(1) inv])
  have "is_duplicate (ew_registry ew1) (nr_session_key rq) (Some c)" using first(1)
  proof (cases rule: new_order_cases)
    case (entered x ewb m r' w)
    have "o_session_key (ew_heap ewb x) = nr_session_key rq" "o_cl_ord_id (ew_heap ewb x) = Some c"
      using build_order_inv(6) [OF inv entered(1)] c by (simp_all add: order_of_request_def)
    with entered(6,8) show ?thesis
      by (auto simp: registry_add_def is_duplicate_def Let_def split: if_splits)
  qed (use first(2) in auto)
  then have dup: "is_duplicate (ew_registry ew2) (nr_session_key rq2) (nr_cl_ord_id rq2)"
    using index_grows_duplicate [OF engine_reaches_grows [OF later i1]] again by simp
  have i2: "engine_inv ew2" by (rule engine_reaches_inv [OF later i1])
  obtain x ewb where b: "build_order en rq2 ew2 = Inr (x, ewb)"
    using again(3) by (cases "build_order en rq2 ew2") (auto simp: new_order_def)
  note bi = build_order_inv [OF i2 b]
  have "evs2 = [OrderRejected x RR_DUPLICATE_ORDER (used_text (Some c))]"
    "ew3 = set_order_ew x ((ew_heap ewb x)\<lparr>o_status := REJECTED\<rparr>) ewb"
    using again(2,3) b dup bi(3) by (auto simp: new_order_def reject_new_def)
  with bi show ?thesis by (auto simp: set_order_ew_def)
qed

theorem used_client_id_is_refused_forever_witness:
  "\<exists>ew1 ew2 evs x. new_order sample_venue (plain_request [''S1''] ''c1'' BUY 100 100) quiet_venue = Inr (ew1, evs) \<and>
     new_order sample_venue (plain_request [''S1''] ''c1'' SELL 100 100) ew1 =
       Inr (ew2, [OrderRejected x RR_DUPLICATE_ORDER (used_text (Some ''c1''))])"
proof -
  obtain ew1 evs where r: "new_order sample_venue (plain_request [''S1''] ''c1'' BUY 100 100) quiet_venue = Inr (ew1, evs)"
      "evs = [OrderAccepted ''O01010001'' 0 100 100]" by (rule one_bid_entered)
  have "(case new_order sample_venue (plain_request [''S1''] ''c1'' BUY 100 100) quiet_venue of Inl _ \<Rightarrow> False
     | Inr (ew1, _) \<Rightarrow> (case new_order sample_venue (plain_request [''S1''] ''c1'' SELL 100 100) ew1 of Inl _ \<Rightarrow> False | Inr _ \<Rightarrow> True))"
    by code_simp
  with r obtain ew2 e2 where a: "new_order sample_venue (plain_request [''S1''] ''c1'' SELL 100 100) ew1 = Inr (ew2, e2)"
    by (auto split: sum.splits)
  have "\<forall>x r t. evs \<noteq> [OrderRejected x r t]" using r by simp
  from used_client_id_is_refused_forever [OF r(1) this quiet_venue_inv _ rtranclp.rtrancl_refl _ _ a] r a show ?thesis
    by (auto simp: plain_request_def)
qed

text \<open>
  C21: Cancel on disconnect takes from all markets exactly the session's orders: none of
  them is left resting and everything else still is.
\<close>

theorem disconnect_clears_the_session:
  assumes "cancel_session_orders sk reason t ew = Inr (ew', evs)" and "engine_inv ew"
  shows "all_resting ew' = {x \<in> all_resting ew. o_session_key (ew_heap ew x) \<noteq> sk}"
  by (rule cancel_session_result(2) [OF assms])

theorem disconnect_clears_the_session_witness:
  "\<exists>ew ew' evs. cancel_session_orders [''S1''] CR_CANCEL_ON_DISCONNECT [] ew = Inr (ew', evs) \<and>
     ''O01010001'' \<in> all_resting ew \<and> ''O01010001'' \<notin> all_resting ew' \<and> ''O01010002'' \<in> all_resting ew'"
proof -
  obtain ew e1 where r: "two_bids = Inr (ew, e1)" "engine_reaches sample_venue quiet_venue ew"
    by (rule two_bids_entered)
  have "(case two_bids of Inl _ \<Rightarrow> False | Inr (ew, _) \<Rightarrow>
     (case cancel_session_orders [''S1''] CR_CANCEL_ON_DISCONNECT [] ew of Inl _ \<Rightarrow> False | Inr _ \<Rightarrow> True))" by code_simp
  then obtain ew' evs where c: "cancel_session_orders [''S1''] CR_CANCEL_ON_DISCONNECT [] ew = Inr (ew', evs)"
    by (auto simp: r(1) split: sum.splits)
  have "''O01010001'' \<notin> all_resting ew'" "''O01010002'' \<in> all_resting ew'"
    unfolding disconnect_clears_the_session [OF c engine_reaches_inv [OF r(2) quiet_venue_inv]]
    using two_bids_rest [OF r(1)] by simp_all
  with c two_bids_rest(1) [OF r(1)] show ?thesis by blast
qed

end
