(* ===== verification/Wire_Text.thy ===== *)
theory Wire_Text
  imports Instruments
begin

section \<open>Text and bytes on the wire\<close>

text \<open>
  What the protocol modules use of the language: \<open>int\<close> on bytes and on text, \<open>find\<close>,
  \<open>rfind\<close> and \<open>split\<close>, the padded numerals of \<open>%\<close> formatting and \<open>repr\<close> of bytes. Bytes
  and text are both lists of characters with code points below 256, which is what the
  latin-1 codec the modules use makes of them. \<open>int\<close> skips the white space of the C
  locale around a numeral, and on text also the two code points above 127 that count as
  white space there; the limit on the number of digits that later releases of the
  language put on \<open>int\<close> is not part of the versions the program is written for.
\<close>

subsection \<open>Integers\<close>

definition is_c_space :: "char \<Rightarrow> bool" where
  "is_c_space c = (let n = (of_char c :: nat) in (9 \<le> n \<and> n \<le> 13) \<or> n = 32)"

definition trim :: "(char \<Rightarrow> bool) \<Rightarrow> string \<Rightarrow> string" where
  "trim f s = rev (dropWhile f (rev (dropWhile f s)))"

definition int_literal :: "string \<Rightarrow> int option" where
  "int_literal s =
     (case take_sign s of (neg, ds) \<Rightarrow>
       (if \<not> underscores_ok False ds then None
        else (let n = int (nat_of_digits (filter (\<lambda>c. c \<noteq> CHR ''_'') ds))
              in Some (if neg then - n else n))))"

definition int_of_bytes :: "string \<Rightarrow> int option" where
  "int_of_bytes s = int_literal (trim is_c_space s)"

definition int_of_str :: "string \<Rightarrow> int option" where
  "int_of_str s = int_literal (trim (\<lambda>c. is_c_space c \<or> (of_char c :: nat) \<in> {133, 160}) s)"

lemma underscores_ok_digits: "\<forall>c \<in> set s. is_digit c \<Longrightarrow> underscores_ok b s \<longleftrightarrow> s \<noteq> [] \<or> b"
proof (induction s arbitrary: b)
  case (Cons c s)
  then have "c \<noteq> CHR ''_''" by (auto simp: is_digit_def)
  with Cons show ?case by auto
qed simp

lemma filter_underscores_digits: "\<forall>c \<in> set s. is_digit c \<Longrightarrow> filter (\<lambda>c. c \<noteq> CHR ''_'') s = s"
  by (induction s) (auto simp: is_digit_def)

lemma take_sign_digits: "\<forall>c \<in> set s. is_digit c \<Longrightarrow> take_sign s = (False, s)"
  by (cases s) (auto simp: take_sign_def is_digit_def)

lemma int_literal_digits:
  assumes "\<forall>c \<in> set s. is_digit c" and "s \<noteq> []"
  shows "int_literal s = Some (int (nat_of_digits s))"
    and "int_literal (CHR ''-'' # s) = Some (- int (nat_of_digits s))"
proof -
  have "take_sign (CHR ''-'' # s) = (True, s)" by (simp add: take_sign_def)
  then show "int_literal s = Some (int (nat_of_digits s))"
    and "int_literal (CHR ''-'' # s) = Some (- int (nat_of_digits s))"
    using assms(2) underscores_ok_digits [OF assms(1)]
    by (simp_all add: int_literal_def take_sign_digits [OF assms(1)] filter_underscores_digits [OF assms(1)])
qed

lemma trim_id: "s = [] \<or> \<not> f (hd s) \<and> \<not> f (last s) \<Longrightarrow> trim f s = s"
proof -
  have d: "t = [] \<or> \<not> f (hd t) \<Longrightarrow> dropWhile f t = t" for t by (cases t) auto
  assume "s = [] \<or> \<not> f (hd s) \<and> \<not> f (last s)"
  then have "dropWhile f s = s" and "dropWhile f (rev s) = rev s"
    by (intro d; cases "s = []"; simp add: hd_rev)+
  then show ?thesis by (simp add: trim_def)
qed

lemma digits_no_space:
  assumes "\<forall>c \<in> set s. is_digit c" "s \<noteq> []"
  shows "trim is_c_space s = s" "trim is_c_space (CHR ''-'' # s) = CHR ''-'' # s"
    "trim (\<lambda>c. is_c_space c \<or> (of_char c :: nat) \<in> {133, 160}) s = s"
    "trim (\<lambda>c. is_c_space c \<or> (of_char c :: nat) \<in> {133, 160}) (CHR ''-'' # s) = CHR ''-'' # s"
proof -
  have "is_digit (hd s)" "is_digit (last s)" using assms by simp_all
  then have "\<not> is_c_space (hd s)" "\<not> is_c_space (last s)" "(of_char (hd s) :: nat) \<notin> {133, 160}"
      "(of_char (last s) :: nat) \<notin> {133, 160}"
    by (auto simp: is_digit_def is_c_space_def Let_def)
  moreover have "\<not> is_c_space (CHR ''-'')" "(of_char (CHR ''-'') :: nat) \<notin> {133, 160}" by code_simp+
  ultimately show "trim is_c_space s = s" "trim is_c_space (CHR ''-'' # s) = CHR ''-'' # s"
    "trim (\<lambda>c. is_c_space c \<or> (of_char c :: nat) \<in> {133, 160}) s = s"
    "trim (\<lambda>c. is_c_space c \<or> (of_char c :: nat) \<in> {133, 160}) (CHR ''-'' # s) = CHR ''-'' # s"
    using assms(2) by (intro trim_id; simp)+
qed

lemma int_of_digits:
  assumes "\<forall>c \<in> set s. is_digit c" "s \<noteq> []"
  shows "int_of_bytes s = Some (int (nat_of_digits s))" "int_of_str s = Some (int (nat_of_digits s))"
    "int_of_bytes (CHR ''-'' # s) = Some (- int (nat_of_digits s))" "int_of_str (CHR ''-'' # s) = Some (- int (nat_of_digits s))"
  using digits_no_space [OF assms] int_literal_digits [OF assms] by (simp_all add: int_of_bytes_def int_of_str_def)

lemma string_of_nat_all [simp]: "\<forall>c \<in> set (string_of_nat n). is_digit c"
  using string_of_nat_digits by blast

lemma int_of_string_of_nat [simp]: "int_of_bytes (string_of_nat n) = Some (int n)" "int_of_str (string_of_nat n) = Some (int n)"
  using int_of_digits [of "string_of_nat n"] by simp_all

lemma int_of_string_of_int [simp]: "int_of_bytes (string_of_int i) = Some i" "int_of_str (string_of_int i) = Some i"
  using int_of_digits [of "string_of_nat (nat (- i))"] by (simp_all add: string_of_int_def)

lemma zero_pad_all: "\<forall>c \<in> set (zero_pad w n). is_digit c" "zero_pad w n \<noteq> []"
  by (auto simp: zero_pad_def Let_def is_digit_def dest: string_of_nat_digits)

lemma int_of_zero_pad [simp]: "int_of_bytes (zero_pad w n) = Some (int n)"
  using int_of_digits(1) [OF zero_pad_all] by simp

subsection \<open>Searching and splitting\<close>

definition starts_with :: "string \<Rightarrow> string \<Rightarrow> bool" where
  "starts_with pat s \<longleftrightarrow> take (length pat) s = pat"

text \<open>\<open>s.find(pat)\<close>, \<open>s.find(pat, i)\<close> and \<open>s.rfind(pat)\<close> of a pattern that is not empty; -1 is \<open>None\<close>.\<close>

fun find_sub :: "string \<Rightarrow> string \<Rightarrow> nat option" where
  "find_sub pat [] = None"
| "find_sub pat (c # cs) =
     (if starts_with pat (c # cs) then Some 0 else map_option Suc (find_sub pat cs))"

definition find_from :: "string \<Rightarrow> nat \<Rightarrow> string \<Rightarrow> nat option" where
  "find_from pat i s = map_option (\<lambda>k. k + i) (find_sub pat (drop i s))"

fun rfind_sub :: "string \<Rightarrow> string \<Rightarrow> nat option" where
  "rfind_sub pat [] = None"
| "rfind_sub pat (c # cs) =
     (case rfind_sub pat cs of Some i \<Rightarrow> Some (Suc i)
      | None \<Rightarrow> (if starts_with pat (c # cs) then Some 0 else None))"

fun split_on :: "char \<Rightarrow> string \<Rightarrow> string list" where
  "split_on d [] = [[]]"
| "split_on d (c # cs) =
     (if c = d then [] # split_on d cs
      else (case split_on d cs of [] \<Rightarrow> [[c]] | p # ps \<Rightarrow> (c # p) # ps))"

definition ends_with_char :: "char \<Rightarrow> string \<Rightarrow> bool" where
  "ends_with_char c s \<longleftrightarrow> s \<noteq> [] \<and> last s = c"

text \<open>\<open>s.partition(c)\<close>: what precedes the first separator, whether there is one, what follows.\<close>

definition partition_at :: "char \<Rightarrow> string \<Rightarrow> string \<times> bool \<times> string" where
  "partition_at c s = (takeWhile (\<lambda>d. d \<noteq> c) s, c \<in> set s, drop 1 (dropWhile (\<lambda>d. d \<noteq> c) s))"

text \<open>\<open>str.isdigit\<close>.\<close>

definition all_digits :: "string \<Rightarrow> bool" where
  "all_digits s \<longleftrightarrow> s \<noteq> [] \<and> (\<forall>c \<in> set s. is_py_digit c)"

lemma starts_with_append [simp]: "starts_with p (p @ s)"
  by (simp add: starts_with_def)

lemma starts_with_Cons: "starts_with (p # ps) (c # cs) \<longleftrightarrow> p = c \<and> starts_with ps cs"
  by (auto simp: starts_with_def)

lemma starts_with_Nil [simp]: "starts_with [] s" "starts_with (p # ps) [] = False"
  by (simp_all add: starts_with_def)

text \<open>A pattern that begins with a delimiter is found right after delimiter-free text.\<close>

lemma find_sub_skip: "p \<notin> set a \<Longrightarrow> find_sub (p # ps) (a @ s) = map_option (\<lambda>k. k + length a) (find_sub (p # ps) s)"
  by (induction a) (auto simp: starts_with_Cons option.map_comp o_def option.map_ident)

lemma find_sub_here: "s \<noteq> [] \<Longrightarrow> starts_with pat s \<Longrightarrow> find_sub pat s = Some 0"
  by (cases s) auto

lemma find_sub_at: "p \<notin> set a \<Longrightarrow> find_sub (p # ps) (a @ (p # ps) @ s) = Some (length a)"
  by (subst find_sub_skip) (simp_all add: find_sub_here starts_with_Cons starts_with_def)

lemma find_sub_None: "p \<notin> set a \<Longrightarrow> find_sub (p # ps) a = None"
  using find_sub_skip [of p a ps "[]"] by simp

lemma find_sub_starts: "find_sub pat s = Some i \<Longrightarrow> starts_with pat (drop i s) \<and> i < length s"
  by (induction pat s arbitrary: i rule: find_sub.induct) (auto split: if_splits)

lemma rfind_sub_append:
  "rfind_sub pat s = Some i \<Longrightarrow> rfind_sub pat (a @ s) = Some (length a + i)"
  by (induction a) auto

lemma rfind_sub_None: "p \<notin> set s \<Longrightarrow> rfind_sub (p # ps) s = None"
  by (induction s) (auto simp: starts_with_Cons)

lemma rfind_sub_last:
  assumes "p \<notin> set s" and "p \<notin> set ps" and "\<not> starts_with ps r" and "p \<notin> set r"
  shows "rfind_sub (p # ps) (a @ (p # ps) @ s @ p # r) = Some (length a)"
proof -
  have "rfind_sub (p # ps) (p # r) = None" using assms by (simp add: rfind_sub_None starts_with_Cons)
  moreover have "rfind_sub (p # ps) (b @ p # r) = None" if "p \<notin> set b" for b
    using that calculation by (induction b) (auto simp: starts_with_Cons)
  ultimately have "rfind_sub (p # ps) ((p # ps) @ s @ p # r) = Some 0"
    using assms by (simp flip: append_assoc add: starts_with_Cons) (simp add: starts_with_def)
  from rfind_sub_append [OF this, of a] show ?thesis by simp
qed

lemma split_on_nonempty [simp]: "split_on d s \<noteq> []"
  by (cases s) (auto split: list.split)

lemma split_on_append: "d \<notin> set a \<Longrightarrow> split_on d (a @ d # s) = a # split_on d s"
  by (induction a) auto

lemma split_on_single: "d \<notin> set a \<Longrightarrow> split_on d a = [a]"
  by (induction a) auto

lemma split_on_records:
  "\<forall>a \<in> set as. d \<notin> set a \<Longrightarrow> split_on d (concat (map (\<lambda>a. a @ [d]) as) @ s) = as @ split_on d s"
  by (induction as) (simp_all add: split_on_append)

subsection \<open>Formatting\<close>

text \<open>\<open>'%0wd' % n\<close>; the sign counts as one of the places.\<close>

definition pad_int :: "nat \<Rightarrow> int \<Rightarrow> string" where
  "pad_int w n = (if n < 0 then CHR ''-'' # zero_pad (w - 1) (nat (- n)) else zero_pad w (nat n))"

definition hex_digit :: "nat \<Rightarrow> char" where
  "hex_digit n = (if n < 10 then char_of (48 + n) else char_of (87 + n))"

definition repr_byte :: "char \<Rightarrow> char \<Rightarrow> string" where
  "repr_byte q c = (let n = (of_char c :: nat) in
     if c = q \<or> n = 92 then [CHR 0x5C, c]
     else if n = 9 then [CHR 0x5C, CHR ''t''] else if n = 10 then [CHR 0x5C, CHR ''n'']
     else if n = 13 then [CHR 0x5C, CHR ''r'']
     else if n < 32 \<or> 127 \<le> n then [CHR 0x5C, CHR ''x'', hex_digit (n div 16), hex_digit (n mod 16)]
     else [c])"

definition repr_bytes :: "string \<Rightarrow> string" where
  "repr_bytes s = (let q = (if CHR 0x27 \<in> set s \<and> CHR 0x22 \<notin> set s then CHR 0x22 else CHR 0x27)
     in CHR ''b'' # q # concat (map (repr_byte q) s) @ [q])"

definition quoted :: "string \<Rightarrow> string" where
  "quoted s = [CHR 0x27] @ s @ [CHR 0x27]"

end
