(* ===== verification/Fix_Message.thy ===== *)
theory Fix_Message
  imports Wire_Text
begin

section \<open>FIX messages (\<open>fix/message.py\<close>)\<close>

text \<open>
  A message is its list of fields in order. \<open>encode\<close>, \<open>extract\<close>, \<open>decode\<close> and the
  framer follow the module, with the two exceptions of the module as the error side of a
  sum, each with the text it is raised with.
\<close>

type_synonym fix_message = "(int \<times> string) list"
type_synonym bytes = string

datatype fix_error = Incomplete string | Malformed string

abbreviation SOH :: char where "SOH \<equiv> CHR 0x01"

abbreviation TAG_BEGIN_STRING :: int where "TAG_BEGIN_STRING \<equiv> 8"
abbreviation TAG_BODY_LENGTH :: int where "TAG_BODY_LENGTH \<equiv> 9"
abbreviation TAG_MSG_TYPE :: int where "TAG_MSG_TYPE \<equiv> 35"
abbreviation TAG_MSG_SEQ_NUM :: int where "TAG_MSG_SEQ_NUM \<equiv> 34"
abbreviation TAG_CHECKSUM :: int where "TAG_CHECKSUM \<equiv> 10"

definition header_order :: "int list" where
  "header_order = [35, 34, 49, 50, 52, 56, 57, 43, 97, 122, 1128]"

subsection \<open>Access and mutation\<close>

definition msg_create :: "string \<Rightarrow> fix_message" where
  "msg_create mt = [(TAG_MSG_TYPE, mt)]"

definition msg_get :: "fix_message \<Rightarrow> int \<Rightarrow> string option" where
  "msg_get m tag = map_of m tag"

definition msg_get_all :: "fix_message \<Rightarrow> int \<Rightarrow> string list" where
  "msg_get_all m tag = map snd (filter (\<lambda>f. fst f = tag) m)"

definition msg_get_int :: "fix_message \<Rightarrow> int \<Rightarrow> int option" where
  "msg_get_int m tag = (case msg_get m tag of None \<Rightarrow> None | Some v \<Rightarrow> int_of_str v)"

definition msg_has :: "fix_message \<Rightarrow> int \<Rightarrow> bool" where
  "msg_has m tag \<longleftrightarrow> (\<exists>f \<in> set m. fst f = tag)"

definition msg_is_empty :: "fix_message \<Rightarrow> int \<Rightarrow> bool" where
  "msg_is_empty m tag \<longleftrightarrow> msg_get m tag = Some []"

definition msg_tags :: "fix_message \<Rightarrow> int list" where
  "msg_tags m = map fst m"

definition msg_type_of :: "fix_message \<Rightarrow> string option" where
  "msg_type_of m = msg_get m TAG_MSG_TYPE"

definition msg_seq_num :: "fix_message \<Rightarrow> int option" where
  "msg_seq_num m = msg_get_int m TAG_MSG_SEQ_NUM"

text \<open>\<open>set\<close> rewrites the first field with the tag in place, or appends one.\<close>

fun msg_set :: "int \<Rightarrow> string \<Rightarrow> fix_message \<Rightarrow> fix_message" where
  "msg_set tag v [] = [(tag, v)]"
| "msg_set tag v ((t, w) # fs) = (if t = tag then (tag, v) # fs else (t, w) # msg_set tag v fs)"

definition msg_set_if :: "int \<Rightarrow> string option \<Rightarrow> fix_message \<Rightarrow> fix_message" where
  "msg_set_if tag v m = (case v of None \<Rightarrow> m | Some w \<Rightarrow> msg_set tag w m)"

definition msg_append :: "int \<Rightarrow> string \<Rightarrow> fix_message \<Rightarrow> fix_message" where
  "msg_append tag v m = m @ [(tag, v)]"

definition msg_remove :: "int \<Rightarrow> fix_message \<Rightarrow> fix_message" where
  "msg_remove tag m = filter (\<lambda>f. fst f \<noteq> tag) m"

definition msg_to_string :: "string \<Rightarrow> fix_message \<Rightarrow> string" where
  "msg_to_string delimiter m =
     (case map (\<lambda>(t, v). string_of_int t @ ''='' @ v) m of [] \<Rightarrow> []
      | p # ps \<Rightarrow> p @ concat (map (\<lambda>q. delimiter @ q) ps))"

lemma msg_get_set: "msg_get (msg_set tag v m) t = (if t = tag then Some v else msg_get m t)"
  by (induction tag v m rule: msg_set.induct) (auto simp: msg_get_def)

lemma msg_has_get: "msg_has m tag \<longleftrightarrow> msg_get m tag \<noteq> None"
  by (auto simp: msg_has_def msg_get_def map_of_eq_None_iff)

subsection \<open>Serialising\<close>

definition structural_tags :: "int set" where
  "structural_tags = {TAG_BEGIN_STRING, TAG_BODY_LENGTH, TAG_CHECKSUM}"

definition header_rank :: "int \<Rightarrow> nat" where
  "header_rank tag = length (takeWhile (\<lambda>t. t \<noteq> tag) header_order)"

text \<open>Python's \<open>sort\<close> is stable, and so is \<open>sort_key\<close>.\<close>

definition sort_fields :: "fix_message \<Rightarrow> fix_message" where
  "sort_fields fs =
     (let kept = filter (\<lambda>f. fst f \<notin> structural_tags) fs
      in sort_key (\<lambda>f. header_rank (fst f)) (filter (\<lambda>f. fst f \<in> set header_order) kept) @
         filter (\<lambda>f. fst f \<notin> set header_order) kept)"

definition field_bytes :: "int \<times> string \<Rightarrow> bytes" where
  "field_bytes f = string_of_int (fst f) @ ''='' @ snd f @ [SOH]"

definition byte_sum :: "bytes \<Rightarrow> nat" where
  "byte_sum s = sum_list (map (of_char :: char \<Rightarrow> nat) s)"

definition encode_body :: "fix_message \<Rightarrow> bytes" where
  "encode_body m = concat (map field_bytes (sort_fields m))"

definition encode_head :: "string \<Rightarrow> fix_message \<Rightarrow> bytes" where
  "encode_head bs m = ''8='' @ bs @ [SOH] @ ''9='' @ string_of_nat (length (encode_body m)) @ [SOH] @ encode_body m"

definition encode :: "string \<Rightarrow> fix_message \<Rightarrow> bytes" where
  "encode bs m = encode_head bs m @ ''10='' @ zero_pad 3 (byte_sum (encode_head bs m) mod 256) @ [SOH]"

subsection \<open>Framing\<close>

definition max_body_length :: int where
  "max_body_length = 16777216"

definition extract_message :: "bytes \<Rightarrow> fix_error + bytes \<times> bytes" where
  "extract_message buffer0 =
     (case (if starts_with ''8='' buffer0 then Some 0 else find_sub ''8='' buffer0) of
        None \<Rightarrow> Inl (if length buffer0 > 64 then Malformed ''no BeginString found in buffered data''
                     else Incomplete ''awaiting BeginString'')
      | Some start \<Rightarrow>
        (let buffer = drop start buffer0 in
         case find_sub (SOH # ''9='') buffer of
           None \<Rightarrow> Inl (if length buffer > 64 then Malformed ''BodyLength (9) not found after BeginString''
                        else Incomplete ''awaiting BodyLength'')
         | Some length_start \<Rightarrow>
            (case find_from [SOH] (length_start + 3) buffer of
               None \<Rightarrow> Inl (Incomplete ''awaiting end of BodyLength'')
             | Some length_end \<Rightarrow>
                (let raw_length = take (length_end - (length_start + 3)) (drop (length_start + 3) buffer) in
                 case int_of_bytes raw_length of
                   None \<Rightarrow> Inl (Malformed (''BodyLength (9) is not an integer: '' @ repr_bytes raw_length))
                 | Some body_length \<Rightarrow>
                    (if body_length < 0 \<or> body_length > max_body_length
                     then Inl (Malformed (''BodyLength (9) out of range: '' @ string_of_int body_length))
                     else (let checksum_start = length_end + 1 + nat body_length;
                               message_end = checksum_start + 7
                           in if length buffer < message_end then Inl (Incomplete ''awaiting message body'')
                              else if take 3 (drop checksum_start buffer) \<noteq> ''10=''
                              then Inl (Malformed ''CheckSum (10) not at the offset BodyLength implies'')
                              else Inr (take message_end buffer, drop message_end buffer)))))))"

subsection \<open>Parsing\<close>

text \<open>One chunk between delimiters, and all of them; empty chunks are passed over.\<close>

definition decode_field :: "bytes \<Rightarrow> fix_error + int \<times> string" where
  "decode_field chunk =
     (case find_sub ''='' chunk of
        None \<Rightarrow> Inl (Malformed (''field without '' @ quoted ''='' @ '': '' @ repr_bytes chunk))
      | Some separator \<Rightarrow>
         (if separator = 0 then Inl (Malformed (''field without '' @ quoted ''='' @ '': '' @ repr_bytes chunk))
          else (case int_of_bytes (take separator chunk) of
                  None \<Rightarrow> Inl (Malformed (''non-numeric tag: '' @ repr_bytes (take separator chunk)))
                | Some tag \<Rightarrow>
                    (if tag \<le> 0 then Inl (Malformed (''invalid tag number: '' @ string_of_int tag))
                     else Inr (tag, drop (Suc separator) chunk)))))"

fun decode_fields :: "bytes list \<Rightarrow> fix_error + fix_message" where
  "decode_fields [] = Inr []"
| "decode_fields (chunk # chunks) =
     (if chunk = [] then decode_fields chunks
      else (case decode_field chunk of Inl e \<Rightarrow> Inl e
            | Inr f \<Rightarrow> (case decode_fields chunks of Inl e \<Rightarrow> Inl e | Inr fs \<Rightarrow> Inr (f # fs))))"

definition check_checksum :: "bytes \<Rightarrow> nat \<Rightarrow> fix_error option" where
  "check_checksum raw checksum_start =
     (let expected = byte_sum (take (checksum_start + 1) raw) mod 256;
          received = take 3 (drop (checksum_start + 4) raw)
      in case int_of_bytes received of
           None \<Rightarrow> Some (Malformed (''CheckSum (10) is not numeric: '' @ repr_bytes received))
         | Some v \<Rightarrow>
             (if v \<noteq> int expected
              then Some (Malformed (''CheckSum (10) mismatch: got '' @ pad_int 3 v @ '', computed '' @ zero_pad 3 expected))
              else None))"

definition decode :: "bytes \<Rightarrow> bool \<Rightarrow> fix_error + fix_message" where
  "decode raw validate_checksum =
     (if \<not> ends_with_char SOH raw then Inl (Malformed ''message does not end with SOH'')
      else (case rfind_sub (SOH # ''10='') raw of
        None \<Rightarrow> Inl (Malformed ''no CheckSum (10) field'')
      | Some checksum_start \<Rightarrow>
         (case (if validate_checksum then check_checksum raw checksum_start else None) of
            Some e \<Rightarrow> Inl e
          | None \<Rightarrow>
             (case decode_fields (split_on SOH raw) of
                Inl e \<Rightarrow> Inl e
              | Inr fs \<Rightarrow>
                 (if fs = [] \<or> fst (hd fs) \<noteq> TAG_BEGIN_STRING
                  then Inl (Malformed ''BeginString (8) must be the first field'')
                  else if \<not> msg_has fs TAG_MSG_TYPE then Inl (Malformed ''MsgType (35) is missing'')
                  else Inr fs)))))"

subsection \<open>The framer\<close>

text \<open>
  \<open>Framer.feed\<close> on the framer's buffer: the raw messages now complete and the buffer that
  remains. A malformed frame raises out of the loop: the messages found before it are
  lost with it, and the buffer stays where the bad frame begins.
\<close>

lemma extract_shrinks: "extract_message buffer = Inr (raw, rest) \<Longrightarrow> length rest < length buffer"
  by (auto simp: extract_message_def Let_def split: option.splits if_splits)

function frame_loop :: "bytes \<Rightarrow> (fix_error \<times> bytes) + bytes list \<times> bytes" where
  "frame_loop buffer =
     (if buffer = [] then Inr ([], [])
      else (case extract_message buffer of
              Inl (Incomplete t) \<Rightarrow> Inr ([], buffer)
            | Inl (Malformed t) \<Rightarrow> Inl (Malformed t, buffer)
            | Inr (raw, rest) \<Rightarrow>
                (case frame_loop rest of Inl e \<Rightarrow> Inl e | Inr (raws, left) \<Rightarrow> Inr (raw # raws, left))))"
  by pat_completeness auto
termination
  by (relation "measure length") (auto dest: extract_shrinks)

declare frame_loop.simps [simp del]

definition framer_feed :: "bytes \<Rightarrow> bytes \<Rightarrow> (fix_error \<times> bytes) + bytes list \<times> bytes" where
  "framer_feed buffer chunk = frame_loop (buffer @ chunk)"

text \<open>The stream delivered in pieces, to any framer that works on a buffer.\<close>

fun feed_with :: "(bytes \<Rightarrow> 'e + bytes list \<times> bytes) \<Rightarrow> bytes \<Rightarrow> bytes list \<Rightarrow> 'e + bytes list \<times> bytes" where
  "feed_with loop buffer [] = Inr ([], buffer)"
| "feed_with loop buffer (c # cs) =
     (case loop (buffer @ c) of Inl e \<Rightarrow> Inl e
      | Inr (raws, left) \<Rightarrow> (case feed_with loop left cs of Inl e \<Rightarrow> Inl e
          | Inr (raws', left') \<Rightarrow> Inr (raws @ raws', left')))"

end
