(* ===== verification/Fix_Dictionary.thy ===== *)
theory Fix_Dictionary
  imports Fix_Message
begin

section \<open>Dialects and their validation (\<open>fix/dictionary.py\<close>)\<close>

text \<open>
  A dialect is its fields by tag, its message definitions by type and the tags every
  message may carry. \<open>None\<close> of the code's checks is \<open>None\<close> here; a failure carries the
  reject reason, the tag it names and the text.
\<close>

record failure =
  fa_reason :: int
  fa_tag :: "int option"
  fa_text :: string

definition fail_with :: "int \<Rightarrow> int option \<Rightarrow> string \<Rightarrow> failure option" where
  "fail_with reason tag t = Some \<lparr>fa_reason = reason, fa_tag = tag, fa_text = t\<rparr>"

datatype field_type =
    FT_INT | FT_CHAR | FT_STRING | FT_BOOLEAN | FT_QTY | FT_PRICE | FT_AMT | FT_UTC_TIMESTAMP | FT_LOCAL_DATE | FT_MULTI

record field_def =
  fd_tag :: int
  fd_name :: string
  fd_type :: field_type
  fd_values :: "string list option"
  fd_max_length :: "nat option"
  fd_max_digits :: "nat option"
  fd_max_decimals :: "nat option"

text \<open>\<open>frozenset(values) if values else None\<close>.\<close>

definition make_field :: "int \<Rightarrow> string \<Rightarrow> field_type \<Rightarrow> string list option \<Rightarrow> nat option \<Rightarrow> nat option \<Rightarrow> nat option \<Rightarrow> field_def" where
  "make_field tag name ty values max_len digits decimals =
     \<lparr>fd_tag = tag, fd_name = name, fd_type = ty,
      fd_values = (if values = Some [] then None else values),
      fd_max_length = max_len, fd_max_digits = digits, fd_max_decimals = decimals\<rparr>"

definition tag_text :: "field_def \<Rightarrow> string" where
  "tag_text f = fd_name f @ '' ('' @ string_of_int (fd_tag f) @ '')''"

definition format_failure :: "field_def \<Rightarrow> string \<Rightarrow> failure option" where
  "format_failure f expected = fail_with 6 (Some (fd_tag f)) (tag_text f @ '' must be '' @ expected)"

definition drop_sign :: "string \<Rightarrow> string" where
  "drop_sign v = (case v of c # cs \<Rightarrow> (if c = CHR ''-'' \<or> c = CHR ''+'' then cs else v) | [] \<Rightarrow> v)"

definition is_integer_text :: "string \<Rightarrow> bool" where
  "is_integer_text v \<longleftrightarrow> all_digits (drop_sign v)"

definition check_numeric :: "field_def \<Rightarrow> string \<Rightarrow> failure option" where
  "check_numeric f value =
     (let body = drop_sign value in
      if body = [] then format_failure f ''a number''
      else case partition_at (CHR ''.'') body of (whole, dotted, fraction) \<Rightarrow>
        (if dotted \<and> CHR ''.'' \<in> set fraction then format_failure f ''a number''
         else if \<not> all_digits whole \<and> whole \<noteq> [] then format_failure f ''a number''
         else if fraction \<noteq> [] \<and> \<not> all_digits fraction then format_failure f ''a number''
         else if whole = [] \<and> fraction = [] then format_failure f ''a number''
         else if (case fd_max_digits f of None \<Rightarrow> False | Some d \<Rightarrow> length (dropWhile (\<lambda>c. c = CHR ''0'') whole) > d)
         then fail_with 5 (Some (fd_tag f)) (tag_text f @ '' allows at most '' @ string_of_nat (the (fd_max_digits f)) @ '' whole digits'')
         else if (case fd_max_decimals f of None \<Rightarrow> False | Some d \<Rightarrow> length fraction > d)
         then fail_with 5 (Some (fd_tag f)) (tag_text f @ '' allows at most '' @ string_of_nat (the (fd_max_decimals f)) @ '' decimal places'')
         else None))"

definition check_timestamp :: "field_def \<Rightarrow> string \<Rightarrow> failure option" where
  "check_timestamp f value =
     (let places = (case fd_max_decimals f of None \<Rightarrow> 3 | Some d \<Rightarrow> if d = 0 then 3 else d);
          bad = format_failure f (''YYYYMMDD-HH:MM:SS[.'' @ replicate places (CHR ''s'') @ '']'') in
      if length value < 17 \<or> value ! 8 \<noteq> CHR ''-'' then bad
      else case partition_at (CHR ''-'') value of (date, _, clock) \<Rightarrow>
        (if \<not> all_digits date \<or> length date \<noteq> 8 then bad
         else case partition_at (CHR ''.'') clock of (seconds, separator, fraction) \<Rightarrow>
           (let parts = split_on (CHR '':'') seconds in
            if length parts \<noteq> 3 \<or> \<not> (\<forall>p \<in> set parts. all_digits p \<and> length p = 2) then bad
            else if separator \<and> (\<not> all_digits fraction \<or> \<not> (1 \<le> length fraction \<and> length fraction \<le> places)) then bad
            else if \<not> separator \<and> length value \<noteq> 17 then bad
            else None)))"

definition type_check :: "field_def \<Rightarrow> string \<Rightarrow> failure option" where
  "type_check f value =
     (case fd_type f of
        FT_INT \<Rightarrow> (if is_integer_text value then None else format_failure f ''an integer'')
      | FT_CHAR \<Rightarrow> (if length value = 1 then None else format_failure f ''a single character'')
      | FT_BOOLEAN \<Rightarrow> (if value \<in> {''Y'', ''N''} then None else format_failure f ''Y or N'')
      | FT_QTY \<Rightarrow> check_numeric f value
      | FT_PRICE \<Rightarrow> check_numeric f value
      | FT_AMT \<Rightarrow> check_numeric f value
      | FT_UTC_TIMESTAMP \<Rightarrow> check_timestamp f value
      | _ \<Rightarrow> None)"

definition unsupported :: "field_def \<Rightarrow> string \<Rightarrow> failure option" where
  "unsupported f part = fail_with 5 (Some (fd_tag f)) (tag_text f @ '' has unsupported value '' @ quoted part)"

definition check_values :: "field_def \<Rightarrow> string \<Rightarrow> failure option" where
  "check_values f value =
     (case fd_values f of None \<Rightarrow> None
      | Some vs \<Rightarrow>
          (if fd_type f = FT_MULTI
           then (case find (\<lambda>part. part \<noteq> [] \<and> part \<notin> set vs) (split_on (CHR '' '') value) of
                   None \<Rightarrow> None | Some part \<Rightarrow> unsupported f part)
           else if value \<notin> set vs then unsupported f value else None))"

definition validate_field :: "field_def \<Rightarrow> string \<Rightarrow> failure option" where
  "validate_field f value =
     (if value = [] then fail_with 4 (Some (fd_tag f)) (tag_text f @ '' has no value'')
      else case type_check f value of Some e \<Rightarrow> Some e
      | None \<Rightarrow>
         (if (case fd_max_length f of None \<Rightarrow> False | Some n \<Rightarrow> length value > n)
          then fail_with 5 (Some (fd_tag f)) (tag_text f @ '' exceeds '' @ string_of_nat (the (fd_max_length f)) @ '' characters'')
          else check_values f value))"

subsection \<open>Messages and the dictionary\<close>

record message_def =
  md_msg_type :: string
  md_name :: string
  md_required :: "int list"
  md_optional :: "int list"
  md_inbound :: bool

record dictionary =
  di_fields :: "(int \<times> field_def) list"
  di_messages :: "(string \<times> message_def) list"
  di_header :: "int list"
  di_trailer :: "int list"

text \<open>The constructor files fields and messages one after the other; the last of a key stays.\<close>

definition make_dictionary :: "field_def list \<Rightarrow> message_def list \<Rightarrow> int list \<Rightarrow> int list \<Rightarrow> dictionary" where
  "make_dictionary fs ms header trailer =
     \<lparr>di_fields = fold (\<lambda>f d. AList.update (fd_tag f) f d) fs [],
      di_messages = fold (\<lambda>m d. AList.update (md_msg_type m) m d) ms [],
      di_header = header, di_trailer = TAG_CHECKSUM # trailer\<rparr>"

definition allowed_tag :: "dictionary \<Rightarrow> message_def \<Rightarrow> int \<Rightarrow> bool" where
  "allowed_tag d md tag \<longleftrightarrow> tag \<in> set (md_required md) \<or> tag \<in> set (md_optional md) \<or>
     tag \<in> set (di_header d) \<or> tag \<in> set (di_trailer d) \<or> tag \<in> structural_tags"

text \<open>The pass over the fields, and the search for a required tag that was not seen.\<close>

fun validate_fields :: "dictionary \<Rightarrow> message_def \<Rightarrow> string \<Rightarrow> bool \<Rightarrow> fix_message \<Rightarrow> failure option" where
  "validate_fields d md mt unknown [] = None"
| "validate_fields d md mt unknown ((tag, value) # rest) =
     (if tag \<in> structural_tags then validate_fields d md mt unknown rest
      else (case map_of (di_fields d) tag of
         None \<Rightarrow>
           (if unknown then fail_with 0 (Some tag) (''tag '' @ string_of_int tag @ '' is not defined'')
            else validate_fields d md mt unknown rest)
       | Some f \<Rightarrow>
           (if unknown \<and> \<not> allowed_tag d md tag
            then fail_with 2 (Some tag) (fd_name f @ '' ('' @ string_of_int tag @ '') is not defined for MsgType '' @ quoted mt)
            else (case validate_field f value of Some e \<Rightarrow> Some e
                  | None \<Rightarrow> validate_fields d md mt unknown rest))))"

definition check_required :: "dictionary \<Rightarrow> message_def \<Rightarrow> string \<Rightarrow> fix_message \<Rightarrow> failure option" where
  "check_required d md mt m =
     (case find (\<lambda>tag. \<not> (msg_has m tag \<and> tag \<notin> structural_tags)) (sort (remdups (md_required md))) of
        None \<Rightarrow> None
      | Some tag \<Rightarrow> fail_with 1 (Some tag)
          ((case map_of (di_fields d) tag of None \<Rightarrow> ''tag'' | Some f \<Rightarrow> fd_name f) @ '' ('' @ string_of_int tag @
           '') is required for MsgType '' @ quoted mt))"

definition dictionary_validate :: "dictionary \<Rightarrow> bool \<Rightarrow> fix_message \<Rightarrow> failure option" where
  "dictionary_validate d unknown m =
     (let mt = show_opt (msg_type_of m) in
      case (case msg_type_of m of None \<Rightarrow> None | Some t \<Rightarrow> map_of (di_messages d) t) of
        None \<Rightarrow> fail_with 11 None (''MsgType (35) '' @ quoted mt @ '' is not supported'')
      | Some md \<Rightarrow>
         (if \<not> md_inbound md
          then fail_with 11 None (''MsgType (35) '' @ quoted mt @ '' cannot be sent to the venue'')
          else (case validate_fields d md mt unknown m of Some e \<Rightarrow> Some e
                | None \<Rightarrow> check_required d md mt m)))"

subsection \<open>What a clean message is\<close>

lemma fail_with_Some [simp]: "fail_with r t x \<noteq> None" "format_failure f e \<noteq> None" "unsupported f p \<noteq> None"
  by (simp_all add: fail_with_def format_failure_def unsupported_def)

definition field_clean :: "dictionary \<Rightarrow> message_def \<Rightarrow> bool \<Rightarrow> int \<times> string \<Rightarrow> bool" where
  "field_clean d md unknown f \<longleftrightarrow> fst f \<in> structural_tags \<or>
     (case map_of (di_fields d) (fst f) of None \<Rightarrow> \<not> unknown
      | Some fd \<Rightarrow> (unknown \<longrightarrow> allowed_tag d md (fst f)) \<and> validate_field fd (snd f) = None)"

lemma validate_fields_clean:
  "validate_fields d md mt unknown m = None \<longleftrightarrow> (\<forall>f \<in> set m. field_clean d md unknown f)"
proof (induction m)
  case (Cons f fs)
  obtain tag v where f: "f = (tag, v)" by (cases f)
  have "validate_fields d md mt unknown (f # fs) = None \<longleftrightarrow>
      field_clean d md unknown f \<and> validate_fields d md mt unknown fs = None"
    by (cases "tag \<in> structural_tags"; cases "map_of (di_fields d) tag"; cases unknown)
      (simp_all add: f field_clean_def split: option.split)
  with Cons show ?case by simp
qed simp

lemma find_SomeD: "find P xs = Some x \<Longrightarrow> x \<in> set xs \<and> P x"
  by (induction xs) (auto split: if_splits)

lemma check_required_clean:
  "check_required d md mt m = None \<longleftrightarrow> (\<forall>tag \<in> set (md_required md). msg_has m tag \<and> tag \<notin> structural_tags)"
  by (auto simp: check_required_def find_None_iff dest!: find_SomeD split: option.splits)

lemma dictionary_validate_clean:
  "dictionary_validate d unknown m = None \<longleftrightarrow>
   (\<exists>mt md. msg_type_of m = Some mt \<and> map_of (di_messages d) mt = Some md \<and> md_inbound md \<and>
      (\<forall>f \<in> set m. field_clean d md unknown f) \<and>
      (\<forall>tag \<in> set (md_required md). msg_has m tag \<and> tag \<notin> structural_tags))"
proof (cases "msg_type_of m")
  case None
  then show ?thesis by (simp add: dictionary_validate_def)
next
  case (Some mt)
  show ?thesis
  proof (cases "map_of (di_messages d) mt")
    case None
    with Some show ?thesis by (simp add: dictionary_validate_def Let_def)
  next
    case md: (Some md)
    have "dictionary_validate d unknown m = None \<longleftrightarrow> md_inbound md \<and>
        validate_fields d md (show_opt (Some mt)) unknown m = None \<and> check_required d md (show_opt (Some mt)) m = None"
      by (simp add: dictionary_validate_def Let_def Some md split: option.split)
    then show ?thesis by (simp add: validate_fields_clean check_required_clean Some md)
  qed
qed

end
