(* ===== verification/Fix_Store.thy ===== *)
theory Fix_Store
  imports Fix_Message
begin

section \<open>Sequence numbers and sent messages (\<open>fix/store.py\<close>)\<close>

text \<open>
  The memory store is two counters and a dictionary from sequence number to raw message.
  The file store keeps the same in a directory: its log and its state file are explicit
  contents here, and the object's dictionary holds offsets into the log. Opening a file,
  seeking and reading a length are functions on the contents; what the state file holds
  is what \<open>json.load\<close> makes of it. Errors of the operating system, which the code only
  logs, are not modelled.
\<close>

record mem_store =
  st_next_out :: int
  st_next_in :: int
  st_messages :: "(int \<times> bytes) list"

definition empty_store :: mem_store where
  "empty_store = \<lparr>st_next_out = 1, st_next_in = 1, st_messages = []\<rparr>"

definition mem_set_next_out :: "int \<Rightarrow> mem_store \<Rightarrow> mem_store" where
  "mem_set_next_out v s = s\<lparr>st_next_out := v\<rparr>"

definition mem_set_next_in :: "int \<Rightarrow> mem_store \<Rightarrow> mem_store" where
  "mem_set_next_in v s = s\<lparr>st_next_in := v\<rparr>"

definition mem_store_outbound :: "int \<Rightarrow> bytes \<Rightarrow> mem_store \<Rightarrow> mem_store" where
  "mem_store_outbound seq raw s = s\<lparr>st_messages := AList.update seq raw (st_messages s)\<rparr>"

text \<open>An end of 0 or \<open>None\<close> stands for the highest stored number, when there is one.\<close>

definition mem_get_outbound :: "int \<Rightarrow> int option \<Rightarrow> mem_store \<Rightarrow> (int \<times> bytes) list" where
  "mem_get_outbound begin_no end_no s =
     (let keys = map fst (st_messages s);
          upper = (if end_no \<in> {Some 0, None} \<and> keys \<noteq> [] then Max (set keys)
                   else (case end_no of None \<Rightarrow> 0 | Some e \<Rightarrow> e))
      in map (\<lambda>seq. (seq, the (map_of (st_messages s) seq)))
           (filter (\<lambda>seq. begin_no \<le> seq \<and> seq \<le> upper) (sort keys)))"

definition mem_reset :: "mem_store \<Rightarrow> mem_store" where
  "mem_reset s = s\<lparr>st_next_out := 1, st_next_in := 1, st_messages := []\<rparr>"

subsection \<open>The file store\<close>

datatype state_file = Absent | Unreadable | State "int option" "int option"

record file_store =
  fs_next_out :: int
  fs_next_in :: int
  fs_offsets :: "(int \<times> nat \<times> int) list"
  fs_log :: bytes
  fs_state :: state_file
  fs_open :: bool

definition new_file_store :: "bytes \<Rightarrow> state_file \<Rightarrow> file_store" where
  "new_file_store contents state = \<lparr>fs_next_out = 1, fs_next_in = 1, fs_offsets = [], fs_log = contents,
     fs_state = state, fs_open = False\<rparr>"

text \<open>\<open>handle.seek(offset); handle.read(length)\<close>; a negative length reads to the end.\<close>

definition file_read :: "bytes \<Rightarrow> nat \<Rightarrow> int \<Rightarrow> bytes" where
  "file_read contents off len = (if len < 0 then drop off contents else take (nat len) (drop off contents))"

definition read_line :: "bytes \<Rightarrow> bytes" where
  "read_line s = (case find_sub ''\<newline>'' s of None \<Rightarrow> s | Some i \<Rightarrow> take (Suc i) s)"

fun words_from :: "string \<Rightarrow> string \<Rightarrow> string list" where
  "words_from w [] = (if w = [] then [] else [w])"
| "words_from w (c # cs) =
     (if is_c_space c then (if w = [] then words_from [] cs else w # words_from [] cs)
      else words_from (w @ [c]) cs)"

text \<open>\<open>header.split()\<close> into two parts, both integers; anything else is a \<open>ValueError\<close>.\<close>

definition parse_header :: "bytes \<Rightarrow> (int \<times> int) option" where
  "parse_header header =
     (case words_from [] header of
        [seq_text, length_text] \<Rightarrow>
          (case (int_of_bytes seq_text, int_of_bytes length_text) of
             (Some seq, Some len) \<Rightarrow> Some (seq, len) | _ \<Rightarrow> None)
      | _ \<Rightarrow> None)"

lemma read_line_nonempty: "s \<noteq> [] \<Longrightarrow> read_line s \<noteq> []"
  by (auto simp: read_line_def split: option.split)

text \<open>\<open>_index_log\<close> over what is left of the file, at a position.\<close>

function index_loop :: "nat \<Rightarrow> bytes \<Rightarrow> (int \<times> nat \<times> int) list \<Rightarrow> (int \<times> nat \<times> int) list" where
  "index_loop pos rest acc =
     (if rest = [] then acc
      else (let header = read_line rest; after = drop (length header) rest; off = pos + length header in
            case parse_header header of None \<Rightarrow> acc
            | Some (seq, len) \<Rightarrow>
               (let body = file_read after 0 len in
                if int (length body) < len then acc
                else index_loop (off + length body + 1) (drop (length body + 1) after)
                       (AList.update seq (off, len) acc))))"
  by pat_completeness auto
termination
proof (relation "measure (\<lambda>(pos, rest, acc). length rest)")
  fix pos acc header after off x a b body and rest :: bytes
  assume "rest \<noteq> []" "header = read_line rest" "after = drop (length header) rest"
  moreover from this have "header \<noteq> []" by (simp add: read_line_nonempty)
  ultimately show "((off + length body + 1, drop (length body + 1) after, AList.update a (off, b) acc), pos, rest, acc)
      \<in> measure (\<lambda>(pos, rest, acc). length rest)"
    by auto
qed simp

declare index_loop.simps [simp del]

definition index_log :: "bytes \<Rightarrow> (int \<times> nat \<times> int) list" where
  "index_log contents = index_loop 0 contents []"

definition load_state :: "file_store \<Rightarrow> file_store" where
  "load_state f =
     (case fs_state f of Absent \<Rightarrow> f | Unreadable \<Rightarrow> f
      | State o_no i_no \<Rightarrow> f\<lparr>fs_next_out := (case o_no of None \<Rightarrow> 1 | Some v \<Rightarrow> v),
                             fs_next_in := (case i_no of None \<Rightarrow> 1 | Some v \<Rightarrow> v)\<rparr>)"

definition save_state :: "file_store \<Rightarrow> file_store" where
  "save_state f = f\<lparr>fs_state := State (Some (fs_next_out f)) (Some (fs_next_in f))\<rparr>"

definition open_store :: "file_store \<Rightarrow> file_store" where
  "open_store f = (if fs_open f then f
     else (load_state f)\<lparr>fs_offsets := index_log (fs_log f), fs_open := True\<rparr>)"

definition close_store :: "file_store \<Rightarrow> file_store" where
  "close_store f = f\<lparr>fs_open := False\<rparr>"

definition file_set_next_out :: "int \<Rightarrow> file_store \<Rightarrow> file_store" where
  "file_set_next_out v f = save_state (f\<lparr>fs_next_out := v\<rparr>)"

definition file_set_next_in :: "int \<Rightarrow> file_store \<Rightarrow> file_store" where
  "file_set_next_in v f = save_state (f\<lparr>fs_next_in := v\<rparr>)"

definition record_header :: "int \<Rightarrow> bytes \<Rightarrow> bytes" where
  "record_header seq raw = string_of_int seq @ '' '' @ string_of_nat (length raw) @ ''\<newline>''"

definition log_record :: "int \<times> bytes \<Rightarrow> bytes" where
  "log_record r = record_header (fst r) (snd r) @ snd r @ ''\<newline>''"

definition file_store_outbound :: "int \<Rightarrow> bytes \<Rightarrow> file_store \<Rightarrow> exn + file_store" where
  "file_store_outbound seq raw f =
     (if \<not> fs_open f then Inl RuntimeError
      else (let off = length (fs_log f) + length (record_header seq raw)
            in Inr (f\<lparr>fs_log := fs_log f @ log_record (seq, raw),
                      fs_offsets := AList.update seq (off, int (length raw)) (fs_offsets f)\<rparr>)))"

definition file_get_outbound :: "int \<Rightarrow> int option \<Rightarrow> file_store \<Rightarrow> (int \<times> bytes) list" where
  "file_get_outbound begin_no end_no f =
     (if fs_offsets f = [] then []
      else (let keys = map fst (fs_offsets f);
                upper = (case end_no of None \<Rightarrow> Max (set keys) | Some e \<Rightarrow> (if e = 0 then Max (set keys) else e));
                wanted = filter (\<lambda>seq. begin_no \<le> seq \<and> seq \<le> upper) (sort keys)
            in map (\<lambda>seq. case the (map_of (fs_offsets f) seq) of (off, len) \<Rightarrow> (seq, file_read (fs_log f) off len)) wanted))"

definition file_reset :: "file_store \<Rightarrow> file_store" where
  "file_reset f = save_state (f\<lparr>fs_next_out := 1, fs_next_in := 1, fs_offsets := [], fs_log := [], fs_open := True\<rparr>)"

text \<open>\<open>str.isalnum\<close> of one character, and the name of a session's directory under its root.\<close>

definition is_py_alnum :: "char \<Rightarrow> bool" where
  "is_py_alnum c = (let n = (of_char c :: nat)
     in is_digit c \<or> (65 \<le> n \<and> n \<le> 90) \<or> (97 \<le> n \<and> n \<le> 122) \<or>
        n \<in> {170, 178, 179, 181, 185, 186, 188, 189, 190} \<or> (192 \<le> n \<and> n \<noteq> 215 \<and> n \<noteq> 247))"

definition safe_text :: "string \<Rightarrow> string" where
  "safe_text t = map (\<lambda>c. if is_py_alnum c \<or> c \<in> {CHR ''.'', CHR ''_'', CHR ''-''} then c else CHR ''_'') t"

definition session_directory :: "string \<Rightarrow> string \<Rightarrow> string" where
  "session_directory sender target = safe_text sender @ ''-'' @ safe_text target"

end
