(* ===== verification/Fix_Session.thy ===== *)
theory Fix_Session
  imports Fix_Dictionary Fix_Store
begin

section \<open>The FIX session (\<open>fix/session.py\<close>, \<open>fix/codec.py\<close>)\<close>

text \<open>
  The codec, the dialect, the configuration and the gateway's callbacks are fixed parts of
  a session, with the reading of the clock during one input (nanoseconds for the monotonic
  clock). What a session changes is another record: its state, the framer's buffer, the
  queue of messages above a gap, its timers, its store and the gateway's own state. What
  it does to the outside is a trace: bytes given to the transport, the connection closed,
  and messages handed to the gateway. A gateway acts on the session by sending messages,
  so a callback returns the messages it sends. Recording for the audit is left out.
\<close>

datatype session_state = DISCONNECTED | AWAITING_LOGON | ACTIVE | AWAITING_LOGOUT

datatype session_event = Transmitted bytes | Closed | Handed fix_message

record fix_codec =
  cd_name :: string
  cd_frame :: "bytes \<Rightarrow> (fix_error \<times> bytes) + bytes list \<times> bytes"
  cd_decode :: "bytes \<Rightarrow> bool \<Rightarrow> fix_error + fix_message"
  cd_encode :: "fix_message \<Rightarrow> exn + bytes"
  cd_is_admin :: "bytes \<Rightarrow> bool"

record session_config =
  sc_sender :: string
  sc_target :: string
  sc_heartbeat :: int
  sc_reset_on_logon :: bool
  sc_validate_unknown :: bool
  sc_next_expected :: bool
  sc_allow_reset :: bool
  sc_appl_ver :: "string option"
  sc_default_appl_ver :: "string option"
  sc_requires_encrypt :: bool
  sc_requires_heart_bt :: bool

record 'a senv =
  sv_config :: session_config
  sv_codec :: fix_codec
  sv_dict :: dictionary
  sv_on_logon :: "'a \<Rightarrow> fix_message list \<times> 'a"
  sv_on_logout :: "string \<Rightarrow> 'a \<Rightarrow> fix_message list \<times> 'a"
  sv_on_message :: "fix_message \<Rightarrow> 'a \<Rightarrow> fix_message list \<times> failure option \<times> 'a"
  sv_timestamp :: string
  sv_now :: int

record 'a session =
  se_state :: session_state
  se_connected :: bool
  se_heartbeat :: int
  se_buffer :: bytes
  se_pending :: "(int \<times> fix_message) list"
  se_resend_requested :: bool
  se_last_sent :: int
  se_last_received :: int
  se_test_sent :: "int option"
  se_test_id :: nat
  se_store :: mem_store
  se_app :: 'a
  se_trace :: "session_event list"

definition new_session :: "session_config \<Rightarrow> mem_store \<Rightarrow> 'a \<Rightarrow> 'a session" where
  "new_session cfg st app = \<lparr>se_state = DISCONNECTED, se_connected = False, se_heartbeat = sc_heartbeat cfg,
     se_buffer = [], se_pending = [], se_resend_requested = False, se_last_sent = 0, se_last_received = 0,
     se_test_sent = None, se_test_id = 0, se_store = st, se_app = app, se_trace = []\<rparr>"

subsection \<open>The tag=value codec\<close>

definition admin_types :: "string set" where
  "admin_types = {''0'', ''1'', ''2'', ''3'', ''4'', ''5'', ''A''}"

text \<open>\<open>raw[marker + 4:end]\<close>, where an end that is not found is -1 and counts from the back.\<close>

definition is_admin :: "bytes \<Rightarrow> bool" where
  "is_admin raw =
     (case find_sub (SOH # ''35='') raw of None \<Rightarrow> False
      | Some marker \<Rightarrow>
          (let end_at = (case find_from [SOH] (marker + 1) raw of None \<Rightarrow> length raw - 1 | Some i \<Rightarrow> i)
           in take (end_at - (marker + 4)) (drop (marker + 4) raw) \<in> admin_types))"

definition tag_value_codec :: "string \<Rightarrow> fix_codec" where
  "tag_value_codec bs = \<lparr>cd_name = ''fix'', cd_frame = frame_loop, cd_decode = decode,
     cd_encode = (\<lambda>m. Inr (encode bs m)), cd_is_admin = is_admin\<rparr>"

subsection \<open>Sending\<close>

definition set_int :: "int \<Rightarrow> int \<Rightarrow> fix_message \<Rightarrow> fix_message" where
  "set_int tag i m = msg_set tag (string_of_int i) m"

definition set_unless :: "int \<Rightarrow> string \<Rightarrow> fix_message \<Rightarrow> fix_message" where
  "set_unless tag v m = (if msg_has m tag then m else msg_set tag v m)"

definition stamp :: "'a senv \<Rightarrow> fix_message \<Rightarrow> fix_message" where
  "stamp env m =
     (let cfg = sv_config env;
          m1 = msg_set 56 (sc_target cfg) (msg_set 49 (sc_sender cfg) m);
          m2 = set_unless 52 (sv_timestamp env) m1
      in case sc_appl_ver cfg of None \<Rightarrow> m2 | Some v \<Rightarrow> (if v = [] then m2 else set_unless 1128 v m2))"

definition emit :: "session_event \<Rightarrow> 'a session \<Rightarrow> 'a session" where
  "emit e s = s\<lparr>se_trace := se_trace s @ [e]\<rparr>"

definition set_next_in :: "int \<Rightarrow> 'a session \<Rightarrow> 'a session" where
  "set_next_in v s = s\<lparr>se_store := mem_set_next_in v (se_store s)\<rparr>"

definition store_sent :: "int \<Rightarrow> bytes \<Rightarrow> 'a session \<Rightarrow> 'a session" where
  "store_sent seq raw s = s\<lparr>se_store := mem_set_next_out (seq + 1) (mem_store_outbound seq raw (se_store s))\<rparr>"

text \<open>
  A message that cannot be encoded is dropped: nothing is stored or sent. The exceptions
  of a codec's \<open>encode\<close> are the two the code catches here, \<open>ValueError\<close> and \<open>KeyError\<close>.
\<close>

definition transmit :: "'a senv \<Rightarrow> bool \<Rightarrow> fix_message \<Rightarrow> 'a session \<Rightarrow> 'a session" where
  "transmit env store m0 s =
     (let m = stamp env m0 in
      case cd_encode (sv_codec env) m of Inl _ \<Rightarrow> s
      | Inr raw \<Rightarrow>
         (let s1 = (if store then store_sent (the (msg_seq_num m)) raw s else s)
          in if se_connected s1 then (emit (Transmitted raw) s1)\<lparr>se_last_sent := sv_now env\<rparr> else s1))"

definition send :: "'a senv \<Rightarrow> fix_message \<Rightarrow> 'a session \<Rightarrow> 'a session" where
  "send env m s = transmit env True (set_int 34 (st_next_out (se_store s)) m) s"

fun send_all :: "'a senv \<Rightarrow> fix_message list \<Rightarrow> 'a session \<Rightarrow> 'a session" where
  "send_all env [] s = s"
| "send_all env (m # ms) s = send_all env ms (send env m s)"

definition send_reject :: "'a senv \<Rightarrow> fix_message \<Rightarrow> failure \<Rightarrow> 'a session \<Rightarrow> 'a session" where
  "send_reject env m f s =
     (let r0 = set_int 45 (case msg_seq_num m of None \<Rightarrow> 0 | Some n \<Rightarrow> n) (msg_create ''3'');
          r1 = msg_set_if 372 (msg_type_of m) r0;
          r2 = (case fa_tag f of None \<Rightarrow> r1 | Some tag \<Rightarrow> set_int 371 tag r1);
          r3 = set_int 373 (fa_reason f) r2
      in send env (if fa_text f = [] then r3 else msg_set 58 (take 255 (fa_text f)) r3) s)"

definition send_logout :: "'a senv \<Rightarrow> string \<Rightarrow> 'a session \<Rightarrow> 'a session" where
  "send_logout env t s = (send env (msg_set 58 t (msg_create ''5'')) s)\<lparr>se_state := AWAITING_LOGOUT\<rparr>"

subsection \<open>The transport\<close>

definition attach :: "'a senv \<Rightarrow> 'a session \<Rightarrow> 'a session" where
  "attach env s = s\<lparr>se_connected := True, se_state := AWAITING_LOGON, se_buffer := [], se_pending := [],
     se_resend_requested := False, se_test_sent := None, se_last_sent := sv_now env, se_last_received := sv_now env\<rparr>"

definition detach :: "'a senv \<Rightarrow> string \<Rightarrow> 'a session \<Rightarrow> 'a session" where
  "detach env reason s =
     (let s1 = s\<lparr>se_connected := False, se_state := DISCONNECTED, se_buffer := [], se_pending := []\<rparr>
      in case sv_on_logout env reason (se_app s1) of (ms, app) \<Rightarrow> send_all env ms (s1\<lparr>se_app := app\<rparr>))"

definition disconnect :: "'a senv \<Rightarrow> string \<Rightarrow> 'a session \<Rightarrow> 'a session" where
  "disconnect env reason s =
     (let s1 = detach env reason s in if se_connected s then emit Closed s1 else s1)"

definition logout_and_disconnect :: "'a senv \<Rightarrow> string \<Rightarrow> 'a session \<Rightarrow> 'a session" where
  "logout_and_disconnect env t s = disconnect env t (send_logout env t s)"

subsection \<open>Resending\<close>

definition gap_fill :: "'a senv \<Rightarrow> int \<Rightarrow> int \<Rightarrow> 'a session \<Rightarrow> 'a session" where
  "gap_fill env seq new_seq s =
     transmit env False (msg_set 122 (sv_timestamp env) (msg_set 43 ''Y'' (set_int 36 new_seq
       (msg_set 123 ''Y'' (set_int 34 seq (msg_create ''4'')))))) s"

definition resend :: "'a senv \<Rightarrow> int \<Rightarrow> bytes \<Rightarrow> 'a session \<Rightarrow> 'a session" where
  "resend env seq raw s =
     (case cd_decode (sv_codec env) raw False of
        Inl _ \<Rightarrow> gap_fill env seq (seq + 1) s
      | Inr m \<Rightarrow>
         (let m1 = msg_set 43 ''Y'' m;
              m2 = (case msg_get m 52 of None \<Rightarrow> m1 | Some t \<Rightarrow> (if t = [] then m1 else msg_set 122 t m1))
          in transmit env False (msg_set 52 (sv_timestamp env) m2) s))"

text \<open>The loop of \<open>replay\<close>: \<open>gap\<close> is where the current run without application messages began.\<close>

fun replay_loop :: "'a senv \<Rightarrow> (int \<times> bytes) list \<Rightarrow> int list \<Rightarrow> int option \<Rightarrow> 'a session \<Rightarrow> 'a session" where
  "replay_loop env stored [] gap s =
     (case gap of None \<Rightarrow> s | Some g \<Rightarrow> gap_fill env g (st_next_out (se_store s)) s)"
| "replay_loop env stored (seq # seqs) gap s =
     (case map_of stored seq of
        None \<Rightarrow> replay_loop env stored seqs (Some (case gap of None \<Rightarrow> seq | Some g \<Rightarrow> g)) s
      | Some raw \<Rightarrow>
         (if cd_is_admin (sv_codec env) raw
          then replay_loop env stored seqs (Some (case gap of None \<Rightarrow> seq | Some g \<Rightarrow> g)) s
          else (let s1 = (case gap of None \<Rightarrow> s | Some g \<Rightarrow> gap_fill env g seq s)
                in replay_loop env stored seqs None (resend env seq raw s1))))"

definition replay_upper :: "int \<Rightarrow> mem_store \<Rightarrow> int" where
  "replay_upper end_no st =
     (let upper = (if end_no \<in> {0, 999999} then st_next_out st - 1 else end_no)
      in if upper \<ge> st_next_out st then st_next_out st - 1 else upper)"

definition replay :: "'a senv \<Rightarrow> int \<Rightarrow> int \<Rightarrow> 'a session \<Rightarrow> 'a session" where
  "replay env begin_no end_no s =
     (let upper = replay_upper end_no (se_store s);
          stored = mem_get_outbound begin_no (Some upper) (se_store s)
      in replay_loop env stored [begin_no .. upper] None s)"

subsection \<open>Sequencing\<close>

definition failure_of :: "int \<Rightarrow> int option \<Rightarrow> string \<Rightarrow> failure" where
  "failure_of reason tag t = \<lparr>fa_reason = reason, fa_tag = tag, fa_text = t\<rparr>"

definition queue_and_request :: "'a senv \<Rightarrow> fix_message \<Rightarrow> int \<Rightarrow> int \<Rightarrow> bool \<Rightarrow> 'a session \<Rightarrow> 'a session" where
  "queue_and_request env m expected received request s =
     (let s1 = s\<lparr>se_pending := AList.update received m (se_pending s)\<rparr> in
      if se_resend_requested s1 then s1
      else (let s2 = s1\<lparr>se_resend_requested := True\<rparr>
            in if \<not> request then s2
               else send env (set_int 16 0 (set_int 7 expected (msg_create ''2''))) s2))"

definition too_low_text :: "int \<Rightarrow> int \<Rightarrow> string" where
  "too_low_text expected received =
     ''MsgSeqNum too low, expecting '' @ string_of_int expected @ '' but received '' @ string_of_int received"

definition gap_fill_flag :: "fix_message \<Rightarrow> bool" where
  "gap_fill_flag m \<longleftrightarrow> msg_get m 123 = Some ''Y''"

definition check_sequence :: "'a senv \<Rightarrow> fix_message \<Rightarrow> 'a session \<Rightarrow> bool \<times> 'a session" where
  "check_sequence env m s =
     (let expected = st_next_in (se_store s) in
      case msg_seq_num m of
        None \<Rightarrow> (False, send_reject env m (failure_of 1 (Some 34) ''MsgSeqNum (34) is missing or not an integer'') s)
      | Some received \<Rightarrow>
         (if received = expected then (True, s)
          else if received > expected
          then (if msg_type_of m = Some ''4'' \<and> \<not> gap_fill_flag m then (True, s)
                else (False, queue_and_request env m expected received True s))
          else if msg_get m 43 = Some ''Y'' then (False, s)
          else if msg_type_of m = Some ''5''
          then (False, disconnect env ''peer logged out with a low sequence number'' s)
          else (False, logout_and_disconnect env (too_low_text expected received) s)))"

text \<open>
  \<open>_on_sequence_reset\<close> up to its own drain of the queue, which the flag asks for.
\<close>

definition on_sequence_reset :: "'a senv \<Rightarrow> fix_message \<Rightarrow> 'a session \<Rightarrow> bool \<times> 'a session" where
  "on_sequence_reset env m s =
     (case msg_get_int m 36 of
        None \<Rightarrow> (False, send_reject env m (failure_of 1 (Some 36) ''NewSeqNo (36) is required'') s)
      | Some new_seq \<Rightarrow>
         (let expected = st_next_in (se_store s) in
          if new_seq < expected
          then (False, send_reject env m (failure_of 5 (Some 36)
                 (''NewSeqNo (36) '' @ string_of_int new_seq @ '' is below the expected sequence number '' @
                  string_of_int expected)) s)
          else (True, set_next_in new_seq s)))"

definition on_logout_message :: "'a senv \<Rightarrow> fix_message \<Rightarrow> 'a session \<Rightarrow> 'a session" where
  "on_logout_message env m s =
     (let t = (case msg_get m 58 of None \<Rightarrow> ''peer logged out'' | Some x \<Rightarrow> if x = [] then ''peer logged out'' else x) in
      if se_state s = AWAITING_LOGOUT then disconnect env t s
      else disconnect env t (send env (msg_set 58 ''logout acknowledged'' (msg_create ''5'')) s))"

definition hand_over :: "'a senv \<Rightarrow> fix_message \<Rightarrow> 'a session \<Rightarrow> 'a session" where
  "hand_over env m s =
     (case sv_on_message env m (se_app s) of (ms, failure, app) \<Rightarrow>
       (let s1 = send_all env ms ((emit (Handed m) s)\<lparr>se_app := app\<rparr>)
        in case failure of None \<Rightarrow> s1 | Some f \<Rightarrow> send_reject env m f s1))"

text \<open>\<open>_dispatch\<close>: the handler of an in-sequence message, and whether it drains the queue itself.\<close>

definition dispatch :: "'a senv \<Rightarrow> fix_message \<Rightarrow> 'a session \<Rightarrow> bool \<times> 'a session" where
  "dispatch env m s0 =
     (let mt = msg_type_of m;
          s = (if mt \<noteq> Some ''4'' then set_next_in (the (msg_seq_num m) + 1) s0 else s0)
      in if mt = Some ''A'' \<or> mt = Some ''0'' \<or> mt = Some ''3'' then (False, s)
         else if mt = Some ''1''
         then (False, send env (msg_set_if 112 (msg_get m 112) (msg_create ''0'')) s)
         else if mt = Some ''2''
         then (False, replay env (case msg_get_int m 7 of None \<Rightarrow> 1 | Some b \<Rightarrow> b)
                        (case msg_get_int m 16 of None \<Rightarrow> 0 | Some e \<Rightarrow> e) s)
         else if mt = Some ''4'' then on_sequence_reset env m s
         else if mt = Some ''5'' then (False, on_logout_message env m s)
         else (False, hand_over env m s))"

text \<open>
  \<open>_drain_pending\<close>, and with it the drain a SequenceReset in the queue starts before the
  outer loop goes on. Every round takes a message off the queue and none puts one on, so
  one more than the queue is long is enough fuel.
\<close>

fun drain :: "nat \<Rightarrow> 'a senv \<Rightarrow> 'a session \<Rightarrow> 'a session" where
  "drain 0 env s = s"
| "drain (Suc n) env s =
     (if se_pending s = [] then s\<lparr>se_resend_requested := False\<rparr>
      else (let expected = st_next_in (se_store s) in
            case map_of (se_pending s) expected of
              None \<Rightarrow> s
            | Some m \<Rightarrow>
               (case dispatch env m (s\<lparr>se_pending := AList.delete expected (se_pending s)\<rparr>) of
                  (again, s1) \<Rightarrow> drain n env (if again then drain n env s1 else s1))))"

definition drain_pending :: "'a senv \<Rightarrow> 'a session \<Rightarrow> 'a session" where
  "drain_pending env s = drain (Suc (length (se_pending s))) env s"

definition dispatch_and_drain :: "'a senv \<Rightarrow> fix_message \<Rightarrow> 'a session \<Rightarrow> 'a session" where
  "dispatch_and_drain env m s =
     (case dispatch env m s of (again, s1) \<Rightarrow>
        drain_pending env (if again then drain_pending env s1 else s1))"

subsection \<open>Logon\<close>

text \<open>
  What refuses a Logon before the sequence numbers are looked at, with the interval it
  asks for; \<open>Inl\<close> is the text of the Logout.
\<close>

definition logon_terms :: "session_config \<Rightarrow> fix_message \<Rightarrow> 'a session \<Rightarrow> string + int" where
  "logon_terms cfg m s =
     (if se_state s = ACTIVE then Inl ''already logged on''
      else if sc_requires_encrypt cfg \<and> msg_get m 98 \<noteq> Some ''0''
      then Inl (''EncryptMethod (98) '' @ show_opt (msg_get m 98) @ '' is not supported'')
      else if sc_requires_heart_bt cfg \<and> (case msg_get_int m 108 of None \<Rightarrow> True | Some i \<Rightarrow> i < 0)
      then Inl ''invalid HeartBtInt (108)''
      else Inr (if sc_requires_heart_bt cfg then the (msg_get_int m 108) else se_heartbeat s))"

definition logon_next_expected :: "session_config \<Rightarrow> fix_message \<Rightarrow> mem_store \<Rightarrow> string + int option" where
  "logon_next_expected cfg m st =
     (if \<not> sc_next_expected cfg then Inr None
      else (case msg_get_int m 789 of
              None \<Rightarrow> Inl ''NextExpectedMsgSeqNum (789) is required on Logon''
            | Some n \<Rightarrow>
                (if n > st_next_out st
                 then Inl (''NextExpectedMsgSeqNum (789) '' @ string_of_int n @ '' is above the next outbound sequence number '' @
                           string_of_int (st_next_out st))
                 else Inr (Some n))))"

definition logon_response :: "session_config \<Rightarrow> int \<Rightarrow> bool \<Rightarrow> int option \<Rightarrow> int \<Rightarrow> fix_message" where
  "logon_response cfg heartbeat reset received expected =
     (let r1 = set_int 108 heartbeat (msg_set 98 ''0'' (msg_create ''A''));
          r2 = (if reset then msg_set 141 ''Y'' r1 else r1);
          r3 = msg_set_if 1137 (sc_default_appl_ver cfg) r2
      in if sc_next_expected cfg
         then msg_set 1409 ''0'' (set_int 789 (if received = Some expected then expected + 1 else expected) r3)
         else r3)"

definition run_on_logon :: "'a senv \<Rightarrow> 'a session \<Rightarrow> 'a session" where
  "run_on_logon env s = (case sv_on_logon env (se_app s) of (ms, app) \<Rightarrow> send_all env ms (s\<lparr>se_app := app\<rparr>))"

text \<open>
  From the reset on. A Logon above the gap is queued behind its own response; one in
  sequence, or without a readable number, sets the next inbound number.
\<close>

definition accept_logon :: "'a senv \<Rightarrow> fix_message \<Rightarrow> bool \<Rightarrow> int option \<Rightarrow> 'a session \<Rightarrow> 'a session" where
  "accept_logon env m reset next_expected s0 =
     (let cfg = sv_config env; received = msg_seq_num m; expected = st_next_in (se_store s0);
          s = s0\<lparr>se_state := ACTIVE\<rparr>; logon_seq = st_next_out (se_store s);
          s1 = send env (logon_response cfg (se_heartbeat s) reset received expected) s;
          s2 = (if (case received of None \<Rightarrow> False | Some r \<Rightarrow> r > expected)
                then queue_and_request env m expected (the received) (\<not> sc_next_expected cfg) s1
                else set_next_in ((case received of None \<Rightarrow> 0 | Some r \<Rightarrow> r) + 1) s1);
          s3 = (case next_expected of None \<Rightarrow> s2
                | Some n \<Rightarrow> (if n < logon_seq then replay env n logon_seq s2 else s2))
      in run_on_logon env s3)"

definition on_logon :: "'a senv \<Rightarrow> fix_message \<Rightarrow> 'a session \<Rightarrow> 'a session" where
  "on_logon env m s =
     (let cfg = sv_config env in
      case logon_terms cfg m s of
        Inl t \<Rightarrow> logout_and_disconnect env t s
      | Inr interval \<Rightarrow>
         (let s1 = s\<lparr>se_heartbeat := interval\<rparr> in
          if msg_get m 141 = Some ''Y'' \<and> \<not> sc_allow_reset cfg
          then logout_and_disconnect env ''ResetSeqNumFlag (141) is not supported on this session'' s1
          else (let reset = (msg_get m 141 = Some ''Y'' \<or> sc_reset_on_logon cfg);
                    s2 = (if reset then s1\<lparr>se_store := mem_reset (se_store s1)\<rparr> else s1)
                in case logon_next_expected cfg m (se_store s2) of
                     Inl t \<Rightarrow> logout_and_disconnect env t s2
                   | Inr next_expected \<Rightarrow>
                      (if (case msg_seq_num m of None \<Rightarrow> False | Some r \<Rightarrow> r < st_next_in (se_store s2))
                       then logout_and_disconnect env (too_low_text (st_next_in (se_store s2)) (the (msg_seq_num m))) s2
                       else accept_logon env m reset next_expected s2))))"

subsection \<open>Inbound messages and bytes\<close>

definition on_message :: "'a senv \<Rightarrow> fix_message \<Rightarrow> 'a session \<Rightarrow> 'a session" where
  "on_message env m s =
     (if se_state s = AWAITING_LOGON \<and> msg_type_of m \<noteq> Some ''A''
      then logout_and_disconnect env ''first message must be a Logon'' s
      else if msg_type_of m = Some ''A'' then on_logon env m s
      else (case check_sequence env m s of
              (True, s1) \<Rightarrow> dispatch_and_drain env m s1
            | (False, s1) \<Rightarrow> s1))"

definition check_comp_ids :: "session_config \<Rightarrow> fix_message \<Rightarrow> failure option" where
  "check_comp_ids cfg m =
     (case (msg_get m 49, msg_get m 56) of
        (Some sender, Some target) \<Rightarrow>
          (if sender \<noteq> sc_target cfg \<or> target \<noteq> sc_sender cfg
           then Some (failure_of 9 None (''unexpected CompIDs: sender '' @ quoted sender @ '', target '' @ quoted target))
           else None)
      | (None, _) \<Rightarrow> Some (failure_of 1 (Some 49) ''SenderCompID (49) and TargetCompID (56) are required'')
      | (_, None) \<Rightarrow> Some (failure_of 1 (Some 56) ''SenderCompID (49) and TargetCompID (56) are required''))"

definition handle_comp_id_failure :: "'a senv \<Rightarrow> fix_message \<Rightarrow> failure \<Rightarrow> 'a session \<Rightarrow> 'a session" where
  "handle_comp_id_failure env m f s =
     (let s1 = (if se_state s = ACTIVE then send_reject env m f s else s)
      in logout_and_disconnect env (fa_text f) s1)"

definition handle_validation_failure :: "'a senv \<Rightarrow> fix_message \<Rightarrow> failure \<Rightarrow> 'a session \<Rightarrow> 'a session" where
  "handle_validation_failure env m f s =
     (if se_state s = AWAITING_LOGON then logout_and_disconnect env (fa_text f) s
      else (let s1 = (if msg_seq_num m = Some (st_next_in (se_store s))
                      then set_next_in (the (msg_seq_num m) + 1) s else s)
            in send_reject env m f s1))"

fun error_text :: "fix_error \<Rightarrow> string" where
  "error_text (Incomplete t) = t"
| "error_text (Malformed t) = t"

definition on_raw_message :: "'a senv \<Rightarrow> bytes \<Rightarrow> 'a session \<Rightarrow> 'a session" where
  "on_raw_message env raw s0 =
     (case cd_decode (sv_codec env) raw True of
        Inl e \<Rightarrow> logout_and_disconnect env (''malformed message: '' @ error_text e) s0
      | Inr m \<Rightarrow>
         (let s = s0\<lparr>se_last_received := sv_now env, se_test_sent := None\<rparr> in
          case check_comp_ids (sv_config env) m of
            Some f \<Rightarrow> handle_comp_id_failure env m f s
          | None \<Rightarrow>
             (case dictionary_validate (sv_dict env) (sc_validate_unknown (sv_config env)) m of
                Some f \<Rightarrow> handle_validation_failure env m f s
              | None \<Rightarrow> on_message env m s)))"

fun on_raws :: "'a senv \<Rightarrow> bytes list \<Rightarrow> 'a session \<Rightarrow> 'a session" where
  "on_raws env [] s = s"
| "on_raws env (raw # raws) s = (if \<not> se_connected s then s else on_raws env raws (on_raw_message env raw s))"

definition on_data :: "'a senv \<Rightarrow> bytes \<Rightarrow> 'a session \<Rightarrow> 'a session" where
  "on_data env chunk s =
     (case cd_frame (sv_codec env) (se_buffer s @ chunk) of
        Inl (e, left) \<Rightarrow> logout_and_disconnect env (''framing error: '' @ error_text e) (s\<lparr>se_buffer := left\<rparr>)
      | Inr (raws, left) \<Rightarrow> on_raws env raws (s\<lparr>se_buffer := left\<rparr>))"

subsection \<open>Timers\<close>

text \<open>
  The interval is in seconds, the readings of the monotonic clock in nanoseconds, and the
  grace on the interval is the factor 1.2.
\<close>

definition second :: int where "second = 1000000000"

definition tick :: "'a senv \<Rightarrow> 'a session \<Rightarrow> 'a session" where
  "tick env s =
     (if se_state s \<noteq> ACTIVE \<or> \<not> se_connected s \<or> se_heartbeat s = 0 then s
      else (let now = sv_now env;
                s1 = (if now - se_last_sent s \<ge> se_heartbeat s * second then send env (msg_create ''0'') s else s)
            in case se_test_sent s1 of
                 Some t \<Rightarrow> (if now - t \<ge> se_heartbeat s1 * second
                           then logout_and_disconnect env ''no response to TestRequest (1)'' s1 else s1)
               | None \<Rightarrow>
                  (if (now - se_last_received s1) * 10 \<ge> se_heartbeat s1 * 12 * second
                   then (let i = se_test_id s1 mod 65535 + 1;
                             s2 = s1\<lparr>se_test_id := i\<rparr>
                         in (send env (msg_set 112 (string_of_nat i) (msg_create ''1'')) s2)\<lparr>se_test_sent := Some now\<rparr>)
                   else s1)))"

definition reset_session :: "'a session \<Rightarrow> 'a session" where
  "reset_session s = s\<lparr>se_store := mem_reset (se_store s)\<rparr>"

end
