(* ===== verification/Fix_Session_Facts.thy ===== *)
theory Fix_Session_Facts
  imports Fix_Session
begin

section \<open>What a session does to its sequence numbers\<close>

subsection \<open>Sending\<close>

text \<open>The store holds exactly the numbers below the next one.\<close>

definition out_dense :: "mem_store \<Rightarrow> bool" where
  "out_dense st \<longleftrightarrow> 1 \<le> st_next_out st \<and> set (map fst (st_messages st)) = {1 ..< st_next_out st}"

text \<open>A change that only sends: it numbers, stores and transmits, and nothing else.\<close>

definition only_sends :: "'a session \<Rightarrow> 'a session \<Rightarrow> bool" where
  "only_sends s s' \<longleftrightarrow>
     se_state s' = se_state s \<and> se_connected s' = se_connected s \<and> se_heartbeat s' = se_heartbeat s \<and>
     se_buffer s' = se_buffer s \<and> se_pending s' = se_pending s \<and>
     se_resend_requested s' = se_resend_requested s \<and> se_app s' = se_app s \<and>
     st_next_in (se_store s') = st_next_in (se_store s) \<and>
     (\<exists>es. se_trace s' = se_trace s @ es \<and> (\<forall>e \<in> set es. \<exists>raw. e = Transmitted raw)) \<and>
     (out_dense (se_store s) \<longrightarrow> out_dense (se_store s'))"

lemma only_sends_refl [simp]: "only_sends s s"
  by (simp add: only_sends_def)

lemma only_sends_trans: "only_sends s s1 \<Longrightarrow> only_sends s1 s2 \<Longrightarrow> only_sends s s2"
  unfolding only_sends_def by (fastforce simp del: set_map)

lemma only_sendsD:
  assumes "only_sends s s'"
  shows "se_state s' = se_state s" "se_connected s' = se_connected s" "se_pending s' = se_pending s"
    "se_resend_requested s' = se_resend_requested s" "se_app s' = se_app s" "se_buffer s' = se_buffer s"
    "st_next_in (se_store s') = st_next_in (se_store s)"
    "out_dense (se_store s) \<Longrightarrow> out_dense (se_store s')"
  using assms by (auto simp: only_sends_def)

lemma seq_after_stamp: "msg_seq_num (stamp env (set_int 34 i m)) = Some i"
  by (simp add: msg_seq_num_def msg_get_int_def stamp_def set_int_def set_unless_def Let_def msg_get_set
      split: option.split)

lemma key_set_update: "set (map fst (AList.update k v d)) = insert k (set (map fst d))"
  using keys_update [of k v d] by simp

lemma store_sent_dense:
  "out_dense st \<Longrightarrow> out_dense (mem_set_next_out (st_next_out st + 1) (mem_store_outbound (st_next_out st) raw st))"
  by (auto simp: out_dense_def mem_set_next_out_def mem_store_outbound_def key_set_update simp del: set_map)

lemma transmit_only_sends:
  assumes "store \<Longrightarrow> msg_seq_num (stamp env m) = Some (st_next_out (se_store s))"
  shows "only_sends s (transmit env store m s)"
proof (cases "cd_encode (sv_codec env) (stamp env m)")
  case (Inr raw)
  show ?thesis
  proof (cases store)
    case True
    with assms have q: "msg_seq_num (stamp env m) = Some (st_next_out (se_store s))" by simp
    show ?thesis using True Inr q store_sent_dense [of "se_store s" raw]
      by (simp add: only_sends_def transmit_def Let_def store_sent_def emit_def)
        (simp add: mem_set_next_out_def mem_store_outbound_def)
  next
    case False
    then show ?thesis using Inr by (simp add: only_sends_def transmit_def Let_def emit_def)
  qed
qed (simp add: transmit_def Let_def)

lemma send_only_sends: "only_sends s (send env m s)"
  unfolding send_def by (rule transmit_only_sends) (simp add: seq_after_stamp)

lemma send_all_only_sends: "only_sends s (send_all env ms s)"
  by (induction ms arbitrary: s) (auto intro: only_sends_trans send_only_sends)

lemma gap_fill_only_sends: "only_sends s (gap_fill env a b s)"
  unfolding gap_fill_def by (rule transmit_only_sends) simp

lemma resend_only_sends: "only_sends s (resend env seq raw s)"
  by (auto simp: resend_def Let_def gap_fill_only_sends intro!: transmit_only_sends split: sum.split)

lemma send_reject_only_sends: "only_sends s (send_reject env m f s)"
  by (simp add: send_reject_def Let_def send_only_sends)

lemma replay_loop_only_sends: "only_sends s (replay_loop env stored seqs gap s)"
proof (induction env stored seqs gap s rule: replay_loop.induct)
  case (1 env stored gap s)
  then show ?case by (simp add: gap_fill_only_sends split: option.split)
next
  case (2 env stored seq seqs gap s)
  show ?case
  proof (cases "map_of stored seq")
    case None
    with "2.IH"(1) show ?thesis by simp
  next
    case (Some raw)
    show ?thesis
    proof (cases "cd_is_admin (sv_codec env) raw")
      case True
      with "2.IH"(2) Some show ?thesis by simp
    next
      case False
      let ?s1 = "case gap of None \<Rightarrow> s | Some g \<Rightarrow> gap_fill env g seq s"
      have "only_sends s ?s1" by (simp add: gap_fill_only_sends split: option.split)
      moreover have "only_sends ?s1 (resend env seq raw ?s1)" by (rule resend_only_sends)
      moreover have "only_sends (resend env seq raw ?s1) (replay_loop env stored seqs None (resend env seq raw ?s1))"
        using "2.IH"(3) [OF Some False refl] by simp
      ultimately show ?thesis using Some False only_sends_trans by (simp add: Let_def) blast
    qed
  qed
qed

lemma replay_only_sends: "only_sends s (replay env a b s)"
  by (simp add: replay_def Let_def replay_loop_only_sends)

subsection \<open>Every input keeps the outbound numbers dense\<close>

lemma dense_update [simp]:
  "out_dense (mem_set_next_in v st) = out_dense st" "out_dense (mem_reset st)" "out_dense empty_store"
  by (simp_all add: out_dense_def mem_set_next_in_def mem_reset_def empty_store_def)

abbreviation dense :: "'a session \<Rightarrow> bool" where
  "dense s \<equiv> out_dense (se_store s)"

lemma set_next_in_simps [simp]:
  "dense (set_next_in v s) = dense s" "se_trace (set_next_in v s) = se_trace s"
  "st_next_in (se_store (set_next_in v s)) = v" "se_pending (set_next_in v s) = se_pending s"
  "se_connected (set_next_in v s) = se_connected s"
  by (simp_all add: set_next_in_def) (simp add: mem_set_next_in_def)

lemma emit_simps [simp]: "se_store (emit e s) = se_store s" "se_pending (emit e s) = se_pending s"
  "se_trace (emit e s) = se_trace s @ [e]"
  by (simp_all add: emit_def)

lemmas sends_dense = send_only_sends [THEN only_sendsD(8)] send_all_only_sends [THEN only_sendsD(8)]
  send_reject_only_sends [THEN only_sendsD(8)] replay_only_sends [THEN only_sendsD(8)]
  gap_fill_only_sends [THEN only_sendsD(8)]

lemma send_logout_dense: "dense s \<Longrightarrow> dense (send_logout env t s)"
  by (simp add: send_logout_def sends_dense)

lemma detach_dense: "dense s \<Longrightarrow> dense (detach env t s)"
  by (simp add: detach_def Let_def sends_dense split: prod.split)

lemma disconnect_dense: "dense s \<Longrightarrow> dense (disconnect env t s)"
  by (simp add: disconnect_def Let_def detach_dense)

lemma logout_and_disconnect_dense: "dense s \<Longrightarrow> dense (logout_and_disconnect env t s)"
  by (simp add: logout_and_disconnect_def disconnect_dense send_logout_dense)

lemmas basic_dense = sends_dense send_logout_dense detach_dense disconnect_dense logout_and_disconnect_dense

lemma queue_dense: "dense s \<Longrightarrow> dense (queue_and_request env m e r req s)"
  by (simp add: queue_and_request_def Let_def sends_dense)

lemma check_sequence_dense: "check_sequence env m s = (b, s') \<Longrightarrow> dense s \<Longrightarrow> dense s'"
  by (auto simp: check_sequence_def Let_def basic_dense queue_dense split: option.splits if_splits)

lemma hand_over_dense: "dense s \<Longrightarrow> dense (hand_over env m s)"
  by (auto simp: hand_over_def Let_def sends_dense split: prod.split option.split)

lemma dispatch_dense: "dispatch env m s = (b, s') \<Longrightarrow> dense s \<Longrightarrow> dense s'"
  by (auto simp: dispatch_def Let_def basic_dense hand_over_dense on_sequence_reset_def on_logout_message_def
      split: option.splits if_splits)

lemma drain_dense: "dense s \<Longrightarrow> dense (drain n env s)"
proof (induction n arbitrary: s)
  case (Suc n)
  show ?case
  proof (cases "se_pending s = [] \<or> map_of (se_pending s) (st_next_in (se_store s)) = None")
    case False
    then obtain m where m: "map_of (se_pending s) (st_next_in (se_store s)) = Some m" by auto
    obtain b s1 where d: "dispatch env m (s\<lparr>se_pending := AList.delete (st_next_in (se_store s)) (se_pending s)\<rparr>) = (b, s1)"
      by fastforce
    from dispatch_dense [OF d] Suc.prems have "dense s1" by simp
    with Suc.IH m d False show ?thesis by (simp add: Let_def)
  qed (use Suc.prems in \<open>auto simp: Let_def\<close>)
qed simp

lemma drain_pending_dense: "dense s \<Longrightarrow> dense (drain_pending env s)"
  unfolding drain_pending_def by (rule drain_dense)

lemma dispatch_and_drain_dense: "dense s \<Longrightarrow> dense (dispatch_and_drain env m s)"
  by (auto simp: dispatch_and_drain_def drain_pending_dense dispatch_dense split: prod.split)

lemma accept_logon_dense: "dense s \<Longrightarrow> dense (accept_logon env m r n s)"
  by (auto simp: accept_logon_def Let_def run_on_logon_def sends_dense queue_dense split: option.split prod.split)

lemma on_logon_dense: "dense s \<Longrightarrow> dense (on_logon env m s)"
  by (auto simp: on_logon_def Let_def basic_dense accept_logon_dense split: sum.split option.split)

lemma on_message_dense: "dense s \<Longrightarrow> dense (on_message env m s)"
  by (auto simp: on_message_def basic_dense on_logon_dense dispatch_and_drain_dense
      dest: check_sequence_dense split: prod.splits bool.splits)

lemma on_raw_message_dense: "dense s \<Longrightarrow> dense (on_raw_message env raw s)"
  by (auto simp: on_raw_message_def Let_def basic_dense on_message_dense handle_comp_id_failure_def
      handle_validation_failure_def split: sum.split option.split)

lemma on_raws_dense: "dense s \<Longrightarrow> dense (on_raws env raws s)"
  by (induction raws arbitrary: s) (auto simp: on_raw_message_dense)

lemma on_data_dense: "dense s \<Longrightarrow> dense (on_data env chunk s)"
  by (auto simp: on_data_def basic_dense on_raws_dense split: sum.split prod.split)

lemma tick_dense: "dense s \<Longrightarrow> dense (tick env s)"
  by (auto simp: tick_def Let_def basic_dense split: option.split)

text \<open>What can happen to a session, at any time of the clock.\<close>

inductive session_step :: "'a senv \<Rightarrow> 'a session \<Rightarrow> 'a session \<Rightarrow> bool" for env where
  connect: "session_step env s (attach (env\<lparr>sv_timestamp := t, sv_now := n\<rparr>) s)"
| received: "session_step env s (on_data (env\<lparr>sv_timestamp := t, sv_now := n\<rparr>) chunk s)"
| timer: "session_step env s (tick (env\<lparr>sv_timestamp := t, sv_now := n\<rparr>) s)"
| lost: "session_step env s (detach (env\<lparr>sv_timestamp := t, sv_now := n\<rparr>) reason s)"
| kicked: "session_step env s (disconnect (env\<lparr>sv_timestamp := t, sv_now := n\<rparr>) reason s)"
| gateway: "session_step env s (send (env\<lparr>sv_timestamp := t, sv_now := n\<rparr>) m s)"
| operator_reset: "session_step env s (reset_session s)"

abbreviation session_reaches :: "'a senv \<Rightarrow> 'a session \<Rightarrow> 'a session \<Rightarrow> bool" where
  "session_reaches env \<equiv> (session_step env)\<^sup>*\<^sup>*"

inductive_cases session_step_cases: "session_step env s s'"

lemma session_step_dense: "session_step env s s' \<Longrightarrow> dense s \<Longrightarrow> dense s'"
  by (induction rule: session_step.induct)
    (simp_all add: attach_def on_data_dense tick_dense basic_dense reset_session_def)

lemma session_reaches_dense: "session_reaches env s s' \<Longrightarrow> dense s \<Longrightarrow> dense s'"
  by (induction rule: rtranclp_induct) (auto intro: session_step_dense)

end
