(* ===== verification/Fix_Recovery.thy ===== *)
theory Fix_Recovery
  imports Fix_Session_Facts
begin

section \<open>Recovery: what a resend covers, and what the gateway is given\<close>

subsection \<open>The plan of a resend\<close>

text \<open>
  What \<open>replay\<close> transmits, apart from how: stretches of the sequence filled, and stored
  messages sent again. \<open>walk\<close> is how a receiver that expects a number follows it.
\<close>

datatype replay_item = Fill int int | Again int bytes

fun plan :: "(bytes \<Rightarrow> bool) \<Rightarrow> (int \<Rightarrow> bytes option) \<Rightarrow> int \<Rightarrow> int list \<Rightarrow> int option \<Rightarrow> replay_item list" where
  "plan admin stored out [] gap = (case gap of None \<Rightarrow> [] | Some g \<Rightarrow> [Fill g out])"
| "plan admin stored out (n # ns) gap =
     (case stored n of
        None \<Rightarrow> plan admin stored out ns (Some (case gap of None \<Rightarrow> n | Some g \<Rightarrow> g))
      | Some raw \<Rightarrow>
         (if admin raw then plan admin stored out ns (Some (case gap of None \<Rightarrow> n | Some g \<Rightarrow> g))
          else (case gap of None \<Rightarrow> [] | Some g \<Rightarrow> [Fill g n]) @ Again n raw # plan admin stored out ns None))"

fun walk :: "int \<Rightarrow> replay_item list \<Rightarrow> int option" where
  "walk pos [] = Some pos"
| "walk pos (Fill a b # items) = (if a = pos \<and> a < b then walk b items else None)"
| "walk pos (Again n raw # items) = (if n = pos then walk (n + 1) items else None)"

fun perform :: "'a senv \<Rightarrow> replay_item \<Rightarrow> 'a session \<Rightarrow> 'a session" where
  "perform env (Fill a b) s = gap_fill env a b s"
| "perform env (Again n raw) s = resend env n raw s"

definition resent :: "replay_item list \<Rightarrow> (int \<times> bytes) list" where
  "resent items = concat (map (\<lambda>i. case i of Fill a b \<Rightarrow> [] | Again n raw \<Rightarrow> [(n, raw)]) items)"

lemma unstored_transmit [simp]: "se_store (transmit env False m s) = se_store s"
  by (simp add: transmit_def Let_def emit_def split: sum.split)

lemma perform_store [simp]: "se_store (gap_fill env a b s) = se_store s" "se_store (resend env n raw s) = se_store s"
  by (simp_all add: gap_fill_def resend_def Let_def split: sum.split)

lemma replay_loop_plan:
  "replay_loop env stored ns gap s =
   fold (perform env) (plan (cd_is_admin (sv_codec env)) (map_of stored) (st_next_out (se_store s)) ns gap) s"
proof (induction env stored ns gap s rule: replay_loop.induct)
  case (1 env stored gap s)
  then show ?case by (simp split: option.split)
next
  case (2 env stored n ns gap s)
  then show ?case
    by (cases "map_of stored n"; cases gap; cases "cd_is_admin (sv_codec env) (the (map_of stored n))")
      (simp_all add: Let_def)
qed

lemma walk_append: "walk p (a @ b) = (case walk p a of None \<Rightarrow> None | Some q \<Rightarrow> walk q b)"
  by (induction p a rule: walk.induct) simp_all

lemma plan_walk:
  "lo \<le> hi + 1 \<Longrightarrow> hi < out \<Longrightarrow> (\<forall>g. gap = Some g \<longrightarrow> g < lo) \<Longrightarrow>
   walk (case gap of None \<Rightarrow> lo | Some g \<Rightarrow> g) (plan admin stored out [lo .. hi] gap) \<in> {Some (hi + 1), Some out}"
proof (induction "nat (hi + 1 - lo)" arbitrary: lo gap)
  case 0
  then show ?case by (auto split: option.split)
next
  case (Suc k)
  then have u: "[lo .. hi] = lo # [lo + 1 .. hi]" by (simp add: upto_rec1)
  have k: "k = nat (hi + 1 - (lo + 1))" "lo + 1 \<le> hi + 1" using Suc.hyps(2) by simp_all
  let ?g = "case gap of None \<Rightarrow> lo | Some g \<Rightarrow> g"
  have g: "?g < lo + 1" using Suc.prems(3) by (cases gap) auto
  have skip: "walk ?g (plan admin stored out [lo + 1 .. hi] (Some ?g)) \<in> {Some (hi + 1), Some out}"
    using Suc.hyps(1) [OF k, of "Some ?g"] Suc.prems(2) g by simp
  have go_on: "walk (lo + 1) (plan admin stored out [lo + 1 .. hi] None) \<in> {Some (hi + 1), Some out}"
    using Suc.hyps(1) [OF k, of None] Suc.prems(2) by simp
  have fill: "walk ?g (case gap of None \<Rightarrow> [] | Some g \<Rightarrow> [Fill g lo]) = Some lo"
    using Suc.prems(3) by (cases gap) auto
  show ?case unfolding u plan.simps
  proof (cases "stored lo")
    case (Some raw)
    then show "walk ?g (case stored lo of None \<Rightarrow> plan admin stored out [lo + 1 .. hi] (Some ?g)
      | Some raw \<Rightarrow> if admin raw then plan admin stored out [lo + 1 .. hi] (Some ?g)
        else (case gap of None \<Rightarrow> [] | Some g \<Rightarrow> [Fill g lo]) @ Again lo raw # plan admin stored out [lo + 1 .. hi] None)
      \<in> {Some (hi + 1), Some out}"
      using skip go_on by (cases "admin raw") (simp_all add: walk_append fill)
  qed (use skip in simp)
qed

lemma resent_plan:
  "resent (plan admin stored out ns gap) =
   concat (map (\<lambda>n. case stored n of None \<Rightarrow> [] | Some raw \<Rightarrow> if admin raw then [] else [(n, raw)]) ns)"
  by (induction ns arbitrary: gap) (auto simp: resent_def split: option.split)

lemma map_of_get_outbound:
  assumes d: "out_dense st" and n: "lo \<le> n" "n \<le> hi" "1 \<le> lo" "hi < st_next_out st"
  shows "map_of (mem_get_outbound lo (Some hi) st) n = map_of (st_messages st) n"
proof -
  have k: "n \<in> set (map fst (st_messages st))" using d n unfolding out_dense_def by simp
  then have "map_of (st_messages st) n \<noteq> None" by (simp add: map_of_eq_None_iff)
  then obtain raw where raw: "map_of (st_messages st) n = Some raw" by blast
  have f: "map_of (map (\<lambda>q. (q, g q)) xs) n = Some (g n)" if "n \<in> set xs" for g :: "int \<Rightarrow> bytes" and xs
    using that by (induction xs) auto
  have "n \<in> set (filter (\<lambda>q. lo \<le> q \<and> q \<le> hi) (sort (map fst (st_messages st))))" using k n by simp
  from f [OF this, of "\<lambda>q. the (map_of (st_messages st) q)"] raw n show ?thesis
    by (simp add: mem_get_outbound_def Let_def)
qed

text \<open>An open-ended request is answered up to the next outbound number, message by message.\<close>

lemma replay_plan:
  assumes d: "out_dense (se_store s)" and b: "1 \<le> b" "b \<le> st_next_out (se_store s)"
  shows "replay env b e s = fold (perform env)
     (plan (cd_is_admin (sv_codec env)) (map_of (st_messages (se_store s))) (st_next_out (se_store s))
        [b .. replay_upper e (se_store s)] None) s"
proof -
  let ?st = "se_store s" and ?hi = "replay_upper e (se_store s)"
  have hi: "?hi < st_next_out ?st" by (simp add: replay_upper_def Let_def)
  have m: "\<forall>n \<in> set [b .. ?hi]. map_of (mem_get_outbound b (Some ?hi) ?st) n = map_of (st_messages ?st) n"
    using map_of_get_outbound [OF d _ _ b(1) hi] by simp
  have c: "\<forall>n \<in> set ns. f n = g n \<Longrightarrow> plan adm f out ns gap = plan adm g out ns gap" for ns f g adm out gap
    by (induction ns arbitrary: gap) (auto split: option.split)
  show ?thesis unfolding replay_def Let_def replay_loop_plan by (simp only: c [OF m])
qed

lemma replay_covers:
  assumes d: "out_dense (se_store s)" and b: "1 \<le> b" "b \<le> st_next_out (se_store s)" and e: "e \<in> {0, 999999}"
  obtains items where "replay env b e s = fold (perform env) items s" "walk b items = Some (st_next_out (se_store s))"
    "resent items = filter (\<lambda>(n, raw). \<not> cd_is_admin (sv_codec env) raw)
       (map (\<lambda>n. (n, the (map_of (st_messages (se_store s)) n))) [b .. st_next_out (se_store s) - 1])"
proof -
  let ?st = "se_store s" and ?adm = "cd_is_admin (sv_codec env)"
  let ?p = "plan ?adm (map_of (st_messages ?st)) (st_next_out ?st) [b .. st_next_out ?st - 1] None"
  have u: "replay_upper e ?st = st_next_out ?st - 1" using e by (auto simp: replay_upper_def Let_def)
  have w: "walk b ?p = Some (st_next_out ?st)"
    using plan_walk [of b "st_next_out ?st - 1" "st_next_out ?st" None] b by auto
  have "map_of (st_messages ?st) n \<noteq> None" if "n \<in> set [b .. st_next_out ?st - 1]" for n
    using d that b(1) unfolding out_dense_def by (simp add: map_of_eq_None_iff)
  then have "\<forall>n \<in> set ns. map_of (st_messages ?st) n \<noteq> None \<Longrightarrow>
      concat (map (\<lambda>n. case map_of (st_messages ?st) n of None \<Rightarrow> [] | Some raw \<Rightarrow> if ?adm raw then [] else [(n, raw)]) ns) =
      filter (\<lambda>(n, raw). \<not> ?adm raw) (map (\<lambda>n. (n, the (map_of (st_messages ?st) n))) ns)" for ns
    by (induction ns) auto
  moreover have "\<forall>n \<in> set [b .. st_next_out ?st - 1]. map_of (st_messages ?st) n \<noteq> None"
    using d b(1) unfolding out_dense_def by (simp add: map_of_eq_None_iff)
  ultimately have "resent ?p = filter (\<lambda>(n, raw). \<not> ?adm raw)
      (map (\<lambda>n. (n, the (map_of (st_messages ?st) n))) [b .. st_next_out ?st - 1])"
    unfolding resent_plan by blast
  with w replay_plan [OF d b, of env e] u show thesis by (intro that) simp_all
qed

text \<open>
  A bounded request whose last message is administrative is filled up to the next outbound
  number too, whatever lies between.
\<close>

lemma plan_last_admin:
  "stored e = Some raw \<Longrightarrow> admin raw \<Longrightarrow> \<exists>items g. plan admin stored out (ns @ [e]) gap = items @ [Fill g out]"
proof (induction ns arbitrary: gap)
  case (Cons n ns)
  note ih = Cons.IH [OF Cons.prems]
  show ?case
  proof (cases "\<exists>r. stored n = Some r \<and> \<not> admin r")
    case True
    then obtain r where r: "stored n = Some r" "\<not> admin r" by blast
    obtain items g where "plan admin stored out (ns @ [e]) None = items @ [Fill g out]" using ih [of None] by blast
    with r show ?thesis by simp
  next
    case False
    then have "plan admin stored out ((n # ns) @ [e]) gap = plan admin stored out (ns @ [e]) (Some (case gap of None \<Rightarrow> n | Some g \<Rightarrow> g))"
      by (auto split: option.split)
    with ih show ?thesis by simp
  qed
qed simp

lemma walk_last_fill: "walk p (items @ [Fill g out]) = Some q \<Longrightarrow> q = out"
  by (auto simp: walk_append split: option.splits if_splits)

lemma bounded_resend_skips:
  assumes d: "out_dense (se_store s)" and b: "1 \<le> b" "b \<le> e" and e: "e < st_next_out (se_store s)" "e \<noteq> 999999"
    and adm: "cd_is_admin (sv_codec env) (the (map_of (st_messages (se_store s)) e))"
  shows "\<exists>items. replay env b e s = fold (perform env) items s \<and> walk b items = Some (st_next_out (se_store s)) \<and>
     (\<forall>(n, r) \<in> set (resent items). n < e)"
proof -
  let ?st = "se_store s" and ?adm = "cd_is_admin (sv_codec env)"
  let ?p = "plan ?adm (map_of (st_messages ?st)) (st_next_out ?st) [b .. e] None"
  have u: "replay_upper e ?st = e" using b e by (auto simp: replay_upper_def Let_def)
  obtain raw where raw: "map_of (st_messages ?st) e = Some raw"
    using d b e unfolding out_dense_def by (cases "map_of (st_messages ?st) e") (auto simp: map_of_eq_None_iff)
  have l: "[b .. e] = [b .. e - 1] @ [e]" using b(2) by (simp add: upto_rec2)
  have "walk b ?p \<in> {Some (e + 1), Some (st_next_out ?st)}"
    using plan_walk [of b e "st_next_out ?st" None] b e by simp
  moreover obtain items g where "?p = items @ [Fill g (st_next_out ?st)]"
    using plan_last_admin [of "map_of (st_messages ?st)" e raw ?adm] raw adm unfolding l by (simp, blast)
  ultimately have w: "walk b ?p = Some (st_next_out ?st)" using walk_last_fill [of b items g] by auto
  have "\<forall>(n, r) \<in> set (resent ?p). n < e"
    using raw adm by (auto simp: resent_plan split: option.splits if_splits) (metis le_neq_trans option.sel)
  with w replay_plan [OF d b(1), of env e] u b e show ?thesis by auto
qed

subsection \<open>What reaches the gateway\<close>

text \<open>The numbers of the messages handed to the gateway, in order.\<close>

definition handed :: "session_event list \<Rightarrow> int list" where
  "handed es = concat (map (\<lambda>e. case e of Handed m \<Rightarrow> [the (msg_seq_num m)] | _ \<Rightarrow> []) es)"

lemma handed_simps [simp]: "handed [] = []" "handed (a @ b) = handed a @ handed b"
  "handed [Closed] = []" "handed [Transmitted raw] = []" "handed [Handed m] = [the (msg_seq_num m)]"
  by (simp_all add: handed_def)

definition progress :: "'a session \<Rightarrow> 'a session \<Rightarrow> bool" where
  "progress s s' \<longleftrightarrow> st_next_in (se_store s) \<le> st_next_in (se_store s') \<and>
     (\<exists>es. se_trace s' = se_trace s @ es \<and> sorted_wrt (<) (handed es) \<and>
        (\<forall>n \<in> set (handed es). st_next_in (se_store s) \<le> n \<and> n < st_next_in (se_store s')))"

definition pending_ok :: "'a session \<Rightarrow> bool" where
  "pending_ok s \<longleftrightarrow> (\<forall>e \<in> set (se_pending s). msg_seq_num (snd e) = Some (fst e))"

lemma progress_refl [simp]: "progress s s"
  by (simp add: progress_def)

lemma progress_trans:
  assumes "progress s s1" and "progress s1 s2"
  shows "progress s s2"
proof -
  obtain es1 es2 where "se_trace s1 = se_trace s @ es1" "se_trace s2 = se_trace s1 @ es2"
      "sorted_wrt (<) (handed es1)" "sorted_wrt (<) (handed es2)"
      "\<forall>n \<in> set (handed es1). st_next_in (se_store s) \<le> n \<and> n < st_next_in (se_store s1)"
      "\<forall>n \<in> set (handed es2). st_next_in (se_store s1) \<le> n \<and> n < st_next_in (se_store s2)"
    using assms by (auto simp: progress_def)
  moreover from this have "sorted_wrt (<) (handed (es1 @ es2))" by (force simp: sorted_wrt_append)
  moreover have "st_next_in (se_store s) \<le> st_next_in (se_store s1)" "st_next_in (se_store s1) \<le> st_next_in (se_store s2)"
    using assms by (simp_all add: progress_def)
  ultimately show ?thesis unfolding progress_def by (intro conjI exI [of _ "es1 @ es2"]) force+
qed

lemma only_sends_progress:
  assumes "only_sends s s'"
  shows "progress s s'"
proof -
  obtain es where es: "se_trace s' = se_trace s @ es" "\<forall>e \<in> set es. \<exists>raw. e = Transmitted raw"
    using assms by (auto simp: only_sends_def)
  from es(2) have "handed es = []" by (induction es) (auto simp: handed_def)
  with es(1) assms show ?thesis by (auto simp: progress_def only_sends_def)
qed

lemma same_view_progress:
  "se_trace s' = se_trace s \<Longrightarrow> st_next_in (se_store s') = st_next_in (se_store s) \<Longrightarrow> progress s s'"
  by (simp add: progress_def)

lemma detach_facts: "progress s (detach env t s)" "se_pending (detach env t s) = []" "se_connected (detach env t s) = False"
  "se_state (detach env t s) = DISCONNECTED" "st_next_in (se_store (detach env t s)) = st_next_in (se_store s)"
proof -
  let ?s1 = "s\<lparr>se_connected := False, se_state := DISCONNECTED, se_buffer := [], se_pending := []\<rparr>"
  obtain ms app where o: "sv_on_logout env t (se_app ?s1) = (ms, app)" by fastforce
  have e: "detach env t s = send_all env ms (?s1\<lparr>se_app := app\<rparr>)" using o by (simp add: detach_def)
  note os = send_all_only_sends [of "?s1\<lparr>se_app := app\<rparr>" env ms]
  have "progress s (?s1\<lparr>se_app := app\<rparr>)" by (rule same_view_progress) simp_all
  with only_sends_progress [OF os] show "progress s (detach env t s)" unfolding e by (rule progress_trans [rotated])
  show "se_pending (detach env t s) = []" "se_connected (detach env t s) = False" "se_state (detach env t s) = DISCONNECTED"
    "st_next_in (se_store (detach env t s)) = st_next_in (se_store s)"
    using only_sendsD [OF os] unfolding e by simp_all
qed

lemma disconnect_facts: "progress s (disconnect env t s)" "se_pending (disconnect env t s) = []"
  "se_connected (disconnect env t s) = False" "se_state (disconnect env t s) = DISCONNECTED"
  "st_next_in (se_store (disconnect env t s)) = st_next_in (se_store s)"
  "se_connected s \<Longrightarrow> last (se_trace (disconnect env t s)) = Closed"
proof -
  have "progress s1 (emit Closed s1)" for s1 :: "'a session" by (simp add: progress_def)
  then show "progress s (disconnect env t s)"
    using detach_facts(1) progress_trans by (simp add: disconnect_def Let_def) blast
  show "se_pending (disconnect env t s) = []" "se_connected (disconnect env t s) = False"
    "se_state (disconnect env t s) = DISCONNECTED" "st_next_in (se_store (disconnect env t s)) = st_next_in (se_store s)"
    "se_connected s \<Longrightarrow> last (se_trace (disconnect env t s)) = Closed"
    using detach_facts(2-5) [of env t s] by (simp_all add: disconnect_def Let_def emit_def)
qed

lemma logout_and_disconnect_facts:
  "progress s (logout_and_disconnect env t s)" "se_pending (logout_and_disconnect env t s) = []"
  "se_state (logout_and_disconnect env t s) = DISCONNECTED"
  "st_next_in (se_store (logout_and_disconnect env t s)) = st_next_in (se_store s)"
  "se_connected s \<Longrightarrow> last (se_trace (logout_and_disconnect env t s)) = Closed"
proof -
  let ?m = "msg_set 58 t (msg_create ''5'')"
  note os = send_only_sends [of s env ?m]
  have "progress (send env ?m s) (send_logout env t s)" by (rule same_view_progress) (simp_all add: send_logout_def)
  with only_sends_progress [OF os] have "progress s (send_logout env t s)" by (rule progress_trans)
  then show "progress s (logout_and_disconnect env t s)"
    unfolding logout_and_disconnect_def by (rule progress_trans [OF _ disconnect_facts(1)])
  show "se_pending (logout_and_disconnect env t s) = []" "se_state (logout_and_disconnect env t s) = DISCONNECTED"
    "st_next_in (se_store (logout_and_disconnect env t s)) = st_next_in (se_store s)"
    "se_connected s \<Longrightarrow> last (se_trace (logout_and_disconnect env t s)) = Closed"
    using only_sendsD(2,7) [OF os]
    by (simp_all add: logout_and_disconnect_def disconnect_facts send_logout_def)
qed

text \<open>Dispatching the expected message, then the queue behind it.\<close>

definition keeps_queue :: "'a session \<Rightarrow> 'a session \<Rightarrow> bool" where
  "keeps_queue s s' \<longleftrightarrow> se_pending s' = se_pending s \<or> se_pending s' = []"

lemma only_sends_queue: "only_sends s s' \<Longrightarrow> keeps_queue s s'"
  by (simp add: only_sends_def keeps_queue_def)

lemma set_next_in_progress: "st_next_in (se_store s) \<le> v \<Longrightarrow> progress s (set_next_in v s)"
  by (simp add: progress_def)

lemma only_sends_after:
  "progress s s1 \<Longrightarrow> keeps_queue s s1 \<Longrightarrow> only_sends s1 s2 \<Longrightarrow> progress s s2 \<and> keeps_queue s s2"
  by (intro conjI) (auto intro: progress_trans only_sends_progress simp: keeps_queue_def dest: only_sendsD(3))

lemma hand_over_progress:
  assumes "msg_seq_num m = Some n" and "st_next_in (se_store s) = n"
  shows "progress s (hand_over env m (set_next_in (n + 1) s)) \<and> keeps_queue s (hand_over env m (set_next_in (n + 1) s))"
proof -
  let ?s1 = "set_next_in (n + 1) s"
  obtain ms failure app where o: "sv_on_message env m (se_app ?s1) = (ms, failure, app)" by (cases "sv_on_message env m (se_app ?s1)") auto
  let ?s2 = "(emit (Handed m) ?s1)\<lparr>se_app := app\<rparr>"
  have p: "progress s ?s2" using assms by (simp add: progress_def)
  have q: "keeps_queue s ?s2" by (simp add: keeps_queue_def)
  have "only_sends ?s2 (hand_over env m ?s1)"
    using o by (simp add: hand_over_def Let_def send_all_only_sends split: option.split)
      (metis only_sends_trans send_all_only_sends send_reject_only_sends)
  with p q show ?thesis by (rule only_sends_after)
qed

lemma on_logout_message_progress:
  "progress s (on_logout_message env m s)" "se_pending (on_logout_message env m s) = []"
proof -
  show "progress s (on_logout_message env m s)"
    by (simp add: on_logout_message_def Let_def disconnect_facts(1)
        progress_trans [OF only_sends_progress [OF send_only_sends] disconnect_facts(1)])
  show "se_pending (on_logout_message env m s) = []" by (simp add: on_logout_message_def Let_def disconnect_facts(2))
qed

lemma dispatch_progress:
  assumes d: "dispatch env m s = (b, s')" and m: "msg_type_of m = Some ''4'' \<or> msg_seq_num m = Some (st_next_in (se_store s))"
  shows "progress s s' \<and> keeps_queue s s'"
proof (cases "msg_type_of m = Some ''4''")
  case True
  then have r: "on_sequence_reset env m s = (b, s')" using d by (simp add: dispatch_def)
  show ?thesis
  proof (cases "\<exists>v. msg_get_int m 36 = Some v \<and> st_next_in (se_store s) \<le> v")
    case True
    then obtain v where "s' = set_next_in v s" "st_next_in (se_store s) \<le> v"
      using r by (auto simp: on_sequence_reset_def Let_def split: option.splits if_splits)
    then show ?thesis by (simp add: set_next_in_progress keeps_queue_def)
  next
    case False
    then have "only_sends s s'"
      using r by (auto simp: on_sequence_reset_def Let_def send_reject_only_sends split: option.splits if_splits)
    then show ?thesis by (simp add: only_sends_progress only_sends_queue)
  qed
next
  case False
  let ?s1 = "set_next_in (st_next_in (se_store s) + 1) s"
  have n: "msg_seq_num m = Some (st_next_in (se_store s))" using m False by simp
  have p1: "progress s ?s1" "keeps_queue s ?s1" by (simp_all add: set_next_in_progress keeps_queue_def)
  consider "only_sends ?s1 s'" | "s' = on_logout_message env m ?s1" | "s' = hand_over env m ?s1"
    using d False n
    by (auto simp: dispatch_def Let_def send_only_sends replay_only_sends split: if_splits)
  then show ?thesis
  proof cases
    case 1
    then show ?thesis using only_sends_after [OF p1] by blast
  next
    case 2
    then show ?thesis using progress_trans [OF p1(1)] on_logout_message_progress [where s = ?s1 and env = env and m = m]
      by (simp add: keeps_queue_def)
  next
    case 3
    then show ?thesis using hand_over_progress [OF n refl] by simp
  qed
qed

lemma pending_ok_queue: "pending_ok s \<Longrightarrow> keeps_queue s s' \<Longrightarrow> pending_ok s'"
  by (auto simp: pending_ok_def keeps_queue_def)

lemma drain_progress: "pending_ok s \<Longrightarrow> progress s (drain n env s) \<and> pending_ok (drain n env s)"
proof (induction n arbitrary: s)
  case (Suc n)
  let ?e = "st_next_in (se_store s)"
  show ?case
  proof (cases "se_pending s = [] \<or> map_of (se_pending s) ?e = None")
    case True
    then show ?thesis using Suc.prems by (auto simp: Let_def progress_def pending_ok_def)
  next
    case False
    then obtain m where m: "map_of (se_pending s) ?e = Some m" by auto
    let ?s0 = "s\<lparr>se_pending := AList.delete ?e (se_pending s)\<rparr>"
    obtain b s1 where d: "dispatch env m ?s0 = (b, s1)" by fastforce
    have q: "msg_seq_num m = Some (st_next_in (se_store ?s0))"
      using Suc.prems map_of_SomeD [OF m] by (fastforce simp: pending_ok_def)
    have ok0: "pending_ok ?s0" using Suc.prems by (auto simp: pending_ok_def AList.delete_eq)
    have "progress s ?s0" by (rule same_view_progress) simp_all
    then have p1: "progress s s1" "pending_ok s1"
      using dispatch_progress [OF d] q progress_trans pending_ok_queue [OF ok0] by blast+
    let ?s2 = "if b then drain n env s1 else s1"
    have p2: "progress s ?s2" "pending_ok ?s2" using Suc.IH [OF p1(2)] p1 progress_trans by auto
    have "drain (Suc n) env s = drain n env ?s2" using False m d by (simp add: Let_def)
    then show ?thesis using Suc.IH [OF p2(2)] p2(1) progress_trans by metis
  qed
qed simp

lemma drain_pending_progress: "pending_ok s \<Longrightarrow> progress s (drain_pending env s) \<and> pending_ok (drain_pending env s)"
  unfolding drain_pending_def by (rule drain_progress)

lemma dispatch_and_drain_progress:
  assumes "msg_type_of m = Some ''4'' \<or> msg_seq_num m = Some (st_next_in (se_store s))" and "pending_ok s"
  shows "progress s (dispatch_and_drain env m s) \<and> pending_ok (dispatch_and_drain env m s)"
proof -
  obtain b s1 where d: "dispatch env m s = (b, s1)" by fastforce
  have p1: "progress s s1" "pending_ok s1"
    using dispatch_progress [OF d assms(1)] pending_ok_queue [OF assms(2)] by blast+
  let ?s2 = "if b then drain_pending env s1 else s1"
  have p2: "progress s ?s2" "pending_ok ?s2" using drain_pending_progress [OF p1(2)] p1 progress_trans by auto
  have "dispatch_and_drain env m s = drain_pending env ?s2" using d by (simp add: dispatch_and_drain_def)
  then show ?thesis using drain_pending_progress [OF p2(2)] p2(1) progress_trans by metis
qed

lemma queue_and_request_progress:
  assumes "pending_ok s" and "msg_seq_num m = Some received"
  shows "progress s (queue_and_request env m e received req s) \<and> pending_ok (queue_and_request env m e received req s)"
proof -
  let ?s1 = "s\<lparr>se_pending := AList.update received m (se_pending s)\<rparr>"
  have u: "set (AList.update received m d) \<subseteq> insert (received, m) (set d)" for d by (induction d) auto
  have ok1: "pending_ok ?s1" using assms u [of "se_pending s"] by (fastforce simp: pending_ok_def)
  have ok2: "pending_ok (?s1\<lparr>se_resend_requested := True\<rparr>)" using ok1 by (simp add: pending_ok_def)
  have p: "progress s ?s1" "progress s (?s1\<lparr>se_resend_requested := True\<rparr>)" by (rule same_view_progress; simp)+
  note os = send_only_sends [of "?s1\<lparr>se_resend_requested := True\<rparr>" env "set_int 16 0 (set_int 7 e (msg_create ''2''))"]
  show ?thesis
    using ok1 ok2 p progress_trans [OF p(2) only_sends_progress [OF os]] pending_ok_queue [OF ok2 only_sends_queue [OF os]]
    by (simp add: queue_and_request_def Let_def)
qed

lemma check_sequence_progress:
  assumes c: "check_sequence env m s = (b, s')" and ok: "pending_ok s"
  shows "progress s s' \<and> pending_ok s' \<and>
    (b \<longrightarrow> s' = s \<and> (msg_type_of m = Some ''4'' \<or> msg_seq_num m = Some (st_next_in (se_store s))))"
proof (cases "msg_seq_num m")
  case None
  then have "s' = send_reject env m (failure_of 1 (Some 34) ''MsgSeqNum (34) is missing or not an integer'') s" "\<not> b"
    using c by (auto simp: check_sequence_def)
  then show ?thesis
    using only_sends_progress [OF send_reject_only_sends] pending_ok_queue [OF ok only_sends_queue [OF send_reject_only_sends]] by simp
next
  case (Some r)
  consider "b" "s' = s" "msg_type_of m = Some ''4'' \<or> r = st_next_in (se_store s)"
    | "\<not> b" "s' = queue_and_request env m (st_next_in (se_store s)) r True s" | "\<not> b" "s' = s"
    | t where "\<not> b" "s' = disconnect env t s" | t where "\<not> b" "s' = logout_and_disconnect env t s"
    using c Some by (auto simp: check_sequence_def Let_def split: if_splits)
  then show ?thesis
    using Some ok queue_and_request_progress [OF ok Some] disconnect_facts(1,2) [where s = s and env = env]
      logout_and_disconnect_facts(1,2) [where s = s and env = env]
    by cases (auto simp: pending_ok_def)
qed

text \<open>Outside a Logon: delivery is in order, and at most once.\<close>

lemma on_message_progress:
  assumes "msg_type_of m \<noteq> Some ''A''" and ok: "pending_ok s"
  shows "progress s (on_message env m s) \<and> pending_ok (on_message env m s)"
proof (cases "se_state s = AWAITING_LOGON")
  case True
  then show ?thesis using assms logout_and_disconnect_facts(1,2) [where s = s and env = env] by (simp add: on_message_def pending_ok_def)
next
  case False
  obtain b s1 where c: "check_sequence env m s = (b, s1)" by fastforce
  note cs = check_sequence_progress [OF c ok]
  show ?thesis
  proof (cases b)
    case True
    then have "s1 = s" "msg_type_of m = Some ''4'' \<or> msg_seq_num m = Some (st_next_in (se_store s))" using cs by simp_all
    then show ?thesis using dispatch_and_drain_progress [of m s env] ok c True False assms(1) by (simp add: on_message_def)
  next
    case b: False
    then show ?thesis using cs c False assms(1) by (simp add: on_message_def)
  qed
qed

subsection \<open>An active session, whatever the peer sends\<close>

text \<open>Between inputs a session that was active is still active, or its connection is gone.\<close>

definition live :: "'a session \<Rightarrow> bool" where
  "live s \<longleftrightarrow> se_state s = ACTIVE \<or> se_state s = DISCONNECTED \<and> \<not> se_connected s"

definition gone :: "'a session \<Rightarrow> bool" where
  "gone s \<longleftrightarrow> se_state s = DISCONNECTED \<and> \<not> se_connected s \<and> se_pending s = []"

lemma gone_live: "gone s \<Longrightarrow> live s \<and> pending_ok s"
  by (simp add: gone_def live_def pending_ok_def)

lemma gone_disconnect: "gone (disconnect env t s)" "gone (logout_and_disconnect env t s)" "gone (detach env t s)"
  by (simp_all add: gone_def disconnect_facts detach_facts logout_and_disconnect_def)

lemma only_sends_live: "only_sends s s' \<Longrightarrow> live s' = live s"
  by (simp add: only_sends_def live_def)

lemma set_next_in_live [simp]: "live (set_next_in v s) = live s"
  by (simp add: set_next_in_def live_def)

lemma hand_over_live: "live (hand_over env m s) = live s"
proof -
  obtain ms failure app where o: "sv_on_message env m (se_app s) = (ms, failure, app)" by (cases "sv_on_message env m (se_app s)") auto
  let ?s2 = "(emit (Handed m) s)\<lparr>se_app := app\<rparr>"
  have "only_sends ?s2 (hand_over env m s)"
    using o by (simp add: hand_over_def Let_def send_all_only_sends split: option.split)
      (metis only_sends_trans send_all_only_sends send_reject_only_sends)
  from only_sends_live [OF this] show ?thesis by (simp add: live_def emit_def)
qed

lemma dispatch_live: "dispatch env m s = (b, s') \<Longrightarrow> live s \<Longrightarrow> live s'"
  by (auto simp: dispatch_def Let_def on_sequence_reset_def on_logout_message_def hand_over_live
      only_sends_live [OF send_only_sends] only_sends_live [OF send_reject_only_sends] only_sends_live [OF replay_only_sends]
      gone_disconnect [THEN gone_live] split: option.splits if_splits)

lemma drain_live: "live s \<Longrightarrow> live (drain n env s)"
proof (induction n arbitrary: s)
  case (Suc n)
  show ?case
  proof (cases "se_pending s = [] \<or> map_of (se_pending s) (st_next_in (se_store s)) = None")
    case False
    then obtain m where m: "map_of (se_pending s) (st_next_in (se_store s)) = Some m" by auto
    obtain b s1 where d: "dispatch env m (s\<lparr>se_pending := AList.delete (st_next_in (se_store s)) (se_pending s)\<rparr>) = (b, s1)"
      by fastforce
    from dispatch_live [OF d] Suc.prems have "live s1" by (simp add: live_def)
    with Suc.IH m d False show ?thesis by (simp add: Let_def)
  qed (use Suc.prems in \<open>auto simp: Let_def live_def\<close>)
qed simp

lemma dispatch_and_drain_live:
  assumes "live s"
  shows "live (dispatch_and_drain env m s)"
proof -
  obtain b s1 where d: "dispatch env m s = (b, s1)" by fastforce
  have l: "live (drain_pending env s)" if "live s" for s :: "'a session" using that by (simp add: drain_pending_def drain_live del: drain.simps)
  show ?thesis using dispatch_live [OF d assms] d l by (simp add: dispatch_and_drain_def)
qed

lemma queue_and_request_live: "live (queue_and_request env m e r req s) = live s"
  by (simp add: queue_and_request_def Let_def only_sends_live [OF send_only_sends]) (simp add: live_def)

lemma check_sequence_live: "check_sequence env m s = (b, s') \<Longrightarrow> live s \<Longrightarrow> live s'"
  by (auto simp: check_sequence_def Let_def queue_and_request_live only_sends_live [OF send_reject_only_sends]
      gone_disconnect [THEN gone_live] split: option.splits if_splits)

lemma on_message_live:
  assumes "live s" and "se_state s = ACTIVE"
  shows "live (on_message env m s)"
proof (cases "msg_type_of m = Some ''A''")
  case True
  then show ?thesis using assms(2) by (simp add: on_message_def on_logon_def logon_terms_def gone_disconnect [THEN gone_live])
next
  case False
  obtain b s1 where c: "check_sequence env m s = (b, s1)" by fastforce
  have l1: "live s1" using check_sequence_live [OF c assms(1)] .
  show ?thesis using False c assms(2) l1 dispatch_and_drain_live [OF l1, of env m] by (simp add: on_message_def split: bool.split)
qed

lemma on_message_active_progress:
  assumes "se_state s = ACTIVE" and "pending_ok s"
  shows "progress s (on_message env m s) \<and> pending_ok (on_message env m s)"
proof (cases "msg_type_of m = Some ''A''")
  case True
  then show ?thesis using assms(1)
    by (simp add: on_message_def on_logon_def logon_terms_def gone_disconnect [THEN gone_live] logout_and_disconnect_facts(1))
next
  case False
  then show ?thesis by (rule on_message_progress [OF _ assms(2)])
qed

text \<open>One statement for everything a message can do to an active session.\<close>

definition advances :: "'a session \<Rightarrow> 'a session \<Rightarrow> bool" where
  "advances s s' \<longleftrightarrow> progress s s' \<and> pending_ok s' \<and> live s'"

lemma advances_gone: "progress s s' \<Longrightarrow> gone s' \<Longrightarrow> advances s s'"
  by (simp add: advances_def gone_live)

lemma advances_logout: "advances s (logout_and_disconnect env t s)"
  by (simp add: advances_gone logout_and_disconnect_facts(1) gone_disconnect)

lemma advances_after: "progress s s1 \<Longrightarrow> advances s1 s2 \<Longrightarrow> advances s s2"
  using progress_trans by (auto simp: advances_def)

lemma advances_sends: "only_sends s1 s2 \<Longrightarrow> advances s s1 \<Longrightarrow> advances s s2"
  using progress_trans [OF _ only_sends_progress, of s s1 s2] pending_ok_queue [OF _ only_sends_queue, of s1 s2]
    only_sends_live [of s1 s2]
  by (simp add: advances_def)

lemma advances_refl: "live s \<Longrightarrow> pending_ok s \<Longrightarrow> advances s s"
  by (simp add: advances_def)

lemma on_message_advances: "se_state s = ACTIVE \<Longrightarrow> pending_ok s \<Longrightarrow> advances s (on_message env m s)"
  using on_message_active_progress [of s env m] on_message_live [of s env m] by (simp add: advances_def) (simp add: live_def)

lemma handle_validation_advances:
  assumes "se_state s = ACTIVE" and "pending_ok s"
  shows "advances s (handle_validation_failure env m f s)"
proof -
  let ?s1 = "if msg_seq_num m = Some (st_next_in (se_store s)) then set_next_in (the (msg_seq_num m) + 1) s else s"
  have "advances s ?s1" using assms by (simp add: advances_def set_next_in_progress) (simp add: live_def pending_ok_def)
  from advances_sends [OF send_reject_only_sends this] assms(1) show ?thesis by (simp add: handle_validation_failure_def)
qed

lemma handle_comp_id_advances: "advances s (handle_comp_id_failure env m f s)"
proof -
  let ?s1 = "if se_state s = ACTIVE then send_reject env m f s else s"
  have "progress s ?s1" by (simp add: only_sends_progress send_reject_only_sends)
  from advances_after [OF this advances_logout] show ?thesis by (simp add: handle_comp_id_failure_def)
qed

lemma on_raw_message_advances:
  assumes "se_state s = ACTIVE" and "pending_ok s"
  shows "advances s (on_raw_message env raw s)"
proof (cases "cd_decode (sv_codec env) raw True")
  case (Inl e)
  then show ?thesis by (simp add: on_raw_message_def advances_logout)
next
  case (Inr m)
  let ?s1 = "s\<lparr>se_last_received := sv_now env, se_test_sent := None\<rparr>"
  have p: "progress s ?s1" by (rule same_view_progress) simp_all
  have a: "se_state ?s1 = ACTIVE" "pending_ok ?s1" using assms by (simp_all add: pending_ok_def)
  have "advances ?s1 (on_raw_message env raw s)"
    using Inr on_message_advances [OF a] handle_validation_advances [OF a] handle_comp_id_advances [of ?s1]
    by (simp add: on_raw_message_def Let_def split: option.split)
  with p show ?thesis by (rule advances_after)
qed

lemma on_raws_advances: "live s \<Longrightarrow> pending_ok s \<Longrightarrow> advances s (on_raws env raws s)"
proof (induction raws arbitrary: s)
  case (Cons raw raws)
  show ?case
  proof (cases "se_connected s")
    case True
    then have "advances s (on_raw_message env raw s)" using Cons.prems on_raw_message_advances by (simp add: live_def)
    moreover from this have "advances (on_raw_message env raw s) (on_raws env raws (on_raw_message env raw s))"
      using Cons.IH by (simp add: advances_def)
    ultimately show ?thesis using True advances_after by (simp add: advances_def) blast
  qed (use Cons.prems in \<open>simp add: advances_refl\<close>)
qed (simp add: advances_refl)

lemma on_data_advances:
  assumes "live s" and "pending_ok s"
  shows "advances s (on_data env chunk s)"
proof -
  have p: "progress s (s\<lparr>se_buffer := b\<rparr>)" for b by (rule same_view_progress) simp_all
  have l: "live (s\<lparr>se_buffer := b\<rparr>)" "pending_ok (s\<lparr>se_buffer := b\<rparr>)" for b
    using assms by (simp_all add: live_def pending_ok_def)
  show ?thesis
    using advances_after [OF p advances_logout] advances_after [OF p on_raws_advances [OF l]]
    by (simp add: on_data_def split: sum.split)
qed

text \<open>What the peer sends, cut anywhere, each piece at its own time.\<close>

fun on_chunks :: "'a senv \<Rightarrow> (string \<times> int \<times> bytes) list \<Rightarrow> 'a session \<Rightarrow> 'a session" where
  "on_chunks env [] s = s"
| "on_chunks env ((t, n, c) # cs) s = on_chunks env cs (on_data (env\<lparr>sv_timestamp := t, sv_now := n\<rparr>) c s)"

lemma on_chunks_advances: "live s \<Longrightarrow> pending_ok s \<Longrightarrow> advances s (on_chunks env cs s)"
proof (induction env cs s rule: on_chunks.induct)
  case (2 env t n c cs s)
  let ?s1 = "on_data (env\<lparr>sv_timestamp := t, sv_now := n\<rparr>) c s"
  have a: "advances s ?s1" using "2.prems" by (rule on_data_advances)
  then have "advances ?s1 (on_chunks env cs ?s1)" using "2.IH" by (simp add: advances_def)
  with a show ?case using advances_after [of s ?s1] by (simp add: advances_def)
qed (simp add: advances_refl)

text \<open>In every state a session comes to, the queue holds each message under its own number.\<close>

lemma pending_same: "se_pending s' = se_pending s \<Longrightarrow> pending_ok s' = pending_ok s"
  by (simp add: pending_ok_def)

lemma only_sends_pending: "only_sends s s' \<Longrightarrow> pending_ok s' = pending_ok s"
  by (rule pending_same) (rule only_sendsD(3))

lemma pending_fields [simp]:
  "pending_ok (s\<lparr>se_heartbeat := i\<rparr>) = pending_ok s" "pending_ok (s\<lparr>se_store := st\<rparr>) = pending_ok s"
  "pending_ok (s\<lparr>se_state := q\<rparr>) = pending_ok s" "pending_ok (s\<lparr>se_buffer := b\<rparr>) = pending_ok s"
  "pending_ok (s\<lparr>se_test_sent := t\<rparr>) = pending_ok s" "pending_ok (s\<lparr>se_test_id := k\<rparr>) = pending_ok s"
  "pending_ok (s\<lparr>se_last_received := i\<rparr>) = pending_ok s" "pending_ok (s\<lparr>se_app := a\<rparr>) = pending_ok s"
  "pending_ok (set_next_in v s) = pending_ok s"
  by (simp_all add: pending_ok_def)

lemmas sends_pending = send_only_sends [THEN only_sends_pending] send_all_only_sends [THEN only_sends_pending]
  send_reject_only_sends [THEN only_sends_pending] replay_only_sends [THEN only_sends_pending]

lemma queue_and_request_pending:
  "pending_ok s \<Longrightarrow> msg_seq_num m = Some r \<Longrightarrow> pending_ok (queue_and_request env m e r req s)"
  using queue_and_request_progress by blast

lemma run_on_logon_pending: "pending_ok (run_on_logon env s) = pending_ok s"
  by (simp add: run_on_logon_def sends_pending split: prod.split)

lemma accept_logon_pending: "pending_ok s \<Longrightarrow> pending_ok (accept_logon env m r n s)"
  by (simp add: accept_logon_def Let_def run_on_logon_pending queue_and_request_pending sends_pending split: option.split)

lemma on_logon_pending: "pending_ok s \<Longrightarrow> pending_ok (on_logon env m s)"
  by (simp add: on_logon_def Let_def gone_disconnect [THEN gone_live] accept_logon_pending split: sum.split option.split)

lemma on_raw_message_pending:
  assumes "pending_ok s"
  shows "pending_ok (on_raw_message env raw s)"
proof (cases "cd_decode (sv_codec env) raw True")
  case (Inr m)
  let ?s1 = "s\<lparr>se_last_received := sv_now env, se_test_sent := None\<rparr>"
  have ok: "pending_ok ?s1" using assms by simp
  have "pending_ok (on_message env m ?s1)"
    using on_message_progress [of m ?s1 env] on_logon_pending [OF ok, of env m] ok
    by (cases "msg_type_of m = Some ''A''") (auto simp: on_message_def)
  moreover have "pending_ok (handle_validation_failure env m f ?s1)" for f
    using ok by (simp add: handle_validation_failure_def Let_def gone_disconnect [THEN gone_live]
        sends_pending)
  ultimately show ?thesis using Inr
    by (simp add: on_raw_message_def Let_def handle_comp_id_failure_def gone_disconnect [THEN gone_live] split: option.split)
qed (simp add: on_raw_message_def gone_disconnect [THEN gone_live])

lemma on_raws_pending: "pending_ok s \<Longrightarrow> pending_ok (on_raws env raws s)"
  by (induction raws arbitrary: s) (simp_all add: on_raw_message_pending)

lemma on_data_pending: "pending_ok s \<Longrightarrow> pending_ok (on_data env chunk s)"
  by (auto simp: on_data_def gone_disconnect [THEN gone_live] intro!: on_raws_pending split: sum.split)

lemma tick_pending: "pending_ok s \<Longrightarrow> pending_ok (tick env s)"
  by (simp add: tick_def Let_def gone_disconnect [THEN gone_live] sends_pending split: option.split)

lemma session_step_pending: "session_step env s s' \<Longrightarrow> pending_ok s \<Longrightarrow> pending_ok s'"
  by (induction rule: session_step.induct)
    (simp_all add: attach_def on_data_pending tick_pending gone_disconnect [THEN gone_live] reset_session_def
      sends_pending, simp add: pending_ok_def)

lemma session_reaches_pending: "session_reaches env s s' \<Longrightarrow> pending_ok s \<Longrightarrow> pending_ok s'"
  by (induction rule: rtranclp_induct) (auto intro: session_step_pending)

subsection \<open>A gap filled over a queued message\<close>

text \<open>
  A queued message below the next inbound number is never taken off the queue again. While
  it is there the flag of a requested resend stays set, and no further gap is asked for.
\<close>

lemma stale_queue_asks_nothing:
  assumes "se_state s = ACTIVE" and "se_resend_requested s"
    and "msg_seq_num m = Some r" and "st_next_in (se_store s) < r" and "msg_type_of m \<notin> {Some ''A'', Some ''4''}"
  shows "on_message env m s = s\<lparr>se_pending := AList.update r m (se_pending s)\<rparr>"
  using assms by (auto simp: on_message_def check_sequence_def queue_and_request_def Let_def)

lemma drain_stale:
  assumes "se_pending s = [(k, m)]" and "st_next_in (se_store s) \<noteq> k"
  shows "drain_pending env s = s"
  using assms by (simp add: drain_pending_def Let_def)

lemma gap_filled_over_queue:
  assumes s: "se_state s = ACTIVE" "se_resend_requested s" "se_pending s = [(k, q)]"
    and g: "msg_type_of g = Some ''4''" "msg_seq_num g = Some (st_next_in (se_store s))" "msg_get_int g 36 = Some v"
    and v: "k < v" "st_next_in (se_store s) \<le> v"
  shows "on_message env g s = set_next_in v s"
proof -
  have d: "drain_pending env (set_next_in v s) = set_next_in v s"
    using s(3) v(1) by (intro drain_stale [of _ k q]) simp_all
  show ?thesis using assms
    by (simp add: on_message_def check_sequence_def dispatch_and_drain_def dispatch_def on_sequence_reset_def d)
qed

end
