(* ===== verification/Fix_Wire.thy ===== *)
theory Fix_Wire
  imports Fix_Message Prelude
begin

section \<open>What is written is read back, and how a stream is cut\<close>

definition field_ok :: "int \<times> string \<Rightarrow> bool" where
  "field_ok f \<longleftrightarrow> 0 < fst f \<and> SOH \<notin> set (snd f)"

definition message_ok :: "string \<Rightarrow> fix_message \<Rightarrow> bool" where
  "message_ok bs m \<longleftrightarrow> SOH \<notin> set bs \<and> (\<forall>f \<in> set m. field_ok f) \<and> msg_has m TAG_MSG_TYPE"

definition on_wire :: "string \<Rightarrow> fix_message \<Rightarrow> fix_message" where
  "on_wire bs m = [(TAG_BEGIN_STRING, bs), (TAG_BODY_LENGTH, string_of_nat (length (encode_body m)))] @ sort_fields m @
     [(TAG_CHECKSUM, zero_pad 3 (byte_sum (encode_head bs m) mod 256))]"

subsection \<open>Parsing what was serialised\<close>

lemma set_sort_fields: "set (sort_fields m) = {f \<in> set m. fst f \<notin> structural_tags}"
  by (auto simp: sort_fields_def Let_def)

lemma string_of_int_nat: "0 \<le> i \<Longrightarrow> string_of_int i = string_of_nat (nat i)"
  by (simp add: string_of_int_def)

lemma numerals_written:
  "string_of_int 8 = ''8''" "string_of_int 9 = ''9''" "string_of_int 10 = ''10''"
  by code_simp+

lemma encode_fields: "encode bs m = concat (map field_bytes (on_wire bs m))"
  by (simp add: encode_def encode_head_def on_wire_def encode_body_def field_bytes_def numerals_written)

lemma not_in_digits: "\<not> is_digit c \<Longrightarrow> c \<notin> set (string_of_nat n)" "\<not> is_digit c \<Longrightarrow> c \<notin> set (zero_pad w n)"
  using string_of_nat_digits zero_pad_all(1) by blast+

lemma delimiter_not_digit: "\<not> is_digit SOH" "\<not> is_digit (CHR ''='')"
  by (simp_all add: is_digit_def)

definition field_text :: "int \<times> string \<Rightarrow> bytes" where
  "field_text f = string_of_int (fst f) @ ''='' @ snd f"

lemma field_bytes_text: "field_bytes f = field_text f @ [SOH]" and field_text_nonempty [simp]: "field_text f \<noteq> []"
  by (simp_all add: field_bytes_def field_text_def)

lemma decode_field_written:
  assumes "0 < fst f"
  shows "decode_field (field_text f) = Inr f"
proof -
  let ?t = "string_of_nat (nat (fst f))"
  have "find_sub ''='' (?t @ ''='' @ snd f) = Some (length ?t)"
    using find_sub_at [of "CHR ''=''" ?t "[]" "snd f"] by (simp add: not_in_digits delimiter_not_digit)
  then show ?thesis using assms by (simp add: decode_field_def string_of_int_nat field_text_def)
qed

lemma decode_fields_written:
  "\<forall>f \<in> set fs. 0 < fst f \<Longrightarrow> decode_fields (map field_text fs @ [[]]) = Inr fs"
  by (induction fs) (simp_all add: decode_field_written)

lemma split_written:
  assumes "\<forall>f \<in> set fs. 0 < fst f \<and> SOH \<notin> set (snd f)"
  shows "split_on SOH (concat (map field_bytes fs)) = map field_text fs @ [[]]"
proof -
  have "concat (map field_bytes fs) =
      concat (map (\<lambda>a. a @ [SOH]) (map field_text fs)) @ []"
    by (induction fs) (simp_all add: field_bytes_text)
  also have "split_on SOH \<dots> = map field_text fs @ split_on SOH []"
    by (rule split_on_records) (use assms in \<open>auto simp: field_text_def string_of_int_nat not_in_digits delimiter_not_digit\<close>)
  finally show ?thesis by simp
qed

lemma on_wire_ok:
  assumes "message_ok bs m"
  shows "\<forall>f \<in> set (on_wire bs m). 0 < fst f \<and> SOH \<notin> set (snd f)"
  using assms by (auto simp: on_wire_def message_ok_def field_ok_def set_sort_fields not_in_digits delimiter_not_digit)

lemma length_checksum: "length (zero_pad 3 (n mod 256)) = 3"
proof -
  have "n mod 256 < 10 ^ 3" using mod_less_divisor [of 256 n] by simp
  then have "length (string_of_nat (n mod 256)) \<le> 3" by (intro length_string_of_nat_le) auto
  then show ?thesis by (simp add: length_zero_pad)
qed

lemma encode_head_last: "\<exists>h. encode_head bs m = h @ [SOH]"
proof (cases "sort_fields m" rule: rev_cases)
  case Nil
  then show ?thesis by (simp add: encode_head_def encode_body_def)
next
  case (snoc fs f)
  then show ?thesis by (simp add: encode_head_def encode_body_def field_bytes_def)
qed

lemma find_checksum:
  obtains h where "encode_head bs m = h @ [SOH]" "rfind_sub (SOH # ''10='') (encode bs m) = Some (length h)"
proof -
  obtain h where h: "encode_head bs m = h @ [SOH]" using encode_head_last by blast
  let ?c = "zero_pad 3 (byte_sum (encode_head bs m) mod 256)"
  have "encode bs m = h @ (SOH # ''10='') @ ?c @ SOH # []" by (simp add: encode_def h)
  moreover have "rfind_sub (SOH # ''10='') (h @ (SOH # ''10='') @ ?c @ SOH # []) = Some (length h)"
    by (rule rfind_sub_last) (simp_all add: not_in_digits delimiter_not_digit)
  ultimately show thesis using h that by simp
qed

lemma checksum_accepted:
  assumes "encode_head bs m = h @ [SOH]"
  shows "check_checksum (encode bs m) (length h) = None"
proof -
  let ?c = "zero_pad 3 (byte_sum (encode_head bs m) mod 256)"
  have e: "encode bs m = (h @ [SOH]) @ ''10='' @ ?c @ [SOH]" by (simp add: encode_def assms)
  have "take (length h + 1) (encode bs m) = encode_head bs m" by (simp add: e assms)
  moreover have "take 3 (drop (length h + 4) (encode bs m)) = ?c"
    using length_checksum [of "byte_sum (encode_head bs m)"] by (simp add: e)
  ultimately show ?thesis by (simp add: check_checksum_def Let_def)
qed

lemma decode_encode:
  assumes "message_ok bs m"
  shows "decode (encode bs m) validate = Inr (on_wire bs m)"
proof -
  obtain h where h: "encode_head bs m = h @ [SOH]" "rfind_sub (SOH # ''10='') (encode bs m) = Some (length h)"
    by (rule find_checksum)
  note ok = on_wire_ok [OF assms]
  have f: "decode_fields (split_on SOH (encode bs m)) = Inr (on_wire bs m)"
    unfolding encode_fields split_written [OF ok] by (rule decode_fields_written) (use ok in blast)
  have "msg_has (on_wire bs m) TAG_MSG_TYPE"
    using assms by (auto simp: message_ok_def msg_has_def on_wire_def set_sort_fields structural_tags_def)
  moreover have "ends_with_char SOH (encode bs m)" by (simp add: ends_with_char_def encode_def)
  moreover have "on_wire bs m \<noteq> []" "fst (hd (on_wire bs m)) = TAG_BEGIN_STRING" by (simp_all add: on_wire_def)
  ultimately show ?thesis
    using h(2) f checksum_accepted [OF h(1)] by (simp add: decode_def)
qed

text \<open>Serialising reorders fields of different tags only, so every tag reads as it was set.\<close>

lemma filter_tag_sorted:
  "filter (\<lambda>f. fst f = tag) (sort_key (\<lambda>f. header_rank (fst f)) fs) = filter (\<lambda>f. fst f = tag) (fs :: fix_message)"
proof -
  let ?k = "\<lambda>f :: int \<times> string. header_rank (fst f)"
  have k: "filter (\<lambda>f. fst f = tag) xs = filter (\<lambda>f. fst f = tag) (filter (\<lambda>f. ?k f = header_rank tag) xs)" for xs
    by (induction xs) auto
  have "filter (\<lambda>f. fst f = tag) (sort_key ?k fs) =
      filter (\<lambda>f. fst f = tag) (filter (\<lambda>f. ?k f = header_rank tag) (sort_key ?k fs))" by (rule k)
  also have "\<dots> = filter (\<lambda>f. fst f = tag) (filter (\<lambda>f. ?k f = header_rank tag) fs)"
    by (simp only: sort_key_stable)
  also have "\<dots> = filter (\<lambda>f. fst f = tag) fs" by (rule k [symmetric])
  finally show ?thesis .
qed

lemma msg_get_all_on_wire:
  assumes "tag \<notin> structural_tags"
  shows "msg_get_all (on_wire bs m) tag = msg_get_all m tag"
proof -
  have p: "filter (\<lambda>f. fst f = tag) (sort_fields m) = filter (\<lambda>f. fst f = tag) m"
  proof (cases "tag \<in> set header_order")
    case True
    then have "filter (\<lambda>f. fst f = tag) (filter (\<lambda>f. fst f \<in> set header_order) m') = filter (\<lambda>f. fst f = tag) m'"
      and "filter (\<lambda>f. fst f = tag) (filter (\<lambda>f. fst f \<notin> set header_order) m') = []" for m' :: fix_message
      by (induction m') auto
    moreover have "filter (\<lambda>f. fst f = tag) (filter (\<lambda>f. fst f \<notin> structural_tags) m) = filter (\<lambda>f. fst f = tag) m"
      using assms by (induction m) auto
    ultimately show ?thesis by (simp only: sort_fields_def Let_def filter_append filter_tag_sorted append_Nil2)
  next
    case False
    then have "filter (\<lambda>f. fst f = tag) (filter (\<lambda>f. fst f \<notin> set header_order) m') = filter (\<lambda>f. fst f = tag) m'"
      and "filter (\<lambda>f. fst f = tag) (filter (\<lambda>f. fst f \<in> set header_order) m') = []" for m' :: fix_message
      by (induction m') auto
    moreover have "filter (\<lambda>f. fst f = tag) (filter (\<lambda>f. fst f \<notin> structural_tags) m) = filter (\<lambda>f. fst f = tag) m"
      using assms by (induction m) auto
    ultimately show ?thesis by (simp only: sort_fields_def Let_def filter_append filter_tag_sorted append_Nil)
  qed
  show ?thesis using assms by (simp add: msg_get_all_def on_wire_def structural_tags_def p)
qed

lemma msg_get_first: "msg_get m tag = (case msg_get_all m tag of [] \<Rightarrow> None | v # _ \<Rightarrow> Some v)"
  by (induction m) (auto simp: msg_get_def msg_get_all_def)

lemma msg_get_on_wire: "tag \<notin> structural_tags \<Longrightarrow> msg_get (on_wire bs m) tag = msg_get m tag"
  by (simp add: msg_get_first msg_get_all_on_wire)

subsection \<open>Cutting a stream into messages\<close>

lemma starts_8: "starts_with ''8='' (CHR ''8'' # CHR ''='' # s)"
  by (simp add: starts_with_def)

lemma find_length_tag:
  "SOH \<notin> set bs \<Longrightarrow> find_sub (SOH # ''9='') (''8='' @ bs @ SOH # ''9='' @ s) = Some (length bs + 2)"
  using find_sub_at [of SOH "''8='' @ bs" "''9=''" s] by simp

lemma drop_header: "drop (length bs + 5) (CHR ''8'' # CHR ''='' # bs @ SOH # CHR ''9'' # CHR ''='' # r) = r"
proof -
  have x: "drop (length a) (a @ r) = r" for a :: bytes by simp
  have "drop (length (''8='' @ bs @ SOH # ''9='')) ((''8='' @ bs @ SOH # ''9='') @ r) = r" by (rule x)
  then show ?thesis by (simp add: eval_nat_numeral)
qed

lemma five: "length bs + 2 + 3 = length bs + 5"
  by simp

text \<open>A buffer that ends before the end of BodyLength.\<close>

lemma extract_short:
  assumes "SOH \<notin> set bs" and "length bs \<le> 60" and "p \<in> {''8'', ''8='' @ bs, ''8='' @ bs @ [SOH], ''8='' @ bs @ [SOH, CHR ''9'']}"
  shows "\<exists>t. extract_message p = Inl (Incomplete t)"
proof -
  have f: "find_sub (SOH # ''9='') (''8='' @ bs @ s) = map_option (\<lambda>k. k + length bs + 2) (find_sub (SOH # ''9='') s)" for s
    using find_sub_skip [of SOH "''8='' @ bs" "''9=''" s] assms(1) by (simp add: add.assoc)
  have n: "find_sub (SOH # ''9='') (''8='' @ bs) = None" "find_sub (SOH # ''9='') (''8='' @ bs @ [SOH]) = None"
    "find_sub (SOH # ''9='') (''8='' @ bs @ [SOH, CHR ''9'']) = None"
    using f [of "[]"] f [of "[SOH]"] f [of "[SOH, CHR ''9'']"] by (simp_all add: starts_with_def)
  from assms(3) show ?thesis
    using n assms(2) by (auto simp: extract_message_def starts_8) (simp_all add: starts_with_def)
qed

lemma extract_in_length:
  assumes "SOH \<notin> set bs" and "SOH \<notin> set ds"
  shows "\<exists>t. extract_message (''8='' @ bs @ SOH # ''9='' @ ds) = Inl (Incomplete t)"
proof -
  have "drop (length bs + 5) (''8='' @ bs @ SOH # ''9='' @ ds) = ds" using drop_header [of bs ds] by simp
  then have "find_from [SOH] (length bs + 2 + 3) (''8='' @ bs @ SOH # ''9='' @ ds) = None"
    using find_sub_None [OF assms(2), of "[]"] by (simp only: find_from_def five option.map)
  then show ?thesis
    using find_length_tag [OF assms(1), of ds] by (simp add: extract_message_def starts_8)
qed

lemma extract_after_length:
  assumes bs: "SOH \<notin> set bs" and n: "int n \<le> max_body_length"
    and b: "b = ''8='' @ bs @ SOH # ''9='' @ string_of_nat n @ SOH # t"
  shows "extract_message b =
     (if length t < n + 7 then Inl (Incomplete ''awaiting message body'')
      else if take 3 (drop n t) \<noteq> ''10='' then Inl (Malformed ''CheckSum (10) not at the offset BodyLength implies'')
      else Inr (''8='' @ bs @ SOH # ''9='' @ string_of_nat n @ SOH # take (n + 7) t, drop (n + 7) t))"
proof -
  let ?ds = "string_of_nat n" and ?h = "''8='' @ bs @ SOH # ''9='' @ string_of_nat n @ [SOH]"
  have d: "drop (length bs + 5) b = ?ds @ SOH # t" using drop_header [of bs "?ds @ SOH # t"] by (simp add: b)
  have fl: "find_sub (SOH # ''9='') b = Some (length bs + 2)"
    unfolding b using find_length_tag [OF bs] by simp
  have "find_sub [SOH] (?ds @ SOH # t) = Some (length ?ds)"
    using find_sub_at [of SOH ?ds "[]" t] by (simp add: not_in_digits delimiter_not_digit)
  then have fe: "find_from [SOH] (length bs + 2 + 3) b = Some (length ?ds + (length bs + 5))"
    by (simp only: find_from_def five d option.map)
  have tk: "take (length ?ds + (length bs + 5) - (length bs + 2 + 3)) (drop (length bs + 2 + 3) b) = ?ds"
    unfolding five d by simp
  have bt: "b = ?h @ t" and lh: "length ?h = length ?ds + (length bs + 5) + 1" by (simp_all add: b)
  have st: "starts_with ''8='' b" by (simp add: b starts_8)
  have n0: "\<not> (int n < 0 \<or> int n > max_body_length)" using n by simp
  have gen: "(let message_end = length a + n + 7 in
      if length (a @ t) < message_end then Inl (Incomplete ''awaiting message body'')
      else if take 3 (drop (length a + n) (a @ t)) \<noteq> ''10=''
      then Inl (Malformed ''CheckSum (10) not at the offset BodyLength implies'')
      else Inr (take message_end (a @ t), drop message_end (a @ t))) =
     (if length t < n + 7 then Inl (Incomplete ''awaiting message body'')
      else if take 3 (drop n t) \<noteq> ''10='' then Inl (Malformed ''CheckSum (10) not at the offset BodyLength implies'')
      else Inr (a @ take (n + 7) t, drop (n + 7) t))" for a :: bytes
    by (simp add: Let_def add.assoc)
  have "extract_message b = (let message_end = length ?h + n + 7 in
      if length b < message_end then Inl (Incomplete ''awaiting message body'')
      else if take 3 (drop (length ?h + n) b) \<noteq> ''10=''
      then Inl (Malformed ''CheckSum (10) not at the offset BodyLength implies'')
      else Inr (take message_end b, drop message_end b))"
    unfolding extract_message_def lh Let_def
    by (simp only: st if_True option.case drop_0 fl fe tk int_of_string_of_nat n0 if_False nat_int)
  also have "\<dots> = (if length t < n + 7 then Inl (Incomplete ''awaiting message body'')
      else if take 3 (drop n t) \<noteq> ''10='' then Inl (Malformed ''CheckSum (10) not at the offset BodyLength implies'')
      else Inr (?h @ take (n + 7) t, drop (n + 7) t))"
    unfolding bt by (rule gen)
  finally show ?thesis by simp
qed

definition frame_ok :: "string \<Rightarrow> fix_message \<Rightarrow> bool" where
  "frame_ok bs m \<longleftrightarrow> SOH \<notin> set bs \<and> length bs \<le> 60 \<and> int (length (encode_body m)) \<le> max_body_length"

lemma encode_split:
  "encode bs m = ''8='' @ bs @ SOH # ''9='' @ string_of_nat (length (encode_body m)) @ SOH #
     (encode_body m @ ''10='' @ zero_pad 3 (byte_sum (encode_head bs m) mod 256) @ [SOH])"
  by (simp add: encode_def encode_head_def)

lemma length_trailer: "length (''10='' @ zero_pad 3 (n mod 256) @ [SOH]) = 7"
  using length_checksum [of n] by simp

text \<open>A complete message is cut off whatever follows it, and its proper prefixes wait for more.\<close>

lemma extract_encoded:
  assumes "frame_ok bs m"
  shows "extract_message (encode bs m @ rest) = Inr (encode bs m, rest)"
proof -
  let ?n = "length (encode_body m)" and ?tr = "''10='' @ zero_pad 3 (byte_sum (encode_head bs m) mod 256) @ [SOH]"
  let ?t = "encode_body m @ ?tr @ rest"
  have l: "length ?tr = 7" by (rule length_trailer)
  have b: "encode bs m @ rest = ''8='' @ bs @ SOH # ''9='' @ string_of_nat ?n @ SOH # ?t"
    unfolding encode_split by simp
  have "take 3 (drop ?n ?t) = ''10=''" by simp
  moreover have "take (?n + 7) ?t = encode_body m @ ?tr" "drop (?n + 7) ?t = rest" "\<not> length ?t < ?n + 7"
    using l by (simp_all del: append_Cons append.simps)
  ultimately show ?thesis
    using extract_after_length [OF _ _ b] assms unfolding encode_split by (simp add: frame_ok_def)
qed

lemma encode_prefix_cases:
  assumes pq: "p @ q = encode bs m" and q: "q \<noteq> []" and p: "p \<noteq> []"
  obtains (short) "p \<in> {''8'', ''8='' @ bs @ [SOH], ''8='' @ bs @ [SOH, CHR ''9'']}"
  | (start) a where "p = ''8='' @ a" "set a \<subseteq> set bs" "length a \<le> length bs"
  | (len) ds where "p = ''8='' @ bs @ SOH # ''9='' @ ds" "set ds \<subseteq> set (string_of_nat (length (encode_body m)))"
  | (rest) t where "p = ''8='' @ bs @ SOH # ''9='' @ string_of_nat (length (encode_body m)) @ SOH # t"
      "length t < length (encode_body m) + 7"
proof -
  let ?n = "length (encode_body m)" and ?tr = "''10='' @ zero_pad 3 (byte_sum (encode_head bs m) mod 256) @ [SOH]"
  let ?ds = "string_of_nat ?n" and ?t = "encode_body m @ ?tr"
  have lt: "length ?t = ?n + 7" using length_trailer [of "byte_sum (encode_head bs m)"] by simp
  have e: "p @ q = CHR ''8'' # CHR ''='' # bs @ SOH # CHR ''9'' # CHR ''='' # ?ds @ SOH # ?t"
    using pq unfolding encode_split by simp
  show thesis
  proof (cases "length p = 1")
    case True
    then have "p = ''8''" using e by (cases p) auto
    then show thesis by (intro short) simp
  next
    case False
    then obtain p2 where p2: "p = CHR ''8'' # CHR ''='' # p2" "p2 @ q = bs @ SOH # CHR ''9'' # CHR ''='' # ?ds @ SOH # ?t"
      using e p by (cases p; cases "tl p") auto
    from p2(2) consider us where "p2 @ us = bs" | us where "p2 = bs @ us" "us @ q = SOH # CHR ''9'' # CHR ''='' # ?ds @ SOH # ?t"
      by (auto simp: append_eq_append_conv2)
    then show thesis
    proof cases
      case 1
      then show thesis using p2(1) by (intro start [of p2]) auto
    next
      case (2 us)
      show thesis
      proof (cases "length us < 3")
        case True
        then have "us \<in> {[], [SOH], [SOH, CHR ''9'']}"
          using 2(2) by (cases us; cases "tl us"; cases "tl (tl us)") auto
        then show thesis using p2(1) 2(1) short start [of bs] by auto
      next
        case False
        then obtain us3 where us3: "us = SOH # CHR ''9'' # CHR ''='' # us3" "us3 @ q = ?ds @ SOH # ?t"
          using 2(2) by (cases us; cases "tl us"; cases "tl (tl us)") auto
        from us3(2) consider v where "us3 @ v = ?ds" | v where "us3 = ?ds @ v" "v @ q = SOH # ?t"
          by (auto simp: append_eq_append_conv2)
        then show thesis
        proof cases
          case (1 v)
          then have "set us3 \<subseteq> set ?ds" by (metis Un_upper1 set_append)
          then show thesis using p2(1) 2(1) us3(1) by (intro len [of us3]) auto
        next
          case v: (2 v)
          show thesis
          proof (cases v)
            case Nil
            then show thesis using p2(1) 2(1) us3(1) v(1) by (intro len [of ?ds]) auto
          next
            case (Cons c w)
            then have w: "c = SOH" "w @ q = ?t" using v(2) by auto
            then have "length w + length q = ?n + 7" using lt by (metis length_append)
            moreover have "0 < length q" using q by simp
            ultimately have "length w < ?n + 7" by linarith
            then show thesis using p2(1) 2(1) us3(1) v(1) Cons w(1) \<open>length w < ?n + 7\<close> by (intro rest [of w]) auto
          qed
        qed
      qed
    qed
  qed
qed

lemma extract_partial:
  assumes ok: "frame_ok bs m" and pq: "p @ q = encode bs m" "q \<noteq> []" "p \<noteq> []"
  shows "\<exists>t. extract_message p = Inl (Incomplete t)"
  using pq
proof (cases rule: encode_prefix_cases)
  case short
  then show ?thesis using ok by (intro extract_short [of bs]) (auto simp: frame_ok_def)
next
  case (start a)
  then show ?thesis using ok by (intro extract_short [of a]) (auto simp: frame_ok_def)
next
  case (len ds)
  then have "SOH \<notin> set ds" using not_in_digits(1) [OF delimiter_not_digit(1)] by blast
  then show ?thesis using ok extract_in_length [of bs ds] len(1) by (simp add: frame_ok_def)
next
  case (rest t)
  then show ?thesis using ok extract_after_length [OF _ _ rest(1)] by (simp add: frame_ok_def)
qed

subsection \<open>Any framer that cuts complete messages and waits for partial ones\<close>

text \<open>
  What a receiver relies on: a complete message is cut off whatever follows, a proper
  prefix of one is kept. Then the cut of a stream into messages does not depend on how
  the transport fragments it.
\<close>

locale stream_framing =
  fixes cut :: "bytes \<Rightarrow> fix_error + bytes \<times> bytes"
    and loop :: "bytes \<Rightarrow> 'e + bytes list \<times> bytes"
    and good :: "bytes \<Rightarrow> bool"
  assumes good_nonempty: "good e \<Longrightarrow> e \<noteq> []"
    and cut_full: "good e \<Longrightarrow> cut (e @ r) = Inr (e, r)"
    and cut_partial: "good e \<Longrightarrow> p @ q = e \<Longrightarrow> q \<noteq> [] \<Longrightarrow> p \<noteq> [] \<Longrightarrow> \<exists>t. cut p = Inl (Incomplete t)"
    and loop_empty: "loop [] = Inr ([], [])"
    and loop_wait: "b \<noteq> [] \<Longrightarrow> cut b = Inl (Incomplete t) \<Longrightarrow> loop b = Inr ([], b)"
    and loop_cut: "b \<noteq> [] \<Longrightarrow> cut b = Inr (raw, rest) \<Longrightarrow>
      loop b = (case loop rest of Inl e \<Rightarrow> Inl e | Inr (raws, left) \<Rightarrow> Inr (raw # raws, left))"
begin

lemma prefix_of_stream:
  "xs @ ys = concat es \<Longrightarrow> \<forall>e \<in> set es. good e \<Longrightarrow>
   \<exists>j p. j \<le> length es \<and> xs = concat (take j es) @ p \<and> p @ ys = concat (drop j es) \<and>
     (p = [] \<or> (j < length es \<and> (\<exists>q. q \<noteq> [] \<and> p @ q = es ! j)))"
proof (induction es arbitrary: xs)
  case Nil
  then show ?case by simp
next
  case (Cons e es)
  from Cons.prems(1) consider us where "xs @ us = e" "us \<noteq> []" | us where "xs = e @ us" "us @ ys = concat es"
    by (auto simp: append_eq_append_conv2) (metis append_self_conv)
  then show ?case
  proof cases
    case 1
    then show ?thesis using Cons.prems(1) by (intro exI [of _ 0] exI [of _ xs]) auto
  next
    case (2 us)
    from Cons.IH [OF 2(2)] Cons.prems(2) obtain j p where
      "j \<le> length es" "us = concat (take j es) @ p" "p @ ys = concat (drop j es)"
      "p = [] \<or> (j < length es \<and> (\<exists>q. q \<noteq> [] \<and> p @ q = es ! j))" by auto
    then show ?thesis using 2(1) by (intro exI [of _ "Suc j"] exI [of _ p]) auto
  qed
qed

lemma loop_stream:
  assumes "\<forall>e \<in> set es. good e" and "p = [] \<or> (\<exists>e q. good e \<and> q \<noteq> [] \<and> p @ q = e)"
  shows "loop (concat es @ p) = Inr (es, p)"
  using assms(1)
proof (induction es)
  case Nil
  then show ?case
  proof (cases "p = []")
    case False
    then obtain t where "cut p = Inl (Incomplete t)" using assms(2) cut_partial by blast
    with False show ?thesis by (simp add: loop_wait)
  qed (simp add: loop_empty)
next
  case (Cons e es)
  then have "cut (e @ concat es @ p) = Inr (e, concat es @ p)" "e @ concat es @ p \<noteq> []"
    using cut_full good_nonempty by auto
  then show ?case using Cons by (simp add: loop_cut [of "e @ concat es @ p"])
qed

lemma feed_stream:
  assumes "\<forall>e \<in> set es. good e" and "buffer @ concat chunks = concat es"
    and "buffer = [] \<or> (\<exists>e q. es \<noteq> [] \<and> q \<noteq> [] \<and> buffer @ q = hd es)"
  shows "feed_with loop buffer chunks = Inr (es, [])"
  using assms
proof (induction chunks arbitrary: es buffer)
  case Nil
  show ?case
  proof (cases es)
    case (Cons e es')
    have "length buffer = length e + length (concat es')" using Nil(2) Cons by simp
    moreover have "buffer = [] \<or> length buffer < length e" using Nil(3) Cons by auto
    ultimately have False using good_nonempty [of e] Nil(1) Cons by auto
    then show ?thesis ..
  qed (use Nil in simp)
next
  case (Cons c chunks)
  have "(buffer @ c) @ concat chunks = concat es" using Cons.prems(2) by simp
  from prefix_of_stream [OF this Cons.prems(1)] obtain j p where j: "j \<le> length es"
      "buffer @ c = concat (take j es) @ p" "p @ concat chunks = concat (drop j es)"
      "p = [] \<or> (j < length es \<and> (\<exists>q. q \<noteq> [] \<and> p @ q = es ! j))" by blast
  have gd: "\<forall>e \<in> set (take j es). good e" "\<forall>e \<in> set (drop j es). good e"
    using Cons.prems(1) by (auto dest: in_set_takeD in_set_dropD)
  have pr: "p = [] \<or> (\<exists>e q. good e \<and> q \<noteq> [] \<and> p @ q = e)"
    using j(4) Cons.prems(1) by (metis nth_mem)
  have "loop (buffer @ c) = Inr (take j es, p)" unfolding j(2) by (rule loop_stream [OF gd(1) pr])
  moreover have "feed_with loop p chunks = Inr (drop j es, [])"
    by (rule Cons.IH [OF gd(2) j(3)]) (use j(4) in \<open>auto simp: hd_drop_conv_nth\<close>)
  ultimately show ?case by simp
qed

end

interpretation fix_framing: stream_framing extract_message frame_loop
  "\<lambda>e. \<exists>bs m. frame_ok bs m \<and> e = encode bs m"
proof unfold_locales
  show "\<exists>bs m. frame_ok bs m \<and> e = encode bs m \<Longrightarrow> e \<noteq> []" for e by (auto simp: encode_def)
  show "\<exists>bs m. frame_ok bs m \<and> e = encode bs m \<Longrightarrow> extract_message (e @ r) = Inr (e, r)" for e r
    using extract_encoded by blast
  show "\<exists>bs m. frame_ok bs m \<and> e = encode bs m \<Longrightarrow> p @ q = e \<Longrightarrow> q \<noteq> [] \<Longrightarrow> p \<noteq> [] \<Longrightarrow>
      \<exists>t. extract_message p = Inl (Incomplete t)" for e p q
    using extract_partial by blast
qed (simp_all add: frame_loop.simps)

end
