(* ===== verification/Fix_Store_Facts.thy ===== *)
theory Fix_Store_Facts
  imports Fix_Store Ids
begin

section \<open>The file store is the memory store, and survives a restart\<close>

text \<open>Where the records of a log lie, and what a dictionary of messages they amount to.\<close>

fun offs :: "nat \<Rightarrow> (int \<times> bytes) list \<Rightarrow> (int \<times> nat \<times> int) list \<Rightarrow> (int \<times> nat \<times> int) list" where
  "offs pos [] acc = acc"
| "offs pos (r # rs) acc =
     offs (pos + length (log_record r)) rs
       (AList.update (fst r) (pos + length (record_header (fst r) (snd r)), int (length (snd r))) acc)"

fun written :: "(int \<times> bytes) list \<Rightarrow> (int \<times> bytes) list \<Rightarrow> (int \<times> bytes) list" where
  "written [] acc = acc"
| "written (r # rs) acc = written rs (AList.update (fst r) (snd r) acc)"

lemma offs_append: "offs pos (rs @ rs') acc = offs (pos + length (concat (map log_record rs))) rs' (offs pos rs acc)"
  by (induction rs arbitrary: pos acc) (simp_all add: add.assoc)

lemma written_append: "written (rs @ rs') acc = written rs' (written rs acc)"
  by (induction rs arbitrary: acc) simp_all

lemma log_record_parts: "log_record r = record_header (fst r) (snd r) @ snd r @ ''\<newline>''"
  by (simp add: log_record_def)

subsection \<open>Reading a header back\<close>

lemma words_from_end: "\<forall>c \<in> set a. \<not> is_c_space c \<Longrightarrow> words_from w a = (if w @ a = [] then [] else [w @ a])"
  by (induction a arbitrary: w) auto

lemma words_from_word:
  "\<forall>c \<in> set a. \<not> is_c_space c \<Longrightarrow> is_c_space d \<Longrightarrow> w @ a \<noteq> [] \<Longrightarrow>
   words_from w (a @ d # s) = (w @ a) # words_from [] s"
  by (induction a arbitrary: w) auto

lemma numeral_no_space: "\<forall>c \<in> set (string_of_int i). \<not> is_c_space c" "\<forall>c \<in> set (string_of_nat n). \<not> is_c_space c"
proof -
  have d: "is_digit c \<Longrightarrow> \<not> is_c_space c" for c by (auto simp: is_digit_def is_c_space_def Let_def)
  then show n: "\<forall>c \<in> set (string_of_nat n). \<not> is_c_space c" for n using string_of_nat_digits by blast
  have "\<not> is_c_space (CHR ''-'')" by code_simp
  then show "\<forall>c \<in> set (string_of_int i). \<not> is_c_space c" using n by (auto simp: string_of_int_def)
qed

lemma string_of_int_nonempty [simp]: "string_of_int i \<noteq> []"
  by (simp add: string_of_int_def)

lemma spaces: "is_c_space (CHR '' '')" "is_c_space (CHR ''\<newline>'')"
  by code_simp+

lemma parse_header_written:
  assumes "\<forall>c \<in> set ds. is_digit c" and "ds \<noteq> []" and "end \<in> {[], ''\<newline>''}"
  shows "parse_header (string_of_int seq @ '' '' @ ds @ end) = Some (seq, int (nat_of_digits ds))"
proof -
  have sp: "\<forall>c \<in> set ds. \<not> is_c_space c" using assms(1) by (auto simp: is_digit_def is_c_space_def Let_def)
  have "words_from [] (ds @ end) = [ds]"
    using assms(2,3) words_from_end [OF sp, of "[]"] words_from_word [OF sp spaces(2), of "[]" "[]"] by auto
  then have "words_from [] (string_of_int seq @ CHR '' '' # ds @ end) = [string_of_int seq, ds]"
    using words_from_word [OF numeral_no_space(1) spaces(1), of "[]" seq "ds @ end"] by simp
  with int_of_digits(1) [OF assms(1,2)] show ?thesis by (simp add: parse_header_def)
qed

lemma parse_record_header: "parse_header (record_header seq raw) = Some (seq, int (length raw))"
  using parse_header_written [of "string_of_nat (length raw)" "''\<newline>''" seq] by (simp add: record_header_def)

lemma newline_not_in: "CHR ''\<newline>'' \<notin> set (string_of_int i)" "CHR ''\<newline>'' \<notin> set (string_of_nat n)"
  using numeral_no_space spaces(2) by blast+

lemma read_line_header: "read_line (record_header seq raw @ s) = record_header seq raw"
proof -
  let ?a = "string_of_int seq @ '' '' @ string_of_nat (length raw)"
  have "find_sub ''\<newline>'' (?a @ ''\<newline>'' @ s) = Some (length ?a)"
    by (rule find_sub_at [of _ _ "[]"]) (simp add: newline_not_in)
  then have "read_line (?a @ ''\<newline>'' @ s) = take (Suc (length ?a)) (?a @ ''\<newline>'' @ s)" by (simp add: read_line_def)
  also have "\<dots> = ?a @ ''\<newline>''" by simp
  finally show ?thesis by (simp add: record_header_def)
qed

lemma record_header_nonempty [simp]: "record_header seq raw \<noteq> []"
  by (simp add: record_header_def)

text \<open>Indexing walks over complete records.\<close>

lemma index_loop_record:
  "index_loop pos (log_record r @ tail) acc =
   index_loop (pos + length (log_record r)) tail
     (AList.update (fst r) (pos + length (record_header (fst r) (snd r)), int (length (snd r))) acc)"
proof -
  let ?h = "record_header (fst r) (snd r)"
  have a: "log_record r @ tail = ?h @ snd r @ CHR ''\<newline>'' # tail" by (simp add: log_record_parts)
  have "index_loop pos (?h @ snd r @ CHR ''\<newline>'' # tail) acc =
      index_loop (pos + length ?h + length (snd r) + 1) tail (AList.update (fst r) (pos + length ?h, int (length (snd r))) acc)"
    by (subst index_loop.simps) (simp add: read_line_header parse_record_header file_read_def Let_def)
  then show ?thesis unfolding a by (simp add: log_record_parts add.assoc)
qed

lemma index_loop_records:
  "index_loop pos (concat (map log_record rs) @ tail) acc =
   index_loop (pos + length (concat (map log_record rs))) tail (offs pos rs acc)"
  by (induction rs arbitrary: pos acc) (simp_all add: index_loop_record add.assoc)

lemma index_log_records: "index_log (concat (map log_record rs)) = offs 0 rs []"
  using index_loop_records [of 0 rs "[]" "[]"] by (simp add: index_log_def index_loop.simps)

subsection \<open>The refinement\<close>

definition read_all :: "bytes \<Rightarrow> (int \<times> nat \<times> int) list \<Rightarrow> (int \<times> bytes) list" where
  "read_all contents os = map (\<lambda>(s, off, len). (s, file_read contents off len)) os"

lemma read_all_update:
  "read_all c (AList.update s (off, len) os) = AList.update s (file_read c off len) (read_all c os)"
  by (induction os) (auto simp: read_all_def)

lemma read_all_offs:
  "drop pos c = concat (map log_record rs) @ tail \<Longrightarrow> read_all c (offs pos rs acc) = written rs (read_all c acc)"
proof (induction rs arbitrary: pos acc)
  case Nil
  then show ?case by simp
next
  case (Cons r rs)
  let ?h = "record_header (fst r) (snd r)"
  have d: "drop pos c = ?h @ snd r @ CHR ''\<newline>'' # concat (map log_record rs) @ tail"
    using Cons.prems by (simp add: log_record_parts [of r])
  have "drop (pos + length (log_record r)) c = drop (length (log_record r)) (drop pos c)" by (simp add: add.commute)
  also have "\<dots> = concat (map log_record rs) @ tail" using Cons.prems by simp
  finally have n: "drop (pos + length (log_record r)) c = concat (map log_record rs) @ tail" .
  have "drop (pos + length ?h) c = drop (length ?h) (drop pos c)" by (simp add: add.commute)
  also have "\<dots> = snd r @ CHR ''\<newline>'' # concat (map log_record rs) @ tail" using d by simp
  finally have "file_read c (pos + length ?h) (int (length (snd r))) = snd r" by (simp add: file_read_def)
  with Cons.IH [OF n] show ?case by (simp add: read_all_update)
qed

definition store_abs :: "file_store \<Rightarrow> mem_store" where
  "store_abs f = \<lparr>st_next_out = fs_next_out f, st_next_in = fs_next_in f, st_messages = read_all (fs_log f) (fs_offsets f)\<rparr>"

text \<open>The log is a sequence of complete records, the index is theirs, and the state file is current.\<close>

definition store_inv :: "file_store \<Rightarrow> bool" where
  "store_inv f \<longleftrightarrow> (\<exists>rs. fs_log f = concat (map log_record rs) \<and> fs_offsets f = offs 0 rs []) \<and>
     (fs_state f = State (Some (fs_next_out f)) (Some (fs_next_in f)) \<or>
      fs_state f = Absent \<and> fs_next_out f = 1 \<and> fs_next_in f = 1)"

lemma store_abs_records:
  assumes "fs_log f = concat (map log_record rs)" and "fs_offsets f = offs 0 rs []"
  shows "st_messages (store_abs f) = written rs []"
  using read_all_offs [of 0 "fs_log f" rs "[]" "[]"] assms by (simp add: store_abs_def read_all_def)

lemma fresh_store: "store_inv (open_store (new_file_store [] Absent))" "store_abs (open_store (new_file_store [] Absent)) = empty_store"
  "fs_open (open_store (new_file_store [] Absent))"
  by (auto simp: store_inv_def open_store_def new_file_store_def load_state_def index_log_def index_loop.simps
      store_abs_def empty_store_def read_all_def intro: exI [of _ "[]"])

lemma file_outbound_sim:
  assumes inv: "store_inv f" and op: "fs_open f"
  obtains f' where "file_store_outbound seq raw f = Inr f'" "store_inv f'" "fs_open f'"
    "store_abs f' = mem_store_outbound seq raw (store_abs f)"
proof -
  obtain rs where rs: "fs_log f = concat (map log_record rs)" "fs_offsets f = offs 0 rs []"
    using inv by (auto simp: store_inv_def)
  let ?f = "f\<lparr>fs_log := fs_log f @ log_record (seq, raw),
     fs_offsets := AList.update seq (length (fs_log f) + length (record_header seq raw), int (length raw)) (fs_offsets f)\<rparr>"
  have l: "fs_log ?f = concat (map log_record (rs @ [(seq, raw)]))" "fs_offsets ?f = offs 0 (rs @ [(seq, raw)]) []"
    using rs by (simp_all add: offs_append)
  have "store_inv ?f" unfolding store_inv_def
    by (rule conjI, rule exI [of _ "rs @ [(seq, raw)]"]) (use l inv in \<open>simp_all add: store_inv_def\<close>)
  moreover have "st_messages (store_abs ?f) = AList.update seq raw (st_messages (store_abs f))"
    using store_abs_records [OF l] store_abs_records [OF rs] by (simp add: written_append)
  then have "store_abs ?f = mem_store_outbound seq raw (store_abs f)"
    by (simp add: mem_store_outbound_def) (simp add: store_abs_def)
  ultimately show thesis using op by (intro that [of ?f]) (simp_all add: file_store_outbound_def)
qed

lemma keys_read_all [simp]: "map fst (read_all c os) = map fst os"
  by (induction os) (auto simp: read_all_def)

lemma map_of_read_all: "map_of (read_all c os) s = map_option (\<lambda>(off, len). file_read c off len) (map_of os s)"
  by (induction os) (auto simp: read_all_def)

lemma file_get_sim: "file_get_outbound b e f = mem_get_outbound b e (store_abs f)"
proof (cases "fs_offsets f = []")
  case True
  then show ?thesis by (simp add: file_get_outbound_def mem_get_outbound_def store_abs_def read_all_def)
next
  case False
  have v: "(case the (map_of (fs_offsets f) s) of (off, len) \<Rightarrow> (s, file_read (fs_log f) off len)) =
      (s, the (map_of (read_all (fs_log f) (fs_offsets f)) s))" if "s \<in> set (map fst (fs_offsets f))" for s
  proof -
    have "map_of (fs_offsets f) s \<noteq> None" using that by (simp add: map_of_eq_None_iff)
    then obtain x where "map_of (fs_offsets f) s = Some x" by blast
    then show ?thesis by (cases x) (simp add: map_of_read_all)
  qed
  show ?thesis using False v
    by (auto simp: file_get_outbound_def mem_get_outbound_def store_abs_def Let_def split: option.splits)
qed

lemma file_state_sim:
  "store_abs (file_set_next_out v f) = mem_set_next_out v (store_abs f)"
  "store_abs (file_set_next_in v f) = mem_set_next_in v (store_abs f)"
  "store_abs (file_reset f) = mem_reset (store_abs f)"
  by (simp_all add: store_abs_def file_set_next_out_def file_set_next_in_def file_reset_def save_state_def
      mem_set_next_out_def mem_set_next_in_def mem_reset_def read_all_def)

lemma file_state_inv:
  "store_inv f \<Longrightarrow> store_inv (file_set_next_out v f) \<and> store_inv (file_set_next_in v f)" "store_inv (file_reset f)"
  by (auto simp: store_inv_def file_set_next_out_def file_set_next_in_def file_reset_def save_state_def
      intro: exI [of _ "[]"])

lemma restart_sim:
  assumes "store_inv f"
  shows "store_abs (open_store (new_file_store (fs_log f) (fs_state f))) = store_abs f"
    and "store_inv (open_store (new_file_store (fs_log f) (fs_state f)))"
    and "fs_open (open_store (new_file_store (fs_log f) (fs_state f)))"
proof -
  obtain rs where rs: "fs_log f = concat (map log_record rs)" "fs_offsets f = offs 0 rs []"
    using assms by (auto simp: store_inv_def)
  then have i: "index_log (fs_log f) = fs_offsets f" by (simp add: index_log_records)
  show "store_abs (open_store (new_file_store (fs_log f) (fs_state f))) = store_abs f"
    using assms by (auto simp: store_inv_def store_abs_def open_store_def new_file_store_def load_state_def i)
  show "store_inv (open_store (new_file_store (fs_log f) (fs_state f)))"
    using assms by (auto simp: store_inv_def open_store_def new_file_store_def load_state_def i)
  show "fs_open (open_store (new_file_store (fs_log f) (fs_state f)))"
    by (simp add: open_store_def new_file_store_def load_state_def split: state_file.split)
qed

subsection \<open>The interface both stores implement\<close>

text \<open>The operations of \<open>Store\<close>, and a restart of the process that owns it.\<close>

datatype store_op = Set_Out int | Set_In int | Outbound int bytes | Reset | Restart

fun mem_op :: "store_op \<Rightarrow> mem_store \<Rightarrow> mem_store" where
  "mem_op (Set_Out v) s = mem_set_next_out v s"
| "mem_op (Set_In v) s = mem_set_next_in v s"
| "mem_op (Outbound seq raw) s = mem_store_outbound seq raw s"
| "mem_op Reset s = mem_reset s"
| "mem_op Restart s = s"

fun file_op :: "store_op \<Rightarrow> file_store \<Rightarrow> exn + file_store" where
  "file_op (Set_Out v) f = Inr (file_set_next_out v f)"
| "file_op (Set_In v) f = Inr (file_set_next_in v f)"
| "file_op (Outbound seq raw) f = file_store_outbound seq raw f"
| "file_op Reset f = Inr (file_reset f)"
| "file_op Restart f = Inr (open_store (new_file_store (fs_log f) (fs_state f)))"

fun run_ops :: "(store_op \<Rightarrow> 's \<Rightarrow> exn + 's) \<Rightarrow> store_op list \<Rightarrow> 's \<Rightarrow> exn + 's" where
  "run_ops step [] s = Inr s"
| "run_ops step (x # xs) s = bind_exn (step x s) (run_ops step xs)"

locale store_implementation =
  fixes good :: "'s \<Rightarrow> bool"
    and step :: "store_op \<Rightarrow> 's \<Rightarrow> exn + 's"
    and get :: "int \<Rightarrow> int option \<Rightarrow> 's \<Rightarrow> (int \<times> bytes) list"
    and abs :: "'s \<Rightarrow> mem_store"
  assumes step_sim: "good s \<Longrightarrow> \<exists>s'. step x s = Inr s' \<and> good s' \<and> abs s' = mem_op x (abs s)"
    and get_sim: "get b e s = mem_get_outbound b e (abs s)"
begin

lemma run_sim: "good s \<Longrightarrow> \<exists>s'. run_ops step xs s = Inr s' \<and> good s' \<and> abs s' = fold mem_op xs (abs s)"
proof (induction xs arbitrary: s)
  case (Cons x xs)
  from step_sim [OF Cons.prems, of x] obtain s1 where "step x s = Inr s1" "good s1" "abs s1 = mem_op x (abs s)" by blast
  with Cons.IH [of s1] show ?case by simp
qed simp

lemma run_get: "good s \<Longrightarrow> run_ops step xs s = Inr s' \<Longrightarrow> get b e s' = mem_get_outbound b e (fold mem_op xs (abs s))"
  using run_sim [of s xs] get_sim by auto

end

interpretation in_memory: store_implementation "\<lambda>_. True" "\<lambda>x s. Inr (mem_op x s)" mem_get_outbound "\<lambda>s. s"
  by unfold_locales auto

interpretation on_disk: store_implementation "\<lambda>f. store_inv f \<and> fs_open f" file_op file_get_outbound store_abs
proof unfold_locales
  fix f x assume f: "store_inv f \<and> fs_open f"
  show "\<exists>f'. file_op x f = Inr f' \<and> (store_inv f' \<and> fs_open f') \<and> store_abs f' = mem_op x (store_abs f)"
  proof (cases x)
    case (Outbound seq raw)
    with f show ?thesis by (auto elim!: file_outbound_sim [of f seq raw])
  next
    case Restart
    with f restart_sim [of f] show ?thesis by simp
  qed (use f in \<open>simp_all add: file_state_sim file_state_inv,
      simp_all add: file_set_next_out_def file_set_next_in_def file_reset_def save_state_def\<close>)
qed (rule file_get_sim)

subsection \<open>A log that was cut short\<close>

lemma file_read_0: "0 \<le> len \<Longrightarrow> file_read s 0 len = take (nat len) s"
  by (simp add: file_read_def)

lemma hd_string_of_nat: "0 < n \<Longrightarrow> hd (string_of_nat n) \<noteq> CHR ''0''"
proof (induction n rule: string_of_nat.induct)
  case (1 n)
  show ?case
  proof (cases "n < 10")
    case True
    have z: "digit_val (CHR ''0'') = 0" by code_simp
    have "digit_val (digit_char n) = n" using True by simp
    then have "digit_char n \<noteq> CHR ''0''" using z "1.prems" by auto
    then show ?thesis using True by (simp add: string_of_nat.simps [of n])
  next
    case False
    then show ?thesis using "1.IH" by (simp add: string_of_nat.simps [of n])
  qed
qed

lemma prefix_of_numeral:
  assumes "0 < n" and "0 < k"
  shows "0 < nat_of_digits (take k (string_of_nat n))"
proof -
  obtain c cs where c: "string_of_nat n = c # cs" by (cases "string_of_nat n") auto
  then obtain k' where k: "take k (string_of_nat n) = c # take k' cs" using assms(2) by (cases k) auto
  have "is_digit c" using c string_of_nat_digits [of c n] by simp
  moreover have "c \<noteq> CHR ''0''" using hd_string_of_nat [OF assms(1)] c by simp
  ultimately have "0 < digit_val c"
    using is_digit_val_inject [of c "CHR ''0''"] by (auto simp: is_digit_def digit_val_def)
  then show ?thesis unfolding k by (simp add: nat_of_digits_Cons)
qed

text \<open>A header without its line end says at least one byte follows, or is no header at all.\<close>

lemma partial_header:
  assumes raw: "raw \<noteq> []" and k: "k < length (record_header seq raw)"
  shows "parse_header (take k (record_header seq raw)) = None \<or>
    (\<exists>len. parse_header (take k (record_header seq raw)) = Some (seq, len) \<and> 0 < len)"
proof -
  let ?s = "string_of_int seq" and ?d = "string_of_nat (length raw)"
  have one: "parse_header (take j ?s) = None" for j
  proof -
    have "\<forall>c \<in> set (take j ?s). \<not> is_c_space c" using numeral_no_space(1) by (auto dest: in_set_takeD)
    from words_from_end [OF this, of "[]"] show ?thesis by (auto simp: parse_header_def)
  qed
  consider "k \<le> length ?s" | "k = Suc (length ?s)" | j where "k = length ?s + 1 + j" "0 < j" "j \<le> length ?d"
  proof -
    assume a: "k \<le> length ?s \<Longrightarrow> thesis" "k = Suc (length ?s) \<Longrightarrow> thesis"
      "\<And>j. k = length ?s + 1 + j \<Longrightarrow> 0 < j \<Longrightarrow> j \<le> length ?d \<Longrightarrow> thesis"
    have "k \<le> length ?s \<or> k = Suc (length ?s) \<or> k = length ?s + 1 + (k - length ?s - 1) \<and> 0 < k - length ?s - 1 \<and>
        k - length ?s - 1 \<le> length ?d" using k by (auto simp: record_header_def)
    with a show thesis by blast
  qed
  then show ?thesis
  proof cases
    case 1
    then have "take k (record_header seq raw) = take k ?s" by (simp add: record_header_def)
    with one show ?thesis by simp
  next
    case 2
    then have "take k (record_header seq raw) = ?s @ CHR '' '' # []" by (simp add: record_header_def)
    then show ?thesis using words_from_word [OF numeral_no_space(1) spaces(1), of "[]" seq "[]"] by (simp add: parse_header_def)
  next
    case (3 j)
    then have t: "take k (record_header seq raw) = ?s @ '' '' @ take j ?d @ []" by (simp add: record_header_def)
    have "\<forall>c \<in> set (take j ?d). is_digit c" using string_of_nat_all by (auto dest: in_set_takeD)
    moreover have "take j ?d \<noteq> []" using 3(2) by simp
    ultimately have "parse_header (take k (record_header seq raw)) = Some (seq, int (nat_of_digits (take j ?d)))"
      unfolding t by (intro parse_header_written) auto
    then show ?thesis using prefix_of_numeral [of "length raw" j] 3(2) raw by simp
  qed
qed

lemma newline_at_end: "find_sub ''\<newline>'' (take k (record_header seq raw)) = None" if "k < length (record_header seq raw)"
proof -
  have c: "j < length (a @ [x]) \<Longrightarrow> take j (a @ [x]) = take j a" for j and a :: bytes and x by simp
  have e: "record_header seq raw = (string_of_int seq @ '' '' @ string_of_nat (length raw)) @ [CHR ''\<newline>'']"
    by (simp add: record_header_def)
  have "take k (record_header seq raw) = take k (string_of_int seq @ '' '' @ string_of_nat (length raw))"
    unfolding e by (rule c) (use that e in simp)
  moreover have "CHR ''\<newline>'' \<notin> set (string_of_int seq @ '' '' @ string_of_nat (length raw))" by (simp add: newline_not_in)
  ultimately show ?thesis by (metis find_sub_None in_set_takeD)
qed

text \<open>An incomplete last record is not indexed.\<close>

lemma index_loop_partial:
  assumes raw: "snd r \<noteq> []" and k: "k < length (record_header (fst r) (snd r)) + length (snd r)"
  shows "index_loop pos (take k (log_record r)) acc = acc"
proof (cases "k < length (record_header (fst r) (snd r))")
  case True
  let ?p = "take k (record_header (fst r) (snd r))"
  have t: "take k (log_record r) = ?p" using True by (simp add: log_record_parts)
  have "read_line ?p = ?p" using newline_at_end [OF True] by (simp add: read_line_def)
  then have "index_loop pos ?p acc = acc"
    using partial_header [OF raw True] by (subst index_loop.simps) (auto simp: Let_def file_read_def)
  then show ?thesis by (simp add: t)
next
  case False
  let ?h = "record_header (fst r) (snd r)" and ?b = "take (k - length (record_header (fst r) (snd r))) (snd r)"
  have t: "take k (log_record r) = ?h @ ?b" using False k by (simp add: log_record_parts)
  have "k - length ?h < length (snd r)" using False k by simp
  then have "index_loop pos (?h @ ?b) acc = acc"
    by (subst index_loop.simps) (simp add: read_line_header parse_record_header Let_def file_read_def)
  then show ?thesis by (simp add: t)
qed

lemma index_log_prefix:
  assumes "\<forall>r \<in> set rs. snd r \<noteq> []"
  shows "\<exists>j \<le> length rs. index_loop pos (take k (concat (map log_record rs))) acc = offs pos (take j rs) acc \<and>
    length (concat (map log_record (take j rs))) \<le> Suc k \<and>
    (j < length rs \<longrightarrow> k < length (concat (map log_record (take j rs))) +
       length (record_header (fst (rs ! j)) (snd (rs ! j))) + length (snd (rs ! j)))"
  using assms
proof (induction rs arbitrary: pos k acc)
  case Nil
  then show ?case by (simp add: index_loop.simps)
next
  case (Cons r rs)
  let ?h = "record_header (fst r) (snd r)"
  have lr: "length (log_record r) = length ?h + length (snd r) + 1" by (simp add: log_record_parts)
  consider "k < length ?h + length (snd r)" | "k = length ?h + length (snd r)" | "length (log_record r) \<le> k" using lr by linarith
  then show ?case
  proof cases
    case 1
    then have "k \<le> length (log_record r)" using lr by simp
    then have t: "take k (concat (map log_record (r # rs))) = take k (log_record r)" by simp
    have "index_loop pos (take k (concat (map log_record (r # rs)))) acc = acc"
      unfolding t by (rule index_loop_partial [OF _ 1]) (use Cons.prems in simp)
    then show ?thesis using 1 by (intro exI [of _ 0]) simp
  next
    case 2
    then have t: "take k (concat (map log_record (r # rs))) = ?h @ snd r" using lr by (simp add: log_record_parts)
    have "index_loop pos (?h @ snd r) acc = index_loop (pos + length ?h + length (snd r) + 1) []
        (AList.update (fst r) (pos + length ?h, int (length (snd r))) acc)"
      by (subst index_loop.simps) (simp add: read_line_header parse_record_header Let_def file_read_def)
    moreover have "0 < length (record_header (fst (rs ! 0)) (snd (rs ! 0)))" by simp
    ultimately show ?thesis using t lr 2
      by (intro exI [of _ 1]) (auto simp: index_loop.simps [of _ "[]"])
  next
    case 3
    then have t: "take k (concat (map log_record (r # rs))) = log_record r @ take (k - length (log_record r)) (concat (map log_record rs))"
      by simp
    from Cons.IH [of "pos + length (log_record r)" "k - length (log_record r)"
        "AList.update (fst r) (pos + length ?h, int (length (snd r))) acc"] Cons.prems
    obtain j where j: "j \<le> length rs"
      "index_loop (pos + length (log_record r)) (take (k - length (log_record r)) (concat (map log_record rs)))
         (AList.update (fst r) (pos + length ?h, int (length (snd r))) acc) =
       offs (pos + length (log_record r)) (take j rs) (AList.update (fst r) (pos + length ?h, int (length (snd r))) acc)"
      "length (concat (map log_record (take j rs))) \<le> Suc (k - length (log_record r))"
      "j < length rs \<longrightarrow> k - length (log_record r) < length (concat (map log_record (take j rs))) +
        length (record_header (fst (rs ! j)) (snd (rs ! j))) + length (snd (rs ! j))" by auto
    show ?thesis using j 3 lr by (intro exI [of _ "Suc j"]) (auto simp: t index_loop_record)
  qed
qed

lemma set_update_subset: "set (AList.update k v d) \<subseteq> insert (k, v) (set d)"
  by (induction d) auto

lemma offs_bound:
  "\<forall>e \<in> set acc. 0 \<le> snd (snd e) \<and> int (fst (snd e)) + snd (snd e) < int n \<Longrightarrow> n \<le> pos \<Longrightarrow>
   \<forall>e \<in> set (offs pos rs acc). 0 \<le> snd (snd e) \<and>
     int (fst (snd e)) + snd (snd e) < int (pos + length (concat (map log_record rs)))"
proof (induction rs arbitrary: pos acc n)
  case Nil
  then show ?case by force
next
  case (Cons r rs)
  let ?p = "pos + length (log_record r)"
  let ?acc = "AList.update (fst r) (pos + length (record_header (fst r) (snd r)), int (length (snd r))) acc"
  have a: "\<forall>e \<in> set ?acc. 0 \<le> snd (snd e) \<and> int (fst (snd e)) + snd (snd e) < int ?p"
  proof
    fix e assume e: "e \<in> set ?acc"
    with set_update_subset have "e = (fst r, (pos + length (record_header (fst r) (snd r)), int (length (snd r)))) \<or> e \<in> set acc"
      by fastforce
    then show "0 \<le> snd (snd e) \<and> int (fst (snd e)) + snd (snd e) < int ?p"
      using Cons.prems by (force simp: log_record_parts)
  qed
  have "\<forall>e \<in> set (offs ?p rs ?acc). 0 \<le> snd (snd e) \<and>
      int (fst (snd e)) + snd (snd e) < int (?p + length (concat (map log_record rs)))"
    by (rule Cons.IH [OF a order_refl])
  then show ?case by (simp add: add.assoc)
qed

lemma read_all_take:
  assumes "\<forall>e \<in> set os. 0 \<le> snd (snd e) \<and> int (fst (snd e)) + snd (snd e) \<le> int k"
  shows "read_all (take k c) os = read_all c os"
proof -
  have "file_read (take k c) off len = file_read c off len" if "0 \<le> len" "int off + len \<le> int k" for off len
    using that by (simp add: file_read_def drop_take min_def)
  with assms show ?thesis by (force simp: read_all_def)
qed

lemma crash_reads_whole_records:
  assumes "\<forall>r \<in> set rs. snd r \<noteq> []"
  shows "\<exists>j \<le> length rs.
    st_messages (store_abs (open_store (new_file_store (take k (concat (map log_record rs))) st))) = written (take j rs) [] \<and>
    (j < length rs \<longrightarrow> k < length (concat (map log_record (take j rs))) +
       length (record_header (fst (rs ! j)) (snd (rs ! j))) + length (snd (rs ! j)))"
proof -
  let ?L = "concat (map log_record rs)"
  obtain j where j: "j \<le> length rs" "index_log (take k ?L) = offs 0 (take j rs) []"
      "length (concat (map log_record (take j rs))) \<le> Suc k"
      "j < length rs \<longrightarrow> k < length (concat (map log_record (take j rs))) +
         length (record_header (fst (rs ! j)) (snd (rs ! j))) + length (snd (rs ! j))"
    using index_log_prefix [OF assms, of 0 k "[]"] unfolding index_log_def by blast
  have "\<forall>e \<in> set (offs 0 (take j rs) []). 0 \<le> snd (snd e) \<and> int (fst (snd e)) + snd (snd e) \<le> int k"
    using offs_bound [of "[]" 0 0 "take j rs"] j(3) by force
  then have r: "read_all (take k ?L) (offs 0 (take j rs) []) = read_all ?L (offs 0 (take j rs) [])"
    by (rule read_all_take)
  have "drop 0 ?L = concat (map log_record (take j rs)) @ concat (map log_record (drop j rs))"
    by (simp flip: concat_append map_append)
  from read_all_offs [OF this, of "[]"] r j(2)
  have "st_messages (store_abs (open_store (new_file_store (take k ?L) st))) = written (take j rs) []"
    by (simp add: store_abs_def open_store_def new_file_store_def load_state_def read_all_def split: state_file.split)
  with j show ?thesis by blast
qed

end
