(* ===== verification/Fix_Claims.thy ===== *)
theory Fix_Claims
  imports Fix_Recovery Fix_Wire Fix_Store_Facts
begin

section \<open>Properties of the FIX engine\<close>

subsection \<open>A session to apply them to\<close>

definition sample_order :: fix_message where
  "sample_order = [(35, ''D''), (55, ''7203''), (34, ''2''), (38, ''100''), (49, ''M1''), (56, ''EX'')]"

definition sample_config :: session_config where
  "sample_config = \<lparr>sc_sender = ''EX'', sc_target = ''M1'', sc_heartbeat = 30, sc_reset_on_logon = False,
     sc_validate_unknown = False, sc_next_expected = False, sc_allow_reset = True, sc_appl_ver = None,
     sc_default_appl_ver = None, sc_requires_encrypt = False, sc_requires_heart_bt = False\<rparr>"

definition sample_dictionary :: dictionary where
  "sample_dictionary = make_dictionary []
     (map (\<lambda>t. \<lparr>md_msg_type = t, md_name = t, md_required = [], md_optional = [], md_inbound = True\<rparr>)
        [''A'', ''D'', ''0'', ''2'', ''4'']) [] []"

text \<open>A gateway that counts its messages and answers each with an execution report.\<close>

definition sample_env :: "nat senv" where
  "sample_env = \<lparr>sv_config = sample_config, sv_codec = tag_value_codec ''FIX.4.4'', sv_dict = sample_dictionary,
     sv_on_logon = (\<lambda>a. ([], a)), sv_on_logout = (\<lambda>t a. ([], a)),
     sv_on_message = (\<lambda>m a. ([msg_create ''8''], None, Suc a)),
     sv_timestamp = ''20240102-09:00:00.000'', sv_now = 0\<rparr>"

definition sample_logon :: fix_message where
  "sample_logon = [(35, ''A''), (34, ''1''), (49, ''M1''), (56, ''EX'')]"

definition idle_session :: "nat session" where
  "idle_session = new_session sample_config empty_store 0"

definition logged_on :: "nat session" where
  "logged_on = on_data sample_env (encode ''FIX.4.4'' sample_logon) (attach sample_env idle_session)"

text \<open>A whole message arriving on an idle buffer, whatever its text.\<close>

lemma on_data_encoded:
  assumes "sv_codec env = tag_value_codec bs'" and "se_buffer s = []" and "se_connected s"
    and "frame_ok bs m" and "message_ok bs m"
    and "check_comp_ids (sv_config env) (on_wire bs m) = None"
    and "dictionary_validate (sv_dict env) (sc_validate_unknown (sv_config env)) (on_wire bs m) = None"
  shows "on_data env (encode bs m) s = on_message env (on_wire bs m) (s\<lparr>se_last_received := sv_now env, se_test_sent := None\<rparr>)"
proof -
  have "feed_with frame_loop [] [encode bs m] = Inr ([encode bs m], [])"
    by (rule fix_framing.feed_stream) (use assms(4) in auto)
  then have f: "frame_loop (encode bs m) = Inr ([encode bs m], [])" by (simp split: sum.splits prod.splits)
  have b: "s\<lparr>se_buffer := []\<rparr> = s" using assms(2) by simp
  show ?thesis using assms by (simp add: on_data_def tag_value_codec_def f on_raw_message_def Let_def decode_encode b)
qed

lemma on_wire_type: "msg_type_of (on_wire bs m) = msg_type_of m" "msg_seq_num (on_wire bs m) = msg_seq_num m"
  by (simp_all add: msg_type_of_def msg_seq_num_def msg_get_int_def msg_get_on_wire structural_tags_def)

lemma check_comp_ids_on_wire: "check_comp_ids cfg (on_wire bs m) = check_comp_ids cfg m"
  by (simp add: check_comp_ids_def msg_get_on_wire structural_tags_def)

lemma sample_dictionary_takes:
  assumes "msg_type_of m = Some t" and "t \<in> set [''A'', ''D'', ''0'', ''2'', ''4'']"
  shows "dictionary_validate sample_dictionary False m = None"
proof -
  have "di_fields sample_dictionary = []" by (simp add: sample_dictionary_def make_dictionary_def)
  then have f: "\<forall>f \<in> set m. field_clean sample_dictionary md False f" for md by (simp add: field_clean_def)
  have "\<forall>t \<in> set [''A'', ''D'', ''0'', ''2'', ''4'']. (case map_of (di_messages sample_dictionary) t of None \<Rightarrow> False
      | Some md \<Rightarrow> md_inbound md \<and> md_required md = [])" by code_simp
  with assms(2) have "case map_of (di_messages sample_dictionary) t of None \<Rightarrow> False
      | Some md \<Rightarrow> md_inbound md \<and> md_required md = []" by blast
  then obtain md where "map_of (di_messages sample_dictionary) t = Some md" "md_inbound md" "md_required md = []"
    by (auto split: option.splits)
  with assms(1) f show ?thesis unfolding dictionary_validate_clean by fastforce
qed

lemma sample_env_simps [simp]: "sv_codec sample_env = tag_value_codec ''FIX.4.4''" "sv_config sample_env = sample_config"
  "sv_dict sample_env = sample_dictionary" "sv_now sample_env = 0" "sv_on_logon sample_env a = ([], a)"
  by (simp_all add: sample_env_def)

lemma sample_config_simps [simp]: "\<not> sc_validate_unknown sample_config" "\<not> sc_requires_encrypt sample_config"
  "\<not> sc_requires_heart_bt sample_config" "\<not> sc_reset_on_logon sample_config" "\<not> sc_next_expected sample_config"
  by (simp_all add: sample_config_def)

lemma logon_frame: "frame_ok ''FIX.4.4'' sample_logon" "message_ok ''FIX.4.4'' sample_logon"
  by code_simp+

lemma logon_fields: "msg_type_of sample_logon = Some ''A''" "msg_seq_num sample_logon = Some 1"
  "check_comp_ids sample_config sample_logon = None" "msg_get sample_logon 141 = None"
  by code_simp+

lemma logged_on_message:
  "logged_on = accept_logon sample_env (on_wire ''FIX.4.4'' sample_logon) False None
     ((attach sample_env idle_session)\<lparr>se_last_received := 0, se_test_sent := None, se_heartbeat := 30\<rparr>)"
proof -
  have d: "dictionary_validate sample_dictionary False (on_wire ''FIX.4.4'' sample_logon) = None"
    by (rule sample_dictionary_takes [where t = "''A''"]) (simp_all add: on_wire_type logon_fields)
  have g: "msg_get (on_wire ''FIX.4.4'' sample_logon) 141 = None"
    by (simp add: msg_get_on_wire structural_tags_def logon_fields)
  have "logged_on = on_message sample_env (on_wire ''FIX.4.4'' sample_logon)
      ((attach sample_env idle_session)\<lparr>se_last_received := 0, se_test_sent := None\<rparr>)"
    unfolding logged_on_def
    by (subst on_data_encoded [where bs' = "''FIX.4.4''"])
      (simp_all add: logon_frame check_comp_ids_on_wire logon_fields d attach_def)
  also have "\<dots> = on_logon sample_env (on_wire ''FIX.4.4'' sample_logon)
      ((attach sample_env idle_session)\<lparr>se_last_received := 0, se_test_sent := None\<rparr>)"
    by (simp add: on_message_def on_wire_type logon_fields)
  also have "\<dots> = accept_logon sample_env (on_wire ''FIX.4.4'' sample_logon) False None
     ((attach sample_env idle_session)\<lparr>se_last_received := 0, se_test_sent := None, se_heartbeat := 30\<rparr>)"
    by (simp add: on_logon_def logon_terms_def logon_next_expected_def Let_def g on_wire_type logon_fields)
      (simp add: attach_def idle_session_def new_session_def empty_store_def sample_config_def)
  finally show ?thesis .
qed

lemma logged_on_reached: "session_reaches sample_env idle_session logged_on"
proof -
  have e: "sample_env\<lparr>sv_timestamp := sv_timestamp sample_env, sv_now := sv_now sample_env\<rparr> = sample_env" by simp
  have "session_step sample_env idle_session (attach sample_env idle_session)"
    using connect [where env = sample_env and s = idle_session and t = "sv_timestamp sample_env" and n = "sv_now sample_env"]
    unfolding e .
  moreover have "session_step sample_env (attach sample_env idle_session) logged_on"
    using received [where env = sample_env and s = "attach sample_env idle_session" and t = "sv_timestamp sample_env"
        and n = "sv_now sample_env" and chunk = "encode ''FIX.4.4'' sample_logon"]
    unfolding e logged_on_def .
  ultimately show ?thesis by (meson rtranclp.simps)
qed

lemma logged_on_state: "se_state logged_on = ACTIVE" "st_next_out (se_store logged_on) = 2" "st_next_in (se_store logged_on) = 2"
proof -
  let ?s = "(attach sample_env idle_session)\<lparr>se_last_received := 0, se_test_sent := None, se_heartbeat := 30, se_state := ACTIVE\<rparr>"
  have o: "st_next_in (se_store ?s) = 1" "st_next_out (se_store ?s) = 1"
    by (simp_all add: attach_def idle_session_def new_session_def empty_store_def)
  have s: "st_next_out (se_store (send sample_env m ?s)) = 2" for m
    using o(2) by (simp add: send_def transmit_def Let_def tag_value_codec_def store_sent_def emit_def seq_after_stamp mem_set_next_out_def)
  obtain m where "logged_on = run_on_logon sample_env (set_next_in 2 (send sample_env m ?s))"
    using o(1) by (simp add: logged_on_message accept_logon_def Let_def on_wire_type logon_fields)
  then have l: "logged_on = (set_next_in 2 (send sample_env m ?s))\<lparr>se_app := se_app (set_next_in 2 (send sample_env m ?s))\<rparr>"
    by (simp add: run_on_logon_def)
  show "se_state logged_on = ACTIVE" "st_next_out (se_store logged_on) = 2" "st_next_in (se_store logged_on) = 2"
    using s [of m] only_sendsD(1) [OF send_only_sends [of ?s sample_env m]]
    by (simp_all add: l set_next_in_def mem_set_next_in_def)
qed

lemma new_session_start: "dense (new_session cfg empty_store app)" "pending_ok (new_session cfg empty_store app)"
  by (simp_all add: new_session_def pending_ok_def)

lemma order_frame: "frame_ok ''FIX.4.4'' sample_order" "message_ok ''FIX.4.4'' sample_order"
  by code_simp+

subsection \<open>The wire\<close>

text \<open>
  C22: what \<open>encode\<close> serialises, \<open>decode\<close> reads back, with or without the checksum
  verified: BeginString, BodyLength and CheckSum around the fields in wire order, every
  repetition of every other field in the order the sender gave.
\<close>

theorem decode_inverts_encode:
  assumes "message_ok bs m"
  shows "decode (encode bs m) validate = Inr (on_wire bs m) \<and>
    (\<forall>tag. tag \<notin> structural_tags \<longrightarrow> msg_get_all (on_wire bs m) tag = msg_get_all m tag)"
  using decode_encode [OF assms] msg_get_all_on_wire by blast

theorem decode_inverts_encode_witness:
  "decode (encode ''FIX.4.4'' sample_order) True = Inr (on_wire ''FIX.4.4'' sample_order) \<and>
   msg_get_all (on_wire ''FIX.4.4'' sample_order) 55 = [''7203'']"
proof -
  have "msg_get_all sample_order 55 = [''7203'']" by code_simp
  moreover have "(55 :: int) \<notin> structural_tags" by (simp add: structural_tags_def)
  ultimately show ?thesis using decode_inverts_encode [OF order_frame(2), of True] by simp
qed

text \<open>
  C23: however TCP cuts a stream of messages into chunks, the framer returns exactly the
  messages, in order and whole, and ends with an empty buffer.
\<close>

theorem framing_is_independent_of_chunks:
  assumes "\<forall>m \<in> set ms. frame_ok bs m" and "concat chunks = concat (map (encode bs) ms)"
  shows "feed_with frame_loop [] chunks = Inr (map (encode bs) ms, [])"
  by (rule fix_framing.feed_stream) (use assms in auto)

theorem framing_is_independent_of_chunks_witness:
  "feed_with frame_loop [] (map (\<lambda>c. [c]) (encode ''FIX.4.4'' sample_logon @ encode ''FIX.4.4'' sample_order)) =
   Inr ([encode ''FIX.4.4'' sample_logon, encode ''FIX.4.4'' sample_order], [])"
proof -
  have c: "concat (map (\<lambda>c. [c]) xs) = xs" for xs :: bytes by (induction xs) simp_all
  show ?thesis
    using framing_is_independent_of_chunks [of "[sample_logon, sample_order]" "''FIX.4.4''"
        "map (\<lambda>c. [c]) (encode ''FIX.4.4'' sample_logon @ encode ''FIX.4.4'' sample_order)"] logon_frame(1) order_frame(1)
    unfolding c by simp
qed

lemma decode_fields_typed:
  "decode_fields chunks = Inr m \<Longrightarrow> \<forall>c \<in> set chunks. SOH \<notin> set c \<Longrightarrow> \<forall>f \<in> set m. 0 < fst f \<and> SOH \<notin> set (snd f)"
proof (induction chunks arbitrary: m)
  case (Cons c cs)
  show ?case
  proof (cases "c = []")
    case False
    then obtain f fs where f: "decode_field c = Inr f" "decode_fields cs = Inr fs" "m = f # fs"
      using Cons.prems(1) by (auto split: sum.splits)
    from f(1) have "0 < fst f" "set (snd f) \<subseteq> set c"
      by (auto simp: decode_field_def split: option.splits if_splits dest: in_set_dropD)
    with Cons f(2,3) show ?thesis by auto
  qed (use Cons in simp)
qed simp

lemma split_on_parts: "\<forall>c \<in> set (split_on d s). d \<notin> set c"
  by (induction d s rule: split_on.induct) (auto split: list.splits)

text \<open>
  A message that decodes has BeginString first, a MsgType, positive tags and values
  without the delimiter, and one decoded with validation carries the checksum of its bytes.
\<close>

theorem decoded_messages_are_well_formed:
  assumes "decode raw validate = Inr m"
  shows "(\<exists>bs fs. m = (TAG_BEGIN_STRING, bs) # fs) \<and> msg_type_of m \<noteq> None \<and>
    (\<forall>f \<in> set m. 0 < fst f \<and> SOH \<notin> set (snd f)) \<and>
    (validate \<longrightarrow> (\<exists>k. rfind_sub (SOH # ''10='') raw = Some k \<and>
       int_of_bytes (take 3 (drop (k + 4) raw)) = Some (int (byte_sum (take (k + 1) raw) mod 256))))"
proof -
  obtain k where k: "rfind_sub (SOH # ''10='') raw = Some k" "validate \<longrightarrow> check_checksum raw k = None"
      "decode_fields (split_on SOH raw) = Inr m" "m \<noteq> []" "fst (hd m) = TAG_BEGIN_STRING" "msg_has m TAG_MSG_TYPE"
    using assms by (auto simp: decode_def split: if_splits option.splits sum.splits)
  have "\<exists>bs fs. m = (TAG_BEGIN_STRING, bs) # fs" using k(4,5) by (cases m) auto
  moreover have "msg_type_of m \<noteq> None" using k(6) by (simp add: msg_has_get msg_type_of_def)
  moreover have "\<forall>f \<in> set m. 0 < fst f \<and> SOH \<notin> set (snd f)" by (rule decode_fields_typed [OF k(3) split_on_parts])
  moreover have "validate \<longrightarrow> int_of_bytes (take 3 (drop (k + 4) raw)) = Some (int (byte_sum (take (k + 1) raw) mod 256))"
    using k(2) by (auto simp: check_checksum_def Let_def split: option.splits if_splits)
  ultimately show ?thesis using k(1) by blast
qed

theorem decoded_messages_are_well_formed_witness:
  "(\<exists>bs fs. on_wire ''FIX.4.4'' sample_order = (8, bs) # fs) \<and> msg_type_of (on_wire ''FIX.4.4'' sample_order) \<noteq> None"
  using decoded_messages_are_well_formed [OF decode_encode [OF order_frame(2), of True]] by blast

subsection \<open>The store\<close>

text \<open>
  C24: under every sequence of operations and restarts the file store never fails and is
  the memory store: the same next numbers, and the same messages for every range. A
  restart, which loses everything but the two files, loses nothing.
\<close>

theorem file_store_refines_memory_store:
  "\<exists>f. run_ops file_op ops (open_store (new_file_store [] Absent)) = Inr f \<and>
     fs_next_out f = st_next_out (fold mem_op ops empty_store) \<and>
     fs_next_in f = st_next_in (fold mem_op ops empty_store) \<and>
     (\<forall>b e. file_get_outbound b e f = mem_get_outbound b e (fold mem_op ops empty_store))"
proof -
  obtain f where f: "run_ops file_op ops (open_store (new_file_store [] Absent)) = Inr f"
      "store_abs f = fold mem_op ops empty_store"
    using on_disk.run_sim [of "open_store (new_file_store [] Absent)" ops] fresh_store by auto
  have "fs_next_out f = st_next_out (store_abs f)" "fs_next_in f = st_next_in (store_abs f)" by (simp_all add: store_abs_def)
  with f show ?thesis by (auto simp: file_get_sim)
qed

text \<open>
  C25: a log cut off anywhere, as a crash leaves it, is read back as its complete
  messages: a prefix of what was written, no message torn, and no complete one missed.
\<close>

theorem crash_loses_only_the_tail:
  assumes "\<forall>r \<in> set rs. snd r \<noteq> []"
  shows "\<exists>j \<le> length rs.
    st_messages (store_abs (open_store (new_file_store (take k (concat (map log_record rs))) st))) = written (take j rs) [] \<and>
    (j < length rs \<longrightarrow> k < length (concat (map log_record (take j rs))) +
       length (record_header (fst (rs ! j)) (snd (rs ! j))) + length (snd (rs ! j)))"
  using crash_reads_whole_records [OF assms] .

theorem crash_loses_only_the_tail_witness:
  "\<exists>j \<le> 2. st_messages (store_abs (open_store (new_file_store
       (take 9 (concat (map log_record [(1, ''one''), (2, ''two'')]))) Absent))) = written (take j [(1, ''one''), (2, ''two'')]) []"
proof -
  have "\<forall>r \<in> set [(1 :: int, ''one''), (2, ''two'')]. snd r \<noteq> []" by simp
  from crash_loses_only_the_tail [OF this, of 9 Absent] obtain j where j: "j \<le> length [(1 :: int, ''one''), (2, ''two'')]"
    "st_messages (store_abs (open_store (new_file_store
       (take 9 (concat (map log_record [(1, ''one''), (2, ''two'')]))) Absent))) = written (take j [(1, ''one''), (2, ''two'')]) []"
    by blast
  from j(1) have "j \<le> 2" by simp
  with j(2) show ?thesis by blast
qed

subsection \<open>The session\<close>



text \<open>
  C27: whatever bytes reach an active session, cut anywhere and at any times, the messages
  it hands to its gateway are numbered in increasing order, none twice and none below what
  it expected, and its expected number never moves back.
\<close>

theorem delivery_in_order_at_most_once:
  assumes "session_reaches env (new_session cfg empty_store app) s" and "se_state s = ACTIVE"
  shows "st_next_in (se_store s) \<le> st_next_in (se_store (on_chunks env cs s)) \<and>
    (\<exists>es. se_trace (on_chunks env cs s) = se_trace s @ es \<and> sorted_wrt (<) (handed es) \<and>
       (\<forall>n \<in> set (handed es). st_next_in (se_store s) \<le> n \<and> n < st_next_in (se_store (on_chunks env cs s))))"
proof -
  have "live s" using assms(2) by (simp add: live_def)
  moreover have "pending_ok s" by (rule session_reaches_pending [OF assms(1) new_session_start(2)])
  ultimately have "advances s (on_chunks env cs s)" by (rule on_chunks_advances)
  then show ?thesis by (simp add: advances_def progress_def)
qed

theorem delivery_in_order_at_most_once_witness:
  "\<exists>es. se_trace (on_chunks sample_env [(''t'', 5, encode ''FIX.4.4'' sample_order)] logged_on) = se_trace logged_on @ es \<and>
     sorted_wrt (<) (handed es)"
  using delivery_in_order_at_most_once [OF logged_on_reached [unfolded idle_session_def] logged_on_state(1)] by blast

end
