(* ===== verification/Wire_Values.thy ===== *)
theory Wire_Values
  imports Wire_Text
begin

section \<open>Field values on the wire (\<open>wire/values.py\<close>, \<open>binary/values.py\<close>)\<close>

text \<open>
  A binary field is an integer or text on the wire, and text in a message; a converter
  translates between the two. Decimal quantities travel as integers with a fixed number of
  implied places, which \<open>scale\<close> and \<open>unscale\<close> compute digit by digit. The round trips
  are at the end: every scaled integer reads back from its text.
\<close>

datatype wire_value = WInt int | WText string

text \<open>\<open>str\<close> and \<open>int\<close> of a value of either kind.\<close>

fun value_text :: "wire_value \<Rightarrow> string" where
  "value_text (WInt i) = string_of_int i"
| "value_text (WText t) = t"

fun value_int :: "wire_value \<Rightarrow> exn + int" where
  "value_int (WInt i) = Inr i"
| "value_int (WText t) = (case int_of_str t of None \<Rightarrow> Inl ValueError | Some i \<Rightarrow> Inr i)"

subsection \<open>Scaled decimals\<close>

definition scale :: "nat \<Rightarrow> string \<Rightarrow> exn + int" where
  "scale places text0 =
     (let t = strip text0; negative = starts_with ''-'' t;
          body = (if starts_with ''+'' t \<or> negative then tl t else t)
      in case partition_at (CHR ''.'') body of (whole, _, fraction) \<Rightarrow>
        (if \<not> all_digits (whole @ fraction) then Inl ValueError
         else if length fraction > places then Inl ValueError
         else (case int_of_str ((if whole = [] then ''0'' else whole) @ fraction @
                                 replicate (places - length fraction) (CHR ''0'')) of
                 None \<Rightarrow> Inl ValueError
               | Some v \<Rightarrow> Inr (if negative then - v else v))))"

text \<open>\<open>s.rstrip("0")\<close>.\<close>

definition rstrip_zeros :: "string \<Rightarrow> string" where
  "rstrip_zeros s = rev (dropWhile (\<lambda>c. c = CHR ''0'') (rev s))"

definition unscale :: "nat \<Rightarrow> int \<Rightarrow> string" where
  "unscale places v =
     (let n = nat \<bar>v\<bar>;
          digits = rstrip_zeros (zero_pad places (n mod 10 ^ places));
          t = string_of_nat (n div 10 ^ places) @ (if digits = [] then [] else CHR ''.'' # digits)
      in (if v < 0 then ''-'' else []) @ t)"

subsection \<open>Converters\<close>

text \<open>
  The converter classes. An enumeration carries the pairs of its mapping in order: the text
  in a message and the value on the wire.
\<close>

datatype converter =
    TextConv
  | NumberConv
  | CharacterConv
  | FlagConv
  | EnumConv "(string \<times> wire_value) list"
  | MultiConv "(string \<times> string) list"
  | QuantityConv nat

text \<open>The words of a text that are not empty, each looked up in a table.\<close>

definition translate :: "(string \<times> string) list \<Rightarrow> string \<Rightarrow> string" where
  "translate table t =
     (case map (\<lambda>part. case map_of table part of None \<Rightarrow> part | Some q \<Rightarrow> q)
             (filter (\<lambda>part. part \<noteq> []) (split_on (CHR '' '') t)) of
        [] \<Rightarrow> []
      | p # ps \<Rightarrow> p @ concat (map (\<lambda>q. CHR '' '' # q) ps))"

definition swap_pairs :: "('a \<times> 'b) list \<Rightarrow> ('b \<times> 'a) list" where
  "swap_pairs m = map (\<lambda>(a, b). (b, a)) m"

fun to_wire :: "converter \<Rightarrow> string \<Rightarrow> exn + wire_value" where
  "to_wire TextConv t = Inr (WText t)"
| "to_wire NumberConv t = (case int_of_str t of None \<Rightarrow> Inl ValueError | Some i \<Rightarrow> Inr (WInt i))"
| "to_wire CharacterConv t = (if length t \<noteq> 1 then Inl ValueError else Inr (WInt (of_char (hd t))))"
| "to_wire FlagConv t = Inr (WInt (if t = ''Y'' then 1 else 0))"
| "to_wire (EnumConv m) t = (case map_of m t of None \<Rightarrow> Inl ValueError | Some v \<Rightarrow> Inr v)"
| "to_wire (MultiConv m) t = Inr (WText (translate m t))"
| "to_wire (QuantityConv places) t = map_sum id WInt (scale places t)"

text \<open>
  The way back, as the text a message stores. The first of several texts with one wire
  value is the one that is read; a value that is not in the table is handed on as text.
  \<open>chr\<close> above 255 has no counterpart in the model's text: a \<open>Character\<close> is a byte.
\<close>

fun from_wire :: "converter \<Rightarrow> wire_value \<Rightarrow> exn + string" where
  "from_wire TextConv v = Inr (value_text v)"
| "from_wire NumberConv v = Inr (value_text v)"
| "from_wire CharacterConv (WInt i) = (if 0 \<le> i \<and> i < 256 then Inr [char_of i] else Inl ValueError)"
| "from_wire CharacterConv (WText t) = Inl TypeError"
| "from_wire FlagConv v = Inr (if v = WInt 0 \<or> v = WText [] then ''N'' else ''Y'')"
| "from_wire (EnumConv m) v = Inr (case map_of (swap_pairs m) v of None \<Rightarrow> value_text v | Some t \<Rightarrow> t)"
| "from_wire (MultiConv m) v = Inr (translate (swap_pairs m) (value_text v))"
| "from_wire (QuantityConv places) v = map_sum id (unscale places) (value_int v)"

subsection \<open>The round trip of a scaled decimal\<close>

lemma partition_at_absent: "c \<notin> set s \<Longrightarrow> partition_at c s = (s, False, [])"
proof -
  assume a: "c \<notin> set s"
  then have d: "takeWhile (\<lambda>d. d \<noteq> c) s = s" "dropWhile (\<lambda>d. d \<noteq> c) s = []" by (induction s) auto
  from a show ?thesis unfolding partition_at_def d by simp
qed

lemma partition_at_found: "c \<notin> set s \<Longrightarrow> partition_at c (s @ c # t) = (s, True, t)"
proof -
  assume "c \<notin> set s"
  then have "takeWhile (\<lambda>d. d \<noteq> c) (s @ c # t) = s" "dropWhile (\<lambda>d. d \<noteq> c) (s @ c # t) = c # t"
    by (induction s) auto
  then show ?thesis by (simp add: partition_at_def)
qed

lemma rstrip_zeros_pad: "rstrip_zeros s @ replicate (length s - length (rstrip_zeros s)) (CHR ''0'') = s"
proof (induction s rule: rev_induct)
  case (snoc c s)
  have len: "length (rstrip_zeros s) \<le> length s"
    unfolding rstrip_zeros_def by (metis length_dropWhile_le length_rev)
  show ?case
  proof (cases "c = CHR ''0''")
    case True
    then have r: "rstrip_zeros (s @ [c]) = rstrip_zeros s" by (simp add: rstrip_zeros_def)
    have "rstrip_zeros s @ replicate (Suc (length s - length (rstrip_zeros s))) (CHR ''0'') =
        (rstrip_zeros s @ replicate (length s - length (rstrip_zeros s)) (CHR ''0'')) @ ''0''"
      by (simp add: replicate_append_same)
    with snoc True len r show ?thesis by (simp add: Suc_diff_le)
  next
    case False
    then show ?thesis by (simp add: rstrip_zeros_def)
  qed
qed (simp add: rstrip_zeros_def)

lemma rstrip_zeros_set: "set (rstrip_zeros s) \<subseteq> set s" and length_rstrip_zeros: "length (rstrip_zeros s) \<le> length s"
  unfolding rstrip_zeros_def using set_dropWhileD [of _ _ "rev s"] length_dropWhile_le [of _ "rev s"] by auto

lemma digit_facts: "is_digit c \<Longrightarrow> is_py_digit c \<and> c \<noteq> CHR ''.'' \<and> c \<noteq> CHR ''-'' \<and> c \<noteq> CHR ''+'' \<and> \<not> is_space c"
  by (auto simp: is_py_digit_def is_digit_not_space not_space_or_sign)

lemma length_zero_pad_mod: "length (zero_pad p (n mod 10 ^ p)) = (if p = 0 then 1 else p)"
proof (cases "p = 0")
  case True
  then show ?thesis by (simp add: length_zero_pad string_of_nat.simps [of 0])
next
  case False
  then have "length (string_of_nat (n mod 10 ^ p)) \<le> p" by (intro length_string_of_nat_le) auto
  with False show ?thesis by (simp add: length_zero_pad)
qed

lemma scale_written:
  assumes whole: "\<forall>c \<in> set w. is_digit c" "w \<noteq> []" and frac: "\<forall>c \<in> set f. is_digit c" "length f \<le> p"
    and t: "t = (if neg then ''-'' else []) @ w @ (if f = [] then [] else CHR ''.'' # f)"
  shows "scale p t = Inr ((if neg then -1 else 1) *
    int (nat_of_digits (w @ f @ replicate (p - length f) (CHR ''0''))))"
proof -
  let ?b = "w @ (if f = [] then [] else CHR ''.'' # f)"
  obtain c cs where w: "w = c # cs" "is_digit c" using whole by (cases w) auto
  have nodot: "CHR ''.'' \<notin> set w" using whole(1) digit_facts by blast
  have part: "\<exists>b. partition_at (CHR ''.'') ?b = (w, b, f)"
    using nodot partition_at_absent [of _ w] partition_at_found [of _ w f] by (cases "f = []") auto
  have "t \<noteq> []" "\<not> is_space (hd t)" using w digit_facts [of c] by (simp_all add: t not_space_or_sign)
  moreover have "\<not> is_space (last t)"
  proof (cases "f = []")
    case True
    then have "last t = last w" using whole(2) by (simp add: t)
    then show ?thesis using whole digit_facts by (metis last_in_set)
  next
    case False
    then have "last t = last f" by (simp add: t)
    then show ?thesis using frac(1) False digit_facts by (metis last_in_set)
  qed
  ultimately have s: "strip t = t" by (intro strip_id) simp
  have sign: "starts_with ''-'' t = neg" "\<not> starts_with ''+'' ?b" "neg \<Longrightarrow> tl t = ?b" "\<not> neg \<Longrightarrow> t = ?b"
      "\<not> starts_with ''+'' t"
    using w digit_facts [of c] by (auto simp: t starts_with_def)
  have body: "(if starts_with ''+'' t \<or> starts_with ''-'' t then tl t else t) = ?b" using sign by (cases neg) simp_all
  let ?d = "w @ f @ replicate (p - length f) (CHR ''0'')"
  have "\<forall>c \<in> set ?d. is_digit c" using whole(1) frac(1) by (auto simp: is_digit_def)
  then have i: "int_of_str ?d = Some (int (nat_of_digits ?d))" using int_of_digits(2) [of ?d] w by simp
  have dg: "all_digits (w @ f)" using whole frac(1) digit_facts by (auto simp: all_digits_def)
  obtain b where "partition_at (CHR ''.'') ?b = (w, b, f)" using part by blast
  with i dg frac(2) whole(2) show ?thesis unfolding scale_def Let_def s body by (simp add: sign(1))
qed

lemma unscale_parts:
  obtains w f where "\<forall>c \<in> set w. is_digit c" "w \<noteq> []" "\<forall>c \<in> set f. is_digit c" "length f \<le> p"
    "unscale p v = (if v < 0 then ''-'' else []) @ w @ (if f = [] then [] else CHR ''.'' # f)"
    "nat_of_digits (w @ f @ replicate (p - length f) (CHR ''0'')) = nat \<bar>v\<bar>"
proof -
  let ?n = "nat \<bar>v\<bar>"
  let ?w = "string_of_nat (?n div 10 ^ p)" and ?z = "zero_pad p (?n mod 10 ^ p)"
  let ?f = "rstrip_zeros ?z"
  have z: "\<forall>c \<in> set ?z. is_digit c" by (rule zero_pad_all_digits)
  have "digit_char 0 = CHR ''0''" by code_simp
  then have f0: "p = 0 \<Longrightarrow> ?f = []" by (simp add: rstrip_zeros_def zero_pad_def string_of_nat.simps [of 0])
  have len: "length ?f \<le> p"
    using length_rstrip_zeros [of ?z] f0 length_zero_pad_mod [of p ?n] by (cases "p = 0") simp_all
  have pad: "nat_of_digits (?f @ replicate (p - length ?f) (CHR ''0'')) = ?n mod 10 ^ p"
  proof (cases "p = 0")
    case True
    then show ?thesis using f0 by (simp add: nat_of_digits_def)
  next
    case False
    then have "length ?z = p" by (simp add: length_zero_pad_mod)
    then show ?thesis using rstrip_zeros_pad [of ?z] by simp
  qed
  have "nat_of_digits (?w @ ?f @ replicate (p - length ?f) (CHR ''0'')) = ?n div 10 ^ p * 10 ^ p + ?n mod 10 ^ p"
    using nat_of_digits_append [of ?w "?f @ replicate (p - length ?f) (CHR ''0'')"] pad len by simp
  then have "nat_of_digits (?w @ ?f @ replicate (p - length ?f) (CHR ''0'')) = ?n"
    by (simp only: div_mult_mod_eq)
  moreover have "unscale p v = (if v < 0 then ''-'' else []) @ ?w @ (if ?f = [] then [] else CHR ''.'' # ?f)"
    unfolding unscale_def Let_def by (rule refl)
  moreover have "\<forall>c \<in> set ?f. is_digit c" using z rstrip_zeros_set [of ?z] by blast
  moreover have "\<forall>c \<in> set ?w. is_digit c" using string_of_nat_digits by blast
  ultimately show thesis using len string_of_nat_nonempty by (intro that [of ?w ?f])
qed

lemma scale_unscale: "scale p (unscale p v) = Inr v"
proof -
  obtain w f where p: "\<forall>c \<in> set w. is_digit c" "w \<noteq> []" "\<forall>c \<in> set f. is_digit c" "length f \<le> p"
    "unscale p v = (if v < 0 then ''-'' else []) @ w @ (if f = [] then [] else CHR ''.'' # f)"
    "nat_of_digits (w @ f @ replicate (p - length f) (CHR ''0'')) = nat \<bar>v\<bar>" by (rule unscale_parts)
  show ?thesis using scale_written [OF p(1-5)] p(6) by simp
qed

end
