(* ===== verification/Binary_Types.thy ===== *)
theory Binary_Types
  imports Wire_Values Fix_Message "HOL-Library.Word"
begin

unbundle bit_operations_syntax

section \<open>Data types of the binary encoding (\<open>binary/types.py\<close>)\<close>

text \<open>
  The wire types are one datatype with a \<open>pack\<close> and an \<open>unpack\<close>; integers are
  little-endian. A presence map is a string of bits, the first field at the highest bit of
  the first byte. The lemmas at the end show that what fits a type reads back, and so does
  a presence map.
\<close>

abbreviation NUL :: char where "NUL \<equiv> CHR 0x00"

text \<open>\<open>struct.pack\<close> of an integer in \<open>n\<close> bytes, and the two ways of reading it.\<close>

fun le_bytes :: "nat \<Rightarrow> int \<Rightarrow> bytes" where
  "le_bytes 0 i = []"
| "le_bytes (Suc n) i = char_of (i mod 256) # le_bytes n (i div 256)"

fun le_uint :: "bytes \<Rightarrow> int" where
  "le_uint [] = 0"
| "le_uint (c # cs) = of_char c + 256 * le_uint cs"

definition le_sint :: "bytes \<Rightarrow> int" where
  "le_sint bs = (let u = le_uint bs in if u \<ge> 2 ^ (8 * length bs - 1) then u - 2 ^ (8 * length bs) else u)"

definition need :: "bytes \<Rightarrow> nat \<Rightarrow> nat \<Rightarrow> fix_error option" where
  "need raw offset count =
     (if offset + count > length raw
      then Some (Malformed (''message ends mid-field: '' @ string_of_nat count @ '' bytes needed at offset '' @
             string_of_nat offset @ '', '' @ string_of_int (int (length raw) - int offset) @ '' available''))
      else None)"

definition slice :: "bytes \<Rightarrow> nat \<Rightarrow> nat \<Rightarrow> bytes" where
  "slice raw offset count = take count (drop offset raw)"

definition until_nul :: "bytes \<Rightarrow> bytes" where
  "until_nul chunk = takeWhile (\<lambda>c. c \<noteq> NUL) chunk"

datatype wire_type = Unsigned nat | DecimalType | ByteType | AlphaFixed nat | AlphaVariable nat

fun wire_pack :: "wire_type \<Rightarrow> wire_value \<Rightarrow> exn + bytes" where
  "wire_pack (Unsigned w) v =
     bind_exn (value_int v) (\<lambda>i. if i < 0 \<or> i > 256 ^ w - 1 then Inl ValueError else Inr (le_bytes w i))"
| "wire_pack DecimalType v =
     bind_exn (value_int v) (\<lambda>i. if i < - (2 ^ 63) \<or> i \<ge> 2 ^ 63 then Inl StructError else Inr (le_bytes 8 i))"
| "wire_pack ByteType (WInt i) = (if i < 0 \<or> i > 255 then Inl StructError else Inr [char_of i])"
| "wire_pack ByteType (WText t) = (if length t \<noteq> 1 then Inl ValueError else Inr t)"
| "wire_pack (AlphaFixed w) v =
     (let t = value_text v; data = (if w = 0 then butlast t else take (w - 1) t)
      in Inr (data @ replicate (w - length data) NUL))"
| "wire_pack (AlphaVariable m) v =
     (let data = take m (value_text v)
      in if length data + 1 > 65535 then Inl StructError
         else Inr (le_bytes 2 (int (length data) + 1) @ data @ [NUL]))"

fun wire_unpack :: "wire_type \<Rightarrow> bytes \<Rightarrow> nat \<Rightarrow> fix_error + wire_value \<times> nat" where
  "wire_unpack (Unsigned w) raw offset =
     (case need raw offset w of Some e \<Rightarrow> Inl e
      | None \<Rightarrow> Inr (WInt (le_uint (slice raw offset w)), offset + w))"
| "wire_unpack DecimalType raw offset =
     (case need raw offset 8 of Some e \<Rightarrow> Inl e
      | None \<Rightarrow> Inr (WInt (le_sint (slice raw offset 8)), offset + 8))"
| "wire_unpack ByteType raw offset =
     (case need raw offset 1 of Some e \<Rightarrow> Inl e
      | None \<Rightarrow> Inr (WInt (of_char (raw ! offset)), offset + 1))"
| "wire_unpack (AlphaFixed w) raw offset =
     (case need raw offset w of Some e \<Rightarrow> Inl e
      | None \<Rightarrow> Inr (WText (until_nul (slice raw offset w)), offset + w))"
| "wire_unpack (AlphaVariable m) raw offset =
     (case need raw offset 2 of Some e \<Rightarrow> Inl e
      | None \<Rightarrow>
         (let len = nat (le_uint (slice raw offset 2))
          in case need raw (offset + 2) len of Some e \<Rightarrow> Inl e
             | None \<Rightarrow> Inr (WText (until_nul (slice raw (offset + 2) len)), offset + 2 + len)))"

subsection \<open>Presence maps\<close>

definition map_bytes :: nat where
  "map_bytes = 32"

definition presence_bits :: "bytes \<Rightarrow> nat \<Rightarrow> nat \<Rightarrow> fix_error + nat list \<times> nat" where
  "presence_bits raw offset width =
     (case need raw offset width of Some e \<Rightarrow> Inl e
      | None \<Rightarrow> Inr (concat (map (\<lambda>index. map (\<lambda>b. index * 8 + b)
            (filter (\<lambda>b. bit (of_char (raw ! (offset + index)) :: nat) (7 - b)) [0 ..< 8])) [0 ..< width]),
          offset + width))"

definition set_presence :: "nat \<Rightarrow> bytes \<Rightarrow> bytes" where
  "set_presence position data =
     data[position div 8 := char_of ((of_char (data ! (position div 8)) :: nat) OR 2 ^ (7 - position mod 8))]"

definition pack_presence :: "nat list \<Rightarrow> nat \<Rightarrow> exn + bytes" where
  "pack_presence positions width =
     (if \<exists>p \<in> set positions. width \<le> p div 8 then Inl ValueError
      else Inr (fold set_presence positions (replicate width NUL)))"

subsection \<open>Integers read back\<close>

lemma length_le_bytes [simp]: "length (le_bytes n i) = n"
  by (induction n arbitrary: i) simp_all

lemma of_char_char_of_int: "(of_char (char_of (i :: int)) :: int) = i mod 256"
  by simp

lemma le_uint_le_bytes: "le_uint (le_bytes n i) = i mod 256 ^ n"
proof (induction n arbitrary: i)
  case (Suc n)
  have "le_uint (le_bytes (Suc n) i) = i mod 256 + 256 * ((i div 256) mod 256 ^ n)" by (simp add: Suc)
  also have "\<dots> = i mod 256 ^ Suc n" by (simp add: zmod_zmult2_eq)
  finally show ?case .
qed simp

lemma le_sint_le_bytes:
  assumes "0 < n" and "- (2 ^ (8 * n - 1)) \<le> i" and "i < 2 ^ (8 * n - 1)"
  shows "le_sint (le_bytes n i) = i"
proof -
  let ?h = "2 ^ (8 * n - 1) :: int" and ?m = "2 ^ (8 * n) :: int"
  have p: "(256 :: int) ^ n = ?m" by (simp add: power_mult)
  have m: "?m = 2 * ?h" using assms(1) by (simp flip: power_Suc)
  show ?thesis
  proof (cases "0 \<le> i")
    case True
    then have "i mod ?m = i" using assms(3) m by simp
    with True assms(3) show ?thesis by (simp add: le_sint_def Let_def le_uint_le_bytes p)
  next
    case False
    have "(i + ?m) mod ?m = i + ?m" using False assms(2) m by (intro mod_pos_pos_trivial) auto
    then have "i mod ?m = i + ?m" by simp
    moreover have "?h \<le> i + ?m" using assms(2) m by simp
    ultimately show ?thesis by (simp add: le_sint_def Let_def le_uint_le_bytes p)
  qed
qed

lemma slice_at [simp]: "slice (a @ b @ c) (length a) (length b) = b"
  by (simp add: slice_def)

lemma need_at [simp]: "need (a @ b @ c) (length a) (length b) = None"
  by (simp add: need_def)

lemma until_nul_pad: "NUL \<notin> set t \<Longrightarrow> until_nul (t @ replicate (Suc k) NUL) = t"
proof -
  assume "NUL \<notin> set t"
  then have "takeWhile (\<lambda>c. c \<noteq> NUL) (t @ NUL # s) = t" for s by (induction t) auto
  then show ?thesis by (simp add: until_nul_def)
qed

text \<open>What a type carries as it is.\<close>

fun wire_fits :: "wire_type \<Rightarrow> wire_value \<Rightarrow> bool" where
  "wire_fits (Unsigned w) (WInt i) \<longleftrightarrow> 0 \<le> i \<and> i < 256 ^ w"
| "wire_fits DecimalType (WInt i) \<longleftrightarrow> - (2 ^ 63) \<le> i \<and> i < 2 ^ 63"
| "wire_fits ByteType (WInt i) \<longleftrightarrow> 0 \<le> i \<and> i < 256"
| "wire_fits (AlphaFixed w) (WText t) \<longleftrightarrow> NUL \<notin> set t \<and> length t < w"
| "wire_fits (AlphaVariable m) (WText t) \<longleftrightarrow> NUL \<notin> set t \<and> length t \<le> m \<and> length t < 65535"
| "wire_fits ty v \<longleftrightarrow> False"

lemma wire_round_trip:
  assumes "wire_fits ty v"
  obtains bs where "wire_pack ty v = Inr bs"
    "\<And>pre post. wire_unpack ty (pre @ bs @ post) (length pre) = Inr (v, length pre + length bs)"
proof -
  have "\<exists>bs. wire_pack ty v = Inr bs \<and>
      (\<forall>pre post. wire_unpack ty (pre @ bs @ post) (length pre) = Inr (v, length pre + length bs))"
    using assms
  proof (induction ty v rule: wire_fits.induct)
    case (1 w i)
    let ?b = "le_bytes w i"
    have "slice (pre @ ?b @ post) (length pre) w = ?b" "need (pre @ ?b @ post) (length pre) w = None" for pre post
      using slice_at [of pre ?b post] need_at [of pre ?b post] by simp_all
    with 1 show ?case by (intro exI [of _ ?b]) (simp add: le_uint_le_bytes)
  next
    case (2 i)
    let ?b = "le_bytes 8 i"
    have "slice (pre @ ?b @ post) (length pre) 8 = ?b" "need (pre @ ?b @ post) (length pre) 8 = None" for pre post
      using slice_at [of pre ?b post] need_at [of pre ?b post] by simp_all
    moreover have "le_sint ?b = i" using 2 by (intro le_sint_le_bytes) simp_all
    ultimately show ?case using 2 by (intro exI [of _ ?b]) (simp del: le_bytes.simps)
  next
    case (3 i)
    then show ?case by (intro exI [of _ "[char_of i]"]) (simp add: need_def nth_append)
  next
    case (4 w t)
    let ?b = "t @ replicate (w - length t) NUL"
    have l: "length ?b = w" using 4 by simp
    have "slice (pre @ ?b @ post) (length pre) w = ?b" "need (pre @ ?b @ post) (length pre) w = None" for pre post
      using slice_at [of pre ?b post] need_at [of pre ?b post] unfolding l by simp_all
    moreover have "until_nul ?b = t" using 4 until_nul_pad [of t "w - length t - 1"] by (simp add: Suc_diff_Suc)
    moreover have "take (w - Suc 0) t = t" "min (length t) (w - Suc 0) = length t" using 4 by auto
    ultimately show ?case using 4 by (intro exI [of _ ?b]) (simp add: Let_def)
  next
    case (5 m t)
    let ?n = "int (length t) + 1" and ?d = "t @ [NUL]"
    let ?b = "le_bytes 2 ?n @ ?d"
    have n: "le_uint (le_bytes 2 ?n) = ?n" using 5 by (simp add: le_uint_le_bytes del: le_bytes.simps)
    have nn: "nat ?n = length ?d" by simp
    have h: "slice (pre @ ?b @ post) (length pre) 2 = le_bytes 2 ?n" "need (pre @ ?b @ post) (length pre) 2 = None" for pre post
      using slice_at [of pre "le_bytes 2 ?n" "?d @ post"] need_at [of pre "le_bytes 2 ?n" "?d @ post"] by simp_all
    have d: "slice (pre @ ?b @ post) (length pre + 2) (length ?d) = ?d" "need (pre @ ?b @ post) (length pre + 2) (length ?d) = None"
      for pre post
      using slice_at [of "pre @ le_bytes 2 ?n" ?d post] need_at [of "pre @ le_bytes 2 ?n" ?d post] by simp_all
    have "until_nul ?d = t" using 5 until_nul_pad [of t 0] by simp
    with h d n nn have "wire_unpack (AlphaVariable m) (pre @ ?b @ post) (length pre) = Inr (WText t, length pre + length ?b)" for pre post
      by (simp only: wire_unpack.simps option.case Let_def) simp
    moreover have "wire_pack (AlphaVariable m) (WText t) = Inr ?b" using 5 by simp
    ultimately show ?case by blast
  qed simp_all
  with that show thesis by blast
qed

subsection \<open>Presence maps read back\<close>

lemma length_set_presence [simp]: "length (set_presence p data) = length data"
  by (simp add: set_presence_def)

lemma byte_bit: "k < 8 \<Longrightarrow> bit ((n :: nat) mod 256) k = bit n k"
  using bit_take_bit_iff [of 8 n k] by (simp add: take_bit_eq_mod)

lemma set_presence_bit:
  assumes "i < length data" and "b < 8"
  shows "bit (of_char (set_presence p data ! i) :: nat) (7 - b) \<longleftrightarrow>
    p = i * 8 + b \<or> bit (of_char (data ! i) :: nat) (7 - b)"
proof (cases "p div 8 = i")
  case True
  have "7 - p mod 8 = 7 - b \<longleftrightarrow> p = i * 8 + b"
  proof -
    have "p = i * 8 + p mod 8" using True by (metis div_mult_mod_eq)
    moreover have "p mod 8 < 8" by simp
    ultimately show ?thesis using assms(2) by linarith
  qed
  then have "bit ((of_char (data ! i) :: nat) OR 2 ^ (7 - p mod 8)) (7 - b) \<longleftrightarrow>
      p = i * 8 + b \<or> bit (of_char (data ! i) :: nat) (7 - b)"
    by (auto simp: bit_or_iff bit_exp_iff)
  with True assms(1) show ?thesis by (simp add: set_presence_def byte_bit)
next
  case False
  then have "p \<noteq> i * 8 + b" using assms(2) by auto
  with False show ?thesis by (simp add: set_presence_def)
qed

lemma fold_presence_bit:
  "i < length data \<Longrightarrow> b < 8 \<Longrightarrow> bit (of_char (fold set_presence ps data ! i) :: nat) (7 - b) \<longleftrightarrow>
    i * 8 + b \<in> set ps \<or> bit (of_char (data ! i) :: nat) (7 - b)"
  by (induction ps arbitrary: data) (auto simp: set_presence_bit)

lemma length_fold_presence [simp]: "length (fold set_presence ps data) = length data"
  by (induction ps arbitrary: data) simp_all

lemma upt_bytes: "concat (map (\<lambda>i. map (\<lambda>b. i * 8 + b) [0 ..< 8]) [0 ..< n]) = [0 ..< 8 * n]"
proof (induction n)
  case (Suc n)
  have "map (\<lambda>b. n * 8 + b) [0 ..< 8] = [8 * n ..< 8 * n + 8]"
    using map_add_upt [of "8 * n" 8] by (simp add: ac_simps)
  then have "concat (map (\<lambda>i. map (\<lambda>b. i * 8 + b) [0 ..< 8]) [0 ..< Suc n]) = [0 ..< 8 * n] @ [8 * n ..< 8 * n + 8]"
    using Suc by simp
  also have "\<dots> = [0 ..< 8 * Suc n]" using upt_add_eq_append [of 0 "8 * n" 8] by (simp add: add.commute)
  finally show ?case .
qed simp

lemma presence_round_trip:
  assumes "pack_presence ps width = Inr bm" and "sorted ps" and "distinct ps"
  shows "length bm = width" and "presence_bits (pre @ bm @ post) (length pre) width = Inr (ps, length pre + width)"
proof -
  have bm: "bm = fold set_presence ps (replicate width NUL)" and low: "\<forall>p \<in> set ps. p div 8 < width"
    using assms(1) by (auto simp: pack_presence_def not_le split: if_splits)
  show l: "length bm = width" using bm by simp
  let ?on = "\<lambda>i b. bit (of_char ((pre @ bm @ post) ! (length pre + i)) :: nat) (7 - b)"
  have on: "?on i b \<longleftrightarrow> i * 8 + b \<in> set ps" if "i < width" "b < 8" for i b
    using that fold_presence_bit [of i "replicate width NUL" b ps] l by (simp add: nth_append bm)
  have f: "map (\<lambda>b. i * 8 + b) (filter (?on i) [0 ..< 8]) = filter (\<lambda>p. p \<in> set ps) (map (\<lambda>b. i * 8 + b) [0 ..< 8])"
    if "i < width" for i
    unfolding filter_map o_def using on [OF that] by (intro arg_cong [where f = "map _"] filter_cong) auto
  have "concat (map (\<lambda>i. map (\<lambda>b. i * 8 + b) (filter (?on i) [0 ..< 8])) [0 ..< width]) =
      concat (map (\<lambda>i. filter (\<lambda>p. p \<in> set ps) (map (\<lambda>b. i * 8 + b) [0 ..< 8])) [0 ..< width])"
    by (intro arg_cong [where f = concat] map_cong) (use f in auto)
  also have "\<dots> = filter (\<lambda>p. p \<in> set ps) [0 ..< 8 * width]"
    unfolding upt_bytes [of width, symmetric] filter_concat map_map o_def ..
  also have "\<dots> = ps"
  proof (rule sorted_distinct_set_unique)
    have "p < 8 * width" if "p \<in> set ps" for p using low that by (simp add: div_less_iff_less_mult ac_simps)
    then show "set (filter (\<lambda>p. p \<in> set ps) [0 ..< 8 * width]) = set ps" by auto
  qed (use assms in \<open>simp_all add: sorted_wrt_filter\<close>)
  finally have "concat (map (\<lambda>i. map (\<lambda>b. i * 8 + b) (filter (?on i) [0 ..< 8])) [0 ..< width]) = ps" .
  moreover have "need (pre @ bm @ post) (length pre) width = None" using need_at [of pre bm post] l by simp
  ultimately show "presence_bits (pre @ bm @ post) (length pre) width = Inr (ps, length pre + width)"
    by (simp add: presence_bits_def)
qed

end
