(* ===== verification/Binary_Crc.thy ===== *)
theory Binary_Crc
  imports Fix_Message "HOL-Library.Word"
begin

unbundle bit_operations_syntax

section \<open>The frame checksum (\<open>binary/types.py\<close>, \<open>crc32c\<close>)\<close>

text \<open>
  CRC-32C with its table of 256 entries, on 32 bit words. The lemmas show that the table
  computes the shift register bit by bit, that the register is a permutation, and so that
  two messages that differ only within four consecutive bytes have different checksums.
\<close>

definition crc_shift :: "32 word \<Rightarrow> 32 word" where
  "crc_shift v = drop_bit 1 v XOR (if bit v 0 then 0x82F63B78 else 0)"

definition crc_entry :: "nat \<Rightarrow> 32 word" where
  "crc_entry index = (crc_shift ^^ 8) (of_nat index)"

definition crc_table :: "32 word list" where
  "crc_table = map crc_entry [0 ..< 256]"

definition crc_update :: "32 word \<Rightarrow> char \<Rightarrow> 32 word" where
  "crc_update crc c = crc_table ! unat ((crc XOR of_char c) AND 0xFF) XOR drop_bit 8 crc"

definition crc32c :: "bytes \<Rightarrow> 32 word" where
  "crc32c data = foldl crc_update 0xFFFFFFFF data XOR 0xFFFFFFFF"

subsection \<open>The shift register\<close>

lemma xor_twice: "(a XOR c) XOR c = (a :: 32 word)"
  by (simp add: xor.assoc)

lemma xor_cancel: "a XOR c = b XOR c \<longleftrightarrow> a = (b :: 32 word)" "c XOR a = c XOR b \<longleftrightarrow> a = b"
proof -
  show r: "a XOR c = b XOR c \<longleftrightarrow> a = b"
  proof
    assume "a XOR c = b XOR c"
    then have "(a XOR c) XOR c = (b XOR c) XOR c" by (rule arg_cong)
    then show "a = b" by (simp only: xor_twice)
  qed (rule arg_cong)
  then show "c XOR a = c XOR b \<longleftrightarrow> a = b" by (simp only: xor.commute [of c])
qed

lemma drop_push: "drop_bit 8 (push_bit 8 (drop_bit 8 v)) = drop_bit 8 (v :: 32 word)"
proof (rule bit_word_eqI)
  fix n
  show "bit (drop_bit 8 (push_bit 8 (drop_bit 8 v))) n = bit (drop_bit 8 v) n"
    using bit_imp_le_length [of v "8 + n"] by (auto simp: bit_push_bit_iff bit_drop_bit_eq)
qed

lemma crc_shift_xor: "crc_shift (a XOR b) = crc_shift a XOR crc_shift b"
  by (auto simp: crc_shift_def drop_bit_xor bit_xor_iff ac_simps)

lemma crc_shifts_xor: "(crc_shift ^^ n) (a XOR b) = (crc_shift ^^ n) a XOR (crc_shift ^^ n) b"
  by (induction n arbitrary: a b) (simp_all add: crc_shift_xor)

lemma crc_shifts_high: "take_bit n v = 0 \<Longrightarrow> (crc_shift ^^ n) v = drop_bit n v"
proof (induction n arbitrary: v)
  case (Suc n)
  have z: "\<not> bit v k" if "k \<le> n" for k
  proof -
    have "bit (take_bit (Suc n) v) k \<longleftrightarrow> k < Suc n \<and> bit v k" by (simp add: bit_take_bit_iff)
    with Suc.prems that show ?thesis by simp
  qed
  then have s: "crc_shift v = drop_bit 1 v" by (simp add: crc_shift_def)
  have "take_bit n (drop_bit 1 v) = 0"
    by (rule bit_word_eqI) (use z in \<open>auto simp: bit_take_bit_iff bit_drop_bit_eq\<close>)
  from Suc.IH [OF this] show ?case by (simp add: funpow_Suc_right s del: funpow.simps)
qed simp

lemma crc_shift_inject: "crc_shift a = crc_shift b \<longleftrightarrow> a = b"
proof
  assume e: "crc_shift a = crc_shift b"
  have top: "bit (crc_shift v) 31 = bit v 0" for v
    by (auto simp: crc_shift_def bit_xor_iff bit_drop_bit_eq dest: bit_imp_le_length)
  have low: "bit a 0 = bit b 0" using top [of a] top [of b] e by simp
  have d: "drop_bit 1 a = drop_bit 1 b" using e low unfolding crc_shift_def by (simp only: xor_cancel)
  show "a = b"
  proof (rule bit_word_eqI)
    fix n
    show "bit a n = bit b n"
    proof (cases n)
      case (Suc k)
      then show ?thesis using arg_cong [OF d, of "\<lambda>w. bit w k"] by (simp add: bit_drop_bit_eq)
    qed (use low in simp)
  qed
qed simp

lemma crc_shifts_inject: "(crc_shift ^^ n) a = (crc_shift ^^ n) b \<longleftrightarrow> a = b"
  by (induction n arbitrary: a b) (simp_all add: crc_shift_inject)

subsection \<open>The table computes the register\<close>

lemma of_char_bits: "bit (of_char c :: 32 word) n \<Longrightarrow> n < 8"
proof -
  have "(of_char c :: 32 word) = of_nat (of_char c)" by (simp only: of_nat_of_char)
  moreover have "take_bit 8 (of_char c :: nat) = of_char c" by (simp add: take_bit_nat_eq_self)
  ultimately have "take_bit 8 (of_char c :: 32 word) = of_char c" by (metis of_nat_take_bit take_bit_of_nat)
  then show "bit (of_char c :: 32 word) n \<Longrightarrow> n < 8" by (metis bit_take_bit_iff)
qed

lemma low_byte: "(v :: 32 word) AND 0xFF = take_bit 8 v"
  by (simp add: take_bit_eq_mask mask_eq_exp_minus_1)

lemma crc_update_register: "crc_update crc c = (crc_shift ^^ 8) (crc XOR of_char c)"
proof -
  let ?v = "crc XOR of_char c"
  let ?low = "take_bit 8 ?v" and ?high = "push_bit 8 (drop_bit 8 ?v)"
  have v: "?v = ?low XOR ?high"
  proof (rule bit_word_eqI)
    fix n
    show "bit ?v n = bit (?low XOR ?high) n"
      by (cases "n < 8") (auto simp: bit_xor_iff bit_take_bit_iff bit_push_bit_iff bit_drop_bit_eq dest: bit_imp_le_length of_char_bits)
  qed
  have high: "(crc_shift ^^ 8) ?high = drop_bit 8 crc"
  proof -
    have "take_bit 8 (push_bit 8 w) = 0" for w :: "32 word"
      by (rule bit_word_eqI) (auto simp: bit_take_bit_iff bit_push_bit_iff)
    then have "(crc_shift ^^ 8) ?high = drop_bit 8 ?high" by (rule crc_shifts_high)
    also have "\<dots> = drop_bit 8 ?v" by (rule drop_push)
    also have "\<dots> = drop_bit 8 crc"
      by (rule bit_word_eqI) (auto simp: bit_xor_iff bit_drop_bit_eq dest: of_char_bits)
    finally show ?thesis .
  qed
  have "unat (take_bit 8 w) < 256" for w :: "32 word"
  proof -
    have "unat (take_bit 8 w) = take_bit 8 (unat w)" by (rule unsigned_take_bit_eq)
    then show ?thesis using take_bit_nat_less_exp [of 8 "unat w"] by simp
  qed
  then have "unat ?low < 256" by blast
  then have "crc_table ! unat ?low = (crc_shift ^^ 8) ?low"
    by (simp add: crc_table_def crc_entry_def)
  then have "crc_update crc c = (crc_shift ^^ 8) ?low XOR (crc_shift ^^ 8) ?high"
    unfolding crc_update_def low_byte high by (simp only:)
  also have "\<dots> = (crc_shift ^^ 8) (?low XOR ?high)" by (rule crc_shifts_xor [symmetric])
  finally show ?thesis using v by simp
qed

text \<open>Up to four bytes shift into the register as one word.\<close>

fun le_word :: "bytes \<Rightarrow> 32 word" where
  "le_word [] = 0"
| "le_word (c # cs) = of_char c XOR push_bit 8 (le_word cs)"

lemma le_word_high: "length cs \<le> 4 \<Longrightarrow> bit (le_word cs) n \<Longrightarrow> n < 8 * length cs"
proof (induction cs arbitrary: n)
  case (Cons c cs)
  show ?case
  proof (cases "n < 8")
    case False
    then have "\<not> bit (of_char c :: 32 word) n" using of_char_bits by blast
    then have "8 \<le> n \<and> bit (le_word cs) (n - 8)" using Cons.prems(2) by (simp add: bit_xor_iff bit_push_bit_iff)
    then show ?thesis using Cons.IH [of "n - 8"] Cons.prems(1) by auto
  qed simp
qed simp

lemma push_drop_bytes:
  assumes "length cs \<le> 3"
  shows "drop_bit 8 (push_bit 8 (le_word cs)) = le_word cs"
proof (rule bit_word_eqI)
  fix n
  have "bit (le_word cs) n \<Longrightarrow> n + 8 < 32" using le_word_high [of cs n] assms by auto
  then show "bit (drop_bit 8 (push_bit 8 (le_word cs))) n = bit (le_word cs) n"
    by (auto simp: bit_drop_bit_eq bit_push_bit_iff)
qed

lemma crc_bytes_register:
  "length cs \<le> 4 \<Longrightarrow> foldl crc_update crc cs = (crc_shift ^^ (8 * length cs)) (crc XOR le_word cs)"
proof (induction cs arbitrary: crc)
  case (Cons c cs)
  have l: "length cs \<le> 3" using Cons.prems by simp
  have "take_bit 8 (push_bit 8 (le_word cs)) = 0"
    by (rule bit_word_eqI) (auto simp: bit_take_bit_iff bit_push_bit_iff)
  then have w: "(crc_shift ^^ 8) (push_bit 8 (le_word cs)) = le_word cs"
    using crc_shifts_high push_drop_bytes [OF l] by metis
  have "foldl crc_update crc (c # cs) = (crc_shift ^^ (8 * length cs)) (crc_update crc c XOR le_word cs)"
    using Cons.IH [of "crc_update crc c"] l by simp
  also have "crc_update crc c XOR le_word cs = (crc_shift ^^ 8) (crc XOR of_char c XOR push_bit 8 (le_word cs))"
    by (simp only: crc_update_register crc_shifts_xor w xor.assoc)
  also have "(crc_shift ^^ (8 * length cs)) \<dots> = (crc_shift ^^ (8 * length cs + 8)) (crc XOR of_char c XOR push_bit 8 (le_word cs))"
    by (simp only: funpow_add o_apply)
  finally show ?case by (simp only: le_word.simps xor.assoc length_Cons mult_Suc_right add.commute)
qed simp

lemma le_word_inject: "length a = length b \<Longrightarrow> length a \<le> 4 \<Longrightarrow> le_word a = le_word b \<Longrightarrow> a = b"
proof (induction a b rule: list_induct2)
  case (Cons c cs d ds)
  have bits: "bit (of_char c XOR push_bit 8 (le_word cs)) n = bit (of_char d XOR push_bit 8 (le_word ds)) n" for n
    using Cons.prems(2) by simp
  have "(of_char c :: 32 word) = of_char d"
  proof (rule bit_word_eqI)
    fix n
    show "bit (of_char c :: 32 word) n = bit (of_char d :: 32 word) n"
      using bits [of n] of_char_bits [of c n] of_char_bits [of d n]
      by (cases "n < 8") (auto simp: bit_xor_iff bit_push_bit_iff)
  qed
  then have p: "push_bit 8 (le_word cs) = push_bit 8 (le_word ds)"
    using Cons.prems(2) by (simp only: le_word.simps xor_cancel)
  have l: "length cs \<le> 3" "length ds \<le> 3" using Cons.prems(1) Cons.hyps by simp_all
  have "le_word cs = le_word ds" using push_drop_bytes [OF l(1)] push_drop_bytes [OF l(2)] p by metis
  moreover have "length cs \<le> 4" using l by simp
  ultimately have "cs = ds" using Cons.IH by blast
  moreover have "c = d"
  proof -
    have u: "unat (of_char x :: 32 word) = of_char x" for x
    proof -
      have "(of_char x :: nat) < 2 ^ LENGTH(32)" by (rule less_trans [OF nat_of_char_less_256]) simp
      then have "unat (of_nat (of_char x) :: 32 word) = of_char x" by (rule of_nat_inverse [OF refl])
      then show ?thesis by (simp only: of_nat_of_char)
    qed
    have "(of_char c :: nat) = of_char d" using u [of c] u [of d] \<open>(of_char c :: 32 word) = of_char d\<close> by (simp only:)
    then show ?thesis by (metis char_of_char)
  qed
  ultimately show ?case by simp
qed simp

lemma crc_update_inject: "foldl crc_update a cs = foldl crc_update b cs \<longleftrightarrow> a = b"
proof (induction cs arbitrary: a b)
  case (Cons c cs)
  have "crc_update a c = crc_update b c \<longleftrightarrow> a XOR of_char c = b XOR of_char c"
    by (simp only: crc_update_register crc_shifts_inject)
  also have "\<dots> \<longleftrightarrow> a = b" by (rule xor_cancel)
  finally show ?case using Cons by simp
qed simp

lemma crc32c_detects_burst:
  assumes "length x = length y" and "length x \<le> 4" and "x \<noteq> y"
  shows "crc32c (a @ x @ b) \<noteq> crc32c (a @ y @ b)"
proof
  assume e: "crc32c (a @ x @ b) = crc32c (a @ y @ b)"
  let ?s = "foldl crc_update 0xFFFFFFFF a"
  have "foldl crc_update (foldl crc_update ?s x) b = foldl crc_update (foldl crc_update ?s y) b"
    using e unfolding crc32c_def by (simp only: xor_cancel foldl_append)
  then have "foldl crc_update ?s x = foldl crc_update ?s y" by (simp only: crc_update_inject)
  then have "?s XOR le_word x = ?s XOR le_word y"
    using assms(1,2) by (simp add: crc_bytes_register crc_shifts_inject)
  then have "le_word x = le_word y" by (simp only: xor_cancel)
  with le_word_inject [OF assms(1,2)] assms(3) show False by blast
qed

end
