(* ===== verification/Binary_Frame.thy ===== *)
theory Binary_Frame
  imports Binary_Types Binary_Crc Fix_Wire
begin

section \<open>Binary frames (\<open>binary/message.py\<close>)\<close>

text \<open>
  A frame is a header of 22 bytes, a presence map of 32, a body and a checksum of 4; its
  length is written in the header. The theory has the cutting of a stream, the header and
  its checks, and the assembly of a frame. A frame that was assembled is read back, a
  stream of them is cut the same way however it is fragmented, and a frame changed within
  four consecutive bytes is refused.
\<close>

record binary_header =
  bh_msg_type :: int
  bh_seq_num :: int
  bh_comp_id :: string
  bh_poss_dup :: bool
  bh_poss_resend :: bool

definition header_bytes :: nat where "header_bytes = 22"
definition body_offset :: nat where "body_offset = header_bytes + map_bytes"
definition trailer_bytes :: nat where "trailer_bytes = 4"
definition min_message_bytes :: nat where "min_message_bytes = body_offset + trailer_bytes"

lemma frame_sizes: "header_bytes = 22" "body_offset = 54" "trailer_bytes = 4" "min_message_bytes = 58" "map_bytes = 32"
  by (simp_all add: header_bytes_def body_offset_def trailer_bytes_def min_message_bytes_def map_bytes_def)

abbreviation STX :: char where "STX \<equiv> CHR 0x02"

definition hex_byte :: "char \<Rightarrow> string" where
  "hex_byte c = (let n = (of_char c :: nat) in [hex_digit (n div 16), hex_digit (n mod 16)])"

definition hex_word :: "int \<Rightarrow> string" where
  "hex_word i = map (\<lambda>k. let d = nat (i div 16 ^ k mod 16) in if d < 10 then char_of (48 + d) else char_of (55 + d)) (rev [0 ..< 8])"

definition bad_start :: "char \<Rightarrow> fix_error" where
  "bad_start c = Malformed (''message does not begin with StartOfMessage (0x02) but 0x'' @ hex_byte c)"

subsection \<open>Framing\<close>

definition binary_extract :: "bytes \<Rightarrow> fix_error + bytes \<times> bytes" where
  "binary_extract buffer =
     (if length buffer < 3
      then (if buffer \<noteq> [] \<and> hd buffer \<noteq> STX then Inl (bad_start (hd buffer))
            else Inl (Incomplete ''awaiting the message header''))
      else if hd buffer \<noteq> STX then Inl (bad_start (hd buffer))
      else (let len = nat (le_uint (slice buffer 1 2)) in
            if len < min_message_bytes
            then Inl (Malformed (''Length ('' @ string_of_nat len @ '') is shorter than the '' @
                   string_of_nat min_message_bytes @ '' bytes a message needs''))
            else if length buffer < len then Inl (Incomplete ''awaiting message body'')
            else Inr (take len buffer, drop len buffer)))"

lemma binary_extract_shrinks: "binary_extract buffer = Inr (raw, rest) \<Longrightarrow> length rest < length buffer"
  by (auto simp: binary_extract_def Let_def frame_sizes split: if_splits)

function binary_frame_loop :: "bytes \<Rightarrow> (fix_error \<times> bytes) + bytes list \<times> bytes" where
  "binary_frame_loop buffer =
     (if buffer = [] then Inr ([], [])
      else (case binary_extract buffer of
              Inl (Incomplete t) \<Rightarrow> Inr ([], buffer)
            | Inl (Malformed t) \<Rightarrow> Inl (Malformed t, buffer)
            | Inr (raw, rest) \<Rightarrow>
                (case binary_frame_loop rest of Inl e \<Rightarrow> Inl e | Inr (raws, left) \<Rightarrow> Inr (raw # raws, left))))"
  by pat_completeness auto
termination
  by (relation "measure length") (auto dest: binary_extract_shrinks)

declare binary_frame_loop.simps [simp del]

subsection \<open>Headers\<close>

definition frame_checksum :: "bytes \<Rightarrow> int" where
  "frame_checksum raw = le_uint (slice raw (length raw - trailer_bytes) 4)"

definition computed_checksum :: "bytes \<Rightarrow> int" where
  "computed_checksum raw = uint (crc32c (take (length raw - trailer_bytes) raw))"

definition unpack_header :: "bytes \<Rightarrow> bool \<Rightarrow> fix_error + binary_header" where
  "unpack_header raw validate_checksum =
     (if length raw < min_message_bytes
      then Inl (Malformed (''message is '' @ string_of_nat (length raw) @ '' bytes, shorter than a header''))
      else (let start = hd raw; len = nat (le_uint (slice raw 1 2)) in
        if start \<noteq> STX then Inl (Malformed (''StartOfMessage is 0x'' @ hex_byte start @ '', not 0x02''))
        else if len \<noteq> length raw
        then Inl (Malformed (''Length says '' @ string_of_nat len @ '' bytes, frame is '' @ string_of_nat (length raw)))
        else if validate_checksum \<and> frame_checksum raw \<noteq> computed_checksum raw
        then Inl (Malformed (''CheckSum mismatch: got 0x'' @ hex_word (frame_checksum raw) @ '', computed 0x'' @
               hex_word (computed_checksum raw)))
        else (case wire_unpack (AlphaFixed 12) raw 10 of
                Inl e \<Rightarrow> Inl e
              | Inr (v, _) \<Rightarrow> Inr \<lparr>bh_msg_type = le_uint (slice raw 3 1), bh_seq_num = le_uint (slice raw 4 4),
                   bh_comp_id = value_text v, bh_poss_dup = (slice raw 8 1 \<noteq> [NUL]), bh_poss_resend = (slice raw 9 1 \<noteq> [NUL])\<rparr>)))"

definition header_fields :: "binary_header \<Rightarrow> nat \<Rightarrow> exn + bytes" where
  "header_fields h len =
     (if bh_msg_type h < 0 \<or> bh_msg_type h > 255 \<or> bh_seq_num h < 0 \<or> bh_seq_num h \<ge> 2 ^ 32 then Inl StructError
      else Inr (STX # le_bytes 2 (int len) @ le_bytes 1 (bh_msg_type h) @ le_bytes 4 (bh_seq_num h) @
        le_bytes 1 (if bh_poss_dup h then 1 else 0) @ le_bytes 1 (if bh_poss_resend h then 1 else 0)))"

definition frame_pack :: "binary_header \<Rightarrow> bytes \<Rightarrow> bytes \<Rightarrow> exn + bytes" where
  "frame_pack h presence body =
     (let len = body_offset + length body + trailer_bytes in
      if len > 65535 then Inl ValueError
      else bind_exn (header_fields h len) (\<lambda>head.
        bind_exn (wire_pack (AlphaFixed 12) (WText (bh_comp_id h))) (\<lambda>comp.
          let frame = head @ comp @ presence @ body
          in Inr (frame @ le_bytes 4 (uint (crc32c frame))))))"

definition body_of :: "bytes \<Rightarrow> bytes" where
  "body_of raw = drop header_bytes (take (length raw - trailer_bytes) raw)"

subsection \<open>A frame that was assembled\<close>

definition header_ok :: "binary_header \<Rightarrow> bool" where
  "header_ok h \<longleftrightarrow> NUL \<notin> set (bh_comp_id h) \<and> length (bh_comp_id h) < 12"

lemma frame_pack_parts:
  assumes "frame_pack h presence body = Inr raw" and "length presence = map_bytes"
  obtains frame where "raw = frame @ le_bytes 4 (uint (crc32c frame))" "length frame = 54 + length body"
    "length raw = 58 + length body" "length raw \<le> 65535"
    "frame = STX # le_bytes 2 (int (length raw)) @ le_bytes 1 (bh_msg_type h) @ le_bytes 4 (bh_seq_num h) @
       le_bytes 1 (if bh_poss_dup h then 1 else 0) @ le_bytes 1 (if bh_poss_resend h then 1 else 0) @
       (take 11 (bh_comp_id h) @ replicate (12 - min (length (bh_comp_id h)) 11) NUL) @ presence @ body"
    "0 \<le> bh_msg_type h" "bh_msg_type h < 256" "0 \<le> bh_seq_num h" "bh_seq_num h < 2 ^ 32"
proof -
  let ?len = "58 + length body"
  let ?frame = "STX # le_bytes 2 (int ?len) @ le_bytes 1 (bh_msg_type h) @ le_bytes 4 (bh_seq_num h) @
       le_bytes 1 (if bh_poss_dup h then 1 else 0) @ le_bytes 1 (if bh_poss_resend h then 1 else 0) @
       (take 11 (bh_comp_id h) @ replicate (12 - min (length (bh_comp_id h)) 11) NUL) @ presence @ body"
  have l: "length ?frame = 54 + length body" using assms(2) by (simp add: frame_sizes del: le_bytes.simps)
  have r: "raw = ?frame @ le_bytes 4 (uint (crc32c ?frame))" "?len \<le> 65535"
    "0 \<le> bh_msg_type h" "bh_msg_type h < 256" "0 \<le> bh_seq_num h" "bh_seq_num h < 2 ^ 32"
    using assms(1)
    by (simp_all add: frame_pack_def header_fields_def Let_def frame_sizes not_less not_le del: le_bytes.simps split: if_splits)
  have lr: "length raw = ?len" unfolding r(1) using l by (simp del: le_bytes.simps)
  show thesis by (rule that [of ?frame]) (use r l lr in \<open>simp_all del: le_bytes.simps\<close>)
qed

lemma slice_prefix: "slice (a @ b) i n = slice a i n" if "i + n \<le> length a"
  using that by (simp add: slice_def)

lemma slice_skip: "length a \<le> i \<Longrightarrow> slice (a @ b) i n = slice b (i - length a) n"
  by (simp add: slice_def)

lemma slice_all: "length a = n \<Longrightarrow> slice (a @ b) 0 n = a"
  by (simp add: slice_def)

lemma slice_nth: "slice (a @ b @ c) i n = b" if "length a = i" "length b = n"
  using slice_at [of a b c] that by simp

lemma uint_of_bytes [simp]: "le_uint (le_bytes 4 (uint (w :: 32 word))) = uint w"
  using uint_bounded [of w] by (simp add: le_uint_le_bytes del: le_bytes.simps)

lemma slice_whole: "length b = n \<Longrightarrow> slice b 0 n = b"
  by (simp add: slice_def)

lemma frame_trailer:
  assumes "raw = frame @ le_bytes 4 (uint (crc32c frame))"
  shows "frame_checksum raw = computed_checksum raw"
proof -
  have l: "length raw - 4 = length frame" using assms by (simp del: le_bytes.simps)
  have "slice raw (length frame) 4 = le_bytes 4 (uint (crc32c frame))"
    unfolding assms by (simp add: slice_skip slice_whole del: le_bytes.simps)
  moreover have "take (length frame) raw = frame" using assms by simp
  ultimately show ?thesis by (simp add: frame_checksum_def computed_checksum_def frame_sizes l del: le_bytes.simps)
qed

lemma header_slices:
  assumes "raw = s @ a @ b @ c @ d @ e @ f @ g" and "length s = 1" "length a = 2" "length b = 1" "length c = 4"
    "length d = 1" "length e = 1" "length f = 12"
  shows "slice raw 1 2 = a" "slice raw 3 1 = b" "slice raw 4 4 = c" "slice raw 8 1 = d" "slice raw 9 1 = e"
    "slice raw 10 12 = f" "drop 22 raw = g"
  using assms(2-) by (simp_all add: assms(1) slice_skip slice_all slice_whole)

lemma one_byte: "le_bytes 1 i = [char_of (i mod 256)]"
  by (simp add: numeral_eq_Suc)

lemma unpack_frame_pack:
  assumes p: "frame_pack h presence body = Inr raw" and l: "length presence = map_bytes" and ok: "header_ok h"
  shows "unpack_header raw validate = Inr h" and "body_of raw = presence @ body"
proof -
  obtain frame where f: "raw = frame @ le_bytes 4 (uint (crc32c frame))" "length frame = 54 + length body"
    "length raw = 58 + length body" "length raw \<le> 65535"
    "frame = STX # le_bytes 2 (int (length raw)) @ le_bytes 1 (bh_msg_type h) @ le_bytes 4 (bh_seq_num h) @
       le_bytes 1 (if bh_poss_dup h then 1 else 0) @ le_bytes 1 (if bh_poss_resend h then 1 else 0) @
       (take 11 (bh_comp_id h) @ replicate (12 - min (length (bh_comp_id h)) 11) NUL) @ presence @ body"
    "0 \<le> bh_msg_type h" "bh_msg_type h < 256" "0 \<le> bh_seq_num h" "bh_seq_num h < 2 ^ 32"
    by (rule frame_pack_parts [OF p l])
  let ?t = "le_bytes 4 (uint (crc32c frame))"
  let ?comp = "bh_comp_id h @ replicate (12 - length (bh_comp_id h)) NUL"
  have comp: "take 11 (bh_comp_id h) @ replicate (12 - min (length (bh_comp_id h)) 11) NUL = ?comp"
    using ok by (simp add: header_ok_def)
  have lc: "length ?comp = 12" using ok by (simp add: header_ok_def)
  have raw: "raw = [STX] @ le_bytes 2 (int (length raw)) @ le_bytes 1 (bh_msg_type h) @ le_bytes 4 (bh_seq_num h) @
      le_bytes 1 (if bh_poss_dup h then 1 else 0) @ le_bytes 1 (if bh_poss_resend h then 1 else 0) @ ?comp @ (presence @ body) @ ?t"
    by (subst f(1)) (simp add: f(5) comp del: le_bytes.simps)
  note sl = header_slices [OF raw, simplified length_le_bytes lc, simplified]
  have flag: "le_bytes 1 (if b then 1 else 0) \<noteq> [NUL] \<longleftrightarrow> b" for b by (simp add: one_byte) code_simp
  have "until_nul ?comp = bh_comp_id h"
  proof -
    have "12 - length (bh_comp_id h) = Suc (11 - length (bh_comp_id h))" using ok unfolding header_ok_def by linarith
    moreover have "NUL \<notin> set (bh_comp_id h)" using ok unfolding header_ok_def by blast
    ultimately show ?thesis using until_nul_pad by (simp del: replicate_Suc)
  qed
  moreover have "need raw 10 12 = None" using f(3) by (simp add: need_def)
  ultimately have u: "wire_unpack (AlphaFixed 12) raw 10 = Inr (WText (bh_comp_id h), 22)" by (simp add: sl(6))
  have v: "nat (le_uint (le_bytes 2 (int (length raw)))) = length raw" using f(4) by (simp add: le_uint_le_bytes del: le_bytes.simps)
  have m: "le_uint (le_bytes 1 (bh_msg_type h)) = bh_msg_type h" "le_uint (le_bytes 4 (bh_seq_num h)) = bh_seq_num h"
    using f(6-9) by (simp_all add: le_uint_le_bytes del: le_bytes.simps)
  have hd: "hd raw = STX" by (subst raw) simp
  have lm: "\<not> length raw < min_message_bytes" using f(3) by (simp add: frame_sizes)
  have c: "char_of (1 :: int) \<noteq> NUL" "char_of (0 :: int) = NUL" by code_simp+
  have "bh_msg_type h mod 256 = bh_msg_type h" using f(6,7) by simp
  then show "unpack_header raw validate = Inr h"
    using lm hd v c frame_trailer [OF f(1)]
    by (simp add: unpack_header_def Let_def sl(1-5) u m flag del: le_bytes.simps wire_unpack.simps)
  have "take (length raw - 4) raw = frame" using f(1) by (simp del: le_bytes.simps)
  moreover have "drop 22 frame = presence @ body"
    using lc by (simp add: f(5) comp del: le_bytes.simps)
  ultimately show "body_of raw = presence @ body" by (simp add: body_of_def frame_sizes)
qed

subsection \<open>A corrupted frame\<close>

text \<open>A frame that is accepted, changed within four consecutive bytes before the checksum.\<close>

lemma header_checks:
  assumes "unpack_header raw validate = Inr h"
  shows "min_message_bytes \<le> length raw" "hd raw = STX" "nat (le_uint (slice raw 1 2)) = length raw"
    "validate \<Longrightarrow> frame_checksum raw = computed_checksum raw"
  using assms by (auto simp: unpack_header_def Let_def not_less split: if_splits)

lemma corrupted_frame_refused:
  assumes ok: "unpack_header (a @ x @ b) True = Inr h" and xy: "length x = length y" "length x \<le> 4" "x \<noteq> y" and b: "4 \<le> length b"
  shows "\<exists>t. unpack_header (a @ y @ b) True = Inl (Malformed t)"
proof -
  let ?r = "a @ x @ b" and ?s = "a @ y @ b"
  have len: "length ?s = length ?r" using xy(1) by simp
  let ?n = "length ?r - 4"
  have t: "take ?n ?r = a @ x @ take (length b - 4) b" "take ?n ?s = a @ y @ take (length b - 4) b"
    using b xy(1) by simp_all
  have d: "slice ?r ?n 4 = slice ?s ?n 4" using b xy(1) by (simp add: slice_def)
  have "crc32c (take ?n ?r) \<noteq> crc32c (take ?n ?s)" unfolding t by (rule crc32c_detects_burst [OF xy])
  then have c: "computed_checksum ?r \<noteq> computed_checksum ?s"
    unfolding computed_checksum_def len frame_sizes by (simp only: word_uint_eq_iff simp_thms)
  have f: "frame_checksum ?r = frame_checksum ?s" unfolding frame_checksum_def len frame_sizes by (simp only: d)
  have "frame_checksum ?s \<noteq> computed_checksum ?s" using header_checks(4) [OF ok] c f by simp
  moreover have "min_message_bytes \<le> length ?s" using header_checks(1) [OF ok] len by simp
  ultimately show ?thesis unfolding unpack_header_def Let_def by (simp only: not_less [symmetric] if_False simp_thms) (auto split: if_split)
qed

subsection \<open>A stream of frames\<close>

definition is_frame :: "bytes \<Rightarrow> bool" where
  "is_frame raw \<longleftrightarrow> (\<exists>h presence body. length presence = map_bytes \<and> frame_pack h presence body = Inr raw)"

lemma is_frame_start:
  assumes "is_frame raw"
  shows "hd raw = STX" "58 \<le> length raw" "length raw \<le> 65535" "slice raw 1 2 = le_bytes 2 (int (length raw))"
proof -
  obtain h presence body where p: "frame_pack h presence body = Inr raw" "length presence = map_bytes"
    using assms by (auto simp: is_frame_def)
  obtain frame where f: "raw = frame @ le_bytes 4 (uint (crc32c frame))" "length frame = 54 + length body"
    "length raw = 58 + length body" "length raw \<le> 65535"
    "frame = STX # le_bytes 2 (int (length raw)) @ le_bytes 1 (bh_msg_type h) @ le_bytes 4 (bh_seq_num h) @
       le_bytes 1 (if bh_poss_dup h then 1 else 0) @ le_bytes 1 (if bh_poss_resend h then 1 else 0) @
       (take 11 (bh_comp_id h) @ replicate (12 - min (length (bh_comp_id h)) 11) NUL) @ presence @ body"
    "0 \<le> bh_msg_type h" "bh_msg_type h < 256" "0 \<le> bh_seq_num h" "bh_seq_num h < 2 ^ 32"
    by (rule frame_pack_parts [OF p])
  obtain r where r: "frame = [STX] @ le_bytes 2 (int (length raw)) @ r"
    by (rule that) (simp only: f(5) append_Cons append_Nil)
  show "hd raw = STX" "58 \<le> length raw" "length raw \<le> 65535"
  proof -
    have "raw = STX # le_bytes 2 (int (length raw)) @ r @ le_bytes 4 (uint (crc32c frame))"
      using f(1) r by (simp only: append_assoc append_Cons append_Nil)
    then show "hd raw = STX" by (metis list.sel(1))
    show "58 \<le> length raw" unfolding f(3) by simp
    show "length raw \<le> 65535" by (rule f(4))
  qed
  have "slice ([STX] @ le_bytes 2 (int (length raw)) @ r @ t) 1 2 = le_bytes 2 (int (length raw))" for t
    by (rule slice_nth) simp_all
  then show "slice raw 1 2 = le_bytes 2 (int (length raw))" using f(1) r by (metis append_assoc)
qed

lemma frame_length_read: "is_frame raw \<Longrightarrow> nat (le_uint (slice raw 1 2)) = length raw"
  using is_frame_start(3,4) [of raw] by (simp add: le_uint_le_bytes del: le_bytes.simps)

lemma binary_extract_frame:
  assumes "is_frame raw"
  shows "binary_extract (raw @ rest) = Inr (raw, rest)"
proof -
  note f = is_frame_start [OF assms]
  have "slice (raw @ rest) 1 2 = slice raw 1 2" using f(2) by (intro slice_prefix) simp
  moreover have "hd (raw @ rest) = STX" using f(1,2) by (cases raw) auto
  ultimately show ?thesis using f(2) frame_length_read [OF assms]
    by (simp add: binary_extract_def Let_def frame_sizes)
qed

lemma binary_extract_partial:
  assumes "is_frame raw" and "p @ q = raw" and "q \<noteq> []" and "p \<noteq> []"
  shows "\<exists>t. binary_extract p = Inl (Incomplete t)"
proof -
  note f = is_frame_start [OF assms(1)]
  have hd: "hd p = STX" using f(1) assms(2,4) by (cases p) auto
  have lp: "length p < length raw" using assms(2,3) by auto
  show ?thesis
  proof (cases "length p < 3")
    case True
    then show ?thesis using hd assms(4) by (simp add: binary_extract_def)
  next
    case False
    then have "slice (p @ q) 1 2 = slice p 1 2" by (intro slice_prefix) simp
    then have "nat (le_uint (slice p 1 2)) = length raw" using frame_length_read [OF assms(1)] assms(2) by simp
    then show ?thesis using False hd lp f(2) by (simp add: binary_extract_def Let_def frame_sizes)
  qed
qed

interpretation binary_framing: stream_framing binary_extract binary_frame_loop is_frame
proof unfold_locales
  show "is_frame e \<Longrightarrow> e \<noteq> []" for e using is_frame_start(2) [of e] by auto
  show "is_frame e \<Longrightarrow> binary_extract (e @ r) = Inr (e, r)" for e r by (rule binary_extract_frame)
  show "is_frame e \<Longrightarrow> p @ q = e \<Longrightarrow> q \<noteq> [] \<Longrightarrow> p \<noteq> [] \<Longrightarrow> \<exists>t. binary_extract p = Inl (Incomplete t)" for e p q
    by (rule binary_extract_partial)
qed (simp_all add: binary_frame_loop.simps)

end
