(* ===== verification/Binary_Layout.thy ===== *)
theory Binary_Layout
  imports Binary_Frame
begin

section \<open>Layouts and the binary codec (\<open>binary/layout.py\<close>, \<open>binary/codec.py\<close>)\<close>

text \<open>
  A layout is the table of fields of one message type, each at a bit of the presence map;
  a block is a group of fields that repeats. Encoding reads a message field by field in
  the order of the bits, decoding writes one. The two functions of a field that is no
  single tag, which belong to the venue, are parts of the field. A setter, and a
  conversion, may raise what the framing does not, so decoding has two kinds of error.
\<close>

datatype decode_error = Bad fix_error | Raised exn

record plain_field =
  pf_bit :: nat
  pf_name :: string
  pf_type :: wire_type
  pf_tag :: "int option"
  pf_converter :: converter
  pf_getter :: "(fix_message \<Rightarrow> exn + wire_value option) option"
  pf_setter :: "(fix_message \<Rightarrow> wire_value \<Rightarrow> exn + fix_message) option"
  pf_redact :: bool
  pf_repeating :: bool

datatype layout_field =
    Plain plain_field
  | Block nat string int "layout_field list" bool

definition make_plain :: "nat \<Rightarrow> string \<Rightarrow> wire_type \<Rightarrow> int option \<Rightarrow> converter \<Rightarrow>
    (fix_message \<Rightarrow> exn + wire_value option) option \<Rightarrow> (fix_message \<Rightarrow> wire_value \<Rightarrow> exn + fix_message) option \<Rightarrow>
    bool \<Rightarrow> exn + plain_field" where
  "make_plain bit_no name ty tag conv getter setter redact =
     (if tag = None \<and> (getter = None \<or> setter = None) then Inl ValueError
      else Inr \<lparr>pf_bit = bit_no, pf_name = name, pf_type = ty, pf_tag = tag, pf_converter = conv,
        pf_getter = getter, pf_setter = setter, pf_redact = redact, pf_repeating = False\<rparr>)"

fun field_bit :: "layout_field \<Rightarrow> nat" where
  "field_bit (Plain f) = pf_bit f"
| "field_bit (Block b name count_tag fs r) = b"

fun as_repeating :: "layout_field \<Rightarrow> layout_field" where
  "as_repeating (Plain f) = Plain (f\<lparr>pf_repeating := True\<rparr>)"
| "as_repeating (Block b name count_tag fs r) = Block b name count_tag fs True"

definition block_map_bytes :: nat where
  "block_map_bytes = 2"

definition make_block :: "nat \<Rightarrow> string \<Rightarrow> int \<Rightarrow> layout_field list \<Rightarrow> exn + layout_field" where
  "make_block b name count_tag fs =
     (if distinct (map field_bit fs)
      then Inr (Block b name count_tag (map as_repeating (sort_key field_bit fs)) False) else Inl ValueError)"

record layout =
  ly_msg_type :: int
  ly_name :: string
  ly_fix_type :: string
  ly_fields :: "layout_field list"

definition make_layout :: "int \<Rightarrow> string \<Rightarrow> string \<Rightarrow> layout_field list \<Rightarrow> exn + layout" where
  "make_layout msg_type name fix_type fs =
     (if distinct (map field_bit fs)
      then Inr \<lparr>ly_msg_type = msg_type, ly_name = name, ly_fix_type = fix_type, ly_fields = sort_key field_bit fs\<rparr>
      else Inl ValueError)"

subsection \<open>Encoding\<close>

text \<open>The \<open>index\<close>-th occurrence of a field, which is how an entry of a block is read.\<close>

definition read_field :: "plain_field \<Rightarrow> fix_message \<Rightarrow> nat \<Rightarrow> exn + wire_value option" where
  "read_field f m index =
     (case pf_getter f of
        Some get \<Rightarrow> get m
      | None \<Rightarrow>
         (let values = msg_get_all m (the (pf_tag f)) in
          if index \<ge> length values \<or> values ! index = [] then Inr None
          else map_sum id Some (to_wire (pf_converter f) (values ! index))))"

definition read_count :: "int \<Rightarrow> fix_message \<Rightarrow> nat \<Rightarrow> int option" where
  "read_count count_tag m index =
     (let values = msg_get_all m count_tag in if index \<ge> length values then None else int_of_str (values ! index))"

fun inner_counts :: "layout_field list \<Rightarrow> int list" where
  "inner_counts [] = []"
| "inner_counts (Plain f # fs) = inner_counts fs"
| "inner_counts (Block b name count_tag gs r # fs) = count_tag # inner_counts fs"

definition ambiguous :: "layout_field list \<Rightarrow> fix_message \<Rightarrow> int \<Rightarrow> bool" where
  "ambiguous fs m count \<longleftrightarrow> count > 1 \<and> (\<exists>tag \<in> set (inner_counts fs). msg_has m tag)"

text \<open>The bits that are set and the bytes of the fields, of a list of fields.\<close>

fun pack_field :: "layout_field \<Rightarrow> fix_message \<Rightarrow> nat \<Rightarrow> exn + bytes option"
  and pack_fields :: "layout_field list \<Rightarrow> fix_message \<Rightarrow> nat \<Rightarrow> exn + nat list \<times> bytes" where
  "pack_field (Plain f) m index =
     bind_exn (read_field f m index) (\<lambda>v. case v of None \<Rightarrow> Inr None | Some x \<Rightarrow> map_sum id Some (wire_pack (pf_type f) x))"
| "pack_field (Block b name count_tag fs r) m index =
     (case read_count count_tag m index of None \<Rightarrow> Inr None
      | Some count \<Rightarrow>
         (if ambiguous fs m count then Inl ValueError
          else bind_exn (wire_pack (Unsigned 2) (WInt count)) (\<lambda>head.
            bind_exn (map_exn (\<lambda>entry. bind_exn (pack_fields fs m entry) (\<lambda>(bits, body).
                map_sum id (\<lambda>bm. bm @ body) (pack_presence bits block_map_bytes))) [0 ..< nat count]) (\<lambda>chunks.
              Inr (Some (head @ concat chunks))))))"
| "pack_fields [] m index = Inr ([], [])"
| "pack_fields (f # fs) m index =
     bind_exn (pack_field f m index) (\<lambda>packed.
       bind_exn (pack_fields fs m index) (\<lambda>(bits, body).
         Inr (case packed of None \<Rightarrow> (bits, body) | Some bs \<Rightarrow> (field_bit f # bits, bs @ body))))"

definition encode_layout :: "layout \<Rightarrow> fix_message \<Rightarrow> exn + bytes \<times> bytes" where
  "encode_layout ly m =
     bind_exn (pack_fields (ly_fields ly) m 0) (\<lambda>(bits, body).
       map_sum id (\<lambda>bm. (bm, body)) (pack_presence bits map_bytes))"

subsection \<open>Decoding\<close>

definition write_field :: "plain_field \<Rightarrow> wire_value \<Rightarrow> fix_message \<Rightarrow> exn + fix_message" where
  "write_field f v m =
     (case pf_setter f of
        Some put \<Rightarrow> put m v
      | None \<Rightarrow> bind_exn (from_wire (pf_converter f) v) (\<lambda>t.
          Inr (if pf_repeating f then msg_append (the (pf_tag f)) t m else msg_set (the (pf_tag f)) t m)))"

fun fold_exn :: "('x \<Rightarrow> 's \<Rightarrow> 'e + 's) \<Rightarrow> 'x list \<Rightarrow> 's \<Rightarrow> 'e + 's" where
  "fold_exn g [] s = Inr s"
| "fold_exn g (x # xs) s = (case g x s of Inl e \<Rightarrow> Inl e | Inr s1 \<Rightarrow> fold_exn g xs s1)"

definition no_field :: "string \<Rightarrow> nat \<Rightarrow> string \<Rightarrow> decode_error" where
  "no_field name b t = Bad (Malformed (name @ '' has no field at bit position '' @ string_of_nat b @ t))"

text \<open>
  A field, and the field of a list that has a bit; both on the message so far and the
  offset reached.
\<close>

fun unpack_field :: "layout_field \<Rightarrow> bytes \<Rightarrow> fix_message \<times> nat \<Rightarrow> decode_error + fix_message \<times> nat"
  and unpack_at :: "layout_field list \<Rightarrow> decode_error \<Rightarrow> nat \<Rightarrow> bytes \<Rightarrow> fix_message \<times> nat \<Rightarrow> decode_error + fix_message \<times> nat" where
  "unpack_field (Plain f) raw (m, offset) =
     (case wire_unpack (pf_type f) raw offset of Inl e \<Rightarrow> Inl (Bad e)
      | Inr (v, next_at) \<Rightarrow> (case write_field f v m of Inl e \<Rightarrow> Inl (Raised e) | Inr m1 \<Rightarrow> Inr (m1, next_at)))"
| "unpack_field (Block b name count_tag fs r) raw (m, offset) =
     (case wire_unpack (Unsigned 2) raw offset of Inl e \<Rightarrow> Inl (Bad e)
      | Inr (v, next_at) \<Rightarrow>
         (let m1 = (if r then msg_append count_tag (value_text v) m else msg_set count_tag (value_text v) m)
          in fold_exn (\<lambda>_ (m2, off). case presence_bits raw off block_map_bytes of Inl e \<Rightarrow> Inl (Bad e)
               | Inr (bits, off1) \<Rightarrow>
                   fold_exn (\<lambda>bt. unpack_at fs (no_field name bt '' of its block'') bt raw) bits (m2, off1))
             [0 ..< (case v of WInt i \<Rightarrow> nat i | WText _ \<Rightarrow> 0)] (m1, next_at)))"
| "unpack_at [] e bt raw s = Inl e"
| "unpack_at (f # fs) e bt raw s = (if field_bit f = bt then unpack_field f raw s else unpack_at fs e bt raw s)"

definition decode_layout :: "layout \<Rightarrow> bytes \<Rightarrow> fix_message \<Rightarrow> decode_error + fix_message" where
  "decode_layout ly raw m =
     (case presence_bits raw header_bytes map_bytes of Inl e \<Rightarrow> Inl (Bad e)
      | Inr (bits, offset) \<Rightarrow>
         (case fold_exn (\<lambda>bt. unpack_at (ly_fields ly) (no_field (ly_name ly) bt []) bt raw) bits (m, offset) of
            Inl e \<Rightarrow> Inl e
          | Inr (m1, reached) \<Rightarrow>
             (let end_at = int (length raw) - int trailer_bytes in
              if int reached \<noteq> end_at
              then Inl (Bad (Malformed (ly_name ly @ '' body is '' @ string_of_int (end_at - int header_bytes) @
                     '' bytes, the presence map accounts for '' @ string_of_int (int reached - int header_bytes))))
              else Inr m1)))"

subsection \<open>The dictionary of layouts\<close>

record binary_dictionary =
  bd_layouts :: "layout list"
  bd_select :: "(fix_message \<Rightarrow> layout option) option"

definition layout_of_type :: "binary_dictionary \<Rightarrow> int \<Rightarrow> layout option" where
  "layout_of_type d t = find (\<lambda>ly. ly_msg_type ly = t) (rev (bd_layouts d))"

definition layout_of_fix :: "binary_dictionary \<Rightarrow> string option \<Rightarrow> layout option" where
  "layout_of_fix d t = find (\<lambda>ly. Some (ly_fix_type ly) = t) (bd_layouts d)"

definition layout_for :: "binary_dictionary \<Rightarrow> fix_message \<Rightarrow> layout option" where
  "layout_for d m =
     or_else (case bd_select d of None \<Rightarrow> None | Some select \<Rightarrow> select m) (layout_of_fix d (msg_type_of m))"

definition unsupported_msg_type :: "int \<Rightarrow> string" where
  "unsupported_msg_type t = CHR ''B'' # string_of_int t"

definition fix_msg_type :: "binary_dictionary \<Rightarrow> int \<Rightarrow> string" where
  "fix_msg_type d t = (case layout_of_type d t of Some ly \<Rightarrow> ly_fix_type ly | None \<Rightarrow> unsupported_msg_type t)"

definition binary_type_of :: "binary_dictionary \<Rightarrow> string option \<Rightarrow> int option" where
  "binary_type_of d t =
     (case layout_of_fix d t of Some ly \<Rightarrow> Some (ly_msg_type ly)
      | None \<Rightarrow> (case t of Some (c # cs) \<Rightarrow> (if c = CHR ''B'' then int_of_str cs else None) | _ \<Rightarrow> None))"

subsection \<open>The codec\<close>

record binary_codec =
  bc_dictionary :: binary_dictionary
  bc_comp_id :: string
  bc_client :: bool

definition gap_fillable :: "int set" where
  "gap_fillable = {0, 1, 2, 4, 5, 6}"

definition header_message :: "binary_codec \<Rightarrow> binary_header \<Rightarrow> fix_message" where
  "header_message c h =
     (let m0 = msg_set 34 (string_of_int (bh_seq_num h)) (msg_create (fix_msg_type (bc_dictionary c) (bh_msg_type h)));
          m1 = (if bc_client c then msg_set 56 (bh_comp_id h) (msg_set 49 (bc_comp_id c) m0)
                else msg_set 56 (bc_comp_id c) (msg_set 49 (bh_comp_id h) m0));
          m2 = (if bh_poss_dup h then msg_set 43 ''Y'' m1 else m1)
      in if bh_poss_resend h then msg_set 97 ''Y'' m2 else m2)"

definition binary_decode :: "binary_codec \<Rightarrow> bytes \<Rightarrow> bool \<Rightarrow> decode_error + fix_message" where
  "binary_decode c raw validate =
     (case unpack_header raw validate of Inl e \<Rightarrow> Inl (Bad e)
      | Inr h \<Rightarrow>
         (case layout_of_type (bc_dictionary c) (bh_msg_type h) of
            None \<Rightarrow> Inr (header_message c h)
          | Some ly \<Rightarrow> decode_layout ly raw (header_message c h)))"

definition message_header :: "binary_codec \<Rightarrow> layout \<Rightarrow> fix_message \<Rightarrow> binary_header" where
  "message_header c ly m =
     \<lparr>bh_msg_type = ly_msg_type ly,
      bh_seq_num = (case msg_seq_num m of None \<Rightarrow> 0 | Some n \<Rightarrow> n),
      bh_comp_id = (if bc_client c then (case msg_get m 49 of None \<Rightarrow> [] | Some t \<Rightarrow> t)
        else (case msg_get m 56 of None \<Rightarrow> bc_comp_id c | Some t \<Rightarrow> if t = [] then bc_comp_id c else t)),
      bh_poss_dup = (msg_get m 43 = Some ''Y''), bh_poss_resend = (msg_get m 97 = Some ''Y'')\<rparr>"

definition binary_encode :: "binary_codec \<Rightarrow> fix_message \<Rightarrow> exn + bytes" where
  "binary_encode c m =
     (case layout_for (bc_dictionary c) m of None \<Rightarrow> Inl ValueError
      | Some ly \<Rightarrow> bind_exn (encode_layout ly m) (\<lambda>(presence, body). frame_pack (message_header c ly m) presence body))"

definition binary_is_admin :: "bytes \<Rightarrow> bool" where
  "binary_is_admin raw =
     (case unpack_header raw False of Inl _ \<Rightarrow> False | Inr h \<Rightarrow> bh_msg_type h \<in> gap_fillable)"

text \<open>What a scripted client stamps; the time stamp is the clock's.\<close>

definition binary_prepare :: "string \<Rightarrow> string \<Rightarrow> string \<Rightarrow> int \<Rightarrow> fix_message \<Rightarrow> fix_message" where
  "binary_prepare stamp_text sender target seq m0 =
     (let m = msg_set 56 target (msg_set 49 sender (msg_set 34 (string_of_int seq) m0)) in
      if msg_type_of m \<in> {Some ''D'', Some ''F'', Some ''G'', Some ''q''} \<and> \<not> msg_has m 60
      then msg_set 60 stamp_text m else m)"

end
