(* ===== verification/Binary_Claims.thy ===== *)
theory Binary_Claims
  imports Binary_Layout
begin

section \<open>The binary codec reads back what it wrote\<close>

subsection \<open>Layouts of single fields\<close>

text \<open>Fields that are one tag each, and what a message holds for them.\<close>

definition single_field :: "plain_field \<Rightarrow> bool" where
  "single_field f \<longleftrightarrow> pf_getter f = None \<and> pf_setter f = None \<and> pf_tag f \<noteq> None \<and> \<not> pf_repeating f"

definition present :: "fix_message \<Rightarrow> plain_field \<Rightarrow> string option" where
  "present m f = (case msg_get m (the (pf_tag f)) of None \<Rightarrow> None | Some t \<Rightarrow> if t = [] then None else Some t)"

text \<open>The text of a field survives its conversion and its type.\<close>

definition field_fits :: "fix_message \<Rightarrow> plain_field \<Rightarrow> bool" where
  "field_fits m f \<longleftrightarrow> (case present m f of None \<Rightarrow> True
     | Some t \<Rightarrow> (\<exists>v. to_wire (pf_converter f) t = Inr v \<and> wire_fits (pf_type f) v \<and> from_wire (pf_converter f) v = Inr t))"

definition store_fields :: "plain_field list \<Rightarrow> fix_message \<Rightarrow> fix_message \<Rightarrow> fix_message" where
  "store_fields fs m m0 = fold (\<lambda>f acc. case present m f of None \<Rightarrow> acc | Some t \<Rightarrow> msg_set (the (pf_tag f)) t acc) fs m0"

lemma read_single:
  assumes "single_field f"
  shows "read_field f m 0 = (case present m f of None \<Rightarrow> Inr None | Some t \<Rightarrow> map_sum id Some (to_wire (pf_converter f) t))"
proof (cases "msg_get_all m (the (pf_tag f))")
  case Nil
  then show ?thesis using assms by (simp add: read_field_def single_field_def present_def msg_get_first)
next
  case (Cons t ts)
  then show ?thesis using assms by (simp add: read_field_def single_field_def present_def msg_get_first Let_def)
qed

lemma unpack_at_found:
  "distinct (map pf_bit gs) \<Longrightarrow> f \<in> set gs \<Longrightarrow> unpack_at (map Plain gs) e (pf_bit f) raw s = unpack_field (Plain f) raw s"
  by (induction gs) (auto simp: image_iff)

lemma fold_exn_append: "fold_exn g (xs @ ys) s = (case fold_exn g xs s of Inl e \<Rightarrow> Inl e | Inr s1 \<Rightarrow> fold_exn g ys s1)"
  by (induction xs arbitrary: s) (auto split: sum.split)

lemma single_fields_round_trip:
  assumes "distinct (map pf_bit gs)" and "set fs \<subseteq> set gs" and "\<forall>f \<in> set fs. single_field f \<and> field_fits m f"
  shows "\<exists>body. pack_fields (map Plain fs) m 0 = Inr (map pf_bit (filter (\<lambda>f. present m f \<noteq> None) fs), body) \<and>
    (\<forall>pre post m0. fold_exn (\<lambda>bt. unpack_at (map Plain gs) (e bt) bt (pre @ body @ post))
        (map pf_bit (filter (\<lambda>f. present m f \<noteq> None) fs)) (m0, length pre) =
      Inr (store_fields fs m m0, length pre + length body))"
  using assms(2,3)
proof (induction fs)
  case Nil
  then show ?case by (simp add: store_fields_def)
next
  case (Cons f fs)
  then obtain body where body: "pack_fields (map Plain fs) m 0 = Inr (map pf_bit (filter (\<lambda>f. present m f \<noteq> None) fs), body)"
    "\<And>pre post m0. fold_exn (\<lambda>bt. unpack_at (map Plain gs) (e bt) bt (pre @ body @ post))
        (map pf_bit (filter (\<lambda>f. present m f \<noteq> None) fs)) (m0, length pre) = Inr (store_fields fs m m0, length pre + length body)"
    by auto
  have f: "single_field f" "field_fits m f" "f \<in> set gs" using Cons.prems by simp_all
  show ?case
  proof (cases "present m f")
    case None
    then show ?thesis using body f(1) by (intro exI [of _ body]) (simp add: read_single store_fields_def)
  next
    case (Some t)
    then obtain v where v: "to_wire (pf_converter f) t = Inr v" "wire_fits (pf_type f) v" "from_wire (pf_converter f) v = Inr t"
      using f(2) by (auto simp: field_fits_def)
    obtain bs where bs: "wire_pack (pf_type f) v = Inr bs"
      "\<And>pre post. wire_unpack (pf_type f) (pre @ bs @ post) (length pre) = Inr (v, length pre + length bs)"
      by (rule wire_round_trip [OF v(2)]) blast
    have w: "write_field f v m0 = Inr (msg_set (the (pf_tag f)) t m0)" for m0
      using f(1) v(3) by (simp add: write_field_def single_field_def)
    have u: "unpack_at (map Plain gs) (e (pf_bit f)) (pf_bit f) (pre @ (bs @ body) @ post) (m0, length pre) =
        Inr (msg_set (the (pf_tag f)) t m0, length (pre @ bs))" for pre post m0
      using bs(2) [of pre "body @ post"] w by (simp add: unpack_at_found [OF assms(1) f(3)])
    have "fold_exn (\<lambda>bt. unpack_at (map Plain gs) (e bt) bt (pre @ (bs @ body) @ post))
        (map pf_bit (filter (\<lambda>f. present m f \<noteq> None) (f # fs))) (m0, length pre) =
      Inr (store_fields (f # fs) m m0, length pre + length (bs @ body))" for pre post m0
      using u [of pre post m0] body(2) [of "pre @ bs" post "msg_set (the (pf_tag f)) t m0"] Some
      by (simp add: store_fields_def del: append_assoc) (simp add: add.assoc)
    moreover have "pack_fields (map Plain (f # fs)) m 0 = Inr (map pf_bit (filter (\<lambda>f. present m f \<noteq> None) (f # fs)), bs @ body)"
      using body(1) Some v(1) bs(1) f(1) by (simp add: read_single)
    ultimately show ?thesis by blast
  qed
qed

lemma store_fields_get:
  "msg_get (store_fields fs m m0) tag =
   (if \<exists>f \<in> set fs. the (pf_tag f) = tag \<and> present m f \<noteq> None then msg_get m tag else msg_get m0 tag)"
proof (induction fs arbitrary: m0)
  case (Cons f fs)
  show ?case
  proof (cases "present m f")
    case None
    then show ?thesis using Cons by (simp add: store_fields_def)
  next
    case (Some t)
    then have g: "msg_get m (the (pf_tag f)) = Some t" by (auto simp: present_def split: option.splits if_splits)
    show ?thesis using Cons [of "msg_set (the (pf_tag f)) t m0"] Some g
      by (auto simp: store_fields_def msg_get_set)
  qed
qed (simp add: store_fields_def)

subsection \<open>The whole message\<close>

definition header_tags :: "int set" where
  "header_tags = {34, 35, 43, 49, 56, 97}"

lemma header_message_get:
  "msg_type_of (header_message c h) = Some (fix_msg_type (bc_dictionary c) (bh_msg_type h))"
  "msg_seq_num (header_message c h) = Some (bh_seq_num h)"
  "msg_get (header_message c h) (if bc_client c then 56 else 49) = Some (bh_comp_id h)"
  "tag \<notin> header_tags \<Longrightarrow> msg_get (header_message c h) tag = None"
  by (simp_all add: header_message_def Let_def msg_type_of_def msg_seq_num_def msg_get_int_def msg_get_set msg_create_def
      header_tags_def) (simp_all add: msg_get_def)

lemma need_frame: "length a = n \<Longrightarrow> need (h @ a @ t) (length h) n = None"
  using need_at [of h a t] by simp

lemma binary_round_trip:
  assumes ly: "layout_for (bc_dictionary c) m = Some ly" "layout_of_type (bc_dictionary c) (ly_msg_type ly) = Some ly"
      "bc_dictionary c' = bc_dictionary c"
    and fs: "ly_fields ly = map Plain fs" "sorted_wrt (<) (map pf_bit fs)"
      "\<forall>f \<in> set fs. single_field f \<and> field_fits m f \<and> the (pf_tag f) \<notin> header_tags"
    and ok: "header_ok (message_header c ly m)" and enc: "binary_encode c m = Inr raw"
  shows "\<exists>m'. binary_decode c' raw True = Inr m' \<and> msg_type_of m' = Some (ly_fix_type ly) \<and>
    msg_seq_num m' = Some (bh_seq_num (message_header c ly m)) \<and>
    msg_get m' (if bc_client c' then 56 else 49) = Some (bh_comp_id (message_header c ly m)) \<and>
    (\<forall>f \<in> set fs. msg_get m' (the (pf_tag f)) = present m f)"
proof -
  let ?h = "message_header c ly m" and ?fs = "filter (\<lambda>f. present m f \<noteq> None) fs"
  let ?m0 = "header_message c' ?h"
  have dist: "distinct (map pf_bit fs)" using fs(2) by (simp add: strict_sorted_iff)
  obtain body where body: "pack_fields (map Plain fs) m 0 = Inr (map pf_bit ?fs, body)"
    "\<And>pre post m0. fold_exn (\<lambda>bt. unpack_at (map Plain fs) (no_field (ly_name ly) bt []) bt (pre @ body @ post))
        (map pf_bit ?fs) (m0, length pre) = Inr (store_fields fs m m0, length pre + length body)"
    using single_fields_round_trip [OF dist order_refl, of m "\<lambda>bt. no_field (ly_name ly) bt []"] fs(3) by blast
  obtain bm where bm: "pack_presence (map pf_bit ?fs) map_bytes = Inr bm" and raw: "frame_pack ?h bm body = Inr raw"
    using enc by (auto simp: binary_encode_def ly(1) encode_layout_def fs(1) body(1) bind_exn_Inr map_sum_def split: sum.splits)
  have sd: "sorted (map pf_bit ?fs)" "distinct (map pf_bit ?fs)"
    using fs(2) dist by (simp_all add: strict_sorted_iff sorted_map sorted_wrt_filter distinct_map_filter)
  have lbm: "length bm = map_bytes" by (rule presence_round_trip(1) [OF bm sd])
  have hdr: "unpack_header raw True = Inr ?h" by (rule unpack_frame_pack(1) [OF raw lbm ok])
  obtain frame where f: "raw = frame @ le_bytes 4 (uint (crc32c frame))" "length frame = 54 + length body"
    "length raw = 58 + length body" "length raw \<le> 65535"
    "frame = STX # le_bytes 2 (int (length raw)) @ le_bytes 1 (bh_msg_type ?h) @ le_bytes 4 (bh_seq_num ?h) @
       le_bytes 1 (if bh_poss_dup ?h then 1 else 0) @ le_bytes 1 (if bh_poss_resend ?h then 1 else 0) @
       (take 11 (bh_comp_id ?h) @ replicate (12 - min (length (bh_comp_id ?h)) 11) NUL) @ bm @ body"
    "0 \<le> bh_msg_type ?h" "bh_msg_type ?h < 256" "0 \<le> bh_seq_num ?h" "bh_seq_num ?h < 2 ^ 32"
    by (rule frame_pack_parts [OF raw lbm])
  obtain r where r: "frame = r @ bm @ body"
    by (rule that [of "STX # le_bytes 2 (int (length raw)) @ le_bytes 1 (bh_msg_type ?h) @ le_bytes 4 (bh_seq_num ?h) @
       le_bytes 1 (if bh_poss_dup ?h then 1 else 0) @ le_bytes 1 (if bh_poss_resend ?h then 1 else 0) @
       (take 11 (bh_comp_id ?h) @ replicate (12 - min (length (bh_comp_id ?h)) 11) NUL)"])
      (simp only: f(5) append_assoc append_Cons)
  have lr: "length r = header_bytes" using f(2) lbm r by (simp add: frame_sizes)
  let ?t = "le_bytes 4 (uint (crc32c frame))"
  have raw2: "raw = r @ bm @ (body @ ?t)" "raw = (r @ bm) @ body @ ?t" using f(1) r by simp_all
  have bits: "presence_bits raw header_bytes map_bytes = Inr (map pf_bit ?fs, 54)"
    using presence_round_trip(2) [OF bm sd, of r "body @ ?t"] unfolding raw2(1) [symmetric] lr by (simp add: frame_sizes)
  have l54: "length (r @ bm) = 54" using lr lbm by (simp add: frame_sizes)
  have "fold_exn (\<lambda>bt. unpack_at (map Plain fs) (no_field (ly_name ly) bt []) bt raw) (map pf_bit ?fs) (?m0, 54) =
      Inr (store_fields fs m ?m0, 54 + length body)"
    using body(2) [of "r @ bm" ?t ?m0] unfolding raw2(2) [symmetric] l54 .
  then have dl: "decode_layout ly raw ?m0 = Inr (store_fields fs m ?m0)"
    using f(3) unfolding decode_layout_def bits fs(1) by (simp add: Let_def frame_sizes)
  have ty: "bh_msg_type ?h = ly_msg_type ly" by (simp add: message_header_def)
  let ?m1 = "store_fields fs m ?m0"
  have dec: "binary_decode c' raw True = Inr ?m1" by (simp add: binary_decode_def hdr ty ly(2,3) dl)
  have keep: "msg_get ?m1 tag = msg_get ?m0 tag" if "tag \<in> header_tags" for tag
    using fs(3) that by (auto simp: store_fields_get)
  have hm: "msg_type_of ?m1 = msg_type_of ?m0" "msg_seq_num ?m1 = msg_seq_num ?m0"
    "msg_get ?m1 (if bc_client c' then 56 else 49) = msg_get ?m0 (if bc_client c' then 56 else 49)"
    using keep by (simp_all add: msg_type_of_def msg_seq_num_def msg_get_int_def header_tags_def)
  have "msg_get ?m1 (the (pf_tag f)) = present m f" if "f \<in> set fs" for f
  proof (cases "present m f")
    case None
    have "present m g = None" if "the (pf_tag g) = the (pf_tag f)" for g using None that by (simp add: present_def)
    then show ?thesis using None fs(3) that header_message_get(4) by (auto simp: store_fields_get)
  next
    case (Some t)
    then have "msg_get m (the (pf_tag f)) = Some t" by (auto simp: present_def split: option.splits if_splits)
    with Some that show ?thesis by (auto simp: store_fields_get)
  qed
  with dec hm header_message_get(1-3) [of c' ?h] ty ly show ?thesis by (auto simp: fix_msg_type_def)
qed

subsection \<open>The properties\<close>

definition number_field :: "nat \<Rightarrow> string \<Rightarrow> int \<Rightarrow> plain_field" where
  "number_field b name tag = \<lparr>pf_bit = b, pf_name = name, pf_type = Unsigned 4, pf_tag = Some tag, pf_converter = NumberConv,
     pf_getter = None, pf_setter = None, pf_redact = False, pf_repeating = False\<rparr>"

definition resend_layout :: layout where
  "resend_layout = \<lparr>ly_msg_type = 2, ly_name = ''ResendRequest'', ly_fix_type = ''2'',
     ly_fields = map Plain [number_field 0 ''StartSequence'' 7, number_field 1 ''EndSequence'' 16]\<rparr>"

definition sample_codec :: "bool \<Rightarrow> binary_codec" where
  "sample_codec client = \<lparr>bc_dictionary = \<lparr>bd_layouts = [resend_layout], bd_select = None\<rparr>, bc_comp_id = ''HKEX'', bc_client = client\<rparr>"

definition sample_resend :: fix_message where
  "sample_resend = [(35, ''2''), (34, ''5''), (49, ''M1''), (56, ''HKEX''), (7, ''12''), (16, ''0'')]"

lemma sample_layouts:
  "layout_for (bc_dictionary (sample_codec b)) sample_resend = Some resend_layout"
  "layout_of_type (bc_dictionary (sample_codec b)) (ly_msg_type resend_layout) = Some resend_layout"
  "msg_type_of sample_resend = Some ''2''"
proof -
  show t: "msg_type_of sample_resend = Some ''2''" by code_simp
  then show "layout_for (bc_dictionary (sample_codec b)) sample_resend = Some resend_layout"
    by (simp add: layout_for_def sample_codec_def layout_of_fix_def resend_layout_def)
  show "layout_of_type (bc_dictionary (sample_codec b)) (ly_msg_type resend_layout) = Some resend_layout"
    by (simp add: layout_of_type_def sample_codec_def)
qed

lemma sample_values: "msg_get sample_resend 7 = Some ''12''" "msg_get sample_resend 16 = Some ''0''"
  "int_of_str ''12'' = Some 12" "int_of_str ''0'' = Some 0" "string_of_int 12 = ''12''" "string_of_int 0 = ''0''"
  by code_simp+

lemma sample_fields:
  "\<forall>f \<in> set [number_field 0 ''StartSequence'' 7, number_field 1 ''EndSequence'' 16].
     single_field f \<and> field_fits sample_resend f \<and> the (pf_tag f) \<notin> header_tags"
  by (simp add: single_field_def number_field_def field_fits_def present_def sample_values header_tags_def)

lemma sample_header:
  "message_header (sample_codec True) resend_layout sample_resend =
   \<lparr>bh_msg_type = 2, bh_seq_num = 5, bh_comp_id = ''M1'', bh_poss_dup = False, bh_poss_resend = False\<rparr>"
proof -
  have "msg_seq_num sample_resend = Some 5" "msg_get sample_resend 49 = Some ''M1''" "msg_get sample_resend 43 = None"
    "msg_get sample_resend 97 = None" by code_simp+
  then show ?thesis by (simp add: message_header_def sample_codec_def resend_layout_def)
qed

lemma sample_header_ok: "header_ok (message_header (sample_codec True) resend_layout sample_resend)"
  by (simp add: sample_header header_ok_def)

lemma sample_encodes: obtains raw where "binary_encode (sample_codec True) sample_resend = Inr raw"
proof -
  have "\<exists>bm body. encode_layout resend_layout sample_resend = Inr (bm, body) \<and> length body = 8"
  proof -
    let ?fs = "[number_field 0 ''StartSequence'' 7, number_field 1 ''EndSequence'' 16]"
    have "pack_fields (map Plain ?fs) sample_resend 0 = Inr ([0, 1], le_bytes 4 12 @ le_bytes 4 0)"
      by (simp add: read_field_def number_field_def msg_get_all_def sample_resend_def sample_values del: le_bytes.simps)
    then show ?thesis
      by (simp add: encode_layout_def resend_layout_def pack_presence_def map_bytes_def del: le_bytes.simps pack_fields.simps)
  qed
  then obtain bm body where "encode_layout resend_layout sample_resend = Inr (bm, body)" "length body = 8" by blast
  then have "\<exists>raw. binary_encode (sample_codec True) sample_resend = Inr raw"
    by (simp add: binary_encode_def sample_layouts frame_pack_def header_fields_def Let_def frame_sizes sample_header)
  with that show thesis by blast
qed

text \<open>
  C28: a message whose layout has one tag per field, and whose values fit their types,
  survives the binary encoding: the other end of the session decodes the frame, checksum
  verified, to a message with the same type, sequence number and client identifier, and
  with every field of the layout as it was, present or absent.
\<close>

theorem binary_codec_round_trip:
  assumes "layout_for (bc_dictionary c) m = Some ly" and "layout_of_type (bc_dictionary c) (ly_msg_type ly) = Some ly"
    and "bc_dictionary c' = bc_dictionary c" and "ly_fields ly = map Plain fs" and "sorted_wrt (<) (map pf_bit fs)"
    and "\<forall>f \<in> set fs. single_field f \<and> field_fits m f \<and> the (pf_tag f) \<notin> header_tags"
    and "header_ok (message_header c ly m)" and "binary_encode c m = Inr raw"
  shows "\<exists>m'. binary_decode c' raw True = Inr m' \<and> msg_type_of m' = Some (ly_fix_type ly) \<and>
    msg_seq_num m' = Some (bh_seq_num (message_header c ly m)) \<and>
    msg_get m' (if bc_client c' then 56 else 49) = Some (bh_comp_id (message_header c ly m)) \<and>
    (\<forall>f \<in> set fs. msg_get m' (the (pf_tag f)) = present m f)"
  by (rule binary_round_trip [OF assms])

theorem binary_codec_round_trip_witness:
  "\<exists>raw m'. binary_encode (sample_codec True) sample_resend = Inr raw \<and> binary_decode (sample_codec False) raw True = Inr m' \<and>
     msg_type_of m' = Some ''2'' \<and> msg_seq_num m' = Some 5 \<and> msg_get m' 49 = Some ''M1'' \<and> msg_get m' 7 = Some ''12''"
proof -
  obtain raw where raw: "binary_encode (sample_codec True) sample_resend = Inr raw" by (rule sample_encodes)
  have d: "bc_dictionary (sample_codec False) = bc_dictionary (sample_codec True)" by (simp add: sample_codec_def)
  have fs: "ly_fields resend_layout = map Plain [number_field 0 ''StartSequence'' 7, number_field 1 ''EndSequence'' 16]"
    "sorted_wrt (<) (map pf_bit [number_field 0 ''StartSequence'' 7, number_field 1 ''EndSequence'' 16])"
    by (simp_all add: resend_layout_def number_field_def)
  from binary_codec_round_trip [OF sample_layouts(1,2) d fs sample_fields sample_header_ok raw]
  obtain m' where m: "binary_decode (sample_codec False) raw True = Inr m'" "msg_type_of m' = Some (ly_fix_type resend_layout)"
    "msg_seq_num m' = Some (bh_seq_num (message_header (sample_codec True) resend_layout sample_resend))"
    "msg_get m' (if bc_client (sample_codec False) then 56 else 49) =
      Some (bh_comp_id (message_header (sample_codec True) resend_layout sample_resend))"
    "msg_get m' (the (pf_tag (number_field 0 ''StartSequence'' 7))) = present sample_resend (number_field 0 ''StartSequence'' 7)"
    by (metis list.set_intros(1))
  have "msg_get m' 7 = Some ''12''" using m(5) by (simp add: number_field_def present_def sample_values)
  moreover have "ly_fix_type resend_layout = ''2''" "\<not> bc_client (sample_codec False)"
    by (simp_all add: resend_layout_def sample_codec_def)
  ultimately show ?thesis using raw m(1-4) by (simp add: sample_header)
qed

text \<open>
  C29: a frame the gateway accepts is refused, as malformed, once any of its bytes before
  the checksum are changed within a window of four, whatever they are changed to.
\<close>

theorem corrupted_frames_are_refused:
  assumes "unpack_header (a @ x @ b) True = Inr h" and "length x = length y" and "length x \<le> 4" and "x \<noteq> y" and "4 \<le> length b"
  shows "\<exists>t. unpack_header (a @ y @ b) True = Inl (Malformed t)"
  by (rule corrupted_frame_refused [OF assms])

theorem corrupted_frames_are_refused_witness:
  "\<exists>raw t. unpack_header raw True = Inr \<lparr>bh_msg_type = 2, bh_seq_num = 5, bh_comp_id = ''M1'', bh_poss_dup = False, bh_poss_resend = False\<rparr> \<and>
     unpack_header (CHR ''x'' # tl raw) True = Inl (Malformed t)"
proof -
  let ?h = "\<lparr>bh_msg_type = 2, bh_seq_num = 5, bh_comp_id = ''M1'', bh_poss_dup = False, bh_poss_resend = False\<rparr>"
  have "\<exists>raw. frame_pack ?h (replicate 32 NUL) [] = Inr raw"
    by (simp add: frame_pack_def header_fields_def Let_def frame_sizes)
  then obtain raw where raw: "frame_pack ?h (replicate 32 NUL) [] = Inr raw" by blast
  have u: "unpack_header raw True = Inr ?h"
    by (rule unpack_frame_pack(1) [OF raw]) (simp_all add: frame_sizes header_ok_def)
  have f: "is_frame raw" unfolding is_frame_def
    by (rule exI [of _ ?h], rule exI [of _ "replicate 32 NUL"], rule exI [of _ "[]"]) (simp add: raw frame_sizes)
  obtain b where b: "raw = [] @ [STX] @ b" "4 \<le> length b" using is_frame_start(1,2) [OF f] by (cases raw) auto
  obtain t where "unpack_header ([] @ [CHR ''x''] @ b) True = Inl (Malformed t)"
    using corrupted_frames_are_refused [OF u [unfolded b(1)], of "[CHR ''x'']"] b(2) by auto
  then show ?thesis using u b(1) by auto
qed

end
