(* ===== verification/Py_Float.thy ===== *)
theory Py_Float
  imports Wire_Text
begin

section \<open>Floating point\<close>

text \<open>
  The protocol of the second exchange carries order numbers and cursors as IEEE 754 doubles,
  and converts clock readings to its own units in floating point. A finite double is a sign,
  a mantissa below \<open>2 ^ 53\<close> and a power of two; every operation is the exact result rounded to
  the nearest double, ties to the even mantissa. The operations are those the source uses:
  conversion from and to integers, addition, subtraction, multiplication, division of two
  integers, \<open>round\<close> and \<open>repr\<close>. An integer of at most 53 bits is represented exactly.
\<close>

datatype float64 = Finite bool int int | Infinite bool | NotANumber

function bit_length :: "int \<Rightarrow> nat" where
  "bit_length n = (if n \<le> 0 then 0 else Suc (bit_length (n div 2)))"
  by pat_completeness auto
termination
  by (relation "measure nat") auto

declare bit_length.simps [simp del]

text \<open>The nearest integer to \<open>n / d\<close>, for a positive \<open>d\<close>, ties to the even one.\<close>

definition nearest_even :: "int \<Rightarrow> int \<Rightarrow> int" where
  "nearest_even n d =
     (let q = n div d; r = n mod d
      in if 2 * r < d then q else if 2 * r > d then q + 1 else if even q then q else q + 1)"

text \<open>The quotient \<open>p / 2 ^ e\<close> of a scaled ratio as numerator and denominator.\<close>

definition scaled_ratio :: "int \<Rightarrow> int \<Rightarrow> int \<Rightarrow> int \<times> int" where
  "scaled_ratio p q e = (if e \<ge> 0 then (p, q * 2 ^ nat e) else (p * 2 ^ nat (- e), q))"

definition round_ratio :: "bool \<Rightarrow> int \<Rightarrow> int \<Rightarrow> float64" where
  "round_ratio neg p q =
     (if p = 0 then Finite neg 0 (-1074)
      else
        (let e0 = int (bit_length p) - int (bit_length q) - 53;
             e1 = (case scaled_ratio p q e0 of (a, b) \<Rightarrow> if a < 2 ^ 53 * b then e0 else e0 + 1);
             e = max e1 (-1074);
             m = (case scaled_ratio p q e of (a, b) \<Rightarrow> nearest_even a b);
             (m', e') = (if m = 2 ^ 53 then (2 ^ 52, e + 1) else (m, e))
         in if e' > 971 then Infinite neg else Finite neg m' e'))"

text \<open>A sum or product as an integer times a power of two, rounded.\<close>

definition round_dyadic :: "bool \<Rightarrow> int \<Rightarrow> int \<Rightarrow> float64" where
  "round_dyadic zero_neg n e =
     (if n = 0 then Finite zero_neg 0 (-1074)
      else round_ratio (n < 0) (\<bar>n\<bar> * 2 ^ nat e) (2 ^ nat (- e)))"

definition signed :: "bool \<Rightarrow> int \<Rightarrow> int" where
  "signed neg m = (if neg then - m else m)"

subsection \<open>Conversions\<close>

definition float_of_int :: "int \<Rightarrow> exn + float64" where
  "float_of_int i = (case round_ratio (i < 0) \<bar>i\<bar> 1 of Infinite _ \<Rightarrow> Inl OverflowError | f \<Rightarrow> Inr f)"

text \<open>\<open>int(f)\<close>, which truncates, and \<open>round(f)\<close>, to the nearest and ties to even.\<close>

fun float_to_int :: "float64 \<Rightarrow> exn + int" where
  "float_to_int (Finite neg m e) = Inr (signed neg (if e \<ge> 0 then m * 2 ^ nat e else m div 2 ^ nat (- e)))"
| "float_to_int (Infinite _) = Inl OverflowError"
| "float_to_int NotANumber = Inl ValueError"

fun float_round :: "float64 \<Rightarrow> exn + int" where
  "float_round (Finite neg m e) = Inr (signed neg (if e \<ge> 0 then m * 2 ^ nat e else nearest_even m (2 ^ nat (- e))))"
| "float_round (Infinite _) = Inl OverflowError"
| "float_round NotANumber = Inl ValueError"

text \<open>Whether \<open>int(f) == f\<close>.\<close>

fun float_is_whole :: "float64 \<Rightarrow> bool" where
  "float_is_whole (Finite neg m e) \<longleftrightarrow> e \<ge> 0 \<or> m mod 2 ^ nat (- e) = 0"
| "float_is_whole f \<longleftrightarrow> False"

subsection \<open>Arithmetic\<close>

fun float_add :: "float64 \<Rightarrow> float64 \<Rightarrow> float64" where
  "float_add (Finite s m e) (Finite t n d) =
     (let k = min e d in
      round_dyadic (s \<and> t) (signed s m * 2 ^ nat (e - k) + signed t n * 2 ^ nat (d - k)) k)"
| "float_add (Infinite s) (Infinite t) = (if s = t then Infinite s else NotANumber)"
| "float_add (Infinite s) (Finite t n d) = Infinite s"
| "float_add (Finite s m e) (Infinite t) = Infinite t"
| "float_add NotANumber f = NotANumber"
| "float_add f NotANumber = NotANumber"

fun float_neg :: "float64 \<Rightarrow> float64" where
  "float_neg (Finite s m e) = Finite (\<not> s) m e"
| "float_neg (Infinite s) = Infinite (\<not> s)"
| "float_neg NotANumber = NotANumber"

definition float_sub :: "float64 \<Rightarrow> float64 \<Rightarrow> float64" where
  "float_sub f g = float_add f (float_neg g)"

text \<open>The product with a positive integer that is a double, which is all the source multiplies by.\<close>

fun float_times :: "float64 \<Rightarrow> int \<Rightarrow> float64" where
  "float_times (Finite s m e) k = round_dyadic s (signed s m * k) e"
| "float_times (Infinite s) k = Infinite s"
| "float_times NotANumber k = NotANumber"

subsection \<open>The eight bytes of a double\<close>

fun float_bits :: "float64 \<Rightarrow> int" where
  "float_bits (Finite neg m e) =
     (if neg then 2 ^ 63 else 0) +
     (if m \<ge> 2 ^ 52 then (e + 1075) * 2 ^ 52 + (m - 2 ^ 52) else m)"
| "float_bits (Infinite neg) = (if neg then 2 ^ 63 else 0) + 2047 * 2 ^ 52"
| "float_bits NotANumber = 2047 * 2 ^ 52 + 2 ^ 51"

definition float_of_bits :: "int \<Rightarrow> float64" where
  "float_of_bits u =
     (let neg = (u \<ge> 2 ^ 63); ex = u div 2 ^ 52 mod 2048; fr = u mod 2 ^ 52
      in if ex = 2047 then (if fr = 0 then Infinite neg else NotANumber)
         else if ex = 0 then Finite neg fr (-1074)
         else Finite neg (2 ^ 52 + fr) (ex - 1075))"

subsection \<open>\<open>repr\<close>\<close>

text \<open>
  The shortest decimal that rounds to the double, and of several the closest. \<open>decimal_point\<close>
  is the number of digits before the point. A number below \<open>10 ^ -4\<close> or from \<open>10 ^ 16\<close> is
  written with an exponent.
\<close>

definition pow10_ratio :: "int \<Rightarrow> int \<Rightarrow> int \<Rightarrow> int \<times> int" where
  "pow10_ratio p q k = (if k \<ge> 0 then (p * 10 ^ nat k, q) else (p, q * 10 ^ nat (- k)))"

definition decimal_point :: "int \<Rightarrow> int \<Rightarrow> int" where
  "decimal_point p q =
     (if p \<ge> q then int (length (string_of_int (p div q)))
      else (let k = length (string_of_int (q div p)) in if 10 ^ (k - 1) * p = q then 2 - int k else 1 - int k))"

definition shortest_digits :: "bool \<Rightarrow> int \<Rightarrow> int \<Rightarrow> int \<times> int" where
  "shortest_digits neg m e =
     (let p = m * 2 ^ nat e; q = 2 ^ nat (- e); k = decimal_point p q;
          candidates = concat (map (\<lambda>n. case pow10_ratio p q (int n - k) of (a, b) \<Rightarrow>
              (let c = nearest_even a b; other = (if c * b \<ge> a then c - 1 else c + 1)
               in map (\<lambda>d. (d, k - int n))
                    (filter (\<lambda>d. d > 0 \<and> (case pow10_ratio d 1 (k - int n) of (x, y) \<Rightarrow> round_ratio neg x y = Finite neg m e))
                       [c, other]))) [1 ..< 18])
      in case candidates of [] \<Rightarrow> (0, 0) | c # _ \<Rightarrow> c)"

definition float_repr :: "float64 \<Rightarrow> string" where
  "float_repr f =
     (case f of
        NotANumber \<Rightarrow> ''nan''
      | Infinite neg \<Rightarrow> (if neg then ''-inf'' else ''inf'')
      | Finite neg m e \<Rightarrow>
          (let body =
             (if m = 0 then ''0.0''
              else (case shortest_digits neg m e of (d, x) \<Rightarrow>
                (let ds = rev (dropWhile (\<lambda>c. c = CHR ''0'') (rev (string_of_int d)));
                     point = int (length (string_of_int d)) + x
                 in if - 4 < point \<and> point \<le> 16
                    then (if point \<le> 0 then ''0.'' @ replicate (nat (- point)) (CHR ''0'') @ ds
                          else if nat point \<ge> length ds
                               then ds @ replicate (nat point - length ds) (CHR ''0'') @ ''.0''
                               else take (nat point) ds @ CHR ''.'' # drop (nat point) ds)
                    else (let ex = point - 1 in
                          [hd ds] @ (if tl ds = [] then [] else CHR ''.'' # tl ds) @ CHR ''e'' #
                          (if ex < 0 then CHR ''-'' else CHR ''+'') # zero_pad 2 (nat \<bar>ex\<bar>)))))
           in if neg then CHR ''-'' # body else body))"

subsection \<open>Integers of at most 53 bits\<close>

lemma bit_length_bounds: "0 < n \<Longrightarrow> 2 ^ (bit_length n - 1) \<le> n \<and> n < 2 ^ bit_length n \<and> 0 < bit_length n"
proof (induction n rule: bit_length.induct)
  case (1 n)
  show ?case
  proof (cases "n div 2 = 0")
    case True
    then have "n = 1" using 1(2) by auto
    moreover have "bit_length 1 = 1" by code_simp
    ultimately show ?thesis by simp
  next
    case False
    then have p: "0 < n div 2" using 1(2) by simp
    then obtain l where l: "bit_length (n div 2) = Suc l" "2 ^ l \<le> n div 2" "n div 2 < 2 ^ Suc l"
      using 1 by (cases "bit_length (n div 2)") auto
    have "bit_length n = Suc (Suc l)" using 1(2) l(1) by (simp add: bit_length.simps [of n])
    moreover have "2 ^ Suc l \<le> n" "n < 2 ^ Suc (Suc l)" using l(2,3) by auto
    ultimately show ?thesis by simp
  qed
qed

lemma bit_length_le: "n < 2 ^ k \<Longrightarrow> bit_length n \<le> k"
proof (cases "n \<le> 0")
  case False
  assume "n < 2 ^ k"
  with bit_length_bounds [of n] False have "(2 :: int) ^ (bit_length n - 1) < 2 ^ k" by linarith
  then have "bit_length n - 1 < k" by (rule power_less_imp_less_exp [rotated]) simp
  then show ?thesis by simp
qed (simp add: bit_length.simps)

lemma nearest_even_exact [simp]: "nearest_even n 1 = n"
  by (simp add: nearest_even_def)

lemma mantissa_range:
  assumes "0 < p" and "p < 2 ^ 53"
  shows "2 ^ 52 \<le> p * 2 ^ (53 - bit_length p)" and "p * 2 ^ (53 - bit_length p) < 2 ^ 53"
    and "2 ^ 53 \<le> p * 2 ^ (54 - bit_length p)"
proof -
  let ?l = "bit_length p"
  note b = bit_length_bounds [OF assms(1)]
  have l: "?l \<le> 53" by (rule bit_length_le [OF assms(2)])
  have e: "2 ^ (?l - 1) * 2 ^ (53 - ?l) = (2 :: int) ^ 52" "2 ^ ?l * 2 ^ (53 - ?l) = (2 :: int) ^ 53"
      "2 ^ (?l - 1) * 2 ^ (54 - ?l) = (2 :: int) ^ 53"
    using b l by (simp_all only: power_add [symmetric]) simp_all
  have "2 ^ (?l - 1) * 2 ^ (53 - ?l) \<le> p * 2 ^ (53 - ?l)" "2 ^ (?l - 1) * 2 ^ (54 - ?l) \<le> p * 2 ^ (54 - ?l)"
      "p * 2 ^ (53 - ?l) < 2 ^ ?l * 2 ^ (53 - ?l)"
    using b by (intro mult_right_mono mult_strict_right_mono; simp)+
  then show "2 ^ 52 \<le> p * 2 ^ (53 - ?l)" "p * 2 ^ (53 - ?l) < 2 ^ 53" "2 ^ 53 \<le> p * 2 ^ (54 - ?l)"
    by (simp_all only: e)
qed

lemma round_ratio_whole:
  assumes "0 < p" and "p < 2 ^ 53"
  shows "round_ratio neg p 1 = Finite neg (p * 2 ^ (53 - bit_length p)) (int (bit_length p) - 53)"
proof -
  let ?l = "bit_length p"
  have l: "?l \<le> 53" by (rule bit_length_le [OF assms(2)])
  have one: "bit_length 1 = 1" by code_simp
  have e0: "int ?l - int (bit_length 1) - 53 = int ?l - 54" by (simp add: one)
  have s0: "scaled_ratio p 1 (int ?l - 54) = (p * 2 ^ (54 - ?l), 1)"
    using l by (simp add: scaled_ratio_def nat_diff_distrib)
  have s1: "scaled_ratio p 1 (int ?l - 53) = (p * 2 ^ (53 - ?l), 1)"
    using l by (auto simp: scaled_ratio_def nat_diff_distrib)
  have m: "max (int ?l - 53) (-1074) = int ?l - 53" by simp
  have o1: "\<not> int ?l - 53 > 971" using l by simp
  show ?thesis
    using assms(1) mantissa_range [OF assms] unfolding round_ratio_def Let_def e0 s0
    by (simp add: s1 m o1 del: power_Suc)
qed

lemma float_of_bits_normal:
  assumes "2 ^ 52 \<le> m" and "m < 2 ^ 53" and "- 1074 \<le> e" and "e \<le> 971"
  shows "float_of_bits (float_bits (Finite neg m e)) = Finite neg m e"
    and "0 \<le> float_bits (Finite neg m e)" and "float_bits (Finite neg m e) < 2 ^ 64"
proof -
  let ?x = "e + 1075" and ?f = "m - 2 ^ 52" and ?s = "if neg then 2048 else 0 :: int"
  let ?u = "float_bits (Finite neg m e)"
  have x: "1 \<le> ?x" "?x \<le> 2046" using assms by auto
  have f: "0 \<le> ?f" "?f < 2 ^ 52" using assms(1,2) by simp_all
  have u: "?u = (?s + ?x) * 2 ^ 52 + ?f" using assms(1) by simp
  show "0 \<le> ?u" unfolding u using x f by simp
  have "(?s + ?x) * 2 ^ 52 \<le> 4094 * 2 ^ 52" using x by (intro mult_right_mono) simp_all
  then show "?u < 2 ^ 64" unfolding u using f by simp
  have neg: "?u \<ge> 2 ^ 63 \<longleftrightarrow> neg" unfolding u using x f by (cases neg) simp_all
  have d: "?u div 2 ^ 52 = ?s + ?x" unfolding u using f by (subst div_mult_self3) simp_all
  have ex: "?u div 2 ^ 52 mod 2048 = ?x"
  proof (cases neg)
    case True
    then have "?u div 2 ^ 52 = ?x + 2048" unfolding d by simp
    then show ?thesis using x by (simp only: mod_add_self2) simp
  next
    case False
    then show ?thesis unfolding d using x by simp
  qed
  have fr: "?u mod 2 ^ 52 = ?f" unfolding u by (subst mod_mult_self3) (rule mod_pos_pos_trivial [OF f])
  have "float_of_bits w = Finite neg m e"
    if "w \<ge> 2 ^ 63 \<longleftrightarrow> neg" "w div 2 ^ 52 mod 2048 = ?x" "w mod 2 ^ 52 = ?f" for w
    using that x by (simp add: float_of_bits_def Let_def)
  from this [OF neg ex fr] show "float_of_bits ?u = Finite neg m e" .
qed

lemma float_to_int_shifted:
  assumes "0 < p" and "p < 2 ^ 53"
  shows "float_is_whole (Finite neg (p * 2 ^ (53 - bit_length p)) (int (bit_length p) - 53))"
    and "float_to_int (Finite neg (p * 2 ^ (53 - bit_length p)) (int (bit_length p) - 53)) = Inr (signed neg p)"
proof -
  have "nat (- (int (bit_length p) - 53)) = 53 - bit_length p" using bit_length_le [OF assms(2)] by simp
  moreover have "int (bit_length p) - 53 \<ge> 0 \<Longrightarrow> bit_length p = 53" using bit_length_le [OF assms(2)] by simp
  ultimately show "float_is_whole (Finite neg (p * 2 ^ (53 - bit_length p)) (int (bit_length p) - 53))"
    and "float_to_int (Finite neg (p * 2 ^ (53 - bit_length p)) (int (bit_length p) - 53)) = Inr (signed neg p)"
    by auto
qed

lemma float_of_int_exact:
  assumes "\<bar>i\<bar> \<le> 2 ^ 53"
  obtains f where "float_of_int i = Inr f" "float_of_bits (float_bits f) = f" "float_is_whole f"
    "float_to_int f = Inr i" "0 \<le> float_bits f" "float_bits f < 2 ^ 64"
proof -
  consider "i = 0" | "\<bar>i\<bar> = 2 ^ 53" | "i \<noteq> 0" "\<bar>i\<bar> < 2 ^ 53" using assms by linarith
  then show thesis
  proof cases
    case 1
    let ?z = "Finite False 0 (-1074)"
    have "float_of_int 0 = Inr ?z" by (simp add: float_of_int_def round_ratio_def)
    moreover have "float_bits ?z = 0" "float_of_bits 0 = ?z" by code_simp+
    moreover have "float_is_whole ?z" "float_to_int ?z = Inr 0" by (simp_all add: signed_def)
    ultimately show thesis using 1 by (intro that [of ?z]) simp_all
  next
    case 2
    let ?f = "\<lambda>b. Finite b 4503599627370496 1"
    have "float_of_int 9007199254740992 = Inr (?f False)" "float_of_int (-9007199254740992) = Inr (?f True)" by code_simp+
    moreover have "float_of_bits (float_bits (?f b)) = ?f b" "0 \<le> float_bits (?f b)" "float_bits (?f b) < 2 ^ 64" for b
      by (rule float_of_bits_normal; simp)+
    moreover have "float_to_int (?f False) = Inr 9007199254740992" "float_to_int (?f True) = Inr (-9007199254740992)"
      by (simp_all add: signed_def)
    moreover have "i = 9007199254740992 \<or> i = -9007199254740992" using 2 by auto
    ultimately show thesis using that [of "?f False"] that [of "?f True"] by (elim disjE) (simp_all del: float_bits.simps)
  next
    case 3
    let ?p = "\<bar>i\<bar>"
    have p: "0 < ?p" "?p < 2 ^ 53" using 3 by simp_all
    let ?f = "Finite (i < 0) (?p * 2 ^ (53 - bit_length ?p)) (int (bit_length ?p) - 53)"
    have a: "float_of_int i = Inr ?f" by (simp only: float_of_int_def round_ratio_whole [OF p] float64.case)
    have n: "- 1074 \<le> int (bit_length ?p) - 53" "int (bit_length ?p) - 53 \<le> 971" using bit_length_le [OF p(2)] by simp_all
    have t: "float_to_int ?f = Inr i"
      unfolding float_to_int_shifted(2) [OF p] by (simp add: signed_def)
    show thesis
      by (rule that [OF a float_of_bits_normal(1) [OF mantissa_range(1,2) [OF p] n] float_to_int_shifted(1) [OF p] t
            float_of_bits_normal(2,3) [OF mantissa_range(1,2) [OF p] n]])
  qed
qed

end
