(* ===== verification/Nnf_Types.thy ===== *)
theory Nnf_Types
  imports Binary_Layout Py_Float
begin

section \<open>Data types of the NNF protocol (\<open>nnf/types.py\<close>)\<close>

text \<open>
  Every type has a fixed width and integers are big-endian. Text is padded with blanks on
  the way out and read up to the first NUL, without the blanks around it; a raw run of
  bytes is carried as it is. A double that holds an integer is read as that integer. The
  lemma at the end gives what each type carries unchanged. The reserved type of the module
  is used by no layout.
\<close>

abbreviation BLANK :: char where "BLANK \<equiv> CHR '' ''"

definition be_bytes :: "nat \<Rightarrow> int \<Rightarrow> bytes" where
  "be_bytes n i = rev (le_bytes n i)"

definition be_uint :: "bytes \<Rightarrow> int" where
  "be_uint bs = le_uint (rev bs)"

definition be_sint :: "bytes \<Rightarrow> int" where
  "be_sint bs = le_sint (rev bs)"

definition nnf_need :: "bytes \<Rightarrow> nat \<Rightarrow> nat \<Rightarrow> fix_error option" where
  "nnf_need raw offset count =
     (if offset + count > length raw
      then Some (Malformed (''message ends mid-field: '' @ string_of_nat count @ '' bytes needed at offset '' @
             string_of_nat offset @ '', '' @ string_of_nat (length raw - offset) @ '' available''))
      else None)"

text \<open>\<open>Signed\<close>, \<open>Unsigned\<close>, \<open>Double\<close>, \<open>Char\<close> (true when justified to the right) and \<open>Raw\<close>.\<close>

datatype nnf_type = NSigned nat | NUnsigned nat | NDouble | NChar nat bool | NRaw nat

fun nnf_width :: "nnf_type \<Rightarrow> nat" where
  "nnf_width (NSigned w) = w"
| "nnf_width (NUnsigned w) = w"
| "nnf_width NDouble = 8"
| "nnf_width (NChar w r) = w"
| "nnf_width (NRaw w) = w"

fun nnf_default :: "nnf_type \<Rightarrow> wire_value" where
  "nnf_default (NChar w r) = WText []"
| "nnf_default (NRaw w) = WText []"
| "nnf_default ty = WInt 0"

text \<open>\<open>int(value or 0)\<close> and \<open>float(value or 0)\<close>; of text, the finite numerals.\<close>

fun int_or_zero :: "wire_value \<Rightarrow> exn + int" where
  "int_or_zero (WText []) = Inr 0"
| "int_or_zero v = value_int v"

fun float_or_zero :: "wire_value \<Rightarrow> exn + float64" where
  "float_or_zero (WInt i) = float_of_int i"
| "float_or_zero (WText t) =
     (if t = [] then float_of_int 0
      else (case decimal_of_text t of None \<Rightarrow> Inl ValueError
        | Some d \<Rightarrow> (case pow10_ratio (int (dec_coeff d)) 1 (dec_exp d) of (p, q) \<Rightarrow> Inr (round_ratio (dec_neg d) p q))))"

fun nnf_pack :: "nnf_type \<Rightarrow> wire_value \<Rightarrow> exn + bytes" where
  "nnf_pack (NSigned w) v =
     bind_exn (int_or_zero v) (\<lambda>i. if i < - (2 ^ (8 * w - 1)) \<or> i > 2 ^ (8 * w - 1) - 1 then Inl ValueError else Inr (be_bytes w i))"
| "nnf_pack (NUnsigned w) v =
     bind_exn (int_or_zero v) (\<lambda>i. if i < 0 \<or> i > 256 ^ w - 1 then Inl ValueError else Inr (be_bytes w i))"
| "nnf_pack NDouble v = bind_exn (float_or_zero v) (\<lambda>f. Inr (be_bytes 8 (float_bits f)))"
| "nnf_pack (NChar w right) v =
     (let raw = take w (value_text v); pad = replicate (w - length raw) BLANK
      in Inr (if right then pad @ raw else raw @ pad))"
| "nnf_pack (NRaw w) v = Inr (take w (value_text v @ replicate w NUL))"

definition read_double :: "float64 \<Rightarrow> decode_error + wire_value" where
  "read_double f =
     (case float_to_int f of Inl e \<Rightarrow> Inl (Raised e)
      | Inr whole \<Rightarrow> Inr (if float_is_whole f then WInt whole else WText (float_repr f)))"

fun nnf_read :: "nnf_type \<Rightarrow> bytes \<Rightarrow> decode_error + wire_value" where
  "nnf_read (NSigned w) chunk = Inr (WInt (be_sint chunk))"
| "nnf_read (NUnsigned w) chunk = Inr (WInt (be_uint chunk))"
| "nnf_read NDouble chunk = read_double (float_of_bits (be_uint chunk))"
| "nnf_read (NChar w right) chunk = Inr (WText (strip (until_nul chunk)))"
| "nnf_read (NRaw w) chunk = Inr (WText chunk)"

definition nnf_unpack :: "nnf_type \<Rightarrow> bytes \<Rightarrow> nat \<Rightarrow> decode_error + wire_value" where
  "nnf_unpack ty raw offset =
     (case nnf_need raw offset (nnf_width ty) of Some e \<Rightarrow> Inl (Bad e)
      | None \<Rightarrow> nnf_read ty (slice raw offset (nnf_width ty)))"

subsection \<open>Units of time\<close>

text \<open>
  A clock reading is the seconds of its calendar time, read as UTC, and its microseconds;
  what the wire carries is counted from 1 January 1980, in seconds, nanoseconds or jiffies.
\<close>

definition epoch_offset :: int where
  "epoch_offset = 315532800"

definition jiffies_per_second :: int where
  "jiffies_per_second = 65536"

definition epoch_seconds :: "int \<Rightarrow> int \<Rightarrow> exn + float64" where
  "epoch_seconds seconds microsecond =
     bind_exn (float_of_int seconds) (\<lambda>s. Inr (float_add s (round_ratio False microsecond 1000000)))"

definition to_nse_seconds :: "float64 \<Rightarrow> exn + int" where
  "to_nse_seconds f = bind_exn (float_to_int f) (\<lambda>i. Inr (i - epoch_offset))"

definition from_nse_seconds :: "int \<Rightarrow> int" where
  "from_nse_seconds i = i + epoch_offset"

definition to_nse_nanoseconds :: "float64 \<Rightarrow> exn + int" where
  "to_nse_nanoseconds f =
     bind_exn (float_of_int epoch_offset) (\<lambda>o1. float_round (float_times (float_sub f o1) 1000000000))"

definition to_nse_jiffies :: "float64 \<Rightarrow> exn + int" where
  "to_nse_jiffies f =
     bind_exn (float_of_int epoch_offset) (\<lambda>o1. float_to_int (float_times (float_sub f o1) jiffies_per_second))"

subsection \<open>What each type carries\<close>

lemma length_be_bytes [simp]: "length (be_bytes n i) = n"
  by (simp add: be_bytes_def)

lemma be_uint_be_bytes [simp]: "be_uint (be_bytes n i) = i mod 256 ^ n"
  by (simp add: be_uint_def be_bytes_def le_uint_le_bytes)

fun nnf_fits :: "nnf_type \<Rightarrow> wire_value \<Rightarrow> bool" where
  "nnf_fits (NSigned w) (WInt i) \<longleftrightarrow> 0 < w \<and> - (2 ^ (8 * w - 1)) \<le> i \<and> i < 2 ^ (8 * w - 1)"
| "nnf_fits (NUnsigned w) (WInt i) \<longleftrightarrow> 0 \<le> i \<and> i < 256 ^ w"
| "nnf_fits NDouble (WInt i) \<longleftrightarrow> \<bar>i\<bar> \<le> 2 ^ 53"
| "nnf_fits (NChar w right) (WText t) \<longleftrightarrow>
     length t \<le> w \<and> NUL \<notin> set t \<and> (t \<noteq> [] \<longrightarrow> \<not> is_space (hd t) \<and> \<not> is_space (last t))"
| "nnf_fits (NRaw w) (WText t) \<longleftrightarrow> length t = w"
| "nnf_fits ty v \<longleftrightarrow> False"

lemma strip_padded:
  assumes "t \<noteq> [] \<longrightarrow> \<not> is_space (hd t) \<and> \<not> is_space (last t)"
  shows "strip (t @ replicate k BLANK) = t" and "strip (replicate k BLANK @ t) = t"
proof -
  have sp: "is_space BLANK" by code_simp
  have d: "dropWhile is_space (replicate k BLANK @ s) = dropWhile is_space s" for s
    using sp by (induction k) simp_all
  have i: "s \<noteq> [] \<longrightarrow> \<not> is_space (hd s) \<Longrightarrow> dropWhile is_space s = s" for s by (cases s) simp_all
  have r: "dropWhile is_space (rev t) = rev t" using assms by (intro i) (simp add: hd_rev)
  have t: "dropWhile is_space t = t" using assms by (intro i) simp
  show "strip (replicate k BLANK @ t) = t" by (simp add: strip_def d t r)
  show "strip (t @ replicate k BLANK) = t"
  proof (cases "t = []")
    case True
    then show ?thesis using d [of "[]"] by (simp add: strip_def)
  next
    case False
    then have "dropWhile is_space (t @ replicate k BLANK) = t @ replicate k BLANK" using assms by (intro i) simp
    then show ?thesis by (simp add: strip_def d r)
  qed
qed

lemma until_nul_clean: "NUL \<notin> set t \<Longrightarrow> until_nul t = t"
  by (simp add: until_nul_def takeWhile_eq_all_conv) blast

lemma nnf_pack_reads_back:
  assumes "nnf_fits ty v"
  obtains bs where "nnf_pack ty v = Inr bs" "length bs = nnf_width ty" "nnf_read ty bs = Inr v"
proof -
  have "\<exists>bs. nnf_pack ty v = Inr bs \<and> length bs = nnf_width ty \<and> nnf_read ty bs = Inr v"
    using assms
  proof (induction ty v rule: nnf_fits.induct)
    case (1 w i)
    then show ?case by (simp add: be_sint_def be_bytes_def le_sint_le_bytes)
  next
    case (2 w i)
    then show ?case by simp
  next
    case (3 i)
    then have "\<bar>i\<bar> \<le> 2 ^ 53" by simp
    then obtain f where "float_of_int i = Inr f" "float_of_bits (float_bits f) = f" "float_is_whole f"
      "float_to_int f = Inr i" "0 \<le> float_bits f" "float_bits f < 2 ^ 64"
      by (rule float_of_int_exact)
    then show ?case by (simp add: read_double_def)
  next
    case (4 w right t)
    have n: "NUL \<noteq> BLANK" by code_simp
    have "until_nul (t @ replicate k BLANK) = t @ replicate k BLANK" "until_nul (replicate k BLANK @ t) = replicate k BLANK @ t" for k
      using 4 n by (intro until_nul_clean; auto)+
    with 4 strip_padded [of t] show ?case by (simp add: Let_def)
  next
    case (5 w t)
    then show ?case by simp
  qed simp_all
  with that show thesis by blast
qed

lemma nnf_unpack_at:
  "slice raw offset (nnf_width ty) = bs \<Longrightarrow> offset + nnf_width ty \<le> length raw \<Longrightarrow> nnf_unpack ty raw offset = nnf_read ty bs"
  by (simp add: nnf_unpack_def nnf_need_def)

lemma nnf_pack_length: "nnf_pack ty v = Inr bs \<Longrightarrow> length bs = nnf_width ty"
  by (induction ty v rule: nnf_pack.induct) (auto simp: bind_exn_Inr Let_def split: if_splits)

end
