(* ===== verification/Nnf_Packet.thy ===== *)
theory Nnf_Packet
  imports Binary_Types Nnf_Types
begin

section \<open>The digest of a packet (\<open>hashlib.md5\<close>)\<close>

text \<open>
  What the packet prefix carries when the connection is not authenticated: the digest of
  RFC 1321 over words of 32 bits, little-endian throughout. Its value is always 16 bytes.
\<close>

type_synonym md5_state = "32 word \<times> 32 word \<times> 32 word \<times> 32 word"

definition md5_constants :: "32 word list" where
  "md5_constants =
    [0xd76aa478, 0xe8c7b756, 0x242070db, 0xc1bdceee, 0xf57c0faf, 0x4787c62a, 0xa8304613, 0xfd469501,
     0x698098d8, 0x8b44f7af, 0xffff5bb1, 0x895cd7be, 0x6b901122, 0xfd987193, 0xa679438e, 0x49b40821,
     0xf61e2562, 0xc040b340, 0x265e5a51, 0xe9b6c7aa, 0xd62f105d, 0x02441453, 0xd8a1e681, 0xe7d3fbc8,
     0x21e1cde6, 0xc33707d6, 0xf4d50d87, 0x455a14ed, 0xa9e3e905, 0xfcefa3f8, 0x676f02d9, 0x8d2a4c8a,
     0xfffa3942, 0x8771f681, 0x6d9d6122, 0xfde5380c, 0xa4beea44, 0x4bdecfa9, 0xf6bb4b60, 0xbebfbc70,
     0x289b7ec6, 0xeaa127fa, 0xd4ef3085, 0x04881d05, 0xd9d4d039, 0xe6db99e5, 0x1fa27cf8, 0xc4ac5665,
     0xf4292244, 0x432aff97, 0xab9423a7, 0xfc93a039, 0x655b59c3, 0x8f0ccc92, 0xffeff47d, 0x85845dd1,
     0x6fa87e4f, 0xfe2ce6e0, 0xa3014314, 0x4e0811a1, 0xf7537e82, 0xbd3af235, 0x2ad7d2bb, 0xeb86d391]"

definition md5_shifts :: "nat list" where
  "md5_shifts =
    concat (replicate 4 [7, 12, 17, 22]) @ concat (replicate 4 [5, 9, 14, 20]) @
    concat (replicate 4 [4, 11, 16, 23]) @ concat (replicate 4 [6, 10, 15, 21])"

text \<open>The function of a round and the word of the block it takes, at step \<open>i\<close>.\<close>

definition md5_mix :: "nat \<Rightarrow> 32 word \<Rightarrow> 32 word \<Rightarrow> 32 word \<Rightarrow> 32 word \<times> nat" where
  "md5_mix i b c d =
     (if i < 16 then ((b AND c) OR (NOT b AND d), i)
      else if i < 32 then ((d AND b) OR (NOT d AND c), (5 * i + 1) mod 16)
      else if i < 48 then (b XOR c XOR d, (3 * i + 5) mod 16)
      else (c XOR (b OR NOT d), (7 * i) mod 16))"

definition md5_step :: "32 word list \<Rightarrow> nat \<Rightarrow> md5_state \<Rightarrow> md5_state" where
  "md5_step block i s =
     (case s of (a, b, c, d) \<Rightarrow>
       (case md5_mix i b c d of (f, g) \<Rightarrow>
         (d, b + word_rotl (md5_shifts ! i) (a + f + md5_constants ! i + block ! g), b, c)))"

definition md5_block :: "bytes \<Rightarrow> md5_state \<Rightarrow> md5_state" where
  "md5_block chunk s =
     (let block = map (\<lambda>k. word_of_int (le_uint (slice chunk (4 * k) 4))) [0 ..< 16]
      in case (s, fold (md5_step block) [0 ..< 64] s) of
           ((a, b, c, d), (a', b', c', d')) \<Rightarrow> (a + a', b + b', c + c', d + d'))"

function md5_blocks :: "bytes \<Rightarrow> md5_state \<Rightarrow> md5_state" where
  "md5_blocks data s = (if length data < 64 then s else md5_blocks (drop 64 data) (md5_block (take 64 data) s))"
  by pat_completeness auto
termination
  by (relation "measure (\<lambda>(data, s). length data)") auto

declare md5_blocks.simps [simp del]

definition md5_pad :: "bytes \<Rightarrow> bytes" where
  "md5_pad data =
     data @ [CHR 0x80] @ replicate ((119 - length data mod 64) mod 64) NUL @ le_bytes 8 (8 * int (length data))"

definition md5_digest :: "bytes \<Rightarrow> bytes" where
  "md5_digest data =
     (case md5_blocks (md5_pad data) (0x67452301, 0xefcdab89, 0x98badcfe, 0x10325476) of
        (a, b, c, d) \<Rightarrow> concat (map (\<lambda>w. le_bytes 4 (uint w)) [a, b, c, d]))"

lemma length_md5_digest [simp]: "length (md5_digest data) = 16"
  by (simp add: md5_digest_def split: prod.split)

section \<open>The packet of a member connection (\<open>nnf/packet.py\<close>)\<close>

text \<open>
  A packet is a prefix of 22 bytes - the length of the whole, a sequence number and sixteen
  bytes of checksum - and the message. The theory has the cutting of a stream, the prefix
  and its check, and the assembly. An assembled packet reads back, and a stream of them is
  cut the same way however it is fragmented.
\<close>

record packet_prefix =
  px_length :: int
  px_sequence :: int
  px_checksum :: bytes

definition prefix_bytes :: nat where "prefix_bytes = 22"
definition checksum_bytes :: nat where "checksum_bytes = 16"
definition max_packet_bytes :: nat where "max_packet_bytes = 1024"
definition min_packet_bytes :: nat where "min_packet_bytes = prefix_bytes + 40"

lemma packet_sizes: "prefix_bytes = 22" "checksum_bytes = 16" "max_packet_bytes = 1024" "min_packet_bytes = 62"
  by (simp_all add: prefix_bytes_def checksum_bytes_def max_packet_bytes_def min_packet_bytes_def)

definition packet_extract :: "bytes \<Rightarrow> fix_error + bytes \<times> bytes" where
  "packet_extract buffer =
     (if length buffer < 6 then Inl (Incomplete ''awaiting the packet length'')
      else (let len = nat (be_uint (slice buffer 0 2)) in
            if len < min_packet_bytes
            then Inl (Malformed (''Length ('' @ string_of_nat len @ '') is shorter than the '' @
                   string_of_nat min_packet_bytes @ '' bytes a packet needs''))
            else if len > max_packet_bytes
            then Inl (Malformed (''Length ('' @ string_of_nat len @ '') exceeds the '' @ string_of_nat max_packet_bytes @
                   '' byte maximum; the length may have been written little-endian''))
            else if length buffer < len then Inl (Incomplete ''awaiting message data'')
            else Inr (take len buffer, drop len buffer)))"

lemma packet_extract_shrinks: "packet_extract buffer = Inr (raw, rest) \<Longrightarrow> length rest < length buffer"
  by (auto simp: packet_extract_def Let_def packet_sizes split: if_splits)

text \<open>The framer's loop; a malformed length leaves the buffer where the loop stopped.\<close>

function packet_loop :: "bytes \<Rightarrow> (fix_error \<times> bytes) + bytes list \<times> bytes" where
  "packet_loop buffer =
     (if buffer = [] then Inr ([], [])
      else (case packet_extract buffer of
              Inl (Incomplete t) \<Rightarrow> Inr ([], buffer)
            | Inl (Malformed t) \<Rightarrow> Inl (Malformed t, buffer)
            | Inr (raw, rest) \<Rightarrow>
                (case packet_loop rest of Inl e \<Rightarrow> Inl e | Inr (raws, left) \<Rightarrow> Inr (raw # raws, left))))"
  by pat_completeness auto
termination
  by (relation "measure length") (auto dest: packet_extract_shrinks)

declare packet_loop.simps [simp del]

definition packet_feed :: "bytes \<Rightarrow> bytes \<Rightarrow> (fix_error \<times> bytes) + bytes list \<times> bytes" where
  "packet_feed buffer chunk = packet_loop (buffer @ chunk)"

definition unpack_prefix :: "bytes \<Rightarrow> fix_error + packet_prefix" where
  "unpack_prefix raw =
     (if length raw < prefix_bytes
      then Inl (Malformed (''packet is '' @ string_of_nat (length raw) @ '' bytes, shorter than a prefix''))
      else (let len = be_uint (slice raw 0 2) in
            if len \<noteq> int (length raw)
            then Inl (Malformed (''Length says '' @ string_of_int len @ '' bytes, packet is '' @ string_of_nat (length raw)))
            else Inr \<lparr>px_length = len, px_sequence = be_uint (slice raw 2 4), px_checksum = slice raw 6 16\<rparr>))"

definition data_of :: "bytes \<Rightarrow> bytes" where
  "data_of raw = drop prefix_bytes raw"

definition packet_pack :: "bytes \<Rightarrow> int \<Rightarrow> bytes option \<Rightarrow> exn + bytes" where
  "packet_pack data sequence checksum0 =
     (let checksum = (case checksum0 of None \<Rightarrow> md5_digest data | Some c \<Rightarrow> c);
          len = prefix_bytes + length data
      in if length checksum \<noteq> checksum_bytes then Inl ValueError
         else if len > max_packet_bytes then Inl ValueError
         else if sequence < 0 \<or> sequence \<ge> 2 ^ 32 then Inl StructError
         else Inr (be_bytes 2 (int len) @ be_bytes 4 sequence @ checksum @ data))"

subsection \<open>An assembled packet\<close>

lemma packet_pack_parts:
  assumes "packet_pack data seq c = Inr raw"
  obtains cs where "raw = be_bytes 2 (int (length raw)) @ be_bytes 4 seq @ cs @ data" "length cs = 16"
    "cs = (case c of None \<Rightarrow> md5_digest data | Some x \<Rightarrow> x)" "length raw = 22 + length data" "length raw \<le> 1024"
    "0 \<le> seq" "seq < 2 ^ 32"
proof -
  let ?cs = "case c of None \<Rightarrow> md5_digest data | Some x \<Rightarrow> x"
  have l: "length ?cs = 16" "22 + length data \<le> 1024" "0 \<le> seq" "seq < 2 ^ 32"
    and r: "raw = be_bytes 2 (int (22 + length data)) @ be_bytes 4 seq @ ?cs @ data"
    using assms by (simp_all add: packet_pack_def Let_def packet_sizes not_less not_le split: if_splits)
  have lr: "length raw = 22 + length data" using l(1) by (simp add: r)
  show thesis by (rule that [of ?cs]) (use r lr l in simp_all)
qed

lemma unpack_packet:
  assumes "packet_pack data seq c = Inr raw"
  shows "unpack_prefix raw = Inr \<lparr>px_length = int (length raw), px_sequence = seq,
      px_checksum = (case c of None \<Rightarrow> md5_digest data | Some x \<Rightarrow> x)\<rparr>"
    and "data_of raw = data"
proof -
  obtain cs where r: "raw = be_bytes 2 (int (length raw)) @ be_bytes 4 seq @ cs @ data" and l: "length cs = 16"
    and cs: "cs = (case c of None \<Rightarrow> md5_digest data | Some x \<Rightarrow> x)" and lr: "length raw = 22 + length data" "length raw \<le> 1024"
    and s: "0 \<le> seq" "seq < 2 ^ 32"
    by (rule packet_pack_parts [OF assms])
  have sl: "slice raw 0 2 = be_bytes 2 (int (length raw))" "slice raw 2 4 = be_bytes 4 seq" "slice raw 6 16 = cs"
      "drop 22 raw = data"
    using l by (subst r; simp add: slice_def)+
  have "int (length raw) mod 256 ^ 2 = int (length raw)" "seq mod 256 ^ 4 = seq" using lr s by simp_all
  then show "unpack_prefix raw = Inr \<lparr>px_length = int (length raw), px_sequence = seq,
      px_checksum = (case c of None \<Rightarrow> md5_digest data | Some x \<Rightarrow> x)\<rparr>"
    using lr(1) unfolding unpack_prefix_def Let_def sl be_uint_be_bytes packet_sizes cs [symmetric] by simp
  show "data_of raw = data" by (simp add: data_of_def packet_sizes sl)
qed

subsection \<open>A stream of packets\<close>

text \<open>A packet that carries at least the header of a message, which every structure begins with.\<close>

definition is_packet :: "bytes \<Rightarrow> bool" where
  "is_packet raw \<longleftrightarrow> (\<exists>data seq c. 40 \<le> length data \<and> packet_pack data seq c = Inr raw)"

lemma is_packet_start:
  assumes "is_packet raw"
  shows "62 \<le> length raw" "length raw \<le> 1024" "nat (be_uint (slice raw 0 2)) = length raw"
proof -
  obtain data seq c where p: "40 \<le> length data" "packet_pack data seq c = Inr raw" using assms by (auto simp: is_packet_def)
  obtain cs where r: "raw = be_bytes 2 (int (length raw)) @ be_bytes 4 seq @ cs @ data"
    and lr: "length raw = 22 + length data" "length raw \<le> 1024"
    by (rule packet_pack_parts [OF p(2)])
  show "62 \<le> length raw" "length raw \<le> 1024" using p lr by simp_all
  have "slice raw 0 2 = be_bytes 2 (int (length raw))" by (subst r) (simp add: slice_def)
  then show "nat (be_uint (slice raw 0 2)) = length raw" using lr(2) by simp
qed

lemma packet_extract_packet: "is_packet raw \<Longrightarrow> packet_extract (raw @ rest) = Inr (raw, rest)"
  using is_packet_start [of raw] slice_prefix [of 0 2 raw rest]
  by (simp add: packet_extract_def Let_def packet_sizes)

lemma packet_extract_partial:
  assumes "is_packet raw" and "p @ q = raw" and "q \<noteq> []"
  shows "\<exists>t. packet_extract p = Inl (Incomplete t)"
proof (cases "length p < 6")
  case False
  then have "slice (p @ q) 0 2 = slice p 0 2" by (intro slice_prefix) simp
  then have "nat (be_uint (slice p 0 2)) = length raw" using is_packet_start(3) [OF assms(1)] assms(2) by simp
  moreover have "length p < length raw" using assms(2,3) by auto
  ultimately show ?thesis using False is_packet_start(1,2) [OF assms(1)] by (simp add: packet_extract_def Let_def packet_sizes)
qed (simp add: packet_extract_def)

interpretation nnf_framing: stream_framing packet_extract packet_loop is_packet
proof unfold_locales
  show "is_packet e \<Longrightarrow> e \<noteq> []" for e using is_packet_start(1) [of e] by auto
  show "is_packet e \<Longrightarrow> packet_extract (e @ r) = Inr (e, r)" for e r by (rule packet_extract_packet)
  show "is_packet e \<Longrightarrow> p @ q = e \<Longrightarrow> q \<noteq> [] \<Longrightarrow> p \<noteq> [] \<Longrightarrow> \<exists>t. packet_extract p = Inl (Incomplete t)" for e p q
    by (rule packet_extract_partial)
qed (simp_all add: packet_loop.simps)

end
