(* ===== verification/Nnf_Crypto.thy ===== *)
theory Nnf_Crypto
  imports Nnf_Packet
begin

section \<open>The ciphers of a member connection (\<open>nnf/crypto.py\<close>)\<close>

text \<open>
  AES-256 as a block cipher, Galois/Counter Mode over it, and the three ways a connection
  carries a message: in clear with a digest, under one continuous keystream with a digest,
  and authenticated under an initialisation vector that walks. Bytes are words of 8 bits
  inside AES and blocks are words of 128 bits inside the mode. The lemmas about them are in
  \<open>Nnf_Channel\<close>.
\<close>

subsection \<open>AES-256\<close>

definition bytes_in :: "bytes \<Rightarrow> 8 word list" where
  "bytes_in s = map of_char s"

definition bytes_out :: "8 word list \<Rightarrow> bytes" where
  "bytes_out ws = map (\<lambda>w. char_of (uint w)) ws"

definition xtime :: "8 word \<Rightarrow> 8 word" where
  "xtime b = push_bit 1 b XOR (if bit b 7 then 0x1B else 0)"

text \<open>Powers of the generator 3 of the field of 256 elements, and their logarithms.\<close>

fun power_table :: "nat \<Rightarrow> 8 word \<Rightarrow> 8 word list" where
  "power_table 0 v = []"
| "power_table (Suc n) v = v # power_table n (v XOR xtime v)"

definition powers :: "8 word list" where
  "powers = power_table 255 1"

definition log_of :: "8 word \<Rightarrow> nat" where
  "log_of v = (case find (\<lambda>e. powers ! e = v) (rev [0 ..< 255]) of None \<Rightarrow> 0 | Some e \<Rightarrow> e)"

definition sbox_entry :: "nat \<Rightarrow> 8 word" where
  "sbox_entry index =
     (let inverse = (if index = 0 then 0 else powers ! ((255 - log_of (of_nat index)) mod 255))
      in inverse XOR word_rotl 1 inverse XOR word_rotl 2 inverse XOR word_rotl 3 inverse XOR word_rotl 4 inverse XOR 0x63)"

definition sbox :: "8 word list" where
  "sbox = map sbox_entry [0 ..< 256]"

definition sub_byte :: "8 word \<Rightarrow> 8 word" where
  "sub_byte b = sbox ! unat b"

definition rcon :: "8 word list" where
  "rcon = [0x01, 0x02, 0x04, 0x08, 0x10, 0x20, 0x40, 0x80, 0x1B, 0x36, 0x6C, 0xD8, 0xAB, 0x4D]"

definition xor_words :: "8 word list \<Rightarrow> 8 word list \<Rightarrow> 8 word list" where
  "xor_words a b = map2 (XOR) a b"

text \<open>One word of the key schedule from those before it, and the fifteen round keys.\<close>

definition expand_word :: "nat \<Rightarrow> 8 word list list \<Rightarrow> 8 word list list" where
  "expand_word index words =
     (let prior = words ! (index - 1);
          word = (if index mod 8 = 0
                  then (let w = map sub_byte (tl prior @ [hd prior]) in (hd w XOR rcon ! (index div 8 - 1)) # tl w)
                  else if index mod 8 = 4 then map sub_byte prior else prior)
      in words @ [xor_words (words ! (index - 8)) word])"

definition expand_key :: "8 word list \<Rightarrow> 8 word list list" where
  "expand_key key =
     (let words = fold expand_word [8 ..< 60] (map (\<lambda>i. take 4 (drop (i * 4) key)) [0 ..< 8])
      in map (\<lambda>r. concat (take 4 (drop (r * 4) words))) [0 ..< 15])"

type_synonym schedule = "8 word list list"

definition key_bytes :: nat where "key_bytes = 32"
definition iv_bytes :: nat where "iv_bytes = 16"
definition static_iv_bytes :: nat where "static_iv_bytes = 8"
definition aad_bytes :: nat where "aad_bytes = 12"

definition make_aes :: "bytes \<Rightarrow> exn + schedule" where
  "make_aes key = (if length key \<noteq> key_bytes then Inl ValueError else Inr (expand_key (bytes_in key)))"

definition add_round_key :: "8 word list \<Rightarrow> 8 word list \<Rightarrow> 8 word list" where
  "add_round_key key state = map (\<lambda>i. state ! i XOR key ! i) [0 ..< 16]"

text \<open>The state is column-major; row \<open>r\<close> turns left by \<open>r\<close>.\<close>

definition shift_rows :: "8 word list \<Rightarrow> 8 word list" where
  "shift_rows state = map (\<lambda>i. state ! (i mod 4 + 4 * ((i div 4 + i mod 4) mod 4))) [0 ..< 16]"

definition mix_column :: "8 word list \<Rightarrow> nat \<Rightarrow> 8 word list" where
  "mix_column state base =
     (let a0 = state ! base; a1 = state ! (base + 1); a2 = state ! (base + 2); a3 = state ! (base + 3);
          total = a0 XOR a1 XOR a2 XOR a3
      in [a0 XOR total XOR xtime (a0 XOR a1), a1 XOR total XOR xtime (a1 XOR a2),
          a2 XOR total XOR xtime (a2 XOR a3), a3 XOR total XOR xtime (a3 XOR a0)])"

definition mix_columns :: "8 word list \<Rightarrow> 8 word list" where
  "mix_columns state = concat (map (\<lambda>column. mix_column state (column * 4)) [0 ..< 4])"

definition aes_round :: "8 word list \<Rightarrow> 8 word list \<Rightarrow> 8 word list" where
  "aes_round key state = add_round_key key (mix_columns (shift_rows (map sub_byte state)))"

definition encrypt_words :: "schedule \<Rightarrow> 8 word list \<Rightarrow> 8 word list" where
  "encrypt_words keys block =
     add_round_key (keys ! 14)
       (shift_rows (map sub_byte (fold aes_round (map (\<lambda>r. keys ! r) [1 ..< 14]) (add_round_key (keys ! 0) block))))"

definition encrypt_block :: "schedule \<Rightarrow> bytes \<Rightarrow> bytes" where
  "encrypt_block keys block = bytes_out (encrypt_words keys (bytes_in block))"

subsection \<open>Galois/Counter Mode\<close>

definition block_bytes :: nat where "block_bytes = 16"

definition to_int :: "bytes \<Rightarrow> 128 word" where
  "to_int block = word_of_int (be_uint block)"

definition to_block :: "128 word \<Rightarrow> bytes" where
  "to_block w = be_bytes 16 (uint w)"

definition gf_step :: "128 word \<Rightarrow> nat \<Rightarrow> 128 word \<times> 128 word \<Rightarrow> 128 word \<times> 128 word" where
  "gf_step x index s =
     (case s of (product, accumulator) \<Rightarrow>
       (if bit x (127 - index) then product XOR accumulator else product,
        drop_bit 1 accumulator XOR (if bit accumulator 0 then 0xE1000000000000000000000000000000 else 0)))"

definition gf_multiply :: "128 word \<Rightarrow> 128 word \<Rightarrow> 128 word" where
  "gf_multiply x y = fst (fold (gf_step x) [0 ..< 128] (0, y))"

definition pad_block :: "bytes \<Rightarrow> bytes" where
  "pad_block data =
     (let remainder = length data mod block_bytes
      in if remainder = 0 then data else data @ replicate (block_bytes - remainder) NUL)"

record gcm =
  gcm_schedule :: schedule
  gcm_h :: "128 word"

definition make_gcm :: "bytes \<Rightarrow> exn + gcm" where
  "make_gcm key = bind_exn (make_aes key) (\<lambda>keys.
     Inr \<lparr>gcm_schedule = keys, gcm_h = to_int (encrypt_block keys (replicate block_bytes NUL))\<rparr>)"

function ghash_loop :: "128 word \<Rightarrow> 128 word \<Rightarrow> bytes \<Rightarrow> 128 word" where
  "ghash_loop h digest data =
     (if data = [] then digest
      else ghash_loop h (gf_multiply (digest XOR to_int (take 16 data)) h) (drop 16 data))"
  by pat_completeness auto
termination
  by (relation "measure (\<lambda>(h, digest, data). length data)") auto

declare ghash_loop.simps [simp del]

definition ghash :: "gcm \<Rightarrow> bytes \<Rightarrow> 128 word" where
  "ghash g data = ghash_loop (gcm_h g) 0 data"

text \<open>Two lengths in bits, eight bytes each; what is authenticated fits a packet.\<close>

definition length_block :: "nat \<Rightarrow> nat \<Rightarrow> bytes" where
  "length_block a b = be_bytes 8 (int (a * 8)) @ be_bytes 8 (int (b * 8))"

definition initial_counter :: "gcm \<Rightarrow> bytes \<Rightarrow> 128 word" where
  "initial_counter g iv =
     (if length iv = 12 then to_int (iv @ [NUL, NUL, NUL, CHR 0x01])
      else ghash g (pad_block iv @ length_block 0 (length iv)))"

definition keystream_block :: "gcm \<Rightarrow> 128 word \<Rightarrow> nat \<Rightarrow> bytes" where
  "keystream_block g counter index =
     encrypt_block (gcm_schedule g)
       (to_block ((counter AND NOT 0xFFFFFFFF) OR ((counter + of_nat index) AND 0xFFFFFFFF)))"

text \<open>The loop of \<open>apply_keystream\<close>: \<open>n\<close> bytes of the keystream from a position in it.\<close>

function keystream :: "gcm \<Rightarrow> 128 word \<Rightarrow> nat \<Rightarrow> nat \<Rightarrow> bytes" where
  "keystream g counter position n =
     (if n = 0 then []
      else (let block = keystream_block g counter (position div 16); start = position mod 16; count = min (16 - start) n
            in take count (drop start block) @ keystream g counter (position + count) (n - count)))"
  by pat_completeness auto
termination
proof (relation "measure (\<lambda>(g, counter, position, n). n)", goal_cases)
  case (2 g counter position n block start count)
  have "start < 16" using 2(3) by simp
  then have "0 < count" using 2(1,4) by simp
  then show ?case using 2(1) by simp
qed simp

declare keystream.simps [simp del]

definition xor_char :: "char \<Rightarrow> char \<Rightarrow> char" where
  "xor_char a b = char_of ((of_char a :: nat) XOR of_char b)"

definition apply_keystream :: "gcm \<Rightarrow> 128 word \<Rightarrow> bytes \<Rightarrow> nat \<Rightarrow> bytes" where
  "apply_keystream g counter data skip = map2 xor_char data (keystream g counter skip (length data))"

definition gcm_tag :: "gcm \<Rightarrow> 128 word \<Rightarrow> bytes \<Rightarrow> bytes \<Rightarrow> bytes" where
  "gcm_tag g counter ciphertext aad =
     apply_keystream g counter
       (to_block (ghash g (pad_block aad @ pad_block ciphertext @ length_block (length aad) (length ciphertext)))) 0"

definition gcm_encrypt :: "gcm \<Rightarrow> bytes \<Rightarrow> bytes \<Rightarrow> bytes \<Rightarrow> bytes \<times> bytes" where
  "gcm_encrypt g iv plaintext aad =
     (let counter = initial_counter g iv; ciphertext = apply_keystream g (counter + 1) plaintext 0
      in (ciphertext, gcm_tag g counter ciphertext aad))"

datatype crypto_error = CryptoError string

text \<open>The comparison whose time does not depend on the bytes.\<close>

definition equal_bytes :: "bytes \<Rightarrow> bytes \<Rightarrow> bool" where
  "equal_bytes left right \<longleftrightarrow>
     length left = length right \<and>
     fold (\<lambda>(a, b) difference. difference OR ((of_char a :: nat) XOR of_char b)) (zip left right) 0 = 0"

definition gcm_decrypt :: "gcm \<Rightarrow> bytes \<Rightarrow> bytes \<Rightarrow> bytes \<Rightarrow> bytes \<Rightarrow> crypto_error + bytes" where
  "gcm_decrypt g iv ciphertext tag aad =
     (let counter = initial_counter g iv
      in if \<not> equal_bytes (gcm_tag g counter ciphertext aad) tag
         then Inl (CryptoError ''authentication tag does not verify'')
         else Inr (apply_keystream g (counter + 1) ciphertext 0))"

subsection \<open>The three ciphers of a connection\<close>

record existing_cipher =
  ec_gcm :: gcm
  ec_counter :: "128 word"
  ec_sent :: nat
  ec_received :: nat

definition make_existing :: "bytes \<Rightarrow> bytes \<Rightarrow> exn + existing_cipher" where
  "make_existing key iv =
     (if length iv \<noteq> iv_bytes then Inl ValueError
      else bind_exn (make_gcm key) (\<lambda>g.
        Inr \<lparr>ec_gcm = g, ec_counter = initial_counter g iv + 1, ec_sent = 0, ec_received = 0\<rparr>))"

datatype endian = Little | Big

record new_cipher =
  nc_gcm :: gcm
  nc_aad :: bytes
  nc_static :: bytes
  nc_dynamic :: bytes
  nc_candidates :: "endian list option"
  nc_endian :: endian
  nc_sent :: int
  nc_received :: int
  nc_send_step :: int

text \<open>\<open>dynamic_endian\<close> is a layout or, for \<open>'auto'\<close>, none; any other text is refused.\<close>

definition make_new :: "bytes \<Rightarrow> bytes \<Rightarrow> bytes \<Rightarrow> bool \<Rightarrow> endian option \<Rightarrow> exn + new_cipher" where
  "make_new key iv aad client layout =
     (if length iv \<noteq> iv_bytes \<or> length aad \<noteq> aad_bytes then Inl ValueError
      else bind_exn (make_gcm key) (\<lambda>g.
        Inr \<lparr>nc_gcm = g, nc_aad = aad, nc_static = take static_iv_bytes iv, nc_dynamic = drop static_iv_bytes iv,
          nc_candidates = (if layout = None then Some [Little, Big] else None),
          nc_endian = (case layout of None \<Rightarrow> Little | Some e \<Rightarrow> e),
          nc_sent = 0, nc_received = 0, nc_send_step = (if client then 1 else -1)\<rparr>))"

definition wrap64 :: "int \<Rightarrow> int" where
  "wrap64 v = (let u = v mod 2 ^ 64 in if u \<ge> 2 ^ 63 then u - 2 ^ 64 else u)"

definition step_iv :: "new_cipher \<Rightarrow> int \<Rightarrow> endian \<Rightarrow> bytes" where
  "step_iv c steps layout =
     nc_static c @ (case layout of
        Little \<Rightarrow> le_bytes 8 (wrap64 (le_sint (nc_dynamic c) + steps))
      | Big \<Rightarrow> be_bytes 8 (wrap64 (be_sint (nc_dynamic c) + steps)))"

definition settle :: "endian \<Rightarrow> new_cipher \<Rightarrow> new_cipher" where
  "settle layout c = (if nc_candidates c = None then c else c\<lparr>nc_candidates := None, nc_endian := layout\<rparr>)"

definition new_seal :: "new_cipher \<Rightarrow> bytes \<Rightarrow> new_cipher \<times> bytes \<times> bytes" where
  "new_seal c0 data =
     (let c1 = settle (nc_endian c0) c0; c = c1\<lparr>nc_sent := nc_sent c1 + nc_send_step c1\<rparr>
      in (c, gcm_encrypt (nc_gcm c) (step_iv c (nc_sent c) (nc_endian c)) data (nc_aad c)))"

fun endian_name :: "endian \<Rightarrow> string" where
  "endian_name Little = ''little''"
| "endian_name Big = ''big''"

text \<open>The refusal names every layout that was tried.\<close>

definition no_layout :: "new_cipher \<Rightarrow> crypto_error" where
  "no_layout c = CryptoError (''no dynamic IV layout authenticates this message; tried '' @
     (case nc_candidates c of None \<Rightarrow> [] | Some es \<Rightarrow>
        (case map endian_name es of [] \<Rightarrow> [] | x # xs \<Rightarrow> x @ concat (map (\<lambda>y. '', '' @ y) xs))))"

fun detect :: "endian list \<Rightarrow> new_cipher \<Rightarrow> bytes \<Rightarrow> bytes \<Rightarrow> new_cipher \<times> (crypto_error + bytes)" where
  "detect [] c data checksum = (c, Inl (no_layout c))"
| "detect (e # es) c data checksum =
     (case gcm_decrypt (nc_gcm c) (step_iv c (nc_received c) e) data checksum (nc_aad c) of
        Inl _ \<Rightarrow> detect es c data checksum
      | Inr plain \<Rightarrow> (settle e c, Inr plain))"

definition new_open :: "new_cipher \<Rightarrow> bytes \<Rightarrow> bytes option \<Rightarrow> new_cipher \<times> (crypto_error + bytes)" where
  "new_open c0 data checksum =
     (case checksum of
        None \<Rightarrow> (c0, Inl (CryptoError ''an authenticated message carries no tag''))
      | Some tag \<Rightarrow>
         (let c = c0\<lparr>nc_received := nc_received c0 - nc_send_step c0\<rparr> in
          case nc_candidates c of
            None \<Rightarrow> (c, gcm_decrypt (nc_gcm c) (step_iv c (nc_received c) (nc_endian c)) data tag (nc_aad c))
          | Some es \<Rightarrow> detect es c data tag))"

definition existing_seal :: "existing_cipher \<Rightarrow> bytes \<Rightarrow> existing_cipher \<times> bytes \<times> bytes" where
  "existing_seal c data =
     (c\<lparr>ec_sent := ec_sent c + length data\<rparr>, apply_keystream (ec_gcm c) (ec_counter c) data (ec_sent c), md5_digest data)"

definition existing_open :: "existing_cipher \<Rightarrow> bytes \<Rightarrow> bytes option \<Rightarrow> existing_cipher \<times> (crypto_error + bytes)" where
  "existing_open c data checksum =
     (let plain = apply_keystream (ec_gcm c) (ec_counter c) data (ec_received c) in
      (c\<lparr>ec_received := ec_received c + length data\<rparr>,
       case checksum of
         None \<Rightarrow> Inr plain
       | Some digest \<Rightarrow> (if equal_bytes (md5_digest plain) digest then Inr plain
           else Inl (CryptoError ''MD5 checksum does not match the decrypted message''))))"

definition plain_open :: "bytes \<Rightarrow> bytes option \<Rightarrow> crypto_error + bytes" where
  "plain_open data checksum =
     (case checksum of
        None \<Rightarrow> Inr data
      | Some digest \<Rightarrow> (if equal_bytes (md5_digest data) digest then Inr data
          else Inl (CryptoError ''MD5 checksum does not match the message data'')))"

datatype cipher = PlainCipher | ExistingCipher existing_cipher | NewCipher new_cipher

fun cipher_seal :: "cipher \<Rightarrow> bytes \<Rightarrow> cipher \<times> bytes \<times> bytes" where
  "cipher_seal PlainCipher data = (PlainCipher, data, md5_digest data)"
| "cipher_seal (ExistingCipher c) data = map_prod ExistingCipher id (existing_seal c data)"
| "cipher_seal (NewCipher c) data = map_prod NewCipher id (new_seal c data)"

fun cipher_open :: "cipher \<Rightarrow> bytes \<Rightarrow> bytes option \<Rightarrow> cipher \<times> (crypto_error + bytes)" where
  "cipher_open PlainCipher data checksum = (PlainCipher, plain_open data checksum)"
| "cipher_open (ExistingCipher c) data checksum = map_prod ExistingCipher id (existing_open c data checksum)"
| "cipher_open (NewCipher c) data checksum = map_prod NewCipher id (new_open c data checksum)"

end
