(* ===== verification/Nnf_Layout.thy ===== *)
theory Nnf_Layout
  imports Nnf_Crypto
begin

section \<open>Structures and the NNF codec (\<open>nnf/layout.py\<close>, \<open>nnf/codec.py\<close>)\<close>

text \<open>
  A structure is a table of fields at fixed offsets behind a header; encoding writes each
  field into a zeroed buffer and decoding reads each one out. \<open>layout_check\<close> is the test a
  structure has to pass: the size it is published with, no two fields at one byte, no byte
  without a field. The codec packs the encoded structure, through the cipher of the
  connection, into a packet. Encoding sets the length field of the message it is given, so
  the message is a result as well.
\<close>

text \<open>
  The shared converters, a price in paise, and the strike of the derivatives venue
  (\<open>nsefo/layouts.py\<close>), whose \<open>-1\<close> means that there is none.
\<close>

datatype field_converter = Shared converter | ScaledPrice nat | StrikeScaled nat

definition price_text :: "nat \<Rightarrow> int \<Rightarrow> string" where
  "price_text places i =
     (let n = nat \<bar>i\<bar> in
      (if i < 0 then ''-'' else []) @ string_of_nat (n div 10 ^ places) @ CHR ''.'' # zero_pad places (n mod 10 ^ places))"

fun nnf_to_wire :: "field_converter \<Rightarrow> string \<Rightarrow> exn + wire_value" where
  "nnf_to_wire (Shared c) t = to_wire c t"
| "nnf_to_wire (ScaledPrice places) t = map_sum id WInt (scale places t)"
| "nnf_to_wire (StrikeScaled places) t = (if t = ''-1'' then Inr (WInt (-1)) else map_sum id WInt (scale places t))"

fun nnf_from_wire :: "field_converter \<Rightarrow> wire_value \<Rightarrow> exn + string" where
  "nnf_from_wire (Shared c) v = from_wire c v"
| "nnf_from_wire (ScaledPrice places) v = map_sum id (price_text places) (value_int v)"
| "nnf_from_wire (StrikeScaled places) v = map_sum id (\<lambda>i. if i = -1 then ''-1'' else price_text places i) (value_int v)"

record nnf_field =
  nf_tag :: int
  nf_name :: string
  nf_type :: nnf_type
  nf_offset :: nat
  nf_converter :: field_converter
  nf_redact :: bool

fun default_converter :: "nnf_type \<Rightarrow> field_converter" where
  "default_converter (NChar w r) = Shared TextConv"
| "default_converter (NRaw w) = Shared TextConv"
| "default_converter ty = Shared NumberConv"

definition make_field :: "int \<Rightarrow> string \<Rightarrow> nnf_type \<Rightarrow> nat \<Rightarrow> field_converter option \<Rightarrow> bool \<Rightarrow> nnf_field" where
  "make_field tag name ty offset conv redact =
     \<lparr>nf_tag = tag, nf_name = name, nf_type = ty, nf_offset = offset,
      nf_converter = (case conv of None \<Rightarrow> default_converter ty | Some c \<Rightarrow> c), nf_redact = redact\<rparr>"

text \<open>A field, a reserved run and a bit field, each with its offset; a bit is a tag or reserved.\<close>

datatype layout_part =
    Single nnf_field
  | ReservedRun nat nat string
  | FlagBits string nat nat "int option list"

abbreviation plain_at :: "int \<Rightarrow> string \<Rightarrow> nnf_type \<Rightarrow> nat \<Rightarrow> layout_part" where
  "plain_at tag name ty offset \<equiv> Single (make_field tag name ty offset None False)"

abbreviation secret_at :: "int \<Rightarrow> string \<Rightarrow> nnf_type \<Rightarrow> nat \<Rightarrow> layout_part" where
  "secret_at tag name ty offset \<equiv> Single (make_field tag name ty offset None True)"

abbreviation conv_at :: "int \<Rightarrow> string \<Rightarrow> nnf_type \<Rightarrow> nat \<Rightarrow> field_converter \<Rightarrow> layout_part" where
  "conv_at tag name ty offset conv \<equiv> Single (make_field tag name ty offset (Some conv) False)"

text \<open>The types by their names in the specification.\<close>

abbreviation "BYTE_TYPE \<equiv> NSigned 1"
abbreviation "SHORT_TYPE \<equiv> NSigned 2"
abbreviation "LONG_TYPE \<equiv> NSigned 4"
abbreviation "LONG_LONG_TYPE \<equiv> NSigned 8"
abbreviation "PAISE \<equiv> ScaledPrice 2"
abbreviation "STRIKE \<equiv> StrikeScaled 2"

definition make_flags :: "string \<Rightarrow> nat \<Rightarrow> nat \<Rightarrow> int option list \<Rightarrow> exn + layout_part" where
  "make_flags name offset width bits =
     (if length bits \<noteq> width * 8 then Inl ValueError else Inr (FlagBits name offset width bits))"

fun part_name :: "layout_part \<Rightarrow> string" where
  "part_name (Single f) = nf_name f"
| "part_name (ReservedRun offset width name) = name"
| "part_name (FlagBits name offset width bits) = name"

fun part_offset :: "layout_part \<Rightarrow> nat" where
  "part_offset (Single f) = nf_offset f"
| "part_offset (ReservedRun offset width name) = offset"
| "part_offset (FlagBits name offset width bits) = offset"

fun part_width :: "layout_part \<Rightarrow> nat" where
  "part_width (Single f) = nnf_width (nf_type f)"
| "part_width (ReservedRun offset width name) = width"
| "part_width (FlagBits name offset width bits) = width"

definition part_end :: "layout_part \<Rightarrow> nat" where
  "part_end p = part_offset p + part_width p"

fun part_tags :: "layout_part \<Rightarrow> int list" where
  "part_tags (Single f) = [nf_tag f]"
| "part_tags (ReservedRun offset width name) = []"
| "part_tags (FlagBits name offset width bits) = List.map_filter id bits"

subsection \<open>Encoding and decoding a part\<close>

text \<open>Assignment to a slice of the buffer.\<close>

definition write_at :: "nat \<Rightarrow> bytes \<Rightarrow> bytes \<Rightarrow> bytes" where
  "write_at offset data buffer = take offset buffer @ data @ drop (offset + length data) buffer"

definition field_bytes :: "nnf_field \<Rightarrow> fix_message \<Rightarrow> exn + bytes" where
  "field_bytes f m =
     (case msg_get m (nf_tag f) of
        None \<Rightarrow> nnf_pack (nf_type f) (nnf_default (nf_type f))
      | Some t \<Rightarrow> bind_exn (nnf_to_wire (nf_converter f) t) (nnf_pack (nf_type f)))"

definition flag_bytes :: "nat \<Rightarrow> int option list \<Rightarrow> fix_message \<Rightarrow> bytes" where
  "flag_bytes width bits m =
     fold set_presence
       (map fst (filter (\<lambda>(index, tag). case tag of None \<Rightarrow> False | Some t \<Rightarrow> msg_get m t = Some ''Y'') (List.enumerate 0 bits)))
       (replicate width NUL)"

fun encode_part :: "fix_message \<Rightarrow> layout_part \<Rightarrow> bytes \<Rightarrow> exn + bytes" where
  "encode_part m (Single f) buffer = bind_exn (field_bytes f m) (\<lambda>data. Inr (write_at (nf_offset f) data buffer))"
| "encode_part m (ReservedRun offset width name) buffer = Inr buffer"
| "encode_part m (FlagBits name offset width bits) buffer = Inr (write_at offset (flag_bytes width bits m) buffer)"

definition flag_is_set :: "bytes \<Rightarrow> nat \<Rightarrow> bool" where
  "flag_is_set chunk index = bit (of_char (chunk ! (index div 8)) :: nat) (7 - index mod 8)"

definition read_flags :: "bytes \<Rightarrow> int option list \<Rightarrow> fix_message \<Rightarrow> fix_message" where
  "read_flags chunk bits m =
     fold (\<lambda>(index, tag) n. case tag of None \<Rightarrow> n | Some t \<Rightarrow> msg_set t (if flag_is_set chunk index then ''Y'' else ''N'') n)
       (List.enumerate 0 bits) m"

fun decode_part :: "bytes \<Rightarrow> layout_part \<Rightarrow> fix_message \<Rightarrow> decode_error + fix_message" where
  "decode_part raw (Single f) m =
     (case nnf_unpack (nf_type f) raw (nf_offset f) of Inl e \<Rightarrow> Inl e
      | Inr v \<Rightarrow> (case nnf_from_wire (nf_converter f) v of Inl e \<Rightarrow> Inl (Raised e)
          | Inr t \<Rightarrow> Inr (if t = [] then m else msg_set (nf_tag f) t m)))"
| "decode_part raw (ReservedRun offset width name) m = Inr m"
| "decode_part raw (FlagBits name offset width bits) m =
     (case nnf_need raw offset width of Some e \<Rightarrow> Inl (Bad e)
      | None \<Rightarrow> Inr (read_flags (slice raw offset width) bits m))"

subsection \<open>Headers and structures\<close>

record header_layout =
  hl_size :: nat
  hl_fields :: "layout_part list"
  hl_code :: nnf_field
  hl_length_tag :: "int option"

text \<open>The searches of the constructor stop with \<open>AttributeError\<close> at a part without a tag.\<close>

fun find_code_field :: "layout_part list \<Rightarrow> exn + nnf_field" where
  "find_code_field [] = Inl ValueError"
| "find_code_field (Single f # ps) = (if nf_tag f = 35 then Inr f else find_code_field ps)"
| "find_code_field (p # ps) = Inl AttributeError"

fun find_length_tag :: "layout_part list \<Rightarrow> exn + int option" where
  "find_length_tag [] = Inr None"
| "find_length_tag (p # ps) =
     (if part_name p = ''MessageLength''
      then (case p of Single f \<Rightarrow> Inr (Some (nf_tag f)) | _ \<Rightarrow> Inl AttributeError)
      else find_length_tag ps)"

definition make_header :: "nat \<Rightarrow> layout_part list \<Rightarrow> exn + header_layout" where
  "make_header sz parts =
     bind_exn (find_code_field parts) (\<lambda>code. bind_exn (find_length_tag parts) (\<lambda>len.
       Inr \<lparr>hl_size = sz, hl_fields = parts, hl_code = code, hl_length_tag = len\<rparr>))"

definition transaction_code :: "header_layout \<Rightarrow> bytes \<Rightarrow> decode_error + wire_value" where
  "transaction_code h raw = nnf_unpack (nf_type (hl_code h)) raw (nf_offset (hl_code h))"

record nnf_layout =
  nl_type :: string
  nl_name :: string
  nl_size :: nat
  nl_header :: header_layout
  nl_fields :: "layout_part list"

text \<open>A structure of fixed size, or the record of a download: a header around a whole message.\<close>

datatype nnf_structure = FixedLayout nnf_layout | RecordLayout string string header_layout int

fun structure_type :: "nnf_structure \<Rightarrow> string" where
  "structure_type (FixedLayout ly) = nl_type ly"
| "structure_type (RecordLayout t name h tag) = t"

definition body_size :: "nnf_layout \<Rightarrow> nat" where
  "body_size ly = Max (set (hl_size (nl_header ly) # map part_end (nl_fields ly)))"

datatype layout_fault = WrongSize nat nat | Overlap string string nat | Hole nat nat

fun first_overlap :: "layout_part list \<Rightarrow> (nat \<times> string) list \<Rightarrow> layout_fault option" where
  "first_overlap [] seen = None"
| "first_overlap (p # ps) seen =
     (case find (\<lambda>k. k \<in> fst ` set seen) [part_offset p ..< part_end p] of
        Some k \<Rightarrow> Some (Overlap (part_name p) (the (map_of seen k)) k)
      | None \<Rightarrow> first_overlap ps (map (\<lambda>k. (k, part_name p)) [part_offset p ..< part_end p] @ seen))"

definition covered :: "layout_part list \<Rightarrow> nat \<Rightarrow> bool" where
  "covered ps k \<longleftrightarrow> (\<exists>p \<in> set ps. part_offset p \<le> k \<and> k < part_end p)"

definition layout_check :: "nnf_layout \<Rightarrow> layout_fault option" where
  "layout_check ly =
     (if body_size ly \<noteq> nl_size ly then Some (WrongSize (nl_size ly) (body_size ly))
      else case first_overlap (nl_fields ly) [] of
        Some e \<Rightarrow> Some e
      | None \<Rightarrow>
         (case find (\<lambda>k. \<not> covered (nl_fields ly) k) [hl_size (nl_header ly) ..< body_size ly] of
            None \<Rightarrow> None
          | Some k \<Rightarrow> Some (Hole (length (takeWhile (\<lambda>j. \<not> covered (nl_fields ly) j) [k ..< body_size ly])) k)))"

fun structure_check :: "nnf_structure \<Rightarrow> layout_fault option" where
  "structure_check (FixedLayout ly) = layout_check ly"
| "structure_check (RecordLayout t name h tag) = None"

definition wrong_length :: "string \<Rightarrow> string \<Rightarrow> nat \<Rightarrow> string \<Rightarrow> decode_error" where
  "wrong_length name t len rest =
     Bad (Malformed (name @ '' ('' @ t @ '') is '' @ string_of_nat len @ '' bytes, '' @ rest))"

fun decode_structure :: "nnf_structure \<Rightarrow> bytes \<Rightarrow> decode_error + fix_message" where
  "decode_structure (FixedLayout ly) raw =
     (if length raw \<noteq> nl_size ly
      then Inl (wrong_length (nl_name ly) (nl_type ly) (length raw)
             (''not the '' @ string_of_nat (nl_size ly) @ '' its structure declares''))
      else (case fold_exn (decode_part raw) (hl_fields (nl_header ly)) (msg_create (nl_type ly)) of Inl e \<Rightarrow> Inl e
            | Inr m \<Rightarrow> fold_exn (decode_part raw) (nl_fields ly) m))"
| "decode_structure (RecordLayout t name h tag) raw =
     (if length raw < hl_size h
      then Inl (wrong_length name t (length raw) (''shorter than the '' @ string_of_nat (hl_size h) @ '' byte header it wraps''))
      else (case fold_exn (decode_part raw) (hl_fields h) (msg_create t) of Inl e \<Rightarrow> Inl e
            | Inr m \<Rightarrow> Inr (msg_set tag (drop (hl_size h) raw) m)))"

definition set_length :: "header_layout \<Rightarrow> nat \<Rightarrow> fix_message \<Rightarrow> fix_message" where
  "set_length h n m = (case hl_length_tag h of None \<Rightarrow> m | Some tag \<Rightarrow> msg_set tag (string_of_nat n) m)"

fun encode_structure :: "nnf_structure \<Rightarrow> fix_message \<Rightarrow> fix_message \<times> (exn + bytes)" where
  "encode_structure (FixedLayout ly) m0 =
     (let m = set_length (nl_header ly) (nl_size ly) m0 in
      (m, fold_exn (encode_part m) (hl_fields (nl_header ly) @ nl_fields ly) (replicate (nl_size ly) NUL)))"
| "encode_structure (RecordLayout t name h tag) m0 =
     (let body = (case msg_get m0 tag of None \<Rightarrow> [] | Some t \<Rightarrow> t);
          m = set_length h (hl_size h + length body) m0 in
      (m, bind_exn (fold_exn (encode_part m) (hl_fields h) (replicate (hl_size h) NUL)) (\<lambda>head. Inr (head @ body))))"

fun part_redacted :: "layout_part \<Rightarrow> (nat \<times> nat) list" where
  "part_redacted (Single f) = (if nf_redact f then [(nf_offset f, part_end (Single f))] else [])"
| "part_redacted p = []"

fun redacted_spans :: "nnf_structure \<Rightarrow> (nat \<times> nat) list" where
  "redacted_spans (FixedLayout ly) = concat (map part_redacted (hl_fields (nl_header ly) @ nl_fields ly))"
| "redacted_spans (RecordLayout t name h tag) = concat (map part_redacted (hl_fields h))"

subsection \<open>The dictionary of structures\<close>

record nnf_dictionary =
  nd_header :: header_layout
  nd_layouts :: "(string \<times> nnf_structure) list"

definition add_structure :: "nnf_structure \<Rightarrow> nnf_dictionary \<Rightarrow> exn + nnf_dictionary" where
  "add_structure s d =
     (if map_of (nd_layouts d) (structure_type s) \<noteq> None then Inl ValueError
      else Inr (d\<lparr>nd_layouts := nd_layouts d @ [(structure_type s, s)]\<rparr>))"

text \<open>The structures that \<open>define\<close> and \<open>define_record\<close> build.\<close>

definition fixed_structure :: "int \<Rightarrow> string \<Rightarrow> nat \<Rightarrow> layout_part list \<Rightarrow> header_layout \<Rightarrow> nnf_structure" where
  "fixed_structure code name sz parts h =
     FixedLayout \<lparr>nl_type = string_of_int code, nl_name = name, nl_size = sz, nl_header = h, nl_fields = parts\<rparr>"

definition record_structure :: "int \<Rightarrow> string \<Rightarrow> header_layout \<Rightarrow> int \<Rightarrow> nnf_structure" where
  "record_structure code name h tag = RecordLayout (string_of_int code) name h tag"

definition define_structure :: "int \<Rightarrow> string \<Rightarrow> nat \<Rightarrow> layout_part list \<Rightarrow> header_layout option \<Rightarrow> nnf_dictionary \<Rightarrow> exn + nnf_dictionary" where
  "define_structure code name sz parts header d =
     add_structure (fixed_structure code name sz parts (case header of None \<Rightarrow> nd_header d | Some h \<Rightarrow> h)) d"

definition define_record :: "int \<Rightarrow> string \<Rightarrow> int \<Rightarrow> nnf_dictionary \<Rightarrow> exn + nnf_dictionary" where
  "define_record code name tag d = add_structure (record_structure code name (nd_header d) tag) d"

definition structure_of :: "nnf_dictionary \<Rightarrow> string option \<Rightarrow> nnf_structure option" where
  "structure_of d t = (case t of None \<Rightarrow> map_of (nd_layouts d) ''None'' | Some s \<Rightarrow> map_of (nd_layouts d) s)"

subsection \<open>The codec\<close>

record nnf_codec =
  nx_layouts :: nnf_dictionary
  nx_cipher :: cipher

datatype packet_error = Crypto crypto_error | Decode decode_error

definition read_message :: "nnf_dictionary \<Rightarrow> bytes \<Rightarrow> decode_error + fix_message" where
  "read_message d data =
     (case transaction_code (nd_header d) data of Inl e \<Rightarrow> Inl e
      | Inr code \<Rightarrow>
         (case structure_of d (Some (value_text code)) of
            None \<Rightarrow> fold_exn (decode_part data) (hl_fields (nd_header d)) (msg_create (value_text code))
          | Some s \<Rightarrow> decode_structure s data))"

definition nnf_decode :: "nnf_codec \<Rightarrow> bytes \<Rightarrow> bool \<Rightarrow> nnf_codec \<times> (packet_error + fix_message)" where
  "nnf_decode c raw validate =
     (case unpack_prefix raw of Inl e \<Rightarrow> (c, Inl (Decode (Bad e)))
      | Inr prefix \<Rightarrow>
         (case cipher_open (nx_cipher c) (data_of raw) (if validate then Some (px_checksum prefix) else None) of
            (cipher', result) \<Rightarrow>
              (c\<lparr>nx_cipher := cipher'\<rparr>,
               (case result of Inl e \<Rightarrow> Inl (Crypto e)
                | Inr data \<Rightarrow>
                   (case read_message (nx_layouts c) data of Inl e \<Rightarrow> Inl (Decode e)
                    | Inr m \<Rightarrow> Inr (msg_set 34 (string_of_int (px_sequence prefix)) m))))))"

definition nnf_encode :: "nnf_codec \<Rightarrow> fix_message \<Rightarrow> nnf_codec \<times> fix_message \<times> (exn + bytes)" where
  "nnf_encode c m0 =
     (case structure_of (nx_layouts c) (msg_type_of m0) of None \<Rightarrow> (c, m0, Inl ValueError)
      | Some s \<Rightarrow>
         (case encode_structure s m0 of (m, result) \<Rightarrow>
           (case result of Inl e \<Rightarrow> (c, m, Inl e)
            | Inr plain \<Rightarrow>
               (case cipher_seal (nx_cipher c) plain of (cipher', data, checksum) \<Rightarrow>
                  (c\<lparr>nx_cipher := cipher'\<rparr>, m,
                   packet_pack data (case msg_seq_num m of None \<Rightarrow> 0 | Some n \<Rightarrow> n) (Some checksum))))))"

definition nnf_prepare :: "int \<Rightarrow> fix_message \<Rightarrow> fix_message" where
  "nnf_prepare seq m = msg_set 34 (string_of_int seq) m"

text \<open>The offsets in a packet that the hex dump strikes out.\<close>

definition redacted_offsets :: "nnf_dictionary \<Rightarrow> bytes \<Rightarrow> decode_error + nat set" where
  "redacted_offsets d data =
     (case transaction_code (nd_header d) data of
        Inl (Bad (Malformed t)) \<Rightarrow> Inr {}
      | Inl e \<Rightarrow> Inl e
      | Inr code \<Rightarrow>
         (case structure_of d (Some (value_text code)) of
            None \<Rightarrow> Inr {}
          | Some s \<Rightarrow> Inr (\<Union>(a, b) \<in> set (redacted_spans s). {a + prefix_bytes ..< b + prefix_bytes})))"

end
