(* ===== verification/Nnf_Layout_Facts.thy ===== *)
theory Nnf_Layout_Facts
  imports Nnf_Layout Binary_Claims
begin

section \<open>A message through a structure\<close>

text \<open>
  A structure that passes its check, whose header does too and whose tags differ, carries a
  message: each field reads back what its text says, each bit its flag. The proof follows
  the buffer: a part writes its own bytes and no others, so all of them are there at the end.
\<close>

subsection \<open>What a part carries\<close>

definition canonical :: "nnf_field \<Rightarrow> string \<Rightarrow> bool" where
  "canonical f t \<longleftrightarrow> t \<noteq> [] \<and>
     (case nnf_to_wire (nf_converter f) t of Inl _ \<Rightarrow> False
      | Inr v \<Rightarrow> nnf_fits (nf_type f) v \<and> nnf_from_wire (nf_converter f) v = Inr t)"

fun carries :: "fix_message \<Rightarrow> layout_part \<Rightarrow> bool" where
  "carries m (Single f) \<longleftrightarrow>
     (case msg_get m (nf_tag f) of
        Some t \<Rightarrow> canonical f t
      | None \<Rightarrow> nnf_fits (nf_type f) (nnf_default (nf_type f)) \<and> nf_converter f = default_converter (nf_type f))"
| "carries m (ReservedRun offset width name) \<longleftrightarrow> True"
| "carries m (FlagBits name offset width bits) \<longleftrightarrow> length bits = width * 8"

text \<open>What is read for a tag of a part: an absent number is zero, an absent text absent.\<close>

fun read_as :: "fix_message \<Rightarrow> layout_part \<Rightarrow> int \<Rightarrow> string option" where
  "read_as m (Single f) tag =
     (case msg_get m tag of Some t \<Rightarrow> Some t
      | None \<Rightarrow> (case nnf_default (nf_type f) of WText _ \<Rightarrow> None | WInt i \<Rightarrow> Some (string_of_int i)))"
| "read_as m (ReservedRun offset width name) tag = None"
| "read_as m (FlagBits name offset width bits) tag = Some (if msg_get m tag = Some ''Y'' then ''Y'' else ''N'')"

subsection \<open>Writing into the buffer\<close>

lemma length_write_at [simp]: "offset + length data \<le> length buffer \<Longrightarrow> length (write_at offset data buffer) = length buffer"
  by (simp add: write_at_def)

lemma slice_write_same: "offset + length data \<le> length buffer \<Longrightarrow> slice (write_at offset data buffer) offset (length data) = data"
  by (simp add: write_at_def slice_def)

lemma slice_write_other:
  assumes "offset + length data \<le> length buffer" and "i + n \<le> offset \<or> offset + length data \<le> i \<or> n = 0"
  shows "slice (write_at offset data buffer) i n = slice buffer i n"
proof -
  consider "i + n \<le> offset" | "offset + length data \<le> i" | "n = 0" using assms(2) by blast
  then show ?thesis
  proof cases
    case 1
    then have "take n (drop i (take offset buffer)) = take n (drop i buffer)" by (simp add: drop_take min_def)
    with 1 assms(1) show ?thesis by (simp add: write_at_def slice_def)
  next
    case 2
    then have "drop i (write_at offset data buffer) = drop i buffer"
      using assms(1) by (simp add: write_at_def)
    then show ?thesis by (simp add: slice_def)
  qed (simp add: slice_def)
qed

definition apart :: "layout_part \<Rightarrow> layout_part \<Rightarrow> bool" where
  "apart p q \<longleftrightarrow> {part_offset p ..< part_end p} \<inter> {part_offset q ..< part_end q} = {}"

lemma apart_cases: "apart p q \<Longrightarrow> part_offset q + part_width q \<le> part_offset p \<or> part_end p \<le> part_offset q \<or> part_width q = 0 \<or> part_width p = 0"
proof (rule ccontr)
  assume a: "apart p q" and n: "\<not> ?thesis"
  let ?k = "max (part_offset p) (part_offset q)"
  have "?k \<in> {part_offset p ..< part_end p}" "?k \<in> {part_offset q ..< part_end q}"
    using n by (auto simp: part_end_def max_def)
  with a show False by (auto simp: apart_def)
qed

fun part_bytes :: "fix_message \<Rightarrow> layout_part \<Rightarrow> bytes" where
  "part_bytes m (Single f) = (case field_bytes f m of Inr bs \<Rightarrow> bs | Inl _ \<Rightarrow> [])"
| "part_bytes m (ReservedRun offset width name) = replicate width NUL"
| "part_bytes m (FlagBits name offset width bits) = flag_bytes width bits m"

lemma length_flag_bytes [simp]: "length (flag_bytes width bits m) = width"
  by (simp add: flag_bytes_def)

lemma field_bytes_ok:
  assumes "carries m (Single f)"
  obtains bs v t where "field_bytes f m = Inr bs" "length bs = nnf_width (nf_type f)" "nnf_read (nf_type f) bs = Inr v"
    "nnf_from_wire (nf_converter f) v = Inr t" "(if t = [] then None else Some t) = read_as m (Single f) (nf_tag f)"
proof (cases "msg_get m (nf_tag f)")
  case (Some s)
  with assms have "canonical f s" by simp
  then obtain v where s: "s \<noteq> []" and w: "nnf_to_wire (nf_converter f) s = Inr v" "nnf_fits (nf_type f) v"
      "nnf_from_wire (nf_converter f) v = Inr s"
    by (auto simp: canonical_def split: sum.splits)
  obtain bs where b: "nnf_pack (nf_type f) v = Inr bs" "length bs = nnf_width (nf_type f)" "nnf_read (nf_type f) bs = Inr v"
    by (rule nnf_pack_reads_back [OF w(2)])
  have "field_bytes f m = Inr bs" by (simp add: field_bytes_def Some w(1) b(1))
  then show thesis using that [of bs v s] b w(3) s Some by simp
next
  case None
  with assms have d: "nnf_fits (nf_type f) (nnf_default (nf_type f))" "nf_converter f = default_converter (nf_type f)" by simp_all
  obtain bs where b: "nnf_pack (nf_type f) (nnf_default (nf_type f)) = Inr bs" "length bs = nnf_width (nf_type f)"
      "nnf_read (nf_type f) bs = Inr (nnf_default (nf_type f))"
    by (rule nnf_pack_reads_back [OF d(1)])
  have fb: "field_bytes f m = Inr bs" by (simp add: field_bytes_def None b(1))
  have "string_of_int 0 \<noteq> []" by code_simp
  then have "\<exists>t. nnf_from_wire (nf_converter f) (nnf_default (nf_type f)) = Inr t \<and>
      (if t = [] then None else Some t) = read_as m (Single f) (nf_tag f)"
    unfolding d(2) using None by (cases "nf_type f") simp_all
  then show thesis using that fb b by blast
qed

lemma encode_part_ok:
  assumes "carries m p" and "part_end p \<le> length buffer" and "slice buffer (part_offset p) (part_width p) = replicate (part_width p) NUL"
  obtains buffer' where "encode_part m p buffer = Inr buffer'" "length buffer' = length buffer"
    "slice buffer' (part_offset p) (part_width p) = part_bytes m p"
    "\<And>q. apart p q \<Longrightarrow> slice buffer' (part_offset q) (part_width q) = slice buffer (part_offset q) (part_width q)"
proof (cases p)
  case (Single f)
  obtain bs where b: "field_bytes f m = Inr bs" "length bs = nnf_width (nf_type f)"
    using field_bytes_ok assms(1) unfolding Single by metis
  let ?buf = "write_at (nf_offset f) bs buffer"
  have e: "nf_offset f + length bs \<le> length buffer" using assms(2) b(2) by (simp add: Single part_end_def)
  show thesis
  proof (rule that [of ?buf])
    show "slice ?buf (part_offset q) (part_width q) = slice buffer (part_offset q) (part_width q)" if "apart p q" for q
    proof (cases "part_width p = 0")
      case True
      then have "?buf = buffer" using b(2) by (simp add: Single write_at_def)
      then show ?thesis by simp
    next
      case False
      then show ?thesis using apart_cases [OF that] e b(2) by (intro slice_write_other) (auto simp: Single part_end_def)
    qed
  qed (use e b slice_write_same [OF e] in \<open>simp_all add: Single\<close>)
next
  case (ReservedRun offset width name)
  then show thesis using assms(3) by (intro that [of buffer]) simp_all
next
  case (FlagBits name offset width bits)
  let ?bs = "flag_bytes width bits m"
  let ?buf = "write_at offset ?bs buffer"
  have e: "offset + length ?bs \<le> length buffer" using assms(2) by (simp add: FlagBits part_end_def)
  show thesis
  proof (rule that [of ?buf])
    show "slice ?buf (part_offset q) (part_width q) = slice buffer (part_offset q) (part_width q)" if "apart p q" for q
    proof (cases "part_width p = 0")
      case True
      then have "?bs = []" using length_flag_bytes [of width bits m] by (simp add: FlagBits flip: length_0_conv)
      then have "?buf = buffer" by (simp add: write_at_def)
      then show ?thesis by simp
    next
      case False
      then show ?thesis using apart_cases [OF that] e by (intro slice_write_other) (auto simp: FlagBits part_end_def)
    qed
  qed (use e slice_write_same [OF e] in \<open>simp_all add: FlagBits\<close>)
qed

lemma encode_parts_ok:
  assumes "\<forall>p \<in> set ps. carries m p \<and> part_end p \<le> length buffer \<and>
      slice buffer (part_offset p) (part_width p) = replicate (part_width p) NUL"
    and "sorted_wrt apart ps"
  shows "\<exists>buffer'. fold_exn (encode_part m) ps buffer = Inr buffer' \<and> length buffer' = length buffer \<and>
    (\<forall>p \<in> set ps. slice buffer' (part_offset p) (part_width p) = part_bytes m p) \<and>
    (\<forall>q. (\<forall>p \<in> set ps. apart p q) \<longrightarrow> slice buffer' (part_offset q) (part_width q) = slice buffer (part_offset q) (part_width q))"
  using assms
proof (induction ps arbitrary: buffer)
  case (Cons p ps)
  then have c: "carries m p" "part_end p \<le> length buffer"
      "slice buffer (part_offset p) (part_width p) = replicate (part_width p) NUL" by simp_all
  obtain b1 where b1: "encode_part m p buffer = Inr b1" "length b1 = length buffer"
      "slice b1 (part_offset p) (part_width p) = part_bytes m p"
      "\<And>q. apart p q \<Longrightarrow> slice b1 (part_offset q) (part_width q) = slice buffer (part_offset q) (part_width q)"
    by (rule encode_part_ok [OF c]) blast
  have ap: "\<forall>q \<in> set ps. apart p q" using Cons.prems(2) by simp
  have "\<forall>q \<in> set ps. carries m q \<and> part_end q \<le> length b1 \<and> slice b1 (part_offset q) (part_width q) = replicate (part_width q) NUL"
    using Cons.prems(1) ap b1(2,4) by simp
  from Cons.IH [OF this] Cons.prems(2) obtain b2 where b2: "fold_exn (encode_part m) ps b1 = Inr b2" "length b2 = length b1"
      "\<forall>p \<in> set ps. slice b2 (part_offset p) (part_width p) = part_bytes m p"
      "\<forall>q. (\<forall>p \<in> set ps. apart p q) \<longrightarrow> slice b2 (part_offset q) (part_width q) = slice b1 (part_offset q) (part_width q)"
    by auto
  have "\<forall>q \<in> set ps. apart q p" using ap by (auto simp: apart_def)
  then have "slice b2 (part_offset p) (part_width p) = part_bytes m p" using b2(4) b1(3) by simp
  then show ?case using b1 b2 by (intro exI [of _ b2]) simp
qed simp

subsection \<open>Reading a part back\<close>

abbreviation put_flags :: "(nat \<Rightarrow> string) \<Rightarrow> nat \<Rightarrow> int option list \<Rightarrow> fix_message \<Rightarrow> fix_message" where
  "put_flags g k bits m \<equiv>
     fold (\<lambda>(index, tag) n. case tag of None \<Rightarrow> n | Some t \<Rightarrow> msg_set t (g index) n) (List.enumerate k bits) m"

lemma put_flags_other: "Some tag \<notin> set bits \<Longrightarrow> msg_get (put_flags g k bits m) tag = msg_get m tag"
  by (induction bits arbitrary: k m) (auto simp: msg_get_set split: option.split)

lemma map_filter_id: "set (List.map_filter id bits) = {t. Some t \<in> set bits}"
  by (induction bits) (auto simp: List.map_filter_simps split: option.split)

lemma put_flags_get:
  "distinct (List.map_filter id bits) \<Longrightarrow> j < length bits \<Longrightarrow> bits ! j = Some tag \<Longrightarrow>
    msg_get (put_flags g k bits m) tag = Some (g (k + j))"
proof (induction bits arbitrary: k m j)
  case (Cons b bits)
  show ?case
  proof (cases j)
    case 0
    then have b: "b = Some tag" using Cons.prems by simp
    then have "Some tag \<notin> set bits" using Cons.prems(1) map_filter_id [of bits, unfolded id_def] by (auto simp: List.map_filter_simps id_def)
    then show ?thesis by (simp add: b 0 put_flags_other msg_get_set)
  next
    case (Suc i)
    have "distinct (List.map_filter id bits)" using Cons.prems(1) by (auto simp: List.map_filter_simps id_def split: option.splits)
    from Cons.IH [OF this, of i "Suc k"] show ?thesis using Cons.prems(2,3) Suc by simp
  qed
qed simp

lemma flag_is_set_bytes:
  assumes "length bits = width * 8" and "i < length bits" and "bits ! i = Some tag"
  shows "flag_is_set (flag_bytes width bits m) i \<longleftrightarrow> msg_get m tag = Some ''Y''"
proof -
  let ?ps = "map fst (filter (\<lambda>(index, tag). case tag of None \<Rightarrow> False | Some t \<Rightarrow> msg_get m t = Some ''Y'') (List.enumerate 0 bits))"
  have w: "i div 8 < width" using assms(1,2) by (simp add: div_less_iff_less_mult)
  have z: "\<not> bit (of_char (replicate width NUL ! (i div 8)) :: nat) (7 - i mod 8)"
    using w by simp
  have "flag_is_set (flag_bytes width bits m) i \<longleftrightarrow> i div 8 * 8 + i mod 8 \<in> set ?ps"
    using fold_presence_bit [of "i div 8" "replicate width NUL" "i mod 8" ?ps] w z
    by (simp add: flag_is_set_def flag_bytes_def)
  also have "i div 8 * 8 + i mod 8 = i" by simp
  also have "i \<in> set ?ps \<longleftrightarrow> msg_get m tag = Some ''Y''"
    using assms(2,3) by (force simp: image_iff in_set_enumerate_eq)
  finally show ?thesis .
qed

lemma decode_part_ok:
  assumes c: "carries m p" and s: "slice raw (part_offset p) (part_width p) = part_bytes m p" and e: "part_end p \<le> length raw"
    and d: "distinct (part_tags p)"
  obtains n' where "decode_part raw p n = Inr n'"
    "\<And>tag. msg_get n' tag = (if tag \<in> set (part_tags p) \<and> read_as m p tag \<noteq> None then read_as m p tag else msg_get n tag)"
proof (cases p)
  case (Single f)
  obtain bs v t where b: "field_bytes f m = Inr bs" "length bs = nnf_width (nf_type f)" "nnf_read (nf_type f) bs = Inr v"
    "nnf_from_wire (nf_converter f) v = Inr t" "(if t = [] then None else Some t) = read_as m (Single f) (nf_tag f)"
    by (rule field_bytes_ok [OF c [unfolded Single]])
  have "nnf_unpack (nf_type f) raw (nf_offset f) = Inr v"
    using s e b(1,3) nnf_unpack_at [of raw "nf_offset f" "nf_type f" bs] by (simp add: Single part_end_def)
  then have "decode_part raw p n = Inr (if t = [] then n else msg_set (nf_tag f) t n)" by (simp add: Single b(4))
  moreover have "msg_get (if t = [] then n else msg_set (nf_tag f) t n) tag =
      (if tag \<in> set (part_tags p) \<and> read_as m p tag \<noteq> None then read_as m p tag else msg_get n tag)" for tag
  proof (cases "tag = nf_tag f")
    case True
    then show ?thesis unfolding Single True b(5) [symmetric] by (simp add: msg_get_set)
  next
    case False
    then show ?thesis by (simp add: Single msg_get_set)
  qed
  ultimately show thesis by (rule that)
next
  case (ReservedRun offset width name)
  then show thesis by (intro that [of n]) simp_all
next
  case (FlagBits name offset width bits)
  have l: "length bits = width * 8" using c by (simp add: FlagBits)
  let ?g = "\<lambda>i. if flag_is_set (flag_bytes width bits m) i then ''Y'' else ''N''"
  have "decode_part raw p n = Inr (put_flags ?g 0 bits n)"
    using s e by (simp add: FlagBits part_end_def nnf_need_def read_flags_def)
  moreover have "msg_get (put_flags ?g 0 bits n) tag =
      (if tag \<in> set (part_tags p) \<and> read_as m p tag \<noteq> None then read_as m p tag else msg_get n tag)" for tag
  proof (cases "Some tag \<in> set bits")
    case True
    then obtain i where i: "i < length bits" "bits ! i = Some tag" by (auto simp: in_set_conv_nth)
    have "msg_get (put_flags ?g 0 bits n) tag = Some (?g i)" using put_flags_get [of bits i tag ?g 0 n] d i by (simp add: FlagBits)
    then show ?thesis using True flag_is_set_bytes [OF l i] map_filter_id [of bits] by (simp add: FlagBits)
  next
    case False
    then show ?thesis using map_filter_id [of bits] by (simp add: FlagBits put_flags_other)
  qed
  ultimately show thesis by (rule that)
qed

lemma decode_parts_ok:
  assumes "\<forall>p \<in> set ps. carries m p \<and> slice raw (part_offset p) (part_width p) = part_bytes m p \<and> part_end p \<le> length raw"
    and "distinct (concat (map part_tags ps))"
  shows "\<exists>n'. fold_exn (decode_part raw) ps n = Inr n' \<and>
    (\<forall>p \<in> set ps. \<forall>tag \<in> set (part_tags p). msg_get n' tag = (if read_as m p tag \<noteq> None then read_as m p tag else msg_get n tag)) \<and>
    (\<forall>tag. tag \<notin> set (concat (map part_tags ps)) \<longrightarrow> msg_get n' tag = msg_get n tag)"
  using assms
proof (induction ps arbitrary: n)
  case (Cons p ps)
  have d: "distinct (part_tags p)" "distinct (concat (map part_tags ps))" "set (part_tags p) \<inter> set (concat (map part_tags ps)) = {}"
    using Cons.prems(2) by auto
  obtain n1 where n1: "decode_part raw p n = Inr n1"
    "\<And>tag. msg_get n1 tag = (if tag \<in> set (part_tags p) \<and> read_as m p tag \<noteq> None then read_as m p tag else msg_get n tag)"
    by (rule decode_part_ok [of m p raw n]) (use Cons.prems(1) d(1) in auto)
  obtain n2 where n2: "fold_exn (decode_part raw) ps n1 = Inr n2"
    "\<forall>p \<in> set ps. \<forall>tag \<in> set (part_tags p). msg_get n2 tag = (if read_as m p tag \<noteq> None then read_as m p tag else msg_get n1 tag)"
    "\<forall>tag. tag \<notin> set (concat (map part_tags ps)) \<longrightarrow> msg_get n2 tag = msg_get n1 tag"
    using Cons.IH [of n1] Cons.prems(1) d(2) by auto
  have "msg_get n2 tag = (if read_as m p tag \<noteq> None then read_as m p tag else msg_get n tag)" if "tag \<in> set (part_tags p)" for tag
  proof -
    have "tag \<notin> set (concat (map part_tags ps))" using that d(3) by blast
    then have "msg_get n2 tag = msg_get n1 tag" using n2(3) by blast
    then show ?thesis using that by (simp add: n1(2))
  qed
  moreover have "msg_get n2 tag = (if read_as m q tag \<noteq> None then read_as m q tag else msg_get n tag)"
    if "q \<in> set ps" "tag \<in> set (part_tags q)" for q tag
  proof -
    have "tag \<notin> set (part_tags p)" using that d(3) by auto
    then show ?thesis using n2(2) that n1(2) by auto
  qed
  moreover have "msg_get n2 tag = msg_get n tag" if "tag \<notin> set (concat (map part_tags (p # ps)))" for tag
    using that n1(2) n2(3) by simp
  ultimately show ?case using n1(1) n2(1) by (intro exI [of _ n2]) simp
qed simp

subsection \<open>A sound structure\<close>

definition all_parts :: "nnf_layout \<Rightarrow> layout_part list" where
  "all_parts ly = hl_fields (nl_header ly) @ nl_fields ly"

text \<open>The check of the structure, and the same for its header.\<close>

definition structure_sound :: "nnf_layout \<Rightarrow> bool" where
  "structure_sound ly \<longleftrightarrow>
     layout_check ly = None \<and> first_overlap (all_parts ly) [] = None \<and>
     (\<forall>p \<in> set (hl_fields (nl_header ly)). part_end p \<le> hl_size (nl_header ly)) \<and>
     distinct (concat (map part_tags (all_parts ly)))"

lemma first_overlap_apart:
  "first_overlap ps seen = None \<Longrightarrow>
    sorted_wrt apart ps \<and> (\<forall>p \<in> set ps. \<forall>k. part_offset p \<le> k \<longrightarrow> k < part_end p \<longrightarrow> k \<notin> fst ` set seen)"
proof (induction ps arbitrary: seen)
  case (Cons p ps)
  let ?seen = "map (\<lambda>k. (k, part_name p)) [part_offset p ..< part_end p] @ seen"
  have n: "find (\<lambda>k. k \<in> fst ` set seen) [part_offset p ..< part_end p] = None" and r: "first_overlap ps ?seen = None"
    using Cons.prems by (auto split: option.splits)
  have fs: "fst ` set ?seen = {part_offset p ..< part_end p} \<union> fst ` set seen" by force
  note ih = Cons.IH [OF r, unfolded fs]
  have "\<forall>k. part_offset p \<le> k \<longrightarrow> k < part_end p \<longrightarrow> k \<notin> fst ` set seen" using n by (auto simp: find_None_iff)
  moreover have "\<forall>q \<in> set ps. apart p q" unfolding apart_def disjoint_iff using ih by (auto simp only: atLeastLessThan_iff Un_iff)
  ultimately show ?case using ih by auto
qed simp

lemma sound_parts:
  assumes "structure_sound ly"
  shows "sorted_wrt apart (all_parts ly)" and "\<forall>p \<in> set (all_parts ly). part_end p \<le> nl_size ly"
    and "distinct (concat (map part_tags (all_parts ly)))"
proof -
  show "sorted_wrt apart (all_parts ly)" "distinct (concat (map part_tags (all_parts ly)))"
    using assms first_overlap_apart [of "all_parts ly" "[]"] by (simp_all add: structure_sound_def)
  have b: "body_size ly = nl_size ly" using assms by (auto simp: structure_sound_def layout_check_def split: if_splits)
  have x: "y \<le> nl_size ly" if "y \<in> set (hl_size (nl_header ly) # map part_end (nl_fields ly))" for y
    unfolding b [symmetric] body_size_def by (rule Max_ge [OF _ that]) simp
  show "\<forall>p \<in> set (all_parts ly). part_end p \<le> nl_size ly"
  proof
    fix p assume "p \<in> set (all_parts ly)"
    then consider "p \<in> set (nl_fields ly)" | "p \<in> set (hl_fields (nl_header ly))" by (auto simp: all_parts_def)
    then show "part_end p \<le> nl_size ly"
    proof cases
      case 2
      then have "part_end p \<le> hl_size (nl_header ly)" using assms by (simp add: structure_sound_def)
      then show ?thesis using x [of "hl_size (nl_header ly)"] by simp
    qed (use x in simp)
  qed
qed

lemma slice_blank: "i + n \<le> k \<Longrightarrow> slice (replicate k c) i n = replicate n c"
  by (simp add: slice_def)

lemma structure_round_trip:
  assumes sound: "structure_sound ly" and m: "m = set_length (nl_header ly) (nl_size ly) m0"
    and c: "\<forall>p \<in> set (all_parts ly). carries m p"
  obtains raw m' where "encode_structure (FixedLayout ly) m0 = (m, Inr raw)" "length raw = nl_size ly"
    "decode_structure (FixedLayout ly) raw = Inr m'"
    "\<forall>p \<in> set (all_parts ly). \<forall>tag \<in> set (part_tags p). msg_get m' tag =
       (if read_as m p tag \<noteq> None then read_as m p tag else msg_get (msg_create (nl_type ly)) tag)"
proof -
  note sp = sound_parts [OF sound]
  let ?z = "replicate (nl_size ly) NUL"
  have "\<forall>p \<in> set (all_parts ly). carries m p \<and> part_end p \<le> length ?z \<and>
      slice ?z (part_offset p) (part_width p) = replicate (part_width p) NUL"
    using c sp(2) by (auto simp: part_end_def slice_blank)
  from encode_parts_ok [OF this sp(1)] obtain raw where raw: "fold_exn (encode_part m) (all_parts ly) ?z = Inr raw"
      "length raw = nl_size ly" "\<forall>p \<in> set (all_parts ly). slice raw (part_offset p) (part_width p) = part_bytes m p"
    by auto
  have "\<forall>p \<in> set (all_parts ly). carries m p \<and> slice raw (part_offset p) (part_width p) = part_bytes m p \<and> part_end p \<le> length raw"
    using c sp(2) raw(2,3) by simp
  from decode_parts_ok [OF this sp(3), of "msg_create (nl_type ly)"] obtain m' where
    m': "fold_exn (decode_part raw) (all_parts ly) (msg_create (nl_type ly)) = Inr m'"
      "\<forall>p \<in> set (all_parts ly). \<forall>tag \<in> set (part_tags p). msg_get m' tag =
         (if read_as m p tag \<noteq> None then read_as m p tag else msg_get (msg_create (nl_type ly)) tag)"
    by blast
  have "encode_structure (FixedLayout ly) m0 = (m, Inr raw)"
    using raw(1) by (simp add: m all_parts_def Let_def)
  moreover have "decode_structure (FixedLayout ly) raw = Inr m'"
    using m'(1) raw(2) by (simp add: all_parts_def fold_exn_append)
  ultimately show thesis using that raw(2) m'(2) by blast
qed

end
