(* ===== verification/Nnf_Channel.thy ===== *)
theory Nnf_Channel
  imports Nnf_Crypto
begin

section \<open>What the ciphers promise\<close>

text \<open>
  Both ends of a connection keep one cipher object that they use in both directions. The
  contract is a locale: what one end seals, the other opens to the same bytes, and sealing
  one's own messages in between disturbs nothing. The clear, the continuous and the
  authenticated cipher each provide it, so whatever the order in which the two ends seal and
  open, every message arrives as it was sent. The keystream is shown to be one sequence of
  bytes that does not depend on where messages end.
\<close>

subsection \<open>The keystream\<close>

lemma length_encrypt_block [simp]: "length (encrypt_block keys block) = 16"
  by (simp add: encrypt_block_def bytes_out_def encrypt_words_def add_round_key_def)

lemma length_keystream_block [simp]: "length (keystream_block g counter index) = 16"
  by (simp add: keystream_block_def)

definition keystream_byte :: "gcm \<Rightarrow> 128 word \<Rightarrow> nat \<Rightarrow> char" where
  "keystream_byte g counter i = keystream_block g counter (i div 16) ! (i mod 16)"

lemma keystream_piece:
  assumes "position mod 16 + count \<le> 16"
  shows "take count (drop (position mod 16) (keystream_block g counter (position div 16))) =
    map (keystream_byte g counter) [position ..< position + count]"
proof (rule nth_equalityI)
  show "length (take count (drop (position mod 16) (keystream_block g counter (position div 16)))) =
      length (map (keystream_byte g counter) [position ..< position + count])"
    using assms by simp
next
  fix i assume "i < length (take count (drop (position mod 16) (keystream_block g counter (position div 16))))"
  then have i: "i < count" "position mod 16 + i < 16" using assms by auto
  have e: "position + i = (position mod 16 + i) + 16 * (position div 16)" by simp
  have "((position mod 16 + i) + 16 * (position div 16)) div 16 = position div 16"
    using i(2) by (subst div_mult_self2) simp_all
  moreover have "((position mod 16 + i) + 16 * (position div 16)) mod 16 = position mod 16 + i"
    using i(2) by (subst mod_mult_self2) simp
  ultimately have "(position + i) div 16 = position div 16" "(position + i) mod 16 = position mod 16 + i"
    by (simp_all only: e [symmetric])
  then show "take count (drop (position mod 16) (keystream_block g counter (position div 16))) ! i =
      map (keystream_byte g counter) [position ..< position + count] ! i"
    using i by (simp add: keystream_byte_def)
qed

lemma keystream_bytes: "keystream g counter position n = map (keystream_byte g counter) [position ..< position + n]"
proof (induction g counter position n rule: keystream.induct)
  case (1 g counter position n)
  show ?case
  proof (cases "n = 0")
    case False
    let ?c = "min (16 - position mod 16) n"
    have "position mod 16 + ?c \<le> 16" by simp
    note piece = keystream_piece [OF this, of g counter]
    have "keystream g counter position n =
        map (keystream_byte g counter) [position ..< position + ?c] @
        map (keystream_byte g counter) [position + ?c ..< position + n]"
      using 1 [OF False refl refl refl] False
      by (subst keystream.simps) (simp only: Let_def if_False piece, simp)
    also have "\<dots> = map (keystream_byte g counter) [position ..< position + n]"
    proof -
      have "[position ..< position + n] = [position ..< position + ?c] @ [position + ?c ..< position + n]"
        using upt_add_eq_append [of position "position + ?c" "n - ?c"] by simp
      then show ?thesis by (simp only: map_append)
    qed
    finally show ?thesis .
  qed (simp add: keystream.simps)
qed

lemma length_keystream [simp]: "length (keystream g counter position n) = n"
  by (simp add: keystream_bytes)

lemma xor_char_twice [simp]: "xor_char (xor_char a b) b = a"
proof -
  have m: "n mod 256 = take_bit 8 n" for n :: nat by (simp add: take_bit_eq_mod)
  have t: "take_bit 8 (of_char c :: nat) = of_char c" for c by (simp flip: m)
  have "((of_char a XOR of_char b) mod 256 XOR of_char b) mod 256 = (of_char a :: nat)"
    unfolding m by (simp add: take_bit_xor t xor.assoc)
  then have "(of_char (xor_char (xor_char a b) b) :: nat) = of_char a" by (simp add: xor_char_def)
  then show ?thesis by (simp only: of_char_eq_iff)
qed

lemma length_apply_keystream [simp]: "length (apply_keystream g counter data skip) = length data"
  by (simp add: apply_keystream_def)

lemma apply_keystream_twice [simp]: "apply_keystream g counter (apply_keystream g counter data skip) skip = data"
proof -
  have "map2 xor_char (map2 xor_char a b) b = a" if "length a = length b" for a b
    using that by (induction a b rule: list_induct2) simp_all
  then show ?thesis by (simp add: apply_keystream_def)
qed

lemma apply_keystream_append:
  "apply_keystream g counter (a @ b) skip = apply_keystream g counter a skip @ apply_keystream g counter b (skip + length a)"
proof -
  have "[skip ..< skip + (length a + length b)] = [skip ..< skip + length a] @ [skip + length a ..< skip + length a + length b]"
    using upt_add_eq_append [of skip "skip + length a" "length b"] by (simp add: add.assoc)
  then have "keystream g counter skip (length (a @ b)) =
      keystream g counter skip (length a) @ keystream g counter (skip + length a) (length b)"
    by (simp add: keystream_bytes)
  then show ?thesis by (simp add: apply_keystream_def)
qed

subsection \<open>The comparison and the authenticated mode\<close>

lemma or_fold_zero:
  "fold (\<lambda>(a, b) difference. difference OR ((of_char a :: nat) XOR of_char b)) ps d = 0 \<longleftrightarrow> d = 0 \<and> (\<forall>(a, b) \<in> set ps. a = b)"
proof (induction ps arbitrary: d)
  case (Cons p ps)
  obtain a b where p: "p = (a, b)" by force
  have "d OR (of_char a XOR of_char b) = 0 \<longleftrightarrow> d = 0 \<and> (of_char a :: nat) = of_char b"
    by (auto simp: bit_eq_iff bit_or_iff bit_xor_iff)
  then show ?case by (simp add: p Cons)
qed simp

lemma equal_bytes_iff [simp]: "equal_bytes l r \<longleftrightarrow> l = r"
proof -
  have "length l = length r \<Longrightarrow> (\<forall>(a, b) \<in> set (zip l r). a = b) \<longleftrightarrow> l = r"
    by (induction l r rule: list_induct2) auto
  then show ?thesis unfolding equal_bytes_def or_fold_zero by auto
qed

lemma gcm_decrypt_encrypt: "gcm_encrypt g iv m aad = (d, t) \<Longrightarrow> gcm_decrypt g iv d t aad = Inr m"
  by (auto simp: gcm_encrypt_def gcm_decrypt_def Let_def)

subsection \<open>The contract\<close>

text \<open>
  Messages under way from \<open>a\<close> to \<open>b\<close>, each with the bytes it must open to; when all are
  opened the two are \<open>linked\<close>.
\<close>

fun in_flight :: "('c \<Rightarrow> bytes \<Rightarrow> bytes option \<Rightarrow> 'c \<times> (crypto_error + bytes)) \<Rightarrow> ('c \<Rightarrow> 'c \<Rightarrow> bool) \<Rightarrow>
    'c \<Rightarrow> ((bytes \<times> bytes) \<times> bytes) list \<Rightarrow> 'c \<Rightarrow> bool" where
  "in_flight opn linked a [] b \<longleftrightarrow> linked a b"
| "in_flight opn linked a (((d, t), m) # q) b \<longleftrightarrow>
     (case opn b d (Some t) of (b', r) \<Rightarrow> r = Inr m \<and> in_flight opn linked a q b')"

locale duplex_cipher =
  fixes seal :: "'c \<Rightarrow> bytes \<Rightarrow> 'c \<times> bytes \<times> bytes"
    and opn :: "'c \<Rightarrow> bytes \<Rightarrow> bytes option \<Rightarrow> 'c \<times> (crypto_error + bytes)"
    and ready :: "'c \<Rightarrow> bool"
    and linked :: "'c \<Rightarrow> 'c \<Rightarrow> bool"
  assumes sealed_opens: "linked a b \<Longrightarrow> seal a m = (a', d, t) \<Longrightarrow> \<exists>b'. opn b d (Some t) = (b', Inr m) \<and> linked a' b'"
    and seal_ready: "ready b \<Longrightarrow> ready (fst (seal b m))"
    and open_ready: "ready b \<Longrightarrow> ready (fst (opn b d c))"
    and seal_linked: "linked a b \<Longrightarrow> linked a (fst (seal b m))"
    and open_linked: "linked a b \<Longrightarrow> linked (fst (opn a d c)) b"
    and seal_open: "ready b \<Longrightarrow> opn (fst (seal b m)) d c = (fst (seal (fst (opn b d c)) m), snd (opn b d c))"
begin

abbreviation flight :: "'c \<Rightarrow> ((bytes \<times> bytes) \<times> bytes) list \<Rightarrow> 'c \<Rightarrow> bool" where
  "flight \<equiv> in_flight opn linked"

lemma sender_seals:
  "flight a q b \<Longrightarrow> seal a m = (a', d, t) \<Longrightarrow> flight a' (q @ [((d, t), m)]) b"
proof (induction q arbitrary: b)
  case Nil
  then obtain b' where "opn b d (Some t) = (b', Inr m)" "linked a' b'"
    using sealed_opens [of a b m a' d t] by auto
  then show ?case by simp
next
  case (Cons e q)
  obtain d1 t1 m1 where e: "e = ((d1, t1), m1)" by (metis prod.collapse)
  obtain b1 r where o1: "opn b d1 (Some t1) = (b1, r)" by force
  with Cons.prems have "r = Inr m1" "flight a q b1" by (simp_all add: e)
  with Cons.IH [of b1] Cons.prems(2) o1 show ?case by (simp add: e)
qed

lemma receiver_seals:
  "ready b \<Longrightarrow> flight a q b \<Longrightarrow> flight a q (fst (seal b m))"
proof (induction q arbitrary: b)
  case Nil
  then show ?case by (simp add: seal_linked)
next
  case (Cons e q)
  obtain d t m1 where e: "e = ((d, t), m1)" by (metis prod.collapse)
  obtain b1 r where o1: "opn b d (Some t) = (b1, r)" by force
  with Cons.prems have r: "r = Inr m1" "flight a q b1" by (simp_all add: e)
  have "ready b1" using open_ready [OF Cons.prems(1), of d "Some t"] o1 by simp
  with Cons.IH r have "flight a q (fst (seal b1 m))" by blast
  moreover have "opn (fst (seal b m)) d (Some t) = (fst (seal b1 m), r)"
    using seal_open [OF Cons.prems(1), of m d "Some t"] o1 by simp
  ultimately show ?case using r by (simp add: e)
qed

lemma sender_opens: "flight a q b \<Longrightarrow> flight (fst (opn a d t)) q b"
proof (induction q arbitrary: b)
  case Nil
  then show ?case by (simp add: open_linked)
next
  case (Cons e q)
  obtain d1 t1 m1 where e: "e = ((d1, t1), m1)" by (metis prod.collapse)
  obtain b1 r where o1: "opn b d1 (Some t1) = (b1, r)" by force
  with Cons show ?case by (simp add: e)
qed

lemma head_opens:
  "flight a (((d, t), m) # q) b \<Longrightarrow> snd (opn b d (Some t)) = Inr m \<and> flight a q (fst (opn b d (Some t)))"
  by (auto split: prod.splits)

end

subsection \<open>Each cipher provides it\<close>

definition existing_linked :: "existing_cipher \<Rightarrow> existing_cipher \<Rightarrow> bool" where
  "existing_linked a b \<longleftrightarrow> ec_gcm a = ec_gcm b \<and> ec_counter a = ec_counter b \<and> ec_sent a = ec_received b"

interpretation existing_duplex: duplex_cipher existing_seal existing_open "\<lambda>c. True" existing_linked
  by unfold_locales (auto simp: existing_linked_def existing_seal_def existing_open_def Let_def)

definition new_settled :: "new_cipher \<Rightarrow> bool" where
  "new_settled c \<longleftrightarrow> nc_candidates c = None"

definition new_linked :: "new_cipher \<Rightarrow> new_cipher \<Rightarrow> bool" where
  "new_linked a b \<longleftrightarrow> new_settled a \<and> new_settled b \<and> nc_gcm a = nc_gcm b \<and> nc_aad a = nc_aad b \<and>
     nc_static a = nc_static b \<and> nc_dynamic a = nc_dynamic b \<and> nc_endian a = nc_endian b \<and>
     nc_sent a = nc_received b \<and> nc_send_step a = - nc_send_step b"

lemma step_iv_cong:
  "nc_static a = nc_static b \<Longrightarrow> nc_dynamic a = nc_dynamic b \<Longrightarrow> step_iv a i e = step_iv b i e"
  by (cases e) (simp_all add: step_iv_def)

lemma step_iv_update [simp]:
  "step_iv (c\<lparr>nc_sent := n\<rparr>) i e = step_iv c i e" "step_iv (c\<lparr>nc_received := n\<rparr>) i e = step_iv c i e"
  "step_iv (c\<lparr>nc_candidates := x, nc_endian := y\<rparr>) i e = step_iv c i e"
  by (rule step_iv_cong; simp)+

lemma new_seal_settled:
  "new_settled c \<Longrightarrow> new_seal c m =
    (c\<lparr>nc_sent := nc_sent c + nc_send_step c\<rparr>,
     gcm_encrypt (nc_gcm c) (step_iv c (nc_sent c + nc_send_step c) (nc_endian c)) m (nc_aad c))"
  by (simp add: new_seal_def new_settled_def settle_def Let_def)

lemma new_open_settled:
  "new_settled c \<Longrightarrow> new_open c d (Some t) =
    (c\<lparr>nc_received := nc_received c - nc_send_step c\<rparr>,
     gcm_decrypt (nc_gcm c) (step_iv c (nc_received c - nc_send_step c) (nc_endian c)) d t (nc_aad c))"
  by (simp add: new_open_def new_settled_def Let_def)

lemma new_open_fst:
  "new_settled c \<Longrightarrow> \<exists>n. fst (new_open c d t) = c\<lparr>nc_received := n\<rparr>"
proof (cases t)
  case None
  then have "fst (new_open c d t) = c\<lparr>nc_received := nc_received c\<rparr>" by (simp add: new_open_def)
  then show ?thesis by blast
next
  case (Some x)
  assume "new_settled c"
  with Some show ?thesis by (auto simp: new_open_settled)
qed

lemma new_seal_open:
  assumes "new_settled b"
  shows "new_open (fst (new_seal b m)) d t = (fst (new_seal (fst (new_open b d t)) m), snd (new_open b d t))"
proof (cases t)
  case None
  then show ?thesis by (simp add: new_open_def)
next
  case (Some x)
  have s: "new_settled (b\<lparr>nc_sent := i\<rparr>)" "new_settled (b\<lparr>nc_received := i\<rparr>)" for i
    using assms by (simp_all add: new_settled_def)
  show ?thesis
    by (simp add: Some new_open_settled [OF assms] new_seal_settled [OF assms] new_open_settled [OF s(1)] new_seal_settled [OF s(2)])
qed

lemma new_sealed_opens:
  assumes "new_linked a b" and "new_seal a m = (a', d, t)"
  shows "\<exists>b'. new_open b d (Some t) = (b', Inr m) \<and> new_linked a' b'"
proof -
  have s: "new_settled a" "new_settled b" using assms(1) by (simp_all add: new_linked_def)
  let ?iv = "step_iv b (nc_received b - nc_send_step b) (nc_endian b)"
  have "step_iv a (nc_sent a + nc_send_step a) (nc_endian a) = ?iv"
    using assms(1) step_iv_cong [of a b] by (simp add: new_linked_def)
  then have a: "a' = a\<lparr>nc_sent := nc_sent a + nc_send_step a\<rparr>" "gcm_encrypt (nc_gcm b) ?iv m (nc_aad b) = (d, t)"
    using assms new_seal_settled [OF s(1), of m] by (simp_all add: new_linked_def)
  show ?thesis
    using assms(1) new_open_settled [OF s(2), of d t] gcm_decrypt_encrypt [OF a(2)]
    by (simp add: a(1) new_linked_def new_settled_def)
qed

interpretation new_duplex: duplex_cipher new_seal new_open new_settled new_linked
proof unfold_locales
  show "new_linked a b \<Longrightarrow> new_seal a m = (a', d, t) \<Longrightarrow> \<exists>b'. new_open b d (Some t) = (b', Inr m) \<and> new_linked a' b'" for a b m a' d t
    by (rule new_sealed_opens)
  show "new_settled b \<Longrightarrow> new_settled (fst (new_seal b m))" for b m by (simp add: new_seal_settled) (simp add: new_settled_def)
  show "new_settled b \<Longrightarrow> new_settled (fst (new_open b d t))" for b d t
    using new_open_fst [of b d t] by (auto simp: new_settled_def)
  show "new_linked a b \<Longrightarrow> new_linked a (fst (new_seal b m))" for a b m
    using new_seal_settled [of b m] by (simp add: new_linked_def new_settled_def)
  show "new_linked a b \<Longrightarrow> new_linked (fst (new_open a d t)) b" for a b d t
    using new_open_fst [of a d t] by (auto simp: new_linked_def new_settled_def)
  show "new_settled b \<Longrightarrow> new_open (fst (new_seal b m)) d t = (fst (new_seal (fst (new_open b d t)) m), snd (new_open b d t))" for b m d t
    by (rule new_seal_open)
qed

fun cipher_ready :: "cipher \<Rightarrow> bool" where
  "cipher_ready (NewCipher c) \<longleftrightarrow> new_settled c"
| "cipher_ready c \<longleftrightarrow> True"

fun cipher_linked :: "cipher \<Rightarrow> cipher \<Rightarrow> bool" where
  "cipher_linked PlainCipher PlainCipher \<longleftrightarrow> True"
| "cipher_linked (ExistingCipher a) (ExistingCipher b) \<longleftrightarrow> existing_linked a b"
| "cipher_linked (NewCipher a) (NewCipher b) \<longleftrightarrow> new_linked a b"
| "cipher_linked a b \<longleftrightarrow> False"

interpretation cipher_duplex: duplex_cipher cipher_seal cipher_open cipher_ready cipher_linked
proof unfold_locales
  fix a b a' :: cipher and m d t
  assume l: "cipher_linked a b" and s: "cipher_seal a m = (a', d, t)"
  show "\<exists>b'. cipher_open b d (Some t) = (b', Inr m) \<and> cipher_linked a' b'"
    using l s
  proof (induction a b rule: cipher_linked.induct)
    case (2 a b)
    then obtain x where "existing_seal a m = (x, d, t)" "a' = ExistingCipher x" by (auto simp: map_prod_def split: prod.splits)
    with 2 existing_duplex.sealed_opens [of a b m x d t] show ?case by auto
  next
    case (3 a b)
    then obtain x where "new_seal a m = (x, d, t)" "a' = NewCipher x" by (auto simp: map_prod_def split: prod.splits)
    with 3 new_duplex.sealed_opens [of a b m x d t] show ?case by auto
  qed (auto simp: plain_open_def)
next
  fix a b :: cipher and m d and t :: "bytes option"
  show "cipher_ready b \<Longrightarrow> cipher_ready (fst (cipher_seal b m))"
    by (cases b) (simp_all add: new_duplex.seal_ready)
  show "cipher_ready b \<Longrightarrow> cipher_ready (fst (cipher_open b d t))"
    by (cases b) (simp_all add: new_duplex.open_ready)
  show "cipher_linked a b \<Longrightarrow> cipher_linked a (fst (cipher_seal b m))"
    by (induction a b rule: cipher_linked.induct) (simp_all add: new_duplex.seal_linked existing_duplex.seal_linked)
  show "cipher_linked a b \<Longrightarrow> cipher_linked (fst (cipher_open a d t)) b"
    by (induction a b rule: cipher_linked.induct) (simp_all add: new_duplex.open_linked existing_duplex.open_linked)
  show "cipher_ready b \<Longrightarrow> cipher_open (fst (cipher_seal b m)) d t = (fst (cipher_seal (fst (cipher_open b d t)) m), snd (cipher_open b d t))"
    by (cases b) (simp_all add: new_duplex.seal_open existing_duplex.seal_open)
qed

end
