(* ===== verification/Nnf_Conversation.thy ===== *)
theory Nnf_Conversation
  imports Nnf_Channel
begin

section \<open>A conversation between a member and the exchange\<close>

text \<open>
  Two ends that built their ciphers from the same key material seal and open in any order;
  the bytes under way form a queue in each direction. The theory shows that every message
  opens to what was sealed, that the continuous cipher is one keystream over all messages,
  that no initialisation vector is used twice, and what detecting a layout yields.
\<close>

datatype material =
    ClearMaterial
  | ExistingMaterial bytes bytes
  | NewMaterial bytes bytes bytes endian

text \<open>The cipher of an end of the connection; the flag is \<open>client\<close>.\<close>

fun cipher_of :: "bool \<Rightarrow> material \<Rightarrow> exn + cipher" where
  "cipher_of client ClearMaterial = Inr PlainCipher"
| "cipher_of client (ExistingMaterial key iv) = map_sum id ExistingCipher (make_existing key iv)"
| "cipher_of client (NewMaterial key iv aad layout) = map_sum id NewCipher (make_new key iv aad client (Some layout))"

type_synonym under_way = "((bytes \<times> bytes) \<times> bytes) list"

inductive conversation :: "material \<Rightarrow> cipher \<Rightarrow> cipher \<Rightarrow> under_way \<Rightarrow> under_way \<Rightarrow> bool"
  for k :: material where
  opened: "cipher_of True k = Inr member \<Longrightarrow> cipher_of False k = Inr exchange \<Longrightarrow> conversation k member exchange [] []"
| member_seals: "conversation k member exchange up down \<Longrightarrow> cipher_seal member data = (member', sealed) \<Longrightarrow>
    conversation k member' exchange (up @ [(sealed, data)]) down"
| exchange_seals: "conversation k member exchange up down \<Longrightarrow> cipher_seal exchange data = (exchange', sealed) \<Longrightarrow>
    conversation k member exchange' up (down @ [(sealed, data)])"
| exchange_opens: "conversation k member exchange (((bs, tag), data) # up) down \<Longrightarrow>
    conversation k member (fst (cipher_open exchange bs (Some tag))) up down"
| member_opens: "conversation k member exchange up (((bs, tag), data) # down) \<Longrightarrow>
    conversation k (fst (cipher_open member bs (Some tag))) exchange up down"

inductive_cases conversation_cases: "conversation k member exchange up down"

abbreviation flying :: "cipher \<Rightarrow> under_way \<Rightarrow> cipher \<Rightarrow> bool" where
  "flying \<equiv> in_flight cipher_open cipher_linked"

lemma make_new_fields:
  assumes "make_new key iv aad client layout = Inr c"
  obtains g where "make_gcm key = Inr g"
    "c = \<lparr>nc_gcm = g, nc_aad = aad, nc_static = take 8 iv, nc_dynamic = drop 8 iv,
      nc_candidates = (if layout = None then Some [Little, Big] else None),
      nc_endian = (case layout of None \<Rightarrow> Little | Some e \<Rightarrow> e),
      nc_sent = 0, nc_received = 0, nc_send_step = (if client then 1 else -1)\<rparr>"
  using assms by (auto simp: make_new_def bind_exn_Inr static_iv_bytes_def split: if_splits)

lemma opened_linked:
  assumes "cipher_of True k = Inr a" and "cipher_of False k = Inr b"
  shows "cipher_linked a b \<and> cipher_linked b a \<and> cipher_ready a \<and> cipher_ready b"
proof (cases k)
  case ClearMaterial
  then show ?thesis using assms by auto
next
  case (ExistingMaterial key iv)
  then show ?thesis using assms by (auto simp: make_existing_def bind_exn_Inr existing_linked_def map_sum_def split: sum.splits if_splits)
next
  case (NewMaterial key iv aad layout)
  then obtain x y where n: "make_new key iv aad True (Some layout) = Inr x" "a = NewCipher x"
      "make_new key iv aad False (Some layout) = Inr y" "b = NewCipher y"
    using assms by (auto simp: map_sum_def split: sum.splits)
  from n(1,3) show ?thesis
    by (elim make_new_fields) (auto simp: n(2,4) new_linked_def new_settled_def)
qed

lemma conversation_invariant:
  "conversation k member exchange up down \<Longrightarrow>
    flying member up exchange \<and> flying exchange down member \<and> cipher_ready member \<and> cipher_ready exchange"
proof (induction rule: conversation.induct)
  case (opened member exchange)
  then show ?case using opened_linked by simp
next
  case (member_seals member exchange up down data member' sealed)
  obtain bs tag where s: "sealed = (bs, tag)" by force
  have "member' = fst (cipher_seal member data)" using member_seals(2) by simp
  with member_seals s show ?case
    using cipher_duplex.sender_seals [of member up exchange data member' bs tag] cipher_duplex.receiver_seals cipher_duplex.seal_ready
    by auto
next
  case (exchange_seals member exchange up down data exchange' sealed)
  obtain bs tag where s: "sealed = (bs, tag)" by force
  have "exchange' = fst (cipher_seal exchange data)" using exchange_seals(2) by simp
  with exchange_seals s show ?case
    using cipher_duplex.sender_seals [of exchange down member data exchange' bs tag] cipher_duplex.receiver_seals cipher_duplex.seal_ready
    by auto
next
  case (exchange_opens member exchange bs tag data up down)
  then show ?case
    using cipher_duplex.head_opens [of member bs tag data up exchange] cipher_duplex.sender_opens cipher_duplex.open_ready by blast
next
  case (member_opens member exchange up bs tag data down)
  then show ?case
    using cipher_duplex.head_opens [of exchange bs tag data down member] cipher_duplex.sender_opens cipher_duplex.open_ready by blast
qed

subsection \<open>One keystream\<close>

fun seal_all :: "cipher \<Rightarrow> bytes list \<Rightarrow> cipher \<times> (bytes \<times> bytes) list" where
  "seal_all c [] = (c, [])"
| "seal_all c (m # ms) =
     (case cipher_seal c m of (c1, s) \<Rightarrow> (case seal_all c1 ms of (c2, ss) \<Rightarrow> (c2, s # ss)))"

lemma seal_all_existing:
  "concat (map fst (snd (seal_all (ExistingCipher c) ms))) = apply_keystream (ec_gcm c) (ec_counter c) (concat ms) (ec_sent c)"
proof (induction ms arbitrary: c)
  case Nil
  then show ?case by (simp add: apply_keystream_def)
next
  case (Cons m ms)
  let ?c = "c\<lparr>ec_sent := ec_sent c + length m\<rparr>"
  have "seal_all (ExistingCipher c) (m # ms) =
      (fst (seal_all (ExistingCipher ?c) ms), (apply_keystream (ec_gcm c) (ec_counter c) m (ec_sent c), md5_digest m) #
         snd (seal_all (ExistingCipher ?c) ms))"
    by (simp add: existing_seal_def case_prod_beta)
  with Cons [of ?c] show ?case by (simp add: apply_keystream_append)
qed

subsection \<open>Initialisation vectors\<close>

text \<open>The vectors of the next \<open>n\<close> messages that are sealed.\<close>

fun sealing_ivs :: "new_cipher \<Rightarrow> nat \<Rightarrow> bytes list" where
  "sealing_ivs c 0 = []"
| "sealing_ivs c (Suc n) =
     (let c' = fst (new_seal c []) in step_iv c' (nc_sent c') (nc_endian c') # sealing_ivs c' n)"

lemma wrap64_mod: "wrap64 v mod 2 ^ 64 = v mod 2 ^ 64"
proof (cases "v mod 2 ^ 64 \<ge> 2 ^ 63")
  case True
  then have "wrap64 v = v mod 2 ^ 64 - 2 ^ 64" by (simp add: wrap64_def Let_def)
  then show ?thesis by (simp only: minus_mod_self2 mod_mod_trivial)
next
  case False
  then show ?thesis by (simp add: wrap64_def Let_def)
qed

lemma le_bytes_inject:
  assumes "le_bytes 8 x = le_bytes 8 y"
  shows "x mod 2 ^ 64 = y mod 2 ^ 64"
proof -
  have "le_uint (le_bytes 8 x) = le_uint (le_bytes 8 y)" by (simp only: assms)
  then have "x mod 256 ^ 8 = y mod 256 ^ 8" by (simp only: le_uint_le_bytes)
  then show ?thesis by simp
qed

lemma step_iv_inject:
  assumes "step_iv c i e = step_iv c j e"
  shows "i mod 2 ^ 64 = j mod 2 ^ 64"
proof -
  have "\<exists>s. le_bytes 8 (wrap64 (s + i)) = le_bytes 8 (wrap64 (s + j))"
    using assms by (cases e) (auto simp: step_iv_def be_bytes_def simp del: le_bytes.simps)
  then obtain s where "le_bytes 8 (wrap64 (s + i)) = le_bytes 8 (wrap64 (s + j))" ..
  then have "wrap64 (s + i) mod 2 ^ 64 = wrap64 (s + j) mod 2 ^ 64" by (rule le_bytes_inject)
  then have "(s + i) mod 2 ^ 64 = (s + j) mod 2 ^ 64" by (simp only: wrap64_mod)
  then have "(s + i - s) mod 2 ^ 64 = (s + j - s) mod 2 ^ 64" by (rule mod_diff_cong) simp
  then show ?thesis by simp
qed

lemma sealing_ivs_settled:
  "new_settled c \<Longrightarrow> sealing_ivs c n = map (\<lambda>k. step_iv c (nc_sent c + nc_send_step c * (int k + 1)) (nc_endian c)) [0 ..< n]"
proof (induction n arbitrary: c)
  case (Suc n)
  let ?c = "c\<lparr>nc_sent := nc_sent c + nc_send_step c\<rparr>"
  have s: "new_settled ?c" using Suc.prems by (simp add: new_settled_def)
  have "[0 ..< Suc n] = 0 # map Suc [0 ..< n]" by (metis map_Suc_upt upt_conv_Cons zero_less_Suc)
  with Suc.IH [OF s] Suc.prems show ?case
    by (simp add: Let_def new_seal_settled o_def algebra_simps del: upt_Suc)
qed simp

lemma walking_ivs_distinct:
  assumes "new_settled a" "new_settled b" "nc_static a = nc_static b" "nc_dynamic a = nc_dynamic b" "nc_endian a = nc_endian b"
    "nc_sent a = 0" "nc_sent b = 0" "nc_send_step a = 1" "nc_send_step b = -1" and "m + n < 2 ^ 64"
  shows "distinct (sealing_ivs a m @ sealing_ivs b n)"
proof -
  let ?e = "nc_endian a"
  let ?js = "map (\<lambda>k. int k + 1) [0 ..< m] @ map (\<lambda>k. - (int k + 1)) [0 ..< n]"
  have eq: "sealing_ivs a m @ sealing_ivs b n = map (\<lambda>j. step_iv a j ?e) ?js"
    using assms step_iv_cong [of b a] by (simp add: sealing_ivs_settled)
  have "distinct ?js" by (auto simp: distinct_map inj_on_def)
  moreover have "inj_on (\<lambda>j. step_iv a j ?e) (set ?js)"
  proof (rule inj_onI)
    fix i j assume i: "i \<in> set ?js" and j: "j \<in> set ?js" and e: "step_iv a i ?e = step_iv a j ?e"
    have r: "- int n \<le> x \<and> x \<le> int m" if "x \<in> set ?js" for x using that by auto
    have "(i - j) mod 2 ^ 64 = 0" using step_iv_inject [OF e] by (simp add: mod_eq_0_iff_dvd mod_eq_dvd_iff)
    then obtain k where k: "i - j = 2 ^ 64 * k" by (auto simp: mod_eq_0_iff_dvd dvd_def)
    have "int (m + n) < int (2 ^ 64)" using assms(10) by (simp only: of_nat_less_iff)
    then have "int m + int n < 2 ^ 64" by simp
    then have b: "\<bar>i - j\<bar> < 2 ^ 64" using r [OF i] r [OF j] by arith
    have "k = 0"
    proof (rule ccontr)
      assume "k \<noteq> 0"
      then have "1 \<le> \<bar>k\<bar>" by simp
      then have "2 ^ 64 * 1 \<le> 2 ^ 64 * \<bar>k\<bar>" by (intro mult_left_mono) simp_all
      then show False using b k by (simp add: abs_mult)
    qed
    with k show "i = j" by simp
  qed
  ultimately show ?thesis unfolding eq distinct_map by blast
qed

subsection \<open>Detecting a layout\<close>

text \<open>An end that detects, from the view of a member whose layout is settled.\<close>

definition detecting :: "new_cipher \<Rightarrow> new_cipher \<Rightarrow> bool" where
  "detecting a b \<longleftrightarrow> new_settled a \<and> nc_candidates b = Some [Little, Big] \<and> nc_gcm a = nc_gcm b \<and> nc_aad a = nc_aad b \<and>
     nc_static a = nc_static b \<and> nc_dynamic a = nc_dynamic b \<and> nc_sent a = nc_received b \<and> nc_send_step a = - nc_send_step b"

text \<open>The tag of the first message is also the tag under the other layout: a forgery.\<close>

definition ambiguous_tag :: "new_cipher \<Rightarrow> bytes \<times> bytes \<Rightarrow> bool" where
  "ambiguous_tag a sealed \<longleftrightarrow>
     nc_endian a = Big \<and> gcm_tag (nc_gcm a) (initial_counter (nc_gcm a) (step_iv a (nc_sent a) Little)) (fst sealed) (nc_aad a) = snd sealed"

lemma detecting_opens:
  assumes d: "detecting a b" and s: "new_seal a m = (a', sealed)" and na: "\<not> ambiguous_tag a' sealed"
  obtains b' where "new_open b (fst sealed) (Some (snd sealed)) = (b', Inr m)" "new_linked a' b'"
proof -
  obtain ds tag where sealed: "sealed = (ds, tag)" by force
  have sa: "new_settled a" using d by (simp add: detecting_def)
  let ?n = "nc_sent a + nc_send_step a" and ?b = "b\<lparr>nc_received := nc_received b - nc_send_step b\<rparr>"
  have a': "a' = a\<lparr>nc_sent := ?n\<rparr>" and enc: "gcm_encrypt (nc_gcm a) (step_iv a ?n (nc_endian a)) m (nc_aad a) = (ds, tag)"
    using s sealed by (simp_all add: new_seal_settled [OF sa])
  have n: "nc_received b - nc_send_step b = ?n" using d by (simp add: detecting_def)
  have iv: "step_iv ?b (nc_received ?b) e = step_iv a ?n e" for e
    using d n step_iv_cong [of b a] by (simp add: detecting_def)
  have op: "new_open b ds (Some tag) = detect [Little, Big] ?b ds tag"
    using d by (simp add: new_open_def detecting_def Let_def)
  have dec: "gcm_decrypt (nc_gcm ?b) (step_iv ?b (nc_received ?b) (nc_endian a)) ds tag (nc_aad ?b) = Inr m"
    using gcm_decrypt_encrypt [OF enc] d unfolding iv by (simp add: detecting_def)
  have lk: "new_linked a' (settle (nc_endian a) ?b)"
    using d n by (simp add: a' new_linked_def settle_def detecting_def new_settled_def)
  show thesis
  proof (cases "nc_endian a")
    case Little
    then show thesis using that lk dec by (simp add: op sealed)
  next
    case Big
    then have "gcm_tag (nc_gcm a) (initial_counter (nc_gcm a) (step_iv a ?n Little)) ds (nc_aad a) \<noteq> tag"
      using na by (simp add: ambiguous_tag_def a' sealed)
    then have "gcm_decrypt (nc_gcm ?b) (step_iv ?b (nc_received ?b) Little) ds tag (nc_aad ?b) =
        Inl (CryptoError ''authentication tag does not verify'')"
      using d unfolding iv by (simp add: gcm_decrypt_def Let_def detecting_def)
    then show thesis using that lk dec Big by (simp add: op sealed)
  qed
qed

end
