(* ===== verification/Nnf_Codec_Facts.thy ===== *)
theory Nnf_Codec_Facts
  imports Nnf_Layout_Facts Nnf_Conversation
begin

section \<open>A message over a connection\<close>

text \<open>
  The structure, the cipher and the packet together: what one codec encodes, a codec whose
  cipher is in step decodes to a message with the same fields, and the two stay in step.
\<close>

text \<open>A structure the dictionary can find from its bytes.\<close>

definition findable :: "nnf_dictionary \<Rightarrow> nnf_layout \<Rightarrow> bool" where
  "findable d ly \<longleftrightarrow>
     structure_of d (Some (nl_type ly)) = Some (FixedLayout ly) \<and>
     (let code = hl_code (nl_header ly) in
      Single code \<in> set (hl_fields (nl_header ly)) \<and> nf_tag code = 35 \<and> nf_converter code = Shared NumberConv \<and>
      nf_offset (hl_code (nd_header d)) = nf_offset code \<and> nf_type (hl_code (nd_header d)) = nf_type code)"

definition encodable :: "nnf_dictionary \<Rightarrow> nnf_layout \<Rightarrow> fix_message \<Rightarrow> bool" where
  "encodable d ly m \<longleftrightarrow>
     findable d ly \<and> structure_sound ly \<and> nl_size ly + prefix_bytes \<le> max_packet_bytes \<and>
     msg_type_of m = Some (nl_type ly) \<and> (\<forall>p \<in> set (all_parts ly). carries m p) \<and>
     (case msg_seq_num m of None \<Rightarrow> True | Some n \<Rightarrow> 0 \<le> n \<and> n < 2 ^ 32)"

lemma cipher_keeps_length:
  "cipher_seal c m = (c', d, t) \<Longrightarrow> length d = length m \<and> length t = 16"
proof (cases c)
  case PlainCipher
  assume "cipher_seal c m = (c', d, t)"
  with PlainCipher show ?thesis by auto
next
  case (ExistingCipher e)
  assume "cipher_seal c m = (c', d, t)"
  with ExistingCipher show ?thesis by (auto simp: existing_seal_def)
next
  case (NewCipher n)
  assume "cipher_seal c m = (c', d, t)"
  with NewCipher show ?thesis
    by (auto simp: new_seal_def gcm_encrypt_def gcm_tag_def Let_def to_block_def)
qed

lemma code_read:
  assumes f: "findable d ly" and c: "\<forall>p \<in> set (all_parts ly). carries m p" and t: "msg_type_of m = Some (nl_type ly)"
    and r: "slice raw (nf_offset (hl_code (nl_header ly))) (nnf_width (nf_type (hl_code (nl_header ly)))) = part_bytes m (Single (hl_code (nl_header ly)))"
    and e: "part_end (Single (hl_code (nl_header ly))) \<le> length raw"
  shows "\<exists>v. transaction_code (nd_header d) raw = Inr v \<and> value_text v = nl_type ly"
proof -
  let ?f = "hl_code (nl_header ly)"
  have fd: "Single ?f \<in> set (all_parts ly)" "nf_tag ?f = 35" "nf_converter ?f = Shared NumberConv"
      "nf_offset (hl_code (nd_header d)) = nf_offset ?f" "nf_type (hl_code (nd_header d)) = nf_type ?f"
    using f by (simp_all add: findable_def Let_def all_parts_def)
  have "carries m (Single ?f)" using c fd(1) by blast
  moreover have g: "msg_get m (nf_tag ?f) = Some (nl_type ly)" using t by (simp add: fd(2) msg_type_of_def)
  ultimately have "canonical ?f (nl_type ly)" by simp
  then obtain v where v: "nnf_to_wire (nf_converter ?f) (nl_type ly) = Inr v" "nnf_fits (nf_type ?f) v"
      "nnf_from_wire (nf_converter ?f) v = Inr (nl_type ly)"
    by (auto simp: canonical_def split: sum.splits)
  obtain bs where b: "nnf_pack (nf_type ?f) v = Inr bs" "length bs = nnf_width (nf_type ?f)" "nnf_read (nf_type ?f) bs = Inr v"
    by (rule nnf_pack_reads_back [OF v(2)])
  have "field_bytes ?f m = Inr bs" by (simp add: field_bytes_def g v(1) b(1))
  then have "nnf_unpack (nf_type ?f) raw (nf_offset ?f) = Inr v"
    using r e b(3) nnf_unpack_at [of raw "nf_offset ?f" "nf_type ?f" bs] by (simp add: part_end_def)
  then show ?thesis using v(3) by (simp add: transaction_code_def fd(3-5))
qed

lemma structure_round_trip_bytes:
  assumes "structure_sound ly" and "m = set_length (nl_header ly) (nl_size ly) m0" and "\<forall>p \<in> set (all_parts ly). carries m p"
    and "encode_structure (FixedLayout ly) m0 = (m, Inr raw)"
  shows "\<forall>p \<in> set (all_parts ly). slice raw (part_offset p) (part_width p) = part_bytes m p \<and> part_end p \<le> length raw"
proof -
  note sp = sound_parts [OF assms(1)]
  let ?z = "replicate (nl_size ly) NUL"
  have "\<forall>p \<in> set (all_parts ly). carries m p \<and> part_end p \<le> length ?z \<and>
      slice ?z (part_offset p) (part_width p) = replicate (part_width p) NUL"
    using assms(3) sp(2) by (auto simp: part_end_def slice_blank)
  from encode_parts_ok [OF this sp(1)] obtain raw' where r: "fold_exn (encode_part m) (all_parts ly) ?z = Inr raw'"
      "length raw' = nl_size ly" "\<forall>p \<in> set (all_parts ly). slice raw' (part_offset p) (part_width p) = part_bytes m p"
    by auto
  have "raw' = raw" using assms(4) r(1) by (simp add: assms(2) all_parts_def Let_def)
  then show ?thesis using r sp(2) by auto
qed

lemma codec_round_trip:
  assumes lk: "cipher_linked (nx_cipher a) (nx_cipher b)" and d: "nx_layouts a = d" "nx_layouts b = d"
    and m: "m = set_length (nl_header ly) (nl_size ly) m0" and t0: "msg_type_of m0 = Some (nl_type ly)"
    and en: "encodable d ly m"
  obtains a' b' raw m' where "nnf_encode a m0 = (a', m, Inr raw)" "nnf_decode b raw True = (b', Inr m')"
    "cipher_linked (nx_cipher a') (nx_cipher b')"
    "\<forall>p \<in> set (all_parts ly). \<forall>tag \<in> set (part_tags p). tag \<noteq> 34 \<longrightarrow> tag \<noteq> 35 \<longrightarrow> msg_get m' tag = read_as m p tag"
    "msg_get m' 34 = Some (string_of_int (case msg_seq_num m of None \<Rightarrow> 0 | Some n \<Rightarrow> n))"
    "msg_type_of m' = Some (nl_type ly)"
proof -
  have f: "findable d ly" "structure_sound ly" "nl_size ly + prefix_bytes \<le> max_packet_bytes" "msg_type_of m = Some (nl_type ly)"
    and c: "\<forall>p \<in> set (all_parts ly). carries m p"
    and sq: "case msg_seq_num m of None \<Rightarrow> True | Some n \<Rightarrow> 0 \<le> n \<and> n < 2 ^ 32"
    using en by (auto simp: encodable_def)
  obtain plain m' where p: "encode_structure (FixedLayout ly) m0 = (m, Inr plain)" "length plain = nl_size ly"
      "decode_structure (FixedLayout ly) plain = Inr m'"
    and g: "\<forall>p \<in> set (all_parts ly). \<forall>tag \<in> set (part_tags p). msg_get m' tag =
       (if read_as m p tag \<noteq> None then read_as m p tag else msg_get (msg_create (nl_type ly)) tag)"
    by (rule structure_round_trip [OF f(2) m c])
  obtain x data tag where s: "cipher_seal (nx_cipher a) plain = (x, data, tag)" by (metis prod.collapse)
  have len: "length data = nl_size ly" "length tag = 16" using cipher_keeps_length [OF s] p(2) by simp_all
  obtain y where y: "cipher_open (nx_cipher b) data (Some tag) = (y, Inr plain)" "cipher_linked x y"
    using cipher_duplex.sealed_opens [OF lk s] by blast
  let ?seq = "case msg_seq_num m of None \<Rightarrow> 0 | Some n \<Rightarrow> n"
  have sr: "0 \<le> ?seq" "?seq < 2 ^ 32" using sq by (auto split: option.splits)
  obtain raw where raw: "packet_pack data ?seq (Some tag) = Inr raw"
    using len sr f(3) by (simp add: packet_pack_def Let_def packet_sizes)
  note u = unpack_packet [OF raw]
  have s1: "structure_of d (msg_type_of m0) = Some (FixedLayout ly)" using f(1) t0 by (simp add: findable_def)
  have e: "nnf_encode a m0 = (a\<lparr>nx_cipher := x\<rparr>, m, Inr raw)"
    by (simp only: nnf_encode_def d(1) s1 option.case p(1) prod.case sum.case s raw)
  note bytes_at = structure_round_trip_bytes [OF f(2) m c p(1)]
  have "Single (hl_code (nl_header ly)) \<in> set (all_parts ly)" using f(1) by (simp add: findable_def Let_def all_parts_def)
  then have sl: "slice plain (nf_offset (hl_code (nl_header ly))) (nnf_width (nf_type (hl_code (nl_header ly)))) =
      part_bytes m (Single (hl_code (nl_header ly)))" "part_end (Single (hl_code (nl_header ly))) \<le> length plain"
    using bytes_at by auto
  obtain v where v: "transaction_code (nd_header d) plain = Inr v" "value_text v = nl_type ly"
    using code_read [OF f(1) c f(4) sl] by blast
  have rd: "read_message d plain = Inr m'"
    using s1 t0 by (simp add: read_message_def v p(3) del: decode_structure.simps)
  have dec: "nnf_decode b raw True = (b\<lparr>nx_cipher := y\<rparr>, Inr (msg_set 34 (string_of_int ?seq) m'))"
    by (simp add: nnf_decode_def u y(1) d(2) rd)
  have code: "35 \<in> set (part_tags (Single (hl_code (nl_header ly))))" "msg_get m 35 = Some (nl_type ly)"
    using f(1,4) by (simp_all add: findable_def Let_def msg_type_of_def)
  have "msg_get m' 35 = Some (nl_type ly)"
    using g code \<open>Single (hl_code (nl_header ly)) \<in> set (all_parts ly)\<close> by fastforce
  then have mt: "msg_type_of (msg_set 34 (string_of_int ?seq) m') = Some (nl_type ly)"
    by (simp add: msg_type_of_def msg_get_set)
  have "\<forall>p \<in> set (all_parts ly). \<forall>tag \<in> set (part_tags p). tag \<noteq> 34 \<longrightarrow> tag \<noteq> 35 \<longrightarrow>
      msg_get (msg_set 34 (string_of_int ?seq) m') tag = read_as m p tag"
    using g by (auto simp: msg_get_set msg_create_def msg_get_def [of "[_]"])
  moreover have "cipher_linked (nx_cipher (a\<lparr>nx_cipher := x\<rparr>)) (nx_cipher (b\<lparr>nx_cipher := y\<rparr>))" using y(2) by simp
  ultimately show thesis using mt by (intro that [OF e dec]) (simp_all only: msg_get_set if_True simp_thms)
qed

end
