(* ===== verification/Nnf_Tables.thy ===== *)
theory Nnf_Tables
  imports Nnf_Codec_Facts "HOL-Library.Multiset"
begin

section \<open>Tables whose parts follow one another\<close>

text \<open>
  A structure passes its check when its parts, in the order of their offsets, start where the
  one before ends. \<open>tiled\<close> decides that with one pass over the table and gives
  \<open>structure_sound\<close>, the hypothesis of the round trips; \<open>build_layouts\<close> is what registering a
  list of structures with distinct transaction codes gives.
\<close>

fun tile_end :: "nat \<Rightarrow> layout_part list \<Rightarrow> nat option" where
  "tile_end s [] = Some s"
| "tile_end s (p # ps) = (if part_offset p = s then tile_end (part_end p) ps else None)"

definition in_order :: "layout_part list \<Rightarrow> layout_part list" where
  "in_order ps = sort_key part_offset ps"

text \<open>Laid out over the header and the body of a structure.\<close>

definition tiled :: "layout_part list \<Rightarrow> nat \<Rightarrow> layout_part list \<Rightarrow> nat \<Rightarrow> bool" where
  "tiled head n body whole \<longleftrightarrow>
     tile_end 0 (in_order head) = Some n \<and> tile_end n (in_order body) = Some whole \<and>
     distinct (concat (map part_tags (head @ body)))"

lemma sorted_wrt_mset:
  assumes "\<And>x y. R x y \<Longrightarrow> R y x"
  shows "mset xs = mset ys \<Longrightarrow> sorted_wrt R xs \<Longrightarrow> sorted_wrt R ys"
proof (induction xs arbitrary: ys)
  case (Cons x xs)
  have "x \<in> set ys" using Cons.prems(1) by (metis list.set_intros(1) set_mset_mset)
  then obtain us vs where ys: "ys = us @ x # vs" by (meson split_list)
  then have m: "mset xs = mset (us @ vs)" using Cons.prems(1) by simp
  then have "set xs = set (us @ vs)" by (metis set_mset_mset)
  moreover have "sorted_wrt R (us @ vs)" using Cons.IH [OF m] Cons.prems(2) by simp
  ultimately show ?case using Cons.prems(2) assms by (auto simp: ys sorted_wrt_append)
qed simp

lemma apart_sym: "apart p q \<Longrightarrow> apart q p"
  by (auto simp: apart_def)

lemma part_end_ge [simp]: "part_offset p \<le> part_end p"
  by (simp add: part_end_def)

lemma tile_end_parts:
  "tile_end s ps = Some e \<Longrightarrow>
    s \<le> e \<and> (\<forall>p \<in> set ps. s \<le> part_offset p \<and> part_end p \<le> e) \<and> sorted_wrt apart ps \<and>
    (\<forall>k. s \<le> k \<longrightarrow> k < e \<longrightarrow> covered ps k) \<and> (e = s \<or> (\<exists>p \<in> set ps. part_end p = e))"
proof (induction ps arbitrary: s)
  case (Cons p ps)
  then have s: "part_offset p = s" and r: "tile_end (part_end p) ps = Some e" by (simp_all split: if_splits)
  note IH = Cons.IH [OF r]
  have "s \<le> part_end p" using s part_end_ge [of p] by simp
  moreover have "\<forall>q \<in> set ps. apart p q" using IH s by (auto simp: apart_def)
  moreover have "covered (p # ps) k" if "s \<le> k" "k < e" for k
    using IH that s by (cases "k < part_end p") (auto simp: covered_def)
  moreover have "\<forall>q \<in> set (p # ps). s \<le> part_offset q \<and> part_end q \<le> e" 
    using IH order_trans [OF \<open>s \<le> part_end p\<close>] s by simp
  moreover have "e = s \<or> (\<exists>q \<in> set (p # ps). part_end q = e)" using IH by auto
  moreover have "s \<le> e" using IH calculation(1) by simp
  ultimately show ?case using IH by simp
qed simp

lemma first_overlap_none:
  "sorted_wrt apart ps \<Longrightarrow> \<forall>p \<in> set ps. \<forall>k \<in> fst ` set seen. \<not> (part_offset p \<le> k \<and> k < part_end p) \<Longrightarrow>
    first_overlap ps seen = None"
proof (induction ps arbitrary: seen)
  case (Cons p ps)
  let ?seen = "map (\<lambda>k. (k, part_name p)) [part_offset p ..< part_end p] @ seen"
  have "find (\<lambda>k. k \<in> fst ` set seen) [part_offset p ..< part_end p] = None"
    using Cons.prems(2) by (auto simp: find_None_iff)
  moreover have "first_overlap ps ?seen = None"
  proof (rule Cons.IH)
    show "sorted_wrt apart ps" using Cons.prems(1) by simp
    show "\<forall>q \<in> set ps. \<forall>k \<in> fst ` set ?seen. \<not> (part_offset q \<le> k \<and> k < part_end q)"
      using Cons.prems by (fastforce simp: apart_def image_iff)
  qed
  ultimately show ?case by simp
qed simp

lemma tile_end_unsorted:
  assumes "tile_end s (in_order ps) = Some e"
  shows "s \<le> e \<and> (\<forall>p \<in> set ps. s \<le> part_offset p \<and> part_end p \<le> e) \<and> sorted_wrt apart ps \<and>
    (\<forall>k. s \<le> k \<longrightarrow> k < e \<longrightarrow> covered ps k) \<and> (e = s \<or> (\<exists>p \<in> set ps. part_end p = e))"
proof -
  have c: "covered (in_order ps) = covered ps" by (simp add: fun_eq_iff covered_def in_order_def)
  have m: "mset (in_order ps) = mset ps" by (simp add: in_order_def)
  have s: "set (in_order ps) = set ps" by (simp add: in_order_def)
  show ?thesis
    using tile_end_parts [OF assms] sorted_wrt_mset [OF apart_sym m] unfolding s c by simp
qed

lemma tiled_sound:
  assumes "tiled (hl_fields (nl_header ly)) (hl_size (nl_header ly)) (nl_fields ly) (nl_size ly)"
  shows "structure_sound ly"
proof -
  have h: "tile_end 0 (in_order (hl_fields (nl_header ly))) = Some (hl_size (nl_header ly))"
    and b: "tile_end (hl_size (nl_header ly)) (in_order (nl_fields ly)) = Some (nl_size ly)"
    and d: "distinct (concat (map part_tags (all_parts ly)))"
    using assms by (simp_all add: tiled_def all_parts_def)
  note H = tile_end_unsorted [OF h] and B = tile_end_unsorted [OF b]
  have "body_size ly = nl_size ly"
    unfolding body_size_def
  proof (rule Max_eqI)
    have "nl_size ly = hl_size (nl_header ly) \<or> (\<exists>p \<in> set (nl_fields ly). part_end p = nl_size ly)" using B by blast
    then show "nl_size ly \<in> set (hl_size (nl_header ly) # map part_end (nl_fields ly))"
      by (elim disjE bexE) (simp, metis imageI list.set_map list.set_intros(2))
  qed (use B in auto)
  moreover have "first_overlap (nl_fields ly) [] = None" using B by (simp add: first_overlap_none)
  moreover have "find (\<lambda>k. \<not> covered (nl_fields ly) k) [hl_size (nl_header ly) ..< nl_size ly] = None"
    using B by (auto simp: find_None_iff)
  moreover have "apart p q" if "p \<in> set (hl_fields (nl_header ly))" "q \<in> set (nl_fields ly)" for p q
    using H B that by (fastforce simp: apart_def)
  then have "first_overlap (all_parts ly) [] = None"
    using H B by (intro first_overlap_none) (auto simp: all_parts_def sorted_wrt_append)
  ultimately show ?thesis using H d by (simp add: structure_sound_def layout_check_def)
qed

subsection \<open>Registering structures\<close>

lemma register_all:
  assumes "distinct (map structure_type ss)" and "set (map structure_type ss) \<inter> fst ` set (nd_layouts d) = {}"
  shows "fold_exn add_structure ss d = Inr (d\<lparr>nd_layouts := nd_layouts d @ map (\<lambda>s. (structure_type s, s)) ss\<rparr>)"
  using assms
proof (induction ss arbitrary: d)
  case (Cons s ss)
  have "map_of (nd_layouts d) (structure_type s) = None" using Cons.prems(2) by (simp add: map_of_eq_None_iff)
  moreover have "fold_exn add_structure ss (d\<lparr>nd_layouts := nd_layouts d @ [(structure_type s, s)]\<rparr>) =
      Inr (d\<lparr>nd_layouts := nd_layouts d @ map (\<lambda>s. (structure_type s, s)) (s # ss)\<rparr>)"
    using Cons.prems by (subst Cons.IH) auto
  ultimately show ?case by (subst fold_exn.simps) (simp add: add_structure_def [of s d])
qed simp

lemma registered:
  assumes "distinct (map structure_type ss)" and "s \<in> set ss"
  shows "map_of (map (\<lambda>s. (structure_type s, s)) ss) (structure_type s) = Some s"
  using assms by (intro map_of_is_SomeI) (auto simp: comp_def)

lemma distinct_codes: "distinct cs \<Longrightarrow> distinct (map string_of_int cs)"
  by (simp add: distinct_map inj_on_def)

subsection \<open>A dictionary whose structures can be used\<close>

text \<open>
  A structure of the dictionary can be sent when it passes its check, is found again from its
  own bytes, its transaction code fits the field it is written to, and it fits a packet.
\<close>

fun usable :: "nnf_dictionary \<Rightarrow> nnf_structure \<Rightarrow> bool" where
  "usable d (FixedLayout ly) \<longleftrightarrow>
     structure_sound ly \<and> findable d ly \<and> canonical (hl_code (nl_header ly)) (nl_type ly) \<and>
     nl_size ly + prefix_bytes \<le> max_packet_bytes"
| "usable d (RecordLayout t name h tag) \<longleftrightarrow>
     structure_of d (Some t) = Some (RecordLayout t name h tag) \<and> canonical (hl_code h) t \<and>
     tile_end 0 (in_order (hl_fields h)) = Some (hl_size h)"

definition code_field :: nnf_field where
  "code_field = make_field 35 ''TransactionCode'' SHORT_TYPE 0 None False"

text \<open>A header that starts with the transaction code.\<close>

definition coded_header :: "header_layout \<Rightarrow> nat \<Rightarrow> layout_part list \<Rightarrow> bool" where
  "coded_header h n parts \<longleftrightarrow> hl_size h = n \<and> hl_fields h = parts \<and> hl_code h = code_field \<and> Single code_field \<in> set parts"

lemma make_header_coded:
  assumes "find_code_field parts = Inr code_field" and "find_length_tag parts = Inr l" and "parts = Single code_field # rest"
  obtains h where "make_header n parts = Inr h" "coded_header h n parts"
  using assms by (simp add: make_header_def coded_header_def)

lemma code_canonical:
  assumes "- 32768 \<le> code" and "code < 32768"
  shows "canonical code_field (string_of_int code)"
proof -
  have "string_of_int code \<noteq> []" by (simp add: string_of_int_def)
  then show ?thesis using assms by (simp add: canonical_def code_field_def make_field_def)
qed

lemma coded_findable:
  assumes "coded_header h n parts" and "coded_header (nd_header d) n' parts'"
    and "map_of (nd_layouts d) (string_of_int code) = Some (fixed_structure code name sz body h)"
  shows "findable d \<lparr>nl_type = string_of_int code, nl_name = name, nl_size = sz, nl_header = h, nl_fields = body\<rparr>"
  using assms by (simp add: findable_def coded_header_def structure_of_def fixed_structure_def code_field_def make_field_def)

text \<open>What a structure of a list has to satisfy on its own.\<close>

fun laid_out :: "nnf_structure \<Rightarrow> bool" where
  "laid_out (FixedLayout ly) \<longleftrightarrow>
     (\<exists>n parts. coded_header (nl_header ly) n parts \<and> tiled parts n (nl_fields ly) (nl_size ly)) \<and>
     nl_size ly + 22 \<le> 1024 \<and> (\<exists>code. \<bar>code\<bar> < 32768 \<and> nl_type ly = string_of_int code)"
| "laid_out (RecordLayout t name h tag) \<longleftrightarrow>
     (\<exists>n parts. coded_header h n parts \<and> tiled parts n [] n) \<and> (\<exists>code. \<bar>code\<bar> < 32768 \<and> t = string_of_int code)"

lemma laid_out_fixed:
  assumes "coded_header h n parts" and "tiled parts n body sz"
  shows "\<bar>code\<bar> < 32768 \<Longrightarrow> sz + 22 \<le> 1024 \<Longrightarrow> laid_out (fixed_structure code name sz body h)"
  using assms by (auto simp: fixed_structure_def)

lemma laid_out_record:
  assumes "coded_header h n parts" and "tiled parts n [] n"
  shows "\<bar>code\<bar> < 32768 \<Longrightarrow> laid_out (record_structure code name h tag)"
  using assms by (auto simp: record_structure_def)

lemma all_usable:
  assumes u: "distinct (map structure_type ss)" and l: "list_all laid_out ss" and h: "coded_header (nd_header d) n' parts'"
    and d: "nd_layouts d = map (\<lambda>s. (structure_type s, s)) ss"
  shows "list_all (usable d) ss"
proof -
  have "usable d s" if m: "s \<in> set ss" for s
  proof -
    have lo: "laid_out s" using l m by (simp add: list_all_iff)
    have f: "map_of (nd_layouts d) (structure_type s) = Some s" using registered [OF u m] by (simp add: d)
    show ?thesis
    proof (cases s)
      case (FixedLayout ly)
      with lo obtain n parts code where c: "coded_header (nl_header ly) n parts" "tiled parts n (nl_fields ly) (nl_size ly)"
          "nl_size ly + 22 \<le> 1024" "\<bar>code\<bar> < 32768" "nl_type ly = string_of_int code"
        by auto
      have "structure_sound ly" by (rule tiled_sound) (use c in \<open>simp add: coded_header_def\<close>)
      moreover have "findable d ly"
        using f c(1) h by (simp add: FixedLayout findable_def coded_header_def structure_of_def code_field_def make_field_def)
      moreover have "canonical (hl_code (nl_header ly)) (nl_type ly)"
        using c code_canonical [of code] by (simp add: coded_header_def)
      ultimately show ?thesis using c(3) by (simp add: FixedLayout packet_sizes)
    next
      case (RecordLayout t name h' tag)
      with lo obtain n parts code where c: "coded_header h' n parts" "tiled parts n [] n" "\<bar>code\<bar> < 32768" "t = string_of_int code"
        by auto
      then show ?thesis
        using f code_canonical [of code] by (simp add: RecordLayout structure_of_def coded_header_def tiled_def)
    qed
  qed
  then show ?thesis by (simp add: list_all_iff)
qed

section \<open>A stream of messages over a connection\<close>

text \<open>
  One end encodes messages one after another, the bytes reach the other end cut anywhere,
  the framer there restores the packets and the codec decodes them. \<open>sendable\<close> says what a
  message of a dictionary has to satisfy and \<open>arrives\<close> what the other end makes of it.
\<close>

fun encode_all :: "nnf_codec \<Rightarrow> fix_message list \<Rightarrow> nnf_codec \<times> (exn + bytes) list" where
  "encode_all c [] = (c, [])"
| "encode_all c (m # ms) =
     (case nnf_encode c m of (c', m', r) \<Rightarrow> (case encode_all c' ms of (c'', rs) \<Rightarrow> (c'', r # rs)))"

fun decode_all :: "nnf_codec \<Rightarrow> bytes list \<Rightarrow> nnf_codec \<times> (packet_error + fix_message) list" where
  "decode_all c [] = (c, [])"
| "decode_all c (raw # raws) =
     (case nnf_decode c raw True of (c', r) \<Rightarrow> (case decode_all c' raws of (c'', rs) \<Rightarrow> (c'', r # rs)))"

definition sendable :: "nnf_dictionary \<Rightarrow> fix_message \<Rightarrow> bool" where
  "sendable d m0 \<longleftrightarrow>
     (case structure_of d (msg_type_of m0) of
        Some (FixedLayout ly) \<Rightarrow>
          (let m = set_length (nl_header ly) (nl_size ly) m0 in
           usable d (FixedLayout ly) \<and> 40 \<le> nl_size ly \<and> msg_type_of m0 = Some (nl_type ly) \<and> msg_type_of m = Some (nl_type ly) \<and>
           (\<forall>p \<in> set (all_parts ly). carries m p) \<and>
           (case msg_seq_num m of None \<Rightarrow> True | Some n \<Rightarrow> 0 \<le> n \<and> n < 2 ^ 32))
      | _ \<Rightarrow> False)"

text \<open>Every field as it was sent, an absent number as zero, the sequence number from the packet.\<close>

definition arrives :: "nnf_dictionary \<Rightarrow> fix_message \<Rightarrow> packet_error + fix_message \<Rightarrow> bool" where
  "arrives d m0 r \<longleftrightarrow>
     (case (structure_of d (msg_type_of m0), r) of
        (Some (FixedLayout ly), Inr m') \<Rightarrow>
          (let m = set_length (nl_header ly) (nl_size ly) m0 in
           msg_type_of m' = msg_type_of m0 \<and>
           msg_get m' 34 = Some (string_of_int (case msg_seq_num m of None \<Rightarrow> 0 | Some n \<Rightarrow> n)) \<and>
           (\<forall>p \<in> set (all_parts ly). \<forall>tag \<in> set (part_tags p). tag \<noteq> 34 \<longrightarrow> tag \<noteq> 35 \<longrightarrow> msg_get m' tag = read_as m p tag))
      | _ \<Rightarrow> False)"

lemma encoded_is_packet:
  assumes "structure_of (nx_layouts a) (msg_type_of m0) = Some (FixedLayout ly)"
    and "structure_sound ly" and "\<forall>p \<in> set (all_parts ly). carries (set_length (nl_header ly) (nl_size ly) m0) p"
    and "40 \<le> nl_size ly" and "nnf_encode a m0 = (a', m, Inr raw)"
  shows "is_packet raw"
proof -
  obtain plain m' where p: "encode_structure (FixedLayout ly) m0 = (set_length (nl_header ly) (nl_size ly) m0, Inr plain)"
      "length plain = nl_size ly"
    by (rule structure_round_trip [OF assms(2) refl assms(3)])
  obtain x data tag where s: "cipher_seal (nx_cipher a) plain = (x, data, tag)" by (metis prod.collapse)
  have "length data = nl_size ly" using cipher_keeps_length [OF s] p(2) by simp
  moreover have "\<exists>n. packet_pack data n (Some tag) = Inr raw"
    using assms(1,5) p(1) s by (auto simp: nnf_encode_def simp del: encode_structure.simps)
  ultimately show ?thesis using assms(4) unfolding is_packet_def by metis
qed

lemma message_arrives:
  assumes lk: "cipher_linked (nx_cipher a) (nx_cipher b)" and d: "nx_layouts a = d" "nx_layouts b = d" and s: "sendable d m0"
  obtains a' b' m raw r where "nnf_encode a m0 = (a', m, Inr raw)" "nnf_decode b raw True = (b', r)" "arrives d m0 r"
    "cipher_linked (nx_cipher a') (nx_cipher b')" "nx_layouts a' = d" "nx_layouts b' = d" "is_packet raw"
proof -
  obtain ly where so: "structure_of d (msg_type_of m0) = Some (FixedLayout ly)"
    using s by (auto simp: sendable_def split: option.splits nnf_structure.splits)
  let ?m = "set_length (nl_header ly) (nl_size ly) m0"
  have c: "structure_sound ly" "findable d ly" "nl_size ly + prefix_bytes \<le> max_packet_bytes" "40 \<le> nl_size ly"
      "msg_type_of m0 = Some (nl_type ly)" "msg_type_of ?m = Some (nl_type ly)" "\<forall>p \<in> set (all_parts ly). carries ?m p"
      "case msg_seq_num ?m of None \<Rightarrow> True | Some n \<Rightarrow> 0 \<le> n \<and> n < 2 ^ 32"
    using s by (simp_all add: sendable_def so Let_def)
  then have "encodable d ly ?m" by (simp add: encodable_def)
  then obtain a' b' raw m' where r: "nnf_encode a m0 = (a', ?m, Inr raw)" "nnf_decode b raw True = (b', Inr m')"
      "cipher_linked (nx_cipher a') (nx_cipher b')"
      "\<forall>p \<in> set (all_parts ly). \<forall>tag \<in> set (part_tags p). tag \<noteq> 34 \<longrightarrow> tag \<noteq> 35 \<longrightarrow> msg_get m' tag = read_as ?m p tag"
      "msg_get m' 34 = Some (string_of_int (case msg_seq_num ?m of None \<Rightarrow> 0 | Some n \<Rightarrow> n))"
      "msg_type_of m' = Some (nl_type ly)"
    by (rule codec_round_trip [OF lk d refl c(5)])
  have "nx_layouts a' = d"
    using r(1) d(1) by (auto simp: nnf_encode_def split: option.splits prod.splits sum.splits)
  moreover have "nx_layouts b' = d"
    using r(2) d(2) by (auto simp: nnf_decode_def split: prod.splits sum.splits)
  moreover have "arrives d m0 (Inr m')" using r(4-6) c(5) so by (simp add: arrives_def Let_def)
  moreover have "is_packet raw" by (rule encoded_is_packet [OF _ c(1,7,4) r(1)]) (simp add: d(1) so)
  ultimately show thesis using that [OF r(1,2)] r(3) by blast
qed

lemma stream_arrives:
  "cipher_linked (nx_cipher a) (nx_cipher b) \<Longrightarrow> nx_layouts a = d \<Longrightarrow> nx_layouts b = d \<Longrightarrow> list_all (sendable d) ms \<Longrightarrow>
    \<exists>a' raws b' rs. encode_all a ms = (a', map Inr raws) \<and> list_all is_packet raws \<and> decode_all b raws = (b', rs) \<and>
      list_all2 (arrives d) ms rs \<and> cipher_linked (nx_cipher a') (nx_cipher b')"
proof (induction ms arbitrary: a b)
  case Nil
  then show ?case by (intro exI [of _ a] exI [of _ "[]"] exI [of _ b]) simp
next
  case (Cons m0 ms)
  then obtain a1 b1 m raw r where o1: "nnf_encode a m0 = (a1, m, Inr raw)" "nnf_decode b raw True = (b1, r)" "arrives d m0 r"
      "cipher_linked (nx_cipher a1) (nx_cipher b1)" "nx_layouts a1 = d" "nx_layouts b1 = d" "is_packet raw"
    by (elim message_arrives [of a b d m0]) simp_all
  from Cons.IH [OF o1(4-6)] Cons.prems(4) obtain a' raws b' rs where
      "encode_all a1 ms = (a', map Inr raws)" "list_all is_packet raws" "decode_all b1 raws = (b', rs)"
      "list_all2 (arrives d) ms rs" "cipher_linked (nx_cipher a') (nx_cipher b')"
    by auto
  with o1 show ?case by (intro exI [of _ a'] exI [of _ "raw # raws"] exI [of _ b'] exI [of _ "r # rs"]) simp
qed

end
