(* ===== verification/Nnf_Recovery.thy ===== *)
theory Nnf_Recovery
  imports Nnf_Types
begin

section \<open>What a user can recover (\<open>nnf/recovery.py\<close>)\<close>

text \<open>
  The store keeps, per user, the last messages sent to them, each under a cursor: the clock
  in jiffies, pushed on by one whenever the clock has not moved. The venue's two functions,
  which messages are recoverable and in what form they are kept, are arguments. The theory
  ends with the run of a store beside the full history of every user: cursors rise strictly,
  the ring holds the newest part of the history, and a download that is not reported as
  truncated is complete.
\<close>

record message_store =
  ms_capacity :: int
  ms_records :: "(int \<times> (int \<times> fix_message) list) list"
  ms_last :: int

definition make_store :: "int \<Rightarrow> message_store" where
  "make_store capacity = \<lparr>ms_capacity = capacity, ms_records = [], ms_last = 0\<rparr>"

definition store_sequence :: "float64 \<Rightarrow> message_store \<Rightarrow> exn + int \<times> message_store" where
  "store_sequence unix_seconds st =
     bind_exn (to_nse_jiffies unix_seconds) (\<lambda>jiffies.
       (let value = (if jiffies \<le> ms_last st then ms_last st + 1 else jiffies)
        in Inr (value, st\<lparr>ms_last := value\<rparr>)))"

definition records_of :: "message_store \<Rightarrow> int \<Rightarrow> (int \<times> fix_message) list" where
  "records_of st user = (case map_of (ms_records st) user of None \<Rightarrow> [] | Some rs \<Rightarrow> rs)"

definition store_record :: "(string option \<Rightarrow> bool) \<Rightarrow> (fix_message \<Rightarrow> fix_message) \<Rightarrow> int \<Rightarrow> int \<Rightarrow> fix_message \<Rightarrow>
    message_store \<Rightarrow> bool \<times> message_store" where
  "store_record recoverable normalise user sequence m st =
     (if \<not> recoverable (msg_type_of m) then (False, st)
      else (let rs = records_of st user @ [(sequence, normalise m)];
                kept = (if int (length rs) > ms_capacity st then drop (nat (int (length rs) - ms_capacity st)) rs else rs)
            in (True, st\<lparr>ms_records := AList.update user kept (ms_records st)\<rparr>)))"

definition store_after :: "message_store \<Rightarrow> int \<Rightarrow> int \<Rightarrow> (int \<times> fix_message) list" where
  "store_after st user sequence = filter (\<lambda>r. fst r > sequence) (records_of st user)"

definition store_count :: "message_store \<Rightarrow> int \<Rightarrow> nat" where
  "store_count st user = length (records_of st user)"

definition store_truncated :: "message_store \<Rightarrow> int \<Rightarrow> int \<Rightarrow> bool" where
  "store_truncated st user sequence \<longleftrightarrow>
     (let rs = records_of st user
      in rs \<noteq> [] \<and> int (length rs) = ms_capacity st \<and> sequence < fst (hd rs))"

definition store_forget :: "int \<Rightarrow> message_store \<Rightarrow> nat \<times> message_store" where
  "store_forget user st = (length (records_of st user), st\<lparr>ms_records := AList.delete user (ms_records st)\<rparr>)"

definition store_clear :: "message_store \<Rightarrow> message_store" where
  "store_clear st = st\<lparr>ms_records := []\<rparr>"

subsection \<open>Running a store\<close>

text \<open>
  Messages stamped and filed one after another, and the full history beside it: what each
  user was sent, under its cursors.
\<close>

fun file_all :: "(string option \<Rightarrow> bool) \<Rightarrow> (fix_message \<Rightarrow> fix_message) \<Rightarrow> (int \<times> float64 \<times> fix_message) list \<Rightarrow>
    message_store \<times> (int \<Rightarrow> (int \<times> fix_message) list) \<Rightarrow> exn + message_store \<times> (int \<Rightarrow> (int \<times> fix_message) list)" where
  "file_all recoverable normalise [] s = Inr s"
| "file_all recoverable normalise ((user, now, m) # es) (st, h) =
     (case store_sequence now st of Inl e \<Rightarrow> Inl e
      | Inr (sequence, st1) \<Rightarrow>
         (case store_record recoverable normalise user sequence m st1 of (filed, st2) \<Rightarrow>
            file_all recoverable normalise es
              (st2, if filed then h(user := h user @ [(sequence, normalise m)]) else h)))"

text \<open>Every history is strictly sorted below the last cursor, and the ring holds its end.\<close>

definition ring :: "int \<Rightarrow> 'a list \<Rightarrow> 'a list" where
  "ring capacity xs = drop (length xs - nat capacity) xs"

definition store_inv :: "message_store \<times> (int \<Rightarrow> (int \<times> fix_message) list) \<Rightarrow> bool" where
  "store_inv s \<longleftrightarrow>
     (case s of (st, h) \<Rightarrow> 1 \<le> ms_capacity st \<and>
       (\<forall>u. records_of st u = ring (ms_capacity st) (h u) \<and> sorted_wrt (<) (map fst (h u)) \<and>
            (\<forall>r \<in> set (h u). fst r \<le> ms_last st)))"

lemma ring_snoc:
  assumes "1 \<le> c"
  shows "(let rs = ring c xs @ [x] in if int (length rs) > c then drop (nat (int (length rs) - c)) rs else rs) = ring c (xs @ [x])"
proof -
  obtain k where k: "nat c = Suc k" using assms by (cases "nat c") auto
  then have "c = int (Suc k)" using assms by (metis int_nat_eq order_trans zero_le_one)
  note c = k this
  show ?thesis
  proof (cases "length xs < Suc k")
    case True
    then show ?thesis using c(2) by (simp add: ring_def k Let_def)
  next
    case False
    let ?d = "length xs - Suc k"
    have r: "ring c xs = drop ?d xs" by (simp add: ring_def k)
    have l: "length (drop ?d xs @ [x]) = Suc (Suc k)" using False by simp
    have d: "drop ?d xs @ [x] = drop ?d (xs @ [x])" by simp
    have n: "nat (int (Suc (Suc k)) - c) = 1" using c(2) by simp
    have "drop 1 (drop ?d (xs @ [x])) = ring c (xs @ [x])" using False by (simp add: ring_def k Suc_diff_Suc)
    moreover have "int (Suc (Suc k)) > c" using c(2) by simp
    ultimately show ?thesis unfolding Let_def r l by (simp only: n d if_True)
  qed
qed

lemma records_of_update:
  "records_of (st\<lparr>ms_records := AList.update user rs (ms_records st)\<rparr>) u = (if u = user then rs else records_of st u)"
  by (simp add: records_of_def map_of_update_eq)

lemma store_sequence_rises:
  "store_sequence now st = Inr (sequence, st1) \<Longrightarrow> ms_last st < sequence \<and> st1 = st\<lparr>ms_last := sequence\<rparr>"
  by (auto simp: store_sequence_def bind_exn_Inr Let_def split: if_splits)

lemma file_one:
  assumes inv: "store_inv (st, h)" and sq: "store_sequence now st = Inr (sequence, st1)"
    and rec: "store_record recoverable normalise user sequence m st1 = (filed, st2)"
  shows "store_inv (st2, if filed then h(user := h user @ [(sequence, normalise m)]) else h) \<and> ms_capacity st2 = ms_capacity st"
proof -
  have s: "ms_last st < sequence" "st1 = st\<lparr>ms_last := sequence\<rparr>" using store_sequence_rises [OF sq] by auto
  have low: "fst r < sequence" if "r \<in> set (h u)" for r u using inv s(1) that by (fastforce simp: store_inv_def)
  have inv1: "store_inv (st1, h)"
    using inv low by (auto simp: store_inv_def s(2) records_of_def order.strict_implies_order)
  show ?thesis
  proof (cases "recoverable (msg_type_of m)")
    case False
    then show ?thesis using rec inv1 s(2) by (auto simp: store_record_def)
  next
    case True
    have c: "1 \<le> ms_capacity st1" using inv1 by (simp add: store_inv_def)
    have c1: "ms_capacity st1 = ms_capacity st" "ms_last st1 = sequence" by (simp_all add: s(2))
    have r1: "records_of st1 u = ring (ms_capacity st1) (h u)" for u using inv1 by (simp add: store_inv_def)
    have f: "filed" "st2 = st1\<lparr>ms_records := AList.update user (ring (ms_capacity st1) (h user @ [(sequence, normalise m)])) (ms_records st1)\<rparr>"
      using rec True ring_snoc [OF c, of "h user" "(sequence, normalise m)"]
      by (simp_all add: store_record_def r1 Let_def split: if_splits)
    have "sorted_wrt (<) (map fst (h user @ [(sequence, normalise m)]))"
      using inv1 low by (auto simp: store_inv_def sorted_wrt_append)
    then show ?thesis
      using inv1 f(1) c1 by (auto simp: store_inv_def f(2) records_of_update)
  qed
qed

lemma file_all_inv:
  "file_all recoverable normalise es s = Inr s' \<Longrightarrow> store_inv s \<Longrightarrow> store_inv s' \<and> ms_capacity (fst s') = ms_capacity (fst s)"
proof (induction recoverable normalise es s rule: file_all.induct)
  case (2 recoverable normalise user now m es st h)
  then obtain sequence st1 filed st2 where q: "store_sequence now st = Inr (sequence, st1)"
      "store_record recoverable normalise user sequence m st1 = (filed, st2)"
    by (auto split: sum.splits prod.splits)
  note one = file_one [OF 2(3) q]
  with 2 q show ?case by auto
qed auto

lemma after_complete:
  assumes "store_inv (st, h)" and "\<not> store_truncated st u s"
  shows "store_after st u s = filter (\<lambda>r. fst r > s) (h u)"
proof -
  let ?c = "ms_capacity st" and ?d = "length (h u) - nat (ms_capacity st)"
  have i: "1 \<le> ?c" "records_of st u = drop ?d (h u)" "sorted_wrt (<) (map fst (h u))"
    using assms(1) by (auto simp: store_inv_def ring_def)
  show ?thesis
  proof (cases "length (h u) \<le> nat ?c")
    case True
    then show ?thesis by (simp add: store_after_def i(2))
  next
    case False
    then obtain x xs where x: "drop ?d (h u) = x # xs" using i(1) by (cases "drop ?d (h u)") auto
    have l: "int (length (drop ?d (h u))) = ?c" using False i(1) by simp
    then have s: "fst x \<le> s" using assms(2) i(2) x by (auto simp: store_truncated_def Let_def)
    have "map fst (take ?d (h u)) @ map fst (x # xs) = map fst (h u)"
      by (simp only: x [symmetric] map_append [symmetric] append_take_drop_id)
    then have "sorted_wrt (<) (map fst (take ?d (h u)) @ map fst (x # xs))" using i(3) by simp
    then have "\<forall>r \<in> set (take ?d (h u)). fst r < fst x" by (auto simp: sorted_wrt_append)
    then have "filter (\<lambda>r. fst r > s) (take ?d (h u)) = []" using s by (auto simp: filter_empty_conv)
    then have "filter (\<lambda>r. fst r > s) (take ?d (h u) @ drop ?d (h u)) = filter (\<lambda>r. fst r > s) (drop ?d (h u))"
      by (simp only: filter_append append_Nil)
    then show ?thesis by (simp add: store_after_def i(2))
  qed
qed

end
