(* ===== verification/Nse_Layouts.thy ===== *)
theory Nse_Layouts
  imports Nnf_Layout
begin

section \<open>The structures of the equity segment (\<open>venues/nse/layouts.py\<close>)\<close>

text \<open>
  The tables of the module, field by field: the number of the tag (\<open>nse/dictionary.py\<close>), the
  name, the type and the offset. A part of several structures is a definition with the
  offset as its argument; \<open>build_cm\<close> registers every structure under its transaction code
  (\<open>nse/transactions.py\<close>).
\<close>

definition cm_header_parts :: "layout_part list" where
  "cm_header_parts =
     [
       plain_at 35 ''TransactionCode'' SHORT_TYPE 0,
       plain_at 9001 ''LogTime'' LONG_TYPE 2,
       plain_at 9002 ''AlphaChar'' (NChar 2 False) 6,
       plain_at 9003 ''UserId'' LONG_TYPE 8,
       plain_at 9004 ''ErrorCode'' SHORT_TYPE 12,
       plain_at 9005 ''Timestamp'' LONG_LONG_TYPE 14,
       plain_at 9006 ''TimeStamp1'' LONG_LONG_TYPE 22,
       plain_at 9007 ''TimeStamp2'' LONG_LONG_TYPE 30,
       plain_at 9008 ''MessageLength'' SHORT_TYPE 38]"

definition cm_sec_info :: "nat \<Rightarrow> layout_part list" where
  "cm_sec_info offset =
     [
       plain_at 55 ''Symbol'' (NChar 10 False) offset,
       plain_at 9100 ''Series'' (NChar 2 False) (offset + 10)]"

definition cm_order_flags :: "nat \<Rightarrow> layout_part" where
  "cm_order_flags offset =
     FlagBits ''ST_ORDER_FLAGS'' offset 2 [Some 9201, Some 9202, Some 9203, Some 9204, Some 9205, Some 9206, Some 9207, Some 9208, Some 9209, Some 9210, Some 9211, Some 9212, Some 9213, None, Some 9214, None]"

definition cm_broker_eligibility :: "nat \<Rightarrow> layout_part" where
  "cm_broker_eligibility offset =
     FlagBits ''BrokerEligibilityPerMarket'' offset 2 [Some 9220, Some 9221, Some 9222, Some 9223, Some 9224, Some 9225, None, None, None, None, None, None, None, None, None, Some 9226]"

definition cm_security_eligibility :: "nat \<Rightarrow> layout_part" where
  "cm_security_eligibility offset =
     FlagBits ''SecurityEligibleIndicators'' offset 2 [Some 9230, Some 9231, Some 9232, None, None, None, None, None, None, None, None, None, None, None, None, None]"

definition cm_order_entry_fields :: "layout_part list" where
  "cm_order_entry_fields =
     [
       plain_at 9101 ''ParticipantType'' (NChar 1 False) 40,
       ReservedRun 41 1 ''Reserved'',
       plain_at 9102 ''CompetitorPeriod'' SHORT_TYPE 42,
       plain_at 9103 ''SolicitorPeriod'' SHORT_TYPE 44,
       plain_at 9104 ''ModCxlBy'' (NChar 1 False) 46,
       ReservedRun 47 1 ''Filler'',
       plain_at 9105 ''ReasonCode'' SHORT_TYPE 48,
       ReservedRun 50 4 ''Reserved''] @ cm_sec_info 54 @ [
       plain_at 9106 ''AuctionNumber'' SHORT_TYPE 66,
       plain_at 9107 ''OpBrokerId'' (NChar 5 False) 68,
       plain_at 9108 ''Suspended'' (NChar 1 False) 73,
       plain_at 37 ''OrderNumber'' NDouble 74,
       plain_at 1 ''AccountNumber'' (NChar 10 False) 82,
       plain_at 9110 ''BookType'' SHORT_TYPE 92,
       plain_at 54 ''BuySell'' SHORT_TYPE 94,
       plain_at 9111 ''DisclosedVol'' LONG_TYPE 96,
       plain_at 9112 ''DisclosedVolRemaining'' LONG_TYPE 100,
       plain_at 151 ''TotalVolRemaining'' LONG_TYPE 104,
       plain_at 38 ''Volume'' LONG_TYPE 108,
       plain_at 14 ''VolumeFilledToday'' LONG_TYPE 112,
       conv_at 44 ''Price'' LONG_TYPE 116 PAISE,
       conv_at 9113 ''TriggerPrice'' LONG_TYPE 120 PAISE,
       plain_at 9114 ''GoodTillDate'' LONG_TYPE 124,
       plain_at 9115 ''EntryDateTime'' LONG_TYPE 128,
       plain_at 9116 ''MinFillAon'' LONG_TYPE 132,
       plain_at 9117 ''LastModified'' LONG_TYPE 136,
       cm_order_flags 140,
       plain_at 9118 ''BranchId'' SHORT_TYPE 142,
       plain_at 9119 ''TraderId'' LONG_TYPE 144,
       plain_at 9120 ''BrokerId'' (NChar 5 False) 148,
       plain_at 9121 ''OERemarks'' (NChar 25 False) 153,
       plain_at 9122 ''Settlor'' (NChar 12 False) 178,
       plain_at 9123 ''ProClient'' SHORT_TYPE 190,
       plain_at 9124 ''SettlementType'' SHORT_TYPE 192,
       plain_at 9125 ''NNFField'' NDouble 194,
       plain_at 9126 ''ExecTimeStamp'' NDouble 202,
       ReservedRun 210 4 ''Reserved'',
       plain_at 9127 ''PAN'' (NChar 10 False) 214,
       plain_at 9128 ''AlgoID'' LONG_TYPE 224,
       ReservedRun 228 2 ''ReservedFiller'',
       plain_at 9129 ''LastActivityReference'' LONG_LONG_TYPE 230,
       ReservedRun 238 52 ''Reserved'']"

definition cm_trade_fields :: "layout_part list" where
  "cm_trade_fields =
     [
       plain_at 9130 ''ResponseOrderNumber'' NDouble 40,
       plain_at 9120 ''BrokerId'' (NChar 5 False) 48,
       ReservedRun 53 1 ''Reserved'',
       plain_at 9131 ''TraderNum'' LONG_TYPE 54,
       plain_at 1 ''AccountNum'' (NChar 10 False) 58,
       plain_at 54 ''BuySell'' SHORT_TYPE 68,
       plain_at 9132 ''OriginalVol'' LONG_TYPE 70,
       plain_at 9111 ''DisclosedVol'' LONG_TYPE 74,
       plain_at 9133 ''RemainingVol'' LONG_TYPE 78,
       plain_at 9112 ''DisclosedVolRemaining'' LONG_TYPE 82,
       conv_at 44 ''Price'' LONG_TYPE 86 PAISE,
       cm_order_flags 90,
       plain_at 9134 ''Gtd'' LONG_TYPE 92,
       plain_at 9135 ''FillNumber'' LONG_TYPE 96,
       plain_at 32 ''FillQty'' LONG_TYPE 100,
       conv_at 31 ''FillPrice'' LONG_TYPE 104 PAISE,
       plain_at 14 ''VolFilledToday'' LONG_TYPE 108,
       plain_at 9136 ''ActivityType'' (NChar 2 False) 112,
       plain_at 9137 ''ActivityTime'' LONG_TYPE 114,
       plain_at 9138 ''OpOrderNumber'' NDouble 118,
       plain_at 9107 ''OpBrokerId'' (NChar 5 False) 126] @ cm_sec_info 131 @ [
       ReservedRun 143 1 ''Reserved'',
       plain_at 9110 ''BookType'' SHORT_TYPE 144,
       plain_at 9139 ''NewVolume'' LONG_TYPE 146,
       plain_at 9123 ''ProClient'' SHORT_TYPE 150,
       plain_at 9127 ''PAN'' (NChar 10 False) 152,
       plain_at 9128 ''AlgoID'' LONG_TYPE 162,
       ReservedRun 166 2 ''ReservedFiller'',
       plain_at 9129 ''LastActivityReference'' LONG_LONG_TYPE 168,
       ReservedRun 176 52 ''Reserved'']"

definition cm_signon_fields :: "layout_part list" where
  "cm_signon_fields =
     [
       plain_at 9140 ''UserId'' LONG_TYPE 40,
       ReservedRun 44 8 ''Reserved'',
       secret_at 9141 ''Password'' (NChar 8 False) 52,
       ReservedRun 60 8 ''Reserved'',
       secret_at 9142 ''NewPassword'' (NChar 8 False) 68,
       plain_at 9143 ''TraderName'' (NChar 26 False) 76,
       plain_at 9144 ''LastPasswordChangeDateTime'' LONG_TYPE 102,
       plain_at 9120 ''BrokerId'' (NChar 5 False) 106,
       ReservedRun 111 1 ''Reserved'',
       plain_at 9118 ''BranchId'' SHORT_TYPE 112,
       plain_at 9146 ''VersionNumber'' LONG_TYPE 114,
       ReservedRun 118 56 ''Reserved'',
       plain_at 9147 ''UserType'' SHORT_TYPE 174,
       plain_at 9148 ''SequenceNumber'' NDouble 176,
       plain_at 9149 ''WorkstationNumber'' (NChar 14 False) 184,
       plain_at 9150 ''BrokerStatus'' (NChar 1 False) 198,
       plain_at 9151 ''ShowIndex'' (NChar 1 False) 199,
       cm_broker_eligibility 200,
       plain_at 9152 ''BrokerName'' (NChar 26 False) 202,
       ReservedRun 228 16 ''Reserved'',
       ReservedRun 244 16 ''Reserved'',
       ReservedRun 260 16 ''Reserved'']"

definition cm_system_information_fields :: "layout_part list" where
  "cm_system_information_fields =
     [
       plain_at 9160 ''Normal'' SHORT_TYPE 40,
       plain_at 9161 ''Oddlot'' SHORT_TYPE 42,
       plain_at 9162 ''Spot'' SHORT_TYPE 44,
       plain_at 9163 ''Auction'' SHORT_TYPE 46,
       plain_at 9164 ''CallAuction1'' SHORT_TYPE 48,
       plain_at 9165 ''CallAuction2'' SHORT_TYPE 50,
       plain_at 9166 ''MarketIndex'' LONG_TYPE 52,
       plain_at 9167 ''DefaultSettlementPeriodNormal'' SHORT_TYPE 56,
       plain_at 9168 ''DefaultSettlementPeriodSpot'' SHORT_TYPE 58,
       plain_at 9169 ''DefaultSettlementPeriodAuction'' SHORT_TYPE 60,
       plain_at 9102 ''CompetitorPeriod'' SHORT_TYPE 62,
       plain_at 9103 ''SolicitorPeriod'' SHORT_TYPE 64,
       plain_at 9153 ''WarningPercent'' SHORT_TYPE 66,
       plain_at 9154 ''VolumeFreezePercent'' SHORT_TYPE 68,
       ReservedRun 70 2 ''Reserved'',
       plain_at 9155 ''TerminalIdleTime'' SHORT_TYPE 72,
       plain_at 9156 ''BoardLotQuantity'' LONG_TYPE 74,
       conv_at 9157 ''TickSize'' LONG_TYPE 78 PAISE,
       plain_at 9158 ''MaximumGtcDays'' SHORT_TYPE 82,
       cm_security_eligibility 84,
       plain_at 9159 ''DisclosedQuantityPercentAllowed'' SHORT_TYPE 86,
       ReservedRun 88 6 ''Reserved'']"

definition cm_oe_request_tr_fields :: "layout_part list" where
  "cm_oe_request_tr_fields =
     cm_sec_info 6 @ [
       plain_at 1 ''AccountNumber'' (NChar 10 False) 18,
       plain_at 9110 ''BookType'' SHORT_TYPE 28,
       plain_at 54 ''BuySell'' SHORT_TYPE 30,
       plain_at 9111 ''DisclosedVol'' LONG_TYPE 32,
       plain_at 38 ''Volume'' LONG_TYPE 36,
       conv_at 44 ''Price'' LONG_TYPE 40 PAISE,
       plain_at 9114 ''GoodTillDate'' LONG_TYPE 44,
       cm_order_flags 48,
       plain_at 9118 ''BranchId'' SHORT_TYPE 50,
       plain_at 9119 ''TraderId'' LONG_TYPE 52,
       plain_at 9120 ''BrokerId'' (NChar 5 False) 56,
       plain_at 9108 ''Suspended'' (NChar 1 False) 61,
       plain_at 9122 ''Settlor'' (NChar 12 False) 62,
       plain_at 9123 ''ProClient'' SHORT_TYPE 74,
       plain_at 9125 ''NNFField'' NDouble 76,
       plain_at 9178 ''TransactionId'' LONG_TYPE 84,
       plain_at 9127 ''PAN'' (NChar 10 False) 88,
       plain_at 9128 ''AlgoID'' LONG_TYPE 98,
       ReservedRun 102 2 ''ReservedFiller'',
       ReservedRun 104 32 ''Reserved'']"

definition cm_header_oe_tr_parts :: "layout_part list" where
  "cm_header_oe_tr_parts =
     [
       plain_at 35 ''TransactionCode'' SHORT_TYPE 0,
       plain_at 9003 ''UserId'' LONG_TYPE 2]"

definition cm_om_body_fields :: "bool \<Rightarrow> layout_part list" where
  "cm_om_body_fields response =
     (let at = (if response then 140 else 132) in
      cm_sec_info 24 @ [
       plain_at 37 ''OrderNumber'' NDouble 36,
       plain_at 1 ''AccountNumber'' (NChar 10 False) 44,
       plain_at 9110 ''BookType'' SHORT_TYPE 54,
       plain_at 54 ''BuySell'' SHORT_TYPE 56,
       plain_at 9111 ''DisclosedVol'' LONG_TYPE 58,
       plain_at 9112 ''DisclosedVolRemaining'' LONG_TYPE 62,
       plain_at 151 ''TotalVolRemaining'' LONG_TYPE 66,
       plain_at 38 ''Volume'' LONG_TYPE 70,
       plain_at 14 ''VolumeFilledToday'' LONG_TYPE 74,
       conv_at 44 ''Price'' LONG_TYPE 78 PAISE,
       plain_at 9115 ''EntryDateTime'' LONG_TYPE 82,
       plain_at 9117 ''LastModified'' LONG_TYPE 86,
       cm_order_flags 90,
       plain_at 9118 ''BranchId'' SHORT_TYPE 92,
       plain_at 9119 ''TraderId'' LONG_TYPE 94,
       plain_at 9120 ''BrokerId'' (NChar 5 False) 98,
       plain_at 9108 ''Suspended'' (NChar 1 False) 103,
       plain_at 9122 ''Settlor'' (NChar 12 False) 104,
       plain_at 9123 ''ProClient'' SHORT_TYPE 116,
       plain_at 9124 ''SettlementType'' SHORT_TYPE 118,
       plain_at 9125 ''NNFField'' NDouble 120,
       plain_at 9178 ''TransactionId'' LONG_TYPE 128] @
      (if response then [plain_at 9005 ''Timestamp'' LONG_LONG_TYPE 132] else []) @ [
       plain_at 9127 ''PAN'' (NChar 10 False) at,
       plain_at 9128 ''AlgoID'' LONG_TYPE (at + 10),
       ReservedRun (at + 14) 2 ''ReservedFiller'',
       plain_at 9129 ''LastActivityReference'' LONG_LONG_TYPE (at + 16),
       ReservedRun (at + 24) (if response then 52 else 24) ''Reserved''])"

definition cm_header_om_tr_parts :: "layout_part list" where
  "cm_header_om_tr_parts =
     [
       plain_at 35 ''TransactionCode'' SHORT_TYPE 0,
       plain_at 9001 ''LogTime'' LONG_TYPE 2,
       plain_at 9003 ''UserId'' LONG_TYPE 6,
       plain_at 9004 ''ErrorCode'' SHORT_TYPE 10,
       plain_at 9006 ''TimeStamp1'' LONG_LONG_TYPE 12,
       plain_at 9007 ''TimeStamp2'' BYTE_TYPE 20,
       plain_at 9104 ''ModCxlBy'' (NChar 1 False) 21,
       plain_at 9105 ''ReasonCode'' SHORT_TYPE 22]"

definition cm_trade_confirm_tr_fields :: "layout_part list" where
  "cm_trade_confirm_tr_fields =
     [
       plain_at 9130 ''ResponseOrderNumber'' NDouble 26,
       plain_at 9007 ''TimeStamp2'' BYTE_TYPE 34,
       plain_at 9120 ''BrokerId'' (NChar 5 False) 35,
       plain_at 9131 ''TraderNum'' LONG_TYPE 40,
       plain_at 54 ''BuySell'' SHORT_TYPE 44,
       plain_at 1 ''AccountNum'' (NChar 10 False) 46,
       plain_at 9132 ''OriginalVol'' LONG_TYPE 56,
       plain_at 9111 ''DisclosedVol'' LONG_TYPE 60,
       plain_at 9133 ''RemainingVol'' LONG_TYPE 64,
       plain_at 9112 ''DisclosedVolRemaining'' LONG_TYPE 68,
       conv_at 44 ''Price'' LONG_TYPE 72 PAISE,
       cm_order_flags 76,
       plain_at 9135 ''FillNumber'' LONG_TYPE 78,
       plain_at 32 ''FillQty'' LONG_TYPE 82,
       conv_at 31 ''FillPrice'' LONG_TYPE 86 PAISE,
       plain_at 14 ''VolFilledToday'' LONG_TYPE 90,
       plain_at 9136 ''ActivityType'' (NChar 2 False) 94,
       plain_at 9137 ''ActivityTime'' LONG_TYPE 96] @ cm_sec_info 100 @ [
       plain_at 9110 ''BookType'' SHORT_TYPE 112,
       plain_at 9123 ''ProClient'' SHORT_TYPE 114,
       plain_at 9127 ''PAN'' (NChar 10 False) 116,
       plain_at 9128 ''AlgoID'' LONG_TYPE 126,
       ReservedRun 130 2 ''ReservedFiller'',
       plain_at 9129 ''LastActivityReference'' LONG_LONG_TYPE 132,
       ReservedRun 140 52 ''Reserved'']"

definition cm_header_trade_tr_parts :: "layout_part list" where
  "cm_header_trade_tr_parts =
     [
       plain_at 35 ''TransactionCode'' SHORT_TYPE 0,
       plain_at 9001 ''LogTime'' LONG_TYPE 2,
       plain_at 9003 ''UserId'' LONG_TYPE 6,
       plain_at 9005 ''Timestamp'' LONG_LONG_TYPE 10,
       plain_at 9006 ''TimeStamp1'' LONG_LONG_TYPE 18]"

definition cm_structures :: "header_layout \<Rightarrow> header_layout \<Rightarrow> header_layout \<Rightarrow> header_layout \<Rightarrow> nnf_structure list" where
  "cm_structures h h_oe_tr h_om_tr h_trade_tr =
     [fixed_structure 2400 ''MS_GR_REQUEST'' 48 ([
       plain_at 9170 ''BoxId'' SHORT_TYPE 40,
       plain_at 9120 ''BrokerID'' (NChar 5 False) 42,
       ReservedRun 47 1 ''Filler'']) h] @
     [fixed_structure 2401 ''MS_GR_RESPONSE'' 136 ([
       plain_at 9170 ''BoxId'' SHORT_TYPE 40,
       plain_at 9120 ''BrokerID'' (NChar 5 False) 42,
       ReservedRun 47 1 ''Filler'',
       plain_at 9171 ''IPAddress'' (NChar 16 False) 48,
       plain_at 9172 ''Port'' LONG_TYPE 64,
       secret_at 9173 ''SessionKey'' (NChar 8 False) 68,
       secret_at 9174 ''CryptographicKey'' (NRaw 32) 76,
       secret_at 9175 ''StaticCryptographicIV'' (NRaw 8) 108,
       secret_at 9176 ''DynamicCryptographicIV'' LONG_LONG_TYPE 116,
       secret_at 9177 ''CryptographicAdditionalKey'' (NRaw 12) 124]) h] @
     [fixed_structure 23008 ''MS_SECURE_BOX_REGISTRATION_REQUEST_IN'' 42 ([
       plain_at 9170 ''BoxId'' SHORT_TYPE 40]) h] @
     [fixed_structure 23009 ''MS_SECURE_BOX_REGISTRATION_RESPONSE_OUT'' 40 [] h] @
     [fixed_structure 23000 ''MS_BOX_SIGN_ON_REQUEST_IN'' 60 ([
       plain_at 9170 ''BoxId'' SHORT_TYPE 40,
       plain_at 9120 ''BrokerID'' (NChar 5 False) 42,
       ReservedRun 47 5 ''Reserved'',
       secret_at 9173 ''SessionKey'' (NChar 8 False) 52]) h] @
     [fixed_structure 23001 ''MS_BOX_SIGN_ON_REQUEST_OUT'' 52 ([
       plain_at 9170 ''BoxId'' SHORT_TYPE 40,
       ReservedRun 42 10 ''Reserved'']) h] @
     [fixed_structure 2300 ''SIGNON_IN'' 276 cm_signon_fields h] @
     [fixed_structure 2301 ''SIGNON_OUT'' 276 cm_signon_fields h] @
     [fixed_structure 2320 ''MS_SIGNOFF_IN'' 40 [] h] @
     [fixed_structure 2321 ''MS_SIGNOFF_OUT'' 40 [] h] @
     [fixed_structure 23506 ''HEARTBEAT'' 40 [] h] @
     [fixed_structure 2302 ''ERROR_RESPONSE'' 180 (cm_sec_info 40 @ [
       plain_at 58 ''ErrorMessage'' (NChar 128 False) 52]) h] @
     [fixed_structure 1600 ''SYSTEM_INFO_REQ'' 40 [] h] @
     [fixed_structure 1601 ''SYSTEM_INFORMATION_DATA'' 94 cm_system_information_fields h] @
     map (\<lambda>(code, name). fixed_structure code name 290 cm_order_entry_fields h) [(2000, ''BOARD_LOT_IN''),
         (2040, ''ORDER_MOD_IN''),
         (2070, ''ORDER_CANCEL_IN''),
         (2073, ''ORDER_CONFIRMATION''),
         (2074, ''ORDER_MOD_CONFIRMATION''),
         (2075, ''ORDER_CANCEL_CONFIRMATION''),
         (2231, ''ORDER_ERROR''),
         (2042, ''ORDER_MOD_REJECT''),
         (2072, ''ORDER_CANCEL_REJECT''),
         (2012, ''PRICE_CONFIRMATION'')] @
     [fixed_structure 2222 ''MS_TRADE_CONFIRM'' 228 cm_trade_fields h] @
     [fixed_structure 7000 ''MESSAGE_DOWNLOAD'' 48 ([
       plain_at 9300 ''SequenceNumber'' NDouble 40]) h] @
     [fixed_structure 7011 ''MESSAGE_HEADER'' 40 [] h] @
     [fixed_structure 7031 ''MESSAGE_HEADER'' 40 [] h] @
     [record_structure 7021 ''MESSAGE_RECORD'' h 9302] @
     [fixed_structure 20000 ''ORDER_ENTRY_REQUEST_TR'' 136 cm_oe_request_tr_fields h_oe_tr] @
     map (\<lambda>code. fixed_structure code ''ORDER_OM_REQUEST_TR'' 180 (cm_om_body_fields False) h_om_tr) [20040, 20070] @
     map (\<lambda>code. fixed_structure code ''ORDER_OM_RESPONSE_TR'' 216 (cm_om_body_fields True) h_om_tr) [20073, 20074, 20075, 20231, 20042, 20072, 20012] @
     [fixed_structure 20222 ''MS_TRADE_CONFIRM_TR'' 192 cm_trade_confirm_tr_fields h_trade_tr]"

definition build_cm :: "exn + nnf_dictionary" where
  "build_cm =
     bind_exn (make_header 40 cm_header_parts) (\<lambda>h.
     bind_exn (make_header 6 cm_header_oe_tr_parts) (\<lambda>h_oe_tr.
     bind_exn (make_header 24 cm_header_om_tr_parts) (\<lambda>h_om_tr.
     bind_exn (make_header 26 cm_header_trade_tr_parts) (\<lambda>h_trade_tr.
       fold_exn add_structure (cm_structures h h_oe_tr h_om_tr h_trade_tr) \<lparr>nd_header = h, nd_layouts = []\<rparr>))))"

end
