(* ===== verification/Nse_Layout_Facts.thy ===== *)
theory Nse_Layout_Facts
  imports Nse_Layouts Nnf_Tables
begin

section \<open>The structures of the equity segment are laid out correctly\<close>

text \<open>
  Every table is tiled: behind its header the parts follow one another to the size the
  specification gives, without a tag used twice. \<open>build_cm\<close> registers all structures.
\<close>

lemmas table_simps = tiled_def in_order_def make_field_def part_end_def List.map_filter_simps

lemma cm_tiles_session:
  "tiled cm_header_parts 40 [] 40"
  "tiled cm_header_parts 40 cm_signon_fields 276"
  "tiled cm_header_parts 40 cm_system_information_fields 94"
  by (simp_all add: table_simps cm_header_parts_def cm_signon_fields_def cm_broker_eligibility_def
      cm_system_information_fields_def cm_security_eligibility_def)

lemma cm_tiles_entry: "tiled cm_header_parts 40 cm_order_entry_fields 290"
  by (simp add: table_simps cm_header_parts_def cm_order_entry_fields_def cm_sec_info_def cm_order_flags_def)

lemma cm_tiles_trade: "tiled cm_header_parts 40 cm_trade_fields 228"
  by (simp add: table_simps cm_header_parts_def cm_trade_fields_def cm_sec_info_def cm_order_flags_def)

lemma cm_tiles_trimmed:
  "tiled cm_header_oe_tr_parts 6 cm_oe_request_tr_fields 136"
  "tiled cm_header_om_tr_parts 24 (cm_om_body_fields False) 180"
  "tiled cm_header_om_tr_parts 24 (cm_om_body_fields True) 216"
  "tiled cm_header_trade_tr_parts 26 cm_trade_confirm_tr_fields 192"
  by (simp_all add: table_simps cm_header_oe_tr_parts_def cm_oe_request_tr_fields_def cm_header_om_tr_parts_def
      cm_om_body_fields_def cm_header_trade_tr_parts_def cm_trade_confirm_tr_fields_def cm_sec_info_def cm_order_flags_def)

lemma cm_tiles_box:
  "tiled cm_header_parts 40 [plain_at 9170 ''BoxId'' SHORT_TYPE 40, plain_at 9120 ''BrokerID'' (NChar 5 False) 42, ReservedRun 47 1 ''Filler''] 48"
  "tiled cm_header_parts 40
     [plain_at 9170 ''BoxId'' SHORT_TYPE 40, plain_at 9120 ''BrokerID'' (NChar 5 False) 42, ReservedRun 47 1 ''Filler'',
      plain_at 9171 ''IPAddress'' (NChar 16 False) 48, plain_at 9172 ''Port'' LONG_TYPE 64,
      secret_at 9173 ''SessionKey'' (NChar 8 False) 68, secret_at 9174 ''CryptographicKey'' (NRaw 32) 76,
      secret_at 9175 ''StaticCryptographicIV'' (NRaw 8) 108, secret_at 9176 ''DynamicCryptographicIV'' LONG_LONG_TYPE 116,
      secret_at 9177 ''CryptographicAdditionalKey'' (NRaw 12) 124] 136"
  "tiled cm_header_parts 40 [plain_at 9170 ''BoxId'' SHORT_TYPE 40] 42"
  "tiled cm_header_parts 40
     [plain_at 9170 ''BoxId'' SHORT_TYPE 40, plain_at 9120 ''BrokerID'' (NChar 5 False) 42, ReservedRun 47 5 ''Reserved'',
      secret_at 9173 ''SessionKey'' (NChar 8 False) 52] 60"
  "tiled cm_header_parts 40 [plain_at 9170 ''BoxId'' SHORT_TYPE 40, ReservedRun 42 10 ''Reserved''] 52"
  "tiled cm_header_parts 40 (cm_sec_info 40 @ [plain_at 58 ''ErrorMessage'' (NChar 128 False) 52]) 180"
  "tiled cm_header_parts 40 [plain_at 9300 ''SequenceNumber'' NDouble 40] 48"
  by (simp_all add: table_simps cm_header_parts_def cm_sec_info_def)

lemma cm_codes: "distinct (map structure_type (cm_structures h h1 h2 h3))"
  by (simp add: cm_structures_def fixed_structure_def record_structure_def)

lemma cm_laid_out:
  assumes "coded_header h 40 cm_header_parts" and "coded_header h1 6 cm_header_oe_tr_parts"
    and "coded_header h2 24 cm_header_om_tr_parts" and "coded_header h3 26 cm_header_trade_tr_parts"
  shows "list_all laid_out (cm_structures h h1 h2 h3)"
  unfolding cm_structures_def
  by (simp add: laid_out_fixed [OF assms(1) cm_tiles_box(1)] laid_out_fixed [OF assms(1) cm_tiles_box(2)]
      laid_out_fixed [OF assms(1) cm_tiles_box(3)] laid_out_fixed [OF assms(1) cm_tiles_box(4)]
      laid_out_fixed [OF assms(1) cm_tiles_box(5)] laid_out_fixed [OF assms(1) cm_tiles_box(6)]
      laid_out_fixed [OF assms(1) cm_tiles_box(7)] laid_out_fixed [OF assms(1) cm_tiles_session(1)]
      laid_out_fixed [OF assms(1) cm_tiles_session(2)] laid_out_fixed [OF assms(1) cm_tiles_session(3)]
      laid_out_fixed [OF assms(1) cm_tiles_entry] laid_out_fixed [OF assms(1) cm_tiles_trade]
      laid_out_fixed [OF assms(2) cm_tiles_trimmed(1)] laid_out_fixed [OF assms(3) cm_tiles_trimmed(2)]
      laid_out_fixed [OF assms(3) cm_tiles_trimmed(3)] laid_out_fixed [OF assms(4) cm_tiles_trimmed(4)]
      laid_out_record [OF assms(1) cm_tiles_session(1)] del: One_nat_def)

lemma cm_headers:
  obtains h h1 h2 h3 where
    "make_header 40 cm_header_parts = Inr h" "coded_header h 40 cm_header_parts"
    "make_header 6 cm_header_oe_tr_parts = Inr h1" "coded_header h1 6 cm_header_oe_tr_parts"
    "make_header 24 cm_header_om_tr_parts = Inr h2" "coded_header h2 24 cm_header_om_tr_parts"
    "make_header 26 cm_header_trade_tr_parts = Inr h3" "coded_header h3 26 cm_header_trade_tr_parts"
  by (simp add: make_header_def coded_header_def code_field_def make_field_def cm_header_parts_def
      cm_header_oe_tr_parts_def cm_header_om_tr_parts_def cm_header_trade_tr_parts_def)

lemma cm_built:
  obtains d h h1 h2 h3 where "build_cm = Inr d" "list_all (usable d) (map snd (nd_layouts d))" "distinct (map fst (nd_layouts d))"
    "length (nd_layouts d) = 40" "nd_layouts d = map (\<lambda>s. (structure_type s, s)) (cm_structures h h1 h2 h3)"
    "coded_header h 40 cm_header_parts" "coded_header h1 6 cm_header_oe_tr_parts" "coded_header h2 24 cm_header_om_tr_parts" "coded_header h3 26 cm_header_trade_tr_parts"
    "make_header 6 cm_header_oe_tr_parts = Inr h1"
proof -
  obtain h h1 h2 h3 where h: "make_header 40 cm_header_parts = Inr h" "coded_header h 40 cm_header_parts"
      "make_header 6 cm_header_oe_tr_parts = Inr h1" "coded_header h1 6 cm_header_oe_tr_parts"
      "make_header 24 cm_header_om_tr_parts = Inr h2" "coded_header h2 24 cm_header_om_tr_parts"
      "make_header 26 cm_header_trade_tr_parts = Inr h3" "coded_header h3 26 cm_header_trade_tr_parts"
    by (rule cm_headers)
  let ?ss = "cm_structures h h1 h2 h3"
  let ?d = "\<lparr>nd_header = h, nd_layouts = map (\<lambda>s. (structure_type s, s)) ?ss\<rparr>"
  have "build_cm = Inr ?d" using register_all [OF cm_codes] by (simp add: build_cm_def h)
  moreover have "list_all (usable ?d) ?ss"
    by (rule all_usable [OF cm_codes cm_laid_out [OF h(2,4,6,8)]]) (use h(2) in simp_all)
  then have "list_all (usable ?d) (map snd (nd_layouts ?d))" by (simp add: comp_def)
  moreover have "distinct (map fst (nd_layouts ?d))" using cm_codes [of h h1 h2 h3] by (simp add: comp_def)
  moreover have "length (nd_layouts ?d) = 40" by (simp add: cm_structures_def)
  ultimately show thesis by (rule that) (use h in simp_all)
qed

text \<open>
  C33: The dictionary of the equity segment is built, under one transaction code for each of
  its structures, and every structure of it can be used: the fields leave no gap and share
  no byte, they end at the published size, no tag is used twice, the structure is found from
  its own transaction code, the code fits its field and the structure fits a packet.
\<close>

theorem cm_dictionary_usable:
  "\<exists>d. build_cm = Inr d \<and> list_all (usable d) (map snd (nd_layouts d)) \<and>
     distinct (map fst (nd_layouts d)) \<and> length (nd_layouts d) = 40"
  by (rule cm_built) blast

end
