(* ===== verification/Nnf_Claims.thy ===== *)
theory Nnf_Claims
  imports Nnf_Tables Nnf_Recovery Nse_Layout_Facts
begin

section \<open>Claims about the NNF protocol\<close>

text \<open>
  The properties of a member connection, from the cipher to a stream of messages, and of the
  store a member recovers from, each with a concrete instance. The sample is the order entry
  of the trimmed protocol, with a price and an order number of fifteen digits.
\<close>

subsection \<open>A sample order\<close>

lemma scale_price_text: "0 < p \<Longrightarrow> scale p (price_text p i) = Inr i"
proof -
  assume p: "0 < p"
  let ?n = "nat \<bar>i\<bar>"
  let ?w = "string_of_nat (?n div 10 ^ p)" and ?f = "zero_pad p (?n mod 10 ^ p)"
  have l: "length ?f = p" using p by (simp add: length_zero_pad_mod)
  then have f: "?f \<noteq> []" using p by auto
  have t: "price_text p i = (if i < 0 then ''-'' else []) @ ?w @ (if ?f = [] then [] else CHR ''.'' # ?f)"
    using f by (simp add: price_text_def Let_def)
  have d: "\<forall>c \<in> set ?w. is_digit c" "\<forall>c \<in> set ?f. is_digit c" using string_of_nat_digits zero_pad_all_digits by blast+
  have n: "nat_of_digits (?w @ ?f @ replicate (p - length ?f) (CHR ''0'')) = ?n"
    using nat_of_digits_append [of ?w ?f] l by (simp add: div_mult_mod_eq)
  show ?thesis using scale_written [OF d(1) string_of_nat_nonempty d(2) _ t] l n by simp
qed

lemma canonical_number:
  assumes "string_of_int i = t" and "nf_converter f = Shared NumberConv" and "nnf_fits (nf_type f) (WInt i)"
  shows "canonical f t"
proof -
  have "string_of_int i \<noteq> []" by (simp add: string_of_int_def)
  then show ?thesis using assms by (auto simp: canonical_def)
qed

lemma canonical_price:
  assumes "price_text p i = t" and "nf_converter f = ScaledPrice p" and "0 < p" and "nnf_fits (nf_type f) (WInt i)"
  shows "canonical f t"
proof -
  have "price_text p i \<noteq> []" by (simp add: price_text_def Let_def)
  then show ?thesis using assms scale_price_text [OF assms(3), of i] by (auto simp: canonical_def)
qed

lemma canonical_text:
  "nf_converter f = Shared TextConv \<Longrightarrow> t \<noteq> [] \<Longrightarrow> nnf_fits (nf_type f) (WText t) \<Longrightarrow> canonical f t"
  by (simp add: canonical_def)

definition sample_entry :: fix_message where
  "sample_entry = [(35, ''20000''), (34, ''7''), (9003, ''42''), (55, ''SBIN''), (9100, ''EQ''), (9110, ''1''), (54, ''1''),
     (38, ''100''), (44, ''612.50''), (9125, ''111111111111100'')]"

lemma digit_chars:
  "digit_char 0 = CHR ''0''" "digit_char 1 = CHR ''1''" "digit_char 2 = CHR ''2''" "digit_char 4 = CHR ''4''"
  "digit_char 5 = CHR ''5''" "digit_char 6 = CHR ''6''" "digit_char 7 = CHR ''7''"
  by code_simp+

lemma field_parts:
  "nf_tag (make_field t n ty k c r) = t" "nf_type (make_field t n ty k c r) = ty"
  "nf_converter (make_field t n ty k None r) = default_converter ty"
  by (simp_all add: make_field_def)

lemma sample_numbers:
  "string_of_int 20000 = ''20000''" "string_of_int 7 = ''7''" "string_of_int 42 = ''42''" "string_of_int 1 = ''1''" "string_of_int 100 = ''100''"
  "string_of_int 111111111111100 = ''111111111111100''" "price_text 2 61250 = ''612.50''"
  by (simp_all add: string_of_int_def price_text_def zero_pad_def Let_def string_of_nat.simps digit_chars [unfolded One_nat_def] del: digit_char.simps)

lemma sample_get: "msg_get sample_entry tag =
   (if tag = 35 then Some ''20000'' else if tag = 34 then Some ''7'' else if tag = 9003 then Some ''42'' else
    if tag = 55 then Some ''SBIN'' else if tag = 9100 then Some ''EQ'' else if tag = 9110 then Some ''1'' else
    if tag = 54 then Some ''1'' else if tag = 38 then Some ''100'' else if tag = 44 then Some ''612.50'' else
    if tag = 9125 then Some ''111111111111100'' else None)"
  by (simp add: sample_entry_def msg_get_def)

lemma sample_texts: "\<not> is_space CHR ''S''" "\<not> is_space CHR ''N''" "\<not> is_space CHR ''E''" "\<not> is_space CHR ''Q''"
  by code_simp+

lemma sample_canonical:
  "canonical (make_field 35 n SHORT_TYPE k None False) ''20000''"
  "canonical (make_field 9003 n LONG_TYPE k None False) ''42''"
  "canonical (make_field 55 n (NChar 10 False) k None False) ''SBIN''"
  "canonical (make_field 9100 n (NChar 2 False) k None False) ''EQ''"
  "canonical (make_field 9110 n SHORT_TYPE k None False) ''1''"
  "canonical (make_field 54 n SHORT_TYPE k None False) ''1''"
  "canonical (make_field 38 n LONG_TYPE k None False) ''100''"
  "canonical (make_field 44 n LONG_TYPE k (Some PAISE) False) ''612.50''"
  "canonical (make_field 9125 n NDouble k None False) ''111111111111100''"
  by (rule canonical_number [OF sample_numbers(1)] canonical_number [OF sample_numbers(3)]
        canonical_number [OF sample_numbers(4)] canonical_number [OF sample_numbers(5)]
        canonical_number [OF sample_numbers(6)] canonical_price [OF sample_numbers(7)] canonical_text;
      simp add: make_field_def sample_texts)+

lemma sample_carried: "\<forall>p \<in> set (cm_header_oe_tr_parts @ cm_oe_request_tr_fields). carries sample_entry p"
  unfolding cm_header_oe_tr_parts_def cm_oe_request_tr_fields_def cm_sec_info_def cm_order_flags_def
  by (simp add: sample_get sample_canonical field_parts)

lemma sample_sendable:
  obtains d where "build_cm = Inr d" "sendable d sample_entry"
proof -
  obtain d h h1 h2 h3 where d: "build_cm = Inr d" "list_all (usable d) (map snd (nd_layouts d))"
      "nd_layouts d = map (\<lambda>s. (structure_type s, s)) (cm_structures h h1 h2 h3)"
      "coded_header h1 6 cm_header_oe_tr_parts" "make_header 6 cm_header_oe_tr_parts = Inr h1"
    by (rule cm_built) blast
  let ?s = "fixed_structure 20000 ''ORDER_ENTRY_REQUEST_TR'' 136 cm_oe_request_tr_fields h1"
  have m: "?s \<in> set (cm_structures h h1 h2 h3)" by (simp add: cm_structures_def)
  have "structure_type ?s = ''20000''" by (simp add: fixed_structure_def sample_numbers)
  then have "structure_of d (Some ''20000'') = Some ?s"
    using registered [OF cm_codes m] by (simp add: structure_of_def d(3))
  moreover have "usable d ?s" using d(2) m by (auto simp: d(3) list_all_iff)
  moreover have "hl_length_tag h1 = None" using d(5) by (auto simp: make_header_def cm_header_oe_tr_parts_def make_field_def bind_exn_Inr)
  moreover have "msg_type_of sample_entry = Some ''20000''" "msg_seq_num sample_entry = Some 7"
    using int_of_string_of_int(2) [of 7] by (simp_all add: msg_type_of_def msg_seq_num_def msg_get_int_def sample_get sample_numbers)
  ultimately have "sendable d sample_entry"
    using d(4) sample_carried
    by (simp add: sendable_def fixed_structure_def set_length_def sample_numbers all_parts_def coded_header_def del: usable.simps)
  with d(1) show thesis by (rule that)
qed

subsection \<open>The properties\<close>

text \<open>
  C30: messages that are encoded one after another all become packets, under whichever cipher
  the two ends share; however the stream of these packets is cut, the framer of the other end
  restores exactly them, and its codec decodes every one to the message that was sent, in
  order, field by field.
\<close>

theorem stream_arrives_however_cut:
  assumes "conversation k member exchange [] []" and "list_all (sendable d) ms"
  shows "\<exists>a' raws. encode_all \<lparr>nx_layouts = d, nx_cipher = member\<rparr> ms = (a', map Inr raws) \<and>
    (\<forall>chunks. concat chunks = concat raws \<longrightarrow> feed_with packet_loop [] chunks = Inr (raws, [])) \<and>
    list_all2 (arrives d) ms (snd (decode_all \<lparr>nx_layouts = d, nx_cipher = exchange\<rparr> raws))"
proof -
  have "cipher_linked member exchange" using conversation_invariant [OF assms(1)] by simp
  then obtain a' raws b' rs where r: "encode_all \<lparr>nx_layouts = d, nx_cipher = member\<rparr> ms = (a', map Inr raws)"
      "list_all is_packet raws" "decode_all \<lparr>nx_layouts = d, nx_cipher = exchange\<rparr> raws = (b', rs)" "list_all2 (arrives d) ms rs"
    using stream_arrives [OF _ _ _ assms(2), of "\<lparr>nx_layouts = d, nx_cipher = member\<rparr>" "\<lparr>nx_layouts = d, nx_cipher = exchange\<rparr>"] by auto
  have "feed_with packet_loop [] chunks = Inr (raws, [])" if "concat chunks = concat raws" for chunks
    by (rule nnf_framing.feed_stream) (use r(2) that in \<open>auto simp: list_all_iff\<close>)
  with r show ?thesis by auto
qed

definition sample_material :: material where
  "sample_material = NewMaterial (replicate 32 NUL) (replicate 16 NUL) (replicate 12 NUL) Big"

lemma sample_new: "\<exists>c. make_new (replicate 32 NUL) (replicate 16 NUL) (replicate 12 NUL) client layout = Inr c"
  by (simp add: make_new_def make_gcm_def make_aes_def iv_bytes_def aad_bytes_def key_bytes_def bind_exn_def)

lemma sample_ciphers: "\<exists>c. cipher_of client sample_material = Inr c"
  using sample_new [of client "Some Big"] by (auto simp: sample_material_def)

theorem stream_arrives_however_cut_witness:
  "\<exists>d member exchange raws. build_cm = Inr d \<and> cipher_of True sample_material = Inr member \<and> cipher_of False sample_material = Inr exchange \<and>
     snd (encode_all \<lparr>nx_layouts = d, nx_cipher = member\<rparr> [sample_entry, sample_entry]) = map Inr raws \<and>
     feed_with packet_loop [] (map (\<lambda>c. [c]) (concat raws)) = Inr (raws, []) \<and>
     list_all2 (arrives d) [sample_entry, sample_entry] (snd (decode_all \<lparr>nx_layouts = d, nx_cipher = exchange\<rparr> raws))"
proof -
  obtain d where d: "build_cm = Inr d" "sendable d sample_entry" by (rule sample_sendable)
  obtain member exchange where c: "cipher_of True sample_material = Inr member" "cipher_of False sample_material = Inr exchange"
    using sample_ciphers by blast
  have ms: "list_all (sendable d) [sample_entry, sample_entry]" using d(2) by simp
  obtain a' raws where r: "encode_all \<lparr>nx_layouts = d, nx_cipher = member\<rparr> [sample_entry, sample_entry] = (a', map Inr raws)"
      "\<forall>chunks. concat chunks = concat raws \<longrightarrow> feed_with packet_loop [] chunks = Inr (raws, [])"
      "list_all2 (arrives d) [sample_entry, sample_entry] (snd (decode_all \<lparr>nx_layouts = d, nx_cipher = exchange\<rparr> raws))"
    using stream_arrives_however_cut [OF conversation.opened [OF c] ms] by blast
  have "concat (map (\<lambda>c. [c]) xs) = xs" for xs :: bytes by (induction xs) simp_all
  then show ?thesis using d(1) c r by auto
qed

text \<open>
  C31: in a conversation over any of the three ciphers, whatever the two ends have sealed and
  opened and in whatever order, the next message under way in either direction opens to what
  was sealed, with its checksum or tag verified.
\<close>

theorem conversation_opens_what_was_sealed:
  assumes "conversation k member exchange up down"
  shows "(case up of [] \<Rightarrow> True | ((bs, tag), data) # _ \<Rightarrow> snd (cipher_open exchange bs (Some tag)) = Inr data) \<and>
    (case down of [] \<Rightarrow> True | ((bs, tag), data) # _ \<Rightarrow> snd (cipher_open member bs (Some tag)) = Inr data)"
  using conversation_invariant [OF assms] cipher_duplex.head_opens by (auto split: list.split)

theorem conversation_opens_what_was_sealed_witness:
  "\<exists>member exchange bs tag bs' tag'.
     conversation sample_material member exchange [((bs, tag), ''order'')] [((bs', tag'), ''price'')] \<and>
     snd (cipher_open exchange bs (Some tag)) = Inr ''order'' \<and> snd (cipher_open member bs' (Some tag')) = Inr ''price''"
proof -
  obtain member exchange where c: "cipher_of True sample_material = Inr member" "cipher_of False sample_material = Inr exchange"
    using sample_ciphers by blast
  obtain member' bs tag where m: "cipher_seal member ''order'' = (member', bs, tag)" by (metis prod.collapse)
  obtain exchange' bs' tag' where e: "cipher_seal exchange ''price'' = (exchange', bs', tag')" by (metis prod.collapse)
  have "conversation sample_material member' exchange [((bs, tag), ''order'')] []"
    using conversation.member_seals [OF conversation.opened [OF c] m] by simp
  then have v: "conversation sample_material member' exchange' [((bs, tag), ''order'')] [((bs', tag'), ''price'')]"
    using conversation.exchange_seals e by fastforce
  have "snd (cipher_open exchange' bs (Some tag)) = Inr ''order'' \<and> snd (cipher_open member' bs' (Some tag')) = Inr ''price''"
    using conversation_opens_what_was_sealed [OF v] by simp
  with v show ?thesis by blast
qed

text \<open>
  The cipher of the unmodified protocol is one keystream over the whole connection: the
  messages of one direction, sealed one by one, are together the encryption of their
  concatenation.
\<close>

theorem messages_share_one_keystream:
  "concat (map fst (snd (seal_all (ExistingCipher c) ms))) = apply_keystream (ec_gcm c) (ec_counter c) (concat ms) (ec_sent c)"
  by (rule seal_all_existing)

lemma sealing_ivs_settle: "sealing_ivs (settle (nc_endian c) c) n = sealing_ivs c n"
proof (cases n)
  case (Suc k)
  have e: "nc_endian (settle (nc_endian c) c) = nc_endian c" "settle e (settle (nc_endian c) c) = settle (nc_endian c) c" for e
    by (simp_all add: settle_def)
  have "new_seal (settle (nc_endian c) c) [] = new_seal c []" unfolding new_seal_def e by (rule refl)
  then show ?thesis by (simp add: Suc)
qed simp

text \<open>
  No initialisation vector is used twice on a connection: those of the first messages a
  member seals and of the first ones the exchange seals are all different, as long as they
  are fewer than two to the sixty-fourth.
\<close>

theorem no_vector_is_used_twice:
  assumes "make_new key iv aad True layout = Inr a" and "make_new key iv aad False layout = Inr b" and "m + n < 2 ^ 64"
  shows "distinct (sealing_ivs a m @ sealing_ivs b n)"
proof -
  let ?a = "settle (nc_endian a) a" and ?b = "settle (nc_endian b) b"
  have "distinct (sealing_ivs ?a m @ sealing_ivs ?b n)"
    using assms by (intro walking_ivs_distinct) (auto elim!: make_new_fields simp: new_settled_def settle_def split: if_splits)
  then show ?thesis by (simp only: sealing_ivs_settle)
qed

theorem no_vector_is_used_twice_witness:
  "\<exists>a b. make_new (replicate 32 NUL) (replicate 16 NUL) (replicate 12 NUL) True None = Inr a \<and>
     make_new (replicate 32 NUL) (replicate 16 NUL) (replicate 12 NUL) False None = Inr b \<and>
     distinct (sealing_ivs a 3 @ sealing_ivs b 3)"
proof -
  obtain a b where c: "make_new (replicate 32 NUL) (replicate 16 NUL) (replicate 12 NUL) True None = Inr a"
    "make_new (replicate 32 NUL) (replicate 16 NUL) (replicate 12 NUL) False None = Inr b"
    using sample_new by blast
  show ?thesis using c no_vector_is_used_twice [OF c, of 3 3] by simp
qed

text \<open>
  An end that does not know the byte order of the dynamic vector learns it from the first
  message, whichever order the member uses, and from then on the two are in step, unless the
  tag of that message also verifies under the other order.
\<close>

theorem byte_order_is_detected:
  assumes "make_new key iv aad True (Some layout) = Inr a" and "make_new key iv aad False None = Inr b"
    and "new_seal a data = (a', sealed)" and "\<not> ambiguous_tag a' sealed"
  shows "snd (new_open b (fst sealed) (Some (snd sealed))) = Inr data \<and> new_linked a' (fst (new_open b (fst sealed) (Some (snd sealed))))"
proof -
  have "detecting a b" using assms(1,2) by (elim make_new_fields) (auto simp: detecting_def new_settled_def)
  then show ?thesis using detecting_opens [OF _ assms(3,4)] by (metis fst_conv snd_conv)
qed

theorem byte_order_is_detected_witness:
  "\<exists>a b a' sealed. make_new (replicate 32 NUL) (replicate 16 NUL) (replicate 12 NUL) True (Some Little) = Inr a \<and>
     make_new (replicate 32 NUL) (replicate 16 NUL) (replicate 12 NUL) False None = Inr b \<and>
     new_seal a ''order'' = (a', sealed) \<and> snd (new_open b (fst sealed) (Some (snd sealed))) = Inr ''order''"
proof -
  obtain a b where c: "make_new (replicate 32 NUL) (replicate 16 NUL) (replicate 12 NUL) True (Some Little) = Inr a"
    "make_new (replicate 32 NUL) (replicate 16 NUL) (replicate 12 NUL) False None = Inr b"
    using sample_new by blast
  obtain a' sealed where s: "new_seal a ''order'' = (a', sealed)" by (metis prod.collapse)
  have "nc_endian a = Little" "new_settled a" using c(1) by (auto elim!: make_new_fields simp: new_settled_def)
  then have "\<not> ambiguous_tag a' sealed" using s by (auto simp: new_seal_settled ambiguous_tag_def)
  then show ?thesis using byte_order_is_detected [OF c s] c s by blast
qed

abbreviation held :: "(int \<times> fix_message) list \<Rightarrow> int \<Rightarrow> message_store" where
  "held rs n \<equiv> \<lparr>ms_capacity = 2, ms_records = [(7, rs)], ms_last = n\<rparr>"

lemma filing:
  assumes j: "to_nse_jiffies f = Inr 131072"
  shows "file_all (\<lambda>t. True) id [(7, f, x), (7, f, x), (7, f, x)] (make_store 2, \<lambda>u. []) =
    Inr (held [(131073, x), (131074, x)] 131074, (\<lambda>u. [])(7 := [(131072, x), (131073, x), (131074, x)]))"
proof -
  have q: "store_sequence f (make_store 2) = Inr (131072, (make_store 2)\<lparr>ms_last := 131072\<rparr>)"
    "store_sequence f (held rs 131072) = Inr (131073, held rs 131073)" "store_sequence f (held rs 131073) = Inr (131074, held rs 131074)" for rs
    using j by (simp_all add: store_sequence_def bind_exn_def make_store_def)
  have r: "store_record (\<lambda>t. True) id 7 131072 x ((make_store 2)\<lparr>ms_last := 131072\<rparr>) = (True, held [(131072, x)] 131072)"
    "store_record (\<lambda>t. True) id 7 131073 x (held [(131072, x)] 131073) = (True, held [(131072, x), (131073, x)] 131073)"
    "store_record (\<lambda>t. True) id 7 131074 x (held [(131072, x), (131073, x)] 131074) = (True, held [(131073, x), (131074, x)] 131074)"
    by (simp_all add: Let_def store_record_def records_of_def make_store_def)
  show ?thesis
    by (simp only: file_all.simps q r sum.case prod.case if_True fun_upd_same fun_upd_upd append.simps id_apply)
qed
text \<open>
  C32: messages filed with any clock readings reach a store whose cursors rise strictly for
  every user, that keeps at most its capacity for each, and whose download after a cursor,
  unless it is reported as truncated, is everything recoverable the user was sent since.
\<close>

theorem download_is_complete_unless_truncated:
  assumes "1 \<le> capacity" and "file_all recoverable normalise es (make_store capacity, \<lambda>u. []) = Inr (st, h)"
  shows "sorted_wrt (<) (map fst (h u)) \<and> int (store_count st u) \<le> capacity \<and>
    (store_truncated st u s \<or> store_after st u s = filter (\<lambda>r. fst r > s) (h u))"
proof -
  have "store_inv (make_store capacity, \<lambda>u. [])"
    using assms(1) by (simp add: store_inv_def make_store_def records_of_def ring_def)
  then have i: "store_inv (st, h)" "ms_capacity st = capacity" using file_all_inv [OF assms(2)] by (simp_all add: make_store_def)
  then have r: "records_of st u = ring capacity (h u)" "sorted_wrt (<) (map fst (h u))" by (simp_all add: store_inv_def)
  have "int (store_count st u) \<le> capacity" using assms(1) by (simp add: store_count_def r(1) ring_def)
  then show ?thesis using r(2) after_complete [OF i(1)] by blast
qed

lemma sample_jiffies: "to_nse_jiffies (Finite False 315532802 0) = Inr 131072"
  by (simp add: to_nse_jiffies_def float_of_int_def bind_exn_def epoch_offset_def jiffies_per_second_def float_sub_def
      signed_def round_dyadic_def round_ratio_def bit_length.simps scaled_ratio_def nearest_even_def Let_def)

theorem download_is_complete_unless_truncated_witness:
  "\<exists>st h. file_all (\<lambda>t. True) id [(7, Finite False 315532802 0, sample_entry), (7, Finite False 315532802 0, sample_entry), (7, Finite False 315532802 0, sample_entry)]
     (make_store 2, \<lambda>u. []) = Inr (st, h) \<and> map fst (h 7) = [131072, 131073, 131074] \<and> store_truncated st 7 0 \<and>
     \<not> store_truncated st 7 131073 \<and> store_after st 7 131073 = [(131074, sample_entry)]"
proof -
  let ?es = "[(7, Finite False 315532802 0, sample_entry), (7, Finite False 315532802 0, sample_entry), (7, Finite False 315532802 0, sample_entry)]"
  let ?st = "held [(131073, sample_entry), (131074, sample_entry)] 131074"
  note f = filing [OF sample_jiffies, of sample_entry]
  have "store_truncated ?st 7 0" "\<not> store_truncated ?st 7 131073"
    by (simp_all add: store_truncated_def records_of_def)
  with f obtain st h where r: "file_all (\<lambda>t. True) id ?es (make_store 2, \<lambda>u. []) = Inr (st, h)"
      "h 7 = [(131072, sample_entry), (131073, sample_entry), (131074, sample_entry)]" "store_truncated st 7 0" "\<not> store_truncated st 7 131073"
    by (metis fun_upd_same)
  have "store_after st 7 131073 = filter (\<lambda>r. fst r > 131073) (h 7)"
    using download_is_complete_unless_truncated [of 2 "\<lambda>t. True" id ?es st h 7 131073] r(1,4) by simp
  with r show ?thesis by auto
qed

end
