(* ===== verification/Nsefo_Layouts.thy ===== *)
theory Nsefo_Layouts
  imports Nnf_Layout
begin

section \<open>The structures of the derivatives segment (\<open>venues/nsefo/layouts.py\<close>)\<close>

text \<open>
  The tables of the module, field by field, as in \<open>Nse_Layouts\<close>; the tags and the
  transaction codes are those of \<open>nsefo/dictionary.py\<close> and \<open>nsefo/transactions.py\<close>.
\<close>

definition fo_header_parts :: "layout_part list" where
  "fo_header_parts =
     [
       plain_at 35 ''TransactionCode'' SHORT_TYPE 0,
       plain_at 9400 ''LogTime'' LONG_TYPE 2,
       plain_at 9401 ''AlphaChar'' (NChar 2 False) 6,
       plain_at 9402 ''TraderId'' LONG_TYPE 8,
       plain_at 9403 ''ErrorCode'' SHORT_TYPE 12,
       plain_at 9404 ''Timestamp'' LONG_LONG_TYPE 14,
       plain_at 9405 ''TimeStamp1'' LONG_LONG_TYPE 22,
       plain_at 9406 ''TimeStamp2'' LONG_LONG_TYPE 30,
       plain_at 9407 ''MessageLength'' SHORT_TYPE 38]"

definition fo_contract_desc :: "nat \<Rightarrow> layout_part list" where
  "fo_contract_desc offset =
     [
       plain_at 9410 ''InstrumentName'' (NChar 6 False) offset,
       plain_at 55 ''Symbol'' (NChar 10 False) (offset + 6),
       plain_at 9411 ''ExpiryDate'' LONG_TYPE (offset + 16),
       conv_at 9412 ''StrikePrice'' LONG_TYPE (offset + 20) STRIKE,
       plain_at 9413 ''OptionType'' (NChar 2 False) (offset + 24),
       plain_at 9414 ''CALevel'' SHORT_TYPE (offset + 26)]"

definition fo_order_flags :: "nat \<Rightarrow> layout_part" where
  "fo_order_flags offset =
     FlagBits ''ST_ORDER_FLAGS'' offset 2 [Some 9620, Some 9621, Some 9622, Some 9623, Some 9624, Some 9625, Some 9626, Some 9627, Some 9628, Some 9629, Some 9630, Some 9631, Some 9632, Some 9633, None, None]"

definition fo_additional_order_flags :: "nat \<Rightarrow> layout_part" where
  "fo_additional_order_flags offset =
     FlagBits ''ADDITIONAL_ORDER_FLAGS'' offset 1 [None, None, None, Some 9602, None, None, Some 9601, Some 9600]"

definition fo_security_eligibility :: "nat \<Rightarrow> layout_part" where
  "fo_security_eligibility offset =
     FlagBits ''SecurityEligibleIndicators'' offset 2 [Some 9576, Some 9577, Some 9578, None, None, None, None, None, None, None, None, None, None, None, None, None]"

definition fo_market_status :: "nat \<Rightarrow> int \<Rightarrow> int \<Rightarrow> int \<Rightarrow> int \<Rightarrow> layout_part list" where
  "fo_market_status offset normal oddlot spot auction =
     [
       plain_at normal ''Normal'' SHORT_TYPE offset,
       plain_at oddlot ''Oddlot'' SHORT_TYPE (offset + 2),
       plain_at spot ''Spot'' SHORT_TYPE (offset + 4),
       plain_at auction ''Auction'' SHORT_TYPE (offset + 6)]"

definition fo_order_request_fields :: "layout_part list" where
  "fo_order_request_fields =
     fo_contract_desc 58 @ [
       plain_at 9440 ''ParticipantType'' (NChar 1 False) 40,
       ReservedRun 41 1 ''Reserved'',
       plain_at 9441 ''CompetitorPeriod'' SHORT_TYPE 42,
       plain_at 9442 ''SolicitorPeriod'' SHORT_TYPE 44,
       plain_at 9443 ''ModCxlBy'' (NChar 1 False) 46,
       ReservedRun 47 1 ''Reserved'',
       plain_at 9444 ''ReasonCode'' SHORT_TYPE 48,
       ReservedRun 50 4 ''Reserved'',
       plain_at 9445 ''TokenNo'' LONG_TYPE 54,
       plain_at 9446 ''CounterPartyBrokerId'' (NChar 5 False) 86,
       ReservedRun 91 1 ''Reserved'',
       ReservedRun 92 2 ''Reserved'',
       plain_at 9447 ''CloseoutFlag'' (NChar 1 False) 94,
       ReservedRun 95 1 ''Reserved'',
       plain_at 9448 ''OrderType'' SHORT_TYPE 96,
       plain_at 37 ''OrderNumber'' NDouble 98,
       plain_at 1 ''AccountNumber'' (NChar 10 False) 106,
       plain_at 9449 ''BookType'' SHORT_TYPE 116,
       plain_at 54 ''BuySellIndicator'' SHORT_TYPE 118,
       plain_at 9450 ''DisclosedVolume'' LONG_TYPE 120,
       plain_at 9451 ''DisclosedVolumeRemaining'' LONG_TYPE 124,
       plain_at 151 ''TotalVolumeRemaining'' LONG_TYPE 128,
       plain_at 38 ''Volume'' LONG_TYPE 132,
       plain_at 14 ''VolumeFilledToday'' LONG_TYPE 136,
       conv_at 44 ''Price'' LONG_TYPE 140 PAISE,
       conv_at 9452 ''TriggerPrice'' LONG_TYPE 144 PAISE,
       plain_at 9453 ''GoodTillDate'' LONG_TYPE 148,
       plain_at 9454 ''EntryDateTime'' LONG_TYPE 152,
       plain_at 9455 ''MinimumFillOrAonVolume'' LONG_TYPE 156,
       plain_at 9456 ''LastModified'' LONG_TYPE 160,
       fo_order_flags 164,
       plain_at 9457 ''BranchId'' SHORT_TYPE 166,
       plain_at 9458 ''TraderId'' LONG_TYPE 168,
       plain_at 9459 ''BrokerId'' (NChar 5 False) 172,
       ReservedRun 177 24 ''cOrdFiller'',
       plain_at 9460 ''OpenClose'' (NChar 1 False) 201,
       plain_at 9461 ''Settlor'' (NChar 12 False) 202,
       plain_at 9462 ''ProClient'' SHORT_TYPE 214,
       plain_at 9463 ''SettlementPeriod'' SHORT_TYPE 216,
       fo_additional_order_flags 218,
       ReservedRun 219 1 ''Reserved'',
       ReservedRun 220 4 ''Reserved'',
       plain_at 9464 ''NNFField'' NDouble 224,
       plain_at 9465 ''MktReplay'' LONG_LONG_TYPE 232,
       plain_at 9466 ''PAN'' (NChar 10 False) 240,
       plain_at 9467 ''AlgoID'' LONG_TYPE 250,
       ReservedRun 254 2 ''Reserved'',
       plain_at 9468 ''LastActivityReference'' LONG_LONG_TYPE 256,
       ReservedRun 264 52 ''Reserved'']"

definition fo_price_mod_fields :: "layout_part list" where
  "fo_price_mod_fields =
     [
       plain_at 9445 ''TokenNo'' LONG_TYPE 40,
       plain_at 9458 ''TraderID'' LONG_TYPE 44,
       plain_at 37 ''OrderNumber'' NDouble 48,
       plain_at 54 ''BuySell'' SHORT_TYPE 56,
       conv_at 44 ''Price'' LONG_TYPE 58 PAISE,
       plain_at 38 ''Volume'' LONG_TYPE 62,
       plain_at 9456 ''LastModified'' LONG_TYPE 66,
       plain_at 9490 ''Reference'' (NChar 4 False) 70,
       plain_at 9468 ''LastActivityReference'' LONG_LONG_TYPE 74,
       ReservedRun 82 24 ''Reserved'']"

definition fo_trade_fields :: "layout_part list" where
  "fo_trade_fields =
     [
       plain_at 9500 ''ResponseOrderNumber'' NDouble 40,
       plain_at 9459 ''BrokerId'' (NChar 5 False) 48,
       ReservedRun 53 1 ''Reserved'',
       plain_at 9501 ''TraderNumber'' LONG_TYPE 54,
       plain_at 1 ''AccountNumber'' (NChar 10 False) 58,
       plain_at 54 ''BuySellIndicator'' SHORT_TYPE 68,
       plain_at 38 ''OriginalVolume'' LONG_TYPE 70,
       plain_at 9450 ''DisclosedVolume'' LONG_TYPE 74,
       plain_at 151 ''RemainingVolume'' LONG_TYPE 78,
       plain_at 9451 ''DisclosedVolumeRemaining'' LONG_TYPE 82,
       conv_at 44 ''Price'' LONG_TYPE 86 PAISE,
       fo_order_flags 90,
       plain_at 9453 ''GoodTillDate'' LONG_TYPE 92,
       plain_at 9502 ''FillNumber'' LONG_TYPE 96,
       plain_at 32 ''FillQuantity'' LONG_TYPE 100,
       conv_at 31 ''FillPrice'' LONG_TYPE 104 PAISE,
       plain_at 14 ''VolumeFilledToday'' LONG_TYPE 108,
       plain_at 9503 ''ActivityType'' (NChar 2 False) 112,
       plain_at 9504 ''ActivityTime'' LONG_TYPE 114,
       plain_at 9505 ''CounterTraderOrderNumber'' NDouble 118,
       plain_at 9506 ''CounterBrokerId'' (NChar 5 False) 126,
       ReservedRun 131 1 ''Reserved'',
       plain_at 9445 ''Token'' LONG_TYPE 132] @ fo_contract_desc 136 @ [
       plain_at 9460 ''OpenClose'' (NChar 1 False) 164,
       plain_at 9507 ''OldOpenClose'' (NChar 1 False) 165,
       plain_at 9449 ''BookType'' (NChar 1 False) 166,
       ReservedRun 167 1 ''Reserved'',
       ReservedRun 168 4 ''Reserved'',
       plain_at 9508 ''OldAccountNumber'' (NChar 10 False) 172,
       plain_at 9509 ''Participant'' (NChar 12 False) 182,
       plain_at 9510 ''OldParticipant'' (NChar 12 False) 194,
       fo_additional_order_flags 206,
       ReservedRun 207 1 ''Reserved'',
       ReservedRun 208 1 ''Reserved'',
       ReservedRun 209 1 ''ReservedFiller2'',
       plain_at 9466 ''PAN'' (NChar 10 False) 210,
       plain_at 9511 ''OldPAN'' (NChar 10 False) 220,
       plain_at 9467 ''AlgoID'' LONG_TYPE 230,
       ReservedRun 234 2 ''Reserved'',
       plain_at 9468 ''LastActivityReference'' LONG_LONG_TYPE 236,
       ReservedRun 244 52 ''Reserved'']"

definition fo_signon_fields :: "layout_part list" where
  "fo_signon_fields =
     [
       plain_at 9530 ''UserId'' LONG_TYPE 40,
       ReservedRun 44 8 ''Reserved'',
       secret_at 9531 ''Password'' (NChar 8 False) 52,
       ReservedRun 60 8 ''Reserved'',
       secret_at 9532 ''NewPassword'' (NChar 8 False) 68,
       plain_at 9533 ''TraderName'' (NChar 26 False) 76,
       plain_at 9534 ''LastPasswordChangeDate'' LONG_TYPE 102,
       plain_at 9459 ''BrokerId'' (NChar 5 False) 106,
       ReservedRun 111 1 ''Reserved'',
       plain_at 9457 ''BranchId'' SHORT_TYPE 112,
       plain_at 9535 ''VersionNumber'' LONG_TYPE 114,
       plain_at 9536 ''Batch2StartTimeOrEndTime'' LONG_TYPE 118,
       plain_at 9537 ''HostSwitchContext'' (NChar 1 False) 122,
       plain_at 9538 ''Colour'' (NChar 50 False) 123,
       ReservedRun 173 1 ''Reserved'',
       plain_at 9539 ''UserType'' SHORT_TYPE 174,
       plain_at 9540 ''SequenceNumber'' NDouble 176,
       plain_at 9541 ''WsClassName'' (NChar 14 False) 184,
       plain_at 9542 ''BrokerStatus'' (NChar 1 False) 198,
       plain_at 9543 ''ShowIndex'' (NChar 1 False) 199,
       ReservedRun 200 2 ''ST_BROKER_ELIGIBILITY_PER_MKT'',
       plain_at 9544 ''MemberType'' SHORT_TYPE 202,
       plain_at 9545 ''ClearingStatus'' (NChar 1 False) 204,
       plain_at 9546 ''BrokerName'' (NChar 25 False) 205,
       ReservedRun 230 16 ''Reserved'',
       ReservedRun 246 16 ''Reserved'',
       ReservedRun 262 16 ''Reserved'']"

definition fo_system_information_fields :: "layout_part list" where
  "fo_system_information_fields =
     fo_market_status 40 9564 9565 9566 9567 @ fo_market_status 48 9568 9569 9570 9571 @ fo_market_status 56 9572 9573 9574 9575 @ [
       plain_at 9562 ''UpdatePortfolio'' (NChar 1 False) 64,
       plain_at 9550 ''MarketIndex'' LONG_TYPE 65,
       plain_at 9551 ''DefaultSettlementPeriodNormal'' SHORT_TYPE 69,
       plain_at 9552 ''DefaultSettlementPeriodSpot'' SHORT_TYPE 71,
       plain_at 9553 ''DefaultSettlementPeriodAuction'' SHORT_TYPE 73,
       plain_at 9441 ''CompetitorPeriod'' SHORT_TYPE 75,
       plain_at 9442 ''SolicitorPeriod'' SHORT_TYPE 77,
       plain_at 9554 ''WarningPercent'' SHORT_TYPE 79,
       plain_at 9555 ''VolumeFreezePercent'' SHORT_TYPE 81,
       plain_at 9556 ''SnapQuoteTime'' SHORT_TYPE 83,
       ReservedRun 85 2 ''Reserved'',
       plain_at 9557 ''BoardLotQuantity'' LONG_TYPE 87,
       conv_at 9558 ''TickSize'' LONG_TYPE 91 PAISE,
       plain_at 9559 ''MaximumGtcDays'' SHORT_TYPE 95,
       fo_security_eligibility 97,
       plain_at 9560 ''DisclosedQuantityPercentAllowed'' SHORT_TYPE 99,
       plain_at 9561 ''RiskFreeInterestRate'' LONG_TYPE 101,
       ReservedRun 105 1 ''Reserved'']"

definition fo_contract_desc_tr :: "nat \<Rightarrow> layout_part list" where
  "fo_contract_desc_tr offset =
     [
       plain_at 9410 ''InstrumentName'' (NChar 6 False) offset,
       plain_at 55 ''Symbol'' (NChar 10 False) (offset + 6),
       plain_at 9411 ''ExpiryDate'' LONG_TYPE (offset + 16),
       conv_at 9412 ''StrikePrice'' LONG_TYPE (offset + 20) STRIKE,
       plain_at 9413 ''OptionType'' (NChar 2 False) (offset + 24)]"

definition fo_header_oe_tr_parts :: "layout_part list" where
  "fo_header_oe_tr_parts =
     [
       plain_at 35 ''TransactionCode'' SHORT_TYPE 0,
       plain_at 9402 ''UserID'' LONG_TYPE 2,
       plain_at 9444 ''ReasonCode'' SHORT_TYPE 6]"

definition fo_header_om_tr_parts :: "layout_part list" where
  "fo_header_om_tr_parts =
     [
       plain_at 35 ''TransactionCode'' SHORT_TYPE 0,
       plain_at 9402 ''UserID'' LONG_TYPE 2,
       plain_at 9443 ''ModifiedOrCancelledBy'' (NChar 1 False) 6,
       ReservedRun 7 1 ''Filler'']"

definition fo_header_oe_response_tr_parts :: "layout_part list" where
  "fo_header_oe_response_tr_parts =
     [
       plain_at 35 ''TransactionCode'' SHORT_TYPE 0,
       plain_at 9400 ''LogTime'' LONG_TYPE 2,
       plain_at 9402 ''UserId'' LONG_TYPE 6,
       plain_at 9403 ''ErrorCode'' SHORT_TYPE 10,
       plain_at 9405 ''TimeStamp1'' LONG_LONG_TYPE 12,
       plain_at 9406 ''TimeStamp2'' BYTE_TYPE 20,
       plain_at 9443 ''ModifiedOrCancelledBy'' (NChar 1 False) 21]"

definition fo_header_trade_tr_parts :: "layout_part list" where
  "fo_header_trade_tr_parts =
     [
       plain_at 35 ''TransactionCode'' SHORT_TYPE 0,
       plain_at 9400 ''LogTime'' LONG_TYPE 2,
       plain_at 9402 ''TraderId'' LONG_TYPE 6,
       plain_at 9404 ''Timestamp'' LONG_LONG_TYPE 10,
       plain_at 9405 ''Timestamp1'' NDouble 18,
       plain_at 9406 ''Timestamp2'' NDouble 26]"

definition fo_oe_request_tr_fields :: "layout_part list" where
  "fo_oe_request_tr_fields =
     [
       plain_at 9445 ''TokenNo'' LONG_TYPE 8] @ fo_contract_desc_tr 12 @ [
       plain_at 1 ''AccountNumber'' (NChar 10 False) 38,
       plain_at 9449 ''BookType'' SHORT_TYPE 48,
       plain_at 54 ''BuySellIndicator'' SHORT_TYPE 50,
       plain_at 9450 ''DisclosedVolume'' LONG_TYPE 52,
       plain_at 38 ''Volume'' LONG_TYPE 56,
       conv_at 44 ''Price'' LONG_TYPE 60 PAISE,
       plain_at 9453 ''GoodTillDate'' LONG_TYPE 64,
       fo_order_flags 68,
       plain_at 9457 ''BranchId'' SHORT_TYPE 70,
       plain_at 9458 ''TraderId'' LONG_TYPE 72,
       plain_at 9459 ''BrokerId'' (NChar 5 False) 76,
       plain_at 9460 ''OpenClose'' (NChar 1 False) 81,
       plain_at 9461 ''Settlor'' (NChar 12 False) 82,
       plain_at 9462 ''ProClientIndicator'' SHORT_TYPE 94,
       fo_additional_order_flags 96,
       ReservedRun 97 1 ''Filler'',
       ReservedRun 98 4 ''Filler'',
       plain_at 9464 ''NnfField'' NDouble 102,
       plain_at 9466 ''PAN'' (NChar 10 False) 110,
       plain_at 9467 ''AlgoID'' LONG_TYPE 120,
       ReservedRun 124 2 ''Reserved'',
       ReservedRun 126 32 ''Reserved'']"

definition fo_om_request_tr_fields :: "layout_part list" where
  "fo_om_request_tr_fields =
     [
       plain_at 9445 ''TokenNo'' LONG_TYPE 8] @ fo_contract_desc_tr 12 @ [
       plain_at 37 ''OrderNumber'' NDouble 38,
       plain_at 1 ''AccountNumber'' (NChar 10 False) 46,
       plain_at 9449 ''BookType'' SHORT_TYPE 56,
       plain_at 54 ''BuySellIndicator'' SHORT_TYPE 58,
       plain_at 9450 ''DisclosedVolume'' LONG_TYPE 60,
       plain_at 9451 ''DisclosedVolumeRemaining'' LONG_TYPE 64,
       plain_at 151 ''TotalVolumeRemaining'' LONG_TYPE 68,
       plain_at 38 ''Volume'' LONG_TYPE 72,
       plain_at 14 ''VolumeFilledToday'' LONG_TYPE 76,
       conv_at 44 ''Price'' LONG_TYPE 80 PAISE,
       plain_at 9453 ''GoodTillDate'' LONG_TYPE 84,
       plain_at 9454 ''EntryDateTime'' LONG_TYPE 88,
       plain_at 9456 ''LastModified'' LONG_TYPE 92,
       fo_order_flags 96,
       plain_at 9457 ''BranchId'' SHORT_TYPE 98,
       plain_at 9458 ''TraderId'' LONG_TYPE 100,
       plain_at 9459 ''BrokerId'' (NChar 5 False) 104,
       plain_at 9460 ''OpenClose'' (NChar 1 False) 109,
       plain_at 9461 ''Settlor'' (NChar 12 False) 110,
       plain_at 9462 ''ProClientIndicator'' SHORT_TYPE 122,
       fo_additional_order_flags 124,
       ReservedRun 125 1 ''Filler'',
       ReservedRun 126 4 ''Filler'',
       plain_at 9464 ''NnfField'' NDouble 130,
       plain_at 9466 ''PAN'' (NChar 10 False) 138,
       plain_at 9467 ''AlgoID'' LONG_TYPE 148,
       ReservedRun 152 2 ''Reserved'',
       plain_at 9468 ''LastActivityReference'' LONG_LONG_TYPE 154,
       ReservedRun 162 24 ''Reserved'']"

definition fo_oe_response_tr_fields :: "layout_part list" where
  "fo_oe_response_tr_fields =
     [
       plain_at 9444 ''ReasonCode'' SHORT_TYPE 22,
       plain_at 9445 ''TokenNo'' LONG_TYPE 24] @ fo_contract_desc_tr 28 @ [
       plain_at 9447 ''CloseoutFlag'' (NChar 1 False) 54,
       ReservedRun 55 1 ''Filler'',
       plain_at 37 ''OrderNumber'' NDouble 56,
       plain_at 1 ''AccountNumber'' (NChar 10 False) 64,
       plain_at 9449 ''BookType'' SHORT_TYPE 74,
       plain_at 54 ''BuySellIndicator'' SHORT_TYPE 76,
       plain_at 9450 ''DisclosedVolume'' LONG_TYPE 78,
       plain_at 9451 ''DisclosedVolumeRemaining'' LONG_TYPE 82,
       plain_at 151 ''TotalVolumeRemaining'' LONG_TYPE 86,
       plain_at 38 ''Volume'' LONG_TYPE 90,
       plain_at 14 ''VolumeFilledToday'' LONG_TYPE 94,
       conv_at 44 ''Price'' LONG_TYPE 98 PAISE,
       plain_at 9453 ''GoodTillDate'' LONG_TYPE 102,
       plain_at 9454 ''EntryDateTime'' LONG_TYPE 106,
       plain_at 9456 ''LastModified'' LONG_TYPE 110,
       fo_order_flags 114,
       plain_at 9457 ''BranchId'' SHORT_TYPE 116,
       plain_at 9458 ''TraderId'' LONG_TYPE 118,
       plain_at 9459 ''BrokerId'' (NChar 5 False) 122,
       plain_at 9460 ''OpenClose'' (NChar 1 False) 127,
       plain_at 9461 ''Settlor'' (NChar 12 False) 128,
       plain_at 9462 ''ProClientIndicator'' SHORT_TYPE 140,
       fo_additional_order_flags 142,
       ReservedRun 143 1 ''Filler'',
       ReservedRun 144 4 ''Filler'',
       plain_at 9464 ''NnfField'' NDouble 148,
       plain_at 9404 ''Timestamp'' LONG_LONG_TYPE 156,
       plain_at 9466 ''PAN'' (NChar 10 False) 164,
       plain_at 9467 ''AlgoID'' LONG_TYPE 174,
       ReservedRun 178 2 ''Reserved'',
       plain_at 9468 ''LastActivityReference'' LONG_LONG_TYPE 180,
       ReservedRun 188 52 ''Reserved'']"

definition fo_trade_confirm_tr_fields :: "layout_part list" where
  "fo_trade_confirm_tr_fields =
     [
       plain_at 9500 ''ResponseOrderNumber'' NDouble 34,
       plain_at 9459 ''BrokerId'' (NChar 5 False) 42,
       ReservedRun 47 1 ''Reserved'',
       plain_at 1 ''AccountNumber'' (NChar 10 False) 48,
       plain_at 54 ''BuySellIndicator'' SHORT_TYPE 58,
       plain_at 38 ''OriginalVolume'' LONG_TYPE 60,
       plain_at 9450 ''DisclosedVolume'' LONG_TYPE 64,
       plain_at 151 ''RemainingVolume'' LONG_TYPE 68,
       plain_at 9451 ''DisclosedVolumeRemaining'' LONG_TYPE 72,
       conv_at 44 ''Price'' LONG_TYPE 76 PAISE,
       fo_order_flags 80,
       plain_at 9453 ''GoodTillDate'' LONG_TYPE 82,
       plain_at 9502 ''FillNumber'' LONG_TYPE 86,
       plain_at 32 ''FillQuantity'' LONG_TYPE 90,
       conv_at 31 ''FillPrice'' LONG_TYPE 94 PAISE,
       plain_at 14 ''VolumeFilledToday'' LONG_TYPE 98,
       plain_at 9503 ''ActivityType'' (NChar 2 False) 102,
       plain_at 9504 ''ActivityTime'' LONG_TYPE 104,
       plain_at 9445 ''Token'' LONG_TYPE 108] @ fo_contract_desc_tr 112 @ [
       plain_at 9460 ''OpenClose'' (NChar 1 False) 138,
       plain_at 9449 ''BookType'' (NChar 1 False) 139,
       plain_at 9509 ''Participant'' (NChar 12 False) 140,
       fo_additional_order_flags 152,
       plain_at 9466 ''PAN'' (NChar 10 False) 153,
       ReservedRun 163 1 ''Filler'',
       plain_at 9467 ''AlgoID'' LONG_TYPE 164,
       ReservedRun 168 2 ''Reserved'',
       plain_at 9468 ''LastActivityReference'' LONG_LONG_TYPE 170,
       ReservedRun 178 52 ''Reserved'']"

definition fo_spread_leg_fields :: "nat \<Rightarrow> layout_part list" where
  "fo_spread_leg_fields offset =
     [
       plain_at 9701 ''Token2'' LONG_TYPE offset,
       plain_at 9702 ''InstrumentName2'' (NChar 6 False) (offset + 4),
       plain_at 9703 ''Symbol2'' (NChar 10 False) (offset + 10),
       plain_at 9704 ''ExpiryDate2'' LONG_TYPE (offset + 20),
       conv_at 9705 ''StrikePrice2'' LONG_TYPE (offset + 24) STRIKE,
       plain_at 9706 ''OptionType2'' (NChar 2 False) (offset + 28),
       plain_at 9707 ''CALevel2'' SHORT_TYPE (offset + 30),
       ReservedRun (offset + 32) 5 ''OpBrokerId2'',
       ReservedRun (offset + 37) 1 ''Fillerx2'',
       plain_at 9718 ''OrderType2'' SHORT_TYPE (offset + 38),
       plain_at 9708 ''BuySell2'' SHORT_TYPE (offset + 40),
       plain_at 9709 ''DisclosedVol2'' LONG_TYPE (offset + 42),
       plain_at 9710 ''DisclosedVolRemaining2'' LONG_TYPE (offset + 46),
       plain_at 9711 ''TotalVolRemaining2'' LONG_TYPE (offset + 50),
       plain_at 9712 ''Volume2'' LONG_TYPE (offset + 54),
       plain_at 9713 ''VolumeFilledToday2'' LONG_TYPE (offset + 58),
       conv_at 9714 ''Price2'' LONG_TYPE (offset + 62) PAISE,
       conv_at 9715 ''TriggerPrice2'' LONG_TYPE (offset + 66) PAISE,
       plain_at 9716 ''MinFillAon2'' LONG_TYPE (offset + 70),
       ReservedRun (offset + 74) 2 ''ST_ORDER_FLAGS'',
       plain_at 9717 ''OpenClose2'' (NChar 1 False) (offset + 76),
       ReservedRun (offset + 77) 1 ''ADDITIONAL_ORDER_FLAGS'',
       ReservedRun (offset + 78) 1 ''Reserved'',
       ReservedRun (offset + 79) 1 ''FillerY'']"

definition fo_spread_request_fields :: "layout_part list" where
  "fo_spread_request_fields =
     fo_order_request_fields  @ [
       conv_at 9700 ''PriceDiff'' LONG_TYPE 316 PAISE] @ fo_spread_leg_fields 320 @ [
       ReservedRun 400 80 ''MS_SPD_LEG_INFO (leg 3)'']"

definition fo_structures :: "header_layout \<Rightarrow> header_layout \<Rightarrow> header_layout \<Rightarrow> header_layout \<Rightarrow> header_layout \<Rightarrow> nnf_structure list" where
  "fo_structures h h_oe_tr h_om_tr h_oe_response_tr h_trade_tr =
     [fixed_structure 2400 ''MS_GR_REQUEST'' 48 ([
       plain_at 9650 ''BoxId'' SHORT_TYPE 40,
       plain_at 9459 ''BrokerID'' (NChar 5 False) 42,
       ReservedRun 47 1 ''Filler'']) h] @
     [fixed_structure 2401 ''MS_GR_RESPONSE'' 136 ([
       plain_at 9650 ''BoxId'' SHORT_TYPE 40,
       plain_at 9459 ''BrokerID'' (NChar 5 False) 42,
       ReservedRun 47 1 ''Filler'',
       plain_at 9651 ''IPAddress'' (NChar 16 False) 48,
       plain_at 9652 ''Port'' LONG_TYPE 64,
       secret_at 9653 ''SessionKey'' (NChar 8 False) 68,
       secret_at 9654 ''CryptographicKey'' (NRaw 32) 76,
       secret_at 9655 ''StaticCryptographicIV'' (NRaw 8) 108,
       secret_at 9656 ''DynamicCryptographicIV'' LONG_LONG_TYPE 116,
       secret_at 9657 ''CryptographicAdditionalKey'' (NRaw 12) 124]) h] @
     [fixed_structure 23008 ''MS_SECURE_BOX_REGISTRATION_REQUEST_IN'' 42 ([
       plain_at 9650 ''BoxId'' SHORT_TYPE 40]) h] @
     [fixed_structure 23009 ''MS_SECURE_BOX_REGISTRATION_RESPONSE_OUT'' 40 [] h] @
     [fixed_structure 23000 ''MS_BOX_SIGN_ON_REQUEST_IN'' 60 ([
       plain_at 9650 ''BoxId'' SHORT_TYPE 40,
       plain_at 9459 ''BrokerID'' (NChar 5 False) 42,
       ReservedRun 47 5 ''Reserved'',
       secret_at 9653 ''SessionKey'' (NChar 8 False) 52]) h] @
     [fixed_structure 23001 ''MS_BOX_SIGN_ON_REQUEST_OUT'' 52 ([
       plain_at 9650 ''BoxId'' SHORT_TYPE 40,
       ReservedRun 42 10 ''Reserved'']) h] @
     [fixed_structure 20322 ''MS_BOX_SIGN_OFF'' 42 ([
       plain_at 9650 ''BoxId'' SHORT_TYPE 40]) h] @
     [fixed_structure 2300 ''MS_SIGNON'' 278 fo_signon_fields h] @
     [fixed_structure 2301 ''MS_SIGNON'' 278 fo_signon_fields h] @
     [fixed_structure 2320 ''SIGN_OFF_REQUEST_IN'' 40 [] h] @
     [fixed_structure 2321 ''SIGNOFF_OUT'' 190 ([
       plain_at 9547 ''UserId'' LONG_TYPE 40,
       ReservedRun 44 146 ''Reserved'']) h] @
     [fixed_structure 23506 ''HEARTBEAT'' 40 [] h] @
     [fixed_structure 2302 ''MS_ERROR_RESPONSE'' 182 ([
       plain_at 9491 ''Key'' (NChar 14 False) 40,
       plain_at 58 ''ErrorMessage'' (NChar 128 False) 54]) h] @
     [fixed_structure 1600 ''MS_SYSTEM_INFO_REQ'' 44 ([
       plain_at 9563 ''LastUpdatePortfolioTime'' LONG_TYPE 40]) h] @
     [fixed_structure 1601 ''MS_SYSTEM_INFO_DATA'' 106 fo_system_information_fields h] @
     map (\<lambda>code. fixed_structure code ''MS_OE_REQUEST'' 316 fo_order_request_fields h) [2000, 2040, 2070, 2073, 2074, 2075, 2231, 2042, 2072, 2012] @
     [fixed_structure 2013 ''PRICE_MOD'' 106 fo_price_mod_fields h] @
     [fixed_structure 2222 ''MS_TRADE_CONFIRM'' 296 fo_trade_fields h] @
     [fixed_structure 7000 ''MS_MESSAGE_DOWNLOAD'' 48 ([
       plain_at 9492 ''SequenceNumber'' NDouble 40]) h] @
     [fixed_structure 7011 ''MESSAGE_HEADER'' 40 [] h] @
     [fixed_structure 7031 ''MESSAGE_HEADER'' 40 [] h] @
     [record_structure 7021 ''MESSAGE_RECORD'' h 9493] @
     map (\<lambda>code. fixed_structure code ''MS_SPD_OE_REQUEST'' 480 fo_spread_request_fields h) [2100, 2118, 2106, 2124, 2136, 2130, 2154, 2133, 2127, 9004, 2102, 2104, 2125, 2126, 2131, 2132, 2155, 2156] @
     [fixed_structure 20000 ''MS_OE_REQUEST_TR'' 158 fo_oe_request_tr_fields h_oe_tr] @
     map (\<lambda>code. fixed_structure code ''MS_OM_REQUEST_TR'' 186 fo_om_request_tr_fields h_om_tr) [20040, 20070] @
     map (\<lambda>code. fixed_structure code ''MS_OE_RESPONSE_TR'' 240 fo_oe_response_tr_fields h_oe_response_tr) [20073, 20074, 20075] @
     [fixed_structure 20222 ''MS_TRADE_CONFIRM_TR'' 230 fo_trade_confirm_tr_fields h_trade_tr]"

definition build_fo :: "exn + nnf_dictionary" where
  "build_fo =
     bind_exn (make_header 40 fo_header_parts) (\<lambda>h.
     bind_exn (make_header 8 fo_header_oe_tr_parts) (\<lambda>h_oe_tr.
     bind_exn (make_header 8 fo_header_om_tr_parts) (\<lambda>h_om_tr.
     bind_exn (make_header 22 fo_header_oe_response_tr_parts) (\<lambda>h_oe_response_tr.
     bind_exn (make_header 34 fo_header_trade_tr_parts) (\<lambda>h_trade_tr.
       fold_exn add_structure (fo_structures h h_oe_tr h_om_tr h_oe_response_tr h_trade_tr) \<lparr>nd_header = h, nd_layouts = []\<rparr>)))))"

end
