(* ===== verification/Nsefo_Layout_Facts.thy ===== *)
theory Nsefo_Layout_Facts
  imports Nsefo_Layouts Nnf_Tables
begin

section \<open>The structures of the derivatives segment are laid out correctly\<close>

text \<open>
  As for the equity segment: every table is tiled behind its header, in the order of the
  offsets where the table is not, and \<open>build_fo\<close> registers all structures.
\<close>

lemmas fo_table_simps = tiled_def in_order_def make_field_def part_end_def List.map_filter_simps

lemma fo_tiles_session:
  "tiled fo_header_parts 40 [] 40"
  "tiled fo_header_parts 40 fo_signon_fields 278"
  "tiled fo_header_parts 40 fo_system_information_fields 106"
  by (simp_all add: fo_table_simps fo_header_parts_def fo_signon_fields_def fo_market_status_def
      fo_system_information_fields_def fo_security_eligibility_def)

lemma fo_tiles_entry: "tiled fo_header_parts 40 fo_order_request_fields 316"
  by (simp add: fo_table_simps fo_header_parts_def fo_order_request_fields_def fo_contract_desc_def
      fo_order_flags_def fo_additional_order_flags_def)

lemma fo_tiles_spread: "tiled fo_header_parts 40 fo_spread_request_fields 480"
  by (simp add: fo_table_simps fo_header_parts_def fo_spread_request_fields_def fo_spread_leg_fields_def
      fo_order_request_fields_def fo_contract_desc_def fo_order_flags_def fo_additional_order_flags_def)

lemma fo_tiles_trade:
  "tiled fo_header_parts 40 fo_trade_fields 296"
  "tiled fo_header_parts 40 fo_price_mod_fields 106"
  by (simp_all add: fo_table_simps fo_header_parts_def fo_trade_fields_def fo_price_mod_fields_def fo_contract_desc_def
      fo_order_flags_def fo_additional_order_flags_def)

lemma fo_tiles_trimmed:
  "tiled fo_header_oe_tr_parts 8 fo_oe_request_tr_fields 158"
  "tiled fo_header_om_tr_parts 8 fo_om_request_tr_fields 186"
  "tiled fo_header_oe_response_tr_parts 22 fo_oe_response_tr_fields 240"
  "tiled fo_header_trade_tr_parts 34 fo_trade_confirm_tr_fields 230"
  by (simp_all add: fo_table_simps fo_header_oe_tr_parts_def fo_oe_request_tr_fields_def fo_header_om_tr_parts_def
      fo_om_request_tr_fields_def fo_header_oe_response_tr_parts_def fo_oe_response_tr_fields_def
      fo_header_trade_tr_parts_def fo_trade_confirm_tr_fields_def fo_contract_desc_tr_def
      fo_order_flags_def fo_additional_order_flags_def)

lemma fo_tiles_box:
  "tiled fo_header_parts 40 [plain_at 9650 ''BoxId'' SHORT_TYPE 40, plain_at 9459 ''BrokerID'' (NChar 5 False) 42, ReservedRun 47 1 ''Filler''] 48"
  "tiled fo_header_parts 40
     [plain_at 9650 ''BoxId'' SHORT_TYPE 40, plain_at 9459 ''BrokerID'' (NChar 5 False) 42, ReservedRun 47 1 ''Filler'',
      plain_at 9651 ''IPAddress'' (NChar 16 False) 48, plain_at 9652 ''Port'' LONG_TYPE 64,
      secret_at 9653 ''SessionKey'' (NChar 8 False) 68, secret_at 9654 ''CryptographicKey'' (NRaw 32) 76,
      secret_at 9655 ''StaticCryptographicIV'' (NRaw 8) 108, secret_at 9656 ''DynamicCryptographicIV'' LONG_LONG_TYPE 116,
      secret_at 9657 ''CryptographicAdditionalKey'' (NRaw 12) 124] 136"
  "tiled fo_header_parts 40 [plain_at 9650 ''BoxId'' SHORT_TYPE 40] 42"
  "tiled fo_header_parts 40
     [plain_at 9650 ''BoxId'' SHORT_TYPE 40, plain_at 9459 ''BrokerID'' (NChar 5 False) 42, ReservedRun 47 5 ''Reserved'',
      secret_at 9653 ''SessionKey'' (NChar 8 False) 52] 60"
  "tiled fo_header_parts 40 [plain_at 9650 ''BoxId'' SHORT_TYPE 40, ReservedRun 42 10 ''Reserved''] 52"
  "tiled fo_header_parts 40 [plain_at 9547 ''UserId'' LONG_TYPE 40, ReservedRun 44 146 ''Reserved''] 190"
  "tiled fo_header_parts 40 [plain_at 9491 ''Key'' (NChar 14 False) 40, plain_at 58 ''ErrorMessage'' (NChar 128 False) 54] 182"
  "tiled fo_header_parts 40 [plain_at 9563 ''LastUpdatePortfolioTime'' LONG_TYPE 40] 44"
  "tiled fo_header_parts 40 [plain_at 9492 ''SequenceNumber'' NDouble 40] 48"
  by (simp_all add: fo_table_simps fo_header_parts_def)

lemma fo_codes: "distinct (map structure_type (fo_structures h h1 h2 h3 h4))"
  by (simp add: fo_structures_def fixed_structure_def record_structure_def)

lemma fo_laid_out:
  assumes "coded_header h 40 fo_header_parts" and "coded_header h1 8 fo_header_oe_tr_parts"
    and "coded_header h2 8 fo_header_om_tr_parts" and "coded_header h3 22 fo_header_oe_response_tr_parts"
    and "coded_header h4 34 fo_header_trade_tr_parts"
  shows "list_all laid_out (fo_structures h h1 h2 h3 h4)"
  unfolding fo_structures_def
  by (simp add: laid_out_fixed [OF assms(1) fo_tiles_box(1)] laid_out_fixed [OF assms(1) fo_tiles_box(2)]
      laid_out_fixed [OF assms(1) fo_tiles_box(3)] laid_out_fixed [OF assms(1) fo_tiles_box(4)]
      laid_out_fixed [OF assms(1) fo_tiles_box(5)] laid_out_fixed [OF assms(1) fo_tiles_box(6)]
      laid_out_fixed [OF assms(1) fo_tiles_box(7)] laid_out_fixed [OF assms(1) fo_tiles_box(8)]
      laid_out_fixed [OF assms(1) fo_tiles_box(9)] laid_out_fixed [OF assms(1) fo_tiles_session(1)]
      laid_out_fixed [OF assms(1) fo_tiles_session(2)] laid_out_fixed [OF assms(1) fo_tiles_session(3)]
      laid_out_fixed [OF assms(1) fo_tiles_entry] laid_out_fixed [OF assms(1) fo_tiles_spread]
      laid_out_fixed [OF assms(1) fo_tiles_trade(1)] laid_out_fixed [OF assms(1) fo_tiles_trade(2)]
      laid_out_fixed [OF assms(2) fo_tiles_trimmed(1)] laid_out_fixed [OF assms(3) fo_tiles_trimmed(2)]
      laid_out_fixed [OF assms(4) fo_tiles_trimmed(3)] laid_out_fixed [OF assms(5) fo_tiles_trimmed(4)]
      laid_out_record [OF assms(1) fo_tiles_session(1)] del: One_nat_def)

lemma fo_headers:
  obtains h h1 h2 h3 h4 where
    "make_header 40 fo_header_parts = Inr h" "coded_header h 40 fo_header_parts"
    "make_header 8 fo_header_oe_tr_parts = Inr h1" "coded_header h1 8 fo_header_oe_tr_parts"
    "make_header 8 fo_header_om_tr_parts = Inr h2" "coded_header h2 8 fo_header_om_tr_parts"
    "make_header 22 fo_header_oe_response_tr_parts = Inr h3" "coded_header h3 22 fo_header_oe_response_tr_parts"
    "make_header 34 fo_header_trade_tr_parts = Inr h4" "coded_header h4 34 fo_header_trade_tr_parts"
  by (simp add: make_header_def coded_header_def code_field_def make_field_def fo_header_parts_def
      fo_header_oe_tr_parts_def fo_header_om_tr_parts_def fo_header_oe_response_tr_parts_def fo_header_trade_tr_parts_def)

lemma fo_built:
  obtains d h h1 h2 h3 h4 where "build_fo = Inr d" "list_all (usable d) (map snd (nd_layouts d))" "distinct (map fst (nd_layouts d))"
    "length (nd_layouts d) = 56" "nd_layouts d = map (\<lambda>s. (structure_type s, s)) (fo_structures h h1 h2 h3 h4)"
    "coded_header h 40 fo_header_parts" "coded_header h1 8 fo_header_oe_tr_parts" "coded_header h2 8 fo_header_om_tr_parts" "coded_header h3 22 fo_header_oe_response_tr_parts" "coded_header h4 34 fo_header_trade_tr_parts"
proof -
  obtain h h1 h2 h3 h4 where h: "make_header 40 fo_header_parts = Inr h" "coded_header h 40 fo_header_parts"
      "make_header 8 fo_header_oe_tr_parts = Inr h1" "coded_header h1 8 fo_header_oe_tr_parts"
      "make_header 8 fo_header_om_tr_parts = Inr h2" "coded_header h2 8 fo_header_om_tr_parts"
      "make_header 22 fo_header_oe_response_tr_parts = Inr h3" "coded_header h3 22 fo_header_oe_response_tr_parts"
      "make_header 34 fo_header_trade_tr_parts = Inr h4" "coded_header h4 34 fo_header_trade_tr_parts"
    by (rule fo_headers)
  let ?ss = "fo_structures h h1 h2 h3 h4"
  let ?d = "\<lparr>nd_header = h, nd_layouts = map (\<lambda>s. (structure_type s, s)) ?ss\<rparr>"
  have "build_fo = Inr ?d" using register_all [OF fo_codes] by (simp add: build_fo_def h)
  moreover have "list_all (usable ?d) ?ss"
    by (rule all_usable [OF fo_codes fo_laid_out [OF h(2,4,6,8,10)]]) (use h(2) in simp_all)
  then have "list_all (usable ?d) (map snd (nd_layouts ?d))" by (simp add: comp_def)
  moreover have "distinct (map fst (nd_layouts ?d))" using fo_codes [of h h1 h2 h3 h4] by (simp add: comp_def)
  moreover have "length (nd_layouts ?d) = 56" by (simp add: fo_structures_def)
  ultimately show thesis by (rule that) (use h in simp_all)
qed

text \<open>
  The dictionary of the derivatives segment, spread structures included, is built, under
  one transaction code for each of its structures, and every structure of it can be used: the
  fields leave no gap and share no byte, they end at the published size, no tag is used
  twice, the structure is found from its own code and fits a packet.
\<close>

theorem fo_dictionary_usable:
  "\<exists>d. build_fo = Inr d \<and> list_all (usable d) (map snd (nd_layouts d)) \<and>
     distinct (map fst (nd_layouts d)) \<and> length (nd_layouts d) = 56"
  by (rule fo_built) blast

end
