(* ===== verification/Nse_Codes.thy ===== *)
theory Nse_Codes
  imports Fix_Dictionary
begin

section \<open>Transaction codes of both segments (\<open>nse/transactions.py\<close>, \<open>nsefo/transactions.py\<close>)\<close>

text \<open>
  A transaction code is what the protocol has instead of a message type. The two modules give
  the codes they share the same numbers. The builders of the dialects follow.
\<close>

abbreviation X_GR_REQUEST :: int where "X_GR_REQUEST \<equiv> 2400"
abbreviation X_GR_RESPONSE :: int where "X_GR_RESPONSE \<equiv> 2401"
abbreviation X_SECURE_BOX_REGISTRATION_REQUEST_IN :: int where "X_SECURE_BOX_REGISTRATION_REQUEST_IN \<equiv> 23008"
abbreviation X_SECURE_BOX_REGISTRATION_REQUEST_OUT :: int where "X_SECURE_BOX_REGISTRATION_REQUEST_OUT \<equiv> 23009"
abbreviation X_BOX_SIGN_ON_REQUEST_IN :: int where "X_BOX_SIGN_ON_REQUEST_IN \<equiv> 23000"
abbreviation X_BOX_SIGN_ON_REQUEST_OUT :: int where "X_BOX_SIGN_ON_REQUEST_OUT \<equiv> 23001"
abbreviation X_SIGN_ON_REQUEST_IN :: int where "X_SIGN_ON_REQUEST_IN \<equiv> 2300"
abbreviation X_SIGN_ON_REQUEST_OUT :: int where "X_SIGN_ON_REQUEST_OUT \<equiv> 2301"
abbreviation X_SIGN_OFF_REQUEST_IN :: int where "X_SIGN_OFF_REQUEST_IN \<equiv> 2320"
abbreviation X_SIGN_OFF_REQUEST_OUT :: int where "X_SIGN_OFF_REQUEST_OUT \<equiv> 2321"
abbreviation X_ERROR_RESPONSE_OUT :: int where "X_ERROR_RESPONSE_OUT \<equiv> 2302"
abbreviation X_HEARTBEAT :: int where "X_HEARTBEAT \<equiv> 23506"
abbreviation X_SYSTEM_INFORMATION_IN :: int where "X_SYSTEM_INFORMATION_IN \<equiv> 1600"
abbreviation X_SYSTEM_INFORMATION_OUT :: int where "X_SYSTEM_INFORMATION_OUT \<equiv> 1601"
abbreviation X_BOARD_LOT_IN :: int where "X_BOARD_LOT_IN \<equiv> 2000"
abbreviation X_BOARD_LOT_OUT :: int where "X_BOARD_LOT_OUT \<equiv> 2001"
abbreviation X_PRICE_CONFIRMATION :: int where "X_PRICE_CONFIRMATION \<equiv> 2012"
abbreviation X_ORDER_MOD_IN :: int where "X_ORDER_MOD_IN \<equiv> 2040"
abbreviation X_ORDER_MOD_REJECT :: int where "X_ORDER_MOD_REJECT \<equiv> 2042"
abbreviation X_ORDER_CANCEL_IN :: int where "X_ORDER_CANCEL_IN \<equiv> 2070"
abbreviation X_ORDER_CANCEL_OUT :: int where "X_ORDER_CANCEL_OUT \<equiv> 2071"
abbreviation X_ORDER_CANCEL_REJECT :: int where "X_ORDER_CANCEL_REJECT \<equiv> 2072"
abbreviation X_ORDER_CONFIRMATION :: int where "X_ORDER_CONFIRMATION \<equiv> 2073"
abbreviation X_ORDER_MOD_CONFIRMATION :: int where "X_ORDER_MOD_CONFIRMATION \<equiv> 2074"
abbreviation X_ORDER_CANCEL_CONFIRMATION :: int where "X_ORDER_CANCEL_CONFIRMATION \<equiv> 2075"
abbreviation X_ORDER_ERROR :: int where "X_ORDER_ERROR \<equiv> 2231"
abbreviation X_FREEZE_TO_CONTROL :: int where "X_FREEZE_TO_CONTROL \<equiv> 2170"
abbreviation X_BATCH_ORDER_CANCEL :: int where "X_BATCH_ORDER_CANCEL \<equiv> 9002"
abbreviation X_TRADE_CONFIRMATION :: int where "X_TRADE_CONFIRMATION \<equiv> 2222"
abbreviation X_ON_STOP_NOTIFICATION :: int where "X_ON_STOP_NOTIFICATION \<equiv> 2212"
abbreviation X_TRADE_CANCEL_CONFIRM :: int where "X_TRADE_CANCEL_CONFIRM \<equiv> 2282"
abbreviation X_TRADE_CANCEL_REJECT :: int where "X_TRADE_CANCEL_REJECT \<equiv> 2286"
abbreviation X_TRADE_MODIFY_CONFIRM :: int where "X_TRADE_MODIFY_CONFIRM \<equiv> 2287"
abbreviation X_BOARD_LOT_IN_TR :: int where "X_BOARD_LOT_IN_TR \<equiv> 20000"
abbreviation X_ORDER_MOD_IN_TR :: int where "X_ORDER_MOD_IN_TR \<equiv> 20040"
abbreviation X_ORDER_MOD_REJECT_TR :: int where "X_ORDER_MOD_REJECT_TR \<equiv> 20042"
abbreviation X_ORDER_CANCEL_IN_TR :: int where "X_ORDER_CANCEL_IN_TR \<equiv> 20070"
abbreviation X_ORDER_CANCEL_REJECT_TR :: int where "X_ORDER_CANCEL_REJECT_TR \<equiv> 20072"
abbreviation X_ORDER_CONFIRMATION_TR :: int where "X_ORDER_CONFIRMATION_TR \<equiv> 20073"
abbreviation X_ORDER_MOD_CONFIRMATION_TR :: int where "X_ORDER_MOD_CONFIRMATION_TR \<equiv> 20074"
abbreviation X_ORDER_CXL_CONFIRMATION_TR :: int where "X_ORDER_CXL_CONFIRMATION_TR \<equiv> 20075"
abbreviation X_ORDER_ERROR_TR :: int where "X_ORDER_ERROR_TR \<equiv> 20231"
abbreviation X_PRICE_CONFIRMATION_TR :: int where "X_PRICE_CONFIRMATION_TR \<equiv> 20012"
abbreviation X_TRADE_CONFIRMATION_TR :: int where "X_TRADE_CONFIRMATION_TR \<equiv> 20222"
abbreviation X_TRIMMED_BOARD_LOT_ACK_IN :: int where "X_TRIMMED_BOARD_LOT_ACK_IN \<equiv> 20400"
abbreviation X_TRIMMED_ORDER_MOD_ACK_IN :: int where "X_TRIMMED_ORDER_MOD_ACK_IN \<equiv> 20402"
abbreviation X_TRIMMED_ORDER_CANCEL_ACK_IN :: int where "X_TRIMMED_ORDER_CANCEL_ACK_IN \<equiv> 20404"
abbreviation X_DOWNLOAD_REQUEST :: int where "X_DOWNLOAD_REQUEST \<equiv> 7000"
abbreviation X_HEADER_RECORD :: int where "X_HEADER_RECORD \<equiv> 7011"
abbreviation X_MESSAGE_RECORD :: int where "X_MESSAGE_RECORD \<equiv> 7021"
abbreviation X_TRAILER_RECORD :: int where "X_TRAILER_RECORD \<equiv> 7031"
abbreviation X_NO_ERROR :: int where "X_NO_ERROR \<equiv> 0"
abbreviation X_BOX_SIGN_OFF :: int where "X_BOX_SIGN_OFF \<equiv> 20322"
abbreviation X_PRICE_MOD_IN :: int where "X_PRICE_MOD_IN \<equiv> 2013"
abbreviation X_SP_BOARD_LOT_IN :: int where "X_SP_BOARD_LOT_IN \<equiv> 2100"
abbreviation X_SP_ORDER_CANCEL_IN :: int where "X_SP_ORDER_CANCEL_IN \<equiv> 2106"
abbreviation X_SP_ORDER_MOD_IN :: int where "X_SP_ORDER_MOD_IN \<equiv> 2118"
abbreviation X_SP_ORDER_CONFIRMATION :: int where "X_SP_ORDER_CONFIRMATION \<equiv> 2124"
abbreviation X_SP_ORDER_CXL_REJ_OUT :: int where "X_SP_ORDER_CXL_REJ_OUT \<equiv> 2127"
abbreviation X_SP_ORDER_CXL_CONFIRMATION :: int where "X_SP_ORDER_CXL_CONFIRMATION \<equiv> 2130"
abbreviation X_SP_ORDER_MOD_REJ_OUT :: int where "X_SP_ORDER_MOD_REJ_OUT \<equiv> 2133"
abbreviation X_SP_ORDER_MOD_CON_OUT :: int where "X_SP_ORDER_MOD_CON_OUT \<equiv> 2136"
abbreviation X_SP_ORDER_ERROR :: int where "X_SP_ORDER_ERROR \<equiv> 2154"
abbreviation X_BATCH_SPREAD_CXL_OUT :: int where "X_BATCH_SPREAD_CXL_OUT \<equiv> 9004"
abbreviation X_TWOL_BOARD_LOT_IN :: int where "X_TWOL_BOARD_LOT_IN \<equiv> 2102"
abbreviation X_THRL_BOARD_LOT_IN :: int where "X_THRL_BOARD_LOT_IN \<equiv> 2104"
abbreviation X_TWOL_ORDER_CONFIRMATION :: int where "X_TWOL_ORDER_CONFIRMATION \<equiv> 2125"
abbreviation X_THRL_ORDER_CONFIRMATION :: int where "X_THRL_ORDER_CONFIRMATION \<equiv> 2126"
abbreviation X_TWOL_ORDER_CXL_CONFIRMATION :: int where "X_TWOL_ORDER_CXL_CONFIRMATION \<equiv> 2131"
abbreviation X_THRL_ORDER_CXL_CONFIRMATION :: int where "X_THRL_ORDER_CXL_CONFIRMATION \<equiv> 2132"
abbreviation X_TWOL_ORDER_ERROR :: int where "X_TWOL_ORDER_ERROR \<equiv> 2155"
abbreviation X_THRL_ORDER_ERROR :: int where "X_THRL_ORDER_ERROR \<equiv> 2156"
abbreviation X_ORDER_QUICK_CANCEL_IN_TR :: int where "X_ORDER_QUICK_CANCEL_IN_TR \<equiv> 20060"
abbreviation X_PRICE_MOD_ACK_IN :: int where "X_PRICE_MOD_ACK_IN \<equiv> 20406"

definition numeric_field :: "int \<Rightarrow> string \<Rightarrow> field_def" where
  "numeric_field tag name = Fix_Dictionary.make_field tag name FT_INT None None None None"

definition text_field :: "int \<Rightarrow> string \<Rightarrow> nat option \<Rightarrow> field_def" where
  "text_field tag name len = Fix_Dictionary.make_field tag name FT_STRING None len None None"

definition flag_field :: "int \<Rightarrow> string \<Rightarrow> field_def" where
  "flag_field tag name = Fix_Dictionary.make_field tag name FT_BOOLEAN None None None None"

definition dialect_message :: "int \<Rightarrow> string \<Rightarrow> int list \<Rightarrow> bool \<Rightarrow> message_def" where
  "dialect_message code name tags inbound =
     \<lparr>md_msg_type = string_of_int code, md_name = name, md_required = [], md_optional = tags, md_inbound = inbound\<rparr>"

end
