(* ===== verification/Nse_Dictionary.thy ===== *)
theory Nse_Dictionary
  imports Nse_Codes
begin

section \<open>The equity dialect (\<open>venues/nse/dictionary.py\<close>)\<close>

text \<open>
  The tags, fields and messages of the equity segment as the module declares them. Labels and
  redaction, which only the audit reads, are left out; no field is required, because every
  field of a fixed structure travels in every message.
\<close>

abbreviation CM_LOG_TIME :: int where "CM_LOG_TIME \<equiv> 9001"
abbreviation CM_ALPHA_CHAR :: int where "CM_ALPHA_CHAR \<equiv> 9002"
abbreviation CM_USER_ID :: int where "CM_USER_ID \<equiv> 9003"
abbreviation CM_ERROR_CODE :: int where "CM_ERROR_CODE \<equiv> 9004"
abbreviation CM_TIMESTAMP :: int where "CM_TIMESTAMP \<equiv> 9005"
abbreviation CM_TIMESTAMP1 :: int where "CM_TIMESTAMP1 \<equiv> 9006"
abbreviation CM_TIMESTAMP2 :: int where "CM_TIMESTAMP2 \<equiv> 9007"
abbreviation CM_MESSAGE_LENGTH :: int where "CM_MESSAGE_LENGTH \<equiv> 9008"
abbreviation CM_SYMBOL :: int where "CM_SYMBOL \<equiv> 55"
abbreviation CM_SERIES :: int where "CM_SERIES \<equiv> 9100"
abbreviation CM_PARTICIPANT_TYPE :: int where "CM_PARTICIPANT_TYPE \<equiv> 9101"
abbreviation CM_COMPETITOR_PERIOD :: int where "CM_COMPETITOR_PERIOD \<equiv> 9102"
abbreviation CM_SOLICITOR_PERIOD :: int where "CM_SOLICITOR_PERIOD \<equiv> 9103"
abbreviation CM_MOD_CXL_BY :: int where "CM_MOD_CXL_BY \<equiv> 9104"
abbreviation CM_REASON_CODE :: int where "CM_REASON_CODE \<equiv> 9105"
abbreviation CM_AUCTION_NUMBER :: int where "CM_AUCTION_NUMBER \<equiv> 9106"
abbreviation CM_OP_BROKER_ID :: int where "CM_OP_BROKER_ID \<equiv> 9107"
abbreviation CM_SUSPENDED :: int where "CM_SUSPENDED \<equiv> 9108"
abbreviation CM_ORDER_NUMBER :: int where "CM_ORDER_NUMBER \<equiv> 37"
abbreviation CM_ACCOUNT_NUMBER :: int where "CM_ACCOUNT_NUMBER \<equiv> 1"
abbreviation CM_BOOK_TYPE :: int where "CM_BOOK_TYPE \<equiv> 9110"
abbreviation CM_BUY_SELL :: int where "CM_BUY_SELL \<equiv> 54"
abbreviation CM_DISCLOSED_VOL :: int where "CM_DISCLOSED_VOL \<equiv> 9111"
abbreviation CM_DISCLOSED_VOL_REMAINING :: int where "CM_DISCLOSED_VOL_REMAINING \<equiv> 9112"
abbreviation CM_TOTAL_VOL_REMAINING :: int where "CM_TOTAL_VOL_REMAINING \<equiv> 151"
abbreviation CM_VOLUME :: int where "CM_VOLUME \<equiv> 38"
abbreviation CM_VOLUME_FILLED_TODAY :: int where "CM_VOLUME_FILLED_TODAY \<equiv> 14"
abbreviation CM_PRICE :: int where "CM_PRICE \<equiv> 44"
abbreviation CM_TRIGGER_PRICE :: int where "CM_TRIGGER_PRICE \<equiv> 9113"
abbreviation CM_GOOD_TILL_DATE :: int where "CM_GOOD_TILL_DATE \<equiv> 9114"
abbreviation CM_ENTRY_DATE_TIME :: int where "CM_ENTRY_DATE_TIME \<equiv> 9115"
abbreviation CM_MIN_FILL_AON :: int where "CM_MIN_FILL_AON \<equiv> 9116"
abbreviation CM_LAST_MODIFIED :: int where "CM_LAST_MODIFIED \<equiv> 9117"
abbreviation CM_BRANCH_ID :: int where "CM_BRANCH_ID \<equiv> 9118"
abbreviation CM_TRADER_ID :: int where "CM_TRADER_ID \<equiv> 9119"
abbreviation CM_BROKER_ID :: int where "CM_BROKER_ID \<equiv> 9120"
abbreviation CM_OE_REMARKS :: int where "CM_OE_REMARKS \<equiv> 9121"
abbreviation CM_SETTLOR :: int where "CM_SETTLOR \<equiv> 9122"
abbreviation CM_PRO_CLIENT :: int where "CM_PRO_CLIENT \<equiv> 9123"
abbreviation CM_SETTLEMENT_TYPE :: int where "CM_SETTLEMENT_TYPE \<equiv> 9124"
abbreviation CM_NNF_FIELD :: int where "CM_NNF_FIELD \<equiv> 9125"
abbreviation CM_EXEC_TIMESTAMP :: int where "CM_EXEC_TIMESTAMP \<equiv> 9126"
abbreviation CM_PAN :: int where "CM_PAN \<equiv> 9127"
abbreviation CM_ALGO_ID :: int where "CM_ALGO_ID \<equiv> 9128"
abbreviation CM_LAST_ACTIVITY_REFERENCE :: int where "CM_LAST_ACTIVITY_REFERENCE \<equiv> 9129"
abbreviation CM_RESPONSE_ORDER_NUMBER :: int where "CM_RESPONSE_ORDER_NUMBER \<equiv> 9130"
abbreviation CM_TRADER_NUM :: int where "CM_TRADER_NUM \<equiv> 9131"
abbreviation CM_ORIGINAL_VOL :: int where "CM_ORIGINAL_VOL \<equiv> 9132"
abbreviation CM_REMAINING_VOL :: int where "CM_REMAINING_VOL \<equiv> 9133"
abbreviation CM_GTD :: int where "CM_GTD \<equiv> 9134"
abbreviation CM_FILL_NUMBER :: int where "CM_FILL_NUMBER \<equiv> 9135"
abbreviation CM_FILL_QTY :: int where "CM_FILL_QTY \<equiv> 32"
abbreviation CM_FILL_PRICE :: int where "CM_FILL_PRICE \<equiv> 31"
abbreviation CM_ACTIVITY_TYPE :: int where "CM_ACTIVITY_TYPE \<equiv> 9136"
abbreviation CM_ACTIVITY_TIME :: int where "CM_ACTIVITY_TIME \<equiv> 9137"
abbreviation CM_OP_ORDER_NUMBER :: int where "CM_OP_ORDER_NUMBER \<equiv> 9138"
abbreviation CM_NEW_VOLUME :: int where "CM_NEW_VOLUME \<equiv> 9139"
abbreviation CM_SIGNON_USER_ID :: int where "CM_SIGNON_USER_ID \<equiv> 9140"
abbreviation CM_PASSWORD :: int where "CM_PASSWORD \<equiv> 9141"
abbreviation CM_NEW_PASSWORD :: int where "CM_NEW_PASSWORD \<equiv> 9142"
abbreviation CM_TRADER_NAME :: int where "CM_TRADER_NAME \<equiv> 9143"
abbreviation CM_LAST_PASSWORD_CHANGE :: int where "CM_LAST_PASSWORD_CHANGE \<equiv> 9144"
abbreviation CM_VERSION_NUMBER :: int where "CM_VERSION_NUMBER \<equiv> 9146"
abbreviation CM_USER_TYPE :: int where "CM_USER_TYPE \<equiv> 9147"
abbreviation CM_LAST_MARKET_CLOSE :: int where "CM_LAST_MARKET_CLOSE \<equiv> 9148"
abbreviation CM_WORKSTATION_NUMBER :: int where "CM_WORKSTATION_NUMBER \<equiv> 9149"
abbreviation CM_BROKER_STATUS :: int where "CM_BROKER_STATUS \<equiv> 9150"
abbreviation CM_SHOW_INDEX :: int where "CM_SHOW_INDEX \<equiv> 9151"
abbreviation CM_BROKER_NAME :: int where "CM_BROKER_NAME \<equiv> 9152"
abbreviation CM_NORMAL_STATUS :: int where "CM_NORMAL_STATUS \<equiv> 9160"
abbreviation CM_ODDLOT_STATUS :: int where "CM_ODDLOT_STATUS \<equiv> 9161"
abbreviation CM_SPOT_STATUS :: int where "CM_SPOT_STATUS \<equiv> 9162"
abbreviation CM_AUCTION_STATUS :: int where "CM_AUCTION_STATUS \<equiv> 9163"
abbreviation CM_CALL_AUCTION1_STATUS :: int where "CM_CALL_AUCTION1_STATUS \<equiv> 9164"
abbreviation CM_CALL_AUCTION2_STATUS :: int where "CM_CALL_AUCTION2_STATUS \<equiv> 9165"
abbreviation CM_MARKET_INDEX :: int where "CM_MARKET_INDEX \<equiv> 9166"
abbreviation CM_DEFAULT_SETTLEMENT_NORMAL :: int where "CM_DEFAULT_SETTLEMENT_NORMAL \<equiv> 9167"
abbreviation CM_DEFAULT_SETTLEMENT_SPOT :: int where "CM_DEFAULT_SETTLEMENT_SPOT \<equiv> 9168"
abbreviation CM_DEFAULT_SETTLEMENT_AUCTION :: int where "CM_DEFAULT_SETTLEMENT_AUCTION \<equiv> 9169"
abbreviation CM_WARNING_PERCENT :: int where "CM_WARNING_PERCENT \<equiv> 9153"
abbreviation CM_VOLUME_FREEZE_PERCENT :: int where "CM_VOLUME_FREEZE_PERCENT \<equiv> 9154"
abbreviation CM_TERMINAL_IDLE_TIME :: int where "CM_TERMINAL_IDLE_TIME \<equiv> 9155"
abbreviation CM_BOARD_LOT_QUANTITY :: int where "CM_BOARD_LOT_QUANTITY \<equiv> 9156"
abbreviation CM_TICK_SIZE :: int where "CM_TICK_SIZE \<equiv> 9157"
abbreviation CM_MAXIMUM_GTC_DAYS :: int where "CM_MAXIMUM_GTC_DAYS \<equiv> 9158"
abbreviation CM_DISCLOSED_QUANTITY_PERCENT :: int where "CM_DISCLOSED_QUANTITY_PERCENT \<equiv> 9159"
abbreviation CM_BOX_ID :: int where "CM_BOX_ID \<equiv> 9170"
abbreviation CM_IP_ADDRESS :: int where "CM_IP_ADDRESS \<equiv> 9171"
abbreviation CM_PORT :: int where "CM_PORT \<equiv> 9172"
abbreviation CM_SESSION_KEY :: int where "CM_SESSION_KEY \<equiv> 9173"
abbreviation CM_CRYPTOGRAPHIC_KEY :: int where "CM_CRYPTOGRAPHIC_KEY \<equiv> 9174"
abbreviation CM_STATIC_IV :: int where "CM_STATIC_IV \<equiv> 9175"
abbreviation CM_DYNAMIC_IV :: int where "CM_DYNAMIC_IV \<equiv> 9176"
abbreviation CM_ADDITIONAL_KEY :: int where "CM_ADDITIONAL_KEY \<equiv> 9177"
abbreviation CM_TRANSACTION_ID :: int where "CM_TRANSACTION_ID \<equiv> 9178"
abbreviation CM_ERROR_MESSAGE :: int where "CM_ERROR_MESSAGE \<equiv> 58"
abbreviation CM_FLAG_ATO :: int where "CM_FLAG_ATO \<equiv> 9201"
abbreviation CM_FLAG_MARKET :: int where "CM_FLAG_MARKET \<equiv> 9202"
abbreviation CM_FLAG_ON_STOP :: int where "CM_FLAG_ON_STOP \<equiv> 9203"
abbreviation CM_FLAG_DAY :: int where "CM_FLAG_DAY \<equiv> 9204"
abbreviation CM_FLAG_GTC :: int where "CM_FLAG_GTC \<equiv> 9205"
abbreviation CM_FLAG_IOC :: int where "CM_FLAG_IOC \<equiv> 9206"
abbreviation CM_FLAG_AON :: int where "CM_FLAG_AON \<equiv> 9207"
abbreviation CM_FLAG_MF :: int where "CM_FLAG_MF \<equiv> 9208"
abbreviation CM_FLAG_MATCHED_IND :: int where "CM_FLAG_MATCHED_IND \<equiv> 9209"
abbreviation CM_FLAG_TRADED :: int where "CM_FLAG_TRADED \<equiv> 9210"
abbreviation CM_FLAG_MODIFIED :: int where "CM_FLAG_MODIFIED \<equiv> 9211"
abbreviation CM_FLAG_FROZEN :: int where "CM_FLAG_FROZEN \<equiv> 9212"
abbreviation CM_FLAG_PREOPEN :: int where "CM_FLAG_PREOPEN \<equiv> 9213"
abbreviation CM_FLAG_STPC :: int where "CM_FLAG_STPC \<equiv> 9214"
abbreviation CM_ELIGIBLE_NORMAL :: int where "CM_ELIGIBLE_NORMAL \<equiv> 9220"
abbreviation CM_ELIGIBLE_ODDLOT :: int where "CM_ELIGIBLE_ODDLOT \<equiv> 9221"
abbreviation CM_ELIGIBLE_SPOT :: int where "CM_ELIGIBLE_SPOT \<equiv> 9222"
abbreviation CM_ELIGIBLE_AUCTION :: int where "CM_ELIGIBLE_AUCTION \<equiv> 9223"
abbreviation CM_ELIGIBLE_CALL_AUCTION1 :: int where "CM_ELIGIBLE_CALL_AUCTION1 \<equiv> 9224"
abbreviation CM_ELIGIBLE_CALL_AUCTION2 :: int where "CM_ELIGIBLE_CALL_AUCTION2 \<equiv> 9225"
abbreviation CM_ELIGIBLE_PREOPEN :: int where "CM_ELIGIBLE_PREOPEN \<equiv> 9226"
abbreviation CM_SECURITY_AON :: int where "CM_SECURITY_AON \<equiv> 9230"
abbreviation CM_SECURITY_MIN_FILL :: int where "CM_SECURITY_MIN_FILL \<equiv> 9231"
abbreviation CM_SECURITY_BOOKS_MERGED :: int where "CM_SECURITY_BOOKS_MERGED \<equiv> 9232"
abbreviation CM_DOWNLOAD_SEQUENCE :: int where "CM_DOWNLOAD_SEQUENCE \<equiv> 9300"
abbreviation CM_DOWNLOAD_COUNT :: int where "CM_DOWNLOAD_COUNT \<equiv> 9301"
abbreviation CM_DOWNLOAD_DATA :: int where "CM_DOWNLOAD_DATA \<equiv> 9302"

definition cm_price_decimals :: nat where "cm_price_decimals = 2"

definition cm_header_fields :: "field_def list" where
  "cm_header_fields =
     [make_field TAG_MSG_TYPE ''TransactionCode'' FT_STRING None None None None,
      numeric_field TAG_MSG_SEQ_NUM ''SequenceNumber'',
      numeric_field CM_LOG_TIME ''LogTime'',
      text_field CM_ALPHA_CHAR ''AlphaChar'' (Some 2),
      numeric_field CM_USER_ID ''UserId'',
      make_field CM_ERROR_CODE ''ErrorCode'' FT_INT None None None None,
      numeric_field CM_TIMESTAMP ''Timestamp'',
      numeric_field CM_TIMESTAMP1 ''TimeStamp1'',
      numeric_field CM_TIMESTAMP2 ''TimeStamp2'',
      numeric_field CM_MESSAGE_LENGTH ''MessageLength'']"

definition cm_application_fields :: "field_def list" where
  "cm_application_fields =
     [text_field CM_SYMBOL ''Symbol'' (Some 10),
      text_field CM_SERIES ''Series'' (Some 2),
      text_field CM_PARTICIPANT_TYPE ''ParticipantType'' (Some 1),
      numeric_field CM_COMPETITOR_PERIOD ''CompetitorPeriod'',
      numeric_field CM_SOLICITOR_PERIOD ''SolicitorPeriod'',
      make_field CM_MOD_CXL_BY ''ModCxlBy'' FT_STRING None None None None,
      make_field CM_REASON_CODE ''ReasonCode'' FT_INT None None None None,
      numeric_field CM_AUCTION_NUMBER ''AuctionNumber'',
      text_field CM_OP_BROKER_ID ''OpBrokerId'' (Some 5),
      text_field CM_SUSPENDED ''Suspended'' (Some 1),
      text_field CM_ORDER_NUMBER ''OrderNumber'' (Some 20),
      text_field CM_ACCOUNT_NUMBER ''AccountNumber'' (Some 10),
      make_field CM_BOOK_TYPE ''BookType'' FT_STRING (Some [''0'', ''1'', ''2'', ''3'', ''5'', ''6'', ''7'', ''11'', ''12'']) None None None,
      make_field CM_BUY_SELL ''BuySell'' FT_STRING (Some [''0'', ''1'', ''2'']) None None None,
      make_field CM_DISCLOSED_VOL ''DisclosedVol'' FT_QTY None None None None,
      make_field CM_DISCLOSED_VOL_REMAINING ''DisclosedVolRemaining'' FT_QTY None None None None,
      make_field CM_TOTAL_VOL_REMAINING ''TotalVolRemaining'' FT_QTY None None None None,
      make_field CM_VOLUME ''Volume'' FT_QTY None None None None,
      make_field CM_VOLUME_FILLED_TODAY ''VolumeFilledToday'' FT_QTY None None None None,
      make_field CM_PRICE ''Price'' FT_PRICE None None None (Some cm_price_decimals),
      make_field CM_TRIGGER_PRICE ''TriggerPrice'' FT_PRICE None None None (Some cm_price_decimals),
      numeric_field CM_GOOD_TILL_DATE ''GoodTillDate'',
      numeric_field CM_ENTRY_DATE_TIME ''EntryDateTime'',
      make_field CM_MIN_FILL_AON ''MinFillAon'' FT_QTY None None None None,
      numeric_field CM_LAST_MODIFIED ''LastModified'',
      numeric_field CM_BRANCH_ID ''BranchId'',
      numeric_field CM_TRADER_ID ''TraderId'',
      text_field CM_BROKER_ID ''BrokerId'' (Some 5),
      text_field CM_OE_REMARKS ''OERemarks'' (Some 25),
      text_field CM_SETTLOR ''Settlor'' (Some 12),
      make_field CM_PRO_CLIENT ''ProClient'' FT_STRING (Some [''0'', ''1'', ''2'']) None None None,
      numeric_field CM_SETTLEMENT_TYPE ''SettlementType'',
      text_field CM_NNF_FIELD ''NNFField'' (Some 20),
      text_field CM_EXEC_TIMESTAMP ''ExecTimeStamp'' (Some 20),
      text_field CM_PAN ''PAN'' (Some 10),
      numeric_field CM_ALGO_ID ''AlgoID'',
      numeric_field CM_LAST_ACTIVITY_REFERENCE ''LastActivityReference'',
      numeric_field CM_TRANSACTION_ID ''TransactionId'',
      text_field CM_RESPONSE_ORDER_NUMBER ''ResponseOrderNumber'' (Some 20),
      numeric_field CM_TRADER_NUM ''TraderNum'',
      make_field CM_ORIGINAL_VOL ''OriginalVol'' FT_QTY None None None None,
      make_field CM_REMAINING_VOL ''RemainingVol'' FT_QTY None None None None,
      numeric_field CM_GTD ''Gtd'',
      numeric_field CM_FILL_NUMBER ''FillNumber'',
      make_field CM_FILL_QTY ''FillQty'' FT_QTY None None None None,
      make_field CM_FILL_PRICE ''FillPrice'' FT_PRICE None None None (Some cm_price_decimals),
      text_field CM_ACTIVITY_TYPE ''ActivityType'' (Some 2),
      numeric_field CM_ACTIVITY_TIME ''ActivityTime'',
      text_field CM_OP_ORDER_NUMBER ''OpOrderNumber'' (Some 20),
      make_field CM_NEW_VOLUME ''NewVolume'' FT_QTY None None None None,
      numeric_field CM_SIGNON_USER_ID ''UserId'',
      text_field CM_PASSWORD ''Password'' (Some 8),
      text_field CM_NEW_PASSWORD ''NewPassword'' (Some 8),
      text_field CM_TRADER_NAME ''TraderName'' (Some 26),
      numeric_field CM_LAST_PASSWORD_CHANGE ''LastPasswordChangeDateTime'',
      numeric_field CM_VERSION_NUMBER ''VersionNumber'',
      make_field CM_USER_TYPE ''UserType'' FT_STRING None None None None,
      text_field CM_LAST_MARKET_CLOSE ''SequenceNumber'' (Some 20),
      text_field CM_WORKSTATION_NUMBER ''WorkstationNumber'' (Some 14),
      text_field CM_BROKER_STATUS ''BrokerStatus'' (Some 1),
      text_field CM_SHOW_INDEX ''ShowIndex'' (Some 1),
      text_field CM_BROKER_NAME ''BrokerName'' (Some 26),
      flag_field CM_ELIGIBLE_NORMAL ''EligibleNormalMarket'',
      flag_field CM_ELIGIBLE_ODDLOT ''EligibleOddlotMarket'',
      flag_field CM_ELIGIBLE_SPOT ''EligibleSpotMarket'',
      flag_field CM_ELIGIBLE_AUCTION ''EligibleAuctionMarket'',
      flag_field CM_ELIGIBLE_CALL_AUCTION1 ''EligibleCallAuction1'',
      flag_field CM_ELIGIBLE_CALL_AUCTION2 ''EligibleCallAuction2'',
      flag_field CM_ELIGIBLE_PREOPEN ''EligiblePreopen'',
      make_field CM_NORMAL_STATUS ''NormalMarketStatus'' FT_STRING None None None None,
      make_field CM_ODDLOT_STATUS ''OddlotMarketStatus'' FT_STRING None None None None,
      make_field CM_SPOT_STATUS ''SpotMarketStatus'' FT_STRING None None None None,
      make_field CM_AUCTION_STATUS ''AuctionMarketStatus'' FT_STRING None None None None,
      make_field CM_CALL_AUCTION1_STATUS ''CallAuction1Status'' FT_STRING None None None None,
      make_field CM_CALL_AUCTION2_STATUS ''CallAuction2Status'' FT_STRING None None None None,
      numeric_field CM_MARKET_INDEX ''MarketIndex'',
      numeric_field CM_DEFAULT_SETTLEMENT_NORMAL ''DefaultSettlementPeriodNormal'',
      numeric_field CM_DEFAULT_SETTLEMENT_SPOT ''DefaultSettlementPeriodSpot'',
      numeric_field CM_DEFAULT_SETTLEMENT_AUCTION ''DefaultSettlementPeriodAuction'',
      numeric_field CM_WARNING_PERCENT ''WarningPercent'',
      numeric_field CM_VOLUME_FREEZE_PERCENT ''VolumeFreezePercent'',
      numeric_field CM_TERMINAL_IDLE_TIME ''TerminalIdleTime'',
      make_field CM_BOARD_LOT_QUANTITY ''BoardLotQuantity'' FT_QTY None None None None,
      make_field CM_TICK_SIZE ''TickSize'' FT_PRICE None None None (Some cm_price_decimals),
      numeric_field CM_MAXIMUM_GTC_DAYS ''MaximumGtcDays'',
      numeric_field CM_DISCLOSED_QUANTITY_PERCENT ''DisclosedQuantityPercentAllowed'',
      flag_field CM_SECURITY_AON ''SecurityAllowsAON'',
      flag_field CM_SECURITY_MIN_FILL ''SecurityAllowsMinimumFill'',
      flag_field CM_SECURITY_BOOKS_MERGED ''SecurityBooksMerged'',
      numeric_field CM_BOX_ID ''BoxId'',
      text_field CM_IP_ADDRESS ''IpAddress'' (Some 16),
      numeric_field CM_PORT ''Port'',
      text_field CM_SESSION_KEY ''SessionKey'' (Some 8),
      text_field CM_CRYPTOGRAPHIC_KEY ''CryptographicKey'' (Some 32),
      text_field CM_STATIC_IV ''StaticCryptographicIV'' (Some 8),
      text_field CM_DYNAMIC_IV ''DynamicCryptographicIV'' (Some 8),
      text_field CM_ADDITIONAL_KEY ''CryptographicAdditionalKey'' (Some 12),
      text_field CM_ERROR_MESSAGE ''ErrorMessage'' (Some 128),
      numeric_field CM_DOWNLOAD_SEQUENCE ''DownloadSequence'',
      numeric_field CM_DOWNLOAD_COUNT ''DownloadCount'',
      text_field CM_DOWNLOAD_DATA ''Data'' None,
      flag_field CM_FLAG_ATO ''ATO'',
      flag_field CM_FLAG_MARKET ''Market'',
      flag_field CM_FLAG_ON_STOP ''OnStop'',
      flag_field CM_FLAG_DAY ''Day'',
      flag_field CM_FLAG_GTC ''GTC'',
      flag_field CM_FLAG_IOC ''IOC'',
      flag_field CM_FLAG_AON ''AON'',
      flag_field CM_FLAG_MF ''MF'',
      flag_field CM_FLAG_MATCHED_IND ''MatchedInd'',
      flag_field CM_FLAG_TRADED ''Traded'',
      flag_field CM_FLAG_MODIFIED ''Modified'',
      flag_field CM_FLAG_FROZEN ''Frozen'',
      flag_field CM_FLAG_PREOPEN ''Preopen'',
      flag_field CM_FLAG_STPC ''STPC'']"

definition cm_order_tags :: "int list" where
  "cm_order_tags =
     [CM_SYMBOL, CM_SERIES, CM_PARTICIPANT_TYPE, CM_COMPETITOR_PERIOD, CM_SOLICITOR_PERIOD,
     CM_MOD_CXL_BY, CM_REASON_CODE, CM_AUCTION_NUMBER, CM_OP_BROKER_ID, CM_SUSPENDED, CM_ORDER_NUMBER,
     CM_ACCOUNT_NUMBER, CM_BOOK_TYPE, CM_BUY_SELL, CM_DISCLOSED_VOL, CM_DISCLOSED_VOL_REMAINING,
     CM_TOTAL_VOL_REMAINING, CM_VOLUME, CM_VOLUME_FILLED_TODAY, CM_PRICE, CM_TRIGGER_PRICE,
     CM_GOOD_TILL_DATE, CM_ENTRY_DATE_TIME, CM_MIN_FILL_AON, CM_LAST_MODIFIED, CM_BRANCH_ID,
     CM_TRADER_ID, CM_BROKER_ID, CM_OE_REMARKS, CM_SETTLOR, CM_PRO_CLIENT, CM_SETTLEMENT_TYPE,
     CM_NNF_FIELD, CM_EXEC_TIMESTAMP, CM_PAN, CM_ALGO_ID, CM_LAST_ACTIVITY_REFERENCE, CM_FLAG_ATO,
     CM_FLAG_MARKET, CM_FLAG_ON_STOP, CM_FLAG_DAY, CM_FLAG_GTC, CM_FLAG_IOC, CM_FLAG_AON, CM_FLAG_MF,
     CM_FLAG_MATCHED_IND, CM_FLAG_TRADED, CM_FLAG_MODIFIED, CM_FLAG_FROZEN, CM_FLAG_PREOPEN,
     CM_FLAG_STPC]"

definition cm_trimmed_order_tags :: "int list" where
  "cm_trimmed_order_tags =
     cm_order_tags @ [CM_TRANSACTION_ID]"

definition cm_trade_tags :: "int list" where
  "cm_trade_tags =
     [CM_SYMBOL, CM_SERIES, CM_RESPONSE_ORDER_NUMBER, CM_BROKER_ID, CM_TRADER_NUM, CM_ACCOUNT_NUMBER,
     CM_BUY_SELL, CM_ORIGINAL_VOL, CM_DISCLOSED_VOL, CM_REMAINING_VOL, CM_DISCLOSED_VOL_REMAINING,
     CM_PRICE, CM_GTD, CM_FILL_NUMBER, CM_FILL_QTY, CM_FILL_PRICE, CM_VOLUME_FILLED_TODAY,
     CM_ACTIVITY_TYPE, CM_ACTIVITY_TIME, CM_OP_ORDER_NUMBER, CM_OP_BROKER_ID, CM_BOOK_TYPE,
     CM_NEW_VOLUME, CM_PRO_CLIENT, CM_PAN, CM_ALGO_ID, CM_LAST_ACTIVITY_REFERENCE, CM_FLAG_ATO,
     CM_FLAG_MARKET, CM_FLAG_ON_STOP, CM_FLAG_DAY, CM_FLAG_GTC, CM_FLAG_IOC, CM_FLAG_AON, CM_FLAG_MF,
     CM_FLAG_MATCHED_IND, CM_FLAG_TRADED, CM_FLAG_MODIFIED, CM_FLAG_FROZEN, CM_FLAG_PREOPEN,
     CM_FLAG_STPC]"

definition cm_signon_tags :: "int list" where
  "cm_signon_tags =
     [CM_SIGNON_USER_ID, CM_PASSWORD, CM_NEW_PASSWORD, CM_TRADER_NAME, CM_LAST_PASSWORD_CHANGE,
     CM_BROKER_ID, CM_BRANCH_ID, CM_VERSION_NUMBER, CM_USER_TYPE, CM_LAST_MARKET_CLOSE,
     CM_WORKSTATION_NUMBER, CM_BROKER_STATUS, CM_SHOW_INDEX, CM_BROKER_NAME, CM_ELIGIBLE_NORMAL,
     CM_ELIGIBLE_ODDLOT, CM_ELIGIBLE_SPOT, CM_ELIGIBLE_AUCTION, CM_ELIGIBLE_CALL_AUCTION1,
     CM_ELIGIBLE_CALL_AUCTION2, CM_ELIGIBLE_PREOPEN]"

definition cm_system_tags :: "int list" where
  "cm_system_tags =
     [CM_NORMAL_STATUS, CM_ODDLOT_STATUS, CM_SPOT_STATUS, CM_AUCTION_STATUS, CM_CALL_AUCTION1_STATUS,
     CM_CALL_AUCTION2_STATUS, CM_MARKET_INDEX, CM_DEFAULT_SETTLEMENT_NORMAL,
     CM_DEFAULT_SETTLEMENT_SPOT, CM_DEFAULT_SETTLEMENT_AUCTION, CM_COMPETITOR_PERIOD,
     CM_SOLICITOR_PERIOD, CM_WARNING_PERCENT, CM_VOLUME_FREEZE_PERCENT, CM_TERMINAL_IDLE_TIME,
     CM_BOARD_LOT_QUANTITY, CM_TICK_SIZE, CM_MAXIMUM_GTC_DAYS, CM_DISCLOSED_QUANTITY_PERCENT,
     CM_SECURITY_AON, CM_SECURITY_MIN_FILL, CM_SECURITY_BOOKS_MERGED]"

definition cm_application_messages :: "message_def list" where
  "cm_application_messages =
     [dialect_message X_SECURE_BOX_REGISTRATION_REQUEST_IN ''SECURE_BOX_REGISTRATION_REQUEST_IN'' [CM_BOX_ID] True,
      dialect_message X_SECURE_BOX_REGISTRATION_REQUEST_OUT ''SECURE_BOX_REGISTRATION_REQUEST_OUT'' [] False,
      dialect_message X_BOX_SIGN_ON_REQUEST_IN ''BOX_SIGN_ON_REQUEST_IN'' [CM_BOX_ID, CM_BROKER_ID, CM_SESSION_KEY] True,
      dialect_message X_BOX_SIGN_ON_REQUEST_OUT ''BOX_SIGN_ON_REQUEST_OUT'' [CM_BOX_ID] False,
      dialect_message X_GR_REQUEST ''GR_REQUEST'' [CM_BOX_ID, CM_BROKER_ID] True,
      dialect_message X_GR_RESPONSE ''GR_RESPONSE'' [CM_BOX_ID, CM_BROKER_ID, CM_IP_ADDRESS, CM_PORT, CM_SESSION_KEY, CM_CRYPTOGRAPHIC_KEY, CM_STATIC_IV, CM_DYNAMIC_IV, CM_ADDITIONAL_KEY] False,
      dialect_message X_SIGN_ON_REQUEST_IN ''SIGN_ON_REQUEST_IN'' cm_signon_tags True,
      dialect_message X_SIGN_ON_REQUEST_OUT ''SIGN_ON_REQUEST_OUT'' cm_signon_tags False,
      dialect_message X_SIGN_OFF_REQUEST_IN ''SIGN_OFF_REQUEST_IN'' [] True,
      dialect_message X_SIGN_OFF_REQUEST_OUT ''SIGN_OFF_REQUEST_OUT'' [] False,
      dialect_message X_HEARTBEAT ''HEARTBEAT'' [] True,
      dialect_message X_ERROR_RESPONSE_OUT ''ERROR_RESPONSE_OUT'' [CM_SYMBOL, CM_SERIES, CM_ERROR_MESSAGE] False,
      dialect_message X_SYSTEM_INFORMATION_IN ''SYSTEM_INFORMATION_IN'' [] True,
      dialect_message X_SYSTEM_INFORMATION_OUT ''SYSTEM_INFORMATION_OUT'' cm_system_tags False,
      dialect_message X_BOARD_LOT_IN ''BOARD_LOT_IN'' cm_order_tags True,
      dialect_message X_ORDER_MOD_IN ''ORDER_MOD_IN'' cm_order_tags True,
      dialect_message X_ORDER_CANCEL_IN ''ORDER_CANCEL_IN'' cm_order_tags True,
      dialect_message X_ORDER_CONFIRMATION ''ORDER_CONFIRMATION'' cm_order_tags False,
      dialect_message X_ORDER_MOD_CONFIRMATION ''ORDER_MOD_CONFIRMATION'' cm_order_tags False,
      dialect_message X_ORDER_CANCEL_CONFIRMATION ''ORDER_CANCEL_CONFIRMATION'' cm_order_tags False,
      dialect_message X_ORDER_ERROR ''ORDER_ERROR'' cm_order_tags False,
      dialect_message X_ORDER_MOD_REJECT ''ORDER_MOD_REJECT'' cm_order_tags False,
      dialect_message X_ORDER_CANCEL_REJECT ''ORDER_CANCEL_REJECT'' cm_order_tags False,
      dialect_message X_PRICE_CONFIRMATION ''PRICE_CONFIRMATION'' cm_order_tags False,
      dialect_message X_BOARD_LOT_IN_TR ''BOARD_LOT_IN_TR'' cm_trimmed_order_tags True,
      dialect_message X_ORDER_MOD_IN_TR ''ORDER_MOD_IN_TR'' cm_trimmed_order_tags True,
      dialect_message X_ORDER_CANCEL_IN_TR ''ORDER_CANCEL_IN_TR'' cm_trimmed_order_tags True,
      dialect_message X_ORDER_CONFIRMATION_TR ''ORDER_CONFIRMATION_TR'' cm_trimmed_order_tags False,
      dialect_message X_ORDER_MOD_CONFIRMATION_TR ''ORDER_MOD_CONFIRMATION_TR'' cm_trimmed_order_tags False,
      dialect_message X_ORDER_CXL_CONFIRMATION_TR ''ORDER_CXL_CONFIRMATION_TR'' cm_trimmed_order_tags False,
      dialect_message X_ORDER_ERROR_TR ''ORDER_ERROR_TR'' cm_trimmed_order_tags False,
      dialect_message X_ORDER_MOD_REJECT_TR ''ORDER_MOD_REJECT_TR'' cm_trimmed_order_tags False,
      dialect_message X_ORDER_CANCEL_REJECT_TR ''ORDER_CANCEL_REJECT_TR'' cm_trimmed_order_tags False,
      dialect_message X_PRICE_CONFIRMATION_TR ''PRICE_CONFIRMATION_TR'' cm_trimmed_order_tags False,
      dialect_message X_TRADE_CONFIRMATION ''TRADE_CONFIRMATION'' cm_trade_tags False,
      dialect_message X_TRADE_CONFIRMATION_TR ''TRADE_CONFIRMATION_TR'' cm_trade_tags False,
      dialect_message X_DOWNLOAD_REQUEST ''DOWNLOAD_REQUEST'' [CM_DOWNLOAD_SEQUENCE] True,
      dialect_message X_HEADER_RECORD ''HEADER_RECORD'' [] False,
      dialect_message X_MESSAGE_RECORD ''MESSAGE_RECORD'' [CM_DOWNLOAD_DATA] False,
      dialect_message X_TRAILER_RECORD ''TRAILER_RECORD'' [] False]"

definition cm_dialect :: dictionary where
  "cm_dialect =
     make_dictionary (cm_header_fields @ cm_application_fields) cm_application_messages
       (map fd_tag cm_header_fields) []"


end
