(* ===== verification/Nnf_Session.thy ===== *)
theory Nnf_Session
  imports Nnf_Packet Nnf_Layout Nnf_Recovery Fix_Dictionary
begin

section \<open>Boxes and their users (\<open>nnf/session.py\<close>)\<close>

text \<open>
  A box is a connection, and several users sign on over it. What never changes while a venue
  runs, and the reading of its clocks during one input, is the record \<open>nnf_env\<close>; what the
  session layer changes is \<open>nnf_net\<close>, which a venue extends with the state of its gateway.
  A session object is one user on the box of its configuration, so it is named by the user.
  The callbacks of a gateway are functions on the whole state, \<open>nnf_app\<close>. What the layer does
  to the outside is a trace: bytes on a box, and its connection closed. Monotonic time is in
  nanoseconds. Left out: audit records and logs, the Boolean results of sending, which
  nothing reads, and \<open>_last_sent\<close>, which is only written.
\<close>

datatype box_state = BoxDisconnected | AwaitingRegistration | AwaitingBoxSignOn | BoxActive

datatype box_event = BoxSent bytes | BoxClosed

definition heartbeat_seconds :: int where "heartbeat_seconds = 30"
definition missed_heartbeats_allowed :: int where "missed_heartbeats_allowed = 2"
definition drop_counter_limit :: int where "drop_counter_limit = 10"

record nnf_user =
  nu_user_id :: int
  nu_box_id :: int
  nu_broker_id :: string
  nu_branch_id :: int
  nu_password :: "string option"
  nu_user_type :: "string option"
  nu_markets :: "string list"
  nu_cancel_on_disconnect :: bool
  nu_trader_name :: "string option"
  nu_broker_name :: "string option"

text \<open>The key an order is tagged with, a pair of Python's as a list of two.\<close>

definition nnf_key :: "int \<Rightarrow> string list" where
  "nnf_key u = [''nnf'', string_of_int u]"

text \<open>A box; \<open>bx_users\<close> has the sessions on it, each with its \<open>logged_on\<close>.\<close>

record box =
  bx_state :: box_state
  bx_connected :: bool
  bx_cipher :: cipher
  bx_users :: "(int \<times> bool) list"
  bx_broker :: "string option"
  bx_drop_counter :: int
  bx_buffer :: bytes
  bx_last_received :: "int option"
  bx_last_heartbeat :: "int option"

definition new_box :: box where
  "new_box = \<lparr>bx_state = BoxDisconnected, bx_connected = False, bx_cipher = PlainCipher, bx_users = [], bx_broker = None,
     bx_drop_counter = 0, bx_buffer = [], bx_last_received = None, bx_last_heartbeat = None\<rparr>"

record nnf_env =
  ne_dictionary :: dictionary
  ne_layouts :: nnf_dictionary
  ne_heartbeat_ns :: int
  ne_drop_limit :: int
  ne_user_id_tag :: "int option"
  ne_box_id_tag :: "int option"
  ne_heartbeat_code :: int
  ne_timestamp1_tag :: "int option"
  ne_timestamp2_tag :: "int option"
  ne_machine_number :: int
  ne_recoverable :: "string option \<Rightarrow> bool"
  ne_normalise :: "fix_message \<Rightarrow> fix_message"
  ne_seconds :: int
  ne_microsecond :: int
  ne_monotonic :: int

record nnf_net =
  nn_boxes :: "(int \<times> box) list"
  nn_users :: "(int \<times> nnf_user) list"
  nn_live :: "int list"
  nn_store :: "message_store option"
  nn_trace :: "(int \<times> box_event) list"

record 's nnf_app =
  ap_on_logon :: "int \<Rightarrow> 's \<Rightarrow> exn + 's"
  ap_on_logout :: "int \<Rightarrow> 's \<Rightarrow> exn + 's"
  ap_on_message :: "int \<Rightarrow> fix_message \<Rightarrow> 's \<Rightarrow> exn + 's"
  ap_on_box_message :: "int \<Rightarrow> fix_message \<Rightarrow> 's \<Rightarrow> exn + bool \<times> 's"
  ap_on_box_detached :: "int \<Rightarrow> 's \<Rightarrow> exn + 's"
  ap_on_invalid :: "int option \<Rightarrow> fix_message \<Rightarrow> failure \<Rightarrow> 's \<Rightarrow> exn + bool \<times> 's"
  ap_on_checksum_failure :: "int \<Rightarrow> 's \<Rightarrow> exn + 's"

text \<open>A configured box. The operations below are only called on these.\<close>

definition box_of :: "'a nnf_net_scheme \<Rightarrow> int \<Rightarrow> box" where
  "box_of st b = (case map_of (nn_boxes st) b of None \<Rightarrow> new_box | Some x \<Rightarrow> x)"

definition put_box :: "int \<Rightarrow> box \<Rightarrow> 'a nnf_net_scheme \<Rightarrow> 'a nnf_net_scheme" where
  "put_box b x st = st\<lparr>nn_boxes := AList.update b x (nn_boxes st)\<rparr>"

definition happened :: "int \<Rightarrow> box_event \<Rightarrow> 'a nnf_net_scheme \<Rightarrow> 'a nnf_net_scheme" where
  "happened b e st = st\<lparr>nn_trace := nn_trace st @ [(b, e)]\<rparr>"

subsection \<open>The fields the exchange owns\<close>

definition set_absent :: "int option \<Rightarrow> string \<Rightarrow> fix_message \<Rightarrow> fix_message" where
  "set_absent tag v m = (case tag of None \<Rightarrow> m | Some t \<Rightarrow> if msg_get m t = None then msg_set t v m else m)"

definition nnf_stamp :: "nnf_env \<Rightarrow> fix_message \<Rightarrow> 'a nnf_net_scheme \<Rightarrow> exn + int option \<times> fix_message \<times> 'a nnf_net_scheme" where
  "nnf_stamp env m0 st =
     (let m = set_absent (ne_timestamp2_tag env) (string_of_int (ne_machine_number env)) m0 in
      case ne_timestamp1_tag env of None \<Rightarrow> Inr (None, m, st)
      | Some t \<Rightarrow>
         (case msg_get m t of Some v \<Rightarrow> Inr (int_of_str v, m, st)
          | None \<Rightarrow>
             bind_exn (epoch_seconds (ne_seconds env) (ne_microsecond env)) (\<lambda>seconds.
             bind_exn (case nn_store st of
                 None \<Rightarrow> bind_exn (to_nse_jiffies seconds) (\<lambda>q. Inr (q, None))
               | Some s \<Rightarrow> bind_exn (store_sequence seconds s) (\<lambda>(q, s'). Inr (q, Some s'))) (\<lambda>(q, s').
               Inr (Some q, msg_set t (string_of_int q) m, st\<lparr>nn_store := s'\<rparr>)))))"

text \<open>
  The store keeps what \<open>normalise\<close> returns at this moment. Where that is the message itself,
  encoding it later also sets its length field in the store, which replaying sets again.
\<close>

definition nnf_retain :: "nnf_env \<Rightarrow> int \<Rightarrow> fix_message \<Rightarrow> 'a nnf_net_scheme \<Rightarrow> exn + fix_message \<times> 'a nnf_net_scheme" where
  "nnf_retain env u m0 st =
     bind_exn (nnf_stamp env (set_absent (ne_user_id_tag env) (string_of_int u) m0) st) (\<lambda>(q, m, st1).
       Inr (m, (case (nn_store st1, q) of
          (Some s, Some i) \<Rightarrow> st1\<lparr>nn_store := Some (snd (store_record (ne_recoverable env) (ne_normalise env) u i m s))\<rparr>
        | _ \<Rightarrow> st1)))"

subsection \<open>Outbound\<close>

definition box_codec :: "nnf_env \<Rightarrow> box \<Rightarrow> nnf_codec" where
  "box_codec env x = \<lparr>nx_layouts = ne_layouts env, nx_cipher = bx_cipher x\<rparr>"

text \<open>A message that cannot be encoded is dropped when the exception is a \<open>ValueError\<close>.\<close>

definition box_send :: "nnf_env \<Rightarrow> int \<Rightarrow> fix_message \<Rightarrow> 'a nnf_net_scheme \<Rightarrow> exn + 'a nnf_net_scheme" where
  "box_send env b m0 st0 =
     (if \<not> bx_connected (box_of st0 b) then Inr st0
      else bind_exn (nnf_stamp env m0 st0) (\<lambda>(q, m, st).
        case nnf_encode (box_codec env (box_of st b)) m of (c, _, r) \<Rightarrow>
          (let st1 = put_box b ((box_of st b)\<lparr>bx_cipher := nx_cipher c\<rparr>) st in
           case r of
             Inl e \<Rightarrow> (if e = ValueError then Inr st1 else Inl e)
           | Inr raw \<Rightarrow> Inr (happened b (BoxSent raw) st1))))"

definition name_recipient :: "nnf_env \<Rightarrow> int \<Rightarrow> fix_message \<Rightarrow> fix_message" where
  "name_recipient env u m = set_absent (ne_user_id_tag env) (string_of_int u) m"

definition box_for :: "'a nnf_net_scheme \<Rightarrow> int \<Rightarrow> int option" where
  "box_for st u = map_option nu_box_id (map_of (nn_users st) u)"

definition user_send :: "nnf_env \<Rightarrow> int \<Rightarrow> fix_message \<Rightarrow> 'a nnf_net_scheme \<Rightarrow> exn + 'a nnf_net_scheme" where
  "user_send env u m0 st =
     (case box_for st u of None \<Rightarrow> Inr st
      | Some b \<Rightarrow> bind_exn (nnf_retain env u (name_recipient env u m0) st) (\<lambda>(m, st1). box_send env b m st1))"

subsection \<open>Signing on and off\<close>

definition box_registered :: "int \<Rightarrow> cipher option \<Rightarrow> 'a nnf_net_scheme \<Rightarrow> 'a nnf_net_scheme" where
  "box_registered b c st =
     put_box b ((box_of st b)\<lparr>bx_state := AwaitingBoxSignOn,
       bx_cipher := (case c of None \<Rightarrow> bx_cipher (box_of st b) | Some x \<Rightarrow> x)\<rparr>) st"

definition box_signed_on :: "int \<Rightarrow> string option \<Rightarrow> 'a nnf_net_scheme \<Rightarrow> 'a nnf_net_scheme" where
  "box_signed_on b broker st = put_box b ((box_of st b)\<lparr>bx_state := BoxActive, bx_broker := broker\<rparr>) st"

definition sign_on_user :: "(int \<Rightarrow> 'a nnf_net_scheme \<Rightarrow> exn + 'a nnf_net_scheme) \<Rightarrow> int \<Rightarrow> nnf_user \<Rightarrow> 'a nnf_net_scheme \<Rightarrow> exn + 'a nnf_net_scheme" where
  "sign_on_user on_logon b cfg st =
     (let u = nu_user_id cfg;
          st1 = put_box b ((box_of st b)\<lparr>bx_users := AList.update u True (bx_users (box_of st b))\<rparr>) st
      in on_logon u (st1\<lparr>nn_live := od_insert u (nn_live st1)\<rparr>))"

text \<open>\<open>_sign_off\<close>, and \<open>sign_off\<close>, which also drops the session from the box.\<close>

definition end_session :: "(int \<Rightarrow> 'a nnf_net_scheme \<Rightarrow> exn + 'a nnf_net_scheme) \<Rightarrow> int \<Rightarrow> int \<Rightarrow> 'a nnf_net_scheme \<Rightarrow> exn + 'a nnf_net_scheme" where
  "end_session on_logout b u st =
     (if map_of (bx_users (box_of st b)) u \<noteq> Some True then Inr st
      else (let st1 = put_box b ((box_of st b)\<lparr>bx_users := AList.update u False (bx_users (box_of st b))\<rparr>) st
            in on_logout u (st1\<lparr>nn_live := removeAll u (nn_live st1)\<rparr>)))"

definition box_sign_off :: "(int \<Rightarrow> 'a nnf_net_scheme \<Rightarrow> exn + 'a nnf_net_scheme) \<Rightarrow> int \<Rightarrow> int \<Rightarrow> 'a nnf_net_scheme \<Rightarrow> exn + 'a nnf_net_scheme" where
  "box_sign_off on_logout b u st =
     bind_exn (end_session on_logout b u st) (\<lambda>st1.
       Inr (put_box b ((box_of st1 b)\<lparr>bx_users := AList.delete u (bx_users (box_of st1 b))\<rparr>) st1))"

definition user_disconnect :: "(int \<Rightarrow> 'a nnf_net_scheme \<Rightarrow> exn + 'a nnf_net_scheme) \<Rightarrow> int \<Rightarrow> 'a nnf_net_scheme \<Rightarrow> exn + 'a nnf_net_scheme" where
  "user_disconnect on_logout u st = (case box_for st u of None \<Rightarrow> Inr st | Some b \<Rightarrow> box_sign_off on_logout b u st)"

subsection \<open>The connection\<close>

definition box_attach :: "nnf_env \<Rightarrow> int \<Rightarrow> 'a nnf_net_scheme \<Rightarrow> 'a nnf_net_scheme" where
  "box_attach env b st =
     put_box b ((box_of st b)\<lparr>bx_connected := True, bx_state := AwaitingRegistration, bx_drop_counter := 0,
       bx_buffer := [], bx_last_received := Some (ne_monotonic env)\<rparr>) st"

definition box_detach :: "(int \<Rightarrow> 'a nnf_net_scheme \<Rightarrow> exn + 'a nnf_net_scheme) \<Rightarrow> (int \<Rightarrow> 'a nnf_net_scheme \<Rightarrow> exn + 'a nnf_net_scheme) \<Rightarrow>
    int \<Rightarrow> 'a nnf_net_scheme \<Rightarrow> exn + 'a nnf_net_scheme" where
  "box_detach on_logout on_detached b st =
     (if \<not> bx_connected (box_of st b) then Inr st
      else (let st1 = put_box b ((box_of st b)\<lparr>bx_connected := False, bx_state := BoxDisconnected, bx_cipher := PlainCipher\<rparr>) st
            in bind_exn (fold_exn (end_session on_logout b) (map fst (bx_users (box_of st1 b))) st1) (\<lambda>st2.
                 on_detached b (put_box b ((box_of st2 b)\<lparr>bx_users := []\<rparr>) st2))))"

definition box_disconnect :: "(int \<Rightarrow> 'a nnf_net_scheme \<Rightarrow> exn + 'a nnf_net_scheme) \<Rightarrow> (int \<Rightarrow> 'a nnf_net_scheme \<Rightarrow> exn + 'a nnf_net_scheme) \<Rightarrow>
    int \<Rightarrow> 'a nnf_net_scheme \<Rightarrow> exn + 'a nnf_net_scheme" where
  "box_disconnect on_logout on_detached b st =
     bind_exn (box_detach on_logout on_detached b st) (\<lambda>st1.
       Inr (if bx_connected (box_of st b) then happened b BoxClosed st1 else st1))"

abbreviation drop_box :: "'a nnf_net_scheme nnf_app \<Rightarrow> int \<Rightarrow> 'a nnf_net_scheme \<Rightarrow> exn + 'a nnf_net_scheme" where
  "drop_box app b st \<equiv> box_disconnect (ap_on_logout app) (ap_on_box_detached app) b st"

subsection \<open>Inbound\<close>

definition on_heartbeat :: "nnf_env \<Rightarrow> 'a nnf_net_scheme nnf_app \<Rightarrow> int \<Rightarrow> 'a nnf_net_scheme \<Rightarrow> exn + 'a nnf_net_scheme" where
  "on_heartbeat env app b st =
     (let x = box_of st b in
      if (case bx_last_heartbeat x of None \<Rightarrow> False | Some t \<Rightarrow> ne_monotonic env - t < ne_heartbeat_ns env)
      then (let st1 = put_box b (x\<lparr>bx_drop_counter := bx_drop_counter x + 1\<rparr>) st
            in if bx_drop_counter x + 1 \<ge> ne_drop_limit env then drop_box app b st1 else Inr st1)
      else box_send env b (msg_create (string_of_int (ne_heartbeat_code env)))
             (put_box b (x\<lparr>bx_last_heartbeat := Some (ne_monotonic env)\<rparr>) st))"

definition user_of :: "nnf_env \<Rightarrow> fix_message \<Rightarrow> int option" where
  "user_of env m =
     (case ne_user_id_tag env of None \<Rightarrow> None
      | Some tag \<Rightarrow> (case msg_get m tag of None \<Rightarrow> None | Some v \<Rightarrow> int_of_str v))"

text \<open>The copy for the audit sets the length field of the message that was read.\<close>

definition plain_packet :: "nnf_env \<Rightarrow> fix_message \<Rightarrow> exn + fix_message" where
  "plain_packet env m =
     (case structure_of (ne_layouts env) (msg_type_of m) of None \<Rightarrow> Inr m
      | Some s \<Rightarrow> (case encode_structure s m of (m', r) \<Rightarrow>
          (case r of Inl e \<Rightarrow> (if e = ValueError then Inr m' else Inl e) | Inr _ \<Rightarrow> Inr m')))"

definition dispatch :: "nnf_env \<Rightarrow> 'a nnf_net_scheme nnf_app \<Rightarrow> int \<Rightarrow> fix_message \<Rightarrow> 'a nnf_net_scheme \<Rightarrow> exn + 'a nnf_net_scheme" where
  "dispatch env app b m st =
     (let user = (case user_of env m of None \<Rightarrow> None
                  | Some u \<Rightarrow> (if map_of (bx_users (box_of st b)) u = None then None else Some u))
      in case dictionary_validate (ne_dictionary env) False m of
           Some f \<Rightarrow> bind_exn (ap_on_invalid app user m f st) (\<lambda>(answered, st1).
             if answered then Inr st1 else drop_box app b st1)
         | None \<Rightarrow>
            (if msg_type_of m = Some (string_of_int (ne_heartbeat_code env)) then on_heartbeat env app b st
             else (case user of
                Some u \<Rightarrow> (if map_of (bx_users (box_of st b)) u = Some True then ap_on_message app u m st
                           else bind_exn (ap_on_box_message app b m st) (\<lambda>(_, st1). Inr st1))
              | None \<Rightarrow> bind_exn (ap_on_box_message app b m st) (\<lambda>(_, st1). Inr st1))))"

definition on_packet :: "nnf_env \<Rightarrow> 'a nnf_net_scheme nnf_app \<Rightarrow> int \<Rightarrow> bytes \<Rightarrow> 'a nnf_net_scheme \<Rightarrow> exn + 'a nnf_net_scheme" where
  "on_packet env app b raw st =
     (case nnf_decode (box_codec env (box_of st b)) raw True of (c, r) \<Rightarrow>
       (let st1 = put_box b ((box_of st b)\<lparr>bx_cipher := nx_cipher c\<rparr>) st in
        case r of
          Inl (Crypto _) \<Rightarrow> bind_exn (ap_on_checksum_failure app b st1) (drop_box app b)
        | Inl (Decode (Bad _)) \<Rightarrow> drop_box app b st1
        | Inl (Decode (Raised e)) \<Rightarrow> Inl e
        | Inr m0 \<Rightarrow> bind_exn (plain_packet env m0) (\<lambda>m. dispatch env app b m st1)))"

definition box_on_data :: "nnf_env \<Rightarrow> 'a nnf_net_scheme nnf_app \<Rightarrow> int \<Rightarrow> bytes \<Rightarrow> 'a nnf_net_scheme \<Rightarrow> exn + 'a nnf_net_scheme" where
  "box_on_data env app b chunk st =
     (case packet_feed (bx_buffer (box_of st b)) chunk of
        Inl (_, left) \<Rightarrow> drop_box app b (put_box b ((box_of st b)\<lparr>bx_buffer := left\<rparr>) st)
      | Inr (raws, left) \<Rightarrow>
          fold_exn (on_packet env app b) raws
            (put_box b ((box_of st b)\<lparr>bx_buffer := left, bx_last_received := Some (ne_monotonic env)\<rparr>) st))"

definition box_tick :: "nnf_env \<Rightarrow> 'a nnf_net_scheme nnf_app \<Rightarrow> int \<Rightarrow> 'a nnf_net_scheme \<Rightarrow> exn + 'a nnf_net_scheme" where
  "box_tick env app b st =
     (let x = box_of st b in
      case bx_last_received x of None \<Rightarrow> Inr st
      | Some t \<Rightarrow> (if bx_connected x \<and> ne_monotonic env - t \<ge> ne_heartbeat_ns env * missed_heartbeats_allowed
                  then drop_box app b st else Inr st))"

subsection \<open>The manager\<close>

definition add_box :: "int \<Rightarrow> 'a nnf_net_scheme \<Rightarrow> 'a nnf_net_scheme" where
  "add_box b st = put_box b new_box st"

definition add_user :: "nnf_user \<Rightarrow> 'a nnf_net_scheme \<Rightarrow> exn + 'a nnf_net_scheme" where
  "add_user cfg st =
     (if map_of (nn_boxes st) (nu_box_id cfg) = None then Inl ValueError
      else Inr (st\<lparr>nn_users := AList.update (nu_user_id cfg) cfg (nn_users st)\<rparr>))"

definition users_of :: "'a nnf_net_scheme \<Rightarrow> int \<Rightarrow> nnf_user list" where
  "users_of st b = filter (\<lambda>cfg. nu_box_id cfg = b) (map snd (nn_users st))"

definition session_for :: "'a nnf_net_scheme \<Rightarrow> string list \<Rightarrow> int option" where
  "session_for st key = (if length key \<noteq> 2 then None else find (\<lambda>u. string_of_int u = key ! 1) (nn_live st))"

definition manager_tick :: "nnf_env \<Rightarrow> 'a nnf_net_scheme nnf_app \<Rightarrow> 'a nnf_net_scheme \<Rightarrow> exn + 'a nnf_net_scheme" where
  "manager_tick env app st = fold_exn (box_tick env app) (map fst (nn_boxes st)) st"

definition manager_close :: "'a nnf_net_scheme nnf_app \<Rightarrow> 'a nnf_net_scheme \<Rightarrow> exn + 'a nnf_net_scheme" where
  "manager_close app st = fold_exn (drop_box app) (map fst (nn_boxes st)) st"

definition resolve_inbound :: "nnf_env \<Rightarrow> fix_message \<Rightarrow> 'a nnf_net_scheme \<Rightarrow> int option" where
  "resolve_inbound env m st =
     (case ne_box_id_tag env of None \<Rightarrow> None
      | Some tag \<Rightarrow> (case msg_get m tag of None \<Rightarrow> None
          | Some v \<Rightarrow> (case int_of_str v of None \<Rightarrow> None
              | Some b \<Rightarrow> (if map_of (nn_boxes st) b = None then None else Some b))))"

end
