(* ===== verification/Nse_Rules.thy ===== *)
theory Nse_Rules
  imports Nse_Dictionary Nnf_Session Validation
begin

section \<open>The vocabulary of the equity segment (\<open>venues/nse/rules.py\<close>)\<close>

text \<open>
  The tables between wire values and the core's enumerations, what the venue refuses and with
  which published code, the two encodings of the order flow, and the limits of its validator.
  A table that is only read with a default is a function; one that is iterated is a list. The
  texts that accompany codes in the log are left out.
\<close>

subsection \<open>Values\<close>

definition side_to_core :: "string option \<Rightarrow> side" where
  "side_to_core v = (if v = Some ''1'' then BUY else if v = Some ''2'' then SELL else NO_SIDE)"

definition side_to_wire :: "side \<Rightarrow> string option" where
  "side_to_wire s = (if s = BUY then Some ''1'' else if s = SELL then Some ''2'' else None)"

definition capacity_to_core :: "string option \<Rightarrow> capacity option" where
  "capacity_to_core v = (if v = Some ''1'' then Some AGENCY else if v = Some ''2'' then Some PRINCIPAL else None)"

definition capacity_to_wire :: "capacity option \<Rightarrow> string option" where
  "capacity_to_wire c = (case c of None \<Rightarrow> None | Some AGENCY \<Rightarrow> Some ''1'' | Some PRINCIPAL \<Rightarrow> Some ''2'')"

fun market_status :: "trading_state \<Rightarrow> string" where
  "market_status PRE_OPEN = ''0''"
| "market_status OPENING_AUCTION = ''3''"
| "market_status OPEN = ''1''"
| "market_status CLOSED = ''2''"
| "market_status HALTED = ''2''"
| "market_status LUNCH_BREAK = ''2''"
| "market_status CLOSING_AUCTION = ''2''"

definition or_else_text :: "string option \<Rightarrow> string \<Rightarrow> string" where
  "or_else_text v d = (case v of None \<Rightarrow> d | Some t \<Rightarrow> t)"

definition activity_trade :: string where "activity_trade = ''NT''"

subsection \<open>What the venue refuses\<close>

definition supported_book :: string where "supported_book = ''1''"

definition unsupported_books :: "(string \<times> int) list" where
  "unsupported_books =
     [(''2'', 16422), (''3'', 16422), (''5'', 16422), (''6'', 16422), (''7'', 16422), (''12'', 16422)]"

definition unsupported_attributes :: "(int \<times> int) list" where
  "unsupported_attributes =
     [(CM_FLAG_AON, 16319), (CM_FLAG_MF, 16320), (CM_FLAG_ON_STOP, 16422), (CM_FLAG_GTC, 16326)]"

definition invalid_order_param :: int where "invalid_order_param = 16415"

fun reject_to_error_code :: "reject_reason \<Rightarrow> int" where
  "reject_to_error_code RR_UNKNOWN_SYMBOL = 16012"
| "reject_to_error_code RR_MARKET_CLOSED = 16000"
| "reject_to_error_code RR_EXCEEDS_QUANTITY_LIMIT = 16282"
| "reject_to_error_code RR_EXCEEDS_VALUE_LIMIT = 16600"
| "reject_to_error_code RR_DUPLICATE_ORDER = 16418"
| "reject_to_error_code RR_UNSUPPORTED_CHARACTERISTIC = 16415"
| "reject_to_error_code RR_INVALID_QUANTITY = 16328"
| "reject_to_error_code RR_INVALID_PRICE = 16415"
| "reject_to_error_code RR_PRICE_OUTSIDE_BAND = 16284"
| "reject_to_error_code RR_TICK_SIZE = 16283"
| "reject_to_error_code RR_POST_ONLY_WOULD_CROSS = 16415"
| "reject_to_error_code RR_UNKNOWN_MPID = 16606"
| "reject_to_error_code RR_OTHER = 16415"

fun cancel_reject_to_error_code :: "cancel_reject_reason \<Rightarrow> int" where
  "cancel_reject_to_error_code CX_TOO_LATE_TO_CANCEL = 16013"
| "cancel_reject_to_error_code CX_UNKNOWN_ORDER = 16013"
| "cancel_reject_to_error_code CX_ALREADY_PENDING = 16115"
| "cancel_reject_to_error_code CX_DUPLICATE_CLORDID = 16418"
| "cancel_reject_to_error_code CX_PRICE_OUTSIDE_BAND = 16284"
| "cancel_reject_to_error_code CX_MISMATCHED_FIELD = 16115"
| "cancel_reject_to_error_code CX_OTHER = 16115"

definition failure_to_error_code :: "int \<Rightarrow> int" where
  "failure_to_error_code reason =
     (if reason \<in> {0, 2, 11} then 16003 else if reason \<in> {5, 6} then 16415 else invalid_order_param)"

definition nse_terminal_statuses :: "order_status set" where
  "nse_terminal_statuses = {FILLED, CANCELLED, REJECTED, EXPIRED}"

subsection \<open>The two encodings\<close>

definition trimmed_requests :: "(int \<times> int) list" where
  "trimmed_requests =
     [(X_BOARD_LOT_IN_TR, X_BOARD_LOT_IN), (X_ORDER_MOD_IN_TR, X_ORDER_MOD_IN),
      (X_ORDER_CANCEL_IN_TR, X_ORDER_CANCEL_IN)]"

definition trimmed_responses :: "(int \<times> int) list" where
  "trimmed_responses =
     [(X_ORDER_CONFIRMATION, X_ORDER_CONFIRMATION_TR), (X_ORDER_MOD_CONFIRMATION, X_ORDER_MOD_CONFIRMATION_TR),
      (X_ORDER_CANCEL_CONFIRMATION, X_ORDER_CXL_CONFIRMATION_TR), (X_ORDER_ERROR, X_ORDER_ERROR_TR),
      (X_ORDER_MOD_REJECT, X_ORDER_MOD_REJECT_TR), (X_ORDER_CANCEL_REJECT, X_ORDER_CANCEL_REJECT_TR),
      (X_PRICE_CONFIRMATION, X_PRICE_CONFIRMATION_TR), (X_TRADE_CONFIRMATION, X_TRADE_CONFIRMATION_TR)]"

definition untrimmed_responses :: "(int \<times> int) list" where
  "untrimmed_responses = map (\<lambda>(plain, tr). (tr, plain)) trimmed_responses"

text \<open>\<open>int(msg_type)\<close> where the exception of a missing or malformed number is caught.\<close>

definition code_of :: "fix_message \<Rightarrow> int option" where
  "code_of m = (case msg_type_of m of None \<Rightarrow> None | Some t \<Rightarrow> int_of_str t)"

definition plain_code :: "fix_message \<Rightarrow> int option" where
  "plain_code m = (case code_of m of None \<Rightarrow> None | Some c \<Rightarrow> map_of trimmed_requests c)"

definition trimmed_code :: "int \<Rightarrow> bool \<Rightarrow> int" where
  "trimmed_code code trimmed =
     (if trimmed then (case map_of trimmed_responses code of None \<Rightarrow> code | Some c \<Rightarrow> c) else code)"

definition untrimmed :: "fix_message \<Rightarrow> fix_message" where
  "untrimmed m =
     (case code_of m of None \<Rightarrow> m
      | Some c \<Rightarrow> (case map_of untrimmed_responses c of None \<Rightarrow> m
                   | Some plain \<Rightarrow> msg_set TAG_MSG_TYPE (string_of_int plain) m))"

definition not_recoverable :: "string list" where
  "not_recoverable =
     map string_of_int [X_HEADER_RECORD, X_MESSAGE_RECORD, X_TRAILER_RECORD, X_SYSTEM_INFORMATION_OUT]"

definition is_recoverable :: "string option \<Rightarrow> bool" where
  "is_recoverable t \<longleftrightarrow> show_opt t \<notin> set not_recoverable"

subsection \<open>Order attributes\<close>

definition nse_time_in_force :: "fix_message \<Rightarrow> time_in_force" where
  "nse_time_in_force m = (if msg_get m CM_FLAG_IOC = Some ''Y'' then IOC else DAY)"

definition nse_order_type :: "fix_message \<Rightarrow> order_type" where
  "nse_order_type m =
     (if msg_get m CM_FLAG_MARKET = Some ''Y'' \<or> msg_get m CM_FLAG_ATO = Some ''Y'' then MARKET else LIMIT)"

definition set_fields :: "(int \<times> string) list \<Rightarrow> fix_message \<Rightarrow> fix_message" where
  "set_fields fs m = fold (\<lambda>(tag, v) n. msg_set tag v n) fs m"

definition yes_no :: "bool \<Rightarrow> string" where
  "yes_no b = (if b then ''Y'' else ''N'')"

definition order_flags :: "order \<Rightarrow> bool \<Rightarrow> (int \<times> bool) list" where
  "order_flags y preopen =
     (let market = (o_order_type y = Some MARKET) in
      [(CM_FLAG_ATO, market \<and> preopen), (CM_FLAG_MARKET, market \<and> \<not> preopen), (CM_FLAG_ON_STOP, False),
       (CM_FLAG_DAY, o_time_in_force y = DAY), (CM_FLAG_GTC, False), (CM_FLAG_IOC, o_time_in_force y \<in> immediate_tif),
       (CM_FLAG_AON, False), (CM_FLAG_MF, False), (CM_FLAG_MATCHED_IND, False), (CM_FLAG_TRADED, o_cum_qty y > 0),
       (CM_FLAG_MODIFIED, o_orig_cl_ord_id y \<noteq> None), (CM_FLAG_FROZEN, False), (CM_FLAG_PREOPEN, preopen),
       (CM_FLAG_STPC, False)])"

definition set_flags :: "order \<Rightarrow> bool \<Rightarrow> fix_message \<Rightarrow> fix_message" where
  "set_flags y preopen m = set_fields (map (\<lambda>(tag, v). (tag, yes_no v)) (order_flags y preopen)) m"

subsection \<open>Limits\<close>

definition permitted_bands :: "int list" where
  "permitted_bands = [2, 5, 10, 20]"

definition nse_limits :: "int option \<Rightarrow> int option \<Rightarrow> validation_limits" where
  "nse_limits value quantity =
     make_limits value quantity True True True {LIMIT, MARKET} {DAY, IOC} True None None"

subsection \<open>Reading the tables\<close>

lemma msg_get_set_fields:
  "msg_get (set_fields fs m) t = (case map_of (rev fs) t of None \<Rightarrow> msg_get m t | Some v \<Rightarrow> Some v)"
  by (induction fs arbitrary: m) (auto simp: set_fields_def msg_get_set map_add_def split: option.split)

lemma set_fields_simps [simp]:
  "set_fields [] m = m"
  "set_fields ((tag, v) # fs) m = set_fields fs (msg_set tag v m)"
  by (simp_all add: set_fields_def)

lemma code_of_create [simp]: "code_of (msg_create (string_of_int c)) = Some c"
  by (simp add: code_of_def msg_type_of_def msg_create_def msg_get_def)

text \<open>A response goes back under the plain code whichever encoding it went out in.\<close>

lemma untrimmed_of_trimmed:
  assumes "code_of m = Some (trimmed_code code t)" and "code \<in> set (map fst trimmed_responses)"
  shows "code_of (untrimmed m) = Some code"
  using assms
  by (cases t) (auto simp: untrimmed_def trimmed_code_def trimmed_responses_def untrimmed_responses_def
      code_of_def msg_type_of_def msg_get_set)

lemma untrimmed_idem: "untrimmed (untrimmed m) = untrimmed m"
  by (auto simp: untrimmed_def untrimmed_responses_def trimmed_responses_def code_of_def msg_type_of_def
      msg_get_set split: option.split)

end
