(* ===== verification/Nnf_Session_Facts.thy ===== *)
theory Nnf_Session_Facts
  imports Nnf_Session
begin

section \<open>The table of signed-on users\<close>

text \<open>
  Who is signed on is recorded three times: in the users of each box, in the manager's table of
  live sessions, and in the table a gateway keeps through its callbacks. \<open>sign_view\<close> is what
  the first two depend on, and sending leaves it alone. The locale \<open>session_callbacks\<close> is the
  contract of the three callbacks that keep the third table, and shows that signing on, signing
  off and disconnecting keep all three in agreement; \<open>nnf_gateway\<close> adds the callbacks that run
  on a message, and extends that to every input of the session layer. The parameter \<open>extra\<close> is
  what a gateway wants kept of its own state besides.
\<close>

definition sign_view :: "'a nnf_net_scheme \<Rightarrow> (int \<Rightarrow> (int \<times> bool) list) \<times> int list \<times> (int \<times> nnf_user) list" where
  "sign_view st = (\<lambda>b. bx_users (box_of st b), nn_live st, nn_users st)"

text \<open>Neither the sessions nor the gateway's own state has changed.\<close>

definition aside :: "'a nnf_net_scheme \<Rightarrow> 'a nnf_net_scheme \<Rightarrow> bool" where
  "aside st st' \<longleftrightarrow> sign_view st' = sign_view st \<and> nnf_net.more st' = nnf_net.more st"

definition agree :: "(int \<Rightarrow> (int \<times> bool) list) \<Rightarrow> int list \<Rightarrow> (int \<times> nnf_user) list \<Rightarrow> bool" where
  "agree on_box live users \<longleftrightarrow>
     (\<forall>b. distinct (map fst (on_box b))) \<and>
     (\<forall>b u x. map_of (on_box b) u = Some x \<longrightarrow> x \<and> map_option nu_box_id (map_of users u) = Some b) \<and>
     distinct live \<and>
     (\<forall>u. u \<in> set live \<longleftrightarrow> (\<exists>b. map_of (on_box b) u \<noteq> None)) \<and>
     (\<forall>u cfg. map_of users u = Some cfg \<longrightarrow> nu_user_id cfg = u)"

text \<open>
  No user is listed twice on a box, a user on a box is signed on and belongs to that box, and
  the live sessions are exactly the users on some box.
\<close>

definition net_ok :: "'a nnf_net_scheme \<Rightarrow> bool" where
  "net_ok st \<longleftrightarrow> (case sign_view st of (on_box, live, users) \<Rightarrow> agree on_box live users)"

lemma agreeD:
  assumes "agree on_box live users"
  shows "distinct (map fst (on_box b))" "distinct live"
    and "map_of (on_box b) u = Some x \<Longrightarrow> x \<and> map_option nu_box_id (map_of users u) = Some b"
    and "u \<in> set live \<longleftrightarrow> (\<exists>b. map_of (on_box b) u \<noteq> None)"
    and "map_of users u = Some cfg \<Longrightarrow> nu_user_id cfg = u"
  using assms unfolding agree_def by blast+

lemma agreeI:
  assumes "\<And>b. distinct (map fst (on_box b))" and "distinct live"
    and "\<And>b u x. map_of (on_box b) u = Some x \<Longrightarrow> x \<and> map_option nu_box_id (map_of users u) = Some b"
    and "\<And>u. u \<in> set live \<longleftrightarrow> (\<exists>b. map_of (on_box b) u \<noteq> None)"
    and "\<And>u cfg. map_of users u = Some cfg \<Longrightarrow> nu_user_id cfg = u"
  shows "agree on_box live users"
  using assms unfolding agree_def by blast

lemma agree_join:
  assumes a: "agree on_box live users" and c: "map_of users u = Some cfg" "nu_box_id cfg = b"
    and new: "map_of (on_box b) u = None"
  shows "agree (\<lambda>c. if c = b then AList.update u True (on_box b) else on_box c) (od_insert u live) users"
proof (rule agreeI)
  note d = agreeD [OF a]
  let ?f = "\<lambda>c. if c = b then AList.update u True (on_box b) else on_box c"
  have m: "map_of (?f c) v = (if c = b \<and> v = u then Some True else map_of (on_box c) v)" for c v
    by (simp add: map_of_update_eq)
  show "distinct (map fst (?f c))" for c using d(1) by (simp add: distinct_update)
  show "distinct (od_insert u live)" using d(2) by simp
  show "x \<and> map_option nu_box_id (map_of users v) = Some c" if "map_of (?f c) v = Some x" for c v x
    using that d(3) [of c v x] c by (simp add: m split: if_splits)
  show "v \<in> set (od_insert u live) \<longleftrightarrow> (\<exists>c. map_of (?f c) v \<noteq> None)" for v
    unfolding m using d(4) [of v] by auto
  show "nu_user_id cf = v" if "map_of users v = Some cf" for v cf using d(5) that by blast
qed

lemma agree_leave:
  assumes a: "agree on_box live users" and on: "map_of (on_box b) u \<noteq> None"
  shows "agree (\<lambda>c. if c = b then AList.delete u (on_box b) else on_box c) (removeAll u live) users"
proof (rule agreeI)
  note d = agreeD [OF a]
  let ?f = "\<lambda>c. if c = b then AList.delete u (on_box b) else on_box c"
  have elsewhere: "map_of (on_box c) u = None" if "c \<noteq> b" for c
    using d(3) [of c u] d(3) [of b u] on that by (cases "map_of (on_box c) u"; cases "map_of (on_box b) u") auto
  have m: "map_of (?f c) v = (if v = u then None else map_of (on_box c) v)" for c v
    using elsewhere by (simp add: map_of_delete_eq)
  show "distinct (map fst (?f c))" for c using d(1) by (simp add: distinct_delete)
  show "distinct (removeAll u live)" using d(2) by (simp add: distinct_removeAll)
  show "x \<and> map_option nu_box_id (map_of users v) = Some c" if "map_of (?f c) v = Some x" for c v x
    using that d(3) [of c v x] by (simp add: m split: if_splits)
  show "v \<in> set (removeAll u live) \<longleftrightarrow> (\<exists>c. map_of (?f c) v \<noteq> None)" for v
    unfolding m using d(4) [of v] by auto
  show "nu_user_id cf = v" if "map_of users v = Some cf" for v cf using d(5) that by blast
qed

lemma agree_clear:
  assumes a: "agree on_box live users"
  shows "agree (\<lambda>c. if c = b then [] else on_box c) (filter (\<lambda>u. map_of (on_box b) u = None) live) users"
proof (rule agreeI)
  note d = agreeD [OF a]
  let ?f = "\<lambda>c. if c = b then [] else on_box c"
  have apart: "map_of (on_box c) v = None \<or> map_of (on_box b) v = None" if "c \<noteq> b" for c v
    using d(3) [of c v] d(3) [of b v] that by (cases "map_of (on_box c) v"; cases "map_of (on_box b) v") auto
  show "distinct (map fst (?f c))" for c using d(1) by simp
  show "distinct (filter (\<lambda>u. map_of (on_box b) u = None) live)" using d(2) by simp
  show "x \<and> map_option nu_box_id (map_of users v) = Some c" if "map_of (?f c) v = Some x" for c v x
    using that d(3) [of c v x] by (simp split: if_splits)
  show "v \<in> set (filter (\<lambda>u. map_of (on_box b) u = None) live) \<longleftrightarrow> (\<exists>c. map_of (?f c) v \<noteq> None)" for v
  proof
    assume "v \<in> set (filter (\<lambda>u. map_of (on_box b) u = None) live)"
    then have "map_of (on_box b) v = None" "\<exists>c. map_of (on_box c) v \<noteq> None" using d(4) by auto
    then show "\<exists>c. map_of (?f c) v \<noteq> None" by metis
  next
    assume "\<exists>c. map_of (?f c) v \<noteq> None"
    then obtain c where "c \<noteq> b" "map_of (on_box c) v \<noteq> None" by (auto split: if_splits)
    then show "v \<in> set (filter (\<lambda>u. map_of (on_box b) u = None) live)" using d(4) [of v] apart [of c v] by auto
  qed
  show "nu_user_id cf = v" if "map_of users v = Some cf" for v cf using d(5) that by blast
qed

subsection \<open>Reading and writing a box\<close>

lemma box_of_put [simp]: "box_of (put_box b x st) c = (if c = b then x else box_of st c)"
  by (simp add: box_of_def put_box_def map_of_update_eq)

lemma put_box_frame [simp]:
  "nn_live (put_box b x st) = nn_live st" "nn_users (put_box b x st) = nn_users st"
  "nn_store (put_box b x st) = nn_store st" "nn_trace (put_box b x st) = nn_trace st"
  "nnf_net.more (put_box b x st) = nnf_net.more st"
  by (simp_all add: put_box_def)

lemma box_of_frame [simp]:
  "box_of (st\<lparr>nn_live := l\<rparr>) c = box_of st c" "box_of (st\<lparr>nn_store := s\<rparr>) c = box_of st c"
  "box_of (st\<lparr>nn_trace := t\<rparr>) c = box_of st c" "box_of (st\<lparr>nnf_net.more := m\<rparr>) c = box_of st c"
  by (simp_all add: box_of_def)

lemma aside_refl [simp]: "aside st st"
  by (simp add: aside_def)

lemma aside_trans [trans]: "aside st st1 \<Longrightarrow> aside st1 st2 \<Longrightarrow> aside st st2"
  by (simp add: aside_def)

lemma aside_put: "bx_users x = bx_users (box_of st b) \<Longrightarrow> aside st (put_box b x st)"
  by (auto simp: aside_def sign_view_def)

lemma aside_happened [simp]: "aside st (happened b e st)"
  by (simp add: aside_def sign_view_def happened_def)

lemma aside_store [simp]: "aside st (st\<lparr>nn_store := s\<rparr>)"
  by (simp add: aside_def sign_view_def)

lemma net_ok_view: "sign_view st' = sign_view st \<Longrightarrow> net_ok st' = net_ok st"
  by (simp add: net_ok_def)

subsection \<open>Sending\<close>

lemma delete_update_same: "AList.delete k (AList.update k v xs) = AList.delete k xs"
  by (induction xs) auto

lemma stamp_aside: "nnf_stamp env m st = Inr (q, m', st') \<Longrightarrow> aside st st'"
  by (auto simp: nnf_stamp_def Let_def bind_exn_Inr split: option.splits)

lemma retain_aside:
  assumes "nnf_retain env u m st = Inr (m', st')"
  shows "aside st st'"
proof -
  obtain q m1 st1 where s: "nnf_stamp env (set_absent (ne_user_id_tag env) (string_of_int u) m) st = Inr (q, m1, st1)"
      and e: "st' = (case (nn_store st1, q) of
          (Some s, Some i) \<Rightarrow> st1\<lparr>nn_store := Some (snd (store_record (ne_recoverable env) (ne_normalise env) u i m1 s))\<rparr>
        | _ \<Rightarrow> st1)"
    using assms by (auto simp: nnf_retain_def bind_exn_Inr)
  have "aside st1 st'" unfolding e by (cases "nn_store st1"; cases q) simp_all
  with stamp_aside [OF s] show ?thesis by (rule aside_trans)
qed

lemma box_send_aside:
  assumes "box_send env b m st = Inr st'"
  shows "aside st st'"
proof (cases "bx_connected (box_of st b)")
  case True
  obtain q m1 st1 where s: "nnf_stamp env m st = Inr (q, m1, st1)"
    using assms True by (auto simp: box_send_def bind_exn_Inr)
  obtain c m2 r where n: "nnf_encode (box_codec env (box_of st1 b)) m1 = (c, m2, r)" by (metis prod_cases3)
  let ?p = "put_box b ((box_of st1 b)\<lparr>bx_cipher := nx_cipher c\<rparr>) st1"
  have "st' = ?p \<or> (\<exists>raw. st' = happened b (BoxSent raw) ?p)"
    using assms True s n by (auto simp: box_send_def Let_def split: sum.splits if_splits)
  moreover have "aside st ?p" by (rule aside_trans [OF stamp_aside [OF s] aside_put]) simp
  ultimately show ?thesis by (auto intro: aside_trans [OF _ aside_happened])
qed (use assms in \<open>simp add: box_send_def\<close>)

lemma user_send_aside: "user_send env u m st = Inr st' \<Longrightarrow> aside st st'"
  by (auto simp: user_send_def bind_exn_Inr intro: aside_trans [OF retain_aside box_send_aside] split: option.splits)

lemma registered_aside [simp]: "aside st (box_registered b c st)" "aside st (box_signed_on b broker st)"
  by (simp_all add: box_registered_def box_signed_on_def aside_put)

lemma fold_exn_rel:
  assumes "fold_exn f xs s1 = Inr s'" and "R s1" and "\<And>x t t'. x \<in> set xs \<Longrightarrow> R t \<Longrightarrow> f x t = Inr t' \<Longrightarrow> R t'"
  shows "R s'"
  using assms
proof (induction xs arbitrary: s1)
  case (Cons x xs)
  from Cons.prems(1) obtain s2 where s2: "f x s1 = Inr s2" "fold_exn f xs s2 = Inr s'" by (auto split: sum.splits)
  have "R s2" using Cons.prems(2,3) s2(1) by (metis list.set_intros(1))
  then show ?case using Cons.IH [OF s2(2)] Cons.prems(3) by (metis list.set_intros(2))
qed simp

subsection \<open>What the callbacks promise\<close>

locale session_callbacks =
  fixes on_logon on_logout on_detached :: "int \<Rightarrow> 'a nnf_net_scheme \<Rightarrow> exn + 'a nnf_net_scheme"
    and table :: "'a nnf_net_scheme \<Rightarrow> int set"
    and extra :: "'a nnf_net_scheme \<Rightarrow> bool"
  assumes logon: "on_logon u st = Inr st' \<Longrightarrow> sign_view st' = sign_view st \<and> table st' = insert u (table st)"
    and logout: "on_logout u st = Inr st' \<Longrightarrow> sign_view st' = sign_view st \<and> table st' = table st - {u}"
    and detached: "on_detached b st = Inr st' \<Longrightarrow> sign_view st' = sign_view st \<and> table st' = table st"
    and extra_logon: "on_logon u st = Inr st' \<Longrightarrow> extra st \<Longrightarrow> extra st'"
    and extra_logout: "on_logout u st = Inr st' \<Longrightarrow> extra st \<Longrightarrow> extra st'"
    and extra_detached: "on_detached b st = Inr st' \<Longrightarrow> extra st \<Longrightarrow> extra st'"
    and table_more: "nnf_net.more st' = nnf_net.more st \<Longrightarrow> table st' = table st"
    and extra_more: "nnf_net.more st' = nnf_net.more st \<Longrightarrow> extra st' = extra st"
begin

definition good :: "'a nnf_net_scheme \<Rightarrow> bool" where
  "good st \<longleftrightarrow> net_ok st \<and> table st = set (nn_live st) \<and> extra st"

lemma good_aside: "aside st st' \<Longrightarrow> good st' = good st"
  using net_ok_view [of st' st] table_more [of st' st] extra_more [of st' st]
  by (auto simp: good_def aside_def sign_view_def)

lemma sign_on_good:
  assumes r: "sign_on_user on_logon b cfg st = Inr st'" and g: "good st"
    and c: "map_of (nn_users st) (nu_user_id cfg) = Some cfg" "nu_box_id cfg = b"
    and new: "map_of (bx_users (box_of st b)) (nu_user_id cfg) = None"
  shows "good st'"
proof -
  let ?u = "nu_user_id cfg"
  let ?x = "(box_of st b)\<lparr>bx_users := AList.update ?u True (bx_users (box_of st b))\<rparr>"
  let ?s = "(put_box b ?x st)\<lparr>nn_live := od_insert ?u (nn_live st)\<rparr>"
  have l: "on_logon ?u ?s = Inr st'" using r by (simp add: sign_on_user_def Let_def)
  have more: "nnf_net.more ?s = nnf_net.more st" by simp
  have v: "sign_view ?s = (\<lambda>c. if c = b then AList.update ?u True (bx_users (box_of st b)) else bx_users (box_of st c),
      od_insert ?u (nn_live st), nn_users st)"
    by (auto simp: sign_view_def)
  have "agree (\<lambda>b. bx_users (box_of st b)) (nn_live st) (nn_users st)"
    using g by (simp add: good_def net_ok_def sign_view_def)
  from agree_join [OF this c new] have "net_ok ?s" by (simp only: net_ok_def v prod.case)
  moreover have "table ?s = table st" "extra ?s = extra st"
    using table_more [OF more] extra_more [OF more] by blast+
  ultimately show ?thesis
    using logon [OF l] extra_logon [OF l] g net_ok_view [of st' ?s]
    by (auto simp: good_def sign_view_def)
qed

text \<open>One user's session ends: the box keeps the user, marked as signed off.\<close>

lemma end_session_effect:
  assumes "end_session on_logout b u st = Inr st'" and "map_of (bx_users (box_of st b)) u = Some True"
  shows "bx_users (box_of st' c) = (if c = b then AList.update u False (bx_users (box_of st b)) else bx_users (box_of st c))"
    and "nn_live st' = removeAll u (nn_live st)" and "nn_users st' = nn_users st"
    and "table st' = table st - {u}" and "extra st \<Longrightarrow> extra st'"
proof -
  let ?x = "(box_of st b)\<lparr>bx_users := AList.update u False (bx_users (box_of st b))\<rparr>"
  let ?s = "(put_box b ?x st)\<lparr>nn_live := removeAll u (nn_live st)\<rparr>"
  have l: "on_logout u ?s = Inr st'" using assms by (simp add: end_session_def Let_def)
  have more: "nnf_net.more ?s = nnf_net.more st" by simp
  have v: "sign_view st' = sign_view ?s" "table st' = table ?s - {u}" using logout [OF l] by auto
  have w: "(\<lambda>b. bx_users (box_of st' b)) = (\<lambda>b. bx_users (box_of ?s b))" "nn_live st' = nn_live ?s" "nn_users st' = nn_users ?s"
    using v(1) by (simp_all only: sign_view_def prod.inject)
  from fun_cong [OF w(1), of c] show "bx_users (box_of st' c) = (if c = b then AList.update u False (bx_users (box_of st b)) else bx_users (box_of st c))"
    by simp
  show "nn_live st' = removeAll u (nn_live st)" "nn_users st' = nn_users st"
    using w(2,3) by simp_all
  show "table st' = table st - {u}" using v(2) table_more [OF more] by simp
  show "extra st \<Longrightarrow> extra st'" using extra_logout [OF l] extra_more [OF more] by simp
qed

lemma end_session_idle: "map_of (bx_users (box_of st b)) u \<noteq> Some True \<Longrightarrow> end_session on_logout b u st = Inr st"
  by (simp add: end_session_def)


lemma sign_off_good:
  assumes r: "box_sign_off on_logout b u st = Inr st'" and g: "good st"
  shows "good st'"
proof -
  obtain st1 where e: "end_session on_logout b u st = Inr st1"
      and st': "st' = put_box b ((box_of st1 b)\<lparr>bx_users := AList.delete u (bx_users (box_of st1 b))\<rparr>) st1"
    using r by (auto simp: box_sign_off_def bind_exn_Inr)
  have more: "nnf_net.more st' = nnf_net.more st1" by (simp add: st')
  have a: "agree (\<lambda>b. bx_users (box_of st b)) (nn_live st) (nn_users st)"
    using g by (simp add: good_def net_ok_def sign_view_def)
  show ?thesis
  proof (cases "map_of (bx_users (box_of st b)) u")
    case None
    then have "st1 = st" using e by (simp add: end_session_def)
    moreover from this have "sign_view st' = sign_view st"
      using None by (auto simp: st' sign_view_def delete_idem map_of_eq_None_iff fun_eq_iff)
    ultimately have "aside st st'" using more by (simp add: aside_def)
    then show ?thesis using good_aside g by blast
  next
    case (Some x)
    with agreeD(3) [OF a Some] have on: "map_of (bx_users (box_of st b)) u = Some True" by simp
    note eff = end_session_effect [OF e on]
    have v: "sign_view st' = (\<lambda>c. if c = b then AList.delete u (bx_users (box_of st b)) else bx_users (box_of st c),
        removeAll u (nn_live st), nn_users st)"
      by (simp add: st' sign_view_def eff(1-3) delete_update_same fun_eq_iff)
    have "net_ok st'" using agree_leave [OF a, of b u] on by (simp only: net_ok_def v prod.case) simp
    moreover have "nn_live st' = removeAll u (nn_live st)" using v by (simp add: sign_view_def)
    ultimately show ?thesis
      using g eff(4,5) table_more [OF more] extra_more [OF more] by (auto simp: good_def)
  qed
qed

text \<open>Disconnecting a box ends the session of each of its users.\<close>

lemma end_sessions_effect:
  assumes "fold_exn (end_session on_logout b) us st = Inr st'" and "distinct us"
    and "\<And>u. u \<in> set us \<Longrightarrow> map_of (bx_users (box_of st b)) u = Some True"
  shows "(\<forall>c. c \<noteq> b \<longrightarrow> bx_users (box_of st' c) = bx_users (box_of st c)) \<and>
    nn_live st' = filter (\<lambda>u. u \<notin> set us) (nn_live st) \<and> nn_users st' = nn_users st \<and>
    table st' = table st - set us \<and> (extra st \<longrightarrow> extra st')"
  using assms
proof (induction us arbitrary: st)
  case (Cons u us)
  then obtain st1 where e: "end_session on_logout b u st = Inr st1" "fold_exn (end_session on_logout b) us st1 = Inr st'"
    by (auto split: sum.splits)
  have on: "map_of (bx_users (box_of st b)) u = Some True" using Cons.prems(3) by simp
  note eff = end_session_effect [OF e(1) on]
  have "map_of (bx_users (box_of st1 b)) v = Some True" if "v \<in> set us" for v
    using Cons.prems(2,3) that by (auto simp: eff(1) map_of_update_eq)
  from Cons.IH [OF e(2) _ this] Cons.prems(2) eff show ?case
    by (auto simp: removeAll_filter_not_eq intro!: filter_cong)
qed simp

lemma detach_good:
  assumes r: "box_detach on_logout on_detached b st = Inr st'" and g: "good st"
  shows "good st' \<and> (bx_connected (box_of st b) \<longrightarrow> bx_users (box_of st' b) = [])"
proof (cases "bx_connected (box_of st b)")
  case False
  then show ?thesis using r g by (simp add: box_detach_def)
next
  case True
  let ?x = "(box_of st b)\<lparr>bx_connected := False, bx_state := BoxDisconnected, bx_cipher := PlainCipher\<rparr>"
  let ?s = "put_box b ?x st"
  have s: "good ?s" using good_aside [OF aside_put [of ?x st b]] g by simp
  then have a: "agree (\<lambda>b. bx_users (box_of ?s b)) (nn_live ?s) (nn_users ?s)"
    by (simp add: good_def net_ok_def sign_view_def)
  let ?us = "map fst (bx_users (box_of ?s b))"
  obtain st2 where f: "fold_exn (end_session on_logout b) ?us ?s = Inr st2"
      and d: "on_detached b (put_box b ((box_of st2 b)\<lparr>bx_users := []\<rparr>) st2) = Inr st'"
    using r True by (auto simp: box_detach_def Let_def bind_exn_Inr)
  let ?t = "put_box b ((box_of st2 b)\<lparr>bx_users := []\<rparr>) st2"
  have on: "map_of (bx_users (box_of ?s b)) u = Some True" if "u \<in> set ?us" for u
    using that agreeD(3) [OF a, of b u] by (cases "map_of (bx_users (box_of ?s b)) u") (auto simp: map_of_eq_None_iff)
  note eff = end_sessions_effect [OF f agreeD(1) [OF a, of b] on]
  have us: "u \<notin> set ?us \<longleftrightarrow> map_of (bx_users (box_of ?s b)) u = None" for u by (simp add: map_of_eq_None_iff)
  have v: "sign_view ?t = (\<lambda>c. if c = b then [] else bx_users (box_of ?s c),
      filter (\<lambda>u. map_of (bx_users (box_of ?s b)) u = None) (nn_live ?s), nn_users ?s)"
    using eff unfolding us by (simp add: sign_view_def fun_eq_iff)
  have "net_ok ?t" using agree_clear [OF a, of b] by (simp only: net_ok_def v prod.case)
  moreover have "table ?t = set (nn_live ?t)"
    using eff s table_more [of ?t st2] by (auto simp: good_def)
  moreover have "extra ?t" using eff s extra_more [of ?t st2] by (auto simp: good_def)
  ultimately have "good ?t" by (simp add: good_def)
  moreover note dt = detached [OF d] extra_detached [OF d]
  ultimately have "good st'" using net_ok_view [of st' ?t] by (auto simp: good_def sign_view_def)
  moreover have "bx_users (box_of st' b) = bx_users (box_of ?t b)"
    using dt(1) by (metis (mono_tags, lifting) prod.inject sign_view_def)
  ultimately show ?thesis by simp
qed

lemma disconnect_good:
  assumes r: "box_disconnect on_logout on_detached b st = Inr st'" and g: "good st"
  shows "good st'"
proof -
  obtain st1 where d: "box_detach on_logout on_detached b st = Inr st1"
      and st': "st' = (if bx_connected (box_of st b) then happened b BoxClosed st1 else st1)"
    using r by (auto simp: box_disconnect_def bind_exn_Inr)
  have "good st1" using detach_good [OF d g] by blast
  then show ?thesis using good_aside [OF aside_happened] by (auto simp: st')
qed

lemma attach_good: "good st \<Longrightarrow> good (box_attach env b st)"
  unfolding box_attach_def by (subst good_aside [OF aside_put]) simp_all

end

subsection \<open>What a gateway promises\<close>

locale nnf_gateway =
  session_callbacks "ap_on_logon app" "ap_on_logout app" "ap_on_box_detached app" table extra
  for app :: "'a nnf_net_scheme nnf_app" and table :: "'a nnf_net_scheme \<Rightarrow> int set" and extra :: "'a nnf_net_scheme \<Rightarrow> bool" +
  assumes message: "ap_on_message app u m st = Inr st' \<Longrightarrow> good st \<Longrightarrow> u \<in> set (nn_live st) \<Longrightarrow> good st'"
    and box_message: "ap_on_box_message app b m st = Inr (answered, st') \<Longrightarrow> good st \<Longrightarrow> good st'"
    and invalid: "ap_on_invalid app who m f st = Inr (answered, st') \<Longrightarrow> good st \<Longrightarrow> good st'"
    and checksum_failure: "ap_on_checksum_failure app b st = Inr st' \<Longrightarrow> good st \<Longrightarrow> good st'"
begin

lemma heartbeat_good:
  assumes "on_heartbeat env app b st = Inr st'" and g: "good st"
  shows "good st'"
proof -
  let ?x = "box_of st b"
  have p: "good (put_box b (?x\<lparr>bx_drop_counter := n\<rparr>) st)" "good (put_box b (?x\<lparr>bx_last_heartbeat := t\<rparr>) st)" for n t
    using good_aside [OF aside_put [of "?x\<lparr>bx_drop_counter := n\<rparr>" st b]]
      good_aside [OF aside_put [of "?x\<lparr>bx_last_heartbeat := t\<rparr>" st b]] g by simp_all
  from assms(1) show ?thesis
    using disconnect_good [OF _ p(1)] good_aside [OF box_send_aside] p
    by (auto simp: on_heartbeat_def Let_def split: if_splits)
qed

lemma dispatch_good:
  assumes r: "dispatch env app b m st = Inr st'" and g: "good st"
  shows "good st'"
proof -
  have live: "u \<in> set (nn_live st)" if "map_of (bx_users (box_of st b)) u = Some True" for u
    using g that unfolding good_def net_ok_def sign_view_def
    by (auto dest!: agreeD(4) [where u = u])
  from r show ?thesis
    using invalid [OF _ g] message [OF _ g live] box_message [OF _ g] heartbeat_good [OF _ g] disconnect_good
    by (auto simp: dispatch_def Let_def bind_exn_Inr split: option.splits if_splits)
qed

lemma packet_good:
  assumes r: "on_packet env app b raw st = Inr st'" and g: "good st"
  shows "good st'"
proof -
  obtain c d where dec: "nnf_decode (box_codec env (box_of st b)) raw True = (c, d)" by fastforce
  let ?s = "put_box b ((box_of st b)\<lparr>bx_cipher := nx_cipher c\<rparr>) st"
  have s: "good ?s" using good_aside [OF aside_put] g by simp
  from r dec show ?thesis
    using dispatch_good [OF _ s] disconnect_good [OF _ s] checksum_failure [OF _ s] disconnect_good
    by (auto simp: on_packet_def Let_def bind_exn_Inr split: sum.splits decode_error.splits packet_error.splits)
qed

lemma data_good:
  assumes r: "box_on_data env app b chunk st = Inr st'" and g: "good st"
  shows "good st'"
proof (cases "packet_feed (bx_buffer (box_of st b)) chunk")
  case (Inl e)
  then obtain x left where e: "packet_feed (bx_buffer (box_of st b)) chunk = Inl (x, left)" by (cases e) auto
  have "good (put_box b ((box_of st b)\<lparr>bx_buffer := left\<rparr>) st)" using good_aside [OF aside_put] g by simp
  with r e show ?thesis using disconnect_good by (auto simp: box_on_data_def)
next
  case (Inr p)
  then obtain raws left where p: "packet_feed (bx_buffer (box_of st b)) chunk = Inr (raws, left)" by (cases p) auto
  let ?s = "put_box b ((box_of st b)\<lparr>bx_buffer := left, bx_last_received := Some (ne_monotonic env)\<rparr>) st"
  have "good ?s" using good_aside [OF aside_put] g by simp
  moreover have "fold_exn (on_packet env app b) raws ?s = Inr st'" using r p by (simp add: box_on_data_def)
  ultimately show ?thesis using packet_good by (rule_tac fold_exn_rel [where R = good])
qed

lemma tick_good:
  assumes "manager_tick env app st = Inr st'" and "good st"
  shows "good st'"
proof (rule fold_exn_rel [where R = good])
  show "fold_exn (box_tick env app) (map fst (nn_boxes st)) st = Inr st'" using assms by (simp add: manager_tick_def)
  show "good t'" if "good t" "box_tick env app x t = Inr t'" for x t t'
    using that disconnect_good by (auto simp: box_tick_def Let_def split: option.splits if_splits)
qed (rule assms)

lemma close_good:
  assumes "manager_close app st = Inr st'" and "good st"
  shows "good st'"
  using assms disconnect_good unfolding manager_close_def by (rule_tac fold_exn_rel [where R = good])

end

end
