(* ===== verification/Nse_Desk.thy ===== *)
theory Nse_Desk
  imports Nse_Rules Nnf_Session_Facts Engine_Steps
begin

section \<open>Reports to their owners (\<open>venues/nse/handlers.py\<close>)\<close>

text \<open>
  The part of the gateway that has nothing to do with one structure: its tables, whom a report
  belongs to, filing it for a user who is away, injected losses and delays, and what happens
  when a user signs on or off. How an event is rendered is an argument. A session key is a
  list here: the pair of a user is a list of two, an owner the control plane made up is a list
  of one. A report that is delayed waits in the state, with its delay, the user it is for and
  the message, until its timer runs.
\<close>

record secrets =
  sc_session_key :: string
  sc_key :: bytes
  sc_iv :: bytes
  sc_additional_key :: bytes
  sc_existing :: bool
  sc_endian :: "endian option"

record nse_venue =
  nv_net :: nnf_env
  nv_engine :: engine
  nv_codec :: price_codec
  nv_market :: string
  nv_stream :: int
  nv_ticks :: tick_table
  nv_boxes :: "(int \<times> string list) list"
  nv_encrypted :: bool

record nse_state = nnf_net +
  ns_world :: eworld
  ns_sessions :: "(session_key \<times> int) list"
  ns_references :: "(oid \<times> string) list"
  ns_trimmed :: "oid list"
  ns_issued :: "(int \<times> secrets) list"
  ns_delayed :: "(int \<times> int \<times> fix_message) list"
  ns_locked :: bool

type_synonym renderer = "nse_state \<Rightarrow> event \<Rightarrow> exn + fix_message list"

definition order_at :: "nse_state \<Rightarrow> oid \<Rightarrow> order" where
  "order_at st x = ew_heap (ns_world st) x"

text \<open>\<open>getattr(event, "order", None)\<close>.\<close>

fun event_order :: "event \<Rightarrow> oid option" where
  "event_order (OrderAccepted x cum leaves qty) = Some x"
| "event_order (OrderRejected x reason t) = Some x"
| "event_order (OrderFilled f) = Some (fe_order f)"
| "event_order (OrderCancelled x reason t) = Some x"
| "event_order (OrderDecremented x qty reason) = Some x"
| "event_order (OrderReplaced x c kept) = Some x"
| "event_order (CancelRejected c orig reason t x is_replace) = x"
| "event_order (TradeExecuted t) = None"
| "event_order (TradingStateChanged m sy before after) = None"

definition is_nnf_key :: "session_key \<Rightarrow> bool" where
  "is_nnf_key k \<longleftrightarrow> length k = 2 \<and> hd k = ''nnf''"

subsection \<open>Whom a report belongs to\<close>

definition report_target :: "nse_state \<Rightarrow> event \<Rightarrow> int option \<Rightarrow> int option" where
  "report_target st ev fallback =
     (case event_order ev of None \<Rightarrow> fallback
      | Some x \<Rightarrow> (let k = o_session_key (order_at st x) in if is_nnf_key k then map_of (ns_sessions st) k else fallback))"

definition file_report :: "nse_venue \<Rightarrow> oid option \<Rightarrow> fix_message \<Rightarrow> nse_state \<Rightarrow> exn + nse_state" where
  "file_report env order m st =
     (case order of None \<Rightarrow> Inr st
      | Some x \<Rightarrow>
         (let k = o_session_key (order_at st x) in
          if length k \<noteq> 2 then Inr st
          else (case int_of_str (k ! 1) of None \<Rightarrow> Inr st
            | Some u \<Rightarrow> bind_exn (nnf_retain (nv_net env) u m st) (\<lambda>(_, st1). Inr st1))))"

definition set_rules :: "behaviour_store \<Rightarrow> nse_state \<Rightarrow> nse_state" where
  "set_rules b st = st\<lparr>ns_world := (ns_world st)\<lparr>ew_behaviour := b\<rparr>\<rparr>"

definition deliver_report :: "nse_venue \<Rightarrow> int \<Rightarrow> fix_message \<Rightarrow> oid option \<Rightarrow> nse_state \<Rightarrow> exn + nse_state" where
  "deliver_report env u m order st =
     (let b = ew_behaviour (ns_world st) in
      case (if behaviour_active b then order else None) of
        None \<Rightarrow> user_send (nv_net env) u m st
      | Some x \<Rightarrow>
         (case take_rule FORCE_DROP (order_at st x) b of
            (Some r, b1) \<Rightarrow> Inr (set_rules b1 st)
          | (None, b1) \<Rightarrow>
             (case take_rule FORCE_DELAY (order_at st x) b1 of (found, b2) \<Rightarrow>
               (let st1 = set_rules b2 st in
                case found of None \<Rightarrow> user_send (nv_net env) u m st1
                | Some r \<Rightarrow>
                    (if ru_delay_ms r = 0 then user_send (nv_net env) u m st1
                     else Inr (st1\<lparr>ns_delayed := ns_delayed st1 @ [(ru_delay_ms r, u, m)]\<rparr>))))))"

text \<open>One timer running: \<open>target.send(message)\<close>.\<close>

definition deliver_delayed :: "nse_venue \<Rightarrow> nat \<Rightarrow> nse_state \<Rightarrow> exn + nse_state" where
  "deliver_delayed env i st =
     (if i < length (ns_delayed st)
      then (case ns_delayed st ! i of (delay, u, m) \<Rightarrow>
        user_send (nv_net env) u m (st\<lparr>ns_delayed := take i (ns_delayed st) @ drop (Suc i) (ns_delayed st)\<rparr>))
      else Inr st)"

subsection \<open>What the gateway remembers of an order\<close>

text \<open>The first event that has an order names it.\<close>

definition remember_order :: "string option \<Rightarrow> bool \<Rightarrow> event list \<Rightarrow> nse_state \<Rightarrow> nse_state" where
  "remember_order reference trimmed evs st =
     (case List.map_filter event_order evs of [] \<Rightarrow> st
      | x # _ \<Rightarrow>
         (let st1 = (case reference of None \<Rightarrow> st
                | Some r \<Rightarrow> if map_of (ns_references st) x = None
                            then st\<lparr>ns_references := AList.update x r (ns_references st)\<rparr> else st)
          in if trimmed then st1\<lparr>ns_trimmed := List.insert x (ns_trimmed st1)\<rparr> else st1))"

definition forget_order :: "oid \<Rightarrow> nse_state \<Rightarrow> nse_state" where
  "forget_order x st =
     (if o_status (order_at st x) \<in> nse_terminal_statuses
      then st\<lparr>ns_references := AList.delete x (ns_references st), ns_trimmed := removeAll x (ns_trimmed st)\<rparr>
      else st)"

definition forget_orders :: "event list \<Rightarrow> nse_state \<Rightarrow> nse_state" where
  "forget_orders evs st = fold forget_order (List.map_filter event_order evs) st"

definition code_for :: "nse_state \<Rightarrow> oid \<Rightarrow> int \<Rightarrow> int" where
  "code_for st x code = trimmed_code code (x \<in> set (ns_trimmed st))"

subsection \<open>Emission\<close>

definition pass_report :: "nse_venue \<Rightarrow> int option \<Rightarrow> oid option \<Rightarrow> fix_message \<Rightarrow> nse_state \<Rightarrow> exn + nse_state" where
  "pass_report env target order m st =
     (case target of None \<Rightarrow> file_report env order m st | Some u \<Rightarrow> deliver_report env u m order st)"

definition emit_event :: "nse_venue \<Rightarrow> renderer \<Rightarrow> int option \<Rightarrow> event \<Rightarrow> nse_state \<Rightarrow> exn + nse_state" where
  "emit_event env render fallback ev st =
     bind_exn (render st ev) (\<lambda>ms.
       fold_exn (pass_report env (report_target st ev fallback) (event_order ev)) ms st)"

definition emit_reports :: "nse_venue \<Rightarrow> renderer \<Rightarrow> int option \<Rightarrow> event list \<Rightarrow> nse_state \<Rightarrow> exn + nse_state" where
  "emit_reports env render fallback evs st =
     bind_exn (fold_exn (emit_event env render fallback) evs st) (\<lambda>st1. Inr (forget_orders evs st1))"

subsection \<open>Signing on and off\<close>

definition desk_logon :: "int \<Rightarrow> nse_state \<Rightarrow> exn + nse_state" where
  "desk_logon u st = Inr (st\<lparr>ns_sessions := AList.update (nnf_key u) u (ns_sessions st)\<rparr>)"

definition cancels_on_disconnect :: "nse_state \<Rightarrow> int \<Rightarrow> bool" where
  "cancels_on_disconnect st u = (case map_of (nn_users st) u of None \<Rightarrow> False | Some cfg \<Rightarrow> nu_cancel_on_disconnect cfg)"

definition desk_logout :: "nse_venue \<Rightarrow> renderer \<Rightarrow> int \<Rightarrow> nse_state \<Rightarrow> exn + nse_state" where
  "desk_logout env render u st =
     (let st1 = st\<lparr>ns_sessions := AList.delete (nnf_key u) (ns_sessions st)\<rparr> in
      if \<not> cancels_on_disconnect st u then Inr st1
      else bind_exn (cancel_session_orders (nnf_key u) CR_CANCEL_ON_DISCONNECT ''cancelled on disconnect'' (ns_world st1))
        (\<lambda>(ew, evs). emit_reports env render (Some u) evs (st1\<lparr>ns_world := ew\<rparr>)))"

text \<open>\<open>NseVenue.forget\<close>, and what was issued to a box.\<close>

definition desk_detached :: "int \<Rightarrow> nse_state \<Rightarrow> exn + nse_state" where
  "desk_detached b st = Inr (st\<lparr>ns_issued := AList.delete b (ns_issued st)\<rparr>)"

definition issue_secrets :: "int \<Rightarrow> secrets \<Rightarrow> nse_state \<Rightarrow> nse_state" where
  "issue_secrets b s st = st\<lparr>ns_issued := AList.update b s (ns_issued st)\<rparr>"

definition exchange_cipher :: "secrets \<Rightarrow> exn + cipher" where
  "exchange_cipher s =
     (if sc_existing s then bind_exn (make_existing (sc_key s) (sc_iv s)) (\<lambda>c. Inr (ExistingCipher c))
      else bind_exn (make_new (sc_key s) (sc_iv s) (sc_additional_key s) False (sc_endian s)) (\<lambda>c. Inr (NewCipher c)))"

definition cipher_for :: "int \<Rightarrow> nse_state \<Rightarrow> exn + cipher option" where
  "cipher_for b st =
     (case map_of (ns_issued st) b of None \<Rightarrow> Inr None
      | Some s \<Rightarrow> bind_exn (exchange_cipher s) (\<lambda>c. Inr (Some c)))"

definition session_key_for :: "int \<Rightarrow> nse_state \<Rightarrow> string option" where
  "session_key_for b st = map_option sc_session_key (map_of (ns_issued st) b)"

definition brokers_of :: "nse_venue \<Rightarrow> int \<Rightarrow> string list" where
  "brokers_of env b = (case map_of (nv_boxes env) b of None \<Rightarrow> [] | Some bs \<Rightarrow> bs)"

subsection \<open>The clock\<close>

definition nse_seconds :: "nse_venue \<Rightarrow> exn + int" where
  "nse_seconds env = bind_exn (epoch_seconds (ne_seconds (nv_net env)) (ne_microsecond (nv_net env))) to_nse_seconds"

definition nse_nanoseconds :: "nse_venue \<Rightarrow> exn + int" where
  "nse_nanoseconds env = bind_exn (epoch_seconds (ne_seconds (nv_net env)) (ne_microsecond (nv_net env))) to_nse_nanoseconds"

end
