(* ===== verification/Nse_Gateway.thy ===== *)
theory Nse_Gateway
  imports Nse_Desk
begin

section \<open>The equity gateway (\<open>venues/nse/handlers.py\<close>, \<open>venues/nse/venue.py\<close>)\<close>

text \<open>
  Requests in, reports out, and the box sequence. A message handler maps the state to a state
  or an exception; \<open>nse_app\<close> is the gateway as the session layer calls it. The operator's
  operations of the venue and of the control plane that touch the gateway follow. Every reading
  of the clock during one input is the same. Log lines are left out.
\<close>

definition text_of :: "int \<Rightarrow> fix_message" where
  "text_of code = msg_create (string_of_int code)"


subsection \<open>Reading a message\<close>

definition get_int_or :: "fix_message \<Rightarrow> int \<Rightarrow> int \<Rightarrow> int" where
  "get_int_or m tag d = (case msg_get_int m tag of None \<Rightarrow> d | Some i \<Rightarrow> i)"

definition join_symbol :: "string option \<Rightarrow> string option \<Rightarrow> string option" where
  "join_symbol sy series =
     (case sy of None \<Rightarrow> None
      | Some s \<Rightarrow> (if s = [] then None
          else case series of None \<Rightarrow> Some s | Some t \<Rightarrow> Some (if t = [] then s else s @ ''-'' @ t)))"

definition split_symbol :: "string \<Rightarrow> string \<times> string" where
  "split_symbol s = (case partition_at (CHR ''-'') s of (name, _, series) \<Rightarrow> (name, series))"

definition resolve_symbol :: "nse_venue \<Rightarrow> string option \<Rightarrow> string option" where
  "resolve_symbol env v =
     (if \<not> truthy v then None
      else (let t = upper (strip (show_opt v)); known = map fst (en_instruments (nv_engine env)) in
            if t \<in> set known then Some t
            else if CHR ''-'' \<in> set t then None
            else (case filter (\<lambda>sy. takeWhile (\<lambda>c. c \<noteq> CHR ''-'') sy = t) known of [sy] \<Rightarrow> Some sy | _ \<Rightarrow> None)))"

definition message_symbol :: "nse_venue \<Rightarrow> fix_message \<Rightarrow> string option" where
  "message_symbol env m = resolve_symbol env (join_symbol (msg_get m CM_SYMBOL) (msg_get m CM_SERIES))"

text \<open>Zero is how a fixed-width structure says that a field carries nothing.\<close>

definition price_field :: "nse_venue \<Rightarrow> fix_message \<Rightarrow> int \<Rightarrow> exn + int option" where
  "price_field env m tag =
     (case msg_get m tag of None \<Rightarrow> Inr None
      | Some t \<Rightarrow> bind_exn (parse_price (nv_codec env) t) (\<lambda>p. Inr (if p = 0 then None else Some p)))"

definition quantity_field :: "fix_message \<Rightarrow> int \<Rightarrow> int option" where
  "quantity_field m tag = (let q = get_int_or m tag 0 in if q = 0 then None else Some q)"

definition order_number :: "fix_message \<Rightarrow> oid option" where
  "order_number m = (case msg_get m CM_ORDER_NUMBER of None \<Rightarrow> None | Some t \<Rightarrow> if t = ''0'' then None else Some t)"

definition unsupported_flow :: "nse_venue \<Rightarrow> fix_message \<Rightarrow> exn + int option" where
  "unsupported_flow env m =
     (case (case msg_get m CM_BOOK_TYPE of None \<Rightarrow> None | Some b \<Rightarrow> if b = supported_book then None else Some b) of
        Some b \<Rightarrow> Inr (Some (case map_of unsupported_books b of None \<Rightarrow> 16422 | Some c \<Rightarrow> c))
      | None \<Rightarrow>
         (case find (\<lambda>(tag, code). msg_get m tag = Some ''Y'') unsupported_attributes of
            Some (tag, code) \<Rightarrow> Inr (Some code)
          | None \<Rightarrow>
             (if get_int_or m CM_DISCLOSED_VOL 0 \<noteq> 0 then Inr (Some 16400)
              else bind_exn (price_field env m CM_TRIGGER_PRICE) (\<lambda>p. Inr (if p = None then None else Some 16423)))))"

subsection \<open>Refusals\<close>

text \<open>The request comes back under the refusing code, without its length field.\<close>

definition refusal_message :: "nse_venue \<Rightarrow> int \<Rightarrow> fix_message \<Rightarrow> int \<Rightarrow> int \<Rightarrow> exn + fix_message" where
  "refusal_message env u m code error =
     (let c = trimmed_code code (plain_code m \<noteq> None) in
      bind_exn (nse_seconds env) (\<lambda>s.
        Inr (set_fields [(TAG_MSG_TYPE, string_of_int c), (CM_ERROR_CODE, string_of_int error),
               (CM_REASON_CODE, string_of_int error), (CM_USER_ID, string_of_int u), (CM_LOG_TIME, string_of_int s)]
             (set_fields (filter (\<lambda>f. fst f \<noteq> CM_MESSAGE_LENGTH) m) (text_of c)))))"

definition reject_change :: "nse_venue \<Rightarrow> int \<Rightarrow> fix_message \<Rightarrow> int \<Rightarrow> int \<Rightarrow> nse_state \<Rightarrow> exn + nse_state" where
  "reject_change env u m code error st =
     bind_exn (refusal_message env u m code error) (\<lambda>reply. user_send (nv_net env) u reply st)"

definition order_error :: "nse_venue \<Rightarrow> int \<Rightarrow> fix_message \<Rightarrow> int \<Rightarrow> nse_state \<Rightarrow> exn + nse_state" where
  "order_error env u m error st = reject_change env u m X_ORDER_ERROR error st"

subsection \<open>Reports\<close>

definition in_preopen :: "nse_venue \<Rightarrow> nse_state \<Rightarrow> bool" where
  "in_preopen env st =
     (case engine_market (ns_world st) (Some (nv_market env)) of None \<Rightarrow> False
      | Some m \<Rightarrow> sm_state (mk_state m) \<in> {PRE_OPEN, OPENING_AUCTION})"

definition price_fields :: "nse_venue \<Rightarrow> int \<Rightarrow> int option \<Rightarrow> exn + (int \<times> string) list" where
  "price_fields env tag p =
     (case p of None \<Rightarrow> Inr [] | Some u \<Rightarrow> bind_exn (format_price (nv_codec env) u) (\<lambda>t. Inr [(tag, t)]))"

definition symbol_fields :: "string \<Rightarrow> (int \<times> string) list" where
  "symbol_fields sy =
     (case split_symbol sy of (name, series) \<Rightarrow>
        [(CM_SYMBOL, name), (CM_SERIES, series), (CM_ALPHA_CHAR, take 2 name)])"

definition owner_fields :: "nse_state \<Rightarrow> order \<Rightarrow> int \<Rightarrow> bool \<Rightarrow> (int \<times> string) list" where
  "owner_fields st y trader_tag branch =
     (case map_of (ns_sessions st) (o_session_key y) of None \<Rightarrow> []
      | Some u \<Rightarrow>
         (case map_of (nn_users st) u of None \<Rightarrow> []
          | Some cfg \<Rightarrow> [(CM_USER_ID, string_of_int u), (trader_tag, string_of_int u), (CM_BROKER_ID, nu_broker_id cfg)] @
              (if branch then [(CM_BRANCH_ID, string_of_int (nu_branch_id cfg))] else [])))"

definition base_report :: "nse_venue \<Rightarrow> nse_state \<Rightarrow> oid \<Rightarrow> int \<Rightarrow> exn + fix_message" where
  "base_report env st x code =
     (let y = order_at st x in
      bind_exn (nse_seconds env) (\<lambda>s. bind_exn (nse_nanoseconds env) (\<lambda>ns.
      bind_exn (price_fields env CM_PRICE (o_price y)) (\<lambda>price.
        Inr (set_flags y (in_preopen env st)
          (set_fields
            ([(CM_ERROR_CODE, string_of_int X_NO_ERROR), (CM_LOG_TIME, string_of_int s), (CM_TIMESTAMP, string_of_int ns)] @
             symbol_fields (o_symbol y) @
             [(CM_ORDER_NUMBER, x), (CM_BOOK_TYPE, supported_book),
              (CM_BUY_SELL, or_else_text (side_to_wire (o_side y)) ''1''),
              (CM_VOLUME, string_of_int (o_quantity y)), (CM_TOTAL_VOL_REMAINING, string_of_int (leaves_qty y)),
              (CM_VOLUME_FILLED_TODAY, string_of_int (o_cum_qty y))] @ price @
             [(CM_ACCOUNT_NUMBER, or_else_text (o_account y) []),
              (CM_PRO_CLIENT, or_else_text (capacity_to_wire (o_capacity y)) ''1''),
              (CM_ENTRY_DATE_TIME, string_of_int s), (CM_LAST_MODIFIED, string_of_int s),
              (CM_LAST_ACTIVITY_REFERENCE, string_of_int ns)] @
             (case map_of (ns_references st) x of None \<Rightarrow> [] | Some r \<Rightarrow> [(CM_NNF_FIELD, r)]) @
             owner_fields st y CM_TRADER_ID True)
            (text_of (code_for st x code))))))))"

text \<open>The totals of an acknowledgement and of a fill are the snapshot in the event.\<close>

definition render_accepted :: "nse_venue \<Rightarrow> nse_state \<Rightarrow> oid \<Rightarrow> int \<Rightarrow> int \<Rightarrow> int \<Rightarrow> exn + fix_message" where
  "render_accepted env st x cum left qty =
     bind_exn (base_report env st x X_ORDER_CONFIRMATION) (\<lambda>m.
       Inr (set_fields [(CM_VOLUME, string_of_int qty), (CM_TOTAL_VOL_REMAINING, string_of_int left),
         (CM_VOLUME_FILLED_TODAY, string_of_int cum), (CM_FLAG_TRADED, yes_no (cum \<noteq> 0))] m))"

definition render_rejected :: "nse_venue \<Rightarrow> nse_state \<Rightarrow> oid \<Rightarrow> reject_reason \<Rightarrow> exn + fix_message" where
  "render_rejected env st x reason =
     bind_exn (base_report env st x X_ORDER_ERROR) (\<lambda>m.
       (let code = string_of_int (reject_to_error_code reason)
        in Inr (set_fields [(CM_ERROR_CODE, code), (CM_REASON_CODE, code)] m)))"

definition render_filled :: "nse_venue \<Rightarrow> nse_state \<Rightarrow> fill_event \<Rightarrow> exn + fix_message" where
  "render_filled env st f =
     (let x = fe_order f; y = order_at st x in
      bind_exn (nse_seconds env) (\<lambda>s. bind_exn (nse_nanoseconds env) (\<lambda>ns.
      bind_exn (format_price (nv_codec env) (fe_price f)) (\<lambda>fill_price.
      bind_exn (price_fields env CM_PRICE (o_price y)) (\<lambda>price.
        Inr (msg_set CM_FLAG_TRADED ''Y'' (set_flags y (in_preopen env st)
          (set_fields
            ([(CM_ERROR_CODE, string_of_int X_NO_ERROR), (CM_LOG_TIME, string_of_int s), (CM_TIMESTAMP, string_of_int ns)] @
             symbol_fields (o_symbol y) @
             [(CM_RESPONSE_ORDER_NUMBER, x), (CM_BOOK_TYPE, supported_book),
              (CM_BUY_SELL, or_else_text (side_to_wire (o_side y)) ''1''),
              (CM_ORIGINAL_VOL, string_of_int (fe_order_qty f)), (CM_REMAINING_VOL, string_of_int (fe_leaves_qty f)),
              (CM_VOLUME_FILLED_TODAY, string_of_int (fe_cum_qty f)), (CM_FILL_QTY, string_of_int (fe_quantity f)),
              (CM_FILL_PRICE, fill_price)] @
             (if price = [] then [(CM_PRICE, ''0'')] else price) @
             [(CM_FILL_NUMBER, fe_trade_id f), (CM_ACTIVITY_TYPE, activity_trade), (CM_ACTIVITY_TIME, string_of_int s),
              (CM_ACCOUNT_NUMBER, or_else_text (o_account y) []),
              (CM_PRO_CLIENT, or_else_text (capacity_to_wire (o_capacity y)) ''1''),
              (CM_LAST_ACTIVITY_REFERENCE, string_of_int ns)] @
             owner_fields st y CM_TRADER_NUM False)
            (text_of (code_for st x X_TRADE_CONFIRMATION))))))))))"

definition cancelled_by :: "cancel_reason \<Rightarrow> string" where
  "cancelled_by reason = (if reason = CR_USER_REQUEST then ''T'' else ''E'')"

fun cancel_reason_code :: "cancel_reason \<Rightarrow> int" where
  "cancel_reason_code CR_IOC_REMAINDER = 16388"
| "cancel_reason_code CR_MARKET_REMAINDER = 16388"
| "cancel_reason_code CR_FOK_UNFILLED = 16388"
| "cancel_reason_code CR_MARKET_CLOSED = 16000"
| "cancel_reason_code CR_CANCEL_ON_DISCONNECT = 16404"
| "cancel_reason_code CR_ADMINISTRATIVE = 16404"
| "cancel_reason_code CR_MASS_CANCEL = 16404"
| "cancel_reason_code reason = invalid_order_param"

definition render_cancelled :: "nse_venue \<Rightarrow> nse_state \<Rightarrow> oid \<Rightarrow> cancel_reason \<Rightarrow> exn + fix_message" where
  "render_cancelled env st x reason =
     bind_exn (base_report env st x X_ORDER_CANCEL_CONFIRMATION) (\<lambda>m.
       Inr (set_fields ((CM_MOD_CXL_BY, cancelled_by reason) #
         (if reason = CR_USER_REQUEST then [] else [(CM_REASON_CODE, string_of_int (cancel_reason_code reason))])) m))"

definition render_replaced :: "nse_venue \<Rightarrow> nse_state \<Rightarrow> oid \<Rightarrow> exn + fix_message" where
  "render_replaced env st x =
     bind_exn (base_report env st x X_ORDER_MOD_CONFIRMATION) (\<lambda>m.
       Inr (set_fields [(CM_MOD_CXL_BY, ''T''), (CM_FLAG_MODIFIED, ''Y'')] m))"

definition render_cancel_rejected :: "nse_venue \<Rightarrow> nse_state \<Rightarrow> oid option \<Rightarrow> cancel_reject_reason \<Rightarrow> bool \<Rightarrow> exn + fix_message" where
  "render_cancel_rejected env st order reason is_replace =
     (let code = (if is_replace then X_ORDER_MOD_REJECT else X_ORDER_CANCEL_REJECT);
          error = string_of_int (cancel_reject_to_error_code reason) in
      bind_exn (case order of Some x \<Rightarrow> base_report env st x code
          | None \<Rightarrow> bind_exn (nse_seconds env) (\<lambda>s. Inr (set_fields [(CM_LOG_TIME, string_of_int s)] (text_of code))))
        (\<lambda>m. Inr (set_fields [(CM_ERROR_CODE, error), (CM_REASON_CODE, error)] m)))"

definition one_report :: "exn + fix_message \<Rightarrow> exn + fix_message list" where
  "one_report r = bind_exn r (\<lambda>m. Inr [m])"

fun nse_render :: "nse_venue \<Rightarrow> renderer" where
  "nse_render env st (OrderAccepted x cum left qty) = one_report (render_accepted env st x cum left qty)"
| "nse_render env st (OrderRejected x reason t) = one_report (render_rejected env st x reason)"
| "nse_render env st (OrderFilled f) = one_report (render_filled env st f)"
| "nse_render env st (OrderCancelled x reason t) = one_report (render_cancelled env st x reason)"
| "nse_render env st (OrderReplaced x c kept) = one_report (render_replaced env st x)"
| "nse_render env st (OrderDecremented x qty reason) = one_report (base_report env st x X_ORDER_MOD_CONFIRMATION)"
| "nse_render env st (CancelRejected c orig reason t x is_replace) = one_report (render_cancel_rejected env st x reason is_replace)"
| "nse_render env st (TradeExecuted t) = Inr []"
| "nse_render env st (TradingStateChanged m sy before after) = Inr []"

abbreviation nse_emit :: "nse_venue \<Rightarrow> int option \<Rightarrow> event list \<Rightarrow> nse_state \<Rightarrow> exn + nse_state" where
  "nse_emit env \<equiv> emit_reports env (nse_render env)"

text \<open>The end of every request: remember the order, then report.\<close>

definition nse_remember :: "fix_message \<Rightarrow> event list \<Rightarrow> nse_state \<Rightarrow> nse_state" where
  "nse_remember m evs st = remember_order (msg_get m CM_NNF_FIELD) (plain_code m \<noteq> None) evs st"

definition answer_request :: "nse_venue \<Rightarrow> int \<Rightarrow> fix_message \<Rightarrow> eworld \<times> event list \<Rightarrow> nse_state \<Rightarrow> exn + nse_state" where
  "answer_request env u m r st =
     (case r of (ew, evs) \<Rightarrow> nse_emit env (Some u) evs (nse_remember m evs (st\<lparr>ns_world := ew\<rparr>)))"

subsection \<open>Requests\<close>

definition nse_order_request :: "nse_venue \<Rightarrow> int \<Rightarrow> fix_message \<Rightarrow> string \<Rightarrow> int option \<Rightarrow> new_order_request" where
  "nse_order_request env u m sy price =
     \<lparr>nr_session_key = nnf_key u, nr_market = Some (nv_market env), nr_cl_ord_id = None, nr_symbol = sy,
      nr_side = side_to_core (msg_get m CM_BUY_SELL), nr_quantity = get_int_or m CM_VOLUME 0, nr_price = price,
      nr_order_type = Some (nse_order_type m), nr_time_in_force = nse_time_in_force m, nr_min_qty = 0, nr_exec_inst = [],
      nr_capacity = capacity_to_core (msg_get m CM_PRO_CLIENT), nr_account = msg_get m CM_ACCOUNT_NUMBER, nr_mpid = None,
      nr_cash_margin = None, nr_margin_type = None, nr_stp_id = None, nr_stp_instruction = None\<rparr>"

definition on_new_order :: "nse_venue \<Rightarrow> int \<Rightarrow> fix_message \<Rightarrow> nse_state \<Rightarrow> exn + nse_state" where
  "on_new_order env u m st =
     (case message_symbol env m of None \<Rightarrow> order_error env u m 16012 st
      | Some sy \<Rightarrow>
         bind_exn (unsupported_flow env m) (\<lambda>error. case error of
           Some c \<Rightarrow> order_error env u m c st
         | None \<Rightarrow>
            (case price_field env m CM_PRICE of
               Inl e \<Rightarrow> (if e = PriceError then order_error env u m invalid_order_param st else Inl e)
             | Inr price \<Rightarrow>
                 bind_exn (new_order (nv_engine env) (nse_order_request env u m sy price) (ns_world st)) (\<lambda>r.
                   answer_request env u m r st))))"

definition on_modify :: "nse_venue \<Rightarrow> int \<Rightarrow> fix_message \<Rightarrow> nse_state \<Rightarrow> exn + nse_state" where
  "on_modify env u m st =
     (case price_field env m CM_PRICE of
        Inl e \<Rightarrow> (if e = PriceError then reject_change env u m X_ORDER_MOD_REJECT invalid_order_param st else Inl e)
      | Inr price \<Rightarrow>
         bind_exn (unsupported_flow env m) (\<lambda>error. case error of
           Some c \<Rightarrow> reject_change env u m X_ORDER_MOD_REJECT c st
         | None \<Rightarrow>
            bind_exn (replace_order (nv_engine env)
              \<lparr>cr_session_key = nnf_key u, cr_cl_ord_id = None, cr_orig_cl_ord_id = None, cr_symbol = None, cr_side = None,
               cr_quantity = quantity_field m CM_VOLUME, cr_order_id = order_number m, rr_price = price,
               rr_time_in_force = None, rr_min_qty = None, rr_exec_inst = []\<rparr> (ns_world st)) (\<lambda>r.
              answer_request env u m r st)))"

definition on_cancel :: "nse_venue \<Rightarrow> int \<Rightarrow> fix_message \<Rightarrow> nse_state \<Rightarrow> exn + nse_state" where
  "on_cancel env u m st =
     bind_exn (Engine.cancel_order
       \<lparr>cr_session_key = nnf_key u, cr_cl_ord_id = None, cr_orig_cl_ord_id = None, cr_symbol = None, cr_side = None,
        cr_quantity = None, cr_order_id = order_number m\<rparr> (ns_world st)) (\<lambda>r.
       answer_request env u m r st)"

definition on_sign_off :: "nse_venue \<Rightarrow> int \<Rightarrow> nse_state \<Rightarrow> exn + nse_state" where
  "on_sign_off env u st =
     bind_exn (nse_seconds env) (\<lambda>s.
     bind_exn (user_send (nv_net env) u
         (set_fields [(CM_ERROR_CODE, string_of_int X_NO_ERROR), (CM_USER_ID, string_of_int u), (CM_LOG_TIME, string_of_int s)]
            (text_of X_SIGN_OFF_REQUEST_OUT)) st)
       (user_disconnect (desk_logout env (nse_render env)) u))"

subsection \<open>The state of the market, and the download\<close>

definition stream_char :: "int \<Rightarrow> string" where
  "stream_char n = [char_of (nat (n mod 256))]"

definition stream_of :: "string option \<Rightarrow> int" where
  "stream_of v = (case v of None \<Rightarrow> 0 | Some [] \<Rightarrow> 0 | Some (c # cs) \<Rightarrow> int (of_char c))"

text \<open>\<open>max(0, int(float(value)))\<close>: only an infinity escapes, as an \<open>OverflowError\<close>.\<close>

definition download_cursor :: "string option \<Rightarrow> exn + int" where
  "download_cursor v =
     (case (case v of None \<Rightarrow> None | Some t \<Rightarrow> decimal_of_text t) of None \<Rightarrow> Inr 0
      | Some d \<Rightarrow>
         (case pow10_ratio (int (dec_coeff d)) 1 (dec_exp d) of (p, q) \<Rightarrow>
            bind_exn (float_to_int (round_ratio (dec_neg d) p q)) (\<lambda>i. Inr (max 0 i))))"

definition system_information :: "nse_venue \<Rightarrow> nse_state \<Rightarrow> exn + fix_message" where
  "system_information env st =
     bind_exn (nse_seconds env) (\<lambda>s.
     bind_exn (tick_for (nv_ticks env) 0 None) (\<lambda>tick.
     bind_exn (format_price (nv_codec env) tick) (\<lambda>tick_text.
       (let state = (case engine_market (ns_world st) (Some (nv_market env)) of None \<Rightarrow> CLOSED
                     | Some m \<Rightarrow> sm_state (mk_state m)) in
        Inr (set_fields
          ([(CM_ERROR_CODE, string_of_int X_NO_ERROR), (CM_LOG_TIME, string_of_int s),
            (CM_ALPHA_CHAR, stream_char (nv_stream env)), (CM_NORMAL_STATUS, market_status state)] @
           map (\<lambda>tag. (tag, ''2'')) [CM_ODDLOT_STATUS, CM_SPOT_STATUS, CM_AUCTION_STATUS, CM_CALL_AUCTION1_STATUS,
             CM_CALL_AUCTION2_STATUS] @
           [(CM_BOARD_LOT_QUANTITY, ''1''), (CM_TICK_SIZE, tick_text), (CM_MAXIMUM_GTC_DAYS, ''0''),
            (CM_DISCLOSED_QUANTITY_PERCENT, ''0''), (CM_SECURITY_AON, ''N''), (CM_SECURITY_MIN_FILL, ''N''),
            (CM_SECURITY_BOOKS_MERGED, ''N'')])
          (text_of X_SYSTEM_INFORMATION_OUT))))))"

definition on_system_information :: "nse_venue \<Rightarrow> int \<Rightarrow> nse_state \<Rightarrow> exn + nse_state" where
  "on_system_information env u st = bind_exn (system_information env st) (\<lambda>m. user_send (nv_net env) u m st)"

definition download_marker :: "nse_venue \<Rightarrow> int \<Rightarrow> int \<Rightarrow> exn + fix_message" where
  "download_marker env code stream =
     bind_exn (nse_seconds env) (\<lambda>s.
       Inr (set_fields [(CM_ERROR_CODE, string_of_int X_NO_ERROR), (CM_ALPHA_CHAR, stream_char stream),
         (CM_LOG_TIME, string_of_int s)] (text_of code)))"

definition download_record :: "nse_venue \<Rightarrow> fix_message \<Rightarrow> int \<Rightarrow> exn + fix_message" where
  "download_record env recovered stream =
     bind_exn (nse_seconds env) (\<lambda>s.
     bind_exn (case structure_of (ne_layouts (nv_net env)) (msg_type_of recovered) of
         None \<Rightarrow> Inl AttributeError | Some l \<Rightarrow> snd (encode_structure l recovered)) (\<lambda>data.
       Inr (set_fields
         ([(CM_ERROR_CODE, string_of_int X_NO_ERROR), (CM_ALPHA_CHAR, stream_char stream), (CM_LOG_TIME, string_of_int s)] @
          List.map_filter (\<lambda>tag. map_option (\<lambda>v. (tag, v)) (msg_get recovered tag)) [CM_TIMESTAMP1, CM_TIMESTAMP2] @
          [(CM_DOWNLOAD_DATA, data)])
         (text_of X_MESSAGE_RECORD))))"

text \<open>The list is taken from the store when the loop starts; the records sent are not filed.\<close>

definition on_download_request :: "nse_venue \<Rightarrow> int \<Rightarrow> fix_message \<Rightarrow> nse_state \<Rightarrow> exn + nse_state" where
  "on_download_request env u m st =
     (let stream = stream_of (msg_get m CM_ALPHA_CHAR) in
      bind_exn (download_cursor (msg_get m CM_DOWNLOAD_SEQUENCE)) (\<lambda>since.
      bind_exn (download_marker env X_HEADER_RECORD stream) (\<lambda>head.
      bind_exn (user_send (nv_net env) u head st) (\<lambda>st1.
      bind_exn (if stream \<in> {0, nv_stream env}
          then (case nn_store st1 of None \<Rightarrow> Inl AttributeError
            | Some store \<Rightarrow>
                fold_exn (\<lambda>(sequence, recovered) s.
                  bind_exn (download_record env recovered stream) (\<lambda>r. user_send (nv_net env) u r s))
                  (store_after store u since) st1)
          else Inr st1) (\<lambda>st2.
      bind_exn (download_marker env X_TRAILER_RECORD stream) (\<lambda>foot.
        user_send (nv_net env) u foot st2))))))"

subsection \<open>Dispatch\<close>

definition served_codes :: "int list" where
  "served_codes =
     [X_BOARD_LOT_IN, X_ORDER_MOD_IN, X_ORDER_CANCEL_IN, X_SIGN_OFF_REQUEST_IN, X_SYSTEM_INFORMATION_IN,
      X_DOWNLOAD_REQUEST, X_BOARD_LOT_IN_TR, X_ORDER_MOD_IN_TR, X_ORDER_CANCEL_IN_TR]"

definition handle_code :: "nse_venue \<Rightarrow> int \<Rightarrow> int \<Rightarrow> fix_message \<Rightarrow> nse_state \<Rightarrow> exn + nse_state" where
  "handle_code env c u m st =
     (if c \<in> {X_BOARD_LOT_IN, X_BOARD_LOT_IN_TR} then on_new_order env u m st
      else if c \<in> {X_ORDER_MOD_IN, X_ORDER_MOD_IN_TR} then on_modify env u m st
      else if c \<in> {X_ORDER_CANCEL_IN, X_ORDER_CANCEL_IN_TR} then on_cancel env u m st
      else if c = X_SIGN_OFF_REQUEST_IN then on_sign_off env u st
      else if c = X_SYSTEM_INFORMATION_IN then on_system_information env u st
      else if c = X_DOWNLOAD_REQUEST then on_download_request env u m st
      else order_error env u m 16003 st)"

definition nse_on_message :: "nse_venue \<Rightarrow> int \<Rightarrow> fix_message \<Rightarrow> nse_state \<Rightarrow> exn + nse_state" where
  "nse_on_message env u m st =
     bind_exn (desk_logon u st) (\<lambda>st1.
       case code_of m of None \<Rightarrow> Inl ValueError | Some c \<Rightarrow> handle_code env c u m st1)"

definition nse_on_invalid :: "nse_venue \<Rightarrow> int option \<Rightarrow> fix_message \<Rightarrow> failure \<Rightarrow> nse_state \<Rightarrow> exn + bool \<times> nse_state" where
  "nse_on_invalid env who m f st =
     (case who of None \<Rightarrow> Inr (False, st)
      | Some u \<Rightarrow>
         (case (if truthy (msg_type_of m) then code_of m else Some 0) of None \<Rightarrow> Inl ValueError
          | Some c \<Rightarrow>
             (if c \<in> set served_codes
              then bind_exn (order_error env u m (failure_to_error_code (fa_reason f)) st) (\<lambda>st1. Inr (True, st1))
              else Inr (False, st))))"

end
