(* ===== verification/Nse_Venue.thy ===== *)
theory Nse_Venue
  imports Nse_Gateway
begin

section \<open>The box sequence and the operator (\<open>venues/nse/handlers.py\<close>, \<open>venues/nse/venue.py\<close>)\<close>

text \<open>
  Registration, box sign-on and user sign-on; the gateway as the session layer sees it; the
  answers of the Gateway Router, with the random bytes of the secrets as arguments; the
  pre-open session and the operator's operations. \<open>nse_step\<close> is everything that can happen to
  the venue: each step has the clock of its own environment, and its fixed parts are those of
  the venue.
\<close>

subsection \<open>Before a user is signed on\<close>

abbreviation nse_drop_box :: "nse_venue \<Rightarrow> int \<Rightarrow> nse_state \<Rightarrow> exn + nse_state" where
  "nse_drop_box env b st \<equiv> box_disconnect (desk_logout env (nse_render env)) desk_detached b st"

definition box_reply :: "nse_venue \<Rightarrow> int \<Rightarrow> int \<Rightarrow> exn + fix_message" where
  "box_reply env code b =
     bind_exn (nse_seconds env) (\<lambda>s.
       Inr (set_fields [(CM_ERROR_CODE, string_of_int X_NO_ERROR), (CM_BOX_ID, string_of_int b), (CM_LOG_TIME, string_of_int s)]
         (text_of code)))"

definition box_error :: "nse_venue \<Rightarrow> int \<Rightarrow> int \<Rightarrow> int \<Rightarrow> int option \<Rightarrow> nse_state \<Rightarrow> exn + nse_state" where
  "box_error env b code error who st =
     bind_exn (nse_seconds env) (\<lambda>s.
       box_send (nv_net env) b
         (set_fields ([(CM_ERROR_CODE, string_of_int error), (CM_BOX_ID, string_of_int b)] @
            (case who of None \<Rightarrow> [] | Some u \<Rightarrow> [(CM_USER_ID, string_of_int u), (CM_SIGNON_USER_ID, string_of_int u)]) @
            [(CM_LOG_TIME, string_of_int s)]) (text_of code)) st)"

definition on_registration :: "nse_venue \<Rightarrow> int \<Rightarrow> fix_message \<Rightarrow> nse_state \<Rightarrow> exn + nse_state" where
  "on_registration env b m st =
     (if msg_get_int m CM_BOX_ID \<noteq> Some b
      then bind_exn (box_error env b X_SECURE_BOX_REGISTRATION_REQUEST_OUT 16588 None st) (nse_drop_box env b)
      else bind_exn (cipher_for b st) (\<lambda>cipher.
        if cipher = None \<and> nv_encrypted env
        then bind_exn (box_error env b X_SECURE_BOX_REGISTRATION_REQUEST_OUT 19030 None st) (nse_drop_box env b)
        else bind_exn (box_reply env X_SECURE_BOX_REGISTRATION_REQUEST_OUT b) (\<lambda>m1.
             bind_exn (box_send (nv_net env) b m1 st) (\<lambda>st1. Inr (box_registered b cipher st1)))))"

definition on_box_sign_on :: "nse_venue \<Rightarrow> int \<Rightarrow> fix_message \<Rightarrow> nse_state \<Rightarrow> exn + nse_state" where
  "on_box_sign_on env b m st =
     (let expected = session_key_for b st; broker = msg_get m CM_BROKER_ID in
      if expected \<noteq> None \<and> msg_get m CM_SESSION_KEY \<noteq> expected
      then bind_exn (box_error env b X_BOX_SIGN_ON_REQUEST_OUT 16006 None st) (nse_drop_box env b)
      else if (case broker of None \<Rightarrow> True | Some k \<Rightarrow> k \<notin> set (brokers_of env b))
      then bind_exn (box_error env b X_BOX_SIGN_ON_REQUEST_OUT 16041 None st) (nse_drop_box env b)
      else bind_exn (box_reply env X_BOX_SIGN_ON_REQUEST_OUT b) (\<lambda>m1.
           bind_exn (box_send (nv_net env) b m1 st) (\<lambda>st1. Inr (box_signed_on b broker st1))))"

definition sign_on_reply :: "nse_venue \<Rightarrow> nnf_user \<Rightarrow> exn + fix_message" where
  "sign_on_reply env cfg =
     bind_exn (nse_seconds env) (\<lambda>s.
       Inr (set_fields
         ([(CM_ERROR_CODE, string_of_int X_NO_ERROR), (CM_USER_ID, string_of_int (nu_user_id cfg)),
           (CM_SIGNON_USER_ID, string_of_int (nu_user_id cfg)), (CM_BROKER_ID, nu_broker_id cfg),
           (CM_BRANCH_ID, string_of_int (nu_branch_id cfg)), (CM_TRADER_NAME, or_else_text (nu_trader_name cfg) []),
           (CM_BROKER_NAME, or_else_text (nu_broker_name cfg) []),
           (CM_USER_TYPE, if truthy (nu_user_type cfg) then show_opt (nu_user_type cfg) else ''2''),
           (CM_LOG_TIME, string_of_int s)] @
          map (\<lambda>tag. (tag, ''Y'')) [CM_ELIGIBLE_NORMAL, CM_ELIGIBLE_PREOPEN] @
          map (\<lambda>tag. (tag, ''N'')) [CM_ELIGIBLE_ODDLOT, CM_ELIGIBLE_SPOT, CM_ELIGIBLE_AUCTION,
            CM_ELIGIBLE_CALL_AUCTION1, CM_ELIGIBLE_CALL_AUCTION2])
         (text_of X_SIGN_ON_REQUEST_OUT)))"

definition on_sign_on :: "nse_venue \<Rightarrow> int \<Rightarrow> fix_message \<Rightarrow> nse_state \<Rightarrow> exn + nse_state" where
  "on_sign_on env b m st =
     (let who = msg_get_int m CM_SIGNON_USER_ID;
          refuse = (\<lambda>error. box_error env b X_SIGN_ON_REQUEST_OUT error who st) in
      case (case who of None \<Rightarrow> None | Some u \<Rightarrow> if u = 0 then None else map_of (nn_users st) u) of
        None \<Rightarrow> refuse 16042
      | Some cfg \<Rightarrow>
         (if nu_box_id cfg \<noteq> b then refuse 16042
          else if map_of (bx_users (box_of st b)) (nu_user_id cfg) \<noteq> None then refuse 16004
          else if msg_get m CM_BROKER_ID \<noteq> None \<and> msg_get m CM_BROKER_ID \<noteq> Some (nu_broker_id cfg) then refuse 16041
          else bind_exn (sign_on_user desk_logon b cfg st) (\<lambda>st1.
               bind_exn (sign_on_reply env cfg) (\<lambda>m1. user_send (nv_net env) (nu_user_id cfg) m1 st1))))"

text \<open>The Boolean result says whether the code was one of the three.\<close>

definition nse_on_box_message :: "nse_venue \<Rightarrow> int \<Rightarrow> fix_message \<Rightarrow> nse_state \<Rightarrow> exn + bool \<times> nse_state" where
  "nse_on_box_message env b m st =
     (case code_of m of None \<Rightarrow> Inl ValueError
      | Some c \<Rightarrow>
         (if c = X_SECURE_BOX_REGISTRATION_REQUEST_IN then bind_exn (on_registration env b m st) (\<lambda>st1. Inr (True, st1))
          else if c = X_BOX_SIGN_ON_REQUEST_IN then bind_exn (on_box_sign_on env b m st) (\<lambda>st1. Inr (True, st1))
          else if c = X_SIGN_ON_REQUEST_IN then bind_exn (on_sign_on env b m st) (\<lambda>st1. Inr (True, st1))
          else Inr (False, st)))"

definition nse_on_checksum_failure :: "nse_venue \<Rightarrow> int \<Rightarrow> nse_state \<Rightarrow> exn + nse_state" where
  "nse_on_checksum_failure env b st =
     bind_exn (nse_seconds env) (\<lambda>s.
       box_send (nv_net env) b
         (set_fields [(CM_ERROR_CODE, ''19031''), (CM_LOG_TIME, string_of_int s)] (text_of X_SIGN_OFF_REQUEST_OUT)) st)"

definition nse_app :: "nse_venue \<Rightarrow> nse_state nnf_app" where
  "nse_app env =
     \<lparr>ap_on_logon = desk_logon, ap_on_logout = desk_logout env (nse_render env), ap_on_message = nse_on_message env,
      ap_on_box_message = nse_on_box_message env, ap_on_box_detached = desk_detached, ap_on_invalid = nse_on_invalid env,
      ap_on_checksum_failure = nse_on_checksum_failure env\<rparr>"

lemma nse_app_simps [simp]:
  "ap_on_logon (nse_app env) = desk_logon" "ap_on_logout (nse_app env) = desk_logout env (nse_render env)"
  "ap_on_message (nse_app env) = nse_on_message env" "ap_on_box_message (nse_app env) = nse_on_box_message env"
  "ap_on_box_detached (nse_app env) = desk_detached" "ap_on_invalid (nse_app env) = nse_on_invalid env"
  "ap_on_checksum_failure (nse_app env) = nse_on_checksum_failure env"
  by (simp_all add: nse_app_def)

subsection \<open>The pre-open session (\<open>venues/nse/auctions.py\<close>)\<close>

definition preopen_rules :: "auction_rule list" where
  "preopen_rules = [MAX_VOLUME, LOWEST_IMBALANCE, CLOSEST_TO_REFERENCE, HIGHER_PRICE]"

definition reference_price :: "nse_venue \<Rightarrow> string \<Rightarrow> int option" where
  "reference_price env sy =
     (case map_of (en_instruments (nv_engine env)) sy of None \<Rightarrow> None | Some i \<Rightarrow> in_base_price i)"

definition preopen_uncross :: "nse_venue \<Rightarrow> nse_state \<Rightarrow> exn + nse_state \<times> event list" where
  "preopen_uncross env st =
     (case map_of (ew_markets (ns_world st)) (nv_market env) of None \<Rightarrow> Inl KeyError
      | Some m \<Rightarrow>
         bind_exn (uncross_all (reference_price env) (market_view (ns_world st) m)) (\<lambda>(w, results, evs).
           Inr (st\<lparr>ns_world := put_market (nv_market env) w (ns_world st), ns_locked := False\<rparr>, evs)))"

subsection \<open>The operator\<close>

definition leaving_preopen :: "market \<Rightarrow> trading_state \<Rightarrow> string option \<Rightarrow> bool" where
  "leaving_preopen m state sy \<longleftrightarrow>
     sy = None \<and> sm_state (mk_state m) \<in> {PRE_OPEN, OPENING_AUCTION} \<and> state = OPEN"

text \<open>
  \<open>set_trading_state\<close>. The fills of an uncrossing are reported; the events of the transition
  itself are only returned.
\<close>

definition set_trading_state :: "nse_venue \<Rightarrow> trading_state \<Rightarrow> string option \<Rightarrow> string option \<Rightarrow> nse_state \<Rightarrow>
    exn + nse_state \<times> event list" where
  "set_trading_state env state market sy st =
     (let name = (if truthy market then show_opt market else nv_market env) in
      case map_of (ew_markets (ns_world st)) name of None \<Rightarrow> Inl KeyError
      | Some m \<Rightarrow>
         bind_exn (if leaving_preopen m state sy
             then bind_exn (preopen_uncross env st) (\<lambda>(st1, evs). nse_emit env None evs st1)
             else Inr st) (\<lambda>st1.
         case map_of (ew_markets (ns_world st1)) name of None \<Rightarrow> Inl KeyError
         | Some m1 \<Rightarrow>
            bind_exn (market_set_state (show_state state) sy (market_view (ns_world st1) m1)) (\<lambda>(w, changed).
              let st2 = st1\<lparr>ns_world := put_market name w (ns_world st1)\<rparr> in
              Inr (if state = PRE_OPEN \<and> sy = None then st2\<lparr>ns_locked := False\<rparr> else st2, changed))))"

text \<open>\<open>order.new\<close>, \<open>order.cancel\<close> and \<open>orders.cancel_all\<close> of the control plane report without a sender.\<close>

definition inject_order :: "nse_venue \<Rightarrow> new_order_request \<Rightarrow> nse_state \<Rightarrow> exn + nse_state" where
  "inject_order env rq st =
     bind_exn (new_order (nv_engine env) rq (ns_world st)) (\<lambda>(ew, evs). nse_emit env None evs (st\<lparr>ns_world := ew\<rparr>))"

definition operator_cancel :: "nse_venue \<Rightarrow> oid \<Rightarrow> string \<Rightarrow> nse_state \<Rightarrow> exn + nse_state" where
  "operator_cancel env x reason_text st =
     (case registry_by_order_id (ew_registry (ns_world st)) x of None \<Rightarrow> Inr st
      | Some y \<Rightarrow>
         (if \<not> is_live (order_at st y) then Inr st
          else (case engine_market (ns_world st) (o_market (order_at st y)) of None \<Rightarrow> Inl AttributeError
            | Some m \<Rightarrow>
               bind_exn (market_cancel y CR_ADMINISTRATIVE (if reason_text = [] then ''cancelled by operator'' else reason_text)
                   (market_view (ns_world st) m)) (\<lambda>(w, evs).
                 nse_emit env None evs (st\<lparr>ns_world := put_market (show_opt (o_market (order_at st y))) w (ns_world st)\<rparr>)))))"

definition operator_cancel_session :: "nse_venue \<Rightarrow> session_key \<Rightarrow> string \<Rightarrow> nse_state \<Rightarrow> exn + nse_state" where
  "operator_cancel_session env k reason_text st =
     bind_exn (cancel_session_orders k CR_ADMINISTRATIVE (if reason_text = [] then ''cancelled by operator'' else reason_text)
         (ns_world st)) (\<lambda>(ew, evs). nse_emit env None evs (st\<lparr>ns_world := ew\<rparr>))"

subsection \<open>Everything that can happen\<close>

text \<open>Two environments of one venue: only the clock readings differ.\<close>

definition same_venue :: "nse_venue \<Rightarrow> nse_venue \<Rightarrow> bool" where
  "same_venue env env' \<longleftrightarrow>
     nv_engine env' = (nv_engine env)\<lparr>en_now := en_now (nv_engine env')\<rparr> \<and>
     nv_net env' = (nv_net env)\<lparr>ne_seconds := ne_seconds (nv_net env'), ne_microsecond := ne_microsecond (nv_net env'),
       ne_monotonic := ne_monotonic (nv_net env')\<rparr> \<and>
     env' = env\<lparr>nv_net := nv_net env', nv_engine := nv_engine env'\<rparr>"

inductive nse_step :: "nse_venue \<Rightarrow> nse_state \<Rightarrow> nse_state \<Rightarrow> bool" for env where
  attach: "same_venue env now \<Longrightarrow> nse_step env st (box_attach (nv_net now) b st)"
| data: "same_venue env now \<Longrightarrow> box_on_data (nv_net now) (nse_app now) b chunk st = Inr st' \<Longrightarrow> nse_step env st st'"
| closed: "same_venue env now \<Longrightarrow> box_detach (desk_logout now (nse_render now)) desk_detached b st = Inr st' \<Longrightarrow> nse_step env st st'"
| kill: "same_venue env now \<Longrightarrow> nse_drop_box now b st = Inr st' \<Longrightarrow> nse_step env st st'"
| kill_user: "same_venue env now \<Longrightarrow> user_disconnect (desk_logout now (nse_render now)) u st = Inr st' \<Longrightarrow> nse_step env st st'"
| tick: "same_venue env now \<Longrightarrow> manager_tick (nv_net now) (nse_app now) st = Inr st' \<Longrightarrow> nse_step env st st'"
| timer: "same_venue env now \<Longrightarrow> deliver_delayed now i st = Inr st' \<Longrightarrow> nse_step env st st'"
| phase: "same_venue env now \<Longrightarrow> set_trading_state now state market sy st = Inr (st', evs) \<Longrightarrow> nse_step env st st'"
| lock: "nse_step env st (st\<lparr>ns_locked := True\<rparr>)"
| inject: "same_venue env now \<Longrightarrow> inject_order now rq st = Inr st' \<Longrightarrow> nse_step env st st'"
| cancel_one: "same_venue env now \<Longrightarrow> operator_cancel now x t st = Inr st' \<Longrightarrow> nse_step env st st'"
| cancel_session: "same_venue env now \<Longrightarrow> operator_cancel_session now k t st = Inr st' \<Longrightarrow> nse_step env st st'"
| issue: "nse_step env st (issue_secrets b s st)"
| rules: "nse_step env st (set_rules r st)"

abbreviation nse_reaches :: "nse_venue \<Rightarrow> nse_state \<Rightarrow> nse_state \<Rightarrow> bool" where
  "nse_reaches env \<equiv> (nse_step env)\<^sup>*\<^sup>*"

end
