(* ===== verification/Nse_Facts.thy ===== *)
theory Nse_Facts
  imports Nse_Venue
begin

section \<open>The equity gateway keeps its tables and the engine's invariant\<close>

text \<open>
  Reporting changes neither who is signed on nor the engine, injected rules apart; so every
  callback of the gateway meets the contract of the session layer, and both locales are
  interpreted on it. \<open>nse_good\<close> is the invariant this gives, and every step of the venue keeps
  it. The second half is about whom a report reaches.
\<close>

definition nse_table :: "nse_state \<Rightarrow> int set" where
  "nse_table st = {u. map_of (ns_sessions st) (nnf_key u) \<noteq> None}"

definition keyed :: "(session_key \<times> int) list \<Rightarrow> bool" where
  "keyed s \<longleftrightarrow> (\<forall>k v. map_of s k = Some v \<longrightarrow> k = nnf_key v)"

definition nse_extra :: "nse_state \<Rightarrow> bool" where
  "nse_extra st \<longleftrightarrow> engine_inv (ns_world st) \<and> keyed (ns_sessions st)"

definition nse_good :: "nse_state \<Rightarrow> bool" where
  "nse_good st \<longleftrightarrow> net_ok st \<and> nse_table st = set (nn_live st) \<and> nse_extra st"

subsection \<open>Reporting\<close>

definition only_reported :: "nse_state \<Rightarrow> nse_state \<Rightarrow> bool" where
  "only_reported st st' \<longleftrightarrow> sign_view st' = sign_view st \<and> ns_sessions st' = ns_sessions st \<and>
     (\<exists>b. ns_world st' = (ns_world st)\<lparr>ew_behaviour := b\<rparr>)"

lemma only_reported_refl [simp]: "only_reported st st"
  unfolding only_reported_def by (auto intro: exI [of _ "ew_behaviour (ns_world st)"])

lemma only_reported_trans [trans]: "only_reported st st1 \<Longrightarrow> only_reported st1 st2 \<Longrightarrow> only_reported st st2"
  by (auto simp: only_reported_def)

lemma more_fields:
  fixes st st' :: nse_state
  assumes "nnf_net.more st' = nnf_net.more st"
  shows "ns_world st' = ns_world st" "ns_sessions st' = ns_sessions st" "ns_references st' = ns_references st"
    and "ns_trimmed st' = ns_trimmed st" "ns_issued st' = ns_issued st" "ns_delayed st' = ns_delayed st" "ns_locked st' = ns_locked st"
  using assms by (cases st; cases st'; simp)+

lemma aside_only_reported: "aside st st' \<Longrightarrow> only_reported st st'"
  unfolding aside_def only_reported_def using more_fields [of st' st]
  by (auto intro: exI [of _ "ew_behaviour (ns_world st)"])

lemma box_of_desk [simp]:
  "box_of (st\<lparr>ns_world := w\<rparr>) b = box_of st b" "box_of (st\<lparr>ns_sessions := s\<rparr>) b = box_of st b"
  "box_of (st\<lparr>ns_references := r\<rparr>) b = box_of st b" "box_of (st\<lparr>ns_trimmed := t\<rparr>) b = box_of st b"
  "box_of (st\<lparr>ns_issued := i\<rparr>) b = box_of st b" "box_of (st\<lparr>ns_delayed := d\<rparr>) b = box_of st b"
  "box_of (st\<lparr>ns_locked := l\<rparr>) b = box_of st b"
  by (simp_all add: box_of_def)

lemma sign_view_desk [simp]:
  "sign_view (st\<lparr>ns_world := w\<rparr>) = sign_view st" "sign_view (st\<lparr>ns_sessions := s\<rparr>) = sign_view st"
  "sign_view (st\<lparr>ns_references := r\<rparr>) = sign_view st" "sign_view (st\<lparr>ns_trimmed := t\<rparr>) = sign_view st"
  "sign_view (st\<lparr>ns_issued := i\<rparr>) = sign_view st" "sign_view (st\<lparr>ns_delayed := d\<rparr>) = sign_view st"
  "sign_view (st\<lparr>ns_locked := l\<rparr>) = sign_view st"
  by (simp_all add: sign_view_def)

lemma only_reported_updates [simp]:
  "only_reported st (set_rules b st)" "only_reported st (st\<lparr>ns_references := r\<rparr>)"
  "only_reported st (st\<lparr>ns_trimmed := t\<rparr>)" "only_reported st (st\<lparr>ns_delayed := d\<rparr>)" "only_reported st (st\<lparr>ns_locked := l\<rparr>)"
  "only_reported st (st\<lparr>ns_issued := i\<rparr>)"
  by (auto simp: only_reported_def set_rules_def intro: exI [of _ "ew_behaviour (ns_world st)"])

lemma user_send_reports: "user_send env u m st = Inr st' \<Longrightarrow> only_reported (st :: nse_state) st'"
  by (rule aside_only_reported [OF user_send_aside])

lemma forget_only_reported: "only_reported st (forget_orders evs st)"
proof -
  have "only_reported st (fold forget_order xs st)" for xs
  proof (induction xs arbitrary: st)
    case (Cons x xs)
    have "only_reported st (forget_order x st)"
      by (auto simp: forget_order_def only_reported_def intro: exI [of _ "ew_behaviour (ns_world st)"])
    with Cons.IH [of "forget_order x st"] show ?case by (auto intro: only_reported_trans)
  qed simp
  then show ?thesis by (simp add: forget_orders_def)
qed

lemma remember_only_reported: "only_reported st (remember_order r t evs st)"
  by (auto simp: remember_order_def only_reported_def Let_def intro: exI [of _ "ew_behaviour (ns_world st)"]
      split: list.splits option.splits)

lemma file_only_reported: "file_report env order m st = Inr st' \<Longrightarrow> only_reported st st'"
  by (auto simp: file_report_def Let_def bind_exn_Inr intro: aside_only_reported [OF retain_aside]
      split: option.splits if_splits)

lemma deliver_only_reported:
  assumes "deliver_report env u m order st = Inr st'"
  shows "only_reported st st'"
  using assms only_reported_trans [OF only_reported_updates(1) user_send_reports]
    only_reported_trans [OF only_reported_updates(1) only_reported_updates(4)]
  by (auto simp: deliver_report_def Let_def user_send_reports split: option.splits prod.splits if_splits)

lemma pass_only_reported: "pass_report env target order m st = Inr st' \<Longrightarrow> only_reported st st'"
  by (auto simp: pass_report_def intro: file_only_reported deliver_only_reported split: option.splits)

lemma emit_event_only_reported:
  assumes "emit_event env render fb ev st = Inr st'"
  shows "only_reported st st'"
proof -
  obtain ms where "fold_exn (pass_report env (report_target st ev fb) (event_order ev)) ms st = Inr st'"
    using assms by (auto simp: emit_event_def bind_exn_Inr)
  then show ?thesis
    by (rule fold_exn_rel [where R = "only_reported st"]) (auto intro: only_reported_trans pass_only_reported)
qed

lemma emit_only_reported:
  assumes "emit_reports env render fb evs st = Inr st'"
  shows "only_reported st st'"
proof -
  obtain st1 where f: "fold_exn (emit_event env render fb) evs st = Inr st1" "st' = forget_orders evs st1"
    using assms by (auto simp: emit_reports_def bind_exn_Inr)
  from f(1) have "only_reported st st1"
    by (rule fold_exn_rel [where R = "only_reported st"]) (auto intro: only_reported_trans emit_event_only_reported)
  then show ?thesis using forget_only_reported f(2) only_reported_trans by blast
qed

lemma reported_extra: "only_reported st st' \<Longrightarrow> nse_extra st' = nse_extra st"
  by (auto simp: only_reported_def nse_extra_def)

lemma reported_table: "only_reported st st' \<Longrightarrow> nse_table st' = nse_table st"
  by (simp add: only_reported_def nse_table_def)

lemma reported_good: "only_reported st st' \<Longrightarrow> nse_good st' = nse_good st"
  using reported_extra [of st st'] reported_table [of st st'] net_ok_view [of st' st]
  by (auto simp: nse_good_def only_reported_def sign_view_def)

lemma good_world: "nse_good st \<Longrightarrow> engine_inv w \<Longrightarrow> nse_good (st\<lparr>ns_world := w\<rparr>)"
  using net_ok_view [of "st\<lparr>ns_world := w\<rparr>" st] by (simp add: nse_good_def nse_extra_def nse_table_def)

lemma good_engine: "nse_good st \<Longrightarrow> engine_inv (ns_world st)"
  by (simp add: nse_good_def nse_extra_def)

lemma good_emit:
  assumes "emit_reports env render fb evs (st\<lparr>ns_world := w\<rparr>) = Inr st'" and "nse_good st" and "engine_inv w"
  shows "nse_good st'"
  using reported_good [OF emit_only_reported [OF assms(1)]] good_world [OF assms(2,3)] by simp

subsection \<open>The callbacks\<close>

lemma nnf_key_inject [simp]: "nnf_key u = nnf_key v \<longleftrightarrow> u = v"
  by (simp add: nnf_key_def)

lemma keyed_update: "keyed s \<Longrightarrow> keyed (AList.update (nnf_key u) u s)"
  by (auto simp: keyed_def map_of_update_eq split: if_splits)

lemma keyed_delete: "keyed s \<Longrightarrow> keyed (AList.delete k s)"
  by (auto simp: keyed_def map_of_delete_eq split: if_splits)

lemma desk_logon_effect:
  assumes "desk_logon u st = Inr st'"
  shows "sign_view st' = sign_view st" and "nse_table st' = insert u (nse_table st)" and "nse_extra st \<Longrightarrow> nse_extra st'"
  using assms by (auto simp: desk_logon_def nse_table_def nse_extra_def map_of_update_eq keyed_update split: if_splits)

lemma desk_logout_effect:
  assumes "desk_logout env render u st = Inr st'"
  shows "sign_view st' = sign_view st" and "nse_table st' = nse_table st - {u}" and "nse_extra st \<Longrightarrow> nse_extra st'"
proof -
  let ?s = "st\<lparr>ns_sessions := AList.delete (nnf_key u) (ns_sessions st)\<rparr>"
  have s: "nse_table ?s = nse_table st - {u}" "nse_extra st \<Longrightarrow> nse_extra ?s"
    by (auto simp: nse_table_def nse_extra_def map_of_delete_eq keyed_delete split: if_splits)
  obtain w where rep: "only_reported (?s\<lparr>ns_world := w\<rparr>) st'" and w: "engine_inv (ns_world st) \<Longrightarrow> engine_inv w"
  proof (cases "cancels_on_disconnect st u")
    case True
    then obtain ew evs where "cancel_session_orders (nnf_key u) CR_CANCEL_ON_DISCONNECT ''cancelled on disconnect'' (ns_world st) = Inr (ew, evs)"
        "emit_reports env render (Some u) evs (?s\<lparr>ns_world := ew\<rparr>) = Inr st'"
      using assms by (auto simp: desk_logout_def Let_def bind_exn_Inr)
    then show thesis using that emit_only_reported cancel_session_result(1) by blast
  next
    case False
    then show thesis using that [of "ns_world st"] assms by (simp add: desk_logout_def Let_def)
  qed
  let ?t = "?s\<lparr>ns_world := w\<rparr>"
  have "sign_view st' = sign_view ?t" using rep unfolding only_reported_def by blast
  then show "sign_view st' = sign_view st" by (simp only: sign_view_desk)
  have "nse_table ?t = nse_table ?s" by (simp add: nse_table_def)
  then show "nse_table st' = nse_table st - {u}" using reported_table [OF rep] s(1) by (simp only:)
  show "nse_extra st'" if "nse_extra st"
  proof -
    have "nse_extra ?t" using s(2) [OF that] w that by (simp add: nse_extra_def)
    then show ?thesis using reported_extra [OF rep] by (simp only:)
  qed
qed

interpretation nse_desk: session_callbacks desk_logon "desk_logout env render" desk_detached nse_table nse_extra
  for env render
proof
  fix u :: int and st st' :: nse_state
  show "desk_logon u st = Inr st' \<Longrightarrow> sign_view st' = sign_view st \<and> nse_table st' = insert u (nse_table st)"
    and "desk_logon u st = Inr st' \<Longrightarrow> nse_extra st \<Longrightarrow> nse_extra st'"
    using desk_logon_effect by blast+
  show "desk_logout env render u st = Inr st' \<Longrightarrow> sign_view st' = sign_view st \<and> nse_table st' = nse_table st - {u}"
    and "desk_logout env render u st = Inr st' \<Longrightarrow> nse_extra st \<Longrightarrow> nse_extra st'"
    using desk_logout_effect by blast+
  show "desk_detached u st = Inr st' \<Longrightarrow> sign_view st' = sign_view st \<and> nse_table st' = nse_table st"
    and "desk_detached u st = Inr st' \<Longrightarrow> nse_extra st \<Longrightarrow> nse_extra st'"
    by (auto simp: desk_detached_def nse_table_def nse_extra_def)
  show "nse_table st' = nse_table st" "nse_extra st' = nse_extra st" if "nnf_net.more st' = nnf_net.more st"
    using more_fields(1,2) [OF that] by (simp_all add: nse_table_def nse_extra_def)
qed

lemma nse_good_eq: "nse_desk.good = nse_good"
  by (rule ext) (simp add: nse_desk.good_def nse_good_def)

lemma desk_logon_good:
  assumes "desk_logon u st = Inr st'" and "nse_good st" and "u \<in> set (nn_live st)"
  shows "nse_good st' \<and> sign_view st' = sign_view st"
  using desk_logon_effect [OF assms(1)] net_ok_view [of st' st] assms(2,3)
  by (auto simp: nse_good_def sign_view_def)

lemma user_send_good: "user_send env u m st = Inr st' \<Longrightarrow> nse_good st \<Longrightarrow> nse_good st'"
  using reported_good [OF user_send_reports] by blast

lemma reject_change_good: "reject_change env u m code error st = Inr st' \<Longrightarrow> nse_good st \<Longrightarrow> nse_good st'"
  by (auto simp: reject_change_def bind_exn_Inr intro: user_send_good)

lemma answer_request_good:
  assumes "answer_request env u m (ew, evs) st = Inr st'" and "nse_good st" and "engine_inv ew"
  shows "nse_good st'"
proof -
  have "nse_good (nse_remember m evs (st\<lparr>ns_world := ew\<rparr>))"
    unfolding nse_remember_def reported_good [OF remember_only_reported] using assms(2,3) by (rule good_world)
  then show ?thesis using assms(1) reported_good [OF emit_only_reported] by (simp add: answer_request_def)
qed

lemma on_new_order_good:
  assumes r: "on_new_order env u m st = Inr st'" and g: "nse_good st"
  shows "nse_good st'"
  using r reject_change_good [OF _ g] answer_request_good [OF _ g new_order_inv [OF _ good_engine [OF g]]]
  by (auto simp: on_new_order_def order_error_def bind_exn_Inr split: option.splits sum.splits if_splits)

lemma on_modify_good:
  assumes r: "on_modify env u m st = Inr st'" and g: "nse_good st"
  shows "nse_good st'"
  using r reject_change_good [OF _ g] answer_request_good [OF _ g replace_order_inv [OF _ good_engine [OF g]]]
  by (auto simp: on_modify_def bind_exn_Inr split: option.splits sum.splits if_splits)

lemma on_cancel_good:
  assumes r: "on_cancel env u m st = Inr st'" and g: "nse_good st"
  shows "nse_good st'"
  using r answer_request_good [OF _ g cancel_order_inv(1) [OF _ good_engine [OF g]]]
  by (auto simp: on_cancel_def bind_exn_Inr)

lemma on_sign_off_good:
  assumes r: "on_sign_off env u st = Inr st'" and g: "nse_good st"
  shows "nse_good st'"
  using r nse_desk.sign_off_good [unfolded nse_good_eq] user_send_good [OF _ g]
  by (auto simp: on_sign_off_def user_disconnect_def bind_exn_Inr split: option.splits)

lemma on_download_request_good:
  assumes r: "on_download_request env u m st = Inr st'" and g: "nse_good st"
  shows "nse_good st'"
proof -
  let ?each = "\<lambda>stream (sequence, recovered) s.
    bind_exn (download_record env recovered stream) (\<lambda>r. user_send (nv_net env) u r (s :: nse_state))"
  have loop: "nse_good t'" if "fold_exn (?each stream) rs t = Inr t'" "nse_good t" for stream rs t t'
    using that by (rule fold_exn_rel [where R = nse_good]) (auto simp: bind_exn_Inr user_send_good)
  show ?thesis using r g
    by (auto simp: on_download_request_def Let_def bind_exn_Inr split: if_splits option.splits
        dest!: user_send_good loop)
qed

lemma nse_on_message_good:
  assumes r: "nse_on_message env u m st = Inr st'" and g: "nse_good st" and live: "u \<in> set (nn_live st)"
  shows "nse_good st'"
proof -
  obtain st1 c where l: "desk_logon u st = Inr st1" and h: "handle_code env c u m st1 = Inr st'"
    using r by (auto simp: nse_on_message_def bind_exn_Inr split: option.splits)
  have "nse_good st1" using desk_logon_good [OF l g live] by blast
  with h show ?thesis
    by (auto simp: handle_code_def on_system_information_def order_error_def bind_exn_Inr
        intro: on_new_order_good on_modify_good on_cancel_good on_sign_off_good on_download_request_good
          user_send_good reject_change_good split: if_splits)
qed

subsection \<open>The box sequence\<close>

lemma box_send_good: "box_send env b m st = Inr st' \<Longrightarrow> nse_good st \<Longrightarrow> nse_good st'"
  using reported_good [OF aside_only_reported [OF box_send_aside]] by blast

lemma drop_box_good: "nse_drop_box env b st = Inr st' \<Longrightarrow> nse_good st \<Longrightarrow> nse_good st'"
  by (rule nse_desk.disconnect_good [unfolded nse_good_eq])

lemma box_error_good: "box_error env b code error who st = Inr st' \<Longrightarrow> nse_good st \<Longrightarrow> nse_good st'"
  by (auto simp: box_error_def bind_exn_Inr intro: box_send_good)

lemma registered_good:
  "nse_good st \<Longrightarrow> nse_good (box_registered b c st)" "nse_good st \<Longrightarrow> nse_good (box_signed_on b broker st)"
  using reported_good [OF aside_only_reported [OF registered_aside(1)]]
    reported_good [OF aside_only_reported [OF registered_aside(2)]] by blast+

lemma on_registration_good:
  assumes "on_registration env b m st = Inr st'" and g: "nse_good st"
  shows "nse_good st'"
  using assms(1) drop_box_good box_error_good [OF _ g] box_send_good [OF _ g] registered_good
  by (auto simp: on_registration_def bind_exn_Inr split: if_splits)

lemma on_box_sign_on_good:
  assumes "on_box_sign_on env b m st = Inr st'" and g: "nse_good st"
  shows "nse_good st'"
  using assms(1) drop_box_good box_error_good [OF _ g] box_send_good [OF _ g] registered_good
  by (auto simp: on_box_sign_on_def Let_def bind_exn_Inr split: if_splits option.splits)

lemma good_config: "nse_good st \<Longrightarrow> map_of (nn_users st) u = Some cfg \<Longrightarrow> nu_user_id cfg = u"
  by (auto simp: nse_good_def net_ok_def sign_view_def dest: agreeD(5))

lemma on_sign_on_cases:
  assumes "on_sign_on env b m st = Inr st'"
  obtains error who where "box_error env b X_SIGN_ON_REQUEST_OUT error who st = Inr st'"
  | u cfg st1 reply where "map_of (nn_users st) u = Some cfg" "nu_box_id cfg = b"
      "map_of (bx_users (box_of st b)) (nu_user_id cfg) = None" "sign_on_user desk_logon b cfg st = Inr st1"
      "user_send (nv_net env) (nu_user_id cfg) reply st1 = Inr st'"
proof (cases "msg_get_int m CM_SIGNON_USER_ID")
  case None
  with assms that(1) show thesis by (simp add: on_sign_on_def Let_def)
next
  case (Some u)
  show thesis
  proof (cases "if u = 0 then None else map_of (nn_users st) u")
    case None
    with assms Some that(1) show thesis by (simp add: on_sign_on_def Let_def)
  next
    case (Some cfg)
    note c = this
    show thesis
    proof (cases "nu_box_id cfg = b \<and> map_of (bx_users (box_of st b)) (nu_user_id cfg) = None \<and>
        (msg_get m CM_BROKER_ID = None \<or> msg_get m CM_BROKER_ID = Some (nu_broker_id cfg))")
      case True
      with assms \<open>msg_get_int m CM_SIGNON_USER_ID = Some u\<close> c obtain st1 reply where
          "sign_on_user desk_logon b cfg st = Inr st1" "user_send (nv_net env) (nu_user_id cfg) reply st1 = Inr st'"
        by (auto simp: on_sign_on_def Let_def bind_exn_Inr split: if_splits)
      with True c that(2) show thesis by (auto split: if_splits)
    next
      case False
      with assms \<open>msg_get_int m CM_SIGNON_USER_ID = Some u\<close> c that(1) show thesis
        by (auto simp: on_sign_on_def Let_def split: if_splits)
    qed
  qed
qed

lemma on_sign_on_good:
  assumes "on_sign_on env b m st = Inr st'" and g: "nse_good st"
  shows "nse_good st'"
  using assms(1)
proof (cases rule: on_sign_on_cases)
  case (2 u cfg st1 reply)
  then have "map_of (nn_users st) (nu_user_id cfg) = Some cfg" using good_config [OF g 2(1)] by simp
  with nse_desk.sign_on_good [unfolded nse_good_eq, OF 2(4) g _ 2(2,3)] have "nse_good st1" by blast
  then show ?thesis by (rule user_send_good [OF 2(5)])
qed (rule box_error_good [OF _ g])

lemma nse_on_box_message_good:
  "nse_on_box_message env b m st = Inr (answered, st') \<Longrightarrow> nse_good st \<Longrightarrow> nse_good st'"
  by (auto simp: nse_on_box_message_def bind_exn_Inr split: option.splits if_splits
      intro: on_registration_good on_box_sign_on_good on_sign_on_good)

lemma nse_on_invalid_good: "nse_on_invalid env who m f st = Inr (answered, st') \<Longrightarrow> nse_good st \<Longrightarrow> nse_good st'"
  by (auto simp: nse_on_invalid_def order_error_def bind_exn_Inr split: option.splits if_splits intro: reject_change_good)

lemma nse_on_checksum_failure_good: "nse_on_checksum_failure env b st = Inr st' \<Longrightarrow> nse_good st \<Longrightarrow> nse_good st'"
  by (auto simp: nse_on_checksum_failure_def bind_exn_Inr intro: box_send_good)

interpretation nse: nnf_gateway "nse_app env" nse_table nse_extra for env
proof (unfold nse_app_simps nnf_gateway_def nnf_gateway_axioms_def nse_good_eq, intro conjI allI impI)
  show "session_callbacks desk_logon (desk_logout env (nse_render env)) desk_detached nse_table nse_extra"
    by (rule nse_desk.session_callbacks_axioms)
qed (blast intro: nse_on_message_good nse_on_box_message_good nse_on_invalid_good nse_on_checksum_failure_good)+

section \<open>The equity venue over time\<close>

subsection \<open>The operator's operations keep the invariant\<close>

lemma uncross_each_inv:
  "uncross_each sys prices w = Inr (w', rs, evs) \<Longrightarrow> market_inv w \<Longrightarrow> market_inv w' \<and> market_frame z w w'"
proof (induction sys arbitrary: w rs evs)
  case (Cons sy sys)
  then obtain w1 r e1 rs2 e2 where u: "market_uncross sy (prices sy) w = Inr (w1, r, e1)"
      "uncross_each sys prices w1 = Inr (w', rs2, e2)"
    by (auto simp: bind_exn_Inr)
  have "market_inv w1" "market_frame z w w1" using market_uncross_inv(1,5) [OF u(1) Cons.prems(2)] by blast+
  then show ?case using Cons.IH [OF u(2)] market_frame_trans by blast
qed simp

lemma preopen_uncross_good:
  assumes "preopen_uncross env st = Inr (st', evs)" and g: "nse_good st"
  shows "nse_good st'"
proof -
  obtain m w rs where m: "map_of (ew_markets (ns_world st)) (nv_market env) = Some m"
      and u: "uncross_all (reference_price env) (market_view (ns_world st) m) = Inr (w, rs, evs)"
      and st': "st' = st\<lparr>ns_world := put_market (nv_market env) w (ns_world st), ns_locked := False\<rparr>"
    using assms(1) by (auto simp: preopen_uncross_def bind_exn_Inr split: option.splits)
  note i = good_engine [OF g]
  have w: "market_inv w" "market_frame z (market_view (ns_world st) m) w" for z
    using uncross_each_inv [OF u [unfolded uncross_all_def] engine_invD(3) [OF i m]] by blast+
  have "nse_good (st\<lparr>ns_world := put_market (nv_market env) w (ns_world st)\<rparr>)"
    by (rule good_world [OF g put_view_inv [OF i m w]])
  then show ?thesis unfolding st' by (simp only: reported_good [OF only_reported_updates(5)])
qed

lemma emit_good: "emit_reports env render fb evs st = Inr st' \<Longrightarrow> nse_good st \<Longrightarrow> nse_good st'"
  using reported_good [OF emit_only_reported] by blast

lemma set_trading_state_good:
  assumes "set_trading_state env state market sy st = Inr (st', evs)" and g: "nse_good st"
  shows "nse_good st'"
proof -
  let ?n = "if truthy market then show_opt market else nv_market env"
  obtain m st1 where m: "map_of (ew_markets (ns_world st)) ?n = Some m"
      and s: "(if leaving_preopen m state sy
               then bind_exn (preopen_uncross env st) (\<lambda>(st1, evs). nse_emit env None evs st1)
               else Inr st) = Inr st1"
      and r: "(case map_of (ew_markets (ns_world st1)) ?n of None \<Rightarrow> Inl KeyError
         | Some m1 \<Rightarrow>
            bind_exn (market_set_state (show_state state) sy (market_view (ns_world st1) m1)) (\<lambda>(w, changed).
              let st2 = st1\<lparr>ns_world := put_market ?n w (ns_world st1)\<rparr> in
              Inr (if state = PRE_OPEN \<and> sy = None then st2\<lparr>ns_locked := False\<rparr> else st2, changed))) = Inr (st', evs)"
    using assms(1) unfolding set_trading_state_def Let_def by (auto simp: bind_exn_Inr split: option.splits)
  have g1: "nse_good st1" using s g preopen_uncross_good emit_good by (auto simp: bind_exn_Inr split: if_splits)
  obtain m1 w where m1: "map_of (ew_markets (ns_world st1)) ?n = Some m1"
      and w: "market_set_state (show_state state) sy (market_view (ns_world st1) m1) = Inr (w, evs)"
      and st': "st' = st1\<lparr>ns_world := put_market ?n w (ns_world st1)\<rparr> \<or>
        st' = st1\<lparr>ns_world := put_market ?n w (ns_world st1), ns_locked := False\<rparr>"
    using r unfolding Let_def by (auto simp: bind_exn_Inr split: option.splits if_splits)
  note i = good_engine [OF g1]
  note mi = engine_invD(3) [OF i m1]
  have "nse_good (st1\<lparr>ns_world := put_market ?n w (ns_world st1)\<rparr>)"
    by (rule good_world [OF g1 put_view_inv [OF i m1 market_set_state_inv [OF w mi, THEN conjunct1] phase_frame [OF w mi]]])
  then show ?thesis using st' reported_good [OF only_reported_updates(5)] by auto
qed

lemma operator_cancel_good:
  assumes "operator_cancel env x t st = Inr st'" and g: "nse_good st"
  shows "nse_good st'"
proof (cases "st' = st")
  case False
  let ?ew = "ns_world st"
  obtain y m w evs where y: "registry_by_order_id (ew_registry ?ew) x = Some y"
      and m: "engine_market ?ew (o_market (order_at st y)) = Some m"
      and c: "market_cancel y CR_ADMINISTRATIVE (if t = [] then ''cancelled by operator'' else t) (market_view ?ew m) = Inr (w, evs)"
      and e: "nse_emit env None evs (st\<lparr>ns_world := put_market (show_opt (o_market (order_at st y))) w ?ew\<rparr>) = Inr st'"
    using assms(1) False unfolding operator_cancel_def by (auto simp: bind_exn_Inr split: option.splits if_splits)
  obtain nm where nm: "o_market (ew_heap ?ew y) = Some nm" "map_of (ew_markets ?ew) nm = Some m"
    using m by (auto simp: engine_market_Some order_at_def)
  note i = good_engine [OF g]
  have w: "market_inv w" "market_frame y (market_view ?ew m) w"
    using market_cancel_inv [OF c engine_invD(3) [OF i nm(2)]] by blast+
  have "y \<in> set (reg_order_ids (ew_registry ?ew))" using y by (auto simp: registry_by_order_id_def split: if_splits)
  then have "engine_inv (put_market nm w ?ew)" using put_market_inv(1) [OF i nm(2) w(2,1)] nm(1) by blast
  then show ?thesis using good_emit [OF e g] nm(1) by (simp add: order_at_def)
qed (use g in simp)

lemma operator_cancel_session_good:
  assumes "operator_cancel_session env k t st = Inr st'" and g: "nse_good st"
  shows "nse_good st'"
proof -
  obtain ew evs where "cancel_session_orders k CR_ADMINISTRATIVE (if t = [] then ''cancelled by operator'' else t) (ns_world st) = Inr (ew, evs)"
      and e: "nse_emit env None evs (st\<lparr>ns_world := ew\<rparr>) = Inr st'"
    using assms(1) by (auto simp: operator_cancel_session_def bind_exn_Inr)
  then show ?thesis using good_emit [OF e g] cancel_session_result(1) good_engine [OF g] by blast
qed

lemma inject_order_good:
  assumes "inject_order env rq st = Inr st'" and g: "nse_good st"
  shows "nse_good st'"
  using assms(1) good_emit [OF _ g new_order_inv [OF _ good_engine [OF g]]]
  by (auto simp: inject_order_def bind_exn_Inr)

lemma deliver_delayed_good:
  assumes "deliver_delayed env i st = Inr st'" and g: "nse_good st"
  shows "nse_good st'"
proof (cases "i < length (ns_delayed st)")
  case True
  let ?s = "st\<lparr>ns_delayed := take i (ns_delayed st) @ drop (Suc i) (ns_delayed st)\<rparr>"
  have "nse_good ?s" using g by (simp only: reported_good [OF only_reported_updates(4)])
  with assms(1) True show ?thesis
    by (auto simp: deliver_delayed_def simp del: only_reported_updates split: prod.splits intro: user_send_good)
qed (use assms in \<open>simp add: deliver_delayed_def\<close>)

lemma nse_step_good: "nse_step env st st' \<Longrightarrow> nse_good st \<Longrightarrow> nse_good st'"
proof (induction rule: nse_step.induct)
  case (attach now st b)
  then show ?case using nse_desk.attach_good [unfolded nse_good_eq] by blast
next
  case (data now b chunk st st')
  then show ?case using nse.data_good [unfolded nse_good_eq] by blast
next
  case (closed now b st st')
  then show ?case using nse_desk.detach_good [unfolded nse_good_eq] by blast
next
  case (kill_user now u st st')
  then show ?case using nse_desk.sign_off_good [unfolded nse_good_eq] by (auto simp: user_disconnect_def split: option.splits)
next
  case (tick now st st')
  then show ?case using nse.tick_good [unfolded nse_good_eq] by blast
qed (auto intro: drop_box_good deliver_delayed_good set_trading_state_good inject_order_good operator_cancel_good
      operator_cancel_session_good
    simp: reported_good [OF only_reported_updates(1)] reported_good [OF only_reported_updates(5)]
      reported_good [OF only_reported_updates(6)] issue_secrets_def)

lemma nse_reaches_good: "nse_reaches env st st' \<Longrightarrow> nse_good st \<Longrightarrow> nse_good st'"
  by (induction rule: rtranclp_induct) (auto intro: nse_step_good)

end
