(* ===== verification/Nse_Reports.thy ===== *)
theory Nse_Reports
  imports Nse_Facts
begin

section \<open>What a report is, and whom it reaches\<close>

subsection \<open>The trace of one box\<close>

definition trace_on :: "int \<Rightarrow> 'a nnf_net_scheme \<Rightarrow> box_event list" where
  "trace_on b st = map snd (filter (\<lambda>e. fst e = b) (nn_trace st))"

lemma trace_on_happened [simp]: "trace_on b (happened c e st) = (if c = b then trace_on b st @ [e] else trace_on b st)"
  by (simp add: trace_on_def happened_def)

lemma trace_on_put [simp]: "trace_on b (put_box c x st) = trace_on b st"
  by (simp add: trace_on_def)

lemma stamp_trace: "nnf_stamp env m st = Inr (q, m', st') \<Longrightarrow> nn_trace st' = nn_trace st"
  by (auto simp: nnf_stamp_def Let_def bind_exn_Inr split: option.splits)

lemma retain_trace: "nnf_retain env u m st = Inr (m', st') \<Longrightarrow> nn_trace st' = nn_trace st"
proof -
  assume "nnf_retain env u m st = Inr (m', st')"
  then obtain q m1 st1 where s: "nnf_stamp env (set_absent (ne_user_id_tag env) (string_of_int u) m) st = Inr (q, m1, st1)"
      and e: "st' = (case (nn_store st1, q) of
          (Some s, Some i) \<Rightarrow> st1\<lparr>nn_store := Some (snd (store_record (ne_recoverable env) (ne_normalise env) u i m1 s))\<rparr>
        | _ \<Rightarrow> st1)"
    by (auto simp: nnf_retain_def bind_exn_Inr)
  have "nn_trace st' = nn_trace st1" unfolding e by (cases "nn_store st1"; cases q) simp_all
  with stamp_trace [OF s] show ?thesis by simp
qed

lemma box_send_trace:
  assumes "box_send env c m st = Inr st'" and "c \<noteq> b"
  shows "trace_on b st' = trace_on b st"
proof (cases "bx_connected (box_of st c)")
  case True
  obtain q m1 st1 where s: "nnf_stamp env m st = Inr (q, m1, st1)"
    using assms(1) True by (auto simp: box_send_def bind_exn_Inr)
  obtain k m2 r where n: "nnf_encode (box_codec env (box_of st1 c)) m1 = (k, m2, r)" by (metis prod_cases3)
  let ?p = "put_box c ((box_of st1 c)\<lparr>bx_cipher := nx_cipher k\<rparr>) st1"
  have "st' = ?p \<or> (\<exists>raw. st' = happened c (BoxSent raw) ?p)"
    using assms(1) True s n by (auto simp: box_send_def Let_def split: sum.splits if_splits)
  then have "trace_on b st' = trace_on b st1" using assms(2) by auto
  then show ?thesis using stamp_trace [OF s] by (simp add: trace_on_def)
qed (use assms in \<open>simp add: box_send_def\<close>)

lemma user_send_trace:
  assumes "user_send env u m st = Inr st'" and "box_for st u \<noteq> Some b"
  shows "trace_on b st' = trace_on b st"
proof (cases "box_for st u")
  case (Some c)
  then obtain m1 st1 where r: "nnf_retain env u (name_recipient env u m) st = Inr (m1, st1)" "box_send env c m1 st1 = Inr st'"
    using assms(1) by (auto simp: user_send_def bind_exn_Inr)
  have "trace_on b st1 = trace_on b st" using retain_trace [OF r(1)] by (simp add: trace_on_def)
  with box_send_trace [OF r(2)] assms(2) Some show ?thesis by auto
qed (use assms in \<open>simp add: user_send_def\<close>)

subsection \<open>Reports reach their owners only\<close>

text \<open>The users an event concerns: the owner of its order, or whoever caused it when it has none.\<close>

definition concerns :: "nse_state \<Rightarrow> int option \<Rightarrow> event \<Rightarrow> int \<Rightarrow> bool" where
  "concerns st fb ev u \<longleftrightarrow>
     (case event_order ev of None \<Rightarrow> fb = Some u
      | Some x \<Rightarrow> (if is_nnf_key (o_session_key (order_at st x)) then o_session_key (order_at st x) = nnf_key u else fb = Some u))"

lemma report_target_concerns:
  assumes "nse_extra st" and "report_target st ev fb = Some u"
  shows "concerns st fb ev u"
proof -
  have k: "k = nnf_key v" if "map_of (ns_sessions st) k = Some v" for k v
    using assms(1) that unfolding nse_extra_def keyed_def by blast
  show ?thesis using assms(2) by (auto simp: report_target_def concerns_def Let_def split: option.splits if_splits dest: k)
qed

lemma reported_reading:
  assumes "only_reported st st'"
  shows "order_at st' x = order_at st x" "report_target st' ev fb = report_target st ev fb" "box_for st' u = box_for st u"
    "concerns st' fb ev u = concerns st fb ev u"
proof -
  have h: "order_at st' y = order_at st y" for y using assms by (auto simp: only_reported_def order_at_def)
  have n: "ns_sessions st' = ns_sessions st" "nn_users st' = nn_users st" using assms by (auto simp: only_reported_def sign_view_def)
  show "order_at st' x = order_at st x" "report_target st' ev fb = report_target st ev fb" "box_for st' u = box_for st u"
    "concerns st' fb ev u = concerns st fb ev u"
    by (simp_all add: h n report_target_def box_for_def concerns_def Let_def split: option.split)
qed

lemma file_trace: "file_report env order m st = Inr st' \<Longrightarrow> trace_on b st' = trace_on b st"
  by (auto simp: file_report_def Let_def bind_exn_Inr trace_on_def dest!: retain_trace split: option.splits if_splits)

lemma set_rules_same [simp]: "set_rules (ew_behaviour (ns_world st)) st = st"
  by (simp add: set_rules_def)

lemma deliver_cases:
  assumes "deliver_report env u m order st = Inr st'"
  obtains r where "user_send (nv_net env) u m (set_rules r st) = Inr st'"
  | r d where "st' = (set_rules r st)\<lparr>ns_delayed := d\<rparr>"
proof (cases "if behaviour_active (ew_behaviour (ns_world st)) then order else None")
  case None
  with assms have "user_send (nv_net env) u m (set_rules (ew_behaviour (ns_world st)) st) = Inr st'"
    by (simp add: deliver_report_def)
  then show thesis by (rule that(1))
next
  case (Some x)
  obtain found b1 where d1: "take_rule FORCE_DROP (order_at st x) (ew_behaviour (ns_world st)) = (found, b1)" by fastforce
  obtain late b2 where d2: "take_rule FORCE_DELAY (order_at st x) b1 = (late, b2)" by fastforce
  show thesis
  proof (cases found)
    case (Some r)
    then have "st' = (set_rules b1 st)\<lparr>ns_delayed := ns_delayed (set_rules b1 st)\<rparr>"
      using assms d1 \<open>_ = Some x\<close> by (simp add: deliver_report_def)
    then show thesis by (rule that(2))
  next
    case None
    then have "user_send (nv_net env) u m (set_rules b2 st) = Inr st' \<or> (\<exists>d. st' = (set_rules b2 st)\<lparr>ns_delayed := d\<rparr>)"
      using assms d1 d2 \<open>_ = Some x\<close> by (auto simp: deliver_report_def Let_def split: option.splits if_splits)
    then show thesis using that by blast
  qed
qed

lemma trace_on_desk [simp]:
  "trace_on b (set_rules r st) = trace_on b st" "trace_on b (st\<lparr>ns_delayed := d\<rparr>) = trace_on b st"
  by (simp_all add: trace_on_def set_rules_def)

lemma deliver_trace:
  assumes "deliver_report env u m order st = Inr st'" and "box_for st u \<noteq> Some b"
  shows "trace_on b st' = trace_on b st"
  using assms(1)
proof (cases rule: deliver_cases)
  case (1 r)
  have "box_for (set_rules r st) u \<noteq> Some b" using assms(2) by (simp add: set_rules_def box_for_def)
  with user_send_trace [OF 1] show ?thesis by simp
qed simp

lemma emit_event_trace:
  assumes e: "emit_event env render fb ev st = Inr st'" and x: "nse_extra st"
    and no: "\<And>u. concerns st fb ev u \<Longrightarrow> box_for st u \<noteq> Some b"
  shows "trace_on b st' = trace_on b st"
proof -
  obtain ms where f: "fold_exn (pass_report env (report_target st ev fb) (event_order ev)) ms st = Inr st'"
    using e by (auto simp: emit_event_def bind_exn_Inr)
  have "only_reported st st' \<and> trace_on b st' = trace_on b st"
  proof (rule fold_exn_rel [OF f, where R = "\<lambda>t. only_reported st t \<and> trace_on b t = trace_on b st"])
    fix m t t'
    assume t: "only_reported st t \<and> trace_on b t = trace_on b st"
      and p: "pass_report env (report_target st ev fb) (event_order ev) m t = Inr t'"
    have "trace_on b t' = trace_on b t"
    proof (cases "report_target st ev fb")
      case None
      then show ?thesis using p file_trace by (simp add: pass_report_def)
    next
      case (Some u)
      then have "box_for t u \<noteq> Some b" using no [OF report_target_concerns [OF x Some]] t reported_reading(3) [of st t u] by simp
      then show ?thesis using p Some deliver_trace by (simp add: pass_report_def)
    qed
    then show "only_reported st t' \<and> trace_on b t' = trace_on b st"
      using t pass_only_reported [OF p] only_reported_trans by auto
  qed simp
  then show ?thesis by blast
qed

lemma emit_trace:
  assumes e: "emit_reports env render fb evs st = Inr st'" and x: "nse_extra st"
    and no: "\<And>ev u. ev \<in> set evs \<Longrightarrow> concerns st fb ev u \<Longrightarrow> box_for st u \<noteq> Some b"
  shows "trace_on b st' = trace_on b st"
proof -
  obtain st1 where f: "fold_exn (emit_event env render fb) evs st = Inr st1" "st' = forget_orders evs st1"
    using e by (auto simp: emit_reports_def bind_exn_Inr)
  have "only_reported st st1 \<and> trace_on b st1 = trace_on b st"
  proof (rule fold_exn_rel [OF f(1), where R = "\<lambda>t. only_reported st t \<and> trace_on b t = trace_on b st"])
    fix ev t t'
    assume ev: "ev \<in> set evs" and t: "only_reported st t \<and> trace_on b t = trace_on b st"
      and p: "emit_event env render fb ev t = Inr t'"
    have "trace_on b t' = trace_on b t"
      by (rule emit_event_trace [OF p]) (use t x no [OF ev] reported_extra reported_reading in auto)
    then show "only_reported st t' \<and> trace_on b t' = trace_on b st"
      using t emit_event_only_reported [OF p] only_reported_trans by auto
  qed simp
  moreover have "nn_trace (forget_orders es t) = nn_trace t" for es t
  proof -
    have "nn_trace (fold forget_order xs t) = nn_trace t" for xs
      by (induction xs arbitrary: t) (simp_all add: forget_order_def)
    then show ?thesis by (simp add: forget_orders_def)
  qed
  ultimately show ?thesis using f(2) by (simp add: trace_on_def)
qed

subsection \<open>What a report looks like\<close>

text \<open>The plain transaction code of the report on an event.\<close>

fun report_code :: "event \<Rightarrow> int option" where
  "report_code (OrderAccepted x cum left qty) = Some X_ORDER_CONFIRMATION"
| "report_code (OrderRejected x reason t) = Some X_ORDER_ERROR"
| "report_code (OrderFilled f) = Some X_TRADE_CONFIRMATION"
| "report_code (OrderCancelled x reason t) = Some X_ORDER_CANCEL_CONFIRMATION"
| "report_code (OrderReplaced x c kept) = Some X_ORDER_MOD_CONFIRMATION"
| "report_code (OrderDecremented x qty reason) = Some X_ORDER_MOD_CONFIRMATION"
| "report_code (CancelRejected c orig reason t x is_replace) = Some (if is_replace then X_ORDER_MOD_REJECT else X_ORDER_CANCEL_REJECT)"
| "report_code (TradeExecuted t) = None"
| "report_code (TradingStateChanged m sy before after) = None"

definition entered_trimmed :: "nse_state \<Rightarrow> event \<Rightarrow> bool" where
  "entered_trimmed st ev \<longleftrightarrow> (case event_order ev of None \<Rightarrow> False | Some x \<Rightarrow> x \<in> set (ns_trimmed st))"

lemma msg_get_other: "t \<notin> fst ` set fs \<Longrightarrow> msg_get (set_fields fs m) t = msg_get m t"
  using map_of_eq_None_iff [of "rev fs" t] by (simp add: msg_get_set_fields)

lemma msg_get_create: "msg_get (msg_create c) t = (if t = TAG_MSG_TYPE then Some c else None)"
  by (simp add: msg_create_def msg_get_def)

lemma tags_of_parts:
  "fst ` set (symbol_fields sy) \<subseteq> {CM_SYMBOL, CM_SERIES, CM_ALPHA_CHAR}"
  "fst ` set (owner_fields st y tag br) \<subseteq> {CM_USER_ID, tag, CM_BROKER_ID, CM_BRANCH_ID}"
  "price_fields env tag p = Inr fs \<Longrightarrow> fst ` set fs \<subseteq> {tag}"
  by (auto simp: symbol_fields_def owner_fields_def price_fields_def bind_exn_Inr split: prod.splits option.splits if_splits)

lemma msg_get_set_flags:
  "t \<in> {TAG_MSG_TYPE, CM_TIMESTAMP1, CM_TIMESTAMP2} \<Longrightarrow> msg_get (set_flags y pre m) t = msg_get m t"
  unfolding set_flags_def by (rule msg_get_other) (auto simp: order_flags_def Let_def)

text \<open>The fields of the session layer are the ones a report leaves alone.\<close>

definition plain_shape :: "nse_state \<Rightarrow> oid option \<Rightarrow> int \<Rightarrow> fix_message \<Rightarrow> bool" where
  "plain_shape st order code m \<longleftrightarrow>
     msg_type_of m = Some (string_of_int (trimmed_code code (case order of None \<Rightarrow> False | Some x \<Rightarrow> x \<in> set (ns_trimmed st)))) \<and>
     msg_get m CM_TIMESTAMP1 = None"

lemma shape_set_fields:
  assumes "plain_shape st order code m" and "fst ` set fs \<inter> {TAG_MSG_TYPE, CM_TIMESTAMP1} = {}"
  shows "plain_shape st order code (set_fields fs m)"
  using assms msg_get_other [of _ fs m] by (auto simp: plain_shape_def msg_type_of_def)

lemma shape_msg_set:
  assumes "plain_shape st order code m" and "t \<noteq> TAG_MSG_TYPE" and "t \<noteq> CM_TIMESTAMP1"
  shows "plain_shape st order code (msg_set t v m)"
  using shape_set_fields [OF assms(1), of "[(t, v)]"] assms(2,3) by simp

lemma shape_set_flags: "plain_shape st order code m \<Longrightarrow> plain_shape st order code (set_flags y pre m)"
  by (simp add: plain_shape_def msg_type_of_def msg_get_set_flags)

lemma shape_text_of: "plain_shape st (Some x) code (text_of (code_for st x code))"
  by (simp add: plain_shape_def text_of_def code_for_def msg_type_of_def msg_get_create)

lemma base_report_shape:
  assumes "base_report env st x code = Inr m"
  shows "plain_shape st (Some x) code m"
proof -
  obtain s ns price where p: "price_fields env CM_PRICE (o_price (order_at st x)) = Inr price"
    and m: "m = set_flags (order_at st x) (in_preopen env st)
          (set_fields
            ([(CM_ERROR_CODE, string_of_int X_NO_ERROR), (CM_LOG_TIME, string_of_int s), (CM_TIMESTAMP, string_of_int ns)] @
             symbol_fields (o_symbol (order_at st x)) @
             [(CM_ORDER_NUMBER, x), (CM_BOOK_TYPE, supported_book),
              (CM_BUY_SELL, or_else_text (side_to_wire (o_side (order_at st x))) ''1''),
              (CM_VOLUME, string_of_int (o_quantity (order_at st x))), (CM_TOTAL_VOL_REMAINING, string_of_int (leaves_qty (order_at st x))),
              (CM_VOLUME_FILLED_TODAY, string_of_int (o_cum_qty (order_at st x)))] @ price @
             [(CM_ACCOUNT_NUMBER, or_else_text (o_account (order_at st x)) []),
              (CM_PRO_CLIENT, or_else_text (capacity_to_wire (o_capacity (order_at st x))) ''1''),
              (CM_ENTRY_DATE_TIME, string_of_int s), (CM_LAST_MODIFIED, string_of_int s),
              (CM_LAST_ACTIVITY_REFERENCE, string_of_int ns)] @
             (case map_of (ns_references st) x of None \<Rightarrow> [] | Some r \<Rightarrow> [(CM_NNF_FIELD, r)]) @
             owner_fields st (order_at st x) CM_TRADER_ID True)
            (text_of (code_for st x code)))"
    using assms unfolding base_report_def Let_def by (auto simp: bind_exn_Inr)
  show ?thesis unfolding m
    by (intro shape_set_flags shape_set_fields shape_text_of)
      (use tags_of_parts(1) [of "o_symbol (order_at st x)"] tags_of_parts(2) [of st "order_at st x" CM_TRADER_ID True]
         tags_of_parts(3) [OF p] in \<open>auto simp: image_Un split: option.splits\<close>)
qed

lemma render_filled_shape:
  assumes "render_filled env st f = Inr m"
  shows "plain_shape st (Some (fe_order f)) X_TRADE_CONFIRMATION m"
proof -
  let ?y = "order_at st (fe_order f)"
  obtain s ns fill price where p: "price_fields env CM_PRICE (o_price ?y) = Inr price"
    and m: "m = msg_set CM_FLAG_TRADED ''Y'' (set_flags ?y (in_preopen env st)
          (set_fields
            ([(CM_ERROR_CODE, string_of_int X_NO_ERROR), (CM_LOG_TIME, string_of_int s), (CM_TIMESTAMP, string_of_int ns)] @
             symbol_fields (o_symbol ?y) @
             [(CM_RESPONSE_ORDER_NUMBER, fe_order f), (CM_BOOK_TYPE, supported_book),
              (CM_BUY_SELL, or_else_text (side_to_wire (o_side ?y)) ''1''),
              (CM_ORIGINAL_VOL, string_of_int (fe_order_qty f)), (CM_REMAINING_VOL, string_of_int (fe_leaves_qty f)),
              (CM_VOLUME_FILLED_TODAY, string_of_int (fe_cum_qty f)), (CM_FILL_QTY, string_of_int (fe_quantity f)),
              (CM_FILL_PRICE, fill)] @
             (if price = [] then [(CM_PRICE, ''0'')] else price) @
             [(CM_FILL_NUMBER, fe_trade_id f), (CM_ACTIVITY_TYPE, activity_trade), (CM_ACTIVITY_TIME, string_of_int s),
              (CM_ACCOUNT_NUMBER, or_else_text (o_account ?y) []),
              (CM_PRO_CLIENT, or_else_text (capacity_to_wire (o_capacity ?y)) ''1''),
              (CM_LAST_ACTIVITY_REFERENCE, string_of_int ns)] @
             owner_fields st ?y CM_TRADER_NUM False)
            (text_of (code_for st (fe_order f) X_TRADE_CONFIRMATION))))"
    using assms unfolding render_filled_def Let_def by (auto simp: bind_exn_Inr)
  show ?thesis unfolding m
    by (intro shape_msg_set shape_set_flags shape_set_fields shape_text_of)
      (use tags_of_parts(1) [of "o_symbol ?y"] tags_of_parts(2) [of st ?y CM_TRADER_NUM False]
         tags_of_parts(3) [OF p] in \<open>auto simp: image_Un\<close>)
qed

lemma render_cancel_rejected_shape:
  assumes "render_cancel_rejected env st x reason is_replace = Inr m"
  shows "plain_shape st x (if is_replace then X_ORDER_MOD_REJECT else X_ORDER_CANCEL_REJECT) m"
proof -
  let ?c = "if is_replace then X_ORDER_MOD_REJECT else X_ORDER_CANCEL_REJECT"
  obtain m0 t where m: "m = msg_set CM_REASON_CODE t (msg_set CM_ERROR_CODE t m0)"
      and b: "(case x of Some y \<Rightarrow> base_report env st y ?c
          | None \<Rightarrow> bind_exn (nse_seconds env) (\<lambda>s. Inr (set_fields [(CM_LOG_TIME, string_of_int s)] (text_of ?c)))) = Inr m0"
    using assms unfolding render_cancel_rejected_def Let_def by (auto simp: bind_exn_Inr)
  have "plain_shape st x ?c m0"
  proof (cases x)
    case None
    with b obtain s where "m0 = msg_set CM_LOG_TIME (string_of_int s) (text_of ?c)" by (auto simp: bind_exn_Inr)
    then show ?thesis unfolding None
      by (simp only:) (rule shape_msg_set, simp_all add: plain_shape_def text_of_def msg_type_of_def msg_get_create trimmed_code_def)
  qed (use b base_report_shape in auto)
  then show ?thesis unfolding m by (intro shape_msg_set) simp_all
qed

lemma nse_render_shape:
  assumes "nse_render env st ev = Inr ms" and "m \<in> set ms"
  obtains c where "report_code ev = Some c" "plain_shape st (event_order ev) c m"
proof -
  have "\<exists>c. report_code ev = Some c \<and> plain_shape st (event_order ev) c m"
  proof (cases ev)
    case (OrderAccepted x cum left qty)
    with assms show ?thesis
      by (auto simp: one_report_def render_accepted_def bind_exn_Inr intro!: shape_msg_set intro: base_report_shape)
  next
    case (OrderRejected x reason t)
    with assms show ?thesis
      by (auto simp: one_report_def render_rejected_def Let_def bind_exn_Inr intro!: shape_msg_set intro: base_report_shape)
  next
    case (OrderFilled f)
    with assms show ?thesis by (auto simp: one_report_def bind_exn_Inr intro: render_filled_shape)
  next
    case (OrderCancelled x reason t)
    with assms show ?thesis
      by (auto simp: one_report_def render_cancelled_def bind_exn_Inr intro!: shape_msg_set intro: base_report_shape)
  next
    case (OrderReplaced x c kept)
    with assms show ?thesis
      by (auto simp: one_report_def render_replaced_def bind_exn_Inr intro!: shape_msg_set intro: base_report_shape)
  next
    case (OrderDecremented x qty reason)
    with assms show ?thesis by (auto simp: one_report_def bind_exn_Inr intro: base_report_shape)
  next
    case (CancelRejected c orig reason t x is_replace)
    with assms have "render_cancel_rejected env st x reason is_replace = Inr m" by (auto simp: one_report_def bind_exn_Inr)
    from render_cancel_rejected_shape [OF this] CancelRejected show ?thesis by simp
  qed (use assms in auto)
  then show thesis using that by blast
qed

end
