(* ===== verification/Nse_Endings.thy ===== *)
theory Nse_Endings
  imports Nse_Reports
begin

section \<open>Ends of sessions, refusals, and what is kept for a download\<close>

subsection \<open>Cancel on disconnect\<close>

lemma all_resting_behaviour [simp]: "all_resting (w\<lparr>ew_behaviour := b\<rparr>) = all_resting w"
  by (simp add: all_resting_def)

lemma cancel_session_keys:
  assumes "cancel_session_orders sk reason t ew = Inr (ew', evs)" and inv: "engine_inv ew"
  shows "o_session_key (ew_heap ew' y) = o_session_key (ew_heap ew y)"
proof -
  have "identity_of (ew_heap ew' y) = identity_of (ew_heap ew y)"
    using cancel_in_markets_result [OF assms(1) [unfolded cancel_session_orders_def] inv session_predicate engine_invD(2) [OF inv]]
    by simp
  then show ?thesis by (simp add: identity_of_def)
qed

text \<open>What ending the sessions of \<open>us\<close> leaves resting.\<close>

definition cancelled_for :: "nse_state \<Rightarrow> int set \<Rightarrow> oid \<Rightarrow> bool" where
  "cancelled_for st us x \<longleftrightarrow> (\<exists>u \<in> us. cancels_on_disconnect st u \<and> o_session_key (order_at st x) = nnf_key u)"

definition ended :: "nse_state \<Rightarrow> int set \<Rightarrow> nse_state \<Rightarrow> bool" where
  "ended st us st' \<longleftrightarrow> engine_inv (ns_world st') \<and> nn_users st' = nn_users st \<and>
     (\<forall>x. o_session_key (order_at st' x) = o_session_key (order_at st x)) \<and>
     all_resting (ns_world st') = {x \<in> all_resting (ns_world st). \<not> cancelled_for st us x}"

lemma ended_none: "engine_inv (ns_world st) \<Longrightarrow> ended st {} st"
  by (simp add: ended_def cancelled_for_def)

lemma ended_trans:
  assumes "ended st us st1" and "ended st1 vs st2"
  shows "ended st (us \<union> vs) st2"
proof -
  have "cancelled_for st1 vs x = cancelled_for st vs x" for x
    using assms(1) by (simp add: ended_def cancelled_for_def cancels_on_disconnect_def)
  moreover have "cancelled_for st (us \<union> vs) x \<longleftrightarrow> cancelled_for st us x \<or> cancelled_for st vs x" for x
    by (auto simp: cancelled_for_def)
  ultimately show ?thesis using assms by (auto simp: ended_def)
qed

lemma ended_cong:
  assumes "ended st us st'" and "ns_world t = ns_world st" "nn_users t = nn_users st"
    and "ns_world t' = ns_world st'" "nn_users t' = nn_users st'"
  shows "ended t us t'"
  using assms by (simp add: ended_def cancelled_for_def cancels_on_disconnect_def order_at_def)

lemma desk_logout_ended:
  assumes r: "desk_logout env render u st = Inr st'" and i: "engine_inv (ns_world st)"
  shows "ended st {u} st'"
proof (cases "cancels_on_disconnect st u")
  case False
  then have "st' = st\<lparr>ns_sessions := AList.delete (nnf_key u) (ns_sessions st)\<rparr>"
    using r by (simp add: desk_logout_def)
  with False i show ?thesis by (simp add: ended_def cancelled_for_def order_at_def)
next
  case True
  let ?s = "st\<lparr>ns_sessions := AList.delete (nnf_key u) (ns_sessions st)\<rparr>"
  obtain ew evs where c: "cancel_session_orders (nnf_key u) CR_CANCEL_ON_DISCONNECT ''cancelled on disconnect'' (ns_world st) = Inr (ew, evs)"
      and e: "emit_reports env render (Some u) evs (?s\<lparr>ns_world := ew\<rparr>) = Inr st'"
    using r True by (auto simp: desk_logout_def Let_def bind_exn_Inr)
  obtain b where w: "ns_world st' = ew\<lparr>ew_behaviour := b\<rparr>" and v: "nn_users st' = nn_users st"
    using emit_only_reported [OF e] by (auto simp: only_reported_def sign_view_def)
  have "cancelled_for st {u} x \<longleftrightarrow> o_session_key (ew_heap (ns_world st) x) = nnf_key u" for x
    using True by (simp add: cancelled_for_def order_at_def)
  then show ?thesis
    using cancel_session_result [OF c i] cancel_session_keys [OF c i] w v by (simp add: ended_def order_at_def)
qed

lemma end_session_ended:
  assumes r: "end_session (desk_logout env render) b u st = Inr st'" and i: "engine_inv (ns_world st)"
    and on: "map_of (bx_users (box_of st b)) u = Some True"
  shows "ended st {u} st'"
proof -
  let ?x = "(box_of st b)\<lparr>bx_users := AList.update u False (bx_users (box_of st b))\<rparr>"
  let ?s = "(put_box b ?x st)\<lparr>nn_live := removeAll u (nn_live st)\<rparr>"
  have "desk_logout env render u ?s = Inr st'" using r on by (simp add: end_session_def Let_def)
  moreover have w: "ns_world ?s = ns_world st" "nn_users ?s = nn_users st" by (simp_all add: put_box_def)
  ultimately have "ended ?s {u} st'" using desk_logout_ended i by metis
  then show ?thesis by (rule ended_cong) (simp_all only: w)
qed

lemma end_sessions_ended:
  assumes "fold_exn (end_session (desk_logout env render) b) us st = Inr st'" and "engine_inv (ns_world st)"
    and "distinct us" and "\<And>u. u \<in> set us \<Longrightarrow> map_of (bx_users (box_of st b)) u = Some True"
  shows "ended st (set us) st'"
  using assms
proof (induction us arbitrary: st)
  case Nil
  then show ?case using ended_none by simp
next
  case (Cons u us)
  then obtain st1 where e: "end_session (desk_logout env render) b u st = Inr st1"
      "fold_exn (end_session (desk_logout env render) b) us st1 = Inr st'"
    by (auto split: sum.splits)
  have on: "map_of (bx_users (box_of st b)) u = Some True" using Cons.prems(4) by simp
  have "map_of (bx_users (box_of st1 b)) v = Some True" if "v \<in> set us" for v
    using Cons.prems(3,4) that nse_desk.end_session_effect(1) [OF e(1) on, of b] by (auto simp: map_of_update_eq)
  moreover note end_session_ended [OF e(1) Cons.prems(2) on]
  ultimately show ?case using Cons.IH [OF e(2)] Cons.prems(3) ended_trans [of st "{u}" st1 "set us" st'] by (simp add: ended_def)
qed

text \<open>A box that is lost: every user of it is signed off, and their orders go as configured.\<close>

lemma drop_box_ended:
  assumes r: "box_disconnect (desk_logout env render) desk_detached b st = Inr st'" and g: "nse_good st"
    and c: "bx_connected (box_of st b)"
  shows "ended st (fst ` set (bx_users (box_of st b))) st'" and "bx_users (box_of st' b) = []"
proof -
  let ?x = "(box_of st b)\<lparr>bx_connected := False, bx_state := BoxDisconnected, bx_cipher := PlainCipher\<rparr>"
  let ?s = "put_box b ?x st" and ?us = "map fst (bx_users (box_of st b))"
  obtain st1 where d: "box_detach (desk_logout env render) desk_detached b st = Inr st1" and st': "st' = happened b BoxClosed st1"
    using r c by (auto simp: box_disconnect_def bind_exn_Inr)
  obtain st2 where f: "fold_exn (end_session (desk_logout env render) b) ?us ?s = Inr st2"
      and l: "desk_detached b (put_box b ((box_of st2 b)\<lparr>bx_users := []\<rparr>) st2) = Inr st1"
    using d c by (auto simp: box_detach_def Let_def bind_exn_Inr)
  have w: "ns_world ?s = ns_world st" "nn_users ?s = nn_users st" by (simp_all add: put_box_def)
  have a: "agree (\<lambda>b. bx_users (box_of st b)) (nn_live st) (nn_users st)"
    using g by (simp add: nse_good_def net_ok_def sign_view_def)
  have on: "map_of (bx_users (box_of ?s b)) u = Some True" if "u \<in> set ?us" for u
    using that agreeD(3) [OF a, of b u] by (cases "map_of (bx_users (box_of st b)) u") (auto simp: map_of_eq_None_iff)
  have "ended ?s (set ?us) st2"
    by (rule end_sessions_ended [OF f _ agreeD(1) [OF a, of b] on]) (use good_engine [OF g] w in simp)
  moreover have "ns_world st' = ns_world st2" "nn_users st' = nn_users st2"
    using l st' by (auto simp: desk_detached_def put_box_def happened_def)
  ultimately show "ended st (fst ` set (bx_users (box_of st b))) st'" using ended_cong w by fastforce
  show "bx_users (box_of st' b) = []"
    using nse_desk.detach_good [OF d] g c unfolding nse_good_eq st' by (simp add: box_of_def happened_def)
qed

subsection \<open>The two encodings enter alike\<close>

definition same_request :: "fix_message \<Rightarrow> fix_message \<Rightarrow> bool" where
  "same_request m m' \<longleftrightarrow> (\<forall>t. t \<noteq> TAG_MSG_TYPE \<longrightarrow> msg_get m' t = msg_get m t)"

lemma same_requestD: "same_request m m' \<Longrightarrow> t \<noteq> TAG_MSG_TYPE \<Longrightarrow> msg_get m' t = msg_get m t"
  by (simp add: same_request_def)

lemma same_request_reads:
  assumes "same_request m m'"
  shows "message_symbol env m' = message_symbol env m" "unsupported_flow env m' = unsupported_flow env m"
    "price_field env m' CM_PRICE = price_field env m CM_PRICE" "quantity_field m' CM_VOLUME = quantity_field m CM_VOLUME"
    "order_number m' = order_number m" "nse_order_request env u m' sy p = nse_order_request env u m sy p"
proof -
  have i: "msg_get_int m' t = msg_get_int m t" if "t \<noteq> TAG_MSG_TYPE" for t
    using same_requestD [OF assms that] by (simp add: msg_get_int_def)
  note d = same_requestD [OF assms]
  have "find (\<lambda>(tag, code). msg_get m' tag = Some ''Y'') unsupported_attributes =
      find (\<lambda>(tag, code). msg_get m tag = Some ''Y'') unsupported_attributes"
    by (simp add: unsupported_attributes_def d)
  moreover have "msg_get m' CM_BOOK_TYPE = msg_get m CM_BOOK_TYPE" "get_int_or m' CM_DISCLOSED_VOL 0 = get_int_or m CM_DISCLOSED_VOL 0"
    "price_field env m' CM_TRIGGER_PRICE = price_field env m CM_TRIGGER_PRICE"
    by (simp_all add: d i get_int_or_def price_field_def)
  ultimately show "unsupported_flow env m' = unsupported_flow env m" by (simp only: unsupported_flow_def)
  show "message_symbol env m' = message_symbol env m" "price_field env m' CM_PRICE = price_field env m CM_PRICE"
    "quantity_field m' CM_VOLUME = quantity_field m CM_VOLUME" "order_number m' = order_number m"
    "nse_order_request env u m' sy p = nse_order_request env u m sy p"
    by (simp_all add: message_symbol_def price_field_def quantity_field_def order_number_def nse_order_request_def
        get_int_or_def nse_order_type_def nse_time_in_force_def d i)
qed

text \<open>The engine after a request, whatever its reports did to injected rules.\<close>

definition engine_view :: "nse_state \<Rightarrow> eworld" where
  "engine_view st = (ns_world st)\<lparr>ew_behaviour := empty_behaviour\<rparr>"

lemma reported_view: "only_reported st st' \<Longrightarrow> engine_view st' = engine_view st"
  by (auto simp: only_reported_def engine_view_def)

lemma reject_view: "reject_change env u m code error st = Inr st' \<Longrightarrow> engine_view st' = engine_view st"
  by (auto simp: reject_change_def bind_exn_Inr intro: reported_view user_send_reports)

lemma answer_view:
  assumes "answer_request env u m (ew, evs) st = Inr st'"
  shows "engine_view st' = ew\<lparr>ew_behaviour := empty_behaviour\<rparr>"
proof -
  have "only_reported (st\<lparr>ns_world := ew\<rparr>) st'"
    using assms only_reported_trans [OF remember_only_reported emit_only_reported]
    by (simp add: answer_request_def nse_remember_def)
  from reported_view [OF this] show ?thesis by (simp add: engine_view_def)
qed

lemma on_new_order_alike:
  assumes "on_new_order env u m st = Inr st1" and "on_new_order env u m' st = Inr st2" and "same_request m m'"
  shows "engine_view st2 = engine_view st1"
proof (cases "message_symbol env m")
  case None
  with assms show ?thesis by (auto simp: on_new_order_def order_error_def same_request_reads(1) dest!: reject_view)
next
  case (Some sy)
  obtain e where e: "unsupported_flow env m = Inr e" using assms(1) Some by (auto simp: on_new_order_def bind_exn_Inr)
  show ?thesis
  proof (cases e)
    case None
    show ?thesis
    proof (cases "price_field env m CM_PRICE")
      case (Inl x)
      with assms Some e None show ?thesis
        by (auto simp: on_new_order_def order_error_def same_request_reads bind_exn_Inr dest!: reject_view split: if_splits)
    next
      case (Inr p)
      with assms Some e None show ?thesis
        by (auto simp: on_new_order_def same_request_reads bind_exn_Inr dest!: answer_view)
    qed
  qed (use assms Some e in \<open>auto simp: on_new_order_def order_error_def same_request_reads bind_exn_Inr dest!: reject_view\<close>)
qed

lemma on_modify_alike:
  assumes "on_modify env u m st = Inr st1" and "on_modify env u m' st = Inr st2" and "same_request m m'"
  shows "engine_view st2 = engine_view st1"
proof (cases "price_field env m CM_PRICE")
  case (Inl x)
  with assms show ?thesis by (auto simp: on_modify_def same_request_reads dest!: reject_view split: if_splits)
next
  case (Inr p)
  obtain e where e: "unsupported_flow env m = Inr e" using assms(1) Inr by (auto simp: on_modify_def bind_exn_Inr)
  show ?thesis
  proof (cases e)
    case None
    with assms Inr e show ?thesis by (auto simp: on_modify_def same_request_reads bind_exn_Inr dest!: answer_view)
  qed (use assms Inr e in \<open>auto simp: on_modify_def same_request_reads bind_exn_Inr dest!: reject_view\<close>)
qed

lemma on_cancel_alike:
  assumes "on_cancel env u m st = Inr st1" and "on_cancel env u m' st = Inr st2" and "same_request m m'"
  shows "engine_view st2 = engine_view st1"
  using assms by (auto simp: on_cancel_def same_request_reads bind_exn_Inr dest!: answer_view)

subsection \<open>Filing\<close>

text \<open>How the venue sets the session layer up (\<open>NseVenue._build_sessions\<close>).\<close>

definition nse_sessions_of :: "nse_venue \<Rightarrow> bool" where
  "nse_sessions_of env \<longleftrightarrow>
     ne_timestamp1_tag (nv_net env) = Some CM_TIMESTAMP1 \<and> ne_timestamp2_tag (nv_net env) = Some CM_TIMESTAMP2 \<and>
     ne_user_id_tag (nv_net env) = Some CM_USER_ID \<and> ne_recoverable (nv_net env) = is_recoverable \<and>
     ne_normalise (nv_net env) = untrimmed"

lemma msg_get_absent: "msg_get (set_absent (Some tag) v m) t = (if t = tag \<and> msg_get m t = None then Some v else msg_get m t)"
  by (auto simp: set_absent_def msg_get_set)

text \<open>A message as it is stored: what the session layer adds are the three fields it owns.\<close>

definition stamped :: "fix_message \<Rightarrow> fix_message \<Rightarrow> bool" where
  "stamped m m' \<longleftrightarrow> (\<forall>t. t \<notin> {CM_TIMESTAMP1, CM_TIMESTAMP2, CM_USER_ID} \<longrightarrow> msg_get m' t = msg_get m t)"

lemma retain_files:
  assumes env: "nse_sessions_of env" and r: "nnf_retain (nv_net env) u m st = Inr (m', st')" and s: "nn_store st = Some s"
  obtains q s0 where "stamped m m'" "nn_store st' = Some (snd (store_record is_recoverable untrimmed u q m' s0))"
    "records_of s0 = records_of s" "ms_capacity s0 = ms_capacity s" "msg_get m' CM_TIMESTAMP1 \<noteq> None"
    "case msg_get m CM_TIMESTAMP1 of None \<Rightarrow> q > ms_last s | Some v \<Rightarrow> int_of_str v = Some q"
  | v where "msg_get m CM_TIMESTAMP1 = Some v" "int_of_str v = None" "nn_store st' = nn_store st"
proof -
  let ?m = "set_absent (Some CM_TIMESTAMP2) (string_of_int (ne_machine_number (nv_net env)))
    (set_absent (Some CM_USER_ID) (string_of_int u) m)"
  have g: "msg_get ?m CM_TIMESTAMP1 = msg_get m CM_TIMESTAMP1" by (simp add: msg_get_absent)
  have sm: "stamped m ?m" by (simp add: stamped_def msg_get_absent)
  obtain q st1 where st: "nnf_stamp (nv_net env) (set_absent (Some CM_USER_ID) (string_of_int u) m) st = Inr (q, m', st1)"
      and e: "st' = (case (nn_store st1, q) of
          (Some s, Some i) \<Rightarrow> st1\<lparr>nn_store := Some (snd (store_record is_recoverable untrimmed u i m' s))\<rparr>
        | _ \<Rightarrow> st1)"
  proof -
    have f: "ne_user_id_tag (nv_net env) = Some CM_USER_ID" "ne_recoverable (nv_net env) = is_recoverable"
        "ne_normalise (nv_net env) = untrimmed"
      using env by (simp_all add: nse_sessions_of_def)
    show thesis using r that unfolding nnf_retain_def f by (auto simp: bind_exn_Inr)
  qed
  show thesis
  proof (cases "msg_get m CM_TIMESTAMP1")
    case (Some v)
    then have x: "m' = ?m" "st1 = st" "q = int_of_str v"
      using st env g by (auto simp: nnf_stamp_def Let_def nse_sessions_of_def)
    show thesis
    proof (cases "int_of_str v")
      case None
      with x e s have "nn_store st' = nn_store st" by simp
      with None Some that(2) show thesis by blast
    next
      case (Some i)
      with x e s have "nn_store st' = Some (snd (store_record is_recoverable untrimmed u i m' s))" by simp
      with Some \<open>msg_get m CM_TIMESTAMP1 = Some v\<close> x sm g show thesis by (intro that(1) [of i s]) auto
    qed
  next
    case None
    then obtain seconds i s1 where x: "store_sequence seconds s = Inr (i, s1)" "m' = msg_set CM_TIMESTAMP1 (string_of_int i) ?m"
        "st1 = st\<lparr>nn_store := Some s1\<rparr>" "q = Some i"
      using st env g s by (auto simp: nnf_stamp_def Let_def nse_sessions_of_def bind_exn_Inr)
    have s1: "ms_last s < i" "s1 = s\<lparr>ms_last := i\<rparr>" using store_sequence_rises [OF x(1)] by auto
    have "nn_store st' = Some (snd (store_record is_recoverable untrimmed u i m' s1))" using e x by simp
    moreover have "stamped m m'" using sm by (simp add: x(2) stamped_def msg_get_set)
    ultimately show thesis using s1 None x(2) by (intro that(1) [of i s1]) (auto simp: records_of_def msg_get_set)
  qed
qed

lemma box_send_store:
  assumes env: "nse_sessions_of env" and r: "box_send (nv_net env) b m st = Inr st'" and t: "msg_get m CM_TIMESTAMP1 \<noteq> None"
  shows "nn_store st' = nn_store st"
proof (cases "bx_connected (box_of st b)")
  case True
  obtain q m1 st1 where s: "nnf_stamp (nv_net env) m st = Inr (q, m1, st1)" using r True by (auto simp: box_send_def bind_exn_Inr)
  obtain c m2 e where n: "nnf_encode (box_codec (nv_net env) (box_of st1 b)) m1 = (c, m2, e)" by (metis prod_cases3)
  have "st1 = st" using s env t by (auto simp: nnf_stamp_def Let_def nse_sessions_of_def msg_get_absent)
  then show ?thesis using r True s n by (auto simp: box_send_def Let_def happened_def split: sum.splits if_splits)
qed (use r in \<open>simp add: box_send_def\<close>)

text \<open>Filing always keeps the newest record, and takes nothing else in.\<close>

lemma store_record_keeps:
  assumes "store_record recoverable normalise u q m s = (f, s')" and "recoverable (msg_type_of m)" and "1 \<le> ms_capacity s"
  shows "(q, normalise m) \<in> set (records_of s' u)" and "set (records_of s' u) \<subseteq> insert (q, normalise m) (set (records_of s u))"
proof -
  let ?rs = "records_of s u @ [(q, normalise m)]"
  let ?k = "if int (length ?rs) > ms_capacity s then drop (nat (int (length ?rs) - ms_capacity s)) ?rs else ?rs"
  have s': "records_of s' u = ?k" using assms(1,2) by (auto simp: store_record_def Let_def records_of_update)
  have "nat (int (length ?rs) - ms_capacity s) \<le> length (records_of s u)" using assms(3) by simp
  then have "(q, normalise m) \<in> set ?k" by simp
  then show "(q, normalise m) \<in> set (records_of s' u)" using s' by simp
  have "set ?k \<subseteq> set ?rs" using set_drop_subset by (auto dest: in_set_dropD)
  then show "set (records_of s' u) \<subseteq> insert (q, normalise m) (set (records_of s u))" using s' by auto
qed

lemma msg_get_untrimmed: "t \<noteq> TAG_MSG_TYPE \<Longrightarrow> msg_get (untrimmed m) t = msg_get m t"
  by (simp add: untrimmed_def msg_get_set split: option.split)

lemma trimmed_code_recoverable:
  assumes "c \<in> {X_ORDER_CONFIRMATION, X_ORDER_ERROR, X_TRADE_CONFIRMATION, X_ORDER_CANCEL_CONFIRMATION, X_ORDER_MOD_CONFIRMATION,
    X_ORDER_MOD_REJECT, X_ORDER_CANCEL_REJECT}"
  shows "is_recoverable (Some (string_of_int (trimmed_code c t)))"
proof -
  have "trimmed_code c t \<notin> {X_HEADER_RECORD, X_MESSAGE_RECORD, X_TRAILER_RECORD, X_SYSTEM_INFORMATION_OUT}"
    using assms by (cases t) (auto simp: trimmed_code_def trimmed_responses_def)
  then show ?thesis by (auto simp: is_recoverable_def not_recoverable_def)
qed

lemma report_code_known:
  "report_code ev = Some c \<Longrightarrow> c \<in> {X_ORDER_CONFIRMATION, X_ORDER_ERROR, X_TRADE_CONFIRMATION, X_ORDER_CANCEL_CONFIRMATION,
    X_ORDER_MOD_CONFIRMATION, X_ORDER_MOD_REJECT, X_ORDER_CANCEL_REJECT}"
  by (cases ev) (auto split: if_splits)

lemma report_recoverable:
  assumes "report_code ev = Some c" and "plain_shape st (event_order ev) c m" and "stamped m m'"
  shows "is_recoverable (msg_type_of m')"
proof -
  have "msg_type_of m' = msg_type_of m" using assms(3) by (simp add: stamped_def msg_type_of_def)
  then show ?thesis using assms(2) trimmed_code_recoverable [OF report_code_known [OF assms(1)]] by (simp add: plain_shape_def)
qed

subsection \<open>A report for somebody who is away\<close>

lemma absent_report_filed:
  assumes env: "nse_sessions_of env" and e: "emit_event env (nse_render env) fb ev st = Inr st'"
    and ev: "event_order ev = Some x" "o_session_key (order_at st x) = nnf_key u" "map_of (ns_sessions st) (nnf_key u) = None"
    and one: "nse_render env st ev = Inr [m]" and s: "nn_store st = Some s" "1 \<le> ms_capacity s"
  shows "nn_trace st' = nn_trace st"
    and "\<exists>s' q m'. nn_store st' = Some s' \<and> ms_last s < q \<and> stamped m m' \<and> (q, untrimmed m') \<in> set (records_of s' u)"
proof -
  have k: "is_nnf_key (nnf_key u)" "int_of_str (nnf_key u ! 1) = Some u" "length (nnf_key u) = 2"
    by (simp_all add: is_nnf_key_def nnf_key_def)
  then have "report_target st ev fb = None" using ev by (simp add: report_target_def)
  then obtain m1 where r: "nnf_retain (nv_net env) u m st = Inr (m1, st')"
    using e one ev k by (auto simp: emit_event_def pass_report_def file_report_def Let_def bind_exn_Inr split: sum.splits)
  show "nn_trace st' = nn_trace st" by (rule retain_trace [OF r])
  obtain c where c: "report_code ev = Some c" "plain_shape st (event_order ev) c m" using nse_render_shape [OF one] by auto
  then have n: "msg_get m CM_TIMESTAMP1 = None" by (simp add: plain_shape_def)
  show "\<exists>s' q m'. nn_store st' = Some s' \<and> ms_last s < q \<and> stamped m m' \<and> (q, untrimmed m') \<in> set (records_of s' u)"
  proof (rule retain_files [OF env r s(1)])
    fix q s0
    assume a: "stamped m m1" "nn_store st' = Some (snd (store_record is_recoverable untrimmed u q m1 s0))"
      "ms_capacity s0 = ms_capacity s" "case msg_get m CM_TIMESTAMP1 of None \<Rightarrow> q > ms_last s | Some v \<Rightarrow> int_of_str v = Some q"
    obtain f s1 where f: "store_record is_recoverable untrimmed u q m1 s0 = (f, s1)" by fastforce
    have "(q, untrimmed m1) \<in> set (records_of s1 u)"
      by (rule store_record_keeps(1) [OF f report_recoverable [OF c a(1)]]) (use a(3) s(2) in simp)
    with a f n show ?thesis by auto
  qed (use n in simp)
qed

subsection \<open>A refusal is filed under the client's own cursor\<close>

lemma msg_get_copied:
  assumes "distinct (map fst m)" and "msg_get m t = Some v" and "t \<noteq> CM_MESSAGE_LENGTH"
  shows "msg_get (set_fields (filter (\<lambda>f. fst f \<noteq> CM_MESSAGE_LENGTH) m) n) t = Some v"
proof -
  have "(t, v) \<in> set (rev (filter (\<lambda>f. fst f \<noteq> CM_MESSAGE_LENGTH) m))" using assms(2,3) map_of_SomeD by (fastforce simp: msg_get_def)
  moreover have "distinct (map fst (rev (filter (\<lambda>f. fst f \<noteq> CM_MESSAGE_LENGTH) m)))"
    using assms(1) by (simp add: rev_map [symmetric] distinct_map_filter)
  ultimately have "map_of (rev (filter (\<lambda>f. fst f \<noteq> CM_MESSAGE_LENGTH) m)) t = Some v" by (rule map_of_is_SomeI [rotated])
  then show ?thesis by (simp add: msg_get_set_fields)
qed

lemma refusal_filed:
  assumes env: "nse_sessions_of env" and r: "order_error env u m error st = Inr st'"
    and s: "nn_store st = Some s" "1 \<le> ms_capacity s" and known: "map_of (nn_users st) u \<noteq> None"
    and ts: "msg_get m CM_TIMESTAMP1 = Some v" "int_of_str v = Some t" and d: "distinct (map fst m)"
  obtains s' m' where "nn_store st' = Some s'" "(t, m') \<in> set (records_of s' u)"
    "msg_get m' CM_ERROR_CODE = Some (string_of_int error)" "set (records_of s' u) \<subseteq> insert (t, m') (set (records_of s u))"
proof -
  let ?c = "trimmed_code X_ORDER_ERROR (plain_code m \<noteq> None)"
  let ?copy = "set_fields (filter (\<lambda>f. fst f \<noteq> CM_MESSAGE_LENGTH) m) (text_of ?c)"
  let ?reply = "\<lambda>i. set_fields [(TAG_MSG_TYPE, string_of_int ?c), (CM_ERROR_CODE, string_of_int error),
               (CM_REASON_CODE, string_of_int error), (CM_USER_ID, string_of_int u), (CM_LOG_TIME, string_of_int i)] ?copy"
  obtain i where send: "user_send (nv_net env) u (?reply i) st = Inr st'"
    using r by (auto simp: order_error_def reject_change_def refusal_message_def Let_def bind_exn_Inr simp del: set_fields_simps)
  let ?m = "name_recipient (nv_net env) u (?reply i)"
  have f: "msg_get ?m CM_TIMESTAMP1 = Some v" "msg_get ?m CM_ERROR_CODE = Some (string_of_int error)" "msg_type_of ?m = Some (string_of_int ?c)"
    using env msg_get_copied [OF d ts(1)]
    by (simp_all add: name_recipient_def nse_sessions_of_def msg_get_absent msg_get_set msg_type_of_def)
  obtain b where b: "box_for st u = Some b" using known by (auto simp: box_for_def)
  obtain m1 st1 where rt: "nnf_retain (nv_net env) u ?m st = Inr (m1, st1)" and bs: "box_send (nv_net env) b m1 st1 = Inr st'"
    using send b by (auto simp: user_send_def bind_exn_Inr)
  show thesis
  proof (rule retain_files [OF env rt s(1)])
    fix q s0
    assume a: "stamped ?m m1" "nn_store st1 = Some (snd (store_record is_recoverable untrimmed u q m1 s0))"
      "records_of s0 = records_of s" "ms_capacity s0 = ms_capacity s" "msg_get m1 CM_TIMESTAMP1 \<noteq> None"
      "case msg_get ?m CM_TIMESTAMP1 of None \<Rightarrow> q > ms_last s | Some v \<Rightarrow> int_of_str v = Some q"
    have q: "q = t" using a(6) f(1) ts(2) by simp
    obtain g s1 where g: "store_record is_recoverable untrimmed u q m1 s0 = (g, s1)" by fastforce
    have "msg_type_of m1 = Some (string_of_int ?c)" using a(1) f(3) by (simp add: stamped_def msg_type_of_def)
    then have rec: "is_recoverable (msg_type_of m1)" using trimmed_code_recoverable [of X_ORDER_ERROR] by simp
    have "msg_get (untrimmed m1) CM_ERROR_CODE = Some (string_of_int error)"
      using a(1) f(2) by (simp add: msg_get_untrimmed stamped_def)
    moreover have "nn_store st' = Some s1" using box_send_store [OF env bs a(5)] a(2) g by simp
    ultimately show thesis using store_record_keeps [OF g rec] a(3,4) s(2) q by (intro that) auto
  qed (use f(1) ts in simp)
qed

end
