(* ===== verification/Nse_Claims.thy ===== *)
theory Nse_Claims
  imports Nse_Endings Venue_Claims
begin

section \<open>Properties of the equity gateway\<close>

subsection \<open>A venue with two members on two boxes\<close>

text \<open>
  User 7 is on box 1 and wants their orders cancelled when they are gone, user 8 is on box 2.
  The venue has no layouts, so nothing can be put on the wire; what is filed and what happens
  in the engine does not depend on that.
\<close>

definition desk_net :: nnf_env where
  "desk_net = \<lparr>ne_dictionary = make_dictionary [] [] [] [], ne_layouts = \<lparr>nd_header = \<lparr>hl_size = 40, hl_fields = [], hl_code = Nnf_Layout.make_field TAG_MSG_TYPE ''TransactionCode'' (NSigned 2) 0 None False, hl_length_tag = None\<rparr>,
       nd_layouts = []\<rparr>, ne_heartbeat_ns = 30000000000, ne_drop_limit = 10,
     ne_user_id_tag = Some CM_USER_ID, ne_box_id_tag = Some CM_BOX_ID, ne_heartbeat_code = X_HEARTBEAT,
     ne_timestamp1_tag = Some CM_TIMESTAMP1, ne_timestamp2_tag = Some CM_TIMESTAMP2, ne_machine_number = 1,
     ne_recoverable = is_recoverable, ne_normalise = untrimmed, ne_seconds = 315532802, ne_microsecond = 500000, ne_monotonic = 0\<rparr>"

definition desk_engine :: engine where
  "desk_engine = \<lparr>en_instruments = [(''INFY-EQ'', make_instrument ''INFY-EQ'' ''I'' 1 0 (Some 10000) None None
       (Some \<lparr>tt_bounds = [0], tt_ticks = [[(None, 5)]], tt_name = ''N''\<rparr>) True False)],
     en_validator = \<lparr>va_codec = \<lparr>pc_decimals = 2\<rparr>, va_limits = nse_limits None None\<rparr>, en_now = Some 7\<rparr>"

definition desk_venue :: nse_venue where
  "desk_venue = \<lparr>nv_net = desk_net, nv_engine = desk_engine, nv_codec = \<lparr>pc_decimals = 2\<rparr>, nv_market = ''N'', nv_stream = 1,
     nv_ticks = \<lparr>tt_bounds = [0], tt_ticks = [[(None, 5)]], tt_name = ''N''\<rparr>, nv_boxes = [(1, [''B7'']), (2, [''B8''])],
     nv_encrypted = False\<rparr>"

definition desk_user :: "int \<Rightarrow> int \<Rightarrow> string \<Rightarrow> bool \<Rightarrow> nnf_user" where
  "desk_user u b broker cod = \<lparr>nu_user_id = u, nu_box_id = b, nu_broker_id = broker, nu_branch_id = 1, nu_password = None,
     nu_user_type = None, nu_markets = [''N''], nu_cancel_on_disconnect = cod, nu_trader_name = None, nu_broker_name = None\<rparr>"

definition desk_state :: nse_state where
  "desk_state = \<lparr>nn_boxes = [(1, new_box\<lparr>bx_state := BoxActive, bx_connected := True, bx_users := [(7, True)]\<rparr>),
       (2, new_box\<lparr>bx_state := BoxActive, bx_connected := True, bx_users := [(8, True)]\<rparr>)],
     nn_users = [(7, desk_user 7 1 ''B7'' True), (8, desk_user 8 2 ''B8'' False)], nn_live = [7, 8],
     nn_store = Some (make_store 100), nn_trace = [],
     ns_world = quiet_venue\<lparr>ew_markets := [(''N'', new_market ''N'' \<lparr>pc_decimals = 2\<rparr> STP_NONE OPEN True 5 False [] (Some 7))]\<rparr>,
     ns_sessions = [(nnf_key 7, 7), (nnf_key 8, 8)], ns_references = [], ns_trimmed = [], ns_issued = [], ns_delayed = [],
     ns_locked = False\<rparr>"

text \<open>One order of user 7 in the store, and the same venue before anybody has connected.\<close>

definition desk_heap :: heap where
  "desk_heap = sample_heap(''x'' := (sample_heap ''x'')\<lparr>o_session_key := nnf_key 7, o_symbol := ''INFY-EQ'', o_market := Some ''N''\<rparr>)"

definition desk_held :: nse_state where
  "desk_held = desk_state\<lparr>ns_world := (ns_world desk_state)\<lparr>ew_heap := desk_heap\<rparr>\<rparr>"

definition desk_start :: nse_state where
  "desk_start = desk_state\<lparr>nn_boxes := [(1, new_box), (2, new_box)], nn_live := [], ns_sessions := []\<rparr>"

definition desk_request :: "int \<Rightarrow> new_order_request" where
  "desk_request u = nse_order_request desk_venue u [(CM_BUY_SELL, ''1''), (CM_VOLUME, ''10'')] ''INFY-EQ'' (Some 10)"

lemma desk_world_inv: "engine_inv (ns_world desk_state)" "engine_inv (ns_world desk_held)"
  by (rule empty_engine_inv; simp add: desk_held_def desk_state_def quiet_venue_def new_market_def)+

lemma desk_boxes:
  "box_of desk_state b = (if b = 1 then new_box\<lparr>bx_state := BoxActive, bx_connected := True, bx_users := [(7, True)]\<rparr>
     else if b = 2 then new_box\<lparr>bx_state := BoxActive, bx_connected := True, bx_users := [(8, True)]\<rparr> else new_box)"
  by (simp add: box_of_def desk_state_def)

lemma desk_good: "nse_good desk_state" "nse_good desk_held"
proof -
  have "agree (\<lambda>b. bx_users (box_of desk_state b)) [7, 8] [(7, desk_user 7 1 ''B7'' True), (8, desk_user 8 2 ''B8'' False)]"
  proof (rule agreeI)
    fix u
    show "u \<in> set [7, 8] \<longleftrightarrow> (\<exists>b. map_of (bx_users (box_of desk_state b)) u \<noteq> None)"
      by (auto simp: desk_boxes new_box_def split: if_splits intro!: exI [of _ "if u = 7 then 1 else 2 :: int"])
  qed (auto simp: desk_boxes new_box_def desk_user_def split: if_splits)
  then have "net_ok desk_state" by (simp add: net_ok_def sign_view_def) (simp add: desk_state_def)
  then show "nse_good desk_state"
    using desk_world_inv(1) by (auto simp: nse_good_def nse_extra_def nse_table_def keyed_def) (auto simp: desk_state_def split: if_splits)
  then show "nse_good desk_held" unfolding desk_held_def by (rule good_world) (use desk_world_inv(2) in \<open>simp add: desk_held_def\<close>)
qed

lemma desk_sessions: "nse_sessions_of desk_venue"
  by (simp add: nse_sessions_of_def desk_venue_def desk_net_def)

text \<open>Reporting at this venue never raises while prices can be written.\<close>

definition writable :: "oid set \<Rightarrow> nse_state \<Rightarrow> bool" where
  "writable X st \<longleftrightarrow> (\<forall>x \<in> X. \<forall>p. o_price (order_at st x) = Some p \<longrightarrow> \<bar>p\<bar> < 10 ^ context_prec) \<and> nn_store st \<noteq> None"

definition writable_event :: "oid set \<Rightarrow> event \<Rightarrow> bool" where
  "writable_event X ev \<longleftrightarrow> (\<forall>x. event_order ev = Some x \<longrightarrow> x \<in> X) \<and> (case ev of OrderFilled f \<Rightarrow> \<bar>fe_price f\<bar> < 10 ^ context_prec | _ \<Rightarrow> True)"

lemma desk_clock:
  "\<exists>x j. epoch_seconds (ne_seconds (nv_net desk_venue)) (ne_microsecond (nv_net desk_venue)) = Inr x \<and> to_nse_jiffies x = Inr j"
  "\<exists>s. nse_seconds desk_venue = Inr s" "\<exists>n. nse_nanoseconds desk_venue = Inr n"
proof -
  have "(case epoch_seconds (ne_seconds (nv_net desk_venue)) (ne_microsecond (nv_net desk_venue)) of Inl _ \<Rightarrow> False
      | Inr x \<Rightarrow> (case to_nse_jiffies x of Inl _ \<Rightarrow> False | Inr _ \<Rightarrow> True))" by code_simp
  then show "\<exists>x j. epoch_seconds (ne_seconds (nv_net desk_venue)) (ne_microsecond (nv_net desk_venue)) = Inr x \<and> to_nse_jiffies x = Inr j"
    by (auto split: sum.splits)
  have "(case nse_seconds desk_venue of Inl _ \<Rightarrow> False | Inr _ \<Rightarrow> True)" "(case nse_nanoseconds desk_venue of Inl _ \<Rightarrow> False | Inr _ \<Rightarrow> True)"
    by code_simp+
  then show "\<exists>s. nse_seconds desk_venue = Inr s" "\<exists>n. nse_nanoseconds desk_venue = Inr n" by (auto split: sum.splits)
qed

lemma desk_price_fields:
  assumes "writable X st" and "x \<in> X"
  shows "\<exists>fs. price_fields desk_venue tag (o_price (order_at st x)) = Inr fs"
proof (cases "o_price (order_at st x)")
  case (Some p)
  then obtain t where "format_price (nv_codec desk_venue) p = Inr t"
    using assms format_defined unfolding writable_def by blast
  with Some show ?thesis by (simp add: price_fields_def)
qed (simp add: price_fields_def)

lemma desk_base_report: "writable X st \<Longrightarrow> x \<in> X \<Longrightarrow> \<exists>m. base_report desk_venue st x code = Inr m"
  using desk_clock(2,3) desk_price_fields [of X st x CM_PRICE] by (auto simp: base_report_def Let_def)

lemma desk_render:
  assumes w: "writable X st" and ev: "writable_event X ev"
  shows "\<exists>ms. nse_render desk_venue st ev = Inr ms"
proof -
  have b: "\<exists>m. base_report desk_venue st x code = Inr m" if "event_order ev = Some x" for x code
    using desk_base_report [OF w] ev that by (simp add: writable_event_def)
  show ?thesis
  proof (cases ev)
    case (OrderFilled f)
    then obtain t where "format_price (nv_codec desk_venue) (fe_price f) = Inr t"
      using ev format_defined unfolding writable_event_def by auto
    moreover have "fe_order f \<in> X" using ev OrderFilled by (simp add: writable_event_def)
    moreover from this obtain fs where "price_fields desk_venue CM_PRICE (o_price (order_at st (fe_order f))) = Inr fs"
      using desk_price_fields [OF w] by blast
    moreover obtain i j where "nse_seconds desk_venue = Inr i" "nse_nanoseconds desk_venue = Inr j" using desk_clock(2,3) by blast
    ultimately have "\<exists>m. render_filled desk_venue st f = Inr m" by (simp add: render_filled_def Let_def)
    with OrderFilled show ?thesis by (auto simp: one_report_def)
  next
    case (CancelRejected c orig reason t x is_replace)
    let ?code = "if is_replace then X_ORDER_MOD_REJECT else X_ORDER_CANCEL_REJECT"
    have "\<exists>m. (case x of Some y \<Rightarrow> base_report desk_venue st y ?code
        | None \<Rightarrow> bind_exn (nse_seconds desk_venue) (\<lambda>s. Inr (set_fields [(CM_LOG_TIME, string_of_int s)] (text_of ?code)))) = Inr m"
      using b [of _ ?code] desk_clock(2) CancelRejected by (cases x) auto
    then obtain m where "render_cancel_rejected desk_venue st x reason is_replace = Inr m"
      unfolding render_cancel_rejected_def Let_def by (cases is_replace) auto
    with CancelRejected show ?thesis by (simp add: one_report_def)
  next
    case (OrderAccepted x cum left qty)
    with b [of x X_ORDER_CONFIRMATION] show ?thesis by (auto simp: one_report_def render_accepted_def)
  next
    case (OrderRejected x reason t)
    with b [of x X_ORDER_ERROR] show ?thesis by (auto simp: one_report_def render_rejected_def Let_def)
  next
    case (OrderCancelled x reason t)
    with b [of x X_ORDER_CANCEL_CONFIRMATION] show ?thesis by (auto simp: one_report_def render_cancelled_def)
  next
    case (OrderReplaced x c kept)
    with b [of x X_ORDER_MOD_CONFIRMATION] show ?thesis by (auto simp: one_report_def render_replaced_def)
  next
    case (OrderDecremented x qty reason)
    with b [of x X_ORDER_MOD_CONFIRMATION] show ?thesis by (auto simp: one_report_def )
  qed simp_all
qed

lemma desk_stamp:
  assumes "nn_store st \<noteq> None"
  shows "\<exists>q m' st'. nnf_stamp (nv_net desk_venue) m st = Inr (q, m', st') \<and> nn_store st' \<noteq> None"
proof -
  obtain s where s: "nn_store st = Some s" using assms by auto
  obtain x j where c: "epoch_seconds (ne_seconds (nv_net desk_venue)) (ne_microsecond (nv_net desk_venue)) = Inr x" "to_nse_jiffies x = Inr j"
    using desk_clock(1) by auto
  have f: "ne_timestamp1_tag (nv_net desk_venue) = Some CM_TIMESTAMP1" using desk_sessions by (simp add: nse_sessions_of_def)
  show ?thesis using s c
    by (auto simp: nnf_stamp_def f Let_def store_sequence_def split: option.split)
qed

lemma desk_retain:
  assumes "nn_store st \<noteq> None"
  shows "\<exists>m' st'. nnf_retain (nv_net desk_venue) u m st = Inr (m', st') \<and> nn_store st' \<noteq> None"
proof -
  obtain q m' st' where "nnf_stamp (nv_net desk_venue) (set_absent (ne_user_id_tag (nv_net desk_venue)) (string_of_int u) m) st = Inr (q, m', st')"
      "nn_store st' \<noteq> None"
    using desk_stamp [OF assms] by blast
  then show ?thesis by (cases q) (auto simp: nnf_retain_def split: option.splits)
qed

lemma desk_box_send:
  assumes "nn_store st \<noteq> None"
  shows "\<exists>st'. box_send (nv_net desk_venue) b m st = Inr st' \<and> nn_store st' \<noteq> None"
proof -
  obtain q m' st' where s: "nnf_stamp (nv_net desk_venue) m st = Inr (q, m', st')" "nn_store st' \<noteq> None" using desk_stamp [OF assms] by blast
  have "structure_of (ne_layouts (nv_net desk_venue)) t = None" for t
    by (cases t) (simp_all add: desk_venue_def desk_net_def structure_of_def)
  then have "nnf_encode (box_codec (nv_net desk_venue) x) m' = (box_codec (nv_net desk_venue) x, m', Inl ValueError)" for x
    by (simp add: nnf_encode_def box_codec_def)
  with s assms show ?thesis by (auto simp: box_send_def Let_def put_box_def)
qed

lemma desk_user_send:
  assumes "nn_store st \<noteq> None"
  shows "\<exists>st'. user_send (nv_net desk_venue) u m st = Inr st' \<and> nn_store st' \<noteq> None"
proof (cases "box_for st u")
  case (Some b)
  obtain m' st1 where "nnf_retain (nv_net desk_venue) u (name_recipient (nv_net desk_venue) u m) st = Inr (m', st1)" "nn_store st1 \<noteq> None"
    using desk_retain [OF assms] by blast
  with Some desk_box_send show ?thesis by (simp add: user_send_def)
qed (use assms in \<open>simp add: user_send_def\<close>)

lemma desk_pass:
  assumes w: "writable X st"
  shows "\<exists>st'. pass_report desk_venue target order m st = Inr st' \<and> writable X st'"
proof -
  have n: "nn_store st \<noteq> None" using w by (simp add: writable_def)
  have "\<exists>st'. pass_report desk_venue target order m st = Inr st' \<and> nn_store st' \<noteq> None"
  proof (cases target)
    case None
    show ?thesis
    proof (cases "\<exists>x u. order = Some x \<and> length (o_session_key (order_at st x)) = 2 \<and> int_of_str (o_session_key (order_at st x) ! 1) = Some u")
      case True
      then obtain x u where x: "order = Some x" "length (o_session_key (order_at st x)) = 2" "int_of_str (o_session_key (order_at st x) ! 1) = Some u"
        by blast
      obtain m' st1 where "nnf_retain (nv_net desk_venue) u m st = Inr (m', st1)" "nn_store st1 \<noteq> None" using desk_retain [OF n] by blast
      with x None show ?thesis by (simp add: pass_report_def file_report_def)
    next
      case False
      then have "file_report desk_venue order m st = Inr st" by (auto simp: file_report_def Let_def split: option.split)
      with None n show ?thesis by (simp add: pass_report_def)
    qed
  next
    case (Some u)
    have send: "\<exists>st'. user_send (nv_net desk_venue) u m (set_rules b st) = Inr st' \<and> nn_store st' \<noteq> None" for b
      by (rule desk_user_send) (use n in \<open>simp add: set_rules_def\<close>)
    have send0: "\<exists>st'. user_send (nv_net desk_venue) u m st = Inr st' \<and> nn_store st' \<noteq> None" by (rule desk_user_send [OF n])
    have "\<exists>st'. deliver_report desk_venue u m order st = Inr st' \<and> nn_store st' \<noteq> None"
      using send send0 n by (auto simp: deliver_report_def Let_def set_rules_def split: option.split prod.split)
    with Some show ?thesis by (simp add: pass_report_def)
  qed
  then show ?thesis using reported_reading(1) [OF pass_only_reported] w unfolding writable_def by metis
qed

lemma fold_exn_total:
  assumes "\<And>x t. x \<in> set xs \<Longrightarrow> P t \<Longrightarrow> \<exists>t'. f x t = Inr t' \<and> P t'" and "P s"
  shows "\<exists>s'. fold_exn f xs s = Inr s' \<and> P s'"
  using assms
proof (induction xs arbitrary: s)
  case (Cons x xs)
  then obtain t where "f x s = Inr t" "P t" by (meson list.set_intros(1))
  with Cons.IH [of t] Cons.prems(1) show ?case by simp
qed simp

lemma desk_emit_any:
  assumes "writable X st" and r: "\<And>ev t. ev \<in> set evs \<Longrightarrow> writable X t \<Longrightarrow> \<exists>ms. r t ev = Inr ms"
  obtains st' where "emit_reports desk_venue r fb evs st = Inr st'"
proof -
  have "\<exists>t'. emit_event desk_venue r fb ev t = Inr t' \<and> writable X t'" if "ev \<in> set evs" "writable X t" for ev t
  proof -
    from r [OF that] obtain ms where "r t ev = Inr ms" by blast
    moreover have "\<exists>t'. fold_exn (pass_report desk_venue (report_target t ev fb) (event_order ev)) ms t = Inr t' \<and> writable X t'"
      by (rule fold_exn_total [where P = "writable X"]) (use that desk_pass in auto)
    ultimately show ?thesis by (simp add: emit_event_def)
  qed
  then obtain t where "fold_exn (emit_event desk_venue r fb) evs st = Inr t"
    using fold_exn_total [where P = "writable X"] assms(1) by metis
  with that show thesis by (simp add: emit_reports_def)
qed

lemma desk_emit:
  assumes "writable X st" and "\<forall>ev \<in> set evs. writable_event X ev"
  obtains st' where "nse_emit desk_venue fb evs st = Inr st'"
  by (rule desk_emit_any [OF assms(1), of evs "nse_render desk_venue" fb]) (use assms(2) desk_render that in blast)+

text \<open>What both gateways start from, and what their tables say afterwards.\<close>

lemma good_start:
  assumes none: "\<And>b. bx_users (box_of st b) = []" "nn_live st = []" "ns_sessions st = []"
    and users: "\<And>u cfg. map_of (nn_users st) u = Some cfg \<Longrightarrow> nu_user_id cfg = u"
    and empty: "distinct (map fst (ew_markets (ns_world st)))" "\<forall>e \<in> set (ew_markets (ns_world st)). mk_books (snd e) = []"
      "ew_registry (ns_world st) = empty_registry"
  shows "nse_good st"
proof -
  have "agree (\<lambda>b. bx_users (box_of st b)) (nn_live st) (nn_users st)" by (rule agreeI) (use none users in auto)
  then show ?thesis
    using none empty_engine_inv [OF empty] by (simp add: nse_good_def net_ok_def sign_view_def nse_extra_def nse_table_def keyed_def)
qed

lemma good_tables:
  assumes g: "nse_good st"
  shows "u \<in> set (nn_live st) \<longleftrightarrow> (\<exists>b. map_of (bx_users (box_of st b)) u \<noteq> None)"
    and "map_of (bx_users (box_of st b)) u \<noteq> None \<Longrightarrow> box_for st u = Some b"
    and "map_of (ns_sessions st) k \<noteq> None \<longleftrightarrow> (\<exists>u \<in> set (nn_live st). k = nnf_key u)"
    and "map_of (ew_markets (ns_world st)) nm = Some m \<Longrightarrow> market_inv (market_view (ns_world st) m)"
proof -
  have a: "agree (\<lambda>b. bx_users (box_of st b)) (nn_live st) (nn_users st)" using g by (simp add: nse_good_def net_ok_def sign_view_def)
  have k: "k = nnf_key v" if "map_of (ns_sessions st) k = Some v" for v
    using g that unfolding nse_good_def nse_extra_def keyed_def by blast
  show "u \<in> set (nn_live st) \<longleftrightarrow> (\<exists>b. map_of (bx_users (box_of st b)) u \<noteq> None)" by (rule agreeD(4) [OF a])
  show "map_of (bx_users (box_of st b)) u \<noteq> None \<Longrightarrow> box_for st u = Some b"
    using agreeD(3) [OF a, of b u] by (auto simp: box_for_def)
  show "map_of (ns_sessions st) k \<noteq> None \<longleftrightarrow> (\<exists>u \<in> set (nn_live st). k = nnf_key u)"
    using g k by (auto simp: nse_good_def nse_table_def)
  show "map_of (ew_markets (ns_world st)) nm = Some m \<Longrightarrow> market_inv (market_view (ns_world st) m)"
    by (rule engine_invD(3) [OF good_engine [OF g]])
qed

subsection \<open>The properties\<close>

text \<open>
  C34: From a venue nobody is signed on to, with empty books, whatever members, the network, the
  clock and the operator do: the sessions on the boxes, the live sessions of the manager and
  the sessions the gateway reports to are the same users, every user is on the box of their
  configuration, and every market is sound.
\<close>

theorem nse_tables_agree:
  assumes r: "nse_reaches env st st'" and none: "\<And>b. bx_users (box_of st b) = []" "nn_live st = []" "ns_sessions st = []"
    and users: "\<And>u cfg. map_of (nn_users st) u = Some cfg \<Longrightarrow> nu_user_id cfg = u"
    and empty: "distinct (map fst (ew_markets (ns_world st)))" "\<forall>e \<in> set (ew_markets (ns_world st)). mk_books (snd e) = []"
      "ew_registry (ns_world st) = empty_registry"
  shows "(\<forall>u. u \<in> set (nn_live st') \<longleftrightarrow> (\<exists>b. map_of (bx_users (box_of st' b)) u \<noteq> None)) \<and>
    (\<forall>b u. map_of (bx_users (box_of st' b)) u \<noteq> None \<longrightarrow> box_for st' u = Some b) \<and>
    (\<forall>k. map_of (ns_sessions st') k \<noteq> None \<longleftrightarrow> (\<exists>u \<in> set (nn_live st'). k = nnf_key u)) \<and>
    (\<forall>nm m. map_of (ew_markets (ns_world st')) nm = Some m \<longrightarrow> market_inv (market_view (ns_world st') m))"
proof -
  have "nse_good st'" by (rule nse_reaches_good [OF r good_start [OF none users empty]])
  then show ?thesis using good_tables [of st'] by blast
qed

theorem nse_tables_agree_witness:
  "\<exists>st. nse_reaches desk_venue desk_start st \<and> all_resting (ns_world st) \<noteq> {} \<and>
     (\<forall>u. u \<in> set (nn_live st) \<longleftrightarrow> (\<exists>b. map_of (bx_users (box_of st b)) u \<noteq> None))"
proof -
  have same: "same_venue desk_venue desk_venue" by (simp add: same_venue_def)
  let ?s = "box_attach (nv_net desk_venue) 1 desk_start"
  have "(case new_order desk_engine (desk_request 7) (ns_world desk_state) of Inl _ \<Rightarrow> False
     | Inr (ew, evs) \<Rightarrow> evs = [OrderAccepted ''O01010001'' 0 10 10] \<and> o_price (ew_heap ew ''O01010001'') = Some 10 \<and>
         list_ex (\<lambda>e. list_ex (\<lambda>b. book_orders (snd b) \<noteq> []) (mk_books (snd e))) (ew_markets ew))" by code_simp
  then obtain ew where st: "new_order desk_engine (desk_request 7) (ns_world desk_state) = Inr (ew, [OrderAccepted ''O01010001'' 0 10 10])"
      "o_price (ew_heap ew ''O01010001'') = Some 10" "all_resting ew \<noteq> {}"
    by (auto simp: all_resting_def rests_in_def list_ex_iff split: sum.splits)
  have f: "nv_engine desk_venue = desk_engine" "ns_world ?s = ns_world desk_state" "nn_store ?s = nn_store desk_state"
      "bx_connected (box_of ?s 1)"
    by (simp_all add: desk_venue_def desk_start_def box_attach_def put_box_def box_of_def)
  have "writable {''O01010001''} (?s\<lparr>ns_world := ew\<rparr>)"
    using st(2) f(3) by (simp add: writable_def order_at_def context_prec_def) (simp add: desk_state_def)
  then obtain t where t: "nse_emit desk_venue None [OrderAccepted ''O01010001'' 0 10 10] (?s\<lparr>ns_world := ew\<rparr>) = Inr t"
    by (rule desk_emit) (auto simp: writable_event_def)
  then have j: "inject_order desk_venue (desk_request 7) ?s = Inr t" using st(1) by (simp add: inject_order_def f)
  note rep = emit_only_reported [OF t]
  have r: "nse_reaches desk_venue desk_start t"
    using nse_step.attach [OF same] nse_step.inject [OF same j] by (meson converse_rtranclp_into_rtranclp r_into_rtranclp)
  have "\<forall>u. u \<in> set (nn_live t) \<longleftrightarrow> (\<exists>b. map_of (bx_users (box_of t b)) u \<noteq> None)"
    by (rule nse_tables_agree [OF r, THEN conjunct1])
      (auto simp: desk_start_def desk_state_def desk_user_def box_of_def new_box_def quiet_venue_def new_market_def split: if_splits)
  moreover have "all_resting (ns_world t) = all_resting ew" using rep by (auto simp: only_reported_def)
  ultimately show ?thesis using r st(3) by (intro exI [of _ t]) simp
qed

text \<open>
  C35: Reporting a batch of events puts nothing on a box unless one of the events concerns a user
  of that box: an order's report goes to the owner of the order and never to whoever caused it,
  unless the order has no owner among the members.
\<close>

theorem reports_stay_private:
  assumes "nse_emit env fb evs st = Inr st'" and "nse_good st"
    and "\<And>ev u. ev \<in> set evs \<Longrightarrow> concerns st fb ev u \<Longrightarrow> box_for st u \<noteq> Some b"
  shows "trace_on b st' = trace_on b st"
  using emit_trace [OF assms(1) _ assms(3)] assms(2) by (simp add: nse_good_def)

lemma desk_held_facts:
  "order_at desk_held ''x'' = (sample_heap ''x'')\<lparr>o_session_key := nnf_key 7, o_symbol := ''INFY-EQ'', o_market := Some ''N''\<rparr>"
  "nn_store desk_held = Some (make_store 100)" "nn_users desk_held = [(7, desk_user 7 1 ''B7'' True), (8, desk_user 8 2 ''B8'' False)]"
  "is_nnf_key (nnf_key u)"
  by (simp_all add: order_at_def desk_held_def desk_heap_def desk_state_def is_nnf_key_def nnf_key_def)

lemma desk_held_writable: "order_at st ''x'' = order_at desk_held ''x'' \<Longrightarrow> nn_store st \<noteq> None \<Longrightarrow> writable {''x''} st"
  by (simp add: writable_def desk_held_facts sample_defs plain_order_def context_prec_def)

theorem reports_stay_private_witness:
  "\<exists>st. nse_emit desk_venue (Some 8) [OrderCancelled ''x'' CR_USER_REQUEST []] desk_held = Inr st \<and> trace_on 2 st = []"
proof -
  have w: "writable {''x''} desk_held" by (rule desk_held_writable) (simp_all add: desk_held_facts)
  obtain st where st: "nse_emit desk_venue (Some 8) [OrderCancelled ''x'' CR_USER_REQUEST []] desk_held = Inr st"
    by (rule desk_emit [OF w]) (auto simp: writable_event_def)
  have "trace_on 2 st = trace_on 2 desk_held"
    by (rule reports_stay_private [OF st desk_good(2)])
      (auto simp: concerns_def desk_held_facts box_for_def desk_user_def split: if_splits)
  with st show ?thesis by (simp add: trace_on_def desk_held_def desk_state_def)
qed





text \<open>
  C37: A box that is lost takes all its users with it: they are signed off everywhere, and of the
  orders resting in any market exactly those go whose owner was on the box and is configured
  for cancel on disconnect.
\<close>

theorem lost_box_cancels_as_configured:
  assumes "nse_drop_box env b st = Inr st'" and "nse_good st" and "bx_connected (box_of st b)"
  shows "bx_users (box_of st' b) = [] \<and> (\<forall>u \<in> fst ` set (bx_users (box_of st b)). u \<notin> set (nn_live st')) \<and>
    all_resting (ns_world st') = {x \<in> all_resting (ns_world st). \<not> (\<exists>u \<in> fst ` set (bx_users (box_of st b)).
       cancels_on_disconnect st u \<and> o_session_key (order_at st x) = nnf_key u)}"
proof -
  note e = drop_box_ended [OF assms]
  have g: "nse_good st'" by (rule drop_box_good [OF assms(1,2)])
  have a: "agree (\<lambda>b. bx_users (box_of t b)) (nn_live t) (nn_users t)" if "nse_good t" for t
    using that by (simp add: nse_good_def net_ok_def sign_view_def)
  have "u \<notin> set (nn_live st')" if u: "u \<in> fst ` set (bx_users (box_of st b))" for u
  proof
    assume "u \<in> set (nn_live st')"
    then obtain c x where c: "map_of (bx_users (box_of st' c)) u = Some x" using agreeD(4) [OF a [OF g]] by blast
    obtain y where y: "map_of (bx_users (box_of st b)) u = Some y" using u by (metis map_of_eq_None_iff option.exhaust)
    have "nn_users st' = nn_users st" using e(1) by (simp add: ended_def)
    then have "c = b" using agreeD(3) [OF a [OF g] c] agreeD(3) [OF a [OF assms(2)] y] by simp
    with c e(2) show False by simp
  qed
  with e show ?thesis by (simp add: ended_def cancelled_for_def)
qed

theorem lost_box_cancels_as_configured_witness:
  "\<exists>st st'. nse_drop_box desk_venue 1 st = Inr st' \<and> all_resting (ns_world st) \<noteq> {} \<and> all_resting (ns_world st') = {} \<and> 7 \<notin> set (nn_live st')"
proof -
  let ?x = "''O01010001''" and ?t = "''cancelled on disconnect''"
  have "(case new_order desk_engine (desk_request 7) (ns_world desk_state) of Inl _ \<Rightarrow> False
     | Inr (ew, evs) \<Rightarrow> concat (map (\<lambda>e. concat (map (\<lambda>b. book_orders (snd b)) (mk_books (snd e)))) (ew_markets ew)) = [?x] \<and>
         o_session_key (ew_heap ew ?x) = nnf_key 7 \<and>
         (case cancel_session_orders (nnf_key 7) CR_CANCEL_ON_DISCONNECT ?t ew of Inl _ \<Rightarrow> False
          | Inr (ew', evs') \<Rightarrow> evs' = [OrderCancelled ?x CR_CANCEL_ON_DISCONNECT ?t] \<and> o_price (ew_heap ew' ?x) = Some 10))"
    by code_simp
  then obtain ew evs ew' where n: "new_order desk_engine (desk_request 7) (ns_world desk_state) = Inr (ew, evs)"
      and r: "concat (map (\<lambda>e. concat (map (\<lambda>b. book_orders (snd b)) (mk_books (snd e)))) (ew_markets ew)) = [?x]"
      and k: "o_session_key (ew_heap ew ?x) = nnf_key 7"
      and c: "cancel_session_orders (nnf_key 7) CR_CANCEL_ON_DISCONNECT ?t ew = Inr (ew', [OrderCancelled ?x CR_CANCEL_ON_DISCONNECT ?t])"
      and p: "o_price (ew_heap ew' ?x) = Some 10"
    by (auto split: sum.splits)
  have rest: "all_resting ew = {?x}"
  proof -
    have "all_resting ew = set (concat (map (\<lambda>e. concat (map (\<lambda>b. book_orders (snd b)) (mk_books (snd e)))) (ew_markets ew)))"
      by (simp add: all_resting_def rests_in_def)
    then show ?thesis by (simp only: r) simp
  qed
  let ?st = "desk_state\<lparr>ns_world := ew\<rparr>"
  have g: "nse_good ?st" by (rule good_world [OF desk_good(1) new_order_inv [OF n desk_world_inv(1)]])
  let ?b = "new_box\<lparr>bx_state := BoxActive, bx_connected := True, bx_users := [(7, True)]\<rparr>"
  let ?s1 = "put_box 1 (?b\<lparr>bx_connected := False, bx_state := BoxDisconnected, bx_cipher := PlainCipher\<rparr>) ?st"
  have "box_of ?st 1 = ?b" by (simp add: desk_boxes)
  note b = this
  have "\<exists>t. end_session (desk_logout desk_venue (nse_render desk_venue)) 1 7 ?s1 = Inr t"
  proof -
    let ?s2 = "(put_box 1 (?b\<lparr>bx_connected := False, bx_state := BoxDisconnected, bx_cipher := PlainCipher, bx_users := [(7, False)]\<rparr>) ?s1)\<lparr>nn_live := [8]\<rparr>"
    let ?s3 = "?s2\<lparr>ns_sessions := AList.delete (nnf_key 7) (ns_sessions ?s2), ns_world := ew'\<rparr>"
    have "writable {?x} ?s3" using p
      by (simp add: writable_def order_at_def context_prec_def put_box_def) (simp add: desk_state_def)
    then obtain t where t: "nse_emit desk_venue (Some 7) [OrderCancelled ?x CR_CANCEL_ON_DISCONNECT ?t] ?s3 = Inr t"
      by (rule desk_emit) (auto simp: writable_event_def)
    have "cancels_on_disconnect ?s2 7" by (simp add: cancels_on_disconnect_def) (simp add: desk_state_def desk_user_def)
    moreover have "ns_world ?s2 = ew" by (simp add: put_box_def)
    ultimately have "desk_logout desk_venue (nse_render desk_venue) 7 ?s2 = Inr t" using c t by (simp add: desk_logout_def)
    moreover have "nn_live ?s1 = [7, 8]" by (simp add: desk_state_def put_box_def)
    ultimately show ?thesis by (simp add: end_session_def Let_def)
  qed
  then have "\<exists>t. nse_drop_box desk_venue 1 ?st = Inr t"
    by (auto simp: box_disconnect_def box_detach_def desk_boxes Let_def desk_detached_def new_box_def)
  then obtain t where t: "nse_drop_box desk_venue 1 ?st = Inr t" by blast
  have "cancels_on_disconnect ?st 7" by (simp add: cancels_on_disconnect_def) (simp add: desk_state_def desk_user_def)
  then have "all_resting (ns_world t) = {} \<and> 7 \<notin> set (nn_live t)"
    using lost_box_cancels_as_configured [OF t g] b rest k by (simp add: order_at_def)
  with t rest show ?thesis by (intro exI [of _ ?st] exI [of _ t]) simp
qed










end
