(* ===== verification/Nsefo_Dictionary.thy ===== *)
theory Nsefo_Dictionary
  imports Nse_Codes
begin

section \<open>The derivatives dialect (\<open>venues/nsefo/dictionary.py\<close>)\<close>

text \<open>
  The tags, fields and messages of the derivatives segment as the module declares them. Labels and
  redaction, which only the audit reads, are left out; no field is required, because every
  field of a fixed structure travels in every message.
\<close>

abbreviation FO_LOG_TIME :: int where "FO_LOG_TIME \<equiv> 9400"
abbreviation FO_ALPHA_CHAR :: int where "FO_ALPHA_CHAR \<equiv> 9401"
abbreviation FO_USER_ID :: int where "FO_USER_ID \<equiv> 9402"
abbreviation FO_ERROR_CODE :: int where "FO_ERROR_CODE \<equiv> 9403"
abbreviation FO_TIMESTAMP :: int where "FO_TIMESTAMP \<equiv> 9404"
abbreviation FO_TIMESTAMP1 :: int where "FO_TIMESTAMP1 \<equiv> 9405"
abbreviation FO_TIMESTAMP2 :: int where "FO_TIMESTAMP2 \<equiv> 9406"
abbreviation FO_MESSAGE_LENGTH :: int where "FO_MESSAGE_LENGTH \<equiv> 9407"
abbreviation FO_SYMBOL :: int where "FO_SYMBOL \<equiv> 55"
abbreviation FO_INSTRUMENT_NAME :: int where "FO_INSTRUMENT_NAME \<equiv> 9410"
abbreviation FO_EXPIRY_DATE :: int where "FO_EXPIRY_DATE \<equiv> 9411"
abbreviation FO_STRIKE_PRICE :: int where "FO_STRIKE_PRICE \<equiv> 9412"
abbreviation FO_OPTION_TYPE :: int where "FO_OPTION_TYPE \<equiv> 9413"
abbreviation FO_CA_LEVEL :: int where "FO_CA_LEVEL \<equiv> 9414"
abbreviation FO_PARTICIPANT_TYPE :: int where "FO_PARTICIPANT_TYPE \<equiv> 9440"
abbreviation FO_COMPETITOR_PERIOD :: int where "FO_COMPETITOR_PERIOD \<equiv> 9441"
abbreviation FO_SOLICITOR_PERIOD :: int where "FO_SOLICITOR_PERIOD \<equiv> 9442"
abbreviation FO_MOD_CXL_BY :: int where "FO_MOD_CXL_BY \<equiv> 9443"
abbreviation FO_REASON_CODE :: int where "FO_REASON_CODE \<equiv> 9444"
abbreviation FO_TOKEN_NO :: int where "FO_TOKEN_NO \<equiv> 9445"
abbreviation FO_COUNTERPARTY_BROKER_ID :: int where "FO_COUNTERPARTY_BROKER_ID \<equiv> 9446"
abbreviation FO_CLOSEOUT_FLAG :: int where "FO_CLOSEOUT_FLAG \<equiv> 9447"
abbreviation FO_ORDER_TYPE :: int where "FO_ORDER_TYPE \<equiv> 9448"
abbreviation FO_BOOK_TYPE :: int where "FO_BOOK_TYPE \<equiv> 9449"
abbreviation FO_DISCLOSED_VOL :: int where "FO_DISCLOSED_VOL \<equiv> 9450"
abbreviation FO_DISCLOSED_VOL_REMAINING :: int where "FO_DISCLOSED_VOL_REMAINING \<equiv> 9451"
abbreviation FO_TOTAL_VOL_REMAINING :: int where "FO_TOTAL_VOL_REMAINING \<equiv> 151"
abbreviation FO_VOLUME :: int where "FO_VOLUME \<equiv> 38"
abbreviation FO_VOLUME_FILLED_TODAY :: int where "FO_VOLUME_FILLED_TODAY \<equiv> 14"
abbreviation FO_PRICE :: int where "FO_PRICE \<equiv> 44"
abbreviation FO_TRIGGER_PRICE :: int where "FO_TRIGGER_PRICE \<equiv> 9452"
abbreviation FO_GOOD_TILL_DATE :: int where "FO_GOOD_TILL_DATE \<equiv> 9453"
abbreviation FO_ENTRY_DATE_TIME :: int where "FO_ENTRY_DATE_TIME \<equiv> 9454"
abbreviation FO_MIN_FILL_AON :: int where "FO_MIN_FILL_AON \<equiv> 9455"
abbreviation FO_LAST_MODIFIED :: int where "FO_LAST_MODIFIED \<equiv> 9456"
abbreviation FO_BRANCH_ID :: int where "FO_BRANCH_ID \<equiv> 9457"
abbreviation FO_TRADER_ID :: int where "FO_TRADER_ID \<equiv> 9458"
abbreviation FO_BROKER_ID :: int where "FO_BROKER_ID \<equiv> 9459"
abbreviation FO_OPEN_CLOSE :: int where "FO_OPEN_CLOSE \<equiv> 9460"
abbreviation FO_SETTLOR :: int where "FO_SETTLOR \<equiv> 9461"
abbreviation FO_PRO_CLIENT :: int where "FO_PRO_CLIENT \<equiv> 9462"
abbreviation FO_SETTLEMENT_PERIOD :: int where "FO_SETTLEMENT_PERIOD \<equiv> 9463"
abbreviation FO_NNF_FIELD :: int where "FO_NNF_FIELD \<equiv> 9464"
abbreviation FO_MKT_REPLAY :: int where "FO_MKT_REPLAY \<equiv> 9465"
abbreviation FO_PAN :: int where "FO_PAN \<equiv> 9466"
abbreviation FO_ALGO_ID :: int where "FO_ALGO_ID \<equiv> 9467"
abbreviation FO_LAST_ACTIVITY_REFERENCE :: int where "FO_LAST_ACTIVITY_REFERENCE \<equiv> 9468"
abbreviation FO_ORDER_NUMBER :: int where "FO_ORDER_NUMBER \<equiv> 37"
abbreviation FO_ACCOUNT_NUMBER :: int where "FO_ACCOUNT_NUMBER \<equiv> 1"
abbreviation FO_BUY_SELL :: int where "FO_BUY_SELL \<equiv> 54"
abbreviation FO_REFERENCE :: int where "FO_REFERENCE \<equiv> 9490"
abbreviation FO_PRICE_DIFF :: int where "FO_PRICE_DIFF \<equiv> 9700"
abbreviation FO_LEG2_TOKEN_NO :: int where "FO_LEG2_TOKEN_NO \<equiv> 9701"
abbreviation FO_LEG2_INSTRUMENT_NAME :: int where "FO_LEG2_INSTRUMENT_NAME \<equiv> 9702"
abbreviation FO_LEG2_SYMBOL :: int where "FO_LEG2_SYMBOL \<equiv> 9703"
abbreviation FO_LEG2_EXPIRY_DATE :: int where "FO_LEG2_EXPIRY_DATE \<equiv> 9704"
abbreviation FO_LEG2_STRIKE_PRICE :: int where "FO_LEG2_STRIKE_PRICE \<equiv> 9705"
abbreviation FO_LEG2_OPTION_TYPE :: int where "FO_LEG2_OPTION_TYPE \<equiv> 9706"
abbreviation FO_LEG2_CA_LEVEL :: int where "FO_LEG2_CA_LEVEL \<equiv> 9707"
abbreviation FO_LEG2_BUY_SELL :: int where "FO_LEG2_BUY_SELL \<equiv> 9708"
abbreviation FO_LEG2_DISCLOSED_VOL :: int where "FO_LEG2_DISCLOSED_VOL \<equiv> 9709"
abbreviation FO_LEG2_DISCLOSED_VOL_REMAINING :: int where "FO_LEG2_DISCLOSED_VOL_REMAINING \<equiv> 9710"
abbreviation FO_LEG2_TOTAL_VOL_REMAINING :: int where "FO_LEG2_TOTAL_VOL_REMAINING \<equiv> 9711"
abbreviation FO_LEG2_VOLUME :: int where "FO_LEG2_VOLUME \<equiv> 9712"
abbreviation FO_LEG2_VOLUME_FILLED_TODAY :: int where "FO_LEG2_VOLUME_FILLED_TODAY \<equiv> 9713"
abbreviation FO_LEG2_PRICE :: int where "FO_LEG2_PRICE \<equiv> 9714"
abbreviation FO_LEG2_TRIGGER_PRICE :: int where "FO_LEG2_TRIGGER_PRICE \<equiv> 9715"
abbreviation FO_LEG2_MIN_FILL_AON :: int where "FO_LEG2_MIN_FILL_AON \<equiv> 9716"
abbreviation FO_LEG2_OPEN_CLOSE :: int where "FO_LEG2_OPEN_CLOSE \<equiv> 9717"
abbreviation FO_LEG2_ORDER_TYPE :: int where "FO_LEG2_ORDER_TYPE \<equiv> 9718"
abbreviation FO_DOWNLOAD_SEQUENCE :: int where "FO_DOWNLOAD_SEQUENCE \<equiv> 9492"
abbreviation FO_DOWNLOAD_DATA :: int where "FO_DOWNLOAD_DATA \<equiv> 9493"
abbreviation FO_KEY :: int where "FO_KEY \<equiv> 9491"
abbreviation FO_ERROR_MESSAGE :: int where "FO_ERROR_MESSAGE \<equiv> 58"
abbreviation FO_RESPONSE_ORDER_NUMBER :: int where "FO_RESPONSE_ORDER_NUMBER \<equiv> 9500"
abbreviation FO_TRADER_NUMBER :: int where "FO_TRADER_NUMBER \<equiv> 9501"
abbreviation FO_FILL_NUMBER :: int where "FO_FILL_NUMBER \<equiv> 9502"
abbreviation FO_FILL_QTY :: int where "FO_FILL_QTY \<equiv> 32"
abbreviation FO_FILL_PRICE :: int where "FO_FILL_PRICE \<equiv> 31"
abbreviation FO_ACTIVITY_TYPE :: int where "FO_ACTIVITY_TYPE \<equiv> 9503"
abbreviation FO_ACTIVITY_TIME :: int where "FO_ACTIVITY_TIME \<equiv> 9504"
abbreviation FO_COUNTER_TRADER_ORDER_NUMBER :: int where "FO_COUNTER_TRADER_ORDER_NUMBER \<equiv> 9505"
abbreviation FO_COUNTER_BROKER_ID :: int where "FO_COUNTER_BROKER_ID \<equiv> 9506"
abbreviation FO_OLD_OPEN_CLOSE :: int where "FO_OLD_OPEN_CLOSE \<equiv> 9507"
abbreviation FO_OLD_ACCOUNT_NUMBER :: int where "FO_OLD_ACCOUNT_NUMBER \<equiv> 9508"
abbreviation FO_PARTICIPANT :: int where "FO_PARTICIPANT \<equiv> 9509"
abbreviation FO_OLD_PARTICIPANT :: int where "FO_OLD_PARTICIPANT \<equiv> 9510"
abbreviation FO_OLD_PAN :: int where "FO_OLD_PAN \<equiv> 9511"
abbreviation FO_SIGNON_USER_ID :: int where "FO_SIGNON_USER_ID \<equiv> 9530"
abbreviation FO_PASSWORD :: int where "FO_PASSWORD \<equiv> 9531"
abbreviation FO_NEW_PASSWORD :: int where "FO_NEW_PASSWORD \<equiv> 9532"
abbreviation FO_TRADER_NAME :: int where "FO_TRADER_NAME \<equiv> 9533"
abbreviation FO_LAST_PASSWORD_CHANGE :: int where "FO_LAST_PASSWORD_CHANGE \<equiv> 9534"
abbreviation FO_VERSION_NUMBER :: int where "FO_VERSION_NUMBER \<equiv> 9535"
abbreviation FO_BATCH2_START_TIME :: int where "FO_BATCH2_START_TIME \<equiv> 9536"
abbreviation FO_HOST_SWITCH_CONTEXT :: int where "FO_HOST_SWITCH_CONTEXT \<equiv> 9537"
abbreviation FO_COLOUR :: int where "FO_COLOUR \<equiv> 9538"
abbreviation FO_USER_TYPE :: int where "FO_USER_TYPE \<equiv> 9539"
abbreviation FO_SEQUENCE_NUMBER :: int where "FO_SEQUENCE_NUMBER \<equiv> 9540"
abbreviation FO_WS_CLASS_NAME :: int where "FO_WS_CLASS_NAME \<equiv> 9541"
abbreviation FO_BROKER_STATUS :: int where "FO_BROKER_STATUS \<equiv> 9542"
abbreviation FO_SHOW_INDEX :: int where "FO_SHOW_INDEX \<equiv> 9543"
abbreviation FO_MEMBER_TYPE :: int where "FO_MEMBER_TYPE \<equiv> 9544"
abbreviation FO_CLEARING_STATUS :: int where "FO_CLEARING_STATUS \<equiv> 9545"
abbreviation FO_BROKER_NAME :: int where "FO_BROKER_NAME \<equiv> 9546"
abbreviation FO_SIGNOFF_USER_ID :: int where "FO_SIGNOFF_USER_ID \<equiv> 9547"
abbreviation FO_MARKET_INDEX :: int where "FO_MARKET_INDEX \<equiv> 9550"
abbreviation FO_DEFAULT_SETTLEMENT_NORMAL :: int where "FO_DEFAULT_SETTLEMENT_NORMAL \<equiv> 9551"
abbreviation FO_DEFAULT_SETTLEMENT_SPOT :: int where "FO_DEFAULT_SETTLEMENT_SPOT \<equiv> 9552"
abbreviation FO_DEFAULT_SETTLEMENT_AUCTION :: int where "FO_DEFAULT_SETTLEMENT_AUCTION \<equiv> 9553"
abbreviation FO_WARNING_PERCENT :: int where "FO_WARNING_PERCENT \<equiv> 9554"
abbreviation FO_VOLUME_FREEZE_PERCENT :: int where "FO_VOLUME_FREEZE_PERCENT \<equiv> 9555"
abbreviation FO_SNAP_QUOTE_TIME :: int where "FO_SNAP_QUOTE_TIME \<equiv> 9556"
abbreviation FO_BOARD_LOT_QUANTITY :: int where "FO_BOARD_LOT_QUANTITY \<equiv> 9557"
abbreviation FO_TICK_SIZE :: int where "FO_TICK_SIZE \<equiv> 9558"
abbreviation FO_MAXIMUM_GTC_DAYS :: int where "FO_MAXIMUM_GTC_DAYS \<equiv> 9559"
abbreviation FO_DISCLOSED_QUANTITY_PERCENT :: int where "FO_DISCLOSED_QUANTITY_PERCENT \<equiv> 9560"
abbreviation FO_RISK_FREE_INTEREST_RATE :: int where "FO_RISK_FREE_INTEREST_RATE \<equiv> 9561"
abbreviation FO_UPDATE_PORTFOLIO :: int where "FO_UPDATE_PORTFOLIO \<equiv> 9562"
abbreviation FO_LAST_UPDATE_PORTFOLIO_TIME :: int where "FO_LAST_UPDATE_PORTFOLIO_TIME \<equiv> 9563"
abbreviation FO_NORMAL_STATUS :: int where "FO_NORMAL_STATUS \<equiv> 9564"
abbreviation FO_ODDLOT_STATUS :: int where "FO_ODDLOT_STATUS \<equiv> 9565"
abbreviation FO_SPOT_STATUS :: int where "FO_SPOT_STATUS \<equiv> 9566"
abbreviation FO_AUCTION_STATUS :: int where "FO_AUCTION_STATUS \<equiv> 9567"
abbreviation FO_EX_NORMAL_STATUS :: int where "FO_EX_NORMAL_STATUS \<equiv> 9568"
abbreviation FO_EX_ODDLOT_STATUS :: int where "FO_EX_ODDLOT_STATUS \<equiv> 9569"
abbreviation FO_EX_SPOT_STATUS :: int where "FO_EX_SPOT_STATUS \<equiv> 9570"
abbreviation FO_EX_AUCTION_STATUS :: int where "FO_EX_AUCTION_STATUS \<equiv> 9571"
abbreviation FO_PL_NORMAL_STATUS :: int where "FO_PL_NORMAL_STATUS \<equiv> 9572"
abbreviation FO_PL_ODDLOT_STATUS :: int where "FO_PL_ODDLOT_STATUS \<equiv> 9573"
abbreviation FO_PL_SPOT_STATUS :: int where "FO_PL_SPOT_STATUS \<equiv> 9574"
abbreviation FO_PL_AUCTION_STATUS :: int where "FO_PL_AUCTION_STATUS \<equiv> 9575"
abbreviation FO_SECURITY_AON :: int where "FO_SECURITY_AON \<equiv> 9576"
abbreviation FO_SECURITY_MIN_FILL :: int where "FO_SECURITY_MIN_FILL \<equiv> 9577"
abbreviation FO_SECURITY_BOOKS_MERGED :: int where "FO_SECURITY_BOOKS_MERGED \<equiv> 9578"
abbreviation FO_FLAG_BOC :: int where "FO_FLAG_BOC \<equiv> 9600"
abbreviation FO_FLAG_COL :: int where "FO_FLAG_COL \<equiv> 9601"
abbreviation FO_FLAG_STPC_ADDITIONAL :: int where "FO_FLAG_STPC_ADDITIONAL \<equiv> 9602"
abbreviation FO_FLAG_ATO :: int where "FO_FLAG_ATO \<equiv> 9620"
abbreviation FO_FLAG_MARKET :: int where "FO_FLAG_MARKET \<equiv> 9621"
abbreviation FO_FLAG_SL :: int where "FO_FLAG_SL \<equiv> 9622"
abbreviation FO_FLAG_MIT :: int where "FO_FLAG_MIT \<equiv> 9623"
abbreviation FO_FLAG_DAY :: int where "FO_FLAG_DAY \<equiv> 9624"
abbreviation FO_FLAG_GTC :: int where "FO_FLAG_GTC \<equiv> 9625"
abbreviation FO_FLAG_IOC :: int where "FO_FLAG_IOC \<equiv> 9626"
abbreviation FO_FLAG_AON :: int where "FO_FLAG_AON \<equiv> 9627"
abbreviation FO_FLAG_MF :: int where "FO_FLAG_MF \<equiv> 9628"
abbreviation FO_FLAG_MATCHED_IND :: int where "FO_FLAG_MATCHED_IND \<equiv> 9629"
abbreviation FO_FLAG_TRADED :: int where "FO_FLAG_TRADED \<equiv> 9630"
abbreviation FO_FLAG_MODIFIED :: int where "FO_FLAG_MODIFIED \<equiv> 9631"
abbreviation FO_FLAG_FROZEN :: int where "FO_FLAG_FROZEN \<equiv> 9632"
abbreviation FO_FLAG_PREOPEN :: int where "FO_FLAG_PREOPEN \<equiv> 9633"
abbreviation FO_BOX_ID :: int where "FO_BOX_ID \<equiv> 9650"
abbreviation FO_IP_ADDRESS :: int where "FO_IP_ADDRESS \<equiv> 9651"
abbreviation FO_PORT :: int where "FO_PORT \<equiv> 9652"
abbreviation FO_SESSION_KEY :: int where "FO_SESSION_KEY \<equiv> 9653"
abbreviation FO_CRYPTOGRAPHIC_KEY :: int where "FO_CRYPTOGRAPHIC_KEY \<equiv> 9654"
abbreviation FO_STATIC_IV :: int where "FO_STATIC_IV \<equiv> 9655"
abbreviation FO_DYNAMIC_IV :: int where "FO_DYNAMIC_IV \<equiv> 9656"
abbreviation FO_ADDITIONAL_KEY :: int where "FO_ADDITIONAL_KEY \<equiv> 9657"

definition fo_price_decimals :: nat where "fo_price_decimals = 2"

definition fo_header_fields :: "field_def list" where
  "fo_header_fields =
     [make_field TAG_MSG_TYPE ''TransactionCode'' FT_STRING None None None None,
      numeric_field TAG_MSG_SEQ_NUM ''SequenceNumber'',
      numeric_field FO_LOG_TIME ''LogTime'',
      text_field FO_ALPHA_CHAR ''AlphaChar'' (Some 2),
      numeric_field FO_USER_ID ''UserId'',
      make_field FO_ERROR_CODE ''ErrorCode'' FT_INT None None None None,
      numeric_field FO_TIMESTAMP ''Timestamp'',
      numeric_field FO_TIMESTAMP1 ''TimeStamp1'',
      numeric_field FO_TIMESTAMP2 ''TimeStamp2'',
      numeric_field FO_MESSAGE_LENGTH ''MessageLength'']"

definition fo_application_fields :: "field_def list" where
  "fo_application_fields =
     [text_field FO_SYMBOL ''Symbol'' (Some 10),
      make_field FO_INSTRUMENT_NAME ''InstrumentName'' FT_STRING (Some [''FUTIDX'', ''FUTSTK'', ''OPTIDX'', ''OPTSTK'']) None None None,
      numeric_field FO_EXPIRY_DATE ''ExpiryDate'',
      make_field FO_STRIKE_PRICE ''StrikePrice'' FT_PRICE None None None (Some fo_price_decimals),
      make_field FO_OPTION_TYPE ''OptionType'' FT_STRING (Some [''CE'', ''PE'', ''XX'']) None None None,
      numeric_field FO_CA_LEVEL ''CALevel'',
      text_field FO_PARTICIPANT_TYPE ''ParticipantType'' (Some 1),
      numeric_field FO_COMPETITOR_PERIOD ''CompetitorPeriod'',
      numeric_field FO_SOLICITOR_PERIOD ''SolicitorPeriod'',
      make_field FO_MOD_CXL_BY ''ModCxlBy'' FT_STRING None None None None,
      make_field FO_REASON_CODE ''ReasonCode'' FT_INT None None None None,
      numeric_field FO_TOKEN_NO ''TokenNo'',
      text_field FO_COUNTERPARTY_BROKER_ID ''CounterPartyBrokerId'' (Some 5),
      text_field FO_CLOSEOUT_FLAG ''CloseoutFlag'' (Some 1),
      make_field FO_ORDER_TYPE ''OrderType'' FT_STRING (Some [''0'']) None None None,
      text_field FO_ORDER_NUMBER ''OrderNumber'' (Some 20),
      text_field FO_ACCOUNT_NUMBER ''AccountNumber'' (Some 10),
      make_field FO_BOOK_TYPE ''BookType'' FT_STRING (Some [''0'', ''1'', ''2'', ''3'', ''4'', ''5'', ''6'', ''7'']) None None None,
      make_field FO_BUY_SELL ''BuySell'' FT_STRING (Some [''0'', ''1'', ''2'']) None None None,
      make_field FO_DISCLOSED_VOL ''DisclosedVolume'' FT_QTY None None None None,
      make_field FO_DISCLOSED_VOL_REMAINING ''DisclosedVolumeRemaining'' FT_QTY None None None None,
      make_field FO_TOTAL_VOL_REMAINING ''TotalVolRemaining'' FT_QTY None None None None,
      make_field FO_VOLUME ''Volume'' FT_QTY None None None None,
      make_field FO_VOLUME_FILLED_TODAY ''VolumeFilledToday'' FT_QTY None None None None,
      make_field FO_PRICE ''Price'' FT_PRICE None None None (Some fo_price_decimals),
      make_field FO_TRIGGER_PRICE ''TriggerPrice'' FT_PRICE None None None (Some fo_price_decimals),
      numeric_field FO_GOOD_TILL_DATE ''GoodTillDate'',
      numeric_field FO_ENTRY_DATE_TIME ''EntryDateTime'',
      make_field FO_MIN_FILL_AON ''MinimumFillOrAonVolume'' FT_QTY None None None None,
      numeric_field FO_LAST_MODIFIED ''LastModified'',
      numeric_field FO_BRANCH_ID ''BranchId'',
      numeric_field FO_TRADER_ID ''TraderId'',
      text_field FO_BROKER_ID ''BrokerId'' (Some 5),
      text_field FO_OPEN_CLOSE ''OpenClose'' (Some 1),
      text_field FO_SETTLOR ''Settlor'' (Some 12),
      make_field FO_PRO_CLIENT ''ProClient'' FT_STRING (Some [''0'', ''1'', ''2'']) None None None,
      numeric_field FO_SETTLEMENT_PERIOD ''SettlementPeriod'',
      text_field FO_NNF_FIELD ''NNFField'' (Some 20),
      numeric_field FO_MKT_REPLAY ''MktReplay'',
      text_field FO_PAN ''PAN'' (Some 10),
      numeric_field FO_ALGO_ID ''AlgoID'',
      numeric_field FO_LAST_ACTIVITY_REFERENCE ''LastActivityReference'',
      text_field FO_REFERENCE ''Reference'' (Some 4),
      make_field FO_PRICE_DIFF ''PriceDiff'' FT_PRICE None None None (Some fo_price_decimals),
      numeric_field FO_LEG2_TOKEN_NO ''Leg2TokenNo'',
      text_field FO_LEG2_INSTRUMENT_NAME ''Leg2InstrumentName'' (Some 6),
      text_field FO_LEG2_SYMBOL ''Leg2Symbol'' (Some 10),
      numeric_field FO_LEG2_EXPIRY_DATE ''Leg2ExpiryDate'',
      text_field FO_LEG2_STRIKE_PRICE ''Leg2StrikePrice'' None,
      text_field FO_LEG2_OPTION_TYPE ''Leg2OptionType'' (Some 2),
      numeric_field FO_LEG2_CA_LEVEL ''Leg2CALevel'',
      make_field FO_LEG2_BUY_SELL ''Leg2BuySell'' FT_STRING (Some [''0'', ''1'', ''2'']) None None None,
      numeric_field FO_LEG2_DISCLOSED_VOL ''Leg2DisclosedVolume'',
      numeric_field FO_LEG2_DISCLOSED_VOL_REMAINING ''Leg2DisclosedVolumeRemaining'',
      numeric_field FO_LEG2_TOTAL_VOL_REMAINING ''Leg2TotalVolumeRemaining'',
      numeric_field FO_LEG2_VOLUME ''Leg2Volume'',
      numeric_field FO_LEG2_VOLUME_FILLED_TODAY ''Leg2VolumeFilledToday'',
      make_field FO_LEG2_PRICE ''Leg2Price'' FT_PRICE None None None (Some fo_price_decimals),
      make_field FO_LEG2_TRIGGER_PRICE ''Leg2TriggerPrice'' FT_PRICE None None None (Some fo_price_decimals),
      numeric_field FO_LEG2_MIN_FILL_AON ''Leg2MinimumFillOrAon'',
      text_field FO_LEG2_OPEN_CLOSE ''Leg2OpenClose'' (Some 1),
      numeric_field FO_LEG2_ORDER_TYPE ''Leg2OrderType'',
      numeric_field FO_DOWNLOAD_SEQUENCE ''DownloadSequence'',
      text_field FO_DOWNLOAD_DATA ''Data'' None,
      text_field FO_KEY ''Key'' (Some 14),
      text_field FO_ERROR_MESSAGE ''ErrorMessage'' (Some 128),
      text_field FO_RESPONSE_ORDER_NUMBER ''ResponseOrderNumber'' (Some 20),
      numeric_field FO_TRADER_NUMBER ''TraderNumber'',
      numeric_field FO_FILL_NUMBER ''FillNumber'',
      make_field FO_FILL_QTY ''FillQty'' FT_QTY None None None None,
      make_field FO_FILL_PRICE ''FillPrice'' FT_PRICE None None None (Some fo_price_decimals),
      make_field FO_ACTIVITY_TYPE ''ActivityType'' FT_STRING None None None None,
      numeric_field FO_ACTIVITY_TIME ''ActivityTime'',
      text_field FO_COUNTER_TRADER_ORDER_NUMBER ''CounterTraderOrderNumber'' (Some 20),
      text_field FO_COUNTER_BROKER_ID ''CounterBrokerId'' (Some 5),
      text_field FO_OLD_OPEN_CLOSE ''OldOpenClose'' (Some 1),
      text_field FO_OLD_ACCOUNT_NUMBER ''OldAccountNumber'' (Some 10),
      text_field FO_PARTICIPANT ''Participant'' (Some 12),
      text_field FO_OLD_PARTICIPANT ''OldParticipant'' (Some 12),
      text_field FO_OLD_PAN ''OldPAN'' (Some 10),
      numeric_field FO_SIGNON_USER_ID ''UserId'',
      text_field FO_PASSWORD ''Password'' (Some 8),
      text_field FO_NEW_PASSWORD ''NewPassword'' (Some 8),
      text_field FO_TRADER_NAME ''TraderName'' (Some 26),
      numeric_field FO_LAST_PASSWORD_CHANGE ''LastPasswordChangeDate'',
      numeric_field FO_VERSION_NUMBER ''VersionNumber'',
      numeric_field FO_BATCH2_START_TIME ''Batch2StartTimeOrEndTime'',
      text_field FO_HOST_SWITCH_CONTEXT ''HostSwitchContext'' (Some 1),
      text_field FO_COLOUR ''Colour'' (Some 50),
      make_field FO_USER_TYPE ''UserType'' FT_STRING None None None None,
      text_field FO_SEQUENCE_NUMBER ''SequenceNumber'' (Some 20),
      text_field FO_WS_CLASS_NAME ''WsClassName'' (Some 14),
      text_field FO_BROKER_STATUS ''BrokerStatus'' (Some 1),
      text_field FO_SHOW_INDEX ''ShowIndex'' (Some 1),
      numeric_field FO_MEMBER_TYPE ''MemberType'',
      text_field FO_CLEARING_STATUS ''ClearingStatus'' (Some 1),
      text_field FO_BROKER_NAME ''BrokerName'' (Some 25),
      numeric_field FO_SIGNOFF_USER_ID ''SignOffUserId'',
      numeric_field FO_MARKET_INDEX ''MarketIndex'',
      numeric_field FO_DEFAULT_SETTLEMENT_NORMAL ''DefaultSettlementPeriodNormal'',
      numeric_field FO_DEFAULT_SETTLEMENT_SPOT ''DefaultSettlementPeriodSpot'',
      numeric_field FO_DEFAULT_SETTLEMENT_AUCTION ''DefaultSettlementPeriodAuction'',
      numeric_field FO_WARNING_PERCENT ''WarningPercent'',
      numeric_field FO_VOLUME_FREEZE_PERCENT ''VolumeFreezePercent'',
      numeric_field FO_SNAP_QUOTE_TIME ''SnapQuoteTime'',
      make_field FO_BOARD_LOT_QUANTITY ''BoardLotQuantity'' FT_QTY None None None None,
      make_field FO_TICK_SIZE ''TickSize'' FT_PRICE None None None (Some fo_price_decimals),
      numeric_field FO_MAXIMUM_GTC_DAYS ''MaximumGtcDays'',
      numeric_field FO_DISCLOSED_QUANTITY_PERCENT ''DisclosedQuantityPercentAllowed'',
      numeric_field FO_RISK_FREE_INTEREST_RATE ''RiskFreeInterestRate'',
      text_field FO_UPDATE_PORTFOLIO ''UpdatePortfolio'' (Some 1),
      numeric_field FO_LAST_UPDATE_PORTFOLIO_TIME ''LastUpdatePortfolioTime'',
      text_field FO_NORMAL_STATUS ''NormalMarketStatus'' None,
      text_field FO_ODDLOT_STATUS ''OddlotMarketStatus'' None,
      text_field FO_SPOT_STATUS ''SpotMarketStatus'' None,
      text_field FO_AUCTION_STATUS ''AuctionMarketStatus'' None,
      text_field FO_EX_NORMAL_STATUS ''ExNormalMarketStatus'' None,
      text_field FO_EX_ODDLOT_STATUS ''ExOddlotMarketStatus'' None,
      text_field FO_EX_SPOT_STATUS ''ExSpotMarketStatus'' None,
      text_field FO_EX_AUCTION_STATUS ''ExAuctionMarketStatus'' None,
      text_field FO_PL_NORMAL_STATUS ''PlNormalMarketStatus'' None,
      text_field FO_PL_ODDLOT_STATUS ''PlOddlotMarketStatus'' None,
      text_field FO_PL_SPOT_STATUS ''PlSpotMarketStatus'' None,
      text_field FO_PL_AUCTION_STATUS ''PlAuctionMarketStatus'' None,
      flag_field FO_SECURITY_AON ''SecurityAllowsAON'',
      flag_field FO_SECURITY_MIN_FILL ''SecurityAllowsMinimumFill'',
      flag_field FO_SECURITY_BOOKS_MERGED ''SecurityBooksMerged'',
      numeric_field FO_BOX_ID ''BoxId'',
      text_field FO_IP_ADDRESS ''IpAddress'' (Some 16),
      numeric_field FO_PORT ''Port'',
      text_field FO_SESSION_KEY ''SessionKey'' (Some 8),
      text_field FO_CRYPTOGRAPHIC_KEY ''CryptographicKey'' (Some 32),
      text_field FO_STATIC_IV ''StaticCryptographicIV'' (Some 8),
      text_field FO_DYNAMIC_IV ''DynamicCryptographicIV'' (Some 8),
      text_field FO_ADDITIONAL_KEY ''CryptographicAdditionalKey'' (Some 12),
      flag_field FO_FLAG_BOC ''BOC'',
      flag_field FO_FLAG_COL ''COL'',
      flag_field FO_FLAG_STPC_ADDITIONAL ''STPC'',
      flag_field FO_FLAG_ATO ''ATO'',
      flag_field FO_FLAG_MARKET ''Market'',
      flag_field FO_FLAG_SL ''SL'',
      flag_field FO_FLAG_MIT ''MIT'',
      flag_field FO_FLAG_DAY ''Day'',
      flag_field FO_FLAG_GTC ''GTC'',
      flag_field FO_FLAG_IOC ''IOC'',
      flag_field FO_FLAG_AON ''AON'',
      flag_field FO_FLAG_MF ''MF'',
      flag_field FO_FLAG_MATCHED_IND ''MatchedInd'',
      flag_field FO_FLAG_TRADED ''Traded'',
      flag_field FO_FLAG_MODIFIED ''Modified'',
      flag_field FO_FLAG_FROZEN ''Frozen'',
      flag_field FO_FLAG_PREOPEN ''Preopen'']"

definition fo_contract_tags :: "int list" where
  "fo_contract_tags =
     [FO_SYMBOL, FO_INSTRUMENT_NAME, FO_EXPIRY_DATE, FO_STRIKE_PRICE, FO_OPTION_TYPE, FO_CA_LEVEL]"

definition fo_order_tags :: "int list" where
  "fo_order_tags =
     fo_contract_tags @ [FO_PARTICIPANT_TYPE, FO_COMPETITOR_PERIOD, FO_SOLICITOR_PERIOD, FO_MOD_CXL_BY,
     FO_REASON_CODE, FO_TOKEN_NO, FO_COUNTERPARTY_BROKER_ID, FO_CLOSEOUT_FLAG, FO_ORDER_TYPE,
     FO_ORDER_NUMBER, FO_ACCOUNT_NUMBER, FO_BOOK_TYPE, FO_BUY_SELL, FO_DISCLOSED_VOL,
     FO_DISCLOSED_VOL_REMAINING, FO_TOTAL_VOL_REMAINING, FO_VOLUME, FO_VOLUME_FILLED_TODAY, FO_PRICE,
     FO_TRIGGER_PRICE, FO_GOOD_TILL_DATE, FO_ENTRY_DATE_TIME, FO_MIN_FILL_AON, FO_LAST_MODIFIED,
     FO_BRANCH_ID, FO_TRADER_ID, FO_BROKER_ID, FO_OPEN_CLOSE, FO_SETTLOR, FO_PRO_CLIENT,
     FO_SETTLEMENT_PERIOD, FO_NNF_FIELD, FO_MKT_REPLAY, FO_PAN, FO_ALGO_ID, FO_LAST_ACTIVITY_REFERENCE,
     FO_FLAG_ATO, FO_FLAG_MARKET, FO_FLAG_SL, FO_FLAG_MIT, FO_FLAG_DAY, FO_FLAG_GTC, FO_FLAG_IOC,
     FO_FLAG_AON, FO_FLAG_MF, FO_FLAG_MATCHED_IND, FO_FLAG_TRADED, FO_FLAG_MODIFIED, FO_FLAG_FROZEN,
     FO_FLAG_PREOPEN, FO_FLAG_BOC, FO_FLAG_COL, FO_FLAG_STPC_ADDITIONAL]"

definition fo_spread_tags :: "int list" where
  "fo_spread_tags =
     fo_order_tags @ [FO_PRICE_DIFF, FO_LEG2_TOKEN_NO, FO_LEG2_INSTRUMENT_NAME, FO_LEG2_SYMBOL,
     FO_LEG2_EXPIRY_DATE, FO_LEG2_STRIKE_PRICE, FO_LEG2_OPTION_TYPE, FO_LEG2_CA_LEVEL,
     FO_LEG2_BUY_SELL, FO_LEG2_DISCLOSED_VOL, FO_LEG2_DISCLOSED_VOL_REMAINING,
     FO_LEG2_TOTAL_VOL_REMAINING, FO_LEG2_VOLUME, FO_LEG2_VOLUME_FILLED_TODAY, FO_LEG2_PRICE,
     FO_LEG2_TRIGGER_PRICE, FO_LEG2_MIN_FILL_AON, FO_LEG2_OPEN_CLOSE, FO_LEG2_ORDER_TYPE]"

definition fo_price_mod_tags :: "int list" where
  "fo_price_mod_tags =
     [FO_TOKEN_NO, FO_TRADER_ID, FO_ORDER_NUMBER, FO_BUY_SELL, FO_PRICE, FO_VOLUME, FO_LAST_MODIFIED,
     FO_REFERENCE, FO_LAST_ACTIVITY_REFERENCE]"

definition fo_trade_tags :: "int list" where
  "fo_trade_tags =
     fo_contract_tags @ [FO_RESPONSE_ORDER_NUMBER, FO_BROKER_ID, FO_TRADER_NUMBER, FO_ACCOUNT_NUMBER,
     FO_BUY_SELL, FO_VOLUME, FO_DISCLOSED_VOL, FO_TOTAL_VOL_REMAINING, FO_DISCLOSED_VOL_REMAINING,
     FO_PRICE, FO_GOOD_TILL_DATE, FO_FILL_NUMBER, FO_FILL_QTY, FO_FILL_PRICE, FO_VOLUME_FILLED_TODAY,
     FO_ACTIVITY_TYPE, FO_ACTIVITY_TIME, FO_COUNTER_TRADER_ORDER_NUMBER, FO_COUNTER_BROKER_ID,
     FO_TOKEN_NO, FO_OPEN_CLOSE, FO_OLD_OPEN_CLOSE, FO_BOOK_TYPE, FO_OLD_ACCOUNT_NUMBER,
     FO_PARTICIPANT, FO_OLD_PARTICIPANT, FO_PAN, FO_OLD_PAN, FO_ALGO_ID, FO_LAST_ACTIVITY_REFERENCE,
     FO_FLAG_ATO, FO_FLAG_MARKET, FO_FLAG_SL, FO_FLAG_MIT, FO_FLAG_DAY, FO_FLAG_GTC, FO_FLAG_IOC,
     FO_FLAG_AON, FO_FLAG_MF, FO_FLAG_MATCHED_IND, FO_FLAG_TRADED, FO_FLAG_MODIFIED, FO_FLAG_FROZEN,
     FO_FLAG_PREOPEN, FO_FLAG_BOC, FO_FLAG_COL, FO_FLAG_STPC_ADDITIONAL]"

definition fo_signon_tags :: "int list" where
  "fo_signon_tags =
     [FO_SIGNON_USER_ID, FO_PASSWORD, FO_NEW_PASSWORD, FO_TRADER_NAME, FO_LAST_PASSWORD_CHANGE,
     FO_BROKER_ID, FO_BRANCH_ID, FO_VERSION_NUMBER, FO_BATCH2_START_TIME, FO_HOST_SWITCH_CONTEXT,
     FO_COLOUR, FO_USER_TYPE, FO_SEQUENCE_NUMBER, FO_WS_CLASS_NAME, FO_BROKER_STATUS, FO_SHOW_INDEX,
     FO_MEMBER_TYPE, FO_CLEARING_STATUS, FO_BROKER_NAME]"

definition fo_system_tags :: "int list" where
  "fo_system_tags =
     [FO_NORMAL_STATUS, FO_ODDLOT_STATUS, FO_SPOT_STATUS, FO_AUCTION_STATUS, FO_EX_NORMAL_STATUS,
     FO_EX_ODDLOT_STATUS, FO_EX_SPOT_STATUS, FO_EX_AUCTION_STATUS, FO_PL_NORMAL_STATUS,
     FO_PL_ODDLOT_STATUS, FO_PL_SPOT_STATUS, FO_PL_AUCTION_STATUS, FO_UPDATE_PORTFOLIO,
     FO_MARKET_INDEX, FO_DEFAULT_SETTLEMENT_NORMAL, FO_DEFAULT_SETTLEMENT_SPOT,
     FO_DEFAULT_SETTLEMENT_AUCTION, FO_COMPETITOR_PERIOD, FO_SOLICITOR_PERIOD, FO_WARNING_PERCENT,
     FO_VOLUME_FREEZE_PERCENT, FO_SNAP_QUOTE_TIME, FO_BOARD_LOT_QUANTITY, FO_TICK_SIZE,
     FO_MAXIMUM_GTC_DAYS, FO_SECURITY_AON, FO_SECURITY_MIN_FILL, FO_SECURITY_BOOKS_MERGED,
     FO_DISCLOSED_QUANTITY_PERCENT, FO_RISK_FREE_INTEREST_RATE]"

definition fo_application_messages :: "message_def list" where
  "fo_application_messages =
     [dialect_message X_SECURE_BOX_REGISTRATION_REQUEST_IN ''SECURE_BOX_REGISTRATION_REQUEST_IN'' [FO_BOX_ID] True,
      dialect_message X_SECURE_BOX_REGISTRATION_REQUEST_OUT ''SECURE_BOX_REGISTRATION_RESPONSE_OUT'' [] False,
      dialect_message X_BOX_SIGN_ON_REQUEST_IN ''BOX_SIGN_ON_REQUEST_IN'' [FO_BOX_ID, FO_BROKER_ID, FO_SESSION_KEY] True,
      dialect_message X_BOX_SIGN_ON_REQUEST_OUT ''BOX_SIGN_ON_REQUEST_OUT'' [FO_BOX_ID] False,
      dialect_message X_BOX_SIGN_OFF ''BOX_SIGN_OFF'' [FO_BOX_ID] False,
      dialect_message X_GR_REQUEST ''GR_REQUEST'' [FO_BOX_ID, FO_BROKER_ID] True,
      dialect_message X_GR_RESPONSE ''GR_RESPONSE'' [FO_BOX_ID, FO_BROKER_ID, FO_IP_ADDRESS, FO_PORT, FO_SESSION_KEY, FO_CRYPTOGRAPHIC_KEY, FO_STATIC_IV, FO_DYNAMIC_IV, FO_ADDITIONAL_KEY] False,
      dialect_message X_SIGN_ON_REQUEST_IN ''MS_SIGNON'' fo_signon_tags True,
      dialect_message X_SIGN_ON_REQUEST_OUT ''MS_SIGNON'' fo_signon_tags False,
      dialect_message X_SIGN_OFF_REQUEST_IN ''SIGN_OFF_REQUEST_IN'' [] True,
      dialect_message X_SIGN_OFF_REQUEST_OUT ''SIGNOFF_OUT'' [FO_SIGNOFF_USER_ID] False,
      dialect_message X_HEARTBEAT ''HEARTBEAT'' [] True,
      dialect_message X_ERROR_RESPONSE_OUT ''MS_ERROR_RESPONSE'' [FO_KEY, FO_ERROR_MESSAGE] False,
      dialect_message X_SYSTEM_INFORMATION_IN ''MS_SYSTEM_INFO_REQ'' [FO_LAST_UPDATE_PORTFOLIO_TIME] True,
      dialect_message X_SYSTEM_INFORMATION_OUT ''MS_SYSTEM_INFO_DATA'' fo_system_tags False,
      dialect_message X_BOARD_LOT_IN ''MS_OE_REQUEST'' fo_order_tags True,
      dialect_message X_ORDER_MOD_IN ''MS_OE_REQUEST'' fo_order_tags True,
      dialect_message X_ORDER_CANCEL_IN ''MS_OE_REQUEST'' fo_order_tags True,
      dialect_message X_ORDER_CONFIRMATION ''MS_OE_REQUEST'' fo_order_tags False,
      dialect_message X_ORDER_MOD_CONFIRMATION ''MS_OE_REQUEST'' fo_order_tags False,
      dialect_message X_ORDER_CANCEL_CONFIRMATION ''MS_OE_REQUEST'' fo_order_tags False,
      dialect_message X_ORDER_ERROR ''MS_OE_REQUEST'' fo_order_tags False,
      dialect_message X_ORDER_MOD_REJECT ''MS_OE_REQUEST'' fo_order_tags False,
      dialect_message X_ORDER_CANCEL_REJECT ''MS_OE_REQUEST'' fo_order_tags False,
      dialect_message X_PRICE_CONFIRMATION ''MS_OE_REQUEST'' fo_order_tags False,
      dialect_message X_PRICE_MOD_IN ''PRICE_MOD'' fo_price_mod_tags True,
      dialect_message X_SP_BOARD_LOT_IN ''MS_SPD_OE_REQUEST'' fo_spread_tags True,
      dialect_message X_SP_ORDER_MOD_IN ''MS_SPD_OE_REQUEST'' fo_spread_tags True,
      dialect_message X_SP_ORDER_CANCEL_IN ''MS_SPD_OE_REQUEST'' fo_spread_tags True,
      dialect_message X_SP_ORDER_CONFIRMATION ''MS_SPD_OE_REQUEST'' fo_spread_tags False,
      dialect_message X_SP_ORDER_MOD_CON_OUT ''MS_SPD_OE_REQUEST'' fo_spread_tags False,
      dialect_message X_SP_ORDER_CXL_CONFIRMATION ''MS_SPD_OE_REQUEST'' fo_spread_tags False,
      dialect_message X_SP_ORDER_ERROR ''MS_SPD_OE_REQUEST'' fo_spread_tags False,
      dialect_message X_SP_ORDER_MOD_REJ_OUT ''MS_SPD_OE_REQUEST'' fo_spread_tags False,
      dialect_message X_SP_ORDER_CXL_REJ_OUT ''MS_SPD_OE_REQUEST'' fo_spread_tags False,
      dialect_message X_BATCH_SPREAD_CXL_OUT ''MS_SPD_OE_REQUEST'' fo_spread_tags False,
      dialect_message X_TWOL_BOARD_LOT_IN ''MS_SPD_OE_REQUEST'' fo_spread_tags True,
      dialect_message X_THRL_BOARD_LOT_IN ''MS_SPD_OE_REQUEST'' fo_spread_tags True,
      dialect_message X_TWOL_ORDER_CONFIRMATION ''MS_SPD_OE_REQUEST'' fo_spread_tags False,
      dialect_message X_THRL_ORDER_CONFIRMATION ''MS_SPD_OE_REQUEST'' fo_spread_tags False,
      dialect_message X_TWOL_ORDER_CXL_CONFIRMATION ''MS_SPD_OE_REQUEST'' fo_spread_tags False,
      dialect_message X_THRL_ORDER_CXL_CONFIRMATION ''MS_SPD_OE_REQUEST'' fo_spread_tags False,
      dialect_message X_TWOL_ORDER_ERROR ''MS_SPD_OE_REQUEST'' fo_spread_tags False,
      dialect_message X_THRL_ORDER_ERROR ''MS_SPD_OE_REQUEST'' fo_spread_tags False,
      dialect_message X_BOARD_LOT_IN_TR ''MS_OE_REQUEST_TR'' fo_order_tags True,
      dialect_message X_ORDER_MOD_IN_TR ''MS_OM_REQUEST_TR'' fo_order_tags True,
      dialect_message X_ORDER_CANCEL_IN_TR ''MS_OM_REQUEST_TR'' fo_order_tags True,
      dialect_message X_ORDER_CONFIRMATION_TR ''MS_OE_RESPONSE_TR'' fo_order_tags False,
      dialect_message X_ORDER_MOD_CONFIRMATION_TR ''MS_OE_RESPONSE_TR'' fo_order_tags False,
      dialect_message X_ORDER_CXL_CONFIRMATION_TR ''MS_OE_RESPONSE_TR'' fo_order_tags False,
      dialect_message X_TRADE_CONFIRMATION ''MS_TRADE_CONFIRM'' fo_trade_tags False,
      dialect_message X_TRADE_CONFIRMATION_TR ''MS_TRADE_CONFIRM_TR'' fo_trade_tags False,
      dialect_message X_DOWNLOAD_REQUEST ''MESSAGE_DOWNLOAD'' [FO_DOWNLOAD_SEQUENCE] True,
      dialect_message X_HEADER_RECORD ''HEADER_RECORD'' [] False,
      dialect_message X_MESSAGE_RECORD ''MESSAGE_RECORD'' [FO_DOWNLOAD_DATA] False,
      dialect_message X_TRAILER_RECORD ''TRAILER_RECORD'' [] False]"

definition fo_dialect :: dictionary where
  "fo_dialect =
     make_dictionary (fo_header_fields @ fo_application_fields) fo_application_messages
       (map fd_tag fo_header_fields) []"


end
