(* ===== verification/Nsefo_Rules.thy ===== *)
theory Nsefo_Rules
  imports Nsefo_Dictionary Nse_Rules
begin

section \<open>The vocabulary of the derivatives segment (\<open>venues/nsefo/rules.py\<close>)\<close>

text \<open>
  The tables of the module, which it keeps apart from those of the equity segment on purpose:
  the published codes differ. A table that is only read with a default is a function; one that
  is iterated is a list. The two functions that the modules share word for word, and which read
  no tag, are those of \<open>Nse_Rules\<close> (\<open>code_of\<close>, \<open>is_recoverable\<close>).
\<close>

subsection \<open>Values\<close>

definition fo_side_to_core :: "string option \<Rightarrow> side" where
  "fo_side_to_core v = (if v = Some ''1'' then BUY else if v = Some ''2'' then SELL else NO_SIDE)"

definition fo_side_to_wire :: "side \<Rightarrow> string option" where
  "fo_side_to_wire s = (if s = BUY then Some ''1'' else if s = SELL then Some ''2'' else None)"

definition opposite_side :: "string option \<Rightarrow> string option" where
  "opposite_side v = (if v = Some ''1'' then Some ''2'' else if v = Some ''2'' then Some ''1'' else None)"

definition fo_capacity_to_core :: "string option \<Rightarrow> capacity option" where
  "fo_capacity_to_core v = (if v = Some ''1'' then Some AGENCY else if v = Some ''2'' then Some PRINCIPAL else None)"

definition fo_capacity_to_wire :: "capacity option \<Rightarrow> string option" where
  "fo_capacity_to_wire c = (case c of None \<Rightarrow> None | Some AGENCY \<Rightarrow> Some ''1'' | Some PRINCIPAL \<Rightarrow> Some ''2'')"

fun fo_market_status :: "trading_state \<Rightarrow> string" where
  "fo_market_status PRE_OPEN = ''0''"
| "fo_market_status OPENING_AUCTION = ''3''"
| "fo_market_status OPEN = ''1''"
| "fo_market_status CLOSED = ''2''"
| "fo_market_status HALTED = ''2''"
| "fo_market_status LUNCH_BREAK = ''2''"
| "fo_market_status CLOSING_AUCTION = ''2''"

definition fo_activity_trade :: string where "fo_activity_trade = ''2''"

subsection \<open>What the venue refuses\<close>

definition fo_supported_book :: string where "fo_supported_book = ''1''"

definition fo_unsupported_books :: "(string \<times> int) list" where
  "fo_unsupported_books =
     [(''2'', 16406), (''3'', 16406), (''4'', 16561), (''5'', 16406), (''6'', 16406), (''7'', 16406)]"

definition sl_not_allowed :: int where "sl_not_allowed = 16445"
definition mit_not_allowed :: int where "mit_not_allowed = 16446"

definition fo_unsupported_attributes :: "(int \<times> int) list" where
  "fo_unsupported_attributes = [(FO_FLAG_AON, 16319), (FO_FLAG_MF, 16320), (FO_FLAG_GTC, 16667)]"

definition disclosed_volume_error :: int where "disclosed_volume_error = 16400"
definition giveup_not_allowed :: int where "giveup_not_allowed = 16415"
definition stpc_not_allowed :: int where "stpc_not_allowed = 16415"
definition bad_transaction_code :: int where "bad_transaction_code = 16003"
definition fo_invalid_order_param :: int where "fo_invalid_order_param = 16415"

definition spread_code_errors :: "(int \<times> int) list" where
  "spread_code_errors =
     [(2100, 16607), (2106, 16607), (2118, 16607), (2102, bad_transaction_code), (2104, bad_transaction_code)]"

fun fo_reject_to_error_code :: "reject_reason \<Rightarrow> int" where
  "fo_reject_to_error_code RR_UNKNOWN_SYMBOL = 16012"
| "fo_reject_to_error_code RR_MARKET_CLOSED = 16000"
| "fo_reject_to_error_code RR_EXCEEDS_QUANTITY_LIMIT = 16282"
| "fo_reject_to_error_code RR_EXCEEDS_VALUE_LIMIT = 16600"
| "fo_reject_to_error_code RR_DUPLICATE_ORDER = 16043"
| "fo_reject_to_error_code RR_UNSUPPORTED_CHARACTERISTIC = 16415"
| "fo_reject_to_error_code RR_INVALID_QUANTITY = 16328"
| "fo_reject_to_error_code RR_INVALID_PRICE = 16247"
| "fo_reject_to_error_code RR_PRICE_OUTSIDE_BAND = 16284"
| "fo_reject_to_error_code RR_TICK_SIZE = 16283"
| "fo_reject_to_error_code RR_POST_ONLY_WOULD_CROSS = 16415"
| "fo_reject_to_error_code RR_UNKNOWN_MPID = 16414"
| "fo_reject_to_error_code RR_OTHER = 16415"

fun fo_cancel_reject_to_error_code :: "cancel_reject_reason \<Rightarrow> int" where
  "fo_cancel_reject_to_error_code CX_TOO_LATE_TO_CANCEL = 16013"
| "fo_cancel_reject_to_error_code CX_UNKNOWN_ORDER = 16013"
| "fo_cancel_reject_to_error_code CX_ALREADY_PENDING = 16346"
| "fo_cancel_reject_to_error_code CX_DUPLICATE_CLORDID = 16043"
| "fo_cancel_reject_to_error_code CX_PRICE_OUTSIDE_BAND = 16284"
| "fo_cancel_reject_to_error_code CX_MISMATCHED_FIELD = 16346"
| "fo_cancel_reject_to_error_code CX_OTHER = 16346"

definition fo_failure_to_error_code :: "int \<Rightarrow> int" where
  "fo_failure_to_error_code reason =
     (if reason \<in> {0, 2, 11} then 16003 else if reason \<in> {5, 6} then 16415 else fo_invalid_order_param)"

subsection \<open>The three families of the order flow\<close>

definition fo_trimmed_requests :: "(int \<times> int) list" where
  "fo_trimmed_requests =
     [(X_BOARD_LOT_IN_TR, X_BOARD_LOT_IN), (X_ORDER_MOD_IN_TR, X_ORDER_MOD_IN),
      (X_ORDER_CANCEL_IN_TR, X_ORDER_CANCEL_IN)]"

definition fo_trimmed_responses :: "(int \<times> int) list" where
  "fo_trimmed_responses =
     [(X_ORDER_CONFIRMATION, X_ORDER_CONFIRMATION_TR), (X_ORDER_MOD_CONFIRMATION, X_ORDER_MOD_CONFIRMATION_TR),
      (X_ORDER_CANCEL_CONFIRMATION, X_ORDER_CXL_CONFIRMATION_TR), (X_TRADE_CONFIRMATION, X_TRADE_CONFIRMATION_TR),
      (X_ORDER_ERROR, X_ORDER_CONFIRMATION_TR), (X_ORDER_MOD_REJECT, X_ORDER_MOD_CONFIRMATION_TR),
      (X_ORDER_CANCEL_REJECT, X_ORDER_CXL_CONFIRMATION_TR)]"

text \<open>The plain twin of a trimmed response: without and with an error.\<close>

definition fo_untrimmed_responses :: "(int \<times> (int \<times> int)) list" where
  "fo_untrimmed_responses =
     [(X_ORDER_CONFIRMATION_TR, (X_ORDER_CONFIRMATION, X_ORDER_ERROR)),
      (X_ORDER_MOD_CONFIRMATION_TR, (X_ORDER_MOD_CONFIRMATION, X_ORDER_MOD_REJECT)),
      (X_ORDER_CXL_CONFIRMATION_TR, (X_ORDER_CANCEL_CONFIRMATION, X_ORDER_CANCEL_REJECT)),
      (X_TRADE_CONFIRMATION_TR, (X_TRADE_CONFIRMATION, X_TRADE_CONFIRMATION))]"

definition spread_responses :: "(int \<times> int) list" where
  "spread_responses =
     [(X_ORDER_CONFIRMATION, X_SP_ORDER_CONFIRMATION), (X_ORDER_MOD_CONFIRMATION, X_SP_ORDER_MOD_CON_OUT),
      (X_ORDER_CANCEL_CONFIRMATION, X_SP_ORDER_CXL_CONFIRMATION), (X_ORDER_ERROR, X_SP_ORDER_ERROR),
      (X_ORDER_MOD_REJECT, X_SP_ORDER_MOD_REJ_OUT), (X_ORDER_CANCEL_REJECT, X_SP_ORDER_CXL_REJ_OUT)]"

definition fo_plain_code :: "fix_message \<Rightarrow> int option" where
  "fo_plain_code m = (case code_of m of None \<Rightarrow> None | Some c \<Rightarrow> map_of fo_trimmed_requests c)"

definition fo_trimmed_code :: "int \<Rightarrow> bool \<Rightarrow> int" where
  "fo_trimmed_code code trimmed =
     (if trimmed then (case map_of fo_trimmed_responses code of None \<Rightarrow> code | Some c \<Rightarrow> c) else code)"

definition spread_code :: "int \<Rightarrow> bool \<Rightarrow> int" where
  "spread_code code spread =
     (if spread then (case map_of spread_responses code of None \<Rightarrow> code | Some c \<Rightarrow> c) else code)"

definition fo_untrimmed :: "fix_message \<Rightarrow> fix_message" where
  "fo_untrimmed m =
     (case code_of m of None \<Rightarrow> m
      | Some c \<Rightarrow> (case map_of fo_untrimmed_responses c of None \<Rightarrow> m
          | Some (confirmation, refusal) \<Rightarrow>
             (let failed = truthy (msg_get m FO_ERROR_CODE) \<and> msg_get m FO_ERROR_CODE \<noteq> Some ''0''
              in msg_set TAG_MSG_TYPE (string_of_int (if failed then refusal else confirmation)) m)))"

definition spread_not_allowed_here :: int where "spread_not_allowed_here = 16607"
definition qty_should_be_same :: int where "qty_should_be_same = 16610"
definition expiry_not_ascending :: int where "expiry_not_ascending = 16626"
definition invalid_contract_combination :: int where "invalid_contract_combination = 16627"
definition spread_different_underlying :: int where "spread_different_underlying = 16631"
definition spread_ioc_not_allowed :: int where "spread_ioc_not_allowed = 16607"

subsection \<open>Order attributes\<close>

definition fo_time_in_force :: "fix_message \<Rightarrow> time_in_force" where
  "fo_time_in_force m = (if msg_get m FO_FLAG_IOC = Some ''Y'' then IOC else DAY)"

definition fo_order_type :: "fix_message \<Rightarrow> order_type" where
  "fo_order_type m =
     (if msg_get m FO_FLAG_MARKET = Some ''Y'' \<or> msg_get m FO_FLAG_ATO = Some ''Y'' then MARKET else LIMIT)"

definition fo_order_flags :: "order \<Rightarrow> (int \<times> bool) list" where
  "fo_order_flags y =
     [(FO_FLAG_ATO, False), (FO_FLAG_MARKET, o_order_type y = Some MARKET), (FO_FLAG_SL, False), (FO_FLAG_MIT, False),
      (FO_FLAG_DAY, o_time_in_force y = DAY), (FO_FLAG_GTC, False), (FO_FLAG_IOC, o_time_in_force y \<in> immediate_tif),
      (FO_FLAG_AON, False), (FO_FLAG_MF, False), (FO_FLAG_MATCHED_IND, False), (FO_FLAG_TRADED, 0 < o_cum_qty y),
      (FO_FLAG_MODIFIED, o_orig_cl_ord_id y \<noteq> None), (FO_FLAG_FROZEN, False), (FO_FLAG_PREOPEN, False)]"

definition fo_set_flags :: "order \<Rightarrow> fix_message \<Rightarrow> fix_message" where
  "fo_set_flags y m =
     set_fields (map (\<lambda>tag. (tag, ''N'')) [FO_FLAG_BOC, FO_FLAG_COL, FO_FLAG_STPC_ADDITIONAL])
       (set_fields (map (\<lambda>(tag, v). (tag, yes_no v)) (fo_order_flags y)) m)"

subsection \<open>Limits\<close>

text \<open>The constructor of the circuit filter, which refuses what is not a positive percentage.\<close>

definition circuit_filter :: "int \<Rightarrow> exn + price_range" where
  "circuit_filter percent = (if percent \<le> 0 then Inl ValueError else Inr (CircuitFilter percent))"

definition fo_limits :: "int option \<Rightarrow> int option \<Rightarrow> validation_limits" where
  "fo_limits value quantity =
     make_limits value quantity True True True {LIMIT, MARKET} {DAY, IOC} True None None"

subsection \<open>Reading the tables\<close>

lemma fo_untrimmed_idem: "fo_untrimmed (fo_untrimmed m) = fo_untrimmed m"
  by (auto simp: fo_untrimmed_def fo_untrimmed_responses_def code_of_def msg_type_of_def Let_def
      msg_get_set split: option.split)

lemma opposite_sides:
  "s \<in> {BUY, SELL} \<Longrightarrow> opposite_side (fo_side_to_wire s) = fo_side_to_wire (if s = BUY then SELL else BUY)"
  by (auto simp: opposite_side_def fo_side_to_wire_def)

end
