(* ===== verification/Nsefo_Contracts.thy ===== *)
theory Nsefo_Contracts
  imports Nsefo_Rules Engine
begin

section \<open>Contracts and spread combinations (\<open>venues/nsefo/venue.py\<close>)\<close>

text \<open>
  The reference data of the derivatives segment: a contract has one canonical name and the five
  wire values that name it, a spread combination joins two listed futures. The tables are built
  from the rows of the two files as the \<open>csv\<close> module delivers them; reading the files is not
  modelled. A Python set of names is a list without repetition, of which the code only asks
  whether it has exactly one element.
\<close>

record fo_contract =
  fc_canonical :: string
  fc_instrument_name :: string
  fc_symbol :: string
  fc_expiry_seconds :: int
  fc_strike_text :: string
  fc_option_type :: string

definition is_future :: "fo_contract \<Rightarrow> bool" where
  "is_future c \<longleftrightarrow> fc_instrument_name c \<in> {''FUTIDX'', ''FUTSTK''}"

type_synonym wire_key = "string \<times> string \<times> int \<times> string \<times> string"

definition contract_wire_key :: "fo_contract \<Rightarrow> wire_key" where
  "contract_wire_key c =
     (fc_instrument_name c, fc_symbol c, fc_expiry_seconds c, fc_strike_text c, fc_option_type c)"

record spread_combination =
  sp_canonical :: string
  sp_near :: fo_contract
  sp_far :: fo_contract
  sp_base_diff :: int
  sp_range_low :: int
  sp_range_high :: int

definition sp_leg :: "spread_combination \<Rightarrow> int \<Rightarrow> fo_contract" where
  "sp_leg s index = (if index = 1 then sp_near s else sp_far s)"

definition spread_name :: "fo_contract \<Rightarrow> fo_contract \<Rightarrow> string" where
  "spread_name near far = fc_canonical near @ ''/'' @ last (split_on (CHR ''-'') (fc_canonical far))"

subsection \<open>Dates\<close>

definition expiry_parts :: "string \<Rightarrow> exn + int \<times> int \<times> int" where
  "expiry_parts date =
     (case split_on (CHR ''-'') date of
        [y, m, d] \<Rightarrow> bind_exn (int_of_text y) (\<lambda>year. bind_exn (int_of_text m) (\<lambda>month. bind_exn (int_of_text d) (\<lambda>day.
          Inr (year, month, day))))
      | _ \<Rightarrow> Inl ValueError)"

definition month_names :: "string list" where
  "month_names = [''JAN'', ''FEB'', ''MAR'', ''APR'', ''MAY'', ''JUN'', ''JUL'', ''AUG'', ''SEP'', ''OCT'', ''NOV'', ''DEC'']"

text \<open>\<open>_MONTHS[month - 1]\<close>: a month of zero is the last name, as an index from the end.\<close>

definition month_name :: "int \<Rightarrow> exn + string" where
  "month_name m =
     (if 1 \<le> m \<and> m \<le> 12 then Inr (month_names ! nat (m - 1))
      else if - 11 \<le> m \<and> m \<le> 0 then Inr (month_names ! nat (m + 11))
      else Inl IndexError)"

definition expiry_display :: "string \<Rightarrow> exn + string" where
  "expiry_display date =
     bind_exn (expiry_parts date) (\<lambda>(year, month, day). bind_exn (month_name month) (\<lambda>name.
       Inr (pad_int 2 day @ name @ string_of_int year)))"

text \<open>
  \<open>calendar.timegm\<close> takes the ordinal of the first of the month, which must be a date, and adds
  the day, which need not be one of the month.
\<close>

definition is_leap :: "int \<Rightarrow> bool" where
  "is_leap y \<longleftrightarrow> y mod 4 = 0 \<and> (y mod 100 \<noteq> 0 \<or> y mod 400 = 0)"

definition days_before_year :: "int \<Rightarrow> int" where
  "days_before_year y = (let p = y - 1 in p * 365 + p div 4 - p div 100 + p div 400)"

definition days_before_month :: "int \<Rightarrow> nat \<Rightarrow> int" where
  "days_before_month y m =
     [0, 31, 59, 90, 120, 151, 181, 212, 243, 273, 304, 334] ! (m - 1) + (if 2 < m \<and> is_leap y then 1 else 0)"

definition first_of_month :: "int \<Rightarrow> int \<Rightarrow> exn + int" where
  "first_of_month y m =
     (if y < - (2 ^ 31) \<or> 2 ^ 31 \<le> y then Inl OverflowError
      else if 1 \<le> y \<and> y \<le> 9999 \<and> 1 \<le> m \<and> m \<le> 12 then Inr (days_before_year y + days_before_month y (nat m) + 1)
      else Inl ValueError)"

definition epoch_ordinal :: int where "epoch_ordinal = 719163"

definition expiry_seconds :: "string \<Rightarrow> exn + int" where
  "expiry_seconds date =
     bind_exn (expiry_parts date) (\<lambda>(year, month, day). bind_exn (first_of_month year month) (\<lambda>first.
       Inr ((first - epoch_ordinal + day - 1) * 24 * 60 * 60 - epoch_offset)))"

text \<open>\<open>time.gmtime\<close>: the year, the month and the day of a number of seconds since 1970.\<close>

definition civil_of_seconds :: "int \<Rightarrow> int \<times> nat \<times> int" where
  "civil_of_seconds secs =
     (let n0 = secs div 86400 + epoch_ordinal - 1;
          n400 = n0 div 146097; r400 = n0 mod 146097;
          n100 = r400 div 36524; r100 = r400 mod 36524;
          n4 = r100 div 1461; r4 = r100 mod 1461;
          n1 = r4 div 365; n = r4 mod 365;
          year = n400 * 400 + n100 * 100 + n4 * 4 + n1 + 1
      in if n1 = 4 \<or> n100 = 4 then (year - 1, 12, 31)
         else (let month = length (filter (\<lambda>m. days_before_month year m \<le> n) [1..<13])
               in (year, month, n - days_before_month year month + 1)))"

definition iso_of :: "int \<Rightarrow> string" where
  "iso_of secs =
     (case civil_of_seconds (from_nse_seconds secs) of (year, month, day) \<Rightarrow>
        pad_int 4 year @ ''-'' @ pad_int 2 (int month) @ ''-'' @ pad_int 2 day)"

subsection \<open>Names\<close>

definition trim_strike :: "string \<Rightarrow> string" where
  "trim_strike t = (if starts_with (rev ''.00'') (rev t) then take (length t - 3) t else t)"

definition canonical_name :: "string \<Rightarrow> string \<Rightarrow> string \<Rightarrow> string \<Rightarrow> string \<Rightarrow> string" where
  "canonical_name sy inst display strike opt =
     (if inst \<in> {''FUTIDX'', ''FUTSTK''} then sy @ ''-'' @ inst @ ''-'' @ display
      else sy @ ''-'' @ inst @ ''-'' @ display @ ''-'' @ trim_strike strike @ ''-'' @ opt)"

fun fold_dashes :: "bool \<Rightarrow> string \<Rightarrow> string" where
  "fold_dashes dashed [] = []"
| "fold_dashes dashed (c # cs) =
     (if c \<in> {CHR ''-'', CHR ''_'', CHR '' '', CHR 0x09}
      then (if dashed then fold_dashes True cs else CHR ''-'' # fold_dashes True cs)
      else c # fold_dashes False cs)"

definition normalize_name :: "string \<Rightarrow> string" where
  "normalize_name v = trim (\<lambda>c. c = CHR ''-'') (fold_dashes False (upper (strip v)))"

subsection \<open>One row of each file\<close>

text \<open>\<open>row[column].strip()\<close>: a row shorter than the header has no value there.\<close>

definition text_cell :: "csv_row \<Rightarrow> string \<Rightarrow> exn + string" where
  "text_cell r col =
     (case map_of r col of None \<Rightarrow> Inl KeyError | Some None \<Rightarrow> Inl AttributeError | Some (Some v) \<Rightarrow> Inr (strip v))"

definition upper_cell :: "csv_row \<Rightarrow> string \<Rightarrow> exn + string" where
  "upper_cell r col = bind_exn (text_cell r col) (\<lambda>t. Inr (upper t))"

definition int_cell :: "csv_row \<Rightarrow> string \<Rightarrow> exn + int" where
  "int_cell r col = int_of_text (show_opt (cell r col))"

definition strike_of_row :: "price_codec \<Rightarrow> csv_row \<Rightarrow> exn + string" where
  "strike_of_row c r =
     (let raw = strip (case cell r ''strike'' of None \<Rightarrow> [] | Some v \<Rightarrow> v) in
      if raw = [] then Inr ''-1'' else bind_exn (parse_price c raw) (format_price c))"

definition build_contract :: "price_codec \<Rightarrow> csv_row \<Rightarrow> exn + fo_contract \<times> instrument" where
  "build_contract c r =
     bind_exn (upper_cell r ''instrument_name'') (\<lambda>inst.
     bind_exn (upper_cell r ''symbol'') (\<lambda>sy.
     bind_exn (text_cell r ''expiry'') (\<lambda>date.
     bind_exn (upper_cell r ''option_type'') (\<lambda>opt.
     bind_exn (int_cell r ''lot_size'') (\<lambda>lot.
     bind_exn (parse_cell c r ''base_price'') (\<lambda>base.
     bind_exn (parse_cell c r ''tick'') (\<lambda>tick.
     bind_exn (int_cell r ''band_pct'') (\<lambda>percent.
     bind_exn (strike_of_row c r) (\<lambda>strike.
     bind_exn (expiry_display date) (\<lambda>display.
     bind_exn (expiry_seconds date) (\<lambda>secs.
       (let canonical = canonical_name sy inst display strike opt in
        bind_exn (circuit_filter percent) (\<lambda>band.
        bind_exn (make_tick_table [(0, [(None, tick)])] canonical) (\<lambda>ticks.
          Inr (\<lparr>fc_canonical = canonical, fc_instrument_name = inst, fc_symbol = sy, fc_expiry_seconds = secs,
                fc_strike_text = strike, fc_option_type = opt\<rparr>,
               make_instrument canonical canonical lot 0 (Some base) None (Some band) (Some ticks) True False)))))))))))))))"

text \<open>A leg of a combination: a listed future, found by the name it would have.\<close>

definition spread_leg :: "(string \<times> fo_contract) list \<Rightarrow> string \<Rightarrow> string \<Rightarrow> string \<Rightarrow> exn + fo_contract" where
  "spread_leg contracts sy inst date =
     bind_exn (expiry_display date) (\<lambda>display.
       case map_of contracts (canonical_name sy inst display ''-1'' ''XX'') of None \<Rightarrow> Inl ReferenceDataError
       | Some ct \<Rightarrow> (if is_future ct then Inr ct else Inl ReferenceDataError))"

definition lookup_leg :: "(string \<times> instrument) list \<Rightarrow> fo_contract \<Rightarrow> exn + instrument" where
  "lookup_leg insts ct = (case map_of insts (fc_canonical ct) of None \<Rightarrow> Inl KeyError | Some i \<Rightarrow> Inr i)"

definition build_spread :: "price_codec \<Rightarrow> (string \<times> instrument) list \<Rightarrow> (string \<times> fo_contract) list \<Rightarrow> csv_row \<Rightarrow>
    exn + spread_combination \<times> instrument" where
  "build_spread c insts contracts r =
     bind_exn (upper_cell r ''instrument_name'') (\<lambda>inst.
     bind_exn (upper_cell r ''symbol'') (\<lambda>sy.
     bind_exn (bind_exn (text_cell r ''near_expiry'') (spread_leg contracts sy inst)) (\<lambda>near.
     bind_exn (bind_exn (text_cell r ''far_expiry'') (spread_leg contracts sy inst)) (\<lambda>far.
     if fc_expiry_seconds far \<le> fc_expiry_seconds near then Inl ReferenceDataError
     else bind_exn (lookup_leg insts near) (\<lambda>near_leg. bind_exn (lookup_leg insts far) (\<lambda>far_leg.
       if in_lot_size near_leg \<noteq> in_lot_size far_leg then Inl ReferenceDataError
       else bind_exn (parse_cell c r ''base_diff'') (\<lambda>base.
         bind_exn (parse_cell c r ''range_low'') (\<lambda>low.
         bind_exn (parse_cell c r ''range_high'') (\<lambda>high.
           (let canonical = spread_name near far in
            Inr (\<lparr>sp_canonical = canonical, sp_near = near, sp_far = far, sp_base_diff = base, sp_range_low = low,
                  sp_range_high = high\<rparr>,
                 (make_instrument canonical canonical (in_lot_size near_leg) 0 (Some base) None None (in_tick_table near_leg)
                   True True)\<lparr>in_band_override := Some (low, high)\<rparr>)))))))))))"

subsection \<open>Loading\<close>

text \<open>
  The loaders turn the errors of a value into an error of the configuration; anything else
  leaves them as it is.
\<close>

datatype load_error = ConfigError | Uncaught exn

definition load_failure :: "exn \<Rightarrow> load_error" where
  "load_failure e = (if e \<in> {ValueError, PriceError, ReferenceDataError} then ConfigError else Uncaught e)"

fun read_contract_rows :: "price_codec \<Rightarrow> csv_row list \<Rightarrow> (string \<times> instrument) list \<Rightarrow> (string \<times> fo_contract) list \<Rightarrow>
    load_error + (string \<times> instrument) list \<times> (string \<times> fo_contract) list" where
  "read_contract_rows c [] insts cts = Inr (insts, cts)"
| "read_contract_rows c (r # rs) insts cts =
     (case build_contract c r of Inl e \<Rightarrow> Inl (load_failure e)
      | Inr (ct, i) \<Rightarrow>
         (if map_of cts (fc_canonical ct) \<noteq> None then Inl ConfigError
          else read_contract_rows c rs (AList.update (fc_canonical ct) i insts) (AList.update (fc_canonical ct) ct cts)))"

fun read_spread_rows :: "price_codec \<Rightarrow> (string \<times> instrument) list \<Rightarrow> (string \<times> fo_contract) list \<Rightarrow> csv_row list \<Rightarrow>
    (string \<times> instrument) list \<Rightarrow> (string \<times> spread_combination) list \<Rightarrow>
    load_error + (string \<times> instrument) list \<times> (string \<times> spread_combination) list" where
  "read_spread_rows c known cts [] insts sps = Inr (insts, sps)"
| "read_spread_rows c known cts (r # rs) insts sps =
     (case build_spread c known cts r of Inl e \<Rightarrow> Inl (load_failure e)
      | Inr (s, i) \<Rightarrow>
         (if map_of sps (sp_canonical s) \<noteq> None then Inl ConfigError
          else read_spread_rows c known cts rs (AList.update (sp_canonical s) i insts) (AList.update (sp_canonical s) s sps)))"

record fo_universe =
  uv_instruments :: "(string \<times> instrument) list"
  uv_contracts :: "(string \<times> fo_contract) list"
  uv_spreads :: "(string \<times> spread_combination) list"
  uv_spread_legs :: "((string \<times> string) \<times> spread_combination) list"
  uv_by_wire_key :: "(wire_key \<times> string) list"
  uv_aliases :: "(string \<times> string) list"
  uv_partial :: "(string \<times> string list) list"

subsection \<open>The indexes\<close>

definition add_name :: "string \<Rightarrow> string \<Rightarrow> (string \<times> string list) list \<Rightarrow> (string \<times> string list) list" where
  "add_name key name d =
     AList.update key (List.insert name (case map_of d key of None \<Rightarrow> [] | Some ns \<Rightarrow> ns)) d"

definition part_at :: "string list \<Rightarrow> nat \<Rightarrow> exn + string" where
  "part_at ps i = (if i < length ps then Inr (ps ! i) else Inl IndexError)"

definition joined :: "string list \<Rightarrow> string" where
  "joined ps = normalize_name (concat (case ps of [] \<Rightarrow> [] | p # qs \<Rightarrow> p # map (\<lambda>q. CHR ''-'' # q) qs))"

type_synonym name_index = "(wire_key \<times> string) list \<times> (string \<times> string list) list \<times> (string \<times> string list) list"

definition index_contract :: "string \<times> fo_contract \<Rightarrow> name_index \<Rightarrow> exn + name_index" where
  "index_contract entry ix =
     (case entry of (canonical, ct) \<Rightarrow> case ix of (wire, aliases, partial) \<Rightarrow>
       (let wire1 = AList.update (contract_wire_key ct) canonical wire;
            sy = fc_symbol ct; inst = fc_instrument_name ct; opt = fc_option_type ct;
            partial1 = add_name (joined [sy, inst]) canonical partial;
            parts = split_on (CHR ''-'') canonical
        in bind_exn (part_at parts 2) (\<lambda>display.
           let date = iso_of (fc_expiry_seconds ct) in
           if is_future ct then Inr (wire1, add_name (joined [sy, inst, date]) canonical aliases, partial1)
           else bind_exn (part_at parts 3) (\<lambda>strike.
             let aliases1 = add_name (joined [sy, inst, date, strike, opt]) canonical aliases;
                 aliases2 = (if fc_strike_text ct \<noteq> strike
                   then add_name (joined [sy, inst, display, fc_strike_text ct, opt]) canonical aliases1 else aliases1);
                 partial2 = add_name (joined [sy, inst, display]) canonical partial1
             in Inr (wire1, aliases2, add_name (joined [sy, inst, date]) canonical partial2)))))"

definition index_contracts :: "fo_universe \<Rightarrow> exn + fo_universe" where
  "index_contracts u =
     bind_exn (fold_exn index_contract (uv_contracts u) ([], [], [])) (\<lambda>(wire, aliases, partial).
       Inr (u\<lparr>uv_by_wire_key := wire,
              uv_aliases := List.map_filter (\<lambda>(key, names). case names of [name] \<Rightarrow> Some (key, name) | _ \<Rightarrow> None) aliases,
              uv_partial := partial\<rparr>))"

text \<open>\<open>_load_reference_data\<close>; there may be no file of combinations.\<close>

definition load_universe :: "price_codec \<Rightarrow> csv_row list \<Rightarrow> csv_row list option \<Rightarrow> load_error + fo_universe" where
  "load_universe c rows spread_rows =
     (case read_contract_rows c rows [] [] of Inl e \<Rightarrow> Inl e
      | Inr (insts, cts) \<Rightarrow>
         (case index_contracts \<lparr>uv_instruments = insts, uv_contracts = cts, uv_spreads = [], uv_spread_legs = [],
               uv_by_wire_key = [], uv_aliases = [], uv_partial = []\<rparr> of Inl e \<Rightarrow> Inl (Uncaught e)
          | Inr u \<Rightarrow>
             (case (case spread_rows of None \<Rightarrow> Inr ([], []) | Some rs \<Rightarrow> read_spread_rows c insts cts rs [] []) of
                Inl e \<Rightarrow> Inl e
              | Inr (spread_insts, sps) \<Rightarrow>
                 Inr (u\<lparr>uv_instruments := fold (\<lambda>(n, i). AList.update n i) spread_insts insts, uv_spreads := sps,
                        uv_spread_legs := fold (\<lambda>(n, s). AList.update (fc_canonical (sp_near s), fc_canonical (sp_far s)) s) sps []\<rparr>))))"

subsection \<open>Lookup\<close>

definition spread_for :: "fo_universe \<Rightarrow> string \<Rightarrow> spread_combination option" where
  "spread_for u name = map_of (uv_spreads u) name"

definition spread_by_legs :: "fo_universe \<Rightarrow> string \<Rightarrow> string \<Rightarrow> spread_combination option" where
  "spread_by_legs u near far = map_of (uv_spread_legs u) (near, far)"

definition contract_for :: "fo_universe \<Rightarrow> string \<Rightarrow> fo_contract option" where
  "contract_for u name = map_of (uv_contracts u) name"

definition contract_by_wire :: "fo_universe \<Rightarrow> string option \<Rightarrow> string option \<Rightarrow> int \<Rightarrow> string option \<Rightarrow> string option \<Rightarrow> string option" where
  "contract_by_wire u inst sy secs strike opt =
     (let plain = (\<lambda>v. upper (strip (or_else_text v []))) in
      map_of (uv_by_wire_key u)
        (plain inst, plain sy, secs, if truthy strike then show_opt strike else ''-1'', plain opt))"

definition fo_resolve_symbol :: "fo_universe \<Rightarrow> string option \<Rightarrow> string option" where
  "fo_resolve_symbol u v =
     (if \<not> truthy v then None
      else (let t = normalize_name (show_opt v) in
            if map_of (uv_instruments u) t \<noteq> None then Some t
            else case map_of (uv_aliases u) t of Some name \<Rightarrow> Some name
            | None \<Rightarrow> (case map_of (uv_partial u) t of Some [name] \<Rightarrow> Some name | _ \<Rightarrow> None)))"

subsection \<open>Reloading\<close>

text \<open>\<open>Instrument.describe\<close>, which the reload compares.\<close>

definition describe_instrument :: "price_codec \<Rightarrow> instrument \<Rightarrow>
    exn + (string \<times> string \<times> int \<times> string option) \<times> (string option \<times> (string \<times> string) option \<times> string option) \<times>
      (int option \<times> int option \<times> bool)" where
  "describe_instrument c i =
     bind_exn (case in_base_price i of None \<Rightarrow> Inr None | Some p \<Rightarrow> bind_exn (format_price c p) (\<lambda>t. Inr (Some t))) (\<lambda>base.
     bind_exn (case price_limits i of None \<Rightarrow> Inr None
       | Some (low, high) \<Rightarrow> bind_exn (format_price c low) (\<lambda>l. bind_exn (format_price c high) (\<lambda>h. Inr (Some (l, h))))) (\<lambda>range.
     bind_exn (case (in_base_price i, in_tick_table i) of
         (Some p, Some t) \<Rightarrow> bind_exn (tick_for t p (in_tier i)) (\<lambda>tick. bind_exn (format_price c tick) (\<lambda>s. Inr (Some s)))
       | _ \<Rightarrow> Inr None) (\<lambda>tick.
       Inr ((in_symbol i, in_name i, in_lot_size i, in_tier i), (base, range, tick),
            (if in_shares_outstanding i = 0 then None else Some (in_shares_outstanding i), instrument_max_quantity i,
             in_tradable i)))))"

record reload_result =
  rl_added :: "string list"
  rl_updated :: "string list"
  rl_withdrawn :: "string list"

text \<open>One listed contract: \<open>insts\<close> and \<open>cts\<close> are what the file now says.\<close>

definition reload_contract :: "price_codec \<Rightarrow> (string \<times> instrument) list \<Rightarrow> (string \<times> fo_contract) list \<Rightarrow> fo_universe \<Rightarrow>
    string \<Rightarrow> fo_universe \<times> reload_result \<Rightarrow> exn + fo_universe \<times> reload_result" where
  "reload_contract c insts cts prior name s =
     (case s of (u, res) \<Rightarrow>
       (case (map_of insts name, map_of cts name) of
          (Some i, Some ct) \<Rightarrow>
            (let u1 = u\<lparr>uv_instruments := AList.update name i (uv_instruments u),
                        uv_contracts := AList.update name ct (uv_contracts u)\<rparr> in
             case map_of (uv_instruments u) name of
               None \<Rightarrow> Inr (u1, res\<lparr>rl_added := rl_added res @ [name]\<rparr>)
             | Some old \<Rightarrow>
                bind_exn (describe_instrument c i) (\<lambda>d.
                  case map_of (uv_instruments prior) name of None \<Rightarrow> Inl KeyError
                  | Some b \<Rightarrow> bind_exn (describe_instrument c b) (\<lambda>db.
                      Inr (u1, if d \<noteq> db then res\<lparr>rl_updated := rl_updated res @ [name]\<rparr> else res))))
        | _ \<Rightarrow> Inl KeyError))"

definition withdraw_instrument :: "(string \<times> fo_contract) list \<Rightarrow> string \<Rightarrow> fo_universe \<times> reload_result \<Rightarrow>
    exn + fo_universe \<times> reload_result" where
  "withdraw_instrument cts name s =
     (case s of (u, res) \<Rightarrow>
       (if map_of cts name \<noteq> None then Inr (u, res)
        else case map_of (uv_instruments u) name of None \<Rightarrow> Inl KeyError
        | Some i \<Rightarrow>
           (if in_tradable i
            then Inr (u\<lparr>uv_instruments := AList.update name (i\<lparr>in_tradable := False\<rparr>) (uv_instruments u)\<rparr>,
                      res\<lparr>rl_withdrawn := rl_withdrawn res @ [name]\<rparr>)
            else Inr (u, res))))"

definition reload_universe :: "price_codec \<Rightarrow> csv_row list \<Rightarrow> fo_universe \<Rightarrow> load_error + fo_universe \<times> reload_result" where
  "reload_universe c rows u =
     (case read_contract_rows c rows [] [] of Inl e \<Rightarrow> Inl e
      | Inr (insts, cts) \<Rightarrow>
         (case bind_exn (map_exn (\<lambda>(n, i). describe_instrument c i) (uv_instruments u)) (\<lambda>_.
               bind_exn (fold_exn (reload_contract c insts cts u) (sort (map fst cts))
                   (u, \<lparr>rl_added = [], rl_updated = [], rl_withdrawn = []\<rparr>)) (\<lambda>s1.
               bind_exn (fold_exn (withdraw_instrument cts) (sort (map fst (uv_instruments u))) s1) (\<lambda>(u2, res).
               bind_exn (index_contracts u2) (\<lambda>u3. Inr (u3, res))))) of
            Inl e \<Rightarrow> Inl (Uncaught e) | Inr r \<Rightarrow> Inr r))"

text \<open>Every market gets a book for a contract that is new.\<close>

definition open_books :: "string list \<Rightarrow> eworld \<Rightarrow> eworld" where
  "open_books names ew = ew\<lparr>ew_markets := map (\<lambda>(n, m). (n, fold ensure_book names m)) (ew_markets ew)\<rparr>"

end
