(* ===== verification/Nsefo_Gateway.thy ===== *)
theory Nsefo_Gateway
  imports Nsefo_Contracts Nse_Venue
begin

section \<open>The derivatives gateway (\<open>venues/nsefo/handlers.py\<close>)\<close>

text \<open>
  The gateway of the derivatives segment over the same session layer and the same desk as that
  of the equity segment: the tables, filing, delivery, what is remembered of an order and the
  ends of sessions are the same code there, and the same definitions here (\<open>Nse_Desk\<close>), given
  this gateway's renderer. What is its own is the identity of a contract, the spread orders and
  every structure. The instruments of the engine are those of the universe, which the code
  shares. The near leg of a combination is a listed contract, never itself a combination.
\<close>

record fo_venue =
  fv_desk :: nse_venue
  fv_universe :: fo_universe

abbreviation fv_net :: "fo_venue \<Rightarrow> nnf_env" where "fv_net env \<equiv> nv_net (fv_desk env)"
abbreviation fv_codec :: "fo_venue \<Rightarrow> price_codec" where "fv_codec env \<equiv> nv_codec (fv_desk env)"
abbreviation fv_seconds :: "fo_venue \<Rightarrow> exn + int" where "fv_seconds env \<equiv> nse_seconds (fv_desk env)"
abbreviation fv_nanoseconds :: "fo_venue \<Rightarrow> exn + int" where "fv_nanoseconds env \<equiv> nse_nanoseconds (fv_desk env)"

definition fo_engine :: "fo_venue \<Rightarrow> engine" where
  "fo_engine env = (nv_engine (fv_desk env))\<lparr>en_instruments := uv_instruments (fv_universe env)\<rparr>"

subsection \<open>Reading a message\<close>

definition fo_contract_of :: "fo_universe \<Rightarrow> fix_message \<Rightarrow> string option" where
  "fo_contract_of uv m =
     contract_by_wire uv (msg_get m FO_INSTRUMENT_NAME) (msg_get m FO_SYMBOL) (get_int_or m FO_EXPIRY_DATE 0)
       (msg_get m FO_STRIKE_PRICE) (msg_get m FO_OPTION_TYPE)"

text \<open>Zero is how a fixed-width structure says that a field carries nothing.\<close>

definition fo_price_field :: "fo_venue \<Rightarrow> fix_message \<Rightarrow> int \<Rightarrow> exn + int option" where
  "fo_price_field env m tag =
     (case msg_get m tag of None \<Rightarrow> Inr None
      | Some t \<Rightarrow> bind_exn (parse_price (fv_codec env) t) (\<lambda>p. Inr (if p = 0 then None else Some p)))"

definition fo_order_number :: "fix_message \<Rightarrow> oid option" where
  "fo_order_number m = (case msg_get m FO_ORDER_NUMBER of None \<Rightarrow> None | Some t \<Rightarrow> if t = ''0'' then None else Some t)"

definition fo_unsupported :: "fix_message \<Rightarrow> int option" where
  "fo_unsupported m =
     (if msg_get m FO_FLAG_SL = Some ''Y'' then Some sl_not_allowed
      else if msg_get m FO_FLAG_MIT = Some ''Y'' then Some mit_not_allowed
      else if msg_get m FO_BOOK_TYPE \<noteq> Some fo_supported_book
      then Some (case msg_get m FO_BOOK_TYPE of None \<Rightarrow> 16406
             | Some b \<Rightarrow> (case map_of fo_unsupported_books b of None \<Rightarrow> 16406 | Some c \<Rightarrow> c))
      else (case find (\<lambda>(tag, code). msg_get m tag = Some ''Y'') fo_unsupported_attributes of
          Some (tag, code) \<Rightarrow> Some code
        | None \<Rightarrow>
           (if get_int_or m FO_DISCLOSED_VOL 0 \<noteq> 0 then Some disclosed_volume_error
            else if msg_get m FO_FLAG_STPC_ADDITIONAL = Some ''Y'' then Some stpc_not_allowed
            else if strip (or_else_text (msg_get m FO_COUNTERPARTY_BROKER_ID) []) \<noteq> [] then Some giveup_not_allowed
            else None)))"

text \<open>The combination a spread order names, or the code that refuses it.\<close>

definition message_combination :: "fo_universe \<Rightarrow> fix_message \<Rightarrow> exn + (int + spread_combination)" where
  "message_combination uv m =
     (case fo_contract_of uv m of None \<Rightarrow> Inr (Inl 16012)
      | Some near \<Rightarrow>
         (case contract_by_wire uv (msg_get m FO_LEG2_INSTRUMENT_NAME) (msg_get m FO_LEG2_SYMBOL)
             (get_int_or m FO_LEG2_EXPIRY_DATE 0) (msg_get m FO_LEG2_STRIKE_PRICE) (msg_get m FO_LEG2_OPTION_TYPE) of
            None \<Rightarrow> Inr (Inl 16012)
          | Some far \<Rightarrow>
             (case (contract_for uv near, contract_for uv far) of
                (Some first, Some second) \<Rightarrow>
                  Inr (if fc_symbol first \<noteq> fc_symbol second then Inl spread_different_underlying
                       else if \<not> (is_future first \<and> is_future second) then Inl spread_not_allowed_here
                       else if fc_expiry_seconds second \<le> fc_expiry_seconds first then Inl expiry_not_ascending
                       else (case spread_by_legs uv near far of None \<Rightarrow> Inl invalid_contract_combination
                         | Some s \<Rightarrow>
                            (let quantity2 = get_int_or m FO_LEG2_VOLUME 0 in
                             if quantity2 \<noteq> 0 \<and> quantity2 \<noteq> get_int_or m FO_VOLUME 0 then Inl qty_should_be_same
                             else Inr s)))
              | _ \<Rightarrow> Inl AttributeError)))"

definition spread_unsupported :: "fix_message \<Rightarrow> int option" where
  "spread_unsupported m =
     (if msg_get m FO_FLAG_IOC = Some ''Y'' then Some spread_ioc_not_allowed
      else if msg_get m FO_BOOK_TYPE \<noteq> Some fo_supported_book then Some 16406
      else fo_unsupported m)"

subsection \<open>Refusals\<close>

definition echoed_error :: "fo_venue \<Rightarrow> int \<Rightarrow> fix_message \<Rightarrow> int \<Rightarrow> int \<Rightarrow> exn + fix_message" where
  "echoed_error env u m code error =
     bind_exn (fv_seconds env) (\<lambda>s.
       Inr (set_fields [(TAG_MSG_TYPE, string_of_int code), (FO_ERROR_CODE, string_of_int error),
              (FO_REASON_CODE, string_of_int error), (FO_USER_ID, string_of_int u), (FO_LOG_TIME, string_of_int s)]
            (set_fields (filter (\<lambda>f. fst f \<noteq> FO_MESSAGE_LENGTH) m) (text_of code))))"

definition spread_error :: "fo_venue \<Rightarrow> int \<Rightarrow> fix_message \<Rightarrow> int \<Rightarrow> int \<Rightarrow> nse_state \<Rightarrow> exn + nse_state" where
  "spread_error env u m code error st =
     bind_exn (echoed_error env u m code error) (\<lambda>reply. user_send (fv_net env) u reply st)"

definition fo_reject_change :: "fo_venue \<Rightarrow> int \<Rightarrow> fix_message \<Rightarrow> int \<Rightarrow> int \<Rightarrow> nse_state \<Rightarrow> exn + nse_state" where
  "fo_reject_change env u m code error st =
     bind_exn (echoed_error env u m (fo_trimmed_code code (fo_plain_code m \<noteq> None)) error) (\<lambda>reply.
       user_send (fv_net env) u reply st)"

definition fo_order_error :: "fo_venue \<Rightarrow> int \<Rightarrow> fix_message \<Rightarrow> int \<Rightarrow> nse_state \<Rightarrow> exn + nse_state" where
  "fo_order_error env u m error st = fo_reject_change env u m X_ORDER_ERROR error st"

subsection \<open>Reports\<close>

definition combination_of :: "fo_venue \<Rightarrow> order \<Rightarrow> spread_combination option" where
  "combination_of env y = (if o_symbol y = [] then None else spread_for (fv_universe env) (o_symbol y))"

definition fo_code_for :: "fo_venue \<Rightarrow> nse_state \<Rightarrow> oid \<Rightarrow> int \<Rightarrow> int" where
  "fo_code_for env st x code =
     (if combination_of env (order_at st x) \<noteq> None then spread_code code True
      else fo_trimmed_code code (x \<in> set (ns_trimmed st)))"

definition outright_fields :: "fo_universe \<Rightarrow> string \<Rightarrow> (int \<times> string) list" where
  "outright_fields uv name =
     (case contract_for uv name of None \<Rightarrow> []
      | Some c \<Rightarrow> [(FO_SYMBOL, fc_symbol c), (FO_INSTRUMENT_NAME, fc_instrument_name c),
          (FO_EXPIRY_DATE, string_of_int (fc_expiry_seconds c)), (FO_STRIKE_PRICE, fc_strike_text c),
          (FO_OPTION_TYPE, fc_option_type c), (FO_CA_LEVEL, ''0'')])"

definition legs_fields :: "fo_universe \<Rightarrow> spread_combination \<Rightarrow> (int \<times> string) list" where
  "legs_fields uv s =
     outright_fields uv (fc_canonical (sp_near s)) @
     (let far = sp_far s in
      [(FO_LEG2_SYMBOL, fc_symbol far), (FO_LEG2_INSTRUMENT_NAME, fc_instrument_name far),
       (FO_LEG2_EXPIRY_DATE, string_of_int (fc_expiry_seconds far)), (FO_LEG2_STRIKE_PRICE, fc_strike_text far),
       (FO_LEG2_OPTION_TYPE, fc_option_type far), (FO_LEG2_CA_LEVEL, ''0'')])"

definition contract_fields :: "fo_universe \<Rightarrow> string \<Rightarrow> (int \<times> string) list" where
  "contract_fields uv name =
     (case spread_for uv name of Some s \<Rightarrow> legs_fields uv s | None \<Rightarrow> outright_fields uv name)"

definition leg_prices :: "fo_universe \<Rightarrow> spread_combination \<Rightarrow> int \<Rightarrow> exn + int \<times> int" where
  "leg_prices uv s difference =
     (case map_of (uv_instruments uv) (fc_canonical (sp_near s)) of None \<Rightarrow> Inr (0, difference)
      | Some i \<Rightarrow> (case in_base_price i of None \<Rightarrow> Inl TypeError | Some base \<Rightarrow> Inr (base, base + difference)))"

definition other_side :: "side \<Rightarrow> side" where
  "other_side s = (if s = BUY then SELL else BUY)"

text \<open>The price of an order: a difference, with the second leg, for a spread.\<close>

definition quoted_fields :: "fo_venue \<Rightarrow> order \<Rightarrow> exn + (int \<times> string) list" where
  "quoted_fields env y =
     (case o_price y of None \<Rightarrow> Inr []
      | Some p \<Rightarrow> bind_exn (format_price (fv_codec env) p) (\<lambda>t.
          Inr (if combination_of env y \<noteq> None
               then [(FO_PRICE_DIFF, t), (FO_LEG2_VOLUME, string_of_int (o_quantity y)),
                     (FO_LEG2_TOTAL_VOL_REMAINING, string_of_int (leaves_qty y)),
                     (FO_LEG2_VOLUME_FILLED_TODAY, string_of_int (o_cum_qty y)),
                     (FO_LEG2_BUY_SELL, or_else_text (opposite_side (fo_side_to_wire (o_side y))) ''2'')]
               else [(FO_PRICE, t)])))"

definition fo_owner_fields :: "nse_state \<Rightarrow> order \<Rightarrow> int \<Rightarrow> bool \<Rightarrow> (int \<times> string) list" where
  "fo_owner_fields st y trader_tag branch =
     (case map_of (ns_sessions st) (o_session_key y) of None \<Rightarrow> []
      | Some u \<Rightarrow>
         (case map_of (nn_users st) u of None \<Rightarrow> []
          | Some cfg \<Rightarrow> [(FO_USER_ID, string_of_int u), (trader_tag, string_of_int u), (FO_BROKER_ID, nu_broker_id cfg)] @
              (if branch then [(FO_BRANCH_ID, string_of_int (nu_branch_id cfg))] else [])))"

definition fo_base_report :: "fo_venue \<Rightarrow> nse_state \<Rightarrow> oid \<Rightarrow> int \<Rightarrow> exn + fix_message" where
  "fo_base_report env st x code =
     (let y = order_at st x in
      bind_exn (fv_seconds env) (\<lambda>s. bind_exn (fv_nanoseconds env) (\<lambda>ns.
      bind_exn (quoted_fields env y) (\<lambda>price.
        Inr (fo_set_flags y
          (set_fields
            ([(FO_ERROR_CODE, string_of_int X_NO_ERROR), (FO_LOG_TIME, string_of_int s), (FO_TIMESTAMP, string_of_int ns)] @
             contract_fields (fv_universe env) (o_symbol y) @
             [(FO_ORDER_NUMBER, x), (FO_BOOK_TYPE, fo_supported_book),
              (FO_BUY_SELL, or_else_text (fo_side_to_wire (o_side y)) ''1''),
              (FO_VOLUME, string_of_int (o_quantity y)), (FO_TOTAL_VOL_REMAINING, string_of_int (leaves_qty y)),
              (FO_VOLUME_FILLED_TODAY, string_of_int (o_cum_qty y))] @ price @
             [(FO_ACCOUNT_NUMBER, or_else_text (o_account y) []),
              (FO_PRO_CLIENT, or_else_text (fo_capacity_to_wire (o_capacity y)) ''1''),
              (FO_ENTRY_DATE_TIME, string_of_int s), (FO_LAST_MODIFIED, string_of_int s),
              (FO_LAST_ACTIVITY_REFERENCE, string_of_int ns)] @
             (case map_of (ns_references st) x of None \<Rightarrow> [] | Some r \<Rightarrow> [(FO_NNF_FIELD, r)]) @
             fo_owner_fields st y FO_TRADER_ID True)
            (text_of (fo_code_for env st x code))))))))"

definition fo_render_accepted :: "fo_venue \<Rightarrow> nse_state \<Rightarrow> oid \<Rightarrow> int \<Rightarrow> int \<Rightarrow> int \<Rightarrow> exn + fix_message" where
  "fo_render_accepted env st x cum left qty =
     bind_exn (fo_base_report env st x X_ORDER_CONFIRMATION) (\<lambda>m.
       Inr (set_fields [(FO_VOLUME, string_of_int qty), (FO_TOTAL_VOL_REMAINING, string_of_int left),
         (FO_VOLUME_FILLED_TODAY, string_of_int cum), (FO_FLAG_TRADED, yes_no (cum \<noteq> 0))] m))"

definition fo_render_rejected :: "fo_venue \<Rightarrow> nse_state \<Rightarrow> oid \<Rightarrow> reject_reason \<Rightarrow> exn + fix_message" where
  "fo_render_rejected env st x reason =
     bind_exn (fo_base_report env st x X_ORDER_ERROR) (\<lambda>m.
       (let code = string_of_int (fo_reject_to_error_code reason)
        in Inr (set_fields [(FO_ERROR_CODE, code), (FO_REASON_CODE, code)] m)))"

definition render_outright_fill :: "fo_venue \<Rightarrow> nse_state \<Rightarrow> fill_event \<Rightarrow> string \<Rightarrow> int \<Rightarrow> side \<Rightarrow> exn + fix_message" where
  "render_outright_fill env st f sy price sd =
     (let x = fe_order f; y = order_at st x in
      bind_exn (fv_seconds env) (\<lambda>s. bind_exn (fv_nanoseconds env) (\<lambda>ns.
      bind_exn (format_price (fv_codec env) price) (\<lambda>t.
        Inr (msg_set FO_FLAG_TRADED ''Y'' (fo_set_flags y
          (set_fields
            ([(FO_ERROR_CODE, string_of_int X_NO_ERROR), (FO_LOG_TIME, string_of_int s), (FO_TIMESTAMP, string_of_int ns)] @
             contract_fields (fv_universe env) sy @
             [(FO_RESPONSE_ORDER_NUMBER, x), (FO_BOOK_TYPE, fo_supported_book),
              (FO_BUY_SELL, or_else_text (fo_side_to_wire sd) ''1''),
              (FO_VOLUME, string_of_int (fe_order_qty f)), (FO_TOTAL_VOL_REMAINING, string_of_int (fe_leaves_qty f)),
              (FO_VOLUME_FILLED_TODAY, string_of_int (fe_cum_qty f)), (FO_FILL_QTY, string_of_int (fe_quantity f)),
              (FO_FILL_PRICE, t), (FO_PRICE, t), (FO_FILL_NUMBER, fe_trade_id f), (FO_ACTIVITY_TYPE, fo_activity_trade),
              (FO_ACTIVITY_TIME, string_of_int s), (FO_ACCOUNT_NUMBER, or_else_text (o_account y) [])] @
             fo_owner_fields st y FO_TRADER_NUMBER False)
            (text_of (if combination_of env y \<noteq> None then X_TRADE_CONFIRMATION
                      else fo_code_for env st x X_TRADE_CONFIRMATION)))))))))"

definition render_leg_fill :: "fo_venue \<Rightarrow> nse_state \<Rightarrow> fill_event \<Rightarrow> spread_combination \<Rightarrow> int \<Rightarrow> exn + fix_message" where
  "render_leg_fill env st f s index =
     bind_exn (leg_prices (fv_universe env) s (fe_price f)) (\<lambda>(near, far).
       (let sd = o_side (order_at st (fe_order f)) in
        render_outright_fill env st f (fc_canonical (sp_leg s index)) (if index = 1 then near else far)
          (if index = 1 then sd else other_side sd)))"

definition fo_render_filled :: "fo_venue \<Rightarrow> nse_state \<Rightarrow> fill_event \<Rightarrow> exn + fix_message list" where
  "fo_render_filled env st f =
     (let y = order_at st (fe_order f) in
      case combination_of env y of
        Some s \<Rightarrow> bind_exn (render_leg_fill env st f s 1) (\<lambda>m1. bind_exn (render_leg_fill env st f s 2) (\<lambda>m2. Inr [m1, m2]))
      | None \<Rightarrow> one_report (render_outright_fill env st f (o_symbol y) (fe_price f) (o_side y)))"

definition fo_render_cancelled :: "fo_venue \<Rightarrow> nse_state \<Rightarrow> oid \<Rightarrow> cancel_reason \<Rightarrow> exn + fix_message" where
  "fo_render_cancelled env st x reason =
     bind_exn (fo_base_report env st x X_ORDER_CANCEL_CONFIRMATION) (\<lambda>m.
       Inr (set_fields ((FO_MOD_CXL_BY, cancelled_by reason) #
         (if reason = CR_USER_REQUEST then [] else [(FO_REASON_CODE, string_of_int (cancel_reason_code reason))])) m))"

definition fo_render_replaced :: "fo_venue \<Rightarrow> nse_state \<Rightarrow> oid \<Rightarrow> exn + fix_message" where
  "fo_render_replaced env st x =
     bind_exn (fo_base_report env st x X_ORDER_MOD_CONFIRMATION) (\<lambda>m.
       Inr (set_fields [(FO_MOD_CXL_BY, ''T''), (FO_FLAG_MODIFIED, ''Y'')] m))"

definition fo_render_cancel_rejected :: "fo_venue \<Rightarrow> nse_state \<Rightarrow> oid option \<Rightarrow> cancel_reject_reason \<Rightarrow> bool \<Rightarrow> exn + fix_message" where
  "fo_render_cancel_rejected env st order reason is_replace =
     (let code = (if is_replace then X_ORDER_MOD_REJECT else X_ORDER_CANCEL_REJECT);
          error = string_of_int (fo_cancel_reject_to_error_code reason) in
      bind_exn (case order of Some x \<Rightarrow> fo_base_report env st x code
          | None \<Rightarrow> bind_exn (fv_seconds env) (\<lambda>s. Inr (set_fields [(FO_LOG_TIME, string_of_int s)] (text_of code))))
        (\<lambda>m. Inr (set_fields [(FO_ERROR_CODE, error), (FO_REASON_CODE, error)] m)))"

fun fo_render :: "fo_venue \<Rightarrow> renderer" where
  "fo_render env st (OrderAccepted x cum left qty) = one_report (fo_render_accepted env st x cum left qty)"
| "fo_render env st (OrderRejected x reason t) = one_report (fo_render_rejected env st x reason)"
| "fo_render env st (OrderFilled f) = fo_render_filled env st f"
| "fo_render env st (OrderCancelled x reason t) = one_report (fo_render_cancelled env st x reason)"
| "fo_render env st (OrderReplaced x c kept) = one_report (fo_render_replaced env st x)"
| "fo_render env st (OrderDecremented x qty reason) = one_report (fo_base_report env st x X_ORDER_MOD_CONFIRMATION)"
| "fo_render env st (CancelRejected c orig reason t x is_replace) = one_report (fo_render_cancel_rejected env st x reason is_replace)"
| "fo_render env st (TradeExecuted t) = Inr []"
| "fo_render env st (TradingStateChanged m sy before after) = Inr []"

definition fo_emit :: "fo_venue \<Rightarrow> int option \<Rightarrow> event list \<Rightarrow> nse_state \<Rightarrow> exn + nse_state" where
  "fo_emit env = emit_reports (fv_desk env) (fo_render env)"

definition fo_remember :: "fix_message \<Rightarrow> event list \<Rightarrow> nse_state \<Rightarrow> nse_state" where
  "fo_remember m evs st = remember_order (msg_get m FO_NNF_FIELD) (fo_plain_code m \<noteq> None) evs st"

text \<open>The end of every request: remember the order, then report.\<close>

definition fo_answer :: "fo_venue \<Rightarrow> int \<Rightarrow> fix_message \<Rightarrow> eworld \<times> event list \<Rightarrow> nse_state \<Rightarrow> exn + nse_state" where
  "fo_answer env u m r st =
     (case r of (ew, evs) \<Rightarrow> fo_emit env (Some u) evs (fo_remember m evs (st\<lparr>ns_world := ew\<rparr>)))"

subsection \<open>Requests\<close>

definition fo_order_request :: "fo_venue \<Rightarrow> int \<Rightarrow> fix_message \<Rightarrow> string \<Rightarrow> int option \<Rightarrow> new_order_request" where
  "fo_order_request env u m sy price =
     \<lparr>nr_session_key = nnf_key u, nr_market = Some (nv_market (fv_desk env)), nr_cl_ord_id = None, nr_symbol = sy,
      nr_side = fo_side_to_core (msg_get m FO_BUY_SELL), nr_quantity = get_int_or m FO_VOLUME 0, nr_price = price,
      nr_order_type = Some (fo_order_type m), nr_time_in_force = fo_time_in_force m, nr_min_qty = 0, nr_exec_inst = [],
      nr_capacity = fo_capacity_to_core (msg_get m FO_PRO_CLIENT), nr_account = msg_get m FO_ACCOUNT_NUMBER, nr_mpid = None,
      nr_cash_margin = None, nr_margin_type = None, nr_stp_id = None, nr_stp_instruction = None\<rparr>"

definition fo_replace_request :: "int \<Rightarrow> fix_message \<Rightarrow> int option \<Rightarrow> replace_request" where
  "fo_replace_request u m price =
     \<lparr>cr_session_key = nnf_key u, cr_cl_ord_id = None, cr_orig_cl_ord_id = None, cr_symbol = None, cr_side = None,
      cr_quantity = quantity_field m FO_VOLUME, cr_order_id = fo_order_number m, rr_price = price,
      rr_time_in_force = None, rr_min_qty = None, rr_exec_inst = []\<rparr>"

definition fo_cancel_request :: "int \<Rightarrow> fix_message \<Rightarrow> cancel_request" where
  "fo_cancel_request u m =
     \<lparr>cr_session_key = nnf_key u, cr_cl_ord_id = None, cr_orig_cl_ord_id = None, cr_symbol = None, cr_side = None,
      cr_quantity = None, cr_order_id = fo_order_number m\<rparr>"

text \<open>Entering an order, once everything has been read.\<close>

definition fo_enter :: "fo_venue \<Rightarrow> int \<Rightarrow> fix_message \<Rightarrow> string \<Rightarrow> int option \<Rightarrow> nse_state \<Rightarrow> exn + nse_state" where
  "fo_enter env u m sy price st =
     bind_exn (new_order (fo_engine env) (fo_order_request env u m sy price) (ns_world st)) (\<lambda>r. fo_answer env u m r st)"

definition on_spread_order :: "fo_venue \<Rightarrow> int \<Rightarrow> fix_message \<Rightarrow> nse_state \<Rightarrow> exn + nse_state" where
  "on_spread_order env u m st =
     bind_exn (message_combination (fv_universe env) m) (\<lambda>named. case named of
       Inl error \<Rightarrow> spread_error env u m X_SP_ORDER_ERROR error st
     | Inr s \<Rightarrow>
        (case spread_unsupported m of
           Some error \<Rightarrow> spread_error env u m X_SP_ORDER_ERROR error st
         | None \<Rightarrow>
            (case fo_price_field env m FO_PRICE_DIFF of
               Inl e \<Rightarrow> (if e = PriceError then spread_error env u m X_SP_ORDER_ERROR fo_invalid_order_param st else Inl e)
             | Inr price \<Rightarrow> fo_enter env u m (sp_canonical s) price st)))"

definition on_spread_modify :: "fo_venue \<Rightarrow> int \<Rightarrow> fix_message \<Rightarrow> nse_state \<Rightarrow> exn + nse_state" where
  "on_spread_modify env u m st =
     (case fo_price_field env m FO_PRICE_DIFF of
        Inl e \<Rightarrow> (if e = PriceError then spread_error env u m X_SP_ORDER_MOD_REJ_OUT fo_invalid_order_param st else Inl e)
      | Inr price \<Rightarrow>
         (case spread_unsupported m of
            Some error \<Rightarrow> spread_error env u m X_SP_ORDER_MOD_REJ_OUT error st
          | None \<Rightarrow>
             bind_exn (replace_order (fo_engine env) (fo_replace_request u m price) (ns_world st)) (\<lambda>r. fo_answer env u m r st)))"

definition on_spread_cancel :: "fo_venue \<Rightarrow> int \<Rightarrow> fix_message \<Rightarrow> nse_state \<Rightarrow> exn + nse_state" where
  "on_spread_cancel env u m st =
     bind_exn (Engine.cancel_order (fo_cancel_request u m) (ns_world st)) (\<lambda>r. fo_answer env u m r st)"

definition on_multi_leg :: "fo_venue \<Rightarrow> int \<Rightarrow> fix_message \<Rightarrow> nse_state \<Rightarrow> exn + nse_state" where
  "on_multi_leg env u m st = spread_error env u m X_SP_ORDER_ERROR bad_transaction_code st"

definition fo_on_new_order :: "fo_venue \<Rightarrow> int \<Rightarrow> fix_message \<Rightarrow> nse_state \<Rightarrow> exn + nse_state" where
  "fo_on_new_order env u m st =
     (case fo_contract_of (fv_universe env) m of None \<Rightarrow> fo_order_error env u m 16012 st
      | Some sy \<Rightarrow>
         (case fo_unsupported m of Some error \<Rightarrow> fo_order_error env u m error st
          | None \<Rightarrow>
             (case fo_price_field env m FO_PRICE of
                Inl e \<Rightarrow> (if e = PriceError then fo_order_error env u m fo_invalid_order_param st else Inl e)
              | Inr price \<Rightarrow> fo_enter env u m sy price st)))"

definition fo_on_modify :: "fo_venue \<Rightarrow> int \<Rightarrow> fix_message \<Rightarrow> nse_state \<Rightarrow> exn + nse_state" where
  "fo_on_modify env u m st =
     (case fo_price_field env m FO_PRICE of
        Inl e \<Rightarrow> (if e = PriceError then fo_reject_change env u m X_ORDER_MOD_REJECT fo_invalid_order_param st else Inl e)
      | Inr price \<Rightarrow>
         (case fo_unsupported m of
            Some error \<Rightarrow> fo_reject_change env u m X_ORDER_MOD_REJECT error st
          | None \<Rightarrow>
             bind_exn (replace_order (fo_engine env) (fo_replace_request u m price) (ns_world st)) (\<lambda>r. fo_answer env u m r st)))"

definition fo_on_cancel :: "fo_venue \<Rightarrow> int \<Rightarrow> fix_message \<Rightarrow> nse_state \<Rightarrow> exn + nse_state" where
  "fo_on_cancel env u m st =
     bind_exn (Engine.cancel_order (fo_cancel_request u m) (ns_world st)) (\<lambda>r. fo_answer env u m r st)"

definition fo_on_logout :: "fo_venue \<Rightarrow> int \<Rightarrow> nse_state \<Rightarrow> exn + nse_state" where
  "fo_on_logout env = desk_logout (fv_desk env) (fo_render env)"

definition fo_on_sign_off :: "fo_venue \<Rightarrow> int \<Rightarrow> nse_state \<Rightarrow> exn + nse_state" where
  "fo_on_sign_off env u st =
     bind_exn (fv_seconds env) (\<lambda>s.
     bind_exn (user_send (fv_net env) u
         (set_fields [(FO_ERROR_CODE, string_of_int X_NO_ERROR), (FO_SIGNOFF_USER_ID, string_of_int u), (FO_LOG_TIME, string_of_int s)]
            (text_of X_SIGN_OFF_REQUEST_OUT)) st)
       (user_disconnect (fo_on_logout env) u))"

subsection \<open>The state of the market, and the download\<close>

definition fo_system_information :: "fo_venue \<Rightarrow> nse_state \<Rightarrow> exn + fix_message" where
  "fo_system_information env st =
     bind_exn (fv_seconds env) (\<lambda>s.
       (let state = (case engine_market (ns_world st) (Some (nv_market (fv_desk env))) of None \<Rightarrow> CLOSED
                     | Some m \<Rightarrow> sm_state (mk_state m)) in
        Inr (set_fields
          ([(FO_ERROR_CODE, string_of_int X_NO_ERROR), (FO_LOG_TIME, string_of_int s),
            (FO_ALPHA_CHAR, stream_char (nv_stream (fv_desk env)))] @
           map (\<lambda>tag. (tag, fo_market_status state)) [FO_NORMAL_STATUS, FO_EX_NORMAL_STATUS, FO_PL_NORMAL_STATUS] @
           map (\<lambda>tag. (tag, ''2'')) [FO_ODDLOT_STATUS, FO_SPOT_STATUS, FO_AUCTION_STATUS, FO_EX_ODDLOT_STATUS,
             FO_EX_SPOT_STATUS, FO_EX_AUCTION_STATUS, FO_PL_ODDLOT_STATUS, FO_PL_SPOT_STATUS, FO_PL_AUCTION_STATUS] @
           [(FO_MAXIMUM_GTC_DAYS, ''0''), (FO_DISCLOSED_QUANTITY_PERCENT, ''0''), (FO_SECURITY_AON, ''N''),
            (FO_SECURITY_MIN_FILL, ''N''), (FO_SECURITY_BOOKS_MERGED, ''N'')])
          (text_of X_SYSTEM_INFORMATION_OUT))))"

definition fo_on_system_information :: "fo_venue \<Rightarrow> int \<Rightarrow> nse_state \<Rightarrow> exn + nse_state" where
  "fo_on_system_information env u st =
     bind_exn (fo_system_information env st) (\<lambda>m. user_send (fv_net env) u m st)"

definition fo_download_marker :: "fo_venue \<Rightarrow> int \<Rightarrow> int \<Rightarrow> exn + fix_message" where
  "fo_download_marker env code stream =
     bind_exn (fv_seconds env) (\<lambda>s.
       Inr (set_fields [(FO_ERROR_CODE, string_of_int X_NO_ERROR), (FO_ALPHA_CHAR, stream_char stream),
         (FO_LOG_TIME, string_of_int s)] (text_of code)))"

definition fo_download_record :: "fo_venue \<Rightarrow> fix_message \<Rightarrow> int \<Rightarrow> exn + fix_message" where
  "fo_download_record env recovered stream =
     bind_exn (fv_seconds env) (\<lambda>s.
     bind_exn (case structure_of (ne_layouts (fv_net env)) (msg_type_of recovered) of
         None \<Rightarrow> Inl AttributeError | Some l \<Rightarrow> snd (encode_structure l recovered)) (\<lambda>data.
       Inr (set_fields
         ([(FO_ERROR_CODE, string_of_int X_NO_ERROR), (FO_ALPHA_CHAR, stream_char stream), (FO_LOG_TIME, string_of_int s)] @
          List.map_filter (\<lambda>tag. map_option (\<lambda>v. (tag, v)) (msg_get recovered tag)) [FO_TIMESTAMP1, FO_TIMESTAMP2] @
          [(FO_DOWNLOAD_DATA, data)])
         (text_of X_MESSAGE_RECORD))))"

definition fo_on_download_request :: "fo_venue \<Rightarrow> int \<Rightarrow> fix_message \<Rightarrow> nse_state \<Rightarrow> exn + nse_state" where
  "fo_on_download_request env u m st =
     (let stream = stream_of (msg_get m FO_ALPHA_CHAR) in
      bind_exn (download_cursor (msg_get m FO_DOWNLOAD_SEQUENCE)) (\<lambda>since.
      bind_exn (fo_download_marker env X_HEADER_RECORD stream) (\<lambda>head.
      bind_exn (user_send (fv_net env) u head st) (\<lambda>st1.
      bind_exn (if stream \<in> {0, nv_stream (fv_desk env)}
          then (case nn_store st1 of None \<Rightarrow> Inl AttributeError
            | Some store \<Rightarrow>
                fold_exn (\<lambda>(sequence, recovered) s.
                  bind_exn (fo_download_record env recovered stream) (\<lambda>r. user_send (fv_net env) u r s))
                  (store_after store u since) st1)
          else Inr st1) (\<lambda>st2.
      bind_exn (fo_download_marker env X_TRAILER_RECORD stream) (\<lambda>foot.
        user_send (fv_net env) u foot st2))))))"

subsection \<open>Dispatch\<close>

definition fo_served_codes :: "int list" where
  "fo_served_codes =
     [X_BOARD_LOT_IN, X_ORDER_MOD_IN, X_ORDER_CANCEL_IN, X_SP_BOARD_LOT_IN, X_SP_ORDER_MOD_IN, X_SP_ORDER_CANCEL_IN,
      X_TWOL_BOARD_LOT_IN, X_THRL_BOARD_LOT_IN, X_BOARD_LOT_IN_TR, X_ORDER_MOD_IN_TR, X_ORDER_CANCEL_IN_TR,
      X_SIGN_OFF_REQUEST_IN, X_SYSTEM_INFORMATION_IN, X_DOWNLOAD_REQUEST]"

definition fo_handle_code :: "fo_venue \<Rightarrow> int \<Rightarrow> int \<Rightarrow> fix_message \<Rightarrow> nse_state \<Rightarrow> exn + nse_state" where
  "fo_handle_code env c u m st =
     (if c \<in> {X_BOARD_LOT_IN, X_BOARD_LOT_IN_TR} then fo_on_new_order env u m st
      else if c \<in> {X_ORDER_MOD_IN, X_ORDER_MOD_IN_TR} then fo_on_modify env u m st
      else if c \<in> {X_ORDER_CANCEL_IN, X_ORDER_CANCEL_IN_TR} then fo_on_cancel env u m st
      else if c = X_SP_BOARD_LOT_IN then on_spread_order env u m st
      else if c = X_SP_ORDER_MOD_IN then on_spread_modify env u m st
      else if c = X_SP_ORDER_CANCEL_IN then on_spread_cancel env u m st
      else if c \<in> {X_TWOL_BOARD_LOT_IN, X_THRL_BOARD_LOT_IN} then on_multi_leg env u m st
      else if c = X_SIGN_OFF_REQUEST_IN then fo_on_sign_off env u st
      else if c = X_SYSTEM_INFORMATION_IN then fo_on_system_information env u st
      else if c = X_DOWNLOAD_REQUEST then fo_on_download_request env u m st
      else fo_order_error env u m bad_transaction_code st)"

text \<open>\<open>int(message.msg_type)\<close>.\<close>

definition must_code :: "fix_message \<Rightarrow> exn + int" where
  "must_code m =
     (case msg_type_of m of None \<Rightarrow> Inl TypeError
      | Some t \<Rightarrow> (case int_of_str t of None \<Rightarrow> Inl ValueError | Some c \<Rightarrow> Inr c))"

definition fo_on_message :: "fo_venue \<Rightarrow> int \<Rightarrow> fix_message \<Rightarrow> nse_state \<Rightarrow> exn + nse_state" where
  "fo_on_message env u m st =
     bind_exn (desk_logon u st) (\<lambda>st1. bind_exn (must_code m) (\<lambda>c. fo_handle_code env c u m st1))"

definition fo_on_invalid :: "fo_venue \<Rightarrow> int option \<Rightarrow> fix_message \<Rightarrow> failure \<Rightarrow> nse_state \<Rightarrow> exn + bool \<times> nse_state" where
  "fo_on_invalid env who m f st =
     bind_exn (if truthy (msg_type_of m) then must_code m else Inr 0) (\<lambda>c.
       case who of None \<Rightarrow> Inr (False, st)
       | Some u \<Rightarrow>
          (if c \<in> set fo_served_codes
           then bind_exn (fo_order_error env u m (fo_failure_to_error_code (fa_reason f)) st) (\<lambda>st1. Inr (True, st1))
           else (case map_of spread_code_errors c of
               Some error \<Rightarrow> bind_exn (fo_order_error env u m error st) (\<lambda>st1. Inr (True, st1))
             | None \<Rightarrow> Inr (False, st))))"

section \<open>The derivatives venue (\<open>venues/nsefo/handlers.py\<close>, \<open>venues/nsefo/venue.py\<close>)\<close>

text \<open>
  Registration, box sign-on and user sign-on over the derivatives structures, the gateway as the
  session layer sees it, the operator, and \<open>fo_step\<close>: everything that can happen to the venue.
  There is no auction here. A reload of the reference data changes the universe, which is a
  fixed part of a step: it is modelled in \<open>Nsefo_Contracts\<close>.
\<close>

subsection \<open>Before a user is signed on\<close>

abbreviation fo_drop_box :: "fo_venue \<Rightarrow> int \<Rightarrow> nse_state \<Rightarrow> exn + nse_state" where
  "fo_drop_box env b st \<equiv> box_disconnect (fo_on_logout env) desk_detached b st"

definition fo_box_reply :: "fo_venue \<Rightarrow> int \<Rightarrow> int \<Rightarrow> exn + fix_message" where
  "fo_box_reply env code b =
     bind_exn (fv_seconds env) (\<lambda>s.
       Inr (set_fields [(FO_ERROR_CODE, string_of_int X_NO_ERROR), (FO_BOX_ID, string_of_int b), (FO_LOG_TIME, string_of_int s)]
         (text_of code)))"

definition fo_box_error :: "fo_venue \<Rightarrow> int \<Rightarrow> int \<Rightarrow> int \<Rightarrow> int option \<Rightarrow> nse_state \<Rightarrow> exn + nse_state" where
  "fo_box_error env b code error who st =
     bind_exn (fv_seconds env) (\<lambda>s.
       box_send (fv_net env) b
         (set_fields ([(FO_ERROR_CODE, string_of_int error), (FO_BOX_ID, string_of_int b)] @
            (case who of None \<Rightarrow> [] | Some u \<Rightarrow> [(FO_USER_ID, string_of_int u), (FO_SIGNON_USER_ID, string_of_int u)]) @
            [(FO_LOG_TIME, string_of_int s)]) (text_of code)) st)"

definition fo_on_registration :: "fo_venue \<Rightarrow> int \<Rightarrow> fix_message \<Rightarrow> nse_state \<Rightarrow> exn + nse_state" where
  "fo_on_registration env b m st =
     (if msg_get_int m FO_BOX_ID \<noteq> Some b
      then bind_exn (fo_box_error env b X_SECURE_BOX_REGISTRATION_REQUEST_OUT 17104 None st) (fo_drop_box env b)
      else bind_exn (cipher_for b st) (\<lambda>cipher.
        if cipher = None \<and> nv_encrypted (fv_desk env)
        then bind_exn (fo_box_error env b X_SECURE_BOX_REGISTRATION_REQUEST_OUT 19030 None st) (fo_drop_box env b)
        else bind_exn (fo_box_reply env X_SECURE_BOX_REGISTRATION_REQUEST_OUT b) (\<lambda>m1.
             bind_exn (box_send (fv_net env) b m1 st) (\<lambda>st1. Inr (box_registered b cipher st1)))))"

definition fo_on_box_sign_on :: "fo_venue \<Rightarrow> int \<Rightarrow> fix_message \<Rightarrow> nse_state \<Rightarrow> exn + nse_state" where
  "fo_on_box_sign_on env b m st =
     (let expected = session_key_for b st; broker = msg_get m FO_BROKER_ID in
      if expected \<noteq> None \<and> msg_get m FO_SESSION_KEY \<noteq> expected
      then bind_exn (fo_box_error env b X_BOX_SIGN_ON_REQUEST_OUT 16006 None st) (fo_drop_box env b)
      else if (case broker of None \<Rightarrow> True | Some k \<Rightarrow> k \<notin> set (brokers_of (fv_desk env) b))
      then bind_exn (fo_box_error env b X_BOX_SIGN_ON_REQUEST_OUT 16041 None st) (fo_drop_box env b)
      else bind_exn (fo_box_reply env X_BOX_SIGN_ON_REQUEST_OUT b) (\<lambda>m1.
           bind_exn (box_send (fv_net env) b m1 st) (\<lambda>st1. Inr (box_signed_on b broker st1))))"

definition fo_sign_on_reply :: "fo_venue \<Rightarrow> nnf_user \<Rightarrow> exn + fix_message" where
  "fo_sign_on_reply env cfg =
     bind_exn (fv_seconds env) (\<lambda>s.
       Inr (set_fields
         [(FO_ERROR_CODE, string_of_int X_NO_ERROR), (FO_SIGNON_USER_ID, string_of_int (nu_user_id cfg)),
          (FO_BROKER_ID, nu_broker_id cfg), (FO_BRANCH_ID, string_of_int (nu_branch_id cfg)),
          (FO_TRADER_NAME, or_else_text (nu_trader_name cfg) []), (FO_BROKER_NAME, or_else_text (nu_broker_name cfg) []),
          (FO_USER_TYPE, if truthy (nu_user_type cfg) then show_opt (nu_user_type cfg) else ''2''),
          (FO_LOG_TIME, string_of_int s), (FO_BATCH2_START_TIME, string_of_int s)]
         (text_of X_SIGN_ON_REQUEST_OUT)))"

definition fo_on_sign_on :: "fo_venue \<Rightarrow> int \<Rightarrow> fix_message \<Rightarrow> nse_state \<Rightarrow> exn + nse_state" where
  "fo_on_sign_on env b m st =
     (let who = msg_get_int m FO_SIGNON_USER_ID;
          refuse = (\<lambda>error. fo_box_error env b X_SIGN_ON_REQUEST_OUT error who st) in
      case (case who of None \<Rightarrow> None | Some u \<Rightarrow> if u = 0 then None else map_of (nn_users st) u) of
        None \<Rightarrow> refuse 16042
      | Some cfg \<Rightarrow>
         (if nu_box_id cfg \<noteq> b then refuse 16042
          else if map_of (bx_users (box_of st b)) (nu_user_id cfg) \<noteq> None then refuse 16004
          else if msg_get m FO_BROKER_ID \<noteq> None \<and> msg_get m FO_BROKER_ID \<noteq> Some (nu_broker_id cfg) then refuse 16041
          else bind_exn (sign_on_user desk_logon b cfg st) (\<lambda>st1.
               bind_exn (fo_sign_on_reply env cfg) (\<lambda>m1. user_send (fv_net env) (nu_user_id cfg) m1 st1))))"

definition fo_on_box_message :: "fo_venue \<Rightarrow> int \<Rightarrow> fix_message \<Rightarrow> nse_state \<Rightarrow> exn + bool \<times> nse_state" where
  "fo_on_box_message env b m st =
     bind_exn (must_code m) (\<lambda>c.
       if c = X_SECURE_BOX_REGISTRATION_REQUEST_IN then bind_exn (fo_on_registration env b m st) (\<lambda>st1. Inr (True, st1))
       else if c = X_BOX_SIGN_ON_REQUEST_IN then bind_exn (fo_on_box_sign_on env b m st) (\<lambda>st1. Inr (True, st1))
       else if c = X_SIGN_ON_REQUEST_IN then bind_exn (fo_on_sign_on env b m st) (\<lambda>st1. Inr (True, st1))
       else Inr (False, st))"

definition fo_on_checksum_failure :: "fo_venue \<Rightarrow> int \<Rightarrow> nse_state \<Rightarrow> exn + nse_state" where
  "fo_on_checksum_failure env b st =
     bind_exn (fv_seconds env) (\<lambda>s.
       box_send (fv_net env) b
         (set_fields [(FO_ERROR_CODE, ''19031''), (FO_LOG_TIME, string_of_int s)] (text_of X_SIGN_OFF_REQUEST_OUT)) st)"

definition fo_app :: "fo_venue \<Rightarrow> nse_state nnf_app" where
  "fo_app env =
     \<lparr>ap_on_logon = desk_logon, ap_on_logout = fo_on_logout env, ap_on_message = fo_on_message env,
      ap_on_box_message = fo_on_box_message env, ap_on_box_detached = desk_detached, ap_on_invalid = fo_on_invalid env,
      ap_on_checksum_failure = fo_on_checksum_failure env\<rparr>"

lemma fo_app_simps [simp]:
  "ap_on_logon (fo_app env) = desk_logon" "ap_on_logout (fo_app env) = fo_on_logout env"
  "ap_on_message (fo_app env) = fo_on_message env" "ap_on_box_message (fo_app env) = fo_on_box_message env"
  "ap_on_box_detached (fo_app env) = desk_detached" "ap_on_invalid (fo_app env) = fo_on_invalid env"
  "ap_on_checksum_failure (fo_app env) = fo_on_checksum_failure env"
  by (simp_all add: fo_app_def)

subsection \<open>The operator\<close>

text \<open>The events of the transition are returned and not reported.\<close>

definition fo_set_trading_state :: "fo_venue \<Rightarrow> trading_state \<Rightarrow> string option \<Rightarrow> string option \<Rightarrow> nse_state \<Rightarrow>
    exn + nse_state \<times> event list" where
  "fo_set_trading_state env state market sy st =
     (let name = (if truthy market then show_opt market else nv_market (fv_desk env)) in
      case map_of (ew_markets (ns_world st)) name of None \<Rightarrow> Inl KeyError
      | Some m \<Rightarrow>
         bind_exn (market_set_state (show_state state) sy (market_view (ns_world st) m)) (\<lambda>(w, changed).
           Inr (st\<lparr>ns_world := put_market name w (ns_world st)\<rparr>, changed)))"

definition fo_inject_order :: "fo_venue \<Rightarrow> new_order_request \<Rightarrow> nse_state \<Rightarrow> exn + nse_state" where
  "fo_inject_order env rq st =
     bind_exn (new_order (fo_engine env) rq (ns_world st)) (\<lambda>(ew, evs). fo_emit env None evs (st\<lparr>ns_world := ew\<rparr>))"

definition fo_operator_cancel_session :: "fo_venue \<Rightarrow> session_key \<Rightarrow> string \<Rightarrow> nse_state \<Rightarrow> exn + nse_state" where
  "fo_operator_cancel_session env k reason_text st =
     bind_exn (cancel_session_orders k CR_ADMINISTRATIVE (if reason_text = [] then ''cancelled by operator'' else reason_text)
         (ns_world st)) (\<lambda>(ew, evs). fo_emit env None evs (st\<lparr>ns_world := ew\<rparr>))"

subsection \<open>Everything that can happen\<close>

text \<open>How the venue sets the session layer up (\<open>NsefoVenue._build_sessions\<close>).\<close>

definition fo_sessions_of :: "fo_venue \<Rightarrow> bool" where
  "fo_sessions_of env \<longleftrightarrow>
     ne_timestamp1_tag (fv_net env) = Some FO_TIMESTAMP1 \<and> ne_timestamp2_tag (fv_net env) = Some FO_TIMESTAMP2 \<and>
     ne_user_id_tag (fv_net env) = Some FO_USER_ID \<and> ne_recoverable (fv_net env) = is_recoverable \<and>
     ne_normalise (fv_net env) = fo_untrimmed"

definition same_fo_venue :: "fo_venue \<Rightarrow> fo_venue \<Rightarrow> bool" where
  "same_fo_venue env env' \<longleftrightarrow> same_venue (fv_desk env) (fv_desk env') \<and> env' = env\<lparr>fv_desk := fv_desk env'\<rparr>"

inductive fo_step :: "fo_venue \<Rightarrow> nse_state \<Rightarrow> nse_state \<Rightarrow> bool" for env where
  attach: "same_fo_venue env now \<Longrightarrow> fo_step env st (box_attach (fv_net now) b st)"
| data: "same_fo_venue env now \<Longrightarrow> box_on_data (fv_net now) (fo_app now) b chunk st = Inr st' \<Longrightarrow> fo_step env st st'"
| closed: "same_fo_venue env now \<Longrightarrow> box_detach (fo_on_logout now) desk_detached b st = Inr st' \<Longrightarrow> fo_step env st st'"
| kill: "same_fo_venue env now \<Longrightarrow> fo_drop_box now b st = Inr st' \<Longrightarrow> fo_step env st st'"
| kill_user: "same_fo_venue env now \<Longrightarrow> user_disconnect (fo_on_logout now) u st = Inr st' \<Longrightarrow> fo_step env st st'"
| tick: "same_fo_venue env now \<Longrightarrow> manager_tick (fv_net now) (fo_app now) st = Inr st' \<Longrightarrow> fo_step env st st'"
| timer: "same_fo_venue env now \<Longrightarrow> deliver_delayed (fv_desk now) i st = Inr st' \<Longrightarrow> fo_step env st st'"
| phase: "same_fo_venue env now \<Longrightarrow> fo_set_trading_state now state market sy st = Inr (st', evs) \<Longrightarrow> fo_step env st st'"
| inject: "same_fo_venue env now \<Longrightarrow> fo_inject_order now rq st = Inr st' \<Longrightarrow> fo_step env st st'"
| cancel_session: "same_fo_venue env now \<Longrightarrow> fo_operator_cancel_session now k t st = Inr st' \<Longrightarrow> fo_step env st st'"
| issue: "fo_step env st (issue_secrets b s st)"
| rules: "fo_step env st (set_rules r st)"

abbreviation fo_reaches :: "fo_venue \<Rightarrow> nse_state \<Rightarrow> nse_state \<Rightarrow> bool" where
  "fo_reaches env \<equiv> (fo_step env)\<^sup>*\<^sup>*"

end
