(* ===== verification/Nsefo_Contract_Facts.thy ===== *)
theory Nsefo_Contract_Facts
  imports Nsefo_Gateway
begin

section \<open>What the loaders build, and what the indexes find\<close>

subsection \<open>Text\<close>

lemma is_space_upper [simp]: "is_space (upper_char c) = is_space c"
  by (auto simp: is_space_def upper_char_def Let_def)

lemma strip_upper: "strip (upper s) = upper (strip s)"
proof -
  have "dropWhile is_space (map upper_char t) = map upper_char (dropWhile is_space t)" for t
    by (induction t) simp_all
  then show ?thesis by (simp add: strip_def upper_def rev_map)
qed

lemma strip_idem [simp]: "strip (strip s) = strip s"
proof (rule strip_id)
  let ?t = "dropWhile is_space (rev (dropWhile is_space s))"
  have s: "strip s = rev ?t" by (simp add: strip_def)
  show "strip s = [] \<or> \<not> is_space (hd (strip s)) \<and> \<not> is_space (last (strip s))"
  proof (cases "strip s = []")
    case False
    then have t: "?t \<noteq> []" using s by simp
    have "\<not> is_space (hd ?t)" using hd_dropWhile [OF t] .
    moreover have "\<not> is_space (last ?t)"
    proof -
      obtain xs where x: "rev (dropWhile is_space s) = xs @ ?t" by (metis takeWhile_dropWhile_id)
      then have "dropWhile is_space s = rev ?t @ rev xs" by (metis rev_append rev_rev_ident)
      moreover from this have "dropWhile is_space s \<noteq> []" using t by (metis append_is_Nil_conv rev_is_Nil_conv)
      then have "\<not> is_space (hd (dropWhile is_space s))" by (rule hd_dropWhile)
      ultimately have "\<not> is_space (hd (rev ?t))" using t by (metis hd_append2 rev_is_Nil_conv)
      then show ?thesis using t by (simp add: hd_rev)
    qed
    ultimately show ?thesis using t by (simp add: s hd_rev last_rev)
  qed simp
qed

text \<open>Text as it is kept: upper case, without space around it.\<close>

definition kept_text :: "string \<Rightarrow> bool" where
  "kept_text v \<longleftrightarrow> upper (strip v) = v"

lemma kept_cell: "upper_cell r col = Inr v \<Longrightarrow> kept_text v"
  by (auto simp: upper_cell_def text_cell_def kept_text_def bind_exn_Inr strip_upper split: option.splits)

lemma format_nonempty:
  assumes "format_price c p = Inr t"
  shows "t \<noteq> []"
  using assms by (auto simp: format_price_def fixed_point_def Let_def split: if_splits)

subsection \<open>Contracts\<close>

definition contract_ok :: "fo_contract \<Rightarrow> bool" where
  "contract_ok ct \<longleftrightarrow> kept_text (fc_instrument_name ct) \<and> kept_text (fc_symbol ct) \<and> kept_text (fc_option_type ct) \<and>
     fc_strike_text ct \<noteq> [] \<and>
     (is_future ct \<longrightarrow> (\<exists>display. CHR ''-'' \<notin> set display \<and> CHR ''/'' \<notin> set display \<and>
        fc_canonical ct = fc_symbol ct @ ''-'' @ fc_instrument_name ct @ ''-'' @ display))"

lemma no_mark_digits: "\<not> is_digit c \<Longrightarrow> c \<notin> set (string_of_nat n)"
  by (auto dest: string_of_nat_digits)

lemma no_mark_pad: "0 \<le> n \<Longrightarrow> \<not> is_digit c \<Longrightarrow> c \<notin> set (pad_int w n)"
  by (auto simp: pad_int_def zero_pad_def Let_def no_mark_digits is_digit_def)

lemma no_mark_int: "0 \<le> n \<Longrightarrow> \<not> is_digit c \<Longrightarrow> c \<notin> set (string_of_int n)"
  by (simp add: string_of_int_def no_mark_digits)

lemma set_strip: "c \<in> set (strip s) \<Longrightarrow> c \<in> set s"
  by (auto simp: strip_def dest!: set_dropWhileD)

lemma int_of_text_nonneg:
  assumes "int_of_text t = Inr n" and "CHR ''-'' \<notin> set t"
  shows "0 \<le> n"
proof -
  have "CHR ''-'' \<notin> set (strip t)" using assms(2) set_strip by blast
  then have "\<not> fst (take_sign (strip t))" by (auto simp: take_sign_def split: list.split)
  with assms(1) show ?thesis by (auto simp: int_of_text_def Let_def split: prod.splits if_splits)
qed

lemma split_on_no_sep: "p \<in> set (split_on d s) \<Longrightarrow> d \<notin> set p"
  by (induction s arbitrary: p) (auto split: if_splits list.splits)

lemma expiry_parts_nonneg:
  assumes "expiry_parts t = Inr (y, m, d)"
  shows "0 \<le> y \<and> 0 \<le> m \<and> 0 \<le> d"
proof -
  obtain a b c where s: "split_on (CHR ''-'') t = [a, b, c]"
      and i: "int_of_text a = Inr y" "int_of_text b = Inr m" "int_of_text c = Inr d"
    using assms by (auto simp: expiry_parts_def bind_exn_Inr split: list.splits)
  have "CHR ''-'' \<notin> set p" if "p \<in> {a, b, c}" for p using split_on_no_sep [of p "CHR ''-''" t] that s by auto
  then show ?thesis using i int_of_text_nonneg by simp
qed

lemma display_no_dash:
  assumes "expiry_display t = Inr v"
  shows "CHR ''-'' \<notin> set v" and "CHR ''/'' \<notin> set v"
proof -
  obtain y m d name where p: "expiry_parts t = Inr (y, m, d)" and n: "month_name m = Inr name"
      and v: "v = pad_int 2 d @ name @ string_of_int y"
    using assms by (auto simp: expiry_display_def bind_exn_Inr)
  have "length month_names = 12" by (simp add: month_names_def)
  then have "name \<in> set month_names" using n by (auto simp: month_name_def split: if_splits)
  then have "CHR ''-'' \<notin> set name" "CHR ''/'' \<notin> set name" by (auto simp: month_names_def)
  then show "CHR ''-'' \<notin> set v" "CHR ''/'' \<notin> set v"
    using v expiry_parts_nonneg [OF p] no_mark_pad no_mark_int by (simp_all add: is_digit_def)
qed

lemma build_contract_ok:
  assumes "build_contract c r = Inr (ct, i)"
  shows "contract_ok ct" and "in_base_price i \<noteq> None"
proof -
  obtain inst sy date opt where t: "upper_cell r ''instrument_name'' = Inr inst" "upper_cell r ''symbol'' = Inr sy"
      "upper_cell r ''option_type'' = Inr opt" "text_cell r ''expiry'' = Inr date"
    using assms unfolding build_contract_def by (auto simp: bind_exn_Inr)
  note b1 = assms [unfolded build_contract_def t bind_exn_simps]
  obtain lot base tick percent where n: "int_cell r ''lot_size'' = Inr lot" "parse_cell c r ''base_price'' = Inr base"
      "parse_cell c r ''tick'' = Inr tick" "int_cell r ''band_pct'' = Inr percent"
    using b1 by (auto simp: bind_exn_Inr)
  note b2 = b1 [unfolded n bind_exn_simps]
  obtain strike display secs where k: "strike_of_row c r = Inr strike" and d: "expiry_display date = Inr display"
      and e: "expiry_seconds date = Inr secs"
    using b2 by (auto simp: bind_exn_Inr)
  obtain band ticks where
      ct: "ct = \<lparr>fc_canonical = canonical_name sy inst display strike opt, fc_instrument_name = inst, fc_symbol = sy,
          fc_expiry_seconds = secs, fc_strike_text = strike, fc_option_type = opt\<rparr>"
      and i: "i = make_instrument (canonical_name sy inst display strike opt) (canonical_name sy inst display strike opt) lot 0
          (Some base) None (Some band) (Some ticks) True False"
    using b2 [unfolded k d e bind_exn_simps] by (auto simp: Let_def bind_exn_Inr)
  have "strike \<noteq> []" using k format_nonempty by (auto simp: strike_of_row_def Let_def bind_exn_Inr split: if_splits)
  then show "contract_ok ct" unfolding ct contract_ok_def
    using kept_cell [OF t(1)] kept_cell [OF t(2)] kept_cell [OF t(3)] display_no_dash [OF d]
    by (auto simp: is_future_def canonical_name_def)
  show "in_base_price i \<noteq> None" by (simp add: i make_instrument_def)
qed

text \<open>What is listed: every entry under its own name, the instruments under the same names.\<close>

definition listed :: "(string \<times> instrument) list \<Rightarrow> (string \<times> fo_contract) list \<Rightarrow> bool" where
  "listed insts cts \<longleftrightarrow> distinct (map fst cts) \<and> map fst insts = map fst cts \<and>
     (\<forall>(n, ct) \<in> set cts. fc_canonical ct = n \<and> contract_ok ct)"

lemma read_contract_rows_listed:
  "read_contract_rows c rows insts cts = Inr (insts', cts') \<Longrightarrow> listed insts cts \<Longrightarrow> listed insts' cts'"
proof (induction rows arbitrary: insts cts)
  case (Cons r rs)
  obtain ct i where b: "build_contract c r = Inr (ct, i)" and new: "map_of cts (fc_canonical ct) = None"
      and r: "read_contract_rows c rs (AList.update (fc_canonical ct) i insts) (AList.update (fc_canonical ct) ct cts) = Inr (insts', cts')"
    using Cons.prems(1) by (auto split: sum.splits prod.splits if_splits)
  have f: "fc_canonical ct \<notin> fst ` set cts" "fc_canonical ct \<notin> fst ` set insts"
    using new Cons.prems(2) unfolding listed_def map_of_eq_None_iff by (metis list.set_map)+
  have "listed (AList.update (fc_canonical ct) i insts) (AList.update (fc_canonical ct) ct cts)"
    using Cons.prems(2) f build_contract_ok(1) [OF b] by (simp add: listed_def update_fresh)
  from Cons.IH [OF r this] show ?case .
qed (simp add: listed_def)

subsection \<open>The index by wire values\<close>

definition updates :: "('k \<times> 'v) list \<Rightarrow> ('k \<times> 'v) list \<Rightarrow> ('k \<times> 'v) list" where
  "updates es d = fold (\<lambda>(k, v). AList.update k v) es d"

lemma map_of_updates: "map_of (updates es d) k = (case map_of (rev es) k of None \<Rightarrow> map_of d k | Some v \<Rightarrow> Some v)"
  by (induction es arbitrary: d) (auto simp: updates_def map_of_update_eq map_add_def split: option.split prod.split)

lemma map_of_updates_distinct:
  assumes "distinct (map fst es)" and "(k, v) \<in> set es"
  shows "map_of (updates es d) k = Some v"
  using assms map_of_is_SomeI [of "rev es" k v] by (simp add: map_of_updates rev_map [symmetric])

lemma index_contract_wire:
  assumes "index_contract (n, ct) (wire, aliases, partial) = Inr (wire', aliases', partial')"
  shows "wire' = AList.update (contract_wire_key ct) n wire"
  using assms by (auto simp: index_contract_def Let_def bind_exn_Inr split: if_splits)

lemma index_fold_wire:
  "fold_exn index_contract cts (wire, aliases, partial) = Inr (wire', aliases', partial') \<Longrightarrow>
     wire' = updates (map (\<lambda>(n, ct). (contract_wire_key ct, n)) cts) wire"
proof (induction cts arbitrary: wire aliases partial)
  case (Cons e cts)
  obtain n ct where e: "e = (n, ct)" by fastforce
  obtain w1 a1 p1 where i: "index_contract (n, ct) (wire, aliases, partial) = Inr (w1, a1, p1)"
      and f: "fold_exn index_contract cts (w1, a1, p1) = Inr (wire', aliases', partial')"
    using Cons.prems by (auto simp: e split: sum.splits)
  from Cons.IH [OF f] index_contract_wire [OF i] show ?case by (simp add: e updates_def)
qed (simp add: updates_def)

lemma index_contracts_result:
  assumes "index_contracts u = Inr u'"
  shows "uv_by_wire_key u' = updates (map (\<lambda>(n, ct). (contract_wire_key ct, n)) (uv_contracts u)) []"
    and "uv_contracts u' = uv_contracts u" "uv_instruments u' = uv_instruments u"
    and "uv_spreads u' = uv_spreads u" "uv_spread_legs u' = uv_spread_legs u"
  using assms by (auto simp: index_contracts_def bind_exn_Inr dest: index_fold_wire)

subsection \<open>Combinations\<close>

lemma rsplit_inject:
  assumes "a @ d # x = b @ d # y" and "d \<notin> set x" and "d \<notin> set y"
  shows "a = b" "x = y"
proof -
  have t: "takeWhile (\<lambda>c. c \<noteq> d) (rev z @ d # w) = rev z" if "d \<notin> set z" for z w
    using that by (subst takeWhile_append2) auto
  have "rev x @ d # rev a = rev y @ d # rev b" using arg_cong [OF assms(1), of rev] by simp
  then have "rev x = rev y" using t [OF assms(2), of "rev a"] t [OF assms(3), of "rev b"] by simp
  then show "x = y" by simp
  then show "a = b" using assms(1) by simp
qed

definition spread_ok :: "(string \<times> fo_contract) list \<Rightarrow> spread_combination \<Rightarrow> bool" where
  "spread_ok cts s \<longleftrightarrow> map_of cts (fc_canonical (sp_near s)) = Some (sp_near s) \<and>
     map_of cts (fc_canonical (sp_far s)) = Some (sp_far s) \<and> is_future (sp_near s) \<and> is_future (sp_far s) \<and>
     fc_symbol (sp_near s) = fc_symbol (sp_far s) \<and> fc_expiry_seconds (sp_near s) < fc_expiry_seconds (sp_far s) \<and>
     sp_canonical s = spread_name (sp_near s) (sp_far s)"

lemma spread_leg_ok:
  assumes "spread_leg cts sy inst date = Inr ct" and l: "listed insts cts"
  shows "map_of cts (fc_canonical ct) = Some ct" "is_future ct" "fc_symbol ct = sy"
proof -
  obtain display where d: "expiry_display date = Inr display"
      and m: "map_of cts (canonical_name sy inst display ''-1'' ''XX'') = Some ct" and f: "is_future ct"
    using assms(1) by (auto simp: spread_leg_def bind_exn_Inr split: option.splits if_splits)
  have c: "fc_canonical ct = canonical_name sy inst display ''-1'' ''XX''" "contract_ok ct"
    using l map_of_in_set [OF m] by (auto simp: listed_def)
  then show "map_of cts (fc_canonical ct) = Some ct" "is_future ct" using m f by simp_all
  obtain v where v: "CHR ''-'' \<notin> set v" "fc_canonical ct = fc_symbol ct @ ''-'' @ fc_instrument_name ct @ ''-'' @ v"
    using c(2) f by (auto simp: contract_ok_def)
  have i: "CHR ''-'' \<notin> set (fc_instrument_name ct)" using f by (auto simp: is_future_def)
  note e = v(2) [unfolded c(1) canonical_name_def]
  show "fc_symbol ct = sy"
  proof (cases "inst \<in> {''FUTIDX'', ''FUTSTK''}")
    case True
    then have k: "CHR ''-'' \<notin> set inst" by auto
    have "(sy @ ''-'' @ inst) @ CHR ''-'' # display = (fc_symbol ct @ ''-'' @ fc_instrument_name ct) @ CHR ''-'' # v"
      using e True by simp
    from rsplit_inject(1) [OF this display_no_dash(1) [OF d] v(1)]
    have "sy @ CHR ''-'' # inst = fc_symbol ct @ CHR ''-'' # fc_instrument_name ct" by simp
    from rsplit_inject(1) [OF this k i] show ?thesis by simp
  next
    case False
    have "(sy @ ''-'' @ inst @ ''-'' @ display @ ''--1'') @ CHR ''-'' # ''XX'' =
        (fc_symbol ct @ ''-'' @ fc_instrument_name ct) @ CHR ''-'' # v"
      using e False by (simp add: trim_strike_def starts_with_def)
    from rsplit_inject(1) [OF this _ v(1)]
    have "(sy @ ''-'' @ inst @ ''-'' @ display @ ''-'') @ CHR ''-'' # ''1'' = fc_symbol ct @ CHR ''-'' # fc_instrument_name ct" by simp
    from rsplit_inject(2) [OF this _ i] f show ?thesis by (auto simp: is_future_def)
  qed
qed

lemma build_spread_ok:
  assumes "build_spread c insts cts r = Inr (s, i)" and l: "listed insts' cts"
  shows "spread_ok cts s"
proof -
  obtain inst sy where t: "upper_cell r ''instrument_name'' = Inr inst" "upper_cell r ''symbol'' = Inr sy"
    using assms(1) unfolding build_spread_def by (auto simp: bind_exn_Inr)
  note b1 = assms(1) [unfolded build_spread_def t bind_exn_simps]
  obtain near far where n: "bind_exn (text_cell r ''near_expiry'') (spread_leg cts sy inst) = Inr near"
      "bind_exn (text_cell r ''far_expiry'') (spread_leg cts sy inst) = Inr far"
    using b1 by (auto simp: bind_exn_Inr)
  note b2 = b1 [unfolded n bind_exn_simps]
  have e: "fc_expiry_seconds near < fc_expiry_seconds far" using b2 by (auto split: if_splits)
  have "sp_near s = near \<and> sp_far s = far \<and> sp_canonical s = spread_name near far"
    using b2 by (auto simp: bind_exn_Inr Let_def split: if_splits)
  moreover obtain d1 d2 where "spread_leg cts sy inst d1 = Inr near" "spread_leg cts sy inst d2 = Inr far"
    using n by (auto simp: bind_exn_Inr)
  ultimately show ?thesis using spread_leg_ok [OF _ l, of sy inst d1 near] spread_leg_ok [OF _ l, of sy inst d2 far] e
    by (simp add: spread_ok_def)
qed

definition spreads_ok :: "(string \<times> fo_contract) list \<Rightarrow> (string \<times> spread_combination) list \<Rightarrow> bool" where
  "spreads_ok cts sps \<longleftrightarrow> distinct (map fst sps) \<and> (\<forall>(n, s) \<in> set sps. sp_canonical s = n \<and> spread_ok cts s)"

lemma read_spread_rows_ok:
  "read_spread_rows c known cts rows insts sps = Inr (insts', sps') \<Longrightarrow> spreads_ok cts sps \<Longrightarrow> listed known' cts \<Longrightarrow>
     spreads_ok cts sps'"
proof (induction rows arbitrary: insts sps)
  case (Cons r rs)
  obtain s i where b: "build_spread c known cts r = Inr (s, i)" and new: "map_of sps (sp_canonical s) = None"
      and r: "read_spread_rows c known cts rs (AList.update (sp_canonical s) i insts) (AList.update (sp_canonical s) s sps) = Inr (insts', sps')"
    using Cons.prems(1) by (auto split: sum.splits prod.splits if_splits)
  have f: "sp_canonical s \<notin> fst ` set sps" using new by (simp add: map_of_eq_None_iff)
  have "spreads_ok cts (AList.update (sp_canonical s) s sps)"
    using Cons.prems(2) f build_spread_ok [OF b Cons.prems(3)] by (simp add: spreads_ok_def update_fresh)
  from Cons.IH [OF r this Cons.prems(3)] show ?case .
qed simp

subsection \<open>A universe that was loaded\<close>

definition universe_ok :: "fo_universe \<Rightarrow> bool" where
  "universe_ok uv \<longleftrightarrow> distinct (map fst (uv_contracts uv)) \<and>
     (\<forall>(n, ct) \<in> set (uv_contracts uv). fc_canonical ct = n \<and> contract_ok ct) \<and>
     uv_by_wire_key uv = updates (map (\<lambda>(n, ct). (contract_wire_key ct, n)) (uv_contracts uv)) [] \<and>
     spreads_ok (uv_contracts uv) (uv_spreads uv) \<and>
     uv_spread_legs uv = updates (map (\<lambda>(n, s). ((fc_canonical (sp_near s), fc_canonical (sp_far s)), s)) (uv_spreads uv)) []"

lemma universe_okD:
  assumes "universe_ok uv"
  shows "contract_for uv n = Some ct \<Longrightarrow> fc_canonical ct = n \<and> contract_ok ct"
    and "spread_for uv n = Some s \<Longrightarrow> sp_canonical s = n \<and> spread_ok (uv_contracts uv) s"
  using assms map_of_in_set by (fastforce simp: universe_ok_def contract_for_def spread_for_def spreads_ok_def)+

lemma load_universe_ok:
  assumes "load_universe c rows spread_rows = Inr uv"
  shows "universe_ok uv"
proof -
  obtain insts cts where r: "read_contract_rows c rows [] [] = Inr (insts, cts)"
    using assms by (auto simp: load_universe_def split: sum.splits)
  have l: "listed insts cts" by (rule read_contract_rows_listed [OF r]) (simp add: listed_def)
  obtain u0 where u0: "index_contracts \<lparr>uv_instruments = insts, uv_contracts = cts, uv_spreads = [], uv_spread_legs = [],
               uv_by_wire_key = [], uv_aliases = [], uv_partial = []\<rparr> = Inr u0"
    using assms by (auto simp: load_universe_def r split: sum.splits)
  obtain spread_insts sps where s: "(case spread_rows of None \<Rightarrow> Inr ([], []) | Some rs \<Rightarrow> read_spread_rows c insts cts rs [] []) = Inr (spread_insts, sps)"
      and u: "uv = u0\<lparr>uv_instruments := fold (\<lambda>(n, i). AList.update n i) spread_insts insts, uv_spreads := sps,
                        uv_spread_legs := fold (\<lambda>(n, s). AList.update (fc_canonical (sp_near s), fc_canonical (sp_far s)) s) sps []\<rparr>"
    using assms by (auto simp: load_universe_def r u0 split: sum.splits)
  have "spreads_ok cts sps"
  proof (cases spread_rows)
    case (Some rs)
    then show ?thesis using s read_spread_rows_ok [OF _ _ l] by (simp add: spreads_ok_def)
  qed (use s in \<open>simp add: spreads_ok_def\<close>)
  moreover have "fold (\<lambda>(n, s). AList.update (fc_canonical (sp_near s), fc_canonical (sp_far s)) s) sps d =
      updates (map (\<lambda>(n, s). ((fc_canonical (sp_near s), fc_canonical (sp_far s)), s)) sps) d" for d
    by (induction sps arbitrary: d) (auto simp: updates_def split: prod.split)
  ultimately show ?thesis using l index_contracts_result [OF u0] by (simp add: universe_ok_def u listed_def)
qed

definition wire_names_distinct :: "fo_universe \<Rightarrow> bool" where
  "wire_names_distinct uv \<longleftrightarrow> distinct (map (\<lambda>(n, ct). contract_wire_key ct) (uv_contracts uv))"

lemma contract_by_wire_own:
  assumes u: "universe_ok uv" and d: "wire_names_distinct uv" and c: "contract_for uv n = Some ct"
  shows "contract_by_wire uv (Some (fc_instrument_name ct)) (Some (fc_symbol ct)) (fc_expiry_seconds ct)
    (Some (fc_strike_text ct)) (Some (fc_option_type ct)) = Some n"
proof -
  have ok: "contract_ok ct" using universe_okD(1) [OF u c] by simp
  have "map_of (uv_by_wire_key uv) (contract_wire_key ct) = Some n"
  proof -
    have "(contract_wire_key ct, n) \<in> set (map (\<lambda>(n, ct). (contract_wire_key ct, n)) (uv_contracts uv))"
      using map_of_in_set [OF c [unfolded contract_for_def]] by force
    moreover have "distinct (map fst (map (\<lambda>(n, ct). (contract_wire_key ct, n)) (uv_contracts uv)))"
      using d by (simp add: wire_names_distinct_def comp_def case_prod_unfold)
    ultimately have "map_of (updates (map (\<lambda>(n, ct). (contract_wire_key ct, n)) (uv_contracts uv)) []) (contract_wire_key ct) = Some n"
      by (intro map_of_updates_distinct)
    then show ?thesis using u by (simp add: universe_ok_def)
  qed
  then show ?thesis using ok
    by (simp add: contract_by_wire_def contract_ok_def kept_text_def or_else_text_def contract_wire_key_def show_opt_def)
qed

text \<open>A lookup by wire values finds a contract with just those values.\<close>

lemma contract_by_wire_exact:
  assumes u: "universe_ok uv" and f: "contract_by_wire uv inst sy secs strike opt = Some n"
  obtains ct where "contract_for uv n = Some ct" "fc_canonical ct = n" "contract_wire_key ct =
    (upper (strip (or_else_text inst [])), upper (strip (or_else_text sy [])), secs,
     if truthy strike then show_opt strike else ''-1'', upper (strip (or_else_text opt [])))"
proof -
  let ?k = "(upper (strip (or_else_text inst [])), upper (strip (or_else_text sy [])), secs,
     if truthy strike then show_opt strike else ''-1'', upper (strip (or_else_text opt [])))"
  let ?es = "map (\<lambda>(n, ct). (contract_wire_key ct, n)) (uv_contracts uv)"
  have "map_of (updates ?es []) ?k = Some n" using f u by (simp add: contract_by_wire_def universe_ok_def)
  then have "map_of (rev ?es) ?k = Some n" by (cases "map_of (rev ?es) ?k") (simp_all only: map_of_updates option.case map_of.simps)
  from map_of_in_set [OF this] obtain ct where m: "(n, ct) \<in> set (uv_contracts uv)" "contract_wire_key ct = ?k" by auto
  moreover have "contract_for uv n = Some ct" using u m(1) by (simp add: universe_ok_def contract_for_def)
  ultimately show thesis using that universe_okD(1) [OF u] by blast
qed

lemma spread_by_legs_own:
  assumes u: "universe_ok uv" and s: "spread_for uv n = Some s"
  shows "spread_by_legs uv (fc_canonical (sp_near s)) (fc_canonical (sp_far s)) = Some s"
proof -
  let ?legs = "\<lambda>s. (fc_canonical (sp_near s), fc_canonical (sp_far s))"
  let ?es = "map (\<lambda>(n, s). (?legs s, s)) (uv_spreads uv)"
  have ok: "spreads_ok (uv_contracts uv) (uv_spreads uv)" using u by (simp add: universe_ok_def)
  have same: "e = e'" if "e \<in> set (uv_spreads uv)" "e' \<in> set (uv_spreads uv)" "?legs (snd e) = ?legs (snd e')" for e e'
  proof -
    obtain x a y b where e: "e = (x, a)" "e' = (y, b)" by (cases e; cases e')
    have k: "sp_canonical a = x" "spread_ok (uv_contracts uv) a" "sp_canonical b = y" "spread_ok (uv_contracts uv) b"
      using ok that(1,2) by (auto simp: e spreads_ok_def)
    have l: "fc_canonical (sp_near a) = fc_canonical (sp_near b)" "fc_canonical (sp_far a) = fc_canonical (sp_far b)"
      using that(3) by (simp_all add: e)
    have "Some (sp_near a) = Some (sp_near b)" "Some (sp_far a) = Some (sp_far b)"
      using k(2,4) unfolding spread_ok_def l by metis+
    then have "spread_name (sp_near a) (sp_far a) = spread_name (sp_near b) (sp_far b)" by simp
    then have "x = y" using k by (simp add: spread_ok_def)
    then show ?thesis using ok that(1,2) by (auto simp: e spreads_ok_def dest: eq_key_imp_eq_value)
  qed
  have "distinct (uv_spreads uv)" using ok by (simp add: spreads_ok_def distinct_map)
  then have "distinct (map (\<lambda>e. ?legs (snd e)) (uv_spreads uv))"
    using same by (subst distinct_map) (auto simp: inj_on_def)
  then have "distinct (map fst ?es)" by (simp add: comp_def case_prod_unfold)
  moreover have "(?legs s, s) \<in> set ?es" using map_of_in_set [OF s [unfolded spread_for_def]] by force
  ultimately have "map_of (updates ?es []) (?legs s) = Some s" by (intro map_of_updates_distinct)
  then show ?thesis using u by (simp add: universe_ok_def spread_by_legs_def)
qed

subsection \<open>What a report says of an instrument\<close>

lemma get_int_or_set_fields:
  "get_int_or (set_fields fs m) t d = (case map_of (rev fs) t of None \<Rightarrow> get_int_or m t d
     | Some v \<Rightarrow> (case int_of_str v of None \<Rightarrow> d | Some i \<Rightarrow> i))"
  by (simp add: get_int_or_def msg_get_int_def msg_get_set_fields split: option.split)

lemma outright_named:
  assumes u: "universe_ok uv" and d: "wire_names_distinct uv" and c: "contract_for uv n = Some ct"
  shows "fo_contract_of uv (set_fields (outright_fields uv n) m) = Some n"
  using contract_by_wire_own [OF u d c]
  by (simp add: fo_contract_of_def outright_fields_def c msg_get_set_fields get_int_or_set_fields del: set_fields_simps)

lemma spread_named:
  assumes u: "universe_ok uv" and d: "wire_names_distinct uv" and s: "spread_for uv n = Some s"
    and q: "get_int_or m FO_LEG2_VOLUME 0 \<in> {0, get_int_or m FO_VOLUME 0}"
  shows "message_combination uv (set_fields (legs_fields uv s) m) = Inr (Inr s)"
proof -
  have ok: "spread_ok (uv_contracts uv) s" using universe_okD(2) [OF u s] by simp
  then have near: "contract_for uv (fc_canonical (sp_near s)) = Some (sp_near s)"
      and far: "contract_for uv (fc_canonical (sp_far s)) = Some (sp_far s)"
    by (simp_all add: spread_ok_def contract_for_def)
  let ?m = "set_fields (legs_fields uv s) m"
  have "fo_contract_of uv ?m = Some (fc_canonical (sp_near s))"
    using contract_by_wire_own [OF u d near]
    by (simp add: fo_contract_of_def legs_fields_def outright_fields_def Let_def near msg_get_set_fields
        get_int_or_set_fields del: set_fields_simps)
  moreover have "contract_by_wire uv (msg_get ?m FO_LEG2_INSTRUMENT_NAME) (msg_get ?m FO_LEG2_SYMBOL)
      (get_int_or ?m FO_LEG2_EXPIRY_DATE 0) (msg_get ?m FO_LEG2_STRIKE_PRICE) (msg_get ?m FO_LEG2_OPTION_TYPE) =
      Some (fc_canonical (sp_far s))"
    using contract_by_wire_own [OF u d far]
    by (simp add: legs_fields_def outright_fields_def Let_def near msg_get_set_fields get_int_or_set_fields
        del: set_fields_simps)
  moreover have "get_int_or ?m FO_LEG2_VOLUME 0 = get_int_or m FO_LEG2_VOLUME 0" "get_int_or ?m FO_VOLUME 0 = get_int_or m FO_VOLUME 0"
    by (simp_all add: legs_fields_def outright_fields_def Let_def near get_int_or_set_fields del: set_fields_simps)
  ultimately show ?thesis using ok q spread_by_legs_own [OF u s] near far
    by (auto simp: message_combination_def Let_def spread_ok_def)
qed

text \<open>What a message that names a combination has to say.\<close>

lemma message_combination_iff:
  assumes u: "universe_ok uv"
  shows "message_combination uv m = Inr (Inr s) \<longleftrightarrow>
     (\<exists>near far. fo_contract_of uv m = Some near \<and>
        contract_by_wire uv (msg_get m FO_LEG2_INSTRUMENT_NAME) (msg_get m FO_LEG2_SYMBOL)
          (get_int_or m FO_LEG2_EXPIRY_DATE 0) (msg_get m FO_LEG2_STRIKE_PRICE) (msg_get m FO_LEG2_OPTION_TYPE) = Some far \<and>
        spread_by_legs uv near far = Some s \<and> get_int_or m FO_LEG2_VOLUME 0 \<in> {0, get_int_or m FO_VOLUME 0})"
    (is "?l \<longleftrightarrow> ?r")
proof
  assume ?l
  then show ?r by (auto simp: message_combination_def Let_def split: option.splits if_splits)
next
  assume ?r
  then obtain near far where n: "fo_contract_of uv m = Some near"
      "contract_by_wire uv (msg_get m FO_LEG2_INSTRUMENT_NAME) (msg_get m FO_LEG2_SYMBOL)
          (get_int_or m FO_LEG2_EXPIRY_DATE 0) (msg_get m FO_LEG2_STRIKE_PRICE) (msg_get m FO_LEG2_OPTION_TYPE) = Some far"
      and s: "spread_by_legs uv near far = Some s" and q: "get_int_or m FO_LEG2_VOLUME 0 \<in> {0, get_int_or m FO_VOLUME 0}"
    by blast
  have "map_of (rev (map (\<lambda>(n, s). ((fc_canonical (sp_near s), fc_canonical (sp_far s)), s)) (uv_spreads uv))) (near, far) = Some s"
    using s u by (simp add: spread_by_legs_def universe_ok_def map_of_updates split: option.splits)
  from map_of_in_set [OF this] obtain n where "(n, s) \<in> set (uv_spreads uv)" and l: "near = fc_canonical (sp_near s)" "far = fc_canonical (sp_far s)"
    by auto
  then have "spread_ok (uv_contracts uv) s" using u by (auto simp: universe_ok_def spreads_ok_def)
  then show ?l using n s q
    by (auto simp: message_combination_def Let_def spread_ok_def contract_for_def l)
qed

text \<open>A combination that was found is one that is listed, and no future has its name.\<close>

lemma spread_by_legs_listed:
  assumes u: "universe_ok uv" and s: "spread_by_legs uv near far = Some s"
  shows "spread_for uv (sp_canonical s) = Some s" and "near = fc_canonical (sp_near s)" and "far = fc_canonical (sp_far s)"
proof -
  have "map_of (rev (map (\<lambda>(n, s). ((fc_canonical (sp_near s), fc_canonical (sp_far s)), s)) (uv_spreads uv))) (near, far) = Some s"
    using s u by (simp add: spread_by_legs_def universe_ok_def map_of_updates split: option.splits)
  from map_of_in_set [OF this] obtain n where n: "(n, s) \<in> set (uv_spreads uv)"
      and l: "near = fc_canonical (sp_near s)" "far = fc_canonical (sp_far s)" by auto
  then have "sp_canonical s = n" "distinct (map fst (uv_spreads uv))" using u by (auto simp: universe_ok_def spreads_ok_def)
  with n show "spread_for uv (sp_canonical s) = Some s" by (simp add: spread_for_def)
  show "near = fc_canonical (sp_near s)" "far = fc_canonical (sp_far s)" by (rule l)+
qed

lemma future_no_spread:
  assumes u: "universe_ok uv" and c: "contract_for uv n = Some ct" "is_future ct"
  shows "spread_for uv n = None"
proof (rule ccontr)
  assume "spread_for uv n \<noteq> None"
  then obtain s where s: "spread_for uv n = Some s" by blast
  have ct: "fc_canonical ct = n" "contract_ok ct" using universe_okD(1) [OF u c(1)] by simp_all
  then obtain v where v: "CHR ''-'' \<notin> set v" "CHR ''/'' \<notin> set v" "n = fc_symbol ct @ ''-'' @ fc_instrument_name ct @ ''-'' @ v"
    using c(2) by (auto simp: contract_ok_def)
  let ?near = "sp_near s" and ?far = "sp_far s"
  have ok: "n = spread_name ?near ?far" "is_future ?near" "contract_for uv (fc_canonical ?near) = Some ?near"
      "contract_for uv (fc_canonical ?far) = Some ?far"
    using universe_okD(2) [OF u s] by (auto simp: spread_ok_def contract_for_def)
  obtain w where w: "CHR ''-'' \<notin> set w" "fc_canonical ?near = fc_symbol ?near @ ''-'' @ fc_instrument_name ?near @ ''-'' @ w"
    using universe_okD(1) [OF u ok(3)] ok(2) by (auto simp: contract_ok_def)
  let ?t = "last (split_on (CHR ''-'') (fc_canonical ?far))"
  have "split_on (CHR ''-'') (fc_canonical ?far) \<noteq> []" by (cases "fc_canonical ?far") (auto split: list.split)
  then have t: "CHR ''-'' \<notin> set ?t" using split_on_no_sep last_in_set by metis
  have "(fc_symbol ct @ ''-'' @ fc_instrument_name ct) @ CHR ''-'' # v =
      (fc_symbol ?near @ ''-'' @ fc_instrument_name ?near) @ CHR ''-'' # (w @ ''/'' @ ?t)"
    using ok(1) v(3) w(2) by (simp add: spread_name_def)
  from rsplit_inject(2) [OF this v(1)] w(1) t have "v = w @ ''/'' @ ?t" by simp
  with v(2) show False by simp
qed

section \<open>What a reload of the contract file does to the combinations\<close>

text \<open>
  The loader lists every combination as a tradable instrument. The reload reads the contract
  file alone and withdraws every instrument that the file does not name.
\<close>

lemma build_spread_tradable: "build_spread c insts cts r = Inr (s, i) \<Longrightarrow> in_tradable i"
  unfolding build_spread_def bind_exn_Inr
  by (auto simp: bind_exn_Inr Let_def make_instrument_def split: if_splits)

definition spreads_trade :: "(string \<times> instrument) list \<Rightarrow> (string \<times> spread_combination) list \<Rightarrow> bool" where
  "spreads_trade insts sps \<longleftrightarrow> map fst insts = map fst sps \<and> distinct (map fst sps) \<and> (\<forall>(n, i) \<in> set insts. in_tradable i)"

lemma read_spread_rows_trade:
  "read_spread_rows c known cts rows insts sps = Inr (insts', sps') \<Longrightarrow> spreads_trade insts sps \<Longrightarrow> spreads_trade insts' sps'"
proof (induction rows arbitrary: insts sps)
  case (Cons r rs)
  obtain s i where b: "build_spread c known cts r = Inr (s, i)" and new: "map_of sps (sp_canonical s) = None"
      and r: "read_spread_rows c known cts rs (AList.update (sp_canonical s) i insts) (AList.update (sp_canonical s) s sps) = Inr (insts', sps')"
    using Cons.prems(1) by (auto split: sum.splits prod.splits if_splits)
  have f: "sp_canonical s \<notin> fst ` set sps" "sp_canonical s \<notin> fst ` set insts"
    using new Cons.prems(2) unfolding spreads_trade_def map_of_eq_None_iff by (metis list.set_map)+
  have "spreads_trade (AList.update (sp_canonical s) i insts) (AList.update (sp_canonical s) s sps)"
    using Cons.prems(2) f build_spread_tradable [OF b] by (simp add: spreads_trade_def update_fresh)
  from Cons.IH [OF r this] show ?case .
qed simp

lemma loaded_spread_trades:
  assumes l: "load_universe c rows spread_rows = Inr uv" and s: "spread_for uv n = Some s"
  obtains i where "map_of (uv_instruments uv) n = Some i" "in_tradable i"
proof -
  obtain insts cts u0 spread_insts sps where
      r: "(case spread_rows of None \<Rightarrow> Inr ([], []) | Some rs \<Rightarrow> read_spread_rows c insts cts rs [] []) = Inr (spread_insts, sps)"
      and u: "uv_instruments uv = fold (\<lambda>(n, i). AList.update n i) spread_insts insts" "uv_spreads uv = sps"
    using l by (auto simp: load_universe_def split: sum.splits)
  have t: "spreads_trade spread_insts sps"
  proof (cases spread_rows)
    case (Some rs)
    then show ?thesis using r read_spread_rows_trade [of c insts cts rs "[]" "[]"] by (simp add: spreads_trade_def)
  qed (use r in \<open>simp add: spreads_trade_def\<close>)
  have "n \<in> set (map fst sps)" using s u(2) map_of_in_set by (force simp: spread_for_def)
  then have "n \<in> set (map fst spread_insts)" using t by (simp add: spreads_trade_def)
  then obtain i where i: "(n, i) \<in> set spread_insts" by auto
  with t have "map_of (updates spread_insts insts) n = Some i" by (auto simp: spreads_trade_def intro: map_of_updates_distinct)
  moreover have "in_tradable i" using t i by (auto simp: spreads_trade_def)
  ultimately show thesis using that u(1) by (simp add: updates_def)
qed

subsection \<open>The two passes\<close>

lemma reload_contract_other:
  assumes "reload_contract c insts cts prior name (u, res) = Inr (u', res')" and "n \<noteq> name"
  shows "map_of (uv_instruments u') n = map_of (uv_instruments u) n \<and> uv_spreads u' = uv_spreads u"
  using assms by (auto simp: reload_contract_def Let_def bind_exn_Inr map_of_update_eq split: option.splits if_splits)

lemma reload_contracts_other:
  "fold_exn (reload_contract c insts cts prior) names (u, res) = Inr (u', res') \<Longrightarrow> n \<notin> set names \<Longrightarrow>
     map_of (uv_instruments u') n = map_of (uv_instruments u) n \<and> uv_spreads u' = uv_spreads u"
proof (induction names arbitrary: u res)
  case (Cons name names)
  obtain u1 res1 where "reload_contract c insts cts prior name (u, res) = Inr (u1, res1)"
      "fold_exn (reload_contract c insts cts prior) names (u1, res1) = Inr (u', res')"
    using Cons.prems(1) by (auto split: sum.splits)
  with Cons.IH [of u1 res1] Cons.prems(2) reload_contract_other [of c insts cts prior name u res u1 res1 n] show ?case by simp
qed simp

text \<open>What is known of an instrument that the file does not name, during the second pass.\<close>

definition withdrawing :: "string \<Rightarrow> fo_universe \<times> reload_result \<Rightarrow> bool" where
  "withdrawing n s \<longleftrightarrow> (\<exists>i. map_of (uv_instruments (fst s)) n = Some i \<and> (in_tradable i \<or> n \<in> set (rl_withdrawn (snd s))))"

definition withdrawn :: "string \<Rightarrow> fo_universe \<times> reload_result \<Rightarrow> bool" where
  "withdrawn n s \<longleftrightarrow> (\<exists>i. map_of (uv_instruments (fst s)) n = Some i \<and> \<not> in_tradable i \<and> n \<in> set (rl_withdrawn (snd s)))"

lemma withdraw_step:
  assumes "withdraw_instrument cts name s = Inr s'" and "map_of cts n = None"
  shows "withdrawing n s \<Longrightarrow> withdrawing n s'" "withdrawn n s \<Longrightarrow> withdrawn n s'" "withdrawing n s \<Longrightarrow> name = n \<Longrightarrow> withdrawn n s'"
    "uv_spreads (fst s') = uv_spreads (fst s)"
  using assms by (cases s; force simp: withdraw_instrument_def withdrawing_def withdrawn_def map_of_update_eq
      split: option.splits if_splits)+

lemma withdraw_all:
  "fold_exn (withdraw_instrument cts) names s = Inr s' \<Longrightarrow> map_of cts n = None \<Longrightarrow>
     uv_spreads (fst s') = uv_spreads (fst s) \<and> (withdrawn n s \<longrightarrow> withdrawn n s') \<and>
     (withdrawing n s \<longrightarrow> n \<in> set names \<longrightarrow> withdrawn n s')"
proof (induction names arbitrary: s)
  case (Cons name names)
  obtain s1 where s1: "withdraw_instrument cts name s = Inr s1" "fold_exn (withdraw_instrument cts) names s1 = Inr s'"
    using Cons.prems(1) by (auto split: sum.splits)
  note w = withdraw_step [OF s1(1) Cons.prems(2)]
  from Cons.IH [OF s1(2) Cons.prems(2)] w show ?case by auto
qed simp

lemma reload_withdraws:
  assumes r: "reload_universe c rows uv = Inr (uv', res)" and f: "read_contract_rows c rows [] [] = Inr (insts, cts)"
    and n: "map_of cts n = None" and i: "map_of (uv_instruments uv) n = Some i" "in_tradable i"
  shows "withdrawn n (uv', res)" and "uv_spreads uv' = uv_spreads uv"
proof -
  obtain u1 res1 u2 where s1: "fold_exn (reload_contract c insts cts uv) (sort (map fst cts))
        (uv, \<lparr>rl_added = [], rl_updated = [], rl_withdrawn = []\<rparr>) = Inr (u1, res1)"
      and s2: "fold_exn (withdraw_instrument cts) (sort (map fst (uv_instruments uv))) (u1, res1) = Inr (u2, res)"
      and s3: "index_contracts u2 = Inr uv'"
    using r by (auto simp: reload_universe_def f bind_exn_Inr split: sum.splits)
  have "n \<notin> set (sort (map fst cts))" using n by (simp add: map_of_eq_None_iff)
  from reload_contracts_other [OF s1 this] have u1: "map_of (uv_instruments u1) n = Some i" "uv_spreads u1 = uv_spreads uv"
    using i(1) by simp_all
  then have "withdrawing n (u1, res1)" using i(2) by (simp add: withdrawing_def)
  moreover have "n \<in> set (sort (map fst (uv_instruments uv)))" using map_of_in_set [OF i(1)] by force
  moreover note w = withdraw_all [OF s2 n]
  ultimately have "withdrawn n (u2, res)" "uv_spreads u2 = uv_spreads uv" using u1(2) by simp_all
  then show "withdrawn n (uv', res)" "uv_spreads uv' = uv_spreads uv"
    using index_contracts_result(3,4) [OF s3] by (simp_all add: withdrawn_def)
qed

end
