(* ===== verification/Nsefo_Facts.thy ===== *)
theory Nsefo_Facts
  imports Nsefo_Gateway Nse_Facts Nsefo_Contract_Facts Nse_Endings
begin

section \<open>The derivatives gateway keeps its tables and the engine's invariant\<close>

text \<open>
  The desk is shared, so \<open>nse_desk\<close> covers the callbacks of sign-on and sign-off with this
  gateway's renderer too; what is left is that requests and the box sequence keep the same
  invariant, which interprets the contract of a gateway a second time.
\<close>

lemma fo_emit_good:
  assumes "fo_emit env fb evs (st\<lparr>ns_world := w\<rparr>) = Inr st'" and "nse_good st" and "engine_inv w"
  shows "nse_good st'"
  using assms good_emit unfolding fo_emit_def by blast

lemma fo_answer_good:
  assumes "fo_answer env u m (ew, evs) st = Inr st'" and "nse_good st" and "engine_inv ew"
  shows "nse_good st'"
proof -
  have "nse_good (fo_remember m evs (st\<lparr>ns_world := ew\<rparr>))"
    unfolding fo_remember_def reported_good [OF remember_only_reported] using assms(2,3) by (rule good_world)
  then show ?thesis using assms(1) reported_good [OF emit_only_reported] by (simp add: fo_answer_def fo_emit_def)
qed

lemma fo_refusal_good:
  "spread_error env u m code error st = Inr st' \<Longrightarrow> nse_good st \<Longrightarrow> nse_good st'"
  "fo_reject_change env u m code error st = Inr st' \<Longrightarrow> nse_good st \<Longrightarrow> nse_good st'"
  by (auto simp: spread_error_def fo_reject_change_def bind_exn_Inr intro: user_send_good)

lemma fo_enter_good: "fo_enter env u m sy price st = Inr st' \<Longrightarrow> nse_good st \<Longrightarrow> nse_good st'"
  by (auto simp: fo_enter_def bind_exn_Inr intro: fo_answer_good new_order_inv good_engine)

lemma fo_replace_good:
  "bind_exn (replace_order en rq (ns_world st)) (\<lambda>r. fo_answer env u m r st) = Inr st' \<Longrightarrow> nse_good st \<Longrightarrow> nse_good st'"
  by (auto simp: bind_exn_Inr intro: fo_answer_good replace_order_inv good_engine)

lemma fo_cancel_good:
  "bind_exn (Engine.cancel_order rq (ns_world st)) (\<lambda>r. fo_answer env u m r st) = Inr st' \<Longrightarrow> nse_good st \<Longrightarrow> nse_good st'"
  by (auto simp: bind_exn_Inr intro: fo_answer_good cancel_order_inv(1) good_engine)

lemmas fo_handler_good = fo_refusal_good fo_enter_good fo_replace_good fo_cancel_good

lemma fo_orders_good:
  assumes g: "nse_good st"
  shows "on_spread_order env u m st = Inr st' \<Longrightarrow> nse_good st'"
    and "on_spread_modify env u m st = Inr st' \<Longrightarrow> nse_good st'"
    and "on_spread_cancel env u m st = Inr st' \<Longrightarrow> nse_good st'"
    and "on_multi_leg env u m st = Inr st' \<Longrightarrow> nse_good st'"
    and "fo_on_new_order env u m st = Inr st' \<Longrightarrow> nse_good st'"
    and "fo_on_modify env u m st = Inr st' \<Longrightarrow> nse_good st'"
    and "fo_on_cancel env u m st = Inr st' \<Longrightarrow> nse_good st'"
proof -
  show "on_spread_order env u m st = Inr st' \<Longrightarrow> nse_good st'"
    by (cases "message_combination (fv_universe env) m")
      (auto simp: on_spread_order_def split: sum.splits option.splits if_splits dest: fo_handler_good [OF _ g])
  show "on_spread_modify env u m st = Inr st' \<Longrightarrow> nse_good st'"
    unfolding on_spread_modify_def by (auto split: sum.splits option.splits if_splits dest: fo_handler_good [OF _ g])
  show "on_spread_cancel env u m st = Inr st' \<Longrightarrow> nse_good st'"
    unfolding on_spread_cancel_def by (rule fo_cancel_good [OF _ g])
  show "on_multi_leg env u m st = Inr st' \<Longrightarrow> nse_good st'"
    unfolding on_multi_leg_def by (rule fo_refusal_good(1) [OF _ g])
  show "fo_on_new_order env u m st = Inr st' \<Longrightarrow> nse_good st'"
    unfolding fo_on_new_order_def fo_order_error_def
    by (auto split: sum.splits option.splits if_splits dest: fo_handler_good [OF _ g])
  show "fo_on_modify env u m st = Inr st' \<Longrightarrow> nse_good st'"
    unfolding fo_on_modify_def by (auto split: sum.splits option.splits if_splits dest: fo_handler_good [OF _ g])
  show "fo_on_cancel env u m st = Inr st' \<Longrightarrow> nse_good st'"
    unfolding fo_on_cancel_def by (rule fo_cancel_good [OF _ g])
qed

lemma fo_on_sign_off_good:
  assumes r: "fo_on_sign_off env u st = Inr st'" and g: "nse_good st"
  shows "nse_good st'"
  using r nse_desk.sign_off_good [unfolded nse_good_eq] user_send_good [OF _ g]
  by (auto simp: fo_on_sign_off_def fo_on_logout_def user_disconnect_def bind_exn_Inr split: option.splits)

lemma fo_on_download_request_good:
  assumes r: "fo_on_download_request env u m st = Inr st'" and g: "nse_good st"
  shows "nse_good st'"
proof -
  let ?each = "\<lambda>stream (sequence, recovered) s.
    bind_exn (fo_download_record env recovered stream) (\<lambda>r. user_send (fv_net env) u r (s :: nse_state))"
  have loop: "nse_good t'" if "fold_exn (?each stream) rs t = Inr t'" "nse_good t" for stream rs t t'
    using that by (rule fold_exn_rel [where R = nse_good]) (auto simp: bind_exn_Inr user_send_good)
  show ?thesis using r g
    by (auto simp: fo_on_download_request_def Let_def bind_exn_Inr split: if_splits option.splits
        dest!: user_send_good loop)
qed

lemma fo_on_message_good:
  assumes r: "fo_on_message env u m st = Inr st'" and g: "nse_good st" and live: "u \<in> set (nn_live st)"
  shows "nse_good st'"
proof -
  obtain st1 c where l: "desk_logon u st = Inr st1" and h: "fo_handle_code env c u m st1 = Inr st'"
    using r by (auto simp: fo_on_message_def bind_exn_Inr)
  have "nse_good st1" using desk_logon_good [OF l g live] by blast
  with h show ?thesis
    by (auto simp: fo_handle_code_def fo_on_system_information_def fo_order_error_def bind_exn_Inr
        intro: fo_orders_good fo_on_sign_off_good fo_on_download_request_good user_send_good fo_refusal_good
        split: if_splits)
qed

subsection \<open>The box sequence\<close>

lemma fo_drop_box_good: "fo_drop_box env b st = Inr st' \<Longrightarrow> nse_good st \<Longrightarrow> nse_good st'"
  unfolding fo_on_logout_def by (rule nse_desk.disconnect_good [unfolded nse_good_eq])

lemma fo_box_error_good: "fo_box_error env b code error who st = Inr st' \<Longrightarrow> nse_good st \<Longrightarrow> nse_good st'"
  by (auto simp: fo_box_error_def bind_exn_Inr intro: box_send_good)

lemma fo_on_registration_good:
  assumes "fo_on_registration env b m st = Inr st'" and g: "nse_good st"
  shows "nse_good st'"
  using assms(1) fo_drop_box_good fo_box_error_good [OF _ g] box_send_good [OF _ g] registered_good
  by (auto simp: fo_on_registration_def bind_exn_Inr split: if_splits)

lemma fo_on_box_sign_on_good:
  assumes "fo_on_box_sign_on env b m st = Inr st'" and g: "nse_good st"
  shows "nse_good st'"
  using assms(1) fo_drop_box_good fo_box_error_good [OF _ g] box_send_good [OF _ g] registered_good
  by (auto simp: fo_on_box_sign_on_def Let_def bind_exn_Inr split: if_splits option.splits)

lemma fo_on_sign_on_good:
  assumes r: "fo_on_sign_on env b m st = Inr st'" and g: "nse_good st"
  shows "nse_good st'"
proof (cases "\<exists>error who. fo_box_error env b X_SIGN_ON_REQUEST_OUT error who st = Inr st'")
  case True
  then show ?thesis using fo_box_error_good [OF _ g] by blast
next
  case False
  then obtain u cfg st1 reply where c: "map_of (nn_users st) u = Some cfg" "nu_box_id cfg = b"
      "map_of (bx_users (box_of st b)) (nu_user_id cfg) = None" "sign_on_user desk_logon b cfg st = Inr st1"
      and s: "user_send (fv_net env) (nu_user_id cfg) reply st1 = Inr st'"
    using r by (auto simp: fo_on_sign_on_def Let_def bind_exn_Inr split: option.splits if_splits)
  then have "map_of (nn_users st) (nu_user_id cfg) = Some cfg" using good_config [OF g c(1)] by simp
  with nse_desk.sign_on_good [unfolded nse_good_eq, OF c(4) g _ c(2,3)] have "nse_good st1" by blast
  then show ?thesis by (rule user_send_good [OF s])
qed

lemma fo_on_box_message_good:
  "fo_on_box_message env b m st = Inr (answered, st') \<Longrightarrow> nse_good st \<Longrightarrow> nse_good st'"
  by (auto simp: fo_on_box_message_def bind_exn_Inr split: if_splits
      intro: fo_on_registration_good fo_on_box_sign_on_good fo_on_sign_on_good)

lemma fo_on_invalid_good:
  assumes "fo_on_invalid env who m f st = Inr (answered, st')" and g: "nse_good st"
  shows "nse_good st'"
proof -
  obtain c where "(case who of None \<Rightarrow> Inr (False, st)
       | Some u \<Rightarrow>
          (if c \<in> set fo_served_codes
           then bind_exn (fo_order_error env u m (fo_failure_to_error_code (fa_reason f)) st) (\<lambda>st1. Inr (True, st1))
           else (case map_of spread_code_errors c of
               Some error \<Rightarrow> bind_exn (fo_order_error env u m error st) (\<lambda>st1. Inr (True, st1))
             | None \<Rightarrow> Inr (False, st)))) = Inr (answered, st')"
    using assms(1) unfolding fo_on_invalid_def bind_exn_Inr by blast
  then show ?thesis using g fo_refusal_good(2) [OF _ g]
    by (auto simp: fo_order_error_def bind_exn_Inr split: option.splits if_splits)
qed

lemma fo_on_checksum_failure_good: "fo_on_checksum_failure env b st = Inr st' \<Longrightarrow> nse_good st \<Longrightarrow> nse_good st'"
  by (auto simp: fo_on_checksum_failure_def bind_exn_Inr intro: box_send_good)

interpretation fo: nnf_gateway "fo_app env" nse_table nse_extra for env
proof (unfold fo_app_simps nnf_gateway_def nnf_gateway_axioms_def nse_good_eq, intro conjI allI impI)
  show "session_callbacks desk_logon (fo_on_logout env) desk_detached nse_table nse_extra"
    unfolding fo_on_logout_def by (rule nse_desk.session_callbacks_axioms)
qed (blast intro: fo_on_message_good fo_on_box_message_good fo_on_invalid_good fo_on_checksum_failure_good)+

subsection \<open>Steps\<close>

lemma fo_set_trading_state_good:
  assumes "fo_set_trading_state env state market sy st = Inr (st', evs)" and g: "nse_good st"
  shows "nse_good st'"
proof -
  let ?n = "if truthy market then show_opt market else nv_market (fv_desk env)"
  obtain m w where m: "map_of (ew_markets (ns_world st)) ?n = Some m"
      and w: "market_set_state (show_state state) sy (market_view (ns_world st) m) = Inr (w, evs)"
      and st': "st' = st\<lparr>ns_world := put_market ?n w (ns_world st)\<rparr>"
    using assms(1) unfolding fo_set_trading_state_def Let_def by (auto simp: bind_exn_Inr split: option.splits)
  note i = good_engine [OF g]
  note mi = engine_invD(3) [OF i m]
  show ?thesis unfolding st'
    by (rule good_world [OF g put_view_inv [OF i m market_set_state_inv [OF w mi, THEN conjunct1] phase_frame [OF w mi]]])
qed

lemma fo_inject_order_good:
  assumes "fo_inject_order env rq st = Inr st'" and g: "nse_good st"
  shows "nse_good st'"
  using assms(1) fo_emit_good [OF _ g new_order_inv [OF _ good_engine [OF g]]]
  by (auto simp: fo_inject_order_def bind_exn_Inr)

lemma fo_operator_cancel_session_good:
  assumes "fo_operator_cancel_session env k t st = Inr st'" and g: "nse_good st"
  shows "nse_good st'"
proof -
  obtain ew evs where "cancel_session_orders k CR_ADMINISTRATIVE (if t = [] then ''cancelled by operator'' else t) (ns_world st) = Inr (ew, evs)"
      and e: "fo_emit env None evs (st\<lparr>ns_world := ew\<rparr>) = Inr st'"
    using assms(1) by (auto simp: fo_operator_cancel_session_def bind_exn_Inr)
  then show ?thesis using fo_emit_good [OF e g] cancel_session_result(1) good_engine [OF g] by blast
qed

lemma fo_step_good: "fo_step env st st' \<Longrightarrow> nse_good st \<Longrightarrow> nse_good st'"
proof (induction rule: fo_step.induct)
  case (attach now st b)
  then show ?case using nse_desk.attach_good [unfolded nse_good_eq] by blast
next
  case (data now b chunk st st')
  then show ?case using fo.data_good [unfolded nse_good_eq] by blast
next
  case (closed now b st st')
  then show ?case using nse_desk.detach_good [unfolded nse_good_eq] unfolding fo_on_logout_def by blast
next
  case (kill_user now u st st')
  then show ?case using nse_desk.sign_off_good [unfolded nse_good_eq]
    by (auto simp: fo_on_logout_def user_disconnect_def split: option.splits)
next
  case (tick now st st')
  then show ?case using fo.tick_good [unfolded nse_good_eq] by blast
qed (auto intro: fo_drop_box_good deliver_delayed_good fo_set_trading_state_good fo_inject_order_good
      fo_operator_cancel_session_good
    simp: reported_good [OF only_reported_updates(1)] reported_good [OF only_reported_updates(6)] issue_secrets_def)

lemma fo_reaches_good: "fo_reaches env st st' \<Longrightarrow> nse_good st \<Longrightarrow> nse_good st'"
  by (induction rule: rtranclp_induct) (auto intro: fo_step_good)

section \<open>Spread orders and their reports\<close>

subsection \<open>An order the engine refuses\<close>

lemma ensure_rests:
  assumes i: "engine_inv ew" and m: "map_of (ew_markets ew) nm = Some m"
  shows "all_resting (put_market nm (market_view ew (ensure_book sy m)) ew) = all_resting ew"
proof -
  note d = engine_invD(2) [OF i]
  have "rests_in (mw_market (market_view ew (ensure_book sy m))) = rests_in m"
    using ensure_view_inv(3) [OF i m] by (simp add: market_view_def)
  moreover have "x \<in> rests_in m \<or> (\<exists>nm' m'. nm' \<noteq> nm \<and> map_of (ew_markets ew) nm' = Some m' \<and> x \<in> rests_in m') \<longleftrightarrow>
      (\<exists>nm m. map_of (ew_markets ew) nm = Some m \<and> x \<in> rests_in m)" for x
    using m by (metis option.inject)
  ultimately show ?thesis unfolding set_eq_iff rests_in_put [OF d m] all_resting_map_of [OF d] by simp
qed

lemma new_order_refused:
  assumes no: "new_order en rq ew0 = Inr (ew', evs)" and i: "engine_inv ew0"
    and v: "\<And>y sm b. o_order_type y = nr_order_type rq \<Longrightarrow> o_price y = nr_price rq \<Longrightarrow>
      validate_new (en_validator en) y (engine_instrument en (nr_symbol rq)) sm b \<noteq> Inr None"
  shows "all_resting ew' = all_resting ew0 \<and> (\<exists>x reason t. evs = [OrderRejected x reason t]) \<and>
    (\<forall>z. ew_heap ew' z = ew_heap ew0 z \<or> o_status (ew_heap ew' z) = REJECTED)"
  using no
proof (rule new_order_cases)
  fix x ew m r' w
  assume "build_order en rq ew0 = Inr (x, ew)"
    "validate_new (en_validator en) (ew_heap ew x) (engine_instrument en (nr_symbol rq)) (Some (mk_state m)) (Some (book_of (nr_symbol rq) m)) = Inr None"
  moreover from build_order_Inr(2) [OF this(1)]
  have "o_order_type (ew_heap ew x) = nr_order_type rq" "o_price (ew_heap ew x) = nr_price rq"
    by (simp_all add: order_of_request_def)
  ultimately show ?thesis using v by blast
next
  fix x ew ew1 y reason t
  assume b: "build_order en rq ew0 = Inr (x, ew)" and ew': "ew' = set_order_ew x y ew1" and evs: "evs = [OrderRejected x reason t]"
    and y: "y = (ew_heap ew1 x)\<lparr>o_status := REJECTED\<rparr>"
    and ew1: "ew1 = ew \<or> (\<exists>b. ew1 = ew\<lparr>ew_behaviour := b\<rparr>) \<or>
       (\<exists>m. engine_market ew (nr_market rq) = Some m \<and>
          ew1 = put_market (show_opt (nr_market rq)) (market_view ew (ensure_book (nr_symbol rq) m)) ew)"
  note i1 = build_order_inv(1) [OF i b]
  from ew1 have "all_resting ew1 = all_resting ew \<and> ew_heap ew1 = ew_heap ew"
  proof (elim disjE exE conjE)
    fix m
    assume m: "engine_market ew (nr_market rq) = Some m"
      "ew1 = put_market (show_opt (nr_market rq)) (market_view ew (ensure_book (nr_symbol rq) m)) ew"
    then obtain nm where "nr_market rq = Some nm" "map_of (ew_markets ew) nm = Some m" by (auto simp: engine_market_Some)
    with m(2) ensure_rests [OF i1] show ?thesis by (simp del: put_market_simps) (simp add: put_market_def market_view_def)
  qed (simp_all add: all_resting_def)
  then have r: "all_resting ew1 = all_resting ew" and h: "ew_heap ew1 = ew_heap ew" by simp_all
  have "all_resting ew = all_resting ew0" "\<And>z. z \<noteq> x \<Longrightarrow> ew_heap ew z = ew_heap ew0 z"
    using build_order_Inr(2) [OF b] by (simp_all add: all_resting_def)
  then show ?thesis using r h evs y by (auto simp: ew' set_order_ew_def all_resting_def)
qed

lemma fo_answer_reports:
  assumes "fo_answer env u m (ew, evs) st = Inr st'"
  shows "only_reported (st\<lparr>ns_world := ew\<rparr>) st'"
  using assms only_reported_trans [OF remember_only_reported emit_only_reported]
  by (simp add: fo_answer_def fo_remember_def fo_emit_def)

lemma fo_refusal_reports:
  "spread_error env u m code error st = Inr st' \<Longrightarrow> only_reported st st'"
  "fo_reject_change env u m code error st = Inr st' \<Longrightarrow> only_reported st st'"
  by (auto simp: spread_error_def fo_reject_change_def bind_exn_Inr intro: user_send_reports)

lemma reported_rests: "only_reported st st' \<Longrightarrow> all_resting (ns_world st') = all_resting (ns_world st)"
  by (auto simp: only_reported_def)

lemma fo_enter_refused:
  assumes e: "fo_enter env u m sy price st = Inr st'" and g: "nse_good st"
    and v: "\<And>y sm b. o_order_type y = Some (fo_order_type m) \<Longrightarrow> o_price y = price \<Longrightarrow>
      validate_new (en_validator (fo_engine env)) y (engine_instrument (fo_engine env) sy) sm b \<noteq> Inr None"
  shows "all_resting (ns_world st') = all_resting (ns_world st) \<and>
    (\<forall>x. order_at st' x = order_at st x \<or> o_status (order_at st' x) = REJECTED)"
proof -
  obtain ew evs where n: "new_order (fo_engine env) (fo_order_request env u m sy price) (ns_world st) = Inr (ew, evs)"
      and a: "fo_answer env u m (ew, evs) st = Inr st'"
    using e by (auto simp: fo_enter_def bind_exn_Inr)
  note r = fo_answer_reports [OF a]
  have "all_resting ew = all_resting (ns_world st) \<and> (\<forall>z. ew_heap ew z = ew_heap (ns_world st) z \<or> o_status (ew_heap ew z) = REJECTED)"
    using new_order_refused [OF n good_engine [OF g]] v by (simp add: fo_order_request_def)
  then show ?thesis using reported_rests [OF r] reported_reading(1) [OF r] by (simp add: order_at_def)
qed

text \<open>A limit order without a price never passes.\<close>

lemma unpriced_limit_refused:
  "o_order_type y = Some LIMIT \<Longrightarrow> o_price y = None \<Longrightarrow> validate_new v y i sm b \<noteq> Inr None"
  by (auto simp: validate_new_clean terms_acceptable_def)

subsection \<open>Which message enters a spread order\<close>

lemma on_spread_order_enters:
  assumes r: "on_spread_order env u m st = Inr st'" and c: "engine_view st' \<noteq> engine_view st"
  obtains s price where "message_combination (fv_universe env) m = Inr (Inr s)" "spread_unsupported m = None"
    "fo_price_field env m FO_PRICE_DIFF = Inr price" "fo_enter env u m (sp_canonical s) price st = Inr st'"
proof -
  have "\<not> spread_error env u m code error st = Inr st'" for code error
    using c fo_refusal_reports(1) reported_view by metis
  note no = this
  obtain named where n: "message_combination (fv_universe env) m = Inr named" using r by (auto simp: on_spread_order_def bind_exn_Inr)
  note r1 = r [unfolded on_spread_order_def n bind_exn_simps]
  obtain s where s: "named = Inr s" using r1 no by (cases named) auto
  have u: "spread_unsupported m = None" using r1 no by (auto simp: s split: option.splits)
  obtain price where "fo_price_field env m FO_PRICE_DIFF = Inr price"
    using r1 no by (cases "fo_price_field env m FO_PRICE_DIFF") (auto simp: s u split: if_splits)
  then show thesis using r1 that n u by (auto simp: s)
qed

lemma spread_supported:
  assumes "spread_unsupported m = None"
  shows "fo_time_in_force m = DAY" "msg_get m FO_BOOK_TYPE = Some fo_supported_book"
  using assms by (auto simp: spread_unsupported_def fo_time_in_force_def split: if_splits)

subsection \<open>What a report says of an instrument\<close>

definition contract_tags :: "int set" where
  "contract_tags = {FO_SYMBOL, FO_INSTRUMENT_NAME, FO_EXPIRY_DATE, FO_STRIKE_PRICE, FO_OPTION_TYPE, FO_LEG2_SYMBOL,
     FO_LEG2_INSTRUMENT_NAME, FO_LEG2_EXPIRY_DATE, FO_LEG2_STRIKE_PRICE, FO_LEG2_OPTION_TYPE}"

definition same_instrument :: "fix_message \<Rightarrow> fix_message \<Rightarrow> bool" where
  "same_instrument m m' \<longleftrightarrow> (\<forall>t \<in> contract_tags. msg_get m t = msg_get m' t)"

lemma same_instrument_trans [trans]: "same_instrument a b \<Longrightarrow> same_instrument b c \<Longrightarrow> same_instrument a c"
  by (simp add: same_instrument_def)

lemma same_instrument_reads:
  assumes "same_instrument m m'"
  shows "fo_contract_of uv m = fo_contract_of uv m'"
    and "get_int_or m FO_LEG2_VOLUME 0 \<in> {0, get_int_or m FO_VOLUME 0} \<Longrightarrow> get_int_or m' FO_LEG2_VOLUME 0 \<in> {0, get_int_or m' FO_VOLUME 0} \<Longrightarrow>
      message_combination uv m = message_combination uv m'"
proof -
  have g: "msg_get m t = msg_get m' t" "get_int_or m t d = get_int_or m' t d" if "t \<in> contract_tags" for t d
    using assms that by (simp_all add: same_instrument_def get_int_or_def msg_get_int_def)
  show c: "fo_contract_of uv m = fo_contract_of uv m'"
    using g by (simp add: fo_contract_of_def contract_tags_def)
  assume "get_int_or m FO_LEG2_VOLUME 0 \<in> {0, get_int_or m FO_VOLUME 0}" "get_int_or m' FO_LEG2_VOLUME 0 \<in> {0, get_int_or m' FO_VOLUME 0}"
  then show "message_combination uv m = message_combination uv m'"
    using g c by (auto simp: message_combination_def contract_tags_def Let_def split: option.splits)
qed

lemma same_instrument_set: "fst ` set fs \<inter> contract_tags = {} \<Longrightarrow> same_instrument (set_fields fs m) m"
  using msg_get_other [of _ fs m] unfolding same_instrument_def by (meson disjoint_iff)

lemma same_instrument_flags: "same_instrument (fo_set_flags y m) m"
  unfolding fo_set_flags_def by (rule same_instrument_trans; rule same_instrument_set) (auto simp: fo_order_flags_def contract_tags_def)

lemma quoted_tags: "quoted_fields env y = Inr fs \<Longrightarrow>
    fst ` set fs \<subseteq> {FO_PRICE, FO_PRICE_DIFF, FO_LEG2_VOLUME, FO_LEG2_TOTAL_VOL_REMAINING, FO_LEG2_VOLUME_FILLED_TODAY, FO_LEG2_BUY_SELL}"
  by (auto simp: quoted_fields_def bind_exn_Inr split: option.splits if_splits)

lemma fo_owner_tags: "fst ` set (fo_owner_fields st y tag br) \<subseteq> {FO_USER_ID, tag, FO_BROKER_ID, FO_BRANCH_ID}"
  by (auto simp: fo_owner_fields_def split: option.splits)

lemma set_fields_append: "set_fields (fs @ gs) m = set_fields gs (set_fields fs m)"
  by (simp add: set_fields_def)

lemma msg_get_only:
  assumes "\<And>v'. (t, v') \<in> set fs \<Longrightarrow> v' = v"
  shows "msg_get (set_fields fs m) t = (if t \<in> fst ` set fs then Some v else msg_get m t)"
proof (cases "map_of (rev fs) t")
  case None
  then have "t \<notin> fst ` set fs" using map_of_eq_None_iff [of "rev fs" t] by simp
  then show ?thesis by (simp add: msg_get_other)
next
  case (Some w)
  with map_of_in_set [OF this] assms show ?thesis by (force simp: msg_get_set_fields)
qed

lemma same_instrument_parts:
  assumes "fst ` set gs \<inter> contract_tags = {}"
  shows "same_instrument (set_fields (fs @ cs @ gs) m) (set_fields cs (set_fields fs m))"
  unfolding set_fields_append by (rule same_instrument_set [OF assms])

lemma base_report_instrument:
  assumes "fo_base_report env st x code = Inr m"
  shows "\<exists>m0. same_instrument m (set_fields (contract_fields (fv_universe env) (o_symbol (order_at st x))) m0) \<and>
    get_int_or m0 FO_LEG2_VOLUME 0 = 0"
    and "get_int_or m FO_LEG2_VOLUME 0 \<in> {0, get_int_or m FO_VOLUME 0}"
proof -
  let ?y = "order_at st x"
  obtain s ns price where p: "quoted_fields env ?y = Inr price"
    and m: "m = fo_set_flags ?y
          (set_fields
            ([(FO_ERROR_CODE, string_of_int X_NO_ERROR), (FO_LOG_TIME, string_of_int s), (FO_TIMESTAMP, string_of_int ns)] @
             contract_fields (fv_universe env) (o_symbol ?y) @
             [(FO_ORDER_NUMBER, x), (FO_BOOK_TYPE, fo_supported_book),
              (FO_BUY_SELL, or_else_text (fo_side_to_wire (o_side ?y)) ''1''),
              (FO_VOLUME, string_of_int (o_quantity ?y)), (FO_TOTAL_VOL_REMAINING, string_of_int (leaves_qty ?y)),
              (FO_VOLUME_FILLED_TODAY, string_of_int (o_cum_qty ?y))] @ price @
             [(FO_ACCOUNT_NUMBER, or_else_text (o_account ?y) []),
              (FO_PRO_CLIENT, or_else_text (fo_capacity_to_wire (o_capacity ?y)) ''1''),
              (FO_ENTRY_DATE_TIME, string_of_int s), (FO_LAST_MODIFIED, string_of_int s),
              (FO_LAST_ACTIVITY_REFERENCE, string_of_int ns)] @
             (case map_of (ns_references st) x of None \<Rightarrow> [] | Some r \<Rightarrow> [(FO_NNF_FIELD, r)]) @
             fo_owner_fields st ?y FO_TRADER_ID True)
            (text_of (fo_code_for env st x code)))"
    using assms unfolding fo_base_report_def Let_def by (auto simp: bind_exn_Inr)
  let ?pre = "[(FO_ERROR_CODE, string_of_int X_NO_ERROR), (FO_LOG_TIME, string_of_int s), (FO_TIMESTAMP, string_of_int ns)]"
    and ?cs = "contract_fields (fv_universe env) (o_symbol ?y)" and ?t = "text_of (fo_code_for env st x code)"
  have "same_instrument m (set_fields ?cs (set_fields ?pre ?t))" unfolding m
    by (rule same_instrument_trans [OF same_instrument_flags same_instrument_parts])
      (use quoted_tags [OF p] fo_owner_tags [of st ?y FO_TRADER_ID True] in
        \<open>auto simp: contract_tags_def image_Un split: option.splits\<close>)
  moreover have "get_int_or (set_fields ?pre ?t) FO_LEG2_VOLUME 0 = 0"
    by (simp add: get_int_or_def msg_get_int_def msg_get_set_fields text_of_def msg_get_create del: set_fields_simps)
  ultimately show "\<exists>m0. same_instrument m (set_fields ?cs m0) \<and> get_int_or m0 FO_LEG2_VOLUME 0 = 0" by blast
  show "get_int_or m FO_LEG2_VOLUME 0 \<in> {0, get_int_or m FO_VOLUME 0}"
  proof -
    let ?q = "string_of_int (o_quantity ?y)"
    let ?fs = "?pre @ ?cs @
             [(FO_ORDER_NUMBER, x), (FO_BOOK_TYPE, fo_supported_book),
              (FO_BUY_SELL, or_else_text (fo_side_to_wire (o_side ?y)) ''1''),
              (FO_VOLUME, ?q), (FO_TOTAL_VOL_REMAINING, string_of_int (leaves_qty ?y)),
              (FO_VOLUME_FILLED_TODAY, string_of_int (o_cum_qty ?y))] @ price @
             [(FO_ACCOUNT_NUMBER, or_else_text (o_account ?y) []),
              (FO_PRO_CLIENT, or_else_text (fo_capacity_to_wire (o_capacity ?y)) ''1''),
              (FO_ENTRY_DATE_TIME, string_of_int s), (FO_LAST_MODIFIED, string_of_int s),
              (FO_LAST_ACTIVITY_REFERENCE, string_of_int ns)] @
             (case map_of (ns_references st) x of None \<Rightarrow> [] | Some r \<Rightarrow> [(FO_NNF_FIELD, r)]) @
             fo_owner_fields st ?y FO_TRADER_ID True"
    have no: "(t, v) \<notin> set ?cs" "(t, v) \<notin> set (fo_owner_fields st ?y FO_TRADER_ID True)" if "t \<in> {FO_VOLUME, FO_LEG2_VOLUME}" for t v
      using that fo_owner_tags [of st ?y FO_TRADER_ID True]
      by (auto simp: contract_fields_def legs_fields_def outright_fields_def Let_def fo_owner_fields_def split: option.splits)
    have pr: "(FO_LEG2_VOLUME, v) \<in> set price \<Longrightarrow> v = ?q" "(FO_VOLUME, v) \<notin> set price" for v
      using p by (auto simp: quoted_fields_def bind_exn_Inr split: option.splits if_splits)
    have f: "msg_get m t = msg_get (set_fields ?fs ?t) t" if "t \<in> {FO_VOLUME, FO_LEG2_VOLUME}" for t
      unfolding m fo_set_flags_def using that by (subst msg_get_other, force simp: fo_order_flags_def)+ simp
    have "msg_get (set_fields ?fs ?t) FO_VOLUME = Some ?q"
      by (subst msg_get_only [where v = ?q]) (use no [of FO_VOLUME] pr(2) in \<open>auto split: option.splits\<close>)
    moreover have "msg_get (set_fields ?fs ?t) FO_LEG2_VOLUME \<in> {None, Some ?q}"
      by (subst msg_get_only [where v = ?q])
        (use no [of FO_LEG2_VOLUME] pr(1) in \<open>auto simp: text_of_def msg_get_create split: option.splits\<close>)
    ultimately show ?thesis using f by (auto simp: get_int_or_def msg_get_int_def)
  qed
qed

lemma contract_field_tags: "(t, v) \<in> set (contract_fields uv n) \<Longrightarrow> t \<in> contract_tags \<union> {FO_CA_LEVEL, FO_LEG2_CA_LEVEL}"
  by (auto simp: contract_fields_def legs_fields_def outright_fields_def Let_def contract_tags_def split: option.splits)

lemma msg_get_flags: "t \<notin> set (map fst (fo_order_flags y)) \<union> {FO_FLAG_BOC, FO_FLAG_COL, FO_FLAG_STPC_ADDITIONAL} \<Longrightarrow>
    msg_get (fo_set_flags y m) t = msg_get m t"
  unfolding fo_set_flags_def by (subst msg_get_other, force)+ simp

text \<open>What a report of one leg, or of an outright fill, says.\<close>

lemma outright_fill_result:
  assumes "render_outright_fill env st f sy price sd = Inr m"
  shows "\<exists>m0. same_instrument m (set_fields (contract_fields (fv_universe env) sy) m0)"
    and "\<exists>t. format_price (fv_codec env) price = Inr t \<and> msg_get m FO_FILL_PRICE = Some t"
    and "msg_get m FO_BUY_SELL = Some (or_else_text (fo_side_to_wire sd) ''1'')"
    and "msg_get m FO_FILL_QTY = Some (string_of_int (fe_quantity f))"
    and "msg_get m FO_FILL_NUMBER = Some (fe_trade_id f)"
    and "combination_of env (order_at st (fe_order f)) \<noteq> None \<Longrightarrow> code_of m = Some X_TRADE_CONFIRMATION"
proof -
  let ?y = "order_at st (fe_order f)"
  obtain s ns t where t: "format_price (fv_codec env) price = Inr t"
    and m: "m = msg_set FO_FLAG_TRADED ''Y'' (fo_set_flags ?y
          (set_fields
            ([(FO_ERROR_CODE, string_of_int X_NO_ERROR), (FO_LOG_TIME, string_of_int s), (FO_TIMESTAMP, string_of_int ns)] @
             contract_fields (fv_universe env) sy @
             [(FO_RESPONSE_ORDER_NUMBER, fe_order f), (FO_BOOK_TYPE, fo_supported_book),
              (FO_BUY_SELL, or_else_text (fo_side_to_wire sd) ''1''),
              (FO_VOLUME, string_of_int (fe_order_qty f)), (FO_TOTAL_VOL_REMAINING, string_of_int (fe_leaves_qty f)),
              (FO_VOLUME_FILLED_TODAY, string_of_int (fe_cum_qty f)), (FO_FILL_QTY, string_of_int (fe_quantity f)),
              (FO_FILL_PRICE, t), (FO_PRICE, t), (FO_FILL_NUMBER, fe_trade_id f), (FO_ACTIVITY_TYPE, fo_activity_trade),
              (FO_ACTIVITY_TIME, string_of_int s), (FO_ACCOUNT_NUMBER, or_else_text (o_account ?y) [])] @
             fo_owner_fields st ?y FO_TRADER_NUMBER False)
            (text_of (if combination_of env ?y \<noteq> None then X_TRADE_CONFIRMATION
                      else fo_code_for env st (fe_order f) X_TRADE_CONFIRMATION))))"
    using assms unfolding render_outright_fill_def Let_def by (auto simp: bind_exn_Inr)
  let ?pre = "[(FO_ERROR_CODE, string_of_int X_NO_ERROR), (FO_LOG_TIME, string_of_int s), (FO_TIMESTAMP, string_of_int ns)]"
    and ?rest = "[(FO_RESPONSE_ORDER_NUMBER, fe_order f), (FO_BOOK_TYPE, fo_supported_book),
              (FO_BUY_SELL, or_else_text (fo_side_to_wire sd) ''1''),
              (FO_VOLUME, string_of_int (fe_order_qty f)), (FO_TOTAL_VOL_REMAINING, string_of_int (fe_leaves_qty f)),
              (FO_VOLUME_FILLED_TODAY, string_of_int (fe_cum_qty f)), (FO_FILL_QTY, string_of_int (fe_quantity f)),
              (FO_FILL_PRICE, t), (FO_PRICE, t), (FO_FILL_NUMBER, fe_trade_id f), (FO_ACTIVITY_TYPE, fo_activity_trade),
              (FO_ACTIVITY_TIME, string_of_int s), (FO_ACCOUNT_NUMBER, or_else_text (o_account ?y) [])] @
             fo_owner_fields st ?y FO_TRADER_NUMBER False"
    and ?cs = "contract_fields (fv_universe env) sy"
    and ?t = "text_of (if combination_of env ?y \<noteq> None then X_TRADE_CONFIRMATION else fo_code_for env st (fe_order f) X_TRADE_CONFIRMATION)"
  define fs T where "fs = ?pre @ ?cs @ ?rest" and "T = ?t"
  have get: "msg_get m tag = msg_get (set_fields fs T) tag"
    if "tag \<notin> set (map fst (fo_order_flags ?y)) \<union> {FO_FLAG_BOC, FO_FLAG_COL, FO_FLAG_STPC_ADDITIONAL, FO_FLAG_TRADED}" for tag
    unfolding m msg_get_set fs_def [symmetric] T_def [symmetric] using that msg_get_flags [of tag ?y] by simp
  have owner: "(tag, v) \<notin> set (fo_owner_fields st ?y FO_TRADER_NUMBER False)"
    if "tag \<notin> {FO_USER_ID, FO_TRADER_NUMBER, FO_BROKER_ID, FO_BRANCH_ID}" for tag v
    using that fo_owner_tags [of st ?y FO_TRADER_NUMBER False] by force
  have said: "msg_get m tag = Some v"
    if "(tag, v) \<in> {(FO_FILL_PRICE, t), (FO_BUY_SELL, or_else_text (fo_side_to_wire sd) ''1''),
        (FO_FILL_QTY, string_of_int (fe_quantity f)), (FO_FILL_NUMBER, fe_trade_id f)}" for tag v
  proof -
    have "(tag, v') \<in> set fs \<Longrightarrow> v' = v" for v'
      using that owner [of tag v'] contract_field_tags [of tag v' "fv_universe env" sy] by (auto simp: contract_tags_def fs_def)
    note g = msg_get_only [OF this]
    have "(tag, v) \<in> set fs" using that by (auto simp: fs_def)
    then have "tag \<in> fst ` set fs" by force
    then have "msg_get (set_fields fs T) tag = Some v" using g by simp
    moreover have "tag \<notin> set (map fst (fo_order_flags ?y)) \<union> {FO_FLAG_BOC, FO_FLAG_COL, FO_FLAG_STPC_ADDITIONAL, FO_FLAG_TRADED}"
      using that by (auto simp: fo_order_flags_def)
    ultimately show ?thesis using get by simp
  qed
  show "\<exists>t. format_price (fv_codec env) price = Inr t \<and> msg_get m FO_FILL_PRICE = Some t"
    "msg_get m FO_BUY_SELL = Some (or_else_text (fo_side_to_wire sd) ''1'')"
    "msg_get m FO_FILL_QTY = Some (string_of_int (fe_quantity f))" "msg_get m FO_FILL_NUMBER = Some (fe_trade_id f)"
    using said t by simp_all
  have "same_instrument m (set_fields fs T)"
    using get by (simp add: same_instrument_def contract_tags_def fo_order_flags_def)
  also have "same_instrument (set_fields fs T) (set_fields ?cs (set_fields ?pre T))"
    unfolding fs_def T_def by (rule same_instrument_parts) (use owner in \<open>force simp: contract_tags_def\<close>)
  finally show "\<exists>m0. same_instrument m (set_fields ?cs m0)" by blast
  assume c: "combination_of env ?y \<noteq> None"
  have "(TAG_MSG_TYPE, v) \<notin> set fs" for v
    using owner [of TAG_MSG_TYPE v] contract_field_tags [of TAG_MSG_TYPE v "fv_universe env" sy] by (auto simp: contract_tags_def fs_def)
  then have "TAG_MSG_TYPE \<notin> fst ` set fs" by force
  then have "msg_get m TAG_MSG_TYPE = msg_get T TAG_MSG_TYPE" by (subst get) (simp_all add: msg_get_other fo_order_flags_def)
  then show "code_of m = Some X_TRADE_CONFIRMATION" using c by (simp add: T_def code_of_def msg_type_of_def text_of_def msg_get_create)
qed

end
