(* ===== verification/Spec2Isabelle.thy ===== *)
theory Spec2Isabelle
  imports Market_Samples Venue_Claims Fix_Claims Binary_Claims Nnf_Claims Nsefo_Layout_Facts Nse_Claims Nsefo_Facts
begin

text \<open>
  This library models the core of ExchangeSim, a Python simulator of equity and derivatives
  exchanges (\<open>src/exchangesim\<close>): the venue core under \<open>core/\<close>, and the three protocols
  through which clients reach it, FIX (\<open>fix/\<close>), the OCG-C binary encoding of it (\<open>wire/\<close>,
  \<open>binary/\<close>) and the NNF protocol of NSE (\<open>nnf/\<close>), with the two gateways that connect the
  last of them to the core, for equities (\<open>venues/nse/\<close>) and for derivatives
  (\<open>venues/nsefo/\<close>).

  \<^bold>\<open>How the program is put together.\<close> A client's bytes are framed and decoded
  (\<open>fix/message.py\<close>), checked against a dialect (\<open>fix/dictionary.py\<close>) and sequenced by a
  session (\<open>fix/session.py\<close>) over a persistent store of sent messages (\<open>fix/store.py\<close>). The
  session hands business messages to a venue's gateway, which turns them into requests to the
  venue engine (\<open>core/engine.py\<close>). The engine names and registers orders
  (\<open>core/orders.py\<close>, \<open>core/ids.py\<close>), applies injected behaviour (\<open>core/behaviour.py\<close>),
  validates against reference data (\<open>core/validation.py\<close>, \<open>core/instrument.py\<close>,
  \<open>core/prices.py\<close>) and routes to a market (\<open>core/market.py\<close>): one book per instrument
  (\<open>core/book.py\<close>), a phase machine (\<open>core/trading_state.py\<close>), continuous matching
  (\<open>core/matching.py\<close>), a call auction (\<open>core/auction.py\<close>) and market data
  (\<open>core/marketdata.py\<close>).

  \<^bold>\<open>Which theory models what.\<close>
  \<^item> \<open>Prelude\<close>: exceptions as values, insertion-ordered dictionaries, bisection, numerals,
    and the locale of an encoder and a decoder. \<open>Wire_Text\<close>: what the protocol modules use of
    \<open>bytes\<close> and \<open>str\<close>.
  \<^item> \<open>Enums\<close>, \<open>Ids\<close>, \<open>Orders\<close>, \<open>Events\<close>, \<open>Prices\<close>, \<open>Phases\<close>, \<open>Instruments\<close>,
    \<open>Validation\<close>: the modules of those names. Python's order objects are shared, so orders
    live in a store \<open>heap\<close> from references to records; the reference is the order id.
  \<^item> \<open>Book\<close> (the levels and their invariant) and \<open>Book_Queue\<close> (the contract of a book side as
    a priority queue, a locale interpreted on the model's own operations).
  \<^item> \<open>Matching\<close> (the code), \<open>Matching_Facts\<close> (the invariant of the loop), \<open>Matching_Entry\<close>
    (entry, cancel and amendment), \<open>Matching_Spec\<close> (a reference allocation without a book,
    and the refinement), \<open>Matching_Ops\<close> (what an operation can touch).
  \<^item> \<open>Auction\<close> (the price), \<open>Auction_Exec\<close> (the execution).
  \<^item> \<open>Market_Data\<close>, \<open>Market\<close> (the code), \<open>Market_Facts\<close> and \<open>Market_Phases\<close> (the invariant
    through every operation, and an inductive relation of everything that can happen to a
    market, with its reachable states).
  \<^item> \<open>Behaviour\<close>, \<open>Engine\<close> (the code), \<open>Engine_Facts\<close> (the invariant of a venue),
    \<open>Engine_Steps\<close> (its steps and reachable states), \<open>Venue_Claims\<close> (its properties).
  \<^item> \<open>Fix_Message\<close>, \<open>Fix_Dictionary\<close>, \<open>Fix_Store\<close>, \<open>Fix_Session\<close>: the modules of those
    names, with \<open>fix/codec.py\<close>. \<open>Fix_Wire\<close>: what is written is read back, and the locale of
    a framer of a byte stream. \<open>Fix_Store_Facts\<close>: the locale of a store, interpreted on the
    memory and on the file store. \<open>Fix_Session_Facts\<close>, \<open>Fix_Recovery\<close>: the outbound numbers,
    resending, and delivery in order. \<open>Fix_Claims\<close>: their properties.
  \<^item> \<open>Wire_Values\<close> (\<open>wire/values.py\<close>: scaled decimals and converters), \<open>Binary_Types\<close>,
    \<open>Binary_Crc\<close>, \<open>Binary_Frame\<close>, \<open>Binary_Layout\<close> (\<open>binary/\<close>: wire types, checksum, frames,
    presence maps and nested blocks), \<open>Binary_Claims\<close>: their properties.
  \<^item> \<open>Py_Float\<close> (the IEEE doubles of Python), \<open>Nnf_Types\<close>, \<open>Nnf_Packet\<close> (with MD5),
    \<open>Nnf_Crypto\<close>, \<open>Nnf_Layout\<close> (with the codec), \<open>Nnf_Recovery\<close>: the modules of \<open>nnf/\<close>.
    \<open>Nnf_Channel\<close>: the locale of a cipher with a state at each end, interpreted on the three
    ciphers. \<open>Nnf_Conversation\<close>: two ends and the messages under way as a step relation.
    \<open>Nnf_Layout_Facts\<close>, \<open>Nnf_Codec_Facts\<close>, \<open>Nnf_Tables\<close>: round trips from a field to a stream of packets. \<open>Nse_Layouts\<close> and \<open>Nsefo_Layouts\<close> are the tables of the two
    segments, \<open>Nse_Layout_Facts\<close> and \<open>Nsefo_Layout_Facts\<close> check every one of them.
    \<open>Nnf_Claims\<close>: the properties.
  \<^item> \<open>Nnf_Session\<close> (\<open>nnf/session.py\<close>: boxes, the users on them, the manager) and
    \<open>Nnf_Session_Facts\<close>: the locales of the callbacks a gateway supplies, and what the session
    layer keeps when they keep their contract.
  \<^item> \<open>Nse_Codes\<close>, \<open>Nse_Dictionary\<close>, \<open>Nsefo_Dictionary\<close> (the dialects of the two segments),
    \<open>Nse_Rules\<close> (\<open>venues/nse/rules.py\<close>), \<open>Nse_Desk\<close> and \<open>Nse_Gateway\<close> (\<open>venues/nse/handlers.py\<close>:
    whom a report belongs to, rendering and requests), \<open>Nse_Venue\<close> (the box sequence, the
    pre-open session of \<open>venues/nse/auctions.py\<close>, the operator of \<open>venues/nse/venue.py\<close> and
    \<open>venues/common_commands.py\<close>, and the step relation of the venue). \<open>Nse_Facts\<close>: both locales
    interpreted on the gateway, and the invariant of the venue. \<open>Nse_Reports\<close>: what a report is and whom it reaches. \<open>Nse_Endings\<close>: ends of sessions, the two encodings, and
    filing. \<open>Nse_Claims\<close>: the properties.
  \<^item> \<open>Nsefo_Rules\<close> (\<open>venues/nsefo/rules.py\<close>), \<open>Nsefo_Contracts\<close> (\<open>venues/nsefo/venue.py\<close>: contracts,
    spread combinations, the indexes, loading and reloading), \<open>Nsefo_Gateway\<close>
    (\<open>venues/nsefo/handlers.py\<close>, the operator, and the step relation of the venue; the desk is that
    of \<open>Nse_Desk\<close>). \<open>Nsefo_Contract_Facts\<close>: what the loaders build and a reload withdraws.
    \<open>Nsefo_Facts\<close>: the locale of a gateway interpreted a second time, spread orders and what a
    report says of its instrument.
  \<^item> \<open>Market_Samples\<close>: the concrete inputs the properties are applied to.

  \<^bold>\<open>What the lemmas show.\<close> Every book a market can come to is sorted, uncrossed while it
  matches, and holds exactly live orders (\<open>side_ok\<close>, \<open>market_inv\<close>, \<open>engine_inv\<close>). Continuous
  matching is price-time allocation, ends, and accounts for every share. The auction trades
  the greatest volume at a price its rules choose. An entry, an amendment and a cancellation
  are accepted exactly when the checks say so, and touch nothing but the instrument and the
  session they are for. Identifiers are never reused. Messages survive the wire and any cut
  of the stream, the file store is the memory store even through restarts and crashes, and a
  session answers a resend without a gap and hands on messages in order and at most once.
  Over NNF every structure of both segments is laid out as published, a stream of messages
  arrives field by field under each of the ciphers, no initialisation vector is used twice,
  and a download is complete unless it says otherwise. At the equity venue, whatever members,
  the network and the operator do, the three records of who is signed on agree and the engine
  stays sound; a report reaches the owner of its order only, and is filed for an owner who is
  away; a lost box cancels what it is configured to; and both encodings of a request mean the
  same. One theorem is of a defect: the refusal of an order is filed where no download finds it.

  \<^bold>\<open>Recursion and fuel.\<close> Loops are structural recursion or functions with a measure: the
  matching loop on the orders left in the opposite book, the framer on the bytes left, the
  log index on the bytes left. Fuel is used once, in \<open>drain\<close> of \<open>Fix_Session\<close>: a round takes
  a message off the queue and none puts one on, so one more than the queue is long is enough.
  Prices, quantities and sequence numbers are unbounded, as Python's integers are.

  \<^bold>\<open>Not modelled.\<close> Sockets, threads and the reactor (\<open>core/reactor.py\<close>, \<open>wire/acceptor.py\<close>,
  \<open>fix/acceptor.py\<close>): a session's inputs are explicit steps with the reading of the clock.
  Clocks and configuration files. Audit records, logging, \<open>describe\<close>, \<open>summary\<close> and rendering,
  which nothing reads back. The average price of \<open>core/prices.py\<close> for display. Failures of the
  operating system, and the partial state an object keeps when an exception that nobody
  handles leaves a method: such a call is the exception. AES and MD5 are defined byte by
  byte, but nothing is claimed of their strength. The order numbers of the NSE venues are
  those of \<open>Ids\<close> with no prefix, date or width. The gateways of the other venues (\<open>venues/hkex\<close>,
  \<open>venues/japannext\<close>), which are of the same shape, the Gateway Router, the
  construction of a venue from its configuration, the control plane, web server, scenario
  runner and certificates.
\<close>

section \<open>Properties\<close>

subsection \<open>Helpers of the witnesses\<close>

lemma sample_submit:
  obtains s' evs where "submit_order sample_engine True ''x'' (entering (\<lambda>y. y)) = Inr (s', evs)"
    "map te_quantity (trades_of evs) = [5, 3]"
proof -
  have "(case submit_order sample_engine True ''x'' (entering (\<lambda>y. y)) of Inl _ \<Rightarrow> False
      | Inr (s', evs) \<Rightarrow> map te_quantity (trades_of evs) = [5, 3])"
    by code_simp
  with that show ?thesis by (auto split: sum.splits)
qed

lemma sample_match:
  obtains s' evs where "match_loop sample_engine ''x'' (entering (\<lambda>y. y)) = Inr (s', evs)"
    "executions evs = [(''a1'', 102, 5), (''a2'', 103, 3)]" "length (trades_of evs) = 2"
proof -
  have "(case match_loop sample_engine ''x'' (entering (\<lambda>y. y)) of Inl _ \<Rightarrow> False
      | Inr (s', evs) \<Rightarrow> executions evs = [(''a1'', 102, 5), (''a2'', 103, 3)] \<and> length (trades_of evs) = 2)"
    by code_simp
  with that show ?thesis by (auto split: sum.splits)
qed

lemma sample_leaves [simp]: "leaves_qty (sample_heap ''x'') = 8"
  by (simp add: sample_heap_def plain_order_def leaves_qty_def terminal_statuses_def)

lemma sample_no_self: "no_self_trade sample_engine ''x'' (entering (\<lambda>y. y))"
  by code_simp

subsection \<open>Matching\<close>

text \<open>
  C1: Entering an order in a matching phase keeps the book well formed: whatever its type,
  time in force and self-trade outcome, levels stay sorted and distinct, every resting
  order has quantity left, and a book that was not crossed is not crossed afterwards.
\<close>

theorem entry_keeps_book:
  assumes "submit_order me True x s = Inr (s', evs)" and "match_inv x s"
    and "0 < leaves_qty (ms_heap s x)" and "\<not> book_is_crossed (ms_book s)"
  shows "book_inv s' \<and> \<not> book_is_crossed (ms_book s')"
  by (rule submit_inv [OF assms])

theorem entry_keeps_book_witness:
  "\<exists>s' evs. submit_order sample_engine True ''x'' (entering (\<lambda>y. y)) = Inr (s', evs) \<and>
     map te_quantity (trades_of evs) = [5, 3] \<and> book_inv s' \<and> \<not> book_is_crossed (ms_book s')"
proof -
  obtain s' evs where r: "submit_order sample_engine True ''x'' (entering (\<lambda>y. y)) = Inr (s', evs)"
      "map te_quantity (trades_of evs) = [5, 3]"
    by (rule sample_submit)
  show ?thesis
    using r entry_keeps_book [OF r(1) entering_inv] by (simp add: sample_leaves sample_not_crossed)
qed

text \<open>
  C2: The matching loop implements price-time priority exactly. With no self-trade in
  reach, its executions are the allocation of the order's open quantity over the
  reachable part of the opposite queue, in queue order, each at the resting order's own
  price; what trades is the smaller of what was wanted and what was reachable.
\<close>

theorem matching_is_allocation:
  assumes "match_loop me x s = Inr (s', evs)" and "match_inv x s" and "no_self_trade me x s"
  shows "executions evs = allocate (leaves_qty (ms_heap s x)) (quotes (ms_heap s) (reachable_queue x s)) \<and>
    sum_list (map (\<lambda>(r, p, q). q) (executions evs)) = min (leaves_qty (ms_heap s x)) (reachable_quantity x s) \<and>
    leaves_qty (ms_heap s' x) = max 0 (leaves_qty (ms_heap s x) - reachable_quantity x s)"
  using match_loop_refines [OF assms] match_loop_total [OF assms] by simp

theorem matching_is_allocation_witness:
  "\<exists>s' evs. match_loop sample_engine ''x'' (entering (\<lambda>y. y)) = Inr (s', evs) \<and>
     executions evs = [(''a1'', 102, 5), (''a2'', 103, 3)] \<and>
     executions evs = allocate 8 (quotes (ms_heap (entering (\<lambda>y. y))) (reachable_queue ''x'' (entering (\<lambda>y. y))))"
proof -
  obtain s' evs where r: "match_loop sample_engine ''x'' (entering (\<lambda>y. y)) = Inr (s', evs)"
      "executions evs = [(''a1'', 102, 5), (''a2'', 103, 3)]" "length (trades_of evs) = 2"
    by (rule sample_match)
  show ?thesis
    using r matching_is_allocation [OF r(1) entering_inv sample_no_self] sample_leaves by auto
qed



text \<open>
  C4: Every trade happens at the price of an order that was resting opposite when the
  order arrived, inside the arriving order's limit, for a positive quantity; and every
  order's executed quantity and notional grow by exactly what the fills of the batch say.
\<close>

theorem trades_are_fair_and_accounted:
  assumes "match_loop me x s = Inr (s', evs)" and "match_inv x s"
  shows "(\<forall>t \<in> set (trades_of evs). \<exists>r \<in> set (orders_in_priority (opposite_of x s)).
       te_price t = price_of (ms_heap s) r \<and> prices_cross (ms_heap s x) (te_price t) \<and> 0 < te_quantity t) \<and>
    (\<forall>y. o_cum_qty (ms_heap s' y) = o_cum_qty (ms_heap s y) + sum_list (map fe_quantity (fills_for y evs)) \<and>
       o_notional_units (ms_heap s' y) = o_notional_units (ms_heap s y) +
         sum_list (map (\<lambda>f. fe_price f * fe_quantity f) (fills_for y evs)))"
  using match_loop_trade_prices [OF assms] match_loop_accounting [OF assms] by blast

theorem trades_are_fair_and_accounted_witness:
  "\<exists>s' evs. match_loop sample_engine ''x'' (entering (\<lambda>y. y)) = Inr (s', evs) \<and> length (trades_of evs) = 2 \<and>
     o_cum_qty (ms_heap s' ''a1'') = sum_list (map fe_quantity (fills_for ''a1'' evs))"
proof -
  obtain s' evs where r: "match_loop sample_engine ''x'' (entering (\<lambda>y. y)) = Inr (s', evs)"
      "executions evs = [(''a1'', 102, 5), (''a2'', 103, 3)]" "length (trades_of evs) = 2"
    by (rule sample_match)
  have "o_cum_qty (ms_heap (entering (\<lambda>y. y)) ''a1'') = 0" by (simp add: sample_defs)
  then show ?thesis using r trades_are_fair_and_accounted [OF r(1) entering_inv] by auto
qed

text \<open>
  C5: The matching loop returns, and its trade identifiers are the next ones of the
  generator, in order and without repetition: it is enough that as many identifiers can
  be issued as orders rest opposite.
\<close>

theorem matching_terminates_with_fresh_ids:
  assumes "match_inv x s" and "issue next_id n (ms_trade_ids s) = Inr (is, g)"
    and "length (orders_in_priority (opposite_of x s)) \<le> n"
  shows "\<exists>s' evs k. match_loop me x s = Inr (s', evs) \<and>
    map te_trade_id (trades_of evs) = take k is \<and> distinct (map te_trade_id (trades_of evs))"
  using match_loop_total_ids [OF assms, of me] distinct_trade_ids [OF assms] by blast

theorem matching_terminates_with_fresh_ids_witness:
  "\<exists>s' evs k. match_loop sample_engine ''x'' (entering (\<lambda>y. y)) = Inr (s', evs) \<and>
     map te_trade_id (trades_of evs) = take k [''T01010001'', ''T01010002'']"
proof -
  have g: "issue next_id 2 (ms_trade_ids (entering (\<lambda>y. y))) =
      Inr ([''T01010001'', ''T01010002''], sample_ids\<lparr>ig_counter := 3\<rparr>)"
    by code_simp
  have "length (orders_in_priority (opposite_of ''x'' (entering (\<lambda>y. y)))) \<le> 2" by code_simp
  from matching_terminates_with_fresh_ids [OF entering_inv g this] show ?thesis by blast
qed

text \<open>
  C6: A post-only order never executes on entry, in any phase: it rests, or it is refused.
\<close>

theorem post_only_never_takes:
  assumes "submit_order me allow x s = Inr (s', evs)" and "match_inv x s"
    and "0 < leaves_qty (ms_heap s x)" and "POST_ONLY \<in> o_exec_inst (ms_heap s x)"
  shows "trades_of evs = []"
  by (rule post_only_no_trades [OF assms])

theorem post_only_never_takes_witness:
  "\<exists>s' evs. submit_order sample_engine True ''x'' (entering (\<lambda>y. y\<lparr>o_exec_inst := {POST_ONLY}\<rparr>)) = Inr (s', evs) \<and>
     evs \<noteq> [] \<and> trades_of evs = []"
proof -
  let ?s = "entering (\<lambda>y. y\<lparr>o_exec_inst := {POST_ONLY}\<rparr>)"
  have "(case submit_order sample_engine True ''x'' ?s of Inl _ \<Rightarrow> False | Inr (s', evs) \<Rightarrow> evs \<noteq> [])"
    by code_simp
  then obtain s' evs where r: "submit_order sample_engine True ''x'' ?s = Inr (s', evs)" "evs \<noteq> []"
    by (auto split: sum.splits)
  have "0 < leaves_qty (ms_heap ?s ''x'')" by code_simp
  from post_only_never_takes [OF r(1) entering_inv this] r show ?thesis by simp
qed

text \<open>
  While a phase only accumulates orders, entry never executes anything.
\<close>

theorem accumulation_never_trades:
  assumes "market_submit x w = Inr (w', evs)"
    and "\<not> allows_matching (mk_state (mw_market w)) (o_symbol (mw_heap w x))"
  shows "trades_of evs = []"
  using assms(1)
proof (cases rule: market_submit_cases)
  case refused
  then show ?thesis by simp
next
  case (entered s')
  with assms(2) submit_accumulating_no_trades [of "mk_matching (mw_market w)" x] show ?thesis by simp
qed

theorem accumulation_never_trades_witness:
  "\<exists>w' evs. market_submit ''x'' auction_world = Inr (w', evs) \<and> evs \<noteq> [] \<and> trades_of evs = []"
proof -
  have "(case market_submit ''x'' auction_world of Inl _ \<Rightarrow> False | Inr (w', evs) \<Rightarrow> evs \<noteq> [])" by code_simp
  then obtain w' evs where r: "market_submit ''x'' auction_world = Inr (w', evs)" "evs \<noteq> []"
    by (auto split: sum.splits)
  have "\<not> allows_matching (mk_state (mw_market auction_world)) (o_symbol (mw_heap auction_world ''x''))" by code_simp
  from accumulation_never_trades [OF r(1) this] r show ?thesis by blast
qed

text \<open>
  First come, first served. A priced order joining a side waits behind every order
  queued at its price, ahead of everything worse, and nobody else changes places.
\<close>

theorem joining_keeps_time_priority:
  assumes "side_ok h sd" and "is_buy (h x) = bs_is_buy sd" and "o_price (h x) = Some p"
    and "x \<notin> set (orders_in_priority sd)"
  shows "orders_in_priority (side_add h x sd) =
      filter (\<lambda>y. \<not> ahead (bs_is_buy sd) p (price_of h y)) (orders_in_priority sd) @ [x] @
      filter (\<lambda>y. ahead (bs_is_buy sd) p (price_of h y)) (orders_in_priority sd) \<and>
    od_remove x (orders_in_priority (side_add h x sd)) = orders_in_priority sd \<and>
    side_ok h (side_add h x sd)"
  using side_queue.queue_add [OF assms] side_queue.add_keeps_others [OF assms] side_queue.ok_add [OF assms(1,2)]
  by simp

theorem joining_keeps_time_priority_witness:
  "orders_in_priority (side_add joining_heap ''x'' (ob_asks sample_book))
    = [''a1'', ''x'', ''a2'']"
proof -
  have ok: "side_ok joining_heap (ob_asks sample_book)"
    by (simp add: joining_heap_def sample_defs side_ok_def level_ok_def is_buy_def side_is_buy_def selling_def)
  have b: "is_buy (joining_heap ''x'') = bs_is_buy (ob_asks sample_book)" by code_simp
  have p: "o_price (joining_heap ''x'') = Some 102" by code_simp
  have n: "''x'' \<notin> set (orders_in_priority (ob_asks sample_book))" by code_simp
  have "filter (\<lambda>y. \<not> ahead (bs_is_buy (ob_asks sample_book)) 102 (price_of joining_heap y)) (orders_in_priority (ob_asks sample_book)) = [''a1'']"
    and "filter (\<lambda>y. ahead (bs_is_buy (ob_asks sample_book)) 102 (price_of joining_heap y)) (orders_in_priority (ob_asks sample_book)) = [''a2'']"
    by code_simp+
  with joining_keeps_time_priority [OF ok b p n] show ?thesis by simp
qed

text \<open>
  The fill-or-kill pre-check passes over the firm's own orders, the loop stops at
  them: a fill-or-kill order can end partly filled and cancelled.
\<close>

theorem fok_partial_at_own_offer:
  "\<exists>s' evs. submit_order sample_engine True ''x'' own_offer_state = Inr (s', evs) \<and>
     o_time_in_force (ms_heap own_offer_state ''x'') = FOK \<and> o_quantity (ms_heap own_offer_state ''x'') = 8 \<and>
     o_cum_qty (ms_heap s' ''x'') = 5 \<and> o_status (ms_heap s' ''x'') = CANCELLED"
proof -
  have "(case submit_order sample_engine True ''x'' own_offer_state of Inl _ \<Rightarrow> False
      | Inr (s', evs) \<Rightarrow> o_time_in_force (ms_heap own_offer_state ''x'') = FOK \<and>
          o_quantity (ms_heap own_offer_state ''x'') = 8 \<and>
          o_cum_qty (ms_heap s' ''x'') = 5 \<and> o_status (ms_heap s' ''x'') = CANCELLED)"
    by code_simp
  then show ?thesis by (auto split: sum.splits)
qed

subsection \<open>The call auction\<close>

text \<open>
  C7: The auction price maximises the executable volume over every price there is, not
  only over the candidates, and its volume and imbalance are those of the book at it; when
  no price is found the book does not cross. The rules after the first only break ties.
\<close>

theorem auction_price_is_maximal:
  assumes "book_ok h b" and "book_live h b" and "uncross h b reference (MAX_VOLUME # rules) = Inr res"
  shows "case ar_price res of
     Some p \<Rightarrow> ar_volume res = matchable h b p \<and> 0 < ar_volume res \<and>
       ar_imbalance res = \<bar>demand_of h b p - supply_of h b p\<bar> \<and> (\<forall>q. matchable h b q \<le> ar_volume res)
   | None \<Rightarrow> \<not> book_is_crossed b"
proof (cases "ar_price res")
  case None
  then have "\<not> result_crossed res" by (simp add: result_crossed_def)
  with None uncross_no_price [OF assms] show ?thesis by simp
next
  case (Some p)
  with uncross_priced [OF assms(3) Some] uncross_maximal [OF assms(1,3) Some] show ?thesis by simp
qed

theorem auction_price_is_maximal_witness:
  "\<exists>res. uncross sample_heap call_book None standard_rules = Inr res \<and> ar_price res = Some 103 \<and>
     (\<forall>q. matchable sample_heap call_book q \<le> 8)"
proof -
  have "(case uncross sample_heap call_book None standard_rules of Inl _ \<Rightarrow> False
     | Inr res \<Rightarrow> ar_price res = Some 103 \<and> ar_volume res = 8)"
    by code_simp
  then obtain res where r: "uncross sample_heap call_book None standard_rules = Inr res"
      "ar_price res = Some 103" "ar_volume res = 8"
    by (auto split: sum.splits)
  have inv: "book_ok sample_heap call_book" "book_live sample_heap call_book"
    using call_state_inv by (simp_all add: book_inv_def call_state_def)
  from auction_price_is_maximal [OF inv r(1) [unfolded standard_rules_def]] r show ?thesis by auto
qed

text \<open>
  C8: What the auction executes at a price is exactly what can trade there: the smaller
  of the demand and the supply at that price, at-market orders included.
\<close>

theorem auction_executes_matchable_volume:
  assumes "execute_auction (Some p) now s = Inr (s', evs)" and "book_inv s"
  shows "sum_list (map te_quantity (trades_of evs)) = matchable (ms_heap s) (ms_book s) p"
  by (rule auction_volume [OF assms])

theorem auction_executes_matchable_volume_witness:
  "matchable sample_heap call_book 103 = 8"
proof -
  have "(case execute_auction (Some 103) None call_state of Inl _ \<Rightarrow> False
     | Inr (s', evs) \<Rightarrow> sum_list (map te_quantity (trades_of evs)) = 8)"
    by code_simp
  then obtain s' evs where r: "execute_auction (Some 103) None call_state = Inr (s', evs)"
      "sum_list (map te_quantity (trades_of evs)) = 8"
    by (auto split: sum.splits)
  from auction_executes_matchable_volume [OF r(1) call_state_inv] r show ?thesis
    by (simp add: call_state_def)
qed

text \<open>
  C9: After a market has uncrossed an instrument, no order without a price rests in its
  book, the book does not cross, and no other instrument is touched.
\<close>

theorem uncross_leaves_continuous_book:
  assumes "market_uncross sy reference w = Inr (w', res, evs)" and "market_inv w"
    and "mk_rules (mw_market w) = MAX_VOLUME # rules"
  shows "bs_at_market (ob_bids (book_of sy (mw_market w'))) = [] \<and>
    bs_at_market (ob_asks (book_of sy (mw_market w'))) = [] \<and>
    \<not> book_is_crossed (book_of sy (mw_market w')) \<and> market_inv w' \<and> only_touches sy w w'"
  using market_uncross_inv [OF assms(1,2)] assms(3) by simp

theorem uncross_leaves_continuous_book_witness:
  "\<exists>w' res evs. market_uncross ''7203'' None call_world = Inr (w', res, evs) \<and> ar_price res = Some 103 \<and>
     book_is_crossed (book_of ''7203'' (mw_market call_world)) \<and>
     \<not> book_is_crossed (book_of ''7203'' (mw_market w'))"
proof -
  have "(case market_uncross ''7203'' None call_world of Inl _ \<Rightarrow> False
     | Inr (w', res, evs) \<Rightarrow> ar_price res = Some 103 \<and> book_is_crossed (book_of ''7203'' (mw_market call_world)))"
    by code_simp
  then obtain w' res evs where r: "market_uncross ''7203'' None call_world = Inr (w', res, evs)"
      "ar_price res = Some 103" "book_is_crossed (book_of ''7203'' (mw_market call_world))"
    by (auto split: sum.splits)
  have "mk_rules (mw_market call_world) = MAX_VOLUME # tl standard_rules" by code_simp
  from uncross_leaves_continuous_book [OF r(1) call_world_inv this] r show ?thesis by blast
qed

subsection \<open>Markets\<close>

text \<open>
  C10: In every state a market can reach from one without books, by any sequence of
  entries, amendments, cancellations, auctions, bulk cancellations and phase changes, each
  side of each book is sorted by price, holds no order twice, and holds only open orders
  of its own symbol and side.
\<close>

theorem every_reachable_book_is_sound:
  assumes "mk_books (mw_market w0) = []" and "market_reaches w0 w"
    and "map_of (mk_books (mw_market w)) sy = Some b" and "sd = ob_bids b \<or> sd = ob_asks b"
  shows "sorted_wrt (\<lambda>x y. \<not> ahead (bs_is_buy sd) (price_of (mw_heap w) y) (price_of (mw_heap w) x))
           (orders_in_priority sd) \<and> distinct (orders_in_priority sd) \<and>
    (\<forall>x \<in> set (orders_in_priority sd). 0 < leaves_qty (mw_heap w x) \<and>
       o_symbol (mw_heap w x) = sy \<and> is_buy (mw_heap w x) = bs_is_buy sd)"
  using market_inv_queue [OF market_reaches_inv [OF assms(2)] assms(3,4)] new_market_inv [OF assms(1)]
  by blast

theorem every_reachable_book_is_sound_witness:
  "\<exists>w b. market_reaches (sample_world\<lparr>mw_market := sample_market\<lparr>mk_books := []\<rparr>\<rparr>) w \<and>
     map_of (mk_books (mw_market w)) ''7203'' = Some b \<and> orders_in_priority (ob_bids b) = [''x''] \<and>
     distinct (orders_in_priority (ob_bids b))"
proof -
  let ?w0 = "sample_world\<lparr>mw_market := sample_market\<lparr>mk_books := []\<rparr>\<rparr>"
  have "(case market_submit ''x'' ?w0 of Inl _ \<Rightarrow> False
      | Inr (w, evs) \<Rightarrow> map_option (\<lambda>b. orders_in_priority (ob_bids b)) (map_of (mk_books (mw_market w)) ''7203'')
          = Some [''x''])"
    by code_simp
  then obtain w evs b where r: "market_submit ''x'' ?w0 = Inr (w, evs)"
      "map_of (mk_books (mw_market w)) ''7203'' = Some b" "orders_in_priority (ob_bids b) = [''x'']"
    by (auto split: sum.splits)
  have "market_step ?w0 w"
    by (rule market_step.submit [OF r(1)]) (simp_all add: resting_def)
  then have re: "market_reaches ?w0 w" by blast
  have e: "mk_books (mw_market ?w0) = []" by simp
  show ?thesis using every_reachable_book_is_sound [OF e re r(2), of "ob_bids b"] r re by blast
qed

text \<open>
  C11: Instruments are independent. Entering, cancelling or amending an order changes no
  book and no order of any other symbol, and changes neither the phase nor what identifies
  an order; a cancellation removes its own order from the book and no other.
\<close>

theorem order_flow_is_confined:
  assumes "market_inv w"
  shows "(x \<notin> resting w \<longrightarrow> 0 < leaves_qty (mw_heap w x) \<longrightarrow> market_submit x w = Inr (w1, evs1) \<longrightarrow>
       only_touches (o_symbol (mw_heap w x)) w w1) \<and>
    (market_amend x nq np w = Inr (w2, kept, evs2) \<longrightarrow> only_touches (o_symbol (mw_heap w x)) w w2) \<and>
    (market_cancel x reason t w = Inr (w3, evs3) \<longrightarrow> only_touches (o_symbol (mw_heap w x)) w w3 \<and>
       set (book_orders (book_of (o_symbol (mw_heap w x)) (mw_market w3))) =
         set (book_orders (book_of (o_symbol (mw_heap w x)) (mw_market w))) - {x})"
proof (intro conjI impI)
  assume "x \<notin> resting w" "0 < leaves_qty (mw_heap w x)" "market_submit x w = Inr (w1, evs1)"
  then show "only_touches (o_symbol (mw_heap w x)) w w1" using market_submit_inv [OF _ assms] by blast
next
  assume "market_amend x nq np w = Inr (w2, kept, evs2)"
  from market_amend_inv [OF this assms] show "only_touches (o_symbol (mw_heap w x)) w w2" by blast
next
  assume "market_cancel x reason t w = Inr (w3, evs3)"
  note c = market_cancel_inv [OF this assms]
  from c show "only_touches (o_symbol (mw_heap w x)) w w3" by blast
  from c show "set (book_orders (book_of (o_symbol (mw_heap w x)) (mw_market w3))) =
         set (book_orders (book_of (o_symbol (mw_heap w x)) (mw_market w))) - {x}" by blast
qed

theorem order_flow_is_confined_witness:
  "\<exists>w' evs. market_submit ''x'' sample_world = Inr (w', evs) \<and> only_touches ''7203'' sample_world w'"
proof -
  have "(case market_submit ''x'' sample_world of Inl _ \<Rightarrow> False | Inr (w', evs) \<Rightarrow> True)" by code_simp
  then obtain w' evs where r: "market_submit ''x'' sample_world = Inr (w', evs)" by (auto split: sum.splits)
  have sy: "o_symbol (mw_heap sample_world ''x'') = ''7203''" by code_simp
  have a: "''x'' \<notin> resting sample_world" "0 < leaves_qty (mw_heap sample_world ''x'')"
    by (simp_all add: sample_resting)
  from order_flow_is_confined [OF sample_world_inv, THEN conjunct1, rule_format, OF a r] r sy show ?thesis by auto
qed



text \<open>
  Halting one instrument removes exactly its own resting orders.
\<close>

theorem halting_expires_one_instrument:
  assumes "market_set_state (show_state st) (Some sy) w = Inr (w', evs)" and "market_inv w"
    and "st \<in> no_entry_states" and "sy \<noteq> []" and "state_for (mk_state (mw_market w)) sy \<noteq> st"
  shows "resting w' = {x \<in> resting w. o_symbol (mw_heap w x) \<noteq> sy} \<and>
    state_for (mk_state (mw_market w')) sy = st"
  using halt_instrument_expires [OF assms] by simp

theorem halting_expires_one_instrument_witness:
  "\<exists>w' evs. market_set_state ''HALTED'' (Some ''9984'') sample_world = Inr (w', evs) \<and>
     resting w' = {''b1'', ''a1'', ''a2''}"
proof -
  have "(case market_set_state (show_state HALTED) (Some ''9984'') sample_world of Inl _ \<Rightarrow> False | Inr (w', evs) \<Rightarrow> True)"
    by code_simp
  then obtain w' evs where r: "market_set_state (show_state HALTED) (Some ''9984'') sample_world = Inr (w', evs)"
    by (auto split: sum.splits)
  have a: "HALTED \<in> no_entry_states" "''9984'' \<noteq> []" "state_for (mk_state (mw_market sample_world)) ''9984'' \<noteq> HALTED"
    by code_simp+
  have "show_state HALTED = ''HALTED''" by code_simp
  with halting_expires_one_instrument [OF r sample_world_inv a] r show ?thesis
    by (auto simp: sample_resting sample_heap_def plain_order_def)
qed

text \<open>
  The command that names the phase in lower case closes the market, and leaves every
  order resting in it.
\<close>

theorem closed_in_lower_case_keeps_orders:
  "\<exists>w' evs. market_set_state ''closed'' None sample_world = Inr (w', evs) \<and>
     sm_state (mk_state (mw_market w')) = CLOSED \<and> resting w' = {''b1'', ''a1'', ''a2''}"
proof -
  have "(case market_set_state ''closed'' None sample_world of Inl _ \<Rightarrow> False
    | Inr (w', evs) \<Rightarrow> sm_state (mk_state (mw_market w')) = CLOSED \<and>
        mk_books (mw_market w') = mk_books (mw_market sample_world))"
    by code_simp
  then obtain w' evs where r: "market_set_state ''closed'' None sample_world = Inr (w', evs)"
      "sm_state (mk_state (mw_market w')) = CLOSED" "mk_books (mw_market w') = mk_books (mw_market sample_world)"
    by (auto split: sum.splits)
  then have "resting w' = resting sample_world" by (simp add: resting_def)
  with r sample_resting show ?thesis by auto
qed

text \<open>
  In a matching phase, an amendment that only reduces the quantity reports the time
  priority as kept, and puts the order behind the others of its price.
\<close>

theorem reduction_loses_priority_while_matching:
  "\<exists>w' evs. market_amend ''b1'' (Some 2) None level_world = Inr (w', True, evs) \<and>
     orders_in_priority (ob_bids (book_of ''7203'' (mw_market level_world))) = [''b1'', ''x''] \<and>
     orders_in_priority (ob_bids (book_of ''7203'' (mw_market w'))) = [''x'', ''b1'']"
proof -
  have "(case market_amend ''b1'' (Some 2) None level_world of Inl _ \<Rightarrow> False
    | Inr (w', kept, evs) \<Rightarrow> kept \<and>
     orders_in_priority (ob_bids (book_of ''7203'' (mw_market level_world))) = [''b1'', ''x''] \<and>
     orders_in_priority (ob_bids (book_of ''7203'' (mw_market w'))) = [''x'', ''b1''])"
    by code_simp
  then show ?thesis by (auto split: sum.splits)
qed

subsection \<open>Identifiers, prices and the registry\<close>

text \<open>
  C13: A price the codec can write is read back as the same number of units, and only
  magnitudes of 29 digits or more cannot be written.
\<close>

theorem price_round_trip:
  "(\<bar>u\<bar> < 10 ^ context_prec \<longrightarrow> (\<exists>t. format_price c u = Inr t \<and> parse_price c t = Inr u)) \<and>
   (\<bar>u\<bar> \<ge> 10 ^ context_prec \<longrightarrow> (\<exists>e. format_price c u = Inl e))"
  using format_defined [of c u] parse_format [of c u] by (cases "format_price c u") auto

theorem price_round_trip_witness:
  "parse_price \<lparr>pc_decimals = 1\<rparr> ''-12.5'' = Inr (- 125)"
proof -
  have "\<bar>- 125 :: int\<bar> < 10 ^ context_prec" by code_simp
  then obtain t where "format_price \<lparr>pc_decimals = 1\<rparr> (- 125) = Inr t" "parse_price \<lparr>pc_decimals = 1\<rparr> t = Inr (- 125)"
    using price_round_trip [of "- 125" "\<lparr>pc_decimals = 1\<rparr>"] by blast
  moreover have "format_price \<lparr>pc_decimals = 1\<rparr> (- 125) = Inr ''-12.5''" by code_simp
  ultimately show ?thesis by simp
qed

text \<open>
  An order's value is rounded up to whole currency units: the smallest number of
  units not below the exact value.
\<close>

theorem notional_is_ceiling:
  "p * q \<le> notional c p q * pc_scale c \<and> (\<forall>n. p * q \<le> n * pc_scale c \<longrightarrow> notional c p q \<le> n)"
proof (intro conjI allI impI)
  note c = notional_ceiling [of p q c]
  show "p * q \<le> notional c p q * pc_scale c" using c by simp
  fix n assume "p * q \<le> n * pc_scale c"
  with c have "(notional c p q - 1) * pc_scale c < n * pc_scale c" by linarith
  then have "notional c p q - 1 < n" by (rule mult_right_less_imp_less) (simp add: less_imp_le)
  then show "notional c p q \<le> n" by simp
qed

theorem notional_is_ceiling_witness: "notional \<lparr>pc_decimals = 1\<rparr> 1234 5 \<le> 700"
  using notional_is_ceiling [of 1234 5 "\<lparr>pc_decimals = 1\<rparr>"] by (simp add: pc_scale_def)

text \<open>
  Identifiers issued by one generator are all different, and, while the counter fits
  its width, in increasing order as strings, which is what sorting orders by id relies on.
\<close>

theorem identifiers_distinct_and_ordered:
  assumes "issue next_id n g = Inr (is, g')"
  shows "distinct is \<and> ig_counter g' = ig_counter g + n \<and>
    (0 < ig_width g \<and> ig_counter g' \<le> 10 ^ ig_width g \<longrightarrow> sorted_wrt (<) is)"
proof -
  have eq: "is = map (render_id g) [ig_counter g ..< ig_counter g + n]"
    by (rule issue_renders [OF assms])
  have r: "ig_counter g' = ig_counter g + n" using ids.issue_rank [OF assms] by simp
  have "sorted_wrt (<) is" if "0 < ig_width g" "ig_counter g' \<le> 10 ^ ig_width g"
    unfolding eq sorted_wrt_map
    by (rule sorted_wrt_mono_rel [OF _ sorted_wrt_upt]) (use that r in \<open>auto intro: render_id_less\<close>)
  with r ids.issue_distinct [OF assms] show ?thesis by blast
qed

theorem identifiers_distinct_and_ordered_witness:
  "sorted_wrt (<) [''T01010001'', ''T01010002'', ''T01010003'']"
proof -
  have "issue next_id 3 sample_ids = Inr ([''T01010001'', ''T01010002'', ''T01010003''], sample_ids\<lparr>ig_counter := 4\<rparr>)"
    by code_simp
  from identifiers_distinct_and_ordered [OF this] show ?thesis by (simp add: sample_ids_def)
qed

text \<open>
  C14: Client identifiers are never reused. Registering and renaming keep the registry
  consistent, no entry of the index ever changes, and an identifier already in the index
  is refused by both.
\<close>

theorem client_ids_never_reused:
  assumes "registry_ok h r"
  shows "(registry_by_cl_ord_id r (o_session_key (h x)) c = Some y \<longrightarrow>
       registry_rename x (Some c) (h, r) = Inl DuplicateClOrdID \<and>
       (o_cl_ord_id (h x) = Some c \<longrightarrow> snd (registry_add h x r) = Some DuplicateClOrdID)) \<and>
    (registry_rename x i (h, r) = Inr (h', r') \<longrightarrow> x \<in> set (reg_order_ids r) \<longrightarrow> registry_ok h' r' \<and>
       (\<forall>sk c y. registry_by_cl_ord_id r sk c = Some y \<longrightarrow> registry_by_cl_ord_id r' sk c = Some y)) \<and>
    (registry_add h x r = (r1, None) \<longrightarrow> x \<notin> set (reg_order_ids r) \<longrightarrow> o_chain (h x) = [o_cl_ord_id (h x)] \<longrightarrow>
       registry_ok h r1 \<and>
       (\<forall>sk c y. registry_by_cl_ord_id r sk c = Some y \<longrightarrow> registry_by_cl_ord_id r1 sk c = Some y))"
  using registry_ok_rename [OF assms, of x i h' r'] registry_ok_add [OF assms, of x r1]
    registry_rename_Inr [of x i h r h' r']
  by (auto simp: registry_by_cl_ord_id_def registry_add_def registry_rename_def Let_def
      split: option.splits if_splits)

theorem client_ids_never_reused_witness:
  "registry_rename ''b1'' (Some ''c1'') (sample_heap, fst (registry_add sample_heap ''b1'' empty_registry)) = Inl DuplicateClOrdID"
proof -
  let ?r = "fst (registry_add sample_heap ''b1'' empty_registry)"
  have "snd (registry_add sample_heap ''b1'' empty_registry) = None" by code_simp
  then have a: "registry_add sample_heap ''b1'' empty_registry = (?r, None)" by (simp add: prod_eq_iff)
  have "registry_by_cl_ord_id ?r (o_session_key (sample_heap ''b1'')) ''c1'' = Some ''b1''"
    and c: "o_chain (sample_heap ''b1'') = [o_cl_ord_id (sample_heap ''b1'')]"
    and n: "''b1'' \<notin> set (reg_order_ids empty_registry)"
    by code_simp+
  moreover have "registry_ok sample_heap ?r"
    by (rule registry_ok_add [OF registry_ok_empty n c a])
  ultimately show ?thesis using client_ids_never_reused by blast
qed

subsection \<open>Validation and reference data\<close>

text \<open>
  C15: A new order passes validation exactly when its instrument exists and is tradable,
  the phase accepts entry, its characteristics, size, tick, band and value are acceptable
  and the quotation rule finds nothing; the nested early returns add no other condition.
\<close>

theorem new_order_accepted_iff:
  "validate_new v y inst m book = Inr None \<longleftrightarrow>
    (\<exists>i. inst = Some i \<and> in_tradable i \<and> characteristics_acceptable (va_limits v) y \<and>
       terms_acceptable v y i (o_quantity y) (o_price y) \<and>
       check_quotation v y i (o_price y) book m = Inr None) \<and>
    (\<forall>sm. m = Some sm \<longrightarrow> allows_entry sm (o_symbol y))"
  by (rule validate_new_clean)

theorem new_order_accepted_iff_witness:
  "validate_new sample_validator (sample_heap ''x'') (Some sample_instrument)
      (Some (new_state_machine ''J'' CLOSED)) None \<noteq> Inr None"
proof -
  have "\<not> allows_entry (new_state_machine ''J'' CLOSED) (o_symbol (sample_heap ''x''))" by code_simp
  with new_order_accepted_iff [of sample_validator "sample_heap ''x''" "Some sample_instrument"
      "Some (new_state_machine ''J'' CLOSED)" None]
  show ?thesis by blast
qed

text \<open>
  C16: An amendment is accepted exactly when the new total exceeds what has executed and
  the amended terms would be acceptable for the instrument.
\<close>

theorem amendment_accepted_iff:
  "validate_amend v y inst m nq np = Inr None \<longleftrightarrow>
    (\<exists>i. inst = Some i \<and> in_tradable i \<and> (\<forall>q. nq = Some q \<longrightarrow> o_cum_qty y < q) \<and>
       terms_acceptable v y i (case nq of None \<Rightarrow> o_quantity y | Some n \<Rightarrow> n) (or_else np (o_price y))) \<and>
    (\<forall>sm. m = Some sm \<longrightarrow> allows_entry sm (o_symbol y))"
  by (rule validate_amend_clean)

theorem amendment_accepted_iff_witness:
  "validate_amend sample_validator (sample_heap ''x'') (Some sample_instrument) None (Some 0) None \<noteq> Inr None"
proof -
  have "\<not> o_cum_qty (sample_heap ''x'') < 0" by code_simp
  with amendment_accepted_iff [of sample_validator "sample_heap ''x''" "Some sample_instrument" None "Some 0" None]
  show ?thesis by auto
qed

text \<open>
  The quotation rule in ticks: an accepted price is at most the configured number of
  ticks behind the best of its own side and at most the configured number through the best
  of the other, buying and selling alike.
\<close>

theorem quotation_rule_in_ticks:
  assumes "check_quotation v y i (Some p) (Some b) m = Inr None"
    and "\<forall>sm. m = Some sm \<longrightarrow> allows_matching sm (o_symbol y)"
    and "tick_size i p = Inr (Some t)" and "t \<noteq> 0"
  shows "(\<forall>n best. vl_max_quotation_spreads (va_limits v) = Some n \<longrightarrow>
      best_price (book_side_of b (o_side y)) = Some best \<longrightarrow>
      (if is_buy y then best - p else p - best) \<le> n * t) \<and>
    (\<forall>n best. vl_max_aggression_spreads (va_limits v) = Some n \<longrightarrow>
      best_price (book_opposite b (o_side y)) = Some best \<longrightarrow>
      (if is_buy y then p - best else best - p) \<le> n * t)"
  using check_quotation_clean [OF assms] by blast

theorem quotation_rule_in_ticks_witness:
  "vl_max_aggression_spreads (va_limits sample_validator) = Some 5 \<and>
   best_price (book_opposite sample_book BUY) = Some 102 \<and> (103 :: int) - 102 \<le> 5 * 1"
proof -
  have a: "check_quotation sample_validator (sample_heap ''x'') sample_instrument (Some 103) (Some sample_book) None = Inr None"
    and t: "tick_size sample_instrument 103 = Inr (Some 1)"
    and y: "is_buy (sample_heap ''x'')" "o_side (sample_heap ''x'') = BUY"
    and c: "vl_max_aggression_spreads (va_limits sample_validator) = Some 5"
      "best_price (book_opposite sample_book BUY) = Some 102"
    by code_simp+
  have "\<forall>sm. None = Some sm \<longrightarrow> allows_matching sm (o_symbol (sample_heap ''x''))" by simp
  from quotation_rule_in_ticks [OF a this t] c y show ?thesis by auto
qed

text \<open>
  C17: validation only ever fails with an error of the reference data or of a price too
  long to write: every other outcome is an acceptance or a rejection with its reason.
\<close>

theorem validation_raises_only_reference_errors:
  "(validate_new v y inst m b = Inl e \<longrightarrow> e = InvalidOperation \<or> e = ReferenceDataError) \<and>
   (validate_amend v y inst m nq np = Inl e \<longrightarrow> e = InvalidOperation \<or> e = ReferenceDataError)"
  using validate_new_error [of v y inst m b e] validate_amend_error [of v y inst m nq np e]
  by (auto simp: reference_error_def)

theorem validation_raises_only_reference_errors_witness:
  "\<exists>e. validate_new sample_validator ((sample_heap ''x'')\<lparr>o_price := Some (10 ^ 30)\<rparr>) (Some coarse_instrument) None None = Inl e \<and>
     (e = InvalidOperation \<or> e = ReferenceDataError)"
proof -
  let ?y = "(sample_heap ''x'')\<lparr>o_price := Some (10 ^ 30)\<rparr>"
  have "(case validate_new sample_validator ?y (Some coarse_instrument) None None of Inl e \<Rightarrow> True | Inr _ \<Rightarrow> False)"
    by code_simp
  then obtain e where "validate_new sample_validator ?y (Some coarse_instrument) None None = Inl e"
    by (auto split: sum.splits)
  with validation_raises_only_reference_errors show ?thesis by blast
qed

text \<open>
  A band table its constructor accepted gives every price from zero up the band of
  the highest row not above it, whatever order the rows were given in.
\<close>

theorem band_of_the_highest_row:
  assumes "make_band_table rows name = Inr t" and "0 \<le> p"
  shows "\<exists>b. (b, band_for t p) \<in> set rows \<and> b \<le> p \<and> (\<forall>(b', w) \<in> set rows. b' \<le> p \<longrightarrow> b' \<le> b)"
proof -
  note ok = make_band_table_ok [OF assms(1)]
  have "set (bt_bounds t) = fst ` set (zip (bt_bounds t) (bt_bands t))"
    using ok(1) by (simp add: band_table_ok_def flip: set_map)
  then have "set (bt_bounds t) = fst ` set rows" by (simp only: ok(2))
  with band_for_spec [OF ok(1) assms(2), unfolded ok(2)] obtain b where
      "(b, band_for t p) \<in> set rows" "b \<le> p" "\<forall>b' \<in> fst ` set rows. b' \<le> p \<longrightarrow> b' \<le> b"
    by auto
  then show ?thesis by (intro exI [of _ b]) (auto simp: image_def)
qed

theorem band_of_the_highest_row_witness:
  "\<exists>t b. make_band_table [(1000, 150), (0, 30), (500, 80)] ''B'' = Inr t \<and>
     (b :: int, band_for t 700) \<in> set [(1000, 150), (0, 30), (500, 80)] \<and> b \<le> 700"
proof -
  have "(case make_band_table [(1000, 150), (0, 30), (500, 80)] ''B'' of Inl _ \<Rightarrow> False | Inr t \<Rightarrow> True)" by code_simp
  then obtain t where t: "make_band_table [(1000, 150), (0, 30), (500, 80)] ''B'' = Inr t" by (auto split: sum.splits)
  have "0 \<le> (700 :: int)" by simp
  from band_of_the_highest_row [OF t this] t show ?thesis by blast
qed

subsection \<open>Market data\<close>

text \<open>
  After any sequence of trades of positive quantity the statistics are those of the
  whole sequence: first, last, highest and lowest price, total quantity, turnover and
  count; and the volume-weighted average lies between the lowest and the highest price.
\<close>

theorem statistics_of_a_session:
  assumes "stats_of [] st0" and "\<forall>(p, q) \<in> set ts. 0 < q" and "ts \<noteq> []"
  shows "stats_of ts (record_all ts now st0) \<and>
    (\<exists>w lo hi. vwap_units (record_all ts now st0) = Some w \<and> st_low (record_all ts now st0) = Some lo \<and>
       st_high (record_all ts now st0) = Some hi \<and> lo \<le> w \<and> w \<le> hi)"
proof -
  have s: "stats_of ts (record_all ts now st0)" using stats_of_record_all [OF assms(1), of ts now] by simp
  have "0 < sum_list (map snd ts)"
    using assms(2,3)
  proof (induction ts)
    case (Cons t ts)
    then show ?case by (cases "ts = []") auto
  qed simp
  then have "st_volume (record_all ts now st0) \<noteq> 0" using s by (simp add: stats_of_def)
  then obtain w where "vwap_units (record_all ts now st0) = Some w" by (simp add: vwap_units_def)
  with vwap_bounds [OF s assms(2)] s show ?thesis by blast
qed

theorem statistics_of_a_session_witness:
  "stats_of [(102, 5), (103, 3)] (record_all [(102, 5), (103, 3)] (Some 7) (empty_statistics ''7203'' None))"
  using statistics_of_a_session [OF stats_of_empty, of "[(102, 5), (103, 3)]"] by simp

text \<open>
  The price board is one row per tick, highest first, without repetition, inside the
  day's price limits and never below one unit under its centre.
\<close>

theorem board_descends_within_limits:
  assumes "walk_board (Some a) inst rows limits = Inr ps" and "ticks_positive inst"
  shows "sorted_wrt (>) ps \<and> length ps \<le> 2 * rows + 1 \<and>
    (\<forall>p \<in> set ps. \<forall>lo hi. limits = Some (lo, hi) \<longrightarrow> (p \<le> a \<longrightarrow> lo \<le> p) \<and> (a \<le> p \<longrightarrow> p \<le> hi)) \<and>
    (\<forall>p \<in> set ps. p < a \<longrightarrow> 1 \<le> p)"
  by (rule walk_board_sorted [OF assms])

theorem board_descends_within_limits_witness:
  "\<exists>ps. walk_board (Some 3) None 5 (Some (2, 6)) = Inr ps \<and> ps = [6, 5, 4, 3, 2] \<and> sorted_wrt (>) ps"
proof -
  have w: "walk_board (Some 3) None 5 (Some (2, 6)) = Inr [6, 5, 4, 3, 2]" by code_simp
  have "ticks_positive None" by (simp add: ticks_positive_def tick_at_def)
  from board_descends_within_limits [OF w this] w show ?thesis by blast
qed

end
